(* ===== verification/Prelude.thy ===== *)
theory Prelude
  imports Main "HOL-Library.Word" "HOL-Library.Multiset"
begin

text \<open>
  The shared vocabulary of the development: the C integer types as fixed-width words, the
  bit-field macros of \<^verbatim>\<open>lib/common/include/utils_def.h\<close>, the granule geometry, and the
  state monad in which the stateful code is written.

  A computation \<open>('s, 'a) M\<close> maps a state either to a fault or to a value and a new state.
  A fault is the end of the execution of the RMM on this CPU: a failed \<^verbatim>\<open>assert\<close>, a call of
  \<^verbatim>\<open>panic()\<close>, spinning on a lock that this very execution already holds, or an access out of the bounds of an array.
  \<open>wp m Q s\<close> says that \<open>m\<close> does not fault from \<open>s\<close> and ends in a value and a state that
  satisfy \<open>Q\<close> (total correctness).
\<close>

unbundle bit_operations_syntax

section \<open>C integer types\<close>

type_synonym u8 = "8 word"
type_synonym u16 = "16 word"
type_synonym u32 = "32 word"
type_synonym u64 = "64 word"

definition UINT64_MAX :: u64 where "UINT64_MAX = - 1"

section \<open>The bit-field macros of utils\_def.h\<close>

text \<open>A register field is given by its \<open>_SHIFT\<close> and its \<open>_WIDTH\<close>.\<close>

definition INPLACE :: "nat \<Rightarrow> u64 \<Rightarrow> u64" where
  "INPLACE shift val = push_bit shift val"

definition MASK :: "nat \<Rightarrow> nat \<Rightarrow> u64" where
  "MASK shift width = push_bit shift (drop_bit (64 - width) (NOT 0))"

definition EXTRACT :: "nat \<Rightarrow> nat \<Rightarrow> u64 \<Rightarrow> u64" where
  "EXTRACT shift width reg = drop_bit shift (reg AND MASK shift width)"

definition BIT_MASK_ULL :: "nat \<Rightarrow> nat \<Rightarrow> u64" where
  "BIT_MASK_ULL msb lsb = (drop_bit (63 - msb) (NOT 0)) AND (push_bit lsb (NOT 0))"

definition BIT64 :: "nat \<Rightarrow> u64" where
  "BIT64 i = push_bit i 1"

section \<open>Granule geometry\<close>

abbreviation (input) GRANULE_SHIFT :: nat where "GRANULE_SHIFT \<equiv> 12"

definition GRANULE_SIZE :: u64 where "GRANULE_SIZE = 4096"

definition GRANULE_ALIGNED :: "u64 \<Rightarrow> bool" where
  "GRANULE_ALIGNED addr \<longleftrightarrow> addr mod GRANULE_SIZE = 0"

section \<open>Faults and the state monad\<close>

datatype fault = Assert_Fail | Panic | Spin | Out_Of_Bounds

type_synonym ('s, 'a) M = "'s \<Rightarrow> fault + 'a \<times> 's"

definition returnM :: "'a \<Rightarrow> ('s, 'a) M" where
  "returnM x = (\<lambda>s. Inr (x, s))"

definition bindM :: "('s, 'a) M \<Rightarrow> ('a \<Rightarrow> ('s, 'b) M) \<Rightarrow> ('s, 'b) M" where
  "bindM m f = (\<lambda>s. case m s of Inl e \<Rightarrow> Inl e | Inr p \<Rightarrow> f (fst p) (snd p))"

definition thenM :: "('s, 'a) M \<Rightarrow> ('s, 'b) M \<Rightarrow> ('s, 'b) M" where
  "thenM m n = bindM m (\<lambda>_. n)"

definition failM :: "fault \<Rightarrow> ('s, 'a) M" where
  "failM e = (\<lambda>_. Inl e)"

definition assertM :: "bool \<Rightarrow> ('s, unit) M" where
  "assertM b = (if b then returnM () else failM Assert_Fail)"

definition getM :: "('s \<Rightarrow> 'a) \<Rightarrow> ('s, 'a) M" where
  "getM f = (\<lambda>s. Inr (f s, s))"

definition modifyM :: "('s \<Rightarrow> 's) \<Rightarrow> ('s, unit) M" where
  "modifyM f = (\<lambda>s. Inr ((), f s))"

text \<open>A pure computation that may fault, run without touching the state.\<close>

definition liftM :: "('s \<Rightarrow> fault + 'a) \<Rightarrow> ('s, 'a) M" where
  "liftM f = (\<lambda>s. case f s of Inl e \<Rightarrow> Inl e | Inr x \<Rightarrow> Inr (x, s))"

text \<open>A loop over a list of indices, in order.\<close>

fun forM :: "'i list \<Rightarrow> ('i \<Rightarrow> ('s, unit) M) \<Rightarrow> ('s, unit) M" where
  "forM [] f = returnM ()"
| "forM (i # is) f = thenM (f i) (forM is f)"

definition wp :: "('s, 'a) M \<Rightarrow> ('a \<Rightarrow> 's \<Rightarrow> bool) \<Rightarrow> 's \<Rightarrow> bool" where
  "wp m Q s \<longleftrightarrow> (case m s of Inl _ \<Rightarrow> False | Inr p \<Rightarrow> Q (fst p) (snd p))"

named_theorems run_simps \<open>equations that run monadic code on a state\<close>
named_theorems wp_intros \<open>weakest-precondition rules\<close>

lemma run_returnM [run_simps]: "returnM x s = Inr (x, s)"
  by (simp add: returnM_def)

lemma run_bindM [run_simps]:
  "bindM m f s = (case m s of Inl e \<Rightarrow> Inl e | Inr p \<Rightarrow> f (fst p) (snd p))"
  by (simp add: bindM_def)

lemma run_thenM [run_simps]:
  "thenM m n s = (case m s of Inl e \<Rightarrow> Inl e | Inr p \<Rightarrow> n (snd p))"
  by (simp add: thenM_def bindM_def)

lemma run_failM [run_simps]: "failM e s = Inl e"
  by (simp add: failM_def)

lemma run_assertM [run_simps]: "assertM b s = (if b then Inr ((), s) else Inl Assert_Fail)"
  by (simp add: assertM_def run_returnM run_failM)

lemma run_getM [run_simps]: "getM f s = Inr (f s, s)"
  by (simp add: getM_def)

lemma run_modifyM [run_simps]: "modifyM f s = Inr ((), f s)"
  by (simp add: modifyM_def)

lemma run_liftM [run_simps]:
  "liftM f s = (case f s of Inl e \<Rightarrow> Inl e | Inr x \<Rightarrow> Inr (x, s))"
  by (simp add: liftM_def)

lemma wp_returnM [wp_intros]: "Q x s \<Longrightarrow> wp (returnM x) Q s"
  by (simp add: wp_def run_simps)

lemma wp_bindM [wp_intros]: "wp m (\<lambda>x. wp (f x) Q) s \<Longrightarrow> wp (bindM m f) Q s"
  by (auto simp: wp_def run_simps split: sum.splits)

lemma wp_thenM [wp_intros]: "wp m (\<lambda>_. wp n Q) s \<Longrightarrow> wp (thenM m n) Q s"
  by (auto simp: wp_def run_simps split: sum.splits)

lemma wp_assertM [wp_intros]: "b \<Longrightarrow> Q () s \<Longrightarrow> wp (assertM b) Q s"
  by (simp add: wp_def run_simps)

lemma wp_getM [wp_intros]: "Q (f s) s \<Longrightarrow> wp (getM f) Q s"
  by (simp add: wp_def run_simps)

lemma wp_modifyM [wp_intros]: "Q () (f s) \<Longrightarrow> wp (modifyM f) Q s"
  by (simp add: wp_def run_simps)

lemma wp_run: "m s = Inr (x, s') \<Longrightarrow> Q x s' \<Longrightarrow> wp m Q s"
  by (simp add: wp_def)

lemma wp_runD: "wp m Q s \<Longrightarrow> m s = Inr (x, s') \<Longrightarrow> Q x s'"
  by (simp add: wp_def)

lemma wp_total: "wp m Q s \<Longrightarrow> \<exists>x s'. m s = Inr (x, s') \<and> Q x s'"
  by (auto simp: wp_def split: sum.splits)

lemma wp_mono: "wp m Q s \<Longrightarrow> (\<And>x s'. Q x s' \<Longrightarrow> R x s') \<Longrightarrow> wp m R s"
  by (auto simp: wp_def split: sum.splits)

text \<open>A loop keeps an invariant that each of its iterations keeps.\<close>

lemma wp_forM:
  assumes "I s" and "\<And>i s. i \<in> set is \<Longrightarrow> I s \<Longrightarrow> wp (f i) (\<lambda>_. I) s"
  shows "wp (forM is f) (\<lambda>_. I) s"
  using assms
proof (induction "is" arbitrary: s)
  case Nil
  then show ?case by (simp add: wp_returnM)
next
  case (Cons i "is")
  have "wp (f i) (\<lambda>_. I) s" using Cons.prems by simp
  then have "wp (f i) (\<lambda>_. wp (forM is f) (\<lambda>_. I)) s"
    by (rule wp_mono) (use Cons in simp)
  then show ?case by (simp add: wp_thenM)
qed

section \<open>Bits of the macros\<close>

named_theorems bit_facts \<open>bits of masks and fields\<close>

lemma bit_INPLACE [bit_facts]: "bit (INPLACE sh v) n \<longleftrightarrow> sh \<le> n \<and> n < 64 \<and> bit v (n - sh)"
  by (auto simp: INPLACE_def bit_simps)

lemma bit_MASK [bit_facts]: "bit (MASK sh w) n \<longleftrightarrow> sh \<le> n \<and> n < sh + w \<and> n < 64" if "w \<le> 64"
  using that by (auto simp: MASK_def bit_simps)

lemma bit_EXTRACT [bit_facts]:
  "bit (EXTRACT sh w v) n \<longleftrightarrow> n < w \<and> bit v (sh + n)" if "w \<le> 64"
  using that by (auto simp: EXTRACT_def bit_simps bit_MASK dest: bit_imp_le_length)

lemma bit_BIT_MASK_ULL [bit_facts]:
  "bit (BIT_MASK_ULL msb lsb) n \<longleftrightarrow> lsb \<le> n \<and> n \<le> msb" if "msb < 64"
  using that by (auto simp: BIT_MASK_ULL_def bit_simps)

lemma bit_BIT64 [bit_facts]: "bit (BIT64 i) n \<longleftrightarrow> n = i \<and> i < 64"
  by (auto simp: BIT64_def bit_simps)

lemma and_BIT64_eq_0: "w AND BIT64 i = 0 \<longleftrightarrow> \<not> bit w i" if "i < 64"
proof
  assume *: "w AND BIT64 i = 0"
  show "\<not> bit w i"
  proof
    assume "bit w i"
    with that have "bit (w AND BIT64 i) i" by (simp add: bit_and_iff bit_BIT64)
    with * show False by simp
  qed
next
  assume "\<not> bit w i"
  then show "w AND BIT64 i = 0" by (auto intro!: bit_word_eqI simp: bit_and_iff bit_BIT64)
qed

lemma unat_exp: "n < 64 \<Longrightarrow> unat (2 ^ n :: u64) = 2 ^ n"
  by transfer (simp add: take_bit_of_exp nat_power_eq)

lemma take_bit_less_self: "take_bit w v = v" if "v < 2 ^ w" "w < 64" for v :: u64
proof -
  have "unat v < 2 ^ w"
    using that by (simp add: word_less_nat_alt unat_exp)
  then have "unat (take_bit w v) = unat v"
    by (simp add: unsigned_take_bit_eq take_bit_nat_eq_self_iff)
  then show ?thesis by (rule word_unat_eq_iff [THEN iffD2])
qed

lemma bit_less_width: "bit v n \<Longrightarrow> v < 2 ^ w \<Longrightarrow> w < 64 \<Longrightarrow> n < w" for v :: u64
  by (metis bit_take_bit_iff take_bit_less_self)

lemma EXTRACT_INPLACE: "EXTRACT sh w (INPLACE sh v) = v" if "v < 2 ^ w" "sh + w \<le> 64" "w < 64"
proof (rule bit_word_eqI)
  fix n
  have "bit v n \<Longrightarrow> n < w" using that by (blast intro: bit_less_width)
  then show "bit (EXTRACT sh w (INPLACE sh v)) n \<longleftrightarrow> bit v n"
    using that by (auto simp: bit_EXTRACT bit_INPLACE)
qed

text \<open>Unsigned arithmetic that does not wrap.\<close>

lemma unat_add_nowrap: "unat a + unat b < 2 ^ 64 \<Longrightarrow> unat (a + b) = unat a + unat b" for a b :: u64
  by (simp add: unat_word_ariths)

lemma unat_mult_nowrap: "unat a * unat b < 2 ^ 64 \<Longrightarrow> unat (a * b) = unat a * unat b" for a b :: u64
  by (simp add: unat_word_ariths)

lemma unat_lt64: "unat (a :: u64) < 2 ^ 64"
  using unsigned_less [of a] by simp

lemma unat_drop_bit: "unat (drop_bit k a) = unat a div 2 ^ k" for a :: u64
proof -
  have "unat (drop_bit k a) = drop_bit k (unat a)"
    by (rule unat_drop_bit_eq)
  then show ?thesis by (simp only: drop_bit_eq_div)
qed

lemma unat_push_bit_nowrap: "unat a * 2 ^ k < 2 ^ 64 \<Longrightarrow> unat (push_bit k a) = unat a * 2 ^ k" for a :: u64
proof -
  assume *: "unat a * 2 ^ k < 2 ^ 64"
  have "unat (push_bit k a) = take_bit 64 (push_bit k (unat a))"
    by (simp add: unsigned_push_bit_eq)
  also have "\<dots> = unat a * 2 ^ k"
    using * by (simp only: push_bit_eq_mult take_bit_nat_eq_self)
  finally show ?thesis .
qed

lemma unat_inc: "unat a + 1 < 2 ^ 64 \<Longrightarrow> unat (a + 1) = unat a + 1" for a :: u64
  by (simp add: unat_word_ariths)

lemma unat_dec: "a \<noteq> 0 \<Longrightarrow> unat (a - 1) = unat a - 1" for a :: u64
  by (simp add: unat_minus_one)

text \<open>Alignment of an address to a granule, in terms of its low bits.\<close>

lemma GRANULE_ALIGNED_iff: "GRANULE_ALIGNED a \<longleftrightarrow> take_bit 12 a = 0"
proof -
  have "a mod 4096 = take_bit 12 a" by (simp add: take_bit_eq_mod)
  then show ?thesis by (simp add: GRANULE_ALIGNED_def GRANULE_SIZE_def)
qed

lemma GRANULE_ALIGNED_bits: "GRANULE_ALIGNED a \<longleftrightarrow> (\<forall>n<12. \<not> bit a n)"
  by (auto simp: GRANULE_ALIGNED_iff bit_eq_iff bit_simps)

lemma GRANULE_ALIGNED_unat: "GRANULE_ALIGNED a \<longleftrightarrow> unat a mod 4096 = 0"
proof -
  have "unat (a mod 4096) = unat a mod 4096" by (simp add: unat_mod_distrib)
  then show ?thesis
    by (metis GRANULE_ALIGNED_def GRANULE_SIZE_def unat_0 unat_eq_zero)
qed

section \<open>Searching a table\<close>

lemma find_upt_None: "find P [0..<n] = None \<longleftrightarrow> (\<forall>i<n. \<not> P i)"
  by (auto simp: find_None_iff)

lemma find_upt_Some: "find P [0..<n] = Some i \<Longrightarrow> i < n \<and> P i"
  by (auto simp: find_Some_iff)

end
