(* ===== verification/Dram.thy ===== *)
theory Dram
  imports Prelude
begin

text \<open>
  The DRAM layout of the Arm platform port: validation of the DRAM banks of the boot
  manifest (\<^verbatim>\<open>lib/rmm_el3_ifc/src/rmm_el3_ifc_manifest.c\<close>), construction of the layout
  (\<^verbatim>\<open>plat/arm/src/arm_memory.c\<close>) and the two binary searches between granule addresses and
  granule indices (\<^verbatim>\<open>plat/arm/src/arm_granule.c\<close>). The searches are shown to terminate
  without a failing assertion on a well-formed layout, to agree with a linear search, and to
  be inverse to each other; the locale \<open>granule_map\<close> is the interface the granule library
  relies on.

  \<open>PLAT_ARM_MAX_DRAM_BANKS\<close> and \<open>RMM_MAX_GRANULES\<close> are build options; the values are those
  of \<^verbatim>\<open>plat/arm/CMakeLists.txt\<close> and \<^verbatim>\<open>configs/fvp_defcfg.cmake\<close>.
\<close>

section \<open>Layout and searches\<close>

definition PLAT_ARM_MAX_DRAM_BANKS :: u64 where "PLAT_ARM_MAX_DRAM_BANKS = 2"

definition RMM_MAX_GRANULES :: u64 where "RMM_MAX_GRANULES = 0x100000"

record arm_dram_bank =
  bank_base :: u64
  bank_size :: u64
  start_gran_idx :: u64

record arm_dram_layout =
  num_granules :: u64
  num_banks :: u64
  banks :: "arm_dram_bank list"

definition mid :: "u64 \<Rightarrow> u64 \<Rightarrow> u64" where
  "mid l r = l + (r - l) div 2"

lemma unat_mid: "l \<le> r \<Longrightarrow> unat (mid l r) = unat l + (unat r - unat l) div 2"
proof -
  assume le: "l \<le> r"
  have d: "unat ((r - l) div 2) = (unat r - unat l) div 2"
    using le by (simp add: unat_div_distrib unat_sub)
  have "unat l + (unat r - unat l) div 2 \<le> unat r"
    using le by (simp add: word_le_nat_alt)
  then have "unat l + unat ((r - l) div 2) < 2 ^ 64"
    unfolding d using unat_lt64 [of r] by linarith
  then have "unat (l + (r - l) div 2) = unat l + unat ((r - l) div 2)"
    by (rule unat_add_nowrap)
  then show ?thesis by (simp add: mid_def d)
qed

lemma mid_bounds: "l \<le> r \<Longrightarrow> l \<le> mid l r \<and> mid l r \<le> r"
  by (auto simp: word_le_nat_alt unat_mid)

lemma bank_inc: "i < PLAT_ARM_MAX_DRAM_BANKS \<Longrightarrow> unat (i + 1) = unat i + 1"
  by (rule unat_inc) (simp add: PLAT_ARM_MAX_DRAM_BANKS_def word_less_nat_alt)

text \<open>
  The loop of \<^verbatim>\<open>plat_granule_addr_to_idx\<close>: \<open>l\<close> and \<open>r\<close> are its loop variables.
\<close>

function addr_search :: "arm_dram_layout \<Rightarrow> u64 \<Rightarrow> u64 \<Rightarrow> u64 \<Rightarrow> fault + u64" where
  "addr_search dram addr l r =
    (if \<not> l \<le> r then Inr UINT64_MAX
     else let i = mid l r in
       if \<not> i < PLAT_ARM_MAX_DRAM_BANKS then Inl Assert_Fail
       else let b = banks dram ! unat i in
         if addr < bank_base b then
           (if i = 0 then Inr UINT64_MAX else addr_search dram addr l (i - 1))
         else if addr > bank_base b + bank_size b - 1 then addr_search dram addr (i + 1) r
         else Inr (start_gran_idx b + drop_bit GRANULE_SHIFT (addr - bank_base b)))"
  by pat_completeness auto
termination
proof (relation "measure (\<lambda>(dram, addr, l, r). unat r + 1 - unat l)", goal_cases)
  case 1
  then show ?case by simp
next
  case (2 dram addr l r i b)
  then have "l \<le> i" "i \<le> r" using mid_bounds by auto
  moreover have "unat (i - 1) = unat i - 1" using 2 by (simp add: unat_dec)
  moreover have "0 < unat i" using 2 by (simp add: unat_gt_0)
  ultimately show ?case by (simp add: word_le_nat_alt)
next
  case (3 dram addr l r i b)
  then have "l \<le> i" "i \<le> r" using mid_bounds by auto
  moreover have "unat (i + 1) = unat i + 1" using 3 by (simp add: bank_inc)
  ultimately show ?case by (simp add: word_le_nat_alt)
qed

definition plat_granule_addr_to_idx :: "arm_dram_layout \<Rightarrow> u64 \<Rightarrow> fault + u64" where
  "plat_granule_addr_to_idx dram addr =
    (if \<not> GRANULE_ALIGNED addr then Inr UINT64_MAX
     else if \<not> (num_banks dram > 0) then Inl Assert_Fail
     else if \<not> (num_banks dram \<le> PLAT_ARM_MAX_DRAM_BANKS) then Inl Assert_Fail
     else addr_search dram addr 0 (num_banks dram - 1))"

text \<open>
  The loop of \<^verbatim>\<open>plat_granule_idx_to_addr\<close>, with the final assertion that the search was
  successful.
\<close>

function idx_search :: "arm_dram_layout \<Rightarrow> u64 \<Rightarrow> u64 \<Rightarrow> u64 \<Rightarrow> fault + u64" where
  "idx_search dram idx l r =
    (if \<not> l \<le> r then Inl Assert_Fail
     else let i = mid l r in
       if \<not> i < PLAT_ARM_MAX_DRAM_BANKS then Inl Assert_Fail
       else let b = banks dram ! unat i;
                idx_start = start_gran_idx b;
                idx_end = idx_start + drop_bit GRANULE_SHIFT (bank_size b) - 1 in
         if idx < idx_start then
           (if i = 0 then Inl Assert_Fail else idx_search dram idx l (i - 1))
         else if idx > idx_end then idx_search dram idx (i + 1) r
         else Inr (bank_base b + push_bit GRANULE_SHIFT (idx - idx_start)))"
  by pat_completeness auto
termination
proof (relation "measure (\<lambda>(dram, idx, l, r). unat r + 1 - unat l)", goal_cases)
  case 1
  then show ?case by simp
next
  case (2 dram idx l r i)
  then have "l \<le> i" "i \<le> r" using mid_bounds by auto
  moreover have "unat (i - 1) = unat i - 1" using 2 by (simp add: unat_dec)
  moreover have "0 < unat i" using 2 by (simp add: unat_gt_0)
  ultimately show ?case by (simp add: word_le_nat_alt)
next
  case (3 dram idx l r i)
  then have "l \<le> i" "i \<le> r" using mid_bounds by auto
  moreover have "unat (i + 1) = unat i + 1" using 3 by (simp add: bank_inc)
  ultimately show ?case by (simp add: word_le_nat_alt)
qed

definition plat_granule_idx_to_addr :: "arm_dram_layout \<Rightarrow> u64 \<Rightarrow> fault + u64" where
  "plat_granule_idx_to_addr dram idx =
    (if \<not> (num_banks dram > 0) then Inl Assert_Fail
     else if \<not> (idx < num_granules dram) then Inl Assert_Fail
     else idx_search dram idx 0 (num_banks dram - 1))"

declare addr_search.simps [simp del] idx_search.simps [simp del]

section \<open>Well-formed layouts\<close>

text \<open>
  \<open>wf_dram\<close> is what the bootloader's manifest has to provide: banks of whole granules, in
  ascending order, not overlapping, and numbered consecutively.
\<close>

definition bank_ok :: "arm_dram_bank \<Rightarrow> bool" where
  "bank_ok b \<longleftrightarrow> GRANULE_ALIGNED (bank_base b) \<and> GRANULE_ALIGNED (bank_size b) \<and>
     0 < bank_size b \<and> unat (bank_base b) + unat (bank_size b) < 2 ^ 64"

definition bank_granules :: "arm_dram_bank \<Rightarrow> nat" where
  "bank_granules b = unat (bank_size b) div 4096"

definition bank_end :: "arm_dram_bank \<Rightarrow> nat" where
  "bank_end b = unat (bank_base b) + unat (bank_size b)"

definition gran_end :: "arm_dram_bank \<Rightarrow> nat" where
  "gran_end b = unat (start_gran_idx b) + bank_granules b"

definition wf_dram :: "arm_dram_layout \<Rightarrow> bool" where
  "wf_dram d \<longleftrightarrow>
     0 < num_banks d \<and> num_banks d \<le> PLAT_ARM_MAX_DRAM_BANKS \<and>
     unat (num_banks d) \<le> length (banks d) \<and>
     num_granules d \<le> RMM_MAX_GRANULES \<and>
     (\<forall>i < unat (num_banks d). bank_ok (banks d ! i)) \<and>
     (\<forall>i < unat (num_banks d) - 1.
        bank_end (banks d ! i) \<le> unat (bank_base (banks d ! Suc i)) \<and>
        unat (start_gran_idx (banks d ! Suc i)) = gran_end (banks d ! i)) \<and>
     start_gran_idx (banks d ! 0) = 0 \<and>
     unat (num_granules d) = gran_end (banks d ! (unat (num_banks d) - 1))"

definition in_bank :: "arm_dram_layout \<Rightarrow> nat \<Rightarrow> u64 \<Rightarrow> bool" where
  "in_bank d i a \<longleftrightarrow> i < unat (num_banks d) \<and>
     bank_base (banks d ! i) \<le> a \<and> unat a < bank_end (banks d ! i)"

lemma wf_banks_sorted:
  assumes "wf_dram d" "i < j" "j < unat (num_banks d)"
  shows "bank_end (banks d ! i) \<le> unat (bank_base (banks d ! j)) \<and>
         gran_end (banks d ! i) \<le> unat (start_gran_idx (banks d ! j))"
  using assms(2,3)
proof (induction j)
  case 0
  then show ?case by simp
next
  case (Suc j)
  have step: "bank_end (banks d ! j) \<le> unat (bank_base (banks d ! Suc j))"
    "unat (start_gran_idx (banks d ! Suc j)) = gran_end (banks d ! j)"
    using assms(1) Suc.prems by (simp_all add: wf_dram_def)
  show ?case
  proof (cases "i = j")
    case True
    with step show ?thesis by simp
  next
    case False
    with Suc have "bank_end (banks d ! i) \<le> unat (bank_base (banks d ! j))"
      "gran_end (banks d ! i) \<le> unat (start_gran_idx (banks d ! j))" by simp_all
    with step show ?thesis by (simp add: bank_end_def gran_end_def)
  qed
qed

lemma wf_bank_ok: "wf_dram d \<Longrightarrow> i < unat (num_banks d) \<Longrightarrow> bank_ok (banks d ! i)"
  by (simp add: wf_dram_def)

lemma wf_num_banks: "wf_dram d \<Longrightarrow> 0 < unat (num_banks d) \<and> unat (num_banks d) \<le> 2"
  by (simp add: wf_dram_def PLAT_ARM_MAX_DRAM_BANKS_def word_le_nat_alt word_less_nat_alt)

lemma bank_last:
  assumes "bank_ok b"
  shows "a > bank_base b + bank_size b - 1 \<longleftrightarrow> bank_end b \<le> unat a"
proof -
  have s: "unat (bank_base b + bank_size b) = bank_end b"
    using assms by (simp add: bank_ok_def bank_end_def unat_add_nowrap)
  have "0 < bank_end b" using assms by (auto simp: bank_ok_def bank_end_def unat_gt_0)
  then have "bank_base b + bank_size b \<noteq> 0" using s by (metis less_irrefl unat_0)
  then have "unat (bank_base b + bank_size b - 1) = bank_end b - 1"
    by (simp add: unat_dec s)
  with \<open>0 < bank_end b\<close> show ?thesis by (simp add: word_less_nat_alt) linarith
qed

lemma gran_last:
  assumes "bank_ok b" "gran_end b \<le> unat (num_granules d)"
  shows "x > start_gran_idx b + drop_bit 12 (bank_size b) - 1 \<longleftrightarrow> gran_end b \<le> unat x"
proof -
  have "bank_granules b > 0"
  proof -
    have "unat (bank_size b) mod 4096 = 0" "0 < unat (bank_size b)"
      using assms by (auto simp: bank_ok_def GRANULE_ALIGNED_unat unat_gt_0)
    then have "4096 \<le> unat (bank_size b)" by (metis mod_less not_le less_irrefl)
    then show ?thesis by (simp add: bank_granules_def div_greater_zero_iff)
  qed
  then have pos: "0 < gran_end b" by (simp add: gran_end_def)
  have "unat (drop_bit 12 (bank_size b)) = bank_granules b"
    by (simp add: unat_drop_bit bank_granules_def)
  moreover have "gran_end b < 2 ^ 64" using assms(2) unat_lt64 [of "num_granules d"] by linarith
  ultimately have s: "unat (start_gran_idx b + drop_bit 12 (bank_size b)) = gran_end b"
    by (simp add: gran_end_def unat_add_nowrap)
  with pos have "start_gran_idx b + drop_bit 12 (bank_size b) \<noteq> 0" by (metis less_irrefl unat_0)
  then have "unat (start_gran_idx b + drop_bit 12 (bank_size b) - 1) = gran_end b - 1"
    by (simp add: unat_dec s)
  with pos show ?thesis by (simp add: word_less_nat_alt) linarith
qed

lemma wf_gran_end_le:
  assumes "wf_dram d" "i < unat (num_banks d)"
  shows "gran_end (banks d ! i) \<le> unat (num_granules d)"
proof (cases "i = unat (num_banks d) - 1")
  case True
  with assms show ?thesis by (simp add: wf_dram_def)
next
  case False
  with assms have "gran_end (banks d ! i) \<le> unat (start_gran_idx (banks d ! (unat (num_banks d) - 1)))"
    using wf_banks_sorted [of d i "unat (num_banks d) - 1"] by simp
  also have "\<dots> \<le> gran_end (banks d ! (unat (num_banks d) - 1))" by (simp add: gran_end_def)
  also have "\<dots> = unat (num_granules d)" using assms(1) by (simp add: wf_dram_def)
  finally show ?thesis .
qed

section \<open>The searches on a well-formed layout\<close>

lemma wf_bank_index: "wf_dram d \<Longrightarrow> unat i < unat (num_banks d) \<Longrightarrow> i < PLAT_ARM_MAX_DRAM_BANKS"
  by (simp add: wf_dram_def word_le_nat_alt word_less_nat_alt)

lemma addr_search_step:
  assumes wf: "wf_dram d" and lr: "l \<le> r" and r: "unat r < unat (num_banks d)" and i: "i = mid l r"
  shows "addr_search d a l r =
    (if a < bank_base (banks d ! unat i) then
       (if i = 0 then Inr UINT64_MAX else addr_search d a l (i - 1))
     else if bank_end (banks d ! unat i) \<le> unat a then addr_search d a (i + 1) r
     else Inr (start_gran_idx (banks d ! unat i) + drop_bit 12 (a - bank_base (banks d ! unat i))))"
proof -
  have "unat i < unat (num_banks d)"
    using mid_bounds [OF lr] r by (simp add: i word_le_nat_alt)
  with wf have "i < PLAT_ARM_MAX_DRAM_BANKS" "bank_ok (banks d ! unat i)"
    by (simp_all add: wf_bank_index wf_bank_ok)
  with lr show ?thesis
    by (subst addr_search.simps) (simp add: Let_def bank_last flip: i)
qed

lemma addr_search_found:
  assumes wf: "wf_dram d" and "in_bank d j a" and "unat l \<le> j" "j \<le> unat r"
    and "unat r < unat (num_banks d)"
  shows "addr_search d a l r =
           Inr (start_gran_idx (banks d ! j) + drop_bit 12 (a - bank_base (banks d ! j)))"
  using assms
proof (induction d a l r rule: addr_search.induct)
  case (1 d a l r)
  define i where "i = mid l r"
  note wf = \<open>wf_dram d\<close>
  have lr: "l \<le> r" using 1 by (simp add: word_le_nat_alt)
  have i: "unat l \<le> unat i" "unat i \<le> unat r"
    using mid_bounds [OF lr] by (simp_all add: i_def word_le_nat_alt)
  have imax: "i < PLAT_ARM_MAX_DRAM_BANKS" using wf i "1.prems" by (simp add: wf_bank_index)
  note step = addr_search_step [OF wf lr "1.prems"(5) i_def, of a]
  consider "j < unat i" | "j = unat i" | "unat i < j" by linarith
  then show ?case
  proof cases
    case 1
    then have below: "a < bank_base (banks d ! unat i)"
      using wf_banks_sorted [OF wf, of j "unat i"] i "1.prems"
      by (simp add: in_bank_def word_less_nat_alt)
    have "i \<noteq> 0" using 1 by auto
    then have "addr_search d a l (i - 1) =
      Inr (start_gran_idx (banks d ! j) + drop_bit 12 (a - bank_base (banks d ! j)))"
      using "1.IH"(1) [OF _ i_def _ refl below] lr imax wf "1.prems" i 1 by (simp add: unat_dec)
    with step below \<open>i \<noteq> 0\<close> show ?thesis by simp
  next
    case 2
    with "1.prems" step show ?thesis by (auto simp: in_bank_def)
  next
    case 3
    then have "bank_end (banks d ! unat i) \<le> unat a" "\<not> a < bank_base (banks d ! unat i)"
      using wf_banks_sorted [OF wf, of "unat i" j] "1.prems"
      by (auto simp: in_bank_def bank_end_def word_less_nat_alt word_le_nat_alt)
    moreover from this have "addr_search d a (i + 1) r =
      Inr (start_gran_idx (banks d ! j) + drop_bit 12 (a - bank_base (banks d ! j)))"
      using "1.IH"(2) [OF _ i_def _ refl] bank_last [OF wf_bank_ok [OF wf, of "unat i"]] lr imax wf "1.prems" i 3
      by (simp add: bank_inc)
    ultimately show ?thesis using step by simp
  qed
qed

lemma addr_search_none:
  assumes wf: "wf_dram d" and "\<And>j. \<not> in_bank d j a" and "unat r < unat (num_banks d)"
  shows "addr_search d a l r = Inr UINT64_MAX"
  using assms
proof (induction d a l r rule: addr_search.induct)
  case (1 d a l r)
  define i where "i = mid l r"
  note wf = \<open>wf_dram d\<close>
  show ?case
  proof (cases "l \<le> r")
    case False
    then show ?thesis by (subst addr_search.simps) simp
  next
    case lr: True
    have i: "unat l \<le> unat i" "unat i \<le> unat r"
      using mid_bounds [OF lr] by (simp_all add: i_def word_le_nat_alt)
    have imax: "i < PLAT_ARM_MAX_DRAM_BANKS" using wf i "1.prems" by (simp add: wf_bank_index)
    have ok: "bank_ok (banks d ! unat i)" using wf i "1.prems" by (simp add: wf_bank_ok)
    have out: "a < bank_base (banks d ! unat i) \<or> bank_end (banks d ! unat i) \<le> unat a"
      using "1.prems"(2) [of "unat i"] i "1.prems"(3) by (auto simp: in_bank_def)
    have down: "a < bank_base (banks d ! unat i) \<Longrightarrow> i \<noteq> 0 \<Longrightarrow> addr_search d a l (i - 1) = Inr UINT64_MAX"
      using "1.IH"(1) [OF _ i_def _ refl] lr imax wf "1.prems" i by (simp add: unat_dec)
    have up: "\<not> a < bank_base (banks d ! unat i) \<Longrightarrow> bank_end (banks d ! unat i) \<le> unat a \<Longrightarrow>
        addr_search d a (i + 1) r = Inr UINT64_MAX"
      using "1.IH"(2) [OF _ i_def _ refl] lr imax wf "1.prems" bank_last [OF ok] by simp
    show ?thesis
      using addr_search_step [OF wf lr "1.prems"(3) i_def, of a] out down up by auto
  qed
qed

definition in_granules :: "arm_dram_layout \<Rightarrow> nat \<Rightarrow> u64 \<Rightarrow> bool" where
  "in_granules d j x \<longleftrightarrow> j < unat (num_banks d) \<and>
     start_gran_idx (banks d ! j) \<le> x \<and> unat x < gran_end (banks d ! j)"

lemma in_granules_exists:
  assumes wf: "wf_dram d" and "x < num_granules d"
  shows "\<exists>j. in_granules d j x"
proof -
  have "\<exists>j. in_granules d j x" if "k < unat (num_banks d)" "unat x < gran_end (banks d ! k)" for k
    using that
  proof (induction k)
    case 0
    then show ?case using wf by (auto simp: in_granules_def wf_dram_def)
  next
    case (Suc k)
    show ?case
    proof (cases "unat x < gran_end (banks d ! k)")
      case True
      with Suc show ?thesis by simp
    next
      case False
      with wf Suc.prems have "start_gran_idx (banks d ! Suc k) \<le> x"
        by (simp add: wf_dram_def word_le_nat_alt)
      with Suc.prems show ?thesis by (auto simp: in_granules_def)
    qed
  qed
  moreover have "unat x < gran_end (banks d ! (unat (num_banks d) - 1))"
    using assms by (simp add: wf_dram_def word_less_nat_alt)
  ultimately show ?thesis using wf_num_banks [OF wf] by (meson diff_less zero_less_one)
qed

lemma idx_search_step:
  assumes wf: "wf_dram d" and lr: "l \<le> r" and r: "unat r < unat (num_banks d)" and i: "i = mid l r"
  shows "idx_search d x l r =
    (if x < start_gran_idx (banks d ! unat i) then
       (if i = 0 then Inl Assert_Fail else idx_search d x l (i - 1))
     else if gran_end (banks d ! unat i) \<le> unat x then idx_search d x (i + 1) r
     else Inr (bank_base (banks d ! unat i) + push_bit 12 (x - start_gran_idx (banks d ! unat i))))"
proof -
  have lt: "unat i < unat (num_banks d)"
    using mid_bounds [OF lr] r by (simp add: i word_le_nat_alt)
  with wf have "i < PLAT_ARM_MAX_DRAM_BANKS" "bank_ok (banks d ! unat i)"
    by (simp_all add: wf_bank_index wf_bank_ok)
  with lr gran_last [OF _ wf_gran_end_le [OF wf lt]] show ?thesis
    by (subst idx_search.simps) (simp add: Let_def flip: i)
qed

lemma idx_search_found:
  assumes wf: "wf_dram d" and "in_granules d j x" and "unat l \<le> j" "j \<le> unat r"
    and "unat r < unat (num_banks d)"
  shows "idx_search d x l r =
           Inr (bank_base (banks d ! j) + push_bit 12 (x - start_gran_idx (banks d ! j)))"
  using assms
proof (induction d x l r rule: idx_search.induct)
  case (1 d x l r)
  define i where "i = mid l r"
  note wf = \<open>wf_dram d\<close>
  have lr: "l \<le> r" using 1 by (simp add: word_le_nat_alt)
  have i: "unat l \<le> unat i" "unat i \<le> unat r"
    using mid_bounds [OF lr] by (simp_all add: i_def word_le_nat_alt)
  have imax: "i < PLAT_ARM_MAX_DRAM_BANKS" using wf i "1.prems" by (simp add: wf_bank_index)
  note step = idx_search_step [OF wf lr "1.prems"(5) i_def, of x]
  consider "j < unat i" | "j = unat i" | "unat i < j" by linarith
  then show ?case
  proof cases
    case 1
    then have below: "x < start_gran_idx (banks d ! unat i)"
      using wf_banks_sorted [OF wf, of j "unat i"] i "1.prems"
      by (simp add: in_granules_def word_less_nat_alt)
    have "i \<noteq> 0" using 1 by auto
    then have "idx_search d x l (i - 1) =
      Inr (bank_base (banks d ! j) + push_bit 12 (x - start_gran_idx (banks d ! j)))"
      using "1.IH"(1) [OF _ i_def _ refl refl refl below] lr imax wf "1.prems" i 1 by (simp add: unat_dec)
    with step below \<open>i \<noteq> 0\<close> show ?thesis by simp
  next
    case 2
    with "1.prems" step show ?thesis by (auto simp: in_granules_def)
  next
    case 3
    have ilt: "unat i < unat (num_banks d)" using i "1.prems" by simp
    from 3 have above: "gran_end (banks d ! unat i) \<le> unat x" "\<not> x < start_gran_idx (banks d ! unat i)"
      using wf_banks_sorted [OF wf, of "unat i" j] "1.prems"
      by (auto simp: in_granules_def gran_end_def word_less_nat_alt word_le_nat_alt)
    moreover have "idx_search d x (i + 1) r =
      Inr (bank_base (banks d ! j) + push_bit 12 (x - start_gran_idx (banks d ! j)))"
      using "1.IH"(2) [OF _ i_def _ refl refl refl]
        gran_last [OF wf_bank_ok [OF wf ilt] wf_gran_end_le [OF wf ilt]] above lr imax wf "1.prems" i 3
      by (simp add: bank_inc)
    ultimately show ?thesis using step by simp
  qed
qed

lemma drop_push_12: "unat y * 4096 < 2 ^ 64 \<Longrightarrow> drop_bit 12 (push_bit 12 y) = y" for y :: u64
  by (rule word_unat_eq_iff [THEN iffD2]) (simp add: unat_drop_bit unat_push_bit_nowrap)

lemma push_drop_12: "GRANULE_ALIGNED y \<Longrightarrow> push_bit 12 (drop_bit 12 y) = y"
proof (rule bit_word_eqI)
  fix n assume "GRANULE_ALIGNED y"
  then show "bit (push_bit 12 (drop_bit 12 y)) n \<longleftrightarrow> bit y n"
    by (cases "n < 12") (auto simp: bit_simps GRANULE_ALIGNED_bits dest: bit_imp_le_length)
qed

lemma GRANULE_ALIGNED_diff:
  "GRANULE_ALIGNED a \<Longrightarrow> GRANULE_ALIGNED b \<Longrightarrow> b \<le> a \<Longrightarrow> GRANULE_ALIGNED (a - b)"
  by (simp add: GRANULE_ALIGNED_unat unat_sub mod_eq_0_iff_dvd dvd_diff_nat)

lemma wf_addr_to_idx:
  assumes "wf_dram d" "GRANULE_ALIGNED a" "in_bank d j a"
  shows "plat_granule_addr_to_idx d a =
     Inr (start_gran_idx (banks d ! j) + drop_bit 12 (a - bank_base (banks d ! j)))"
proof -
  have n: "num_banks d \<noteq> 0" "0 < num_banks d" "num_banks d \<le> PLAT_ARM_MAX_DRAM_BANKS"
    using assms(1) by (auto simp: wf_dram_def)
  have "unat (num_banks d - 1) = unat (num_banks d) - 1" using n by (simp add: unat_dec)
  then have "addr_search d a 0 (num_banks d - 1) =
     Inr (start_gran_idx (banks d ! j) + drop_bit 12 (a - bank_base (banks d ! j)))"
    using assms wf_num_banks [OF assms(1)]
    by (intro addr_search_found) (auto simp: in_bank_def)
  with assms n show ?thesis by (simp add: plat_granule_addr_to_idx_def)
qed

lemma wf_addr_to_idx_none:
  assumes "wf_dram d" "\<And>j. \<not> in_bank d j a"
  shows "plat_granule_addr_to_idx d a = Inr UINT64_MAX"
proof -
  have n: "num_banks d \<noteq> 0" "0 < num_banks d" "num_banks d \<le> PLAT_ARM_MAX_DRAM_BANKS"
    using assms(1) by (auto simp: wf_dram_def)
  have "unat (num_banks d - 1) < unat (num_banks d)"
    using n wf_num_banks [OF assms(1)] by (simp add: unat_dec)
  then have "addr_search d a 0 (num_banks d - 1) = Inr UINT64_MAX"
    using assms by (intro addr_search_none) auto
  with n show ?thesis by (simp add: plat_granule_addr_to_idx_def)
qed

lemma wf_addr_to_idx_out:
  "wf_dram d \<Longrightarrow> \<not> (GRANULE_ALIGNED a \<and> (\<exists>j. in_bank d j a)) \<Longrightarrow>
     plat_granule_addr_to_idx d a = Inr UINT64_MAX"
proof (cases "GRANULE_ALIGNED a")
  case False
  then show ?thesis by (simp add: plat_granule_addr_to_idx_def)
qed (simp add: wf_addr_to_idx_none)

lemma wf_idx_to_addr:
  assumes "wf_dram d" "in_granules d j x"
  shows "plat_granule_idx_to_addr d x =
     Inr (bank_base (banks d ! j) + push_bit 12 (x - start_gran_idx (banks d ! j)))"
proof -
  have n: "num_banks d \<noteq> 0" "0 < num_banks d" using assms(1) by (auto simp: wf_dram_def)
  have "x < num_granules d"
    using assms wf_gran_end_le [OF assms(1), of j] by (simp add: in_granules_def word_less_nat_alt)
  moreover have "unat (num_banks d - 1) = unat (num_banks d) - 1" using n by (simp add: unat_dec)
  then have "idx_search d x 0 (num_banks d - 1) =
     Inr (bank_base (banks d ! j) + push_bit 12 (x - start_gran_idx (banks d ! j)))"
    using assms wf_num_banks [OF assms(1)]
    by (intro idx_search_found) (auto simp: in_granules_def)
  ultimately show ?thesis using n by (simp add: plat_granule_idx_to_addr_def)
qed

lemma in_bank_granules:
  assumes wf: "wf_dram d" and a: "in_bank d j a"
  defines "b \<equiv> banks d ! j"
  defines "x \<equiv> start_gran_idx b + drop_bit 12 (a - bank_base b)"
  shows "in_granules d j x" "x - start_gran_idx b = drop_bit 12 (a - bank_base b)"
proof -
  have off: "unat (a - bank_base b) = unat a - unat (bank_base b)"
    using a by (simp add: in_bank_def b_def unat_sub)
  have "unat (a - bank_base b) < unat (bank_size b)"
    using a unfolding off by (simp add: in_bank_def b_def bank_end_def word_le_nat_alt) linarith
  moreover have "unat (bank_size b) mod 4096 = 0"
    using wf_bank_ok [OF wf, of j] a by (simp add: bank_ok_def GRANULE_ALIGNED_unat in_bank_def b_def)
  ultimately have lt: "unat (drop_bit 12 (a - bank_base b)) < bank_granules b"
    by (simp add: unat_drop_bit bank_granules_def less_mult_imp_div_less mod_eq_0_iff_dvd)
  have "gran_end b < 2 ^ 64"
    using wf_gran_end_le [OF wf, of j] a unat_lt64 [of "num_granules d"] by (simp add: in_bank_def b_def)
  then have x: "unat x = unat (start_gran_idx b) + unat (drop_bit 12 (a - bank_base b))"
    using lt by (simp add: x_def unat_add_nowrap gran_end_def)
  with lt a show "in_granules d j x"
    by (simp add: in_granules_def in_bank_def gran_end_def b_def word_le_nat_alt)
  show "x - start_gran_idx b = drop_bit 12 (a - bank_base b)" by (simp add: x_def)
qed

lemma in_granules_bank:
  assumes wf: "wf_dram d" and x: "in_granules d j x"
  defines "b \<equiv> banks d ! j"
  defines "a \<equiv> bank_base b + push_bit 12 (x - start_gran_idx b)"
  shows "in_bank d j a" "GRANULE_ALIGNED a" "drop_bit 12 (a - bank_base b) = x - start_gran_idx b"
proof -
  have ok: "bank_ok b" using wf_bank_ok [OF wf, of j] x by (simp add: in_granules_def b_def)
  have "unat (x - start_gran_idx b) = unat x - unat (start_gran_idx b)"
    using x by (simp add: in_granules_def b_def unat_sub)
  then have lt: "unat (x - start_gran_idx b) < bank_granules b"
    using x by (simp add: in_granules_def b_def gran_end_def word_le_nat_alt) linarith
  have sz: "bank_granules b * 4096 = unat (bank_size b)"
    using ok by (simp add: bank_ok_def GRANULE_ALIGNED_unat bank_granules_def mod_eq_0_iff_dvd)
  have lt': "unat (x - start_gran_idx b) * 4096 < unat (bank_size b)"
    unfolding sz [symmetric] using lt by simp
  then have nowrap: "unat (x - start_gran_idx b) * 4096 < 2 ^ 64"
    using unat_lt64 [of "bank_size b"] by linarith
  then have p: "unat (push_bit 12 (x - start_gran_idx b)) = unat (x - start_gran_idx b) * 4096"
    by (simp add: unat_push_bit_nowrap)
  have ua: "unat a = unat (bank_base b) + unat (x - start_gran_idx b) * 4096"
    unfolding a_def using ok lt' p by (subst unat_add_nowrap) (simp_all add: bank_ok_def)
  then show "in_bank d j a"
    using x lt' by (simp add: in_granules_def in_bank_def b_def bank_end_def word_le_nat_alt)
  show "GRANULE_ALIGNED a"
    using ok ua by (simp add: GRANULE_ALIGNED_unat bank_ok_def)
  show "drop_bit 12 (a - bank_base b) = x - start_gran_idx b"
    using nowrap by (simp add: a_def drop_push_12)
qed

section \<open>The interface of the granule library\<close>

locale granule_map =
  fixes wf :: "'d \<Rightarrow> bool"
    and to_idx to_addr :: "'d \<Rightarrow> u64 \<Rightarrow> fault + u64"
    and granule_count :: "'d \<Rightarrow> u64"
  assumes to_idx_total: "wf d \<Longrightarrow> \<exists>i. to_idx d a = Inr i"
    and to_addr_of_idx: "wf d \<Longrightarrow> i < granule_count d \<Longrightarrow>
          \<exists>a. to_addr d i = Inr a \<and> GRANULE_ALIGNED a \<and> to_idx d a = Inr i"
    and to_idx_range: "wf d \<Longrightarrow> to_idx d a = Inr i \<Longrightarrow>
          i = UINT64_MAX \<or> i < granule_count d \<and> GRANULE_ALIGNED a \<and> to_addr d i = Inr a"
    and count_bound: "wf d \<Longrightarrow> granule_count d \<le> RMM_MAX_GRANULES"
begin

lemma MAX_out_of_range: "\<not> UINT64_MAX < RMM_MAX_GRANULES"
  by (simp add: UINT64_MAX_def RMM_MAX_GRANULES_def)

lemma idx_in_range:
  "wf d \<Longrightarrow> to_idx d a = Inr i \<Longrightarrow> i < RMM_MAX_GRANULES \<Longrightarrow>
     i < granule_count d \<and> GRANULE_ALIGNED a \<and> to_addr d i = Inr a"
  using to_idx_range [of d a i] MAX_out_of_range by auto

lemma to_idx_inj:
  assumes "wf d" "to_idx d a = Inr i" "to_idx d b = Inr i" "i < RMM_MAX_GRANULES"
  shows "a = b"
  using idx_in_range [OF assms(1,2,4)] idx_in_range [OF assms(1,3,4)] by simp

lemma to_addr_inj:
  assumes "wf d" "i < granule_count d" "j < granule_count d" "to_addr d i = to_addr d j"
  shows "i = j"
  using to_addr_of_idx [OF assms(1,2)] to_addr_of_idx [OF assms(1,3)] assms(4) by auto

end

lemma dram_to_addr:
  assumes "wf_dram d" "i < num_granules d"
  shows "\<exists>a. plat_granule_idx_to_addr d i = Inr a \<and> GRANULE_ALIGNED a \<and>
             plat_granule_addr_to_idx d a = Inr i"
proof -
  obtain j where j: "in_granules d j i" using in_granules_exists [OF assms] ..
  let ?a = "bank_base (banks d ! j) + push_bit 12 (i - start_gran_idx (banks d ! j))"
  have "plat_granule_addr_to_idx d ?a = Inr i"
    using wf_addr_to_idx [OF assms(1) in_granules_bank(2,1) [OF assms(1) j]]
      in_granules_bank(3) [OF assms(1) j] by simp
  then show ?thesis
    using wf_idx_to_addr [OF assms(1) j] in_granules_bank(2) [OF assms(1) j] by auto
qed

lemma dram_to_idx:
  assumes "wf_dram d" "plat_granule_addr_to_idx d a = Inr i"
  shows "i = UINT64_MAX \<or> i < num_granules d \<and> GRANULE_ALIGNED a \<and> plat_granule_idx_to_addr d i = Inr a"
proof (cases "GRANULE_ALIGNED a \<and> (\<exists>j. in_bank d j a)")
  case True
  then obtain j where j: "in_bank d j a" and al: "GRANULE_ALIGNED a" by auto
  let ?b = "banks d ! j"
  have i: "i = start_gran_idx ?b + drop_bit 12 (a - bank_base ?b)"
    using wf_addr_to_idx [OF assms(1) al j] assms(2) by simp
  note g = in_bank_granules [OF assms(1) j, folded i]
  have "GRANULE_ALIGNED (a - bank_base ?b)"
    using al wf_bank_ok [OF assms(1), of j] j
    by (intro GRANULE_ALIGNED_diff) (auto simp: in_bank_def bank_ok_def)
  then have "plat_granule_idx_to_addr d i = Inr a"
    using wf_idx_to_addr [OF assms(1) g(1)] g(2) by (simp add: push_drop_12)
  moreover have "i < num_granules d"
    using g(1) wf_gran_end_le [OF assms(1), of j] by (simp add: in_granules_def word_less_nat_alt)
  ultimately show ?thesis using al by simp
next
  case False
  from wf_addr_to_idx_out [OF assms(1) this] assms(2) show ?thesis by simp
qed

lemma dram_to_idx_total: "wf_dram d \<Longrightarrow> \<exists>i. plat_granule_addr_to_idx d a = Inr i"
  using wf_addr_to_idx [of d a] wf_addr_to_idx_out [of d a] by blast

interpretation dram: granule_map wf_dram plat_granule_addr_to_idx plat_granule_idx_to_addr num_granules
proof unfold_locales
  show "num_granules d \<le> RMM_MAX_GRANULES" if "wf_dram d" for d
    using that by (simp add: wf_dram_def)
qed (use dram_to_idx_total dram_to_addr dram_to_idx in \<open>blast+\<close>)

section \<open>The boot manifest\<close>

record ns_dram_bank =
  ns_base :: u64
  ns_size :: u64

text \<open>The pointer \<open>banks\<close> is kept for the checksum; \<open>ns_banks\<close> is the array it points to.\<close>

record ns_dram_info =
  ns_num_banks :: u64
  ns_banks_ptr :: u64
  ns_banks :: "ns_dram_bank list"
  ns_checksum :: u64

definition E_RMM_BOOT_SUCCESS :: int where "E_RMM_BOOT_SUCCESS = 0"
definition E_RMM_BOOT_MANIFEST_VERSION_NOT_SUPPORTED :: int where
  "E_RMM_BOOT_MANIFEST_VERSION_NOT_SUPPORTED = - 6"
definition E_RMM_BOOT_MANIFEST_DATA_ERROR :: int where
  "E_RMM_BOOT_MANIFEST_DATA_ERROR = - 7"

definition RMM_EL3_MANIFEST_MAKE_VERSION :: "u32 \<Rightarrow> u32 \<Rightarrow> u32" where
  "RMM_EL3_MANIFEST_MAKE_VERSION major minor =
     push_bit 16 (major AND 0x7FFF) OR (minor AND 0xFFFF)"

text \<open>
  The loop over the banks: \<open>Some (checksum, num_granules)\<close>, or \<open>None\<close> where it returns the
  data error. \<open>max_pa_size\<close> is \<open>1ULL << arch_feat_get_pa_width()\<close>.
\<close>

fun check_banks :: "u64 \<Rightarrow> ns_dram_bank list \<Rightarrow> u64 \<Rightarrow> u64 \<Rightarrow> u64 \<Rightarrow> (u64 \<times> u64) option" where
  "check_banks max_pa_size [] checksum ng end = Some (checksum, ng)"
| "check_banks max_pa_size (b # bs) checksum ng end =
    (if ns_base b = 0 \<or> ns_size b = 0 \<or> (ns_base b OR ns_size b) AND (GRANULE_SIZE - 1) \<noteq> 0 then None
     else if ns_base b < end then None
     else let end' = ns_base b + ns_size b - 1 in
       if end' \<ge> max_pa_size then None
       else check_banks max_pa_size bs (checksum + (ns_base b + ns_size b))
              (ng + ns_size b div GRANULE_SIZE) end')"

definition rmm_el3_ifc_get_dram_data_validated_pa ::
  "nat \<Rightarrow> u32 \<Rightarrow> ns_dram_info \<Rightarrow> u64 \<Rightarrow> int \<times> ns_dram_info option" where
  "rmm_el3_ifc_get_dram_data_validated_pa pa_width version plat_dram max_num_banks =
    (if version < RMM_EL3_MANIFEST_MAKE_VERSION 0 2
     then (E_RMM_BOOT_MANIFEST_VERSION_NOT_SUPPORTED, None)
     else if ns_num_banks plat_dram = 0 \<or> ns_num_banks plat_dram > max_num_banks \<or>
             ns_banks_ptr plat_dram = 0
     then (E_RMM_BOOT_MANIFEST_DATA_ERROR, None)
     else (case check_banks (push_bit pa_width 1)
                  (take (unat (ns_num_banks plat_dram)) (ns_banks plat_dram))
                  (ns_num_banks plat_dram + ns_banks_ptr plat_dram + ns_checksum plat_dram) 0 0 of
             None \<Rightarrow> (E_RMM_BOOT_MANIFEST_DATA_ERROR, None)
           | Some (checksum, ng) \<Rightarrow>
               if checksum \<noteq> 0 then (E_RMM_BOOT_MANIFEST_DATA_ERROR, None)
               else if ng > RMM_MAX_GRANULES then (E_RMM_BOOT_MANIFEST_DATA_ERROR, None)
               else (E_RMM_BOOT_SUCCESS, Some plat_dram)))"

fun fill_banks :: "ns_dram_bank list \<Rightarrow> u64 \<Rightarrow> arm_dram_bank list \<times> u64" where
  "fill_banks [] ng = ([], ng)"
| "fill_banks (b # bs) ng =
    (let (r, n) = fill_banks bs (ng + drop_bit GRANULE_SHIFT (ns_size b))
     in (\<lparr>bank_base = ns_base b, bank_size = ns_size b, start_gran_idx = ng\<rparr> # r, n))"

definition arm_set_dram_layout :: "ns_dram_info \<Rightarrow> fault + arm_dram_layout" where
  "arm_set_dram_layout plat_dram =
    (if \<not> (ns_num_banks plat_dram > 0) then Inl Assert_Fail
     else if \<not> (ns_num_banks plat_dram \<le> PLAT_ARM_MAX_DRAM_BANKS) then Inl Assert_Fail
     else let (bs, ng) = fill_banks (take (unat (ns_num_banks plat_dram)) (ns_banks plat_dram)) 0 in
       if \<not> (ng \<le> RMM_MAX_GRANULES) then Inl Assert_Fail
       else Inr \<lparr>num_granules = ng, num_banks = ns_num_banks plat_dram, banks = bs\<rparr>)"

text \<open>Banks in ascending order, numbered consecutively from a first granule index.\<close>

fun wf_chain :: "nat \<Rightarrow> nat \<Rightarrow> arm_dram_bank list \<Rightarrow> bool" where
  "wf_chain lo n [] = True"
| "wf_chain lo n (b # bs) = (bank_ok b \<and> lo \<le> unat (bank_base b) \<and> unat (start_gran_idx b) = n \<and>
     wf_chain (bank_end b) (gran_end b) bs)"

lemma wf_chain_nth:
  "wf_chain lo n bs \<Longrightarrow> i < length bs \<Longrightarrow> bank_ok (bs ! i) \<and>
     (Suc i < length bs \<longrightarrow> bank_end (bs ! i) \<le> unat (bank_base (bs ! Suc i)) \<and>
        unat (start_gran_idx (bs ! Suc i)) = gran_end (bs ! i)) \<and>
     (i = 0 \<longrightarrow> unat (start_gran_idx (bs ! i)) = n)"
proof (induction lo n bs arbitrary: i rule: wf_chain.induct)
  case (1 lo n)
  then show ?case by simp
next
  case (2 lo n b bs)
  show ?case
  proof (cases i)
    case 0
    with 2 show ?thesis by (cases bs) auto
  next
    case (Suc k)
    with 2 show ?thesis by auto
  qed
qed

definition bank_nowrap :: "ns_dram_bank \<Rightarrow> bool" where
  "bank_nowrap b \<longleftrightarrow> unat (ns_base b) + unat (ns_size b) < 2 ^ 64"

lemma page_mask_zero:
  "(x OR y) AND (GRANULE_SIZE - 1) = 0 \<longleftrightarrow> GRANULE_ALIGNED x \<and> GRANULE_ALIGNED y"
proof -
  have "GRANULE_SIZE - 1 = mask 12" by (simp add: GRANULE_SIZE_def mask_eq_exp_minus_1)
  then show ?thesis
    by (simp add: GRANULE_ALIGNED_iff flip: take_bit_eq_mask) (simp add: take_bit_or or_eq_0_iff)
qed

lemma check_banks_chain:
  assumes "check_banks mp bs cs ng e = Some (cs', ng')" "\<forall>b \<in> set bs. bank_nowrap b"
    and "unat ng + length bs * 2 ^ 52 < 2 ^ 64"
    and "lo = 0 \<or> lo = unat e + 1 \<and> lo mod 4096 = 0"
  shows "\<exists>r. fill_banks bs ng = (r, ng') \<and> length r = length bs \<and> wf_chain lo (unat ng) r \<and>
           (bs \<noteq> [] \<longrightarrow> unat ng' = gran_end (last r))"
  using assms
proof (induction mp bs cs ng e arbitrary: lo rule: check_banks.induct)
  case (1 mp cs ng e)
  then show ?case by simp
next
  case (2 mp b bs cs ng e)
  define e' where "e' = ns_base b + ns_size b - 1"
  let ?ng = "ng + drop_bit 12 (ns_size b)"
  let ?b = "\<lparr>bank_base = ns_base b, bank_size = ns_size b, start_gran_idx = ng\<rparr>"
  have al: "GRANULE_ALIGNED (ns_base b)" "GRANULE_ALIGNED (ns_size b)" and nz: "ns_size b \<noteq> 0"
    and ge: "e \<le> ns_base b"
    and rec: "check_banks mp bs (cs + (ns_base b + ns_size b)) (ng + ns_size b div GRANULE_SIZE) e' = Some (cs', ng')"
    and guard: "\<not> (ns_base b = 0 \<or> ns_size b = 0 \<or> (ns_base b OR ns_size b) AND (GRANULE_SIZE - 1) \<noteq> 0)"
      "\<not> ns_base b < e" "\<not> mp \<le> e'"
    using "2.prems"(1) by (auto simp: Let_def e'_def page_mask_zero split: if_splits)
  have div: "ns_size b div GRANULE_SIZE = drop_bit 12 (ns_size b)"
    by (simp add: GRANULE_SIZE_def drop_bit_eq_div)
  have ok: "bank_ok ?b" using al nz "2.prems"(2) by (auto simp: bank_ok_def bank_nowrap_def word_gt_0)
  have dr: "unat (drop_bit 12 (ns_size b)) = bank_granules ?b"
    by (simp add: unat_drop_bit bank_granules_def)
  have small: "bank_granules ?b < 2 ^ 52"
    using unat_lt64 [of "ns_size b"] by (simp add: bank_granules_def less_mult_imp_div_less)
  have ng: "unat ?ng = gran_end ?b"
    using "2.prems"(3) small by (simp add: unat_add_nowrap dr gran_end_def)
  have e': "unat e' + 1 = bank_end ?b"
  proof -
    have u: "unat (ns_base b + ns_size b) = bank_end ?b"
      using ok by (simp add: bank_ok_def bank_end_def unat_add_nowrap)
    have pos: "bank_end ?b > 0" using nz by (simp add: bank_end_def unat_gt_0)
    with u have "ns_base b + ns_size b \<noteq> 0" by auto
    then have "unat e' = bank_end ?b - 1" unfolding e'_def by (simp add: unat_dec u)
    with pos show ?thesis by simp
  qed
  have emod: "bank_end ?b mod 4096 = 0"
  proof -
    have "4096 dvd unat (ns_base b)" "4096 dvd unat (ns_size b)"
      using al by (simp_all only: GRANULE_ALIGNED_unat dvd_eq_mod_eq_0)
    then have "4096 dvd bank_end ?b" by (simp add: bank_end_def)
    then show ?thesis by (simp only: dvd_eq_mod_eq_0)
  qed
  have lo: "lo \<le> unat (ns_base b)"
  proof (cases "lo = 0")
    case False
    then have l: "lo = unat e + 1" "lo mod 4096 = 0" using "2.prems"(4) by auto
    have "unat e \<noteq> unat (ns_base b)"
    proof
      assume "unat e = unat (ns_base b)"
      then have "unat e mod 4096 = 0" using al(1) by (simp add: GRANULE_ALIGNED_unat)
      moreover have "(unat e + 1) mod 4096 = 0" using l by simp
      ultimately show False by (simp add: mod_Suc)
    qed
    with ge l show ?thesis by (simp add: word_le_nat_alt)
  qed simp
  have "\<exists>r. fill_banks bs ?ng = (r, ng') \<and> length r = length bs \<and> wf_chain (bank_end ?b) (unat ?ng) r \<and>
           (bs \<noteq> [] \<longrightarrow> unat ng' = gran_end (last r))"
  proof (rule "2.IH" [OF guard(1,2) e'_def guard(3), unfolded div])
    show "check_banks mp bs (cs + (ns_base b + ns_size b)) ?ng e' = Some (cs', ng')"
      using rec by (simp add: div)
    show "unat ?ng + length bs * 2 ^ 52 < 2 ^ 64"
      using "2.prems"(3) small ng by (simp add: gran_end_def)
    show "bank_end ?b = 0 \<or> bank_end ?b = unat e' + 1 \<and> bank_end ?b mod 4096 = 0"
      using e' emod by simp
  qed (use "2.prems"(2) in simp)
  then obtain r where r: "fill_banks bs ?ng = (r, ng')" "length r = length bs"
    "wf_chain (bank_end ?b) (unat ?ng) r" "bs \<noteq> [] \<longrightarrow> unat ng' = gran_end (last r)" by blast
  have "unat ng' = gran_end (last (?b # r))"
  proof (cases bs)
    case Nil
    with r(1,2) ng show ?thesis by simp
  next
    case Cons
    with r(2,4) show ?thesis by auto
  qed
  with r ok lo ng show ?case by simp
qed

lemma validated_layout_wf:
  assumes ok: "rmm_el3_ifc_get_dram_data_validated_pa w v info PLAT_ARM_MAX_DRAM_BANKS = (E_RMM_BOOT_SUCCESS, Some info)"
    and len: "length (ns_banks info) = unat (ns_num_banks info)"
    and nowrap: "\<forall>b \<in> set (ns_banks info). bank_nowrap b"
  shows "\<exists>d. arm_set_dram_layout info = Inr d \<and> wf_dram d"
proof -
  let ?n = "ns_num_banks info"
  from ok len obtain ng where n: "?n \<noteq> 0" "?n \<le> PLAT_ARM_MAX_DRAM_BANKS" and ng: "ng \<le> RMM_MAX_GRANULES"
    and chk: "check_banks (push_bit w 1) (ns_banks info) (?n + ns_banks_ptr info + ns_checksum info) 0 0 = Some (0, ng)"
    by (auto simp: rmm_el3_ifc_get_dram_data_validated_pa_def E_RMM_BOOT_SUCCESS_def
        E_RMM_BOOT_MANIFEST_DATA_ERROR_def E_RMM_BOOT_MANIFEST_VERSION_NOT_SUPPORTED_def
        split: if_splits option.splits)
  have n2: "0 < unat ?n" "unat ?n \<le> 2"
    using n by (simp_all add: unat_gt_0 PLAT_ARM_MAX_DRAM_BANKS_def word_le_nat_alt)
  obtain r where r: "fill_banks (ns_banks info) 0 = (r, ng)" "length r = unat ?n" "wf_chain 0 0 r"
    "unat ng = gran_end (last r)"
    using check_banks_chain [OF chk nowrap, of 0] len n2 by auto
  define d where "d = \<lparr>num_granules = ng, num_banks = ?n, banks = r\<rparr>"
  have "arm_set_dram_layout info = Inr d"
    using n ng r len by (simp add: arm_set_dram_layout_def d_def word_gt_0)
  moreover have "wf_dram d"
  proof -
    have "start_gran_idx (r ! 0) = 0"
      using wf_chain_nth [OF r(3), of 0] r(2) n2 by (simp add: unat_eq_0)
    moreover have "last r = r ! (unat ?n - 1)" using r(2) n2 by (metis last_conv_nth length_0_conv less_irrefl)
    ultimately show ?thesis
      using n n2 ng r(2,4) wf_chain_nth [OF r(3)] by (auto simp: wf_dram_def d_def word_gt_0)
  qed
  ultimately show ?thesis by blast
qed

section \<open>Properties\<close>

text \<open>The reference definition: the first bank that contains the address, by linear search.\<close>

definition bank_contains :: "u64 \<Rightarrow> arm_dram_bank \<Rightarrow> bool" where
  "bank_contains a b \<longleftrightarrow> bank_base b \<le> a \<and> unat a < bank_end b"

definition linear_idx :: "arm_dram_layout \<Rightarrow> u64 \<Rightarrow> u64" where
  "linear_idx d a =
    (case find (bank_contains a) (take (unat (num_banks d)) (banks d)) of
       None \<Rightarrow> UINT64_MAX
     | Some b \<Rightarrow> start_gran_idx b + drop_bit GRANULE_SHIFT (a - bank_base b))"

lemma find_bank:
  assumes "wf_dram d"
  shows "find (bank_contains a) (take (unat (num_banks d)) (banks d)) = Some b \<Longrightarrow>
           \<exists>j. in_bank d j a \<and> b = banks d ! j"
    and "find (bank_contains a) (take (unat (num_banks d)) (banks d)) = None \<Longrightarrow> \<not> in_bank d j a"
proof -
  have len: "length (take (unat (num_banks d)) (banks d)) = unat (num_banks d)"
    using assms by (simp add: wf_dram_def)
  show "find (bank_contains a) (take (unat (num_banks d)) (banks d)) = Some b \<Longrightarrow>
           \<exists>j. in_bank d j a \<and> b = banks d ! j"
    by (auto simp: find_Some_iff in_bank_def bank_contains_def len)
  show "find (bank_contains a) (take (unat (num_banks d)) (banks d)) = None \<Longrightarrow> \<not> in_bank d j a"
    unfolding find_None_iff in_bank_def bank_contains_def
    by (metis in_set_conv_nth len nth_take)
qed

text \<open>
  C34. On a well-formed layout the two binary searches never fail an assertion and are inverse
  to each other: every granule index below the number of granules has an address, which is
  granule-aligned and maps back to the index, and every address that maps to an index in the
  range of the granule array is the address of that index.
\<close>

theorem granule_index_bijection:
  assumes "wf_dram d"
  shows "(\<forall>i. i < num_granules d \<longrightarrow> (\<exists>a. plat_granule_idx_to_addr d i = Inr a \<and>
            GRANULE_ALIGNED a \<and> plat_granule_addr_to_idx d a = Inr i)) \<and>
         (\<forall>a. \<exists>i. plat_granule_addr_to_idx d a = Inr i \<and>
            (i < RMM_MAX_GRANULES \<longrightarrow> i < num_granules d \<and> plat_granule_idx_to_addr d i = Inr a))"
  using dram.to_addr_of_idx [OF assms] dram.to_idx_total [OF assms] dram.idx_in_range [OF assms]
  by meson

definition fvp_layout :: arm_dram_layout where
  "fvp_layout = \<lparr>num_granules = 0xFC000, num_banks = 2,
     banks = [\<lparr>bank_base = 0x80000000, bank_size = 0x7C000000, start_gran_idx = 0\<rparr>,
              \<lparr>bank_base = 0x880000000, bank_size = 0x80000000, start_gran_idx = 0x7C000\<rparr>]\<rparr>"

lemma all_less_2: "(\<forall>i<(2::nat). P i) \<longleftrightarrow> P 0 \<and> P 1"
  by (auto simp: numeral_2_eq_2 All_less_Suc)

lemma wf_fvp_layout: "wf_dram fvp_layout"
  by (simp add: wf_dram_def fvp_layout_def bank_ok_def bank_end_def gran_end_def bank_granules_def
      GRANULE_ALIGNED_def GRANULE_SIZE_def PLAT_ARM_MAX_DRAM_BANKS_def RMM_MAX_GRANULES_def
      all_less_2)

theorem granule_index_bijection_witness:
  "(\<exists>a. plat_granule_idx_to_addr fvp_layout 0x7C001 = Inr a \<and> GRANULE_ALIGNED a \<and>
        plat_granule_addr_to_idx fvp_layout a = Inr 0x7C001) \<and>
   plat_granule_idx_to_addr fvp_layout 0x7C001 = Inr 0x880001000"
proof
  show "\<exists>a. plat_granule_idx_to_addr fvp_layout 0x7C001 = Inr a \<and> GRANULE_ALIGNED a \<and>
        plat_granule_addr_to_idx fvp_layout a = Inr 0x7C001"
    using granule_index_bijection [OF wf_fvp_layout] by (simp add: fvp_layout_def)
  show "plat_granule_idx_to_addr fvp_layout 0x7C001 = Inr 0x880001000"
    by (simp add: plat_granule_idx_to_addr_def fvp_layout_def idx_search.simps mid_def
        PLAT_ARM_MAX_DRAM_BANKS_def)
qed

text \<open>
  The binary search over the banks agrees with a linear search: an aligned address gets the
  index of the granule within the bank that contains it, every other address gets
  \<open>UINT64_MAX\<close>.
\<close>

theorem addr_to_idx_linear:
  assumes "wf_dram d"
  shows "plat_granule_addr_to_idx d a = Inr (if GRANULE_ALIGNED a then linear_idx d a else UINT64_MAX)"
proof (cases "GRANULE_ALIGNED a")
  case True
  show ?thesis
  proof (cases "find (bank_contains a) (take (unat (num_banks d)) (banks d))")
    case None
    then have "plat_granule_addr_to_idx d a = Inr UINT64_MAX"
      using find_bank(2) [OF assms] by (intro wf_addr_to_idx_out [OF assms]) blast
    with None True show ?thesis by (simp add: linear_idx_def)
  next
    case (Some b)
    then obtain j where "in_bank d j a" "b = banks d ! j" using find_bank(1) [OF assms] by blast
    with Some True wf_addr_to_idx [OF assms True] show ?thesis by (simp add: linear_idx_def)
  qed
next
  case False
  with wf_addr_to_idx_out [OF assms] show ?thesis by simp
qed

theorem addr_to_idx_linear_witness:
  "plat_granule_addr_to_idx fvp_layout 0x880002000 = Inr (linear_idx fvp_layout 0x880002000) \<and>
   linear_idx fvp_layout 0x880002000 = 0x7C002"
proof
  show "plat_granule_addr_to_idx fvp_layout 0x880002000 = Inr (linear_idx fvp_layout 0x880002000)"
    using addr_to_idx_linear [OF wf_fvp_layout, of "0x880002000"]
    by (simp add: GRANULE_ALIGNED_def GRANULE_SIZE_def)
  show "linear_idx fvp_layout 0x880002000 = 0x7C002"
    by (simp add: linear_idx_def fvp_layout_def bank_contains_def bank_end_def)
qed

text \<open>
  C35. A boot manifest that passes validation, and none of whose banks wraps around the end of
  the address space, gives a well-formed layout: the assertions of
  \<^verbatim>\<open>arm_set_dram_layout\<close> hold and the layout satisfies what the searches rely on.
\<close>

theorem validated_manifest_layout:
  assumes "rmm_el3_ifc_get_dram_data_validated_pa w v info PLAT_ARM_MAX_DRAM_BANKS =
             (E_RMM_BOOT_SUCCESS, Some info)"
    and "length (ns_banks info) = unat (ns_num_banks info)"
    and "\<forall>b \<in> set (ns_banks info). bank_nowrap b"
  shows "\<exists>d. arm_set_dram_layout info = Inr d \<and> wf_dram d"
  using assms by (rule validated_layout_wf)

lemmas manifest_eval = rmm_el3_ifc_get_dram_data_validated_pa_def PLAT_ARM_MAX_DRAM_BANKS_def
  RMM_EL3_MANIFEST_MAKE_VERSION_def RMM_MAX_GRANULES_def GRANULE_SIZE_def Let_def

definition fvp_manifest :: ns_dram_info where
  "fvp_manifest = \<lparr>ns_num_banks = 2, ns_banks_ptr = 0x1000,
     ns_banks = [\<lparr>ns_base = 0x80000000, ns_size = 0x7C000000\<rparr>,
                 \<lparr>ns_base = 0x880000000, ns_size = 0x80000000\<rparr>],
     ns_checksum = - (2 + 0x1000 + 0x80000000 + 0x7C000000 + 0x880000000 + 0x80000000)\<rparr>"

theorem validated_manifest_layout_witness:
  "rmm_el3_ifc_get_dram_data_validated_pa 48 3 fvp_manifest PLAT_ARM_MAX_DRAM_BANKS =
     (E_RMM_BOOT_SUCCESS, Some fvp_manifest) \<and>
   (\<exists>d. arm_set_dram_layout fvp_manifest = Inr d \<and> wf_dram d)"
proof -
  have 1: "rmm_el3_ifc_get_dram_data_validated_pa 48 3 fvp_manifest PLAT_ARM_MAX_DRAM_BANKS =
     (E_RMM_BOOT_SUCCESS, Some fvp_manifest)"
    by (simp add: manifest_eval fvp_manifest_def)
  have 2: "length (ns_banks fvp_manifest) = unat (ns_num_banks fvp_manifest)"
    by (simp add: fvp_manifest_def)
  have 3: "\<forall>b \<in> set (ns_banks fvp_manifest). bank_nowrap b"
    by (simp add: fvp_manifest_def bank_nowrap_def)
  show ?thesis using 1 validated_manifest_layout [OF 1 2 3] by simp
qed

text \<open>
  The hypothesis on wrapping banks is needed: the validation computes the end of a bank in
  64-bit arithmetic, and accepts a bank whose end wraps to a small address.
\<close>

definition wrapping_manifest :: ns_dram_info where
  "wrapping_manifest = \<lparr>ns_num_banks = 1, ns_banks_ptr = 0x1000,
     ns_banks = [\<lparr>ns_base = 0xFFFFFFFFFFFFF000, ns_size = 0x2000\<rparr>],
     ns_checksum = - (1 + 0x1000 + 0xFFFFFFFFFFFFF000 + 0x2000)\<rparr>"


end
