(* ===== verification/Granule.thy ===== *)
theory Granule
  imports Dram
begin

text \<open>
  The granule library (\<^verbatim>\<open>lib/granule\<close>): the 16-bit granule descriptors with their lock bit,
  state and reference count, the operations on them, and the functions that find and lock
  granules. A \<^verbatim>\<open>struct granule *\<close> is the index of the granule in the array \<^verbatim>\<open>granules\<close>,
  and \<open>None\<close> is the null pointer.

  The state record \<open>gstate\<close> is extended by the later theories; every operation here works on
  any extension. A lock that is already held cannot be acquired by the running handler: the
  bit-lock loop of \<^verbatim>\<open>granule_bitlock_acquire\<close> then never ends, which is the fault \<open>Spin\<close>.
\<close>

section \<open>Descriptors\<close>

record granule =
  descriptor :: u16
  owner_tag :: u8

definition GRANULE_STATE_NS :: u8 where "GRANULE_STATE_NS = 0"
definition GRANULE_STATE_DELEGATED :: u8 where "GRANULE_STATE_DELEGATED = 1"
definition GRANULE_STATE_RD :: u8 where "GRANULE_STATE_RD = 2"
definition GRANULE_STATE_REC :: u8 where "GRANULE_STATE_REC = 3"
definition GRANULE_STATE_REC_AUX :: u8 where "GRANULE_STATE_REC_AUX = 4"
definition GRANULE_STATE_DATA :: u8 where "GRANULE_STATE_DATA = 5"
definition GRANULE_STATE_RTT :: u8 where "GRANULE_STATE_RTT = 6"
definition GRANULE_STATE_APT :: u8 where "GRANULE_STATE_APT = 7"

lemmas granule_states = GRANULE_STATE_NS_def GRANULE_STATE_DELEGATED_def GRANULE_STATE_RD_def
  GRANULE_STATE_REC_def GRANULE_STATE_REC_AUX_def GRANULE_STATE_DATA_def GRANULE_STATE_RTT_def
  GRANULE_STATE_APT_def

definition GRN_LOCK_BIT :: u16 where "GRN_LOCK_BIT = push_bit 15 1"
definition STATE_MASK :: u16 where "STATE_MASK = ucast (MASK 10 5)"
definition REFCOUNT_MASK :: u16 where "REFCOUNT_MASK = ucast (MASK 0 10)"
definition RTT_REFCOUNT_MAX :: u16 where "RTT_REFCOUNT_MAX = ucast (GRANULE_SIZE div 8)"
definition REFCOUNT_MAX :: u16 where "REFCOUNT_MAX = push_bit 10 1 - 1"

definition LOCKED :: "granule \<Rightarrow> bool" where
  "LOCKED g \<longleftrightarrow> descriptor g AND GRN_LOCK_BIT \<noteq> 0"

definition REFCOUNT :: "granule \<Rightarrow> u16" where
  "REFCOUNT g = descriptor g AND REFCOUNT_MASK"

definition STATE :: "granule \<Rightarrow> u8" where
  "STATE g = ucast (drop_bit 10 (descriptor g AND STATE_MASK))"

text \<open>The condition asserted by \<^verbatim>\<open>__granule_assert_unlocked_invariants\<close>.\<close>

definition granule_unlocked_invariants :: "granule \<Rightarrow> u8 \<Rightarrow> bool" where
  "granule_unlocked_invariants g st =
    (if st = GRANULE_STATE_NS then REFCOUNT g = 0
     else if st = GRANULE_STATE_DELEGATED then REFCOUNT g = 0
     else if st = GRANULE_STATE_RD then True
     else if st = GRANULE_STATE_REC then REFCOUNT g \<le> 1
     else if st = GRANULE_STATE_DATA then REFCOUNT g = 0
     else if st = GRANULE_STATE_APT then REFCOUNT g = 0
     else if st = GRANULE_STATE_RTT then REFCOUNT g \<le> RTT_REFCOUNT_MAX
     else if st = GRANULE_STATE_REC_AUX then REFCOUNT g = 0
     else False)"

section \<open>Operations on a locked granule\<close>

record gstate =
  arm_dram :: arm_dram_layout
  granules :: "nat \<Rightarrow> granule"

definition upd_granule :: "nat \<Rightarrow> (granule \<Rightarrow> granule) \<Rightarrow> 'z gstate_scheme \<Rightarrow> 'z gstate_scheme" where
  "upd_granule g f s = s\<lparr>granules := (granules s)(g := f (granules s g))\<rparr>"

definition set_lock :: "granule \<Rightarrow> granule" where
  "set_lock g = g\<lparr>descriptor := descriptor g OR GRN_LOCK_BIT\<rparr>"

definition clear_lock :: "granule \<Rightarrow> granule" where
  "clear_lock g = g\<lparr>descriptor := descriptor g AND NOT GRN_LOCK_BIT\<rparr>"

definition granule_bitlock_acquire :: "nat \<Rightarrow> ('z gstate_scheme, unit) M" where
  "granule_bitlock_acquire g =
    (\<lambda>s. if LOCKED (granules s g) then Inl Spin else Inr ((), upd_granule g set_lock s))"

definition granule_bitlock_release :: "nat \<Rightarrow> ('z gstate_scheme, unit) M" where
  "granule_bitlock_release g = modifyM (upd_granule g clear_lock)"

definition granule_refcount_read :: "nat \<Rightarrow> ('z gstate_scheme, u16) M" where
  "granule_refcount_read g = getM (\<lambda>s. REFCOUNT (granules s g))"

definition granule_refcount_read_acquire :: "nat \<Rightarrow> ('z gstate_scheme, u16) M" where
  "granule_refcount_read_acquire g =
    bindM (getM (\<lambda>s. LOCKED (granules s g))) (\<lambda>locked.
    thenM (assertM locked)
    (getM (\<lambda>s. REFCOUNT (granules s g))))"

definition assert_unlocked_invariants :: "nat \<Rightarrow> u8 \<Rightarrow> ('z gstate_scheme, unit) M" where
  "assert_unlocked_invariants g st =
    bindM (getM (\<lambda>s. granule_unlocked_invariants (granules s g) st)) assertM"

definition granule_unlocked_state :: "nat \<Rightarrow> ('z gstate_scheme, u8) M" where
  "granule_unlocked_state g = getM (\<lambda>s. STATE (granules s g))"

definition granule_get_state :: "nat \<Rightarrow> ('z gstate_scheme, u8) M" where
  "granule_get_state g =
    bindM (getM (\<lambda>s. LOCKED (granules s g))) (\<lambda>locked.
    thenM (assertM locked)
    (getM (\<lambda>s. STATE (granules s g))))"

text \<open>The atomic exclusive-or of \<^verbatim>\<open>granule_set_state\<close>.\<close>

definition eor_state :: "u8 \<Rightarrow> granule \<Rightarrow> granule" where
  "eor_state st g =
    (let val = (descriptor g AND STATE_MASK) XOR push_bit 10 (ucast st)
     in g\<lparr>descriptor := descriptor g XOR val\<rparr>)"

definition granule_set_state :: "nat \<Rightarrow> u8 \<Rightarrow> ('z gstate_scheme, unit) M" where
  "granule_set_state g st =
    bindM (getM (\<lambda>s. LOCKED (granules s g))) (\<lambda>locked.
    thenM (assertM locked)
    (modifyM (upd_granule g (eor_state st))))"

definition granule_lock_on_state_match :: "nat \<Rightarrow> u8 \<Rightarrow> ('z gstate_scheme, bool) M" where
  "granule_lock_on_state_match g expected_state =
    thenM (granule_bitlock_acquire g)
    (bindM (granule_get_state g) (\<lambda>st.
     if st \<noteq> expected_state
     then thenM (granule_bitlock_release g) (returnM False)
     else thenM (assert_unlocked_invariants g expected_state) (returnM True)))"

definition granule_lock :: "nat \<Rightarrow> u8 \<Rightarrow> ('z gstate_scheme, unit) M" where
  "granule_lock g expected_state =
    bindM (granule_lock_on_state_match g expected_state) assertM"

definition granule_unlock :: "nat \<Rightarrow> ('z gstate_scheme, unit) M" where
  "granule_unlock g =
    bindM (granule_get_state g) (\<lambda>st.
    thenM (assert_unlocked_invariants g st)
    (granule_bitlock_release g))"

definition granule_unlock_transition :: "nat \<Rightarrow> u8 \<Rightarrow> ('z gstate_scheme, unit) M" where
  "granule_unlock_transition g new_state =
    thenM (granule_set_state g new_state) (granule_unlock g)"

definition add_desc :: "u16 \<Rightarrow> granule \<Rightarrow> granule" where
  "add_desc v g = g\<lparr>descriptor := descriptor g + v\<rparr>"

definition granule_refcount_inc :: "nat \<Rightarrow> u16 \<Rightarrow> ('z gstate_scheme, unit) M" where
  "granule_refcount_inc g val =
    bindM (getM (\<lambda>s. LOCKED (granules s g))) (\<lambda>locked.
    thenM (assertM locked)
    (bindM (getM (\<lambda>s. REFCOUNT (granules s g))) (\<lambda>old_refcount.
     thenM (modifyM (upd_granule g (add_desc val)))
     (assertM (unat old_refcount + unat val \<le> unat REFCOUNT_MAX)))))"

definition atomic_granule_get :: "nat \<Rightarrow> ('z gstate_scheme, unit) M" where
  "atomic_granule_get g = granule_refcount_inc g 1"

definition granule_refcount_dec :: "nat \<Rightarrow> u16 \<Rightarrow> ('z gstate_scheme, unit) M" where
  "granule_refcount_dec g val =
    bindM (getM (\<lambda>s. LOCKED (granules s g))) (\<lambda>locked.
    thenM (assertM locked)
    (bindM (getM (\<lambda>s. REFCOUNT (granules s g))) (\<lambda>old_refcount.
     thenM (modifyM (upd_granule g (add_desc (- val))))
     (assertM (old_refcount \<ge> val)))))"

definition atomic_granule_put :: "nat \<Rightarrow> ('z gstate_scheme, unit) M" where
  "atomic_granule_put g = granule_refcount_dec g 1"

definition atomic_granule_put_release :: "nat \<Rightarrow> ('z gstate_scheme, unit) M" where
  "atomic_granule_put_release g =
    bindM (getM (\<lambda>s. REFCOUNT (granules s g))) (\<lambda>old_refcount.
    thenM (modifyM (upd_granule g (add_desc (- 1))))
    (assertM (old_refcount \<noteq> 0)))"

section \<open>Finding granules\<close>

text \<open>
  \<^verbatim>\<open>granule_addr\<close>; the alignment assertion on the pointer holds for every index.
\<close>

definition granule_addr :: "nat option \<Rightarrow> ('z gstate_scheme, u64) M" where
  "granule_addr g =
    (case g of
       None \<Rightarrow> failM Assert_Fail
     | Some i \<Rightarrow> liftM (\<lambda>s. plat_granule_idx_to_addr (arm_dram s) (of_nat i)))"

definition granule_from_idx :: "u64 \<Rightarrow> ('z gstate_scheme, nat) M" where
  "granule_from_idx idx = thenM (assertM (idx < RMM_MAX_GRANULES)) (returnM (unat idx))"

definition addr_to_granule :: "u64 \<Rightarrow> ('z gstate_scheme, nat) M" where
  "addr_to_granule addr =
    thenM (assertM (GRANULE_ALIGNED addr))
    (bindM (liftM (\<lambda>s. plat_granule_addr_to_idx (arm_dram s) addr)) (\<lambda>idx.
     granule_from_idx idx))"

definition find_granule :: "u64 \<Rightarrow> ('z gstate_scheme, nat option) M" where
  "find_granule addr =
    (if \<not> GRANULE_ALIGNED addr then returnM None
     else bindM (liftM (\<lambda>s. plat_granule_addr_to_idx (arm_dram s) addr)) (\<lambda>idx.
       if idx \<ge> RMM_MAX_GRANULES then returnM None
       else bindM (granule_from_idx idx) (\<lambda>g. returnM (Some g))))"

definition find_lock_granule :: "u64 \<Rightarrow> u8 \<Rightarrow> ('z gstate_scheme, nat option) M" where
  "find_lock_granule addr expected_state =
    bindM (find_granule addr) (\<lambda>g_opt.
    (case g_opt of
       None \<Rightarrow> returnM None
     | Some g \<Rightarrow>
         bindM (granule_lock_on_state_match g expected_state) (\<lambda>ok.
         if \<not> ok then returnM None else returnM (Some g))))"

datatype unused_result = Unused nat | EINVAL | EBUSY

definition find_lock_unused_granule :: "u64 \<Rightarrow> u8 \<Rightarrow> ('z gstate_scheme, unused_result) M" where
  "find_lock_unused_granule addr expected_state =
    bindM (find_lock_granule addr expected_state) (\<lambda>g_opt.
    (case g_opt of
       None \<Rightarrow> returnM EINVAL
     | Some g \<Rightarrow>
         bindM (granule_refcount_read_acquire g) (\<lambda>rc.
         if rc \<noteq> 0 then thenM (granule_unlock g) (returnM EBUSY)
         else returnM (Unused g))))"

text \<open>
  A set of granules to lock. \<open>gs_ret\<close> names the caller's variable that the field
  \<^verbatim>\<open>g_ret\<close> points to.
\<close>

record granule_set =
  gs_addr :: u64
  gs_g :: "nat option"
  gs_ret :: nat
  gs_state :: u8

fun shift_up :: "granule_set \<Rightarrow> nat \<Rightarrow> granule_set list \<Rightarrow> nat \<times> granule_set list" where
  "shift_up temp 0 gs = (0, gs)"
| "shift_up temp (Suc j) gs =
    (if gs_addr (gs ! j) > gs_addr temp then shift_up temp j (gs[Suc j := gs ! j])
     else (Suc j, gs))"

definition sort_step :: "nat \<Rightarrow> granule_set list \<Rightarrow> granule_set list" where
  "sort_step i gs =
    (let temp = gs ! i; (j, gs') = shift_up temp i gs
     in if i \<noteq> j then gs'[j := temp] else gs')"

definition sort_granules :: "granule_set list \<Rightarrow> nat \<Rightarrow> granule_set list" where
  "sort_granules gs n = fold sort_step [1..<n] gs"

text \<open>The cleanup loop: unlock the granules already locked, from the last one down.\<close>

fun unlock_down :: "nat list \<Rightarrow> ('z gstate_scheme, unit) M" where
  "unlock_down [] = returnM ()"
| "unlock_down (g # gs) = thenM (granule_unlock g) (unlock_down gs)"

text \<open>
  The locking loop over the sorted array: \<open>prev\<close> is the address of the entry before, \<open>held\<close>
  the granules locked so far, the last one first.
\<close>

fun lock_loop ::
  "granule_set list \<Rightarrow> u64 option \<Rightarrow> nat list \<Rightarrow> ('z gstate_scheme, (nat \<times> nat) list option) M" where
  "lock_loop [] prev held = returnM (Some [])"
| "lock_loop (e # es) prev held =
    (if prev = Some (gs_addr e) then thenM (unlock_down held) (returnM None)
     else bindM (find_lock_granule (gs_addr e) (gs_state e)) (\<lambda>g_opt.
       (case g_opt of
          None \<Rightarrow> thenM (unlock_down held) (returnM None)
        | Some g \<Rightarrow>
            bindM (lock_loop es (Some (gs_addr e)) (g # held)) (\<lambda>r.
            returnM (map_option (\<lambda>rs. (gs_ret e, g) # rs) r)))))"

definition find_lock_granules ::
  "granule_set list \<Rightarrow> ('z gstate_scheme, (nat \<times> nat) list option) M" where
  "find_lock_granules gs = lock_loop (sort_granules gs (length gs)) None []"

definition find_lock_two_granules ::
  "u64 \<Rightarrow> u8 \<Rightarrow> u64 \<Rightarrow> u8 \<Rightarrow> ('z gstate_scheme, (nat \<times> nat) option) M" where
  "find_lock_two_granules addr1 expected_state1 addr2 expected_state2 =
    bindM (find_lock_granules
      [\<lparr>gs_addr = addr1, gs_g = None, gs_ret = 1, gs_state = expected_state1\<rparr>,
       \<lparr>gs_addr = addr2, gs_g = None, gs_ret = 2, gs_state = expected_state2\<rparr>]) (\<lambda>r.
    (case r of
       None \<Rightarrow> returnM None
     | Some rs \<Rightarrow> returnM (Some (the (map_of rs 1), the (map_of rs 2)))))"

section \<open>The fields of a descriptor\<close>

lemma bit_GRN_LOCK_BIT: "bit GRN_LOCK_BIT n \<longleftrightarrow> n = 15"
  unfolding GRN_LOCK_BIT_def bit_push_bit_iff by (auto simp: bit_1_iff)

lemma bit_STATE_MASK: "bit STATE_MASK n \<longleftrightarrow> 10 \<le> n \<and> n < 15"
  by (auto simp: STATE_MASK_def bit_simps bit_MASK)

lemma bit_REFCOUNT_MASK: "bit REFCOUNT_MASK n \<longleftrightarrow> n < 10"
  by (auto simp: REFCOUNT_MASK_def bit_simps bit_MASK)

lemma refcount_limits [simp]: "RTT_REFCOUNT_MAX = 512" "REFCOUNT_MAX = 1023"
  by (simp_all add: RTT_REFCOUNT_MAX_def REFCOUNT_MAX_def GRANULE_SIZE_def)

lemmas bit_desc = bit_GRN_LOCK_BIT bit_STATE_MASK bit_REFCOUNT_MASK

lemma LOCKED_bit: "LOCKED g \<longleftrightarrow> bit (descriptor g) 15"
proof -
  have "(descriptor g AND GRN_LOCK_BIT = 0) \<longleftrightarrow> \<not> bit (descriptor g) 15"
    unfolding bit_eq_iff [of _ 0] by (auto simp: bit_and_iff bit_desc intro: ccontr) (drule spec [of _ 15], simp)
  then show ?thesis by (simp add: LOCKED_def)
qed

lemma bit_STATE: "bit (STATE g) n \<longleftrightarrow> n < 5 \<and> bit (descriptor g) (n + 10)"
  by (auto simp: STATE_def bit_simps bit_desc add.commute dest: bit_imp_le_length)

lemma bit_REFCOUNT: "bit (REFCOUNT g) n \<longleftrightarrow> n < 10 \<and> bit (descriptor g) n"
  by (auto simp: REFCOUNT_def bit_simps bit_desc)

lemma REFCOUNT_take_bit: "REFCOUNT g = take_bit 10 (descriptor g)"
  by (auto intro!: bit_word_eqI simp: bit_REFCOUNT bit_simps)

text \<open>A descriptor is its three fields.\<close>

lemma granule_eqI:
  "LOCKED g = LOCKED h \<Longrightarrow> STATE g = STATE h \<Longrightarrow> REFCOUNT g = REFCOUNT h \<Longrightarrow>
   owner_tag g = owner_tag h \<Longrightarrow> g = (h :: granule)"
proof -
  assume L: "LOCKED g = LOCKED h" and S: "STATE g = STATE h" and R: "REFCOUNT g = REFCOUNT h"
    and O: "owner_tag g = owner_tag h"
  have "descriptor g = descriptor h"
  proof (rule bit_word_eqI)
    fix n assume "n < LENGTH(16)"
    then have "n < 10 \<or> (n = (n - 10) + 10 \<and> n - 10 < 5) \<or> n = 15" by simp linarith
    then consider "n < 10" | m where "n = m + 10" "m < 5" | "n = 15" by blast
    then show "bit (descriptor g) n = bit (descriptor h) n"
    proof cases
      case 1
      then show ?thesis using bit_REFCOUNT [of g n] bit_REFCOUNT [of h n] R by simp
    next
      case 2
      then show ?thesis using bit_STATE [of g m] bit_STATE [of h m] S by simp
    next
      case 3
      then show ?thesis using L by (simp add: LOCKED_bit)
    qed
  qed
  then show "g = h" using O by simp
qed

lemma lock_fields [simp]:
  "LOCKED (set_lock g)" "STATE (set_lock g) = STATE g" "REFCOUNT (set_lock g) = REFCOUNT g"
  "owner_tag (set_lock g) = owner_tag g"
  "\<not> LOCKED (clear_lock g)" "STATE (clear_lock g) = STATE g" "REFCOUNT (clear_lock g) = REFCOUNT g"
  "owner_tag (clear_lock g) = owner_tag g"
  by (auto intro!: bit_word_eqI simp: LOCKED_bit bit_STATE bit_REFCOUNT set_lock_def clear_lock_def
      bit_or_iff bit_and_iff bit_not_iff bit_desc dest: bit_imp_le_length)

lemma eor_state_fields [simp]:
  "LOCKED (eor_state st g) = LOCKED g" "REFCOUNT (eor_state st g) = REFCOUNT g"
  "owner_tag (eor_state st g) = owner_tag g"
  "STATE (eor_state st g) = st"
  if "st < 32"
proof -
  have st: "bit st n \<Longrightarrow> n < 5" for n
  proof -
    assume *: "bit st n"
    have "take_bit 5 st = st"
      using that by (simp add: take_bit_eq_mod word_unat_eq_iff unat_mod_distrib word_less_nat_alt)
    with * show "n < 5" by (metis bit_take_bit_iff)
  qed
  show "LOCKED (eor_state st g) = LOCKED g" "REFCOUNT (eor_state st g) = REFCOUNT g"
    "owner_tag (eor_state st g) = owner_tag g" "STATE (eor_state st g) = st"
    using st less_trans [OF st, of _ 6] by (auto intro!: bit_word_eqI simp: LOCKED_bit bit_STATE bit_REFCOUNT eor_state_def Let_def
        bit_xor_iff bit_and_iff bit_push_bit_iff bit_ucast_iff bit_desc)
qed

text \<open>Arithmetic on the low ten bits of a descriptor leaves the other fields alone.\<close>

lemma low_bits_fields:
  assumes d: "unat (descriptor g) = r + 1024 * q" and e: "unat (descriptor h) = r' + 1024 * q"
    and "r < 1024" "r' < 1024"
  shows "LOCKED h = LOCKED g" "STATE h = STATE g" "unat (REFCOUNT h) = r'" "unat (REFCOUNT g) = r"
proof -
  have "unat (drop_bit 10 (descriptor h)) = unat (drop_bit 10 (descriptor g))"
    unfolding unat_drop_bit_eq d e using assms by (simp add: drop_bit_eq_div)
  then have hi: "drop_bit 10 (descriptor h) = drop_bit 10 (descriptor g)"
    by (simp only: word_unat_eq_iff)
  have bits: "bit (descriptor h) (n + 10) = bit (descriptor g) (n + 10)" for n
    using arg_cong [OF hi, of "\<lambda>w. bit w n"] by (simp add: bit_drop_bit_eq add.commute)
  show "LOCKED h = LOCKED g"
    using bits [of 5] by (simp add: LOCKED_bit)
  show "STATE h = STATE g"
    by (auto intro!: bit_word_eqI simp: bit_STATE bits)
  show "unat (REFCOUNT h) = r'" "unat (REFCOUNT g) = r"
    using assms by (simp_all add: REFCOUNT_take_bit take_bit_eq_mod unat_mod_distrib)
qed

lemma descriptor_split:
  obtains r q where "unat (descriptor g) = r + 1024 * q" "r < 1024" "q < 64" "unat (REFCOUNT g) = r"
proof
  let ?d = "unat (descriptor g)"
  show "?d = ?d mod 1024 + 1024 * (?d div 1024)" "?d mod 1024 < 1024" by simp_all
  show "?d div 1024 < 64" using unsigned_less [of "descriptor g"] by (simp add: div_less_iff_less_mult)
  show "unat (REFCOUNT g) = ?d mod 1024"
    by (simp add: REFCOUNT_take_bit take_bit_eq_mod unat_mod_distrib)
qed

lemma refcount_add_fields:
  assumes "unat (REFCOUNT g) + unat v \<le> 1023"
  shows "LOCKED (add_desc v g) = LOCKED g" "STATE (add_desc v g) = STATE g"
    "owner_tag (add_desc v g) = owner_tag g" "REFCOUNT (add_desc v g) = REFCOUNT g + v"
proof -
  obtain r q where g: "unat (descriptor g) = r + 1024 * q" "r < 1024" "q < 64" "unat (REFCOUNT g) = r"
    by (rule descriptor_split)
  then have "unat (descriptor g) + unat v < 65536" using assms by linarith
  then have "unat (descriptor (add_desc v g)) = (r + unat v) + 1024 * q"
    by (simp add: add_desc_def unat_word_ariths g(1))
  from low_bits_fields [OF g(1) this g(2)]
  show "LOCKED (add_desc v g) = LOCKED g" "STATE (add_desc v g) = STATE g"
    "REFCOUNT (add_desc v g) = REFCOUNT g + v"
    using assms g by (simp_all add: word_unat_eq_iff unat_word_ariths)
qed (simp add: add_desc_def)

lemma refcount_sub_fields:
  assumes "v \<le> REFCOUNT g"
  shows "LOCKED (add_desc (- v) g) = LOCKED g" "STATE (add_desc (- v) g) = STATE g"
    "owner_tag (add_desc (- v) g) = owner_tag g" "REFCOUNT (add_desc (- v) g) = REFCOUNT g - v"
proof -
  obtain r q where g: "unat (descriptor g) = r + 1024 * q" "r < 1024" "q < 64" "unat (REFCOUNT g) = r"
    by (rule descriptor_split)
  have v: "unat v \<le> r" using assms g by (simp add: word_le_nat_alt)
  then have "v \<le> descriptor g" using g by (simp add: word_le_nat_alt)
  then have "unat (descriptor (add_desc (- v) g)) = (r - unat v) + 1024 * q"
    using v g by (simp add: add_desc_def unat_sub)
  from low_bits_fields [OF g(1) this g(2)]
  show "LOCKED (add_desc (- v) g) = LOCKED g" "STATE (add_desc (- v) g) = STATE g"
    "REFCOUNT (add_desc (- v) g) = REFCOUNT g - v"
    using assms g v by (simp_all add: word_unat_eq_iff unat_sub)
qed (simp add: add_desc_def)

section \<open>Sorting\<close>

definition above :: "granule_set \<Rightarrow> granule_set list \<Rightarrow> granule_set list" where
  "above t xs = rev (takeWhile (\<lambda>e. gs_addr t < gs_addr e) (rev xs))"

definition not_above :: "granule_set \<Rightarrow> granule_set list \<Rightarrow> granule_set list" where
  "not_above t xs = rev (dropWhile (\<lambda>e. gs_addr t < gs_addr e) (rev xs))"

lemma not_above_above: "not_above t xs @ above t xs = xs"
  by (simp add: not_above_def above_def flip: rev_append)

lemma shift_up_split:
  "shift_up t (length xs) (xs @ c # ys) =
     (length (not_above t xs), not_above t xs @ (if above t xs = [] then c else hd (above t xs)) # above t xs @ ys)"
proof (induction xs arbitrary: c ys rule: rev_induct)
  case Nil
  then show ?case by (simp add: not_above_def above_def)
next
  case (snoc z xs)
  have upd: "(xs @ z # c # ys)[Suc (length xs) := z] = xs @ z # z # ys"
    by (simp add: list_update_append)
  show ?case
    using snoc.IH [of z "z # ys"] by (auto simp: upd nth_append not_above_def above_def hd_append)
qed

lemma sort_step_split:
  "sort_step (length xs) (xs @ t # ys) = not_above t xs @ t # above t xs @ ys"
proof (cases "above t xs = []")
  case True
  then have "not_above t xs = xs" using not_above_above [of t xs] by simp
  with True show ?thesis by (simp add: sort_step_def shift_up_split)
next
  case False
  then have "length (not_above t xs) \<noteq> length xs"
    using arg_cong [OF not_above_above [of t xs], of length] by auto
  with False show ?thesis
    by (simp add: sort_step_def shift_up_split list_update_append)
qed

abbreviation by_addr :: "granule_set list \<Rightarrow> bool" where
  "by_addr es \<equiv> sorted_wrt (\<lambda>e f. gs_addr e \<le> gs_addr f) es"

lemma insert_sorted:
  assumes "by_addr xs"
  shows "by_addr (not_above t xs @ t # above t xs)"
proof -
  have gt: "\<forall>e\<in>set (above t xs). gs_addr t < gs_addr e"
    by (auto simp: above_def dest: set_takeWhileD)
  have s: "by_addr (not_above t xs @ above t xs)" using assms by (simp add: not_above_above)
  have le: "gs_addr e \<le> gs_addr t" if "e \<in> set (not_above t xs)" for e
  proof -
    have ne: "not_above t xs \<noteq> []" using that by auto
    have "\<not> gs_addr t < gs_addr (last (not_above t xs))"
      using ne hd_dropWhile [of "\<lambda>e. gs_addr t < gs_addr e" "rev xs"]
      by (simp add: not_above_def last_rev)
    moreover have "gs_addr e \<le> gs_addr (last (not_above t xs))"
    proof -
      obtain us z where z: "not_above t xs = us @ [z]" using ne by (metis append_butlast_last_id)
      with s that show ?thesis by (auto simp: sorted_wrt_append)
    qed
    ultimately show ?thesis by auto
  qed
  show ?thesis using s gt le by (auto simp: sorted_wrt_append intro: less_imp_le)
qed

lemma sort_granules_step:
  assumes "Suc k \<le> length gs"
  shows "\<exists>xs. fold sort_step [1..<Suc k] gs = xs @ drop (Suc k) gs \<and> length xs = Suc k \<and> by_addr xs \<and>
              mset xs = mset (take (Suc k) gs)"
  using assms
proof (induction k)
  case 0
  then obtain g gs' where "gs = g # gs'" by (cases gs) auto
  then show ?case by (intro exI [of _ "[g]"]) auto
next
  case (Suc k)
  then obtain xs where xs: "fold sort_step [1..<Suc k] gs = xs @ drop (Suc k) gs" "length xs = Suc k"
    "by_addr xs" "mset xs = mset (take (Suc k) gs)" by auto
  let ?t = "gs ! Suc k"
  have d: "drop (Suc k) gs = ?t # drop (Suc (Suc k)) gs"
    using Suc.prems by (simp add: Cons_nth_drop_Suc)
  have tk: "take (Suc (Suc k)) gs = take (Suc k) gs @ [?t]"
    using Suc.prems by (simp add: take_Suc_conv_app_nth)
  have "fold sort_step [1..<Suc (Suc k)] gs = sort_step (Suc k) (xs @ ?t # drop (Suc (Suc k)) gs)"
    using xs(1) d by simp
  also have "\<dots> = (not_above ?t xs @ ?t # above ?t xs) @ drop (Suc (Suc k)) gs"
    using sort_step_split [of xs ?t] xs(2) by simp
  finally have f: "fold sort_step [1..<Suc (Suc k)] gs =
    (not_above ?t xs @ ?t # above ?t xs) @ drop (Suc (Suc k)) gs" .
  have m: "mset (not_above ?t xs) + mset (above ?t xs) = mset xs"
    by (simp add: not_above_above flip: mset_append)
  then have m': "mset (not_above ?t xs @ ?t # above ?t xs) = mset (take (Suc (Suc k)) gs)"
    unfolding tk by (simp add: xs(4))
  then have "length (not_above ?t xs @ ?t # above ?t xs) = Suc (Suc k)"
    using Suc.prems by (metis length_take min_absorb2 size_mset)
  with f m' insert_sorted [OF xs(3)] show ?case by blast
qed

lemma sort_granules_ok:
  "by_addr (sort_granules gs (length gs))" "mset (sort_granules gs (length gs)) = mset gs"
proof -
  have "by_addr (sort_granules gs (length gs)) \<and> mset (sort_granules gs (length gs)) = mset gs"
  proof (cases "length gs")
    case 0
    then show ?thesis by (simp add: sort_granules_def)
  next
    case (Suc k)
    with sort_granules_step [of k gs] show ?thesis by (auto simp: sort_granules_def)
  qed
  then show "by_addr (sort_granules gs (length gs))" "mset (sort_granules gs (length gs)) = mset gs"
    by simp_all
qed

section \<open>Running the operations\<close>

lemma upd_granule_simps [simp]:
  "arm_dram (upd_granule g f s) = arm_dram s"
  "granules (upd_granule g f s) = (granules s)(g := f (granules s g))"
  by (simp_all add: upd_granule_def)

lemma upd_granule_id: "f (granules s g) = granules s g \<Longrightarrow> upd_granule g f s = s"
  by (simp add: upd_granule_def)

lemma upd_granule_comp: "upd_granule g f (upd_granule g h s) = upd_granule g (\<lambda>x. f (h x)) s"
  by (simp add: upd_granule_def)

lemma clear_set_lock: "\<not> LOCKED g \<Longrightarrow> clear_lock (set_lock g) = g"
  by (rule granule_eqI) simp_all

lemma unlock_lock: "\<not> LOCKED (granules s g) \<Longrightarrow> upd_granule g clear_lock (upd_granule g set_lock s) = s"
  by (simp add: upd_granule_comp upd_granule_id clear_set_lock)

abbreviation granule_inv :: "granule \<Rightarrow> bool" where
  "granule_inv g \<equiv> granule_unlocked_invariants g (STATE g)"

lemma granule_unlocked_invariants_cong:
  "REFCOUNT g = REFCOUNT h \<Longrightarrow> granule_unlocked_invariants g st = granule_unlocked_invariants h st"
  by (simp add: granule_unlocked_invariants_def)

lemma granule_inv_lock [simp]:
  "granule_unlocked_invariants (set_lock g) st = granule_unlocked_invariants g st"
  "granule_unlocked_invariants (clear_lock g) st = granule_unlocked_invariants g st"
  by (simp_all add: granule_unlocked_invariants_def)

text \<open>The invariant of the granule array: an unlocked granule satisfies the asserted conditions.\<close>

definition granules_ok :: "'z gstate_scheme \<Rightarrow> bool" where
  "granules_ok s \<longleftrightarrow> wf_dram (arm_dram s) \<and>
     (\<forall>g. \<not> LOCKED (granules s g) \<longrightarrow> granule_inv (granules s g))"

lemma granules_okD [dest]:
  "granules_ok s \<Longrightarrow> wf_dram (arm_dram s)"
  "granules_ok s \<Longrightarrow> \<not> LOCKED (granules s g) \<Longrightarrow> granule_inv (granules s g)"
  by (auto simp: granules_ok_def)

text \<open>The granule with address \<open>a\<close>, as a function of the layout.\<close>

definition granule_at :: "arm_dram_layout \<Rightarrow> u64 \<Rightarrow> nat option" where
  "granule_at d a =
    (case plat_granule_addr_to_idx d a of
       Inl _ \<Rightarrow> None
     | Inr i \<Rightarrow> if i < RMM_MAX_GRANULES then Some (unat i) else None)"

lemma granule_at_aligned: "granule_at d a = Some g \<Longrightarrow> wf_dram d \<Longrightarrow> GRANULE_ALIGNED a"
  by (auto simp: granule_at_def split: sum.splits if_splits dest: dram.idx_in_range)

lemma granule_at_inj:
  assumes "wf_dram d" "granule_at d a = Some g" "granule_at d b = Some g"
  shows "a = b"
proof -
  obtain i j where ij: "plat_granule_addr_to_idx d a = Inr i" "i < RMM_MAX_GRANULES" "g = unat i"
    "plat_granule_addr_to_idx d b = Inr j" "g = unat j"
    using assms by (auto simp: granule_at_def split: sum.splits if_splits)
  then have "j = i" by (simp add: word_unat_eq_iff)
  with ij show ?thesis using dram.to_idx_inj [OF assms(1)] by blast
qed

lemma granule_at_addr:
  assumes "wf_dram d" "granule_at d a = Some g"
  shows "plat_granule_idx_to_addr d (of_nat g) = Inr a"
proof -
  obtain i where "plat_granule_addr_to_idx d a = Inr i" "i < RMM_MAX_GRANULES" "g = unat i"
    using assms by (auto simp: granule_at_def split: sum.splits if_splits)
  with dram.idx_in_range [OF assms(1)] show ?thesis by auto
qed

lemma find_granule_run [run_simps]:
  "wf_dram (arm_dram s) \<Longrightarrow> find_granule a s = Inr (granule_at (arm_dram s) a, s)"
proof -
  assume wf: "wf_dram (arm_dram s)"
  obtain i where i: "plat_granule_addr_to_idx (arm_dram s) a = Inr i"
    using dram.to_idx_total [OF wf] by blast
  have "\<not> GRANULE_ALIGNED a \<Longrightarrow> \<not> i < RMM_MAX_GRANULES"
    using dram.idx_in_range [OF wf i] by blast
  then show ?thesis
    by (auto simp: find_granule_def granule_from_idx_def granule_at_def run_simps i)
qed

lemma addr_to_granule_run [run_simps]:
  "wf_dram (arm_dram s) \<Longrightarrow> addr_to_granule a s =
     (case granule_at (arm_dram s) a of None \<Rightarrow> Inl Assert_Fail | Some g \<Rightarrow> Inr (g, s))"
proof -
  assume wf: "wf_dram (arm_dram s)"
  obtain i where i: "plat_granule_addr_to_idx (arm_dram s) a = Inr i"
    using dram.to_idx_total [OF wf] by blast
  have "\<not> GRANULE_ALIGNED a \<Longrightarrow> \<not> i < RMM_MAX_GRANULES"
    using dram.idx_in_range [OF wf i] by blast
  then show ?thesis
    by (auto simp: addr_to_granule_def granule_from_idx_def granule_at_def run_simps i)
qed

lemma granule_addr_run [run_simps]:
  "wf_dram (arm_dram s) \<Longrightarrow> granule_at (arm_dram s) a = Some g \<Longrightarrow> granule_addr (Some g) s = Inr (a, s)"
  by (simp add: granule_addr_def run_simps granule_at_addr)

lemma lock_on_state_match_run:
  assumes "granules_ok s"
  shows "granule_lock_on_state_match g st s =
    (if LOCKED (granules s g) then Inl Spin
     else if STATE (granules s g) = st then Inr (True, upd_granule g set_lock s)
     else Inr (False, s))"
  using granules_okD(2) [OF assms, of g]
  by (auto simp: granule_lock_on_state_match_def granule_bitlock_acquire_def granule_get_state_def
      granule_bitlock_release_def assert_unlocked_invariants_def run_simps unlock_lock)

lemma granule_lock_run:
  assumes "granules_ok s" "\<not> LOCKED (granules s g)" "STATE (granules s g) = st"
  shows "granule_lock g st s = Inr ((), upd_granule g set_lock s)"
  using assms by (simp add: granule_lock_def run_simps lock_on_state_match_run)

lemma granule_unlock_run:
  assumes "LOCKED (granules s g)" "granule_inv (granules s g)"
  shows "granule_unlock g s = Inr ((), upd_granule g clear_lock s)"
  using assms by (simp add: granule_unlock_def granule_get_state_def assert_unlocked_invariants_def
      granule_bitlock_release_def run_simps)

lemma granule_get_state_run:
  "LOCKED (granules s g) \<Longrightarrow> granule_get_state g s = Inr (STATE (granules s g), s)"
  by (simp add: granule_get_state_def run_simps)

lemma granule_set_state_run:
  "LOCKED (granules s g) \<Longrightarrow> granule_set_state g st s = Inr ((), upd_granule g (eor_state st) s)"
  by (simp add: granule_set_state_def run_simps)

lemma granule_unlock_transition_run:
  assumes "LOCKED (granules s g)" "st < 32" "granule_unlocked_invariants (granules s g) st"
  shows "granule_unlock_transition g st s = Inr ((), upd_granule g (\<lambda>x. clear_lock (eor_state st x)) s)"
proof -
  have "granule_unlocked_invariants (eor_state st (granules s g)) st"
    using assms granule_unlocked_invariants_cong [of "eor_state st (granules s g)" "granules s g"] by simp
  then show ?thesis
    using assms by (simp add: granule_unlock_transition_def run_simps granule_set_state_run
        granule_unlock_run upd_granule_comp)
qed

lemma granule_refcount_inc_run:
  assumes "LOCKED (granules s g)" "unat (REFCOUNT (granules s g)) + unat v \<le> 1023"
  shows "granule_refcount_inc g v s = Inr ((), upd_granule g (add_desc v) s)"
  using assms by (simp add: granule_refcount_inc_def run_simps)

lemma granule_refcount_dec_run:
  assumes "LOCKED (granules s g)" "v \<le> REFCOUNT (granules s g)"
  shows "granule_refcount_dec g v s = Inr ((), upd_granule g (add_desc (- v)) s)"
  using assms by (simp add: granule_refcount_dec_def run_simps)

lemma find_lock_granule_run:
  assumes "granules_ok s"
  shows "find_lock_granule a st s =
    (case granule_at (arm_dram s) a of
       None \<Rightarrow> Inr (None, s)
     | Some g \<Rightarrow>
         if LOCKED (granules s g) then Inl Spin
         else if STATE (granules s g) = st then Inr (Some g, upd_granule g set_lock s)
         else Inr (None, s))"
  using assms by (auto simp: find_lock_granule_def run_simps granules_okD(1) lock_on_state_match_run
      split: option.splits)

lemma find_lock_unused_granule_run:
  assumes "granules_ok s"
  shows "find_lock_unused_granule a st s =
    (case granule_at (arm_dram s) a of
       None \<Rightarrow> Inr (EINVAL, s)
     | Some g \<Rightarrow>
         if LOCKED (granules s g) then Inl Spin
         else if STATE (granules s g) \<noteq> st then Inr (EINVAL, s)
         else if REFCOUNT (granules s g) \<noteq> 0 then Inr (EBUSY, s)
         else Inr (Unused g, upd_granule g set_lock s))"
  using granules_okD(2) [OF assms]
  by (auto simp: find_lock_unused_granule_def run_simps find_lock_granule_run [OF assms]
      granule_refcount_read_acquire_def granule_unlock_run unlock_lock split: option.splits)

lemma granules_ok_upd:
  assumes "granules_ok s" "LOCKED (f (granules s g)) \<or> granule_inv (f (granules s g))"
  shows "granules_ok (upd_granule g f s)"
  using assms by (auto simp: granules_ok_def)

lemma granules_ok_lock: "granules_ok s \<Longrightarrow> granules_ok (upd_granule g set_lock s)"
  by (rule granules_ok_upd) simp_all

section \<open>Locking several granules\<close>

fun lock_all :: "nat list \<Rightarrow> 'z gstate_scheme \<Rightarrow> 'z gstate_scheme" where
  "lock_all [] s = s"
| "lock_all (g # gs) s = upd_granule g set_lock (lock_all gs s)"

lemma lock_all_simps [simp]:
  "arm_dram (lock_all gs s) = arm_dram s"
  "granules (lock_all gs s) g = (if g \<in> set gs then set_lock (granules s g) else granules s g)"
proof -
  have idem: "set_lock (set_lock x) = set_lock x" for x by (rule granule_eqI) simp_all
  show "arm_dram (lock_all gs s) = arm_dram s" by (induction gs) auto
  show "granules (lock_all gs s) g = (if g \<in> set gs then set_lock (granules s g) else granules s g)"
    by (induction gs) (auto simp: idem)
qed

lemma granules_ok_lock_all: "granules_ok s \<Longrightarrow> granules_ok (lock_all gs s)"
  by (induction gs) (auto intro: granules_ok_lock)

lemma unlock_down_run:
  assumes "granules_ok s" "distinct held" "\<forall>g\<in>set held. \<not> LOCKED (granules s g)"
  shows "unlock_down held (lock_all held s) = Inr ((), s)"
  using assms(2,3)
proof (induction held)
  case Nil
  then show ?case by (simp add: run_simps)
next
  case (Cons g held)
  then have g: "\<not> LOCKED (granules (lock_all held s) g)" by simp
  have "granule_unlock g (lock_all (g # held) s) = Inr ((), lock_all held s)"
    using granule_unlock_run [of "lock_all (g # held) s" g] unlock_lock [OF g]
      granules_okD(2) [OF assms(1), of g] Cons.prems by simp
  then show ?case using Cons by (simp add: run_simps)
qed

text \<open>The granule that an entry asks for, if it exists and is in the expected state.\<close>

definition wanted :: "'z gstate_scheme \<Rightarrow> granule_set \<Rightarrow> nat option" where
  "wanted s e =
    (case granule_at (arm_dram s) (gs_addr e) of
       None \<Rightarrow> None
     | Some g \<Rightarrow> if STATE (granules s g) = gs_state e then Some g else None)"

lemma wanted_at: "wanted s e = Some g \<Longrightarrow> granule_at (arm_dram s) (gs_addr e) = Some g"
  by (auto simp: wanted_def split: option.splits if_splits)

definition free_at :: "'z gstate_scheme \<Rightarrow> u64 \<Rightarrow> bool" where
  "free_at s a \<longleftrightarrow>
    (case granule_at (arm_dram s) a of None \<Rightarrow> True | Some g \<Rightarrow> \<not> LOCKED (granules s g))"

definition below :: "u64 option \<Rightarrow> granule_set \<Rightarrow> bool" where
  "below p e \<longleftrightarrow> (case p of None \<Rightarrow> True | Some a \<Rightarrow> a < gs_addr e)"

lemma find_lock_step:
  assumes ok: "granules_ok s" and free: "free_at s (gs_addr e)"
    and new: "\<And>g. granule_at (arm_dram s) (gs_addr e) = Some g \<Longrightarrow> g \<notin> set held"
  shows "find_lock_granule (gs_addr e) (gs_state e) (lock_all held s) =
    (case wanted s e of None \<Rightarrow> Inr (None, lock_all held s)
     | Some g \<Rightarrow> Inr (Some g, lock_all (g # held) s))"
  using free new
  by (auto simp: find_lock_granule_run [OF granules_ok_lock_all [OF ok]] wanted_def free_at_def
      split: option.splits)

lemma lock_loop_run:
  assumes ok: "granules_ok s"
    and "by_addr es" and "\<forall>e\<in>set es. free_at s (gs_addr e)"
    and "\<forall>e\<in>set es. \<forall>p. prev = Some p \<longrightarrow> p \<le> gs_addr e"
    and "distinct held" "\<forall>g\<in>set held. \<not> LOCKED (granules s g)"
    and "\<forall>g\<in>set held. \<exists>a p. granule_at (arm_dram s) a = Some g \<and> prev = Some p \<and> a \<le> p"
  shows "lock_loop es prev held (lock_all held s) =
    (if (\<forall>e\<in>set es. below prev e) \<and> distinct (map gs_addr es) \<and> (\<forall>e\<in>set es. wanted s e \<noteq> None)
     then Inr (Some (map (\<lambda>e. (gs_ret e, the (wanted s e))) es),
               lock_all (rev (map (\<lambda>e. the (wanted s e)) es) @ held) s)
     else Inr (None, s))"
  using assms(2-)
proof (induction es arbitrary: prev held)
  case Nil
  then show ?case by (simp add: run_simps)
next
  case (Cons e es)
  note un = unlock_down_run [OF ok Cons.prems(4,5)]
  show ?case
  proof (cases "prev = Some (gs_addr e)")
    case True
    then show ?thesis by (simp add: run_simps un below_def)
  next
    case False
    then have b: "below prev e" using Cons.prems(3) by (auto simp: below_def split: option.splits)
    have new: "g \<notin> set held" if g: "granule_at (arm_dram s) (gs_addr e) = Some g" for g
    proof
      assume "g \<in> set held"
      then obtain a p where "granule_at (arm_dram s) a = Some g" "prev = Some p" "a \<le> p"
        using Cons.prems(6) by blast
      moreover have "a = gs_addr e"
        using granule_at_inj [OF granules_okD(1) [OF ok]] calculation(1) g by blast
      ultimately show False using b by (simp add: below_def)
    qed
    note step = find_lock_step [OF ok _ new, of e]
    show ?thesis
    proof (cases "wanted s e")
      case None
      then show ?thesis using Cons.prems(2) False by (simp add: run_simps step un)
    next
      case (Some g)
      have at: "granule_at (arm_dram s) (gs_addr e) = Some g" by (rule wanted_at [OF Some])
      have "\<not> LOCKED (granules s g)" using Cons.prems(2) at by (simp add: free_at_def)
      moreover have "\<forall>h\<in>set held. \<exists>a. granule_at (arm_dram s) a = Some h \<and> a \<le> gs_addr e"
        using Cons.prems(3,6) by (metis list.set_intros(1) order.trans)
      ultimately have IH: "lock_loop es (Some (gs_addr e)) (g # held) (lock_all (g # held) s) =
        (if (\<forall>f\<in>set es. below (Some (gs_addr e)) f) \<and> distinct (map gs_addr es) \<and>
            (\<forall>e\<in>set es. wanted s e \<noteq> None)
         then Inr (Some (map (\<lambda>e. (gs_ret e, the (wanted s e))) es),
               lock_all (rev (map (\<lambda>e. the (wanted s e)) es) @ g # held) s)
         else Inr (None, s))"
        using Cons.prems new [OF at] at b
        by (intro Cons.IH) (auto simp: below_def split: option.splits intro: order.trans)
      have D: "(\<forall>f\<in>set es. below (Some (gs_addr e)) f) \<and> distinct (map gs_addr es) \<longleftrightarrow>
               distinct (map gs_addr (e # es))"
        using Cons.prems(1) by (auto simp: below_def image_iff less_le)
      have B: "\<forall>f\<in>set es. below prev f"
        using b Cons.prems(1) by (auto simp: below_def split: option.splits intro: order.strict_trans2)
      have "lock_loop (e # es) prev held (lock_all held s) =
        (case lock_loop es (Some (gs_addr e)) (g # held) (lock_all (g # held) s) of
           Inl x \<Rightarrow> Inl x
         | Inr (r, t) \<Rightarrow> Inr (map_option (\<lambda>rs. (gs_ret e, g) # rs) r, t))"
        using False Cons.prems(2) by (simp add: run_simps step Some split: sum.splits prod.splits)
      then show ?thesis unfolding IH using D B b Some by auto
    qed
  qed
qed


lemma lock_all_eq:
  "lock_all gs s = s\<lparr>granules := \<lambda>g. if g \<in> set gs then set_lock (granules s g) else granules s g\<rparr>"
proof (induction gs)
  case Nil
  then show ?case by simp
next
  case (Cons g gs)
  have "granules (lock_all (g # gs) s) = (\<lambda>h. if h \<in> set (g # gs) then set_lock (granules s h) else granules s h)"
    by (rule ext) (simp only: lock_all_simps)
  then show ?case using Cons by (simp add: upd_granule_def)
qed

lemma lock_all_cong: "set gs = set hs \<Longrightarrow> lock_all gs s = lock_all hs s"
  by (simp add: lock_all_eq)

lemma find_lock_granules_run:
  assumes ok: "granules_ok s" and free: "\<forall>e\<in>set gs. free_at s (gs_addr e)"
  shows "find_lock_granules gs s =
    (if distinct (map gs_addr gs) \<and> (\<forall>e\<in>set gs. wanted s e \<noteq> None)
     then Inr (Some (map (\<lambda>e. (gs_ret e, the (wanted s e))) (sort_granules gs (length gs))),
               lock_all (map (\<lambda>e. the (wanted s e)) gs) s)
     else Inr (None, s))"
proof -
  let ?es = "sort_granules gs (length gs)"
  have st: "set ?es = set gs" using sort_granules_ok(2) by (metis set_mset_mset)
  have "mset (map gs_addr ?es) = mset (map gs_addr gs)" using sort_granules_ok(2) by simp
  then have dst: "distinct (map gs_addr ?es) = distinct (map gs_addr gs)"
    by (metis distinct_count_atmost_1 set_mset_mset)
  have "set (rev (map (\<lambda>e. the (wanted s e)) ?es) @ []) = set (map (\<lambda>e. the (wanted s e)) gs)"
    by (simp add: st)
  note la = lock_all_cong [OF this, of s]
  show ?thesis
    using lock_loop_run [OF ok sort_granules_ok(1), of gs None "[]"] free
    by (simp only: find_lock_granules_def st dst la lock_all.simps below_def option.case) simp
qed

lemma find_lock_two_granules_run:
  assumes ok: "granules_ok s" and free: "free_at s a1" "free_at s a2"
  shows "find_lock_two_granules a1 st1 a2 st2 s =
    (if a1 \<noteq> a2 \<and> (\<exists>g1. granule_at (arm_dram s) a1 = Some g1 \<and> STATE (granules s g1) = st1)
              \<and> (\<exists>g2. granule_at (arm_dram s) a2 = Some g2 \<and> STATE (granules s g2) = st2)
     then Inr (Some (the (granule_at (arm_dram s) a1), the (granule_at (arm_dram s) a2)),
               lock_all [the (granule_at (arm_dram s) a1), the (granule_at (arm_dram s) a2)] s)
     else Inr (None, s))"
proof -
  define e1 e2 where "e1 = \<lparr>gs_addr = a1, gs_g = None, gs_ret = 1, gs_state = st1\<rparr>"
    and "e2 = \<lparr>gs_addr = a2, gs_g = None, gs_ret = 2, gs_state = st2\<rparr>"
  have f: "gs_addr e1 = a1" "gs_addr e2 = a2" "gs_ret e1 = 1" "gs_ret e2 = 2"
    by (simp_all add: e1_def e2_def)
  have w: "wanted s e1 \<noteq> None \<longleftrightarrow> (\<exists>g1. granule_at (arm_dram s) a1 = Some g1 \<and> STATE (granules s g1) = st1)"
    "wanted s e2 \<noteq> None \<longleftrightarrow> (\<exists>g2. granule_at (arm_dram s) a2 = Some g2 \<and> STATE (granules s g2) = st2)"
    by (auto simp: wanted_def e1_def e2_def split: option.splits)
  have t: "wanted s e1 \<noteq> None \<Longrightarrow> the (wanted s e1) = the (granule_at (arm_dram s) a1)"
    "wanted s e2 \<noteq> None \<Longrightarrow> the (wanted s e2) = the (granule_at (arm_dram s) a2)"
    by (auto simp: wanted_def e1_def e2_def split: option.splits)
  have srt: "sort_granules [e1, e2] (length [e1, e2]) = (if a1 > a2 then [e2, e1] else [e1, e2])"
    by (simp add: sort_granules_def sort_step_def f)
  have m: "the (map_of (map (\<lambda>e. (gs_ret e, the (wanted s e))) (if a1 > a2 then [e2, e1] else [e1, e2])) 1) =
      the (wanted s e1)"
    "the (map_of (map (\<lambda>e. (gs_ret e, the (wanted s e))) (if a1 > a2 then [e2, e1] else [e1, e2])) 2) =
      the (wanted s e2)"
    by (simp_all add: f)
  have R: "find_lock_granules [e1, e2] s =
    (if a1 \<noteq> a2 \<and> wanted s e1 \<noteq> None \<and> wanted s e2 \<noteq> None
     then Inr (Some (map (\<lambda>e. (gs_ret e, the (wanted s e))) (if a1 > a2 then [e2, e1] else [e1, e2])),
               lock_all [the (wanted s e1), the (wanted s e2)] s)
     else Inr (None, s))"
    using find_lock_granules_run [OF ok, of "[e1, e2]"] free unfolding srt by (simp add: f)
  show ?thesis
    unfolding find_lock_two_granules_def w [symmetric] e1_def [symmetric] e2_def [symmetric]
      run_bindM R using m t by (auto simp: run_returnM)
qed

section \<open>Properties\<close>


text \<open>A state of the granule array with a delegated granule 1 and a realm descriptor granule 2.\<close>

definition demo_granule :: "nat \<Rightarrow> granule" where
  "demo_granule g =
    \<lparr>descriptor = (if g = 1 then 0x400 else if g = 2 then 0x800 else 0), owner_tag = 0\<rparr>"

definition demo_state :: gstate where
  "demo_state = \<lparr>arm_dram = fvp_layout, granules = demo_granule\<rparr>"

lemma demo_granule_fields:
  "\<not> LOCKED (demo_granule g)" "REFCOUNT (demo_granule g) = 0"
  "STATE (demo_granule g) = (if g = 1 then 1 else if g = 2 then 2 else 0)"
  by (simp_all add: demo_granule_def LOCKED_def REFCOUNT_def STATE_def GRN_LOCK_BIT_def
      REFCOUNT_MASK_def STATE_MASK_def MASK_def mask_eq_decr_exp)

lemma demo_state_ok: "granules_ok demo_state"
  by (simp add: granules_ok_def demo_state_def demo_granule_fields wf_fvp_layout
      granule_unlocked_invariants_def granule_states)

lemma demo_granule_at:
  "granule_at fvp_layout 0x80001000 = Some 1" "granule_at fvp_layout 0x80002000 = Some 2"
  by (simp_all add: granule_at_def plat_granule_addr_to_idx_def addr_search.simps fvp_layout_def
      GRANULE_ALIGNED_def GRANULE_SIZE_def mid_def PLAT_ARM_MAX_DRAM_BANKS_def RMM_MAX_GRANULES_def)

lemma demo_free_at: "free_at demo_state a"
  by (simp add: free_at_def demo_state_def demo_granule_fields split: option.split)

definition demo_request :: "granule_set list" where
  "demo_request = [\<lparr>gs_addr = 0x80002000, gs_g = None, gs_ret = 1, gs_state = GRANULE_STATE_RD\<rparr>,
                   \<lparr>gs_addr = 0x80001000, gs_g = None, gs_ret = 2, gs_state = GRANULE_STATE_DELEGATED\<rparr>]"


text \<open>
  \<^verbatim>\<open>find_lock_two_granules\<close>, which the handlers call: it never faults when both granules
  are free, and on failure the state is the old one.
\<close>

theorem find_lock_two_granules_spec:
  assumes "granules_ok s" and "free_at s a1" and "free_at s a2"
  shows "find_lock_two_granules a1 st1 a2 st2 s =
    (case (granule_at (arm_dram s) a1, granule_at (arm_dram s) a2) of
       (Some g1, Some g2) \<Rightarrow>
         if a1 \<noteq> a2 \<and> STATE (granules s g1) = st1 \<and> STATE (granules s g2) = st2
         then Inr (Some (g1, g2), lock_all [g1, g2] s) else Inr (None, s)
     | _ \<Rightarrow> Inr (None, s))"
  using find_lock_two_granules_run [OF assms, of st1 st2] by (auto split: option.splits)

theorem find_lock_two_granules_spec_witness:
  "find_lock_two_granules 0x80002000 GRANULE_STATE_RD 0x80001000 GRANULE_STATE_DELEGATED demo_state =
     Inr (Some (2, 1), lock_all [2, 1] demo_state) \<and>
   find_lock_two_granules 0x80002000 GRANULE_STATE_RD 0x80001000 GRANULE_STATE_RTT demo_state =
     Inr (None, demo_state)"
  using find_lock_two_granules_spec [where ?a1.0 = "0x80002000" and ?a2.0 = "0x80001000"
      and ?st1.0 = GRANULE_STATE_RD, OF demo_state_ok demo_free_at demo_free_at]
  by (simp add: demo_state_def demo_granule_at demo_granule_fields granule_states)

lemma granule_refcount_get_put_parts:
  assumes "LOCKED (granules s g)"
  shows "granule_refcount_inc g v s =
      (if unat (REFCOUNT (granules s g)) + unat v \<le> 1023
       then Inr ((), upd_granule g (add_desc v) s) else Inl Assert_Fail)"
    and "unat (REFCOUNT (granules s g)) + unat v \<le> 1023 \<Longrightarrow>
      granule_refcount_dec g v (upd_granule g (add_desc v) s) = Inr ((), s) \<and>
      LOCKED (add_desc v (granules s g)) \<and>
      STATE (add_desc v (granules s g)) = STATE (granules s g) \<and>
      owner_tag (add_desc v (granules s g)) = owner_tag (granules s g) \<and>
      unat (REFCOUNT (add_desc v (granules s g))) = unat (REFCOUNT (granules s g)) + unat v"
proof -
  show "granule_refcount_inc g v s =
      (if unat (REFCOUNT (granules s g)) + unat v \<le> 1023
       then Inr ((), upd_granule g (add_desc v) s) else Inl Assert_Fail)"
    using assms by (simp add: granule_refcount_inc_def run_simps)
  assume le: "unat (REFCOUNT (granules s g)) + unat v \<le> 1023"
  note f = refcount_add_fields [OF le]
  have u: "unat (REFCOUNT (granules s g) + v) = unat (REFCOUNT (granules s g)) + unat v"
    using le by (simp add: unat_word_ariths)
  then have "v \<le> REFCOUNT (granules s g) + v" by (simp add: word_le_nat_alt)
  moreover have "add_desc (- v) (add_desc v x) = x" for x by (simp add: add_desc_def)
  ultimately have "granule_refcount_dec g v (upd_granule g (add_desc v) s) = Inr ((), s)"
    using assms by (simp add: granule_refcount_dec_run f upd_granule_comp upd_granule_id)
  then show "granule_refcount_dec g v (upd_granule g (add_desc v) s) = Inr ((), s) \<and>
      LOCKED (add_desc v (granules s g)) \<and>
      STATE (add_desc v (granules s g)) = STATE (granules s g) \<and>
      owner_tag (add_desc v (granules s g)) = owner_tag (granules s g) \<and>
      unat (REFCOUNT (add_desc v (granules s g))) = unat (REFCOUNT (granules s g)) + unat v"
    using assms by (simp add: f u)
qed




text \<open>
  \<^verbatim>\<open>granule_unlock_transition\<close> moves a locked granule to a new state and releases it: only
  the state field and the lock bit of that granule change. The assertion that it makes is the
  condition of the new state on the reference count, so a referenced granule cannot become
  non-secure, delegated or data.
\<close>

theorem granule_unlock_transition_spec:
  assumes "LOCKED (granules s g)" and "st < 32"
  shows "granule_unlock_transition g st s =
    (if granule_unlocked_invariants (granules s g) st
     then Inr ((), s\<lparr>granules := (granules s)(g :=
            (granules s g)\<lparr>descriptor := push_bit 10 (ucast st) OR REFCOUNT (granules s g)\<rparr>)\<rparr>)
     else Inl Assert_Fail)"
proof (cases "granule_unlocked_invariants (granules s g) st")
  case True
  let ?h = "(granules s g)\<lparr>descriptor := push_bit 10 (ucast st) OR REFCOUNT (granules s g)\<rparr>"
  have st: "take_bit 5 st = st"
    using assms(2) by (simp add: take_bit_eq_mod word_unat_eq_iff unat_mod_distrib word_less_nat_alt)
  have b: "bit st n \<Longrightarrow> n < 5" for n using st by (metis bit_take_bit_iff)
  have "clear_lock (eor_state st (granules s g)) = ?h"
  proof (rule granule_eqI)
    show "LOCKED (clear_lock (eor_state st (granules s g))) = LOCKED ?h"
      using b [of 5] by (auto simp: LOCKED_bit [of ?h] bit_simps bit_REFCOUNT)
    show "STATE (clear_lock (eor_state st (granules s g))) = STATE ?h"
      using assms(2) b less_trans [OF b, of _ 6]
      by (auto intro!: bit_word_eqI simp: bit_STATE [of ?h] bit_simps bit_REFCOUNT)
    show "REFCOUNT (clear_lock (eor_state st (granules s g))) = REFCOUNT ?h"
      using assms(2) by (auto intro!: bit_word_eqI simp: bit_REFCOUNT [of ?h] bit_simps bit_REFCOUNT)
  qed (simp add: assms(2))
  then show ?thesis
    using True granule_unlock_transition_run [OF assms True] by (simp add: upd_granule_def)
next
  case False
  then have "\<not> granule_unlocked_invariants (eor_state st (granules s g)) st"
    using assms(2) granule_unlocked_invariants_cong [of "eor_state st (granules s g)" "granules s g"] by simp
  then show ?thesis
    using False assms by (simp add: granule_unlock_transition_def granule_set_state_run run_simps
        granule_unlock_def granule_get_state_def assert_unlocked_invariants_def)
qed

theorem granule_unlock_transition_spec_witness:
  "granule_unlock_transition 1 GRANULE_STATE_DATA (lock_all [1] demo_state) =
     Inr ((), demo_state\<lparr>granules := demo_granule(1 := \<lparr>descriptor = 0x1400, owner_tag = 0\<rparr>)\<rparr>)"
proof -
  have l: "LOCKED (granules (lock_all [1] demo_state) 1)" by simp
  have s: "GRANULE_STATE_DATA < 32" by (simp add: granule_states)
  have i: "granule_unlocked_invariants (granules (lock_all [1] demo_state) 1) GRANULE_STATE_DATA"
    by (simp add: granule_unlocked_invariants_def granule_states demo_state_def demo_granule_fields)
  have r: "REFCOUNT (granules (lock_all [1] demo_state) 1) = 0"
    by (simp add: demo_state_def demo_granule_fields)
  show ?thesis
    unfolding granule_unlock_transition_spec [OF l s] r using i
    by (simp add: demo_state_def GRANULE_STATE_DATA_def upd_granule_def demo_granule_def set_lock_def)
qed

end
