(* ===== verification/Vmid.thy ===== *)
theory Vmid
  imports Granule
begin

text \<open>
  The VMID allocator (\<^verbatim>\<open>lib/arch/src/vmid.c\<close>): a bitmap of 65536 bits kept in 64-bit words.
  Whether FEAT\_VMID16 is present is an argument. The locale \<open>vmid_pool\<close> is the contract that
  realm creation and destruction rely on.
\<close>

definition VMID8_COUNT :: u32 where "VMID8_COUNT = push_bit 8 1"
definition VMID16_COUNT :: u32 where "VMID16_COUNT = push_bit 16 1"

type_synonym vmid_map = "u64 list"

text \<open>\<^verbatim>\<open>atomic_bit_set_acquire_release_64\<close> returns whether the bit was set before.\<close>

definition atomic_bit_set :: "nat \<Rightarrow> nat \<Rightarrow> vmid_map \<Rightarrow> bool \<times> vmid_map" where
  "atomic_bit_set offset b vmids =
    (bit (vmids ! offset) b, vmids[offset := vmids ! offset OR BIT64 b])"

definition atomic_bit_clear :: "nat \<Rightarrow> nat \<Rightarrow> vmid_map \<Rightarrow> vmid_map" where
  "atomic_bit_clear offset b vmids = vmids[offset := vmids ! offset AND NOT (BIT64 b)]"

definition vmid_count :: "bool \<Rightarrow> u32" where
  "vmid_count vmid16 = (if vmid16 then VMID16_COUNT else VMID8_COUNT)"

definition vmid_reserve :: "bool \<Rightarrow> u32 \<Rightarrow> vmid_map \<Rightarrow> bool \<times> vmid_map" where
  "vmid_reserve vmid16 vmid vmids =
    (if vmid \<ge> vmid_count vmid16 then (False, vmids)
     else (let offset = vmid div 64; b = vmid mod 64;
               (old, vmids') = atomic_bit_set (unat offset) (unat b) vmids
           in (\<not> old, vmids')))"

definition vmid_free :: "bool \<Rightarrow> u32 \<Rightarrow> vmid_map \<Rightarrow> fault + vmid_map" where
  "vmid_free vmid16 vmid vmids =
    (if \<not> (vmid < vmid_count vmid16) then Inl Assert_Fail
     else (let offset = vmid div 64; b = vmid mod 64
           in Inr (atomic_bit_clear (unat offset) (unat b) vmids)))"

section \<open>The set of reserved identifiers\<close>

definition wf_vmids :: "vmid_map \<Rightarrow> bool" where
  "wf_vmids m \<longleftrightarrow> length m = 1024"

definition vmids_used :: "vmid_map \<Rightarrow> u32 set" where
  "vmids_used m = {v. unat v < 65536 \<and> bit (m ! (unat v div 64)) (unat v mod 64)}"

lemma vmid_count_le: "v < vmid_count f \<Longrightarrow> unat v < 65536"
  by (auto simp: vmid_count_def VMID8_COUNT_def VMID16_COUNT_def word_less_nat_alt split: if_splits)

lemma unat_div_mod_64: "unat (v div 64) = unat v div 64" "unat (v mod 64) = unat v mod 64" for v :: u32
  by (simp_all add: unat_div_distrib unat_mod_distrib)

lemma bit_update_at:
  fixes v w :: u32
  assumes "length m = 1024" "unat v < 65536" "unat w < 65536"
    and "\<And>n. n < 64 \<Longrightarrow> bit x n = (if n = unat v mod 64 then b else bit (m ! (unat v div 64)) n)"
  shows "bit (m[unat v div 64 := x] ! (unat w div 64)) (unat w mod 64) =
    (if w = v then b else bit (m ! (unat w div 64)) (unat w mod 64))"
proof (cases "unat w div 64 = unat v div 64")
  case True
  have "w = v \<longleftrightarrow> unat w mod 64 = unat v mod 64"
    using True by (metis div_mult_mod_eq word_unat_eq_iff)
  then show ?thesis using True assms by simp
next
  case False
  then have "w \<noteq> v" by auto
  then show ?thesis using False by simp
qed

lemma vmid_reserve_ok:
  assumes "wf_vmids m" "vmid_reserve f v m = (r, m')"
  shows "wf_vmids m'" "r \<longleftrightarrow> v < vmid_count f \<and> v \<notin> vmids_used m"
    "vmids_used m' = (if v < vmid_count f then insert v (vmids_used m) else vmids_used m)"
proof -
  show "wf_vmids m'" "r \<longleftrightarrow> v < vmid_count f \<and> v \<notin> vmids_used m"
    using assms vmid_count_le [of v f]
    by (auto simp: vmid_reserve_def atomic_bit_set_def wf_vmids_def vmids_used_def Let_def
        unat_div_mod_64 split: if_splits)
  show "vmids_used m' = (if v < vmid_count f then insert v (vmids_used m) else vmids_used m)"
  proof (cases "v < vmid_count f")
    case True
    have m': "m' = m[unat v div 64 := m ! (unat v div 64) OR BIT64 (unat v mod 64)]"
      using assms(2) leD [of "vmid_count f" v] True
      by (auto simp: vmid_reserve_def atomic_bit_set_def Let_def unat_div_mod_64 split: if_splits)
    have "w \<in> vmids_used m' \<longleftrightarrow> w \<in> insert v (vmids_used m)" for w
      using bit_update_at [of m v w "m ! (unat v div 64) OR BIT64 (unat v mod 64)" True]
        assms vmid_count_le [OF True]
      by (auto simp: vmids_used_def m' wf_vmids_def bit_or_iff bit_BIT64 split: if_splits)
    then show ?thesis using True by auto
  next
    case False
    then show ?thesis using assms(2) by (auto simp: vmid_reserve_def linorder_not_less dest: leD)
  qed
qed

lemma vmid_free_ok:
  assumes "wf_vmids m" "v < vmid_count f"
  shows "\<exists>m'. vmid_free f v m = Inr m' \<and> wf_vmids m' \<and> vmids_used m' = vmids_used m - {v}"
proof -
  let ?x = "m ! (unat v div 64) AND NOT (BIT64 (unat v mod 64))"
  let ?m = "m[unat v div 64 := ?x]"
  have "vmid_free f v m = Inr ?m"
    using assms by (simp add: vmid_free_def atomic_bit_clear_def Let_def unat_div_mod_64)
  moreover have "w \<in> vmids_used ?m \<longleftrightarrow> w \<in> vmids_used m - {v}" for w
  proof -
    have "bit ?x n = (if n = unat v mod 64 then False else bit (m ! (unat v div 64)) n)" if "n < 64" for n
      using that by (auto simp: bit_and_iff bit_not_iff bit_BIT64)
    with bit_update_at [of m v w ?x False] show ?thesis
      using assms vmid_count_le [OF assms(2)] by (auto simp: vmids_used_def wf_vmids_def split: if_splits)
  qed
  ultimately show ?thesis using assms by (auto simp: wf_vmids_def)
qed

section \<open>The contract of the allocator\<close>

locale vmid_pool =
  fixes wf :: "'m \<Rightarrow> bool" and used :: "'m \<Rightarrow> u32 set" and valid :: "u32 \<Rightarrow> bool"
    and reserve :: "u32 \<Rightarrow> 'm \<Rightarrow> bool \<times> 'm" and release :: "u32 \<Rightarrow> 'm \<Rightarrow> fault + 'm"
  assumes reserve_wf: "wf m \<Longrightarrow> wf (snd (reserve v m))"
    and reserve_result: "wf m \<Longrightarrow> fst (reserve v m) \<longleftrightarrow> valid v \<and> v \<notin> used m"
    and reserve_used: "wf m \<Longrightarrow> used (snd (reserve v m)) = (if valid v then insert v (used m) else used m)"
    and release_ok: "wf m \<Longrightarrow> valid v \<Longrightarrow>
          \<exists>m'. release v m = Inr m' \<and> wf m' \<and> used m' = used m - {v}"
begin

lemma failed_reserve: "wf m \<Longrightarrow> \<not> fst (reserve v m) \<Longrightarrow> used (snd (reserve v m)) = used m"
  by (auto simp: reserve_used reserve_result)

lemma reserve_release:
  assumes "wf m" "fst (reserve v m)"
  shows "\<exists>m'. release v (snd (reserve v m)) = Inr m' \<and> wf m' \<and> used m' = used m"
proof -
  have v: "valid v" "v \<notin> used m" using assms reserve_result by auto
  obtain m' where "release v (snd (reserve v m)) = Inr m'" "wf m'"
    "used m' = used (snd (reserve v m)) - {v}"
    using release_ok [OF reserve_wf [OF assms(1)] v(1)] by blast
  then show ?thesis using v reserve_used [OF assms(1)] by auto
qed

lemma no_double_reserve:
  assumes "wf m" "fst (reserve v m)"
  shows "\<not> fst (reserve v (snd (reserve v m)))"
  using assms reserve_result reserve_wf reserve_used by auto

end

interpretation vmid: vmid_pool wf_vmids vmids_used "\<lambda>v. v < vmid_count f" "vmid_reserve f" "vmid_free f"
  using vmid_reserve_ok [OF _ prod.collapse [symmetric]] vmid_free_ok
  by unfold_locales auto

lemma vmid_bitmap_is_set_parts:
  assumes "wf_vmids m"
  shows "fst (vmid_reserve f v m) \<longleftrightarrow> v < vmid_count f \<and> v \<notin> vmids_used m"
    and "\<not> fst (vmid_reserve f v m) \<Longrightarrow> vmids_used (snd (vmid_reserve f v m)) = vmids_used m"
    and "fst (vmid_reserve f v m) \<Longrightarrow>
      vmids_used (snd (vmid_reserve f v m)) = insert v (vmids_used m) \<and>
      \<not> fst (vmid_reserve f v (snd (vmid_reserve f v m))) \<and>
      (\<exists>m'. vmid_free f v (snd (vmid_reserve f v m)) = Inr m' \<and> wf_vmids m' \<and>
            vmids_used m' = vmids_used m)"
  using vmid.reserve_result [OF assms] vmid.failed_reserve [OF assms]
    vmid.reserve_used [OF assms] vmid.no_double_reserve [OF assms] vmid.reserve_release [OF assms]
  by auto

text \<open>
  C33. The bitmap implements a set of reserved VMIDs. A reservation succeeds exactly for a
  supported VMID that is not reserved, and reserves it; a failed one changes no reservation; a
  reserved VMID cannot be reserved again; and freeing a reservation that succeeded gives the
  old set of reserved VMIDs back, without faulting.
\<close>

theorem vmid_bitmap_is_set:
  assumes "wf_vmids m"
  shows "(fst (vmid_reserve f v m) \<longleftrightarrow> v < vmid_count f \<and> v \<notin> vmids_used m) \<and>
    (\<not> fst (vmid_reserve f v m) \<longrightarrow> vmids_used (snd (vmid_reserve f v m)) = vmids_used m) \<and>
    (fst (vmid_reserve f v m) \<longrightarrow>
      vmids_used (snd (vmid_reserve f v m)) = insert v (vmids_used m) \<and>
      \<not> fst (vmid_reserve f v (snd (vmid_reserve f v m))) \<and>
      (\<exists>m'. vmid_free f v (snd (vmid_reserve f v m)) = Inr m' \<and> wf_vmids m' \<and>
            vmids_used m' = vmids_used m))"
  using vmid_bitmap_is_set_parts [OF assms] by (intro conjI impI) simp_all


theorem vmid_bitmap_is_set_witness:
  "fst (vmid_reserve True 0x1234 (replicate 1024 0)) \<and>
   \<not> fst (vmid_reserve False 0x1234 (replicate 1024 0)) \<and>
   \<not> fst (vmid_reserve True 0x1234 (snd (vmid_reserve True 0x1234 (replicate 1024 0))))"
proof -
  have wf: "wf_vmids (replicate 1024 0)" by (simp add: wf_vmids_def)
  have a: "fst (vmid_reserve True 0x1234 (replicate 1024 0))"
    using vmid_bitmap_is_set [OF wf, of True "0x1234"]
    by (simp add: vmids_used_def vmid_count_def VMID16_COUNT_def)
  have b: "\<not> fst (vmid_reserve False 0x1234 (replicate 1024 0))"
    using vmid_bitmap_is_set [OF wf, of False "0x1234"] by (simp add: vmid_count_def VMID8_COUNT_def)
  show ?thesis using a b vmid_bitmap_is_set [OF wf, of True "0x1234"] by simp
qed

end
