(* ===== verification/Registry.thy ===== *)
theory Registry
  imports Prelude
begin

text \<open>
  The two registries of 8-bit identifiers: the realm tags of \<^verbatim>\<open>runtime/core/realm_tag.c\<close> and
  the region identifiers of confidential shared memory of \<^verbatim>\<open>runtime/core/csm_id.c\<close>. Their
  spinlocks are taken at the start and released at the end of every function, so that a
  function is one atomic step on the registry, and this is how it is modelled.

  The locale \<open>id_registry\<close> is the contract of both: identifiers in use are unique and never
  zero, over any sequence of operations.
\<close>

section \<open>Realm tags\<close>

abbreviation (input) CONFIG_MAX_REALMS :: nat where "CONFIG_MAX_REALMS \<equiv> 10"

record tag_entry =
  te_rd_pa :: u64
  te_tag :: u8
  te_in_use :: bool

record tag_state =
  g_tags :: "tag_entry list"
  g_tag_next_index :: u64
  g_tag_counter :: u8

definition k_default_tags :: "u8 list" where
  "k_default_tags = [0x11, 0x22, 0x33, 0x44, 0x55, 0x66, 0x77, 0x88, 0x99, 0xAA]"

definition realm_tag_generate_next :: "tag_state \<Rightarrow> u8 \<times> tag_state" where
  "realm_tag_generate_next st =
    (if g_tag_next_index st < of_nat (length k_default_tags)
     then (let t = k_default_tags ! unat (g_tag_next_index st);
               t = (if t = 0 then 1 else t)
           in (t, st\<lparr>g_tag_next_index := g_tag_next_index st + 1\<rparr>))
     else (let candidate = 0xF0 XOR g_tag_counter st;
               candidate = (if candidate = 0 then 1 else candidate)
           in (candidate, st\<lparr>g_tag_counter := g_tag_counter st + 1\<rparr>)))"

definition find_slot_by_rd :: "tag_state \<Rightarrow> u64 \<Rightarrow> nat option" where
  "find_slot_by_rd st rd_pa =
    find (\<lambda>i. te_in_use (g_tags st ! i) \<and> te_rd_pa (g_tags st ! i) = rd_pa) [0..<CONFIG_MAX_REALMS]"

definition find_free_slot :: "tag_state \<Rightarrow> nat option" where
  "find_free_slot st = find (\<lambda>i. \<not> te_in_use (g_tags st ! i)) [0..<CONFIG_MAX_REALMS]"

definition find_slot_by_tag :: "tag_state \<Rightarrow> u8 \<Rightarrow> nat option" where
  "find_slot_by_tag st tag =
    find (\<lambda>i. te_in_use (g_tags st ! i) \<and> te_tag (g_tags st ! i) = tag) [0..<CONFIG_MAX_REALMS]"

definition tag_collides :: "tag_state \<Rightarrow> u8 \<Rightarrow> bool" where
  "tag_collides st tag \<longleftrightarrow> find_slot_by_tag st tag \<noteq> None"

definition zero_tag_entry :: tag_entry where
  "zero_tag_entry = \<lparr>te_rd_pa = 0, te_tag = 0, te_in_use = False\<rparr>"

definition realm_tag_init :: "tag_state \<Rightarrow> tag_state" where
  "realm_tag_init st =
    st\<lparr>g_tags := replicate CONFIG_MAX_REALMS zero_tag_entry, g_tag_next_index := 0, g_tag_counter := 1\<rparr>"

text \<open>The loop that looks for a tag that does not collide; it gives up after 16 tries.\<close>

function tag_loop :: "nat \<Rightarrow> tag_state \<Rightarrow> u8 option \<times> tag_state" where
  "tag_loop tries st =
    (let (tag, st') = realm_tag_generate_next st; tries = tries + 1
     in if tries > 16 then (None, st')
        else if tag_collides st' tag then tag_loop tries st'
        else (Some tag, st'))"
  by auto
termination by (relation "measure (\<lambda>(tries, _). 17 - tries)") auto

declare tag_loop.simps [simp del]

definition realm_tag_assign :: "u64 \<Rightarrow> tag_state \<Rightarrow> u8 option \<times> tag_state" where
  "realm_tag_assign rd_pa st =
    (case find_slot_by_rd st rd_pa of
       Some _ \<Rightarrow> (None, st)
     | None \<Rightarrow>
         (case find_free_slot st of
            None \<Rightarrow> (None, st)
          | Some slot \<Rightarrow>
              (case tag_loop 0 st of
                 (None, st') \<Rightarrow> (None, st')
               | (Some tag, st') \<Rightarrow>
                   (Some tag, st'\<lparr>g_tags := (g_tags st')
                     [slot := \<lparr>te_rd_pa = rd_pa, te_tag = tag, te_in_use = True\<rparr>]\<rparr>))))"

definition realm_tag_get_by_rd :: "u64 \<Rightarrow> tag_state \<Rightarrow> u8 option" where
  "realm_tag_get_by_rd rd_pa st =
    (case find_slot_by_rd st rd_pa of None \<Rightarrow> None | Some idx \<Rightarrow> Some (te_tag (g_tags st ! idx)))"

definition realm_tag_remove :: "u64 \<Rightarrow> tag_state \<Rightarrow> bool \<times> tag_state" where
  "realm_tag_remove rd_pa st =
    (case find_slot_by_rd st rd_pa of
       None \<Rightarrow> (False, st)
     | Some idx \<Rightarrow> (True, st\<lparr>g_tags := (g_tags st)[idx := zero_tag_entry]\<rparr>))"

definition realm_tag_exists :: "u8 \<Rightarrow> tag_state \<Rightarrow> bool" where
  "realm_tag_exists tag st = (if tag = 0 then False else find_slot_by_tag st tag \<noteq> None)"

definition realm_tag_rd_by_tag :: "u8 \<Rightarrow> tag_state \<Rightarrow> u64 option" where
  "realm_tag_rd_by_tag tag st =
    (if tag = 0 then None
     else (case find_slot_by_tag st tag of None \<Rightarrow> None | Some i \<Rightarrow> Some (te_rd_pa (g_tags st ! i))))"

section \<open>Region identifiers\<close>

abbreviation (input) CONFIG_MAX_CSM_REGION_IDS :: nat where "CONFIG_MAX_CSM_REGION_IDS \<equiv> 64"

record csm_region_id_entry =
  ce_owner_rd_pa :: u64
  ce_region_id :: u8
  ce_in_use :: bool

record csm_id_state =
  g_csm_region_ids :: "csm_region_id_entry list"
  g_csm_region_id_counter :: u8

definition csm_region_id_find_free_slot :: "csm_id_state \<Rightarrow> nat option" where
  "csm_region_id_find_free_slot st =
    find (\<lambda>i. \<not> ce_in_use (g_csm_region_ids st ! i)) [0..<CONFIG_MAX_CSM_REGION_IDS]"

definition csm_region_id_find :: "csm_id_state \<Rightarrow> u8 \<Rightarrow> nat option" where
  "csm_region_id_find st region_id =
    find (\<lambda>i. ce_in_use (g_csm_region_ids st ! i) \<and> ce_region_id (g_csm_region_ids st ! i) = region_id)
      [0..<CONFIG_MAX_CSM_REGION_IDS]"

definition csm_region_id_collides :: "csm_id_state \<Rightarrow> u8 \<Rightarrow> bool" where
  "csm_region_id_collides st region_id \<longleftrightarrow> csm_region_id_find st region_id \<noteq> None"

text \<open>One candidate: the counter is advanced, twice when it was zero.\<close>

definition csm_next_candidate :: "csm_id_state \<Rightarrow> u8 \<times> csm_id_state" where
  "csm_next_candidate st =
    (let c = g_csm_region_id_counter st
     in if c = 0 then (c + 1, st\<lparr>g_csm_region_id_counter := c + 1 + 1\<rparr>)
        else (c, st\<lparr>g_csm_region_id_counter := c + 1\<rparr>))"

function csm_id_loop :: "nat \<Rightarrow> csm_id_state \<Rightarrow> u8 option \<times> csm_id_state" where
  "csm_id_loop tries st =
    (let (candidate, st') = csm_next_candidate st; tries = tries + 1
     in if tries > CONFIG_MAX_CSM_REGION_IDS then (None, st')
        else if csm_region_id_collides st' candidate then csm_id_loop tries st'
        else (Some candidate, st'))"
  by auto
termination by (relation "measure (\<lambda>(tries, _). 65 - tries)") auto

declare csm_id_loop.simps [simp del]

definition csm_region_id_assign :: "u64 \<Rightarrow> csm_id_state \<Rightarrow> u8 option \<times> csm_id_state" where
  "csm_region_id_assign owner_rd_pa st =
    (case csm_region_id_find_free_slot st of
       None \<Rightarrow> (None, st)
     | Some slot \<Rightarrow>
         (case csm_id_loop 0 st of
            (None, st') \<Rightarrow> (None, st')
          | (Some candidate, st') \<Rightarrow>
              (Some candidate, st'\<lparr>g_csm_region_ids := (g_csm_region_ids st')
                 [slot := \<lparr>ce_owner_rd_pa = owner_rd_pa, ce_region_id = candidate, ce_in_use = True\<rparr>]\<rparr>)))"

definition csm_region_id_remove :: "u8 \<Rightarrow> csm_id_state \<Rightarrow> bool \<times> csm_id_state" where
  "csm_region_id_remove region_id st =
    (case csm_region_id_find st region_id of
       None \<Rightarrow> (False, st)
     | Some i \<Rightarrow> (True, st\<lparr>g_csm_region_ids := (g_csm_region_ids st)
                    [i := \<lparr>ce_owner_rd_pa = 0, ce_region_id = 0, ce_in_use = False\<rparr>]\<rparr>))"

section \<open>The contract of a registry\<close>

datatype ('k, 'x) registry_op = Assign 'k | Remove 'x

locale id_registry =
  fixes wf :: "'r \<Rightarrow> bool" and live :: "'r \<Rightarrow> ('k \<times> u8) set"
    and assign :: "'k \<Rightarrow> 'r \<Rightarrow> u8 option \<times> 'r" and remove :: "'x \<Rightarrow> 'r \<Rightarrow> bool \<times> 'r"
    and full :: "'k \<Rightarrow> 'r \<Rightarrow> bool" and hit :: "'x \<Rightarrow> 'k \<times> u8 \<Rightarrow> bool"
  assumes live_ids: "wf r \<Longrightarrow> inj_on snd (live r) \<and> 0 \<notin> snd ` live r"
    and assign_wf: "wf r \<Longrightarrow> wf (snd (assign k r))"
    and assign_full: "wf r \<Longrightarrow> fst (assign k r) = None \<longleftrightarrow> full k r"
    and assign_live: "wf r \<Longrightarrow> live (snd (assign k r)) =
          (case fst (assign k r) of None \<Rightarrow> live r | Some i \<Rightarrow> insert (k, i) (live r))"
    and assign_fresh: "wf r \<Longrightarrow> fst (assign k r) = Some i \<Longrightarrow> i \<noteq> 0 \<and> i \<notin> snd ` live r"
    and remove_wf: "wf r \<Longrightarrow> wf (snd (remove x r))"
    and remove_live: "wf r \<Longrightarrow> live (snd (remove x r)) = {p \<in> live r. \<not> hit x p}"
    and remove_result: "wf r \<Longrightarrow> fst (remove x r) \<longleftrightarrow> (\<exists>p\<in>live r. hit x p)"
begin

definition step :: "('k, 'x) registry_op \<Rightarrow> 'r \<Rightarrow> 'r" where
  "step opn r = (case opn of Assign k \<Rightarrow> snd (assign k r) | Remove x \<Rightarrow> snd (remove x r))"

lemma step_wf: "wf r \<Longrightarrow> wf (step opn r)"
  by (cases opn) (simp_all add: step_def assign_wf remove_wf)

lemma run_wf: "wf r \<Longrightarrow> wf (fold step ops r)"
  by (induction ops arbitrary: r) (auto intro: step_wf)

lemma run_unique:
  assumes "wf r" "(k, i) \<in> live (fold step ops r)" "(k', i) \<in> live (fold step ops r)"
  shows "k = k' \<and> i \<noteq> 0"
proof -
  have "inj_on snd (live (fold step ops r)) \<and> 0 \<notin> snd ` live (fold step ops r)"
    by (intro live_ids run_wf assms)
  then have "(k, i) = (k', i)" and "i \<noteq> 0"
    using assms(2,3) inj_onD [of snd "live (fold step ops r)" "(k, i)" "(k', i)"] by force+
  then show ?thesis by simp
qed

lemma assigned_is_live:
  assumes "wf r" "fst (assign k r) = Some i"
  shows "(k, i) \<in> live (snd (assign k r))"
  using assms assign_live by simp

end

section \<open>The realm tags satisfy the contract\<close>

definition tag_live :: "tag_state \<Rightarrow> (u64 \<times> u8) set" where
  "tag_live st = {(te_rd_pa e, te_tag e) | e. e \<in> set (g_tags st) \<and> te_in_use e}"

definition wf_tags :: "tag_state \<Rightarrow> bool" where
  "wf_tags st \<longleftrightarrow> length (g_tags st) = CONFIG_MAX_REALMS \<and>
     (\<forall>i<CONFIG_MAX_REALMS. te_in_use (g_tags st ! i) \<longrightarrow> te_tag (g_tags st ! i) \<noteq> 0) \<and>
     (\<forall>i<CONFIG_MAX_REALMS. \<forall>j<CONFIG_MAX_REALMS. te_in_use (g_tags st ! i) \<longrightarrow> te_in_use (g_tags st ! j) \<longrightarrow>
        te_rd_pa (g_tags st ! i) = te_rd_pa (g_tags st ! j) \<or> te_tag (g_tags st ! i) = te_tag (g_tags st ! j) \<longrightarrow>
        i = j) \<and>
     (g_tag_next_index st < 10 \<longrightarrow> g_tag_counter st = 1)"

lemma tag_live_nth:
  "length (g_tags st) = 10 \<Longrightarrow> (rd, t) \<in> tag_live st \<longleftrightarrow>
     (\<exists>i<10. te_in_use (g_tags st ! i) \<and> te_rd_pa (g_tags st ! i) = rd \<and> te_tag (g_tags st ! i) = t)"
  by (auto simp: tag_live_def in_set_conv_nth)

lemma length_k_default_tags [simp]: "length k_default_tags = 10"
  by (simp add: k_default_tags_def)

lemma generate_next_frame [simp]: "g_tags (snd (realm_tag_generate_next st)) = g_tags st"
  by (simp add: realm_tag_generate_next_def Let_def)

lemma generate_next_nonzero: "fst (realm_tag_generate_next st) \<noteq> 0"
  by (auto simp: realm_tag_generate_next_def Let_def)

lemma generate_next_counter:
  "g_tag_next_index st < 10 \<longrightarrow> g_tag_counter st = 1 \<Longrightarrow>
   g_tag_next_index (snd (realm_tag_generate_next st)) < 10 \<longrightarrow>
     g_tag_counter (snd (realm_tag_generate_next st)) = 1"
  by (auto simp: realm_tag_generate_next_def Let_def)

fun candidates :: "nat \<Rightarrow> tag_state \<Rightarrow> u8 list" where
  "candidates 0 st = []"
| "candidates (Suc n) st =
     fst (realm_tag_generate_next st) # candidates n (snd (realm_tag_generate_next st))"

lemma tag_collides_cong: "g_tags st = g_tags st' \<Longrightarrow> tag_collides st t = tag_collides st' t"
  by (simp add: tag_collides_def find_slot_by_tag_def)

lemma tag_loop_ok:
  assumes "tries \<le> 16" "g_tag_next_index st < 10 \<longrightarrow> g_tag_counter st = 1"
  shows "g_tags (snd (tag_loop tries st)) = g_tags st \<and>
    (g_tag_next_index (snd (tag_loop tries st)) < 10 \<longrightarrow> g_tag_counter (snd (tag_loop tries st)) = 1) \<and>
    (case fst (tag_loop tries st) of
       None \<Rightarrow> \<forall>t\<in>set (candidates (16 - tries) st). tag_collides st t
     | Some t \<Rightarrow> t \<noteq> 0 \<and> \<not> tag_collides st t)"
  using assms
proof (induction tries st rule: tag_loop.induct)
  case (1 tries st)
  let ?t = "fst (realm_tag_generate_next st)" and ?st = "snd (realm_tag_generate_next st)"
  have c: "tag_collides ?st x = tag_collides st x" for x by (rule tag_collides_cong) simp
  note inv = generate_next_counter [OF "1.prems"(2)]
  show ?case
  proof (cases "tries = 16")
    case True
    have "tag_loop tries st = (None, ?st)"
      by (subst tag_loop.simps) (simp add: True case_prod_beta)
    then show ?thesis using inv True by simp
  next
    case False
    then have d: "16 - tries = Suc (16 - Suc tries)" using "1.prems"(1) by simp
    show ?thesis
    proof (cases "tag_collides ?st ?t")
      case True
      have "tag_loop tries st = tag_loop (Suc tries) ?st"
        using True False "1.prems" by (simp add: tag_loop.simps [of tries] Let_def case_prod_beta)
      moreover have "g_tags (snd (tag_loop (Suc tries) ?st)) = g_tags ?st \<and>
        (g_tag_next_index (snd (tag_loop (Suc tries) ?st)) < 10 \<longrightarrow>
           g_tag_counter (snd (tag_loop (Suc tries) ?st)) = 1) \<and>
        (case fst (tag_loop (Suc tries) ?st) of
           None \<Rightarrow> \<forall>t\<in>set (candidates (16 - Suc tries) ?st). tag_collides ?st t
         | Some t \<Rightarrow> t \<noteq> 0 \<and> \<not> tag_collides ?st t)"
        using "1.IH" [of "(?t, ?st)" ?t ?st "Suc tries"] True False "1.prems" inv by simp
      ultimately show ?thesis using True unfolding d by (simp add: c split: option.splits)
    next
      case False2: False
      then show ?thesis
        using False "1.prems" inv generate_next_nonzero [of st] c [of ?t]
        by (simp add: tag_loop.simps [of tries] Let_def case_prod_beta)
    qed
  qed
qed

subsection \<open>Sixteen candidates are enough\<close>

definition counter_tag :: "u8 \<Rightarrow> u8" where
  "counter_tag c = (if 0xF0 XOR c = 0 then 1 else 0xF0 XOR c)"

lemma candidates_counter:
  "\<not> g_tag_next_index st < 10 \<Longrightarrow>
   candidates n st = map (\<lambda>i. counter_tag (g_tag_counter st + of_nat i)) [0..<n]"
proof (induction n arbitrary: st)
  case 0
  then show ?case by simp
next
  case (Suc n)
  have g: "realm_tag_generate_next st =
      (counter_tag (g_tag_counter st), st\<lparr>g_tag_counter := g_tag_counter st + 1\<rparr>)"
    using Suc.prems by (simp add: realm_tag_generate_next_def counter_tag_def Let_def)
  have "map (\<lambda>i. counter_tag (g_tag_counter st + of_nat i)) [0..<Suc n] =
    counter_tag (g_tag_counter st) # map (\<lambda>i. counter_tag (g_tag_counter st + 1 + of_nat i)) [0..<n]"
    by (simp add: upt_conv_Cons map_Suc_upt [symmetric] ac_simps del: upt_Suc)
  then show ?case using Suc.IH [of "st\<lparr>g_tag_counter := g_tag_counter st + 1\<rparr>"] Suc.prems
    by (simp add: g del: upt_Suc)
qed

lemma xor_cancel: "a XOR (a XOR b) = b" for a b :: "'a::len word"
  by (auto intro!: bit_word_eqI simp: bit_xor_iff)

lemma counter_tag_inj: "inj_on counter_tag (UNIV - {0xF0})"
proof (rule inj_onI)
  fix x y :: u8
  assume xy: "x \<in> UNIV - {0xF0}" "y \<in> UNIV - {0xF0}" and eq: "counter_tag x = counter_tag y"
  have ne: "counter_tag z = 0xF0 XOR z" if "z \<in> UNIV - {0xF0}" for z
  proof -
    have "0xF0 XOR z \<noteq> 0"
    proof
      assume "0xF0 XOR z = 0"
      then have "z = 0xF0" using xor_cancel [of "0xF0" z] by simp
      then show False using that by simp
    qed
    then show ?thesis by (simp add: counter_tag_def)
  qed
  have "0xF0 XOR x = 0xF0 XOR y" using eq ne [OF xy(1)] ne [OF xy(2)] by argo
  then show "x = y" by (metis xor_cancel)
qed

lemma card_consecutive: "n \<le> 256 \<Longrightarrow> card ((\<lambda>i. c + of_nat i :: u8) ` {0..<n}) = n"
proof -
  assume n: "n \<le> 256"
  have "inj_on (\<lambda>i. c + of_nat i :: u8) {0..<n}"
  proof (rule inj_onI)
    fix i j assume "i \<in> {0..<n}" "j \<in> {0..<n}" "c + of_nat i = (c + of_nat j :: u8)"
    then have "(of_nat i :: u8) = of_nat j" "i < 256" "j < 256" using n by auto
    then show "i = j" by (simp add: word_unat_eq_iff unat_of_nat)
  qed
  then show ?thesis by (simp add: card_image)
qed

lemma card_candidates_counter:
  assumes "\<not> g_tag_next_index st < 10"
  shows "10 \<le> card (set (candidates 16 st))"
proof -
  let ?S = "(\<lambda>i. g_tag_counter st + of_nat i) ` {0..<16}"
  have "set (candidates 16 st) = counter_tag ` ?S"
    unfolding candidates_counter [OF assms] by (simp add: image_image)
  moreover have "card (counter_tag ` (?S - {0xF0})) = card (?S - {0xF0})"
    by (rule card_image) (rule inj_on_subset [OF counter_tag_inj], auto)
  moreover have "card ?S - 1 \<le> card (?S - {0xF0})" by (simp add: card_Diff_singleton_if)
  moreover have "card (counter_tag ` (?S - {0xF0})) \<le> card (counter_tag ` ?S)"
    by (rule card_mono) auto
  ultimately show ?thesis using card_consecutive [of 16 "g_tag_counter st"] by simp
qed

lemma candidates_numeral:
  "candidates (numeral k) st =
     fst (realm_tag_generate_next st) # candidates (pred_numeral k) (snd (realm_tag_generate_next st))"
  by (simp add: numeral_eq_Suc)

lemma candidates_mono: "m \<le> n \<Longrightarrow> set (candidates m st) \<subseteq> set (candidates n st)"
proof (induction n arbitrary: m st)
  case 0
  then show ?case by simp
next
  case (Suc n)
  then show ?case by (cases m) auto
qed

lemma distinct_candidates_default:
  assumes "g_tag_next_index st < 10" "g_tag_counter st = 1"
  shows "distinct (candidates 10 st)"
proof -
  have "unat (g_tag_next_index st) < 10" using assms(1) by (simp add: word_less_nat_alt)
  moreover define k where "k = unat (g_tag_next_index st)"
  ultimately have k: "g_tag_next_index st = of_nat k" "k < 10"
    by simp_all
  then have "k \<in> {0, 1, 2, 3, 4, 5, 6, 7, 8, 9}" by auto
  then show ?thesis using k(1) assms(2)
    by (elim insertE emptyE)
      (simp_all add: candidates_numeral realm_tag_generate_next_def k_default_tags_def Let_def)
qed

lemma card_candidates:
  assumes "g_tag_next_index st < 10 \<longrightarrow> g_tag_counter st = 1"
  shows "10 \<le> card (set (candidates 16 st))"
proof (cases "g_tag_next_index st < 10")
  case True
  have "card (set (candidates 10 st)) = length (candidates 10 st)"
    using distinct_candidates_default [OF True] assms True distinct_card by blast
  moreover have "length (candidates n st) = n" for n by (induction n arbitrary: st) auto
  moreover have "card (set (candidates 10 st)) \<le> card (set (candidates 16 st))"
    by (intro card_mono candidates_mono) auto
  ultimately show ?thesis by simp
next
  case False
  then show ?thesis by (rule card_candidates_counter)
qed

lemma tag_collides_iff:
  "tag_collides st t \<longleftrightarrow> (\<exists>i<10. te_in_use (g_tags st ! i) \<and> te_tag (g_tags st ! i) = t)"
  by (simp add: tag_collides_def find_slot_by_tag_def find_upt_None)

lemma colliding_tags_card:
  assumes "i < 10" "\<not> te_in_use (g_tags st ! i)"
  shows "card {t. tag_collides st t} < 10"
proof -
  have "{t. tag_collides st t} \<subseteq> (\<lambda>j. te_tag (g_tags st ! j)) ` ({0..<10} - {i})"
    using assms by (auto simp: tag_collides_iff)
  then have "card {t. tag_collides st t} \<le> card ((\<lambda>j. te_tag (g_tags st ! j)) ` ({0..<10} - {i}))"
    by (intro card_mono) auto
  also have "\<dots> \<le> card ({0..<10} - {i})" by (rule card_image_le) simp
  also have "\<dots> < 10" using assms by simp
  finally show ?thesis .
qed

lemma tag_loop_succeeds:
  assumes "i < 10" "\<not> te_in_use (g_tags st ! i)" "g_tag_next_index st < 10 \<longrightarrow> g_tag_counter st = 1"
  shows "fst (tag_loop 0 st) \<noteq> None"
proof
  assume "fst (tag_loop 0 st) = None"
  then have "set (candidates 16 st) \<subseteq> {t. tag_collides st t}"
    using tag_loop_ok [of 0 st] assms(3) by auto
  then have "card (set (candidates 16 st)) \<le> card {t. tag_collides st t}"
    by (intro card_mono) auto
  then show False using card_candidates [OF assms(3)] colliding_tags_card [OF assms(1,2)] by simp
qed

definition tags_full :: "u64 \<Rightarrow> tag_state \<Rightarrow> bool" where
  "tags_full rd st \<longleftrightarrow> rd \<in> fst ` tag_live st \<or> (\<forall>e\<in>set (g_tags st). te_in_use e)"

lemma find_slot_by_rd_None:
  "length (g_tags st) = 10 \<Longrightarrow> find_slot_by_rd st rd = None \<longleftrightarrow> rd \<notin> fst ` tag_live st"
  by (force simp: find_slot_by_rd_def find_upt_None tag_live_def in_set_conv_nth image_iff)

lemma find_free_slot_None:
  "length (g_tags st) = 10 \<Longrightarrow> find_free_slot st = None \<longleftrightarrow> (\<forall>e\<in>set (g_tags st). te_in_use e)"
  by (force simp: find_free_slot_def find_upt_None in_set_conv_nth)

lemma tag_live_update:
  assumes "wf_tags st" "i < 10"
  shows "tag_live (st\<lparr>g_tags := (g_tags st)[i := e]\<rparr>) =
    {p \<in> tag_live st. \<not> (te_in_use (g_tags st ! i) \<and> fst p = te_rd_pa (g_tags st ! i))} \<union>
    (if te_in_use e then {(te_rd_pa e, te_tag e)} else {})"
  (is "?L = ?R")
proof -
  have l: "length (g_tags st) = 10"
    and u: "\<And>j. j < 10 \<Longrightarrow> te_in_use (g_tags st ! i) \<Longrightarrow> te_in_use (g_tags st ! j) \<Longrightarrow>
      te_rd_pa (g_tags st ! i) = te_rd_pa (g_tags st ! j) \<Longrightarrow> i = j"
    using assms by (simp_all add: wf_tags_def)
  have "(rd, t) \<in> ?L \<longleftrightarrow> (rd, t) \<in> ?R" for rd t
    using assms(2) u
    by (auto simp: tag_live_nth l nth_list_update split: if_splits) metis+
  then show ?thesis by auto
qed


lemma wf_tags_update:
  assumes "wf_tags st" "i < 10"
    and "te_in_use e \<Longrightarrow> te_tag e \<noteq> 0 \<and> \<not> tag_collides st (te_tag e) \<and> te_rd_pa e \<notin> fst ` tag_live st"
  shows "wf_tags (st\<lparr>g_tags := (g_tags st)[i := e]\<rparr>)"
proof -
  have l: "length (g_tags st) = 10" using assms by (simp add: wf_tags_def)
  have e: "te_tag (g_tags st ! j) \<noteq> te_tag e \<and> te_rd_pa (g_tags st ! j) \<noteq> te_rd_pa e"
    if "te_in_use e" "j < 10" "te_in_use (g_tags st ! j)" for j
  proof -
    have "(te_rd_pa (g_tags st ! j), te_tag (g_tags st ! j)) \<in> tag_live st"
      using that l by (auto simp: tag_live_nth)
    then have "te_rd_pa (g_tags st ! j) \<in> fst ` tag_live st" by force
    moreover have "tag_collides st (te_tag (g_tags st ! j))" using that by (auto simp: tag_collides_iff)
    ultimately show ?thesis using assms(3) [OF that(1)] by metis
  qed
  have old: "\<And>j. j < 10 \<Longrightarrow> te_in_use (g_tags st ! j) \<Longrightarrow> te_tag (g_tags st ! j) \<noteq> 0"
    "\<And>j k. j < 10 \<Longrightarrow> k < 10 \<Longrightarrow> te_in_use (g_tags st ! j) \<Longrightarrow> te_in_use (g_tags st ! k) \<Longrightarrow>
      te_rd_pa (g_tags st ! j) = te_rd_pa (g_tags st ! k) \<or> te_tag (g_tags st ! j) = te_tag (g_tags st ! k) \<Longrightarrow> j = k"
    "g_tag_next_index st < 10 \<longrightarrow> g_tag_counter st = 1"
    using assms(1) unfolding wf_tags_def by blast+
  show ?thesis
    unfolding wf_tags_def
  proof (intro conjI allI impI)
    show "length (g_tags (st\<lparr>g_tags := (g_tags st)[i := e]\<rparr>)) = 10" using l by simp
  next
    fix j assume "j < (10::nat)" "te_in_use (g_tags (st\<lparr>g_tags := (g_tags st)[i := e]\<rparr>) ! j)"
    then show "te_tag (g_tags (st\<lparr>g_tags := (g_tags st)[i := e]\<rparr>) ! j) \<noteq> 0"
      using old(1) [of j] assms(2,3) l by (cases "j = i") simp_all
  next
    fix j k assume "j < (10::nat)" "k < (10::nat)"
      "te_in_use (g_tags (st\<lparr>g_tags := (g_tags st)[i := e]\<rparr>) ! j)"
      "te_in_use (g_tags (st\<lparr>g_tags := (g_tags st)[i := e]\<rparr>) ! k)"
      "te_rd_pa (g_tags (st\<lparr>g_tags := (g_tags st)[i := e]\<rparr>) ! j) =
         te_rd_pa (g_tags (st\<lparr>g_tags := (g_tags st)[i := e]\<rparr>) ! k) \<or>
       te_tag (g_tags (st\<lparr>g_tags := (g_tags st)[i := e]\<rparr>) ! j) =
         te_tag (g_tags (st\<lparr>g_tags := (g_tags st)[i := e]\<rparr>) ! k)"
    then show "j = k"
      using old(2) [of j k] e [of j] e [of k] assms(2) l
      by (cases "j = i"; cases "k = i") auto
  next
    assume "g_tag_next_index (st\<lparr>g_tags := (g_tags st)[i := e]\<rparr>) < 10"
    then show "g_tag_counter (st\<lparr>g_tags := (g_tags st)[i := e]\<rparr>) = 1" using old(3) by simp
  qed
qed

text \<open>What \<^verbatim>\<open>realm_tag_assign\<close> does on each of its branches.\<close>

lemma wf_tags_frame:
  "wf_tags st \<Longrightarrow> g_tags st' = g_tags st \<Longrightarrow>
   (g_tag_next_index st' < 10 \<longrightarrow> g_tag_counter st' = 1) \<Longrightarrow> wf_tags st'"
  by (simp add: wf_tags_def)

lemma tag_live_frame: "g_tags st' = g_tags st \<Longrightarrow> tag_live st' = tag_live st"
  by (simp add: tag_live_def)

lemma realm_tag_assign_cases:
  assumes "wf_tags st"
  shows "(tags_full rd st \<and> realm_tag_assign rd st = (None, st)) \<or>
    (\<not> tags_full rd st \<and> (\<exists>t st' i. i < 10 \<and> \<not> te_in_use (g_tags st' ! i) \<and> g_tags st' = g_tags st \<and> wf_tags st' \<and>
        t \<noteq> 0 \<and> \<not> tag_collides st' t \<and> rd \<notin> fst ` tag_live st \<and>
        realm_tag_assign rd st =
          (Some t, st'\<lparr>g_tags := (g_tags st')[i := \<lparr>te_rd_pa = rd, te_tag = t, te_in_use = True\<rparr>]\<rparr>)))"
proof -
  have l: "length (g_tags st) = 10" and c: "g_tag_next_index st < 10 \<longrightarrow> g_tag_counter st = 1"
    using assms by (simp_all add: wf_tags_def)
  show ?thesis
  proof (cases "tags_full rd st")
    case True
    then show ?thesis
      using find_slot_by_rd_None [OF l, of rd] find_free_slot_None [OF l]
      by (auto simp: tags_full_def realm_tag_assign_def split: option.splits)
  next
    case False
    then have rd: "rd \<notin> fst ` tag_live st" and "find_free_slot st \<noteq> None"
      and n: "find_slot_by_rd st rd = None"
      using find_slot_by_rd_None [OF l, of rd] find_free_slot_None [OF l] by (auto simp: tags_full_def)
    then obtain i where i: "find_free_slot st = Some i" by auto
    then have f: "i < 10" "\<not> te_in_use (g_tags st ! i)"
      unfolding find_free_slot_def by (blast dest: find_upt_Some)+
    obtain t where t: "fst (tag_loop 0 st) = Some t" using tag_loop_succeeds [OF f c] by auto
    define st' where "st' = snd (tag_loop 0 st)"
    have e: "tag_loop 0 st = (Some t, st')" using t st'_def by (metis prod.collapse)
    have p: "g_tags st' = g_tags st" "g_tag_next_index st' < 10 \<longrightarrow> g_tag_counter st' = 1"
      "t \<noteq> 0" "\<not> tag_collides st t"
      using tag_loop_ok [of 0 st] c e by simp_all
    have "realm_tag_assign rd st =
      (Some t, st'\<lparr>g_tags := (g_tags st')[i := \<lparr>te_rd_pa = rd, te_tag = t, te_in_use = True\<rparr>]\<rparr>)"
      using n i e by (simp add: realm_tag_assign_def)
    moreover have "\<not> tag_collides st' t" using p tag_collides_cong [OF p(1), of t] by simp
    moreover have "wf_tags st'" using wf_tags_frame [OF assms p(1,2)] .
    ultimately show ?thesis using False f p rd by metis
  qed
qed


lemma tags_live_ids: "wf_tags st \<Longrightarrow> inj_on snd (tag_live st) \<and> 0 \<notin> snd ` tag_live st"
proof -
  assume wf: "wf_tags st"
  then have l: "length (g_tags st) = 10" by (simp add: wf_tags_def)
  have "inj_on snd (tag_live st)"
  proof (rule inj_onI)
    fix p q assume "p \<in> tag_live st" "q \<in> tag_live st" "snd p = snd q"
    then obtain i j where "i < 10" "j < 10" "te_in_use (g_tags st ! i)" "te_in_use (g_tags st ! j)"
      "p = (te_rd_pa (g_tags st ! i), te_tag (g_tags st ! i))"
      "q = (te_rd_pa (g_tags st ! j), te_tag (g_tags st ! j))"
      "te_tag (g_tags st ! i) = te_tag (g_tags st ! j)"
      by (cases p; cases q) (auto simp: tag_live_nth l)
    then show "p = q" using wf unfolding wf_tags_def by metis
  qed
  moreover have "0 \<notin> snd ` tag_live st"
    using wf by (auto simp: tag_live_nth l wf_tags_def)
  ultimately show ?thesis ..
qed

lemma realm_tag_remove_cases:
  assumes "wf_tags st"
  shows "(rd \<notin> fst ` tag_live st \<and> realm_tag_remove rd st = (False, st)) \<or>
    (\<exists>i<10. te_in_use (g_tags st ! i) \<and> te_rd_pa (g_tags st ! i) = rd \<and> rd \<in> fst ` tag_live st \<and>
       realm_tag_remove rd st = (True, st\<lparr>g_tags := (g_tags st)[i := zero_tag_entry]\<rparr>))"
proof (cases "find_slot_by_rd st rd")
  case None
  then show ?thesis
    using assms find_slot_by_rd_None [of st rd] by (auto simp: realm_tag_remove_def wf_tags_def)
next
  case (Some i)
  have "rd \<in> fst ` tag_live st"
    using assms find_slot_by_rd_None [of st rd] Some by (auto simp: wf_tags_def)
  moreover have "i < 10 \<and> te_in_use (g_tags st ! i) \<and> te_rd_pa (g_tags st ! i) = rd"
    using Some find_upt_Some unfolding find_slot_by_rd_def by blast
  ultimately show ?thesis using Some by (auto simp: realm_tag_remove_def)
qed

interpretation realm_tags:
  id_registry wf_tags tag_live realm_tag_assign realm_tag_remove tags_full "\<lambda>rd p. fst p = rd"
proof
  fix st rd i
  assume wf: "wf_tags st"
  show "inj_on snd (tag_live st) \<and> 0 \<notin> snd ` tag_live st" by (rule tags_live_ids [OF wf])
  consider (full) "tags_full rd st" "realm_tag_assign rd st = (None, st)"
    | (ok) t st' j where "\<not> tags_full rd st" "j < 10" "\<not> te_in_use (g_tags st' ! j)" "g_tags st' = g_tags st"
        "wf_tags st'" "t \<noteq> 0" "\<not> tag_collides st' t" "rd \<notin> fst ` tag_live st"
        "realm_tag_assign rd st =
          (Some t, st'\<lparr>g_tags := (g_tags st')[j := \<lparr>te_rd_pa = rd, te_tag = t, te_in_use = True\<rparr>]\<rparr>)"
    using realm_tag_assign_cases [OF wf, of rd] by blast
  note C = this
  show "wf_tags (snd (realm_tag_assign rd st))"
  proof (cases rule: C)
    case full
    then show ?thesis using wf by simp
  next
    case ok
    then show ?thesis using wf_tags_update [OF ok(5,2), of "\<lparr>te_rd_pa = rd, te_tag = t, te_in_use = True\<rparr>"]
        tag_live_frame [OF ok(4)] by simp
  qed
  show "fst (realm_tag_assign rd st) = None \<longleftrightarrow> tags_full rd st" by (cases rule: C) simp_all
  show "tag_live (snd (realm_tag_assign rd st)) =
    (case fst (realm_tag_assign rd st) of None \<Rightarrow> tag_live st | Some i \<Rightarrow> insert (rd, i) (tag_live st))"
  proof (cases rule: C)
    case full
    then show ?thesis by simp
  next
    case ok
    then show ?thesis
      using tag_live_update [OF ok(5,2), of "\<lparr>te_rd_pa = rd, te_tag = t, te_in_use = True\<rparr>"]
        tag_live_frame [OF ok(4)] by simp
  qed
  show "fst (realm_tag_assign rd st) = Some i \<Longrightarrow> i \<noteq> 0 \<and> i \<notin> snd ` tag_live st"
  proof (cases rule: C)
    case full
    then show "fst (realm_tag_assign rd st) = Some i \<Longrightarrow> ?thesis" by simp
  next
    case ok
    have "t \<notin> snd ` tag_live st"
      using ok(4,7) wf by (auto simp: tag_collides_iff tag_live_nth wf_tags_def)
    then show "fst (realm_tag_assign rd st) = Some i \<Longrightarrow> ?thesis" using ok by simp
  qed
  show "wf_tags (snd (realm_tag_remove rd st))"
    using realm_tag_remove_cases [OF wf, of rd] wf wf_tags_update [OF wf, of _ zero_tag_entry]
    by (auto simp: zero_tag_entry_def)
  show "tag_live (snd (realm_tag_remove rd st)) = {p \<in> tag_live st. \<not> fst p = rd}"
    using realm_tag_remove_cases [OF wf, of rd] tag_live_update [OF wf, of _ zero_tag_entry]
    by (force simp: zero_tag_entry_def)
  show "fst (realm_tag_remove rd st) \<longleftrightarrow> (\<exists>p\<in>tag_live st. fst p = rd)"
    using realm_tag_remove_cases [OF wf, of rd] by force
qed

section \<open>The region identifiers satisfy the contract\<close>

definition csm_live :: "csm_id_state \<Rightarrow> (u64 \<times> u8) set" where
  "csm_live st = {(ce_owner_rd_pa e, ce_region_id e) | e. e \<in> set (g_csm_region_ids st) \<and> ce_in_use e}"

definition wf_csm_ids :: "csm_id_state \<Rightarrow> bool" where
  "wf_csm_ids st \<longleftrightarrow> length (g_csm_region_ids st) = CONFIG_MAX_CSM_REGION_IDS \<and>
     (\<forall>i<64. ce_in_use (g_csm_region_ids st ! i) \<longrightarrow> ce_region_id (g_csm_region_ids st ! i) \<noteq> 0) \<and>
     (\<forall>i<64. \<forall>j<64. ce_in_use (g_csm_region_ids st ! i) \<longrightarrow> ce_in_use (g_csm_region_ids st ! j) \<longrightarrow>
        ce_region_id (g_csm_region_ids st ! i) = ce_region_id (g_csm_region_ids st ! j) \<longrightarrow> i = j)"

definition csm_ids_full :: "u64 \<Rightarrow> csm_id_state \<Rightarrow> bool" where
  "csm_ids_full k st \<longleftrightarrow> (\<forall>e\<in>set (g_csm_region_ids st). ce_in_use e)"

lemma csm_live_nth:
  "length (g_csm_region_ids st) = 64 \<Longrightarrow> (k, t) \<in> csm_live st \<longleftrightarrow>
     (\<exists>i<64. ce_in_use (g_csm_region_ids st ! i) \<and> ce_owner_rd_pa (g_csm_region_ids st ! i) = k \<and>
             ce_region_id (g_csm_region_ids st ! i) = t)"
  by (auto simp: csm_live_def in_set_conv_nth)

lemma csm_collides_iff:
  "csm_region_id_collides st t \<longleftrightarrow>
     (\<exists>i<64. ce_in_use (g_csm_region_ids st ! i) \<and> ce_region_id (g_csm_region_ids st ! i) = t)"
  by (simp add: csm_region_id_collides_def csm_region_id_find_def find_upt_None)

lemma csm_collides_live:
  "wf_csm_ids st \<Longrightarrow> csm_region_id_collides st t \<longleftrightarrow> t \<in> snd ` csm_live st"
proof -
  assume "wf_csm_ids st"
  then have "length (g_csm_region_ids st) = 64" by (simp add: wf_csm_ids_def)
  note nth = csm_live_nth [OF this]
  have "t \<in> snd ` csm_live st \<longleftrightarrow> (\<exists>k. (k, t) \<in> csm_live st)" by force
  then show ?thesis unfolding csm_collides_iff nth by blast
qed

lemma next_candidate_frame [simp]:
  "g_csm_region_ids (snd (csm_next_candidate st)) = g_csm_region_ids st"
  by (simp add: csm_next_candidate_def Let_def)

lemma next_candidate_nonzero: "fst (csm_next_candidate st) \<noteq> 0"
  by (simp add: csm_next_candidate_def Let_def)

fun csm_candidates :: "nat \<Rightarrow> csm_id_state \<Rightarrow> u8 list" where
  "csm_candidates 0 st = []"
| "csm_candidates (Suc n) st =
     fst (csm_next_candidate st) # csm_candidates n (snd (csm_next_candidate st))"

lemma csm_id_loop_ok:
  assumes "tries \<le> 64"
  shows "g_csm_region_ids (snd (csm_id_loop tries st)) = g_csm_region_ids st \<and>
    (case fst (csm_id_loop tries st) of
       None \<Rightarrow> \<forall>t\<in>set (csm_candidates (64 - tries) st). csm_region_id_collides st t
     | Some t \<Rightarrow> t \<noteq> 0 \<and> \<not> csm_region_id_collides st t)"
  using assms
proof (induction tries st rule: csm_id_loop.induct)
  case (1 tries st)
  let ?t = "fst (csm_next_candidate st)" and ?st = "snd (csm_next_candidate st)"
  have c: "csm_region_id_collides ?st x = csm_region_id_collides st x" for x
    by (simp add: csm_collides_iff)
  show ?case
  proof (cases "tries = 64")
    case True
    have "csm_id_loop tries st = (None, ?st)"
      by (subst csm_id_loop.simps) (simp add: True case_prod_beta)
    then show ?thesis using True by simp
  next
    case False
    then have d: "64 - tries = Suc (64 - Suc tries)" using "1.prems"(1) by simp
    show ?thesis
    proof (cases "csm_region_id_collides ?st ?t")
      case True
      have "csm_id_loop tries st = csm_id_loop (Suc tries) ?st"
        using True False "1.prems" by (simp add: csm_id_loop.simps [of tries] Let_def case_prod_beta)
      moreover have "g_csm_region_ids (snd (csm_id_loop (Suc tries) ?st)) = g_csm_region_ids ?st \<and>
        (case fst (csm_id_loop (Suc tries) ?st) of
           None \<Rightarrow> \<forall>t\<in>set (csm_candidates (64 - Suc tries) ?st). csm_region_id_collides ?st t
         | Some t \<Rightarrow> t \<noteq> 0 \<and> \<not> csm_region_id_collides ?st t)"
        using "1.IH" [of "(?t, ?st)" ?t ?st "Suc tries"] True False "1.prems" by simp
      ultimately show ?thesis using True unfolding d by (simp add: c split: option.splits)
    next
      case False2: False
      then show ?thesis
        using False "1.prems" next_candidate_nonzero [of st] c [of ?t]
        by (simp add: csm_id_loop.simps [of tries] Let_def case_prod_beta)
    qed
  qed
qed

subsection \<open>Sixty-four candidates are enough\<close>

text \<open>The position of the next candidate in the cycle of the 255 non-zero identifiers.\<close>

definition csm_pos :: "u8 \<Rightarrow> nat" where
  "csm_pos c = (if c = 0 then 0 else unat c - 1)"

lemma csm_pos_less: "csm_pos c < 255"
proof -
  have "unat c < 256" using unsigned_less [of c] by simp
  then have "unat c - 1 < 255" by linarith
  then show ?thesis by (simp add: csm_pos_def)
qed

lemma next_candidate_pos:
  "fst (csm_next_candidate st) = of_nat (Suc (csm_pos (g_csm_region_id_counter st)))"
  "csm_pos (g_csm_region_id_counter (snd (csm_next_candidate st))) =
     (csm_pos (g_csm_region_id_counter st) + 1) mod 255"
proof -
  let ?c = "g_csm_region_id_counter st"
  have pos: "0 < unat ?c" if "?c \<noteq> 0" using that by (simp add: unat_gt_0)
  show "fst (csm_next_candidate st) = of_nat (Suc (csm_pos ?c))"
  proof (cases "?c = 0")
    case True
    then show ?thesis by (simp add: csm_next_candidate_def csm_pos_def)
  next
    case False
    then have "Suc (csm_pos ?c) = unat ?c" using pos by (simp add: csm_pos_def)
    moreover have "fst (csm_next_candidate st) = ?c" using False by (simp add: csm_next_candidate_def Let_def)
    ultimately show ?thesis by (simp only: of_nat_unat ucast_id)
  qed
  show "csm_pos (g_csm_region_id_counter (snd (csm_next_candidate st))) = (csm_pos ?c + 1) mod 255"
  proof (cases "?c = 0")
    case True
    then show ?thesis by (simp add: csm_next_candidate_def csm_pos_def)
  next
    case False
    have lt: "unat ?c < 256" using unsigned_less [of ?c] by simp
    show ?thesis
    proof (cases "unat ?c = 255")
      case True
      then have "?c = 255" by (simp add: word_unat_eq_iff)
      then show ?thesis by (simp add: csm_next_candidate_def csm_pos_def)
    next
      case False2: False
      then have u: "unat (?c + 1) = unat ?c + 1" using lt by (simp add: unat_word_ariths)
      then have "?c + 1 \<noteq> 0" by (metis add_eq_0_iff_both_eq_0 one_neq_zero unat_0)
      then show ?thesis using False False2 u lt pos by (simp add: csm_next_candidate_def csm_pos_def Let_def)
    qed
  qed
qed

lemma csm_candidates_cycle:
  "csm_candidates n st =
     map (\<lambda>i. of_nat (Suc ((csm_pos (g_csm_region_id_counter st) + i) mod 255))) [0..<n]"
proof (induction n arbitrary: st)
  case 0
  then show ?case by simp
next
  case (Suc n)
  let ?p = "csm_pos (g_csm_region_id_counter st)"
  have "csm_candidates (Suc n) st =
    of_nat (Suc ?p) # map (\<lambda>i. of_nat (Suc (((?p + 1) mod 255 + i) mod 255))) [0..<n]"
    using Suc.IH [of "snd (csm_next_candidate st)"] by (simp add: next_candidate_pos)
  also have "\<dots> = map (\<lambda>i. of_nat (Suc ((?p + i) mod 255))) (0 # map Suc [0..<n])"
    using csm_pos_less [of "g_csm_region_id_counter st"] by (simp add: mod_simps)
  also have "0 # map Suc [0..<n] = [0..<Suc n]"
    by (simp add: map_Suc_upt upt_conv_Cons del: upt_Suc)
  finally show ?case .
qed

lemma distinct_csm_candidates: "n \<le> 255 \<Longrightarrow> distinct (csm_candidates n st)"
proof -
  assume n: "n \<le> 255"
  let ?p = "csm_pos (g_csm_region_id_counter st)"
  have "inj_on (\<lambda>i. of_nat (Suc ((?p + i) mod 255)) :: u8) {0..<n}"
  proof (rule inj_onI)
    fix i j assume ij: "i \<in> {0..<n}" "j \<in> {0..<n}"
      and "of_nat (Suc ((?p + i) mod 255)) = (of_nat (Suc ((?p + j) mod 255)) :: u8)"
    then have "unat (of_nat (Suc ((?p + i) mod 255)) :: u8) = unat (of_nat (Suc ((?p + j) mod 255)) :: u8)"
      by (simp only:)
    then have "Suc ((?p + i) mod 255) mod 256 = Suc ((?p + j) mod 255) mod 256"
      by (simp only: unat_of_nat) simp
    moreover have "Suc ((?p + i) mod 255) < 256" "Suc ((?p + j) mod 255) < 256" by simp_all
    ultimately have "(?p + i) mod 255 = (?p + j) mod 255" by simp
    moreover have "(?p + k) mod 255 = (if ?p + k < 255 then ?p + k else ?p + k - 255)" if "k < n" for k
      using that n csm_pos_less [of "g_csm_region_id_counter st"] by (simp add: mod_if)
    ultimately show "i = j"
      using ij n csm_pos_less [of "g_csm_region_id_counter st"] by (simp split: if_splits)
  qed
  then show ?thesis by (simp add: csm_candidates_cycle distinct_map)
qed


lemma csm_loop_succeeds:
  assumes "i < 64" "\<not> ce_in_use (g_csm_region_ids st ! i)"
  shows "fst (csm_id_loop 0 st) \<noteq> None"
proof
  assume "fst (csm_id_loop 0 st) = None"
  then have "set (csm_candidates 64 st) \<subseteq> {t. csm_region_id_collides st t}"
    using csm_id_loop_ok [of 0 st] by auto
  then have "card (set (csm_candidates 64 st)) \<le> card {t. csm_region_id_collides st t}"
    by (intro card_mono) auto
  also have "\<dots> \<le> card ((\<lambda>j. ce_region_id (g_csm_region_ids st ! j)) ` ({0..<64} - {i}))"
    by (rule card_mono) (use assms in \<open>auto simp: csm_collides_iff\<close>)
  also have "\<dots> \<le> card ({0..<64} - {i})" by (rule card_image_le) simp
  also have "\<dots> = 63" using assms by simp
  finally have "card (set (csm_candidates 64 st)) \<le> 63" .
  moreover have "length (csm_candidates n st) = n" for n by (induction n arbitrary: st) auto
  ultimately show False using distinct_card [OF distinct_csm_candidates [of 64 st]] by simp
qed

lemma csm_live_update:
  assumes "wf_csm_ids st" "i < 64"
  shows "csm_live (st\<lparr>g_csm_region_ids := (g_csm_region_ids st)[i := e]\<rparr>) =
    {p \<in> csm_live st. \<not> (ce_in_use (g_csm_region_ids st ! i) \<and> snd p = ce_region_id (g_csm_region_ids st ! i))} \<union>
    (if ce_in_use e then {(ce_owner_rd_pa e, ce_region_id e)} else {})"
  (is "?L = ?R")
proof -
  have l: "length (g_csm_region_ids st) = 64"
    and u: "\<And>j. j < 64 \<Longrightarrow> ce_in_use (g_csm_region_ids st ! i) \<Longrightarrow> ce_in_use (g_csm_region_ids st ! j) \<Longrightarrow>
      ce_region_id (g_csm_region_ids st ! i) = ce_region_id (g_csm_region_ids st ! j) \<Longrightarrow> i = j"
    using assms by (simp_all add: wf_csm_ids_def)
  have "(k, t) \<in> ?L \<longleftrightarrow> (k, t) \<in> ?R" for k t
    using assms(2) u
    by (auto simp: csm_live_nth l nth_list_update split: if_splits) metis+
  then show ?thesis by auto
qed

lemma wf_csm_ids_update:
  assumes "wf_csm_ids st" "i < 64"
    and "ce_in_use e \<Longrightarrow> ce_region_id e \<noteq> 0 \<and> \<not> csm_region_id_collides st (ce_region_id e)"
  shows "wf_csm_ids (st\<lparr>g_csm_region_ids := (g_csm_region_ids st)[i := e]\<rparr>)"
proof -
  let ?t = "g_csm_region_ids st"
  have l: "length ?t = 64" using assms by (simp add: wf_csm_ids_def)
  have e: "ce_region_id (?t ! j) \<noteq> ce_region_id e" if "ce_in_use e" "j < 64" "ce_in_use (?t ! j)" for j
    using assms(3) [OF that(1)] that by (auto simp: csm_collides_iff)
  have old: "\<And>j. j < 64 \<Longrightarrow> ce_in_use (?t ! j) \<Longrightarrow> ce_region_id (?t ! j) \<noteq> 0"
    "\<And>j k. j < 64 \<Longrightarrow> k < 64 \<Longrightarrow> ce_in_use (?t ! j) \<Longrightarrow> ce_in_use (?t ! k) \<Longrightarrow>
      ce_region_id (?t ! j) = ce_region_id (?t ! k) \<Longrightarrow> j = k"
    using assms(1) unfolding wf_csm_ids_def by blast+
  have "ce_region_id (?t[i := e] ! j) \<noteq> 0" if "j < 64" "ce_in_use (?t[i := e] ! j)" for j
    using that old(1) [of j] assms(2,3) l by (cases "j = i") simp_all
  moreover have "j = k" if "j < 64" "k < 64" "ce_in_use (?t[i := e] ! j)" "ce_in_use (?t[i := e] ! k)"
    "ce_region_id (?t[i := e] ! j) = ce_region_id (?t[i := e] ! k)" for j k
    using that old(2) [of j k] e [of j] e [of k] assms(2) l by (cases "j = i"; cases "k = i") auto
  ultimately show ?thesis using l unfolding wf_csm_ids_def by simp
qed

lemma csm_assign_cases:
  assumes "wf_csm_ids st"
  shows "(csm_ids_full k st \<and> csm_region_id_assign k st = (None, st)) \<or>
    (\<not> csm_ids_full k st \<and> (\<exists>t st' i. i < 64 \<and> \<not> ce_in_use (g_csm_region_ids st' ! i) \<and>
        g_csm_region_ids st' = g_csm_region_ids st \<and> t \<noteq> 0 \<and> \<not> csm_region_id_collides st t \<and>
        csm_region_id_assign k st =
          (Some t, st'\<lparr>g_csm_region_ids := (g_csm_region_ids st')
             [i := \<lparr>ce_owner_rd_pa = k, ce_region_id = t, ce_in_use = True\<rparr>]\<rparr>)))"
proof -
  have l: "length (g_csm_region_ids st) = 64" using assms by (simp add: wf_csm_ids_def)
  have full: "csm_ids_full k st \<longleftrightarrow> csm_region_id_find_free_slot st = None"
    by (simp add: csm_ids_full_def csm_region_id_find_free_slot_def find_upt_None all_set_conv_all_nth l)
  show ?thesis
  proof (cases "csm_region_id_find_free_slot st")
    case None
    then show ?thesis using full by (simp add: csm_region_id_assign_def)
  next
    case (Some i)
    then have f: "i < 64" "\<not> ce_in_use (g_csm_region_ids st ! i)"
      unfolding csm_region_id_find_free_slot_def by (blast dest: find_upt_Some)+
    obtain t where t: "fst (csm_id_loop 0 st) = Some t" using csm_loop_succeeds [OF f] by auto
    define st' where "st' = snd (csm_id_loop 0 st)"
    have e: "csm_id_loop 0 st = (Some t, st')" using t st'_def by (metis prod.collapse)
    have p: "g_csm_region_ids st' = g_csm_region_ids st" "t \<noteq> 0" "\<not> csm_region_id_collides st t"
      using csm_id_loop_ok [of 0 st] e by simp_all
    have "csm_region_id_assign k st =
      (Some t, st'\<lparr>g_csm_region_ids := (g_csm_region_ids st')
         [i := \<lparr>ce_owner_rd_pa = k, ce_region_id = t, ce_in_use = True\<rparr>]\<rparr>)"
      using Some e by (simp add: csm_region_id_assign_def)
    then show ?thesis using full Some f p by (metis option.distinct(1))
  qed
qed

lemma csm_live_ids: "wf_csm_ids st \<Longrightarrow> inj_on snd (csm_live st) \<and> 0 \<notin> snd ` csm_live st"
proof -
  assume wf: "wf_csm_ids st"
  then have l: "length (g_csm_region_ids st) = 64" by (simp add: wf_csm_ids_def)
  have "inj_on snd (csm_live st)"
  proof (rule inj_onI)
    fix p q assume "p \<in> csm_live st" "q \<in> csm_live st" "snd p = snd q"
    then obtain i j where "i < 64" "j < 64" "ce_in_use (g_csm_region_ids st ! i)" "ce_in_use (g_csm_region_ids st ! j)"
      "p = (ce_owner_rd_pa (g_csm_region_ids st ! i), ce_region_id (g_csm_region_ids st ! i))"
      "q = (ce_owner_rd_pa (g_csm_region_ids st ! j), ce_region_id (g_csm_region_ids st ! j))"
      "ce_region_id (g_csm_region_ids st ! i) = ce_region_id (g_csm_region_ids st ! j)"
      by (cases p; cases q) (auto simp: csm_live_nth l)
    then show "p = q" using wf unfolding wf_csm_ids_def by metis
  qed
  moreover have "0 \<notin> snd ` csm_live st"
    using wf by (auto simp: csm_live_nth l wf_csm_ids_def)
  ultimately show ?thesis ..
qed

lemma csm_remove_cases:
  assumes "wf_csm_ids st"
  shows "(x \<notin> snd ` csm_live st \<and> csm_region_id_remove x st = (False, st)) \<or>
    (\<exists>i<64. ce_in_use (g_csm_region_ids st ! i) \<and> ce_region_id (g_csm_region_ids st ! i) = x \<and>
       x \<in> snd ` csm_live st \<and>
       csm_region_id_remove x st = (True, st\<lparr>g_csm_region_ids := (g_csm_region_ids st)
         [i := \<lparr>ce_owner_rd_pa = 0, ce_region_id = 0, ce_in_use = False\<rparr>]\<rparr>))"
proof (cases "csm_region_id_find st x")
  case None
  then have "\<not> csm_region_id_collides st x" by (simp add: csm_region_id_collides_def)
  then show ?thesis using None csm_collides_live [OF assms] by (simp add: csm_region_id_remove_def)
next
  case (Some i)
  then have "csm_region_id_collides st x" by (simp add: csm_region_id_collides_def)
  then have "x \<in> snd ` csm_live st" using csm_collides_live [OF assms] by simp
  moreover have "i < 64 \<and> ce_in_use (g_csm_region_ids st ! i) \<and> ce_region_id (g_csm_region_ids st ! i) = x"
    using Some find_upt_Some unfolding csm_region_id_find_def by blast
  ultimately show ?thesis using Some by (auto simp: csm_region_id_remove_def)
qed

interpretation csm_ids:
  id_registry wf_csm_ids csm_live csm_region_id_assign csm_region_id_remove csm_ids_full "\<lambda>x p. snd p = x"
proof
  fix st k i x
  assume wf: "wf_csm_ids st"
  show "inj_on snd (csm_live st) \<and> 0 \<notin> snd ` csm_live st" by (rule csm_live_ids [OF wf])
  consider (full) "csm_ids_full k st" "csm_region_id_assign k st = (None, st)"
    | (ok) t st' j where "\<not> csm_ids_full k st" "j < 64" "\<not> ce_in_use (g_csm_region_ids st' ! j)"
        "g_csm_region_ids st' = g_csm_region_ids st" "t \<noteq> 0" "\<not> csm_region_id_collides st t"
        "csm_region_id_assign k st =
          (Some t, st'\<lparr>g_csm_region_ids := (g_csm_region_ids st')
             [j := \<lparr>ce_owner_rd_pa = k, ce_region_id = t, ce_in_use = True\<rparr>]\<rparr>)"
    using csm_assign_cases [OF wf, of k] by blast
  note C = this
  have fr: "wf_csm_ids st'" "csm_live st' = csm_live st"
    "csm_region_id_collides st' t = csm_region_id_collides st t"
    if "g_csm_region_ids st' = g_csm_region_ids st" for st' t
    using wf by (simp_all add: wf_csm_ids_def csm_live_def csm_collides_iff that)
  show "wf_csm_ids (snd (csm_region_id_assign k st))"
  proof (cases rule: C)
    case ok
    show ?thesis
      using wf_csm_ids_update [OF fr(1) [OF ok(4)] ok(2), of "\<lparr>ce_owner_rd_pa = k, ce_region_id = t, ce_in_use = True\<rparr>"]
        fr(3) [OF ok(4), of t] ok by simp
  qed (simp add: wf)
  show "fst (csm_region_id_assign k st) = None \<longleftrightarrow> csm_ids_full k st" by (cases rule: C) simp_all
  show "csm_live (snd (csm_region_id_assign k st)) =
    (case fst (csm_region_id_assign k st) of None \<Rightarrow> csm_live st | Some i \<Rightarrow> insert (k, i) (csm_live st))"
  proof (cases rule: C)
    case ok
    show ?thesis
      using csm_live_update [OF fr(1) [OF ok(4)] ok(2), of "\<lparr>ce_owner_rd_pa = k, ce_region_id = t, ce_in_use = True\<rparr>"]
        fr(2) [OF ok(4)] ok by simp
  qed simp
  show "fst (csm_region_id_assign k st) = Some i \<Longrightarrow> i \<noteq> 0 \<and> i \<notin> snd ` csm_live st"
    using csm_collides_live [OF wf] by (cases rule: C) auto
  show "wf_csm_ids (snd (csm_region_id_remove x st))"
    using csm_remove_cases [OF wf, of x] wf
      wf_csm_ids_update [OF wf, of _ "\<lparr>ce_owner_rd_pa = 0, ce_region_id = 0, ce_in_use = False\<rparr>"] by auto
  show "csm_live (snd (csm_region_id_remove x st)) = {p \<in> csm_live st. \<not> snd p = x}"
    using csm_remove_cases [OF wf, of x]
      csm_live_update [OF wf, of _ "\<lparr>ce_owner_rd_pa = 0, ce_region_id = 0, ce_in_use = False\<rparr>"] by force
  show "fst (csm_region_id_remove x st) \<longleftrightarrow> (\<exists>p\<in>csm_live st. snd p = x)"
    using csm_remove_cases [OF wf, of x] by force
qed

section \<open>Properties\<close>

definition tag_step :: "(u64, u64) registry_op \<Rightarrow> tag_state \<Rightarrow> tag_state" where
  "tag_step opn st =
    (case opn of Assign rd \<Rightarrow> snd (realm_tag_assign rd st) | Remove rd \<Rightarrow> snd (realm_tag_remove rd st))"

lemma tag_step_eq: "tag_step = realm_tags.step"
  by (intro ext) (simp add: tag_step_def realm_tags.step_def)

lemma wf_tags_init: "wf_tags (realm_tag_init st)"
  by (simp add: wf_tags_def realm_tag_init_def zero_tag_entry_def)

lemma tag_live_init: "tag_live (realm_tag_init st) = {}"
  by (simp add: tag_live_def realm_tag_init_def zero_tag_entry_def)

lemma tag_collides_live: "wf_tags st \<Longrightarrow> tag_collides st t \<longleftrightarrow> t \<in> snd ` tag_live st"
proof -
  assume "wf_tags st"
  then have "length (g_tags st) = 10" by (simp add: wf_tags_def)
  note nth = tag_live_nth [OF this]
  have "t \<in> snd ` tag_live st \<longleftrightarrow> (\<exists>rd. (rd, t) \<in> tag_live st)" by force
  then show ?thesis unfolding tag_collides_iff nth by blast
qed

lemma wf_tags_unique:
  "wf_tags st \<Longrightarrow> i < 10 \<Longrightarrow> j < 10 \<Longrightarrow> te_in_use (g_tags st ! i) \<Longrightarrow> te_in_use (g_tags st ! j) \<Longrightarrow>
   te_rd_pa (g_tags st ! i) = te_rd_pa (g_tags st ! j) \<or> te_tag (g_tags st ! i) = te_tag (g_tags st ! j) \<Longrightarrow>
   i = j"
  by (elim disjE) (simp_all add: wf_tags_def)

lemma get_by_rd_live: "wf_tags st \<Longrightarrow> realm_tag_get_by_rd rd st = Some t \<longleftrightarrow> (rd, t) \<in> tag_live st"
proof -
  assume wf: "wf_tags st"
  then have l: "length (g_tags st) = 10" by (simp add: wf_tags_def)
  show ?thesis
  proof (cases "find_slot_by_rd st rd")
    case None
    then have "rd \<notin> fst ` tag_live st" using find_slot_by_rd_None [OF l] by simp
    then show ?thesis using None by (force simp: realm_tag_get_by_rd_def)
  next
    case (Some i)
    then have "i < 10 \<and> te_in_use (g_tags st ! i) \<and> te_rd_pa (g_tags st ! i) = rd"
      unfolding find_slot_by_rd_def by (rule find_upt_Some)
    then have i: "i < 10" "te_in_use (g_tags st ! i)" "te_rd_pa (g_tags st ! i) = rd" by simp_all
    have u: "j = i" if "j < 10" "te_in_use (g_tags st ! j)" "te_rd_pa (g_tags st ! j) = rd" for j
      by (rule wf_tags_unique [OF wf]) (simp_all add: i that)
    have "(rd, t) \<in> tag_live st \<longleftrightarrow> te_tag (g_tags st ! i) = t"
      unfolding tag_live_nth [OF l] by (metis i u)
    then show ?thesis using Some by (simp add: realm_tag_get_by_rd_def)
  qed
qed

lemma rd_by_tag_live: "wf_tags st \<Longrightarrow> realm_tag_rd_by_tag t st = Some rd \<longleftrightarrow> (rd, t) \<in> tag_live st"
proof -
  assume wf: "wf_tags st"
  then have l: "length (g_tags st) = 10" by (simp add: wf_tags_def)
  have z: "t \<noteq> 0" if "(rd, t) \<in> tag_live st" using realm_tags.live_ids [OF wf] that by force
  show ?thesis
  proof (cases "find_slot_by_tag st t")
    case None
    then have "\<not> tag_collides st t" by (simp add: tag_collides_def)
    then show ?thesis using None by (auto simp: realm_tag_rd_by_tag_def tag_live_nth l tag_collides_iff)
  next
    case (Some i)
    then have "i < 10 \<and> te_in_use (g_tags st ! i) \<and> te_tag (g_tags st ! i) = t"
      unfolding find_slot_by_tag_def by (rule find_upt_Some)
    then have i: "i < 10" "te_in_use (g_tags st ! i)" "te_tag (g_tags st ! i) = t" by simp_all
    have u: "j = i" if "j < 10" "te_in_use (g_tags st ! j)" "te_tag (g_tags st ! j) = t" for j
      by (rule wf_tags_unique [OF wf]) (simp_all add: i that)
    have "(rd, t) \<in> tag_live st \<longleftrightarrow> te_rd_pa (g_tags st ! i) = rd"
      unfolding tag_live_nth [OF l] by (metis i u)
    then show ?thesis using Some z i wf by (auto simp: realm_tag_rd_by_tag_def wf_tags_def)
  qed
qed



definition one_realm :: tag_state where
  "one_realm = fold tag_step [Assign 0x1000]
     (realm_tag_init \<lparr>g_tags = [], g_tag_next_index = 0, g_tag_counter = 0\<rparr>)"

lemmas registry_eval = realm_tag_assign_def realm_tag_init_def find_slot_by_rd_def find_free_slot_def
  find_slot_by_tag_def tag_collides_def tag_loop.simps realm_tag_generate_next_def zero_tag_entry_def
  k_default_tags_def tag_step_def

lemma upt_ten: "[0..<10] = [0, 1, 2, 3, 4, 5, 6, 7, 8, 9]"
  by (simp add: upt_rec)

lemma replicate_numeral: "replicate (numeral k) x = x # replicate (pred_numeral k) x"
  by (simp add: numeral_eq_Suc)

lemma one_realm_eq:
  "one_realm = \<lparr>g_tags = \<lparr>te_rd_pa = 0x1000, te_tag = 0x11, te_in_use = True\<rparr> #
     replicate 9 zero_tag_entry, g_tag_next_index = 1, g_tag_counter = 1\<rparr>"
  by (simp add: one_realm_def registry_eval replicate_numeral upt_ten)


lemma csm_region_id_assign_complete_parts:
  assumes "wf_csm_ids st"
  shows "fst (csm_region_id_assign rd st) = None \<longleftrightarrow>
      (\<forall>i<CONFIG_MAX_CSM_REGION_IDS. ce_in_use (g_csm_region_ids st ! i))"
    and "wf_csm_ids (snd (csm_region_id_assign rd st))"
    and "fst (csm_region_id_assign rd st) = Some i \<Longrightarrow>
      i \<noteq> 0 \<and> i \<notin> snd ` csm_live st \<and>
      csm_live (snd (csm_region_id_assign rd st)) = insert (rd, i) (csm_live st) \<and>
      fst (csm_region_id_remove i (snd (csm_region_id_assign rd st))) \<and>
      csm_live (snd (csm_region_id_remove i (snd (csm_region_id_assign rd st)))) = csm_live st"
proof -
  have l: "length (g_csm_region_ids st) = 64" using assms by (simp add: wf_csm_ids_def)
  show "fst (csm_region_id_assign rd st) = None \<longleftrightarrow> (\<forall>i<64. ce_in_use (g_csm_region_ids st ! i))"
    using csm_ids.assign_full [OF assms, of rd] l by (simp add: csm_ids_full_def all_set_conv_all_nth)
  show wf': "wf_csm_ids (snd (csm_region_id_assign rd st))" by (rule csm_ids.assign_wf [OF assms])
  assume i: "fst (csm_region_id_assign rd st) = Some i"
  have f: "i \<noteq> 0" "i \<notin> snd ` csm_live st" using csm_ids.assign_fresh [OF assms i] by auto
  have live: "csm_live (snd (csm_region_id_assign rd st)) = insert (rd, i) (csm_live st)"
    using csm_ids.assign_live [OF assms, of rd] i by simp
  have "csm_live (snd (csm_region_id_remove i (snd (csm_region_id_assign rd st)))) = csm_live st"
    unfolding csm_ids.remove_live [OF wf'] live using f by force
  moreover have "fst (csm_region_id_remove i (snd (csm_region_id_assign rd st)))"
    unfolding csm_ids.remove_result [OF wf'] live by simp
  ultimately show "i \<noteq> 0 \<and> i \<notin> snd ` csm_live st \<and>
      csm_live (snd (csm_region_id_assign rd st)) = insert (rd, i) (csm_live st) \<and>
      fst (csm_region_id_remove i (snd (csm_region_id_assign rd st))) \<and>
      csm_live (snd (csm_region_id_remove i (snd (csm_region_id_assign rd st)))) = csm_live st"
    using f live by blast
qed

text \<open>
  C32. Region identifiers: \<^verbatim>\<open>csm_region_id_assign\<close> fails only when all 64 slots are in use; its
  64 tries always reach a free identifier. The identifier it returns is not zero and not in
  use, and removing it again gives back the identifiers that were in use before.
\<close>

theorem csm_region_id_assign_complete:
  assumes "wf_csm_ids st"
  shows "(fst (csm_region_id_assign rd st) = None \<longleftrightarrow>
      (\<forall>i<CONFIG_MAX_CSM_REGION_IDS. ce_in_use (g_csm_region_ids st ! i))) \<and>
    (wf_csm_ids (snd (csm_region_id_assign rd st))) \<and>
    (fst (csm_region_id_assign rd st) = Some i \<longrightarrow>
      i \<noteq> 0 \<and> i \<notin> snd ` csm_live st \<and>
      csm_live (snd (csm_region_id_assign rd st)) = insert (rd, i) (csm_live st) \<and>
      fst (csm_region_id_remove i (snd (csm_region_id_assign rd st))) \<and>
      csm_live (snd (csm_region_id_remove i (snd (csm_region_id_assign rd st)))) = csm_live st)"
  using csm_region_id_assign_complete_parts [OF assms] by (intro conjI impI) simp_all


text \<open>The registry at boot: the table is zero and the counter is 1.\<close>

definition csm_ids_boot :: csm_id_state where
  "csm_ids_boot = \<lparr>g_csm_region_ids =
     replicate CONFIG_MAX_CSM_REGION_IDS \<lparr>ce_owner_rd_pa = 0, ce_region_id = 0, ce_in_use = False\<rparr>,
     g_csm_region_id_counter = 1\<rparr>"

lemma wf_csm_ids_boot: "wf_csm_ids csm_ids_boot"
  by (simp add: wf_csm_ids_def csm_ids_boot_def)

theorem csm_region_id_assign_complete_witness:
  "\<exists>i. fst (csm_region_id_assign 0x1000 csm_ids_boot) = Some i \<and> i \<noteq> 0 \<and>
     csm_live (snd (csm_region_id_remove i (snd (csm_region_id_assign 0x1000 csm_ids_boot)))) = {}"
proof -
  have "\<not> (\<forall>i<64. ce_in_use (g_csm_region_ids csm_ids_boot ! i))"
    by (auto simp: csm_ids_boot_def intro!: exI [of _ 0])
  then obtain i where i: "fst (csm_region_id_assign 0x1000 csm_ids_boot) = Some i"
    using csm_region_id_assign_complete [OF wf_csm_ids_boot, THEN conjunct1] by blast
  moreover have "csm_live csm_ids_boot = {}" by (simp add: csm_live_def csm_ids_boot_def)
  ultimately show ?thesis using csm_region_id_assign_complete [OF wf_csm_ids_boot, of "0x1000" i] i by simp
qed

end
