(* ===== verification/Apt.thy ===== *)
theory Apt
  imports Prelude
begin

text \<open>
  The access permission table of a realm (\<^verbatim>\<open>runtime/include/apt.h\<close>,
  \<^verbatim>\<open>runtime/core/apt_helpers.c\<close>): the regions of confidential shared memory that a realm owns
  (as master) or uses (as slave), two used masks, and for each kind the set of enabled regions,
  kept as a packed array with swap-and-pop removal, its inverse array, and a mask.

  \<open>SIZE_MAX\<close> and the index -1 of the C functions are \<open>None\<close>. The invariant \<open>wf_apt\<close> says that
  the arrays have their declared sizes and that the packed sets agree with the masks; every
  operation keeps it. The locale \<open>packed_set\<close> is the contract of the packed sets.
\<close>

abbreviation (input) MAX_MEM_REGIONS :: nat where "MAX_MEM_REGIONS \<equiv> 20"
abbreviation (input) CSM_MAX_MASTER_SHARES :: nat where "CSM_MAX_MASTER_SHARES \<equiv> 3"

section \<open>Records\<close>

record master_share =
  ms_slave_ID :: u8
  ms_slave_rd_pa :: u64
  ms_permission :: u8
  ms_in_use :: bool

record master_mem =
  mm_region_ID :: u8
  mm_ipa_start :: u64
  mm_map_size :: u64
  share_count :: u8
  shares :: "master_share list"

record slave_mem =
  sm_master_ID :: u8
  sm_region_ID :: u8
  sm_master_rd_pa :: u64
  sm_ipa_start :: u64
  sm_map_size :: u64

record enabled_regions =
  er_len :: u8
  er_index :: "nat list"
  er_pos_by_index :: "nat list"

record apt =
  master_memory :: "master_mem list"
  slave_memory :: "slave_mem list"
  enabled_mr :: enabled_regions
  enabled_sr :: enabled_regions
  master_used_mask :: u64
  slave_used_mask :: u64
  master_enabled_mask :: u64
  slave_enabled_mask :: u64

datatype apt_region_kind = APT_REGION_MASTER | APT_REGION_SLAVE

section \<open>Sharing identifiers\<close>

definition apt_make_sharing_id :: "u8 \<Rightarrow> u8 \<Rightarrow> u8 \<Rightarrow> u32" where
  "apt_make_sharing_id region_ID master_ID slave_ID =
    push_bit 16 (ucast region_ID) OR push_bit 8 (ucast master_ID) OR ucast slave_ID"

definition apt_sharing_region_id :: "u32 \<Rightarrow> u8" where
  "apt_sharing_region_id sharing_ID = ucast (drop_bit 16 sharing_ID AND 0xFF)"

definition apt_sharing_master_id :: "u32 \<Rightarrow> u8" where
  "apt_sharing_master_id sharing_ID = ucast (drop_bit 8 sharing_ID AND 0xFF)"

definition apt_sharing_slave_id :: "u32 \<Rightarrow> u8" where
  "apt_sharing_slave_id sharing_ID = ucast (sharing_ID AND 0xFF)"

section \<open>Lookups\<close>

definition apt_idx_in_range :: "nat \<Rightarrow> bool" where
  "apt_idx_in_range idx \<longleftrightarrow> idx < MAX_MEM_REGIONS"

definition apt_master_used :: "apt \<Rightarrow> nat \<Rightarrow> bool" where
  "apt_master_used a idx \<longleftrightarrow> apt_idx_in_range idx \<and> master_used_mask a AND BIT64 idx \<noteq> 0"

definition apt_slave_used :: "apt \<Rightarrow> nat \<Rightarrow> bool" where
  "apt_slave_used a idx \<longleftrightarrow> apt_idx_in_range idx \<and> slave_used_mask a AND BIT64 idx \<noteq> 0"

definition apt_master_enabled :: "apt \<Rightarrow> nat \<Rightarrow> bool" where
  "apt_master_enabled a idx \<longleftrightarrow> apt_idx_in_range idx \<and> master_enabled_mask a AND BIT64 idx \<noteq> 0"

definition apt_slave_enabled :: "apt \<Rightarrow> nat \<Rightarrow> bool" where
  "apt_slave_enabled a idx \<longleftrightarrow> apt_idx_in_range idx \<and> slave_enabled_mask a AND BIT64 idx \<noteq> 0"

definition apt_find_master_by_region_id :: "apt \<Rightarrow> u8 \<Rightarrow> nat option" where
  "apt_find_master_by_region_id a region_ID =
    find (\<lambda>i. master_used_mask a AND BIT64 i \<noteq> 0 \<and> mm_region_ID (master_memory a ! i) = region_ID)
      [0..<MAX_MEM_REGIONS]"

definition apt_find_master_share_slot :: "master_mem \<Rightarrow> u8 \<Rightarrow> nat option" where
  "apt_find_master_share_slot m slave_ID =
    find (\<lambda>i. ms_in_use (shares m ! i) \<and> ms_slave_ID (shares m ! i) = slave_ID) [0..<CSM_MAX_MASTER_SHARES]"

definition apt_master_add_share ::
  "apt \<Rightarrow> nat \<Rightarrow> u8 \<Rightarrow> u64 \<Rightarrow> u8 \<Rightarrow> bool \<times> apt" where
  "apt_master_add_share a idx slave_ID slave_rd_pa permission =
    (if \<not> apt_idx_in_range idx then (False, a)
     else if master_used_mask a AND BIT64 idx = 0 then (False, a)
     else (let m = master_memory a ! idx
           in if apt_find_master_share_slot m slave_ID \<noteq> None then (False, a)
              else (case find (\<lambda>i. \<not> ms_in_use (shares m ! i)) [0..<CSM_MAX_MASTER_SHARES] of
                      None \<Rightarrow> (False, a)
                    | Some i \<Rightarrow>
                        (True, a\<lparr>master_memory := (master_memory a)[idx :=
                           m\<lparr>shares := (shares m)[i := \<lparr>ms_slave_ID = slave_ID, ms_slave_rd_pa = slave_rd_pa,
                                ms_permission = permission, ms_in_use = True\<rparr>],
                             share_count := share_count m + 1\<rparr>]\<rparr>))))"

definition first_free_from_mask :: "u64 \<Rightarrow> nat option" where
  "first_free_from_mask used_mask = find (\<lambda>i. used_mask AND BIT64 i = 0) [0..<MAX_MEM_REGIONS]"

definition apt_find_free_master :: "apt \<Rightarrow> nat option" where
  "apt_find_free_master a = find (\<lambda>i. master_used_mask a AND BIT64 i = 0) [0..<MAX_MEM_REGIONS]"

definition apt_find_free_slave :: "apt \<Rightarrow> nat option" where
  "apt_find_free_slave a = find (\<lambda>i. slave_used_mask a AND BIT64 i = 0) [0..<MAX_MEM_REGIONS]"

section \<open>The packed sets of enabled regions\<close>

text \<open>The part of the push and of the swap-and-pop that is the same for masters and slaves.\<close>

definition enable_push :: "enabled_regions \<Rightarrow> nat \<Rightarrow> enabled_regions" where
  "enable_push e idx =
    (let pos = unat (er_len e)
     in e\<lparr>er_index := (er_index e)[pos := idx], er_pos_by_index := (er_pos_by_index e)[idx := pos],
          er_len := er_len e + 1\<rparr>)"

definition disable_swap_pop :: "enabled_regions \<Rightarrow> nat \<Rightarrow> enabled_regions" where
  "disable_swap_pop e idx =
    (let pos = er_pos_by_index e ! idx;
         last_pos = unat (er_len e) - 1;
         e' = (if pos \<noteq> last_pos
               then (let index' = (er_index e)[pos := er_index e ! last_pos]
                     in e\<lparr>er_index := index', er_pos_by_index := (er_pos_by_index e)[index' ! pos := pos]\<rparr>)
               else e)
     in e'\<lparr>er_len := er_len e' - 1\<rparr>)"

definition enable_push_master :: "apt \<Rightarrow> nat \<Rightarrow> apt" where
  "enable_push_master a idx =
    a\<lparr>enabled_mr := enable_push (enabled_mr a) idx,
      master_enabled_mask := master_enabled_mask a OR BIT64 idx\<rparr>"

definition enable_push_slave :: "apt \<Rightarrow> nat \<Rightarrow> apt" where
  "enable_push_slave a idx =
    a\<lparr>enabled_sr := enable_push (enabled_sr a) idx,
      slave_enabled_mask := slave_enabled_mask a OR BIT64 idx\<rparr>"

definition disable_swap_pop_master :: "apt \<Rightarrow> nat \<Rightarrow> apt" where
  "disable_swap_pop_master a idx =
    a\<lparr>enabled_mr := disable_swap_pop (enabled_mr a) idx,
      master_enabled_mask := master_enabled_mask a AND NOT (BIT64 idx)\<rparr>"

definition disable_swap_pop_slave :: "apt \<Rightarrow> nat \<Rightarrow> apt" where
  "disable_swap_pop_slave a idx =
    a\<lparr>enabled_sr := disable_swap_pop (enabled_sr a) idx,
      slave_enabled_mask := slave_enabled_mask a AND NOT (BIT64 idx)\<rparr>"

section \<open>Public operations\<close>

definition range_overlaps_ul :: "u64 \<Rightarrow> u64 \<Rightarrow> u64 \<Rightarrow> u64 \<Rightarrow> bool" where
  "range_overlaps_ul a_start a_size b_start b_size =
    (if a_size = 0 \<or> b_size = 0 then False
     else (let a_end = a_start + a_size; b_end = b_start + b_size
           in if a_end < a_start \<or> b_end < b_start then True
              else \<not> (a_end \<le> b_start \<or> b_end \<le> a_start)))"

definition zero_share :: master_share where
  "zero_share = \<lparr>ms_slave_ID = 0, ms_slave_rd_pa = 0, ms_permission = 0, ms_in_use = False\<rparr>"

definition zero_apt :: apt where
  "zero_apt =
    \<lparr>master_memory = replicate MAX_MEM_REGIONS
       \<lparr>mm_region_ID = 0, mm_ipa_start = 0, mm_map_size = 0, share_count = 0,
        shares = replicate CSM_MAX_MASTER_SHARES zero_share\<rparr>,
     slave_memory = replicate MAX_MEM_REGIONS
       \<lparr>sm_master_ID = 0, sm_region_ID = 0, sm_master_rd_pa = 0, sm_ipa_start = 0, sm_map_size = 0\<rparr>,
     enabled_mr = \<lparr>er_len = 0, er_index = replicate MAX_MEM_REGIONS 0, er_pos_by_index = replicate MAX_MEM_REGIONS 0\<rparr>,
     enabled_sr = \<lparr>er_len = 0, er_index = replicate MAX_MEM_REGIONS 0, er_pos_by_index = replicate MAX_MEM_REGIONS 0\<rparr>,
     master_used_mask = 0, slave_used_mask = 0, master_enabled_mask = 0, slave_enabled_mask = 0\<rparr>"

definition apt_reset :: "apt \<Rightarrow> apt" where
  "apt_reset a = zero_apt"

definition apt_add_master :: "apt \<Rightarrow> u8 \<Rightarrow> u64 \<Rightarrow> u64 \<Rightarrow> bool \<Rightarrow> nat option \<times> apt" where
  "apt_add_master a region_ID ipa_start map_size enable_now =
    (case first_free_from_mask (master_used_mask a) of
       None \<Rightarrow> (None, a)
     | Some idx \<Rightarrow>
         (let a = a\<lparr>master_memory := (master_memory a)[idx :=
                    \<lparr>mm_region_ID = region_ID, mm_ipa_start = ipa_start, mm_map_size = map_size,
                     share_count = 0, shares = replicate CSM_MAX_MASTER_SHARES zero_share\<rparr>],
                  master_used_mask := master_used_mask a OR BIT64 idx\<rparr>;
              a = (if enable_now \<and> \<not> (master_enabled_mask a AND BIT64 idx \<noteq> 0)
                   then enable_push_master a idx else a)
          in (Some idx, a)))"

definition apt_add_slave :: "apt \<Rightarrow> u8 \<Rightarrow> u8 \<Rightarrow> u64 \<Rightarrow> u64 \<Rightarrow> u64 \<Rightarrow> bool \<Rightarrow> nat option \<times> apt" where
  "apt_add_slave a master_ID region_ID master_rd_pa ipa_start map_size enable_now =
    (case first_free_from_mask (slave_used_mask a) of
       None \<Rightarrow> (None, a)
     | Some idx \<Rightarrow>
         (let a = a\<lparr>slave_memory := (slave_memory a)[idx :=
                    \<lparr>sm_master_ID = master_ID, sm_region_ID = region_ID, sm_master_rd_pa = master_rd_pa,
                     sm_ipa_start = ipa_start, sm_map_size = map_size\<rparr>],
                  slave_used_mask := slave_used_mask a OR BIT64 idx\<rparr>;
              a = (if enable_now \<and> \<not> (slave_enabled_mask a AND BIT64 idx \<noteq> 0)
                   then enable_push_slave a idx else a)
          in (Some idx, a)))"

definition apt_enable_master_idx :: "apt \<Rightarrow> nat \<Rightarrow> bool \<times> apt" where
  "apt_enable_master_idx a idx =
    (if \<not> apt_idx_in_range idx then (False, a)
     else if \<not> (master_used_mask a AND BIT64 idx \<noteq> 0) then (False, a)
     else if master_enabled_mask a AND BIT64 idx \<noteq> 0 then (True, a)
     else (True, enable_push_master a idx))"

definition apt_disable_master_idx :: "apt \<Rightarrow> nat \<Rightarrow> bool \<times> apt" where
  "apt_disable_master_idx a idx =
    (if \<not> apt_idx_in_range idx then (False, a)
     else if \<not> (master_enabled_mask a AND BIT64 idx \<noteq> 0) then (True, a)
     else (True, disable_swap_pop_master a idx))"

definition apt_enable_slave_idx :: "apt \<Rightarrow> nat \<Rightarrow> bool \<times> apt" where
  "apt_enable_slave_idx a idx =
    (if \<not> apt_idx_in_range idx then (False, a)
     else if \<not> (slave_used_mask a AND BIT64 idx \<noteq> 0) then (False, a)
     else if slave_enabled_mask a AND BIT64 idx \<noteq> 0 then (True, a)
     else (True, enable_push_slave a idx))"

definition apt_disable_slave_idx :: "apt \<Rightarrow> nat \<Rightarrow> bool \<times> apt" where
  "apt_disable_slave_idx a idx =
    (if \<not> apt_idx_in_range idx then (False, a)
     else if \<not> (slave_enabled_mask a AND BIT64 idx \<noteq> 0) then (True, a)
     else (True, disable_swap_pop_slave a idx))"

text \<open>The two loops of \<^verbatim>\<open>apt_find_enabled_conflict\<close>, over the packed arrays.\<close>

definition find_master_conflict :: "apt \<Rightarrow> u64 \<Rightarrow> u64 \<Rightarrow> nat option" where
  "find_master_conflict a ipa_start map_size =
    find (\<lambda>idx. range_overlaps_ul ipa_start map_size (mm_ipa_start (master_memory a ! idx))
                 (mm_map_size (master_memory a ! idx)))
      (map (\<lambda>pos. er_index (enabled_mr a) ! pos) [0..<unat (er_len (enabled_mr a))])"

definition find_slave_conflict :: "apt \<Rightarrow> u64 \<Rightarrow> u64 \<Rightarrow> nat option" where
  "find_slave_conflict a ipa_start map_size =
    find (\<lambda>idx. range_overlaps_ul ipa_start map_size (sm_ipa_start (slave_memory a ! idx))
                 (sm_map_size (slave_memory a ! idx)))
      (map (\<lambda>pos. er_index (enabled_sr a) ! pos) [0..<unat (er_len (enabled_sr a))])"

definition apt_find_enabled_conflict ::
  "apt \<Rightarrow> u64 \<Rightarrow> u64 \<Rightarrow> bool \<Rightarrow> (apt_region_kind \<times> nat) option" where
  "apt_find_enabled_conflict a ipa_start map_size skip_master_check =
    (case (if \<not> skip_master_check then find_master_conflict a ipa_start map_size else None) of
       Some idx \<Rightarrow> Some (APT_REGION_MASTER, idx)
     | None \<Rightarrow>
         (case find_slave_conflict a ipa_start map_size of
            Some idx \<Rightarrow> Some (APT_REGION_SLAVE, idx)
          | None \<Rightarrow> None))"

section \<open>The contract of a packed set\<close>

locale packed_set =
  fixes wf :: "'e \<Rightarrow> nat set \<Rightarrow> bool" and elems :: "'e \<Rightarrow> nat list"
    and push pop :: "'e \<Rightarrow> nat \<Rightarrow> 'e"
  assumes elems_set: "wf e S \<Longrightarrow> set (elems e) = S"
    and elems_distinct: "wf e S \<Longrightarrow> distinct (elems e)"
    and elems_range: "wf e S \<Longrightarrow> i \<in> S \<Longrightarrow> i < MAX_MEM_REGIONS"
    and push_wf: "wf e S \<Longrightarrow> i < MAX_MEM_REGIONS \<Longrightarrow> i \<notin> S \<Longrightarrow> wf (push e i) (insert i S)"
    and pop_wf: "wf e S \<Longrightarrow> i \<in> S \<Longrightarrow> wf (pop e i) (S - {i})"
begin

lemma elems_length: "wf e S \<Longrightarrow> length (elems e) = card S"
  using elems_set elems_distinct distinct_card by fastforce

lemma push_pop: "wf e S \<Longrightarrow> i < MAX_MEM_REGIONS \<Longrightarrow> i \<notin> S \<Longrightarrow> wf (pop (push e i) i) S"
  using pop_wf [OF push_wf, of e S i i] by simp

lemma find_elems_None:
  assumes "wf e S"
  shows "find P (elems e) = None \<longleftrightarrow> (\<forall>i\<in>S. \<not> P i)"
  using elems_set [OF assms] by (auto simp: find_None_iff)

lemma find_elems_Some:
  assumes "wf e S" "find P (elems e) = Some i"
  shows "i \<in> S \<and> P i"
proof -
  have "i \<in> set (elems e) \<and> P i" using assms(2) by (auto simp: find_Some_iff)
  then show ?thesis using elems_set [OF assms(1)] by simp
qed

end

section \<open>The packed arrays satisfy it\<close>

definition enabled_elems :: "enabled_regions \<Rightarrow> nat list" where
  "enabled_elems e = map (\<lambda>pos. er_index e ! pos) [0..<unat (er_len e)]"

definition wf_enabled :: "enabled_regions \<Rightarrow> nat set \<Rightarrow> bool" where
  "wf_enabled e S \<longleftrightarrow> length (er_index e) = MAX_MEM_REGIONS \<and> length (er_pos_by_index e) = MAX_MEM_REGIONS \<and>
     unat (er_len e) \<le> MAX_MEM_REGIONS \<and> S = (\<lambda>p. er_index e ! p) ` {..<unat (er_len e)} \<and>
     (\<forall>p<unat (er_len e). er_index e ! p < MAX_MEM_REGIONS \<and> er_pos_by_index e ! (er_index e ! p) = p)"

lemma wf_enabledD:
  assumes "wf_enabled e S"
  shows "length (er_index e) = 20" "length (er_pos_by_index e) = 20" "unat (er_len e) \<le> 20"
    "S = (\<lambda>p. er_index e ! p) ` {..<unat (er_len e)}"
    "\<And>p. p < unat (er_len e) \<Longrightarrow> er_index e ! p < 20"
    "\<And>p. p < unat (er_len e) \<Longrightarrow> er_pos_by_index e ! (er_index e ! p) = p"
  using assms by (simp_all add: wf_enabled_def)

lemma wf_enabled_inj: "wf_enabled e S \<Longrightarrow> inj_on (\<lambda>p. er_index e ! p) {..<unat (er_len e)}"
  by (rule inj_onI) (metis lessThan_iff wf_enabledD(6))

lemma wf_enabled_range: "wf_enabled e S \<Longrightarrow> i \<in> S \<Longrightarrow> i < 20"
  using wf_enabledD(4,5) by blast

lemma wf_enabled_room:
  assumes "wf_enabled e S" "i < 20" "i \<notin> S"
  shows "unat (er_len e) < 20"
proof -
  have "card S = unat (er_len e)"
    using card_image [OF wf_enabled_inj [OF assms(1)]] wf_enabledD(4) [OF assms(1)] by simp
  moreover have "S \<subset> {..<20}" using wf_enabled_range [OF assms(1)] assms(2,3) by auto
  then have "card S < card {..<20::nat}" by (intro psubset_card_mono) auto
  ultimately show ?thesis by simp
qed

lemma enable_push_wf:
  assumes wf: "wf_enabled e S" and i: "i < 20" "i \<notin> S"
  shows "wf_enabled (enable_push e i) (insert i S)"
proof -
  note D = wf_enabledD [OF wf] and room = wf_enabled_room [OF wf i]
  let ?n = "unat (er_len e)"
  have u: "unat (er_len e + 1) = Suc ?n" using room by (simp add: unat_word_ariths)
  have ix: "(er_index e)[?n := i] ! p = (if p = ?n then i else er_index e ! p)" if "p < Suc ?n" for p
    using that room D(1) by (simp add: nth_list_update)
  have ne: "er_index e ! p \<noteq> i" if "p < ?n" for p using that i(2) D(4) by auto
  have "(\<lambda>p. (er_index e)[?n := i] ! p) ` {..<Suc ?n} = insert i S"
    using ix D(4) by (auto simp: image_iff lessThan_Suc)
  moreover have "(er_index e)[?n := i] ! p < 20 \<and>
      (er_pos_by_index e)[i := ?n] ! ((er_index e)[?n := i] ! p) = p" if "p < Suc ?n" for p
    using that ix [OF that] D(2,5,6) i(1) ne [of p] by (auto simp: nth_list_update less_Suc_eq)
  ultimately show ?thesis
    using D(1,2) room by (simp add: wf_enabled_def enable_push_def Let_def u)
qed

lemma disable_swap_pop_wf:
  assumes wf: "wf_enabled e S" and i: "i \<in> S"
  shows "wf_enabled (disable_swap_pop e i) (S - {i})"
proof -
  note D = wf_enabledD [OF wf]
  let ?n = "unat (er_len e)" and ?p = "er_pos_by_index e ! i"
  obtain q where q: "q < ?n" "er_index e ! q = i" using i D(4) by auto
  then have p: "?p = q" using D(6) by blast
  have "er_len e \<noteq> 0" using q(1) by auto
  then have n: "unat (er_len e - 1) = ?n - 1" by (simp add: unat_minus_one)
  define ix where "ix = (er_index e)[q := er_index e ! (?n - 1)]"
  have ix: "ix ! r = (if r = q then er_index e ! (?n - 1) else er_index e ! r)" if "r < ?n" for r
    using that D(1,3) q(1) by (simp add: ix_def nth_list_update)
  have inj: "er_index e ! r = er_index e ! t \<Longrightarrow> r = t" if "r < ?n" "t < ?n" for r t
    using wf_enabled_inj [OF wf] that by (auto dest: inj_onD)
  have S: "(\<lambda>r. ix ! r) ` {..<?n - 1} = S - {i}"
  proof (intro equalityI subsetI)
    fix x assume "x \<in> (\<lambda>r. ix ! r) ` {..<?n - 1}"
    then obtain r where r: "r < ?n - 1" "x = ix ! r" by auto
    then have "r < ?n" "x = (if r = q then er_index e ! (?n - 1) else er_index e ! r)"
      using ix [of r] by simp_all
    then show "x \<in> S - {i}" using r q inj [of "?n - 1" q] inj [of r q] D(4) by auto
  next
    fix x assume x: "x \<in> S - {i}"
    then obtain r where r: "r < ?n" "x = er_index e ! r" using D(4) by auto
    then have rq: "r \<noteq> q" using x q by auto
    show "x \<in> (\<lambda>r. ix ! r) ` {..<?n - 1}"
    proof (cases "r = ?n - 1")
      case True
      then have "x = ix ! q" "q < ?n - 1" using r rq ix [OF q(1)] q(1) by auto
      then show ?thesis by auto
    next
      case False
      then have "x = ix ! r" "r < ?n - 1" using r rq ix [OF r(1)] by auto
      then show ?thesis by auto
    qed
  qed
  show ?thesis
  proof (cases "q = ?n - 1")
    case True
    then have "ix = er_index e" by (simp add: ix_def)
    then show ?thesis
      using S D q True by (auto simp: wf_enabled_def disable_swap_pop_def Let_def p n)
  next
    case False
    have "disable_swap_pop e i = e\<lparr>er_index := ix, er_pos_by_index :=
      (er_pos_by_index e)[er_index e ! (?n - 1) := q], er_len := er_len e - 1\<rparr>"
      using False ix [OF q(1)] by (simp add: disable_swap_pop_def Let_def p ix_def)
    moreover have "ix ! r < 20 \<and> (er_pos_by_index e)[er_index e ! (?n - 1) := q] ! (ix ! r) = r"
      if r: "r < ?n - 1" for r
    proof -
      have l: "er_index e ! (?n - 1) < 20" using D(5) q(1) by simp
      have "er_index e ! r \<noteq> er_index e ! (?n - 1)" using inj [of r "?n - 1"] r by auto
      then show ?thesis using r ix [of r] D(2) D(5,6) [of r] l by (auto simp: nth_list_update)
    qed
    ultimately show ?thesis using S D(1,2,3) by (auto simp: wf_enabled_def n ix_def)
  qed
qed

interpretation packed: packed_set wf_enabled enabled_elems enable_push disable_swap_pop
proof
  fix e S i
  assume wf: "wf_enabled e S"
  note D = wf_enabledD [OF wf]
  show "set (enabled_elems e) = S" unfolding D(4) by (auto simp: enabled_elems_def)
  show "distinct (enabled_elems e)"
    using wf_enabled_inj [OF wf] by (simp add: enabled_elems_def distinct_map lessThan_atLeast0)
  show "i \<in> S \<Longrightarrow> i < 20" by (rule wf_enabled_range [OF wf])
  show "i < 20 \<Longrightarrow> i \<notin> S \<Longrightarrow> wf_enabled (enable_push e i) (insert i S)" by (rule enable_push_wf [OF wf])
  show "i \<in> S \<Longrightarrow> wf_enabled (disable_swap_pop e i) (S - {i})" by (rule disable_swap_pop_wf [OF wf])
qed

section \<open>The invariant of the table\<close>

definition mask_set :: "u64 \<Rightarrow> nat set" where
  "mask_set m = {i. bit m i}"

definition wf_master :: "master_mem \<Rightarrow> bool" where
  "wf_master m \<longleftrightarrow> length (shares m) = CSM_MAX_MASTER_SHARES \<and>
     unat (share_count m) = card {i. i < CSM_MAX_MASTER_SHARES \<and> ms_in_use (shares m ! i)} \<and>
     (\<forall>i<CSM_MAX_MASTER_SHARES. \<forall>j<CSM_MAX_MASTER_SHARES. ms_in_use (shares m ! i) \<longrightarrow> ms_in_use (shares m ! j) \<longrightarrow>
        ms_slave_ID (shares m ! i) = ms_slave_ID (shares m ! j) \<longrightarrow> i = j)"

definition wf_apt :: "apt \<Rightarrow> bool" where
  "wf_apt a \<longleftrightarrow> length (master_memory a) = MAX_MEM_REGIONS \<and> length (slave_memory a) = MAX_MEM_REGIONS \<and>
     (\<forall>i<MAX_MEM_REGIONS. wf_master (master_memory a ! i)) \<and>
     wf_enabled (enabled_mr a) (mask_set (master_enabled_mask a)) \<and>
     wf_enabled (enabled_sr a) (mask_set (slave_enabled_mask a)) \<and>
     mask_set (master_used_mask a) \<subseteq> {..<MAX_MEM_REGIONS} \<and>
     mask_set (slave_used_mask a) \<subseteq> {..<MAX_MEM_REGIONS} \<and>
     mask_set (master_enabled_mask a) \<subseteq> mask_set (master_used_mask a) \<and>
     mask_set (slave_enabled_mask a) \<subseteq> mask_set (slave_used_mask a)"

lemma mask_set_set: "i < 64 \<Longrightarrow> mask_set (m OR BIT64 i) = insert i (mask_set m)"
  by (auto simp: mask_set_def bit_or_iff bit_BIT64)

lemma mask_set_clear: "i < 64 \<Longrightarrow> mask_set (m AND NOT (BIT64 i)) = mask_set m - {i}"
  by (auto simp: mask_set_def bit_and_iff bit_not_iff bit_BIT64 dest: bit_imp_le_length)

lemma mask_bit: "i < 20 \<Longrightarrow> m AND BIT64 i = 0 \<longleftrightarrow> i \<notin> mask_set m"
  by (simp add: and_BIT64_eq_0 mask_set_def)

lemma first_free_Some: "first_free_from_mask m = Some i \<Longrightarrow> i < 20 \<and> i \<notin> mask_set m"
  unfolding first_free_from_mask_def by (drule find_upt_Some) (auto simp: mask_bit)

lemma first_free_None: "first_free_from_mask m = None \<longleftrightarrow> {..<20} \<subseteq> mask_set m"
  unfolding first_free_from_mask_def find_upt_None by (auto simp: mask_bit)

lemma wf_zero_apt: "wf_apt zero_apt"
  by (simp add: wf_apt_def zero_apt_def wf_master_def zero_share_def wf_enabled_def mask_set_def)

lemma wf_new_master: "wf_master \<lparr>mm_region_ID = r, mm_ipa_start = s, mm_map_size = z, share_count = 0,
    shares = replicate CSM_MAX_MASTER_SHARES zero_share\<rparr>"
  by (simp add: wf_master_def zero_share_def)

subsection \<open>Enabling and disabling\<close>

lemma enable_push_master_wf:
  assumes "wf_apt a" "i \<in> mask_set (master_used_mask a)" "i \<notin> mask_set (master_enabled_mask a)"
  shows "wf_apt (enable_push_master a i)"
proof -
  have i: "i < 20" using assms by (auto simp: wf_apt_def)
  show ?thesis
    using assms packed.push_wf [of "enabled_mr a" "mask_set (master_enabled_mask a)" i] i
    by (simp add: wf_apt_def enable_push_master_def mask_set_set)
qed

lemma enable_push_slave_wf:
  assumes "wf_apt a" "i \<in> mask_set (slave_used_mask a)" "i \<notin> mask_set (slave_enabled_mask a)"
  shows "wf_apt (enable_push_slave a i)"
proof -
  have i: "i < 20" using assms by (auto simp: wf_apt_def)
  show ?thesis
    using assms packed.push_wf [of "enabled_sr a" "mask_set (slave_enabled_mask a)" i] i
    by (simp add: wf_apt_def enable_push_slave_def mask_set_set)
qed

lemma disable_master_wf:
  assumes "wf_apt a" "i < 20" "i \<in> mask_set (master_enabled_mask a)"
  shows "wf_apt (disable_swap_pop_master a i)"
  using assms packed.pop_wf [of "enabled_mr a" "mask_set (master_enabled_mask a)" i]
  by (auto simp: wf_apt_def disable_swap_pop_master_def mask_set_clear)

lemma disable_slave_wf:
  assumes "wf_apt a" "i < 20" "i \<in> mask_set (slave_enabled_mask a)"
  shows "wf_apt (disable_swap_pop_slave a i)"
  using assms packed.pop_wf [of "enabled_sr a" "mask_set (slave_enabled_mask a)" i]
  by (auto simp: wf_apt_def disable_swap_pop_slave_def mask_set_clear)

lemma apt_enable_master_wf: "wf_apt a \<Longrightarrow> wf_apt (snd (apt_enable_master_idx a i))"
  by (simp add: apt_enable_master_idx_def apt_idx_in_range_def mask_bit enable_push_master_wf)

lemma apt_enable_slave_wf: "wf_apt a \<Longrightarrow> wf_apt (snd (apt_enable_slave_idx a i))"
  by (simp add: apt_enable_slave_idx_def apt_idx_in_range_def mask_bit enable_push_slave_wf)

lemma apt_disable_master_wf: "wf_apt a \<Longrightarrow> wf_apt (snd (apt_disable_master_idx a i))"
  by (simp add: apt_disable_master_idx_def apt_idx_in_range_def mask_bit disable_master_wf)

lemma apt_disable_slave_wf: "wf_apt a \<Longrightarrow> wf_apt (snd (apt_disable_slave_idx a i))"
  by (simp add: apt_disable_slave_idx_def apt_idx_in_range_def mask_bit disable_slave_wf)

subsection \<open>Adding regions and shares\<close>

lemma wf_apt_new_master:
  assumes "wf_apt a" "i < 20" "wf_master m"
  shows "wf_apt (a\<lparr>master_memory := (master_memory a)[i := m],
                   master_used_mask := master_used_mask a OR BIT64 i\<rparr>)"
  using assms by (auto simp: wf_apt_def mask_set_set nth_list_update)

lemma wf_apt_new_slave:
  assumes "wf_apt a" "i < 20"
  shows "wf_apt (a\<lparr>slave_memory := (slave_memory a)[i := m],
                   slave_used_mask := slave_used_mask a OR BIT64 i\<rparr>)"
  using assms by (auto simp: wf_apt_def mask_set_set)

lemma apt_add_master_wf: "wf_apt a \<Longrightarrow> wf_apt (snd (apt_add_master a r s z en))"
proof (cases "first_free_from_mask (master_used_mask a)")
  case None
  assume "wf_apt a"
  then show ?thesis using None by (simp add: apt_add_master_def)
next
  case (Some i)
  assume wf: "wf_apt a"
  have i: "i < 20" using first_free_Some [OF Some] by simp
  let ?a = "a\<lparr>master_memory := (master_memory a)[i := \<lparr>mm_region_ID = r, mm_ipa_start = s, mm_map_size = z,
     share_count = 0, shares = replicate CSM_MAX_MASTER_SHARES zero_share\<rparr>],
     master_used_mask := master_used_mask a OR BIT64 i\<rparr>"
  have wf': "wf_apt ?a" by (rule wf_apt_new_master [OF wf i wf_new_master])
  have "i \<notin> mask_set (master_enabled_mask a) \<Longrightarrow> wf_apt (enable_push_master ?a i)"
    by (rule enable_push_master_wf [OF wf']) (use i in \<open>simp_all add: mask_set_set\<close>)
  then show ?thesis using wf' i Some by (simp add: apt_add_master_def Let_def mask_bit)
qed

lemma apt_add_slave_wf: "wf_apt a \<Longrightarrow> wf_apt (snd (apt_add_slave a m r p s z en))"
proof (cases "first_free_from_mask (slave_used_mask a)")
  case None
  assume "wf_apt a"
  then show ?thesis using None by (simp add: apt_add_slave_def)
next
  case (Some i)
  assume wf: "wf_apt a"
  have i: "i < 20" using first_free_Some [OF Some] by simp
  let ?a = "a\<lparr>slave_memory := (slave_memory a)[i := \<lparr>sm_master_ID = m, sm_region_ID = r, sm_master_rd_pa = p,
     sm_ipa_start = s, sm_map_size = z\<rparr>], slave_used_mask := slave_used_mask a OR BIT64 i\<rparr>"
  have wf': "wf_apt ?a" by (rule wf_apt_new_slave [OF wf i])
  have "i \<notin> mask_set (slave_enabled_mask a) \<Longrightarrow> wf_apt (enable_push_slave ?a i)"
    by (rule enable_push_slave_wf [OF wf']) (use i in \<open>simp_all add: mask_set_set\<close>)
  then show ?thesis using wf' i Some by (simp add: apt_add_slave_def Let_def mask_bit)
qed

lemma wf_master_add_share:
  assumes wf: "wf_master m" and i: "i < 3" "\<not> ms_in_use (shares m ! i)"
    and new: "apt_find_master_share_slot m (ms_slave_ID e) = None" and e: "ms_in_use e"
  shows "wf_master (m\<lparr>shares := (shares m)[i := e], share_count := share_count m + 1\<rparr>)"
proof -
  have l: "length (shares m) = 3" using wf by (simp add: wf_master_def)
  let ?U = "{j. j < 3 \<and> ms_in_use (shares m ! j)}"
  have "{j. j < 3 \<and> ms_in_use ((shares m)[i := e] ! j)} = insert i ?U"
    using i l e by (auto simp: nth_list_update)
  moreover have "i \<notin> ?U" using i by simp
  moreover have "card ?U \<le> card {..<3::nat}" by (rule card_mono) auto
  ultimately have c: "unat (share_count m + 1) = card {j. j < 3 \<and> ms_in_use ((shares m)[i := e] ! j)}"
    using wf by (simp add: wf_master_def unat_word_ariths)
  have n: "ms_slave_ID (shares m ! j) \<noteq> ms_slave_ID e" if "j < 3" "ms_in_use (shares m ! j)" for j
    using new that by (auto simp: apt_find_master_share_slot_def find_upt_None)
  have u: "j = k" if "j < 3" "k < 3" "ms_in_use (shares m ! j)" "ms_in_use (shares m ! k)"
    "ms_slave_ID (shares m ! j) = ms_slave_ID (shares m ! k)" for j k
    using wf that by (simp add: wf_master_def)
  have "j = k" if "j < 3" "k < 3" "ms_in_use ((shares m)[i := e] ! j)" "ms_in_use ((shares m)[i := e] ! k)"
    "ms_slave_ID ((shares m)[i := e] ! j) = ms_slave_ID ((shares m)[i := e] ! k)" for j k
    using that u [of j k] n [of j] n [of k] l i by (cases "j = i"; cases "k = i") auto
  then show ?thesis using l c by (simp add: wf_master_def)
qed

lemma apt_master_add_share_wf: "wf_apt a \<Longrightarrow> wf_apt (snd (apt_master_add_share a idx s p perm))"
proof -
  assume wf: "wf_apt a"
  let ?m = "master_memory a ! idx"
  show ?thesis
  proof (cases "idx < 20 \<and> idx \<in> mask_set (master_used_mask a) \<and> apt_find_master_share_slot ?m s = None")
    case False
    then show ?thesis using wf by (auto simp: apt_master_add_share_def apt_idx_in_range_def mask_bit Let_def)
  next
    case True
    show ?thesis
    proof (cases "find (\<lambda>i. \<not> ms_in_use (shares ?m ! i)) [0..<CSM_MAX_MASTER_SHARES]")
      case None
      then show ?thesis using wf by (simp add: apt_master_add_share_def Let_def)
    next
      case (Some i)
      let ?e = "\<lparr>ms_slave_ID = s, ms_slave_rd_pa = p, ms_permission = perm, ms_in_use = True\<rparr>"
      have "wf_master ?m" using wf True by (simp add: wf_apt_def)
      then have "wf_master (?m\<lparr>shares := (shares ?m)[i := ?e], share_count := share_count ?m + 1\<rparr>)"
        using find_upt_Some [OF Some] True by (intro wf_master_add_share) simp_all
      then show ?thesis
        using wf True Some
        by (simp add: apt_master_add_share_def apt_idx_in_range_def mask_bit Let_def wf_apt_def nth_list_update)
    qed
  qed
qed

section \<open>Properties\<close>

lemma bit_255: "bit (0xFF :: u32) n \<longleftrightarrow> n < 8"
  using bit_mask_iff [of 8 n, where 'a = u32] by (auto simp: mask_eq_exp_minus_1)

lemma bit_sharing_ids:
  "bit (apt_sharing_region_id x) n \<longleftrightarrow> n < 8 \<and> bit x (16 + n)"
  "bit (apt_sharing_master_id x) n \<longleftrightarrow> n < 8 \<and> bit x (8 + n)"
  "bit (apt_sharing_slave_id x) n \<longleftrightarrow> n < 8 \<and> bit x n"
  unfolding apt_sharing_region_id_def apt_sharing_master_id_def apt_sharing_slave_id_def
    bit_ucast_iff bit_and_iff bit_drop_bit_eq bit_255 by auto

lemma bit_make_sharing_id:
  "bit (apt_make_sharing_id r m s) n \<longleftrightarrow>
     16 \<le> n \<and> bit r (n - 16) \<or> 8 \<le> n \<and> bit m (n - 8) \<or> bit s n" if "n < 32"
  using that unfolding apt_make_sharing_id_def bit_or_iff bit_push_bit_iff bit_ucast_iff by auto

text \<open>
  Sharing identifiers are a packing of three identifiers: the three accessors get back
  exactly what \<^verbatim>\<open>apt_make_sharing_id\<close> was given, and every identifier below $2^{24}$ is the
  packing of its three parts.
\<close>

theorem sharing_id_roundtrip:
  "apt_sharing_region_id (apt_make_sharing_id r m s) = r \<and>
   apt_sharing_master_id (apt_make_sharing_id r m s) = m \<and>
   apt_sharing_slave_id (apt_make_sharing_id r m s) = s \<and>
   apt_make_sharing_id (apt_sharing_region_id x) (apt_sharing_master_id x) (apt_sharing_slave_id x) =
     take_bit 24 x"
proof (intro conjI)
  have hi: "\<not> bit (w :: u8) n" if "8 \<le> n" for w n
    using that by (auto dest: bit_imp_le_length)
  show "apt_sharing_region_id (apt_make_sharing_id r m s) = r"
    by (rule bit_word_eqI) (simp add: bit_sharing_ids bit_make_sharing_id hi)
  show "apt_sharing_master_id (apt_make_sharing_id r m s) = m"
    by (rule bit_word_eqI) (simp add: bit_sharing_ids bit_make_sharing_id hi)
  show "apt_sharing_slave_id (apt_make_sharing_id r m s) = s"
    by (rule bit_word_eqI) (simp add: bit_sharing_ids bit_make_sharing_id)
  show "apt_make_sharing_id (apt_sharing_region_id x) (apt_sharing_master_id x) (apt_sharing_slave_id x) =
     take_bit 24 x"
  proof (rule bit_word_eqI)
    fix n assume "n < LENGTH(32)"
    then show "bit (apt_make_sharing_id (apt_sharing_region_id x) (apt_sharing_master_id x)
        (apt_sharing_slave_id x)) n = bit (take_bit 24 x) n"
      by (cases "n < 16") (auto simp: bit_sharing_ids bit_make_sharing_id bit_take_bit_iff)
  qed
qed

datatype apt_op = Add_Master u8 u64 u64 bool | Add_Slave u8 u8 u64 u64 u64 bool
  | Enable_Master nat | Disable_Master nat | Enable_Slave nat | Disable_Slave nat
  | Add_Share nat u8 u64 u8 | Reset

definition apt_step :: "apt_op \<Rightarrow> apt \<Rightarrow> apt" where
  "apt_step opn a =
    (case opn of
       Add_Master r s z en \<Rightarrow> snd (apt_add_master a r s z en)
     | Add_Slave m r p s z en \<Rightarrow> snd (apt_add_slave a m r p s z en)
     | Enable_Master i \<Rightarrow> snd (apt_enable_master_idx a i)
     | Disable_Master i \<Rightarrow> snd (apt_disable_master_idx a i)
     | Enable_Slave i \<Rightarrow> snd (apt_enable_slave_idx a i)
     | Disable_Slave i \<Rightarrow> snd (apt_disable_slave_idx a i)
     | Add_Share i sl p perm \<Rightarrow> snd (apt_master_add_share a i sl p perm)
     | Reset \<Rightarrow> apt_reset a)"

lemma apt_step_wf: "wf_apt a \<Longrightarrow> wf_apt (apt_step opn a)"
  by (cases opn) (simp_all add: apt_step_def apt_add_master_wf apt_add_slave_wf apt_enable_master_wf
      apt_disable_master_wf apt_enable_slave_wf apt_disable_slave_wf apt_master_add_share_wf
      apt_reset_def wf_zero_apt)

lemma apt_run_wf: "wf_apt a \<Longrightarrow> wf_apt (fold apt_step ops a)"
  by (induction ops arbitrary: a) (auto intro: apt_step_wf)

lemma master_enabled_set: "wf_apt a \<Longrightarrow> {i. apt_master_enabled a i} = mask_set (master_enabled_mask a)"
  using packed.elems_range by (auto simp: wf_apt_def apt_master_enabled_def apt_idx_in_range_def mask_bit)

lemma used_sets:
  "wf_apt a \<Longrightarrow> {i. apt_master_used a i} = mask_set (master_used_mask a)"
  "wf_apt a \<Longrightarrow> {i. apt_slave_used a i} = mask_set (slave_used_mask a)"
  by (auto simp: wf_apt_def apt_master_used_def apt_slave_used_def apt_idx_in_range_def mask_bit)

lemma slave_enabled_set: "wf_apt a \<Longrightarrow> {i. apt_slave_enabled a i} = mask_set (slave_enabled_mask a)"
  using packed.elems_range by (auto simp: wf_apt_def apt_slave_enabled_def apt_idx_in_range_def mask_bit)

text \<open>
  C29. After any sequence of operations on a table that started as zero, the packed arrays, which the conflict
  search reads, list exactly the regions that the masks say are enabled, each once; every enabled region is
  in use; and the share count of a master region is the number of its shares, at most three,
  with distinct slaves.
\<close>

theorem apt_packed_sets_agree:
  fixes ops
  defines "a \<equiv> fold apt_step ops zero_apt"
  shows "set (enabled_elems (enabled_mr a)) = {i. apt_master_enabled a i} \<and>
    distinct (enabled_elems (enabled_mr a)) \<and>
    set (enabled_elems (enabled_sr a)) = {i. apt_slave_enabled a i} \<and>
    distinct (enabled_elems (enabled_sr a)) \<and>
    {i. apt_master_enabled a i} \<subseteq> {i. apt_master_used a i} \<and>
    {i. apt_slave_enabled a i} \<subseteq> {i. apt_slave_used a i} \<and>
    wf_apt a"
proof -
  have wf: "wf_apt a" unfolding a_def by (rule apt_run_wf [OF wf_zero_apt])
  then have m: "wf_enabled (enabled_mr a) (mask_set (master_enabled_mask a))"
    and s: "wf_enabled (enabled_sr a) (mask_set (slave_enabled_mask a))"
    by (simp_all add: wf_apt_def)
  have "{i. apt_master_enabled a i} \<subseteq> {i. apt_master_used a i}"
    "{i. apt_slave_enabled a i} \<subseteq> {i. apt_slave_used a i}"
    unfolding master_enabled_set [OF wf] slave_enabled_set [OF wf] used_sets [OF wf]
    using wf by (simp_all add: wf_apt_def)
  then show ?thesis
    using wf packed.elems_set [OF m] packed.elems_set [OF s] packed.elems_distinct [OF m]
      packed.elems_distinct [OF s] master_enabled_set [OF wf] slave_enabled_set [OF wf] by simp
qed

text \<open>The addresses of a range, as numbers; a range wraps when it reaches the end of the 64-bit space.\<close>

definition ipa_range :: "u64 \<Rightarrow> u64 \<Rightarrow> nat set" where
  "ipa_range start len = {unat start..<unat start + unat len}"

definition wraps :: "u64 \<Rightarrow> u64 \<Rightarrow> bool" where
  "wraps start len \<longleftrightarrow> 2 ^ 64 \<le> unat start + unat len"

lemma end_less_wraps: "start + len < start \<longleftrightarrow> wraps start len" for start len :: u64
proof (cases "wraps start len")
  case True
  have "unat len < 2 ^ 64" using unat_lt64 .
  then have "unat (start + len) = unat start + unat len - 2 ^ 64"
    using True unat_lt64 [of start] by (simp add: wraps_def unat_word_ariths mod_if)
  then show ?thesis using True unat_lt64 [of len] unat_lt64 [of start]
    by (simp add: word_less_nat_alt wraps_def)
next
  case False
  then show ?thesis by (simp add: word_less_nat_alt wraps_def unat_add_nowrap)
qed

lemma range_overlaps_iff:
  "range_overlaps_ul s z s' z' \<longleftrightarrow> z \<noteq> 0 \<and> z' \<noteq> 0 \<and>
     (wraps s z \<or> wraps s' z' \<or> ipa_range s z \<inter> ipa_range s' z' \<noteq> {})"
proof (cases "z = 0 \<or> z' = 0 \<or> wraps s z \<or> wraps s' z'")
  case True
  then show ?thesis by (auto simp: range_overlaps_ul_def end_less_wraps Let_def)
next
  case False
  then have z: "0 < unat z" "0 < unat z'" by (auto simp: unat_gt_0)
  have e: "unat (s + z) = unat s + unat z" "unat (s' + z') = unat s' + unat z'"
    using False by (simp_all add: wraps_def unat_add_nowrap)
  have "ipa_range s z \<inter> ipa_range s' z' \<noteq> {} \<longleftrightarrow>
      \<not> (unat s + unat z \<le> unat s' \<or> unat s' + unat z' \<le> unat s)"
  proof
    show "ipa_range s z \<inter> ipa_range s' z' \<noteq> {} \<Longrightarrow>
      \<not> (unat s + unat z \<le> unat s' \<or> unat s' + unat z' \<le> unat s)" by (auto simp: ipa_range_def)
    assume "\<not> (unat s + unat z \<le> unat s' \<or> unat s' + unat z' \<le> unat s)"
    then have "max (unat s) (unat s') \<in> ipa_range s z \<inter> ipa_range s' z'"
      using z by (auto simp: ipa_range_def max_def)
    then show "ipa_range s z \<inter> ipa_range s' z' \<noteq> {}" by blast
  qed
  then show ?thesis
    using False by (auto simp: range_overlaps_ul_def end_less_wraps Let_def word_le_nat_alt e)
qed

lemma apt_conflict_search_exact_parts:
  assumes "wf_apt a"
  shows "apt_find_enabled_conflict a s z skip = None \<longleftrightarrow>
      (\<forall>i. apt_slave_enabled a i \<longrightarrow> \<not> range_overlaps_ul s z (sm_ipa_start (slave_memory a ! i)) (sm_map_size (slave_memory a ! i))) \<and>
      (skip \<or> (\<forall>i. apt_master_enabled a i \<longrightarrow> \<not> range_overlaps_ul s z (mm_ipa_start (master_memory a ! i)) (mm_map_size (master_memory a ! i))))"
    and "apt_find_enabled_conflict a s z skip = Some (k, i) \<Longrightarrow>
      (case k of
         APT_REGION_MASTER \<Rightarrow> \<not> skip \<and> apt_master_enabled a i \<and>
           range_overlaps_ul s z (mm_ipa_start (master_memory a ! i)) (mm_map_size (master_memory a ! i))
       | APT_REGION_SLAVE \<Rightarrow> apt_slave_enabled a i \<and>
           range_overlaps_ul s z (sm_ipa_start (slave_memory a ! i)) (sm_map_size (slave_memory a ! i)))"
    and "range_overlaps_ul s z s' z' \<longleftrightarrow> z \<noteq> 0 \<and> z' \<noteq> 0 \<and>
      (wraps s z \<or> wraps s' z' \<or> ipa_range s z \<inter> ipa_range s' z' \<noteq> {})"
proof -
  have m: "wf_enabled (enabled_mr a) (mask_set (master_enabled_mask a))"
    and sl: "wf_enabled (enabled_sr a) (mask_set (slave_enabled_mask a))"
    using assms by (simp_all add: wf_apt_def)
  note ms = master_enabled_set [OF assms, symmetric] and ss = slave_enabled_set [OF assms, symmetric]
  note N = packed.find_elems_None [OF m, unfolded enabled_elems_def ms]
    packed.find_elems_None [OF sl, unfolded enabled_elems_def ss]
  note S = packed.find_elems_Some [OF m, unfolded enabled_elems_def ms]
    packed.find_elems_Some [OF sl, unfolded enabled_elems_def ss]
  have mN: "find_master_conflict a s z = None \<longleftrightarrow> (\<forall>i. apt_master_enabled a i \<longrightarrow>
      \<not> range_overlaps_ul s z (mm_ipa_start (master_memory a ! i)) (mm_map_size (master_memory a ! i)))"
    unfolding find_master_conflict_def N(1) by simp
  have sN: "find_slave_conflict a s z = None \<longleftrightarrow> (\<forall>i. apt_slave_enabled a i \<longrightarrow>
      \<not> range_overlaps_ul s z (sm_ipa_start (slave_memory a ! i)) (sm_map_size (slave_memory a ! i)))"
    unfolding find_slave_conflict_def N(2) by simp
  show "apt_find_enabled_conflict a s z skip = None \<longleftrightarrow>
      (\<forall>i. apt_slave_enabled a i \<longrightarrow> \<not> range_overlaps_ul s z (sm_ipa_start (slave_memory a ! i)) (sm_map_size (slave_memory a ! i))) \<and>
      (skip \<or> (\<forall>i. apt_master_enabled a i \<longrightarrow> \<not> range_overlaps_ul s z (mm_ipa_start (master_memory a ! i)) (mm_map_size (master_memory a ! i))))"
    unfolding mN [symmetric] sN [symmetric] apt_find_enabled_conflict_def by (simp split: option.splits)
  have mS: "apt_master_enabled a j \<and>
      range_overlaps_ul s z (mm_ipa_start (master_memory a ! j)) (mm_map_size (master_memory a ! j))"
    if "find_master_conflict a s z = Some j" for j
    using S(1) [OF that [unfolded find_master_conflict_def]] by simp
  have sS: "apt_slave_enabled a j \<and>
      range_overlaps_ul s z (sm_ipa_start (slave_memory a ! j)) (sm_map_size (slave_memory a ! j))"
    if "find_slave_conflict a s z = Some j" for j
    using S(2) [OF that [unfolded find_slave_conflict_def]] by simp
  show "apt_find_enabled_conflict a s z skip = Some (k, i) \<Longrightarrow>
      (case k of
         APT_REGION_MASTER \<Rightarrow> \<not> skip \<and> apt_master_enabled a i \<and>
           range_overlaps_ul s z (mm_ipa_start (master_memory a ! i)) (mm_map_size (master_memory a ! i))
       | APT_REGION_SLAVE \<Rightarrow> apt_slave_enabled a i \<and>
           range_overlaps_ul s z (sm_ipa_start (slave_memory a ! i)) (sm_map_size (slave_memory a ! i)))"
    using mS sS by (auto simp: apt_find_enabled_conflict_def split: option.splits if_splits)
qed (rule range_overlaps_iff)

text \<open>
  The conflict search is exact: on a well-formed table it reports no conflict if and only
  if the new range overlaps no enabled slave region and, unless the check is skipped, no enabled
  master region; a region it reports is enabled and overlaps. Overlap is meant on the addresses
  as numbers, and a range that runs past the end of the 64-bit space overlaps everything.
\<close>

theorem apt_conflict_search_exact:
  assumes "wf_apt a"
  shows "(apt_find_enabled_conflict a s z skip = None \<longleftrightarrow>
      (\<forall>i. apt_slave_enabled a i \<longrightarrow> \<not> range_overlaps_ul s z (sm_ipa_start (slave_memory a ! i)) (sm_map_size (slave_memory a ! i))) \<and>
      (skip \<or> (\<forall>i. apt_master_enabled a i \<longrightarrow> \<not> range_overlaps_ul s z (mm_ipa_start (master_memory a ! i)) (mm_map_size (master_memory a ! i))))) \<and>
    (apt_find_enabled_conflict a s z skip = Some (k, i) \<longrightarrow>
      (case k of
         APT_REGION_MASTER \<Rightarrow> \<not> skip \<and> apt_master_enabled a i \<and>
           range_overlaps_ul s z (mm_ipa_start (master_memory a ! i)) (mm_map_size (master_memory a ! i))
       | APT_REGION_SLAVE \<Rightarrow> apt_slave_enabled a i \<and>
           range_overlaps_ul s z (sm_ipa_start (slave_memory a ! i)) (sm_map_size (slave_memory a ! i)))) \<and>
    (range_overlaps_ul s z s' z' \<longleftrightarrow> z \<noteq> 0 \<and> z' \<noteq> 0 \<and>
      (wraps s z \<or> wraps s' z' \<or> ipa_range s z \<inter> ipa_range s' z' \<noteq> {}))"
  using apt_conflict_search_exact_parts [OF assms] by (intro conjI impI) simp_all


definition one_slave :: apt where
  "one_slave = snd (apt_add_slave zero_apt 1 2 0x80000000 0x1000 0x3000 True)"

lemma wf_one_slave: "wf_apt one_slave"
  unfolding one_slave_def by (rule apt_add_slave_wf [OF wf_zero_apt])

lemma one_slave_enabled:
  "apt_slave_enabled one_slave i \<longleftrightarrow> i = 0" "\<not> apt_master_enabled one_slave i"
  "sm_ipa_start (slave_memory one_slave ! 0) = 0x1000" "sm_map_size (slave_memory one_slave ! 0) = 0x3000"
proof -
  have "first_free_from_mask 0 = Some 0" by (simp add: first_free_from_mask_def upt_rec)
  then have "slave_enabled_mask one_slave = 1" "master_enabled_mask one_slave = 0"
    "slave_memory one_slave ! 0 = \<lparr>sm_master_ID = 1, sm_region_ID = 2, sm_master_rd_pa = 0x80000000,
       sm_ipa_start = 0x1000, sm_map_size = 0x3000\<rparr>"
    by (simp_all add: one_slave_def apt_add_slave_def zero_apt_def enable_push_slave_def Let_def BIT64_def)
  then show "apt_slave_enabled one_slave i \<longleftrightarrow> i = 0" "\<not> apt_master_enabled one_slave i"
    "sm_ipa_start (slave_memory one_slave ! 0) = 0x1000" "sm_map_size (slave_memory one_slave ! 0) = 0x3000"
    by (auto simp: apt_slave_enabled_def apt_master_enabled_def apt_idx_in_range_def mask_bit mask_set_def bit_1_iff)
qed

theorem apt_conflict_search_exact_witness:
  "apt_find_enabled_conflict one_slave 0x3000 0x1000 True \<noteq> None \<and>
   apt_find_enabled_conflict one_slave 0x4000 0x1000 True = None"
  using apt_conflict_search_exact [OF wf_one_slave, of "0x3000" "0x1000" True, THEN conjunct1]
    apt_conflict_search_exact [OF wf_one_slave, of "0x4000" "0x1000" True, THEN conjunct1]
  by (simp add: one_slave_enabled range_overlaps_ul_def)

end
