(* ===== verification/S2tte.thy ===== *)
theory S2tte
  imports Granule
begin

text \<open>
  Stage 2 translation table entries (\<^verbatim>\<open>lib/s2tt/src/s2tt.c\<close>, \<^verbatim>\<open>s2tt_pvt_defs.h\<close> and
  \<^verbatim>\<open>s2tt.h\<close>): the encoding of the host and realm IPA states, of output addresses with and without
  LPA2, the functions that create and classify entries, and the functions on whole tables of 512 entries.
  A level of the tables is an \<open>int\<close> between -1 and 3; a table is a list of words. The model is
  that of the build without OPENCCA.
\<close>

section \<open>Constants and the context\<close>

record s2tt_context =
  ipa_bits :: u32
  s2_starting_level :: int
  num_root_rtts :: u32
  g_rtt :: "nat option"
  vmid :: u32
  enable_lpa2 :: bool

definition RMI_UNASSIGNED :: u64 where "RMI_UNASSIGNED = 0"
definition RMI_ASSIGNED :: u64 where "RMI_ASSIGNED = 1"
definition RMI_TABLE :: u64 where "RMI_TABLE = 2"

definition RMI_EMPTY :: u64 where "RMI_EMPTY = 0"
definition RMI_RAM :: u64 where "RMI_RAM = 1"
definition RMI_DESTROYED :: u64 where "RMI_DESTROYED = 2"

datatype ripas = RIPAS_EMPTY | RIPAS_RAM | RIPAS_DESTROYED | RIPAS_DEV

abbreviation (input) S2TT_PAGE_LEVEL :: int where "S2TT_PAGE_LEVEL \<equiv> 3"
abbreviation (input) S2TT_MIN_BLOCK_LEVEL :: int where "S2TT_MIN_BLOCK_LEVEL \<equiv> 1"
abbreviation (input) S2TT_MIN_STARTING_LEVEL :: int where "S2TT_MIN_STARTING_LEVEL \<equiv> 0"
abbreviation (input) S2TT_MIN_STARTING_LEVEL_LPA2 :: int where "S2TT_MIN_STARTING_LEVEL_LPA2 \<equiv> -1"
abbreviation (input) S2TTE_STRIDE :: nat where "S2TTE_STRIDE \<equiv> 9"
abbreviation (input) S2TTE_STRIDE_LM1 :: nat where "S2TTE_STRIDE_LM1 \<equiv> 4"
abbreviation (input) S2TTES_PER_S2TT :: nat where "S2TTES_PER_S2TT \<equiv> 512"
abbreviation (input) S2TTE_OA_BITS :: nat where "S2TTE_OA_BITS \<equiv> 48"
abbreviation (input) S2TTE_OA_BITS_LPA2 :: nat where "S2TTE_OA_BITS_LPA2 \<equiv> 52"

definition S2TTE_INVALID_HIPAS_MASK :: u64 where "S2TTE_INVALID_HIPAS_MASK = MASK 2 3"
definition S2TTE_INVALID_HIPAS_UNASSIGNED :: u64 where "S2TTE_INVALID_HIPAS_UNASSIGNED = INPLACE 2 RMI_UNASSIGNED"
definition S2TTE_INVALID_HIPAS_ASSIGNED :: u64 where "S2TTE_INVALID_HIPAS_ASSIGNED = INPLACE 2 RMI_ASSIGNED"
definition S2TTE_CREATE_FLAG_RO :: u64 where "S2TTE_CREATE_FLAG_RO = push_bit 62 1"
definition S2TTE_INVALID_RIPAS_MASK :: u64 where "S2TTE_INVALID_RIPAS_MASK = MASK 5 2"
definition S2TTE_INVALID_RIPAS_EMPTY :: u64 where "S2TTE_INVALID_RIPAS_EMPTY = INPLACE 5 RMI_EMPTY"
definition S2TTE_INVALID_RIPAS_RAM :: u64 where "S2TTE_INVALID_RIPAS_RAM = INPLACE 5 RMI_RAM"
definition S2TTE_INVALID_RIPAS_DESTROYED :: u64 where "S2TTE_INVALID_RIPAS_DESTROYED = INPLACE 5 RMI_DESTROYED"
definition S2TTE_INVALID_RIPAS_RAM_READ_ONLY :: u64 where
  "S2TTE_INVALID_RIPAS_RAM_READ_ONLY = S2TTE_INVALID_RIPAS_RAM OR S2TTE_CREATE_FLAG_RO"
definition S2TTE_NS :: u64 where "S2TTE_NS = push_bit 55 1"
definition S2TTE_AF :: u64 where "S2TTE_AF = push_bit 10 1"
definition S2TTE_XN :: u64 where "S2TTE_XN = push_bit 53 2"
definition S2TT_DESC_TYPE_MASK :: u64 where "S2TT_DESC_TYPE_MASK = 3"
definition S2TTE_INVALID :: u64 where "S2TTE_INVALID = 0"
definition S2TTE_L012_BLOCK :: u64 where "S2TTE_L012_BLOCK = 1"
definition S2TTE_L012_TABLE :: u64 where "S2TTE_L012_TABLE = 3"
definition S2TTE_L3_PAGE :: u64 where "S2TTE_L3_PAGE = 3"
definition S2TTE_MEMATTR_MASK :: u64 where "S2TTE_MEMATTR_MASK = push_bit 2 7"
definition S2TTE_MEMATTR_FWB_NORMAL_WB :: u64 where "S2TTE_MEMATTR_FWB_NORMAL_WB = push_bit 4 1 OR push_bit 2 2"
definition S2TTE_MEMATTR_FWB_RESERVED :: u64 where "S2TTE_MEMATTR_FWB_RESERVED = push_bit 4 1 OR push_bit 2 0"
definition S2TTE_AP_MASK :: u64 where "S2TTE_AP_MASK = push_bit 6 3"
definition S2TTE_AP_RW :: u64 where "S2TTE_AP_RW = push_bit 6 3"
definition S2TTE_AP_RO :: u64 where "S2TTE_AP_RO = push_bit 6 1"
definition S2TTE_SH_IS :: u64 where "S2TTE_SH_IS = push_bit 8 3"
definition S2TTE_ATTRS_LPA2 :: u64 where
  "S2TTE_ATTRS_LPA2 = S2TTE_MEMATTR_FWB_NORMAL_WB OR S2TTE_AP_RW OR S2TTE_AF"
definition S2TTE_ATTRS_LPA2_RO :: u64 where
  "S2TTE_ATTRS_LPA2_RO = S2TTE_MEMATTR_FWB_NORMAL_WB OR S2TTE_AP_RO OR S2TTE_AF"
definition S2TTE_ATTRS :: u64 where "S2TTE_ATTRS = S2TTE_ATTRS_LPA2 OR S2TTE_SH_IS"
definition S2TTE_ATTRS_RO :: u64 where "S2TTE_ATTRS_RO = S2TTE_ATTRS_LPA2_RO OR S2TTE_SH_IS"
definition S2TTE_NS_ATTR_MASK :: u64 where "S2TTE_NS_ATTR_MASK = S2TTE_MEMATTR_MASK OR S2TTE_AP_MASK"
definition S2TTE_NS_ATTR_RMM :: u64 where "S2TTE_NS_ATTR_RMM = S2TTE_AF OR S2TTE_NS OR S2TTE_XN"
definition S2TTE_TABLE :: u64 where "S2TTE_TABLE = S2TTE_L012_TABLE"
definition S2TTE_BLOCK :: u64 where "S2TTE_BLOCK = S2TTE_ATTRS OR S2TTE_L012_BLOCK"
definition S2TTE_BLOCK_RO :: u64 where "S2TTE_BLOCK_RO = S2TTE_ATTRS_RO OR S2TTE_L012_BLOCK"
definition S2TTE_BLOCK_LPA2 :: u64 where "S2TTE_BLOCK_LPA2 = S2TTE_ATTRS_LPA2 OR S2TTE_L012_BLOCK"
definition S2TTE_BLOCK_LPA2_RO :: u64 where "S2TTE_BLOCK_LPA2_RO = S2TTE_ATTRS_LPA2_RO OR S2TTE_L012_BLOCK"
definition S2TTE_PAGE :: u64 where "S2TTE_PAGE = S2TTE_ATTRS OR S2TTE_L3_PAGE"
definition S2TTE_PAGE_RO :: u64 where "S2TTE_PAGE_RO = S2TTE_ATTRS_RO OR S2TTE_L3_PAGE"
definition S2TTE_PAGE_LPA2 :: u64 where "S2TTE_PAGE_LPA2 = S2TTE_ATTRS_LPA2 OR S2TTE_L3_PAGE"
definition S2TTE_PAGE_LPA2_RO :: u64 where "S2TTE_PAGE_LPA2_RO = S2TTE_ATTRS_LPA2_RO OR S2TTE_L3_PAGE"
definition S2TTE_BLOCK_NS :: u64 where "S2TTE_BLOCK_NS = S2TTE_NS_ATTR_RMM OR S2TTE_L012_BLOCK"
definition S2TTE_PAGE_NS :: u64 where "S2TTE_PAGE_NS = S2TTE_NS_ATTR_RMM OR S2TTE_L3_PAGE"

section \<open>Addresses\<close>

text \<open>The lowest bit of the addresses that an entry at \<open>level\<close> maps.\<close>

definition lvl_lsb :: "int \<Rightarrow> nat" where
  "lvl_lsb level = nat (S2TT_PAGE_LEVEL - level) * S2TTE_STRIDE + GRANULE_SHIFT"

definition s2tte_map_size :: "int \<Rightarrow> u64" where
  "s2tte_map_size level = push_bit (lvl_lsb level) 1"

definition min_starting_level :: "s2tt_context \<Rightarrow> int" where
  "min_starting_level s2_ctx =
    (if enable_lpa2 s2_ctx then S2TT_MIN_STARTING_LEVEL_LPA2 else S2TT_MIN_STARTING_LEVEL)"

definition lvl_mask :: "int \<Rightarrow> bool \<Rightarrow> u64" where
  "lvl_mask level lpa2 =
    (let mask = BIT_MASK_ULL (S2TTE_OA_BITS - 1) (lvl_lsb level)
     in if lpa2 then mask OR (MASK 8 2 OR MASK 48 2) else mask)"

definition s2tte_lvl_mask :: "int \<Rightarrow> bool \<Rightarrow> ('s, u64) M" where
  "s2tte_lvl_mask level lpa2 =
    thenM (assertM (level \<le> S2TT_PAGE_LEVEL))
    (thenM (assertM (level \<ge> S2TT_MIN_STARTING_LEVEL_LPA2))
     (returnM (lvl_mask level lpa2)))"

definition s2tte_to_pa :: "u64 \<Rightarrow> int \<Rightarrow> bool \<Rightarrow> ('s, u64) M" where
  "s2tte_to_pa s2tte level lpa2 =
    bindM (s2tte_lvl_mask level lpa2) (\<lambda>mask.
    (let pa = s2tte AND mask
     in if lpa2
        then returnM ((pa AND NOT (MASK 8 2)) OR INPLACE 50 (EXTRACT 8 2 s2tte))
        else returnM pa))"

definition pa_to_s2tte :: "u64 \<Rightarrow> bool \<Rightarrow> u64" where
  "pa_to_s2tte pa lpa2 =
    (if lpa2 then (pa AND NOT (MASK 50 2)) OR INPLACE 8 (EXTRACT 50 2 pa) else pa)"

definition addr_lvl_aligned :: "bool \<Rightarrow> u64 \<Rightarrow> int \<Rightarrow> bool" where
  "addr_lvl_aligned lpa2 addr level \<longleftrightarrow>
    addr = addr AND BIT_MASK_ULL ((if lpa2 then S2TTE_OA_BITS_LPA2 else S2TTE_OA_BITS) - 1) (lvl_lsb level)"

definition s2tte_is_addr_lvl_aligned :: "s2tt_context \<Rightarrow> u64 \<Rightarrow> int \<Rightarrow> ('s, bool) M" where
  "s2tte_is_addr_lvl_aligned s2_ctx addr level =
    thenM (assertM (level \<le> S2TT_PAGE_LEVEL))
    (thenM (assertM (level \<ge> min_starting_level s2_ctx))
     (returnM (addr_lvl_aligned (enable_lpa2 s2_ctx) addr level)))"

definition s2_addr_to_idx :: "u64 \<Rightarrow> int \<Rightarrow> u64" where
  "s2_addr_to_idx addr level =
    (let s2tte_stride = (if level < S2TT_MIN_STARTING_LEVEL then S2TTE_STRIDE_LM1 else S2TTE_STRIDE)
     in drop_bit (lvl_lsb level) addr AND (push_bit s2tte_stride 1 - 1))"

definition s2_sl_addr_to_idx :: "u64 \<Rightarrow> int \<Rightarrow> nat \<Rightarrow> u64" where
  "s2_sl_addr_to_idx addr start_level bits =
    drop_bit (lvl_lsb start_level) (addr AND (push_bit bits 1 - 1))"

section \<open>Classification\<close>

definition desc_type :: "u64 \<Rightarrow> u64" where
  "desc_type s2tte = s2tte AND S2TT_DESC_TYPE_MASK"

definition entry_is_table :: "u64 \<Rightarrow> bool" where
  "entry_is_table entry \<longleftrightarrow> desc_type entry = S2TTE_L012_TABLE"

definition s2tte_has_hipas :: "u64 \<Rightarrow> u64 \<Rightarrow> bool" where
  "s2tte_has_hipas s2tte hipas \<longleftrightarrow>
    desc_type s2tte = S2TTE_INVALID \<and> s2tte AND S2TTE_INVALID_HIPAS_MASK = hipas"

definition s2tte_has_unassigned_ripas :: "u64 \<Rightarrow> u64 \<Rightarrow> bool" where
  "s2tte_has_unassigned_ripas s2tte ripas \<longleftrightarrow>
    s2tte AND S2TTE_INVALID_RIPAS_MASK = ripas \<and> s2tte_has_hipas s2tte S2TTE_INVALID_HIPAS_UNASSIGNED"

definition s2tte_has_assigned_ripas :: "u64 \<Rightarrow> u64 \<Rightarrow> bool" where
  "s2tte_has_assigned_ripas s2tte ripas \<longleftrightarrow>
    s2tte AND S2TTE_INVALID_RIPAS_MASK = ripas \<and> s2tte_has_hipas s2tte S2TTE_INVALID_HIPAS_ASSIGNED"

definition s2tte_is_unassigned :: "u64 \<Rightarrow> bool" where
  "s2tte_is_unassigned s2tte \<longleftrightarrow> s2tte_has_hipas s2tte S2TTE_INVALID_HIPAS_UNASSIGNED"

definition s2tte_is_unassigned_empty :: "u64 \<Rightarrow> bool" where
  "s2tte_is_unassigned_empty s2tte \<longleftrightarrow>
    s2tte AND S2TTE_NS = 0 \<and> s2tte_has_unassigned_ripas s2tte S2TTE_INVALID_RIPAS_EMPTY"

definition s2tte_is_unassigned_ram :: "u64 \<Rightarrow> bool" where
  "s2tte_is_unassigned_ram s2tte \<longleftrightarrow> s2tte_has_unassigned_ripas s2tte S2TTE_INVALID_RIPAS_RAM"

definition s2tte_is_unassigned_ns :: "u64 \<Rightarrow> bool" where
  "s2tte_is_unassigned_ns s2tte \<longleftrightarrow>
    s2tte AND S2TTE_NS \<noteq> 0 \<and> s2tte_has_hipas s2tte S2TTE_INVALID_HIPAS_UNASSIGNED"

definition s2tte_is_unassigned_destroyed :: "u64 \<Rightarrow> bool" where
  "s2tte_is_unassigned_destroyed s2tte \<longleftrightarrow> s2tte_has_unassigned_ripas s2tte S2TTE_INVALID_RIPAS_DESTROYED"

definition s2tte_is_assigned_destroyed :: "u64 \<Rightarrow> int \<Rightarrow> bool" where
  "s2tte_is_assigned_destroyed s2tte level \<longleftrightarrow> s2tte_has_assigned_ripas s2tte S2TTE_INVALID_RIPAS_DESTROYED"

definition s2tte_is_assigned_empty :: "u64 \<Rightarrow> int \<Rightarrow> bool" where
  "s2tte_is_assigned_empty s2tte level \<longleftrightarrow> s2tte_has_assigned_ripas s2tte S2TTE_INVALID_RIPAS_EMPTY"

definition s2tte_check :: "u64 \<Rightarrow> int \<Rightarrow> u64 \<Rightarrow> bool" where
  "s2tte_check s2tte level ns =
    (if s2tte AND S2TTE_NS \<noteq> ns then False
     else if level = S2TT_PAGE_LEVEL then desc_type s2tte = S2TTE_L3_PAGE
     else if level \<ge> S2TT_MIN_BLOCK_LEVEL \<and> desc_type s2tte = S2TTE_L012_BLOCK then True
     else False)"

definition s2tte_is_assigned_ram :: "u64 \<Rightarrow> int \<Rightarrow> bool" where
  "s2tte_is_assigned_ram s2tte level = s2tte_check s2tte level 0"

definition s2tte_is_assigned_ns :: "u64 \<Rightarrow> int \<Rightarrow> bool" where
  "s2tte_is_assigned_ns s2tte level = s2tte_check s2tte level S2TTE_NS"

definition s2tte_is_table :: "u64 \<Rightarrow> int \<Rightarrow> bool" where
  "s2tte_is_table s2tte level \<longleftrightarrow> level < S2TT_PAGE_LEVEL \<and> desc_type s2tte = S2TTE_L012_TABLE"

definition s2tte_has_ripas :: "u64 \<Rightarrow> int \<Rightarrow> bool" where
  "s2tte_has_ripas s2tte level \<longleftrightarrow> s2tte AND S2TTE_NS = 0 \<and> \<not> s2tte_is_table s2tte level"

definition s2tte_has_pa :: "u64 \<Rightarrow> int \<Rightarrow> bool" where
  "s2tte_has_pa s2tte level \<longleftrightarrow>
    desc_type s2tte \<noteq> S2TTE_INVALID \<or> s2tte_is_assigned_empty s2tte level \<or>
    s2tte_is_assigned_destroyed s2tte level"

definition s2tte_is_live :: "u64 \<Rightarrow> int \<Rightarrow> bool" where
  "s2tte_is_live s2tte level = s2tte_has_pa s2tte level"

definition s2tte_get_ripas :: "u64 \<Rightarrow> ('s, ripas) M" where
  "s2tte_get_ripas s2tte =
    (if desc_type s2tte \<noteq> S2TTE_INVALID
     then thenM (assertM (desc_type s2tte = S2TTE_L012_BLOCK \<or> desc_type s2tte = S2TTE_L3_PAGE))
          (returnM RIPAS_RAM)
     else
       thenM (assertM (EXTRACT 2 3 s2tte \<le> RMI_ASSIGNED))
       (let desc_ripas = drop_bit 5 (s2tte AND S2TTE_INVALID_RIPAS_MASK)
        in thenM (assertM (desc_ripas \<le> RMI_DESTROYED))
           (returnM (if desc_ripas = RMI_EMPTY then RIPAS_EMPTY
                     else if desc_ripas = RMI_RAM then RIPAS_RAM else RIPAS_DESTROYED))))"

definition s2tte_pa :: "s2tt_context \<Rightarrow> u64 \<Rightarrow> int \<Rightarrow> ('s, u64) M" where
  "s2tte_pa s2_ctx s2tte level =
    thenM (assertM (level \<ge> min_starting_level s2_ctx))
    (thenM (assertM (level \<le> S2TT_PAGE_LEVEL))
    (thenM (assertM (s2tte_has_pa s2tte level))
     (if s2tte_is_table s2tte level
      then s2tte_to_pa s2tte S2TT_PAGE_LEVEL (enable_lpa2 s2_ctx)
      else s2tte_to_pa s2tte level (enable_lpa2 s2_ctx))))"

section \<open>Creation\<close>

definition s2tte_create_unassigned_empty :: u64 where
  "s2tte_create_unassigned_empty = S2TTE_INVALID_HIPAS_UNASSIGNED OR S2TTE_INVALID_RIPAS_EMPTY"

definition s2tte_create_unassigned_ram :: u64 where
  "s2tte_create_unassigned_ram = S2TTE_INVALID_HIPAS_UNASSIGNED OR S2TTE_INVALID_RIPAS_RAM"

definition s2tte_create_unassigned_destroyed :: u64 where
  "s2tte_create_unassigned_destroyed = S2TTE_INVALID_HIPAS_UNASSIGNED OR S2TTE_INVALID_RIPAS_DESTROYED"

definition s2tte_create_unassigned_ns :: u64 where
  "s2tte_create_unassigned_ns = S2TTE_NS OR S2TTE_INVALID_HIPAS_UNASSIGNED"

text \<open>The value that \<^verbatim>\<open>s2tte_create_assigned\<close> returns once its assertions hold.\<close>

definition assigned_value :: "bool \<Rightarrow> u64 \<Rightarrow> int \<Rightarrow> u64 \<Rightarrow> u64" where
  "assigned_value lpa2 pa level s2tte_ripas =
    (let ripas_only = s2tte_ripas AND S2TTE_INVALID_RIPAS_MASK;
         want_ro = (s2tte_ripas AND S2TTE_CREATE_FLAG_RO \<noteq> 0);
         tte = pa_to_s2tte pa lpa2;
         s2tte_page = (if lpa2 then S2TTE_PAGE_LPA2 else S2TTE_PAGE);
         s2tte_block = (if lpa2 then S2TTE_BLOCK_LPA2 else S2TTE_BLOCK);
         s2tte_page_ro = (if lpa2 then S2TTE_PAGE_LPA2_RO else S2TTE_PAGE_RO);
         s2tte_block_ro = (if lpa2 then S2TTE_BLOCK_LPA2_RO else S2TTE_BLOCK_RO)
     in if ripas_only = S2TTE_INVALID_RIPAS_RAM
        then (if level = S2TT_PAGE_LEVEL then tte OR (if want_ro then s2tte_page_ro else s2tte_page)
              else tte OR (if want_ro then s2tte_block_ro else s2tte_block))
        else tte OR S2TTE_INVALID_HIPAS_ASSIGNED OR ripas_only)"

definition s2tte_create_assigned :: "s2tt_context \<Rightarrow> u64 \<Rightarrow> int \<Rightarrow> u64 \<Rightarrow> ('s, u64) M" where
  "s2tte_create_assigned s2_ctx pa level s2tte_ripas =
    thenM (assertM (level \<ge> S2TT_MIN_BLOCK_LEVEL))
    (thenM (assertM (level \<le> S2TT_PAGE_LEVEL))
    (thenM (assertM (EXTRACT 5 2 (s2tte_ripas AND S2TTE_INVALID_RIPAS_MASK) \<le>
                     EXTRACT 5 2 S2TTE_INVALID_RIPAS_DESTROYED))
    (bindM (s2tte_is_addr_lvl_aligned s2_ctx pa level) (\<lambda>aligned.
     thenM (assertM aligned)
     (returnM (assigned_value (enable_lpa2 s2_ctx) pa level s2tte_ripas))))))"

definition s2tte_create_assigned_destroyed :: "s2tt_context \<Rightarrow> u64 \<Rightarrow> int \<Rightarrow> ('s, u64) M" where
  "s2tte_create_assigned_destroyed s2_ctx pa level =
    s2tte_create_assigned s2_ctx pa level S2TTE_INVALID_RIPAS_DESTROYED"

definition s2tte_create_assigned_empty :: "s2tt_context \<Rightarrow> u64 \<Rightarrow> int \<Rightarrow> ('s, u64) M" where
  "s2tte_create_assigned_empty s2_ctx pa level =
    s2tte_create_assigned s2_ctx pa level S2TTE_INVALID_RIPAS_EMPTY"

definition s2tte_create_assigned_ram :: "s2tt_context \<Rightarrow> u64 \<Rightarrow> int \<Rightarrow> ('s, u64) M" where
  "s2tte_create_assigned_ram s2_ctx pa level =
    s2tte_create_assigned s2_ctx pa level S2TTE_INVALID_RIPAS_RAM"

definition s2tte_create_assigned_ram_read_only :: "s2tt_context \<Rightarrow> u64 \<Rightarrow> int \<Rightarrow> ('s, u64) M" where
  "s2tte_create_assigned_ram_read_only s2_ctx pa level =
    s2tte_create_assigned s2_ctx pa level S2TTE_INVALID_RIPAS_RAM_READ_ONLY"

definition s2tte_create_assigned_unchanged :: "s2tt_context \<Rightarrow> u64 \<Rightarrow> u64 \<Rightarrow> int \<Rightarrow> ('s, u64) M" where
  "s2tte_create_assigned_unchanged s2_ctx s2tte pa level =
    s2tte_create_assigned s2_ctx pa level (s2tte AND S2TTE_INVALID_RIPAS_MASK)"

definition assigned_ns_value :: "bool \<Rightarrow> u64 \<Rightarrow> int \<Rightarrow> u64" where
  "assigned_ns_value lpa2 s2tte level =
    (let new_s2tte = s2tte AND NOT S2TT_DESC_TYPE_MASK;
         new_s2tte = (if \<not> lpa2 then new_s2tte OR S2TTE_SH_IS else new_s2tte)
     in if level = S2TT_PAGE_LEVEL then new_s2tte OR S2TTE_PAGE_NS else new_s2tte OR S2TTE_BLOCK_NS)"

definition s2tte_create_assigned_ns :: "s2tt_context \<Rightarrow> u64 \<Rightarrow> int \<Rightarrow> ('s, u64) M" where
  "s2tte_create_assigned_ns s2_ctx s2tte level =
    thenM (assertM (level \<ge> S2TT_MIN_BLOCK_LEVEL))
    (thenM (assertM (level \<le> S2TT_PAGE_LEVEL))
     (returnM (assigned_ns_value (enable_lpa2 s2_ctx) s2tte level)))"

definition host_ns_s2tte_is_valid :: "s2tt_context \<Rightarrow> u64 \<Rightarrow> int \<Rightarrow> ('s, bool) M" where
  "host_ns_s2tte_is_valid s2_ctx s2tte level =
    thenM (assertM (level \<ge> S2TT_MIN_BLOCK_LEVEL))
    (bindM (s2tte_lvl_mask level (enable_lpa2 s2_ctx)) (\<lambda>lmask.
     (let mask = lmask OR S2TTE_NS_ATTR_MASK
      in if s2tte AND NOT mask \<noteq> 0 then returnM False
         else if s2tte AND S2TTE_MEMATTR_MASK = S2TTE_MEMATTR_FWB_RESERVED then returnM False
         else returnM True)))"

definition host_ns_s2tte :: "s2tt_context \<Rightarrow> u64 \<Rightarrow> int \<Rightarrow> ('s, u64) M" where
  "host_ns_s2tte s2_ctx s2tte level =
    bindM (s2tte_lvl_mask level (enable_lpa2 s2_ctx)) (\<lambda>lmask.
    (let mask = lmask OR S2TTE_NS_ATTR_MASK
     in thenM (assertM (level \<ge> S2TT_MIN_BLOCK_LEVEL)) (returnM (s2tte AND mask))))"

definition s2tte_create_table :: "s2tt_context \<Rightarrow> u64 \<Rightarrow> int \<Rightarrow> ('s, u64) M" where
  "s2tte_create_table s2_ctx pa level =
    thenM (assertM (level < S2TT_PAGE_LEVEL))
    (thenM (assertM (level \<ge> min_starting_level s2_ctx))
    (thenM (assertM (GRANULE_ALIGNED pa))
     (returnM (pa_to_s2tte pa (enable_lpa2 s2_ctx) OR S2TTE_TABLE))))"

section \<open>Bits of the constants\<close>

lemma bit_small:
  "bit (3 :: u64) n \<longleftrightarrow> n < 2" "bit (7 :: u64) n \<longleftrightarrow> n < 3"
  using bit_mask_iff [of 2 n, where 'a = u64] bit_mask_iff [of 3 n, where 'a = u64]
  by (auto simp: mask_eq_exp_minus_1)

lemma bit_push_1: "bit (push_bit k 1 :: u64) n \<longleftrightarrow> n = k \<and> k < 64"
  unfolding bit_push_bit_iff by (auto simp: bit_1_iff)

lemma bit_s2tte_consts [bit_facts]:
  "bit S2TTE_NS n \<longleftrightarrow> n = 55"
  "bit S2TTE_AF n \<longleftrightarrow> n = 10"
  "bit S2TTE_XN n \<longleftrightarrow> n = 54"
  "bit S2TT_DESC_TYPE_MASK n \<longleftrightarrow> n < 2"
  "\<not> bit S2TTE_INVALID n"
  "bit S2TTE_L012_BLOCK n \<longleftrightarrow> n = 0"
  "bit S2TTE_L012_TABLE n \<longleftrightarrow> n < 2"
  "bit S2TTE_TABLE n \<longleftrightarrow> n < 2"
  "bit S2TTE_L3_PAGE n \<longleftrightarrow> n < 2"
  "bit S2TTE_MEMATTR_MASK n \<longleftrightarrow> 2 \<le> n \<and> n < 5"
  "bit S2TTE_MEMATTR_FWB_NORMAL_WB n \<longleftrightarrow> n = 4 \<or> n = 3"
  "bit S2TTE_MEMATTR_FWB_RESERVED n \<longleftrightarrow> n = 4"
  "bit S2TTE_AP_MASK n \<longleftrightarrow> 6 \<le> n \<and> n < 8"
  "bit S2TTE_AP_RW n \<longleftrightarrow> 6 \<le> n \<and> n < 8"
  "bit S2TTE_AP_RO n \<longleftrightarrow> n = 6"
  "bit S2TTE_SH_IS n \<longleftrightarrow> 8 \<le> n \<and> n < 10"
  "bit S2TTE_CREATE_FLAG_RO n \<longleftrightarrow> n = 62"
  unfolding S2TTE_NS_def S2TTE_AF_def S2TTE_XN_def S2TT_DESC_TYPE_MASK_def S2TTE_INVALID_def
    S2TTE_L012_BLOCK_def S2TTE_L012_TABLE_def S2TTE_TABLE_def S2TTE_L3_PAGE_def S2TTE_MEMATTR_MASK_def
    S2TTE_MEMATTR_FWB_NORMAL_WB_def S2TTE_MEMATTR_FWB_RESERVED_def S2TTE_AP_MASK_def S2TTE_AP_RW_def
    S2TTE_AP_RO_def S2TTE_SH_IS_def S2TTE_CREATE_FLAG_RO_def bit_push_1 bit_or_iff bit_push_bit_iff
    bit_small bit_0_eq bit_1_iff bit_2_iff
  by auto

lemma bit_s2tte_invalid [bit_facts]:
  "bit S2TTE_INVALID_HIPAS_MASK n \<longleftrightarrow> 2 \<le> n \<and> n < 5"
  "\<not> bit S2TTE_INVALID_HIPAS_UNASSIGNED n"
  "bit S2TTE_INVALID_HIPAS_ASSIGNED n \<longleftrightarrow> n = 2"
  "bit S2TTE_INVALID_RIPAS_MASK n \<longleftrightarrow> 5 \<le> n \<and> n < 7"
  "\<not> bit S2TTE_INVALID_RIPAS_EMPTY n"
  "bit S2TTE_INVALID_RIPAS_RAM n \<longleftrightarrow> n = 5"
  "bit S2TTE_INVALID_RIPAS_DESTROYED n \<longleftrightarrow> n = 6"
  "bit S2TTE_INVALID_RIPAS_RAM_READ_ONLY n \<longleftrightarrow> n = 5 \<or> n = 62"
  unfolding S2TTE_INVALID_HIPAS_MASK_def S2TTE_INVALID_HIPAS_UNASSIGNED_def S2TTE_INVALID_HIPAS_ASSIGNED_def
    S2TTE_INVALID_RIPAS_MASK_def S2TTE_INVALID_RIPAS_EMPTY_def S2TTE_INVALID_RIPAS_RAM_def
    S2TTE_INVALID_RIPAS_DESTROYED_def S2TTE_INVALID_RIPAS_RAM_READ_ONLY_def
    RMI_UNASSIGNED_def RMI_ASSIGNED_def RMI_EMPTY_def RMI_RAM_def RMI_DESTROYED_def bit_or_iff bit_INPLACE
    bit_0_eq bit_1_iff bit_2_iff bit_s2tte_consts
  by (auto simp: bit_MASK)

lemmas s2tte_attr_defs = S2TTE_ATTRS_LPA2_def S2TTE_ATTRS_LPA2_RO_def S2TTE_ATTRS_def S2TTE_ATTRS_RO_def
  S2TTE_NS_ATTR_MASK_def S2TTE_NS_ATTR_RMM_def S2TTE_BLOCK_def S2TTE_BLOCK_RO_def S2TTE_BLOCK_LPA2_def
  S2TTE_BLOCK_LPA2_RO_def S2TTE_PAGE_def S2TTE_PAGE_RO_def S2TTE_PAGE_LPA2_def S2TTE_PAGE_LPA2_RO_def
  S2TTE_BLOCK_NS_def S2TTE_PAGE_NS_def

lemmas s2tte_bits = s2tte_attr_defs bit_or_iff bit_and_iff bit_not_iff bit_s2tte_consts bit_s2tte_invalid

section \<open>The classes of entries, by their bits\<close>

text \<open>Equality of words that only have bits in a given range.\<close>

lemma masked_eq_iff:
  fixes w m v :: u64
  assumes "\<And>n. n < 64 \<Longrightarrow> bit m n \<Longrightarrow> n \<in> set ks" "\<And>k. k \<in> set ks \<Longrightarrow> bit m k" "\<And>n. bit v n \<Longrightarrow> bit m n"
  shows "w AND m = v \<longleftrightarrow> list_all (\<lambda>k. bit w k = bit v k) ks"
proof
  assume "w AND m = v"
  then show "list_all (\<lambda>k. bit w k = bit v k) ks"
    using assms(2) by (auto simp: list_all_iff bit_and_iff)
next
  assume *: "list_all (\<lambda>k. bit w k = bit v k) ks"
  show "w AND m = v"
  proof (rule bit_word_eqI)
    fix n assume "n < LENGTH(64)"
    then have "bit m n \<Longrightarrow> bit w n = bit v n" using assms(1) [of n] * by (auto simp: list_all_iff)
    then show "bit (w AND m) n = bit v n" using assms(3) [of n] by (auto simp: bit_and_iff)
  qed
qed

lemma desc_type_iff:
  "desc_type w = S2TTE_INVALID \<longleftrightarrow> \<not> bit w 0 \<and> \<not> bit w 1"
  "desc_type w = S2TTE_L012_BLOCK \<longleftrightarrow> bit w 0 \<and> \<not> bit w 1"
  "desc_type w = S2TTE_L012_TABLE \<longleftrightarrow> bit w 0 \<and> bit w 1"
  "desc_type w = S2TTE_L3_PAGE \<longleftrightarrow> bit w 0 \<and> bit w 1"
  unfolding desc_type_def
  by (subst masked_eq_iff [where ks = "[0, 1]"]; auto simp: bit_s2tte_consts)+

lemma hipas_iff:
  "w AND S2TTE_INVALID_HIPAS_MASK = S2TTE_INVALID_HIPAS_UNASSIGNED \<longleftrightarrow> \<not> bit w 2 \<and> \<not> bit w 3 \<and> \<not> bit w 4"
  "w AND S2TTE_INVALID_HIPAS_MASK = S2TTE_INVALID_HIPAS_ASSIGNED \<longleftrightarrow> bit w 2 \<and> \<not> bit w 3 \<and> \<not> bit w 4"
  by (subst masked_eq_iff [where ks = "[2, 3, 4]"]; auto simp: bit_s2tte_invalid)+

lemma ripas_iff:
  "w AND S2TTE_INVALID_RIPAS_MASK = S2TTE_INVALID_RIPAS_EMPTY \<longleftrightarrow> \<not> bit w 5 \<and> \<not> bit w 6"
  "w AND S2TTE_INVALID_RIPAS_MASK = S2TTE_INVALID_RIPAS_RAM \<longleftrightarrow> bit w 5 \<and> \<not> bit w 6"
  "w AND S2TTE_INVALID_RIPAS_MASK = S2TTE_INVALID_RIPAS_DESTROYED \<longleftrightarrow> \<not> bit w 5 \<and> bit w 6"
  by (subst masked_eq_iff [where ks = "[5, 6]"]; auto simp: bit_s2tte_invalid)+

lemma ns_iff:
  "w AND S2TTE_NS = 0 \<longleftrightarrow> \<not> bit w 55" "w AND S2TTE_NS = S2TTE_NS \<longleftrightarrow> bit w 55"
  by (subst masked_eq_iff [where ks = "[55]"]; auto simp: bit_s2tte_consts)+

lemma memattr_iff:
  "w AND S2TTE_MEMATTR_MASK = S2TTE_MEMATTR_FWB_RESERVED \<longleftrightarrow> \<not> bit w 2 \<and> \<not> bit w 3 \<and> bit w 4"
  by (subst masked_eq_iff [where ks = "[2, 3, 4]"]; auto simp: bit_s2tte_consts)

lemma ro_iff: "w AND S2TTE_CREATE_FLAG_RO \<noteq> 0 \<longleftrightarrow> bit w 62"
proof -
  have "w AND S2TTE_CREATE_FLAG_RO = 0 \<longleftrightarrow> \<not> bit w 62"
    by (subst masked_eq_iff [where ks = "[62]"]; auto simp: bit_s2tte_consts)
  then show ?thesis by simp
qed

lemmas s2tte_class_defs = s2tte_is_unassigned_def s2tte_is_unassigned_empty_def s2tte_is_unassigned_ram_def
  s2tte_is_unassigned_ns_def s2tte_is_unassigned_destroyed_def s2tte_is_assigned_destroyed_def
  s2tte_is_assigned_empty_def s2tte_is_assigned_ram_def s2tte_is_assigned_ns_def s2tte_is_table_def
  s2tte_check_def s2tte_has_unassigned_ripas_def s2tte_has_assigned_ripas_def s2tte_has_hipas_def
  s2tte_has_ripas_def s2tte_has_pa_def s2tte_is_live_def entry_is_table_def

lemmas s2tte_class_bits = s2tte_class_defs desc_type_iff hipas_iff ripas_iff ns_iff

section \<open>Output addresses\<close>

definition oa_bits :: "bool \<Rightarrow> nat" where
  "oa_bits lpa2 = (if lpa2 then 52 else 48)"

lemma lvl_lsb_ge: "12 \<le> lvl_lsb level"
  by (simp add: lvl_lsb_def)

lemma lvl_lsb_vals [simp]:
  "lvl_lsb 3 = 12" "lvl_lsb 2 = 21" "lvl_lsb 1 = 30" "lvl_lsb 0 = 39" "lvl_lsb (- 1) = 48"
  by (simp_all add: lvl_lsb_def)

lemma lvl_lsb_pred: "level \<le> 3 \<Longrightarrow> lvl_lsb (level - 1) = lvl_lsb level + 9"
proof -
  assume "level \<le> 3"
  then have "nat (3 - (level - 1)) = Suc (nat (3 - level))" by simp
  then show ?thesis by (simp add: lvl_lsb_def)
qed

lemma addr_lvl_aligned_iff:
  "addr_lvl_aligned lpa2 a level \<longleftrightarrow> (\<forall>n. bit a n \<longrightarrow> lvl_lsb level \<le> n \<and> n < oa_bits lpa2)"
proof -
  define m where "m = BIT_MASK_ULL ((if lpa2 then S2TTE_OA_BITS_LPA2 else S2TTE_OA_BITS) - 1) (lvl_lsb level)"
  have b: "bit m n \<longleftrightarrow> lvl_lsb level \<le> n \<and> n < oa_bits lpa2" for n
    unfolding m_def by (subst bit_BIT_MASK_ULL) (auto simp: oa_bits_def)
  have "a = a AND m \<longleftrightarrow> (\<forall>n. bit a n \<longrightarrow> bit m n)"
  proof
    show "\<forall>n. bit a n \<longrightarrow> bit m n" if "a = a AND m" using that by (metis bit_and_iff)
    show "a = a AND m" if "\<forall>n. bit a n \<longrightarrow> bit m n"
      by (rule bit_word_eqI) (use that in \<open>auto simp: bit_and_iff\<close>)
  qed
  then show ?thesis unfolding addr_lvl_aligned_def m_def [symmetric] b .
qed

lemma addr_lvl_aligned_granule: "addr_lvl_aligned lpa2 a level \<Longrightarrow> GRANULE_ALIGNED a"
  using lvl_lsb_ge [of level] by (auto simp: addr_lvl_aligned_iff GRANULE_ALIGNED_bits)

lemma bit_lvl_mask:
  "bit (lvl_mask level lpa2) n \<longleftrightarrow>
     lvl_lsb level \<le> n \<and> n < 48 \<or> lpa2 \<and> (n = 8 \<or> n = 9 \<or> n = 48 \<or> n = 49)"
proof -
  have "bit (BIT_MASK_ULL (S2TTE_OA_BITS - 1) (lvl_lsb level)) n \<longleftrightarrow> lvl_lsb level \<le> n \<and> n < 48"
    by (subst bit_BIT_MASK_ULL) auto
  then show ?thesis by (auto simp: lvl_mask_def Let_def bit_or_iff bit_MASK)
qed

lemma bit_pa_to_s2tte:
  "bit (pa_to_s2tte pa lpa2) n \<longleftrightarrow>
     (if lpa2 then bit pa n \<and> n \<noteq> 50 \<and> n \<noteq> 51 \<or> n = 8 \<and> bit pa 50 \<or> n = 9 \<and> bit pa 51 else bit pa n)"
proof -
  have "n < 64 \<Longrightarrow> 8 \<le> n \<and> n - 8 < 2 \<and> bit pa (50 + (n - 8)) \<longleftrightarrow> n = 8 \<and> bit pa 50 \<or> n = 9 \<and> bit pa 51"
    by (cases "n = 8"; cases "n = 9") auto
  then show ?thesis
    by (auto simp: pa_to_s2tte_def bit_or_iff bit_and_iff bit_not_iff bit_MASK bit_INPLACE bit_EXTRACT
        dest: bit_imp_le_length)
qed

definition to_pa_value :: "u64 \<Rightarrow> int \<Rightarrow> bool \<Rightarrow> u64" where
  "to_pa_value w level lpa2 =
    (if lpa2 then (w AND lvl_mask level lpa2 AND NOT (MASK 8 2)) OR INPLACE 50 (EXTRACT 8 2 w)
     else w AND lvl_mask level lpa2)"

lemma s2tte_lvl_mask_run [run_simps]:
  "-1 \<le> level \<Longrightarrow> level \<le> 3 \<Longrightarrow> s2tte_lvl_mask level lpa2 s = Inr (lvl_mask level lpa2, s)"
  by (simp add: s2tte_lvl_mask_def run_simps)

lemma s2tte_to_pa_run [run_simps]:
  "-1 \<le> level \<Longrightarrow> level \<le> 3 \<Longrightarrow> s2tte_to_pa w level lpa2 s = Inr (to_pa_value w level lpa2, s)"
  by (simp add: s2tte_to_pa_def run_simps to_pa_value_def and.assoc)

lemma bit_to_pa_value:
  "bit (to_pa_value w level lpa2) n \<longleftrightarrow>
     lvl_lsb level \<le> n \<and> n < 48 \<and> bit w n \<or>
     lpa2 \<and> (n = 48 \<and> bit w 48 \<or> n = 49 \<and> bit w 49 \<or> n = 50 \<and> bit w 8 \<or> n = 51 \<and> bit w 9)"
proof -
  have "n < 64 \<Longrightarrow> 50 \<le> n \<and> n - 50 < 2 \<and> bit w (8 + (n - 50)) \<longleftrightarrow> n = 50 \<and> bit w 8 \<or> n = 51 \<and> bit w 9"
    by (cases "n = 50"; cases "n = 51") auto
  then show ?thesis
    using lvl_lsb_ge [of level]
    by (auto simp: to_pa_value_def bit_or_iff bit_and_iff bit_not_iff bit_MASK bit_INPLACE bit_EXTRACT
        bit_lvl_mask dest: bit_imp_le_length)
qed

text \<open>An entry carries an address when its address bits are those of the address.\<close>

lemma to_pa_value_eq:
  assumes al: "addr_lvl_aligned lpa2 pa level"
    and bits: "\<And>n. 12 \<le> n \<Longrightarrow> n < 50 \<Longrightarrow> bit w n = bit (pa_to_s2tte pa lpa2) n"
    and hi: "lpa2 \<Longrightarrow> bit w 8 = bit pa 50 \<and> bit w 9 = bit pa 51"
  shows "to_pa_value w level lpa2 = pa"
proof (rule bit_word_eqI)
  fix n
  note A = al [unfolded addr_lvl_aligned_iff, rule_format]
  have w: "bit w n = bit pa n" if "12 \<le> n" "n < 50" "\<not> lpa2 \<longrightarrow> n < 48" for n
    using bits [OF that(1,2)] that by (auto simp: bit_pa_to_s2tte)
  have "bit pa n \<Longrightarrow> n < 48 \<or> lpa2 \<and> (n = 48 \<or> n = 49 \<or> n = 50 \<or> n = 51)"
    using A [of n] by (auto simp: oa_bits_def split: if_splits)
  then show "bit (to_pa_value w level lpa2) n = bit pa n"
    using w [of n] w [of 48] w [of 49] hi A [of n] lvl_lsb_ge [of level]
    by (auto simp: bit_to_pa_value)
qed

section \<open>Created entries\<close>

definition wf_level :: "s2tt_context \<Rightarrow> int \<Rightarrow> bool" where
  "wf_level ctx level \<longleftrightarrow> min_starting_level ctx \<le> level \<and> level \<le> 3"

lemma min_starting_level_bounds: "-1 \<le> min_starting_level ctx" "min_starting_level ctx \<le> 0"
  by (simp_all add: min_starting_level_def)

text \<open>A two-bit field as a number.\<close>

lemma two_bits_cases:
  fixes x :: u64
  assumes "\<And>n. bit x n \<longleftrightarrow> n = 0 \<and> a \<or> n = 1 \<and> b"
  shows "x = (if a then 1 else 0) + (if b then 2 else 0)"
proof -
  have "bit x n = bit ((if a then 1 else 0) + (if b then 2 else 0) :: u64) n" for n
  proof (cases a; cases b)
    assume "a" "b"
    then show ?thesis using assms [of n] bit_small(1) [of n] by auto
  qed (auto simp: assms bit_1_iff bit_2_iff)
  then show ?thesis by (simp add: bit_eq_iff)
qed

lemma extract_ripas: "EXTRACT 5 2 r = (if bit r 5 then 1 else 0) + (if bit r 6 then 2 else 0)"
proof (rule two_bits_cases)
  fix n
  show "bit (EXTRACT 5 2 r) n \<longleftrightarrow> n = 0 \<and> bit r 5 \<or> n = 1 \<and> bit r 6"
    by (cases "n = 0"; cases "n = 1") (auto simp: bit_EXTRACT)
qed

lemma extract_ripas_le:
  "EXTRACT 5 2 (r AND S2TTE_INVALID_RIPAS_MASK) \<le> EXTRACT 5 2 S2TTE_INVALID_RIPAS_DESTROYED
    \<longleftrightarrow> \<not> (bit r 5 \<and> bit r 6)"
  unfolding extract_ripas by (simp add: bit_and_iff bit_s2tte_invalid)

lemma create_assigned_run:
  assumes "1 \<le> level" "level \<le> 3" "addr_lvl_aligned (enable_lpa2 ctx) pa level" "\<not> (bit r 5 \<and> bit r 6)"
  shows "s2tte_create_assigned ctx pa level r s = Inr (assigned_value (enable_lpa2 ctx) pa level r, s)"
  using assms min_starting_level_bounds [of ctx]
  by (simp add: s2tte_create_assigned_def run_simps s2tte_is_addr_lvl_aligned_def extract_ripas_le)

lemma create_assigned_runs [run_simps]:
  assumes "1 \<le> level" "level \<le> 3" "addr_lvl_aligned (enable_lpa2 ctx) pa level"
  shows "s2tte_create_assigned_ram ctx pa level s =
      Inr (assigned_value (enable_lpa2 ctx) pa level S2TTE_INVALID_RIPAS_RAM, s)"
    "s2tte_create_assigned_ram_read_only ctx pa level s =
      Inr (assigned_value (enable_lpa2 ctx) pa level S2TTE_INVALID_RIPAS_RAM_READ_ONLY, s)"
    "s2tte_create_assigned_empty ctx pa level s =
      Inr (assigned_value (enable_lpa2 ctx) pa level S2TTE_INVALID_RIPAS_EMPTY, s)"
    "s2tte_create_assigned_destroyed ctx pa level s =
      Inr (assigned_value (enable_lpa2 ctx) pa level S2TTE_INVALID_RIPAS_DESTROYED, s)"
  using assms by (simp_all add: s2tte_create_assigned_ram_def s2tte_create_assigned_ram_read_only_def
      s2tte_create_assigned_empty_def s2tte_create_assigned_destroyed_def create_assigned_run bit_s2tte_invalid)

text \<open>The bits of an assigned entry below the address.\<close>

definition valid_attr_bit :: "bool \<Rightarrow> int \<Rightarrow> bool \<Rightarrow> nat \<Rightarrow> bool" where
  "valid_attr_bit lpa2 level ro n \<longleftrightarrow>
     n = 0 \<or> n = 1 \<and> level = 3 \<or> n = 3 \<or> n = 4 \<or> n = 6 \<or> n = 7 \<and> \<not> ro \<or> n = 10 \<or> (n = 8 \<or> n = 9) \<and> \<not> lpa2"

lemma bit_assigned_ram:
  assumes "bit r 5" "\<not> bit r 6"
  shows "bit (assigned_value lpa2 pa level r) n \<longleftrightarrow>
     bit (pa_to_s2tte pa lpa2) n \<or> valid_attr_bit lpa2 level (bit r 62) n"
  using assms by (auto simp: assigned_value_def Let_def ripas_iff ro_iff s2tte_bits valid_attr_bit_def)

lemma bit_assigned_invalid:
  assumes "\<not> (bit r 5 \<and> \<not> bit r 6)"
  shows "bit (assigned_value lpa2 pa level r) n \<longleftrightarrow>
     bit (pa_to_s2tte pa lpa2) n \<or> n = 2 \<or> (n = 5 \<or> n = 6) \<and> bit r n"
proof -
  have "n = 5 \<or> n = 6 \<longleftrightarrow> 5 \<le> n \<and> n < 7" by auto
  then show ?thesis using assms
    by (auto simp: assigned_value_def Let_def ripas_iff s2tte_bits)
qed

lemma pa_low_bits:
  assumes "GRANULE_ALIGNED pa" "n < 8 \<or> 10 \<le> n \<and> n < 12"
  shows "\<not> bit (pa_to_s2tte pa lpa2) n"
  using assms by (auto simp: bit_pa_to_s2tte GRANULE_ALIGNED_bits)

lemma pa_high_bits:
  assumes "addr_lvl_aligned lpa2 pa level" "52 \<le> n"
  shows "\<not> bit (pa_to_s2tte pa lpa2) n"
  using assms by (auto simp: bit_pa_to_s2tte addr_lvl_aligned_iff oa_bits_def split: if_splits dest: leD)

section \<open>The kinds of entries\<close>

datatype s2tte_kind = Unassigned_Empty | Unassigned_Ram | Unassigned_Ns | Unassigned_Destroyed
  | Assigned_Empty | Assigned_Ram | Assigned_Ns | Assigned_Destroyed | Table

definition has_kind :: "u64 \<Rightarrow> int \<Rightarrow> s2tte_kind \<Rightarrow> bool" where
  "has_kind w level k =
    (case k of
       Unassigned_Empty \<Rightarrow> s2tte_is_unassigned_empty w
     | Unassigned_Ram \<Rightarrow> s2tte_is_unassigned_ram w
     | Unassigned_Ns \<Rightarrow> s2tte_is_unassigned_ns w
     | Unassigned_Destroyed \<Rightarrow> s2tte_is_unassigned_destroyed w
     | Assigned_Empty \<Rightarrow> s2tte_is_assigned_empty w level
     | Assigned_Ram \<Rightarrow> s2tte_is_assigned_ram w level
     | Assigned_Ns \<Rightarrow> s2tte_is_assigned_ns w level
     | Assigned_Destroyed \<Rightarrow> s2tte_is_assigned_destroyed w level
     | Table \<Rightarrow> s2tte_is_table w level)"

definition kinds :: "u64 \<Rightarrow> int \<Rightarrow> s2tte_kind set" where
  "kinds w level = {k. has_kind w level k}"

lemma kinds_eqI: "has_kind w level k \<Longrightarrow> (\<And>j. has_kind w level j \<Longrightarrow> j = k) \<Longrightarrow> kinds w level = {k}"
  unfolding kinds_def by blast

text \<open>The kind of an entry from its descriptor bits.\<close>

lemma kinds_unassigned:
  assumes "\<not> bit w 0" "\<not> bit w 1" "\<not> bit w 2" "\<not> bit w 3" "\<not> bit w 4"
  shows "\<not> bit w 5 \<Longrightarrow> \<not> bit w 6 \<Longrightarrow> \<not> bit w 55 \<Longrightarrow> kinds w level = {Unassigned_Empty}"
    "bit w 5 \<Longrightarrow> \<not> bit w 6 \<Longrightarrow> \<not> bit w 55 \<Longrightarrow> kinds w level = {Unassigned_Ram}"
    "\<not> bit w 5 \<Longrightarrow> \<not> bit w 6 \<Longrightarrow> bit w 55 \<Longrightarrow> kinds w level = {Unassigned_Ns}"
    "\<not> bit w 5 \<Longrightarrow> bit w 6 \<Longrightarrow> \<not> bit w 55 \<Longrightarrow> kinds w level = {Unassigned_Destroyed}"
  by (rule kinds_eqI; use assms in \<open>simp add: has_kind_def s2tte_class_bits split: s2tte_kind.splits if_splits\<close>)+

lemma kinds_assigned_invalid:
  assumes "\<not> bit w 0" "\<not> bit w 1" "bit w 2" "\<not> bit w 3" "\<not> bit w 4" "\<not> bit w 55"
  shows "\<not> bit w 5 \<Longrightarrow> \<not> bit w 6 \<Longrightarrow> kinds w level = {Assigned_Empty}"
    "\<not> bit w 5 \<Longrightarrow> bit w 6 \<Longrightarrow> kinds w level = {Assigned_Destroyed}"
  by (rule kinds_eqI; use assms in \<open>simp add: has_kind_def s2tte_class_bits split: s2tte_kind.splits if_splits\<close>)+

lemma kinds_valid:
  assumes "bit w 0" "bit w 1 = (level = 3)" "1 \<le> level"
  shows "\<not> bit w 55 \<Longrightarrow> kinds w level = {Assigned_Ram}" "bit w 55 \<Longrightarrow> kinds w level = {Assigned_Ns}"
  by (rule kinds_eqI; use assms in \<open>auto simp: has_kind_def s2tte_class_bits split: s2tte_kind.splits if_splits\<close>)+

lemma kinds_table:
  assumes "bit w 0" "bit w 1" "level < 3"
  shows "kinds w level = {Table}"
  by (rule kinds_eqI; use assms in \<open>simp add: has_kind_def s2tte_class_bits split: s2tte_kind.splits if_splits\<close>)

lemma created_unassigned_kinds:
  "kinds s2tte_create_unassigned_empty level = {Unassigned_Empty}"
  "kinds s2tte_create_unassigned_ram level = {Unassigned_Ram}"
  "kinds s2tte_create_unassigned_ns level = {Unassigned_Ns}"
  "kinds s2tte_create_unassigned_destroyed level = {Unassigned_Destroyed}"
  by (rule kinds_unassigned; simp add: s2tte_create_unassigned_empty_def s2tte_create_unassigned_ram_def
      s2tte_create_unassigned_ns_def s2tte_create_unassigned_destroyed_def s2tte_bits)+

text \<open>An assigned entry has the kind it was created with, and its address.\<close>

lemma assigned_ram_ok:
  assumes "1 \<le> level" "level \<le> 3" "addr_lvl_aligned lpa2 pa level" "bit r 5" "\<not> bit r 6"
  shows "kinds (assigned_value lpa2 pa level r) level = {Assigned_Ram}"
    "to_pa_value (assigned_value lpa2 pa level r) level lpa2 = pa"
proof -
  note low = pa_low_bits [OF addr_lvl_aligned_granule [OF assms(3)]] and high = pa_high_bits [OF assms(3)]
  note b = bit_assigned_ram [OF assms(4,5)]
  show "kinds (assigned_value lpa2 pa level r) level = {Assigned_Ram}"
    by (rule kinds_valid(1)) (use assms(1) in \<open>simp_all add: b low high valid_attr_bit_def\<close>)
  show "to_pa_value (assigned_value lpa2 pa level r) level lpa2 = pa"
    using assms(3) addr_lvl_aligned_granule [OF assms(3)]
    by (intro to_pa_value_eq)
      (auto simp: b valid_attr_bit_def bit_pa_to_s2tte GRANULE_ALIGNED_bits)
qed

lemma assigned_invalid_ok:
  assumes "addr_lvl_aligned lpa2 pa level" "\<not> bit r 5"
  shows "kinds (assigned_value lpa2 pa level r) level = {if bit r 6 then Assigned_Destroyed else Assigned_Empty}"
    "to_pa_value (assigned_value lpa2 pa level r) level lpa2 = pa"
proof -
  note low = pa_low_bits [OF addr_lvl_aligned_granule [OF assms(1)]] and high = pa_high_bits [OF assms(1)]
  have b: "bit (assigned_value lpa2 pa level r) n \<longleftrightarrow>
     bit (pa_to_s2tte pa lpa2) n \<or> n = 2 \<or> (n = 5 \<or> n = 6) \<and> bit r n" for n lpa2 pa level
    by (rule bit_assigned_invalid) (use assms in simp)
  show "kinds (assigned_value lpa2 pa level r) level = {if bit r 6 then Assigned_Destroyed else Assigned_Empty}"
  proof (cases "bit r 6")
    case True
    then show ?thesis
      using assms(2) kinds_assigned_invalid(2) [of "assigned_value lpa2 pa level r" level] by (simp add: b low high)
  next
    case False
    then show ?thesis
      using assms(2) kinds_assigned_invalid(1) [of "assigned_value lpa2 pa level r" level] by (simp add: b low high)
  qed
  show "to_pa_value (assigned_value lpa2 pa level r) level lpa2 = pa"
    using assms addr_lvl_aligned_granule [OF assms(1)]
    by (intro to_pa_value_eq) (auto simp: b bit_pa_to_s2tte GRANULE_ALIGNED_bits)
qed

lemma kinds_has_pa:
  "kinds w level = {k} \<Longrightarrow> k \<in> {Assigned_Empty, Assigned_Ram, Assigned_Ns, Assigned_Destroyed, Table} \<Longrightarrow>
   s2tte_has_pa w level"
proof -
  assume "kinds w level = {k}" and k: "k \<in> {Assigned_Empty, Assigned_Ram, Assigned_Ns, Assigned_Destroyed, Table}"
  then have "has_kind w level k" by (auto simp: kinds_def)
  then show ?thesis using k
    by (auto simp: has_kind_def s2tte_has_pa_def s2tte_is_assigned_ram_def s2tte_is_assigned_ns_def
        s2tte_check_def s2tte_is_table_def desc_type_iff split: if_splits)
qed

lemma kinds_not_table: "kinds w level = {k} \<Longrightarrow> k \<noteq> Table \<Longrightarrow> \<not> s2tte_is_table w level"
proof
  assume k: "kinds w level = {k}" "k \<noteq> Table" and "s2tte_is_table w level"
  then have "has_kind w level Table" by (simp add: has_kind_def)
  then have "Table \<in> kinds w level" by (simp add: kinds_def)
  with k show False by simp
qed

lemma s2tte_pa_run:
  assumes "min_starting_level ctx \<le> level" "level \<le> 3" "kinds w level = {k}"
    "k \<in> {Assigned_Empty, Assigned_Ram, Assigned_Ns, Assigned_Destroyed}"
  shows "s2tte_pa ctx w level s = Inr (to_pa_value w level (enable_lpa2 ctx), s)"
proof -
  have "s2tte_has_pa w level" "\<not> s2tte_is_table w level"
    using kinds_has_pa [OF assms(3)] kinds_not_table [OF assms(3)] assms(4) by auto
  then show ?thesis
    using assms(1,2) min_starting_level_bounds [of ctx] by (simp add: s2tte_pa_def run_simps)
qed

lemma table_ok:
  assumes "addr_lvl_aligned lpa2 pa 3" "level < 3"
  shows "kinds (pa_to_s2tte pa lpa2 OR S2TTE_TABLE) level = {Table}"
    "to_pa_value (pa_to_s2tte pa lpa2 OR S2TTE_TABLE) 3 lpa2 = pa"
    "entry_is_table (pa_to_s2tte pa lpa2 OR S2TTE_TABLE)"
proof -
  show "kinds (pa_to_s2tte pa lpa2 OR S2TTE_TABLE) level = {Table}"
    by (rule kinds_table) (use assms in \<open>simp_all add: s2tte_bits\<close>)
  show "to_pa_value (pa_to_s2tte pa lpa2 OR S2TTE_TABLE) 3 lpa2 = pa"
    using assms addr_lvl_aligned_granule [OF assms(1)]
    by (intro to_pa_value_eq) (auto simp: s2tte_bits bit_pa_to_s2tte GRANULE_ALIGNED_bits)
  show "entry_is_table (pa_to_s2tte pa lpa2 OR S2TTE_TABLE)"
    by (simp add: entry_is_table_def desc_type_iff s2tte_bits)
qed

section \<open>Entries for non-secure memory\<close>

lemma bit_ns_mask: "bit (lvl_mask level lpa2 OR S2TTE_NS_ATTR_MASK) n \<longleftrightarrow>
    lvl_lsb level \<le> n \<and> n < 48 \<or> lpa2 \<and> (n = 8 \<or> n = 9 \<or> n = 48 \<or> n = 49) \<or>
    2 \<le> n \<and> n < 5 \<or> 6 \<le> n \<and> n < 8"
  by (auto simp: bit_lvl_mask s2tte_bits)

lemma and_not_eq_0: "w AND NOT m = 0 \<longleftrightarrow> (\<forall>n. bit w n \<longrightarrow> bit m n)" for w m :: u64
proof
  assume "w AND NOT m = 0"
  then have *: "\<not> bit (w AND NOT m) n" for n by simp
  show "\<forall>n. bit w n \<longrightarrow> bit m n"
  proof (intro allI impI)
    fix n assume n: "bit w n"
    then have "n < 64" using bit_imp_le_length [OF n] by simp
    then show "bit m n" using * [of n] n by (simp add: bit_and_iff bit_not_iff)
  qed
next
  assume "\<forall>n. bit w n \<longrightarrow> bit m n"
  then show "w AND NOT m = 0" by (auto intro!: bit_word_eqI simp: bit_and_iff bit_not_iff)
qed

lemma host_ns_valid_run:
  assumes "1 \<le> level" "level \<le> 3"
  shows "host_ns_s2tte_is_valid ctx x level s =
    Inr ((\<forall>n. bit x n \<longrightarrow> bit (lvl_mask level (enable_lpa2 ctx) OR S2TTE_NS_ATTR_MASK) n) \<and>
         \<not> (\<not> bit x 2 \<and> \<not> bit x 3 \<and> bit x 4), s)"
  using assms by (simp add: host_ns_s2tte_is_valid_def run_simps and_not_eq_0 memattr_iff Let_def)

lemma bit_assigned_ns:
  "bit (assigned_ns_value lpa2 x level) n \<longleftrightarrow>
     bit x n \<and> 2 \<le> n \<or> n = 0 \<or> n = 1 \<and> level = 3 \<or> n = 10 \<or> n = 54 \<or> n = 55 \<or> \<not> lpa2 \<and> (n = 8 \<or> n = 9)"
  by (auto simp: assigned_ns_value_def Let_def s2tte_bits dest: bit_imp_le_length)

lemma assigned_ns_kind: "1 \<le> level \<Longrightarrow> \<not> bit x 1 \<Longrightarrow> kinds (assigned_ns_value lpa2 x level) level = {Assigned_Ns}"
  by (rule kinds_valid(2)) (simp_all add: bit_assigned_ns)

lemma assigned_ns_host_part:
  assumes "\<forall>n. bit x n \<longrightarrow> bit (lvl_mask level lpa2 OR S2TTE_NS_ATTR_MASK) n"
  shows "assigned_ns_value lpa2 x level AND (lvl_mask level lpa2 OR S2TTE_NS_ATTR_MASK) = x"
proof (rule bit_word_eqI)
  fix n
  show "bit (assigned_ns_value lpa2 x level AND (lvl_mask level lpa2 OR S2TTE_NS_ATTR_MASK)) n = bit x n"
    using assms lvl_lsb_ge [of level] unfolding bit_and_iff bit_ns_mask bit_assigned_ns by auto
qed

lemma get_ripas_run:
  "\<not> bit w 0 \<Longrightarrow> \<not> bit w 1 \<Longrightarrow> \<not> bit w 3 \<Longrightarrow> \<not> bit w 4 \<Longrightarrow> \<not> (bit w 5 \<and> bit w 6) \<Longrightarrow>
   s2tte_get_ripas w s =
     Inr (if bit w 6 then RIPAS_DESTROYED else if bit w 5 then RIPAS_RAM else RIPAS_EMPTY, s)"
proof -
  assume b: "\<not> bit w 0" "\<not> bit w 1" "\<not> bit w 3" "\<not> bit w 4" "\<not> (bit w 5 \<and> bit w 6)"
  have "EXTRACT 2 3 w = (if bit w 2 then 1 else 0) + (if False then 2 else 0)"
  proof (rule two_bits_cases)
    fix n
    have "bit (EXTRACT 2 3 w) n \<longleftrightarrow> n < 3 \<and> bit w (2 + n)" by (simp add: bit_EXTRACT)
    moreover have "n < 3 \<longleftrightarrow> n = 0 \<or> n = 1 \<or> n = 2" by auto
    ultimately show "bit (EXTRACT 2 3 w) n \<longleftrightarrow> n = 0 \<and> bit w 2 \<or> n = 1 \<and> False"
      using b by (auto simp: numeral_2_eq_2 numeral_3_eq_3 eval_nat_numeral)
  qed
  then have h: "EXTRACT 2 3 w \<le> RMI_ASSIGNED" by (simp add: RMI_ASSIGNED_def)
  have "drop_bit 5 (w AND S2TTE_INVALID_RIPAS_MASK) = EXTRACT 5 2 w"
    by (simp add: EXTRACT_def S2TTE_INVALID_RIPAS_MASK_def)
  then have r: "drop_bit 5 (w AND S2TTE_INVALID_RIPAS_MASK) =
      (if bit w 5 then 1 else 0) + (if bit w 6 then 2 else 0)"
    using extract_ripas by simp
  show ?thesis
    unfolding s2tte_get_ripas_def r using b h
    by (simp add: desc_type_iff run_simps RMI_DESTROYED_def RMI_EMPTY_def RMI_RAM_def)
qed

lemma get_ripas_valid_run:
  "bit w 0 \<Longrightarrow> s2tte_get_ripas w s = Inr (RIPAS_RAM, s)"
  by (auto simp: s2tte_get_ripas_def desc_type_iff run_simps)

section \<open>Properties\<close>





text \<open>
  C26. What the host may put in a mapping of non-secure memory. An entry that passes validation
  becomes an assigned NS entry; the part the host controls is read back unchanged; the bits
  that the RMM sets (access flag, NS, execute never) are set whatever the host asked for; and
  the host can influence no bit of the entry besides the address field, the memory attributes
  and the access permissions.
\<close>

theorem host_ns_entry_confined:
  assumes "1 \<le> level" and "level \<le> 3" and "host_ns_s2tte_is_valid ctx x level s = Inr (True, s)"
  shows "\<exists>w. s2tte_create_assigned_ns ctx x level s = Inr (w, s) \<and> kinds w level = {Assigned_Ns} \<and>
    host_ns_s2tte ctx w level s = Inr (x, s) \<and> bit w 55 \<and> bit w 54 \<and> bit w 10 \<and>
    (\<forall>n. bit w n \<noteq> bit (assigned_ns_value (enable_lpa2 ctx) 0 level) n \<longrightarrow>
       lvl_lsb level \<le> n \<and> n < 50 \<or> 2 \<le> n \<and> n < 5 \<or> 6 \<le> n \<and> n < 8 \<or> (n = 8 \<or> n = 9) \<and> enable_lpa2 ctx)"
proof -
  let ?l = "enable_lpa2 ctx" and ?w = "assigned_ns_value (enable_lpa2 ctx) x level"
  have h: "\<forall>n. bit x n \<longrightarrow> bit (lvl_mask level ?l OR S2TTE_NS_ATTR_MASK) n"
    using assms(3) unfolding host_ns_valid_run [OF assms(1,2)] by simp
  have "\<not> bit x 1" using h [rule_format, of 1] lvl_lsb_ge [of level] unfolding bit_ns_mask by auto
  then have k: "kinds ?w level = {Assigned_Ns}" by (rule assigned_ns_kind [OF assms(1)])
  have "s2tte_create_assigned_ns ctx x level s = Inr (?w, s)"
    using assms by (simp add: s2tte_create_assigned_ns_def run_simps)
  moreover have "host_ns_s2tte ctx ?w level s = Inr (x, s)"
    using assms assigned_ns_host_part [OF h] by (simp add: host_ns_s2tte_def run_simps Let_def)
  moreover have "lvl_lsb level \<le> n \<and> n < 50 \<or> 2 \<le> n \<and> n < 5 \<or> 6 \<le> n \<and> n < 8 \<or> (n = 8 \<or> n = 9) \<and> ?l"
    if "bit ?w n \<noteq> bit (assigned_ns_value ?l 0 level) n" for n
  proof -
    have "lvl_lsb level \<le> 30" using assms(1,2) by (simp add: lvl_lsb_def)
    moreover have "bit x n" using that unfolding bit_assigned_ns by auto
    ultimately show ?thesis using h [rule_format, of n] unfolding bit_ns_mask by auto
  qed
  ultimately show ?thesis using k by (intro exI [of _ ?w]) (simp add: bit_assigned_ns)
qed

theorem host_ns_entry_confined_witness:
  "\<exists>w. s2tte_create_assigned_ns \<lparr>ipa_bits = 48, s2_starting_level = 0, num_root_rtts = 1,
      g_rtt = None, vmid = 1, enable_lpa2 = False\<rparr> 0x880200DC 3 () = Inr (w, ()) \<and>
    kinds w 3 = {Assigned_Ns}"
proof -
  have "host_ns_s2tte_is_valid \<lparr>ipa_bits = 48, s2_starting_level = 0, num_root_rtts = 1,
      g_rtt = None, vmid = 1, enable_lpa2 = False\<rparr> 0x880200DC 3 () = Inr (True, ())"
    by (simp add: host_ns_s2tte_is_valid_def run_simps lvl_mask_def BIT_MASK_ULL_def mask_eq_decr_exp
        S2TTE_NS_ATTR_MASK_def S2TTE_MEMATTR_MASK_def S2TTE_AP_MASK_def S2TTE_MEMATTR_FWB_RESERVED_def)
  from host_ns_entry_confined [OF _ _ this] show ?thesis by auto
qed

end
