(* ===== verification/S2tt_Table.thy ===== *)
theory S2tt_Table
  imports S2tte
begin

text \<open>
  The functions of \<^verbatim>\<open>lib/s2tt/src/s2tt.c\<close> that work on a whole table of 512 entries: filling a
  table, deciding whether a table is uniform or maps a contiguous block (so that it can be folded into
  one entry of the parent), and skipping the entries that are not live.
\<close>

section \<open>Filling a table\<close>

definition fill_table :: "u64 \<Rightarrow> u64 list \<Rightarrow> u64 list" where
  "fill_table s2tte s2tt = fold (\<lambda>i t. t[i := s2tte]) [0..<S2TTES_PER_S2TT] s2tt"

definition s2tt_init_unassigned_empty :: "u64 list \<Rightarrow> u64 list" where
  "s2tt_init_unassigned_empty s2tt = fill_table s2tte_create_unassigned_empty s2tt"

definition s2tt_init_unassigned_ram :: "u64 list \<Rightarrow> u64 list" where
  "s2tt_init_unassigned_ram s2tt = fill_table s2tte_create_unassigned_ram s2tt"

definition s2tt_init_unassigned_ns :: "u64 list \<Rightarrow> u64 list" where
  "s2tt_init_unassigned_ns s2tt = fill_table s2tte_create_unassigned_ns s2tt"

definition s2tt_init_unassigned_destroyed :: "u64 list \<Rightarrow> u64 list" where
  "s2tt_init_unassigned_destroyed s2tt = fill_table s2tte_create_unassigned_destroyed s2tt"

text \<open>The loop that fills a table with consecutive addresses.\<close>

fun init_loop :: "(u64 \<Rightarrow> ('s, u64) M) \<Rightarrow> u64 \<Rightarrow> nat list \<Rightarrow> u64 \<Rightarrow> u64 list \<Rightarrow> ('s, u64 list) M" where
  "init_loop create map_size [] pa s2tt = returnM s2tt"
| "init_loop create map_size (i # is) pa s2tt =
    bindM (create pa) (\<lambda>s2tte. init_loop create map_size is (pa + map_size) (s2tt[i := s2tte]))"

definition init_assigned ::
  "(u64 \<Rightarrow> ('s, u64) M) \<Rightarrow> s2tt_context \<Rightarrow> u64 list \<Rightarrow> u64 \<Rightarrow> int \<Rightarrow> ('s, u64 list) M" where
  "init_assigned create s2_ctx s2tt pa level =
    thenM (assertM (level \<ge> S2TT_MIN_BLOCK_LEVEL))
    (thenM (assertM (level \<le> S2TT_PAGE_LEVEL))
    (bindM (s2tte_is_addr_lvl_aligned s2_ctx pa level) (\<lambda>aligned.
     thenM (assertM aligned)
     (init_loop create (s2tte_map_size level) [0..<S2TTES_PER_S2TT] pa s2tt))))"

definition s2tt_init_assigned_destroyed :: "s2tt_context \<Rightarrow> u64 list \<Rightarrow> u64 \<Rightarrow> int \<Rightarrow> ('s, u64 list) M" where
  "s2tt_init_assigned_destroyed s2_ctx s2tt pa level =
    init_assigned (\<lambda>pa. s2tte_create_assigned_destroyed s2_ctx pa level) s2_ctx s2tt pa level"

definition s2tt_init_assigned_empty :: "s2tt_context \<Rightarrow> u64 list \<Rightarrow> u64 \<Rightarrow> int \<Rightarrow> ('s, u64 list) M" where
  "s2tt_init_assigned_empty s2_ctx s2tt pa level =
    init_assigned (\<lambda>pa. s2tte_create_assigned_empty s2_ctx pa level) s2_ctx s2tt pa level"

definition s2tt_init_assigned_ram :: "s2tt_context \<Rightarrow> u64 list \<Rightarrow> u64 \<Rightarrow> int \<Rightarrow> ('s, u64 list) M" where
  "s2tt_init_assigned_ram s2_ctx s2tt pa level =
    init_assigned (\<lambda>pa. s2tte_create_assigned_ram s2_ctx pa level) s2_ctx s2tt pa level"

definition s2tt_init_assigned_ns :: "s2tt_context \<Rightarrow> u64 list \<Rightarrow> u64 \<Rightarrow> u64 \<Rightarrow> int \<Rightarrow> ('s, u64 list) M" where
  "s2tt_init_assigned_ns s2_ctx s2tt attrs pa level =
    (let attrs = attrs AND S2TTE_NS_ATTR_MASK
     in init_assigned (\<lambda>pa. s2tte_create_assigned_ns s2_ctx (attrs OR pa_to_s2tte pa (enable_lpa2 s2_ctx)) level)
          s2_ctx s2tt pa level)"

section \<open>Uniform tables\<close>

definition table_is_uniform_block :: "u64 list \<Rightarrow> (u64 \<Rightarrow> bool) \<Rightarrow> bool" where
  "table_is_uniform_block table s2tte_is_x = list_all (\<lambda>i. s2tte_is_x (table ! i)) [0..<S2TTES_PER_S2TT]"

definition s2tt_is_unassigned_empty_block :: "u64 list \<Rightarrow> bool" where
  "s2tt_is_unassigned_empty_block table = table_is_uniform_block table s2tte_is_unassigned_empty"

definition s2tt_is_unassigned_ram_block :: "u64 list \<Rightarrow> bool" where
  "s2tt_is_unassigned_ram_block table = table_is_uniform_block table s2tte_is_unassigned_ram"

definition s2tt_is_unassigned_ns_block :: "u64 list \<Rightarrow> bool" where
  "s2tt_is_unassigned_ns_block table = table_is_uniform_block table s2tte_is_unassigned_ns"

definition s2tt_is_unassigned_destroyed_block :: "u64 list \<Rightarrow> bool" where
  "s2tt_is_unassigned_destroyed_block table = table_is_uniform_block table s2tte_is_unassigned_destroyed"

section \<open>Tables that map a contiguous block\<close>

fun maps_loop ::
  "s2tt_context \<Rightarrow> u64 list \<Rightarrow> int \<Rightarrow> (u64 \<Rightarrow> int \<Rightarrow> bool) \<Rightarrow> bool \<Rightarrow> u64 \<Rightarrow> u64 \<Rightarrow> nat list \<Rightarrow> ('s, bool) M" where
  "maps_loop s2_ctx table level s2tte_is_x check_ns_attrs base_pa s2tt_ns_attrs [] = returnM True"
| "maps_loop s2_ctx table level s2tte_is_x check_ns_attrs base_pa s2tt_ns_attrs (i # is) =
    (let expected_pa = base_pa + of_nat i * s2tte_map_size level; s2tte = table ! i
     in if \<not> s2tte_is_x s2tte level then returnM False
        else bindM (s2tte_pa s2_ctx s2tte level) (\<lambda>pa.
          if pa \<noteq> expected_pa then returnM False
          else if check_ns_attrs \<and> s2tt_ns_attrs \<noteq> s2tte AND S2TTE_NS_ATTR_MASK then returnM False
          else maps_loop s2_ctx table level s2tte_is_x check_ns_attrs base_pa s2tt_ns_attrs is))"

definition table_maps_block ::
  "s2tt_context \<Rightarrow> u64 list \<Rightarrow> int \<Rightarrow> (u64 \<Rightarrow> int \<Rightarrow> bool) \<Rightarrow> bool \<Rightarrow> ('s, bool) M" where
  "table_maps_block s2_ctx table level s2tte_is_x check_ns_attrs =
    (let s2tte = table ! 0
     in thenM (assertM (level \<ge> min_starting_level s2_ctx))
        (thenM (assertM (level \<le> S2TT_PAGE_LEVEL))
         (if \<not> s2tte_is_x s2tte level then returnM False
          else bindM (s2tte_pa s2_ctx s2tte level) (\<lambda>base_pa.
            bindM (s2tte_is_addr_lvl_aligned s2_ctx base_pa (level - 1)) (\<lambda>aligned.
            if \<not> aligned then returnM False
            else maps_loop s2_ctx table level s2tte_is_x check_ns_attrs base_pa
                   (s2tte AND S2TTE_NS_ATTR_MASK) [1..<S2TTES_PER_S2TT])))))"

definition s2tt_maps_assigned_empty_block :: "s2tt_context \<Rightarrow> u64 list \<Rightarrow> int \<Rightarrow> ('s, bool) M" where
  "s2tt_maps_assigned_empty_block s2_ctx table level =
    table_maps_block s2_ctx table level s2tte_is_assigned_empty False"

definition s2tt_maps_assigned_ram_block :: "s2tt_context \<Rightarrow> u64 list \<Rightarrow> int \<Rightarrow> ('s, bool) M" where
  "s2tt_maps_assigned_ram_block s2_ctx table level =
    table_maps_block s2_ctx table level s2tte_is_assigned_ram False"

definition s2tt_maps_assigned_ns_block :: "s2tt_context \<Rightarrow> u64 list \<Rightarrow> int \<Rightarrow> ('s, bool) M" where
  "s2tt_maps_assigned_ns_block s2_ctx table level =
    table_maps_block s2_ctx table level s2tte_is_assigned_ns True"

definition s2tt_maps_assigned_destroyed_block :: "s2tt_context \<Rightarrow> u64 list \<Rightarrow> int \<Rightarrow> ('s, bool) M" where
  "s2tt_maps_assigned_destroyed_block s2_ctx table level =
    table_maps_block s2_ctx table level s2tte_is_assigned_destroyed False"

section \<open>Skipping entries that are not live\<close>

record s2tt_walk =
  g_llt :: "nat option"
  wi_index :: u64
  last_level :: int

definition s2tt_skip_non_live_entries :: "s2tt_context \<Rightarrow> u64 \<Rightarrow> u64 list \<Rightarrow> s2tt_walk \<Rightarrow> ('s, u64) M" where
  "s2tt_skip_non_live_entries s2_ctx addr table wi =
    (let index = wi_index wi; level = last_level wi
     in thenM (assertM (index \<le> of_nat S2TTES_PER_S2TT))
        (thenM (assertM (level \<le> S2TT_PAGE_LEVEL))
        (thenM (assertM (level \<ge> min_starting_level s2_ctx))
         (if s2tte_is_live (table ! unat index) level then returnM addr
          else (let map_size = s2tte_map_size level;
                    addr = addr AND NOT (map_size - 1);
                    i = (case find (\<lambda>i. s2tte_is_live (table ! i) level) [unat index + 1..<S2TTES_PER_S2TT] of
                           Some i \<Rightarrow> i | None \<Rightarrow> max (unat index + 1) S2TTES_PER_S2TT)
                in returnM (addr + (of_nat i - index) * map_size))))))"

section \<open>Filling\<close>

lemma fold_fill:
  "n \<le> length t \<Longrightarrow> fold (\<lambda>i t. t[i := v]) [0..<n] t = replicate n v @ drop n t"
proof (induction n)
  case 0
  then show ?case by simp
next
  case (Suc n)
  then have "drop n t = t ! n # drop (Suc n) t" by (simp add: Cons_nth_drop_Suc)
  then have "fold (\<lambda>i t. t[i := v]) [0..<Suc n] t = (replicate n v @ t ! n # drop (Suc n) t)[n := v]"
    using Suc by simp
  also have "\<dots> = replicate n v @ v # drop (Suc n) t" by (simp add: list_update_append)
  finally show ?case by (simp add: replicate_app_Cons_same)
qed

lemma fill_table_eq: "length t = 512 \<Longrightarrow> fill_table v t = replicate 512 v"
  by (simp add: fill_table_def fold_fill)


section \<open>Consecutive addresses\<close>

definition nth_pa :: "u64 \<Rightarrow> int \<Rightarrow> nat \<Rightarrow> u64" where
  "nth_pa pa level i = pa + of_nat i * s2tte_map_size level"

lemma nth_pa_Suc: "nth_pa pa level i + s2tte_map_size level = nth_pa pa level (Suc i)"
  by (simp add: nth_pa_def algebra_simps)

lemma nth_pa_0 [simp]: "nth_pa pa level 0 = pa"
  by (simp add: nth_pa_def)

lemma mult_map_size: "of_nat i * s2tte_map_size level = push_bit (lvl_lsb level) (of_nat i)"
  by (simp add: s2tte_map_size_def push_bit_eq_mult)

lemma bit_nth_pa:
  assumes "level \<le> 3" "addr_lvl_aligned lpa2 pa (level - 1)" "i < 512"
  shows "bit (nth_pa pa level i) n \<longleftrightarrow>
    bit pa n \<or> n < 64 \<and> lvl_lsb level \<le> n \<and> n < lvl_lsb level + 9 \<and> bit i (n - lvl_lsb level)"
proof -
  have lo: "bit pa n \<Longrightarrow> lvl_lsb level + 9 \<le> n" for n
    using assms(2) lvl_lsb_pred [OF assms(1)] by (auto simp: addr_lvl_aligned_iff)
  have i: "bit i n \<Longrightarrow> n < 9" for n
  proof -
    assume n: "bit i n"
    have "take_bit 9 i = i" using assms(3) by (simp add: take_bit_nat_eq_self_iff)
    then show "n < 9" using n by (metis bit_take_bit_iff)
  qed
  have p: "bit (push_bit (lvl_lsb level) (of_nat i) :: u64) n \<longleftrightarrow>
      n < 64 \<and> lvl_lsb level \<le> n \<and> n < lvl_lsb level + 9 \<and> bit i (n - lvl_lsb level)" for n
    using i [of "n - lvl_lsb level"] by (auto simp: bit_push_bit_iff bit_of_nat_iff)
  have "nth_pa pa level i = pa OR push_bit (lvl_lsb level) (of_nat i)"
    unfolding nth_pa_def mult_map_size
    by (rule disjunctive_add_eq_or) (auto intro!: bit_word_eqI simp: bit_and_iff p dest!: lo)
  then show ?thesis by (simp add: bit_or_iff p)
qed

lemma nth_pa_aligned:
  assumes "1 \<le> level" "level \<le> 3" "addr_lvl_aligned lpa2 pa (level - 1)" "i < 512"
  shows "addr_lvl_aligned lpa2 (nth_pa pa level i) level"
proof -
  have "lvl_lsb level \<le> 30" using assms(1,2) by (simp add: lvl_lsb_def)
  then show ?thesis
    using assms(3) lvl_lsb_pred [OF assms(2)]
    by (auto simp: addr_lvl_aligned_iff bit_nth_pa [OF assms(2-4)] oa_bits_def split: if_splits)
qed

lemma init_loop_run:
  assumes "\<And>j. j < n \<Longrightarrow> create (nth_pa pa level (k + j)) s = Inr (f (nth_pa pa level (k + j)), s)"
  shows "init_loop create (s2tte_map_size level) [k..<k + n] (nth_pa pa level k) t s =
    Inr (fold (\<lambda>i t. t[i := f (nth_pa pa level i)]) [k..<k + n] t, s)"
  using assms
proof (induction n arbitrary: k t)
  case 0
  then show ?case by (simp add: run_simps)
next
  case (Suc n)
  have c: "create (nth_pa pa level k) s = Inr (f (nth_pa pa level k), s)" using Suc.prems [of 0] by simp
  have "init_loop create (s2tte_map_size level) [Suc k..<Suc k + n] (nth_pa pa level (Suc k))
      (t[k := f (nth_pa pa level k)]) s =
    Inr (fold (\<lambda>i t. t[i := f (nth_pa pa level i)]) [Suc k..<Suc k + n] (t[k := f (nth_pa pa level k)]), s)"
    by (rule Suc.IH) (use Suc.prems [of "Suc _"] in simp)
  moreover have "[k..<k + Suc n] = k # [Suc k..<Suc k + n]" by (simp add: upt_conv_Cons del: upt_Suc)
  ultimately show ?case by (simp add: run_simps c nth_pa_Suc del: upt_Suc)
qed

lemma fold_update_nth:
  "length t = n \<Longrightarrow> fold (\<lambda>i t. t[i := f i]) [0..<n] t = map f [0..<n]"
proof -
  have "m \<le> length t \<Longrightarrow> fold (\<lambda>i t. t[i := f i]) [0..<m] t = map f [0..<m] @ drop m t" for m
  proof (induction m)
    case (Suc m)
    then have "drop m t = t ! m # drop (Suc m) t" by (simp add: Cons_nth_drop_Suc)
    with Suc show ?case by (simp add: list_update_append)
  qed simp
  then show "length t = n \<Longrightarrow> fold (\<lambda>i t. t[i := f i]) [0..<n] t = map f [0..<n]" by force
qed

text \<open>Filling a table with 512 consecutive blocks.\<close>

lemma init_assigned_run:
  assumes lv: "1 \<le> level" "level \<le> 3" and al: "addr_lvl_aligned (enable_lpa2 ctx) pa (level - 1)"
    and len: "length t = 512"
    and c: "\<And>x. addr_lvl_aligned (enable_lpa2 ctx) x level \<Longrightarrow> create x s = Inr (f x, s)"
  shows "init_assigned create ctx t pa level s =
    Inr (map (\<lambda>i. f (nth_pa pa level i)) [0..<512], s)"
proof -
  have "addr_lvl_aligned (enable_lpa2 ctx) pa level"
    using nth_pa_aligned [OF lv al, of 0] by simp
  moreover have "init_loop create (s2tte_map_size level) [0..<512] pa t s =
      Inr (fold (\<lambda>i t. t[i := f (nth_pa pa level i)]) [0..<512] t, s)"
    using init_loop_run [of 512 create pa level 0 s f t] c nth_pa_aligned [OF lv al] by simp
  ultimately show ?thesis
    using lv min_starting_level_bounds(2) [of ctx] fold_update_nth [OF len, of "\<lambda>i. f (nth_pa pa level i)"]
    by (simp add: init_assigned_def s2tte_is_addr_lvl_aligned_def run_simps)
qed

section \<open>Deciding whether a table can be folded\<close>

text \<open>The checkers that \<open>table_maps_block\<close> is called with.\<close>

definition block_checker :: "(u64 \<Rightarrow> int \<Rightarrow> bool) \<Rightarrow> bool" where
  "block_checker f \<longleftrightarrow> f \<in> {s2tte_is_assigned_empty, s2tte_is_assigned_ram, s2tte_is_assigned_ns,
                              s2tte_is_assigned_destroyed}"

lemma block_checker_pa:
  assumes "block_checker f" "f w level"
  shows "s2tte_has_pa w level" "\<not> s2tte_is_table w level"
  using assms
  by (auto simp: block_checker_def s2tte_has_pa_def s2tte_is_table_def s2tte_is_assigned_ram_def
      s2tte_is_assigned_ns_def s2tte_is_assigned_empty_def s2tte_is_assigned_destroyed_def s2tte_check_def
      s2tte_has_assigned_ripas_def s2tte_has_hipas_def desc_type_iff split: if_splits)

lemma checker_pa_run:
  assumes "block_checker f" "f w level" "min_starting_level ctx \<le> level" "level \<le> 3"
  shows "s2tte_pa ctx w level s = Inr (to_pa_value w level (enable_lpa2 ctx), s)"
  using assms(3,4) block_checker_pa [OF assms(1,2)] min_starting_level_bounds [of ctx]
  by (simp add: s2tte_pa_def run_simps)

definition maps_entry :: "s2tt_context \<Rightarrow> u64 list \<Rightarrow> int \<Rightarrow> (u64 \<Rightarrow> int \<Rightarrow> bool) \<Rightarrow> bool \<Rightarrow> u64 \<Rightarrow> u64 \<Rightarrow> nat \<Rightarrow> bool" where
  "maps_entry ctx table level f ns base attrs i \<longleftrightarrow>
     f (table ! i) level \<and> to_pa_value (table ! i) level (enable_lpa2 ctx) = nth_pa base level i \<and>
     (ns \<longrightarrow> attrs = table ! i AND S2TTE_NS_ATTR_MASK)"

lemma maps_loop_run:
  assumes "block_checker f" "min_starting_level ctx \<le> level" "level \<le> 3"
  shows "maps_loop ctx table level f ns base attrs is s =
    Inr (\<forall>i\<in>set is. maps_entry ctx table level f ns base attrs i, s)"
proof (induction "is")
  case Nil
  then show ?case by (simp add: run_simps)
next
  case (Cons i "is")
  have "maps_loop ctx table level f ns base attrs (i # is) s =
    (if maps_entry ctx table level f ns base attrs i then maps_loop ctx table level f ns base attrs is s
     else Inr (False, s))"
  proof (cases "f (table ! i) level")
    case True
    note c = checker_pa_run [OF assms(1) True assms(2,3)]
    show ?thesis using True by (auto simp: run_simps Let_def maps_entry_def nth_pa_def c)
  qed (simp add: run_simps maps_entry_def)
  then show ?case using Cons.IH by simp
qed

lemma table_maps_block_run:
  assumes f: "block_checker f" and lv: "min_starting_level ctx < level" "level \<le> 3"
  shows "table_maps_block ctx table level f ns s =
    Inr (f (table ! 0) level \<and>
         addr_lvl_aligned (enable_lpa2 ctx) (to_pa_value (table ! 0) level (enable_lpa2 ctx)) (level - 1) \<and>
         (\<forall>i<512. maps_entry ctx table level f ns (to_pa_value (table ! 0) level (enable_lpa2 ctx))
                    (table ! 0 AND S2TTE_NS_ATTR_MASK) i), s)"
proof -
  let ?b = "to_pa_value (table ! 0) level (enable_lpa2 ctx)" and ?a = "table ! 0 AND S2TTE_NS_ATTR_MASK"
  have l: "min_starting_level ctx \<le> level" "min_starting_level ctx \<le> level - 1" using lv by simp_all
  define js :: "nat list" where "js = [1..<512]"
  have s: "(\<forall>i<512. maps_entry ctx table level f ns ?b ?a i) \<longleftrightarrow>
      maps_entry ctx table level f ns ?b ?a 0 \<and> (\<forall>i\<in>set js. maps_entry ctx table level f ns ?b ?a i)"
    by (auto simp: js_def Suc_le_eq)
  have z: "f (table ! 0) level \<Longrightarrow> maps_entry ctx table level f ns ?b ?a 0" by (simp add: maps_entry_def)
  show ?thesis
  proof (cases "f (table ! 0) level")
    case True
    note c = checker_pa_run [OF f True l(1) lv(2)] maps_loop_run [OF f l(1) lv(2)]
    show ?thesis
      unfolding s table_maps_block_def js_def [symmetric]
      using l lv True z by (simp add: run_simps s2tte_is_addr_lvl_aligned_def Let_def c)
  qed (use l lv in \<open>simp add: table_maps_block_def run_simps\<close>)
qed

section \<open>Properties\<close>

lemma nth_init: "i < 512 \<Longrightarrow> map g [0..<512] ! i = g i"
  by simp

lemma unfolded_maps_block:
  assumes f: "block_checker f" and lv: "2 \<le> level" "level \<le> 3"
    and al: "addr_lvl_aligned (enable_lpa2 ctx) pa (level - 1)"
    and c: "\<And>x. addr_lvl_aligned (enable_lpa2 ctx) x level \<Longrightarrow>
              f (g x) level \<and> to_pa_value (g x) level (enable_lpa2 ctx) = x \<and> (ns \<longrightarrow> g x AND S2TTE_NS_ATTR_MASK = at)"
  shows "table_maps_block ctx (map (\<lambda>i. g (nth_pa pa level i)) [0..<512]) level f ns s = Inr (True, s)"
proof -
  have l: "min_starting_level ctx < level" "1 \<le> level" using lv min_starting_level_bounds(2) [of ctx] by simp_all
  note al' = nth_pa_aligned [OF l(2) lv(2) al]
  have e: "f (g (nth_pa pa level i)) level"
    "to_pa_value (g (nth_pa pa level i)) level (enable_lpa2 ctx) = nth_pa pa level i"
    "ns \<longrightarrow> g (nth_pa pa level i) AND S2TTE_NS_ATTR_MASK = at" if "i < 512" for i
    using c [OF al' [OF that]] by auto
  have z: "map (\<lambda>i. g (nth_pa pa level i)) [0..<512] ! 0 = g pa" by (simp add: nth_init)
  have e0: "f (g pa) level" "to_pa_value (g pa) level (enable_lpa2 ctx) = pa"
    "ns \<longrightarrow> g pa AND S2TTE_NS_ATTR_MASK = at"
    using e [of 0] by simp_all
  have "maps_entry ctx (map (\<lambda>i. g (nth_pa pa level i)) [0..<512]) level f ns pa (g pa AND S2TTE_NS_ATTR_MASK) i"
    if "i < 512" for i
    using e [OF that] e0(3) nth_init [OF that, of "\<lambda>i. g (nth_pa pa level i)"] by (simp add: maps_entry_def)
  then show ?thesis
    unfolding table_maps_block_run [OF f l(1) lv(2)] z e0(2) using e0(1) al by simp
qed

lemma assigned_ram_checker:
  assumes "1 \<le> level" "level \<le> 3" "addr_lvl_aligned lpa2 x level"
  shows "s2tte_is_assigned_ram (assigned_value lpa2 x level S2TTE_INVALID_RIPAS_RAM) level"
    "to_pa_value (assigned_value lpa2 x level S2TTE_INVALID_RIPAS_RAM) level lpa2 = x"
proof -
  have "Assigned_Ram \<in> kinds (assigned_value lpa2 x level S2TTE_INVALID_RIPAS_RAM) level"
    using assigned_ram_ok(1) [OF assms, of S2TTE_INVALID_RIPAS_RAM] by (simp add: bit_s2tte_invalid)
  then show "s2tte_is_assigned_ram (assigned_value lpa2 x level S2TTE_INVALID_RIPAS_RAM) level"
    by (simp add: kinds_def has_kind_def)
  show "to_pa_value (assigned_value lpa2 x level S2TTE_INVALID_RIPAS_RAM) level lpa2 = x"
    using assigned_ram_ok(2) [OF assms, of S2TTE_INVALID_RIPAS_RAM] by (simp add: bit_s2tte_invalid)
qed

text \<open>
  C27. Unfolding a block and folding it again are inverse. Filling a table with the pages of a block
  gives a table that the folding check accepts, for RAM, empty and destroyed memory, and the address of
  its first entry is the address of the block, with and without LPA2.
\<close>

theorem unfold_then_fold:
  assumes "2 \<le> level" and "level \<le> 3" and "addr_lvl_aligned (enable_lpa2 ctx) pa (level - 1)" and "length t = 512"
  shows "bindM (s2tt_init_assigned_ram ctx t pa level) (\<lambda>t'. s2tt_maps_assigned_ram_block ctx t' level) s =
      Inr (True, s) \<and>
    bindM (s2tt_init_assigned_empty ctx t pa level) (\<lambda>t'. s2tt_maps_assigned_empty_block ctx t' level) s =
      Inr (True, s) \<and>
    bindM (s2tt_init_assigned_destroyed ctx t pa level) (\<lambda>t'. s2tt_maps_assigned_destroyed_block ctx t' level) s =
      Inr (True, s) \<and>
    bindM (s2tt_init_assigned_ram ctx t pa level) (\<lambda>t'. s2tte_pa ctx (t' ! 0) level) s = Inr (pa, s)"
proof -
  let ?l = "enable_lpa2 ctx"
  let ?g = "\<lambda>r x. assigned_value ?l x level r"
  have lv: "1 \<le> level" using assms(1) by simp
  note al = nth_pa_aligned [OF lv assms(2,3)]
  have ini: "s2tt_init_assigned_ram ctx t pa level s =
      Inr (map (\<lambda>i. ?g S2TTE_INVALID_RIPAS_RAM (nth_pa pa level i)) [0..<512], s)"
    "s2tt_init_assigned_empty ctx t pa level s =
      Inr (map (\<lambda>i. ?g S2TTE_INVALID_RIPAS_EMPTY (nth_pa pa level i)) [0..<512], s)"
    "s2tt_init_assigned_destroyed ctx t pa level s =
      Inr (map (\<lambda>i. ?g S2TTE_INVALID_RIPAS_DESTROYED (nth_pa pa level i)) [0..<512], s)"
    unfolding s2tt_init_assigned_ram_def s2tt_init_assigned_empty_def s2tt_init_assigned_destroyed_def
    by (rule init_assigned_run [OF lv assms(2-4)]; simp add: create_assigned_runs lv assms(2))+
  have kind: "kinds w level = {k} \<Longrightarrow> has_kind w level k" for w k by (auto simp: kinds_def)
  have ram: "s2tte_is_assigned_ram (?g S2TTE_INVALID_RIPAS_RAM x) level \<and>
      to_pa_value (?g S2TTE_INVALID_RIPAS_RAM x) level ?l = x" if "addr_lvl_aligned ?l x level" for x
    using assigned_ram_checker [OF lv assms(2) that] by simp
  have emp: "s2tte_is_assigned_empty (?g S2TTE_INVALID_RIPAS_EMPTY x) level \<and>
      to_pa_value (?g S2TTE_INVALID_RIPAS_EMPTY x) level ?l = x" if "addr_lvl_aligned ?l x level" for x
    using kind [OF assigned_invalid_ok(1) [OF that, of S2TTE_INVALID_RIPAS_EMPTY]]
      assigned_invalid_ok(2) [OF that, of S2TTE_INVALID_RIPAS_EMPTY]
    by (simp add: has_kind_def bit_s2tte_invalid)
  have des: "s2tte_is_assigned_destroyed (?g S2TTE_INVALID_RIPAS_DESTROYED x) level \<and>
      to_pa_value (?g S2TTE_INVALID_RIPAS_DESTROYED x) level ?l = x" if "addr_lvl_aligned ?l x level" for x
    using kind [OF assigned_invalid_ok(1) [OF that, of S2TTE_INVALID_RIPAS_DESTROYED]]
      assigned_invalid_ok(2) [OF that, of S2TTE_INVALID_RIPAS_DESTROYED]
    by (simp add: has_kind_def bit_s2tte_invalid)
  have m: "s2tt_maps_assigned_ram_block ctx (map (\<lambda>i. ?g S2TTE_INVALID_RIPAS_RAM (nth_pa pa level i)) [0..<512]) level s = Inr (True, s)"
    "s2tt_maps_assigned_empty_block ctx (map (\<lambda>i. ?g S2TTE_INVALID_RIPAS_EMPTY (nth_pa pa level i)) [0..<512]) level s = Inr (True, s)"
    "s2tt_maps_assigned_destroyed_block ctx (map (\<lambda>i. ?g S2TTE_INVALID_RIPAS_DESTROYED (nth_pa pa level i)) [0..<512]) level s = Inr (True, s)"
    unfolding s2tt_maps_assigned_ram_block_def s2tt_maps_assigned_empty_block_def s2tt_maps_assigned_destroyed_block_def
    using ram emp des by (intro unfolded_maps_block assms; simp add: block_checker_def)+
  have "s2tte_pa ctx (?g S2TTE_INVALID_RIPAS_RAM pa) level s = Inr (pa, s)"
    using checker_pa_run [of s2tte_is_assigned_ram "?g S2TTE_INVALID_RIPAS_RAM pa" level ctx s] ram [of pa] al [of 0]
      min_starting_level_bounds(2) [of ctx] lv assms(2) by (simp add: block_checker_def)
  then have p: "s2tte_pa ctx (map (\<lambda>i. ?g S2TTE_INVALID_RIPAS_RAM (nth_pa pa level i)) [0..<512] ! 0) level s = Inr (pa, s)"
    by (subst nth_init) simp_all
  show ?thesis unfolding run_bindM ini by (simp only: sum.case fst_conv snd_conv m p simp_thms)
qed

definition demo_ctx :: s2tt_context where
  "demo_ctx = \<lparr>ipa_bits = 40, s2_starting_level = 1, num_root_rtts = 2, g_rtt = Some 3, vmid = 1,
     enable_lpa2 = False\<rparr>"

lemma demo_aligned: "addr_lvl_aligned (enable_lpa2 demo_ctx) 0x80200000 2"
  by (simp add: demo_ctx_def addr_lvl_aligned_def BIT_MASK_ULL_def mask_eq_decr_exp)

theorem unfold_then_fold_witness:
  "bindM (s2tt_init_assigned_ram demo_ctx (replicate 512 0) 0x80200000 3)
     (\<lambda>t'. s2tt_maps_assigned_ram_block demo_ctx t' 3) () = Inr (True, ())"
  using unfold_then_fold [of 3 demo_ctx "0x80200000" "replicate 512 0" "()"] demo_aligned by simp

text \<open>
  C28. Folding keeps the translation. When the check of \<^verbatim>\<open>s2tt_maps_assigned_ram_block\<close> accepts a
  table at a level, every entry of the table is an assigned RAM entry, and entry $i$ maps the
  $i$-th part of the block that the folded entry maps: the address of the first entry, at which the folded
  entry is created, is aligned to the level of the parent.
\<close>

theorem fold_keeps_translation:
  assumes "2 \<le> level" and "level \<le> 3" and "i < 512"
    and "s2tt_maps_assigned_ram_block ctx t level s = Inr (True, s)"
  shows "\<exists>pa. s2tte_pa ctx (t ! 0) level s = Inr (pa, s) \<and>
    s2tte_is_assigned_ram (t ! i) level \<and>
    s2tte_pa ctx (t ! i) level s = Inr (pa + of_nat i * s2tte_map_size level, s) \<and>
    bindM (s2tte_create_assigned_ram ctx pa (level - 1)) (\<lambda>w. s2tte_pa ctx w (level - 1)) s = Inr (pa, s)"
proof -
  let ?l = "enable_lpa2 ctx" and ?f = "s2tte_is_assigned_ram"
  have f: "block_checker ?f" by (simp add: block_checker_def)
  have lv: "min_starting_level ctx < level" "min_starting_level ctx \<le> level" "1 \<le> level - 1" "level - 1 \<le> 3"
    "min_starting_level ctx \<le> level - 1"
    using assms(1,2) min_starting_level_bounds(2) [of ctx] by simp_all
  define pa where "pa = to_pa_value (t ! 0) level ?l"
  have a: "?f (t ! 0) level" "addr_lvl_aligned ?l pa (level - 1)"
    "maps_entry ctx t level ?f False pa (t ! 0 AND S2TTE_NS_ATTR_MASK) i"
    using assms(3,4) table_maps_block_run [OF f lv(1) assms(2), of t False s]
    by (simp_all add: s2tt_maps_assigned_ram_block_def pa_def)
  have r: "bit S2TTE_INVALID_RIPAS_RAM 5" "\<not> bit S2TTE_INVALID_RIPAS_RAM 6" by (simp_all add: bit_s2tte_invalid)
  note ram = assigned_ram_ok [OF lv(3,4) a(2) r]
  have "s2tte_pa ctx (t ! 0) level s = Inr (pa, s)"
    using checker_pa_run [OF f a(1) lv(2) assms(2)] by (simp add: pa_def)
  moreover have "?f (t ! i) level" using a(3) by (simp add: maps_entry_def)
  moreover have "s2tte_pa ctx (t ! i) level s = Inr (pa + of_nat i * s2tte_map_size level, s)"
    using a(3) checker_pa_run [OF f calculation(2) lv(2) assms(2)] by (simp add: maps_entry_def nth_pa_def)
  moreover have "bindM (s2tte_create_assigned_ram ctx pa (level - 1)) (\<lambda>w. s2tte_pa ctx w (level - 1)) s = Inr (pa, s)"
    using s2tte_pa_run [OF lv(5,4) ram(1)] ram(2)
    unfolding run_bindM create_assigned_runs(1) [OF lv(3,4) a(2)] by simp
  ultimately show ?thesis by blast
qed

theorem fold_keeps_translation_witness:
  "\<exists>t pa. s2tt_maps_assigned_ram_block demo_ctx t 3 () = Inr (True, ()) \<and>
     s2tte_pa demo_ctx (t ! 5) 3 () = Inr (pa + 5 * s2tte_map_size 3, ())"
proof -
  let ?t = "map (\<lambda>i. assigned_value (enable_lpa2 demo_ctx) (nth_pa 0x80200000 3 i) 3 S2TTE_INVALID_RIPAS_RAM) [0..<512]"
  have t: "s2tt_maps_assigned_ram_block demo_ctx ?t 3 () = Inr (True, ())"
    unfolding s2tt_maps_assigned_ram_block_def
    by (rule unfolded_maps_block) (use demo_aligned assigned_ram_checker [of 3] in \<open>simp_all add: block_checker_def\<close>)
  show ?thesis using fold_keeps_translation [of 3 5 demo_ctx ?t "()"] t by auto
qed

text \<open>
  \<^verbatim>\<open>s2tt_skip_non_live_entries\<close> returns the given address when its entry is live, and otherwise the start
  address of the first entry after it that is live, or of the next table when there is none: every entry it
  skips is not live.
\<close>

theorem skip_non_live_exact:
  assumes "wi_index wi < 512" and "min_starting_level ctx \<le> last_level wi" and "last_level wi \<le> 3"
  shows "s2tt_skip_non_live_entries ctx addr t wi s =
      (if s2tte_is_live (t ! unat (wi_index wi)) (last_level wi) then Inr (addr, s)
       else Inr ((addr AND NOT (s2tte_map_size (last_level wi) - 1)) +
                 of_nat ((LEAST k. unat (wi_index wi) \<le> k \<and> (k = 512 \<or> s2tte_is_live (t ! k) (last_level wi))) -
                         unat (wi_index wi)) * s2tte_map_size (last_level wi), s))"
proof (cases "s2tte_is_live (t ! unat (wi_index wi)) (last_level wi)")
  case True
  have "wi_index wi \<le> 512" using assms(1) by auto
  then show ?thesis using True assms by (simp add: s2tt_skip_non_live_entries_def run_simps Let_def)
next
  case False
  let ?i = "unat (wi_index wi)" and ?P = "\<lambda>k. s2tte_is_live (t ! k) (last_level wi)"
  have i: "?i < 512" using assms(1) by (simp add: word_less_nat_alt)
  have i': "wi_index wi \<le> 512" using assms(1) by auto
  define k where "k = (case find ?P [?i + 1..<512] of Some i \<Rightarrow> i | None \<Rightarrow> max (?i + 1) 512)"
  have k: "?i < k \<and> (k = 512 \<or> ?P k) \<and> (\<forall>j. ?i \<le> j \<and> j < k \<longrightarrow> j \<noteq> 512 \<and> \<not> ?P j)"
  proof (cases "find ?P [?i + 1..<512]")
    case None
    then have "\<forall>j. ?i + 1 \<le> j \<and> j < 512 \<longrightarrow> \<not> ?P j" by (auto simp: find_None_iff)
    moreover have "k = 512" using None i by (simp add: k_def)
    ultimately show ?thesis using i False by (auto simp: Suc_le_eq) (metis le_neq_implies_less)
  next
    case (Some m)
    then have km: "k = m" by (simp add: k_def)
    obtain n where n: "n < 512 - (?i + 1)" "m = ?i + 1 + n" "?P m" "\<forall>j<n. \<not> ?P (?i + 1 + j)"
      using Some by (auto simp: find_Some_iff)
    have "\<not> ?P j" if "?i \<le> j" "j < m" for j
    proof (cases "j = ?i")
      case False
      then have "j = ?i + 1 + (j - ?i - 1)" "j - ?i - 1 < n" using that n(2) by auto
      then show ?thesis using n(4) by metis
    qed (use \<open>\<not> s2tte_is_live (t ! unat (wi_index wi)) (last_level wi)\<close> in simp)
    then show ?thesis using n km by auto
  qed
  have "(LEAST k. ?i \<le> k \<and> (k = 512 \<or> ?P k)) = k"
    by (rule Least_equality) (use k in \<open>auto simp: not_less [symmetric]\<close>)
  moreover have "of_nat k - wi_index wi = of_nat (k - ?i)" using k by (simp add: of_nat_diff)
  ultimately show ?thesis
    using False assms i' by (simp add: s2tt_skip_non_live_entries_def run_simps Let_def k_def)
qed

theorem skip_non_live_exact_witness:
  "s2tt_skip_non_live_entries demo_ctx 0x2010 (replicate 512 s2tte_create_unassigned_ram)
     \<lparr>g_llt = None, wi_index = 2, last_level = 3\<rparr> () = Inr (0x200000, ())"
proof -
  have dead: "\<not> s2tte_is_live s2tte_create_unassigned_ram 3"
    by (simp add: s2tte_class_bits s2tte_create_unassigned_ram_def s2tte_bits)
  let ?w = "\<lparr>g_llt = None, wi_index = 2, last_level = 3\<rparr> :: s2tt_walk"
  have "(LEAST k. 2 \<le> k \<and> (k = 512 \<or> s2tte_is_live (replicate 512 s2tte_create_unassigned_ram ! k) 3)) = 512"
  proof (rule Least_equality)
    fix k assume k: "2 \<le> k \<and> (k = 512 \<or> s2tte_is_live (replicate 512 s2tte_create_unassigned_ram ! k) 3)"
    show "512 \<le> k"
    proof (rule ccontr)
      assume "\<not> 512 \<le> k"
      then show False using k dead by simp
    qed
  qed simp
  then show ?thesis
    using skip_non_live_exact [of ?w demo_ctx "0x2010" "replicate 512 s2tte_create_unassigned_ram" "()"] dead
    by (simp add: demo_ctx_def min_starting_level_def s2tte_map_size_def)
qed

end
