(* ===== verification/Gic.thy ===== *)
theory Gic
  imports Prelude
begin

text \<open>
  The virtual interrupt controller (\<^verbatim>\<open>lib/gic\<close>): the state that an execution context keeps, the validation of the list registers that
  the host passes on entry and the copies from and to the structures \<^verbatim>\<open>rmi_rec_enter\<close> and \<^verbatim>\<open>rmi_rec_exit\<close> of the RMI, which are
  declared here too. The registers of the interface are given by a state of the same type.
\<close>

section \<open>Structures\<close>

record gic_cpu_state =
  ich_ap0r_el2 :: "u64 list"
  ich_ap1r_el2 :: "u64 list"
  ich_vmcr_el2 :: u64
  ich_hcr_el2 :: u64
  ich_lr_el2 :: "u64 list"
  ich_misr_el2 :: u64

record gic_virt_feature_s =
  nr_lrs :: u32
  nr_aprs :: u32
  pri_res0_mask :: u64
  max_vintid :: u64
  ext_range :: bool

record rmi_rec_enter =
  en_flags :: u64
  en_gprs :: "u64 list"
  en_gicv3_hcr :: u64
  en_gicv3_lrs :: "u64 list"

record rmi_rec_exit =
  ex_exit_reason :: u64
  ex_esr :: u64
  ex_far :: u64
  ex_hpfar :: u64
  ex_gprs :: "u64 list"
  ex_gicv3_hcr :: u64
  ex_gicv3_lrs :: "u64 list"
  ex_gicv3_misr :: u64
  ex_gicv3_vmcr :: u64
  ex_cntp_ctl :: u64
  ex_cntp_cval :: u64
  ex_cntv_ctl :: u64
  ex_cntv_cval :: u64
  ex_ripas_base :: u64
  ex_ripas_top :: u64
  ex_ripas_value :: u8
  ex_imm :: u32
  ex_pmu_ovf_status :: u64

definition REC_EXIT_NR_GPRS :: nat where "REC_EXIT_NR_GPRS = 31"
definition ICH_MAX_APRS :: nat where "ICH_MAX_APRS = 4"
definition ICH_MAX_LRS :: nat where "ICH_MAX_LRS = 16"

text \<open>The exit structure that is cleared before a realm is entered.\<close>

definition zero_rec_exit :: rmi_rec_exit where
  "zero_rec_exit = \<lparr>ex_exit_reason = 0, ex_esr = 0, ex_far = 0, ex_hpfar = 0, ex_gprs = replicate REC_EXIT_NR_GPRS 0, ex_gicv3_hcr = 0,
     ex_gicv3_lrs = replicate ICH_MAX_LRS 0, ex_gicv3_misr = 0, ex_gicv3_vmcr = 0, ex_cntp_ctl = 0, ex_cntp_cval = 0, ex_cntv_ctl = 0,
     ex_cntv_cval = 0, ex_ripas_base = 0, ex_ripas_top = 0, ex_ripas_value = 0, ex_imm = 0, ex_pmu_ovf_status = 0\<rparr>"

definition zero_gic :: gic_cpu_state where
  "zero_gic = \<lparr>ich_ap0r_el2 = replicate ICH_MAX_APRS 0, ich_ap1r_el2 = replicate ICH_MAX_APRS 0, ich_vmcr_el2 = 0, ich_hcr_el2 = 0,
     ich_lr_el2 = replicate ICH_MAX_LRS 0, ich_misr_el2 = 0\<rparr>"

section \<open>Fields\<close>

definition ICH_HCR_EL2_EN_BIT :: u64 where "ICH_HCR_EL2_EN_BIT = BIT64 0"
definition ICH_HCR_EL2_VSGIEEOICOUNT_BIT :: u64 where "ICH_HCR_EL2_VSGIEEOICOUNT_BIT = BIT64 8"
definition ICH_HCR_EL2_DVIM_BIT :: u64 where "ICH_HCR_EL2_DVIM_BIT = BIT64 15"
definition ICH_HCR_EL2_EOI_COUNT_MASK :: u64 where "ICH_HCR_EL2_EOI_COUNT_MASK = MASK 27 5"
definition ICH_HCR_EL2_NS_MASK :: u64 where
  "ICH_HCR_EL2_NS_MASK = BIT64 1 OR BIT64 2 OR BIT64 3 OR BIT64 4 OR BIT64 5 OR BIT64 6 OR BIT64 7 OR BIT64 14"
definition ICH_LR_PINTID_MASK :: u64 where "ICH_LR_PINTID_MASK = MASK 32 13"
definition ICH_LR_EOI_BIT :: u64 where "ICH_LR_EOI_BIT = BIT64 41"
definition ICH_LR_HW_BIT :: u64 where "ICH_LR_HW_BIT = BIT64 61"
definition ICH_LR_STATE_MASK :: u64 where "ICH_LR_STATE_MASK = MASK 62 2"
definition ICH_LR_STATE_INVALID :: u64 where "ICH_LR_STATE_INVALID = INPLACE 62 0"
definition MAX_SPI_ID :: u64 where "MAX_SPI_ID = 1019"
definition MIN_EPPI_ID :: u64 where "MIN_EPPI_ID = 1056"
definition MAX_EPPI_ID :: u64 where "MAX_EPPI_ID = 1119"
definition MIN_ESPI_ID :: u64 where "MIN_ESPI_ID = 4096"
definition MAX_ESPI_ID :: u64 where "MAX_ESPI_ID = 5119"
definition MIN_LPI_ID :: u64 where "MIN_LPI_ID = 8192"

section \<open>Operations\<close>

text \<open>The features from ICH\_VTR\_EL2 and ICC\_CTLR\_EL1; the extended range is bit 19 of the latter.\<close>

definition gic_get_virt_features :: "u64 \<Rightarrow> bool \<Rightarrow> ('s, gic_virt_feature_s) M" where
  "gic_get_virt_features vtr ext =
    (let lrs = ucast (EXTRACT 0 5 vtr) :: u32; nr_pre_bits = EXTRACT 26 3 vtr + 1; nr_pri_bits = EXTRACT 29 3 vtr + 1
     in thenM (assertM (unat lrs < ICH_MAX_LRS))
       (thenM (assertM (nr_pre_bits \<ge> 5))
        (returnM \<lparr>nr_lrs = lrs, nr_aprs = ucast (push_bit (unat (nr_pre_bits - 5)) 1 - 1 :: u64),
           pri_res0_mask = push_bit (unat (8 - nr_pri_bits)) 1 - 1,
           max_vintid = (if EXTRACT 23 3 vtr = 0 then push_bit 16 1 - 1 else push_bit 24 1 - 1), ext_range = ext\<rparr>)))"

definition gic_cpu_state_init :: "gic_cpu_state \<Rightarrow> gic_cpu_state" where
  "gic_cpu_state_init gicstate =
    zero_gic\<lparr>ich_hcr_el2 := ICH_HCR_EL2_EN_BIT OR ICH_HCR_EL2_VSGIEEOICOUNT_BIT OR ICH_HCR_EL2_DVIM_BIT\<rparr>"

text \<open>The number of list registers in use.\<close>

definition num_lrs :: "gic_virt_feature_s \<Rightarrow> nat" where
  "num_lrs feat = Suc (unat (nr_lrs feat))"

definition gic_copy_state_from_rec_entry :: "gic_virt_feature_s \<Rightarrow> gic_cpu_state \<Rightarrow> rmi_rec_enter \<Rightarrow> gic_cpu_state" where
  "gic_copy_state_from_rec_entry feat gicstate rec_enter =
    gicstate\<lparr>ich_lr_el2 := take (num_lrs feat) (en_gicv3_lrs rec_enter) @ drop (num_lrs feat) (ich_lr_el2 gicstate),
      ich_hcr_el2 := (ich_hcr_el2 gicstate AND NOT ICH_HCR_EL2_NS_MASK) OR (en_gicv3_hcr rec_enter AND ICH_HCR_EL2_NS_MASK)\<rparr>"

definition gic_copy_state_to_rec_exit :: "gic_virt_feature_s \<Rightarrow> gic_cpu_state \<Rightarrow> rmi_rec_exit \<Rightarrow> rmi_rec_exit" where
  "gic_copy_state_to_rec_exit feat gicstate rec_exit =
    rec_exit\<lparr>ex_gicv3_lrs := take (num_lrs feat) (ich_lr_el2 gicstate) @ drop (num_lrs feat) (ex_gicv3_lrs rec_exit),
      ex_gicv3_misr := ich_misr_el2 gicstate, ex_gicv3_vmcr := ich_vmcr_el2 gicstate,
      ex_gicv3_hcr := ich_hcr_el2 gicstate AND (ICH_HCR_EL2_EOI_COUNT_MASK OR ICH_HCR_EL2_NS_MASK)\<rparr>"

definition is_valid_vintid :: "gic_virt_feature_s \<Rightarrow> u64 \<Rightarrow> bool" where
  "is_valid_vintid feat intid \<longleftrightarrow>
    intid \<le> MAX_SPI_ID \<or> MIN_LPI_ID \<le> intid \<and> intid \<le> max_vintid feat \<or>
    ext_range feat \<and> (MIN_EPPI_ID \<le> intid \<and> intid \<le> MAX_EPPI_ID \<or> MIN_ESPI_ID \<le> intid \<and> intid \<le> MAX_ESPI_ID)"

definition lr_vintid :: "u64 \<Rightarrow> u64" where "lr_vintid lr = EXTRACT 0 32 lr"

definition lr_invalid :: "u64 \<Rightarrow> bool" where "lr_invalid lr \<longleftrightarrow> lr AND ICH_LR_STATE_MASK = ICH_LR_STATE_INVALID"

text \<open>The two nested loops over the list registers in use.\<close>

fun validate_lrs :: "gic_virt_feature_s \<Rightarrow> u64 list \<Rightarrow> bool" where
  "validate_lrs feat [] = True"
| "validate_lrs feat (lr # lrs) =
    (if lr_invalid lr then validate_lrs feat lrs
     else if lr AND ICH_LR_HW_BIT \<noteq> 0 \<or> EXTRACT 48 8 lr AND pri_res0_mask feat \<noteq> 0 \<or>
             lr AND ICH_LR_PINTID_MASK AND NOT ICH_LR_EOI_BIT \<noteq> 0 \<or> \<not> is_valid_vintid feat (lr_vintid lr) then False
     else if list_ex (\<lambda>lr'. \<not> lr_invalid lr' \<and> lr_vintid lr = lr_vintid lr') lrs then False
     else validate_lrs feat lrs)"

definition gic_validate_state :: "gic_virt_feature_s \<Rightarrow> rmi_rec_enter \<Rightarrow> bool" where
  "gic_validate_state feat rec_enter \<longleftrightarrow>
    en_gicv3_hcr rec_enter AND NOT ICH_HCR_EL2_NS_MASK = 0 \<and> validate_lrs feat (take (num_lrs feat) (en_gicv3_lrs rec_enter))"

text \<open>Saving reads as many registers as are implemented, and at least one, into the state; restoring writes them.\<close>

definition copy_first :: "u32 \<Rightarrow> 'a list \<Rightarrow> 'a list \<Rightarrow> 'a list" where
  "copy_first n src dst = take (Suc (unat n)) src @ drop (Suc (unat n)) dst"

definition gic_restore_state :: "gic_virt_feature_s \<Rightarrow> gic_cpu_state \<Rightarrow> gic_cpu_state \<Rightarrow> gic_cpu_state" where
  "gic_restore_state feat gicstate live =
    live\<lparr>ich_ap0r_el2 := copy_first (nr_aprs feat) (ich_ap0r_el2 gicstate) (ich_ap0r_el2 live),
      ich_ap1r_el2 := copy_first (nr_aprs feat) (ich_ap1r_el2 gicstate) (ich_ap1r_el2 live),
      ich_lr_el2 := copy_first (nr_lrs feat) (ich_lr_el2 gicstate) (ich_lr_el2 live),
      ich_vmcr_el2 := ich_vmcr_el2 gicstate, ich_hcr_el2 := ich_hcr_el2 gicstate\<rparr>"

definition gic_save_state :: "gic_virt_feature_s \<Rightarrow> gic_cpu_state \<Rightarrow> gic_cpu_state \<Rightarrow> gic_cpu_state \<times> gic_cpu_state" where
  "gic_save_state feat gicstate live =
    (gicstate\<lparr>ich_ap0r_el2 := copy_first (nr_aprs feat) (ich_ap0r_el2 live) (ich_ap0r_el2 gicstate),
       ich_ap1r_el2 := copy_first (nr_aprs feat) (ich_ap1r_el2 live) (ich_ap1r_el2 gicstate),
       ich_lr_el2 := copy_first (nr_lrs feat) (ich_lr_el2 live) (ich_lr_el2 gicstate),
       ich_vmcr_el2 := ich_vmcr_el2 live, ich_hcr_el2 := ich_hcr_el2 live, ich_misr_el2 := ich_misr_el2 live\<rparr>,
     live\<lparr>ich_hcr_el2 := ich_hcr_el2 live AND NOT ICH_HCR_EL2_EN_BIT\<rparr>)"

section \<open>What the host can do\<close>

definition lr_ok :: "gic_virt_feature_s \<Rightarrow> u64 \<Rightarrow> bool" where
  "lr_ok feat lr \<longleftrightarrow> \<not> bit lr 61 \<and> EXTRACT 48 8 lr AND pri_res0_mask feat = 0 \<and> (\<forall>n. 32 \<le> n \<and> n < 45 \<and> n \<noteq> 41 \<longrightarrow> \<not> bit lr n) \<and>
     is_valid_vintid feat (lr_vintid lr)"

lemma pintid_iff: "lr AND ICH_LR_PINTID_MASK AND NOT ICH_LR_EOI_BIT = 0 \<longleftrightarrow> (\<forall>n. 32 \<le> n \<and> n < 45 \<and> n \<noteq> 41 \<longrightarrow> \<not> bit lr n)"
proof -
  have b: "bit (lr AND ICH_LR_PINTID_MASK AND NOT ICH_LR_EOI_BIT) n \<longleftrightarrow> bit lr n \<and> 32 \<le> n \<and> n < 45 \<and> n \<noteq> 41" for n
    by (auto simp: ICH_LR_PINTID_MASK_def ICH_LR_EOI_BIT_def bit_MASK bit_BIT64 bit_and_iff bit_not_iff dest: bit_imp_le_length)
  show ?thesis by (subst bit_eq_iff) (auto simp: b)
qed

lemma validate_lrs_iff:
  "validate_lrs feat lrs \<longleftrightarrow>
    (\<forall>lr\<in>set lrs. lr_invalid lr \<or> lr_ok feat lr) \<and> distinct (map lr_vintid (filter (\<lambda>lr. \<not> lr_invalid lr) lrs))"
  by (induction lrs) (auto simp: lr_ok_def and_BIT64_eq_0 pintid_iff ICH_LR_HW_BIT_def list_ex_iff)

lemma bit_hcr_ns_mask: "bit ICH_HCR_EL2_NS_MASK n \<longleftrightarrow> n \<in> {1, 2, 3, 4, 5, 6, 7, 14}"
  by (auto simp: ICH_HCR_EL2_NS_MASK_def bit_BIT64 bit_or_iff)

text \<open>
  C19. The validation accepts exactly the states whose control bits are those of the host and whose list registers in use are either
  invalid or name, each its own, a virtual interrupt without a physical one; after the copy of an accepted state the registers of the
  realm have these list registers, and every control bit that does not belong to the host is as it was before.
\<close>

theorem gic_entry_confined:
  assumes "length (en_gicv3_lrs en) = 16" "length (ich_lr_el2 gs) = 16" "unat (nr_lrs feat) < 16"
  shows "(gic_validate_state feat en \<longleftrightarrow>
      (\<forall>n. bit (en_gicv3_hcr en) n \<longrightarrow> n \<in> {1, 2, 3, 4, 5, 6, 7, 14}) \<and>
      (\<forall>i\<le>unat (nr_lrs feat). lr_invalid (en_gicv3_lrs en ! i) \<or> lr_ok feat (en_gicv3_lrs en ! i)) \<and>
      (\<forall>i\<le>unat (nr_lrs feat). \<forall>j\<le>unat (nr_lrs feat). i \<noteq> j \<and> \<not> lr_invalid (en_gicv3_lrs en ! i) \<and> \<not> lr_invalid (en_gicv3_lrs en ! j) \<longrightarrow>
        lr_vintid (en_gicv3_lrs en ! i) \<noteq> lr_vintid (en_gicv3_lrs en ! j))) \<and>
    (\<forall>n. bit (ich_hcr_el2 (gic_copy_state_from_rec_entry feat gs en)) n =
      (if n \<in> {1, 2, 3, 4, 5, 6, 7, 14} then bit (en_gicv3_hcr en) n else bit (ich_hcr_el2 gs) n)) \<and>
    (\<forall>i<16. ich_lr_el2 (gic_copy_state_from_rec_entry feat gs en) ! i =
      (if i \<le> unat (nr_lrs feat) then en_gicv3_lrs en ! i else ich_lr_el2 gs ! i))"
proof (intro conjI)
  let ?l = "take (num_lrs feat) (en_gicv3_lrs en)" and ?ns = "{1, 2, 3, 4, 5, 6, 7, 14::nat}"
  have len: "length ?l = Suc (unat (nr_lrs feat))" using assms by (simp add: num_lrs_def)
  have hcr: "en_gicv3_hcr en AND NOT ICH_HCR_EL2_NS_MASK = 0 \<longleftrightarrow> (\<forall>n. bit (en_gicv3_hcr en) n \<longrightarrow> n \<in> ?ns)"
    by (subst bit_eq_iff) (use bit_imp_le_length [of "en_gicv3_hcr en"] in \<open>fastforce simp: bit_simps bit_hcr_ns_mask\<close>)
  have all: "(\<forall>lr\<in>set ?l. P lr) \<longleftrightarrow> (\<forall>i\<le>unat (nr_lrs feat). P (en_gicv3_lrs en ! i))" for P
    using len by (auto simp: all_set_conv_all_nth less_Suc_eq_le)
  have dist: "distinct (map lr_vintid (filter (\<lambda>lr. \<not> lr_invalid lr) xs)) \<longleftrightarrow>
      (\<forall>i<length xs. \<forall>j<length xs. i \<noteq> j \<and> \<not> lr_invalid (xs ! i) \<and> \<not> lr_invalid (xs ! j) \<longrightarrow> lr_vintid (xs ! i) \<noteq> lr_vintid (xs ! j))" for xs
  proof (induction xs)
    case (Cons x xs)
    have "lr_vintid x \<in> lr_vintid ` (set xs \<inter> {lr. \<not> lr_invalid lr}) \<longleftrightarrow> (\<exists>j<length xs. \<not> lr_invalid (xs ! j) \<and> lr_vintid x = lr_vintid (xs ! j))"
      by (auto simp: in_set_conv_nth intro!: image_eqI)
    then show ?case using Cons by (auto simp: All_less_Suc2)
  qed simp
  show "gic_validate_state feat en \<longleftrightarrow>
      (\<forall>n. bit (en_gicv3_hcr en) n \<longrightarrow> n \<in> ?ns) \<and>
      (\<forall>i\<le>unat (nr_lrs feat). lr_invalid (en_gicv3_lrs en ! i) \<or> lr_ok feat (en_gicv3_lrs en ! i)) \<and>
      (\<forall>i\<le>unat (nr_lrs feat). \<forall>j\<le>unat (nr_lrs feat). i \<noteq> j \<and> \<not> lr_invalid (en_gicv3_lrs en ! i) \<and> \<not> lr_invalid (en_gicv3_lrs en ! j) \<longrightarrow>
        lr_vintid (en_gicv3_lrs en ! i) \<noteq> lr_vintid (en_gicv3_lrs en ! j))"
    using len unfolding gic_validate_state_def hcr validate_lrs_iff all dist by (auto simp: less_Suc_eq_le)
  show "\<forall>n. bit (ich_hcr_el2 (gic_copy_state_from_rec_entry feat gs en)) n = (if n \<in> ?ns then bit (en_gicv3_hcr en) n else bit (ich_hcr_el2 gs) n)"
    using bit_imp_le_length [of "ich_hcr_el2 gs"] by (auto simp: gic_copy_state_from_rec_entry_def bit_simps bit_hcr_ns_mask)
  show "\<forall>i<16. ich_lr_el2 (gic_copy_state_from_rec_entry feat gs en) ! i = (if i \<le> unat (nr_lrs feat) then en_gicv3_lrs en ! i else ich_lr_el2 gs ! i)"
    using assms by (auto simp: gic_copy_state_from_rec_entry_def num_lrs_def nth_append)
qed

theorem gic_entry_confined_witness:
  "(let feat = \<lparr>nr_lrs = 3, nr_aprs = 0, pri_res0_mask = 7, max_vintid = 0xFFFF, ext_range = False\<rparr>;
        en = \<lparr>en_flags = 0, en_gprs = [], en_gicv3_hcr = 2, en_gicv3_lrs = 0x4000000000000020 # replicate 15 0\<rparr>
    in gic_validate_state feat en \<and> ich_lr_el2 (gic_copy_state_from_rec_entry feat (gic_cpu_state_init zero_gic) en) ! 0 = 0x4000000000000020 \<and>
      bit (ich_hcr_el2 (gic_copy_state_from_rec_entry feat (gic_cpu_state_init zero_gic) en)) 15)"
proof -
  let ?feat = "\<lparr>nr_lrs = 3, nr_aprs = 0, pri_res0_mask = 7, max_vintid = 0xFFFF, ext_range = False\<rparr>"
  let ?en = "\<lparr>en_flags = 0, en_gprs = [], en_gicv3_hcr = 2, en_gicv3_lrs = 0x4000000000000020 # replicate 15 0\<rparr>"
  have 1: "gic_validate_state ?feat ?en" "length (ich_lr_el2 (gic_cpu_state_init zero_gic)) = 16" by code_simp+
  have 2: "bit (ich_hcr_el2 (gic_cpu_state_init zero_gic)) 15"
    by (simp add: gic_cpu_state_init_def ICH_HCR_EL2_DVIM_BIT_def bit_or_iff bit_BIT64)
  have 3: "length (en_gicv3_lrs ?en) = 16" "unat (nr_lrs ?feat) < 16" by simp_all
  show ?thesis using gic_entry_confined [OF 3(1) 1(2) 3(2)] 1 2 by (simp add: Let_def)
qed

end
