(* ===== verification/Rmm_State.thy ===== *)
theory Rmm_State
  imports Granule Vmid Registry Apt S2tt_Table Gic
begin

text \<open>
  The state that the command handlers work on: the granule array, the contents of the granules,
  the buffer slots (\<^verbatim>\<open>lib/slot_buf\<close>), the allocators and registries, and a log of the TLB
  invalidations. Also the realm descriptor and the realm execution context
  (\<^verbatim>\<open>runtime/include/realm.h\<close>, \<^verbatim>\<open>rec.h\<close>).

  The content of a granule is a record with one view per structure that the RMM keeps in a
  granule: a table of 512 words, a realm descriptor, an execution context, an access permission
  table, a SIMD context. A granule is accessed through the view of its state; \<^verbatim>\<open>granule_memzero_mapped\<close> clears
  all of it. Of \<^verbatim>\<open>struct rec\<close> the fields that the modelled handlers use are kept.
\<close>

section \<open>Realm descriptors and execution contexts\<close>

definition REALM_NEW :: u64 where "REALM_NEW = 0"
definition REALM_ACTIVE :: u64 where "REALM_ACTIVE = 1"
definition REALM_SYSTEM_OFF :: u64 where "REALM_SYSTEM_OFF = 2"

datatype hash_algo = HASH_SHA_256 | HASH_SHA_512

record simd_config =
  sve_en :: bool
  sve_vq :: u32
  sme_en :: bool

record rd =
  rd_state :: u64
  rec_count :: u64
  measurement :: "u8 list list"
  rd_s2_ctx :: s2tt_context
  rd_num_rec_aux :: u32
  rd_algorithm :: hash_algo
  rd_pmu_enabled :: bool
  rd_pmu_num_ctrs :: u32
  rd_simd_cfg :: simd_config
  rpv :: "u8 list"
  apt_pa :: u64

datatype ripas_change_destroyed = NO_CHANGE_DESTROYED | CHANGE_DESTROYED
datatype ripas_response = ACCEPT | REJECT

record set_ripas_info =
  sr_base :: u64
  sr_top :: u64
  sr_addr :: u64
  sr_ripas_val :: ripas
  sr_change_destroyed :: ripas_change_destroyed
  sr_response :: ripas_response

record realm_info =
  ri_g_rd :: "nat option"
  ri_pmu_enabled :: bool
  ri_pmu_num_ctrs :: u32
  ri_algorithm :: hash_algo
  ri_simd_cfg :: simd_config
  ri_s2_ctx :: s2tt_context

text \<open>The saved system registers, the syndrome of the last exit and a pending SError.\<close>

record sysreg_state =
  sys_sp_el0 :: u64
  sys_sp_el1 :: u64
  sys_elr_el1 :: u64
  sys_spsr_el1 :: u64
  sys_pmcr_el0 :: u64
  sys_tpidrro_el0 :: u64
  sys_tpidr_el0 :: u64
  sys_csselr_el1 :: u64
  sys_sctlr_el1 :: u64
  sys_actlr_el1 :: u64
  sys_cpacr_el1 :: u64
  sys_zcr_el1 :: u64
  sys_ttbr0_el1 :: u64
  sys_ttbr1_el1 :: u64
  sys_tcr_el1 :: u64
  sys_esr_el1 :: u64
  sys_afsr0_el1 :: u64
  sys_afsr1_el1 :: u64
  sys_far_el1 :: u64
  sys_mair_el1 :: u64
  sys_vbar_el1 :: u64
  sys_contextidr_el1 :: u64
  sys_tpidr_el1 :: u64
  sys_amair_el1 :: u64
  sys_cntkctl_el1 :: u64
  sys_par_el1 :: u64
  sys_mdscr_el1 :: u64
  sys_mdccint_el1 :: u64
  sys_disr_el1 :: u64
  sys_mpam0_el1 :: u64
  sys_cnthctl_el2 :: u64
  sys_cntvoff_el2 :: u64
  sys_cntpoff_el2 :: u64
  sys_cntp_ctl_el0 :: u64
  sys_cntp_cval_el0 :: u64
  sys_cntv_ctl_el0 :: u64
  sys_cntv_cval_el0 :: u64
  sys_gicstate :: gic_cpu_state
  sys_vmpidr_el2 :: u64
  sys_hcr_el2 :: u64
  sys_cptr_el2 :: u64

record common_sysreg_state =
  com_vttbr_el2 :: u64
  com_vtcr_el2 :: u64
  com_hcr_el2 :: u64
  com_mdcr_el2 :: u64

record last_run_info =
  run_esr :: u64
  run_hpfar :: u64
  run_far :: u64

record serror_info =
  se_vsesr_el2 :: u64
  se_inject :: bool

datatype simd_owner = SIMD_OWNER_NONE | SIMD_OWNER_REL1 | SIMD_OWNER_NWD

record simd_context =
  simd_owner_of :: simd_owner
  simd_tflags :: u32
  simd_sflags :: u32
  simd_cptr_el2 :: u64
  simd_svcr :: u64
  simd_zcr_el2 :: u64

record rec_data =
  rec_g_rec :: "nat option"
  rec_idx :: u64
  rec_runnable :: bool
  rec_regs :: "u64 list"
  rec_pc :: u64
  rec_pstate :: u64
  rec_set_ripas :: set_ripas_info
  rec_realm_info :: realm_info
  rec_psci_pending :: bool
  rec_num_aux :: u32
  rec_g_aux :: "nat option list"
  rec_host_call :: bool
  rec_sysregs :: sysreg_state
  rec_common_sysregs :: common_sysreg_state
  rec_last_run :: last_run_info
  rec_serror :: serror_info

definition zero_ctx :: s2tt_context where
  "zero_ctx = \<lparr>ipa_bits = 0, s2_starting_level = 0, num_root_rtts = 0, g_rtt = None, vmid = 0,
     enable_lpa2 = False\<rparr>"

definition zero_simd :: simd_config where
  "zero_simd = \<lparr>sve_en = False, sve_vq = 0, sme_en = False\<rparr>"

definition zero_rd :: rd where
  "zero_rd = \<lparr>rd_state = 0, rec_count = 0, measurement = replicate 5 (replicate 64 0), rd_s2_ctx = zero_ctx,
     rd_num_rec_aux = 0, rd_algorithm = HASH_SHA_256, rd_pmu_enabled = False, rd_pmu_num_ctrs = 0,
     rd_simd_cfg = zero_simd, rpv = replicate 64 0, apt_pa = 0\<rparr>"

definition zero_sysregs :: sysreg_state where
  "zero_sysregs = \<lparr>sys_sp_el0 = 0, sys_sp_el1 = 0, sys_elr_el1 = 0, sys_spsr_el1 = 0, sys_pmcr_el0 = 0, sys_tpidrro_el0 = 0,
     sys_tpidr_el0 = 0, sys_csselr_el1 = 0, sys_sctlr_el1 = 0, sys_actlr_el1 = 0, sys_cpacr_el1 = 0, sys_zcr_el1 = 0,
     sys_ttbr0_el1 = 0, sys_ttbr1_el1 = 0, sys_tcr_el1 = 0, sys_esr_el1 = 0, sys_afsr0_el1 = 0, sys_afsr1_el1 = 0,
     sys_far_el1 = 0, sys_mair_el1 = 0, sys_vbar_el1 = 0, sys_contextidr_el1 = 0, sys_tpidr_el1 = 0, sys_amair_el1 = 0,
     sys_cntkctl_el1 = 0, sys_par_el1 = 0, sys_mdscr_el1 = 0, sys_mdccint_el1 = 0, sys_disr_el1 = 0, sys_mpam0_el1 = 0,
     sys_cnthctl_el2 = 0, sys_cntvoff_el2 = 0, sys_cntpoff_el2 = 0, sys_cntp_ctl_el0 = 0, sys_cntp_cval_el0 = 0,
     sys_cntv_ctl_el0 = 0, sys_cntv_cval_el0 = 0, sys_gicstate = zero_gic, sys_vmpidr_el2 = 0, sys_hcr_el2 = 0,
     sys_cptr_el2 = 0\<rparr>"

definition zero_simd_context :: simd_context where
  "zero_simd_context = \<lparr>simd_owner_of = SIMD_OWNER_NONE, simd_tflags = 0, simd_sflags = 0, simd_cptr_el2 = 0, simd_svcr = 0, simd_zcr_el2 = 0\<rparr>"

definition zero_rec :: rec_data where
  "zero_rec = \<lparr>rec_g_rec = None, rec_idx = 0, rec_runnable = False, rec_regs = replicate 31 0, rec_pc = 0,
     rec_pstate = 0,
     rec_set_ripas = \<lparr>sr_base = 0, sr_top = 0, sr_addr = 0, sr_ripas_val = RIPAS_EMPTY,
       sr_change_destroyed = NO_CHANGE_DESTROYED, sr_response = ACCEPT\<rparr>,
     rec_realm_info = \<lparr>ri_g_rd = None, ri_pmu_enabled = False, ri_pmu_num_ctrs = 0, ri_algorithm = HASH_SHA_256,
       ri_simd_cfg = zero_simd, ri_s2_ctx = zero_ctx\<rparr>,
     rec_psci_pending = False, rec_num_aux = 0, rec_g_aux = replicate 16 None, rec_host_call = False,
     rec_sysregs = zero_sysregs, rec_common_sysregs = \<lparr>com_vttbr_el2 = 0, com_vtcr_el2 = 0, com_hcr_el2 = 0, com_mdcr_el2 = 0\<rparr>,
     rec_last_run = \<lparr>run_esr = 0, run_hpfar = 0, run_far = 0\<rparr>, rec_serror = \<lparr>se_vsesr_el2 = 0, se_inject = False\<rparr>\<rparr>"

definition realm_ipa_bits :: "rd \<Rightarrow> nat" where
  "realm_ipa_bits r = unat (ipa_bits (rd_s2_ctx r))"

definition realm_ipa_size :: "rd \<Rightarrow> u64" where
  "realm_ipa_size r = push_bit (realm_ipa_bits r) 1"

definition realm_par_size :: "rd \<Rightarrow> u64" where
  "realm_par_size r = drop_bit 1 (realm_ipa_size r)"

definition realm_rtt_starting_level :: "rd \<Rightarrow> int" where
  "realm_rtt_starting_level r = s2_starting_level (rd_s2_ctx r)"

definition addr_in_par :: "rd \<Rightarrow> u64 \<Rightarrow> bool" where
  "addr_in_par r addr \<longleftrightarrow> addr < realm_par_size r"

definition addr_is_contained :: "u64 \<Rightarrow> u64 \<Rightarrow> u64 \<Rightarrow> bool" where
  "addr_is_contained container_base container_end address =
    (if container_base > container_end - 1 then False
     else address \<ge> container_base \<and> address \<le> container_end - 1)"

definition region_is_contained :: "u64 \<Rightarrow> u64 \<Rightarrow> u64 \<Rightarrow> u64 \<Rightarrow> bool" where
  "region_is_contained container_base container_end region_base region_end =
    (if region_base > region_end - 1 then False
     else addr_is_contained container_base container_end region_base \<and>
          addr_is_contained container_base container_end (region_end - 1))"

definition rec_ipa_size :: "rec_data \<Rightarrow> u64" where
  "rec_ipa_size r = push_bit (unat (ipa_bits (ri_s2_ctx (rec_realm_info r)))) 1"

definition rec_par_size :: "rec_data \<Rightarrow> u64" where
  "rec_par_size r = drop_bit 1 (rec_ipa_size r)"

definition addr_in_rec_par :: "rec_data \<Rightarrow> u64 \<Rightarrow> bool" where
  "addr_in_rec_par r addr \<longleftrightarrow> addr < rec_par_size r"

definition region_in_rec_par :: "rec_data \<Rightarrow> u64 \<Rightarrow> u64 \<Rightarrow> bool" where
  "region_in_rec_par r base end_addr = region_is_contained 0 (rec_par_size r) base end_addr"

section \<open>The state\<close>

record gdata =
  words :: "u64 list"
  d_rd :: rd
  d_rec :: rec_data
  d_apt :: apt
  d_simd :: simd_context

definition zero_data :: gdata where
  "zero_data = \<lparr>words = replicate 512 0, d_rd = zero_rd, d_rec = zero_rec, d_apt = zero_apt, d_simd = zero_simd_context\<rparr>"

datatype tlb_event = TLBI_IPAS2E1IS u32 u64 | TLBI_VMALLE1IS u32

record rmm = gstate +
  mem :: "nat \<Rightarrow> gdata"
  slots :: "nat \<Rightarrow> nat option"
  tags :: tag_state
  csm_region_ids :: csm_id_state
  vmids :: vmid_map
  feat_vmid16 :: bool
  tlb_log :: "tlb_event list"

section \<open>Buffer slots\<close>

definition MAX_REC_AUX_GRANULES :: nat where "MAX_REC_AUX_GRANULES = 16"

definition SLOT_NS :: nat where "SLOT_NS = 0"
definition SLOT_DELEGATED :: nat where "SLOT_DELEGATED = 1"
definition SLOT_RD :: nat where "SLOT_RD = 2"
definition SLOT_RD2 :: nat where "SLOT_RD2 = 3"
definition SLOT_REC :: nat where "SLOT_REC = 4"
definition SLOT_REC2 :: nat where "SLOT_REC2 = 5"
definition SLOT_REC_TARGET :: nat where "SLOT_REC_TARGET = 6"
definition SLOT_REC_AUX0 :: nat where "SLOT_REC_AUX0 = 7"
definition SLOT_RTT :: nat where "SLOT_RTT = SLOT_REC_AUX0 + MAX_REC_AUX_GRANULES"
definition SLOT_RTT2 :: nat where "SLOT_RTT2 = SLOT_RTT + 1"
definition SLOT_RSI_CALL :: nat where "SLOT_RSI_CALL = SLOT_RTT + 2"
definition SLOT_EL3_TOKEN_SIGN_REC :: nat where "SLOT_EL3_TOKEN_SIGN_REC = SLOT_RTT + 3"
definition SLOT_EL3_TOKEN_SIGN_AUX0 :: nat where "SLOT_EL3_TOKEN_SIGN_AUX0 = SLOT_RTT + 4"
definition SLOT_APT :: nat where "SLOT_APT = SLOT_EL3_TOKEN_SIGN_AUX0 + 1"
definition SLOT_APT2 :: nat where "SLOT_APT2 = SLOT_EL3_TOKEN_SIGN_AUX0 + 2"
definition NR_CPU_SLOTS :: nat where "NR_CPU_SLOTS = SLOT_EL3_TOKEN_SIGN_AUX0 + MAX_REC_AUX_GRANULES"

definition is_realm_slot :: "nat \<Rightarrow> bool" where
  "is_realm_slot slot \<longleftrightarrow> slot \<noteq> SLOT_NS \<and> slot < NR_CPU_SLOTS"

text \<open>
  Mapping a granule in a slot fails (the null pointer) when the slot is in use. The address
  of a mapped buffer is the slot.
\<close>

definition buffer_granule_map :: "nat option \<Rightarrow> nat \<Rightarrow> (rmm, nat option) M" where
  "buffer_granule_map g slot =
    bindM (granule_addr g) (\<lambda>addr.
    thenM (assertM (is_realm_slot slot))
    (thenM (assertM (GRANULE_ALIGNED addr))
    (bindM (getM (\<lambda>s. slots s slot)) (\<lambda>used.
     if used \<noteq> None then returnM None
     else thenM (modifyM (\<lambda>s. s\<lparr>slots := (slots s)(slot := g)\<rparr>)) (returnM (Some slot))))))"

definition buffer_unmap :: "nat \<Rightarrow> (rmm, unit) M" where
  "buffer_unmap buf =
    bindM (getM (\<lambda>s. slots s buf)) (\<lambda>used.
    thenM (assertM (used \<noteq> None))
    (modifyM (\<lambda>s. s\<lparr>slots := (slots s)(buf := None)\<rparr>)))"

text \<open>The idiom of the handlers: map a granule and assert that the buffer is not null.\<close>

definition map_slot :: "nat option \<Rightarrow> nat \<Rightarrow> (rmm, unit) M" where
  "map_slot g slot = bindM (buffer_granule_map g slot) (\<lambda>buf. assertM (buf \<noteq> None))"

definition upd_mem :: "nat \<Rightarrow> (gdata \<Rightarrow> gdata) \<Rightarrow> rmm \<Rightarrow> rmm" where
  "upd_mem g f s = s\<lparr>mem := (mem s)(g := f (mem s g))\<rparr>"

text \<open>
  \<^verbatim>\<open>granule_memzero_mapped\<close>: the DC ZVA loop writes \<open>cnt\<close> blocks of \<open>block_size\<close> bytes, which
  together are the granule for every block size up to 2KB that the instruction can have.
\<close>

definition granule_memzero_mapped :: "nat \<Rightarrow> (rmm, unit) M" where
  "granule_memzero_mapped g = modifyM (upd_mem g (\<lambda>_. zero_data))"

definition buffer_granule_memzero :: "nat \<Rightarrow> nat \<Rightarrow> (rmm, unit) M" where
  "buffer_granule_memzero g slot =
    thenM (map_slot (Some g) slot)
    (thenM (granule_memzero_mapped g)
     (buffer_unmap slot))"

definition check_cpu_slots_empty :: "rmm \<Rightarrow> bool" where
  "check_cpu_slots_empty s = list_all (\<lambda>i. slots s i = None) [0..<NR_CPU_SLOTS]"

section \<open>TLB invalidation\<close>

fun tlbi_loop :: "u32 \<Rightarrow> u64 \<Rightarrow> nat \<Rightarrow> (rmm, unit) M" where
  "tlbi_loop vm ipa 0 = returnM ()"
| "tlbi_loop vm ipa (Suc n) =
    thenM (modifyM (\<lambda>s. s\<lparr>tlb_log := tlb_log s @ [TLBI_IPAS2E1IS vm (drop_bit 12 ipa)]\<rparr>))
    (tlbi_loop vm (ipa + GRANULE_SIZE) n)"

text \<open>The size of the range is a multiple of the granule size at all calls.\<close>

definition stage2_tlbi_ipa :: "s2tt_context \<Rightarrow> u64 \<Rightarrow> u64 \<Rightarrow> (rmm, unit) M" where
  "stage2_tlbi_ipa s2_ctx ipa sz =
    thenM (tlbi_loop (vmid s2_ctx) ipa (unat (sz div GRANULE_SIZE)))
    (modifyM (\<lambda>s. s\<lparr>tlb_log := tlb_log s @ [TLBI_VMALLE1IS (vmid s2_ctx)]\<rparr>))"

definition BLOCK_L2_SIZE :: u64 where "BLOCK_L2_SIZE = GRANULE_SIZE * of_nat S2TTES_PER_S2TT"

definition s2tt_invalidate_page :: "s2tt_context \<Rightarrow> u64 \<Rightarrow> (rmm, unit) M" where
  "s2tt_invalidate_page s2_ctx addr = stage2_tlbi_ipa s2_ctx addr GRANULE_SIZE"

definition s2tt_invalidate_block :: "s2tt_context \<Rightarrow> u64 \<Rightarrow> (rmm, unit) M" where
  "s2tt_invalidate_block s2_ctx addr = stage2_tlbi_ipa s2_ctx addr GRANULE_SIZE"

definition s2tt_invalidate_pages_in_block :: "s2tt_context \<Rightarrow> u64 \<Rightarrow> (rmm, unit) M" where
  "s2tt_invalidate_pages_in_block s2_ctx addr = stage2_tlbi_ipa s2_ctx addr BLOCK_L2_SIZE"

section \<open>Reading and writing mapped granules\<close>

definition read_rd :: "nat \<Rightarrow> (rmm, rd) M" where
  "read_rd g = getM (\<lambda>s. d_rd (mem s g))"

definition write_rd :: "nat \<Rightarrow> rd \<Rightarrow> (rmm, unit) M" where
  "write_rd g r = modifyM (upd_mem g (\<lambda>d. d\<lparr>d_rd := r\<rparr>))"

definition read_apt :: "nat \<Rightarrow> (rmm, apt) M" where
  "read_apt g = getM (\<lambda>s. d_apt (mem s g))"

definition write_apt :: "nat \<Rightarrow> apt \<Rightarrow> (rmm, unit) M" where
  "write_apt g a = modifyM (upd_mem g (\<lambda>d. d\<lparr>d_apt := a\<rparr>))"

definition read_rec :: "nat \<Rightarrow> (rmm, rec_data) M" where
  "read_rec g = getM (\<lambda>s. d_rec (mem s g))"

definition write_rec :: "nat \<Rightarrow> rec_data \<Rightarrow> (rmm, unit) M" where
  "write_rec g r = modifyM (upd_mem g (\<lambda>d. d\<lparr>d_rec := r\<rparr>))"

definition read_table :: "nat \<Rightarrow> (rmm, u64 list) M" where
  "read_table g = getM (\<lambda>s. words (mem s g))"

definition write_table :: "nat \<Rightarrow> u64 list \<Rightarrow> (rmm, unit) M" where
  "write_table g t = modifyM (upd_mem g (\<lambda>d. d\<lparr>words := t\<rparr>))"

definition s2tte_read :: "nat \<Rightarrow> u64 \<Rightarrow> (rmm, u64) M" where
  "s2tte_read g idx = getM (\<lambda>s. words (mem s g) ! unat idx)"

definition s2tte_write :: "nat \<Rightarrow> u64 \<Rightarrow> u64 \<Rightarrow> (rmm, unit) M" where
  "s2tte_write g idx s2tte = modifyM (upd_mem g (\<lambda>d. d\<lparr>words := (words d)[unat idx := s2tte]\<rparr>))"

section \<open>Running the buffer operations\<close>

lemma slot_numbers:
  "SLOT_NS = 0" "SLOT_DELEGATED = 1" "SLOT_RD = 2" "SLOT_RD2 = 3" "SLOT_REC = 4" "SLOT_REC2 = 5"
  "SLOT_REC_TARGET = 6" "SLOT_REC_AUX0 = 7" "SLOT_RTT = 23" "SLOT_RTT2 = 24" "SLOT_RSI_CALL = 25"
  "SLOT_EL3_TOKEN_SIGN_REC = 26" "SLOT_EL3_TOKEN_SIGN_AUX0 = 27" "SLOT_APT = 28" "SLOT_APT2 = 29"
  "NR_CPU_SLOTS = 43"
  by (simp_all add: SLOT_NS_def SLOT_DELEGATED_def SLOT_RD_def SLOT_RD2_def SLOT_REC_def SLOT_REC2_def
      SLOT_REC_TARGET_def SLOT_REC_AUX0_def SLOT_RTT_def SLOT_RTT2_def SLOT_RSI_CALL_def
      SLOT_EL3_TOKEN_SIGN_REC_def SLOT_EL3_TOKEN_SIGN_AUX0_def SLOT_APT_def SLOT_APT2_def NR_CPU_SLOTS_def
      MAX_REC_AUX_GRANULES_def)

lemma realm_slots [simp]:
  "is_realm_slot SLOT_DELEGATED" "is_realm_slot SLOT_RD" "is_realm_slot SLOT_RD2" "is_realm_slot SLOT_REC"
  "is_realm_slot SLOT_RTT" "is_realm_slot SLOT_RTT2" "is_realm_slot SLOT_APT" "is_realm_slot SLOT_APT2"
  by (simp_all add: is_realm_slot_def slot_numbers)

text \<open>A granule of the array that has an address.\<close>

definition valid_g :: "arm_dram_layout \<Rightarrow> nat \<Rightarrow> bool" where
  "valid_g d g \<longleftrightarrow> (\<exists>a. granule_at d a = Some g)"

lemma valid_gI [intro]: "granule_at d a = Some g \<Longrightarrow> valid_g d g"
  by (auto simp: valid_g_def)

lemma valid_g_iff: "wf_dram d \<Longrightarrow> valid_g d g \<longleftrightarrow> g < unat (num_granules d)"
proof
  assume wf: "wf_dram d"
  { assume "valid_g d g"
    then obtain a where "granule_at d a = Some g" by (auto simp: valid_g_def)
    then obtain i where "plat_granule_addr_to_idx d a = Inr i" "i < RMM_MAX_GRANULES" "g = unat i"
      by (auto simp: granule_at_def split: sum.split_asm if_split_asm)
    with dram.idx_in_range [OF wf] show "g < unat (num_granules d)"
      by (auto simp: word_less_nat_alt)
  }
  assume g: "g < unat (num_granules d)"
  then have lt: "of_nat g < num_granules d"
    using unat_lt64 [of "num_granules d"] by (simp add: word_less_nat_alt unat_of_nat)
  obtain a where "plat_granule_addr_to_idx d a = Inr (of_nat g)" using dram.to_addr_of_idx [OF wf lt] by blast
  moreover have "(of_nat g :: u64) < RMM_MAX_GRANULES"
    using lt dram.count_bound [OF wf] by (rule order.strict_trans2)
  moreover have "unat (of_nat g :: u64) = g"
    using g unat_lt64 [of "num_granules d"] by (simp add: unat_of_nat)
  ultimately have "granule_at d a = Some g" by (simp add: granule_at_def)
  then show "valid_g d g" ..
qed

lemma map_slot_run:
  assumes "wf_dram (arm_dram s)" "valid_g (arm_dram s) g" "is_realm_slot slot"
  shows "map_slot (Some g) slot s =
    (if slots s slot = None then Inr ((), s\<lparr>slots := (slots s)(slot := Some g)\<rparr>) else Inl Assert_Fail)"
proof -
  obtain a where a: "granule_at (arm_dram s) a = Some g" using assms(2) by (auto simp: valid_g_def)
  show ?thesis
    using assms(1,3) granule_at_aligned [OF a assms(1)]
    by (simp add: map_slot_def buffer_granule_map_def run_simps granule_addr_run [OF assms(1) a])
qed

lemma buffer_unmap_run:
  "slots s slot \<noteq> None \<Longrightarrow> buffer_unmap slot s = Inr ((), s\<lparr>slots := (slots s)(slot := None)\<rparr>)"
  by (simp add: buffer_unmap_def run_simps)

lemma slots_restore: "slots s slot = None \<Longrightarrow> s\<lparr>slots := (slots s)(slot := None)\<rparr> = s"
  by (metis fun_upd_triv rmm.surjective rmm.update_convs(2))

lemma slots_update_twice [simp]:
  "s\<lparr>slots := a\<rparr>\<lparr>slots := b\<rparr> = s\<lparr>slots := b\<rparr>" for s :: rmm
  by simp

subsection \<open>Updates of the memory and of the granules\<close>

lemma upd_mem_simps [simp]:
  "arm_dram (upd_mem g f s) = arm_dram s" "granules (upd_mem g f s) = granules s"
  "slots (upd_mem g f s) = slots s" "mem (upd_mem g f s) = (mem s)(g := f (mem s g))"
  "tags (upd_mem g f s) = tags s" "csm_region_ids (upd_mem g f s) = csm_region_ids s"
  "vmids (upd_mem g f s) = vmids s" "feat_vmid16 (upd_mem g f s) = feat_vmid16 s"
  "tlb_log (upd_mem g f s) = tlb_log s"
  by (simp_all add: upd_mem_def)

lemma upd_granule_rmm_simps [simp]:
  "mem (upd_granule g f s) = mem s" "slots (upd_granule g f s) = slots s"
  "tags (upd_granule g f s) = tags s" "csm_region_ids (upd_granule g f s) = csm_region_ids s"
  "vmids (upd_granule g f s) = vmids s" "feat_vmid16 (upd_granule g f s) = feat_vmid16 s"
  "tlb_log (upd_granule g f s) = tlb_log s" for s :: rmm
  by (simp_all add: upd_granule_def)

lemma slots_upd_comm:
  "upd_mem g f (s\<lparr>slots := k\<rparr>) = (upd_mem g f s)\<lparr>slots := k\<rparr>"
  "upd_granule g h (s\<lparr>slots := k\<rparr>) = (upd_granule g h s)\<lparr>slots := k\<rparr>"
  by (simp_all add: upd_mem_def upd_granule_def)

lemma mem_granule_comm: "upd_mem g f (upd_granule h k s) = upd_granule h k (upd_mem g f s)"
  by (simp add: upd_mem_def upd_granule_def)

lemma memzero_run:
  assumes "wf_dram (arm_dram s)" "valid_g (arm_dram s) g" "is_realm_slot slot" "slots s slot = None"
  shows "buffer_granule_memzero g slot s = Inr ((), upd_mem g (\<lambda>_. zero_data) s)"
proof -
  have "(upd_mem g (\<lambda>_. zero_data) s)\<lparr>slots := (slots s)(slot := None)\<rparr> = upd_mem g (\<lambda>_. zero_data) s"
    using slots_restore [of "upd_mem g (\<lambda>_. zero_data) s" slot] assms(4) by simp
  then show ?thesis
    using assms by (simp add: buffer_granule_memzero_def run_simps map_slot_run granule_memzero_mapped_def
        buffer_unmap_run slots_upd_comm)
qed

section \<open>The invariant of the state between commands\<close>

definition delegated_zero :: "rmm \<Rightarrow> bool" where
  "delegated_zero s \<longleftrightarrow>
     (\<forall>g. \<not> LOCKED (granules s g) \<longrightarrow> STATE (granules s g) = GRANULE_STATE_DELEGATED \<longrightarrow> mem s g = zero_data)"

definition rmm_ok :: "rmm \<Rightarrow> bool" where
  "rmm_ok s \<longleftrightarrow> granules_ok s \<and> (\<forall>k. slots s k = None) \<and> delegated_zero s \<and>
     (\<forall>g. length (words (mem s g)) = 512)"

lemma rmm_okD:
  assumes "rmm_ok s"
  shows "granules_ok s" "wf_dram (arm_dram s)" "slots s k = None" "length (words (mem s g)) = 512"
    "\<not> LOCKED (granules s g) \<Longrightarrow> STATE (granules s g) = GRANULE_STATE_DELEGATED \<Longrightarrow> mem s g = zero_data"
    "\<not> LOCKED (granules s g) \<Longrightarrow> granule_inv (granules s g)"
  using assms by (auto simp: rmm_ok_def delegated_zero_def)

lemma length_zero_words [simp]: "length (words zero_data) = 512"
  by (simp add: zero_data_def)

lemma rmm_ok_upd:
  assumes "rmm_ok s"
    and "\<And>h. LOCKED (granules s' h) = LOCKED (granules s h) \<and> STATE (granules s' h) = STATE (granules s h) \<and>
              REFCOUNT (granules s' h) = REFCOUNT (granules s h) \<and> mem s' h = mem s h \<or>
              length (words (mem s' h)) = 512 \<and>
              (\<not> LOCKED (granules s' h) \<longrightarrow> granule_inv (granules s' h) \<and>
                (STATE (granules s' h) = GRANULE_STATE_DELEGATED \<longrightarrow> mem s' h = zero_data))"
    and "arm_dram s' = arm_dram s" "slots s' = slots s"
  shows "rmm_ok s'"
proof -
  have "granule_inv (granules s' h) \<and> (STATE (granules s' h) = GRANULE_STATE_DELEGATED \<longrightarrow> mem s' h = zero_data)"
    if "\<not> LOCKED (granules s' h)" for h
  proof (cases "length (words (mem s' h)) = 512 \<and>
              (\<not> LOCKED (granules s' h) \<longrightarrow> granule_inv (granules s' h) \<and>
                (STATE (granules s' h) = GRANULE_STATE_DELEGATED \<longrightarrow> mem s' h = zero_data))")
    case True
    then show ?thesis using that by simp
  next
    case False
    with assms(2) have e: "LOCKED (granules s' h) = LOCKED (granules s h)" "STATE (granules s' h) = STATE (granules s h)"
      "REFCOUNT (granules s' h) = REFCOUNT (granules s h)" "mem s' h = mem s h" by blast+
    then show ?thesis
      using that rmm_okD(5,6) [OF assms(1), of h] granule_unlocked_invariants_cong [OF e(3)] by simp
  qed
  moreover have "length (words (mem s' h)) = 512" for h
    using assms(2) [of h] rmm_okD(4) [OF assms(1)] by metis
  ultimately show ?thesis
    using assms(3,4) rmm_okD [OF assms(1)] by (simp add: rmm_ok_def granules_ok_def delegated_zero_def)
qed

end
