(* ===== verification/Rmi_Granule.thy ===== *)
theory Rmi_Granule
  imports Rmm_State
begin

text \<open>
  The commands RMI\_GRANULE\_DELEGATE and RMI\_GRANULE\_UNDELEGATE
  (\<^verbatim>\<open>runtime/rmi/granule.c\<close>): how memory enters and leaves the realm world. The calls to EL3
  that change the physical address space of a granule are a parameter: \<open>el3 addr\<close> says whether
  EL3 granted the request.
\<close>

definition RMI_SUCCESS :: u64 where "RMI_SUCCESS = 0"
definition RMI_ERROR_INPUT :: u64 where "RMI_ERROR_INPUT = 1"
definition RMI_ERROR_REALM :: u64 where "RMI_ERROR_REALM = 2"
definition RMI_ERROR_REC :: u64 where "RMI_ERROR_REC = 3"
definition RMI_ERROR_RTT :: u64 where "RMI_ERROR_RTT = 4"

definition smc_granule_delegate :: "(u64 \<Rightarrow> bool) \<Rightarrow> u64 \<Rightarrow> (rmm, u64) M" where
  "smc_granule_delegate el3_gtsi_delegate addr =
    bindM (find_lock_granule addr GRANULE_STATE_NS) (\<lambda>g_opt.
    (case g_opt of
       None \<Rightarrow> returnM RMI_ERROR_INPUT
     | Some g \<Rightarrow>
         if \<not> el3_gtsi_delegate addr
         then thenM (granule_unlock g) (returnM RMI_ERROR_INPUT)
         else
           thenM (granule_set_state g GRANULE_STATE_DELEGATED)
           (thenM (buffer_granule_memzero g SLOT_DELEGATED)
           (thenM (granule_unlock g)
            (returnM RMI_SUCCESS)))))"

definition smc_granule_undelegate :: "(u64 \<Rightarrow> bool) \<Rightarrow> u64 \<Rightarrow> (rmm, u64) M" where
  "smc_granule_undelegate el3_gtsi_undelegate addr =
    bindM (find_lock_granule addr GRANULE_STATE_DELEGATED) (\<lambda>g_opt.
    (case g_opt of
       None \<Rightarrow> returnM RMI_ERROR_INPUT
     | Some g \<Rightarrow>
         if \<not> el3_gtsi_undelegate addr
         then thenM (granule_unlock g) (failM Panic)
         else
           thenM (granule_set_state g GRANULE_STATE_NS)
           (thenM (granule_unlock g)
            (returnM RMI_SUCCESS))))"

section \<open>Changing the state of a granule\<close>

text \<open>The descriptor of an unlocked, unreferenced granule in a given state.\<close>

definition fresh_granule :: "u8 \<Rightarrow> granule \<Rightarrow> granule" where
  "fresh_granule st g = clear_lock (eor_state st (set_lock g))"

lemma fresh_granule_fields [simp]:
  assumes "st < 32"
  shows "\<not> LOCKED (fresh_granule st g)" "STATE (fresh_granule st g) = st"
    "REFCOUNT (fresh_granule st g) = REFCOUNT g" "owner_tag (fresh_granule st g) = owner_tag g"
  using assms by (simp_all add: fresh_granule_def)

lemma granule_state_less [simp]:
  "GRANULE_STATE_NS < 32" "GRANULE_STATE_DELEGATED < 32" "GRANULE_STATE_RD < 32" "GRANULE_STATE_REC < 32"
  "GRANULE_STATE_REC_AUX < 32" "GRANULE_STATE_DATA < 32" "GRANULE_STATE_RTT < 32" "GRANULE_STATE_APT < 32"
  by (simp_all add: granule_states)

lemma inv_zero_refcount:
  assumes "REFCOUNT g = 0" "STATE g \<in> {GRANULE_STATE_NS, GRANULE_STATE_DELEGATED, GRANULE_STATE_RD,
      GRANULE_STATE_REC, GRANULE_STATE_REC_AUX, GRANULE_STATE_DATA, GRANULE_STATE_RTT, GRANULE_STATE_APT}"
  shows "granule_inv g"
  using assms by (auto simp: granule_unlocked_invariants_def granule_states)

lemma refcount_zero:
  assumes "granule_inv g" "STATE g \<in> {GRANULE_STATE_NS, GRANULE_STATE_DELEGATED, GRANULE_STATE_DATA, GRANULE_STATE_APT,
      GRANULE_STATE_REC_AUX}"
  shows "REFCOUNT g = 0"
  using assms by (auto simp: granule_unlocked_invariants_def granule_states)

section \<open>The commands\<close>

lemma delegate_run:
  assumes ok: "rmm_ok s" and free: "free_at s addr"
  shows "smc_granule_delegate el3 addr s =
    (case granule_at (arm_dram s) addr of
       None \<Rightarrow> Inr (RMI_ERROR_INPUT, s)
     | Some g \<Rightarrow>
         if STATE (granules s g) = GRANULE_STATE_NS \<and> el3 addr
         then Inr (RMI_SUCCESS, upd_mem g (\<lambda>_. zero_data) (upd_granule g (fresh_granule GRANULE_STATE_DELEGATED) s))
         else Inr (RMI_ERROR_INPUT, s))"
proof (cases "granule_at (arm_dram s) addr")
  case None
  then show ?thesis
    by (simp add: smc_granule_delegate_def run_simps find_lock_granule_run [OF rmm_okD(1) [OF ok]])
next
  case (Some g)
  have unl: "\<not> LOCKED (granules s g)" using free Some by (simp add: free_at_def)
  note inv = rmm_okD(6) [OF ok unl]
  note lock = find_lock_granule_run [OF rmm_okD(1) [OF ok]]
  show ?thesis
  proof (cases "STATE (granules s g) = GRANULE_STATE_NS")
    case False
    then show ?thesis using Some unl by (simp add: smc_granule_delegate_def run_simps lock)
  next
    case ns: True
    then have rc: "REFCOUNT (granules s g) = 0" using refcount_zero [OF inv] by simp
    show ?thesis
    proof (cases "el3 addr")
      case False
      then show ?thesis using Some unl ns inv
        by (simp add: smc_granule_delegate_def run_simps lock granule_unlock_run unlock_lock)
    next
      case True
      let ?t = "upd_granule g (\<lambda>x. eor_state GRANULE_STATE_DELEGATED (set_lock x)) s"
      have z: "buffer_granule_memzero g SLOT_DELEGATED ?t = Inr ((), upd_mem g (\<lambda>_. zero_data) ?t)"
        using memzero_run [of ?t g SLOT_DELEGATED] rmm_okD(2,3) [OF ok] Some by auto
      have i: "granule_unlocked_invariants (eor_state GRANULE_STATE_DELEGATED (set_lock (granules s g))) GRANULE_STATE_DELEGATED"
        using inv_zero_refcount [of "eor_state GRANULE_STATE_DELEGATED (set_lock (granules s g))"] rc by simp
      show ?thesis using Some unl ns True i
        by (simp add: smc_granule_delegate_def run_simps lock granule_set_state_run upd_granule_comp z
            granule_unlock_run mem_granule_comm fresh_granule_def)
    qed
  qed
qed

lemma undelegate_run:
  assumes ok: "rmm_ok s" and free: "free_at s addr"
  shows "smc_granule_undelegate el3 addr s =
    (case granule_at (arm_dram s) addr of
       None \<Rightarrow> Inr (RMI_ERROR_INPUT, s)
     | Some g \<Rightarrow>
         if STATE (granules s g) \<noteq> GRANULE_STATE_DELEGATED then Inr (RMI_ERROR_INPUT, s)
         else if el3 addr then Inr (RMI_SUCCESS, upd_granule g (fresh_granule GRANULE_STATE_NS) s)
         else Inl Panic)"
proof (cases "granule_at (arm_dram s) addr")
  case None
  then show ?thesis
    by (simp add: smc_granule_undelegate_def run_simps find_lock_granule_run [OF rmm_okD(1) [OF ok]])
next
  case (Some g)
  have unl: "\<not> LOCKED (granules s g)" using free Some by (simp add: free_at_def)
  note inv = rmm_okD(6) [OF ok unl]
  note lock = find_lock_granule_run [OF rmm_okD(1) [OF ok]]
  show ?thesis
  proof (cases "STATE (granules s g) = GRANULE_STATE_DELEGATED")
    case False
    then show ?thesis using Some unl by (simp add: smc_granule_undelegate_def run_simps lock)
  next
    case dl: True
    then have rc: "REFCOUNT (granules s g) = 0" using refcount_zero [OF inv] by simp
    have i: "granule_unlocked_invariants (eor_state GRANULE_STATE_NS (set_lock (granules s g))) GRANULE_STATE_NS"
      using inv_zero_refcount [of "eor_state GRANULE_STATE_NS (set_lock (granules s g))"] rc by simp
    show ?thesis using Some unl dl i inv
      by (simp add: smc_granule_undelegate_def run_simps lock granule_set_state_run upd_granule_comp
          granule_unlock_run fresh_granule_def)
  qed
qed

text \<open>A state with a delegated granule 1, a realm descriptor granule 2 and non-secure granules.\<close>

definition demo_rmm :: rmm where
  "demo_rmm = \<lparr>arm_dram = fvp_layout, granules = demo_granule, mem = (\<lambda>_. zero_data), slots = (\<lambda>_. None),
     tags = \<lparr>g_tags = replicate 10 zero_tag_entry, g_tag_next_index = 0, g_tag_counter = 1\<rparr>,
     csm_region_ids = csm_ids_boot, vmids = replicate 1024 0, feat_vmid16 = True, tlb_log = []\<rparr>"

lemma demo_rmm_ok: "rmm_ok demo_rmm"
  by (simp add: rmm_ok_def granules_ok_def delegated_zero_def demo_rmm_def demo_granule_fields wf_fvp_layout
      granule_unlocked_invariants_def granule_states)

lemma demo_rmm_free: "free_at demo_rmm a"
  by (simp add: free_at_def demo_rmm_def demo_granule_fields split: option.split)

lemma demo_ns_granule: "granule_at fvp_layout 0x80003000 = Some 3"
  by (simp add: granule_at_def plat_granule_addr_to_idx_def addr_search.simps fvp_layout_def
      GRANULE_ALIGNED_def GRANULE_SIZE_def mid_def PLAT_ARM_MAX_DRAM_BANKS_def RMM_MAX_GRANULES_def)

text \<open>
  C20. RMI\_GRANULE\_DELEGATE. When the granule at the address is not locked, the command returns.
  It succeeds exactly when the address is that of a non-secure granule and EL3 grants the
  request; the granule is then delegated, unlocked and all zero. Otherwise nothing has
  changed. Every other granule and its content are unchanged, and the invariant of the state is kept.
\<close>

theorem granule_delegate_correct:
  assumes "rmm_ok s" and "free_at s addr"
  shows "\<exists>r s'. smc_granule_delegate el3 addr s = Inr (r, s') \<and> rmm_ok s' \<and>
    (r = RMI_SUCCESS \<longleftrightarrow> (\<exists>g. granule_at (arm_dram s) addr = Some g \<and>
       STATE (granules s g) = GRANULE_STATE_NS) \<and> el3 addr) \<and>
    (r \<noteq> RMI_SUCCESS \<longrightarrow> r = RMI_ERROR_INPUT \<and> s' = s) \<and>
    (r = RMI_SUCCESS \<longrightarrow> (\<forall>g. granule_at (arm_dram s) addr = Some g \<longrightarrow>
       STATE (granules s' g) = GRANULE_STATE_DELEGATED \<and> \<not> LOCKED (granules s' g) \<and> mem s' g = zero_data \<and>
       (\<forall>h. h \<noteq> g \<longrightarrow> granules s' h = granules s h \<and> mem s' h = mem s h)))"
proof (cases "\<exists>g. granule_at (arm_dram s) addr = Some g \<and> STATE (granules s g) = GRANULE_STATE_NS \<and> el3 addr")
  case False
  then have "smc_granule_delegate el3 addr s = Inr (RMI_ERROR_INPUT, s)"
    using delegate_run [OF assms] by (auto split: option.splits)
  then show ?thesis using False assms(1) by (auto simp: RMI_SUCCESS_def RMI_ERROR_INPUT_def)
next
  case True
  then obtain g where g: "granule_at (arm_dram s) addr = Some g" "STATE (granules s g) = GRANULE_STATE_NS" "el3 addr"
    by blast
  let ?s = "upd_mem g (\<lambda>_. zero_data) (upd_granule g (fresh_granule GRANULE_STATE_DELEGATED) s)"
  have run: "smc_granule_delegate el3 addr s = Inr (RMI_SUCCESS, ?s)" using delegate_run [OF assms] g by simp
  have unl: "\<not> LOCKED (granules s g)" using assms(2) g by (simp add: free_at_def)
  have rc: "REFCOUNT (granules s g) = 0" using refcount_zero [OF rmm_okD(6) [OF assms(1) unl]] g by simp
  have "granule_inv (fresh_granule GRANULE_STATE_DELEGATED (granules s g))"
    by (rule inv_zero_refcount) (simp_all add: rc)
  then have "rmm_ok ?s" by (intro rmm_ok_upd [OF assms(1)]) auto
  then show ?thesis using run g by (intro exI [of _ RMI_SUCCESS] exI [of _ ?s]) auto
qed

theorem granule_delegate_correct_witness:
  "\<exists>s'. smc_granule_delegate (\<lambda>_. True) 0x80003000 demo_rmm = Inr (RMI_SUCCESS, s') \<and>
     STATE (granules s' 3) = GRANULE_STATE_DELEGATED \<and> mem s' 3 = zero_data"
proof -
  have g: "granule_at (arm_dram demo_rmm) 0x80003000 = Some 3"
    "STATE (granules demo_rmm 3) = GRANULE_STATE_NS"
    by (simp_all add: demo_rmm_def demo_ns_granule demo_granule_fields GRANULE_STATE_NS_def)
  show ?thesis
    using granule_delegate_correct [OF demo_rmm_ok demo_rmm_free, of "\<lambda>_. True" "0x80003000"] g by auto
qed

text \<open>
  C21. RMI\_GRANULE\_UNDELEGATE gives no realm data to the host. When the granule is not locked
  and EL3 grants the request, the command returns; it succeeds exactly for a delegated
  granule, which then is non-secure, unlocked, and holds only zeroes. Otherwise nothing has changed. Every
  other granule and all contents are unchanged, and the invariant of the state is kept.
\<close>

theorem granule_undelegate_no_leak:
  assumes "rmm_ok s" and "free_at s addr" and "el3 addr"
  shows "\<exists>r s'. smc_granule_undelegate el3 addr s = Inr (r, s') \<and> rmm_ok s' \<and>
    (r = RMI_SUCCESS \<longleftrightarrow> (\<exists>g. granule_at (arm_dram s) addr = Some g \<and>
       STATE (granules s g) = GRANULE_STATE_DELEGATED)) \<and>
    (r \<noteq> RMI_SUCCESS \<longrightarrow> r = RMI_ERROR_INPUT \<and> s' = s) \<and>
    (r = RMI_SUCCESS \<longrightarrow> (\<forall>g. granule_at (arm_dram s) addr = Some g \<longrightarrow>
       STATE (granules s' g) = GRANULE_STATE_NS \<and> \<not> LOCKED (granules s' g) \<and> mem s' g = zero_data \<and>
       (\<forall>h. h \<noteq> g \<longrightarrow> granules s' h = granules s h) \<and> mem s' = mem s))"
proof (cases "\<exists>g. granule_at (arm_dram s) addr = Some g \<and> STATE (granules s g) = GRANULE_STATE_DELEGATED")
  case False
  then have "smc_granule_undelegate el3 addr s = Inr (RMI_ERROR_INPUT, s)"
    using undelegate_run [OF assms(1,2)] by (auto split: option.splits)
  then show ?thesis using False assms(1) by (auto simp: RMI_SUCCESS_def RMI_ERROR_INPUT_def)
next
  case True
  then obtain g where g: "granule_at (arm_dram s) addr = Some g" "STATE (granules s g) = GRANULE_STATE_DELEGATED"
    by blast
  let ?s = "upd_granule g (fresh_granule GRANULE_STATE_NS) s"
  have run: "smc_granule_undelegate el3 addr s = Inr (RMI_SUCCESS, ?s)" using undelegate_run [OF assms(1,2)] g assms(3) by simp
  have unl: "\<not> LOCKED (granules s g)" using assms(2) g by (simp add: free_at_def)
  have z: "mem s g = zero_data" using rmm_okD(5) [OF assms(1) unl g(2)] .
  have rc: "REFCOUNT (granules s g) = 0" using refcount_zero [OF rmm_okD(6) [OF assms(1) unl]] g by simp
  have "granule_inv (fresh_granule GRANULE_STATE_NS (granules s g))"
    by (rule inv_zero_refcount) (simp_all add: rc)
  then have "rmm_ok ?s" by (intro rmm_ok_upd [OF assms(1)]) (auto simp: z)
  then show ?thesis using run g z by (intro exI [of _ RMI_SUCCESS] exI [of _ ?s]) auto
qed

theorem granule_undelegate_no_leak_witness:
  "\<exists>s'. smc_granule_undelegate (\<lambda>_. True) 0x80001000 demo_rmm = Inr (RMI_SUCCESS, s') \<and>
     STATE (granules s' 1) = GRANULE_STATE_NS \<and> mem s' 1 = zero_data"
proof -
  have g: "granule_at (arm_dram demo_rmm) 0x80001000 = Some 1"
    "STATE (granules demo_rmm 1) = GRANULE_STATE_DELEGATED"
    by (simp_all add: demo_rmm_def demo_granule_at demo_granule_fields GRANULE_STATE_DELEGATED_def)
  show ?thesis
    using granule_undelegate_no_leak [OF demo_rmm_ok demo_rmm_free, of "\<lambda>_. True" "0x80001000"] g by auto
qed

end
