(* ===== verification/Held.thy ===== *)
theory Held
  imports Rmi_Granule
begin

text \<open>
  Running the command handlers. A handler takes locks, maps granules in buffer slots, updates
  granules and their contents, and gives the locks and slots back. Its states are written
  \<open>held L M s\<close>: the state \<open>s\<close>, in which the handler holds the locks \<open>L\<close> and has the slots \<open>M\<close> mapped.
  The rules here run each operation on such a state; the rules of \<open>held_simps\<close> are conditional
  equations, so that the simplifier executes a handler. A state between commands, in which
  nobody holds a lock, is \<open>idle\<close>.
\<close>

definition held :: "nat set \<Rightarrow> (nat \<Rightarrow> nat option) \<Rightarrow> rmm \<Rightarrow> rmm" where
  "held L M s = s\<lparr>granules := (\<lambda>g. if g \<in> L then set_lock (granules s g) else granules s g), slots := M\<rparr>"

named_theorems held_simps \<open>running the operations of the handlers on a state with locks and slots held\<close>

lemma held_fields [simp]:
  "arm_dram (held L M s) = arm_dram s" "mem (held L M s) = mem s" "slots (held L M s) = M"
  "tags (held L M s) = tags s" "csm_region_ids (held L M s) = csm_region_ids s"
  "vmids (held L M s) = vmids s" "feat_vmid16 (held L M s) = feat_vmid16 s" "tlb_log (held L M s) = tlb_log s"
  "granules (held L M s) g = (if g \<in> L then set_lock (granules s g) else granules s g)"
  by (simp_all add: held_def)

abbreviation no_slots :: "nat \<Rightarrow> nat option" where
  "no_slots \<equiv> (\<lambda>_. None)"

lemma held_empty: "slots s = no_slots \<Longrightarrow> held {} no_slots s = s"
  by (simp add: held_def)

text \<open>Slots that have been unmapped again.\<close>

lemma unmap_slot [held_simps]:
  "(\<lambda>_. None)(k := None) = no_slots"
  "(f(k := Some x))(j := None) = (if j = k then f(j := None) else (f(j := None))(k := Some x))"
  by auto

lemma held_upd:
  "upd_mem g h (held L M s) = held L M (upd_mem g h s)"
  "g \<in> L \<Longrightarrow> set_lock (f (granules s g)) = f (set_lock (granules s g)) \<Longrightarrow>
     upd_granule g f (held L M s) = held L M (upd_granule g f s)"
  by (auto simp: held_def upd_mem_def upd_granule_def fun_eq_iff)

lemma held_lock: "g \<notin> L \<Longrightarrow> upd_granule g set_lock (held L M s) = held (insert g L) M s"
  by (auto simp: held_def upd_granule_def fun_eq_iff)

lemma held_unlock:
  "g \<in> L \<Longrightarrow> \<not> LOCKED (granules s g) \<Longrightarrow> upd_granule g clear_lock (held L M s) = held (L - {g}) M s"
  by (auto simp: held_def upd_granule_def fun_eq_iff clear_set_lock)

section \<open>Locks\<close>

text \<open>A granule that the handler can lock: nobody holds it and the asserted conditions hold.\<close>

definition lockable :: "nat set \<Rightarrow> rmm \<Rightarrow> nat \<Rightarrow> bool" where
  "lockable L s g \<longleftrightarrow> g \<notin> L \<and> \<not> LOCKED (granules s g) \<and> granule_inv (granules s g)"

lemma lock_on_state_match_held:
  assumes "lockable L s g"
  shows "granule_lock_on_state_match g st (held L M s) =
    (if STATE (granules s g) = st then Inr (True, held (insert g L) M s) else Inr (False, held L M s))"
proof -
  have l: "g \<notin> L" "\<not> LOCKED (granules s g)" "granule_inv (granules s g)"
    using assms by (simp_all add: lockable_def)
  have "insert g L - {g} = L" using l(1) by simp
  then show ?thesis using l
    by (auto simp: granule_lock_on_state_match_def granule_bitlock_acquire_def granule_get_state_def
        granule_bitlock_release_def assert_unlocked_invariants_def run_simps held_lock held_unlock)
qed

lemma granule_lock_held [held_simps]:
  "lockable L s g \<Longrightarrow> STATE (granules s g) = st \<Longrightarrow>
   granule_lock g st (held L M s) = Inr ((), held (insert g L) M s)"
  by (simp add: granule_lock_def run_simps lock_on_state_match_held)

text \<open>The granule at an address, if it is in the given state.\<close>

definition granule_in :: "'z gstate_scheme \<Rightarrow> u64 \<Rightarrow> u8 \<Rightarrow> nat option" where
  "granule_in s a st =
    (case granule_at (arm_dram s) a of
       None \<Rightarrow> None
     | Some g \<Rightarrow> if STATE (granules s g) = st then Some g else None)"

lemma granule_inD:
  assumes "granule_in s a st = Some g"
  shows "granule_at (arm_dram s) a = Some g" "STATE (granules s g) = st" "valid_g (arm_dram s) g"
  using assms by (auto simp: granule_in_def split: option.splits if_splits)

lemma find_lock_granule_held:
  assumes "wf_dram (arm_dram s)" "\<And>g. granule_at (arm_dram s) a = Some g \<Longrightarrow> lockable L s g"
  shows "find_lock_granule a st (held L M s) =
    (case granule_in s a st of
       None \<Rightarrow> Inr (None, held L M s)
     | Some g \<Rightarrow> Inr (Some g, held (insert g L) M s))"
  using assms
  by (auto simp: find_lock_granule_def run_simps lock_on_state_match_held granule_in_def split: option.split)

lemma granule_unlock_held [held_simps]:
  "g \<in> L \<Longrightarrow> \<not> LOCKED (granules s g) \<Longrightarrow> granule_inv (granules s g) \<Longrightarrow>
   granule_unlock g (held L M s) = Inr ((), held (L - {g}) M s)"
  by (simp add: granule_unlock_run held_unlock)

lemma set_state_lock: "st < 32 \<Longrightarrow> set_lock (eor_state st x) = eor_state st (set_lock x)"
  by (rule granule_eqI) simp_all

lemma granule_set_state_held [held_simps]:
  "g \<in> L \<Longrightarrow> st < 32 \<Longrightarrow>
   granule_set_state g st (held L M s) = Inr ((), held L M (upd_granule g (eor_state st) s))"
  by (simp add: granule_set_state_run held_upd set_state_lock)

lemma granule_unlock_transition_held [held_simps]:
  assumes "g \<in> L" "st < 32" "\<not> LOCKED (granules s g)" "granule_unlocked_invariants (granules s g) st"
  shows "granule_unlock_transition g st (held L M s) = Inr ((), held (L - {g}) M (upd_granule g (eor_state st) s))"
proof -
  have "granule_unlocked_invariants (eor_state st (granules s g)) st"
    using assms granule_unlocked_invariants_cong [of "eor_state st (granules s g)" "granules s g"] by simp
  then show ?thesis
    using assms by (simp add: granule_unlock_transition_def run_simps granule_set_state_held granule_unlock_held)
qed

text \<open>Reference counts.\<close>

lemma set_lock_add: "unat (REFCOUNT x) + unat v \<le> 1023 \<Longrightarrow> set_lock (add_desc v x) = add_desc v (set_lock x)"
  by (rule granule_eqI) (simp_all add: refcount_add_fields)

lemma set_lock_sub: "v \<le> REFCOUNT x \<Longrightarrow> set_lock (add_desc (- v) x) = add_desc (- v) (set_lock x)"
  by (rule granule_eqI) (simp_all add: refcount_sub_fields)

lemma refcount_inc_held [held_simps]:
  "g \<in> L \<Longrightarrow> unat (REFCOUNT (granules s g)) + unat v \<le> 1023 \<Longrightarrow>
   granule_refcount_inc g v (held L M s) = Inr ((), held L M (upd_granule g (add_desc v) s))"
  by (simp add: granule_refcount_inc_run held_upd set_lock_add)

lemma refcount_dec_held [held_simps]:
  "g \<in> L \<Longrightarrow> v \<le> REFCOUNT (granules s g) \<Longrightarrow>
   granule_refcount_dec g v (held L M s) = Inr ((), held L M (upd_granule g (add_desc (- v)) s))"
  by (simp add: granule_refcount_dec_run held_upd set_lock_sub)

lemma granule_get_held [held_simps]:
  "g \<in> L \<Longrightarrow> unat (REFCOUNT (granules s g)) < 1023 \<Longrightarrow>
   atomic_granule_get g (held L M s) = Inr ((), held L M (upd_granule g (add_desc 1) s))"
  by (simp add: atomic_granule_get_def held_simps)

lemma granule_put_held [held_simps]:
  "g \<in> L \<Longrightarrow> REFCOUNT (granules s g) \<noteq> 0 \<Longrightarrow>
   atomic_granule_put g (held L M s) = Inr ((), held L M (upd_granule g (add_desc (- 1)) s))"
  by (simp add: atomic_granule_put_def refcount_dec_held [where v = 1, simplified] word_le_nat_alt unat_gt_0 Suc_leI)

lemma refcount_read_held [held_simps]:
  "g \<in> L \<Longrightarrow> granule_refcount_read g (held L M s) = Inr (REFCOUNT (granules s g), held L M s)"
  "g \<in> L \<Longrightarrow> granule_refcount_read_acquire g (held L M s) = Inr (REFCOUNT (granules s g), held L M s)"
  by (simp_all add: granule_refcount_read_def granule_refcount_read_acquire_def run_simps)

section \<open>Slots and contents\<close>

lemma map_slot_held [held_simps]:
  "wf_dram (arm_dram s) \<Longrightarrow> valid_g (arm_dram s) g \<Longrightarrow> is_realm_slot slot \<Longrightarrow> M slot = None \<Longrightarrow>
   map_slot (Some g) slot (held L M s) = Inr ((), held L (M(slot := Some g)) s)"
  by (simp add: map_slot_run) (simp add: held_def)

lemma buffer_unmap_held [held_simps]:
  "M k \<noteq> None \<Longrightarrow> buffer_unmap k (held L M s) = Inr ((), held L (M(k := None)) s)"
  by (simp add: buffer_unmap_run) (simp add: held_def)

lemma memzero_mapped_held [held_simps]:
  "granule_memzero_mapped g (held L M s) = Inr ((), held L M (upd_mem g (\<lambda>_. zero_data) s))"
  by (simp add: granule_memzero_mapped_def run_simps held_upd)

lemma memzero_held [held_simps]:
  "wf_dram (arm_dram s) \<Longrightarrow> valid_g (arm_dram s) g \<Longrightarrow> is_realm_slot slot \<Longrightarrow> M slot = None \<Longrightarrow>
   buffer_granule_memzero g slot (held L M s) = Inr ((), held L M (upd_mem g (\<lambda>_. zero_data) s))"
  by (simp add: memzero_run held_upd)

lemma read_held [held_simps]:
  "read_rd g (held L M s) = Inr (d_rd (mem s g), held L M s)"
  "read_apt g (held L M s) = Inr (d_apt (mem s g), held L M s)"
  "read_rec g (held L M s) = Inr (d_rec (mem s g), held L M s)"
  "read_table g (held L M s) = Inr (words (mem s g), held L M s)"
  "s2tte_read g idx (held L M s) = Inr (words (mem s g) ! unat idx, held L M s)"
  by (simp_all add: read_rd_def read_apt_def read_rec_def read_table_def s2tte_read_def run_simps)

lemma write_held [held_simps]:
  "write_rd g r (held L M s) = Inr ((), held L M (upd_mem g (\<lambda>d. d\<lparr>d_rd := r\<rparr>) s))"
  "write_apt g a (held L M s) = Inr ((), held L M (upd_mem g (\<lambda>d. d\<lparr>d_apt := a\<rparr>) s))"
  "write_rec g c (held L M s) = Inr ((), held L M (upd_mem g (\<lambda>d. d\<lparr>d_rec := c\<rparr>) s))"
  "write_table g t (held L M s) = Inr ((), held L M (upd_mem g (\<lambda>d. d\<lparr>words := t\<rparr>) s))"
  "s2tte_write g idx e (held L M s) = Inr ((), held L M (upd_mem g (\<lambda>d. d\<lparr>words := (words d)[unat idx := e]\<rparr>) s))"
  by (simp_all add: write_rd_def write_apt_def write_rec_def write_table_def s2tte_write_def run_simps held_upd)

section \<open>TLB invalidation\<close>

definition tlbi_events :: "s2tt_context \<Rightarrow> u64 \<Rightarrow> nat \<Rightarrow> tlb_event list" where
  "tlbi_events s2_ctx ipa n =
    map (\<lambda>i. TLBI_IPAS2E1IS (vmid s2_ctx) (drop_bit 12 (ipa + of_nat i * GRANULE_SIZE))) [0..<n] @
    [TLBI_VMALLE1IS (vmid s2_ctx)]"

definition log_tlbi :: "tlb_event list \<Rightarrow> rmm \<Rightarrow> rmm" where
  "log_tlbi es s = s\<lparr>tlb_log := tlb_log s @ es\<rparr>"

lemma log_tlbi_fields [simp]:
  "arm_dram (log_tlbi es s) = arm_dram s" "mem (log_tlbi es s) = mem s" "slots (log_tlbi es s) = slots s"
  "granules (log_tlbi es s) = granules s" "tags (log_tlbi es s) = tags s"
  "csm_region_ids (log_tlbi es s) = csm_region_ids s" "vmids (log_tlbi es s) = vmids s"
  "feat_vmid16 (log_tlbi es s) = feat_vmid16 s" "tlb_log (log_tlbi es s) = tlb_log s @ es"
  by (simp_all add: log_tlbi_def)

lemma held_log: "(held L M s)\<lparr>tlb_log := tlb_log s @ es\<rparr> = held L M (log_tlbi es s)"
  by (rule rmm.equality) (auto simp: held_def log_tlbi_def fun_eq_iff)

lemma log_tlbi_log [simp]: "log_tlbi fs (log_tlbi es s) = log_tlbi (es @ fs) s"
  by (simp add: log_tlbi_def)

lemma modify_log_held: "modifyM (\<lambda>s. s\<lparr>tlb_log := tlb_log s @ es\<rparr>) (held L M s) = Inr ((), held L M (log_tlbi es s))"
  by (simp add: run_modifyM held_log)

lemma tlbi_loop_held:
  "tlbi_loop v ipa n (held L M s) =
     Inr ((), held L M (log_tlbi (map (\<lambda>i. TLBI_IPAS2E1IS v (drop_bit 12 (ipa + of_nat i * GRANULE_SIZE))) [0..<n]) s))"
proof (induction n arbitrary: ipa s)
  case 0
  then show ?case by (simp add: run_simps log_tlbi_def)
next
  case (Suc n)
  have e: "[0..<Suc n] = 0 # map Suc [0..<n]" by (simp add: upt_conv_Cons map_Suc_upt)
  show ?case
    using Suc [of "ipa + GRANULE_SIZE" "log_tlbi [TLBI_IPAS2E1IS v (drop_bit 12 ipa)] s"]
    unfolding e by (simp add: run_bindM run_thenM modify_log_held algebra_simps o_def)
qed

lemma tlbi_held [held_simps]:
  "s2tt_invalidate_page s2_ctx addr (held L M s) = Inr ((), held L M (log_tlbi (tlbi_events s2_ctx addr 1) s))"
  "s2tt_invalidate_block s2_ctx addr (held L M s) = Inr ((), held L M (log_tlbi (tlbi_events s2_ctx addr 1) s))"
  "s2tt_invalidate_pages_in_block s2_ctx addr (held L M s) =
     Inr ((), held L M (log_tlbi (tlbi_events s2_ctx addr 512) s))"
  by (simp_all add: s2tt_invalidate_page_def s2tt_invalidate_block_def s2tt_invalidate_pages_in_block_def
      stage2_tlbi_ipa_def run_thenM run_returnM tlbi_loop_held modify_log_held tlbi_events_def GRANULE_SIZE_def BLOCK_L2_SIZE_def)

section \<open>States between commands\<close>

definition idle :: "rmm \<Rightarrow> bool" where
  "idle s \<longleftrightarrow> rmm_ok s \<and> (\<forall>g. \<not> LOCKED (granules s g))"

lemma idleD:
  assumes "idle s"
  shows "rmm_ok s" "\<not> LOCKED (granules s g)" "wf_dram (arm_dram s)" "slots s = no_slots"
    "granule_inv (granules s g)" "length (words (mem s g)) = 512"
    "STATE (granules s g) = GRANULE_STATE_DELEGATED \<Longrightarrow> mem s g = zero_data"
  using assms by (auto simp: idle_def dest: rmm_okD)

lemma idle_inv: "idle s \<Longrightarrow> STATE (granules s g) = st \<Longrightarrow> granule_unlocked_invariants (granules s g) st"
  using idleD(5) by blast

lemma idle_lockable: "idle s \<Longrightarrow> lockable L s g \<longleftrightarrow> g \<notin> L"
  by (auto simp: lockable_def dest: idleD)

lemma idle_held: "idle s \<Longrightarrow> s = held {} no_slots s"
  by (simp add: held_empty idleD)

text \<open>What has to be checked of the state after a command.\<close>

lemma idleI:
  assumes "wf_dram (arm_dram s)" "slots s = no_slots"
    and "\<And>g. \<not> LOCKED (granules s g) \<and> granule_inv (granules s g) \<and> length (words (mem s g)) = 512 \<and>
           (STATE (granules s g) = GRANULE_STATE_DELEGATED \<longrightarrow> mem s g = zero_data)"
  shows "idle s"
  using assms by (simp add: idle_def rmm_ok_def granules_ok_def delegated_zero_def)

lemma idle_change:
  assumes "idle s" "arm_dram s' = arm_dram s" "slots s' = slots s"
    and "\<And>h. \<not> LOCKED (granules s' h)" "\<And>h. length (words (mem s' h)) = 512"
    and "\<And>h. REFCOUNT (granules s' h) = REFCOUNT (granules s h) \<and> STATE (granules s' h) = STATE (granules s h) \<or>
      granule_inv (granules s' h)"
    and "\<And>h. STATE (granules s' h) = GRANULE_STATE_DELEGATED \<Longrightarrow>
      STATE (granules s h) = GRANULE_STATE_DELEGATED \<and> mem s' h = mem s h \<or> mem s' h = zero_data"
  shows "idle s'"
proof (rule idleI)
  fix h
  have "granule_inv (granules s' h)"
    using assms(6) [of h] idleD(5) [OF assms(1), of h] granule_unlocked_invariants_cong [of "granules s' h" "granules s h"] by metis
  then show "\<not> LOCKED (granules s' h) \<and> granule_inv (granules s' h) \<and> length (words (mem s' h)) = 512 \<and>
    (STATE (granules s' h) = GRANULE_STATE_DELEGATED \<longrightarrow> mem s' h = zero_data)"
    using assms(4,5) assms(7) [of h] idleD(7) [OF assms(1), of h] by auto
qed (use assms(2,3) idleD(3,4) [OF assms(1)] in simp_all)

lemma find_lock_two_held [held_simps]:
  assumes "idle s" "st1 \<noteq> st2"
  shows "find_lock_two_granules a1 st1 a2 st2 (held {} no_slots s) =
    (case granule_in s a1 st1 of
       None \<Rightarrow> Inr (None, held {} no_slots s)
     | Some g1 \<Rightarrow>
         (case granule_in s a2 st2 of
            None \<Rightarrow> Inr (None, held {} no_slots s)
          | Some g2 \<Rightarrow> Inr (Some (g1, g2), held {g1, g2} no_slots s)))"
proof -
  have ok: "granules_ok s" using idleD(1) [OF assms(1)] by (rule rmm_okD)
  have free: "free_at s a" for a using idleD(2) [OF assms(1)] by (auto simp: free_at_def split: option.split)
  have l: "lock_all [g1, g2] s = held {g1, g2} no_slots s"
    if "STATE (granules s g1) \<noteq> STATE (granules s g2)" for g1 g2
  proof -
    have ne: "g1 \<noteq> g2" using that by auto
    have "upd_granule g1 set_lock (upd_granule g2 set_lock (held {} no_slots s)) = held {g1, g2} no_slots s"
      using ne by (simp add: held_lock)
    then show ?thesis using idle_held [OF assms(1)] by simp
  qed
  show ?thesis
    using find_lock_two_granules_run [OF ok free free, of a1 st1 a2 st2] idle_held [OF assms(1)] assms(2)
    by (cases "granule_at (arm_dram s) a1"; cases "granule_at (arm_dram s) a2")
      (auto simp: granule_in_def l simp del: lock_all.simps)
qed

end
