(* ===== verification/Rtt_Walk.thy ===== *)
theory Rtt_Walk
  imports Held
begin

text \<open>
  The walk through the stage 2 translation tables of a realm (\<^verbatim>\<open>s2tt_walk_lock_unlock\<close> in
  \<^verbatim>\<open>lib/s2tt/src/s2tt.c\<close>), with hand-over-hand locking, and its specification: the last table of the
  chain of tables that the entries for the address name.
\<close>

section \<open>The walk\<close>

definition table_get_entry :: "s2tt_context \<Rightarrow> nat \<Rightarrow> u64 \<Rightarrow> (rmm, u64) M" where
  "table_get_entry s2_ctx g_tbl idx =
    thenM (map_slot (Some g_tbl) SLOT_RTT)
    (bindM (s2tte_read g_tbl idx) (\<lambda>entry.
     thenM (buffer_unmap SLOT_RTT)
     (returnM entry)))"

definition table_entry_to_phys :: "u64 \<Rightarrow> bool \<Rightarrow> ('s, u64) M" where
  "table_entry_to_phys tte lpa2 = s2tte_to_pa tte S2TT_PAGE_LEVEL lpa2"

definition find_next_level_idx :: "s2tt_context \<Rightarrow> nat \<Rightarrow> u64 \<Rightarrow> (rmm, nat option) M" where
  "find_next_level_idx s2_ctx g_tbl idx =
    bindM (table_get_entry s2_ctx g_tbl idx) (\<lambda>entry.
    if \<not> entry_is_table entry then returnM None
    else bindM (table_entry_to_phys entry (enable_lpa2 s2_ctx)) (\<lambda>pa.
         bindM (addr_to_granule pa) (\<lambda>g. returnM (Some g))))"

definition find_lock_next_level :: "s2tt_context \<Rightarrow> nat \<Rightarrow> u64 \<Rightarrow> int \<Rightarrow> (rmm, nat option) M" where
  "find_lock_next_level s2_ctx g_tbl map_addr level =
    (let idx = s2_addr_to_idx map_addr level
     in bindM (find_next_level_idx s2_ctx g_tbl idx) (\<lambda>g.
        (case g of
           None \<Rightarrow> returnM None
         | Some g' \<Rightarrow> thenM (granule_lock g' GRANULE_STATE_RTT) (returnM g))))"

text \<open>
  The loop over the levels, \<open>n\<close> iterations from level \<open>i\<close>; the current table stands for the
  array \<^verbatim>\<open>g_tbls\<close>, of which only the entry written last is used.
\<close>

fun walk_loop :: "s2tt_context \<Rightarrow> u64 \<Rightarrow> nat \<Rightarrow> int \<Rightarrow> nat \<Rightarrow> (rmm, nat \<times> int) M" where
  "walk_loop s2_ctx map_addr 0 i g_tbl = returnM (g_tbl, i)"
| "walk_loop s2_ctx map_addr (Suc n) i g_tbl =
    bindM (find_lock_next_level s2_ctx g_tbl map_addr i) (\<lambda>next.
    (case next of
       None \<Rightarrow> returnM (g_tbl, i)
     | Some g_next \<Rightarrow>
         thenM (granule_unlock g_tbl)
         (walk_loop s2_ctx map_addr n (i + 1) g_next)))"

text \<open>The starting level table of an address, which may be one of several concatenated ones.\<close>

definition lock_start_table :: "s2tt_context \<Rightarrow> u64 \<Rightarrow> nat \<Rightarrow> (rmm, nat) M" where
  "lock_start_table s2_ctx map_addr g_root =
    (let sl_idx = s2_sl_addr_to_idx map_addr (s2_starting_level s2_ctx) (unat (ipa_bits s2_ctx))
     in if sl_idx \<ge> of_nat S2TTES_PER_S2TT
        then (let tt_num = (ucast (drop_bit S2TTE_STRIDE sl_idx) :: u32);
                  g_concat_root = g_root + unat tt_num
              in thenM (assertM (tt_num < num_root_rtts s2_ctx))
                 (thenM (granule_lock g_concat_root GRANULE_STATE_RTT)
                 (thenM (granule_unlock g_root)
                  (returnM g_concat_root))))
        else returnM g_root)"

definition s2tt_walk_lock_unlock :: "s2tt_context \<Rightarrow> u64 \<Rightarrow> int \<Rightarrow> (rmm, s2tt_walk) M" where
  "s2tt_walk_lock_unlock s2_ctx map_addr level =
    (let start_level = s2_starting_level s2_ctx
     in thenM (assertM (level \<ge> start_level))
        (thenM (assertM (level \<le> S2TT_PAGE_LEVEL))
        (thenM (assertM (map_addr < push_bit (unat (ipa_bits s2_ctx)) 1))
        (thenM (assertM (unat (ipa_bits s2_ctx) \<le> (if enable_lpa2 s2_ctx then S2TTE_OA_BITS_LPA2 else S2TTE_OA_BITS)))
        (case g_rtt s2_ctx of
           None \<Rightarrow> failM Assert_Fail
         | Some g \<Rightarrow>
             bindM (lock_start_table s2_ctx map_addr g) (\<lambda>g_root.
             bindM (walk_loop s2_ctx map_addr (nat (level - start_level)) start_level g_root) (\<lambda>(g, l).
             returnM \<lparr>g_llt = Some g, wi_index = s2_addr_to_idx map_addr l, last_level = l\<rparr>)))))))"

section \<open>The specification of the walk\<close>

definition table_entry :: "rmm \<Rightarrow> nat \<Rightarrow> u64 \<Rightarrow> int \<Rightarrow> u64" where
  "table_entry s g addr i = words (mem s g) ! unat (s2_addr_to_idx addr i)"

definition start_table :: "s2tt_context \<Rightarrow> u64 \<Rightarrow> nat" where
  "start_table s2_ctx addr =
    the (g_rtt s2_ctx) + unat (s2_sl_addr_to_idx addr (s2_starting_level s2_ctx) (unat (ipa_bits s2_ctx))) div S2TTES_PER_S2TT"

fun follow_tables :: "rmm \<Rightarrow> s2tt_context \<Rightarrow> u64 \<Rightarrow> nat \<Rightarrow> int \<Rightarrow> nat \<Rightarrow> nat \<times> int" where
  "follow_tables s s2_ctx addr 0 i g = (g, i)"
| "follow_tables s s2_ctx addr (Suc n) i g =
    (if entry_is_table (table_entry s g addr i)
     then follow_tables s s2_ctx addr n (i + 1)
            (the (granule_at (arm_dram s) (to_pa_value (table_entry s g addr i) S2TT_PAGE_LEVEL (enable_lpa2 s2_ctx))))
     else (g, i))"

definition rtt_walk :: "rmm \<Rightarrow> s2tt_context \<Rightarrow> u64 \<Rightarrow> int \<Rightarrow> nat \<times> int" where
  "rtt_walk s s2_ctx addr level =
    follow_tables s s2_ctx addr (nat (level - s2_starting_level s2_ctx)) (s2_starting_level s2_ctx) (start_table s2_ctx addr)"

text \<open>The table granules: in the RTT state, with an address.\<close>

definition is_rtt :: "rmm \<Rightarrow> nat \<Rightarrow> bool" where
  "is_rtt s g \<longleftrightarrow> valid_g (arm_dram s) g \<and> STATE (granules s g) = GRANULE_STATE_RTT"

text \<open>The tables for an address are well-formed: each table entry above the page level names a table.\<close>

fun tables_ok :: "rmm \<Rightarrow> s2tt_context \<Rightarrow> u64 \<Rightarrow> nat \<Rightarrow> int \<Rightarrow> nat \<Rightarrow> bool" where
  "tables_ok s s2_ctx addr 0 i g = is_rtt s g"
| "tables_ok s s2_ctx addr (Suc n) i g =
    (is_rtt s g \<and>
     (entry_is_table (table_entry s g addr i) \<longrightarrow>
       (case granule_at (arm_dram s) (to_pa_value (table_entry s g addr i) S2TT_PAGE_LEVEL (enable_lpa2 s2_ctx)) of
          None \<Rightarrow> False
        | Some g' \<Rightarrow> g' \<noteq> g \<and> tables_ok s s2_ctx addr n (i + 1) g')))"

text \<open>A realm's translation context with the tables for an address in a state.\<close>

definition wf_ctx :: "s2tt_context \<Rightarrow> bool" where
  "wf_ctx s2_ctx \<longleftrightarrow> g_rtt s2_ctx \<noteq> None \<and>
     min_starting_level s2_ctx \<le> s2_starting_level s2_ctx \<and> s2_starting_level s2_ctx \<le> S2TT_PAGE_LEVEL \<and>
     unat (ipa_bits s2_ctx) \<le> oa_bits (enable_lpa2 s2_ctx) \<and>
     2 ^ unat (ipa_bits s2_ctx) \<le> unat (num_root_rtts s2_ctx) * 512 * 2 ^ lvl_lsb (s2_starting_level s2_ctx) \<and>
     num_root_rtts s2_ctx \<le> 16 \<and> lvl_lsb (s2_starting_level s2_ctx) < unat (ipa_bits s2_ctx)"

definition walk_ok :: "rmm \<Rightarrow> s2tt_context \<Rightarrow> u64 \<Rightarrow> bool" where
  "walk_ok s s2_ctx addr \<longleftrightarrow> wf_ctx s2_ctx \<and> addr < push_bit (unat (ipa_bits s2_ctx)) 1 \<and>
     is_rtt s (the (g_rtt s2_ctx)) \<and>
     tables_ok s s2_ctx addr (nat (S2TT_PAGE_LEVEL - s2_starting_level s2_ctx)) (s2_starting_level s2_ctx)
       (start_table s2_ctx addr)"

section \<open>The walk follows the tables\<close>

lemma is_rttD: "is_rtt s g \<Longrightarrow> valid_g (arm_dram s) g" "is_rtt s g \<Longrightarrow> STATE (granules s g) = GRANULE_STATE_RTT"
  by (simp_all add: is_rtt_def)

lemma table_get_entry_held:
  assumes "idle s" "is_rtt s g" "M SLOT_RTT = None"
  shows "table_get_entry s2_ctx g idx (held L M s) = Inr (words (mem s g) ! unat idx, held L M s)"
proof -
  have "M(SLOT_RTT := None) = M" using assms(3) by auto
  then show ?thesis
    using assms by (simp add: table_get_entry_def run_simps held_simps idleD is_rttD)
qed

lemma find_lock_next_level_held:
  assumes "idle s" "is_rtt s g" "M SLOT_RTT = None"
    and "entry_is_table (table_entry s g addr i) \<Longrightarrow>
      granule_at (arm_dram s) (to_pa_value (table_entry s g addr i) S2TT_PAGE_LEVEL (enable_lpa2 s2_ctx)) = Some g' \<and>
      is_rtt s g' \<and> g' \<notin> L"
  shows "find_lock_next_level s2_ctx g addr i (held L M s) =
    (if entry_is_table (table_entry s g addr i) then Inr (Some g', held (insert g' L) M s)
     else Inr (None, held L M s))"
  using assms
  by (auto simp: find_lock_next_level_def find_next_level_idx_def table_entry_to_phys_def run_simps held_simps
      table_get_entry_held table_entry_def idleD idle_lockable is_rttD Let_def)

text \<open>The locks that a caller holds during a walk are not on tables.\<close>

lemma walk_loop_held:
  assumes idle: "idle s" and M: "M SLOT_RTT = None" and L: "\<And>h. h \<in> L \<Longrightarrow> \<not> is_rtt s h"
    and "tables_ok s s2_ctx addr n i g"
  shows "walk_loop s2_ctx addr n i g (held (insert g L) M s) =
    Inr (follow_tables s s2_ctx addr n i g, held (insert (fst (follow_tables s s2_ctx addr n i g)) L) M s)"
  using assms(4)
proof (induction n arbitrary: i g)
  case 0
  then show ?case by (simp add: run_simps)
next
  case (Suc n)
  then have g: "is_rtt s g" by simp
  with L have gL: "g \<notin> L" by blast
  show ?case
  proof (cases "entry_is_table (table_entry s g addr i)")
    case False
    then have "find_lock_next_level s2_ctx g addr i (held (insert g L) M s) = Inr (None, held (insert g L) M s)"
      using find_lock_next_level_held [OF idle g, of M addr i s2_ctx undefined "insert g L"] M by simp
    then show ?thesis using False by (simp add: run_simps)
  next
    case True
    then obtain g' where g': "granule_at (arm_dram s) (to_pa_value (table_entry s g addr i) S2TT_PAGE_LEVEL (enable_lpa2 s2_ctx)) = Some g'"
      "g' \<noteq> g" "tables_ok s s2_ctx addr n (i + 1) g'"
      using Suc.prems by (auto split: option.splits)
    have r: "is_rtt s g'" using g'(3) by (cases n) simp_all
    with L g'(2) have nL: "g' \<notin> insert g L" by blast
    have nx: "find_lock_next_level s2_ctx g addr i (held (insert g L) M s) = Inr (Some g', held (insert g' (insert g L)) M s)"
      using find_lock_next_level_held [OF idle g, of M addr i s2_ctx g' "insert g L"] M g' r nL True by simp
    have "insert g' (insert g L) - {g} = insert g' L" using gL g'(2) by auto
    then have "granule_unlock g (held (insert g' (insert g L)) M s) = Inr ((), held (insert g' L) M s)"
      using granule_unlock_held [of g "insert g' (insert g L)" s M] idleD(2,5) [OF idle] by simp
    then show ?thesis using True nx g'(1) Suc.IH [OF g'(3)] by (simp add: run_simps)
  qed
qed

lemma tables_ok_mono: "tables_ok s s2_ctx addr n i g \<Longrightarrow> m \<le> n \<Longrightarrow> tables_ok s s2_ctx addr m i g"
proof (induction m arbitrary: n i g)
  case 0
  then show ?case by (cases n) simp_all
next
  case (Suc m)
  then obtain k where "n = Suc k" "m \<le> k" by (cases n) auto
  with Suc show ?case by (auto split: option.splits)
qed

lemma tables_ok_rtt: "tables_ok s s2_ctx addr n i g \<Longrightarrow> is_rtt s g"
  by (cases n) simp_all

lemma follow_tables_rtt: "tables_ok s s2_ctx addr n i g \<Longrightarrow> is_rtt s (fst (follow_tables s s2_ctx addr n i g))"
  by (induction n arbitrary: i g) (auto split: option.splits)

lemma follow_tables_level:
  "i \<le> snd (follow_tables s s2_ctx addr n i g) \<and> snd (follow_tables s s2_ctx addr n i g) \<le> i + int n"
proof (induction n arbitrary: i g)
  case (Suc n)
  then show ?case using Suc [of "i + 1"] by (auto simp: add.commute) (smt (verit))+
qed simp

lemma follow_tables_stop:
  "snd (follow_tables s s2_ctx addr n i g) = i + int n \<or>
   \<not> entry_is_table (table_entry s (fst (follow_tables s s2_ctx addr n i g)) addr (snd (follow_tables s s2_ctx addr n i g)))"
proof (induction n arbitrary: i g)
  case (Suc n)
  have "i + 1 + int n = i + int (Suc n)" by simp
  with Suc [of "i + 1"] show ?case by (simp only: follow_tables.simps split: if_split) auto
qed simp

section \<open>The starting table\<close>

lemma start_table_index:
  assumes "wf_ctx s2_ctx" "addr < push_bit (unat (ipa_bits s2_ctx)) 1"
  defines "sl \<equiv> s2_sl_addr_to_idx addr (s2_starting_level s2_ctx) (unat (ipa_bits s2_ctx))"
  shows "unat sl = unat addr div 2 ^ lvl_lsb (s2_starting_level s2_ctx)"
    "unat sl div 512 < unat (num_root_rtts s2_ctx)"
proof -
  let ?b = "unat (ipa_bits s2_ctx)" and ?l = "lvl_lsb (s2_starting_level s2_ctx)"
  have b: "?b < 64" using assms(1) by (auto simp: wf_ctx_def oa_bits_def split: if_splits)
  then have a: "unat addr < 2 ^ ?b"
    using assms(2) by (simp add: push_bit_eq_mult word_less_nat_alt unat_exp)
  have "addr AND (push_bit ?b 1 - 1) = addr"
  proof -
    have "addr AND (push_bit ?b 1 - 1) = take_bit ?b addr" by (simp add: take_bit_eq_mask mask_eq_exp_minus_1)
    then show ?thesis using assms(2) b take_bit_less_self [of addr ?b] by simp
  qed
  then show u: "unat sl = unat addr div 2 ^ ?l" by (simp add: sl_def s2_sl_addr_to_idx_def unat_drop_bit)
  have "unat addr < unat (num_root_rtts s2_ctx) * 512 * 2 ^ ?l"
    using a assms(1) by (auto simp: wf_ctx_def)
  then have "unat addr div 2 ^ ?l < unat (num_root_rtts s2_ctx) * 512"
    by (simp add: less_mult_imp_div_less)
  then show "unat sl div 512 < unat (num_root_rtts s2_ctx)"
    unfolding u by (simp add: less_mult_imp_div_less)
qed

lemma lock_start_table_held:
  assumes idle: "idle s" and "walk_ok s s2_ctx addr" and L: "\<And>h. h \<in> L \<Longrightarrow> \<not> is_rtt s h"
  shows "lock_start_table s2_ctx addr (the (g_rtt s2_ctx)) (held (insert (the (g_rtt s2_ctx)) L) M s) =
    Inr (start_table s2_ctx addr, held (insert (start_table s2_ctx addr) L) M s)"
proof -
  let ?r = "the (g_rtt s2_ctx)"
  define sl where "sl = s2_sl_addr_to_idx addr (s2_starting_level s2_ctx) (unat (ipa_bits s2_ctx))"
  have wf: "wf_ctx s2_ctx" "addr < push_bit (unat (ipa_bits s2_ctx)) 1" "is_rtt s ?r"
    and st: "is_rtt s (start_table s2_ctx addr)"
    using assms(2) tables_ok_rtt by (auto simp: walk_ok_def)
  note i = start_table_index(2) [OF wf(1,2), folded sl_def]
  have n16: "unat (num_root_rtts s2_ctx) \<le> 16" using wf(1) by (simp add: wf_ctx_def word_le_nat_alt)
  have e: "unat (ucast (drop_bit 9 sl) :: u32) = unat sl div 512"
  proof -
    have "unat sl div 512 < 2 ^ 32" using i n16 by simp
    then show ?thesis by (simp add: unsigned_ucast_eq unat_drop_bit take_bit_nat_eq_self)
  qed
  have tab: "start_table s2_ctx addr = ?r + unat sl div 512" by (simp add: start_table_def sl_def)
  have ge: "of_nat 512 \<le> sl \<longleftrightarrow> unat sl div 512 \<noteq> 0" by (simp add: word_le_nat_alt div_eq_0_iff not_less)
  have rL: "?r \<notin> L" using L wf(3) by blast
  show ?thesis
  proof (cases "of_nat 512 \<le> sl")
    case False
    then show ?thesis using tab ge by (simp add: lock_start_table_def sl_def [symmetric] Let_def run_simps)
  next
    case True
    then have ne: "start_table s2_ctx addr \<noteq> ?r" using tab ge by simp
    have nl: "start_table s2_ctx addr \<notin> L" using L st by blast
    have "insert (start_table s2_ctx addr) (insert ?r L) - {?r} = insert (start_table s2_ctx addr) L"
      using ne rL by auto
    then show ?thesis
      using True ne nl i e tab wf(3) st
      by (simp add: lock_start_table_def sl_def [symmetric] Let_def run_simps held_simps word_less_nat_alt
          idle_lockable [OF idle] idleD [OF idle] idle_inv [OF idle] is_rttD)
  qed
qed

lemma walk_held [held_simps]:
  assumes idle: "idle s" and ok: "walk_ok s s2_ctx addr" and M: "M SLOT_RTT = None"
    and L: "\<forall>h\<in>L. \<not> is_rtt s h" and lv: "s2_starting_level s2_ctx \<le> level" "level \<le> 3"
    and g: "g_rtt s2_ctx = Some g"
  shows "s2tt_walk_lock_unlock s2_ctx addr level (held (insert g L) M s) =
    Inr (\<lparr>g_llt = Some (fst (rtt_walk s s2_ctx addr level)),
          wi_index = s2_addr_to_idx addr (snd (rtt_walk s s2_ctx addr level)),
          last_level = snd (rtt_walk s s2_ctx addr level)\<rparr>,
         held (insert (fst (rtt_walk s s2_ctx addr level)) L) M s)"
proof -
  let ?n = "nat (level - s2_starting_level s2_ctx)" and ?sl = "s2_starting_level s2_ctx"
  have wf: "wf_ctx s2_ctx" "addr < push_bit (unat (ipa_bits s2_ctx)) 1"
    and t: "tables_ok s s2_ctx addr (nat (3 - ?sl)) ?sl (start_table s2_ctx addr)"
    using ok by (auto simp: walk_ok_def)
  have tn: "tables_ok s s2_ctx addr ?n ?sl (start_table s2_ctx addr)"
    using tables_ok_mono [OF t] lv by simp
  have b: "unat (ipa_bits s2_ctx) \<le> (if enable_lpa2 s2_ctx then 52 else 48)"
    using wf(1) by (simp add: wf_ctx_def oa_bits_def split: if_splits)
  note st = lock_start_table_held [OF idle ok, of L M, unfolded g option.sel]
  note lp = walk_loop_held [where M = M and L = L, OF idle M _ tn]
  have sl: "lock_start_table s2_ctx addr g (held (insert g L) M s) =
    Inr (start_table s2_ctx addr, held (insert (start_table s2_ctx addr) L) M s)"
    using st L by blast
  have lp: "walk_loop s2_ctx addr ?n ?sl (start_table s2_ctx addr) (held (insert (start_table s2_ctx addr) L) M s) =
    Inr (rtt_walk s s2_ctx addr level, held (insert (fst (rtt_walk s s2_ctx addr level)) L) M s)"
    using lp L unfolding rtt_walk_def by blast
  show ?thesis
    using lv wf(2) b g
    by (simp add: s2tt_walk_lock_unlock_def Let_def run_simps sl lp split: prod.split)
qed

lemma rtt_walk_rtt: "walk_ok s s2_ctx addr \<Longrightarrow> s2_starting_level s2_ctx \<le> level \<Longrightarrow> level \<le> 3 \<Longrightarrow>
    is_rtt s (fst (rtt_walk s s2_ctx addr level))"
  unfolding rtt_walk_def
  by (rule follow_tables_rtt, rule tables_ok_mono) (auto simp: walk_ok_def)

lemma rtt_walk_level:
  assumes "s2_starting_level s2_ctx \<le> level"
  shows "s2_starting_level s2_ctx \<le> snd (rtt_walk s s2_ctx addr level)" "snd (rtt_walk s s2_ctx addr level) \<le> level"
  using follow_tables_level [of "s2_starting_level s2_ctx" s s2_ctx addr "nat (level - s2_starting_level s2_ctx)"
      "start_table s2_ctx addr"] assms
  by (auto simp: rtt_walk_def)

lemma s2_addr_to_idx_bound: "unat (s2_addr_to_idx addr l) < 512"
proof -
  have "s2_addr_to_idx addr l = take_bit (if l < 0 then 4 else 9) (drop_bit (lvl_lsb l) addr)"
    by (simp add: s2_addr_to_idx_def take_bit_eq_mask mask_eq_exp_minus_1 Let_def)
  moreover have "unat (take_bit k (x :: u64)) < 2 ^ k" for k x
    by (simp add: unsigned_take_bit_eq take_bit_nat_less_exp)
  moreover have "(2 :: nat) ^ (if l < 0 then 4 else 9) \<le> 512" by simp
  ultimately show ?thesis using order.strict_trans2 by metis
qed

section \<open>A realm with a mapped page\<close>

text \<open>
  An example state: a realm descriptor in granule 2 whose tables start at level 1 in granule 4,
  with the level 2 table in granule 5, the level 3 table in granule 6, and granule 7 mapped as
  RAM at the address 0x1000. The unprotected half of the address space is unassigned. Granule 1 is delegated.
\<close>

definition demo_s2_ctx :: s2tt_context where
  "demo_s2_ctx = \<lparr>ipa_bits = 32, s2_starting_level = 1, num_root_rtts = 1, g_rtt = Some 4, vmid = 5,
     enable_lpa2 = False\<rparr>"

definition demo_rd :: rd where
  "demo_rd = zero_rd\<lparr>rd_state := REALM_NEW, rd_s2_ctx := demo_s2_ctx\<rparr>"

definition demo_words :: "nat \<Rightarrow> u64 list" where
  "demo_words g =
    (if g = 4 then (replicate 512 0)[0 := 0x80005003, 2 := s2tte_create_unassigned_ns, 3 := s2tte_create_unassigned_ns]
     else if g = 5 then (replicate 512 0)[0 := 0x80006003]
     else if g = 6 then (replicate 512 0)[1 := 0x80007000 OR S2TTE_PAGE] else replicate 512 0)"

definition demo_desc :: "nat \<Rightarrow> granule" where
  "demo_desc g = \<lparr>descriptor =
     (if g = 1 then 0x400 else if g = 2 then 0x800 else if g = 4 \<or> g = 5 \<or> g = 6 then 0x1801
      else if g = 7 then 0x1400 else 0), owner_tag = 0\<rparr>"

definition demo_realm :: rmm where
  "demo_realm = demo_rmm\<lparr>granules := demo_desc,
     mem := (\<lambda>g. zero_data\<lparr>words := demo_words g, d_rd := (if g = 2 then demo_rd else zero_rd)\<rparr>)\<rparr>"

lemma demo_desc_fields:
  "\<not> LOCKED (demo_desc g)" "REFCOUNT (demo_desc g) = (if g = 4 \<or> g = 5 \<or> g = 6 then 1 else 0)"
  "STATE (demo_desc g) = (if g = 1 then 1 else if g = 2 then 2 else if g = 4 \<or> g = 5 \<or> g = 6 then 6
     else if g = 7 then 5 else 0)"
  by (simp_all add: demo_desc_def LOCKED_def REFCOUNT_def STATE_def GRN_LOCK_BIT_def
      REFCOUNT_MASK_def STATE_MASK_def MASK_def mask_eq_decr_exp)

lemma demo_granule_addr:
  "granule_at fvp_layout 0x80001000 = Some 1" "granule_at fvp_layout 0x80002000 = Some 2"
  "granule_at fvp_layout 0x80004000 = Some 4" "granule_at fvp_layout 0x80005000 = Some 5"
  "granule_at fvp_layout 0x80006000 = Some 6" "granule_at fvp_layout 0x80007000 = Some 7"
  by (simp_all add: granule_at_def plat_granule_addr_to_idx_def addr_search.simps fvp_layout_def
      GRANULE_ALIGNED_def GRANULE_SIZE_def mid_def PLAT_ARM_MAX_DRAM_BANKS_def RMM_MAX_GRANULES_def)

lemma demo_realm_fields [simp]:
  "arm_dram demo_realm = fvp_layout" "granules demo_realm = demo_desc" "slots demo_realm = no_slots"
  "words (mem demo_realm g) = demo_words g" "d_rd (mem demo_realm 2) = demo_rd"
  by (simp_all add: demo_realm_def demo_rmm_def)

lemma demo_realm_idle: "idle demo_realm"
proof (rule idleI)
  fix g
  show "\<not> LOCKED (granules demo_realm g) \<and> granule_inv (granules demo_realm g) \<and> length (words (mem demo_realm g)) = 512 \<and>
    (STATE (granules demo_realm g) = GRANULE_STATE_DELEGATED \<longrightarrow> mem demo_realm g = zero_data)"
    by (simp add: demo_desc_fields granule_unlocked_invariants_def granule_states demo_words_def)
      (simp add: demo_realm_def demo_words_def zero_data_def RTT_REFCOUNT_MAX_def GRANULE_SIZE_def)
qed (simp_all add: wf_fvp_layout)

lemma demo_realm_rtt: "is_rtt demo_realm 4" "is_rtt demo_realm 5" "is_rtt demo_realm 6"
  using demo_granule_addr by (auto simp: is_rtt_def demo_desc_fields granule_states)

lemma demo_entries:
  "table_entry demo_realm 4 0x1000 1 = 0x80005003" "table_entry demo_realm 5 0x1000 2 = 0x80006003"
  "start_table demo_s2_ctx 0x1000 = 4"
  "to_pa_value 0x80005003 3 False = 0x80005000" "to_pa_value 0x80006003 3 False = 0x80006000"
  "entry_is_table 0x80005003" "entry_is_table 0x80006003"
  by (simp_all add: table_entry_def demo_words_def s2_addr_to_idx_def lvl_lsb_def start_table_def demo_s2_ctx_def
      s2_sl_addr_to_idx_def to_pa_value_def lvl_mask_def BIT_MASK_ULL_def mask_eq_decr_exp entry_is_table_def
      desc_type_def S2TT_DESC_TYPE_MASK_def S2TTE_L012_TABLE_def)

lemma demo_walk_ok: "walk_ok demo_realm demo_s2_ctx 0x1000"
proof -
  have n: "nat (3 - 1) = Suc (Suc 0)" by simp
  have f: "s2_starting_level demo_s2_ctx = 1" "enable_lpa2 demo_s2_ctx = False" "g_rtt demo_s2_ctx = Some 4"
    by (simp_all add: demo_s2_ctx_def)
  have wf: "wf_ctx demo_s2_ctx"
    by (simp add: wf_ctx_def demo_s2_ctx_def min_starting_level_def oa_bits_def lvl_lsb_def)
  show ?thesis
    unfolding walk_ok_def f n tables_ok.simps
    using wf demo_realm_rtt demo_entries by (simp add: f demo_granule_addr) (simp add: demo_s2_ctx_def)
qed

lemma demo_walk: "rtt_walk demo_realm demo_s2_ctx 0x1000 3 = (6, 3)"
proof -
  have n: "nat (3 - 1) = Suc (Suc 0)" by simp
  have f: "s2_starting_level demo_s2_ctx = 1" "enable_lpa2 demo_s2_ctx = False" by (simp_all add: demo_s2_ctx_def)
  show ?thesis unfolding rtt_walk_def f n follow_tables.simps
    by (simp add: demo_entries f demo_granule_addr)
qed

text \<open>
  C39. The walk through the translation tables. From the locked root table the walk reaches, without a
  fault, the last table of the chain for the address, holding the lock of that table and no
  other; the tables and the rest of the state are unchanged. The walk has stopped because it
  reached the requested level or because the entry for the address is not a table.
\<close>

theorem walk_hand_over_hand:
  assumes "idle s" "walk_ok s s2_ctx addr" "g_rtt s2_ctx = Some g"
    and "s2_starting_level s2_ctx \<le> level" "level \<le> S2TT_PAGE_LEVEL"
  shows "\<exists>llt wi. s2tt_walk_lock_unlock s2_ctx addr level (upd_granule g set_lock s) = Inr (wi, upd_granule llt set_lock s) \<and>
    g_llt wi = Some llt \<and> (llt, last_level wi) = rtt_walk s s2_ctx addr level \<and>
    wi_index wi = s2_addr_to_idx addr (last_level wi) \<and> is_rtt s llt \<and>
    s2_starting_level s2_ctx \<le> last_level wi \<and> last_level wi \<le> level \<and>
    (last_level wi = level \<or> \<not> entry_is_table (words (mem s llt) ! unat (wi_index wi)))"
proof -
  let ?w = "rtt_walk s s2_ctx addr level"
  have lk: "upd_granule h set_lock s = held {h} no_slots s" for h
    using held_lock [of h "{}" no_slots s] idle_held [OF assms(1)] by simp
  have stop: "snd ?w = level \<or> \<not> entry_is_table (table_entry s (fst ?w) addr (snd ?w))"
    using follow_tables_stop [of s s2_ctx addr "nat (level - s2_starting_level s2_ctx)" "s2_starting_level s2_ctx"
        "start_table s2_ctx addr"] assms(4) by (simp add: rtt_walk_def)
  show ?thesis
    using walk_held [OF assms(1,2) _ _ assms(4,5,3), of no_slots "{}"] stop rtt_walk_level [OF assms(4)]
      rtt_walk_rtt [OF assms(2,4,5)]
    by (intro exI [of _ "fst ?w"]) (simp add: lk table_entry_def)
qed

theorem walk_hand_over_hand_witness:
  "\<exists>wi. s2tt_walk_lock_unlock demo_s2_ctx 0x1000 3 (upd_granule 4 set_lock demo_realm) =
     Inr (wi, upd_granule 6 set_lock demo_realm) \<and> last_level wi = 3 \<and> g_llt wi = Some 6"
proof -
  have "g_rtt demo_s2_ctx = Some 4" "s2_starting_level demo_s2_ctx \<le> 3" by (simp_all add: demo_s2_ctx_def)
  then show ?thesis
    using walk_hand_over_hand [OF demo_realm_idle demo_walk_ok, of 4 3] by (auto simp: demo_walk)
qed

end
