(* ===== verification/Realm_Ipa.thy ===== *)
theory Realm_Ipa
  imports Rtt_Walk
begin

text \<open>
  Access to the intermediate physical addresses of a realm from the RSI handlers
  (\<^verbatim>\<open>runtime/rsi/realm_ipa_helper.c\<close>): translation of an address, the RIPAS of a range, and the mapping
  and unmapping of a page in the tables of another realm, which the shared memory code uses.
\<close>

text \<open>Locking the root table of a realm, as every user of the tables does before the walk.\<close>

definition lock_root :: "s2tt_context \<Rightarrow> (rmm, unit) M" where
  "lock_root s2_ctx =
    (case g_rtt s2_ctx of None \<Rightarrow> failM Assert_Fail | Some g \<Rightarrow> granule_lock g GRANULE_STATE_RTT)"

definition llt_of :: "s2tt_walk \<Rightarrow> nat" where
  "llt_of wi = the (g_llt wi)"

datatype s2_walk_status = WALK_SUCCESS | WALK_INVALID_PARAMS | WALK_FAIL

record s2_walk_result =
  sw_pa :: u64
  sw_rtt_level :: u64
  sw_ripas_val :: ripas
  sw_llt :: "nat option"

text \<open>
  The part common to the two translations: \<^verbatim>\<open>realm_ipa_to_pa\<close> takes the context of the execution
  context and \<^verbatim>\<open>realm_ipa_to_pa_with_rd\<close> that of a realm descriptor.
\<close>

definition ipa_lookup :: "s2tt_context \<Rightarrow> u64 \<Rightarrow> s2_walk_result \<Rightarrow> (rmm, s2_walk_status \<times> s2_walk_result) M" where
  "ipa_lookup s2_ctx ipa s2_walk =
    thenM (lock_root s2_ctx)
    (bindM (s2tt_walk_lock_unlock s2_ctx ipa S2TT_PAGE_LEVEL) (\<lambda>wi.
     thenM (map_slot (g_llt wi) SLOT_RTT)
     (bindM (s2tte_read (llt_of wi) (wi_index wi)) (\<lambda>s2tte.
      bindM
       (if s2tte_is_assigned_ram s2tte (last_level wi)
        then bindM (s2tte_pa s2_ctx s2tte (last_level wi)) (\<lambda>pa.
             (let offset = ipa AND (s2tte_map_size (last_level wi) - 1)
              in returnM (WALK_SUCCESS, s2_walk\<lparr>sw_llt := g_llt wi, sw_pa := pa + offset, sw_ripas_val := RIPAS_RAM\<rparr>)))
        else
          (let val = (if s2tte_is_unassigned_destroyed s2tte \<or> s2tte_is_assigned_destroyed s2tte (last_level wi)
                      then RIPAS_DESTROYED
                      else if s2tte_is_unassigned_ram s2tte then RIPAS_RAM else RIPAS_EMPTY)
           in thenM (granule_unlock (llt_of wi)) (returnM (WALK_FAIL, s2_walk\<lparr>sw_ripas_val := val\<rparr>))))
       (\<lambda>(status, res).
      thenM (buffer_unmap SLOT_RTT)
      (returnM (status, res\<lparr>sw_rtt_level := word_of_int (last_level wi)\<rparr>)))))))"

definition realm_ipa_to_pa :: "rec_data \<Rightarrow> u64 \<Rightarrow> s2_walk_result \<Rightarrow> (rmm, s2_walk_status \<times> s2_walk_result) M" where
  "realm_ipa_to_pa rec ipa s2_walk =
    (if \<not> GRANULE_ALIGNED ipa \<or> \<not> addr_in_rec_par rec ipa then returnM (WALK_INVALID_PARAMS, s2_walk)
     else ipa_lookup (ri_s2_ctx (rec_realm_info rec)) ipa s2_walk)"

definition realm_ipa_to_pa_with_rd :: "rd \<Rightarrow> u64 \<Rightarrow> s2_walk_result \<Rightarrow> (rmm, s2_walk_status \<times> s2_walk_result) M" where
  "realm_ipa_to_pa_with_rd rd ipa s2_walk =
    (if \<not> GRANULE_ALIGNED ipa then returnM (WALK_INVALID_PARAMS, s2_walk)
     else ipa_lookup (rd_s2_ctx rd) ipa s2_walk)"

section \<open>The RIPAS of a range\<close>

text \<open>The loop over the entries of the last table; \<open>res\<close> is the RIPAS of the first entry.\<close>

fun ripas_loop ::
  "u64 list \<Rightarrow> int \<Rightarrow> u64 \<Rightarrow> u64 \<Rightarrow> u64 \<Rightarrow> nat list \<Rightarrow> u64 \<Rightarrow> ripas \<Rightarrow> ('s, u64 \<times> ripas) M" where
  "ripas_loop ll_table level map_size start stop [] addr res = returnM (addr, res)"
| "ripas_loop ll_table level map_size start stop (index # idxs) addr res =
    (let s2tte = ll_table ! index
     in if \<not> s2tte_has_ripas s2tte level then returnM (addr, res)
        else bindM (if s2tte_is_assigned_ram s2tte level then returnM RIPAS_RAM else s2tte_get_ripas s2tte) (\<lambda>tmp.
             if addr \<noteq> start \<and> tmp \<noteq> res then returnM (addr, res)
             else (let res' = (if addr = start then tmp else res); addr' = addr + map_size
                   in if addr' \<ge> stop then returnM (addr', res')
                      else ripas_loop ll_table level map_size start stop idxs addr' res')))"

definition realm_ipa_get_ripas :: "rec_data \<Rightarrow> u64 \<Rightarrow> u64 \<Rightarrow> (rmm, (ripas \<times> u64) option) M" where
  "realm_ipa_get_ripas rec start stop =
    thenM (assertM (GRANULE_ALIGNED start \<and> GRANULE_ALIGNED stop))
    (thenM (assertM (addr_in_rec_par rec start \<and> addr_in_rec_par rec (stop - 1)))
    (let s2_ctx = ri_s2_ctx (rec_realm_info rec)
     in thenM (lock_root s2_ctx)
     (bindM (s2tt_walk_lock_unlock s2_ctx start S2TT_PAGE_LEVEL) (\<lambda>wi.
      thenM (map_slot (g_llt wi) SLOT_RTT)
      (bindM (read_table (llt_of wi)) (\<lambda>ll_table.
      (let map_size = s2tte_map_size (last_level wi);
           start' = start AND NOT (map_size - 1)
       in bindM (ripas_loop ll_table (last_level wi) map_size start' stop
                   [unat (wi_index wi)..<S2TTES_PER_S2TT] start' RIPAS_EMPTY) (\<lambda>(addr, res).
          thenM (buffer_unmap SLOT_RTT)
          (thenM (granule_unlock (llt_of wi))
           (returnM (if addr \<noteq> start' then Some (res, addr) else None)))))))))))"

section \<open>Mapping and unmapping a page of a realm\<close>

definition map_ipa_to_pa :: "rd \<Rightarrow> u64 \<Rightarrow> u64 \<Rightarrow> (rmm, u64) M" where
  "map_ipa_to_pa rd pa_addr ipa_addr =
    (let s2_ctx = rd_s2_ctx rd
     in thenM (lock_root s2_ctx)
     (bindM (s2tt_walk_lock_unlock s2_ctx ipa_addr S2TT_PAGE_LEVEL) (\<lambda>wi.
      if last_level wi \<noteq> S2TT_PAGE_LEVEL then thenM (granule_unlock (llt_of wi)) (returnM 0)
      else
        thenM (map_slot (g_llt wi) SLOT_RTT)
        (bindM (s2tte_create_assigned_ram s2_ctx pa_addr S2TT_PAGE_LEVEL) (\<lambda>s2tte.
         thenM (s2tte_write (llt_of wi) (wi_index wi) s2tte)
         (thenM (s2tt_invalidate_page s2_ctx ipa_addr)
         (thenM (atomic_granule_get (llt_of wi))
         (thenM (buffer_unmap SLOT_RTT)
         (thenM (granule_unlock (llt_of wi))
          (returnM 0)))))))))) "

definition unmap_ipa_from_rd :: "rd \<Rightarrow> u64 \<Rightarrow> (rmm, unit) M" where
  "unmap_ipa_from_rd rd ipa_addr =
    (let s2_ctx = rd_s2_ctx rd
     in thenM (lock_root s2_ctx)
     (bindM (s2tt_walk_lock_unlock s2_ctx ipa_addr S2TT_PAGE_LEVEL) (\<lambda>wi.
      if last_level wi \<noteq> S2TT_PAGE_LEVEL then granule_unlock (llt_of wi)
      else
        thenM (map_slot (g_llt wi) SLOT_RTT)
        (bindM (s2tte_read (llt_of wi) (wi_index wi)) (\<lambda>s2tte.
         thenM
          (if s2tte_is_assigned_ram s2tte S2TT_PAGE_LEVEL
           then thenM (s2tte_write (llt_of wi) (wi_index wi) s2tte_create_unassigned_destroyed)
                (thenM (s2tt_invalidate_page s2_ctx ipa_addr)
                 (atomic_granule_put (llt_of wi)))
           else if s2tte_is_assigned_destroyed s2tte S2TT_PAGE_LEVEL
           then thenM (s2tte_write (llt_of wi) (wi_index wi) s2tte_create_unassigned_destroyed)
                (atomic_granule_put (llt_of wi))
           else if s2tte_is_assigned_empty s2tte S2TT_PAGE_LEVEL
           then thenM (s2tte_write (llt_of wi) (wi_index wi) s2tte_create_unassigned_empty)
                (atomic_granule_put (llt_of wi))
           else returnM ())
         (thenM (buffer_unmap SLOT_RTT)
          (granule_unlock (llt_of wi))))))))"

definition ALIGN_2MB :: u64 where "ALIGN_2MB = 2 * 1024 * 1024"

definition is_2mb_aligned :: "u64 \<Rightarrow> bool" where
  "is_2mb_aligned addr \<longleftrightarrow> addr AND (ALIGN_2MB - 1) = 0"

end
