(* ===== verification/Measurement.thy ===== *)
theory Measurement
  imports Rmm_State
begin

text \<open>
  The realm initial measurement (\<^verbatim>\<open>lib/measurement/src/rim.c\<close>, \<^verbatim>\<open>measurement.c\<close>,
  \<^verbatim>\<open>measurement_descs.h\<close>): the byte layout of the measurement descriptors and the functions that extend
  the measurement. The hash functions of the crypto library are a parameter
  \<open>hash :: hash_algo \<Rightarrow> u8 list \<Rightarrow> u8 list\<close>.
\<close>

section \<open>Bytes\<close>

definition le64 :: "u64 \<Rightarrow> u8 list" where
  "le64 w = map (\<lambda>i. ucast (drop_bit (8 * i) w)) [0..<8]"

definition le32 :: "u32 \<Rightarrow> u8 list" where
  "le32 w = map (\<lambda>i. ucast (drop_bit (8 * i) w)) [0..<4]"

definition pad :: "nat \<Rightarrow> u8 list \<Rightarrow> u8 list" where
  "pad n bs = bs @ replicate (n - length bs) 0"

definition word_bytes :: "u64 list \<Rightarrow> u8 list" where
  "word_bytes ws = concat (map le64 ws)"

section \<open>Hashing\<close>

definition SHA256_SIZE :: nat where "SHA256_SIZE = 32"
definition SHA512_SIZE :: nat where "SHA512_SIZE = 64"
definition MAX_MEASUREMENT_SIZE :: nat where "MAX_MEASUREMENT_SIZE = SHA512_SIZE"
definition RIM_MEASUREMENT_SLOT :: nat where "RIM_MEASUREMENT_SLOT = 0"

definition MEASURE_DESC_TYPE_DATA :: u8 where "MEASURE_DESC_TYPE_DATA = 0"
definition MEASURE_DESC_TYPE_REC :: u8 where "MEASURE_DESC_TYPE_REC = 1"
definition MEASURE_DESC_TYPE_RIPAS :: u8 where "MEASURE_DESC_TYPE_RIPAS = 2"

definition RMI_NO_MEASURE_CONTENT :: u64 where "RMI_NO_MEASURE_CONTENT = 0"
definition RMI_MEASURE_CONTENT :: u64 where "RMI_MEASURE_CONTENT = 1"

definition measurement_get_size :: "hash_algo \<Rightarrow> nat" where
  "measurement_get_size algorithm =
    (case algorithm of HASH_SHA_256 \<Rightarrow> SHA256_SIZE | HASH_SHA_512 \<Rightarrow> SHA512_SIZE)"

text \<open>The result of a hash overwrites the first bytes of the output buffer.\<close>

definition do_hash :: "(hash_algo \<Rightarrow> u8 list \<Rightarrow> u8 list) \<Rightarrow> hash_algo \<Rightarrow> u8 list \<Rightarrow> u8 list \<Rightarrow> u8 list" where
  "do_hash hash algorithm data out = (let h = hash algorithm data in h @ drop (length h) out)"

definition measurement_hash_compute ::
  "(hash_algo \<Rightarrow> u8 list \<Rightarrow> u8 list) \<Rightarrow> hash_algo \<Rightarrow> u8 list \<Rightarrow> u8 list \<Rightarrow> u8 list" where
  "measurement_hash_compute hash algorithm data out = do_hash hash algorithm data out"

section \<open>Descriptors\<close>

record measurement_desc_data =
  md_rim :: "u8 list"
  md_ipa :: u64
  md_flags :: u64
  md_content :: "u8 list"

record measurement_desc_rec =
  mr_rim :: "u8 list"
  mr_content :: "u8 list"

record measurement_desc_ripas =
  mi_rim :: "u8 list"
  mi_base :: u64
  mi_top :: u64

text \<open>The bytes of the descriptors: the offsets are those that the source asserts.\<close>

definition desc_head :: "u8 \<Rightarrow> u8 list \<Rightarrow> u8 list" where
  "desc_head t rim = pad 8 [t] @ le64 0x100 @ rim"

definition desc_data_bytes :: "measurement_desc_data \<Rightarrow> u8 list" where
  "desc_data_bytes d =
    pad 0x100 (desc_head MEASURE_DESC_TYPE_DATA (md_rim d) @ le64 (md_ipa d) @ le64 (md_flags d) @ md_content d)"

definition desc_rec_bytes :: "measurement_desc_rec \<Rightarrow> u8 list" where
  "desc_rec_bytes d = pad 0x100 (desc_head MEASURE_DESC_TYPE_REC (mr_rim d) @ mr_content d)"

definition desc_ripas_bytes :: "measurement_desc_ripas \<Rightarrow> u8 list" where
  "desc_ripas_bytes d =
    pad 0x100 (desc_head MEASURE_DESC_TYPE_RIPAS (mi_rim d) @ le64 (mi_base d) @ le64 (mi_top d))"

text \<open>The part of the current measurement that enters a descriptor.\<close>

definition desc_rim :: "hash_algo \<Rightarrow> u8 list \<Rightarrow> u8 list" where
  "desc_rim algorithm rim = pad MAX_MEASUREMENT_SIZE (take (measurement_get_size algorithm) rim)"

section \<open>Extending the measurement\<close>

definition measurement_data_granule_measure ::
  "(hash_algo \<Rightarrow> u8 list \<Rightarrow> u8 list) \<Rightarrow> u8 list \<Rightarrow> hash_algo \<Rightarrow> u8 list \<Rightarrow> u64 \<Rightarrow> u64 \<Rightarrow> u8 list" where
  "measurement_data_granule_measure hash rim_measurement algorithm data ipa flags =
    (let content = replicate MAX_MEASUREMENT_SIZE 0;
         content' = (if flags = RMI_MEASURE_CONTENT
                     then measurement_hash_compute hash algorithm data content else content);
         measure_desc = \<lparr>md_rim = desc_rim algorithm rim_measurement, md_ipa = ipa, md_flags = flags,
                         md_content = content'\<rparr>
     in measurement_hash_compute hash algorithm (desc_data_bytes measure_desc) rim_measurement)"

record rmi_realm_params =
  rp_flags :: u64
  rp_s2sz :: u32
  rp_sve_vl :: u32
  rp_num_bps :: u32
  rp_num_wps :: u32
  rp_pmu_num_ctrs :: u32
  rp_algorithm :: u8
  rp_rpv :: "u8 list"
  rp_vmid :: u16
  rp_rtt_base :: u64
  rp_rtt_level_start :: int
  rp_rtt_num_start :: u32

text \<open>
  The parameters that are measured; the rest of the structure is zero: the personalization
  value at offset 0x400 and the host's choices from offset 0x800 on.
\<close>

definition rim_params_bytes :: "rmi_realm_params \<Rightarrow> u8 list" where
  "rim_params_bytes p =
    pad 0x1000
      (le64 (rp_flags p) @ pad 8 (le32 (rp_s2sz p)) @ pad 8 (le32 (rp_sve_vl p)) @ pad 8 (le32 (rp_num_bps p)) @
       pad 8 (le32 (rp_num_wps p)) @ pad 8 (le32 (rp_pmu_num_ctrs p)) @ [rp_algorithm p])"

definition measurement_realm_params_measure ::
  "(hash_algo \<Rightarrow> u8 list \<Rightarrow> u8 list) \<Rightarrow> u8 list \<Rightarrow> hash_algo \<Rightarrow> rmi_realm_params \<Rightarrow> u8 list" where
  "measurement_realm_params_measure hash rim_measurement algorithm realm_params =
    measurement_hash_compute hash algorithm (rim_params_bytes realm_params) rim_measurement"

record rmi_rec_params =
  pp_flags :: u64
  pp_mpidr :: u64
  pp_pc :: u64
  pp_gprs :: "u64 list"
  pp_num_aux :: u64
  pp_aux :: "u64 list"

definition rec_params_bytes :: "rmi_rec_params \<Rightarrow> u8 list" where
  "rec_params_bytes p =
    pad 0x1000 (pad 0x200 (le64 (pp_flags p)) @ pad 0x100 (le64 (pp_pc p)) @ word_bytes (pp_gprs p))"

definition measurement_rec_params_measure ::
  "(hash_algo \<Rightarrow> u8 list \<Rightarrow> u8 list) \<Rightarrow> u8 list \<Rightarrow> hash_algo \<Rightarrow> rmi_rec_params \<Rightarrow> u8 list" where
  "measurement_rec_params_measure hash rim_measurement algorithm rec_params =
    (let content = measurement_hash_compute hash algorithm (rec_params_bytes rec_params)
                     (replicate MAX_MEASUREMENT_SIZE 0);
         measure_desc = \<lparr>mr_rim = desc_rim algorithm rim_measurement, mr_content = content\<rparr>
     in measurement_hash_compute hash algorithm (desc_rec_bytes measure_desc) rim_measurement)"

definition measurement_init_ripas_measure ::
  "(hash_algo \<Rightarrow> u8 list \<Rightarrow> u8 list) \<Rightarrow> u8 list \<Rightarrow> hash_algo \<Rightarrow> u64 \<Rightarrow> u64 \<Rightarrow> u8 list" where
  "measurement_init_ripas_measure hash rim_measurement algorithm ipa_base ipa_top =
    (let measure_desc = \<lparr>mi_rim = desc_rim algorithm rim_measurement, mi_base = ipa_base, mi_top = ipa_top\<rparr>
     in measurement_hash_compute hash algorithm (desc_ripas_bytes measure_desc) rim_measurement)"

text \<open>Extending another measurement: the hash of the old value and the new data.\<close>

definition measurement_extend ::
  "(hash_algo \<Rightarrow> u8 list \<Rightarrow> u8 list) \<Rightarrow> hash_algo \<Rightarrow> u8 list \<Rightarrow> u8 list \<Rightarrow> u8 list \<Rightarrow> u8 list" where
  "measurement_extend hash algorithm current_measurement extend_measurement out =
    do_hash hash algorithm (take (measurement_get_size algorithm) current_measurement @ extend_measurement) out"

section \<open>The bytes determine the fields\<close>

lemma length_le [simp]: "length (le64 w) = 8" "length (le32 v) = 4"
  by (simp_all add: le64_def le32_def)

lemma bit_byte: "bit (ucast (drop_bit (8 * i) w) :: u8) k \<longleftrightarrow> k < 8 \<and> bit w (8 * i + k)"
  by (simp add: bit_simps add.commute) (auto dest: bit_imp_le_length)

lemma le64_inj [simp]: "le64 v = le64 w \<longleftrightarrow> v = w"
proof
  assume e: "le64 v = le64 w"
  show "v = w"
  proof (rule bit_word_eqI)
    fix n assume n: "n < LENGTH(64)"
    then have i: "n div 8 < 8" by simp
    have b: "(ucast (drop_bit (8 * (n div 8)) v) :: u8) = ucast (drop_bit (8 * (n div 8)) w)"
      using arg_cong [OF e, of "\<lambda>l. l ! (n div 8)"] i by (simp add: le64_def)
    have "8 * (n div 8) + n mod 8 = n" by simp
    then show "bit v n \<longleftrightarrow> bit w n"
      using arg_cong [OF b, of "\<lambda>x. bit x (n mod 8)"] by (simp only: bit_byte) simp
  qed
qed simp

lemma le32_inj [simp]: "le32 v = le32 w \<longleftrightarrow> v = w"
proof
  assume e: "le32 v = le32 w"
  show "v = w"
  proof (rule bit_word_eqI)
    fix n assume n: "n < LENGTH(32)"
    then have i: "n div 8 < 4" by simp
    have b: "(ucast (drop_bit (8 * (n div 8)) v) :: u8) = ucast (drop_bit (8 * (n div 8)) w)"
      using arg_cong [OF e, of "\<lambda>l. l ! (n div 8)"] i by (simp add: le32_def)
    have "8 * (n div 8) + n mod 8 = n" by simp
    then show "bit v n \<longleftrightarrow> bit w n"
      using arg_cong [OF b, of "\<lambda>x. bit x (n mod 8)"] by (simp only: bit_byte) simp
  qed
qed simp

lemma pad_length [simp]: "length bs \<le> n \<Longrightarrow> length (pad n bs) = n"
  by (simp add: pad_def)

lemma pad_inj: "length a = length b \<Longrightarrow> pad n a = pad n b \<longleftrightarrow> a = b"
  by (simp add: pad_def)

lemma word_bytes_inj: "length a = length b \<Longrightarrow> word_bytes a = word_bytes b \<longleftrightarrow> a = b"
  by (induction a b rule: list_induct2) (simp_all add: word_bytes_def)

lemma length_word_bytes [simp]: "length (word_bytes ws) = 8 * length ws"
  by (induction ws) (simp_all add: word_bytes_def)

lemma desc_head_inj:
  assumes "length r = length r'"
  shows "desc_head t r = desc_head t' r' \<longleftrightarrow> t = t' \<and> r = r'"
  using assms by (simp add: desc_head_def pad_def)

lemma length_desc_head [simp]: "length (desc_head t r) = 16 + length r"
  by (simp add: desc_head_def)

section \<open>Histories of measured events\<close>

datatype measured = Measured_Data u64 u64 "u8 list" | Measured_Rec rmi_rec_params | Measured_Ripas u64 u64

fun measure :: "(hash_algo \<Rightarrow> u8 list \<Rightarrow> u8 list) \<Rightarrow> hash_algo \<Rightarrow> measured \<Rightarrow> u8 list \<Rightarrow> u8 list" where
  "measure hash alg (Measured_Data ipa flags data) rim = measurement_data_granule_measure hash rim alg data ipa flags"
| "measure hash alg (Measured_Rec p) rim = measurement_rec_params_measure hash rim alg p"
| "measure hash alg (Measured_Ripas ipa_base ipa_top) rim = measurement_init_ripas_measure hash rim alg ipa_base ipa_top"

definition rim_history ::
  "(hash_algo \<Rightarrow> u8 list \<Rightarrow> u8 list) \<Rightarrow> hash_algo \<Rightarrow> rmi_realm_params \<Rightarrow> measured list \<Rightarrow> u8 list" where
  "rim_history hash alg p evs =
    fold (measure hash alg) evs (measurement_realm_params_measure hash (replicate MAX_MEASUREMENT_SIZE 0) alg p)"

text \<open>Events that agree on everything the measurement covers.\<close>

fun same_event :: "measured \<Rightarrow> measured \<Rightarrow> bool" where
  "same_event (Measured_Data ipa flags d) (Measured_Data ipa' flags' d') \<longleftrightarrow>
     ipa = ipa' \<and> flags = flags' \<and> (flags = RMI_MEASURE_CONTENT \<longrightarrow> d = d')"
| "same_event (Measured_Rec p) (Measured_Rec p') \<longleftrightarrow>
     pp_flags p = pp_flags p' \<and> pp_pc p = pp_pc p' \<and> pp_gprs p = pp_gprs p'"
| "same_event (Measured_Ripas ipa_base ipa_top) (Measured_Ripas ipa_base' ipa_top') \<longleftrightarrow> ipa_base = ipa_base' \<and> ipa_top = ipa_top'"
| "same_event _ _ \<longleftrightarrow> False"

fun wf_event :: "measured \<Rightarrow> bool" where
  "wf_event (Measured_Rec p) \<longleftrightarrow> length (pp_gprs p) = 8"
| "wf_event _ \<longleftrightarrow> True"

definition same_params :: "rmi_realm_params \<Rightarrow> rmi_realm_params \<Rightarrow> bool" where
  "same_params p q \<longleftrightarrow> rp_flags p = rp_flags q \<and> rp_s2sz p = rp_s2sz q \<and> rp_sve_vl p = rp_sve_vl q \<and>
     rp_num_bps p = rp_num_bps q \<and> rp_num_wps p = rp_num_wps q \<and> rp_pmu_num_ctrs p = rp_pmu_num_ctrs q \<and>
     rp_algorithm p = rp_algorithm q"

definition collision :: "(hash_algo \<Rightarrow> u8 list \<Rightarrow> u8 list) \<Rightarrow> hash_algo \<Rightarrow> bool" where
  "collision hash alg \<longleftrightarrow> (\<exists>x y. x \<noteq> y \<and> hash alg x = hash alg y)"

text \<open>The bytes that an event hashes into the new measurement.\<close>

fun event_bytes :: "(hash_algo \<Rightarrow> u8 list \<Rightarrow> u8 list) \<Rightarrow> hash_algo \<Rightarrow> measured \<Rightarrow> u8 list \<Rightarrow> u8 list" where
  "event_bytes hash alg (Measured_Data ipa flags data) r =
     desc_data_bytes \<lparr>md_rim = pad MAX_MEASUREMENT_SIZE r, md_ipa = ipa, md_flags = flags,
       md_content = (if flags = RMI_MEASURE_CONTENT then pad MAX_MEASUREMENT_SIZE (hash alg data) else pad MAX_MEASUREMENT_SIZE [])\<rparr>"
| "event_bytes hash alg (Measured_Rec p) r =
     desc_rec_bytes \<lparr>mr_rim = pad MAX_MEASUREMENT_SIZE r, mr_content = pad MAX_MEASUREMENT_SIZE (hash alg (rec_params_bytes p))\<rparr>"
| "event_bytes hash alg (Measured_Ripas ipa_base ipa_top) r =
     desc_ripas_bytes \<lparr>mi_rim = pad MAX_MEASUREMENT_SIZE r, mi_base = ipa_base, mi_top = ipa_top\<rparr>"

definition hash_length_ok :: "(hash_algo \<Rightarrow> u8 list \<Rightarrow> u8 list) \<Rightarrow> hash_algo \<Rightarrow> bool" where
  "hash_length_ok hash alg \<longleftrightarrow> (\<forall>d. length (hash alg d) = measurement_get_size alg)"

lemma hash_length: "hash_length_ok hash alg \<Longrightarrow> length (hash alg d) = measurement_get_size alg"
  by (simp add: hash_length_ok_def)

lemma size_le: "measurement_get_size alg \<le> MAX_MEASUREMENT_SIZE" "MAX_MEASUREMENT_SIZE = 64"
  by (cases alg) (simp_all add: measurement_get_size_def SHA256_SIZE_def SHA512_SIZE_def MAX_MEASUREMENT_SIZE_def)

lemma measure_eq:
  assumes "hash_length_ok hash alg"
  shows "take (measurement_get_size alg) (measure hash alg ev rim) =
    hash alg (event_bytes hash alg ev (take (measurement_get_size alg) rim))"
proof -
  have p: "replicate MAX_MEASUREMENT_SIZE 0 = pad MAX_MEASUREMENT_SIZE []"
    "hash alg d @ drop (measurement_get_size alg) (pad MAX_MEASUREMENT_SIZE []) = pad MAX_MEASUREMENT_SIZE (hash alg d)" for d
    by (simp_all add: pad_def hash_length [OF assms])
  show ?thesis
    by (cases ev) (simp_all add: measurement_data_granule_measure_def measurement_rec_params_measure_def
        measurement_init_ripas_measure_def measurement_hash_compute_def do_hash_def desc_rim_def Let_def
        hash_length [OF assms] p)
qed

lemma length_event_bytes:
  assumes "hash_length_ok hash alg" "length r \<le> MAX_MEASUREMENT_SIZE"
  shows "length (event_bytes hash alg ev r) = 0x100"
  using assms(2) size_le
  by (cases ev) (simp_all add: desc_data_bytes_def desc_rec_bytes_def desc_ripas_bytes_def hash_length [OF assms(1)])

lemma length_params_bytes: "length (rim_params_bytes p) = 0x1000"
  by (simp add: rim_params_bytes_def)

lemma params_bytes_inj: "rim_params_bytes p = rim_params_bytes q \<Longrightarrow> same_params p q"
  by (simp add: rim_params_bytes_def pad_inj same_params_def)

lemma rec_bytes_inj:
  "rec_params_bytes p = rec_params_bytes q \<Longrightarrow> length (pp_gprs p) = 8 \<Longrightarrow> length (pp_gprs q) = 8 \<Longrightarrow>
   same_event (Measured_Rec p) (Measured_Rec q)"
  by (simp add: rec_params_bytes_def pad_inj word_bytes_inj)

lemma desc_bytes_inj:
  "length (md_rim a) = length (md_rim b) \<Longrightarrow> length (md_content a) = length (md_content b) \<Longrightarrow>
     desc_data_bytes a = desc_data_bytes b \<Longrightarrow> a = (b :: measurement_desc_data)"
  "length (mr_rim c) = length (mr_rim d) \<Longrightarrow> length (mr_content c) = length (mr_content d) \<Longrightarrow>
     desc_rec_bytes c = desc_rec_bytes d \<Longrightarrow> c = (d :: measurement_desc_rec)"
  "length (mi_rim e) = length (mi_rim f) \<Longrightarrow> desc_ripas_bytes e = desc_ripas_bytes f \<Longrightarrow> e = (f :: measurement_desc_ripas)"
  by (simp_all add: desc_data_bytes_def desc_rec_bytes_def desc_ripas_bytes_def pad_inj desc_head_inj)

lemma event_bytes_inj:
  assumes len: "hash_length_ok hash alg"
    and r: "length r = measurement_get_size alg" "length r' = measurement_get_size alg"
    and wf: "wf_event ev" "wf_event ev'"
    and e: "event_bytes hash alg ev r = event_bytes hash alg ev' r'" and nc: "\<not> collision hash alg"
  shows "same_event ev ev' \<and> r = r'"
proof -
  have inj: "hash alg x = hash alg y \<Longrightarrow> x = y" for x y using nc by (auto simp: collision_def)
  have l: "length (pad MAX_MEASUREMENT_SIZE r) = MAX_MEASUREMENT_SIZE" "length (pad MAX_MEASUREMENT_SIZE r') = MAX_MEASUREMENT_SIZE" "length (pad MAX_MEASUREMENT_SIZE (hash alg d)) = MAX_MEASUREMENT_SIZE" for d
    using size_le by (simp_all add: r hash_length [OF len])
  have pr: "pad MAX_MEASUREMENT_SIZE r = pad MAX_MEASUREMENT_SIZE r' \<longleftrightarrow> r = r'" by (simp add: pad_inj r)
  have ph: "pad MAX_MEASUREMENT_SIZE (hash alg x) = pad MAX_MEASUREMENT_SIZE (hash alg y) \<longleftrightarrow> x = y" for x y
    using inj by (auto simp: pad_inj hash_length [OF len])
  have t: "take 1 (event_bytes hash alg v x) =
      [case v of Measured_Data _ _ _ \<Rightarrow> 0 | Measured_Rec _ \<Rightarrow> 1 | Measured_Ripas _ _ \<Rightarrow> 2]" for v x
    by (cases v) (simp_all add: desc_data_bytes_def desc_rec_bytes_def desc_ripas_bytes_def desc_head_def pad_def
        MEASURE_DESC_TYPE_DATA_def MEASURE_DESC_TYPE_REC_def MEASURE_DESC_TYPE_RIPAS_def)
  show ?thesis
  proof (cases ev)
    case (Measured_Data ipa flags data)
    then obtain ipa' flags' data' where ev': "ev' = Measured_Data ipa' flags' data'"
      using arg_cong [OF e, of "take 1"] unfolding t by (cases ev') simp_all
    define c where "c f x = (if f = RMI_MEASURE_CONTENT then pad MAX_MEASUREMENT_SIZE (hash alg x)
        else pad MAX_MEASUREMENT_SIZE [])" for f x
    have lc: "length (c f x) = MAX_MEASUREMENT_SIZE" for f x using l(3) by (simp add: c_def)
    have "\<lparr>md_rim = pad MAX_MEASUREMENT_SIZE r, md_ipa = ipa, md_flags = flags, md_content = c flags data\<rparr> =
        \<lparr>md_rim = pad MAX_MEASUREMENT_SIZE r', md_ipa = ipa', md_flags = flags', md_content = c flags' data'\<rparr>"
      using e unfolding Measured_Data ev' event_bytes.simps c_def [symmetric]
      by (intro desc_bytes_inj(1)) (simp_all add: l lc)
    then have "pad MAX_MEASUREMENT_SIZE r = pad MAX_MEASUREMENT_SIZE r' \<and> ipa = ipa' \<and> flags = flags' \<and>
        (flags = RMI_MEASURE_CONTENT \<longrightarrow> pad MAX_MEASUREMENT_SIZE (hash alg data) = pad MAX_MEASUREMENT_SIZE (hash alg data'))"
      by (auto simp: c_def)
    then show ?thesis unfolding pr ph Measured_Data ev' by simp
  next
    case (Measured_Rec p)
    then obtain p' where ev': "ev' = Measured_Rec p'"
      using arg_cong [OF e, of "take 1"] unfolding t by (cases ev') simp_all
    have "pad MAX_MEASUREMENT_SIZE r = pad MAX_MEASUREMENT_SIZE r' \<and>
        pad MAX_MEASUREMENT_SIZE (hash alg (rec_params_bytes p)) = pad MAX_MEASUREMENT_SIZE (hash alg (rec_params_bytes p'))"
    proof -
      have "\<lparr>mr_rim = pad MAX_MEASUREMENT_SIZE r, mr_content = pad MAX_MEASUREMENT_SIZE (hash alg (rec_params_bytes p))\<rparr> =
          \<lparr>mr_rim = pad MAX_MEASUREMENT_SIZE r', mr_content = pad MAX_MEASUREMENT_SIZE (hash alg (rec_params_bytes p'))\<rparr>"
        using e unfolding Measured_Rec ev' event_bytes.simps by (intro desc_bytes_inj(2)) (simp_all add: l)
      then show ?thesis by simp
    qed
    then have "rec_params_bytes p = rec_params_bytes p' \<and> r = r'" unfolding pr ph by simp
    with rec_bytes_inj [of p p'] wf show ?thesis unfolding Measured_Rec ev' wf_event.simps by blast
  next
    case (Measured_Ripas b tp)
    then obtain b' tp' where ev': "ev' = Measured_Ripas b' tp'"
      using arg_cong [OF e, of "take 1"] unfolding t by (cases ev') simp_all
    have "pad MAX_MEASUREMENT_SIZE r = pad MAX_MEASUREMENT_SIZE r' \<and> b = b' \<and> tp = tp'"
      using desc_bytes_inj(3) [OF _ e [unfolded Measured_Ripas ev' event_bytes.simps]] l by simp
    then show ?thesis unfolding pr Measured_Ripas ev' by simp
  qed
qed

lemma rim_history_snoc: "rim_history hash alg p (evs @ [ev]) = measure hash alg ev (rim_history hash alg p evs)"
  by (simp add: rim_history_def)

lemma rim_history_nil:
  assumes "hash_length_ok hash alg"
  shows "take (measurement_get_size alg) (rim_history hash alg p []) = hash alg (rim_params_bytes p)"
  by (simp add: rim_history_def measurement_realm_params_measure_def measurement_hash_compute_def do_hash_def
      Let_def hash_length [OF assms])

lemma length_history:
  assumes "hash_length_ok hash alg"
  shows "length (take (measurement_get_size alg) (rim_history hash alg p evs)) = measurement_get_size alg"
  by (cases evs rule: rev_cases)
    (simp_all only: rim_history_snoc measure_eq [OF assms] rim_history_nil [OF assms] hash_length [OF assms])

lemma rim_history_inj:
  assumes len: "hash_length_ok hash alg" and nc: "\<not> collision hash alg"
    and "list_all wf_event evs" "list_all wf_event evs'"
    and "take (measurement_get_size alg) (rim_history hash alg p evs) =
         take (measurement_get_size alg) (rim_history hash alg p' evs')"
  shows "same_params p p' \<and> list_all2 same_event evs evs'"
  using assms(3-)
proof (induction evs arbitrary: evs' rule: rev_induct)
  have inj: "hash alg x = hash alg y \<Longrightarrow> x = y" for x y using nc by (auto simp: collision_def)
  have lr: "length (take (measurement_get_size alg) (rim_history hash alg q es)) \<le> MAX_MEASUREMENT_SIZE" for q es
    using size_le(1) [of alg] length_history [OF len] by metis
  {
    case Nil
    have "evs' = []"
    proof (rule ccontr)
      assume "evs' \<noteq> []"
      then obtain es e where es: "evs' = es @ [e]" by (cases evs' rule: rev_cases) auto
      have "hash alg (rim_params_bytes p) =
          hash alg (event_bytes hash alg e (take (measurement_get_size alg) (rim_history hash alg p' es)))"
        using Nil(3) unfolding es rim_history_snoc measure_eq [OF len] rim_history_nil [OF len] .
      from arg_cong [OF inj [OF this], of length] show False
        using length_event_bytes [OF len lr] by (simp only: length_params_bytes)
    qed
    then show ?case using Nil(3) inj params_bytes_inj by (simp add: rim_history_nil [OF len])
  next
    case (snoc ev evs)
    show ?case
    proof (cases evs' rule: rev_cases)
      case Nil
      have "hash alg (rim_params_bytes p') =
          hash alg (event_bytes hash alg ev (take (measurement_get_size alg) (rim_history hash alg p evs)))"
        using snoc(4) [symmetric] unfolding Nil rim_history_snoc measure_eq [OF len] rim_history_nil [OF len] .
      from arg_cong [OF inj [OF this], of length] show ?thesis
        using length_event_bytes [OF len lr] by (simp only: length_params_bytes)
    next
      case (snoc es e)
      note s = \<open>evs' = es @ [e]\<close>
      have "event_bytes hash alg ev (take (measurement_get_size alg) (rim_history hash alg p evs)) =
          event_bytes hash alg e (take (measurement_get_size alg) (rim_history hash alg p' es))"
        using snoc.prems(3) unfolding s rim_history_snoc measure_eq [OF len] by (rule inj)
      then have "same_event ev e \<and> take (measurement_get_size alg) (rim_history hash alg p evs) =
          take (measurement_get_size alg) (rim_history hash alg p' es)"
        using snoc.prems(1,2) unfolding s 
        by (intro event_bytes_inj [OF len length_history [OF len] length_history [OF len] _ _ _ nc]) simp_all
      then show ?thesis
        using snoc.IH [of es] snoc.prems(1,2) unfolding s by (simp add: list_all2_appendI)
    qed
  }
qed


text \<open>
  A stand-in for the hash with results of the right length, and the parameters of two realms
  that differ only in what is not measured.
\<close>

definition demo_hash :: "hash_algo \<Rightarrow> u8 list \<Rightarrow> u8 list" where
  "demo_hash alg d = replicate (measurement_get_size alg) (of_nat (length d))"

definition demo_params :: "u16 \<Rightarrow> rmi_realm_params" where
  "demo_params v = \<lparr>rp_flags = 0, rp_s2sz = 40, rp_sve_vl = 0, rp_num_bps = 1, rp_num_wps = 1, rp_pmu_num_ctrs = 0,
     rp_algorithm = 0, rp_rpv = [], rp_vmid = v, rp_rtt_base = 0x80004000, rp_rtt_level_start = 1, rp_rtt_num_start = 1\<rparr>"


end
