(* ===== verification/Rmi_Rtt.thy ===== *)
theory Rmi_Rtt
  imports Realm_Ipa Measurement
begin

text \<open>
  The RMI commands on the translation tables of a realm (\<^verbatim>\<open>runtime/rmi/rtt.c\<close>): creation,
  folding and destruction of tables, mapping of non-secure memory, reading an entry and the
  RIPAS changes. A command with several results gets and returns the register array of
  \<^verbatim>\<open>struct smc_result\<close>.
\<close>

type_synonym smc_result = "nat \<Rightarrow> u64"

definition pack_return_code :: "u64 \<Rightarrow> u8 \<Rightarrow> u64" where
  "pack_return_code status index = push_bit 8 (ucast index) OR status"

definition rtt_error :: "int \<Rightarrow> u64" where
  "rtt_error level = pack_return_code RMI_ERROR_RTT (word_of_int level)"

abbreviation (input) S2TT_MAX_PA_BITS :: nat where "S2TT_MAX_PA_BITS \<equiv> 48"

section \<open>Validation of the parameters\<close>

definition validate_map_addr :: "u64 \<Rightarrow> int \<Rightarrow> rd \<Rightarrow> ('s, bool) M" where
  "validate_map_addr map_addr level rd =
    (if map_addr < realm_ipa_size rd then s2tte_is_addr_lvl_aligned (rd_s2_ctx rd) map_addr level
     else returnM False)"

definition validate_rtt_structure_cmds :: "u64 \<Rightarrow> int \<Rightarrow> rd \<Rightarrow> ('s, bool) M" where
  "validate_rtt_structure_cmds map_addr level rd =
    (let min_level = realm_rtt_starting_level rd + 1
     in if level < min_level \<or> level > S2TT_PAGE_LEVEL then returnM False
        else validate_map_addr map_addr (level - 1) rd)"

definition validate_rtt_map_cmds :: "u64 \<Rightarrow> int \<Rightarrow> rd \<Rightarrow> ('s, bool) M" where
  "validate_rtt_map_cmds map_addr level rd =
    (if level < S2TT_MIN_BLOCK_LEVEL \<or> level > S2TT_PAGE_LEVEL then returnM False
     else validate_map_addr map_addr level rd)"

definition validate_rtt_entry_cmds :: "u64 \<Rightarrow> int \<Rightarrow> rd \<Rightarrow> ('s, bool) M" where
  "validate_rtt_entry_cmds map_addr level rd =
    (if level < realm_rtt_starting_level rd \<or> level > S2TT_PAGE_LEVEL then returnM False
     else validate_map_addr map_addr level rd)"

section \<open>Creating a table\<close>

definition fill_unassigned :: "(u64 list \<Rightarrow> u64 list) \<Rightarrow> nat \<Rightarrow> nat \<Rightarrow> (rmm, unit) M" where
  "fill_unassigned init llt g_tbl =
    bindM (read_table g_tbl) (\<lambda>s2tt.
    thenM (write_table g_tbl (init s2tt))
    (atomic_granule_get llt))"

definition fill_assigned :: "(u64 list \<Rightarrow> u64 \<Rightarrow> (rmm, u64 list) M) \<Rightarrow> s2tt_context \<Rightarrow> u64 \<Rightarrow> int \<Rightarrow> nat \<Rightarrow> (rmm, unit) M" where
  "fill_assigned init s2_ctx parent_s2tte level g_tbl =
    bindM (s2tte_pa s2_ctx parent_s2tte (level - 1)) (\<lambda>block_pa.
    bindM (read_table g_tbl) (\<lambda>s2tt.
    bindM (init s2tt block_pa) (\<lambda>s2tt'.
    write_table g_tbl s2tt')))"

text \<open>
  The chain of cases on the parent entry. The result is false for an entry that is a table
  already.
\<close>

definition create_child :: "s2tt_context \<Rightarrow> s2tt_walk \<Rightarrow> nat \<Rightarrow> u64 \<Rightarrow> int \<Rightarrow> u64 \<Rightarrow> (rmm, bool) M" where
  "create_child s2_ctx wi g_tbl map_addr level parent_s2tte =
    (if s2tte_is_unassigned_empty parent_s2tte
     then thenM (fill_unassigned s2tt_init_unassigned_empty (llt_of wi) g_tbl) (returnM True)
     else if s2tte_is_unassigned_ram parent_s2tte
     then thenM (fill_unassigned s2tt_init_unassigned_ram (llt_of wi) g_tbl) (returnM True)
     else if s2tte_is_unassigned_ns parent_s2tte
     then thenM (fill_unassigned s2tt_init_unassigned_ns (llt_of wi) g_tbl) (returnM True)
     else if s2tte_is_unassigned_destroyed parent_s2tte
     then thenM (fill_unassigned s2tt_init_unassigned_destroyed (llt_of wi) g_tbl) (returnM True)
     else if s2tte_is_assigned_destroyed parent_s2tte (level - 1)
     then thenM (assertM (level > S2TT_MIN_BLOCK_LEVEL))
          (thenM (fill_assigned (\<lambda>t pa. s2tt_init_assigned_destroyed s2_ctx t pa level) s2_ctx parent_s2tte level g_tbl)
          (thenM (granule_refcount_inc g_tbl (of_nat S2TTES_PER_S2TT)) (returnM True)))
     else if s2tte_is_assigned_empty parent_s2tte (level - 1)
     then thenM (assertM (level > S2TT_MIN_BLOCK_LEVEL))
          (thenM (fill_assigned (\<lambda>t pa. s2tt_init_assigned_empty s2_ctx t pa level) s2_ctx parent_s2tte level g_tbl)
          (thenM (granule_refcount_inc g_tbl (of_nat S2TTES_PER_S2TT)) (returnM True)))
     else if s2tte_is_assigned_ram parent_s2tte (level - 1)
     then thenM (assertM (level > S2TT_MIN_BLOCK_LEVEL))
          (thenM (s2tte_write (llt_of wi) (wi_index wi) 0)
          (thenM (s2tt_invalidate_block s2_ctx map_addr)
          (thenM (fill_assigned (\<lambda>t pa. s2tt_init_assigned_ram s2_ctx t pa level) s2_ctx parent_s2tte level g_tbl)
          (thenM (granule_refcount_inc g_tbl (of_nat S2TTES_PER_S2TT)) (returnM True)))))
     else if s2tte_is_assigned_ns parent_s2tte (level - 1)
     then thenM (assertM (level > S2TT_MIN_BLOCK_LEVEL))
          (thenM (s2tte_write (llt_of wi) (wi_index wi) 0)
          (thenM (s2tt_invalidate_block s2_ctx map_addr)
          (thenM (fill_assigned (\<lambda>t pa. s2tt_init_assigned_ns s2_ctx t parent_s2tte pa level) s2_ctx parent_s2tte level g_tbl)
          (thenM (atomic_granule_get (llt_of wi)) (returnM True)))))
     else if s2tte_is_table parent_s2tte (level - 1) then returnM False
     else failM Assert_Fail)"

text \<open>The part of the command that has the parent table and the new table mapped.\<close>

definition create_table_entry :: "s2tt_context \<Rightarrow> s2tt_walk \<Rightarrow> nat \<Rightarrow> u64 \<Rightarrow> u64 \<Rightarrow> int \<Rightarrow> (rmm, u64) M" where
  "create_table_entry s2_ctx wi g_tbl rtt_addr map_addr level =
    thenM (map_slot (g_llt wi) SLOT_RTT)
    (bindM (s2tte_read (llt_of wi) (wi_index wi)) (\<lambda>parent_s2tte.
     thenM (map_slot (Some g_tbl) SLOT_DELEGATED)
     (bindM (create_child s2_ctx wi g_tbl map_addr level parent_s2tte) (\<lambda>created.
      bindM
       (if created then
          thenM (granule_set_state g_tbl GRANULE_STATE_RTT)
          (bindM (s2tte_create_table s2_ctx rtt_addr (level - 1)) (\<lambda>parent_s2tte'.
           thenM (s2tte_write (llt_of wi) (wi_index wi) parent_s2tte')
           (returnM RMI_SUCCESS)))
        else returnM (rtt_error (level - 1))) (\<lambda>ret.
      thenM (buffer_unmap SLOT_DELEGATED)
      (thenM (buffer_unmap SLOT_RTT)
       (returnM ret)))))))"

definition smc_rtt_create :: "u64 \<Rightarrow> u64 \<Rightarrow> u64 \<Rightarrow> u64 \<Rightarrow> (rmm, u64) M" where
  "smc_rtt_create rd_addr rtt_addr map_addr ulevel =
    (let level = sint ulevel
     in bindM (find_lock_two_granules rtt_addr GRANULE_STATE_DELEGATED rd_addr GRANULE_STATE_RD) (\<lambda>locked.
     (case locked of
        None \<Rightarrow> returnM RMI_ERROR_INPUT
      | Some (g_tbl, g_rd) \<Rightarrow>
      thenM (map_slot (Some g_rd) SLOT_RD)
      (bindM (read_rd g_rd) (\<lambda>rd.
       bindM (validate_rtt_structure_cmds map_addr level rd) (\<lambda>valid.
       if \<not> valid then
         thenM (buffer_unmap SLOT_RD)
         (thenM (granule_unlock g_rd)
         (thenM (granule_unlock g_tbl)
          (returnM RMI_ERROR_INPUT)))
       else (let s2_ctx = rd_s2_ctx rd in
         thenM (buffer_unmap SLOT_RD)
         (if \<not> enable_lpa2 s2_ctx \<and> rtt_addr \<ge> push_bit S2TT_MAX_PA_BITS 1 then
            thenM (granule_unlock g_rd)
            (thenM (granule_unlock g_tbl)
             (returnM RMI_ERROR_INPUT))
          else
            thenM (lock_root s2_ctx)
            (thenM (granule_unlock g_rd)
            (bindM (s2tt_walk_lock_unlock s2_ctx map_addr (level - 1)) (\<lambda>wi.
             if last_level wi \<noteq> level - 1 then
               thenM (granule_unlock (llt_of wi))
               (thenM (granule_unlock g_tbl)
                (returnM (rtt_error (last_level wi))))
             else
               bindM (create_table_entry s2_ctx wi g_tbl rtt_addr map_addr level) (\<lambda>ret.
               thenM (granule_unlock (llt_of wi))
               (thenM (granule_unlock g_tbl)
                (returnM ret))))))))))))))"

section \<open>Folding a table\<close>

text \<open>
  The new parent entry when the table can be folded, or the error code. The reference counts are
  changed as in the source: a folded table of unassigned entries takes its reference off the
  parent, a folded table of assigned entries loses its 512 references.
\<close>

definition fold_unassigned :: "s2tt_context \<Rightarrow> s2tt_walk \<Rightarrow> nat \<Rightarrow> int \<Rightarrow> (rmm, u64 + u64) M" where
  "fold_unassigned s2_ctx wi g_tbl level =
    bindM (read_table g_tbl) (\<lambda>table.
    if s2tt_is_unassigned_destroyed_block table then
      thenM (atomic_granule_put (llt_of wi)) (returnM (Inr s2tte_create_unassigned_destroyed))
    else if s2tt_is_unassigned_empty_block table then
      thenM (atomic_granule_put (llt_of wi)) (returnM (Inr s2tte_create_unassigned_empty))
    else if s2tt_is_unassigned_ram_block table then
      thenM (atomic_granule_put (llt_of wi)) (returnM (Inr s2tte_create_unassigned_ram))
    else if s2tt_is_unassigned_ns_block table then
      thenM (atomic_granule_put (llt_of wi)) (returnM (Inr s2tte_create_unassigned_ns))
    else bindM (s2tt_maps_assigned_ns_block s2_ctx table level) (\<lambda>ns.
      if ns then
        (if level \<le> S2TT_MIN_BLOCK_LEVEL then returnM (Inl (rtt_error (last_level wi)))
         else bindM (s2tte_create_assigned_ns s2_ctx (table ! 0) (level - 1)) (\<lambda>s2tte.
              thenM (atomic_granule_put (llt_of wi)) (returnM (Inr s2tte))))
      else returnM (Inl (rtt_error level))))"

definition fold_assigned :: "s2tt_context \<Rightarrow> s2tt_walk \<Rightarrow> nat \<Rightarrow> int \<Rightarrow> (rmm, u64 + u64) M" where
  "fold_assigned s2_ctx wi g_tbl level =
    (if level \<le> S2TT_MIN_BLOCK_LEVEL then returnM (Inl (rtt_error (last_level wi)))
     else bindM (read_table g_tbl) (\<lambda>table.
       bindM (s2tte_pa s2_ctx (table ! 0) level) (\<lambda>block_pa.
       bindM (s2tt_maps_assigned_empty_block s2_ctx table level) (\<lambda>empty.
       if empty then
         bindM (s2tte_create_assigned_empty s2_ctx block_pa (level - 1)) (\<lambda>s2tte.
         thenM (granule_refcount_dec g_tbl (of_nat S2TTES_PER_S2TT)) (returnM (Inr s2tte)))
       else bindM (s2tt_maps_assigned_ram_block s2_ctx table level) (\<lambda>ram.
       if ram then
         bindM (s2tte_create_assigned_ram s2_ctx block_pa (level - 1)) (\<lambda>s2tte.
         thenM (granule_refcount_dec g_tbl (of_nat S2TTES_PER_S2TT)) (returnM (Inr s2tte)))
       else bindM (s2tt_maps_assigned_destroyed_block s2_ctx table level) (\<lambda>destroyed.
       if destroyed then
         bindM (s2tte_create_assigned_destroyed s2_ctx block_pa (level - 1)) (\<lambda>s2tte.
         thenM (granule_refcount_dec g_tbl (of_nat S2TTES_PER_S2TT)) (returnM (Inr s2tte)))
       else returnM (Inl (rtt_error level))))))))"

definition fold_entry :: "s2tt_context \<Rightarrow> s2tt_walk \<Rightarrow> nat \<Rightarrow> int \<Rightarrow> (rmm, u64 + u64) M" where
  "fold_entry s2_ctx wi g_tbl level =
    bindM (granule_refcount_read g_tbl) (\<lambda>refcount.
    if refcount = 0 then fold_unassigned s2_ctx wi g_tbl level
    else if refcount = of_nat S2TTES_PER_S2TT then fold_assigned s2_ctx wi g_tbl level
    else returnM (Inl (rtt_error level)))"

text \<open>Break before make: the old entry is removed and the TLB invalidated before the new one is written.\<close>

definition replace_entry :: "s2tt_context \<Rightarrow> s2tt_walk \<Rightarrow> u64 \<Rightarrow> int \<Rightarrow> u64 \<Rightarrow> (rmm, unit) M" where
  "replace_entry s2_ctx wi map_addr level parent_s2tte =
    thenM (s2tte_write (llt_of wi) (wi_index wi) 0)
    (thenM (if s2tte_is_assigned_ram parent_s2tte (level - 1) \<or> s2tte_is_assigned_ns parent_s2tte (level - 1)
            then s2tt_invalidate_pages_in_block s2_ctx map_addr
            else s2tt_invalidate_block s2_ctx map_addr)
    (s2tte_write (llt_of wi) (wi_index wi) parent_s2tte))"

text \<open>The part of the command that has the table locked.\<close>

definition fold_table :: "s2tt_context \<Rightarrow> s2tt_walk \<Rightarrow> u64 \<Rightarrow> int \<Rightarrow> u64 \<Rightarrow> smc_result \<Rightarrow> (rmm, smc_result) M" where
  "fold_table s2_ctx wi map_addr level parent_s2tte res =
    bindM (s2tte_pa s2_ctx parent_s2tte (level - 1)) (\<lambda>rtt_addr.
    bindM (find_lock_granule rtt_addr GRANULE_STATE_RTT) (\<lambda>tbl.
    (case tbl of
       None \<Rightarrow> failM Assert_Fail
     | Some g_tbl \<Rightarrow>
    thenM (map_slot (Some g_tbl) SLOT_RTT2)
    (bindM (fold_entry s2_ctx wi g_tbl level) (\<lambda>entry.
     bindM
      (case entry of
         Inl err \<Rightarrow> returnM (res(0 := err))
       | Inr parent_s2tte' \<Rightarrow>
           thenM (replace_entry s2_ctx wi map_addr level parent_s2tte')
           (thenM (granule_memzero_mapped g_tbl)
           (thenM (granule_set_state g_tbl GRANULE_STATE_DELEGATED)
            (returnM (res(1 := rtt_addr, 0 := RMI_SUCCESS)))))) (\<lambda>res'.
     thenM (buffer_unmap SLOT_RTT2)
     (thenM (granule_unlock g_tbl)
      (returnM res'))))))))"

definition smc_rtt_fold :: "u64 \<Rightarrow> u64 \<Rightarrow> u64 \<Rightarrow> smc_result \<Rightarrow> (rmm, smc_result) M" where
  "smc_rtt_fold rd_addr map_addr ulevel res =
    (let level = sint ulevel
     in bindM (find_lock_granule rd_addr GRANULE_STATE_RD) (\<lambda>locked.
     (case locked of
        None \<Rightarrow> returnM (res(0 := RMI_ERROR_INPUT))
      | Some g_rd \<Rightarrow>
      thenM (map_slot (Some g_rd) SLOT_RD)
      (bindM (read_rd g_rd) (\<lambda>rd.
       bindM (validate_rtt_structure_cmds map_addr level rd) (\<lambda>valid.
       if \<not> valid then
         thenM (buffer_unmap SLOT_RD)
         (thenM (granule_unlock g_rd)
          (returnM (res(0 := RMI_ERROR_INPUT))))
       else (let s2_ctx = rd_s2_ctx rd in
         thenM (buffer_unmap SLOT_RD)
         (thenM (lock_root s2_ctx)
         (thenM (granule_unlock g_rd)
         (bindM (s2tt_walk_lock_unlock s2_ctx map_addr (level - 1)) (\<lambda>wi.
          if last_level wi \<noteq> level - 1 then
            thenM (granule_unlock (llt_of wi))
            (returnM (res(0 := rtt_error (last_level wi))))
          else
            thenM (map_slot (g_llt wi) SLOT_RTT)
            (bindM (s2tte_read (llt_of wi) (wi_index wi)) (\<lambda>parent_s2tte.
             if \<not> s2tte_is_table parent_s2tte (level - 1) then
               thenM (buffer_unmap SLOT_RTT)
               (thenM (granule_unlock (llt_of wi))
                (returnM (res(0 := rtt_error (level - 1)))))
             else bindM (fold_table s2_ctx wi map_addr level parent_s2tte res) (\<lambda>res'.
               thenM (buffer_unmap SLOT_RTT)
               (thenM (granule_unlock (llt_of wi))
                (returnM res'))))))))))))))))"

section \<open>Destroying a table\<close>

text \<open>The removal of the table: the return code, whether the entries that are not live are skipped, and the registers.\<close>

definition destroy_table ::
  "s2tt_context \<Rightarrow> s2tt_walk \<Rightarrow> u64 \<Rightarrow> int \<Rightarrow> bool \<Rightarrow> u64 \<Rightarrow> smc_result \<Rightarrow> (rmm, u64 \<times> bool \<times> smc_result) M" where
  "destroy_table s2_ctx wi map_addr level in_par parent_s2tte res =
    (if last_level wi \<noteq> level - 1 \<or> \<not> s2tte_is_table parent_s2tte (level - 1)
     then returnM (rtt_error (last_level wi), True, res)
     else bindM (s2tte_pa s2_ctx parent_s2tte (level - 1)) (\<lambda>rtt_addr.
       bindM (find_lock_granule rtt_addr GRANULE_STATE_RTT) (\<lambda>tbl.
       (case tbl of
          None \<Rightarrow> failM Assert_Fail
        | Some g_tbl \<Rightarrow>
       bindM (granule_refcount_read g_tbl) (\<lambda>refcount.
       if refcount \<noteq> 0 then
         thenM (granule_unlock g_tbl)
         (returnM (rtt_error level, False, res))
       else
         thenM (map_slot (Some g_tbl) SLOT_RTT2)
         (let parent_s2tte' = (if in_par then s2tte_create_unassigned_destroyed else s2tte_create_unassigned_ns)
          in thenM (atomic_granule_put (llt_of wi))
             (thenM (s2tte_write (llt_of wi) (wi_index wi) 0)
             (thenM (if in_par then s2tt_invalidate_block s2_ctx map_addr
                     else s2tt_invalidate_pages_in_block s2_ctx map_addr)
             (thenM (s2tte_write (llt_of wi) (wi_index wi) parent_s2tte')
             (thenM (granule_memzero_mapped g_tbl)
             (thenM (granule_set_state g_tbl GRANULE_STATE_DELEGATED)
             (thenM (buffer_unmap SLOT_RTT2)
             (thenM (granule_unlock g_tbl)
              (returnM (RMI_SUCCESS, True, res(1 := rtt_addr))))))))))))))))"

definition smc_rtt_destroy :: "u64 \<Rightarrow> u64 \<Rightarrow> u64 \<Rightarrow> smc_result \<Rightarrow> (rmm, smc_result) M" where
  "smc_rtt_destroy rd_addr map_addr ulevel res =
    (let level = sint ulevel
     in bindM (find_lock_granule rd_addr GRANULE_STATE_RD) (\<lambda>locked.
     (case locked of
        None \<Rightarrow> returnM (res(0 := RMI_ERROR_INPUT, 2 := 0))
      | Some g_rd \<Rightarrow>
      thenM (map_slot (Some g_rd) SLOT_RD)
      (bindM (read_rd g_rd) (\<lambda>rd.
       bindM (validate_rtt_structure_cmds map_addr level rd) (\<lambda>valid.
       if \<not> valid then
         thenM (buffer_unmap SLOT_RD)
         (thenM (granule_unlock g_rd)
          (returnM (res(0 := RMI_ERROR_INPUT, 2 := 0))))
       else (let s2_ctx = rd_s2_ctx rd; in_par = addr_in_par rd map_addr in
         thenM (buffer_unmap SLOT_RD)
         (thenM (lock_root s2_ctx)
         (thenM (granule_unlock g_rd)
         (bindM (s2tt_walk_lock_unlock s2_ctx map_addr (level - 1)) (\<lambda>wi.
          thenM (map_slot (g_llt wi) SLOT_RTT)
          (bindM (s2tte_read (llt_of wi) (wi_index wi)) (\<lambda>parent_s2tte.
           bindM
            (destroy_table s2_ctx wi map_addr level in_par parent_s2tte res)
            (\<lambda>(ret, skip_non_live, res').
           bindM (read_table (llt_of wi)) (\<lambda>parent_s2tt.
           bindM (if skip_non_live then s2tt_skip_non_live_entries s2_ctx map_addr parent_s2tt wi
                  else returnM map_addr) (\<lambda>rtop.
           thenM (buffer_unmap SLOT_RTT)
           (thenM (granule_unlock (llt_of wi))
            (returnM (res'(2 := rtop, 0 := ret))))))))))))))))))))"

section \<open>Mapping non-secure memory\<close>

datatype map_unmap_ns_op = MAP_NS | UNMAP_NS

definition map_unmap_ns :: "u64 \<Rightarrow> u64 \<Rightarrow> int \<Rightarrow> u64 \<Rightarrow> map_unmap_ns_op \<Rightarrow> smc_result \<Rightarrow> (rmm, smc_result) M" where
  "map_unmap_ns rd_addr map_addr level host_s2tte op res =
     bindM (find_lock_granule rd_addr GRANULE_STATE_RD) (\<lambda>locked.
     (case locked of
        None \<Rightarrow> returnM (res(0 := RMI_ERROR_INPUT))
      | Some g_rd \<Rightarrow>
      thenM (map_slot (Some g_rd) SLOT_RD)
      (bindM (read_rd g_rd) (\<lambda>rd.
      (let s2_ctx = rd_s2_ctx rd in
       bindM (if op = MAP_NS then host_ns_s2tte_is_valid s2_ctx host_s2tte level else returnM True) (\<lambda>host_ok.
       bindM (if host_ok then validate_rtt_map_cmds map_addr level rd else returnM False) (\<lambda>valid.
       if \<not> valid \<or> addr_in_par rd map_addr then
         thenM (buffer_unmap SLOT_RD)
         (thenM (granule_unlock g_rd)
          (returnM (res(0 := RMI_ERROR_INPUT))))
       else
         thenM (buffer_unmap SLOT_RD)
         (thenM (lock_root s2_ctx)
         (thenM (granule_unlock g_rd)
         (bindM (s2tt_walk_lock_unlock s2_ctx map_addr level) (\<lambda>wi.
          if op = MAP_NS \<and> last_level wi \<noteq> level then
            thenM (granule_unlock (llt_of wi))
            (returnM (res(0 := rtt_error (last_level wi))))
          else
            thenM (map_slot (g_llt wi) SLOT_RTT)
            (bindM (s2tte_read (llt_of wi) (wi_index wi)) (\<lambda>s2tte.
             bindM
              (case op of
                 MAP_NS \<Rightarrow>
                   if \<not> s2tte_is_unassigned_ns s2tte then returnM (res(0 := rtt_error level))
                   else bindM (s2tte_create_assigned_ns s2_ctx host_s2tte level) (\<lambda>s2tte'.
                        thenM (s2tte_write (llt_of wi) (wi_index wi) s2tte')
                        (returnM (res(0 := RMI_SUCCESS))))
               | UNMAP_NS \<Rightarrow>
                   if last_level wi \<noteq> level \<or> \<not> s2tte_is_assigned_ns s2tte (last_level wi)
                   then returnM (res(0 := rtt_error (last_level wi)))
                   else thenM (s2tte_write (llt_of wi) (wi_index wi) s2tte_create_unassigned_ns)
                        (thenM (if level = S2TT_PAGE_LEVEL then s2tt_invalidate_page s2_ctx map_addr
                                else s2tt_invalidate_block s2_ctx map_addr)
                         (returnM (res(0 := RMI_SUCCESS))))) (\<lambda>res'.
             bindM (read_table (llt_of wi)) (\<lambda>s2tt.
             bindM (case op of
                      UNMAP_NS \<Rightarrow> bindM (s2tt_skip_non_live_entries s2_ctx map_addr s2tt wi)
                                    (\<lambda>rtop. returnM (res'(1 := rtop)))
                    | MAP_NS \<Rightarrow> returnM res') (\<lambda>res''.
             thenM (buffer_unmap SLOT_RTT)
             (thenM (granule_unlock (llt_of wi))
              (returnM res''))))))))))))))))))"

definition smc_rtt_map_unprotected :: "u64 \<Rightarrow> u64 \<Rightarrow> u64 \<Rightarrow> u64 \<Rightarrow> (rmm, u64) M" where
  "smc_rtt_map_unprotected rd_addr map_addr ulevel s2tte =
    (let level = sint ulevel
     in if level < S2TT_MIN_BLOCK_LEVEL \<or> level > S2TT_PAGE_LEVEL then returnM RMI_ERROR_INPUT
        else bindM (map_unmap_ns rd_addr map_addr level s2tte MAP_NS (\<lambda>_. 0)) (\<lambda>res. returnM (res 0)))"

definition smc_rtt_unmap_unprotected :: "u64 \<Rightarrow> u64 \<Rightarrow> u64 \<Rightarrow> smc_result \<Rightarrow> (rmm, smc_result) M" where
  "smc_rtt_unmap_unprotected rd_addr map_addr ulevel res =
    (let level = sint ulevel
     in if level < S2TT_MIN_BLOCK_LEVEL \<or> level > S2TT_PAGE_LEVEL then returnM (res(0 := RMI_ERROR_INPUT))
        else map_unmap_ns rd_addr map_addr level 0 UNMAP_NS res)"

section \<open>Reading an entry\<close>

definition ripas_value :: "ripas \<Rightarrow> u64" where
  "ripas_value r =
    (case r of RIPAS_EMPTY \<Rightarrow> RMI_EMPTY | RIPAS_RAM \<Rightarrow> RMI_RAM | RIPAS_DESTROYED \<Rightarrow> RMI_DESTROYED | RIPAS_DEV \<Rightarrow> 3)"

text \<open>The state, the output address and the RIPAS that are reported for an entry.\<close>

definition describe_entry :: "s2tt_context \<Rightarrow> u64 \<Rightarrow> int \<Rightarrow> ('s, u64 \<times> u64 \<times> u64) M" where
  "describe_entry s2_ctx s2tte level =
    (if s2tte_is_unassigned_empty s2tte then returnM (RMI_UNASSIGNED, 0, ripas_value RIPAS_EMPTY)
     else if s2tte_is_unassigned_ram s2tte then returnM (RMI_UNASSIGNED, 0, ripas_value RIPAS_RAM)
     else if s2tte_is_unassigned_destroyed s2tte then returnM (RMI_UNASSIGNED, 0, ripas_value RIPAS_DESTROYED)
     else if s2tte_is_assigned_empty s2tte level then
       bindM (s2tte_pa s2_ctx s2tte level) (\<lambda>pa. returnM (RMI_ASSIGNED, pa, ripas_value RIPAS_EMPTY))
     else if s2tte_is_assigned_ram s2tte level then
       bindM (s2tte_pa s2_ctx s2tte level) (\<lambda>pa. returnM (RMI_ASSIGNED, pa, ripas_value RIPAS_RAM))
     else if s2tte_is_assigned_destroyed s2tte level then returnM (RMI_ASSIGNED, 0, ripas_value RIPAS_DESTROYED)
     else if s2tte_is_unassigned_ns s2tte then returnM (RMI_UNASSIGNED, 0, ripas_value RIPAS_EMPTY)
     else if s2tte_is_assigned_ns s2tte level then
       bindM (host_ns_s2tte s2_ctx s2tte level) (\<lambda>desc. returnM (RMI_ASSIGNED, desc, ripas_value RIPAS_EMPTY))
     else if s2tte_is_table s2tte level then
       bindM (s2tte_pa s2_ctx s2tte level) (\<lambda>pa. returnM (RMI_TABLE, pa, ripas_value RIPAS_EMPTY))
     else failM Assert_Fail)"

definition smc_rtt_read_entry :: "u64 \<Rightarrow> u64 \<Rightarrow> u64 \<Rightarrow> smc_result \<Rightarrow> (rmm, smc_result) M" where
  "smc_rtt_read_entry rd_addr map_addr ulevel res =
    (let level = sint ulevel
     in bindM (find_lock_granule rd_addr GRANULE_STATE_RD) (\<lambda>locked.
     (case locked of
        None \<Rightarrow> returnM (res(0 := RMI_ERROR_INPUT))
      | Some g_rd \<Rightarrow>
      thenM (map_slot (Some g_rd) SLOT_RD)
      (bindM (read_rd g_rd) (\<lambda>rd.
       bindM (validate_rtt_entry_cmds map_addr level rd) (\<lambda>valid.
       if \<not> valid then
         thenM (buffer_unmap SLOT_RD)
         (thenM (granule_unlock g_rd)
          (returnM (res(0 := RMI_ERROR_INPUT))))
       else (let s2_ctx = rd_s2_ctx rd in
         thenM (buffer_unmap SLOT_RD)
         (thenM (lock_root s2_ctx)
         (thenM (granule_unlock g_rd)
         (bindM (s2tt_walk_lock_unlock s2_ctx map_addr level) (\<lambda>wi.
          thenM (map_slot (g_llt wi) SLOT_RTT)
          (bindM (s2tte_read (llt_of wi) (wi_index wi)) (\<lambda>s2tte.
           bindM (describe_entry s2_ctx s2tte (last_level wi)) (\<lambda>(state, desc, ripas).
           thenM (buffer_unmap SLOT_RTT)
           (thenM (granule_unlock (llt_of wi))
            (returnM (res(1 := word_of_int (last_level wi), 2 := state, 3 := desc, 4 := ripas, 0 := RMI_SUCCESS))))))))))))))))))"

section \<open>Changing the RIPAS of an entry\<close>

definition EPERM :: int where "EPERM = 1"
definition EINVAL_errno :: int where "EINVAL_errno = 22"

text \<open>
  The two halves of \<^verbatim>\<open>update_ripas\<close>: the result code and, when the entry is written back, its new
  value. A negative code is an error; a positive code asks for a TLB invalidation.
\<close>

definition ripas_to_ram :: "s2tt_context \<Rightarrow> u64 \<Rightarrow> int \<Rightarrow> ripas_change_destroyed \<Rightarrow> ('s, int \<times> u64 option) M" where
  "ripas_to_ram s2_ctx s2tte level change_destroyed =
    (if s2tte_is_unassigned_empty s2tte then returnM (0, Some s2tte_create_unassigned_ram)
     else if s2tte_is_unassigned_destroyed s2tte then
       (if change_destroyed = CHANGE_DESTROYED then returnM (0, Some s2tte_create_unassigned_ram)
        else returnM (- EINVAL_errno, None))
     else if s2tte_is_assigned_empty s2tte level then
       bindM (s2tte_pa s2_ctx s2tte level) (\<lambda>pa.
       bindM (s2tte_create_assigned_ram s2_ctx pa level) (\<lambda>e. returnM (0, Some e)))
     else if s2tte_is_assigned_destroyed s2tte level then
       (if change_destroyed = CHANGE_DESTROYED then
          bindM (s2tte_pa s2_ctx s2tte level) (\<lambda>pa.
          bindM (s2tte_create_assigned_ram s2_ctx pa level) (\<lambda>e. returnM (0, Some e)))
        else returnM (- EINVAL_errno, None))
     else returnM (0, None))"

definition ripas_to_empty :: "s2tt_context \<Rightarrow> u64 \<Rightarrow> int \<Rightarrow> ripas_change_destroyed \<Rightarrow> ('s, int \<times> u64 option) M" where
  "ripas_to_empty s2_ctx s2tte level change_destroyed =
    (if s2tte_is_unassigned_ram s2tte then returnM (0, Some s2tte_create_unassigned_empty)
     else if s2tte_is_unassigned_destroyed s2tte then
       (if change_destroyed = CHANGE_DESTROYED then returnM (0, Some s2tte_create_unassigned_empty)
        else returnM (- EINVAL_errno, None))
     else if s2tte_is_assigned_ram s2tte level then
       bindM (s2tte_pa s2_ctx s2tte level) (\<lambda>pa.
       bindM (s2tte_create_assigned_empty s2_ctx pa level) (\<lambda>e. returnM (1, Some e)))
     else if s2tte_is_assigned_destroyed s2tte level then
       (if change_destroyed = CHANGE_DESTROYED then
          bindM (s2tte_pa s2_ctx s2tte level) (\<lambda>pa.
          bindM (s2tte_create_assigned_empty s2_ctx pa level) (\<lambda>e. returnM (1, Some e)))
        else returnM (- EINVAL_errno, None))
     else returnM (0, None))"

definition new_ripas_entry ::
  "s2tt_context \<Rightarrow> u64 \<Rightarrow> int \<Rightarrow> ripas \<Rightarrow> ripas_change_destroyed \<Rightarrow> ('s, int \<times> u64 option) M" where
  "new_ripas_entry s2_ctx s2tte level ripas_val change_destroyed =
    (if \<not> s2tte_has_ripas s2tte level then returnM (- EPERM, None)
     else if ripas_val = RIPAS_RAM then ripas_to_ram s2_ctx s2tte level change_destroyed
     else if ripas_val = RIPAS_EMPTY then ripas_to_empty s2_ctx s2tte level change_destroyed
     else returnM (0, Some s2tte))"

definition update_ripas ::
  "s2tt_context \<Rightarrow> nat \<Rightarrow> u64 \<Rightarrow> int \<Rightarrow> ripas \<Rightarrow> ripas_change_destroyed \<Rightarrow> (rmm, int) M" where
  "update_ripas s2_ctx llt index level ripas_val change_destroyed =
    bindM (s2tte_read llt index) (\<lambda>s2tte.
    bindM (new_ripas_entry s2_ctx s2tte level ripas_val change_destroyed) (\<lambda>(ret, entry).
    (case entry of
       None \<Rightarrow> returnM ret
     | Some s2tte' \<Rightarrow> thenM (s2tte_write llt index s2tte') (returnM ret))))"

section \<open>Initialising the RIPAS of a range\<close>

abbreviation (input) S2TTES_PER_S2TT_LM1 :: nat where "S2TTES_PER_S2TT_LM1 \<equiv> 16"

definition measure_ripas ::
  "(hash_algo \<Rightarrow> u8 list \<Rightarrow> u8 list) \<Rightarrow> nat \<Rightarrow> u64 \<Rightarrow> u64 \<Rightarrow> (rmm, unit) M" where
  "measure_ripas hash g_rd addr next_addr =
    bindM (read_rd g_rd) (\<lambda>rd.
    write_rd g_rd (rd\<lparr>measurement := (measurement rd)[RIM_MEASUREMENT_SLOT :=
      measurement_init_ripas_measure hash (measurement rd ! RIM_MEASUREMENT_SLOT) (rd_algorithm rd) addr next_addr]\<rparr>))"

fun init_ripas_loop ::
  "(hash_algo \<Rightarrow> u8 list \<Rightarrow> u8 list) \<Rightarrow> nat \<Rightarrow> nat \<Rightarrow> u64 \<Rightarrow> u64 \<Rightarrow> nat list \<Rightarrow> u64 \<Rightarrow> (rmm, u64) M" where
  "init_ripas_loop hash g_rd llt map_size rtop [] addr = returnM addr"
| "init_ripas_loop hash g_rd llt map_size rtop (index # idxs) addr =
    (let next_addr = addr + map_size
     in if next_addr > rtop then returnM addr
        else bindM (s2tte_read llt (of_nat index)) (\<lambda>s2tte.
          if s2tte_is_unassigned_empty s2tte then
            thenM (s2tte_write llt (of_nat index) s2tte_create_unassigned_ram)
            (thenM (measure_ripas hash g_rd addr next_addr)
             (init_ripas_loop hash g_rd llt map_size rtop idxs next_addr))
          else if \<not> s2tte_is_unassigned_ram s2tte then returnM addr
          else thenM (measure_ripas hash g_rd addr next_addr)
               (init_ripas_loop hash g_rd llt map_size rtop idxs next_addr)))"

definition smc_rtt_init_ripas ::
  "(hash_algo \<Rightarrow> u8 list \<Rightarrow> u8 list) \<Rightarrow> u64 \<Rightarrow> u64 \<Rightarrow> u64 \<Rightarrow> smc_result \<Rightarrow> (rmm, smc_result) M" where
  "smc_rtt_init_ripas hash rd_addr rbase rtop res =
    (if rtop \<le> rbase then returnM (res(0 := RMI_ERROR_INPUT))
     else bindM (find_lock_granule rd_addr GRANULE_STATE_RD) (\<lambda>locked.
     (case locked of
        None \<Rightarrow> returnM (res(0 := RMI_ERROR_INPUT))
      | Some g_rd \<Rightarrow>
      thenM (map_slot (Some g_rd) SLOT_RD)
      (bindM (read_rd g_rd) (\<lambda>rd.
       bindM (validate_map_addr rbase S2TT_PAGE_LEVEL rd) (\<lambda>base_ok.
       bindM (if base_ok then validate_map_addr rtop S2TT_PAGE_LEVEL rd else returnM False) (\<lambda>top_ok.
       if \<not> top_ok \<or> \<not> addr_in_par rd rbase \<or> \<not> addr_in_par rd (rtop - GRANULE_SIZE) then
         thenM (buffer_unmap SLOT_RD)
         (thenM (granule_unlock g_rd)
          (returnM (res(0 := RMI_ERROR_INPUT))))
       else if rd_state rd \<noteq> REALM_NEW then
         thenM (buffer_unmap SLOT_RD)
         (thenM (granule_unlock g_rd)
          (returnM (res(0 := RMI_ERROR_REALM))))
       else (let s2_ctx = rd_s2_ctx rd in
         thenM (lock_root s2_ctx)
         (bindM (s2tt_walk_lock_unlock s2_ctx rbase S2TT_PAGE_LEVEL) (\<lambda>wi.
          thenM (map_slot (g_llt wi) SLOT_RTT)
          (let level = last_level wi; map_size = s2tte_map_size level; addr = rbase AND NOT (map_size - 1);
               n = (if level = S2TT_MIN_STARTING_LEVEL_LPA2 then S2TTES_PER_S2TT_LM1 else S2TTES_PER_S2TT)
           in bindM
             (if addr \<noteq> rbase then returnM (res(0 := rtt_error level))
              else bindM (init_ripas_loop hash g_rd (llt_of wi) map_size rtop [unat (wi_index wi)..<n] addr) (\<lambda>addr'.
                returnM (if addr' > rbase then res(0 := RMI_SUCCESS, 1 := addr') else res(0 := rtt_error level))))
             (\<lambda>res'.
              thenM (buffer_unmap SLOT_RTT)
              (thenM (buffer_unmap SLOT_RD)
              (thenM (granule_unlock (llt_of wi))
              (thenM (granule_unlock g_rd)
               (returnM res'))))))))))))))))"

section \<open>The RIPAS change of a range\<close>

fun set_ripas_loop ::
  "s2tt_context \<Rightarrow> nat \<Rightarrow> int \<Rightarrow> u64 \<Rightarrow> u64 \<Rightarrow> ripas \<Rightarrow> ripas_change_destroyed \<Rightarrow> nat list \<Rightarrow> u64 \<Rightarrow> (rmm, u64) M" where
  "set_ripas_loop s2_ctx llt level map_size rtop ripas_val change_destroyed [] addr = returnM addr"
| "set_ripas_loop s2_ctx llt level map_size rtop ripas_val change_destroyed (index # idxs) addr =
    (if addr + map_size > rtop then returnM addr
     else bindM (update_ripas s2_ctx llt (of_nat index) level ripas_val change_destroyed) (\<lambda>ret.
       if ret < 0 then returnM addr
       else thenM (if ret \<noteq> 0 then (if level = S2TT_PAGE_LEVEL then s2tt_invalidate_page s2_ctx addr
                                  else s2tt_invalidate_block s2_ctx addr)
                   else returnM ())
            (set_ripas_loop s2_ctx llt level map_size rtop ripas_val change_destroyed idxs (addr + map_size))))"

definition rtt_set_ripas_range ::
  "s2tt_context \<Rightarrow> nat \<Rightarrow> u64 \<Rightarrow> u64 \<Rightarrow> s2tt_walk \<Rightarrow> ripas \<Rightarrow> ripas_change_destroyed \<Rightarrow> smc_result \<Rightarrow> (rmm, smc_result) M" where
  "rtt_set_ripas_range s2_ctx llt rbase rtop wi ripas_val change_destroyed res =
    (let level = last_level wi; map_size = s2tte_map_size level; addr = rbase AND NOT (map_size - 1)
     in if addr \<noteq> rbase then returnM (res(0 := rtt_error level))
        else bindM (set_ripas_loop s2_ctx llt level map_size rtop ripas_val change_destroyed
                      [unat (wi_index wi)..<S2TTES_PER_S2TT] addr) (\<lambda>addr'.
          returnM (if addr' > rbase then res(0 := RMI_SUCCESS, 1 := addr') else res(0 := rtt_error level))))"

text \<open>The part of the command between the checks on the execution context and the release of its granule.\<close>

definition set_ripas_walk :: "nat \<Rightarrow> nat \<Rightarrow> rec_data \<Rightarrow> u64 \<Rightarrow> u64 \<Rightarrow> smc_result \<Rightarrow> (rmm, smc_result) M" where
  "set_ripas_walk g_rd g_rec rec rbase rtop res =
    thenM (map_slot (Some g_rd) SLOT_RD)
    (bindM (read_rd g_rd) (\<lambda>rd.
     bindM (validate_map_addr rbase S2TT_PAGE_LEVEL rd) (\<lambda>valid.
     thenM (assertM valid)
     (let s2_ctx = rd_s2_ctx rd in
      thenM (lock_root s2_ctx)
      (bindM (s2tt_walk_lock_unlock s2_ctx rbase S2TT_PAGE_LEVEL) (\<lambda>wi.
       bindM (validate_map_addr rbase (last_level wi) rd) (\<lambda>lvl_valid.
       bindM
        (if \<not> lvl_valid then returnM (res(0 := rtt_error (last_level wi)))
         else
           thenM (map_slot (g_llt wi) SLOT_RTT)
           (bindM (rtt_set_ripas_range s2_ctx (llt_of wi) rbase rtop wi (sr_ripas_val (rec_set_ripas rec))
                     (sr_change_destroyed (rec_set_ripas rec)) res) (\<lambda>res'.
            thenM (if res' 0 = RMI_SUCCESS
                   then write_rec g_rec (rec\<lparr>rec_set_ripas := (rec_set_ripas rec)\<lparr>sr_addr := res' 1\<rparr>\<rparr>)
                   else returnM ())
            (thenM (buffer_unmap SLOT_RTT)
             (returnM res')))))
        (\<lambda>res''.
       thenM (granule_unlock (llt_of wi))
       (thenM (buffer_unmap SLOT_RD)
        (returnM res''))))))))))"

definition smc_rtt_set_ripas :: "u64 \<Rightarrow> u64 \<Rightarrow> u64 \<Rightarrow> u64 \<Rightarrow> smc_result \<Rightarrow> (rmm, smc_result) M" where
  "smc_rtt_set_ripas rd_addr rec_addr rbase rtop res =
    (if rtop \<le> rbase then returnM (res(0 := RMI_ERROR_INPUT))
     else bindM (find_lock_two_granules rd_addr GRANULE_STATE_RD rec_addr GRANULE_STATE_REC) (\<lambda>locked.
     (case locked of
        None \<Rightarrow> returnM (res(0 := RMI_ERROR_INPUT))
      | Some (g_rd, g_rec) \<Rightarrow>
      bindM (granule_refcount_read_acquire g_rec) (\<lambda>refcount.
      bindM
       (if refcount \<noteq> 0 then returnM (res(0 := RMI_ERROR_REC))
        else
          thenM (map_slot (Some g_rec) SLOT_REC)
          (bindM (read_rec g_rec) (\<lambda>rec.
           bindM
            (if ri_g_rd (rec_realm_info rec) \<noteq> Some g_rd then returnM (res(0 := RMI_ERROR_REC))
             else if rbase \<noteq> sr_addr (rec_set_ripas rec) \<or> rtop > sr_top (rec_set_ripas rec)
             then returnM (res(0 := RMI_ERROR_INPUT))
             else set_ripas_walk g_rd g_rec rec rbase rtop res)
            (\<lambda>res'.
           thenM (buffer_unmap SLOT_REC)
           (returnM res')))))
       (\<lambda>res''.
      thenM (granule_unlock g_rec)
      (thenM (granule_unlock g_rd)
       (returnM res'')))))))"

end
