(* ===== verification/Rmi_Data.thy ===== *)
theory Rmi_Data
  imports Rmi_Rtt
begin

text \<open>
  The RMI commands that add and remove memory of a realm (\<^verbatim>\<open>data_create\<close>, \<^verbatim>\<open>smc_data_create\<close>,
  \<^verbatim>\<open>smc_data_create_unknown\<close> and \<^verbatim>\<open>smc_data_destroy\<close> in \<^verbatim>\<open>runtime/rmi/rtt.c\<close>), with the propagation of a
  new or removed page to the realms that share a confidential memory region.

  Non-secure memory is a parameter: \<open>ns_read g\<close> gives the words that a read of the granule \<open>g\<close>
  returns before it ends, and whether it completed.
\<close>

section \<open>Reading non-secure memory\<close>

definition ns_buffer_read :: "(nat \<Rightarrow> u64 list \<times> bool) \<Rightarrow> nat \<Rightarrow> nat \<Rightarrow> nat \<Rightarrow> (rmm, bool) M" where
  "ns_buffer_read ns_read slot ns_gr dest =
    thenM (assertM (slot = SLOT_NS))
    (bindM (granule_addr (Some ns_gr)) (\<lambda>addr.
     bindM (getM (\<lambda>s. slots s slot)) (\<lambda>used.
     thenM (assertM (used = None))
     (thenM (modifyM (\<lambda>s. s\<lparr>slots := (slots s)(slot := Some ns_gr)\<rparr>))
     (bindM (read_table dest) (\<lambda>old.
      (let (ws, retval) = ns_read ns_gr
       in thenM (write_table dest (ws @ drop (length ws) old))
          (thenM (buffer_unmap slot)
           (returnM retval)))))))))"

section \<open>Creating data\<close>

definition validate_data_create_unknown :: "u64 \<Rightarrow> rd \<Rightarrow> ('s, u64) M" where
  "validate_data_create_unknown map_addr rd =
    (if \<not> addr_in_par rd map_addr then returnM RMI_ERROR_INPUT
     else bindM (validate_map_addr map_addr S2TT_PAGE_LEVEL rd) (\<lambda>valid.
       returnM (if \<not> valid then RMI_ERROR_INPUT else RMI_SUCCESS)))"

definition validate_data_create :: "u64 \<Rightarrow> rd \<Rightarrow> ('s, u64) M" where
  "validate_data_create map_addr rd =
    (if rd_state rd \<noteq> REALM_NEW then returnM RMI_ERROR_REALM else validate_data_create_unknown map_addr rd)"

definition measure_data ::
  "(hash_algo \<Rightarrow> u8 list \<Rightarrow> u8 list) \<Rightarrow> nat \<Rightarrow> nat \<Rightarrow> u64 \<Rightarrow> u64 \<Rightarrow> (rmm, unit) M" where
  "measure_data hash g_rd g_data map_addr flags =
    bindM (read_rd g_rd) (\<lambda>rd.
    bindM (read_table g_data) (\<lambda>ws.
    write_rd g_rd (rd\<lparr>measurement := (measurement rd)[RIM_MEASUREMENT_SLOT :=
      measurement_data_granule_measure hash (measurement rd ! RIM_MEASUREMENT_SLOT) (rd_algorithm rd)
        (word_bytes ws) map_addr flags]\<rparr>)))"

text \<open>
  The new entry of the page: for RMI\_DATA\_CREATE the content is copied and measured and the page is
  RAM, for RMI\_DATA\_CREATE\_UNKNOWN the RIPAS is kept. None when the non-secure read fails; the granule is
  cleared then.
\<close>

definition data_entry ::
  "(hash_algo \<Rightarrow> u8 list \<Rightarrow> u8 list) \<Rightarrow> (nat \<Rightarrow> u64 list \<times> bool) \<Rightarrow> s2tt_context \<Rightarrow> nat \<Rightarrow> nat \<Rightarrow> u64 \<Rightarrow> u64 \<Rightarrow>
   nat option \<Rightarrow> u64 \<Rightarrow> u64 \<Rightarrow> (rmm, u64 option) M" where
  "data_entry hash ns_read s2_ctx g_rd g_data data_addr map_addr g_src flags s2tte =
    (case g_src of
       Some src \<Rightarrow>
         thenM (map_slot (Some g_data) SLOT_DELEGATED)
         (bindM (ns_buffer_read ns_read SLOT_NS src g_data) (\<lambda>ns_access_ok.
          if \<not> ns_access_ok then
            thenM (granule_memzero_mapped g_data)
            (thenM (buffer_unmap SLOT_DELEGATED)
             (returnM None))
          else
            thenM (measure_data hash g_rd g_data map_addr flags)
            (thenM (buffer_unmap SLOT_DELEGATED)
            (bindM (s2tte_create_assigned_ram s2_ctx data_addr S2TT_PAGE_LEVEL) (\<lambda>e. returnM (Some e))))))
     | None \<Rightarrow>
         bindM (s2tte_create_assigned_unchanged s2_ctx s2tte data_addr S2TT_PAGE_LEVEL) (\<lambda>e. returnM (Some e)))"

text \<open>
  The part between the walk and the release of the last table: the code to return and the new
  state of the data granule.
\<close>

definition data_create_entry ::
  "(hash_algo \<Rightarrow> u8 list \<Rightarrow> u8 list) \<Rightarrow> (nat \<Rightarrow> u64 list \<times> bool) \<Rightarrow> s2tt_context \<Rightarrow> nat \<Rightarrow> nat \<Rightarrow> u64 \<Rightarrow> u64 \<Rightarrow>
   nat option \<Rightarrow> u64 \<Rightarrow> s2tt_walk \<Rightarrow> (rmm, u64 \<times> u8) M" where
  "data_create_entry hash ns_read s2_ctx g_rd g_data data_addr map_addr g_src flags wi =
    (if last_level wi \<noteq> S2TT_PAGE_LEVEL
     then returnM (rtt_error (last_level wi), GRANULE_STATE_DELEGATED)
     else
       thenM (map_slot (g_llt wi) SLOT_RTT)
       (bindM (s2tte_read (llt_of wi) (wi_index wi)) (\<lambda>s2tte.
        bindM
         (if \<not> s2tte_is_unassigned s2tte then returnM (rtt_error S2TT_PAGE_LEVEL, GRANULE_STATE_DELEGATED)
          else bindM (data_entry hash ns_read s2_ctx g_rd g_data data_addr map_addr g_src flags s2tte) (\<lambda>entry.
            (case entry of
               None \<Rightarrow> returnM (RMI_ERROR_INPUT, GRANULE_STATE_DELEGATED)
             | Some s2tte' \<Rightarrow>
                 thenM (s2tte_write (llt_of wi) (wi_index wi) s2tte')
                 (thenM (atomic_granule_get (llt_of wi))
                  (returnM (RMI_SUCCESS, GRANULE_STATE_DATA))))))
         (\<lambda>result.
        thenM (buffer_unmap SLOT_RTT)
        (returnM result)))))"

text \<open>The walk, from the lock of the root table to the release of the last one.\<close>

definition data_create_walk ::
  "(hash_algo \<Rightarrow> u8 list \<Rightarrow> u8 list) \<Rightarrow> (nat \<Rightarrow> u64 list \<times> bool) \<Rightarrow> s2tt_context \<Rightarrow> nat \<Rightarrow> nat \<Rightarrow> u64 \<Rightarrow> u64 \<Rightarrow>
   nat option \<Rightarrow> u64 \<Rightarrow> (rmm, u64 \<times> u8) M" where
  "data_create_walk hash ns_read s2_ctx g_rd g_data data_addr map_addr g_src flags =
    thenM (lock_root s2_ctx)
    (bindM (s2tt_walk_lock_unlock s2_ctx map_addr S2TT_PAGE_LEVEL) (\<lambda>wi.
     bindM (data_create_entry hash ns_read s2_ctx g_rd g_data data_addr map_addr g_src flags wi) (\<lambda>result.
     thenM (granule_unlock (llt_of wi))
     (returnM result))))"

definition data_create ::
  "(hash_algo \<Rightarrow> u8 list \<Rightarrow> u8 list) \<Rightarrow> (nat \<Rightarrow> u64 list \<times> bool) \<Rightarrow> u64 \<Rightarrow> u64 \<Rightarrow> u64 \<Rightarrow> nat option \<Rightarrow> u64 \<Rightarrow> (rmm, u64) M" where
  "data_create hash ns_read rd_addr data_addr map_addr g_src flags =
    bindM (find_lock_two_granules data_addr GRANULE_STATE_DELEGATED rd_addr GRANULE_STATE_RD) (\<lambda>locked.
    (case locked of
       None \<Rightarrow> returnM RMI_ERROR_INPUT
     | Some (g_data, g_rd) \<Rightarrow>
     thenM (map_slot (Some g_rd) SLOT_RD)
     (bindM (read_rd g_rd) (\<lambda>rd.
      bindM (if g_src \<noteq> None then validate_data_create map_addr rd else validate_data_create_unknown map_addr rd) (\<lambda>ret.
      bindM
       (if ret \<noteq> RMI_SUCCESS then returnM (ret, GRANULE_STATE_DELEGATED)
        else (let s2_ctx = rd_s2_ctx rd in
          if \<not> enable_lpa2 s2_ctx \<and> data_addr \<ge> push_bit S2TT_MAX_PA_BITS 1
          then returnM (RMI_ERROR_INPUT, GRANULE_STATE_DELEGATED)
          else data_create_walk hash ns_read s2_ctx g_rd g_data data_addr map_addr g_src flags))
       (\<lambda>(ret', new_data_state).
      thenM (buffer_unmap SLOT_RD)
      (thenM (granule_unlock g_rd)
      (thenM (granule_unlock_transition g_data new_data_state)
       (returnM ret')))))))))"

section \<open>Propagation to the realms that share a region\<close>

text \<open>
  The two functions \<^verbatim>\<open>csm_propagate_create\<close> and \<^verbatim>\<open>csm_propagate_destroy\<close> differ only in what they do with the
  partner's address: \<open>act\<close> maps the page in the tables of the partner realm or unmaps it.
\<close>

definition region_contains :: "u64 \<Rightarrow> u64 \<Rightarrow> u64 \<Rightarrow> bool" where
  "region_contains ipa_start map_size addr \<longleftrightarrow> ipa_start \<le> addr \<and> addr < ipa_start + map_size"

definition slave_region_ipa :: "apt \<Rightarrow> u8 \<Rightarrow> u64 \<Rightarrow> u64 option" where
  "slave_region_ipa sapt rid offset =
    map_option (\<lambda>sj. sm_ipa_start (slave_memory sapt ! sj) + offset)
      (find (\<lambda>sj. slave_used_mask sapt AND BIT64 sj \<noteq> 0 \<and> sm_region_ID (slave_memory sapt ! sj) = rid)
        [0..<MAX_MEM_REGIONS])"

definition master_region_ipa :: "apt \<Rightarrow> u8 \<Rightarrow> u64 \<Rightarrow> u64 option" where
  "master_region_ipa mapt rid offset =
    map_option (\<lambda>mi. mm_ipa_start (master_memory mapt ! mi) + offset) (apt_find_master_by_region_id mapt rid)"

text \<open>Lock the partner's descriptor and table, look its address up, and act on the partner.\<close>

definition csm_partner :: "(rd \<Rightarrow> u64 \<Rightarrow> (rmm, unit) M) \<Rightarrow> (apt \<Rightarrow> u64 option) \<Rightarrow> u64 \<Rightarrow> (rmm, unit) M" where
  "csm_partner act partner_ipa partner_rd_pa =
    bindM (find_lock_granule partner_rd_pa GRANULE_STATE_RD) (\<lambda>locked.
    (case locked of
       None \<Rightarrow> returnM ()
     | Some g_prd \<Rightarrow>
     thenM (map_slot (Some g_prd) SLOT_RD2)
     (bindM (read_rd g_prd) (\<lambda>prd.
      bindM (find_lock_granule (apt_pa prd) GRANULE_STATE_APT) (\<lambda>locked_apt.
      (case locked_apt of
         None \<Rightarrow>
           thenM (buffer_unmap SLOT_RD2)
           (granule_unlock g_prd)
       | Some g_papt \<Rightarrow>
           thenM (map_slot (Some g_papt) SLOT_APT2)
           (bindM (read_apt g_papt) (\<lambda>papt.
            thenM (buffer_unmap SLOT_APT2)
            (thenM (granule_unlock g_papt)
            (thenM (case partner_ipa papt of None \<Rightarrow> returnM () | Some ipa \<Rightarrow> act prd ipa)
            (thenM (buffer_unmap SLOT_RD2)
             (granule_unlock g_prd))))))))))))"

definition csm_propagate :: "(rd \<Rightarrow> u64 \<Rightarrow> (rmm, unit) M) \<Rightarrow> u64 \<Rightarrow> u64 \<Rightarrow> (rmm, unit) M" where
  "csm_propagate act rd_addr map_addr =
    bindM (find_lock_granule rd_addr GRANULE_STATE_RD) (\<lambda>locked.
    (case locked of
       None \<Rightarrow> returnM ()
     | Some g_rd \<Rightarrow>
     thenM (map_slot (Some g_rd) SLOT_RD)
     (bindM (read_rd g_rd) (\<lambda>rd.
      thenM
       (if apt_pa rd = 0 then returnM ()
        else bindM (find_lock_granule (apt_pa rd) GRANULE_STATE_APT) (\<lambda>locked_apt.
          (case locked_apt of
             None \<Rightarrow> returnM ()
           | Some g_apt \<Rightarrow>
           thenM (map_slot (Some g_apt) SLOT_APT)
           (bindM (read_apt g_apt) (\<lambda>a.
            thenM
             (case find (\<lambda>midx. region_contains (mm_ipa_start (master_memory a ! midx)) (mm_map_size (master_memory a ! midx)) map_addr)
                     (map (\<lambda>pos. er_index (enabled_mr a) ! pos) [0..<unat (er_len (enabled_mr a))]) of
                None \<Rightarrow> returnM ()
              | Some midx \<Rightarrow>
                  (let m = master_memory a ! midx; offset = map_addr - mm_ipa_start m
                   in forM [0..<CSM_MAX_MASTER_SHARES] (\<lambda>si.
                        if \<not> ms_in_use (shares m ! si) then returnM ()
                        else csm_partner act (\<lambda>sapt. slave_region_ipa sapt (mm_region_ID m) offset)
                               (ms_slave_rd_pa (shares m ! si)))))
            (thenM
             (case find (\<lambda>sidx. region_contains (sm_ipa_start (slave_memory a ! sidx)) (sm_map_size (slave_memory a ! sidx)) map_addr)
                     (map (\<lambda>pos. er_index (enabled_sr a) ! pos) [0..<unat (er_len (enabled_sr a))]) of
                None \<Rightarrow> returnM ()
              | Some sidx \<Rightarrow>
                  (let sm = slave_memory a ! sidx; offset = map_addr - sm_ipa_start sm
                   in csm_partner act (\<lambda>mapt. master_region_ipa mapt (sm_region_ID sm) offset) (sm_master_rd_pa sm)))
            (thenM (buffer_unmap SLOT_APT)
             (granule_unlock g_apt))))))))
      (thenM (buffer_unmap SLOT_RD)
       (granule_unlock g_rd))))))"

definition csm_propagate_create :: "u64 \<Rightarrow> u64 \<Rightarrow> u64 \<Rightarrow> (rmm, unit) M" where
  "csm_propagate_create rd_addr data_addr map_addr =
    csm_propagate (\<lambda>rd ipa. thenM (map_ipa_to_pa rd data_addr ipa) (returnM ())) rd_addr map_addr"

definition csm_propagate_destroy :: "u64 \<Rightarrow> u64 \<Rightarrow> (rmm, unit) M" where
  "csm_propagate_destroy rd_addr map_addr = csm_propagate unmap_ipa_from_rd rd_addr map_addr"

section \<open>The commands\<close>

definition smc_data_create ::
  "(hash_algo \<Rightarrow> u8 list \<Rightarrow> u8 list) \<Rightarrow> (nat \<Rightarrow> u64 list \<times> bool) \<Rightarrow> u64 \<Rightarrow> u64 \<Rightarrow> u64 \<Rightarrow> u64 \<Rightarrow> u64 \<Rightarrow> (rmm, u64) M" where
  "smc_data_create hash ns_read rd_addr data_addr map_addr src_addr flags =
    (if flags \<noteq> RMI_NO_MEASURE_CONTENT \<and> flags \<noteq> RMI_MEASURE_CONTENT then returnM RMI_ERROR_INPUT
     else bindM (find_granule src_addr) (\<lambda>g_src.
       (case g_src of
          None \<Rightarrow> returnM RMI_ERROR_INPUT
        | Some g \<Rightarrow>
            bindM (granule_unlocked_state g) (\<lambda>st.
            if st \<noteq> GRANULE_STATE_NS then returnM RMI_ERROR_INPUT
            else bindM (data_create hash ns_read rd_addr data_addr map_addr g_src flags) (\<lambda>ret.
              thenM (if ret = RMI_SUCCESS then csm_propagate_create rd_addr data_addr map_addr else returnM ())
              (returnM ret))))))"

definition smc_data_create_unknown ::
  "(hash_algo \<Rightarrow> u8 list \<Rightarrow> u8 list) \<Rightarrow> (nat \<Rightarrow> u64 list \<times> bool) \<Rightarrow> u64 \<Rightarrow> u64 \<Rightarrow> u64 \<Rightarrow> (rmm, u64) M" where
  "smc_data_create_unknown hash ns_read rd_addr data_addr map_addr =
    bindM (data_create hash ns_read rd_addr data_addr map_addr None 0) (\<lambda>ret.
    thenM (if ret = RMI_SUCCESS then csm_propagate_create rd_addr data_addr map_addr else returnM ())
    (returnM ret))"

text \<open>
  The data granule that a page entry maps and the entry that replaces it; the invalidation of the
  TLB is needed only for a valid entry.
\<close>

definition destroy_entry :: "s2tt_context \<Rightarrow> s2tt_walk \<Rightarrow> u64 \<Rightarrow> (rmm, u64 option) M" where
  "destroy_entry s2_ctx wi map_addr =
    bindM (s2tte_read (llt_of wi) (wi_index wi)) (\<lambda>s2tte.
    if s2tte_is_assigned_ram s2tte S2TT_PAGE_LEVEL then
      bindM (s2tte_pa s2_ctx s2tte S2TT_PAGE_LEVEL) (\<lambda>data_addr.
      thenM (s2tte_write (llt_of wi) (wi_index wi) s2tte_create_unassigned_destroyed)
      (thenM (s2tt_invalidate_page s2_ctx map_addr)
       (returnM (Some data_addr))))
    else if s2tte_is_assigned_empty s2tte S2TT_PAGE_LEVEL then
      bindM (s2tte_pa s2_ctx s2tte S2TT_PAGE_LEVEL) (\<lambda>data_addr.
      thenM (s2tte_write (llt_of wi) (wi_index wi) s2tte_create_unassigned_empty)
      (returnM (Some data_addr)))
    else if s2tte_is_assigned_destroyed s2tte S2TT_PAGE_LEVEL then
      bindM (s2tte_pa s2_ctx s2tte S2TT_PAGE_LEVEL) (\<lambda>data_addr.
      thenM (s2tte_write (llt_of wi) (wi_index wi) s2tte_create_unassigned_destroyed)
      (returnM (Some data_addr)))
    else returnM None)"

text \<open>The part of \<^verbatim>\<open>smc_data_destroy\<close> under the lock of the last table.\<close>

definition data_destroy_llt :: "s2tt_context \<Rightarrow> s2tt_walk \<Rightarrow> u64 \<Rightarrow> smc_result \<Rightarrow> (rmm, smc_result) M" where
  "data_destroy_llt s2_ctx wi map_addr res =
    (if last_level wi \<noteq> S2TT_PAGE_LEVEL then returnM (res(0 := rtt_error (last_level wi)))
     else bindM (destroy_entry s2_ctx wi map_addr) (\<lambda>entry.
       (case entry of
          None \<Rightarrow> returnM (res(0 := rtt_error S2TT_PAGE_LEVEL))
        | Some data_addr \<Rightarrow>
            thenM (atomic_granule_put (llt_of wi))
            (bindM (find_lock_granule data_addr GRANULE_STATE_DATA) (\<lambda>g_data.
            (case g_data of
               None \<Rightarrow> failM Assert_Fail
             | Some g \<Rightarrow>
                 thenM (buffer_granule_memzero g SLOT_DELEGATED)
                 (thenM (granule_unlock_transition g GRANULE_STATE_DELEGATED)
                  (returnM (res(0 := RMI_SUCCESS, 1 := data_addr))))))))))"

definition smc_data_destroy :: "u64 \<Rightarrow> u64 \<Rightarrow> smc_result \<Rightarrow> (rmm, smc_result) M" where
  "smc_data_destroy rd_addr map_addr res =
    bindM (find_lock_granule rd_addr GRANULE_STATE_RD) (\<lambda>locked.
    (case locked of
       None \<Rightarrow> returnM (res(0 := RMI_ERROR_INPUT, 2 := 0))
     | Some g_rd \<Rightarrow>
     thenM (map_slot (Some g_rd) SLOT_RD)
     (bindM (read_rd g_rd) (\<lambda>rd.
      bindM (if addr_in_par rd map_addr then validate_map_addr map_addr S2TT_PAGE_LEVEL rd else returnM False) (\<lambda>valid.
      if \<not> valid then
        thenM (buffer_unmap SLOT_RD)
        (thenM (granule_unlock g_rd)
         (returnM (res(0 := RMI_ERROR_INPUT, 2 := 0))))
      else (let s2_ctx = rd_s2_ctx rd in
        thenM (buffer_unmap SLOT_RD)
        (thenM (lock_root s2_ctx)
        (thenM (granule_unlock g_rd)
        (bindM (s2tt_walk_lock_unlock s2_ctx map_addr S2TT_PAGE_LEVEL) (\<lambda>wi.
         thenM (map_slot (g_llt wi) SLOT_RTT)
         (bindM (data_destroy_llt s2_ctx wi map_addr res) (\<lambda>res'.
          bindM (read_table (llt_of wi)) (\<lambda>s2tt.
          bindM (s2tt_skip_non_live_entries s2_ctx map_addr s2tt wi) (\<lambda>rtop.
          thenM (buffer_unmap SLOT_RTT)
          (thenM (granule_unlock (llt_of wi))
          (thenM (if res' 0 = RMI_SUCCESS then csm_propagate_destroy rd_addr map_addr else returnM ())
           (returnM (res'(2 := rtop)))))))))))))))))))"

end
