(* ===== verification/Realm_Tables.thy ===== *)
theory Realm_Tables
  imports Rtt_Walk
begin

text \<open>
  The translation tables of all realms as trees. A table of a realm has a position: its depth below the
  starting level and its number among the tables of that depth; the position of an entry is the depth of its table
  and the number of the part of the address space that the entry maps. The invariant \<open>tree_ok\<close> says that the tables
  of the realms are disjoint trees of RTT granules. The walk of \<^verbatim>\<open>s2tt_walk_lock_unlock\<close> finds the table of an
  address in these trees, and a change of one entry changes at most the part of the tree below it.
\<close>

section \<open>Positions\<close>

definition is_realm :: "rmm \<Rightarrow> nat \<Rightarrow> bool" where
  "is_realm s g \<longleftrightarrow> valid_g (arm_dram s) g \<and> STATE (granules s g) = GRANULE_STATE_RD"

definition realm_ctx :: "rmm \<Rightarrow> nat \<Rightarrow> s2tt_context" where
  "realm_ctx s g = rd_s2_ctx (d_rd (mem s g))"

definition next_table :: "rmm \<Rightarrow> s2tt_context \<Rightarrow> nat \<Rightarrow> nat \<Rightarrow> nat option" where
  "next_table s s2_ctx t i =
    (let e = words (mem s t) ! i
     in if entry_is_table e then granule_at (arm_dram s) (to_pa_value e S2TT_PAGE_LEVEL (enable_lpa2 s2_ctx)) else None)"

fun table_at :: "rmm \<Rightarrow> s2tt_context \<Rightarrow> nat \<Rightarrow> nat \<Rightarrow> nat option" where
  "table_at s s2_ctx 0 b = (if b < unat (num_root_rtts s2_ctx) then Some (the (g_rtt s2_ctx) + b) else None)"
| "table_at s s2_ctx (Suc n) b =
    (case table_at s s2_ctx n (b div 512) of None \<Rightarrow> None | Some t \<Rightarrow> next_table s s2_ctx t (b mod 512))"

definition depth :: "s2tt_context \<Rightarrow> nat" where
  "depth s2_ctx = nat (S2TT_PAGE_LEVEL - s2_starting_level s2_ctx)"

definition level :: "s2tt_context \<Rightarrow> nat \<Rightarrow> int" where
  "level s2_ctx n = s2_starting_level s2_ctx + int n"

definition in_tree :: "rmm \<Rightarrow> nat \<Rightarrow> nat \<Rightarrow> nat \<Rightarrow> nat \<Rightarrow> bool" where
  "in_tree s g n b t \<longleftrightarrow> is_realm s g \<and> n \<le> depth (realm_ctx s g) \<and> table_at s (realm_ctx s g) n b = Some t"

definition tree_ok :: "rmm \<Rightarrow> bool" where
  "tree_ok s \<longleftrightarrow>
    (\<forall>g. is_realm s g \<longrightarrow> wf_ctx (realm_ctx s g)) \<and>
    (\<forall>g n b t. in_tree s g n b t \<longrightarrow> is_rtt s t) \<and>
    (\<forall>g n b t i. in_tree s g n b t \<longrightarrow> n < depth (realm_ctx s g) \<longrightarrow> i < 512 \<longrightarrow>
       entry_is_table (words (mem s t) ! i) \<longrightarrow> next_table s (realm_ctx s g) t i \<noteq> None) \<and>
    (\<forall>g n b g' n' b' t. in_tree s g n b t \<longrightarrow> in_tree s g' n' b' t \<longrightarrow> g = g' \<and> n = n' \<and> b = b')"

lemma tree_okD:
  assumes "tree_ok s"
  shows "is_realm s g \<Longrightarrow> wf_ctx (realm_ctx s g)" "in_tree s g n b t \<Longrightarrow> is_rtt s t"
    "in_tree s g n b t \<Longrightarrow> n < depth (realm_ctx s g) \<Longrightarrow> i < 512 \<Longrightarrow> entry_is_table (words (mem s t) ! i) \<Longrightarrow>
       \<exists>t'. next_table s (realm_ctx s g) t i = Some t'"
    "in_tree s g n b t \<Longrightarrow> in_tree s g' n' b' t \<Longrightarrow> g = g' \<and> n = n' \<and> b = b'"
  using assms unfolding tree_ok_def by blast+

lemma in_treeD:
  assumes "in_tree s g n b t"
  shows "is_realm s g" "n \<le> depth (realm_ctx s g)" "table_at s (realm_ctx s g) n b = Some t"
  using assms by (simp_all add: in_tree_def)

lemma in_tree_child:
  assumes "in_tree s g n b t" "n < depth (realm_ctx s g)" "i < 512" "next_table s (realm_ctx s g) t i = Some t'"
  shows "in_tree s g (Suc n) (b * 512 + i) t'"
  using assms by (simp add: in_tree_def)

lemma in_tree_parent:
  assumes "in_tree s g (Suc n) b t"
  shows "\<exists>t'. in_tree s g n (b div 512) t' \<and> next_table s (realm_ctx s g) t' (b mod 512) = Some t"
  using assms by (auto simp: in_tree_def split: option.splits)

lemma in_tree_cong:
  assumes "table_at s' (realm_ctx s' g) n b = table_at s (realm_ctx s g) n b" "is_realm s' g = is_realm s g"
    "realm_ctx s' g = realm_ctx s g"
  shows "in_tree s' g n b t = in_tree s g n b t"
  using assms by (simp add: in_tree_def)

section \<open>The walk finds the table of an address\<close>

lemma lvl_lsb_Suc: "l < 3 \<Longrightarrow> lvl_lsb l = lvl_lsb (l + 1) + 9"
  using lvl_lsb_pred [of "l + 1"] by simp

lemma addr_idx:
  assumes "unat addr < 2 ^ (if l < 0 then 52 else 64)" "-1 \<le> l"
  shows "unat (s2_addr_to_idx addr l) = unat addr div 2 ^ lvl_lsb l mod 512"
proof -
  have t: "s2_addr_to_idx addr l = take_bit (if l < 0 then 4 else 9) (drop_bit (lvl_lsb l) addr)"
    by (simp add: s2_addr_to_idx_def take_bit_eq_mask mask_eq_exp_minus_1 Let_def)
  have u: "unat (take_bit k (drop_bit m addr)) = unat addr div 2 ^ m mod 2 ^ k" for k m
    by (simp only: unsigned_take_bit_eq unat_drop_bit) (simp add: take_bit_eq_mod)
  show ?thesis
  proof (cases "l < 0")
    case True
    with assms(2) have l: "l = -1" by simp
    have "unat addr div 2 ^ 48 < 2 ^ 4" using assms(1) l by (simp add: less_mult_imp_div_less)
    then show ?thesis unfolding t u using l by simp
  next
    case False
    then show ?thesis unfolding t u by simp
  qed
qed

lemma wf_ctx_bounds:
  fixes addr :: u64
  assumes "wf_ctx s2_ctx" "addr < push_bit (unat (ipa_bits s2_ctx)) 1"
  shows "-1 \<le> s2_starting_level s2_ctx" "s2_starting_level s2_ctx \<le> 3" "unat addr < 2 ^ 52"
    "unat addr < 2 ^ unat (ipa_bits s2_ctx)"
proof -
  have b: "unat (ipa_bits s2_ctx) \<le> 52" using assms(1) by (auto simp: wf_ctx_def oa_bits_def split: if_splits)
  then have "unat (ipa_bits s2_ctx) < 64" by simp
  then show a: "unat addr < 2 ^ unat (ipa_bits s2_ctx)"
    using assms(2) by (simp add: push_bit_eq_mult word_less_nat_alt unat_exp)
  have "(2 :: nat) ^ unat (ipa_bits s2_ctx) \<le> 2 ^ 52" using b by (rule power_increasing) simp
  with a show "unat addr < 2 ^ 52" by simp
  show "-1 \<le> s2_starting_level s2_ctx" "s2_starting_level s2_ctx \<le> 3"
    using assms(1) min_starting_level_bounds(1) [of s2_ctx] by (auto simp: wf_ctx_def)
qed

text \<open>The number of the table and of the entry for an address at a level.\<close>

abbreviation entry_no :: "u64 \<Rightarrow> int \<Rightarrow> nat" where
  "entry_no addr l \<equiv> unat addr div 2 ^ lvl_lsb l"

lemma table_no_Suc: "l < 3 \<Longrightarrow> entry_no addr (l + 1) div 512 = entry_no addr l"
  using lvl_lsb_Suc [of l] by (simp add: div_mult2_eq power_add mult.commute)

lemma start_table_in_tree:
  assumes "tree_ok s" "is_realm s g" "addr < push_bit (unat (ipa_bits (realm_ctx s g))) 1"
  shows "in_tree s g 0 (entry_no addr (s2_starting_level (realm_ctx s g)) div 512) (start_table (realm_ctx s g) addr)"
  using start_table_index [OF tree_okD(1) [OF assms(1,2)] assms(3)] assms(2)
  by (simp add: in_tree_def start_table_def)

lemma follow_in_tree:
  assumes "tree_ok s" "is_realm s g" "addr < push_bit (unat (ipa_bits (realm_ctx s g))) 1"
    and "in_tree s g n (entry_no addr (level (realm_ctx s g) n) div 512) t" "n + m \<le> depth (realm_ctx s g)"
  shows "tables_ok s (realm_ctx s g) addr m (level (realm_ctx s g) n) t \<and>
    (\<exists>k. snd (follow_tables s (realm_ctx s g) addr m (level (realm_ctx s g) n) t) = level (realm_ctx s g) k \<and>
      in_tree s g k (entry_no addr (level (realm_ctx s g) k) div 512) (fst (follow_tables s (realm_ctx s g) addr m (level (realm_ctx s g) n) t)))"
  using assms(4,5)
proof (induction m arbitrary: n t)
  case 0
  then show ?case using tree_okD(2) [OF assms(1)] by auto
next
  case (Suc m)
  let ?c = "realm_ctx s g" and ?l = "level (realm_ctx s g) n"
  note wf = wf_ctx_bounds [OF tree_okD(1) [OF assms(1,2)] assms(3)]
  have n: "n < depth ?c" using Suc.prems(2) by simp
  have l: "-1 \<le> ?l" "?l < 3" using wf(1) n by (auto simp: level_def depth_def)
  have idx: "unat (s2_addr_to_idx addr ?l) = entry_no addr ?l mod 512"
    using addr_idx [of addr ?l] l(1) wf(3) by simp
  have rtt: "is_rtt s t" using tree_okD(2) [OF assms(1) Suc.prems(1)] .
  show ?case
  proof (cases "entry_is_table (table_entry s t addr ?l)")
    case False
    then show ?thesis using Suc.prems(1) rtt by auto
  next
    case True
    let ?i = "entry_no addr ?l mod 512"
    obtain t' where t': "next_table s ?c t ?i = Some t'"
      using tree_okD(3) [OF assms(1) Suc.prems(1) n, of ?i] True by (auto simp: table_entry_def idx)
    have "in_tree s g (Suc n) (entry_no addr ?l div 512 * 512 + ?i) t'"
      using in_tree_child [OF Suc.prems(1) n _ t'] by simp
    then have c: "in_tree s g (Suc n) (entry_no addr (level ?c (Suc n)) div 512) t'"
      using table_no_Suc [OF l(2), of addr] by (simp add: level_def add.assoc [symmetric] add.commute [of 1])
    have ne: "t' \<noteq> t" using tree_okD(4) [OF assms(1) c, of g n] Suc.prems(1) by auto
    have g': "granule_at (arm_dram s) (to_pa_value (table_entry s t addr ?l) 3 (enable_lpa2 ?c)) = Some t'"
      using t' True by (simp add: next_table_def table_entry_def idx Let_def)
    have l': "level ?c (Suc n) = ?l + 1" by (simp add: level_def)
    show ?thesis using Suc.IH [OF c] Suc.prems(2) True g' rtt ne by (simp add: l')
  qed
qed


lemma wf_ctx_roots: "wf_ctx s2_ctx \<Longrightarrow> 0 < unat (num_root_rtts s2_ctx)"
  by (rule ccontr) (simp add: wf_ctx_def)

lemma tree_walk_ok:
  assumes "tree_ok s" "is_realm s g" "addr < push_bit (unat (ipa_bits (realm_ctx s g))) 1"
  shows "walk_ok s (realm_ctx s g) addr"
proof -
  let ?c = "realm_ctx s g"
  have wf: "wf_ctx ?c" using tree_okD(1) [OF assms(1,2)] .
  have "in_tree s g 0 0 (the (g_rtt ?c))" using assms(2) wf_ctx_roots [OF wf] by (simp add: in_tree_def)
  then have r: "is_rtt s (the (g_rtt ?c))" by (rule tree_okD(2) [OF assms(1)])
  have l0: "level ?c 0 = s2_starting_level ?c" by (simp add: level_def)
  show ?thesis
    using follow_in_tree [OF assms, of 0 _ "depth ?c", unfolded l0, OF start_table_in_tree [OF assms]] wf r assms(3)
    by (simp add: walk_ok_def depth_def)
qed

text \<open>The position that a walk reaches.\<close>

lemma tree_walk:
  assumes "tree_ok s" "is_realm s g" "addr < push_bit (unat (ipa_bits (realm_ctx s g))) 1"
    and "s2_starting_level (realm_ctx s g) \<le> lv" "lv \<le> 3" "rtt_walk s (realm_ctx s g) addr lv = (t, l)"
  obtains k where "l = level (realm_ctx s g) k" "in_tree s g k (entry_no addr l div 512) t" "-1 \<le> l" "l \<le> lv"
    "unat (s2_addr_to_idx addr l) = entry_no addr l mod 512"
    "k < depth (realm_ctx s g) \<longleftrightarrow> l < 3"
    "l = lv \<or> \<not> entry_is_table (words (mem s t) ! (entry_no addr l mod 512))"
proof -
  let ?c = "realm_ctx s g"
  note wf = wf_ctx_bounds [OF tree_okD(1) [OF assms(1,2)] assms(3)]
  let ?n = "nat (lv - s2_starting_level ?c)"
  have l0: "level ?c 0 = s2_starting_level ?c" by (simp add: level_def)
  have n: "0 + ?n \<le> depth ?c" using assms(5) by (simp add: depth_def)
  obtain k where k: "l = level ?c k" "in_tree s g k (entry_no addr l div 512) t"
    using follow_in_tree [OF assms(1-3) _ n, unfolded l0, OF start_table_in_tree [OF assms(1-3)]] assms(6)
    by (auto simp: rtt_walk_def)
  have l: "-1 \<le> l" "l \<le> lv"
    using rtt_walk_level [OF assms(4), of s addr] wf(1) assms(6) by auto
  have idx: "unat (s2_addr_to_idx addr l) = entry_no addr l mod 512"
    using addr_idx [of addr l] l(1) wf(3) by simp
  have "k < depth ?c \<longleftrightarrow> l < 3" using k(1) wf(2) by (auto simp: level_def depth_def)
  moreover have "l = lv \<or> \<not> entry_is_table (words (mem s t) ! (entry_no addr l mod 512))"
    using follow_tables_stop [of s ?c addr ?n "s2_starting_level ?c" "start_table ?c addr"] assms(4,6)
    by (auto simp: rtt_walk_def table_entry_def idx)
  ultimately show ?thesis using that k l idx by blast
qed

section \<open>Changing one entry\<close>

definition same_realms :: "rmm \<Rightarrow> rmm \<Rightarrow> bool" where
  "same_realms s s' \<longleftrightarrow> arm_dram s' = arm_dram s \<and>
    (\<forall>g. is_realm s' g = is_realm s g \<and> (is_realm s g \<longrightarrow> realm_ctx s' g = realm_ctx s g))"

lemma same_realmsD:
  assumes "same_realms s s'"
  shows "arm_dram s' = arm_dram s" "is_realm s' g = is_realm s g" "is_realm s g \<Longrightarrow> realm_ctx s' g = realm_ctx s g"
  using assms by (simp_all add: same_realms_def)

lemma next_table_cong:
  "arm_dram s' = arm_dram s \<Longrightarrow> words (mem s' t) ! i = words (mem s t) ! i \<Longrightarrow> next_table s' c t i = next_table s c t i"
  by (simp add: next_table_def Let_def)

text \<open>Entries that name the same next tables give the same trees.\<close>

lemma table_at_same:
  assumes "same_realms s s'"
    and "\<And>g n b t i. in_tree s g n b t \<Longrightarrow> n < depth (realm_ctx s g) \<Longrightarrow> i < 512 \<Longrightarrow>
      next_table s' (realm_ctx s g) t i = next_table s (realm_ctx s g) t i"
    and "is_realm s g" "n \<le> depth (realm_ctx s g)"
  shows "table_at s' (realm_ctx s g) n b = table_at s (realm_ctx s g) n b"
  using assms(4)
proof (induction n arbitrary: b)
  case (Suc n)
  then have e: "table_at s' (realm_ctx s g) n (b div 512) = table_at s (realm_ctx s g) n (b div 512)" by simp
  show ?case
  proof (cases "table_at s (realm_ctx s g) n (b div 512)")
    case (Some t)
    then have "in_tree s g n (b div 512) t" using assms(3) Suc.prems by (simp add: in_tree_def)
    then show ?thesis using assms(2) [of g n "b div 512" t "b mod 512"] Suc.prems e Some by simp
  qed (simp add: e)
qed simp

lemma in_tree_same:
  assumes "same_realms s s'"
    and "\<And>g n b t i. in_tree s g n b t \<Longrightarrow> n < depth (realm_ctx s g) \<Longrightarrow> i < 512 \<Longrightarrow>
      next_table s' (realm_ctx s g) t i = next_table s (realm_ctx s g) t i"
  shows "in_tree s' g n b t = in_tree s g n b t"
proof (cases "is_realm s g \<and> n \<le> depth (realm_ctx s g)")
  case True
  then have "table_at s' (realm_ctx s g) n b = table_at s (realm_ctx s g) n b"
    by (intro table_at_same [OF assms(1)]) (use assms(2) in auto)
  then show ?thesis using True same_realmsD [OF assms(1)] by (simp add: in_tree_def)
next
  case False
  then show ?thesis using same_realmsD [OF assms(1)] by (auto simp: in_tree_def)
qed

text \<open>
  One entry of the table \<open>t0\<close> changes, which may remove the table below it or add one; both are leaves of the tree.
\<close>

definition entry_change :: "rmm \<Rightarrow> rmm \<Rightarrow> nat \<Rightarrow> nat \<Rightarrow> nat \<Rightarrow> nat \<Rightarrow> nat \<Rightarrow> bool" where
  "entry_change s s' g0 n0 b0 t0 i0 \<longleftrightarrow> tree_ok s \<and> same_realms s s' \<and> in_tree s g0 n0 b0 t0 \<and> i0 < 512 \<and>
    (\<forall>g n b t i. in_tree s g n b t \<longrightarrow> (g, n, b) \<noteq> (g0, Suc n0, b0 * 512 + i0) \<longrightarrow> i < 512 \<longrightarrow> (t, i) \<noteq> (t0, i0) \<longrightarrow>
      words (mem s' t) ! i = words (mem s t) ! i) \<and>
    (\<forall>t i. next_table s (realm_ctx s g0) t0 i0 = Some t \<longrightarrow> Suc n0 < depth (realm_ctx s g0) \<longrightarrow> i < 512 \<longrightarrow>
      next_table s (realm_ctx s g0) t i = None) \<and>
    (\<forall>t i. next_table s' (realm_ctx s g0) t0 i0 = Some t \<longrightarrow> Suc n0 < depth (realm_ctx s g0) \<longrightarrow> i < 512 \<longrightarrow>
      next_table s' (realm_ctx s g0) t i = None)"

lemma entry_changeD:
  assumes "entry_change s s' g0 n0 b0 t0 i0"
  shows "tree_ok s" "same_realms s s'" "in_tree s g0 n0 b0 t0" "i0 < 512"
    "in_tree s g n b t \<Longrightarrow> (g, n, b) \<noteq> (g0, Suc n0, b0 * 512 + i0) \<Longrightarrow> i < 512 \<Longrightarrow> (t, i) \<noteq> (t0, i0) \<Longrightarrow>
      words (mem s' t) ! i = words (mem s t) ! i"
    "next_table s (realm_ctx s g0) t0 i0 = Some t \<Longrightarrow> Suc n0 < depth (realm_ctx s g0) \<Longrightarrow> i < 512 \<Longrightarrow>
      next_table s (realm_ctx s g0) t i = None"
    "next_table s' (realm_ctx s g0) t0 i0 = Some t \<Longrightarrow> Suc n0 < depth (realm_ctx s g0) \<Longrightarrow> i < 512 \<Longrightarrow>
      next_table s' (realm_ctx s g0) t i = None"
  using assms unfolding entry_change_def by blast+

lemma table_at_change:
  assumes change: "entry_change s s' g0 n0 b0 t0 i0" and "is_realm s g" "n \<le> depth (realm_ctx s g)"
  shows "table_at s' (realm_ctx s g) n b =
    (if (g, n, b) = (g0, Suc n0, b0 * 512 + i0) then next_table s' (realm_ctx s g0) t0 i0
     else table_at s (realm_ctx s g) n b)"
  using assms(3)
proof (induction n arbitrary: b)
  case 0
  then show ?case by simp
next
  case (Suc n)
  note tree = entry_changeD(1) [OF change] and realms = entry_changeD(2) [OF change] and t0 = entry_changeD(3,4) [OF change]
    and others = entry_changeD(5) [OF change] and leaf = entry_changeD(6) [OF change] and leaf' = entry_changeD(7) [OF change]
  let ?c = "realm_ctx s g" and ?p = "b0 * 512 + i0"
  have pos: "b div 512 = b0 \<and> b mod 512 = i0 \<longleftrightarrow> b = ?p" using t0(2) by auto
  have IH: "table_at s' ?c n (b div 512) = (if (g, n, b div 512) = (g0, Suc n0, ?p) then next_table s' (realm_ctx s g0) t0 i0
     else table_at s ?c n (b div 512))" using Suc by simp
  show ?case
  proof (cases "(g, n, b div 512) = (g0, Suc n0, ?p)")
    case True
    then have old: "table_at s ?c n (b div 512) = next_table s (realm_ctx s g0) t0 i0"
      using t0 in_treeD(3) [OF t0(1)] by auto
    have "b mod 512 < 512" by simp
    then show ?thesis using True IH old leaf leaf' Suc.prems by (auto split: option.splits)
  next
    case nP: False
    show ?thesis
    proof (cases "table_at s ?c n (b div 512)")
      case None
      then have "(g, Suc n, b) \<noteq> (g0, Suc n0, ?p)" using in_treeD(3) [OF t0(1)] pos by auto
      then show ?thesis using None IH nP by auto
    next
      case (Some t)
      then have t: "in_tree s g n (b div 512) t" using assms(2) Suc.prems by (simp add: in_tree_def)
      show ?thesis
      proof (cases "(t, b mod 512) = (t0, i0)")
        case True
        then have "g = g0 \<and> n = n0 \<and> b div 512 = b0" using tree_okD(4) [OF tree t, of g0 n0 b0] t0(1) by simp
        then show ?thesis using True IH nP Some pos by auto
      next
        case False
        then have w: "words (mem s' t) ! (b mod 512) = words (mem s t) ! (b mod 512)"
          using others [OF t nP] by simp
        have "(g, Suc n, b) \<noteq> (g0, Suc n0, ?p)"
          using False Some in_treeD(3) [OF t0(1)] pos by auto
        then show ?thesis
          using IH nP Some next_table_cong [OF same_realmsD(1) [OF realms] w] by auto
      qed
    qed
  qed
qed

lemma in_tree_change:
  assumes change: "entry_change s s' g0 n0 b0 t0 i0"
  shows "in_tree s' g n b t \<longleftrightarrow>
    (if (g, n, b) = (g0, Suc n0, b0 * 512 + i0)
     then n0 < depth (realm_ctx s g0) \<and> next_table s' (realm_ctx s g0) t0 i0 = Some t else in_tree s g n b t)"
proof (cases "is_realm s g \<and> n \<le> depth (realm_ctx s g)")
  case True
  then show ?thesis using table_at_change [OF change, of g n b] same_realmsD [OF entry_changeD(2) [OF change]]
      entry_changeD(3,4) [OF change] by (auto simp: in_tree_def)
next
  case False
  then show ?thesis
    using same_realmsD [OF entry_changeD(2) [OF change]] in_treeD(1) [OF entry_changeD(3) [OF change]]
    by (auto simp: in_tree_def)
qed

section \<open>Entries\<close>

definition ent :: "rmm \<Rightarrow> nat \<Rightarrow> nat \<Rightarrow> nat \<Rightarrow> u64 \<Rightarrow> bool" where
  "ent s g n p e \<longleftrightarrow> (\<exists>t. in_tree s g n (p div 512) t \<and> e = words (mem s t) ! (p mod 512))"

lemma entI: "in_tree s g n b t \<Longrightarrow> i < 512 \<Longrightarrow> ent s g n (b * 512 + i) (words (mem s t) ! i)"
  by (auto simp: ent_def)

lemma ent_fun: "ent s g n p e \<Longrightarrow> ent s g n p e' \<Longrightarrow> e = e'"
  by (auto simp: ent_def in_tree_def)

lemma ent_realm: "ent s g n p e \<Longrightarrow> is_realm s g \<and> n \<le> depth (realm_ctx s g)"
  by (auto simp: ent_def in_tree_def)

lemma ent_change:
  assumes change: "entry_change s s' g0 n0 b0 t0 i0"
  shows "ent s' g n p e \<longleftrightarrow>
    (if (g, n, p) = (g0, n0, b0 * 512 + i0) then e = words (mem s' t0) ! i0
     else if (g, n, p div 512) = (g0, Suc n0, b0 * 512 + i0)
     then n0 < depth (realm_ctx s g0) \<and>
       (\<exists>t. next_table s' (realm_ctx s g0) t0 i0 = Some t \<and> e = words (mem s' t) ! (p mod 512))
     else ent s g n p e)"
proof -
  note t0 = entry_changeD(3,4) [OF change]
  have pos: "p div 512 = b0 \<and> p mod 512 = i0 \<longleftrightarrow> p = b0 * 512 + i0" using t0(2) by auto
  have i: "p mod 512 < 512" by simp
  show ?thesis
  proof (cases "(g, n, p div 512) = (g0, Suc n0, b0 * 512 + i0)")
    case True
    then show ?thesis using in_tree_change [OF change, of g n "p div 512"] by (auto simp: ent_def)
  next
    case nP: False
    then have e: "ent s' g n p e \<longleftrightarrow> (\<exists>t. in_tree s g n (p div 512) t \<and> e = words (mem s' t) ! (p mod 512))"
      using in_tree_change [OF change, of g n "p div 512"] by (auto simp: ent_def)
    show ?thesis
    proof (cases "(g, n, p) = (g0, n0, b0 * 512 + i0)")
      case True
      then have "p div 512 = b0" "p mod 512 = i0" using pos by auto
      then show ?thesis using e nP True t0(1) by (auto simp: in_tree_def)
    next
      case False
      have "words (mem s' t) ! (p mod 512) = words (mem s t) ! (p mod 512)" if t: "in_tree s g n (p div 512) t" for t
      proof (rule entry_changeD(5) [OF change t nP i])
        show "(t, p mod 512) \<noteq> (t0, i0)"
          using tree_okD(4) [OF entry_changeD(1) [OF change] t, of g0 n0 b0] t0(1) False pos by auto
      qed
      then have "ent s' g n p e \<longleftrightarrow> ent s g n p e" unfolding e by (auto simp: ent_def)
      then show ?thesis using nP False by (simp only: if_False)
    qed
  qed
qed

text \<open>An entry above another one is a table entry.\<close>

lemma ent_above:
  assumes "ent s g (n + Suc m) p e" "ent s g n (p div 512 ^ Suc m) e'"
  shows "entry_is_table e' \<and> n < depth (realm_ctx s g)"
proof -
  have up: "\<exists>t. in_tree s g (n + 1) (q div 512 ^ k) t" if "in_tree s g (n + 1 + k) q t'" for k q t'
    using that
  proof (induction k arbitrary: q t')
    case (Suc k)
    then obtain t'' where "in_tree s g (n + 1 + k) (q div 512) t''"
      using in_tree_parent [of s g "n + 1 + k" q t'] by auto
    from Suc.IH [OF this] show ?case by (simp add: div_mult2_eq)
  qed auto
  obtain t where "in_tree s g (n + 1 + m) (p div 512) t" using assms(1) by (auto simp: ent_def)
  from up [OF this] obtain t1 where t1: "in_tree s g (Suc n) (p div 512 ^ Suc m) t1"
    by (auto simp: div_mult2_eq)
  then obtain t2 where t2: "in_tree s g n (p div 512 ^ Suc m div 512) t2"
    "next_table s (realm_ctx s g) t2 (p div 512 ^ Suc m mod 512) = Some t1"
    using in_tree_parent by blast
  have "e' = words (mem s t2) ! (p div 512 ^ Suc m mod 512)"
    using assms(2) t2(1) by (auto simp: ent_def in_tree_def)
  then show ?thesis
    using t2(2) in_treeD(2) [OF t1] by (auto simp: next_table_def Let_def split: if_splits)
qed

end
