(* ===== verification/Realm_Inv.thy ===== *)
theory Realm_Inv
  imports Realm_Tables
begin

text \<open>
  The invariant of the memory of realms. Every entry of the tables of a realm is of exactly one kind; entries for
  protected addresses never map non-secure memory; an assigned entry maps granules in the DATA state, and no
  granule is mapped twice; the reference count of a table is the number of its entries that name a table or data.
  One lemma reduces the preservation of the invariant by a command to what the command does to one entry.
\<close>

section \<open>The invariant\<close>

definition data_kinds :: "s2tte_kind set" where
  "data_kinds = {Assigned_Empty, Assigned_Ram, Assigned_Destroyed}"

definition ns_kinds :: "s2tte_kind set" where
  "ns_kinds = {Unassigned_Ns, Assigned_Ns}"

definition counted :: "u64 \<Rightarrow> int \<Rightarrow> bool" where
  "counted e l \<longleftrightarrow> (\<exists>k \<in> insert Table data_kinds. has_kind e l k)"

text \<open>The number of pages that an entry at a depth maps, and its output address.\<close>

definition pages :: "s2tt_context \<Rightarrow> nat \<Rightarrow> nat" where
  "pages c n = 512 ^ (depth c - n)"

definition out_addr :: "s2tt_context \<Rightarrow> nat \<Rightarrow> u64 \<Rightarrow> u64" where
  "out_addr c n e = to_pa_value e (level c n) (enable_lpa2 c)"

definition page_granule :: "rmm \<Rightarrow> s2tt_context \<Rightarrow> nat \<Rightarrow> u64 \<Rightarrow> nat \<Rightarrow> nat option" where
  "page_granule s c n e j = granule_at (arm_dram s) (out_addr c n e + of_nat j * GRANULE_SIZE)"

text \<open>Realm \<open>g\<close> has the granule \<open>d\<close> at the page number \<open>P\<close> of its address space.\<close>

definition maps_by :: "rmm \<Rightarrow> s2tt_context \<Rightarrow> nat \<Rightarrow> nat \<Rightarrow> u64 \<Rightarrow> nat \<Rightarrow> nat \<Rightarrow> bool" where
  "maps_by s c n p e P d \<longleftrightarrow> (\<exists>j k. kinds e (level c n) = {k} \<and> k \<in> data_kinds \<and> j < pages c n \<and>
     P = p * pages c n + j \<and> page_granule s c n e j = Some d)"

definition maps :: "rmm \<Rightarrow> nat \<Rightarrow> nat \<Rightarrow> nat \<Rightarrow> bool" where
  "maps s g P d \<longleftrightarrow> (\<exists>n p e. ent s g n p e \<and> maps_by s (realm_ctx s g) n p e P d)"

definition in_ipa :: "s2tt_context \<Rightarrow> nat \<Rightarrow> nat \<Rightarrow> bool" where
  "in_ipa c n p \<longleftrightarrow> p * 2 ^ lvl_lsb (level c n) < 2 ^ unat (ipa_bits c)"

definition in_par :: "s2tt_context \<Rightarrow> nat \<Rightarrow> nat \<Rightarrow> bool" where
  "in_par c n p \<longleftrightarrow> p * 2 ^ lvl_lsb (level c n) < 2 ^ (unat (ipa_bits c) - 1)"

definition entry_ok :: "rmm \<Rightarrow> s2tt_context \<Rightarrow> nat \<Rightarrow> nat \<Rightarrow> u64 \<Rightarrow> bool" where
  "entry_ok s c n p e \<longleftrightarrow> (\<exists>k. kinds e (level c n) = {k} \<and>
     (k \<in> data_kinds \<longrightarrow> addr_lvl_aligned (enable_lpa2 c) (out_addr c n e) (level c n) \<and>
        (\<forall>j < pages c n. page_granule s c n e j \<noteq> None)) \<and>
     (k \<in> insert Assigned_Ns data_kinds \<longrightarrow> 1 \<le> level c n) \<and>
     (k \<noteq> Table \<and> in_ipa c n p \<longrightarrow> (k \<in> ns_kinds \<longleftrightarrow> \<not> in_par c n p)))"

definition refs :: "rmm \<Rightarrow> int \<Rightarrow> nat \<Rightarrow> nat" where
  "refs s l t = card {i. i < 512 \<and> counted (words (mem s t) ! i) l}"

definition realm_inv :: "rmm \<Rightarrow> bool" where
  "realm_inv s \<longleftrightarrow> idle s \<and> tree_ok s \<and>
    (\<forall>g n p e. ent s g n p e \<longrightarrow> entry_ok s (realm_ctx s g) n p e) \<and>
    (\<forall>g n b t. in_tree s g n b t \<longrightarrow> unat (REFCOUNT (granules s t)) = refs s (level (realm_ctx s g) n) t) \<and>
    (\<forall>g P d. maps s g P d \<longrightarrow> STATE (granules s d) = GRANULE_STATE_DATA) \<and>
    (\<forall>g P g' P' d. maps s g P d \<longrightarrow> maps s g' P' d \<longrightarrow> g = g' \<and> P = P') \<and>
    (\<forall>a g. granule_at (arm_dram s) a = Some g \<longrightarrow> unat a < 2 ^ 52)"

lemma realm_invD:
  assumes "realm_inv s"
  shows "idle s" "tree_ok s" "ent s g n p e \<Longrightarrow> entry_ok s (realm_ctx s g) n p e"
    "in_tree s g n b t \<Longrightarrow> unat (REFCOUNT (granules s t)) = refs s (level (realm_ctx s g) n) t"
    "maps s g P d \<Longrightarrow> STATE (granules s d) = GRANULE_STATE_DATA"
    "maps s g P d \<Longrightarrow> maps s g' P' d \<Longrightarrow> g = g' \<and> P = P'"
    "granule_at (arm_dram s) a = Some h \<Longrightarrow> unat a < 2 ^ 52"
  using assms unfolding realm_inv_def by blast+

lemma entry_ok_same: "arm_dram s' = arm_dram s \<Longrightarrow> entry_ok s' c n p e = entry_ok s c n p e"
  by (simp add: entry_ok_def page_granule_def)

lemma kinds_has: "kinds e l = {k} \<Longrightarrow> has_kind e l k' \<longleftrightarrow> k' = k"
  by (auto simp: kinds_def)

lemma kinds_counted: "kinds e l = {k} \<Longrightarrow> counted e l \<longleftrightarrow> k \<in> insert Table data_kinds"
  by (auto simp: counted_def kinds_has)

lemma kinds_is_table: "kinds e l = {k} \<Longrightarrow> s2tte_is_table e l \<longleftrightarrow> k = Table"
  using kinds_has [of e l k Table] by (auto simp: has_kind_def)

lemma entry_is_table_iff: "l < 3 \<Longrightarrow> entry_is_table e \<longleftrightarrow> s2tte_is_table e l"
  by (simp add: entry_is_table_def s2tte_is_table_def)

section \<open>Reference counts\<close>

lemma refs_le: "refs s l t \<le> 512"
proof -
  have "card {i. i < 512 \<and> counted (words (mem s t) ! i) l} \<le> card {..< 512 :: nat}" by (rule card_mono) auto
  then show ?thesis by (simp add: refs_def)
qed

lemma refs_same: "(\<And>i. i < 512 \<Longrightarrow> words (mem s' t) ! i = words (mem s t) ! i) \<Longrightarrow> refs s' l t = refs s l t"
  unfolding refs_def by (rule arg_cong [of _ _ card]) auto

lemma refs_0: "refs s l t = 0 \<longleftrightarrow> (\<forall>i < 512. \<not> counted (words (mem s t) ! i) l)"
  by (auto simp: refs_def)

lemma refs_512: "refs s l t = 512 \<longleftrightarrow> (\<forall>i < 512. counted (words (mem s t) ! i) l)"
proof
  assume c: "refs s l t = 512"
  have "{i. i < 512 \<and> counted (words (mem s t) ! i) l} = {..< 512 :: nat}"
    by (rule card_subset_eq) (use c in \<open>auto simp: refs_def\<close>)
  then show "\<forall>i < 512. counted (words (mem s t) ! i) l" by blast
next
  assume "\<forall>i < 512. counted (words (mem s t) ! i) l"
  then have "{i. i < 512 \<and> counted (words (mem s t) ! i) l} = {..< 512 :: nat}" by auto
  then show "refs s l t = 512" by (simp add: refs_def)
qed

text \<open>One entry changes.\<close>

lemma refs_change:
  assumes "i0 < 512" "\<And>i. i < 512 \<Longrightarrow> i \<noteq> i0 \<Longrightarrow> words (mem s' t) ! i = words (mem s t) ! i"
  shows "refs s' l t + of_bool (counted (words (mem s t) ! i0) l) =
    refs s l t + of_bool (counted (words (mem s' t) ! i0) l)"
proof -
  let ?A = "\<lambda>s. {i. i < 512 \<and> counted (words (mem s t) ! i) l}" and ?R = "{i. i < 512 \<and> i \<noteq> i0 \<and> counted (words (mem s t) ! i) l}"
  have "card (?A r) = card ?R + of_bool (counted (words (mem r t) ! i0) l)" if r: "r = s \<or> r = s'" for r
  proof (cases "counted (words (mem r t) ! i0) l")
    case True
    then have "?A r = insert i0 ?R" using r assms by auto
    then show ?thesis using True by simp
  next
    case False
    then have "?A r = ?R" using r assms by auto (metis+)
    then show ?thesis using False by simp
  qed
  from this [of s] this [of s'] show ?thesis by (simp add: refs_def)
qed

section \<open>Preservation\<close>

lemma realm_inv_change:
  assumes inv: "realm_inv s" and change: "entry_change s s' g0 n0 b0 t0 i0" and "idle s'"
    and rtt: "\<And>g n b t. in_tree s g n b t \<Longrightarrow> (g, n, b) \<noteq> (g0, Suc n0, b0 * 512 + i0) \<Longrightarrow> is_rtt s' t"
    and child: "n0 < depth (realm_ctx s g0) \<Longrightarrow> entry_is_table (words (mem s' t0) ! i0) \<Longrightarrow>
      (\<exists>t. next_table s' (realm_ctx s g0) t0 i0 = Some t \<and> is_rtt s' t \<and>
        (\<forall>g n b. in_tree s g n b t \<longrightarrow> (g, n, b) = (g0, Suc n0, b0 * 512 + i0)) \<and>
        (\<forall>i < 512. entry_ok s' (realm_ctx s g0) (Suc n0) ((b0 * 512 + i0) * 512 + i) (words (mem s' t) ! i) \<and>
           \<not> s2tte_is_table (words (mem s' t) ! i) (level (realm_ctx s g0) (Suc n0))) \<and>
        unat (REFCOUNT (granules s' t)) = refs s' (level (realm_ctx s g0) (Suc n0)) t)"
    and new: "entry_ok s' (realm_ctx s g0) n0 (b0 * 512 + i0) (words (mem s' t0) ! i0)"
    and counts: "\<And>g n b t. in_tree s g n b t \<Longrightarrow> (g, n, b) \<noteq> (g0, Suc n0, b0 * 512 + i0) \<Longrightarrow> t \<noteq> t0 \<Longrightarrow>
      REFCOUNT (granules s' t) = REFCOUNT (granules s t)"
    and count0: "unat (REFCOUNT (granules s' t0)) + of_bool (counted (words (mem s t0) ! i0) (level (realm_ctx s g0) n0)) =
      unat (REFCOUNT (granules s t0)) + of_bool (counted (words (mem s' t0) ! i0) (level (realm_ctx s g0) n0))"
    and data: "\<And>g P d. maps s' g P d \<Longrightarrow> STATE (granules s' d) = GRANULE_STATE_DATA"
    and unique: "\<And>g P g' P' d. maps s' g P d \<Longrightarrow> maps s' g' P' d \<Longrightarrow> g = g' \<and> P = P'"
  shows "realm_inv s'"
proof -
  let ?c = "realm_ctx s g0" and ?p = "b0 * 512 + i0"
  note tree = entry_changeD(1) [OF change] and realms = same_realmsD [OF entry_changeD(2) [OF change]]
    and t0 = entry_changeD(3,4) [OF change] and it = in_tree_change [OF change]
  have ctx: "realm_ctx s' g = realm_ctx s g" if "in_tree s' g n b t" for g n b t
    using realms(2,3) in_treeD(1) [OF that] by simp
  have new_t: "is_rtt s' t \<and> (\<forall>g n b. in_tree s g n b t \<longrightarrow> (g, n, b) = (g0, Suc n0, ?p)) \<and>
      (\<forall>i < 512. entry_ok s' ?c (Suc n0) (?p * 512 + i) (words (mem s' t) ! i) \<and>
           \<not> s2tte_is_table (words (mem s' t) ! i) (level ?c (Suc n0))) \<and>
      unat (REFCOUNT (granules s' t)) = refs s' (level ?c (Suc n0)) t"
    if "n0 < depth ?c" "next_table s' ?c t0 i0 = Some t" for t
  proof -
    have "entry_is_table (words (mem s' t0) ! i0)" using that(2) by (simp add: next_table_def Let_def split: if_splits)
    from child [OF that(1) this] that(2) show ?thesis by auto
  qed
  have words: "words (mem s' t) ! i = words (mem s t) ! i"
    if "in_tree s g n b t" "(g, n, b) \<noteq> (g0, Suc n0, ?p)" "i < 512" "(t, i) \<noteq> (t0, i0)" for g n b t i
    using entry_changeD(5) [OF change that] .
  have "tree_ok s'"
    unfolding tree_ok_def
  proof (intro conjI allI impI)
    fix g assume "is_realm s' g"
    then show "wf_ctx (realm_ctx s' g)" using realms(2,3) tree_okD(1) [OF tree, of g] by simp
  next
    fix g n b t assume t: "in_tree s' g n b t"
    show "is_rtt s' t"
    proof (cases "(g, n, b) = (g0, Suc n0, ?p)")
      case True
      then have nt: "n0 < depth ?c" "next_table s' ?c t0 i0 = Some t" using t it by auto
      show ?thesis using new_t [OF nt] by blast
    next
      case False
      then show ?thesis using t it rtt by metis
    qed
  next
    fix g n b t i
    assume t: "in_tree s' g n b t" and n: "n < depth (realm_ctx s' g)" and i: "i < 512"
      and e: "entry_is_table (words (mem s' t) ! i)"
    show "next_table s' (realm_ctx s' g) t i \<noteq> None"
    proof (cases "(g, n, b) = (g0, Suc n0, ?p)")
      case True
      then have nt: "n0 < depth ?c" "next_table s' ?c t0 i0 = Some t" using t it by auto
      have "\<not> s2tte_is_table (words (mem s' t) ! i) (level ?c (Suc n0))" using new_t [OF nt] i by blast
      moreover have "level ?c (Suc n0) < 3" using n True ctx [OF t] by (simp add: level_def depth_def)
      ultimately show ?thesis using e entry_is_table_iff by blast
    next
      case False
      then have ts: "in_tree s g n b t" using t it by auto
      show ?thesis
      proof (cases "(t, i) = (t0, i0)")
        case True
        then have "g = g0 \<and> n = n0 \<and> b = b0" using tree_okD(4) [OF tree ts, of g0 n0 b0] t0(1) by simp
        then show ?thesis using child e n ctx [OF t] True by fastforce
      next
        case False2: False
        have w: "words (mem s' t) ! i = words (mem s t) ! i" using words [OF ts False i False2] .
        then show ?thesis
          using tree_okD(3) [OF tree ts _ i] n e ctx [OF t] next_table_cong [OF realms(1) w] by auto
      qed
    qed
  next
    fix g n b g' n' b' t
    assume t: "in_tree s' g n b t" and t': "in_tree s' g' n' b' t"
    have "(g, n, b) = (g', n', b')"
    proof (cases "(g, n, b) = (g0, Suc n0, ?p) \<or> (g', n', b') = (g0, Suc n0, ?p)")
      case True
      then have nt: "n0 < depth ?c" "next_table s' ?c t0 i0 = Some t" using t t' it by auto
      show ?thesis using new_t [OF nt] True t t' it by metis
    next
      case False
      then show ?thesis using t t' it tree_okD(4) [OF tree, of g n b t g' n' b'] by auto
    qed
    then show "g = g'" "n = n'" "b = b'" by simp_all
  qed
  moreover have "entry_ok s' (realm_ctx s' g) n p e" if e: "ent s' g n p e" for g n p e
  proof -
    have c: "realm_ctx s' g = realm_ctx s g" using e ctx by (auto simp: ent_def)
    consider "(g, n, p) = (g0, n0, ?p)" | "(g, n, p) \<noteq> (g0, n0, ?p)" "(g, n, p div 512) = (g0, Suc n0, ?p)"
      | "(g, n, p) \<noteq> (g0, n0, ?p)" "(g, n, p div 512) \<noteq> (g0, Suc n0, ?p)" by blast
    then show ?thesis
    proof cases
      case 1
      then show ?thesis using e ent_change [OF change, of g n p e] new c by simp
    next
      case 2
      then obtain t where t: "n0 < depth ?c" "next_table s' ?c t0 i0 = Some t" "e = words (mem s' t) ! (p mod 512)"
        using e ent_change [OF change, of g n p e] by auto
      have "p = ?p * 512 + p mod 512" using 2(2) div_mult_mod_eq [of p 512] by simp
      then show ?thesis using new_t [OF t(1,2)] t(3) 2(2) c by (metis mod_less_divisor prod.inject zero_less_numeral)
    next
      case 3
      then have "ent s g n p e" using e ent_change [OF change, of g n p e] by (simp only: if_False)
      then show ?thesis using realm_invD(3) [OF inv] c entry_ok_same [OF realms(1)] by metis
    qed
  qed
  moreover have "unat (REFCOUNT (granules s' t)) = refs s' (level (realm_ctx s' g) n) t" if t: "in_tree s' g n b t" for g n b t
  proof (cases "(g, n, b) = (g0, Suc n0, ?p)")
    case True
    then have nt: "n0 < depth ?c" "next_table s' ?c t0 i0 = Some t" using t it by auto
    then show ?thesis using new_t [OF nt] ctx [OF t] True by simp
  next
    case False
    then have ts: "in_tree s g n b t" using t it by auto
    note r = realm_invD(4) [OF inv ts]
    show ?thesis
    proof (cases "t = t0")
      case True
      then have p: "g = g0 \<and> n = n0 \<and> b = b0" using tree_okD(4) [OF tree ts, of g0 n0 b0] t0(1) by simp
      have "refs s' (level ?c n0) t0 + of_bool (counted (words (mem s t0) ! i0) (level ?c n0)) =
        refs s (level ?c n0) t0 + of_bool (counted (words (mem s' t0) ! i0) (level ?c n0))"
        by (rule refs_change [OF t0(2)]) (use words [OF ts False] True in auto)
      then show ?thesis using count0 r ctx [OF t] p True by simp
    next
      case ne: False
      then have "refs s' (level (realm_ctx s g) n) t = refs s (level (realm_ctx s g) n) t"
        by (intro refs_same) (use words [OF ts False] in auto)
      then show ?thesis using counts [OF ts False ne] r ctx [OF t] by simp
    qed
  qed
  ultimately show ?thesis using assms(3) data unique realm_invD(7) [OF inv] realms(1) unfolding realm_inv_def by metis
qed


text \<open>A change outside the tables and the data of realms.\<close>

lemma realm_inv_frame:
  assumes inv: "realm_inv s" and "idle s'" and realms: "same_realms s s'"
    and rtt: "\<And>t. is_rtt s t \<Longrightarrow> is_rtt s' t \<and> words (mem s' t) = words (mem s t) \<and>
      REFCOUNT (granules s' t) = REFCOUNT (granules s t)"
    and data: "\<And>d. STATE (granules s d) = GRANULE_STATE_DATA \<Longrightarrow> STATE (granules s' d) = GRANULE_STATE_DATA"
  shows "realm_inv s'" "in_tree s' g n b t = in_tree s g n b t" "maps s' g P d = maps s g P d"
proof -
  note tree = realm_invD(2) [OF inv] and r = same_realmsD [OF realms]
  have w: "words (mem s' t) = words (mem s t)" if "in_tree s g n b t" for g n b t
    using rtt tree_okD(2) [OF tree that] by blast
  have it: "in_tree s' g n b t = in_tree s g n b t" for g n b t
    by (rule in_tree_same [OF realms]) (simp add: next_table_def Let_def r(1) w)
  have c: "realm_ctx s' g = realm_ctx s g" if "in_tree s g n b t" for g n b t using r(3) in_treeD(1) [OF that] by simp
  have e: "ent s' g n p e = ent s g n p e" for g n p e using it w by (auto simp: ent_def)
  have ce: "realm_ctx s' g = realm_ctx s g" if "ent s g n p e" for g n p e using c that by (auto simp: ent_def)
  have m: "maps s' g P d = maps s g P d" for g P d
    using e ce by (auto simp: maps_def maps_by_def page_granule_def r(1)) metis+
  have "tree_ok s'"
    unfolding tree_ok_def
  proof (intro conjI allI impI)
    fix g assume "is_realm s' g"
    then show "wf_ctx (realm_ctx s' g)" using r(2,3) tree_okD(1) [OF tree, of g] by simp
  next
    fix g n b t assume "in_tree s' g n b t"
    then show "is_rtt s' t" using it rtt tree_okD(2) [OF tree] by blast
  next
    fix g n b t i
    assume t: "in_tree s' g n b t" and "n < depth (realm_ctx s' g)" "i < 512" "entry_is_table (words (mem s' t) ! i)"
    then show "next_table s' (realm_ctx s' g) t i \<noteq> None"
      using tree_okD(3) [OF tree, of g n b t i] it c w by (fastforce simp: next_table_def Let_def r(1))
  next
    fix g n b g' n' b' t
    assume "in_tree s' g n b t" "in_tree s' g' n' b' t"
    then show "g = g'" "n = n'" "b = b'" using it tree_okD(4) [OF tree, of g n b t g' n' b'] by auto
  qed
  moreover have "entry_ok s' (realm_ctx s' g) n p e'" if "ent s' g n p e'" for g n p e'
    using that e ce realm_invD(3) [OF inv] entry_ok_same [OF r(1)] by metis
  moreover have "unat (REFCOUNT (granules s' t)) = refs s' (level (realm_ctx s' g) n) t" if "in_tree s' g n b t" for g n b t
    using that it c w rtt tree_okD(2) [OF tree, of g n b t] realm_invD(4) [OF inv, of g n b t]
    by (simp add: refs_def)
  ultimately show "realm_inv s'"
    using assms(2) m data realm_invD(5-7) [OF inv] r(1) unfolding realm_inv_def by metis
  show "in_tree s' g n b t = in_tree s g n b t" "maps s' g P d = maps s g P d" using it m by blast+
qed

section \<open>The pages that an entry maps\<close>

lemma pages_Suc: "n < depth c \<Longrightarrow> pages c n = 512 * pages c (Suc n)"
  by (simp add: pages_def power_Suc [symmetric] Suc_diff_Suc del: power_Suc)

lemma pages_pos [simp]: "0 < pages c n"
  by (simp add: pages_def)

lemma pages_split: "n \<le> m \<Longrightarrow> m \<le> depth c \<Longrightarrow> pages c n = pages c m * 512 ^ (m - n)"
  by (simp add: pages_def power_add [symmetric])

lemma maps_by_page: "maps_by s c n p e P d \<Longrightarrow> p = P div pages c n"
  by (auto simp: maps_by_def)

lemma maps_by_kind:
  "maps_by s c n p e P d \<Longrightarrow> n < depth c \<Longrightarrow> \<not> entry_is_table e"
proof -
  assume m: "maps_by s c n p e P d" and n: "n < depth c"
  obtain k where k: "kinds e (level c n) = {k}" "k \<in> data_kinds" using m by (auto simp: maps_by_def)
  have "level c n < 3" using n by (simp add: level_def depth_def)
  then show ?thesis using kinds_is_table [OF k(1)] k(2) entry_is_table_iff by (auto simp: data_kinds_def)
qed

lemma maps_position:
  assumes "ent s g n p e" "maps_by s (realm_ctx s g) n p e P d"
    and "ent s g n' p' e'" "maps_by s (realm_ctx s g) n' p' e' P d'"
  shows "n = n' \<and> p = p' \<and> e = e' \<and> d = d'"
proof -
  let ?c = "realm_ctx s g"
  have False if a: "ent s g n p e" "maps_by s ?c n p e P d" "ent s g n' p' e'" "maps_by s ?c n' p' e' P d'" "n < n'"
    for n p e d n' p' e' d'
  proof -
    obtain m where m: "n' = n + Suc m" using a(5) less_iff_Suc_add by auto
    have "p = p' div 512 ^ Suc m"
      using maps_by_page [OF a(2)] maps_by_page [OF a(4)] pages_split [of n n' ?c] ent_realm [OF a(3)] m
      by (simp add: div_mult2_eq)
    then have "entry_is_table e \<and> n < depth ?c" using ent_above [of s g n m p' e' e] a m by simp
    then show False using maps_by_kind [OF a(2)] by simp
  qed
  from this [OF assms] this [OF assms(3,4,1,2)] have n: "n = n'" by (cases n n' rule: linorder_cases) auto
  then have p: "p = p'" using maps_by_page [OF assms(2)] maps_by_page [OF assms(4)] by simp
  have e: "e = e'" using ent_fun assms(1,3) n p by blast
  then show ?thesis using n p assms(2,4) by (auto simp: maps_by_def)
qed

text \<open>The entries of a table and the block entry that it replaces, or that replaces it, map the same pages.\<close>

definition parts_of :: "s2tt_context \<Rightarrow> nat \<Rightarrow> u64 \<Rightarrow> (nat \<Rightarrow> u64) \<Rightarrow> bool" where
  "parts_of c n e f \<longleftrightarrow> (\<exists>k \<in> data_kinds. kinds e (level c n) = {k}) \<and> (\<forall>i < 512.
     (\<exists>k \<in> data_kinds. kinds (f i) (level c (Suc n)) = {k}) \<and>
     out_addr c (Suc n) (f i) = out_addr c n e + of_nat i * s2tte_map_size (level c (Suc n)))"

lemma map_size_pages: "n \<le> depth c \<Longrightarrow> s2_starting_level c \<le> 3 \<Longrightarrow> s2tte_map_size (level c n) = of_nat (pages c n) * GRANULE_SIZE"
proof -
  assume n: "n \<le> depth c" "s2_starting_level c \<le> 3"
  have "lvl_lsb (level c n) = 9 * (depth c - n) + 12" using n by (simp add: lvl_lsb_def level_def depth_def)
  then show ?thesis
    by (simp add: s2tte_map_size_def pages_def GRANULE_SIZE_def push_bit_eq_mult power_add power_mult)
qed

lemma parts_page:
  assumes "parts_of c n e f" "n < depth c" "s2_starting_level c \<le> 3" "i < 512"
  shows "page_granule s c (Suc n) (f i) j = page_granule s c n e (i * pages c (Suc n) + j)"
  using assms map_size_pages [of "Suc n" c]
  by (simp add: parts_of_def page_granule_def algebra_simps)

lemma maps_by_parts:
  assumes "parts_of c n e f" "n < depth c" "s2_starting_level c \<le> 3"
  shows "maps_by s c n p e P d \<longleftrightarrow> (\<exists>i < 512. maps_by s c (Suc n) (p * 512 + i) (f i) P d)"
proof
  note ps = pages_Suc [OF assms(2)] and pp = parts_page [OF assms]
  assume "maps_by s c n p e P d"
  then obtain j where j: "j < pages c n" "P = p * pages c n + j" "page_granule s c n e j = Some d"
    by (auto simp: maps_by_def)
  let ?m = "pages c (Suc n)"
  have i: "j div ?m < 512" using j(1) ps by (simp add: less_mult_imp_div_less)
  have "page_granule s c (Suc n) (f (j div ?m)) (j mod ?m) = Some d" unfolding pp [OF i] div_mult_mod_eq using j(3) .
  moreover have "P = (p * 512 + j div ?m) * ?m + j mod ?m"
    using j(2) ps div_mult_mod_eq [of j ?m] by (simp add: algebra_simps)
  moreover obtain k where "kinds (f (j div ?m)) (level c (Suc n)) = {k}" "k \<in> data_kinds"
    using assms(1) i by (auto simp: parts_of_def)
  ultimately have "maps_by s c (Suc n) (p * 512 + j div ?m) (f (j div ?m)) P d"
    unfolding maps_by_def by (intro exI [of _ "j mod ?m"] exI [of _ k]) simp
  with i show "\<exists>i < 512. maps_by s c (Suc n) (p * 512 + i) (f i) P d" by blast
next
  note ps = pages_Suc [OF assms(2)] and pp = parts_page [OF assms]
  let ?m = "pages c (Suc n)"
  assume "\<exists>i < 512. maps_by s c (Suc n) (p * 512 + i) (f i) P d"
  then obtain i j where i: "i < 512" and j: "j < ?m" "P = (p * 512 + i) * ?m + j" "page_granule s c (Suc n) (f i) j = Some d"
    by (auto simp: maps_by_def)
  have "i * ?m + j < (i + 1) * ?m" using j(1) by simp
  also have "\<dots> \<le> 512 * ?m" using i by (intro mult_le_mono1) simp
  finally have "i * ?m + j < pages c n" using ps by simp
  moreover have "P = p * pages c n + (i * ?m + j)" using j(2) ps by (simp add: algebra_simps)
  moreover have "page_granule s c n e (i * ?m + j) = Some d" using pp [OF i] j(3) by simp
  ultimately show "maps_by s c n p e P d" using assms(1) by (auto simp: maps_by_def parts_of_def)
qed

section \<open>Where mappings come from\<close>

text \<open>Where the mappings after a change come from.\<close>

lemma maps_by_dram: "arm_dram s' = arm_dram s \<Longrightarrow> maps_by s' c n p e P d = maps_by s c n p e P d"
  by (simp add: maps_by_def page_granule_def)

lemma maps_change:
  assumes change: "entry_change s s' g0 n0 b0 t0 i0" and m: "maps s' g P d"
  shows "(\<exists>n p e. (g, n, p) \<noteq> (g0, n0, b0 * 512 + i0) \<and> ent s g n p e \<and> maps_by s (realm_ctx s g) n p e P d) \<or>
    (g = g0 \<and> maps_by s (realm_ctx s g0) n0 (b0 * 512 + i0) (words (mem s' t0) ! i0) P d) \<or>
    (g = g0 \<and> n0 < depth (realm_ctx s g0) \<and> (\<exists>t. next_table s' (realm_ctx s g0) t0 i0 = Some t \<and>
      (\<exists>i < 512. maps_by s (realm_ctx s g0) (Suc n0) ((b0 * 512 + i0) * 512 + i) (words (mem s' t) ! i) P d)))"
proof -
  let ?p = "b0 * 512 + i0" and ?c = "realm_ctx s g0"
  note t0 = entry_changeD(3,4) [OF change] and r = same_realmsD [OF entry_changeD(2) [OF change]]
  obtain n p e where e: "ent s' g n p e" "maps_by s' (realm_ctx s' g) n p e P d" using m by (auto simp: maps_def)
  have c: "realm_ctx s' g = realm_ctx s g" using r(2,3) ent_realm [OF e(1)] by simp
  have mb: "maps_by s (realm_ctx s g) n p e P d" using e(2) maps_by_dram [OF r(1)] c by metis
  consider "(g, n, p) = (g0, n0, ?p)" | "(g, n, p div 512) = (g0, Suc n0, ?p)"
    | "(g, n, p) \<noteq> (g0, n0, ?p)" "(g, n, p div 512) \<noteq> (g0, Suc n0, ?p)" by blast
  then show ?thesis
  proof cases
    case 1
    then have "e = words (mem s' t0) ! i0" using e(1) ent_change [OF change, of g n p e] by simp
    then show ?thesis using 1 mb by simp
  next
    case 2
    then obtain t where t: "n0 < depth ?c" "next_table s' ?c t0 i0 = Some t" "e = words (mem s' t) ! (p mod 512)"
      using e(1) ent_change [OF change, of g n p e] by auto
    have "p = ?p * 512 + p mod 512" using 2 div_mult_mod_eq [of p 512] by simp
    then have "maps_by s ?c (Suc n0) (?p * 512 + p mod 512) (words (mem s' t) ! (p mod 512)) P d"
      using mb 2 t(3) by simp
    then show ?thesis using t(1,2) 2 by fastforce
  next
    case 3
    then have es: "ent s g n p e" using e(1) ent_change [OF change, of g n p e] by (simp only: if_False)
    then show ?thesis using mb 3(1) by blast
  qed
qed

text \<open>When no new page is mapped, data and uniqueness carry over.\<close>

lemma realm_inv_maps:
  assumes "realm_inv s" "\<And>g P d. maps s' g P d \<Longrightarrow> maps s g P d"
    and "\<And>d. STATE (granules s d) = GRANULE_STATE_DATA \<Longrightarrow> STATE (granules s' d) = GRANULE_STATE_DATA"
  shows "maps s' g P d \<Longrightarrow> STATE (granules s' d) = GRANULE_STATE_DATA"
    "maps s' g P d \<Longrightarrow> maps s' g' P' d \<Longrightarrow> g = g' \<and> P = P'"
  using realm_invD(5,6) [OF assms(1)] assms(2,3) by blast+

section \<open>Writing an entry\<close>

text \<open>An entry that is not a table is replaced by another one that is not a table.\<close>

definition entry_written :: "rmm \<Rightarrow> rmm \<Rightarrow> nat \<Rightarrow> nat \<Rightarrow> nat \<Rightarrow> nat \<Rightarrow> u64 \<Rightarrow> u64 \<Rightarrow> bool" where
  "entry_written s s' g n p t e e' \<longleftrightarrow> realm_inv s \<and> idle s' \<and> same_realms s s' \<and> in_tree s g n (p div 512) t \<and>
    e = words (mem s t) ! (p mod 512) \<and> (n < depth (realm_ctx s g) \<longrightarrow> \<not> entry_is_table e \<and> \<not> entry_is_table e') \<and>
    (\<forall>h. is_rtt s h \<longrightarrow> is_rtt s' h \<and>
       words (mem s' h) = (if h = t then (words (mem s t))[p mod 512 := e'] else words (mem s h)) \<and>
       (h \<noteq> t \<longrightarrow> REFCOUNT (granules s' h) = REFCOUNT (granules s h)))"

lemma entry_writtenD:
  assumes "entry_written s s' g n p t e e'"
  shows "realm_inv s" "idle s'" "same_realms s s'" "in_tree s g n (p div 512) t" "e = words (mem s t) ! (p mod 512)"
    "n < depth (realm_ctx s g) \<Longrightarrow> \<not> entry_is_table e" "n < depth (realm_ctx s g) \<Longrightarrow> \<not> entry_is_table e'"
    "is_rtt s h \<Longrightarrow> is_rtt s' h"
    "is_rtt s h \<Longrightarrow> words (mem s' h) = (if h = t then (words (mem s t))[p mod 512 := e'] else words (mem s h))"
    "is_rtt s h \<Longrightarrow> h \<noteq> t \<Longrightarrow> REFCOUNT (granules s' h) = REFCOUNT (granules s h)"
  using assms unfolding entry_written_def by blast+

lemma entry_written_change:
  assumes ew: "entry_written s s' g n p t e e'"
  shows "entry_change s s' g n (p div 512) t (p mod 512)" "words (mem s' t) ! (p mod 512) = e'"
    "ent s' h m q x \<longleftrightarrow> (if (h, m, q) = (g, n, p) then x = e' else ent s h m q x)" "ent s g n p e"
proof -
  note d = entry_writtenD [OF ew] and rtt = tree_okD(2) [OF realm_invD(2) [OF entry_writtenD(1) [OF ew]]]
  have len: "length (words (mem s t)) = 512" using idleD(6) [OF realm_invD(1) [OF d(1)]] .
  show w: "words (mem s' t) ! (p mod 512) = e'" using d(9) [OF rtt [OF d(4)]] len by simp
  have n1: "n < depth (realm_ctx s g) \<Longrightarrow> next_table s (realm_ctx s g) t (p mod 512) = None"
    "n < depth (realm_ctx s g) \<Longrightarrow> next_table s' (realm_ctx s g) t (p mod 512) = None"
    using d(5-7) w by (simp_all add: next_table_def)
  have old: "words (mem s' t') ! i = words (mem s t') ! i" if "in_tree s h m b t'" "(t', i) \<noteq> (t, p mod 512)" for h m b t' i
    using d(9) [OF rtt [OF that(1)]] that(2) by (auto simp: nth_list_update)
  show change: "entry_change s s' g n (p div 512) t (p mod 512)"
    unfolding entry_change_def
  proof (intro conjI allI impI)
    show "tree_ok s" "same_realms s s'" "in_tree s g n (p div 512) t" "p mod 512 < 512" using realm_invD(2) [OF d(1)] d(3,4) by simp_all
  next
    fix h m b t' i assume "in_tree s h m b t'" "(t', i) \<noteq> (t, p mod 512)"
    then show "words (mem s' t') ! i = words (mem s t') ! i" by (rule old)
  next
    fix t' i assume "next_table s (realm_ctx s g) t (p mod 512) = Some t'" "Suc n < depth (realm_ctx s g)"
    then show "next_table s (realm_ctx s g) t' i = None" using n1 by simp
  next
    fix t' i assume "next_table s' (realm_ctx s g) t (p mod 512) = Some t'" "Suc n < depth (realm_ctx s g)"
    then show "next_table s' (realm_ctx s g) t' i = None" using n1 by simp
  qed
  show ep: "ent s g n p e" using entI [OF d(4), of "p mod 512"] d(5) by simp
  show "ent s' h m q x \<longleftrightarrow> (if (h, m, q) = (g, n, p) then x = e' else ent s h m q x)"
  proof (cases "(h, m, q div 512) = (g, Suc n, p)")
    case True
    have "\<not> ent s h m q x"
    proof
      assume "ent s h m q x"
      then obtain t' where "in_tree s g (Suc n) p t'" using True by (auto simp: ent_def)
      then show False using in_tree_parent [of s g n p t'] in_treeD(2) [of s g "Suc n" p t'] n1(1) d(4)
        by (auto simp: in_tree_def)
    qed
    moreover have "\<not> ent s' h m q x" using ent_change [OF change, of h m q x] True n1(2) by auto
    ultimately show ?thesis using True by auto
  next
    case False
    then show ?thesis using ent_change [OF change, of h m q x] w by auto
  qed
qed

lemma entry_written_maps:
  assumes ew: "entry_written s s' g n p t e e'"
  shows "maps s' h P d \<longleftrightarrow> maps s h P d \<and> \<not> (h = g \<and> maps_by s (realm_ctx s g) n p e P d) \<or>
    h = g \<and> maps_by s (realm_ctx s g) n p e' P d"
proof -
  note d = entry_writtenD [OF ew] and c = entry_written_change [OF ew]
  note r = same_realmsD [OF d(3)]
  have ctx: "realm_ctx s' h = realm_ctx s h" if "ent s h m q x \<or> h = g" for h m q x
    using that r(3) ent_realm in_treeD(1) [OF d(4)] by blast
  have mb: "maps_by s' k m q x P d = maps_by s k m q x P d" for k m q x P d by (rule maps_by_dram [OF r(1)])
  show ?thesis
  proof
    assume "maps s' h P d"
    then obtain m q x where x: "ent s' h m q x" "maps_by s (realm_ctx s' h) m q x P d" using mb by (auto simp: maps_def)
    show "maps s h P d \<and> \<not> (h = g \<and> maps_by s (realm_ctx s g) n p e P d) \<or> h = g \<and> maps_by s (realm_ctx s g) n p e' P d"
    proof (cases "(h, m, q) = (g, n, p)")
      case True
      then show ?thesis using x c(3) ctx by auto
    next
      case False
      then have xs: "ent s h m q x" using x(1) c(3) by auto
      then have m: "maps_by s (realm_ctx s h) m q x P d" using x(2) ctx by metis
      have "\<not> (h = g \<and> maps_by s (realm_ctx s g) n p e P d)"
        using maps_position [OF xs m, of n p e d] c(4) False by auto
      then show ?thesis using xs m by (auto simp: maps_def)
    qed
  next
    assume "maps s h P d \<and> \<not> (h = g \<and> maps_by s (realm_ctx s g) n p e P d) \<or> h = g \<and> maps_by s (realm_ctx s g) n p e' P d"
    then show "maps s' h P d"
    proof
      assume a: "maps s h P d \<and> \<not> (h = g \<and> maps_by s (realm_ctx s g) n p e P d)"
      then obtain m q x where x: "ent s h m q x" "maps_by s (realm_ctx s h) m q x P d" by (auto simp: maps_def)
      have "(h, m, q) \<noteq> (g, n, p)" using a x c(4) ent_fun by blast
      then have "ent s' h m q x" using x(1) c(3) by auto
      moreover have "realm_ctx s' h = realm_ctx s h" using ctx x(1) by blast
      ultimately show ?thesis using x(2) mb by (auto simp: maps_def)
    next
      assume a: "h = g \<and> maps_by s (realm_ctx s g) n p e' P d"
      then have "ent s' h n p e'" using c(3) by auto
      moreover have "realm_ctx s' h = realm_ctx s h" using ctx a by blast
      ultimately show ?thesis using a mb by (auto simp: maps_def)
    qed
  qed
qed

lemma entry_written_inv:
  assumes ew: "entry_written s s' g n p t e e'"
    and "entry_ok s (realm_ctx s g) n p e'"
    and count: "unat (REFCOUNT (granules s' t)) + of_bool (counted e (level (realm_ctx s g) n)) =
      unat (REFCOUNT (granules s t)) + of_bool (counted e' (level (realm_ctx s g) n))"
    and data: "\<And>h P d. maps s' h P d \<Longrightarrow> STATE (granules s' d) = GRANULE_STATE_DATA"
    and unique: "\<And>h P h' P' d. maps s' h P d \<Longrightarrow> maps s' h' P' d \<Longrightarrow> h = h' \<and> P = P'"
  shows "realm_inv s'"
proof -
  note d = entry_writtenD [OF ew] and c = entry_written_change [OF ew] and rtt = tree_okD(2) [OF realm_invD(2) [OF entry_writtenD(1) [OF ew]]]
  have p: "p div 512 * 512 + p mod 512 = p" by simp
  show ?thesis
  proof (rule realm_inv_change [OF d(1) c(1) d(2)])
    show "entry_ok s' (realm_ctx s g) n (p div 512 * 512 + p mod 512) (words (mem s' t) ! (p mod 512))"
      unfolding p c(2) using assms(2) entry_ok_same [OF same_realmsD(1) [OF d(3)]] by simp
    show "unat (REFCOUNT (granules s' t)) + of_bool (counted (words (mem s t) ! (p mod 512)) (level (realm_ctx s g) n)) =
      unat (REFCOUNT (granules s t)) + of_bool (counted (words (mem s' t) ! (p mod 512)) (level (realm_ctx s g) n))"
      using count d(5) c(2) by simp
  next
    fix h m b t' assume "in_tree s h m b t'" 
    then show "is_rtt s' t'" using d(8) rtt by blast
  next
    fix h m b t' assume "in_tree s h m b t'" "t' \<noteq> t"
    then show "REFCOUNT (granules s' t') = REFCOUNT (granules s t')" using d(10) rtt by blast
  next
    assume "n < depth (realm_ctx s g)" "entry_is_table (words (mem s' t) ! (p mod 512))"
    then show "\<exists>t'. next_table s' (realm_ctx s g) t (p mod 512) = Some t' \<and> is_rtt s' t' \<and>
        (\<forall>h m b. in_tree s h m b t' \<longrightarrow> (h, m, b) = (g, Suc n, p div 512 * 512 + p mod 512)) \<and>
        (\<forall>i < 512. entry_ok s' (realm_ctx s g) (Suc n) ((p div 512 * 512 + p mod 512) * 512 + i) (words (mem s' t') ! i) \<and>
           \<not> s2tte_is_table (words (mem s' t') ! i) (level (realm_ctx s g) (Suc n))) \<and>
        unat (REFCOUNT (granules s' t')) = refs s' (level (realm_ctx s g) (Suc n)) t'"
      using d(7) c(2) by simp
  qed (rule data unique; assumption)+
qed

end
