(* ===== verification/Handler_Lib.thy ===== *)
theory Handler_Lib
  imports Rmi_Data Realm_Inv
begin

text \<open>
  What the proofs about the command handlers share: running the validation of parameters, the locking and the table walk on
  a state that satisfies the invariant of realm memory, and the facts about the entry that the walk reaches.
\<close>

section \<open>Validation and locking\<close>

lemma is_realm_in: "granule_in s a GRANULE_STATE_RD = Some g \<Longrightarrow> is_realm s g"
  by (auto dest: granule_inD simp: is_realm_def)

lemma not_rtt: "STATE (granules s g) \<noteq> GRANULE_STATE_RTT \<Longrightarrow> \<not> is_rtt s g"
  by (simp add: is_rtt_def)

lemma states_distinct [simp]:
  "GRANULE_STATE_DELEGATED \<noteq> GRANULE_STATE_RD" "GRANULE_STATE_RD \<noteq> GRANULE_STATE_DELEGATED"
  "GRANULE_STATE_RD \<noteq> GRANULE_STATE_RTT" "GRANULE_STATE_DELEGATED \<noteq> GRANULE_STATE_RTT"
  "GRANULE_STATE_RTT \<noteq> GRANULE_STATE_RD" "GRANULE_STATE_RTT \<noteq> GRANULE_STATE_DELEGATED"
  "GRANULE_STATE_DATA \<noteq> GRANULE_STATE_RTT" "GRANULE_STATE_DATA \<noteq> GRANULE_STATE_RD"
  "GRANULE_STATE_DATA \<noteq> GRANULE_STATE_DELEGATED" "GRANULE_STATE_RTT \<noteq> GRANULE_STATE_DATA"
  "GRANULE_STATE_RD \<noteq> GRANULE_STATE_DATA" "GRANULE_STATE_DELEGATED \<noteq> GRANULE_STATE_DATA"
  "GRANULE_STATE_REC \<noteq> GRANULE_STATE_RD" "GRANULE_STATE_RD \<noteq> GRANULE_STATE_REC"
  "GRANULE_STATE_REC \<noteq> GRANULE_STATE_RTT" "GRANULE_STATE_NS \<noteq> GRANULE_STATE_RD"
  "GRANULE_STATE_NS \<noteq> GRANULE_STATE_RTT" "GRANULE_STATE_NS \<noteq> GRANULE_STATE_DATA"
  by (simp_all add: granule_states)

lemma slots_distinct [simp]:
  "SLOT_RD \<noteq> SLOT_RTT" "SLOT_RTT \<noteq> SLOT_RD" "SLOT_RTT2 \<noteq> SLOT_RTT" "SLOT_RTT \<noteq> SLOT_RTT2"
  "SLOT_DELEGATED \<noteq> SLOT_RTT" "SLOT_RTT \<noteq> SLOT_DELEGATED" "SLOT_DELEGATED \<noteq> SLOT_RD" "SLOT_RD \<noteq> SLOT_DELEGATED"
  "SLOT_NS \<noteq> SLOT_RD" "SLOT_NS \<noteq> SLOT_RTT" "SLOT_NS \<noteq> SLOT_DELEGATED" "SLOT_RD \<noteq> SLOT_NS" "SLOT_RTT \<noteq> SLOT_NS"
  "SLOT_DELEGATED \<noteq> SLOT_NS" "SLOT_REC \<noteq> SLOT_RD" "SLOT_RD \<noteq> SLOT_REC" "SLOT_REC \<noteq> SLOT_RTT" "SLOT_RTT \<noteq> SLOT_REC"
  by (simp_all add: slot_numbers)

lemma lock_root_held [held_simps]:
  assumes "idle s" "walk_ok s c a" "\<forall>h\<in>L. \<not> is_rtt s h"
  shows "lock_root c (held L M s) = Inr ((), held (insert (the (g_rtt c)) L) M s)"
proof -
  have "is_rtt s (the (g_rtt c))" "g_rtt c \<noteq> None" using assms(2) by (auto simp: walk_ok_def wf_ctx_def)
  with assms show ?thesis
    by (auto simp: lock_root_def held_simps idle_lockable is_rttD)
qed

lemma s2tte_is_addr_lvl_aligned_run [run_simps]:
  "min_starting_level c \<le> l \<Longrightarrow> l \<le> 3 \<Longrightarrow>
   s2tte_is_addr_lvl_aligned c a l s = Inr (addr_lvl_aligned (enable_lpa2 c) a l, s)"
  by (simp add: s2tte_is_addr_lvl_aligned_def run_simps)

lemma validate_map_addr_run [run_simps]:
  "min_starting_level (rd_s2_ctx rd) \<le> l \<Longrightarrow> l \<le> 3 \<Longrightarrow>
   validate_map_addr a l rd s = Inr (a < realm_ipa_size rd \<and> addr_lvl_aligned (enable_lpa2 (rd_s2_ctx rd)) a l, s)"
  by (simp add: validate_map_addr_def run_simps)

lemma page_level_ok [simp]: "min_starting_level c \<le> 3"
  using min_starting_level_bounds(2) [of c] by simp

text \<open>What is known of the table that a walk in a realm reaches.\<close>

lemma realm_walk:
  assumes inv: "realm_inv s" and g: "is_realm s g" and a: "addr < push_bit (unat (ipa_bits (realm_ctx s g))) 1"
    and lv: "s2_starting_level (realm_ctx s g) \<le> lv" "lv \<le> 3" and w: "rtt_walk s (realm_ctx s g) addr lv = (t, l)"
  obtains k where "l = level (realm_ctx s g) k" "in_tree s g k (entry_no addr l div 512) t" "-1 \<le> l" "l \<le> lv"
    "unat (s2_addr_to_idx addr l) = entry_no addr l mod 512" "k < depth (realm_ctx s g) \<longleftrightarrow> l < 3"
    "l = lv \<or> \<not> entry_is_table (words (mem s t) ! (entry_no addr l mod 512))"
    "is_rtt s t" "entry_ok s (realm_ctx s g) k (entry_no addr l) (words (mem s t) ! (entry_no addr l mod 512))"
proof -
  obtain k where k: "l = level (realm_ctx s g) k" "in_tree s g k (entry_no addr l div 512) t" "-1 \<le> l" "l \<le> lv"
    "unat (s2_addr_to_idx addr l) = entry_no addr l mod 512" "k < depth (realm_ctx s g) \<longleftrightarrow> l < 3"
    "l = lv \<or> \<not> entry_is_table (words (mem s t) ! (entry_no addr l mod 512))"
    using tree_walk [OF realm_invD(2) [OF inv] g a lv w] by blast
  have "ent s g k (entry_no addr l) (words (mem s t) ! (entry_no addr l mod 512))"
    using entI [OF k(2), of "entry_no addr l mod 512"] by simp
  then show ?thesis
    using that k realm_invD(3) [OF inv] tree_okD(2) [OF realm_invD(2) [OF inv] k(2)] by blast
qed


lemma walk_held' [held_simps]:
  assumes "idle s" "walk_ok s c addr" "M SLOT_RTT = None" "\<forall>h\<in>L. \<not> is_rtt s h" "s2_starting_level c \<le> lv" "lv \<le> 3"
  shows "s2tt_walk_lock_unlock c addr lv (held (insert (the (g_rtt c)) L) M s) =
    Inr (\<lparr>g_llt = Some (fst (rtt_walk s c addr lv)), wi_index = s2_addr_to_idx addr (snd (rtt_walk s c addr lv)),
          last_level = snd (rtt_walk s c addr lv)\<rparr>, held (insert (fst (rtt_walk s c addr lv)) L) M s)"
proof -
  have "g_rtt c \<noteq> None" using assms(2) by (auto simp: walk_ok_def wf_ctx_def)
  then show ?thesis using walk_held [where M = M and L = L, OF assms] by auto
qed

lemma llt_of_simp [simp]: "llt_of \<lparr>g_llt = Some t, wi_index = i, last_level = l\<rparr> = t"
  by (simp add: llt_of_def)

lemma realm_ipa_size_ctx: "is_realm s g \<Longrightarrow> realm_ipa_size (d_rd (mem s g)) = push_bit (unat (ipa_bits (realm_ctx s g))) 1"
  by (simp add: realm_ipa_size_def realm_ipa_bits_def realm_ctx_def)

section \<open>Kinds of entries\<close>

lemma unassigned_kind:
  assumes "kinds e l = {k}"
  shows "s2tte_is_unassigned e \<longleftrightarrow> k \<in> {Unassigned_Empty, Unassigned_Ram, Unassigned_Ns, Unassigned_Destroyed}"
proof
  assume u: "s2tte_is_unassigned e"
  have "has_kind e l k" using assms by (auto simp: kinds_def)
  then show "k \<in> {Unassigned_Empty, Unassigned_Ram, Unassigned_Ns, Unassigned_Destroyed}"
    using u by (cases k) (auto simp: has_kind_def s2tte_class_bits split: if_splits)
next
  assume "k \<in> {Unassigned_Empty, Unassigned_Ram, Unassigned_Ns, Unassigned_Destroyed}"
  moreover have "has_kind e l k" using assms by (auto simp: kinds_def)
  ultimately show "s2tte_is_unassigned e" by (auto simp: has_kind_def s2tte_class_bits)
qed

lemma unassigned_ripas:
  assumes "kinds e l = {k}" "k \<in> {Unassigned_Empty, Unassigned_Ram, Unassigned_Destroyed}"
  shows "bit e 5 \<longleftrightarrow> k = Unassigned_Ram" "bit e 6 \<longleftrightarrow> k = Unassigned_Destroyed"
proof -
  have "has_kind e l k" using assms by (auto simp: kinds_def)
  then show "bit e 5 \<longleftrightarrow> k = Unassigned_Ram" "bit e 6 \<longleftrightarrow> k = Unassigned_Destroyed"
    using assms(2) by (auto simp: has_kind_def s2tte_class_bits)
qed

text \<open>The entry that assigns a page and keeps its RIPAS.\<close>

definition assign_kind :: "s2tte_kind \<Rightarrow> s2tte_kind" where
  "assign_kind k = (case k of Unassigned_Ram \<Rightarrow> Assigned_Ram | Unassigned_Destroyed \<Rightarrow> Assigned_Destroyed | _ \<Rightarrow> Assigned_Empty)"

lemma assigned_unchanged:
  assumes "kinds e l = {k}" "k \<in> {Unassigned_Empty, Unassigned_Ram, Unassigned_Destroyed}"
    and "1 \<le> l" "l \<le> 3" "addr_lvl_aligned (enable_lpa2 c) pa l"
  shows "s2tte_create_assigned_unchanged c e pa l s =
      Inr (assigned_value (enable_lpa2 c) pa l (e AND S2TTE_INVALID_RIPAS_MASK), s)"
    "kinds (assigned_value (enable_lpa2 c) pa l (e AND S2TTE_INVALID_RIPAS_MASK)) l = {assign_kind k}"
    "to_pa_value (assigned_value (enable_lpa2 c) pa l (e AND S2TTE_INVALID_RIPAS_MASK)) l (enable_lpa2 c) = pa"
proof -
  let ?r = "e AND S2TTE_INVALID_RIPAS_MASK"
  note r = unassigned_ripas [OF assms(1,2)]
  have b: "bit ?r 5 \<longleftrightarrow> k = Unassigned_Ram" "bit ?r 6 \<longleftrightarrow> k = Unassigned_Destroyed"
    by (simp_all add: bit_and_iff bit_s2tte_invalid r)
  show "s2tte_create_assigned_unchanged c e pa l s = Inr (assigned_value (enable_lpa2 c) pa l ?r, s)"
    using create_assigned_run [OF assms(3-5), of ?r s] b by (auto simp: s2tte_create_assigned_unchanged_def)
  show "kinds (assigned_value (enable_lpa2 c) pa l ?r) l = {assign_kind k}"
    "to_pa_value (assigned_value (enable_lpa2 c) pa l ?r) l (enable_lpa2 c) = pa"
  proof -
    have "kinds (assigned_value (enable_lpa2 c) pa l ?r) l = {assign_kind k} \<and>
      to_pa_value (assigned_value (enable_lpa2 c) pa l ?r) l (enable_lpa2 c) = pa"
    proof (cases "k = Unassigned_Ram")
      case True
      then have "bit ?r 5" "\<not> bit ?r 6" using b by simp_all
      from assigned_ram_ok [OF assms(3-5) this] show ?thesis using True by (simp add: assign_kind_def)
    next
      case False
      then have "\<not> bit ?r 5" using b by simp
      from assigned_invalid_ok [OF assms(5) this] b(2) False assms(2) show ?thesis
        by (cases k) (simp_all add: assign_kind_def)
    qed
    then show "kinds (assigned_value (enable_lpa2 c) pa l ?r) l = {assign_kind k}"
      "to_pa_value (assigned_value (enable_lpa2 c) pa l ?r) l (enable_lpa2 c) = pa" by blast+
  qed
qed

lemma granule_page_aligned:
  assumes "realm_inv s" "granule_at (arm_dram s) a = Some d" "\<not> lpa2 \<Longrightarrow> unat a < 2 ^ 48"
  shows "addr_lvl_aligned lpa2 a 3"
proof -
  have g: "GRANULE_ALIGNED a" using granule_at_aligned [OF assms(2)] idleD(3) [OF realm_invD(1) [OF assms(1)]] .
  have "unat a < 2 ^ oa_bits lpa2" using realm_invD(7) [OF assms(1,2)] assms(3) by (auto simp: oa_bits_def)
  then have "a < 2 ^ oa_bits lpa2" by (simp add: word_less_nat_alt unat_exp oa_bits_def)
  then have "bit a n \<Longrightarrow> n < oa_bits lpa2" for n using bit_less_width [of a n "oa_bits lpa2"] by (simp add: oa_bits_def)
  then show ?thesis using g by (auto simp: addr_lvl_aligned_iff GRANULE_ALIGNED_bits not_less [symmetric])
qed

section \<open>The protected address space\<close>

text \<open>The protected half of the address space is made of whole entries at every level.\<close>

lemma block_below: "m \<le> b \<Longrightarrow> p * 2 ^ m < (2 :: nat) ^ b \<longleftrightarrow> p < 2 ^ (b - m)"
proof -
  assume "m \<le> b"
  then have "(2 :: nat) ^ b = 2 ^ (b - m) * 2 ^ m" by (simp add: power_add [symmetric])
  then show ?thesis by simp
qed

lemma block_no_below: "m \<le> b \<Longrightarrow> a div 2 ^ m * 2 ^ m < (2 :: nat) ^ b \<longleftrightarrow> a < 2 ^ b"
proof -
  assume m: "m \<le> b"
  then have "(2 :: nat) ^ b = 2 ^ (b - m) * 2 ^ m" by (simp add: power_add [symmetric])
  then show ?thesis using block_below [OF m, of "a div 2 ^ m"] by (simp add: div_less_iff_less_mult)
qed

lemma lvl_lsb_mono: "i \<le> j \<Longrightarrow> lvl_lsb j \<le> lvl_lsb i"
  by (simp add: lvl_lsb_def)

lemma wf_ctx_lsb: "wf_ctx c \<Longrightarrow> lvl_lsb (level c n) < unat (ipa_bits c)"
  using lvl_lsb_mono [of "s2_starting_level c" "level c n"] by (simp add: wf_ctx_def level_def)

lemma in_par_addr:
  assumes "wf_ctx c" "l = level c n"
  shows "in_par c n (entry_no addr l) \<longleftrightarrow> unat addr < 2 ^ (unat (ipa_bits c) - 1)"
    "in_ipa c n (entry_no addr l) \<longleftrightarrow> unat addr < 2 ^ unat (ipa_bits c)"
  using wf_ctx_lsb [OF assms(1), of n] assms(2)
    block_no_below [of "lvl_lsb l" "unat (ipa_bits c) - 1" "unat addr"] block_no_below [of "lvl_lsb l" "unat (ipa_bits c)" "unat addr"]
  by (simp_all add: in_par_def in_ipa_def)

lemma in_par_parts:
  assumes "wf_ctx c" "n < depth c" "i < 512"
  shows "in_par c (Suc n) (p * 512 + i) \<longleftrightarrow> in_par c n p" "in_ipa c (Suc n) (p * 512 + i) \<longleftrightarrow> in_ipa c n p"
proof -
  let ?b = "unat (ipa_bits c)"
  have l: "lvl_lsb (level c n) = lvl_lsb (level c (Suc n)) + 9"
    using lvl_lsb_Suc [of "level c n"] assms(2) by (simp add: level_def depth_def add.commute add.left_commute)
  have le: "lvl_lsb (level c n) < ?b" using wf_ctx_lsb [OF assms(1)] .
  have h: "p * 512 + i < 2 ^ (b - lvl_lsb (level c (Suc n))) \<longleftrightarrow> p < 2 ^ (b - lvl_lsb (level c n))"
    if "lvl_lsb (level c n) \<le> b" for b
  proof -
    have "(2 :: nat) ^ (b - lvl_lsb (level c (Suc n))) = 2 ^ (b - lvl_lsb (level c n)) * 512"
      using l that power_add [of "2 :: nat" "b - lvl_lsb (level c n)" 9] by simp
    then show ?thesis using assms(3) by auto
  qed
  have "(p * 512 + i) * 2 ^ lvl_lsb (level c (Suc n)) < 2 ^ b \<longleftrightarrow> p * 2 ^ lvl_lsb (level c n) < 2 ^ b"
    if "lvl_lsb (level c n) \<le> b" for b
    using h [OF that] that l block_below [of "lvl_lsb (level c (Suc n))" b] block_below [of "lvl_lsb (level c n)" b] by simp
  then show "in_par c (Suc n) (p * 512 + i) \<longleftrightarrow> in_par c n p" "in_ipa c (Suc n) (p * 512 + i) \<longleftrightarrow> in_ipa c n p"
    using le unfolding in_par_def in_ipa_def by simp_all
qed

lemma addr_in_par_iff:
  assumes "wf_ctx (rd_s2_ctx rd)"
  shows "addr_in_par rd a \<longleftrightarrow> unat a < 2 ^ (unat (ipa_bits (rd_s2_ctx rd)) - 1)"
proof -
  let ?b = "unat (ipa_bits (rd_s2_ctx rd))"
  have b: "0 < ?b" "?b < 64" using assms by (auto simp: wf_ctx_def oa_bits_def split: if_splits)
  have "unat (realm_par_size rd) = 2 ^ ?b div 2"
    using b by (simp add: realm_par_size_def realm_ipa_size_def realm_ipa_bits_def unat_drop_bit push_bit_eq_mult unat_exp)
  moreover have "(2 :: nat) ^ ?b div 2 = 2 ^ (?b - 1)" using b by (cases ?b) simp_all
  ultimately show ?thesis by (simp add: addr_in_par_def word_less_nat_alt)
qed

section \<open>Common steps\<close>

text \<open>The steps that the handlers with a realm descriptor have in common.\<close>

lemma find_rd_none:
  assumes "idle s" "granule_in s rd_addr st = None"
  shows "find_lock_granule rd_addr st (held {} no_slots s) = Inr (None, s)"
  using assms find_lock_granule_held [of s rd_addr "{}" st no_slots] by (simp add: idleD idle_lockable held_empty)

lemma rd_steps:
  assumes idle: "idle s" and g: "granule_in s rd_addr GRANULE_STATE_RD = Some g"
  shows "find_lock_granule rd_addr GRANULE_STATE_RD (held {} no_slots s) = Inr (Some g, held {g} no_slots s)"
    "map_slot (Some g) SLOT_RD (held {g} no_slots s) = Inr ((), held {g} (no_slots(SLOT_RD := Some g)) s)"
    "buffer_unmap SLOT_RD (held {g} (no_slots(SLOT_RD := Some g)) s) = Inr ((), held {g} no_slots s)"
    "granule_unlock g (held {g} no_slots s) = Inr ((), s)"
proof -
  show "granule_unlock g (held {g} no_slots s) = Inr ((), s)"
    using idleD(2,5) [OF idle, of g] idleD(4) [OF idle] by (simp add: held_simps held_empty)
qed (use find_lock_granule_held [of s rd_addr "{}" GRANULE_STATE_RD no_slots] granule_inD [OF g] g idleD(3) [OF idle] in
  \<open>simp_all add: held_simps idle_lockable [OF idle]\<close>)

definition walk_info :: "rmm \<Rightarrow> s2tt_context \<Rightarrow> u64 \<Rightarrow> int \<Rightarrow> s2tt_walk" where
  "walk_info s c addr lv = \<lparr>g_llt = Some (fst (rtt_walk s c addr lv)), wi_index = s2_addr_to_idx addr (snd (rtt_walk s c addr lv)),
     last_level = snd (rtt_walk s c addr lv)\<rparr>"

lemma walk_info_fields [simp]:
  "g_llt (walk_info s c addr lv) = Some (fst (rtt_walk s c addr lv))" "llt_of (walk_info s c addr lv) = fst (rtt_walk s c addr lv)"
  "last_level (walk_info s c addr lv) = snd (rtt_walk s c addr lv)"
  "wi_index (walk_info s c addr lv) = s2_addr_to_idx addr (snd (rtt_walk s c addr lv))"
  by (simp_all add: walk_info_def)

lemma walk_steps:
  assumes inv: "realm_inv s" and g: "is_realm s g" and a: "addr < push_bit (unat (ipa_bits (realm_ctx s g))) 1"
    and lv: "s2_starting_level (realm_ctx s g) \<le> lv" "lv \<le> 3" and w: "rtt_walk s (realm_ctx s g) addr lv = (t, l)"
  defines "r \<equiv> the (g_rtt (realm_ctx s g))"
  shows "lock_root (realm_ctx s g) (held {g} no_slots s) = Inr ((), held {r, g} no_slots s)"
    "granule_unlock g (held {r, g} no_slots s) = Inr ((), held {r} no_slots s)"
    "s2tt_walk_lock_unlock (realm_ctx s g) addr lv (held {r} no_slots s) = Inr (walk_info s (realm_ctx s g) addr lv, held {t} no_slots s)"
    "map_slot (Some t) SLOT_RTT (held {t} no_slots s) = Inr ((), held {t} (no_slots(SLOT_RTT := Some t)) s)"
    "buffer_unmap SLOT_RTT (held {t} (no_slots(SLOT_RTT := Some t)) s1) = Inr ((), held {t} no_slots s1)"
    "granule_inv (granules s1 t) \<Longrightarrow> \<not> LOCKED (granules s1 t) \<Longrightarrow> slots s1 = no_slots \<Longrightarrow>
      granule_unlock t (held {t} no_slots s1) = Inr ((), s1)"
proof -
  let ?c = "realm_ctx s g"
  note idle = realm_invD(1) [OF inv] note id = idleD [OF idle]
  note wk = tree_walk_ok [OF realm_invD(2) [OF inv] g a]
  have gs: "STATE (granules s g) = GRANULE_STATE_RD" using g by (simp add: is_realm_def)
  have r: "is_rtt s r" using wk by (simp add: walk_ok_def r_def)
  have ne: "{r, g} - {g} = {r}" using is_rttD(2) [OF r] gs by auto
  have t: "is_rtt s t" using rtt_walk_rtt [OF wk lv] w by simp
  have ng: "\<not> is_rtt s g" using gs by (simp add: is_rtt_def)
  show "lock_root ?c (held {g} no_slots s) = Inr ((), held {r, g} no_slots s)"
    using lock_root_held [OF idle wk] ng by (simp add: r_def)
  show "granule_unlock g (held {r, g} no_slots s) = Inr ((), held {r} no_slots s)"
    using ne id by (simp add: held_simps)
  show "s2tt_walk_lock_unlock ?c addr lv (held {r} no_slots s) = Inr (walk_info s ?c addr lv, held {t} no_slots s)"
    using walk_held' [OF idle wk _ _ lv, of no_slots "{}"] w by (simp add: r_def walk_info_def)
  show "map_slot (Some t) SLOT_RTT (held {t} no_slots s) = Inr ((), held {t} (no_slots(SLOT_RTT := Some t)) s)"
    using is_rttD(1) [OF t] id(3) by (simp add: held_simps)
  show "buffer_unmap SLOT_RTT (held {t} (no_slots(SLOT_RTT := Some t)) s1) = Inr ((), held {t} no_slots s1)"
    by (simp add: held_simps)
  assume "granule_inv (granules s1 t)" "\<not> LOCKED (granules s1 t)" "slots s1 = no_slots"
  then show "granule_unlock t (held {t} no_slots s1) = Inr ((), s1)" by (simp add: held_simps held_empty)
qed

text \<open>The address that \<^verbatim>\<open>s2tt_skip_non_live_entries\<close> returns.\<close>

definition skip_addr :: "u64 \<Rightarrow> u64 list \<Rightarrow> s2tt_walk \<Rightarrow> u64" where
  "skip_addr addr table wi =
    (let index = wi_index wi; l = last_level wi
     in if s2tte_is_live (table ! unat index) l then addr
        else (let map_size = s2tte_map_size l; addr = addr AND NOT (map_size - 1);
                  i = (case find (\<lambda>i. s2tte_is_live (table ! i) l) [unat index + 1..<S2TTES_PER_S2TT] of
                         Some i \<Rightarrow> i | None \<Rightarrow> max (unat index + 1) S2TTES_PER_S2TT)
              in addr + (of_nat i - index) * map_size))"

lemma skip_run:
  "unat (wi_index wi) < 512 \<Longrightarrow> min_starting_level c \<le> last_level wi \<Longrightarrow> last_level wi \<le> 3 \<Longrightarrow>
   s2tt_skip_non_live_entries c addr table wi s = Inr (skip_addr addr table wi, s)"
  by (simp add: s2tt_skip_non_live_entries_def skip_addr_def run_simps Let_def word_le_nat_alt)

end
