(* ===== verification/Data_Inv.thy ===== *)
theory Data_Inv
  imports Handler_Lib
begin

text \<open>
  The data commands on states that satisfy the invariant of realm memory.
\<close>

section \<open>Creating data\<close>

text \<open>The read of non-secure memory copies at most a granule.\<close>

definition ns_read_ok :: "(nat \<Rightarrow> u64 list \<times> bool) \<Rightarrow> bool" where
  "ns_read_ok ns_read \<longleftrightarrow> (\<forall>g. length (fst (ns_read g)) \<le> 512)"

text \<open>The data granule is filled and measured into the realm, a page entry is written.\<close>

definition data_filled ::
  "(hash_algo \<Rightarrow> u8 list \<Rightarrow> u8 list) \<Rightarrow> (nat \<Rightarrow> u64 list \<times> bool) \<Rightarrow> nat \<Rightarrow> nat \<Rightarrow> u64 \<Rightarrow> nat option \<Rightarrow> u64 \<Rightarrow> rmm \<Rightarrow> rmm" where
  "data_filled hash ns_read g d addr g_src flags s =
    (case g_src of
       None \<Rightarrow> s
     | Some src \<Rightarrow>
         (let s1 = upd_mem d (\<lambda>x. x\<lparr>words := fst (ns_read src) @ drop (length (fst (ns_read src))) (words x)\<rparr>) s;
              rd = d_rd (mem s1 g)
          in upd_mem g (\<lambda>x. x\<lparr>d_rd := rd\<lparr>measurement := (measurement rd)[RIM_MEASUREMENT_SLOT :=
               measurement_data_granule_measure hash (measurement rd ! RIM_MEASUREMENT_SLOT) (rd_algorithm rd)
                 (word_bytes (words (mem s1 d))) addr flags]\<rparr>\<rparr>) s1))"

definition page_entry :: "s2tt_context \<Rightarrow> u64 \<Rightarrow> nat option \<Rightarrow> u64 \<Rightarrow> u64" where
  "page_entry c data_addr g_src e =
    assigned_value (enable_lpa2 c) data_addr S2TT_PAGE_LEVEL
      (if g_src = None then e AND S2TTE_INVALID_RIPAS_MASK else S2TTE_INVALID_RIPAS_RAM)"

definition page_set :: "nat \<Rightarrow> nat \<Rightarrow> u64 \<Rightarrow> rmm \<Rightarrow> rmm" where
  "page_set t i e s = upd_mem t (\<lambda>d. d\<lparr>words := (words d)[i := e]\<rparr>) s"

lemma ns_buffer_read_held [held_simps]:
  assumes "idle s" "valid_g (arm_dram s) src" "M SLOT_NS = None"
  shows "ns_buffer_read ns_read SLOT_NS src d (held L M s) =
    Inr (snd (ns_read src), held L M (upd_mem d (\<lambda>x. x\<lparr>words := fst (ns_read src) @ drop (length (fst (ns_read src))) (words x)\<rparr>) s))"
proof -
  obtain b where "granule_at (arm_dram s) b = Some src" using assms(2) by (auto simp: valid_g_def)
  then obtain a where a: "granule_addr (Some src) (held L M s) = Inr (a, held L M s)"
    using granule_addr_run [of "held L M s" b src] idleD(3) [OF assms(1)] by auto
  have m: "(held L M s)\<lparr>slots := M(SLOT_NS := Some src)\<rparr> = held L (M(SLOT_NS := Some src)) s" by (simp add: held_def)
  have u: "M(SLOT_NS := None) = M" using assms(3) by auto
  show ?thesis
    using assms(3) by (simp add: ns_buffer_read_def run_simps a held_simps m u upd_mem_def split: prod.split)
qed


definition src_ok :: "(nat \<Rightarrow> u64 list \<times> bool) \<Rightarrow> nat option \<Rightarrow> bool" where
  "src_ok ns_read g_src \<longleftrightarrow> (case g_src of None \<Rightarrow> True | Some src \<Rightarrow> snd (ns_read src))"

definition src_valid :: "rmm \<Rightarrow> nat option \<Rightarrow> bool" where
  "src_valid s g_src \<longleftrightarrow> (case g_src of None \<Rightarrow> True | Some src \<Rightarrow> valid_g (arm_dram s) src)"

lemma upd_mem_twice [simp]: "upd_mem d f (upd_mem d h s) = upd_mem d (f o h) s"
  by (simp add: upd_mem_def)

lemma upd_mem_zero: "mem s d = zero_data \<Longrightarrow> upd_mem d (\<lambda>_. zero_data) s = s"
  by (simp add: upd_mem_def fun_upd_idem)

lemma slot_restore: "M k = None \<Longrightarrow> (M(k := Some x))(k := None) = M"
  by auto

lemma data_entry_held:
  assumes "idle s" "mem s d = zero_data" "valid_g (arm_dram s) d" "M SLOT_DELEGATED = None" "M SLOT_NS = None"
    and "src_valid s g_src"
    and "kinds e 3 = {k}" "k \<in> {Unassigned_Empty, Unassigned_Ram, Unassigned_Destroyed}"
    and "addr_lvl_aligned (enable_lpa2 c) data_addr 3"
  shows "data_entry hash ns_read c g d data_addr addr g_src flags e (held L M s) =
    (if src_ok ns_read g_src then Inr (Some (page_entry c data_addr g_src e), held L M (data_filled hash ns_read g d addr g_src flags s))
     else Inr (None, held L M s))"
proof (cases g_src)
  case None
  then show ?thesis
    by (simp add: data_entry_def run_simps assigned_unchanged(1) [OF assms(7,8) _ _ assms(9)] src_ok_def page_entry_def
        data_filled_def)
next
  case (Some src)
  have z: "(\<lambda>_. zero_data) \<circ> f = (\<lambda>_. zero_data)" for f :: "gdata \<Rightarrow> gdata" by auto
  show ?thesis
    using Some assms slot_restore [of M SLOT_DELEGATED d] upd_mem_zero [OF assms(2)]
    by (simp add: data_entry_def run_simps held_simps idleD src_ok_def page_entry_def data_filled_def Let_def
        measure_data_def z src_valid_def)
qed

lemma data_filled_other:
  "data_filled hash ns_read g d addr g_src flags s = s' \<Longrightarrow>
    arm_dram s' = arm_dram s \<and> granules s' = granules s \<and> slots s' = slots s \<and> tlb_log s' = tlb_log s \<and>
    (\<forall>h. h \<noteq> d \<longrightarrow> words (mem s' h) = words (mem s h)) \<and> (\<forall>h. h \<noteq> g \<longrightarrow> d_rd (mem s' h) = d_rd (mem s h)) \<and>
    (\<forall>h. h \<noteq> g \<longrightarrow> h \<noteq> d \<longrightarrow> mem s' h = mem s h) \<and> (\<forall>h. realm_ctx s' h = realm_ctx s h)"
  by (cases g_src) (auto simp: data_filled_def Let_def upd_mem_def realm_ctx_def)

lemma data_create_entry_held:
  assumes "idle s" "mem s d = zero_data" "valid_g (arm_dram s) d" "M SLOT_DELEGATED = None" "M SLOT_NS = None"
    "M SLOT_RTT = None" "valid_g (arm_dram s) t" "t \<in> L"
    and "src_valid s g_src"
    and "l = 3 \<Longrightarrow> s2tte_is_unassigned (words (mem s t) ! unat idx) \<Longrightarrow>
      unat (REFCOUNT (granules s t)) < 1023 \<and> (\<exists>k \<in> {Unassigned_Empty, Unassigned_Ram, Unassigned_Destroyed}.
        kinds (words (mem s t) ! unat idx) 3 = {k})"
    and "addr_lvl_aligned (enable_lpa2 c) data_addr 3"
  shows "data_create_entry hash ns_read c g d data_addr addr g_src flags \<lparr>g_llt = Some t, wi_index = idx, last_level = l\<rparr> (held L M s) =
    Inr (if l \<noteq> 3 then ((rtt_error l, GRANULE_STATE_DELEGATED), held L M s)
      else if \<not> s2tte_is_unassigned (words (mem s t) ! unat idx) then ((rtt_error 3, GRANULE_STATE_DELEGATED), held L M s)
      else if \<not> src_ok ns_read g_src then ((RMI_ERROR_INPUT, GRANULE_STATE_DELEGATED), held L M s)
      else ((RMI_SUCCESS, GRANULE_STATE_DATA), held L M (upd_granule t (add_desc 1)
        (page_set t (unat idx) (page_entry c data_addr g_src (words (mem s t) ! unat idx)) (data_filled hash ns_read g d addr g_src flags s)))))"
proof -
  let ?M = "M(SLOT_RTT := Some t)"
  have M: "?M SLOT_DELEGATED = None" "?M SLOT_NS = None" using assms(4,5) by simp_all
  note de = data_entry_held [where L = L and M = ?M, OF assms(1-3) M assms(9) _ _ assms(11)]
  have r: "granules (upd_mem h f s') = granules s'" for h f s' by (simp add: upd_mem_def)
  have g: "granules (data_filled hash ns_read g d addr g_src flags s) = granules s" using data_filled_other by blast
  let ?w = "\<lparr>g_llt = Some t, wi_index = idx, last_level = l\<rparr>" and ?e = "words (mem s t) ! unat idx"
  consider "l \<noteq> 3" | "l = 3" "\<not> s2tte_is_unassigned ?e" | "l = 3" "s2tte_is_unassigned ?e" by blast
  then show ?thesis
  proof cases
    case 1
    then show ?thesis by (simp add: data_create_entry_def run_simps)
  next
    case 2
    then show ?thesis using assms(1,6,7) slot_restore [of M SLOT_RTT t]
      by (simp add: data_create_entry_def run_simps held_simps idleD)
  next
    case 3
    then obtain k where k: "kinds ?e 3 = {k}" "k \<in> {Unassigned_Empty, Unassigned_Ram, Unassigned_Destroyed}"
      and rc: "unat (REFCOUNT (granules s t)) < 1023" using assms(10) by blast
    show ?thesis using 3 assms(1,6-8) slot_restore [of M SLOT_RTT t] rc
      by (simp add: data_create_entry_def run_simps held_simps idleD de [OF k] page_set_def r g)
  qed
qed


section \<open>The effect of \<^verbatim>\<open>data_create\<close>\<close>

definition data_created ::
  "(hash_algo \<Rightarrow> u8 list \<Rightarrow> u8 list) \<Rightarrow> (nat \<Rightarrow> u64 list \<times> bool) \<Rightarrow> nat \<Rightarrow> nat \<Rightarrow> u64 \<Rightarrow> u64 \<Rightarrow> nat option \<Rightarrow> u64 \<Rightarrow> nat \<Rightarrow> nat \<Rightarrow>
   rmm \<Rightarrow> rmm" where
  "data_created hash ns_read g d data_addr addr g_src flags t i s =
    upd_granule d (eor_state GRANULE_STATE_DATA) (upd_granule t (add_desc 1)
      (page_set t i (page_entry (realm_ctx s g) data_addr g_src (words (mem s t) ! i))
        (data_filled hash ns_read g d addr g_src flags s)))"

text \<open>The result of the command, as a function of the state.\<close>

definition data_create_spec ::
  "(hash_algo \<Rightarrow> u8 list \<Rightarrow> u8 list) \<Rightarrow> (nat \<Rightarrow> u64 list \<times> bool) \<Rightarrow> u64 \<Rightarrow> u64 \<Rightarrow> u64 \<Rightarrow> nat option \<Rightarrow> u64 \<Rightarrow> rmm \<Rightarrow> u64 \<times> rmm" where
  "data_create_spec hash ns_read rd_addr data_addr addr g_src flags s =
    (case (granule_in s data_addr GRANULE_STATE_DELEGATED, granule_in s rd_addr GRANULE_STATE_RD) of
       (Some d, Some g) \<Rightarrow>
         (let rd = d_rd (mem s g); c = realm_ctx s g; (t, l) = rtt_walk s c addr S2TT_PAGE_LEVEL;
              i = entry_no addr l mod 512; e = words (mem s t) ! i
          in if g_src \<noteq> None \<and> rd_state rd \<noteq> REALM_NEW then (RMI_ERROR_REALM, s)
             else if \<not> (addr_in_par rd addr \<and> addr < realm_ipa_size rd \<and> addr_lvl_aligned (enable_lpa2 c) addr S2TT_PAGE_LEVEL)
             then (RMI_ERROR_INPUT, s)
             else if \<not> enable_lpa2 c \<and> data_addr \<ge> push_bit S2TT_MAX_PA_BITS 1 then (RMI_ERROR_INPUT, s)
             else if l \<noteq> S2TT_PAGE_LEVEL then (rtt_error l, s)
             else if \<not> s2tte_is_unassigned e then (rtt_error l, s)
             else if \<not> src_ok ns_read g_src then (RMI_ERROR_INPUT, s)
             else (RMI_SUCCESS, data_created hash ns_read g d data_addr addr g_src flags t i s))
     | _ \<Rightarrow> (RMI_ERROR_INPUT, s))"

lemma eor_state_id: "STATE x = st \<Longrightarrow> st < 32 \<Longrightarrow> eor_state st x = x"
  by (rule granule_eqI) simp_all

lemma rtt_inv_iff: "STATE x = GRANULE_STATE_RTT \<Longrightarrow> granule_inv x \<longleftrightarrow> unat (REFCOUNT x) \<le> 512"
  by (auto simp: granule_unlocked_invariants_def granule_states RTT_REFCOUNT_MAX_def GRANULE_SIZE_def word_le_nat_alt)

lemma refs_less: "i < 512 \<Longrightarrow> \<not> counted (words (mem s t) ! i) l \<Longrightarrow> refs s l t < 512"
  using refs_512 [of s l t] refs_le [of s l t] by (auto simp: le_less)

text \<open>The entry that a walk to the page level for a protected address finds, when it is unassigned.\<close>

lemma unassigned_page:
  assumes inv: "realm_inv s" and g: "is_realm s g" and a: "addr < push_bit (unat (ipa_bits (realm_ctx s g))) 1"
    and par: "addr_in_par (d_rd (mem s g)) addr" and w: "rtt_walk s (realm_ctx s g) addr 3 = (t, 3)"
    and u: "s2tte_is_unassigned (words (mem s t) ! (entry_no addr 3 mod 512))"
  shows "unat (REFCOUNT (granules s t)) < 512"
    "\<exists>k \<in> {Unassigned_Empty, Unassigned_Ram, Unassigned_Destroyed}. kinds (words (mem s t) ! (entry_no addr 3 mod 512)) 3 = {k}"
proof -
  let ?c = "realm_ctx s g" and ?e = "words (mem s t) ! (entry_no addr 3 mod 512)"
  have wf: "wf_ctx ?c" using tree_okD(1) [OF realm_invD(2) [OF inv] g] .
  have sl: "s2_starting_level ?c \<le> 3" using wf by (simp add: wf_ctx_def)
  obtain n where n: "3 = level ?c n" "in_tree s g n (entry_no addr 3 div 512) t" "entry_ok s ?c n (entry_no addr 3) ?e"
    using realm_walk [OF inv g a sl _ w] by auto
  have p: "in_par ?c n (entry_no addr 3)" "in_ipa ?c n (entry_no addr 3)"
    using in_par_addr [OF wf n(1)] par wf_ctx_bounds(4) [OF wf a] addr_in_par_iff [of "d_rd (mem s g)" addr] wf
    by (simp_all only: realm_ctx_def)
  obtain k where k: "kinds ?e 3 = {k}" "k \<noteq> Table \<longrightarrow> k \<notin> ns_kinds"
    using n(3) p by (auto simp: entry_ok_def n(1) [symmetric])
  then have k': "k \<in> {Unassigned_Empty, Unassigned_Ram, Unassigned_Destroyed}"
    using unassigned_kind [OF k(1)] u by (auto simp: ns_kinds_def)
  then show "\<exists>k \<in> {Unassigned_Empty, Unassigned_Ram, Unassigned_Destroyed}. kinds ?e 3 = {k}" using k(1) by blast
  have "\<not> counted ?e 3" using kinds_counted [OF k(1)] k' by (auto simp: data_kinds_def)
  then have "refs s 3 t < 512" by (rule refs_less [rotated]) simp
  then show "unat (REFCOUNT (granules s t)) < 512" using realm_invD(4) [OF inv n(2)] n(1) by simp
qed

text \<open>The release of the realm descriptor and of the data granule.\<close>

lemma release_rd_data:
  assumes idle: "idle s" and "STATE (granules s d) = GRANULE_STATE_DELEGATED" "d \<noteq> g"
    and s1: "granules s1 d = granules s d" "granules s1 g = granules s g" "slots s1 = no_slots"
  shows "buffer_unmap SLOT_RD (held {d, g} (no_slots(SLOT_RD := Some g)) s1) = Inr ((), held {d, g} no_slots s1)"
    "granule_unlock g (held {d, g} no_slots s1) = Inr ((), held {d} no_slots s1)"
    "st = GRANULE_STATE_DELEGATED \<or> st = GRANULE_STATE_DATA \<Longrightarrow>
      granule_unlock_transition d st (held {d} no_slots s1) = Inr ((), upd_granule d (eor_state st) s1)"
proof -
  note i = idleD [OF idle]
  have "{d, g} - {g} = {d}" using assms(3) by auto
  then show "granule_unlock g (held {d, g} no_slots s1) = Inr ((), held {d} no_slots s1)"
    using s1 i(2,5) by (simp add: held_simps)
  assume st: "st = GRANULE_STATE_DELEGATED \<or> st = GRANULE_STATE_DATA"
  have inv_d: "granule_unlocked_invariants (granules s d) st"
    using inv_zero_refcount [of "eor_state st (granules s d)"] refcount_zero [OF i(5) [of d]] assms(2) st
      granule_unlocked_invariants_cong [of "eor_state st (granules s d)" "granules s d" st] by auto
  have "slots (upd_granule d (eor_state st) s1) = no_slots" using s1(3) by (simp add: upd_granule_def)
  then show "granule_unlock_transition d st (held {d} no_slots s1) = Inr ((), upd_granule d (eor_state st) s1)"
    using s1(1) st i(2) [of d] inv_d by (auto simp: held_simps held_empty)
qed (simp add: held_simps)

text \<open>The walk and the entry, with the locks of the data granule \<open>d\<close> and the descriptor \<open>g\<close> held.\<close>

lemma data_create_walk_held:
  fixes hash ns_read flags
  assumes inv: "realm_inv s" and src: "src_valid s g_src"
    and dg: "granule_in s data_addr GRANULE_STATE_DELEGATED = Some d" "granule_in s rd_addr GRANULE_STATE_RD = Some g"
    and a: "addr < push_bit (unat (ipa_bits (realm_ctx s g))) 1" "addr_in_par (d_rd (mem s g)) addr"
    and al: "enable_lpa2 (realm_ctx s g) \<or> data_addr < push_bit 48 1" and w: "rtt_walk s (realm_ctx s g) addr 3 = (t, l)"
  defines "i \<equiv> entry_no addr l mod 512" and "M \<equiv> no_slots(SLOT_RD := Some g)"
  defines "s1 \<equiv> upd_granule t (add_desc 1) (page_set t i (page_entry (realm_ctx s g) data_addr g_src (words (mem s t) ! i))
        (data_filled hash ns_read g d addr g_src flags s))"
  defines "ok \<equiv> l = 3 \<and> s2tte_is_unassigned (words (mem s t) ! i) \<and> src_ok ns_read g_src"
  shows "data_create_walk hash ns_read (realm_ctx s g) g d data_addr addr g_src flags (held {d, g} M s) =
      Inr (if ok then ((RMI_SUCCESS, GRANULE_STATE_DATA), held {d, g} M s1)
        else ((if l \<noteq> 3 \<or> \<not> s2tte_is_unassigned (words (mem s t) ! i) then rtt_error l else RMI_ERROR_INPUT,
               GRANULE_STATE_DELEGATED), held {d, g} M s))"
    "granules s1 d = granules s d" "granules s1 g = granules s g" "slots s1 = no_slots"
proof -
  let ?c = "realm_ctx s g"
  note idle = realm_invD(1) [OF inv] note id = idleD [OF idle]
  note D = granule_inD [OF dg(1)] and G = granule_inD [OF dg(2)]
  have realm: "is_realm s g" using is_realm_in [OF dg(2)] .
  have sl: "s2_starting_level ?c \<le> 3" using tree_okD(1) [OF realm_invD(2) [OF inv] realm] by (simp add: wf_ctx_def)
  obtain n where n: "is_rtt s t" "unat (s2_addr_to_idx addr l) = i"
    using realm_walk [OF inv realm a(1) sl _ w] by (auto simp: i_def)
  note wk = tree_walk_ok [OF realm_invD(2) [OF inv] realm a(1)]
  have t: "t \<noteq> d" "t \<noteq> g" using is_rttD(2) [OF n(1)] D(2) G(2) by auto
  have tL: "{t, d, g} - {t} = {d, g}" using t by auto
  have Lr: "\<forall>h\<in>{d, g}. \<not> is_rtt s h" using D(2) G(2) by (auto simp: is_rtt_def)
  have Ms: "M SLOT_RTT = None" "M SLOT_DELEGATED = None" "M SLOT_NS = None" by (simp_all add: M_def)
  have "\<not> enable_lpa2 ?c \<Longrightarrow> unat data_addr < 2 ^ 48" using al by (auto simp: word_less_nat_alt push_bit_eq_mult unat_exp)
  then have al': "addr_lvl_aligned (enable_lpa2 ?c) data_addr 3" by (rule granule_page_aligned [OF inv D(1)])
  have un: "unat (REFCOUNT (granules s t)) < 512 \<and> (\<exists>k \<in> {Unassigned_Empty, Unassigned_Ram, Unassigned_Destroyed}.
      kinds (words (mem s t) ! unat (s2_addr_to_idx addr l)) 3 = {k})"
    if "l = 3" "s2tte_is_unassigned (words (mem s t) ! unat (s2_addr_to_idx addr l))"
    using unassigned_page [OF inv realm a, of t] w that n(2) by (simp add: i_def)
  then have un': "unat (REFCOUNT (granules s t)) < 1023 \<and> (\<exists>k \<in> {Unassigned_Empty, Unassigned_Ram, Unassigned_Destroyed}.
      kinds (words (mem s t) ! unat (s2_addr_to_idx addr l)) 3 = {k})"
    if "l = 3" "s2tte_is_unassigned (words (mem s t) ! unat (s2_addr_to_idx addr l))"
    using that by fastforce
  have ce: "data_create_entry hash ns_read ?c g d data_addr addr g_src flags
      \<lparr>g_llt = Some t, wi_index = s2_addr_to_idx addr l, last_level = l\<rparr> (held {t, d, g} M s) =
    Inr (if ok then ((RMI_SUCCESS, GRANULE_STATE_DATA), held {t, d, g} M s1)
        else ((if l \<noteq> 3 \<or> \<not> s2tte_is_unassigned (words (mem s t) ! i) then rtt_error l else RMI_ERROR_INPUT,
               GRANULE_STATE_DELEGATED), held {t, d, g} M s))"
    using data_create_entry_held [where L = "{t, d, g}" and M = M and t = t and l = l and idx = "s2_addr_to_idx addr l"
        and c = ?c and s = s and d = d, OF idle id(7) [OF D(2)] D(3) Ms(2,3,1) is_rttD(1) [OF n(1)] _ src un' al', unfolded n(2)]
    by (auto simp: ok_def s1_def)
  have g1: "granules s1 h = (if h = t then add_desc 1 (granules s t) else granules s h)" "slots s1 = no_slots" for h
    using data_filled_other [of hash ns_read g d addr g_src flags s] id(4)
    by (auto simp: s1_def page_set_def upd_granule_def upd_mem_def)
  show "granules s1 d = granules s d" "granules s1 g = granules s g" "slots s1 = no_slots" using g1 t by auto
  have ut0: "granule_unlock t (held {t, d, g} M s) = Inr ((), held {d, g} M s)" using id(2,5) tL by (simp add: held_simps)
  have ut1: "granule_unlock t (held {t, d, g} M s1) = Inr ((), held {d, g} M s1)" if ok
  proof -
    have "unat (REFCOUNT (granules s t)) < 512" using un [unfolded n(2)] that by (auto simp: ok_def)
    then have "granule_inv (granules s1 t)" "\<not> LOCKED (granules s1 t)"
      using refcount_add_fields [of "granules s t" 1] is_rttD(2) [OF n(1)] id(2) [of t] g1(1) [of t]
        rtt_inv_iff [of "granules s1 t"] by (simp_all add: unat_word_ariths)
    then show ?thesis using tL by (simp add: held_simps)
  qed
  show "data_create_walk hash ns_read ?c g d data_addr addr g_src flags (held {d, g} M s) =
      Inr (if ok then ((RMI_SUCCESS, GRANULE_STATE_DATA), held {d, g} M s1)
        else ((if l \<noteq> 3 \<or> \<not> s2tte_is_unassigned (words (mem s t) ! i) then rtt_error l else RMI_ERROR_INPUT,
               GRANULE_STATE_DELEGATED), held {d, g} M s))"
    using Lr wk sl w idle Ms(1) ut0 ut1
    by (cases ok) (simp_all add: data_create_walk_def run_simps held_simps ce)
qed

text \<open>The command computes the specification.\<close>

lemma data_create_run:
  assumes inv: "realm_inv s" and src: "src_valid s g_src"
  shows "data_create hash ns_read rd_addr data_addr addr g_src flags s =
    Inr (data_create_spec hash ns_read rd_addr data_addr addr g_src flags s)"
proof (cases "\<exists>d g. granule_in s data_addr GRANULE_STATE_DELEGATED = Some d \<and> granule_in s rd_addr GRANULE_STATE_RD = Some g")
  case False
  note idle = realm_invD(1) [OF inv]
  have "find_lock_two_granules data_addr GRANULE_STATE_DELEGATED rd_addr GRANULE_STATE_RD (held {} no_slots s) =
    Inr (None, held {} no_slots s)"
    using find_lock_two_held [OF idle, of GRANULE_STATE_DELEGATED GRANULE_STATE_RD data_addr rd_addr] False
    by (auto split: option.splits)
  then show ?thesis using False
    by (subst idle_held [OF idle])
      (auto simp: data_create_def run_simps data_create_spec_def held_empty idleD(4) [OF idle] split: option.splits)
next
  case True
  then obtain d g where dg: "granule_in s data_addr GRANULE_STATE_DELEGATED = Some d" "granule_in s rd_addr GRANULE_STATE_RD = Some g"
    by blast
  note idle = realm_invD(1) [OF inv] note i = idleD [OF idle]
  note D = granule_inD [OF dg(1)] and G = granule_inD [OF dg(2)]
  let ?rd = "d_rd (mem s g)" and ?c = "realm_ctx s g" and ?M = "no_slots(SLOT_RD := Some g)"
  have c: "rd_s2_ctx ?rd = ?c" by (simp add: realm_ctx_def)
  have ne: "d \<noteq> g" using D(2) G(2) by auto
  have undo: "upd_granule d (eor_state GRANULE_STATE_DELEGATED) s = s"
    using eor_state_id [of "granules s d"] D(2) by (intro upd_granule_id) simp
  note rel = release_rd_data [OF idle D(2) ne]
  have lk: "find_lock_two_granules data_addr GRANULE_STATE_DELEGATED rd_addr GRANULE_STATE_RD (held {} no_slots s) =
    Inr (Some (d, g), held {d, g} no_slots s)" using find_lock_two_held [OF idle] dg by simp
  have mp: "map_slot (Some g) SLOT_RD (held {d, g} no_slots s) = Inr ((), held {d, g} ?M s)"
    using i(3) G(3) by (simp add: held_simps)
  note codes = RMI_SUCCESS_def RMI_ERROR_INPUT_def RMI_ERROR_REALM_def
  define v where "v = (if g_src \<noteq> None \<and> rd_state ?rd \<noteq> REALM_NEW then RMI_ERROR_REALM
      else if \<not> (addr_in_par ?rd addr \<and> addr < realm_ipa_size ?rd \<and> addr_lvl_aligned (enable_lpa2 ?c) addr 3)
      then RMI_ERROR_INPUT else RMI_SUCCESS)"
  have val: "g_src \<noteq> None \<Longrightarrow> validate_data_create addr ?rd s1 = Inr (v, s1)"
    "g_src = None \<Longrightarrow> validate_data_create_unknown addr ?rd s1 = Inr (v, s1)" for s1 :: rmm
    by (auto simp: v_def validate_data_create_def validate_data_create_unknown_def run_simps c)
  obtain t l where w: "rtt_walk s ?c addr 3 = (t, l)" by (cases "rtt_walk s ?c addr 3")
  define b where "b = entry_no addr l mod 512"
  have spec: "data_create_spec hash ns_read rd_addr data_addr addr g_src flags s =
    (if v \<noteq> RMI_SUCCESS then (v, s)
     else if \<not> enable_lpa2 ?c \<and> data_addr \<ge> push_bit 48 1 then (RMI_ERROR_INPUT, s)
     else if l = 3 \<and> s2tte_is_unassigned (words (mem s t) ! b) \<and> src_ok ns_read g_src
     then (RMI_SUCCESS, data_created hash ns_read g d data_addr addr g_src flags t b s)
     else (if l \<noteq> 3 \<or> \<not> s2tte_is_unassigned (words (mem s t) ! b) then rtt_error l else RMI_ERROR_INPUT, s))"
    unfolding data_create_spec_def dg v_def b_def Let_def option.case prod.case w by (simp add: codes)
  note first = data_create_def run_bindM run_thenM lk mp val read_held
  have "data_create hash ns_read rd_addr data_addr addr g_src flags (held {} no_slots s) =
    Inr (data_create_spec hash ns_read rd_addr data_addr addr g_src flags s)"
  proof (cases "v = RMI_SUCCESS \<and> (enable_lpa2 ?c \<or> data_addr < push_bit 48 1)")
    case False
    then show ?thesis unfolding spec using rel [of s] i(4) undo
      by (cases "g_src = None"; cases "v = RMI_SUCCESS") (simp_all add: first c Let_def not_less run_simps)
  next
    case True
    then have a: "addr < push_bit (unat (ipa_bits ?c)) 1" "addr_in_par ?rd addr" and al: "enable_lpa2 ?c \<or> data_addr < push_bit 48 1"
      using realm_ipa_size_ctx [OF is_realm_in [OF dg(2)]] by (auto simp: v_def codes split: if_splits)
    have nal: "\<not> enable_lpa2 ?c \<Longrightarrow> \<not> push_bit 48 1 \<le> data_addr" using al by (auto simp: not_le)
    note wl = data_create_walk_held [OF inv src dg a al w, of hash ns_read flags, folded b_def]
    show ?thesis
    proof (cases "l = 3 \<and> s2tte_is_unassigned (words (mem s t) ! b) \<and> src_ok ns_read g_src")
      case ok: True
      show ?thesis unfolding spec data_created_def if_P [OF ok]
        using True nal wl(1) [unfolded if_P [OF ok]] rel [OF wl(2-4)]
        by (cases "g_src = None"; cases "enable_lpa2 ?c") (simp_all add: first c Let_def run_simps)
    next
      case ok: False
      show ?thesis unfolding spec if_not_P [OF ok]
        using True nal wl(1) [unfolded if_not_P [OF ok]] rel [of s] i(4) undo
        by (cases "g_src = None"; cases "enable_lpa2 ?c") (simp_all add: first c Let_def run_simps)
    qed
  qed
  then show ?thesis using idle_held [OF idle] by simp
qed

lemma data_created_fields:
  assumes "t \<noteq> d" and s': "s' = data_created hash ns_read g d data_addr addr g_src flags t i s"
  shows "arm_dram s' = arm_dram s" "slots s' = slots s" "realm_ctx s' h = realm_ctx s h"
    "granules s' h = (if h = d then eor_state GRANULE_STATE_DATA (granules s d)
       else if h = t then add_desc 1 (granules s t) else granules s h)"
    "h \<noteq> d \<Longrightarrow> words (mem s' h) = (if h = t
       then (words (mem s t))[i := page_entry (realm_ctx s g) data_addr g_src (words (mem s t) ! i)] else words (mem s h))"
    "h \<noteq> d \<Longrightarrow> h \<noteq> t \<Longrightarrow> h \<noteq> g \<Longrightarrow> mem s' h = mem s h"
proof -
  define s1 where "s1 = data_filled hash ns_read g d addr g_src flags s"
  note f = data_filled_other [OF s1_def [symmetric]]
  show "arm_dram s' = arm_dram s" "slots s' = slots s" "realm_ctx s' h = realm_ctx s h"
    "granules s' h = (if h = d then eor_state GRANULE_STATE_DATA (granules s d)
       else if h = t then add_desc 1 (granules s t) else granules s h)"
    "h \<noteq> d \<Longrightarrow> words (mem s' h) = (if h = t
       then (words (mem s t))[i := page_entry (realm_ctx s g) data_addr g_src (words (mem s t) ! i)] else words (mem s h))"
    "h \<noteq> d \<Longrightarrow> h \<noteq> t \<Longrightarrow> h \<noteq> g \<Longrightarrow> mem s' h = mem s h"
    using f assms(1)
    by (auto simp: s' data_created_def s1_def [symmetric] page_set_def upd_mem_def upd_granule_def realm_ctx_def)
qed

lemma data_filled_length:
  assumes "ns_read_ok ns_read" "\<And>h. length (words (mem s h)) = 512"
  shows "length (words (mem (data_created hash ns_read g d data_addr addr g_src flags t i s) h)) = 512"
  using assms
  by (auto simp: data_created_def data_filled_def page_set_def upd_mem_def upd_granule_def ns_read_ok_def Let_def split: option.split)

lemma page_entry_kind:
  assumes "kinds e 3 = {k}" "k \<in> {Unassigned_Empty, Unassigned_Ram, Unassigned_Destroyed}" "addr_lvl_aligned (enable_lpa2 c) a 3"
  shows "\<exists>k' \<in> data_kinds. kinds (page_entry c a g_src e) 3 = {k'}"
    "to_pa_value (page_entry c a g_src e) 3 (enable_lpa2 c) = a"
proof -
  have k: "assign_kind k \<in> data_kinds" using assms(2) by (auto simp: assign_kind_def data_kinds_def)
  show "\<exists>k' \<in> data_kinds. kinds (page_entry c a g_src e) 3 = {k'}"
    "to_pa_value (page_entry c a g_src e) 3 (enable_lpa2 c) = a"
    using k assigned_unchanged(2,3) [OF assms(1,2) _ _ assms(3)] assigned_ram_ok [OF _ _ assms(3), of S2TTE_INVALID_RIPAS_RAM]
    by (auto simp: page_entry_def bit_s2tte_invalid data_kinds_def)
qed

lemma data_created_inv:
  fixes hash flags g_src
  assumes inv: "realm_inv s" and ns: "ns_read_ok ns_read"
    and dg: "granule_in s data_addr GRANULE_STATE_DELEGATED = Some d" "granule_in s rd_addr GRANULE_STATE_RD = Some g"
    and a: "addr < push_bit (unat (ipa_bits (realm_ctx s g))) 1" "addr_in_par (d_rd (mem s g)) addr"
    and al: "enable_lpa2 (realm_ctx s g) \<or> data_addr < push_bit 48 1" and w: "rtt_walk s (realm_ctx s g) addr 3 = (t, 3)"
    and u: "s2tte_is_unassigned (words (mem s t) ! (entry_no addr 3 mod 512))"
  defines "s' \<equiv> data_created hash ns_read g d data_addr addr g_src flags t (entry_no addr 3 mod 512) s"
  shows "realm_inv s'" "maps s' g' P x \<longleftrightarrow> maps s g' P x \<or> (g', P, x) = (g, entry_no addr 3, d)"
proof -
  let ?c = "realm_ctx s g" and ?p = "entry_no addr 3" and ?e = "words (mem s t) ! (entry_no addr 3 mod 512)"
  let ?e' = "page_entry ?c data_addr g_src ?e"
  note id = idleD [OF realm_invD(1) [OF inv]] and D = granule_inD [OF dg(1)] and G = granule_inD [OF dg(2)]
  have realm: "is_realm s g" using is_realm_in [OF dg(2)] .
  have wf: "wf_ctx ?c" using tree_okD(1) [OF realm_invD(2) [OF inv] realm] .
  have sl: "s2_starting_level ?c \<le> 3" using wf by (simp add: wf_ctx_def)
  obtain n where n: "3 = level ?c n" "in_tree s g n (?p div 512) t" "\<not> n < depth ?c" "is_rtt s t"
    using realm_walk [OF inv realm a(1) sl _ w] by auto
  have t: "t \<noteq> d" "t \<noteq> g" "d \<noteq> g" using is_rttD(2) [OF n(4)] D(2) G(2) by auto
  note f = data_created_fields [OF t(1) s'_def [THEN meta_eq_to_obj_eq]]
  have pg: "pages ?c n = 1" using n(3) by (simp add: pages_def)
  note un = unassigned_page [OF inv realm a w u]
  obtain k where k: "kinds ?e 3 = {k}" "k \<in> {Unassigned_Empty, Unassigned_Ram, Unassigned_Destroyed}" using un(2) by blast
  have "\<not> enable_lpa2 ?c \<Longrightarrow> unat data_addr < 2 ^ 48" using al by (auto simp: word_less_nat_alt push_bit_eq_mult unat_exp)
  then have al': "addr_lvl_aligned (enable_lpa2 ?c) data_addr 3" by (rule granule_page_aligned [OF inv D(1)])
  obtain k' where k': "kinds ?e' 3 = {k'}" "k' \<in> data_kinds" using page_entry_kind(1) [OF k al'] by blast
  have pa: "out_addr ?c n ?e' = data_addr" using page_entry_kind(2) [OF k al'] n(1) by (simp add: out_addr_def)
  have st: "STATE (granules s' h) = (if h = d then GRANULE_STATE_DATA else STATE (granules s h))"
    "LOCKED (granules s' h) = LOCKED (granules s h)"
    "unat (REFCOUNT (granules s' h)) = (if h = t then unat (REFCOUNT (granules s t)) + 1 else unat (REFCOUNT (granules s h)))" for h
    using refcount_add_fields [of "granules s t" 1] un(1) t by (auto simp: f(4) unat_word_ariths)
  have "idle s'"
  proof (rule idle_change [OF realm_invD(1) [OF inv] f(1,2)])
    fix h
    show "\<not> LOCKED (granules s' h)" using st(2) id(2) by simp
    show "length (words (mem s' h)) = 512" unfolding s'_def by (rule data_filled_length [OF ns id(6)])
    have "granule_inv (granules s' t)" using rtt_inv_iff [of "granules s' t"] st [of t] un(1) is_rttD(2) [OF n(4)] t(1) by simp
    moreover have "granule_inv (granules s' d)"
      using inv_zero_refcount [of "granules s' d"] refcount_zero [OF id(5) [of d]] D(2) st(1) [of d] f(4) [of d] by simp
    ultimately show "REFCOUNT (granules s' h) = REFCOUNT (granules s h) \<and> STATE (granules s' h) = STATE (granules s h) \<or>
      granule_inv (granules s' h)" using f(4) [of h] by auto
    assume "STATE (granules s' h) = GRANULE_STATE_DELEGATED"
    then have "h \<noteq> d" "STATE (granules s h) = GRANULE_STATE_DELEGATED" using st(1) [of h] by (auto split: if_splits)
    moreover from this(2) have "h \<noteq> t" "h \<noteq> g" using is_rttD(2) [OF n(4)] G(2) by auto
    ultimately show "STATE (granules s h) = GRANULE_STATE_DELEGATED \<and> mem s' h = mem s h \<or> mem s' h = zero_data"
      using f(6) by simp
  qed
  moreover have "same_realms s s'" using f(1,3) st(1) D(2) by (auto simp: same_realms_def is_realm_def)
  moreover have "is_rtt s' h \<and> words (mem s' h) = (if h = t then (words (mem s t))[?p mod 512 := ?e'] else words (mem s h)) \<and>
      (h \<noteq> t \<longrightarrow> REFCOUNT (granules s' h) = REFCOUNT (granules s h))" if h: "is_rtt s h" for h
  proof -
    have "h \<noteq> d" using is_rttD(2) [OF h] D(2) by auto
    then show ?thesis using h f(1) f(4,5) [of h] st(1) [of h] by (auto simp: is_rtt_def split: if_splits)
  qed
  ultimately have ew: "entry_written s s' g n ?p t ?e ?e'"
    unfolding entry_written_def using inv n(2,3) by blast
  have "maps_by s ?c n ?p ?e' P x \<longleftrightarrow> (P, x) = (?p, d)" for P x
    using k' pa pg n(1) D(1) by (auto simp: maps_by_def page_granule_def)
  moreover have "\<not> maps_by s ?c n ?p ?e P x" for P x using k n(1) by (auto simp: maps_by_def data_kinds_def)
  ultimately have maps: "maps s' g' P x \<longleftrightarrow> maps s g' P x \<or> (g', P, x) = (g, ?p, d)" for g' P x
    unfolding entry_written_maps [OF ew] by auto
  then show "maps s' g' P x \<longleftrightarrow> maps s g' P x \<or> (g', P, x) = (g, ?p, d)" .
  have nm: "\<not> maps s g' P d" for g' P using realm_invD(5) [OF inv, of g' P d] D(2) by auto
  show "realm_inv s'"
  proof (rule entry_written_inv [OF ew])
    have "page_granule s ?c n ?e' j \<noteq> None" if "j < pages ?c n" for j using that pg pa D(1) by (simp add: page_granule_def)
    moreover have "in_par ?c n ?p" using in_par_addr(1) [OF wf n(1)] a(2) addr_in_par_iff [of "d_rd (mem s g)" addr] wf
      by (simp only: realm_ctx_def)
    ultimately show "entry_ok s ?c n ?p ?e'"
      unfolding entry_ok_def using k' pa al' n(1) [symmetric] by (auto simp: data_kinds_def ns_kinds_def)
    have "\<not> counted ?e 3" "counted ?e' 3" using kinds_counted [OF k(1)] kinds_counted [OF k'(1)] k(2) k'(2) by (auto simp: data_kinds_def)
    then show "unat (REFCOUNT (granules s' t)) + of_bool (counted ?e (level ?c n)) =
      unat (REFCOUNT (granules s t)) + of_bool (counted ?e' (level ?c n))"
      unfolding n(1) [symmetric] using st(3) [of t] by simp
  next
    fix g' P x assume "maps s' g' P x"
    then show "STATE (granules s' x) = GRANULE_STATE_DATA" using maps realm_invD(5) [OF inv] st(1) by auto
  next
    fix g1 P1 g2 P2 x assume "maps s' g1 P1 x" "maps s' g2 P2 x"
    then show "g1 = g2 \<and> P1 = P2"
      using maps realm_invD(6) [OF inv, of g1 P1 x g2 P2] nm by (metis prod.inject)
  qed
qed

end
