(* ===== verification/Data_Destroy.thy ===== *)
theory Data_Destroy
  imports Data_Inv
begin

text \<open>
  RMI\_DATA\_DESTROY on states that satisfy the invariant of realm memory, for realms that share no memory: the command
  computes its specification, keeps the invariant, and gives the data granule back with its content cleared.
\<close>

section \<open>Destroying data\<close>

text \<open>The entry that replaces a destroyed page, and the state after the command.\<close>

definition destroyed_entry :: "u64 \<Rightarrow> u64" where
  "destroyed_entry e =
    (if s2tte_is_assigned_ram e S2TT_PAGE_LEVEL \<or> \<not> s2tte_is_assigned_empty e S2TT_PAGE_LEVEL
     then s2tte_create_unassigned_destroyed else s2tte_create_unassigned_empty)"

definition entry_cleared :: "s2tt_context \<Rightarrow> u64 \<Rightarrow> nat \<Rightarrow> nat \<Rightarrow> rmm \<Rightarrow> rmm" where
  "entry_cleared c addr t i s =
    (let e = words (mem s t) ! i; s1 = page_set t i (destroyed_entry e) s
     in if s2tte_is_assigned_ram e S2TT_PAGE_LEVEL then log_tlbi (tlbi_events c addr 1) s1 else s1)"

definition data_destroyed :: "s2tt_context \<Rightarrow> nat \<Rightarrow> u64 \<Rightarrow> nat \<Rightarrow> nat \<Rightarrow> rmm \<Rightarrow> rmm" where
  "data_destroyed c d addr t i s =
    upd_granule d (eor_state GRANULE_STATE_DELEGATED) (upd_mem d (\<lambda>_. zero_data)
      (upd_granule t (add_desc (- 1)) (entry_cleared c addr t i s)))"

lemma data_kind_cases:
  assumes "kinds e l = {k}"
  shows "s2tte_is_assigned_ram e l \<longleftrightarrow> k = Assigned_Ram" "s2tte_is_assigned_empty e l \<longleftrightarrow> k = Assigned_Empty"
    "s2tte_is_assigned_destroyed e l \<longleftrightarrow> k = Assigned_Destroyed" "s2tte_is_assigned_ns e l \<longleftrightarrow> k = Assigned_Ns"
    "s2tte_is_unassigned_empty e \<longleftrightarrow> k = Unassigned_Empty" "s2tte_is_unassigned_ram e \<longleftrightarrow> k = Unassigned_Ram"
    "s2tte_is_unassigned_destroyed e \<longleftrightarrow> k = Unassigned_Destroyed" "s2tte_is_unassigned_ns e \<longleftrightarrow> k = Unassigned_Ns"
    "s2tte_is_table e l \<longleftrightarrow> k = Table"
  using kinds_has [OF assms, of Assigned_Ram] kinds_has [OF assms, of Assigned_Empty] kinds_has [OF assms, of Assigned_Destroyed]
    kinds_has [OF assms, of Assigned_Ns] kinds_has [OF assms, of Unassigned_Empty] kinds_has [OF assms, of Unassigned_Ram]
    kinds_has [OF assms, of Unassigned_Destroyed] kinds_has [OF assms, of Unassigned_Ns] kinds_has [OF assms, of Table]
  by (auto simp: has_kind_def)

lemma destroy_entry_held:
  assumes k: "kinds (words (mem s t) ! unat idx) 3 = {k}" and wi: "llt_of wi = t" "wi_index wi = idx"
  shows "destroy_entry c wi addr (held L M s) =
    (if k \<in> data_kinds then Inr (Some (to_pa_value (words (mem s t) ! unat idx) 3 (enable_lpa2 c)), held L M (entry_cleared c addr t (unat idx) s))
     else Inr (None, held L M s))"
proof -
  let ?e = "words (mem s t) ! unat idx"
  have pa: "k \<in> data_kinds \<Longrightarrow> s2tte_pa c ?e 3 s' = Inr (to_pa_value ?e 3 (enable_lpa2 c), s')" for s' :: rmm
    by (rule s2tte_pa_run [OF _ _ k]) (auto simp: data_kinds_def)
  show ?thesis
    by (cases k) (simp_all add: destroy_entry_def run_simps held_simps data_kind_cases [OF k] pa data_kinds_def wi
        entry_cleared_def destroyed_entry_def page_set_def Let_def)
qed

lemma entry_cleared_fields [simp]:
  "arm_dram (entry_cleared c addr t i s) = arm_dram s" "granules (entry_cleared c addr t i s) = granules s"
  "slots (entry_cleared c addr t i s) = slots s"
  "mem (entry_cleared c addr t i s) h = (if h = t then (mem s t)\<lparr>words := (words (mem s t))[i := destroyed_entry (words (mem s t) ! i)]\<rparr>
     else mem s h)"
  by (simp_all add: entry_cleared_def page_set_def upd_mem_def Let_def log_tlbi_def)

text \<open>The part under the lock of the last table.\<close>

lemma data_destroy_llt_held:
  assumes idle: "idle s" and wi: "llt_of wi = t" "wi_index wi = idx" "last_level wi = l" and t: "is_rtt s t"
    and e: "l = 3 \<Longrightarrow> kinds (words (mem s t) ! unat idx) 3 = {k}"
    and d: "l = 3 \<Longrightarrow> k \<in> data_kinds \<Longrightarrow> granule_at (arm_dram s) (to_pa_value (words (mem s t) ! unat idx) 3 (enable_lpa2 c)) = Some d \<and>
      STATE (granules s d) = GRANULE_STATE_DATA \<and> REFCOUNT (granules s t) \<noteq> 0"
  shows "data_destroy_llt c wi addr res (held {t} (no_slots(SLOT_RTT := Some t)) s) =
    (if l = 3 \<and> k \<in> data_kinds
     then Inr (res(0 := RMI_SUCCESS, 1 := to_pa_value (words (mem s t) ! unat idx) 3 (enable_lpa2 c)),
       held {t} (no_slots(SLOT_RTT := Some t)) (data_destroyed c d addr t (unat idx) s))
     else Inr (res(0 := rtt_error l), held {t} (no_slots(SLOT_RTT := Some t)) s))"
proof (cases "l = 3 \<and> k \<in> data_kinds")
  case False
  then show ?thesis
    using destroy_entry_held [OF e wi(1,2)] by (auto simp: data_destroy_llt_def run_simps wi)
next
  case True
  note i = idleD [OF idle] and d = d [OF conjunct1 [OF True] conjunct2 [OF True]]
  let ?pa = "to_pa_value (words (mem s t) ! unat idx) 3 (enable_lpa2 c)" and ?M = "no_slots(SLOT_RTT := Some t)"
  let ?s1 = "upd_granule t (add_desc (- 1)) (entry_cleared c addr t (unat idx) s)"
  have ne: "d \<noteq> t" using is_rttD(2) [OF t] d by auto
  have s1: "granules ?s1 d = granules s d" "arm_dram ?s1 = arm_dram s" using ne by (simp_all add: upd_granule_def)
  have "granule_in ?s1 ?pa GRANULE_STATE_DATA = Some d" using d ne by (simp add: granule_in_def upd_granule_def)
  moreover have "lockable {t} ?s1 d" using ne i(2,5) [of d] s1 by (simp add: lockable_def)
  ultimately have fl: "find_lock_granule ?pa GRANULE_STATE_DATA (held {t} ?M ?s1) = Inr (Some d, held {d, t} ?M ?s1)"
    using find_lock_granule_held [of ?s1 ?pa "{t}" GRANULE_STATE_DATA ?M] i(3) d s1 by (simp add: upd_granule_def)
  have mz: "buffer_granule_memzero d SLOT_DELEGATED (held {d, t} ?M ?s1) = Inr ((), held {d, t} ?M (upd_mem d (\<lambda>_. zero_data) ?s1))"
    using i(3) s1(2) d by (intro memzero_held) auto
  have rc: "REFCOUNT (granules s d) = 0" using refcount_zero [OF i(5) [of d]] d by simp
  have "granule_unlocked_invariants (granules s d) GRANULE_STATE_DELEGATED"
    using inv_zero_refcount [of "eor_state GRANULE_STATE_DELEGATED (granules s d)"] rc
      granule_unlocked_invariants_cong [of "eor_state GRANULE_STATE_DELEGATED (granules s d)" "granules s d"] by simp
  moreover have "{d, t} - {d} = {t}" using ne by auto
  ultimately have ut: "granule_unlock_transition d GRANULE_STATE_DELEGATED (held {d, t} ?M (upd_mem d (\<lambda>_. zero_data) ?s1)) =
      Inr ((), held {t} ?M (data_destroyed c d addr t (unat idx) s))"
    using i(2) [of d] s1(1) by (simp add: held_simps data_destroyed_def upd_mem_def)
  have pt: "atomic_granule_put t (held {t} ?M (entry_cleared c addr t (unat idx) s)) = Inr ((), held {t} ?M ?s1)"
    using d by (simp add: held_simps)
  show ?thesis
    using True destroy_entry_held [OF e wi(1,2)] fl mz ut pt by (simp add: data_destroy_llt_def run_simps wi)
qed


text \<open>The page entry that a walk finds.\<close>

lemma page_of_walk:
  assumes inv: "realm_inv s" and g: "is_realm s g" and a: "addr < push_bit (unat (ipa_bits (realm_ctx s g))) 1"
    and w: "rtt_walk s (realm_ctx s g) addr 3 = (t, 3)"
  defines "e \<equiv> words (mem s t) ! (entry_no addr 3 mod 512)"
  obtains n k where "3 = level (realm_ctx s g) n" "n = depth (realm_ctx s g)" "in_tree s g n (entry_no addr 3 div 512) t"
    "kinds e 3 = {k}" "entry_ok s (realm_ctx s g) n (entry_no addr 3) e"
    "k \<in> data_kinds \<Longrightarrow> \<exists>d. granule_at (arm_dram s) (to_pa_value e 3 (enable_lpa2 (realm_ctx s g))) = Some d \<and>
      STATE (granules s d) = GRANULE_STATE_DATA \<and> REFCOUNT (granules s t) \<noteq> 0 \<and> maps s g (entry_no addr 3) d"
proof -
  let ?c = "realm_ctx s g" and ?p = "entry_no addr 3"
  have sl: "s2_starting_level ?c \<le> 3" using tree_okD(1) [OF realm_invD(2) [OF inv] g] by (simp add: wf_ctx_def)
  obtain n where n: "3 = level ?c n" "in_tree s g n (?p div 512) t" "\<not> n < depth ?c" "entry_ok s ?c n ?p e"
    using realm_walk [OF inv g a sl _ w] by (auto simp: e_def)
  have nd: "n = depth ?c" using n(3) in_treeD(2) [OF n(2)] by simp
  obtain k where k: "kinds e 3 = {k}" using n(4) by (auto simp: entry_ok_def n(1) [symmetric])
  have ent: "ent s g n ?p e" using entI [OF n(2), of "?p mod 512"] by (simp add: e_def)
  have "\<exists>d. granule_at (arm_dram s) (to_pa_value e 3 (enable_lpa2 ?c)) = Some d \<and>
      STATE (granules s d) = GRANULE_STATE_DATA \<and> REFCOUNT (granules s t) \<noteq> 0 \<and> maps s g ?p d" if kd: "k \<in> data_kinds"
  proof -
    have pg: "pages ?c n = 1" by (simp add: pages_def nd)
    obtain d where d: "page_granule s ?c n e 0 = Some d" using n(4) k kd pg by (auto simp: entry_ok_def n(1) [symmetric])
    have "maps_by s ?c n ?p e ?p d" using d k kd pg n(1) by (auto simp: maps_by_def)
    then have m: "maps s g ?p d" using ent by (auto simp: maps_def)
    have "counted (words (mem s t) ! (?p mod 512)) (level ?c n)"
      using kinds_counted [OF k] kd n(1) by (simp add: e_def)
    then have "refs s (level ?c n) t \<noteq> 0" using refs_0 [of s "level ?c n" t] by auto
    then have "REFCOUNT (granules s t) \<noteq> 0" using realm_invD(4) [OF inv n(2)] by auto
    moreover have "granule_at (arm_dram s) (to_pa_value e 3 (enable_lpa2 ?c)) = Some d"
      using d n(1) by (simp add: page_granule_def out_addr_def)
    ultimately show ?thesis using m realm_invD(5) [OF inv m] by blast
  qed
  with that n(1,2,4) nd k show ?thesis by blast
qed

text \<open>Propagation does nothing for a realm without an access permission table.\<close>

lemma csm_propagate_unshared:
  assumes idle: "idle s" and "\<And>g. granule_in s rd_addr GRANULE_STATE_RD = Some g \<Longrightarrow> apt_pa (d_rd (mem s g)) = 0"
  shows "csm_propagate act rd_addr addr s = Inr ((), s)"
proof (cases "granule_in s rd_addr GRANULE_STATE_RD")
  case None
  then show ?thesis using find_rd_none [OF idle None] idle_held [OF idle] by (simp add: csm_propagate_def run_simps)
next
  case (Some g)
  have "csm_propagate act rd_addr addr (held {} no_slots s) = Inr ((), s)"
    using rd_steps [OF idle Some] assms(2) [OF Some] by (simp add: csm_propagate_def run_simps held_simps)
  then show ?thesis using idle_held [OF idle] by simp
qed

section \<open>The effect of \<^verbatim>\<open>smc_data_destroy\<close>\<close>

definition data_destroy_spec :: "u64 \<Rightarrow> u64 \<Rightarrow> smc_result \<Rightarrow> rmm \<Rightarrow> smc_result \<times> rmm" where
  "data_destroy_spec rd_addr addr res s =
    (case granule_in s rd_addr GRANULE_STATE_RD of
       None \<Rightarrow> (res(0 := RMI_ERROR_INPUT, 2 := 0), s)
     | Some g \<Rightarrow>
         (let rd = d_rd (mem s g); c = realm_ctx s g; (t, l) = rtt_walk s c addr S2TT_PAGE_LEVEL;
              i = entry_no addr l mod 512; e = words (mem s t) ! i; wi = walk_info s c addr S2TT_PAGE_LEVEL
          in if \<not> (addr_in_par rd addr \<and> addr < realm_ipa_size rd \<and> addr_lvl_aligned (enable_lpa2 c) addr S2TT_PAGE_LEVEL)
             then (res(0 := RMI_ERROR_INPUT, 2 := 0), s)
             else if l = S2TT_PAGE_LEVEL \<and> (\<exists>k \<in> data_kinds. has_kind e l k)
             then (let pa = to_pa_value e l (enable_lpa2 c); d = the (granule_at (arm_dram s) pa);
                       s' = data_destroyed c d addr t i s
                   in (res(0 := RMI_SUCCESS, 1 := pa, 2 := skip_addr addr (words (mem s' t)) wi), s'))
             else (res(0 := rtt_error l, 2 := skip_addr addr (words (mem s t)) wi), s)))"

lemma data_destroyed_fields:
  assumes "t \<noteq> d" "REFCOUNT (granules s t) \<noteq> 0"
  shows "arm_dram (data_destroyed c d addr t i s) = arm_dram s" "slots (data_destroyed c d addr t i s) = slots s"
    "granules (data_destroyed c d addr t i s) h = (if h = d then eor_state GRANULE_STATE_DELEGATED (granules s d)
      else if h = t then add_desc (- 1) (granules s t) else granules s h)"
    "mem (data_destroyed c d addr t i s) h = (if h = d then zero_data
      else if h = t then (mem s t)\<lparr>words := (words (mem s t))[i := destroyed_entry (words (mem s t) ! i)]\<rparr> else mem s h)"
    "LOCKED (add_desc (- 1) (granules s t)) = LOCKED (granules s t)" "STATE (add_desc (- 1) (granules s t)) = STATE (granules s t)"
    "unat (REFCOUNT (add_desc (- 1) (granules s t))) + 1 = unat (REFCOUNT (granules s t))"
proof -
  have le: "1 \<le> REFCOUNT (granules s t)" using assms(2) by (simp add: word_le_nat_alt unat_gt_0 Suc_leI)
  have u: "unat (REFCOUNT (granules s t)) \<noteq> 0" using assms(2) by (simp add: unat_eq_0)
  show "LOCKED (add_desc (- 1) (granules s t)) = LOCKED (granules s t)" "STATE (add_desc (- 1) (granules s t)) = STATE (granules s t)"
    using refcount_sub_fields [OF le] by simp_all
  have "REFCOUNT (add_desc (- 1) (granules s t)) = REFCOUNT (granules s t) - 1" using refcount_sub_fields [OF le] by simp
  then show "unat (REFCOUNT (add_desc (- 1) (granules s t))) + 1 = unat (REFCOUNT (granules s t))"
    using unat_sub [OF le] u by simp
qed (use assms(1) in \<open>auto simp: data_destroyed_def upd_granule_def upd_mem_def\<close>)

lemma data_destroyed_inv:
  assumes inv: "realm_inv s" and g: "is_realm s g" and a: "addr < push_bit (unat (ipa_bits (realm_ctx s g))) 1"
    "addr_in_par (d_rd (mem s g)) addr"
    and w: "rtt_walk s (realm_ctx s g) addr 3 = (t, 3)" and k: "\<exists>k \<in> data_kinds. has_kind (words (mem s t) ! (entry_no addr 3 mod 512)) 3 k"
    and d: "granule_at (arm_dram s) (to_pa_value (words (mem s t) ! (entry_no addr 3 mod 512)) 3 (enable_lpa2 (realm_ctx s g))) = Some d"
  defines "s' \<equiv> data_destroyed (realm_ctx s g) d addr t (entry_no addr 3 mod 512) s"
  shows "realm_inv s'" "maps s' h P x \<longleftrightarrow> maps s h P x \<and> x \<noteq> d" "maps s g (entry_no addr 3) d"
    "STATE (granules s d) = GRANULE_STATE_DATA" "REFCOUNT (granules s t) \<noteq> 0" "t \<noteq> d"
proof -
  let ?c = "realm_ctx s g" and ?p = "entry_no addr 3" and ?e = "words (mem s t) ! (entry_no addr 3 mod 512)"
  let ?e' = "destroyed_entry ?e"
  note id = idleD [OF realm_invD(1) [OF inv]]
  have wf: "wf_ctx ?c" using tree_okD(1) [OF realm_invD(2) [OF inv] g] .
  obtain n k where n: "3 = level ?c n" "n = depth ?c" "in_tree s g n (?p div 512) t" "kinds ?e 3 = {k}"
    "entry_ok s ?c n ?p ?e" "k \<in> data_kinds"
    and d': "STATE (granules s d) = GRANULE_STATE_DATA" "REFCOUNT (granules s t) \<noteq> 0" "maps s g ?p d"
    using page_of_walk [OF inv g a(1) w] k d kinds_has by (smt (verit, best) option.inject)
  show "STATE (granules s d) = GRANULE_STATE_DATA" "REFCOUNT (granules s t) \<noteq> 0" "maps s g ?p d" using d' by blast+
  have rtt: "is_rtt s t" using tree_okD(2) [OF realm_invD(2) [OF inv] n(3)] .
  show t: "t \<noteq> d" using is_rttD(2) [OF rtt] d'(1) by auto
  note f = data_destroyed_fields(1-4) [OF t d'(2), where c = ?c and addr = addr and i = "?p mod 512", folded s'_def]
    and fr = data_destroyed_fields(5-7) [OF t d'(2)]
  have gd: "d \<noteq> g" "t \<noteq> g" using g d'(1) is_rttD(2) [OF rtt] by (auto simp: is_realm_def)
  define k' where "k' = (if ?e' = s2tte_create_unassigned_destroyed then Unassigned_Destroyed else Unassigned_Empty)"
  have k': "kinds ?e' l = {k'}" "k' \<in> {Unassigned_Empty, Unassigned_Destroyed}" for l
    using created_unassigned_kinds by (auto simp: destroyed_entry_def k'_def)
  have st: "STATE (granules s' h) = (if h = d then GRANULE_STATE_DELEGATED else STATE (granules s h))"
    "LOCKED (granules s' h) = LOCKED (granules s h)" for h
    using f(3) [of h] fr t by auto
  have "idle s'"
  proof (rule idle_change [OF realm_invD(1) [OF inv] f(1,2)])
    fix h
    show "\<not> LOCKED (granules s' h)" using st(2) id(2) by simp
    show "length (words (mem s' h)) = 512" using f(4) [of h] id(6) by (simp add: zero_data_def)
    have "granule_inv (granules s' t)"
      using rtt_inv_iff [of "granules s' t"] rtt_inv_iff [of "granules s t"] id(5) [of t] st(1) [of t] is_rttD(2) [OF rtt] t f(3) [of t] fr(3)
      by simp
    moreover have "granule_inv (granules s' d)"
      using inv_zero_refcount [of "granules s' d"] refcount_zero [OF id(5) [of d]] d'(1) st(1) [of d] f(3) [of d] by simp
    ultimately show "REFCOUNT (granules s' h) = REFCOUNT (granules s h) \<and> STATE (granules s' h) = STATE (granules s h) \<or>
      granule_inv (granules s' h)" using f(3) [of h] by auto
    assume "STATE (granules s' h) = GRANULE_STATE_DELEGATED"
    then show "STATE (granules s h) = GRANULE_STATE_DELEGATED \<and> mem s' h = mem s h \<or> mem s' h = zero_data"
      using st(1) [of h] f(4) [of h] is_rttD(2) [OF rtt] by (auto split: if_splits)
  qed
  moreover have "same_realms s s'" using f(1,4) st(1) d'(1) is_rttD(2) [OF rtt] by (auto simp: same_realms_def is_realm_def realm_ctx_def)
  moreover have "is_rtt s' h \<and> words (mem s' h) = (if h = t then (words (mem s t))[?p mod 512 := ?e'] else words (mem s h)) \<and>
      (h \<noteq> t \<longrightarrow> REFCOUNT (granules s' h) = REFCOUNT (granules s h))" if h: "is_rtt s h" for h
  proof -
    have "h \<noteq> d" using is_rttD(2) [OF h] d'(1) by auto
    then show ?thesis using h f(1) f(3,4) [of h] st(1) [of h] by (auto simp: is_rtt_def split: if_splits)
  qed
  ultimately have ew: "entry_written s s' g n ?p t ?e ?e'"
    unfolding entry_written_def using inv n(2,3) by blast
  have "\<not> maps_by s ?c n ?p ?e' P x" for P x using k' by (auto simp: maps_by_def data_kinds_def)
  moreover have "maps_by s ?c n ?p ?e P x \<longleftrightarrow> (P, x) = (?p, d)" for P x
    using n d by (auto simp: maps_by_def page_granule_def pages_def out_addr_def)
  ultimately have maps: "maps s' h P x \<longleftrightarrow> maps s h P x \<and> x \<noteq> d" for h P x
    unfolding entry_written_maps [OF ew] using realm_invD(6) [OF inv d'(3), of h P] by auto
  then show "maps s' h P x \<longleftrightarrow> maps s h P x \<and> x \<noteq> d" .
  show "realm_inv s'"
  proof (rule entry_written_inv [OF ew])
    have "in_par ?c n ?p" using in_par_addr(1) [OF wf n(1)] a(2) addr_in_par_iff [of "d_rd (mem s g)" addr] wf
      by (simp only: realm_ctx_def)
    then show "entry_ok s ?c n ?p ?e'"
      unfolding entry_ok_def using k'(1) [of "level ?c n"] k'(2) by (auto simp: data_kinds_def ns_kinds_def)
    have "counted ?e 3" "\<not> counted ?e' 3" using kinds_counted [OF n(4)] kinds_counted [OF k'(1) [of 3]] n(6) k'(2) by (auto simp: data_kinds_def)
    then show "unat (REFCOUNT (granules s' t)) + of_bool (counted ?e (level ?c n)) =
      unat (REFCOUNT (granules s t)) + of_bool (counted ?e' (level ?c n))"
      unfolding n(1) [symmetric] using f(3) [of t] fr(3) t by simp
  next
    fix h P x assume "maps s' h P x"
    then show "STATE (granules s' x) = GRANULE_STATE_DATA" using maps realm_invD(5) [OF inv] st(1) by auto
  next
    fix g1 P1 g2 P2 x assume "maps s' g1 P1 x" "maps s' g2 P2 x"
    then show "g1 = g2 \<and> P1 = P2" using maps realm_invD(6) [OF inv, of g1 P1 x g2 P2] by blast
  qed
qed


lemma smc_data_destroy_run:
  assumes inv: "realm_inv s" and apt: "\<And>g. granule_in s rd_addr GRANULE_STATE_RD = Some g \<Longrightarrow> apt_pa (d_rd (mem s g)) = 0"
  shows "smc_data_destroy rd_addr addr res s = Inr (data_destroy_spec rd_addr addr res s)"
proof (cases "granule_in s rd_addr GRANULE_STATE_RD")
  case None
  note idle = realm_invD(1) [OF inv]
  show ?thesis
    using find_rd_none [OF idle None] idle_held [OF idle] None by (simp add: smc_data_destroy_def run_simps data_destroy_spec_def)
next
  case (Some g)
  note idle = realm_invD(1) [OF inv] note id = idleD [OF idle] and G = granule_inD [OF Some] and rs = rd_steps [OF idle Some]
  let ?rd = "d_rd (mem s g)" and ?c = "realm_ctx s g"
  have c: "rd_s2_ctx ?rd = ?c" by (simp add: realm_ctx_def)
  have realm: "is_realm s g" using is_realm_in [OF Some] .
  have sl: "s2_starting_level ?c \<le> 3" and ms: "min_starting_level ?c \<le> s2_starting_level ?c"
    using tree_okD(1) [OF realm_invD(2) [OF inv] realm] by (simp_all add: wf_ctx_def)
  obtain t l where w: "rtt_walk s ?c addr 3 = (t, l)" by (cases "rtt_walk s ?c addr 3")
  let ?ok = "addr_in_par ?rd addr \<and> addr < realm_ipa_size ?rd \<and> addr_lvl_aligned (enable_lpa2 ?c) addr 3"
  have val: "(if addr_in_par ?rd addr then validate_map_addr addr 3 ?rd else returnM False) s1 = Inr (?ok, s1)" for s1 :: rmm
    by (simp add: run_simps c)
  have "smc_data_destroy rd_addr addr res (held {} no_slots s) = Inr (data_destroy_spec rd_addr addr res s)"
  proof (cases ?ok)
    case False
    then show ?thesis using Some w
      by (cases "addr_in_par ?rd addr") (simp_all add: smc_data_destroy_def run_simps rs held_simps c data_destroy_spec_def)
  next
    case True
    then have a: "addr < push_bit (unat (ipa_bits ?c)) 1" using realm_ipa_size_ctx [OF realm] by simp
    let ?i = "entry_no addr l mod 512" and ?wi = "walk_info s ?c addr 3"
    let ?e = "words (mem s t) ! ?i" and ?M = "no_slots(SLOT_RTT := Some t)"
    obtain n where n: "l = level ?c n" "l \<le> 3" "is_rtt s t" "unat (s2_addr_to_idx addr l) = ?i"
      using realm_walk [OF inv realm a sl _ w] by auto
    note ws = walk_steps [OF inv realm a sl _ w]
    have lv: "min_starting_level ?c \<le> l" using ms n(1) by (simp add: level_def)
    have skip: "s2tt_skip_non_live_entries ?c addr tab ?wi s1 = Inr (skip_addr addr tab ?wi, s1)" for tab and s1 :: rmm
      by (rule skip_run) (use w lv n(2,4) in simp_all)
    have hk: "l = 3 \<Longrightarrow> \<exists>k. kinds ?e 3 = {k}" using page_of_walk [OF inv realm a, of t] w by auto
    define ok where "ok \<longleftrightarrow> l = 3 \<and> (\<exists>k \<in> data_kinds. has_kind ?e l k)"
    define d where "d = the (granule_at (arm_dram s) (to_pa_value ?e l (enable_lpa2 ?c)))"
    define s' where "s' = (if ok then data_destroyed ?c d addr t ?i s else s)"
    define res1 where "res1 = (if ok then res(0 := RMI_SUCCESS, 1 := to_pa_value ?e l (enable_lpa2 ?c)) else res(0 := rtt_error l))"
    have spec: "data_destroy_spec rd_addr addr res s = (res1(2 := skip_addr addr (words (mem s' t)) ?wi), s')"
      using Some True w by (auto simp: data_destroy_spec_def Let_def ok_def d_def s'_def res1_def)
    obtain k where k: "l = 3 \<Longrightarrow> kinds ?e 3 = {k}" "ok \<longleftrightarrow> l = 3 \<and> k \<in> data_kinds"
      "ok \<Longrightarrow> granule_at (arm_dram s) (to_pa_value ?e 3 (enable_lpa2 ?c)) = Some d \<and>
        STATE (granules s d) = GRANULE_STATE_DATA \<and> REFCOUNT (granules s t) \<noteq> 0"
    proof (cases "l = 3")
      case True
      obtain k where k: "kinds ?e 3 = {k}" "k \<in> data_kinds \<Longrightarrow> \<exists>d. granule_at (arm_dram s) (to_pa_value ?e 3 (enable_lpa2 ?c)) = Some d \<and>
        STATE (granules s d) = GRANULE_STATE_DATA \<and> REFCOUNT (granules s t) \<noteq> 0"
        using page_of_walk [OF inv realm a, of t] w True by (metis (no_types))
      have "ok \<longleftrightarrow> k \<in> data_kinds" using kinds_has [OF k(1)] True by (auto simp: ok_def)
      moreover have "granule_at (arm_dram s) (to_pa_value ?e 3 (enable_lpa2 ?c)) = Some d \<and>
        STATE (granules s d) = GRANULE_STATE_DATA \<and> REFCOUNT (granules s t) \<noteq> 0" if kd: "k \<in> data_kinds"
        using k(2) [OF kd] True by (auto simp: d_def)
      ultimately show ?thesis using that k(1) True by blast
    qed (use that ok_def in blast)
    have llt: "data_destroy_llt ?c ?wi addr res (held {t} ?M s) = Inr (res1, held {t} ?M s')"
    proof -
      have "data_destroy_llt ?c ?wi addr res (held {t} ?M s) =
        (if l = 3 \<and> k \<in> data_kinds
         then Inr (res(0 := RMI_SUCCESS, 1 := to_pa_value (words (mem s t) ! unat (s2_addr_to_idx addr l)) 3 (enable_lpa2 ?c)),
           held {t} ?M (data_destroyed ?c d addr t (unat (s2_addr_to_idx addr l)) s))
         else Inr (res(0 := rtt_error l), held {t} ?M s))"
        by (rule data_destroy_llt_held [OF idle _ _ _ n(3)]) (use w k n(4) in simp_all)
      then show ?thesis unfolding n(4) res1_def s'_def k(2) by auto
    qed
    have wr: "d_rd (mem s' h) = d_rd (mem s h) \<and> STATE (granules s' h) = STATE (granules s h)" if "STATE (granules s' h) = GRANULE_STATE_RD" for h
    proof (cases ok)
      case ok: True
      have td: "t \<noteq> d" and rc: "REFCOUNT (granules s t) \<noteq> 0" using k(3) [OF ok] is_rttD(2) [OF n(3)] by auto
      show ?thesis using that data_destroyed_fields(3,4) [OF td rc, of ?c addr ?i h] data_destroyed_fields(6) [OF td rc]
        by (auto simp: s'_def ok split: if_splits)
    qed (simp add: s'_def)
    have "realm_inv s' \<and> arm_dram s' = arm_dram s"
    proof (cases ok)
      case ok: True
      then have l: "l = 3" "rtt_walk s ?c addr 3 = (t, 3)" "\<exists>k \<in> data_kinds. has_kind (words (mem s t) ! (entry_no addr 3 mod 512)) 3 k"
        "granule_at (arm_dram s) (to_pa_value (words (mem s t) ! (entry_no addr 3 mod 512)) 3 (enable_lpa2 ?c)) = Some d"
        using w k(3) [OF ok] unfolding ok_def by auto
      note dd = data_destroyed_inv [OF inv realm a conjunct1 [OF True] l(2-4)]
      show ?thesis using dd(1) data_destroyed_fields(1) [OF dd(6,5)] ok l(1) by (simp add: s'_def)
    qed (simp add: s'_def inv)
    then have inv': "realm_inv s'" and dram: "arm_dram s' = arm_dram s" by blast+
    have ctx': "apt_pa (d_rd (mem s' h)) = 0" if "granule_in s' rd_addr GRANULE_STATE_RD = Some h" for h
    proof -
      note G' = granule_inD [OF that]
      have "granule_in s rd_addr GRANULE_STATE_RD = Some h" using G' wr [OF G'(2)] dram by (simp add: granule_in_def)
      then show ?thesis using apt wr [OF G'(2)] by simp
    qed
    have "csm_propagate_destroy rd_addr addr s' = Inr ((), s')"
      unfolding csm_propagate_destroy_def by (rule csm_propagate_unshared [OF realm_invD(1) [OF inv'] ctx'])
    moreover have "granule_unlock t (held {t} no_slots s') = Inr ((), s')"
      using ws(6) idleD [OF realm_invD(1) [OF inv']] by simp
    ultimately show ?thesis unfolding spec using Some True w
      by (simp add: smc_data_destroy_def run_simps rs held_simps c val ws llt skip Let_def)
  qed
  then show ?thesis using idle_held [OF idle] by simp
qed

end
