(* ===== verification/Realm_Demo.thy ===== *)
theory Realm_Demo
  imports Handler_Lib
begin

text \<open>
  The example realm of \<^verbatim>\<open>Rtt_Walk\<close>, with its chain of three tables and one page of data, satisfies the invariant of
  the memory of realms.
\<close>

lemma fvp_layout_52: "granule_at fvp_layout a = Some g \<Longrightarrow> unat a < 2 ^ 52"
proof (rule ccontr)
  assume g: "granule_at fvp_layout a = Some g" and a: "\<not> unat a < 2 ^ 52"
  have "\<not> in_bank fvp_layout j a" for j
  proof
    assume "in_bank fvp_layout j a"
    then have "j = 0 \<or> j = 1" "unat a < bank_end (banks fvp_layout ! j)" by (auto simp: in_bank_def fvp_layout_def)
    then have "unat a < 0x900000000" by (auto simp: fvp_layout_def bank_end_def)
    with a show False by simp
  qed
  from wf_addr_to_idx_none [OF wf_fvp_layout this] have "granule_at fvp_layout a = None"
    by (simp add: granule_at_def RMM_MAX_GRANULES_def UINT64_MAX_def)
  with g show False by simp
qed

lemma demo_is_realm: "is_realm demo_realm g \<longleftrightarrow> g = 2"
  using demo_granule_addr by (auto simp: is_realm_def demo_desc_fields granule_states split: if_splits)

lemma demo_ctx: "realm_ctx demo_realm 2 = demo_s2_ctx" "depth demo_s2_ctx = 2" "level demo_s2_ctx n = 1 + int n"
  "enable_lpa2 demo_s2_ctx = False" "wf_ctx demo_s2_ctx"
  by (simp_all add: realm_ctx_def demo_rd_def demo_s2_ctx_def depth_def level_def wf_ctx_def min_starting_level_def oa_bits_def lvl_lsb_def)

lemma demo_nth: "i < 512 \<Longrightarrow> demo_words g ! i =
    (if g = 4 \<and> i = 0 then 0x80005003 else if g = 4 \<and> (i = 2 \<or> i = 3) then s2tte_create_unassigned_ns
     else if g = 5 \<and> i = 0 then 0x80006003 else if g = 6 \<and> i = 1 then 0x80007000 OR S2TTE_PAGE else 0)"
  by (auto simp: demo_words_def nth_list_update)

lemma demo_kinds:
  "kinds 0x80005003 1 = {Table}" "kinds 0x80006003 2 = {Table}" "kinds 0 l = {Unassigned_Empty}"
  "kinds (0x80007000 OR S2TTE_PAGE) 3 = {Assigned_Ram}" "to_pa_value (0x80007000 OR S2TTE_PAGE) 3 False = 0x80007000"
  "\<not> entry_is_table 0" "\<not> entry_is_table s2tte_create_unassigned_ns"
proof -
  have z: "0 = s2tte_create_unassigned_empty"
    by (simp add: s2tte_create_unassigned_empty_def S2TTE_INVALID_HIPAS_UNASSIGNED_def S2TTE_INVALID_RIPAS_EMPTY_def INPLACE_def
        RMI_UNASSIGNED_def RMI_EMPTY_def)
  show "kinds 0 l = {Unassigned_Empty}" unfolding z by (rule created_unassigned_kinds(1))
  show "kinds 0x80005003 1 = {Table}" "kinds 0x80006003 2 = {Table}" by (rule kinds_table; simp)+
  have p: "0x80007000 OR S2TTE_PAGE = (0x800077DB :: u64)"
    by (simp add: S2TTE_PAGE_def S2TTE_ATTRS_def S2TTE_ATTRS_LPA2_def S2TTE_MEMATTR_FWB_NORMAL_WB_def S2TTE_AP_RW_def S2TTE_AF_def
        S2TTE_SH_IS_def S2TTE_L3_PAGE_def)
  show "kinds (0x80007000 OR S2TTE_PAGE) 3 = {Assigned_Ram}" unfolding p using kinds_valid [of "0x800077DB" 3] by simp
  show "to_pa_value (0x80007000 OR S2TTE_PAGE) 3 False = 0x80007000" unfolding p
    by (simp add: to_pa_value_def lvl_mask_def BIT_MASK_ULL_def mask_eq_decr_exp)
  show "\<not> entry_is_table 0" "\<not> entry_is_table s2tte_create_unassigned_ns"
    by (simp_all add: entry_is_table_def desc_type_iff s2tte_create_unassigned_ns_def s2tte_bits)
qed


lemma demo_next:
  "i < 512 \<Longrightarrow> next_table demo_realm demo_s2_ctx 4 i = (if i = 0 then Some 5 else None)"
  "i < 512 \<Longrightarrow> next_table demo_realm demo_s2_ctx 5 i = (if i = 0 then Some 6 else None)"
  by (simp_all add: next_table_def demo_nth Let_def demo_entries demo_kinds demo_ctx demo_granule_addr)

lemma demo_tables:
  "table_at demo_realm demo_s2_ctx 0 b = (if b = 0 then Some 4 else None)"
  "table_at demo_realm demo_s2_ctx (Suc 0) b = (if b = 0 then Some 5 else None)"
  "table_at demo_realm demo_s2_ctx (Suc (Suc 0)) b = (if b = 0 then Some 6 else None)"
proof -
  show 0: "table_at demo_realm demo_s2_ctx 0 b = (if b = 0 then Some 4 else None)" for b
    by (simp add: demo_s2_ctx_def)
  have step: "(case if b div 512 = 0 then Some t else None of None \<Rightarrow> None
      | Some t \<Rightarrow> next_table demo_realm demo_s2_ctx t (b mod 512)) = (if b = 0 then Some u else None)"
    if "\<And>i. i < 512 \<Longrightarrow> next_table demo_realm demo_s2_ctx t i = (if i = 0 then Some u else None)" for b t u
    using that [of "b mod 512"] by (cases "b < 512") auto
  show 1: "table_at demo_realm demo_s2_ctx (Suc 0) b = (if b = 0 then Some 5 else None)" for b
    unfolding table_at.simps(2) [of _ _ 0] 0 by (rule step) (rule demo_next(1))
  show "table_at demo_realm demo_s2_ctx (Suc (Suc 0)) b = (if b = 0 then Some 6 else None)"
    unfolding table_at.simps(2) [of _ _ "Suc 0"] 1 by (rule step) (rule demo_next(2))
qed

lemma demo_in_tree: "in_tree demo_realm g n b t \<longleftrightarrow> g = 2 \<and> n \<le> 2 \<and> b = 0 \<and> t = 4 + n"
proof -
  have "n \<le> 2 \<longleftrightarrow> n = 0 \<or> n = Suc 0 \<or> n = Suc (Suc 0)" by auto
  then show ?thesis
    by (auto simp: in_tree_def demo_is_realm demo_ctx demo_tables simp del: table_at.simps split: if_splits)
qed

lemma demo_tree_ok: "tree_ok demo_realm"
  unfolding tree_ok_def demo_in_tree
proof (intro conjI allI impI; (elim conjE)?; hypsubst?)
  fix n i :: nat
  assume n: "n \<le> 2" "n < depth (realm_ctx demo_realm 2)" "i < 512" "entry_is_table (words (mem demo_realm (4 + n)) ! i)"
  then have "n = 0 \<or> n = 1" by (auto simp: demo_ctx)
  then show "next_table demo_realm (realm_ctx demo_realm 2) (4 + n) i \<noteq> None"
    using n by (auto simp: demo_ctx demo_next demo_nth demo_kinds split: if_splits)
next
  fix n :: nat
  assume "n \<le> 2"
  then have "n = 0 \<or> n = 1 \<or> n = 2" by auto
  then show "is_rtt demo_realm (4 + n)" using demo_realm_rtt by auto
qed (auto simp: demo_is_realm demo_ctx)

lemma demo_ent: "ent demo_realm g n p e \<longleftrightarrow> g = 2 \<and> n \<le> 2 \<and> p < 512 \<and> e = demo_words (4 + n) ! p"
  by (auto simp: ent_def demo_in_tree)

text \<open>The kinds of the entries of the example realm.\<close>

definition demo_kind :: "nat \<Rightarrow> nat \<Rightarrow> s2tte_kind" where
  "demo_kind n p = (if n = 2 then if p = 1 then Assigned_Ram else Unassigned_Empty
     else if p = 0 then Table else if n = 0 \<and> (p = 2 \<or> p = 3) then Unassigned_Ns else Unassigned_Empty)"

lemma demo_ent_kind:
  assumes "n \<le> 2" "p < 512"
  shows "kinds (demo_words (4 + n) ! p) (1 + int n) = {demo_kind n p}"
proof -
  have "n = 0 \<or> n = 1 \<or> n = 2" using assms(1) by auto
  then show ?thesis using assms(2)
    by (auto simp: demo_nth demo_kind_def demo_kinds created_unassigned_kinds)
qed

lemma demo_refs: "n \<le> 2 \<Longrightarrow> refs demo_realm (1 + int n) (4 + n) = 1"
proof -
  assume n: "n \<le> 2"
  have counted: "i < 512 \<Longrightarrow> counted (words (mem demo_realm (4 + n)) ! i) (1 + int n) \<longleftrightarrow> demo_kind n i \<in> insert Table data_kinds" for i
    unfolding demo_realm_fields by (rule kinds_counted [OF demo_ent_kind [OF n]])
  have "{i. i < 512 \<and> counted (words (mem demo_realm (4 + n)) ! i) (1 + int n)} = {if n = 2 then 1 else 0}"
    unfolding set_eq_iff mem_Collect_eq
  proof (intro allI)
    show "i < 512 \<and> counted (words (mem demo_realm (4 + n)) ! i) (1 + int n) \<longleftrightarrow> i \<in> {if n = 2 then 1 else 0}" for i
      using counted [of i] by (cases "i < 512") (auto simp: demo_kind_def data_kinds_def)
  qed
  then show ?thesis by (simp add: refs_def)
qed

lemma demo_page:
  "pages demo_s2_ctx 2 = 1" "page_granule demo_realm demo_s2_ctx 2 (demo_words 6 ! 1) 0 = Some 7"
  by (simp_all add: pages_def page_granule_def out_addr_def demo_ctx demo_nth demo_kinds demo_granule_addr)

lemma demo_maps: "maps demo_realm g P d \<longleftrightarrow> g = 2 \<and> P = 1 \<and> d = 7"
proof -
  have data: "demo_kind n p \<in> data_kinds \<longleftrightarrow> n = 2 \<and> p = 1" for n p
    by (auto simp: demo_kind_def data_kinds_def)
  have hit: "maps_by demo_realm demo_s2_ctx n p (demo_words (4 + n) ! p) P d \<longleftrightarrow> n = 2 \<and> p = 1 \<and> P = 1 \<and> d = 7"
    if "n \<le> 2" "p < 512" for n p
    unfolding maps_by_def demo_ctx demo_ent_kind [OF that] using data [of n p] demo_page
    by (auto simp del: One_nat_def)
  have "\<exists>n p e. (n \<le> 2 \<and> p < 512 \<and> e = demo_words (4 + n) ! p) \<and> maps_by demo_realm demo_s2_ctx n p e 1 7"
    if "P = 1" "d = 7" using hit [of 2 1] that by (intro exI [of _ "2 :: nat"] exI [of _ "1 :: nat"]) simp
  then show ?thesis unfolding maps_def demo_ent using hit by (fastforce simp: demo_ctx)
qed

lemma demo_entry_ok:
  assumes "n \<le> 2" "p < 512"
  shows "entry_ok demo_realm demo_s2_ctx n p (demo_words (4 + n) ! p)"
proof -
  have data: "demo_kind n p \<in> data_kinds \<longleftrightarrow> n = 2 \<and> p = 1" "demo_kind n p \<in> ns_kinds \<longleftrightarrow> n = 0 \<and> (p = 2 \<or> p = 3)"
    "demo_kind n p = Table \<longleftrightarrow> n \<noteq> 2 \<and> p = 0" "demo_kind n p \<noteq> Assigned_Ns"
    by (auto simp: demo_kind_def data_kinds_def ns_kinds_def)
  have al: "addr_lvl_aligned False (out_addr demo_s2_ctx 2 (demo_words 6 ! 1)) 3"
    by (simp add: out_addr_def demo_ctx demo_nth demo_kinds addr_lvl_aligned_def lvl_mask_def BIT_MASK_ULL_def mask_eq_decr_exp)
  have n: "n = 0 \<or> n = 1 \<or> n = 2" using assms(1) by auto
  have ns: "in_ipa demo_s2_ctx n p \<Longrightarrow> demo_kind n p \<noteq> Table \<Longrightarrow> demo_kind n p \<in> ns_kinds \<longleftrightarrow> \<not> in_par demo_s2_ctx n p"
    using n assms(2) unfolding data in_ipa_def in_par_def demo_ctx by (auto simp: lvl_lsb_def demo_s2_ctx_def)
  show ?thesis
    unfolding entry_ok_def demo_ctx
    by (intro exI [of _ "demo_kind n p"])
      (use demo_ent_kind [OF assms] data(1,4) ns al demo_page in \<open>auto simp del: One_nat_def\<close>)
qed

lemma demo_realm_inv: "realm_inv demo_realm"
  unfolding realm_inv_def
proof (intro conjI allI impI)
  show "entry_ok demo_realm (realm_ctx demo_realm g) n p e" if "ent demo_realm g n p e" for g n p e
    using that demo_entry_ok by (auto simp: demo_ent demo_ctx)
  show "unat (REFCOUNT (granules demo_realm t)) = refs demo_realm (level (realm_ctx demo_realm g) n) t"
    if "in_tree demo_realm g n b t" for g n b t
    using that demo_refs [of n] by (auto simp: demo_in_tree demo_ctx demo_desc_fields)
qed (use demo_realm_idle demo_tree_ok fvp_layout_52 in \<open>auto simp: demo_maps demo_desc_fields granule_states\<close>)

end
