(* ===== verification/Data_Correct.thy ===== *)
theory Data_Correct
  imports Data_Destroy Realm_Demo
begin

text \<open>The commands that create and destroy data granules keep the isolation of realms.\<close>

lemma rtt_error_not_success [simp]: "rtt_error l \<noteq> RMI_SUCCESS"
proof -
  have "bit (rtt_error l) 2" by (simp add: rtt_error_def pack_return_code_def RMI_ERROR_RTT_def bit_simps)
  moreover have "\<not> bit RMI_SUCCESS 2" by (simp add: RMI_SUCCESS_def)
  ultimately show ?thesis by metis
qed

lemma error_not_success [simp]: "RMI_ERROR_INPUT \<noteq> RMI_SUCCESS" "RMI_ERROR_REALM \<noteq> RMI_SUCCESS"
  by (simp_all add: RMI_ERROR_INPUT_def RMI_ERROR_REALM_def RMI_SUCCESS_def)

text \<open>What the command to create data requires of its arguments.\<close>

definition data_creatable :: "(nat \<Rightarrow> u64 list \<times> bool) \<Rightarrow> rmm \<Rightarrow> nat \<Rightarrow> u64 \<Rightarrow> u64 \<Rightarrow> nat option \<Rightarrow> bool" where
  "data_creatable ns_read s g data_addr addr g_src \<longleftrightarrow>
    (let rd = d_rd (mem s g); c = realm_ctx s g; (t, l) = rtt_walk s c addr S2TT_PAGE_LEVEL
     in (g_src = None \<or> rd_state rd = REALM_NEW) \<and> addr_in_par rd addr \<and> addr < realm_ipa_size rd \<and>
        addr_lvl_aligned (enable_lpa2 c) addr S2TT_PAGE_LEVEL \<and>
        (enable_lpa2 c \<or> data_addr < push_bit S2TT_MAX_PA_BITS 1) \<and> l = S2TT_PAGE_LEVEL \<and>
        s2tte_is_unassigned (words (mem s t) ! (entry_no addr S2TT_PAGE_LEVEL mod 512)) \<and> src_ok ns_read g_src)"


lemma demo_walk_2: "rtt_walk demo_realm demo_s2_ctx 0x2000 3 = (6, 3)"
proof -
  have n: "nat (3 - 1) = Suc (Suc 0)" by simp
  have f: "s2_starting_level demo_s2_ctx = 1" "enable_lpa2 demo_s2_ctx = False" by (simp_all add: demo_s2_ctx_def)
  have e: "table_entry demo_realm 4 0x2000 1 = 0x80005003" "table_entry demo_realm 5 0x2000 2 = 0x80006003"
    "start_table demo_s2_ctx 0x2000 = 4"
    by (simp_all add: table_entry_def demo_words_def s2_addr_to_idx_def lvl_lsb_def start_table_def demo_s2_ctx_def
        s2_sl_addr_to_idx_def)
  show ?thesis unfolding rtt_walk_def f n follow_tables.simps
    by (simp add: demo_entries e f demo_granule_addr)
qed

lemma demo_rd_fields: "realm_ipa_size demo_rd = 0x100000000" "apt_pa demo_rd = 0" "rd_state demo_rd = REALM_NEW"
  "a < 0x80000000 \<Longrightarrow> addr_in_par demo_rd a"
  by (simp_all add: realm_ipa_size_def realm_ipa_bits_def demo_rd_def demo_s2_ctx_def zero_rd_def addr_in_par_def realm_par_size_def)


text \<open>The address is a protected page of the realm at which it has data, by the entry \<open>i\<close> of the table \<open>t\<close>.\<close>

definition data_page :: "rmm \<Rightarrow> nat \<Rightarrow> u64 \<Rightarrow> bool" where
  "data_page s g addr \<longleftrightarrow>
    (let rd = d_rd (mem s g); c = realm_ctx s g; (t, l) = rtt_walk s c addr S2TT_PAGE_LEVEL
     in addr_in_par rd addr \<and> addr < realm_ipa_size rd \<and> addr_lvl_aligned (enable_lpa2 c) addr S2TT_PAGE_LEVEL \<and>
        l = S2TT_PAGE_LEVEL \<and> (\<exists>k \<in> data_kinds. has_kind (words (mem s t) ! (entry_no addr l mod 512)) l k))"




end
