(* ===== verification/Table_Change.thy ===== *)
theory Table_Change
  imports Data_Correct
begin

text \<open>
  Changes of the structure of the translation tables. Unfolding an entry into a table, folding a table into an entry and removing a
  table change one entry and the table below it. When the pages below the entry stay the same, realms have the same memory.
\<close>

section \<open>The pages below an entry\<close>

definition subtree_maps :: "rmm \<Rightarrow> s2tt_context \<Rightarrow> nat \<Rightarrow> nat \<Rightarrow> nat \<Rightarrow> nat \<Rightarrow> nat \<Rightarrow> nat \<Rightarrow> bool" where
  "subtree_maps s c n t i p P d \<longleftrightarrow> maps_by s c n p (words (mem s t) ! i) P d \<or>
    n < depth c \<and> (\<exists>t'. next_table s c t i = Some t' \<and> (\<exists>j < 512. maps_by s c (Suc n) (p * 512 + j) (words (mem s t') ! j) P d))"

lemma maps_restructured:
  assumes change: "entry_change s s' g0 n0 b0 t0 i0"
    and same: "\<And>P d. subtree_maps s' (realm_ctx s g0) n0 t0 i0 (b0 * 512 + i0) P d \<longleftrightarrow> subtree_maps s (realm_ctx s g0) n0 t0 i0 (b0 * 512 + i0) P d"
  shows "maps s' g P d \<longleftrightarrow> maps s g P d"
proof -
  let ?p = "b0 * 512 + i0" and ?c = "realm_ctx s g0"
  note t0 = entry_changeD(3,4) [OF change] and r = same_realmsD [OF entry_changeD(2) [OF change]] and it = in_tree_change [OF change]
  have mb: "maps_by s' c n p e P d = maps_by s c n p e P d" for c n p e P d by (rule maps_by_dram [OF r(1)])
  have p: "?p div 512 = b0" "?p mod 512 = i0" using t0(2) by simp_all
  have sub: "maps s g0 P d" if st: "subtree_maps s ?c n0 t0 i0 ?p P d" for P d
  proof -
    consider "maps_by s ?c n0 ?p (words (mem s t0) ! i0) P d"
      | t j where "n0 < depth ?c" "next_table s ?c t0 i0 = Some t" "j < 512" "maps_by s ?c (Suc n0) (?p * 512 + j) (words (mem s t) ! j) P d"
      using st by (auto simp: subtree_maps_def)
    then show ?thesis
    proof cases
      case 1
      then show ?thesis using entI [OF t0] by (auto simp: maps_def)
    next
      case 2
      then show ?thesis using entI [OF in_tree_child [OF t0(1) 2(1) t0(2) 2(2)] 2(3)] by (auto simp: maps_def)
    qed
  qed
  have sub': "maps s' g0 P d" if st: "subtree_maps s' ?c n0 t0 i0 ?p P d" for P d
  proof -
    have g0: "is_realm s g0" using in_treeD(1) [OF t0(1)] .
    have c: "realm_ctx s' g0 = ?c" using r(3) [OF g0] .
    have it0: "in_tree s' g0 n0 b0 t0" using it [of g0 n0 b0 t0] t0 by simp
    consider "maps_by s' ?c n0 ?p (words (mem s' t0) ! i0) P d"
      | t j where "n0 < depth ?c" "next_table s' ?c t0 i0 = Some t" "j < 512" "maps_by s' ?c (Suc n0) (?p * 512 + j) (words (mem s' t) ! j) P d"
      using st by (auto simp: subtree_maps_def)
    then show ?thesis
    proof cases
      case 1
      then show ?thesis using entI [OF it0 t0(2)] c by (auto simp: maps_def)
    next
      case 2
      have "in_tree s' g0 (Suc n0) ?p t" using in_tree_child [OF it0 _ t0(2)] 2(1,2) c by simp
      from entI [OF this 2(3)] show ?thesis using 2(4) c unfolding maps_def by metis
    qed
  qed
  show ?thesis
  proof
    assume "maps s' g P d"
    from maps_change [OF change this] consider "maps s g P d" | "g = g0" "subtree_maps s' ?c n0 t0 i0 ?p P d"
      unfolding subtree_maps_def mb maps_def by blast
    then show "maps s g P d" using sub same by cases auto
  next
    assume "maps s g P d"
    then obtain n q e where e: "ent s g n q e" "maps_by s (realm_ctx s g) n q e P d" by (auto simp: maps_def)
    consider "(g, n, q) = (g0, n0, ?p)" | "(g, n, q div 512) = (g0, Suc n0, ?p)"
      | "(g, n, q) \<noteq> (g0, n0, ?p)" "(g, n, q div 512) \<noteq> (g0, Suc n0, ?p)" by blast
    then show "maps s' g P d"
    proof cases
      case 1
      then have "e = words (mem s t0) ! i0" using e(1) t0(1) p by (auto simp: ent_def in_tree_def)
      then show ?thesis using sub' same e(2) 1 by (auto simp: subtree_maps_def)
    next
      case 2
      then obtain t where t: "in_tree s g0 (Suc n0) ?p t" "e = words (mem s t) ! (q mod 512)" using e(1) by (auto simp: ent_def)
      then have "next_table s ?c t0 i0 = Some t" "n0 < depth ?c"
        using in_tree_parent [OF t(1)] in_treeD(2) [OF t(1)] t0(1) p by (auto simp: in_tree_def)
      moreover have "q = ?p * 512 + q mod 512" using 2 div_mult_mod_eq [of q 512] by simp
      ultimately have "subtree_maps s ?c n0 t0 i0 ?p P d"
        using e(2) t(2) 2 unfolding subtree_maps_def by (metis mod_less_divisor prod.inject zero_less_numeral)
      then show ?thesis using sub' same 2 by auto
    next
      case 3
      then have "ent s' g n q e" using e(1) ent_change [OF change, of g n q e] by (simp only: if_False)
      moreover have "realm_ctx s' g = realm_ctx s g" using r(3) ent_realm [OF e(1)] by blast
      ultimately show ?thesis using e(2) mb by (auto simp: maps_def)
    qed
  qed
qed

section \<open>Removing a table\<close>

text \<open>
  The table \<open>t'\<close> below the entry \<open>p\<close> of the table \<open>t\<close>, which has no tables below it, is taken away and the entry
  becomes \<open>e'\<close>.
\<close>

definition table_removed :: "rmm \<Rightarrow> rmm \<Rightarrow> nat \<Rightarrow> nat \<Rightarrow> nat \<Rightarrow> nat \<Rightarrow> nat \<Rightarrow> u64 \<Rightarrow> bool" where
  "table_removed s s' g n p t t' e' \<longleftrightarrow> realm_inv s \<and> idle s' \<and> same_realms s s' \<and> in_tree s g n (p div 512) t \<and>
    n < depth (realm_ctx s g) \<and> next_table s (realm_ctx s g) t (p mod 512) = Some t' \<and> \<not> entry_is_table e' \<and>
    (\<forall>i < 512. \<not> s2tte_is_table (words (mem s t') ! i) (level (realm_ctx s g) (Suc n))) \<and>
    (\<forall>h. is_rtt s h \<longrightarrow> h \<noteq> t' \<longrightarrow> is_rtt s' h \<and>
       words (mem s' h) = (if h = t then (words (mem s t))[p mod 512 := e'] else words (mem s h)) \<and>
       (h \<noteq> t \<longrightarrow> REFCOUNT (granules s' h) = REFCOUNT (granules s h))) \<and>
    (\<forall>d. STATE (granules s d) = GRANULE_STATE_DATA \<longrightarrow> STATE (granules s' d) = GRANULE_STATE_DATA)"

lemma level_below: "n < depth c \<Longrightarrow> level c n < 3" "Suc n < depth c \<Longrightarrow> level c (Suc n) < 3"
  by (simp_all add: level_def depth_def)

lemma table_removed_inv:
  assumes tr: "table_removed s s' g n p t t' e'"
    and ok: "entry_ok s (realm_ctx s g) n p e'"
    and count: "unat (REFCOUNT (granules s' t)) + 1 = unat (REFCOUNT (granules s t)) + of_bool (counted e' (level (realm_ctx s g) n))"
    and same: "\<And>P d. maps_by s (realm_ctx s g) n p e' P d \<longleftrightarrow>
      (\<exists>i < 512. maps_by s (realm_ctx s g) (Suc n) (p * 512 + i) (words (mem s t') ! i) P d)"
  shows "realm_inv s'" "maps s' h P d \<longleftrightarrow> maps s h P d"
proof -
  let ?c = "realm_ctx s g" and ?i = "p mod 512"
  have inv: "realm_inv s" and idle: "idle s'" and realms: "same_realms s s'" and it: "in_tree s g n (p div 512) t"
    and n: "n < depth ?c" and nt: "next_table s ?c t ?i = Some t'" and e': "\<not> entry_is_table e'"
    and flat: "\<And>i. i < 512 \<Longrightarrow> \<not> s2tte_is_table (words (mem s t') ! i) (level ?c (Suc n))"
    and keep: "\<And>h. is_rtt s h \<Longrightarrow> h \<noteq> t' \<Longrightarrow> is_rtt s' h \<and>
       words (mem s' h) = (if h = t then (words (mem s t))[?i := e'] else words (mem s h)) \<and>
       (h \<noteq> t \<longrightarrow> REFCOUNT (granules s' h) = REFCOUNT (granules s h))"
    and data: "\<And>d. STATE (granules s d) = GRANULE_STATE_DATA \<Longrightarrow> STATE (granules s' d) = GRANULE_STATE_DATA"
    using tr unfolding table_removed_def by blast+
  note tree = realm_invD(2) [OF inv] and r = same_realmsD [OF realms]
  have p: "p div 512 * 512 + ?i = p" by simp
  have ct: "in_tree s g (Suc n) p t'" using in_tree_child [OF it n _ nt] by simp
  have tt: "t \<noteq> t'" 
  proof
    assume "t = t'"
    with ct have "in_tree s g (Suc n) p t" by simp
    from tree_okD(4) [OF tree it this] show False by simp
  qed
  have away: "h \<noteq> t'" if "in_tree s g1 n1 b1 h" "(g1, n1, b1) \<noteq> (g, Suc n, p)" for g1 n1 b1 h
  proof
    assume "h = t'"
    with that(1) have "in_tree s g1 n1 b1 t'" by simp
    from tree_okD(4) [OF tree ct this] that(2) show False by simp
  qed
  have w: "words (mem s' t) ! ?i = e'"
    using keep [OF tree_okD(2) [OF tree it] tt] idleD(6) [OF realm_invD(1) [OF inv], of t] by simp
  have nt': "next_table s' ?c t ?i = None" using w e' by (simp add: next_table_def)
  have change: "entry_change s s' g n (p div 512) t ?i"
    unfolding entry_change_def p
  proof (intro conjI allI impI)
    show "tree_ok s" "same_realms s s'" "in_tree s g n (p div 512) t" "?i < 512" using tree realms it by simp_all
  next
    fix g1 n1 b1 h i assume h: "in_tree s g1 n1 b1 h" "(g1, n1, b1) \<noteq> (g, Suc n, p)" "(h, i) \<noteq> (t, ?i)"
    show "words (mem s' h) ! i = words (mem s h) ! i"
      using keep [OF tree_okD(2) [OF tree h(1)] away [OF h(1,2)]] h(3) by (auto simp: nth_list_update)
  next
    fix t1 and i :: nat assume "next_table s ?c t ?i = Some t1" and sn: "Suc n < depth ?c" and i: "i < 512"
    then have "t1 = t'" using nt by simp
    then show "next_table s ?c t1 i = None"
      using flat [OF i] entry_is_table_iff [OF level_below(2) [OF sn]] by (simp add: next_table_def)
  qed (use nt' in simp)
  have wf: "s2_starting_level ?c \<le> 3" using tree_okD(1) [OF tree in_treeD(1) [OF it]] by (simp add: wf_ctx_def)
  have et: "entry_is_table (words (mem s t) ! ?i)" using nt by (simp add: next_table_def Let_def split: if_splits)
  have no: "\<not> maps_by s ?c n p (words (mem s t) ! ?i) P d" for P d using maps_by_kind n et by blast
  have maps: "maps s' h P d \<longleftrightarrow> maps s h P d" for h P d
  proof (rule maps_restructured [OF change], unfold p)
    fix P d
    show "subtree_maps s' ?c n t ?i p P d \<longleftrightarrow> subtree_maps s ?c n t ?i p P d"
      unfolding subtree_maps_def maps_by_dram [OF r(1)] w nt nt' using no same [of P d] n by simp
  qed
  show "maps s' h P d \<longleftrightarrow> maps s h P d" by (rule maps)
  have c1: "counted (words (mem s t) ! ?i) (level ?c n)"
  proof -
    have "s2tte_is_table (words (mem s t) ! ?i) (level ?c n)" using et entry_is_table_iff [OF level_below(1) [OF n]] by simp
    then show ?thesis by (auto simp: counted_def has_kind_def)
  qed
  show "realm_inv s'"
  proof (rule realm_inv_change [OF inv change idle], unfold p w)
    show "is_rtt s' h" if "in_tree s g1 n1 b1 h" "(g1, n1, b1) \<noteq> (g, Suc n, p)" for g1 n1 b1 h
      using keep [OF tree_okD(2) [OF tree that(1)] away [OF that]] by blast
    show "REFCOUNT (granules s' h) = REFCOUNT (granules s h)" if "in_tree s g1 n1 b1 h" "(g1, n1, b1) \<noteq> (g, Suc n, p)" "h \<noteq> t" for g1 n1 b1 h
      using keep [OF tree_okD(2) [OF tree that(1)] away [OF that(1,2)]] that(3) by blast
    show "entry_ok s' ?c n p e'" using ok entry_ok_same [OF r(1)] by simp
    show "unat (REFCOUNT (granules s' t)) + of_bool (counted (words (mem s t) ! ?i) (level ?c n)) =
      unat (REFCOUNT (granules s t)) + of_bool (counted e' (level ?c n))" using count c1 by simp
  next
    fix h P d assume "maps s' h P d" then show "STATE (granules s' d) = GRANULE_STATE_DATA" using maps data realm_invD(5) [OF inv] by blast
  next
    fix h P h' P' d assume "maps s' h P d" "maps s' h' P' d" then show "h = h' \<and> P = P'" using maps realm_invD(6) [OF inv] by blast
  qed (simp add: e')
qed

section \<open>Adding a table\<close>

text \<open>
  The entry \<open>p\<close> of the table \<open>t\<close>, not a table entry, becomes the table entry of a fresh table \<open>t'\<close>.
\<close>

definition table_added :: "rmm \<Rightarrow> rmm \<Rightarrow> nat \<Rightarrow> nat \<Rightarrow> nat \<Rightarrow> nat \<Rightarrow> nat \<Rightarrow> u64 \<Rightarrow> bool" where
  "table_added s s' g n p t t' e' \<longleftrightarrow> realm_inv s \<and> idle s' \<and> same_realms s s' \<and> in_tree s g n (p div 512) t \<and>
    n < depth (realm_ctx s g) \<and> \<not> entry_is_table (words (mem s t) ! (p mod 512)) \<and>
    entry_is_table e' \<and> granule_at (arm_dram s) (to_pa_value e' S2TT_PAGE_LEVEL (enable_lpa2 (realm_ctx s g))) = Some t' \<and>
    \<not> is_rtt s t' \<and> is_rtt s' t' \<and>
    (\<forall>i < 512. \<not> s2tte_is_table (words (mem s' t') ! i) (level (realm_ctx s g) (Suc n))) \<and>
    (\<forall>h. is_rtt s h \<longrightarrow> is_rtt s' h \<and>
       words (mem s' h) = (if h = t then (words (mem s t))[p mod 512 := e'] else words (mem s h)) \<and>
       (h \<noteq> t \<longrightarrow> REFCOUNT (granules s' h) = REFCOUNT (granules s h))) \<and>
    (\<forall>d. STATE (granules s d) = GRANULE_STATE_DATA \<longrightarrow> STATE (granules s' d) = GRANULE_STATE_DATA)"

lemma table_added_inv:
  assumes ta: "table_added s s' g n p t t' e'"
    and ok: "\<And>i. i < 512 \<Longrightarrow> entry_ok s (realm_ctx s g) (Suc n) (p * 512 + i) (words (mem s' t') ! i)"
    and count: "unat (REFCOUNT (granules s' t)) + of_bool (counted (words (mem s t) ! (p mod 512)) (level (realm_ctx s g) n)) =
      unat (REFCOUNT (granules s t)) + 1"
    and count': "unat (REFCOUNT (granules s' t')) = refs s' (level (realm_ctx s g) (Suc n)) t'"
    and same: "\<And>P d. maps_by s (realm_ctx s g) n p (words (mem s t) ! (p mod 512)) P d \<longleftrightarrow>
      (\<exists>i < 512. maps_by s (realm_ctx s g) (Suc n) (p * 512 + i) (words (mem s' t') ! i) P d)"
  shows "realm_inv s'" "maps s' h P d \<longleftrightarrow> maps s h P d"
proof -
  let ?c = "realm_ctx s g" and ?i = "p mod 512"
  have inv: "realm_inv s" and idle: "idle s'" and realms: "same_realms s s'" and it: "in_tree s g n (p div 512) t"
    and n: "n < depth ?c" and e: "\<not> entry_is_table (words (mem s t) ! ?i)" and e': "entry_is_table e'"
    and a: "granule_at (arm_dram s) (to_pa_value e' S2TT_PAGE_LEVEL (enable_lpa2 ?c)) = Some t'" and rt: "\<not> is_rtt s t'" "is_rtt s' t'"
    and flat: "\<And>i. i < 512 \<Longrightarrow> \<not> s2tte_is_table (words (mem s' t') ! i) (level ?c (Suc n))"
    and keep: "\<And>h. is_rtt s h \<Longrightarrow> is_rtt s' h \<and>
       words (mem s' h) = (if h = t then (words (mem s t))[?i := e'] else words (mem s h)) \<and>
       (h \<noteq> t \<longrightarrow> REFCOUNT (granules s' h) = REFCOUNT (granules s h))"
    and data: "\<And>d. STATE (granules s d) = GRANULE_STATE_DATA \<Longrightarrow> STATE (granules s' d) = GRANULE_STATE_DATA"
    using ta unfolding table_added_def by blast+
  note tree = realm_invD(2) [OF inv] and r = same_realmsD [OF realms]
  have p: "p div 512 * 512 + ?i = p" by simp
  have tt: "h \<noteq> t'" if "in_tree s g1 n1 b1 h" for g1 n1 b1 h using tree_okD(2) [OF tree that] rt(1) by auto
  have w: "words (mem s' t) ! ?i = e'"
    using keep [OF tree_okD(2) [OF tree it]] idleD(6) [OF realm_invD(1) [OF inv], of t] by simp
  have nt: "next_table s ?c t ?i = None" using e by (simp add: next_table_def)
  have nt': "next_table s' ?c t ?i = Some t'" using w e' a r(1) by (simp add: next_table_def)
  have change: "entry_change s s' g n (p div 512) t ?i"
    unfolding entry_change_def p
  proof (intro conjI allI impI)
    show "tree_ok s" "same_realms s s'" "in_tree s g n (p div 512) t" "?i < 512" using tree realms it by simp_all
  next
    fix g1 n1 b1 h i assume h: "in_tree s g1 n1 b1 h" "(h, i) \<noteq> (t, ?i)"
    show "words (mem s' h) ! i = words (mem s h) ! i"
      using keep [OF tree_okD(2) [OF tree h(1)]] h(2) by (auto simp: nth_list_update)
  next
    fix t1 and i :: nat assume "next_table s' ?c t ?i = Some t1" and sn: "Suc n < depth ?c" and i: "i < 512"
    then have "t1 = t'" using nt' by simp
    then show "next_table s' ?c t1 i = None"
      using flat [OF i] entry_is_table_iff [OF level_below(2) [OF sn]] by (simp add: next_table_def)
  qed (use nt in simp)
  have no: "\<not> maps_by s ?c n p e' P d" for P d using maps_by_kind n e' by blast
  have maps: "maps s' h P d \<longleftrightarrow> maps s h P d" for h P d
  proof (rule maps_restructured [OF change], unfold p)
    fix P d
    show "subtree_maps s' ?c n t ?i p P d \<longleftrightarrow> subtree_maps s ?c n t ?i p P d"
      unfolding subtree_maps_def maps_by_dram [OF r(1)] w nt nt' using no same [of P d] n by simp
  qed
  show "maps s' h P d \<longleftrightarrow> maps s h P d" by (rule maps)
  have ks: "kinds e' (level ?c n) = {Table}" 
    using e' level_below(1) [OF n] by (intro kinds_table) (simp_all add: entry_is_table_def desc_type_iff)
  show "realm_inv s'"
  proof (rule realm_inv_change [OF inv change idle], unfold p w nt')
    show "is_rtt s' h" if "in_tree s g1 n1 b1 h" for g1 n1 b1 h
      using keep [OF tree_okD(2) [OF tree that(1)]] by blast
    show "REFCOUNT (granules s' h) = REFCOUNT (granules s h)" if "in_tree s g1 n1 b1 h" "h \<noteq> t" for g1 n1 b1 h
      using keep [OF tree_okD(2) [OF tree that(1)]] that(2) by blast
    show "entry_ok s' ?c n p e'" using ks by (auto simp: entry_ok_def data_kinds_def)
    show "unat (REFCOUNT (granules s' t)) + of_bool (counted (words (mem s t) ! ?i) (level ?c n)) =
      unat (REFCOUNT (granules s t)) + of_bool (counted e' (level ?c n))" using count kinds_counted [OF ks] by simp
    show "\<exists>ta. Some t' = Some ta \<and> is_rtt s' ta \<and> (\<forall>g1 n1 b. in_tree s g1 n1 b ta \<longrightarrow> (g1, n1, b) = (g, Suc n, p)) \<and>
      (\<forall>i<512. entry_ok s' ?c (Suc n) (p * 512 + i) (words (mem s' ta) ! i) \<and> \<not> s2tte_is_table (words (mem s' ta) ! i) (level ?c (Suc n))) \<and>
      unat (REFCOUNT (granules s' ta)) = refs s' (level ?c (Suc n)) ta"
      using rt(2) tt ok flat count' entry_ok_same [OF r(1)] by blast
  next
    fix h P d assume "maps s' h P d" then show "STATE (granules s' d) = GRANULE_STATE_DATA" using maps data realm_invD(5) [OF inv] by blast
  next
    fix h P h' P' d assume "maps s' h P d" "maps s' h' P' d" then show "h = h' \<and> P = P'" using maps realm_invD(6) [OF inv] by blast
  qed
qed

end
