(* ===== verification/Frame.thy ===== *)
theory Frame
  imports Table_Change
begin

text \<open>
  The commands on memory and translation tables do not touch the granules that describe realms and their execution: descriptors,
  execution contexts with their auxiliary granules, and access permission tables. Only the measurement in a realm descriptor and
  the progress of a RIPAS change in an execution context may change.
\<close>

definition owner_state :: "u8 \<Rightarrow> bool" where
  "owner_state st \<longleftrightarrow> st \<in> {GRANULE_STATE_RD, GRANULE_STATE_REC, GRANULE_STATE_REC_AUX, GRANULE_STATE_APT}"

definition measured :: "gdata \<Rightarrow> gdata \<Rightarrow> bool" where
  "measured x y \<longleftrightarrow> (\<exists>m a. y = x\<lparr>d_rd := (d_rd x)\<lparr>measurement := m\<rparr>,
    d_rec := (d_rec x)\<lparr>rec_set_ripas := (rec_set_ripas (d_rec x))\<lparr>sr_addr := a\<rparr>\<rparr>\<rparr>)"

definition owners_kept :: "rmm \<Rightarrow> rmm \<Rightarrow> bool" where
  "owners_kept s s' \<longleftrightarrow> arm_dram s' = arm_dram s \<and> vmids s' = vmids s \<and> feat_vmid16 s' = feat_vmid16 s \<and>
    tags s' = tags s \<and> csm_region_ids s' = csm_region_ids s \<and>
    (\<forall>h. owner_state (STATE (granules s h)) \<or> owner_state (STATE (granules s' h)) \<longrightarrow>
      granules s' h = granules s h \<and> measured (mem s h) (mem s' h))"

lemma owner_state_simps [simp]:
  "\<not> owner_state GRANULE_STATE_NS" "\<not> owner_state GRANULE_STATE_DELEGATED" "\<not> owner_state GRANULE_STATE_DATA" "\<not> owner_state GRANULE_STATE_RTT"
  "owner_state GRANULE_STATE_RD" "owner_state GRANULE_STATE_REC" "owner_state GRANULE_STATE_REC_AUX" "owner_state GRANULE_STATE_APT"
  by (simp_all add: owner_state_def granule_states)

lemma measured_refl [simp]: "measured x x"
  unfolding measured_def by (rule exI [of _ "measurement (d_rd x)"], rule exI [of _ "sr_addr (rec_set_ripas (d_rec x))"]) simp

lemma measured_trans: "measured x y \<Longrightarrow> measured y z \<Longrightarrow> measured x z"
proof -
  assume "measured x y" "measured y z"
  then obtain m a m' a' where "y = x\<lparr>d_rd := (d_rd x)\<lparr>measurement := m\<rparr>, d_rec := (d_rec x)\<lparr>rec_set_ripas := (rec_set_ripas (d_rec x))\<lparr>sr_addr := a\<rparr>\<rparr>\<rparr>"
    "z = y\<lparr>d_rd := (d_rd y)\<lparr>measurement := m'\<rparr>, d_rec := (d_rec y)\<lparr>rec_set_ripas := (rec_set_ripas (d_rec y))\<lparr>sr_addr := a'\<rparr>\<rparr>\<rparr>"
    unfolding measured_def by blast
  then have "z = x\<lparr>d_rd := (d_rd x)\<lparr>measurement := m'\<rparr>, d_rec := (d_rec x)\<lparr>rec_set_ripas := (rec_set_ripas (d_rec x))\<lparr>sr_addr := a'\<rparr>\<rparr>\<rparr>" by simp
  then show "measured x z" unfolding measured_def by blast
qed

lemma measuredD:
  assumes "measured x y"
  shows "rd_s2_ctx (d_rd y) = rd_s2_ctx (d_rd x)" "apt_pa (d_rd y) = apt_pa (d_rd x)" "rd_state (d_rd y) = rd_state (d_rd x)"
    "rec_count (d_rd y) = rec_count (d_rd x)" "rd_num_rec_aux (d_rd y) = rd_num_rec_aux (d_rd x)"
    "rec_realm_info (d_rec y) = rec_realm_info (d_rec x)" "rec_g_aux (d_rec y) = rec_g_aux (d_rec x)" "rec_num_aux (d_rec y) = rec_num_aux (d_rec x)"
    "sr_top (rec_set_ripas (d_rec y)) = sr_top (rec_set_ripas (d_rec x))" "rec_g_rec (d_rec y) = rec_g_rec (d_rec x)" "d_apt y = d_apt x" "words y = words x"
  using assms by (auto simp: measured_def)

lemma owners_kept_refl [simp]: "owners_kept s s"
  by (simp add: owners_kept_def)

lemma owners_keptD:
  assumes "owners_kept s s'"
  shows "arm_dram s' = arm_dram s" "vmids s' = vmids s" "feat_vmid16 s' = feat_vmid16 s" "tags s' = tags s" "csm_region_ids s' = csm_region_ids s"
    "owner_state (STATE (granules s' h)) \<longleftrightarrow> owner_state (STATE (granules s h))"
    "owner_state (STATE (granules s h)) \<Longrightarrow> granules s' h = granules s h"
    "owner_state (STATE (granules s h)) \<Longrightarrow> measured (mem s h) (mem s' h)"
proof -
  note k = assms [unfolded owners_kept_def]
  show "arm_dram s' = arm_dram s" "vmids s' = vmids s" "feat_vmid16 s' = feat_vmid16 s" "tags s' = tags s" "csm_region_ids s' = csm_region_ids s"
    using k by simp_all
  have h: "granules s' h = granules s h \<and> measured (mem s h) (mem s' h)"
    if "owner_state (STATE (granules s h)) \<or> owner_state (STATE (granules s' h))" using k that by blast
  then show "owner_state (STATE (granules s' h)) \<longleftrightarrow> owner_state (STATE (granules s h))" by metis
  show "owner_state (STATE (granules s h)) \<Longrightarrow> granules s' h = granules s h" "owner_state (STATE (granules s h)) \<Longrightarrow> measured (mem s h) (mem s' h)"
    using h by blast+
qed

lemma owners_kept_trans:
  assumes k: "owners_kept s1 s2" "owners_kept s2 s3"
  shows "owners_kept s1 s3"
proof -
  note d1 = owners_keptD [OF k(1)] and d2 = owners_keptD [OF k(2)]
  show ?thesis unfolding owners_kept_def
  proof (intro conjI allI impI)
    fix h assume "owner_state (STATE (granules s1 h)) \<or> owner_state (STATE (granules s3 h))"
    then have o1: "owner_state (STATE (granules s1 h))" using d1(6) [of h] d2(6) [of h] by blast
    then have o2: "owner_state (STATE (granules s2 h))" using d1(6) by blast
    show "granules s3 h = granules s1 h" using d1(7) [OF o1] d2(7) [OF o2] by simp
    show "measured (mem s1 h) (mem s3 h)" by (rule measured_trans [OF d1(8) [OF o1] d2(8) [OF o2]])
  qed (use d1(1-5) d2(1-5) in simp_all)
qed

lemma owners_kept_realms:
  assumes "owners_kept s s'"
  shows "same_realms s s'" "is_realm s g \<Longrightarrow> measured (mem s g) (mem s' g)" "is_realm s' g \<longleftrightarrow> is_realm s g"
proof -
  note d = owners_keptD [OF assms]
  have rd: "is_realm s' g \<longleftrightarrow> is_realm s g" for g
    using d(1) d(6,7) [of g] unfolding is_realm_def by (metis owner_state_simps(5))
  show m: "measured (mem s g) (mem s' g)" if "is_realm s g" for g using that d(8) by (simp add: is_realm_def)
  show "is_realm s' g \<longleftrightarrow> is_realm s g" by (rule rd)
  show "same_realms s s'" unfolding same_realms_def using d(1) rd measuredD(1) [OF m] by (simp add: realm_ctx_def)
qed

text \<open>The usual case: each granule is either kept or of another kind before and after.\<close>

lemma owners_keptI:
  assumes "arm_dram s' = arm_dram s" "vmids s' = vmids s" "feat_vmid16 s' = feat_vmid16 s" "tags s' = tags s" "csm_region_ids s' = csm_region_ids s"
    and "\<And>h. granules s' h = granules s h \<and> measured (mem s h) (mem s' h) \<or>
      \<not> owner_state (STATE (granules s h)) \<and> \<not> owner_state (STATE (granules s' h))"
  shows "owners_kept s s'"
  using assms unfolding owners_kept_def by blast

text \<open>
  A step that keeps the owners, the structure of the tables, and what every realm has at each address.
\<close>

definition memory_kept :: "rmm \<Rightarrow> rmm \<Rightarrow> bool" where
  "memory_kept s s' \<longleftrightarrow> realm_inv s' \<and> owners_kept s s' \<and> (\<forall>g P d. maps s' g P d \<longleftrightarrow> maps s g P d) \<and>
    (\<forall>g n b t. in_tree s' g n b t \<longleftrightarrow> in_tree s g n b t)"

lemma memory_keptD:
  assumes "memory_kept s s'"
  shows "realm_inv s'" "owners_kept s s'" "maps s' g P d \<longleftrightarrow> maps s g P d" "in_tree s' g n b t \<longleftrightarrow> in_tree s g n b t"
    "is_realm s g \<Longrightarrow> realm_ctx s' g = realm_ctx s g" "is_realm s' g \<longleftrightarrow> is_realm s g" "arm_dram s' = arm_dram s"
  using assms owners_kept_realms [of s s'] same_realmsD [of s s'] owners_keptD(1) [of s s'] unfolding memory_kept_def by blast+

lemma memory_kept_refl: "realm_inv s \<Longrightarrow> memory_kept s s"
  by (simp add: memory_kept_def)

lemma memory_kept_trans: "memory_kept s1 s2 \<Longrightarrow> memory_kept s2 s3 \<Longrightarrow> memory_kept s1 s3"
  using owners_kept_trans [of s1 s2 s3] unfolding memory_kept_def by blast

lemma memory_kept_frame:
  assumes "realm_inv s" "idle s'" "owners_kept s s'"
    and "\<And>t. is_rtt s t \<Longrightarrow> is_rtt s' t \<and> words (mem s' t) = words (mem s t) \<and> REFCOUNT (granules s' t) = REFCOUNT (granules s t)"
    and "\<And>d. STATE (granules s d) = GRANULE_STATE_DATA \<Longrightarrow> STATE (granules s' d) = GRANULE_STATE_DATA"
  shows "memory_kept s s'"
  using realm_inv_frame [OF assms(1,2) owners_kept_realms(1) [OF assms(3)] assms(4,5)] assms(3) unfolding memory_kept_def by blast

lemma memory_kept_log:
  assumes "realm_inv s"
  shows "memory_kept s (log_tlbi es s)"
proof (rule memory_kept_frame [OF assms])
  note id = idleD [OF realm_invD(1) [OF assms]]
  show "idle (log_tlbi es s)" by (rule idle_change [OF realm_invD(1) [OF assms]]) (use id(2,6) in \<open>auto simp: log_tlbi_def\<close>)
  show "owners_kept s (log_tlbi es s)" by (simp add: owners_kept_def log_tlbi_def)
qed (simp_all add: log_tlbi_def is_rtt_def)

text \<open>Writing an entry that maps the same memory and is neither a table before nor after.\<close>

lemma entry_replaced:
  assumes inv: "realm_inv s" and it: "in_tree s g n (p div 512) t"
    and k: "kinds (words (mem s t) ! (p mod 512)) (level (realm_ctx s g) n) = {k}" "k \<noteq> Table"
    and k': "kinds e' (level (realm_ctx s g) n) = {k'}" "k' \<noteq> Table" "k \<in> data_kinds \<longleftrightarrow> k' \<in> data_kinds"
    and ok: "entry_ok s (realm_ctx s g) n p e'"
    and mb: "\<And>P d. maps_by s (realm_ctx s g) n p e' P d \<longleftrightarrow> maps_by s (realm_ctx s g) n p (words (mem s t) ! (p mod 512)) P d"
  shows "memory_kept s (page_set t (p mod 512) e' s)"
    "ent (page_set t (p mod 512) e' s) h m q x \<longleftrightarrow> (if (h, m, q) = (g, n, p) then x = e' else ent s h m q x)"
proof -
  let ?c = "realm_ctx s g" and ?e = "words (mem s t) ! (p mod 512)" and ?s' = "page_set t (p mod 512) e' s"
  note idle = realm_invD(1) [OF inv] note id = idleD [OF idle]
  have rt: "is_rtt s t" using tree_okD(2) [OF realm_invD(2) [OF inv] it] .
  have f: "arm_dram ?s' = arm_dram s" "slots ?s' = slots s" "granules ?s' = granules s"
    "mem ?s' h = (if h = t then (mem s t)\<lparr>words := (words (mem s t))[p mod 512 := e']\<rparr> else mem s h)" for h
    by (simp_all add: page_set_def upd_mem_def)
  have "idle ?s'" by (rule idle_change [OF idle f(1,2)]) (use f(3,4) id(2,6) is_rttD(2) [OF rt] in auto)
  moreover have ow: "owners_kept s ?s'"
    by (rule owners_keptI) (use is_rttD(2) [OF rt] in \<open>auto simp: page_set_def upd_mem_def\<close>)
  moreover have "\<not> entry_is_table ?e \<and> \<not> entry_is_table e'" if "n < depth ?c"
    using kinds_is_table [OF k(1)] kinds_is_table [OF k'(1)] k(2) k'(2) entry_is_table_iff [OF level_below(1) [OF that]] by auto
  moreover have "is_rtt ?s' h \<and> words (mem ?s' h) = (if h = t then (words (mem s t))[p mod 512 := e'] else words (mem s h)) \<and>
      (h \<noteq> t \<longrightarrow> REFCOUNT (granules ?s' h) = REFCOUNT (granules s h))" if "is_rtt s h" for h
    using that f by (auto simp: is_rtt_def)
  ultimately have ew: "entry_written s ?s' g n p t ?e e'" unfolding entry_written_def using inv it owners_kept_realms(1) by blast
  show ent: "ent ?s' h m q x \<longleftrightarrow> (if (h, m, q) = (g, n, p) then x = e' else ent s h m q x)" for h m q x
    by (rule entry_written_change(3) [OF ew])
  have maps: "maps ?s' h P d \<longleftrightarrow> maps s h P d" for h P d
    unfolding entry_written_maps [OF ew] mb using entry_written_change(4) [OF ew] by (auto simp: maps_def)
  have "realm_inv ?s'"
  proof (rule entry_written_inv [OF ew ok])
    show "unat (REFCOUNT (granules ?s' t)) + of_bool (counted ?e (level ?c n)) =
      unat (REFCOUNT (granules s t)) + of_bool (counted e' (level ?c n))"
      using kinds_counted [OF k(1)] kinds_counted [OF k'(1)] k(2) k'(2,3) f(3) by auto
  qed (use maps realm_invD(5,6) [OF inv] f(3) in auto)
  moreover have "in_tree ?s' h m b x \<longleftrightarrow> in_tree s h m b x" for h m b x
  proof -
    have nt: "next_table s ?c t (p mod 512) = None" "next_table ?s' ?c t (p mod 512) = None" if "n < depth ?c"
      using entry_writtenD(5-7) [OF ew] that entry_written_change(2) [OF ew] by (simp_all add: next_table_def)
    have "\<not> in_tree s g (Suc n) p x"
      using in_tree_parent [of s g n p x] in_treeD(2) [of s g "Suc n" p x] nt(1) it by (auto simp: in_tree_def)
    then show ?thesis unfolding in_tree_change [OF entry_written_change(1) [OF ew]] using nt(2) by auto
  qed
  ultimately show "memory_kept s ?s'" unfolding memory_kept_def using maps ow by blast
qed

end
