(* ===== verification/Rtt_Remove.thy ===== *)
theory Rtt_Remove
  imports Frame
begin

text \<open>
  What the commands that fold and destroy a table have in common: the checks, the table below the entry that the walk reaches, and
  the state after the table has been removed.
\<close>

section \<open>The table below an entry\<close>

definition structure_ok :: "rd \<Rightarrow> u64 \<Rightarrow> int \<Rightarrow> bool" where
  "structure_ok rd map_addr lv \<longleftrightarrow> realm_rtt_starting_level rd + 1 \<le> lv \<and> lv \<le> S2TT_PAGE_LEVEL \<and>
    map_addr < realm_ipa_size rd \<and> addr_lvl_aligned (enable_lpa2 (rd_s2_ctx rd)) map_addr (lv - 1)"

lemma validate_rtt_structure_run [run_simps]:
  assumes "wf_ctx (rd_s2_ctx rd)"
  shows "validate_rtt_structure_cmds map_addr lv rd s = Inr (structure_ok rd map_addr lv, s)"
  using assms
  by (auto simp: validate_rtt_structure_cmds_def structure_ok_def run_simps realm_rtt_starting_level_def wf_ctx_def)

lemma s2tte_pa_table_run:
  assumes "s2tte_is_table e l" "min_starting_level c \<le> l" "l \<le> 2"
  shows "s2tte_pa c e l s = Inr (to_pa_value e S2TT_PAGE_LEVEL (enable_lpa2 c), s)"
proof -
  have "s2tte_has_pa e l" 
    using assms(1,3) by (auto simp: s2tte_has_pa_def s2tte_is_table_def entry_is_table_def s2tte_bits desc_type_iff)
  then show ?thesis using assms min_starting_level_bounds [of c] by (simp add: s2tte_pa_def run_simps)
qed

lemma child_of_walk:
  assumes inv: "realm_inv s" and g: "is_realm s g" and a: "addr < push_bit (unat (ipa_bits (realm_ctx s g))) 1"
    and lv: "s2_starting_level (realm_ctx s g) \<le> lv" "lv \<le> 2" and w: "rtt_walk s (realm_ctx s g) addr lv = (t, lv)"
    and tab: "s2tte_is_table (words (mem s t) ! (entry_no addr lv mod 512)) lv"
  obtains n t' where "lv = level (realm_ctx s g) n" "n < depth (realm_ctx s g)" "in_tree s g n (entry_no addr lv div 512) t"
    "next_table s (realm_ctx s g) t (entry_no addr lv mod 512) = Some t'" "in_tree s g (Suc n) (entry_no addr lv) t'"
    "is_rtt s t" "is_rtt s t'" "t \<noteq> t'" "REFCOUNT (granules s t) \<noteq> 0"
    "granule_at (arm_dram s) (to_pa_value (words (mem s t) ! (entry_no addr lv mod 512)) S2TT_PAGE_LEVEL (enable_lpa2 (realm_ctx s g))) = Some t'"
    "unat (REFCOUNT (granules s t')) = refs s (lv + 1) t'" "unat (s2_addr_to_idx addr lv) = entry_no addr lv mod 512"
proof -
  let ?c = "realm_ctx s g" and ?p = "entry_no addr lv" and ?e = "words (mem s t) ! (entry_no addr lv mod 512)"
  note tree = realm_invD(2) [OF inv]
  have "lv \<le> 3" using lv(2) by simp
  from realm_walk [OF inv g a lv(1) this w] obtain n where n: "lv = level ?c n" "in_tree s g n (?p div 512) t" "n < depth ?c"
    "unat (s2_addr_to_idx addr lv) = ?p mod 512" "is_rtt s t" using lv(2) by auto
  have et: "entry_is_table ?e" using tab entry_is_table_iff [of lv] lv(2) by simp
  obtain t' where t': "next_table s ?c t (?p mod 512) = Some t'" using tree_okD(3) [OF tree n(2,3) _ et] by auto
  have ct: "in_tree s g (Suc n) ?p t'" using in_tree_child [OF n(2,3) _ t'] by simp
  have ne: "t \<noteq> t'"
  proof
    assume "t = t'"
    with ct have "in_tree s g (Suc n) ?p t" by simp
    from tree_okD(4) [OF tree n(2) this] show False by simp
  qed
  have "counted ?e lv" using tab by (auto simp: counted_def has_kind_def)
  then have "refs s lv t \<noteq> 0" unfolding refs_0 by (metis mod_less_divisor zero_less_numeral)
  then have rc: "REFCOUNT (granules s t) \<noteq> 0" using realm_invD(4) [OF inv n(2)] n(1) by auto
  have "granule_at (arm_dram s) (to_pa_value ?e S2TT_PAGE_LEVEL (enable_lpa2 ?c)) = Some t'"
    using t' et by (simp add: next_table_def)
  moreover have "unat (REFCOUNT (granules s t')) = refs s (lv + 1) t'"
    using realm_invD(4) [OF inv ct] n(1) by (simp add: level_def add.assoc add.commute)
  ultimately show ?thesis using that [OF n(1,3,2) t' ct n(5) tree_okD(2) [OF tree ct] ne rc] n(4) by blast
qed

section \<open>The state without the table\<close>

text \<open>
  The table \<open>t'\<close> is removed and the entry \<open>i\<close> of \<open>t\<close> written. The reference of the parent entry is dropped, or the 512
  references of the table when the new entry takes over its data.
\<close>

definition removed :: "nat \<Rightarrow> nat \<Rightarrow> u64 \<Rightarrow> nat \<Rightarrow> tlb_event list \<Rightarrow> bool \<Rightarrow> rmm \<Rightarrow> rmm" where
  "removed t i e' t' es taken s =
    upd_granule t' (eor_state GRANULE_STATE_DELEGATED) (upd_mem t' (\<lambda>_. zero_data) (page_set t i e' (log_tlbi es
      (if taken then upd_granule t' (add_desc (- 512)) s else upd_granule t (add_desc (- 1)) s))))"

lemma removed_fields:
  assumes "t \<noteq> t'"
  shows "arm_dram (removed t i e' t' es taken s) = arm_dram s" "slots (removed t i e' t' es taken s) = slots s"
    "granules (removed t i e' t' es taken s) h =
      (if h = t' then eor_state GRANULE_STATE_DELEGATED (if taken then add_desc (- 512) (granules s t') else granules s t')
       else if h = t \<and> \<not> taken then add_desc (- 1) (granules s t) else granules s h)"
    "mem (removed t i e' t' es taken s) h =
      (if h = t' then zero_data else if h = t then (mem s t)\<lparr>words := (words (mem s t))[i := e']\<rparr> else mem s h)"
    "tlb_log (removed t i e' t' es taken s) = tlb_log s @ es"
  using assms by (auto simp: removed_def upd_granule_def upd_mem_def page_set_def)

lemma removed_owners_kept:
  assumes "t \<noteq> t'" "is_rtt s t" "is_rtt s t'" "REFCOUNT (granules s t) \<noteq> 0"
  shows "owners_kept s (removed t i e' t' es taken s)"
proof (rule owners_keptI)
  let ?s' = "removed t i e' t' es taken s"
  show "arm_dram ?s' = arm_dram s" "vmids ?s' = vmids s" "feat_vmid16 ?s' = feat_vmid16 s" "tags ?s' = tags s" "csm_region_ids ?s' = csm_region_ids s"
    by (simp_all add: removed_def upd_granule_def upd_mem_def page_set_def log_tlbi_def)
  have le: "1 \<le> REFCOUNT (granules s t)" using assms(4) by (simp add: word_le_nat_alt unat_gt_0 Suc_leI)
  note f = removed_fields(3,4) [OF assms(1), where i = i and e' = e' and es = es and taken = taken and s = s]
    and st = is_rttD(2) [OF assms(2)] is_rttD(2) [OF assms(3)]
  fix h
  show "granules ?s' h = granules s h \<and> measured (mem s h) (mem ?s' h) \<or> \<not> owner_state (STATE (granules s h)) \<and> \<not> owner_state (STATE (granules ?s' h))"
    using f(1,2) [of h] st refcount_sub_fields(2) [OF le] assms(1) by auto
qed

lemma drop_ref:
  assumes "REFCOUNT x \<noteq> 0"
  shows "LOCKED (add_desc (- 1) x) = LOCKED x" "STATE (add_desc (- 1) x) = STATE x" "unat (REFCOUNT (add_desc (- 1) x)) + 1 = unat (REFCOUNT x)"
proof -
  have le: "1 \<le> REFCOUNT x" using assms by (simp add: word_le_nat_alt unat_gt_0 Suc_leI)
  show "LOCKED (add_desc (- 1) x) = LOCKED x" "STATE (add_desc (- 1) x) = STATE x" using refcount_sub_fields [OF le] by simp_all
  have "unat (REFCOUNT x) \<noteq> 0" using assms by (simp add: unat_eq_0)
  then show "unat (REFCOUNT (add_desc (- 1) x)) + 1 = unat (REFCOUNT x)" using refcount_sub_fields [OF le] unat_sub [OF le] by simp
qed

lemma removed_removed:
  fixes es :: "tlb_event list"
  assumes inv: "realm_inv s" and n: "n < depth (realm_ctx s g)" and it: "in_tree s g n (p div 512) t" "is_rtt s t" "is_rtt s t'" "t \<noteq> t'"
    and nt: "next_table s (realm_ctx s g) t (p mod 512) = Some t'" and e': "\<not> entry_is_table e'" and rc: "REFCOUNT (granules s t) \<noteq> 0"
    and flat: "\<And>i. i < 512 \<Longrightarrow> \<not> s2tte_is_table (words (mem s t') ! i) (level (realm_ctx s g) (Suc n))"
    and rc': "REFCOUNT (granules s t') = (if taken then 512 else 0)"
  defines "s' \<equiv> removed t (p mod 512) e' t' es taken s"
  shows "table_removed s s' g n p t t' e'" "unat (REFCOUNT (granules s' t)) + of_bool (\<not> taken) = unat (REFCOUNT (granules s t))"
    "STATE (granules s' t') = GRANULE_STATE_DELEGATED" "mem s' t' = zero_data"
proof -
  note id = idleD [OF realm_invD(1) [OF inv]]
  note f = removed_fields [OF it(4), where i = "p mod 512" and e' = e' and es = es and taken = taken and s = s, folded s'_def] and dr = drop_ref [OF rc]
  show "unat (REFCOUNT (granules s' t)) + of_bool (\<not> taken) = unat (REFCOUNT (granules s t))" using f(3) [of t] dr(3) it(4) by simp
  have z: "REFCOUNT (granules s' t') = 0" "\<not> LOCKED (granules s' t')" "STATE (granules s' t') = GRANULE_STATE_DELEGATED"
    using f(3) [of t'] rc' id(2) [of t'] refcount_sub_fields [of 512 "granules s t'"] by auto
  show "STATE (granules s' t') = GRANULE_STATE_DELEGATED" "mem s' t' = zero_data" using z(3) f(4) by simp_all
  have st: "STATE (granules s' h) = (if h = t' then GRANULE_STATE_DELEGATED else STATE (granules s h))"
    "\<not> LOCKED (granules s' h)" for h
    using f(3) [of h] dr(1,2) z id(2) [of h] by (auto split: if_splits)
  have "idle s'"
  proof (rule idle_change [OF realm_invD(1) [OF inv] f(1,2)])
    fix h
    show "\<not> LOCKED (granules s' h)" by (rule st(2))
    show "length (words (mem s' h)) = 512" using f(4) [of h] id(6) by (simp add: zero_data_def)
    have "granule_inv (granules s' t)"
      using rtt_inv_iff [of "granules s' t"] rtt_inv_iff [of "granules s t"] id(5) [of t] st(1) [of t] is_rttD(2) [OF it(2)] it(4) f(3) [of t] dr(3)
      by (cases taken) auto
    moreover have "granule_inv (granules s' t')" using inv_zero_refcount [of "granules s' t'"] z by simp
    ultimately show "REFCOUNT (granules s' h) = REFCOUNT (granules s h) \<and> STATE (granules s' h) = STATE (granules s h) \<or>
      granule_inv (granules s' h)" using f(3) [of h] by auto
    assume "STATE (granules s' h) = GRANULE_STATE_DELEGATED"
    then show "STATE (granules s h) = GRANULE_STATE_DELEGATED \<and> mem s' h = mem s h \<or> mem s' h = zero_data"
      using st(1) [of h] f(4) [of h] is_rttD(2) [OF it(2)] by (auto split: if_splits)
  qed
  moreover have "same_realms s s'" using f(1,4) st(1) is_rttD(2) [OF it(2)] is_rttD(2) [OF it(3)]
    by (auto simp: same_realms_def is_realm_def realm_ctx_def)
  moreover have "is_rtt s' h \<and> words (mem s' h) = (if h = t then (words (mem s t))[p mod 512 := e'] else words (mem s h)) \<and>
      (h \<noteq> t \<longrightarrow> REFCOUNT (granules s' h) = REFCOUNT (granules s h))" if h: "is_rtt s h" "h \<noteq> t'" for h
    using h f(1) f(3,4) [of h] st(1) [of h] by (auto simp: is_rtt_def split: if_splits)
  moreover have "STATE (granules s d) = GRANULE_STATE_DATA \<longrightarrow> STATE (granules s' d) = GRANULE_STATE_DATA" for d
    using st(1) [of d] is_rttD(2) [OF it(3)] by auto
  ultimately show "table_removed s s' g n p t t' e'"
    unfolding table_removed_def using inv it(1) n nt e' flat by blast
qed

end
