(* ===== verification/Rtt_Destroy.thy ===== *)
theory Rtt_Destroy
  imports Rtt_Remove
begin

text \<open>
  The command that destroys a table (\<^verbatim>\<open>smc_rtt_destroy\<close>): on a state that satisfies the invariant it computes a function of the
  state, and keeps the invariant and the memory of every realm.
\<close>

section \<open>The part under the lock of the table\<close>

definition destroyed_parent :: "bool \<Rightarrow> u64" where
  "destroyed_parent par = (if par then s2tte_create_unassigned_destroyed else s2tte_create_unassigned_ns)"

definition table_destroyed :: "s2tt_context \<Rightarrow> u64 \<Rightarrow> bool \<Rightarrow> nat \<Rightarrow> nat \<Rightarrow> nat \<Rightarrow> rmm \<Rightarrow> rmm" where
  "table_destroyed c map_addr par t i t' s =
    removed t i (destroyed_parent par) t' (tlbi_events c map_addr (if par then 1 else 512)) False s"

lemma destroy_table_held:
  assumes idle: "idle s" and wi: "llt_of wi = t" "wi_index wi = idx" "last_level wi = lv - 1"
    and rt: "is_rtt s t" "is_rtt s t'" "t \<noteq> t'" "REFCOUNT (granules s t) \<noteq> 0"
    and tab: "s2tte_is_table e (lv - 1)" "min_starting_level c \<le> lv - 1" "lv \<le> 3"
    and pa: "granule_at (arm_dram s) (to_pa_value e S2TT_PAGE_LEVEL (enable_lpa2 c)) = Some t'"
  shows "destroy_table c wi map_addr lv par e res (held {t} (no_slots(SLOT_RTT := Some t)) s) =
    Inr (if REFCOUNT (granules s t') \<noteq> 0 then ((rtt_error lv, False, res), held {t} (no_slots(SLOT_RTT := Some t)) s)
      else ((RMI_SUCCESS, True, res(1 := to_pa_value e S2TT_PAGE_LEVEL (enable_lpa2 c))),
        held {t} (no_slots(SLOT_RTT := Some t)) (table_destroyed c map_addr par t (unat idx) t' s)))"
proof -
  note id = idleD [OF idle]
  let ?pa = "to_pa_value e S2TT_PAGE_LEVEL (enable_lpa2 c)" and ?M = "no_slots(SLOT_RTT := Some t)"
  let ?M2 = "?M(SLOT_RTT2 := Some t')"
  let ?e' = "destroyed_parent par" and ?es = "tlbi_events c map_addr (if par then 1 else 512)"
  have gi: "granule_in s ?pa GRANULE_STATE_RTT = Some t'" using pa is_rttD(2) [OF rt(2)] by (simp add: granule_in_def)
  have fl: "find_lock_granule ?pa GRANULE_STATE_RTT (held {t} ?M s) = Inr (Some t', held {t', t} ?M s)"
    using find_lock_granule_held [of s ?pa "{t}" GRANULE_STATE_RTT ?M] id(3) gi pa idle_lockable [OF idle] rt(3) by simp
  have ne: "{t', t} - {t'} = {t}" using rt(3) by auto
  show ?thesis
  proof (cases "REFCOUNT (granules s t') = 0")
    case False
    have "granule_unlock t' (held {t', t} ?M s) = Inr ((), held {t} ?M s)"
      using id(2,5) [of t'] ne by (simp add: held_simps)
    then show ?thesis using False tab wi fl by (simp add: destroy_table_def run_simps s2tte_pa_table_run held_simps)
  next
    case True
    let ?s1 = "upd_granule t (add_desc (- 1)) s"
    let ?s' = "table_destroyed c map_addr par t (unat idx) t' s"
    have put: "atomic_granule_put t (held {t', t} ?M2 s) = Inr ((), held {t', t} ?M2 ?s1)"
      using rt(4) by (simp add: held_simps)
    have f: "granules ?s' t' = eor_state GRANULE_STATE_DELEGATED (granules s t')"
      using removed_fields(3) [OF rt(3)] by (simp add: table_destroyed_def)
    have z: "granule_inv (granules ?s' t')" "\<not> LOCKED (granules ?s' t')"
      using f inv_zero_refcount [of "granules ?s' t'"] True id(2) [of t'] by auto
    have ul: "granule_unlock t' (held {t', t} ?M ?s') = Inr ((), held {t} ?M ?s')"
      using z ne by (simp add: held_simps)
    have um: "buffer_unmap SLOT_RTT2 (held {t', t} ?M2 s1) = Inr ((), held {t', t} ?M s1)" for s1
      by (simp add: held_simps)
    have mp: "map_slot (Some t') SLOT_RTT2 (held {t', t} ?M s) = Inr ((), held {t', t} ?M2 s)"
      using id(3) is_rttD(1) [OF rt(2)] by (simp add: held_simps)
    have fin: "granule_set_state t' GRANULE_STATE_DELEGATED (held {t', t} ?M2 (upd_mem t' (\<lambda>_. zero_data)
        (upd_mem t (\<lambda>d. d\<lparr>words := (words d)[unat idx := ?e']\<rparr>) (log_tlbi ?es (upd_mem t (\<lambda>d. d\<lparr>words := (words d)[unat idx := 0]\<rparr>) ?s1))))) =
      Inr ((), held {t', t} ?M2 ?s')"
    proof -
      have "upd_mem t (\<lambda>d. d\<lparr>words := (words d)[unat idx := ?e']\<rparr>) (log_tlbi ?es (upd_mem t (\<lambda>d. d\<lparr>words := (words d)[unat idx := 0]\<rparr>) ?s1)) =
        page_set t (unat idx) ?e' (log_tlbi ?es ?s1)"
        by (simp add: page_set_def upd_mem_def log_tlbi_def)
      then show ?thesis by (simp add: held_simps table_destroyed_def removed_def)
    qed
    show ?thesis
      using True tab wi fl put um mp ul fin
      by (cases par) (simp_all add: destroy_table_def run_simps s2tte_pa_table_run held_simps destroyed_parent_def Let_def)
  qed
qed

section \<open>The command\<close>

definition rtt_destroy_spec :: "u64 \<Rightarrow> u64 \<Rightarrow> u64 \<Rightarrow> smc_result \<Rightarrow> rmm \<Rightarrow> smc_result \<times> rmm" where
  "rtt_destroy_spec rd_addr map_addr ulevel res s =
    (case granule_in s rd_addr GRANULE_STATE_RD of
       None \<Rightarrow> (res(0 := RMI_ERROR_INPUT, 2 := 0), s)
     | Some g \<Rightarrow>
         (let rd = d_rd (mem s g); c = realm_ctx s g; lv = sint ulevel; (t, l) = rtt_walk s c map_addr (lv - 1);
              i = entry_no map_addr l mod 512; e = words (mem s t) ! i; wi = walk_info s c map_addr (lv - 1)
          in if \<not> structure_ok rd map_addr lv then (res(0 := RMI_ERROR_INPUT, 2 := 0), s)
             else if l \<noteq> lv - 1 \<or> \<not> s2tte_is_table e l then (res(2 := skip_addr map_addr (words (mem s t)) wi, 0 := rtt_error l), s)
             else (let t' = the (next_table s c t i)
                   in if REFCOUNT (granules s t') \<noteq> 0 then (res(2 := map_addr, 0 := rtt_error lv), s)
                      else (let s' = table_destroyed c map_addr (addr_in_par rd map_addr) t i t' s
                            in (res(1 := to_pa_value e S2TT_PAGE_LEVEL (enable_lpa2 c), 2 := skip_addr map_addr (words (mem s' t)) wi,
                                  0 := RMI_SUCCESS), s')))))"

lemma table_destroyed_inv:
  assumes inv: "realm_inv s" and g: "is_realm s g" and so: "structure_ok (d_rd (mem s g)) map_addr lv"
    and w: "rtt_walk s (realm_ctx s g) map_addr (lv - 1) = (t, lv - 1)"
    and tab: "s2tte_is_table (words (mem s t) ! (entry_no map_addr (lv - 1) mod 512)) (lv - 1)"
    and nt: "next_table s (realm_ctx s g) t (entry_no map_addr (lv - 1) mod 512) = Some t'" and z: "REFCOUNT (granules s t') = 0"
  defines "s' \<equiv> table_destroyed (realm_ctx s g) map_addr (addr_in_par (d_rd (mem s g)) map_addr) t (entry_no map_addr (lv - 1) mod 512) t' s"
  shows "realm_inv s'" "maps s' h P d \<longleftrightarrow> maps s h P d" "STATE (granules s t') = GRANULE_STATE_RTT"
    "STATE (granules s' t') = GRANULE_STATE_DELEGATED" "mem s' t' = zero_data"
proof -
  let ?c = "realm_ctx s g" and ?p = "entry_no map_addr (lv - 1)"
  define e' where "e' = destroyed_parent (addr_in_par (d_rd (mem s g)) map_addr)"
  define k where "k = (if addr_in_par (d_rd (mem s g)) map_addr then Unassigned_Destroyed else Unassigned_Ns)"
  have k: "kinds e' l = {k}" "k \<in> {Unassigned_Destroyed, Unassigned_Ns}" for l
    using created_unassigned_kinds by (auto simp: e'_def k_def destroyed_parent_def)
  have c: "rd_s2_ctx (d_rd (mem s g)) = ?c" by (simp add: realm_ctx_def)
  have a: "map_addr < push_bit (unat (ipa_bits ?c)) 1" and lv: "s2_starting_level ?c \<le> lv - 1" "lv - 1 \<le> 2"
    using so realm_ipa_size_ctx [OF g] by (auto simp: structure_ok_def realm_rtt_starting_level_def c)
  obtain n where n: "lv - 1 = level ?c n" "n < depth ?c" "in_tree s g n (?p div 512) t" "is_rtt s t" "is_rtt s t'" "t \<noteq> t'"
    "REFCOUNT (granules s t) \<noteq> 0" "unat (REFCOUNT (granules s t')) = refs s (level ?c (Suc n)) t'"
    by (rule child_of_walk [OF inv g a lv w tab]) (use nt in \<open>auto simp: level_def algebra_simps\<close>)
  have wf: "wf_ctx ?c" using tree_okD(1) [OF realm_invD(2) [OF inv] g] .
  have un: "\<not> counted (words (mem s t') ! i) (level ?c (Suc n))" if "i < 512" for i
    using n(8) z refs_0 [of s "level ?c (Suc n)" t'] that by simp
  have flat: "\<not> s2tte_is_table (words (mem s t') ! i) (level ?c (Suc n))" if "i < 512" for i
    using un [OF that] by (auto simp: counted_def has_kind_def)
  have e': "\<not> entry_is_table e'" using kinds_is_table [OF k(1) [of "level ?c n"]] k(2) entry_is_table_iff [OF level_below(1) [OF n(2)]] by auto
  have s': "s' = removed t (?p mod 512) e' t' (tlbi_events ?c map_addr (if addr_in_par (d_rd (mem s g)) map_addr then 1 else 512)) False s"
    by (simp add: s'_def table_destroyed_def e'_def)
  note rr = removed_removed [OF inv n(2-6) nt e' n(7) flat, where taken = False and
      es = "tlbi_events ?c map_addr (if addr_in_par (d_rd (mem s g)) map_addr then 1 else 512)", folded s']
  show "STATE (granules s t') = GRANULE_STATE_RTT" using is_rttD(2) [OF n(5)] .
  show "STATE (granules s' t') = GRANULE_STATE_DELEGATED" "mem s' t' = zero_data" using rr(3,4) z by simp_all
  have par: "in_par ?c n ?p \<longleftrightarrow> addr_in_par (d_rd (mem s g)) map_addr"
    using in_par_addr(1) [OF wf n(1)] addr_in_par_iff [of "d_rd (mem s g)" map_addr] wf by (simp only: c)
  have ok: "entry_ok s ?c n ?p e'"
    unfolding entry_ok_def using k(1) [of "level ?c n"] par by (intro exI [of _ k]) (auto simp: k_def data_kinds_def ns_kinds_def)
  have nc: "\<not> counted e' (level ?c n)" using kinds_counted [OF k(1)] k(2) by (auto simp: data_kinds_def)
  have same: "maps_by s ?c n ?p e' P d \<longleftrightarrow> (\<exists>i < 512. maps_by s ?c (Suc n) (?p * 512 + i) (words (mem s t') ! i) P d)" for P d
  proof -
    have "\<not> maps_by s ?c n ?p e' P d" using k(1) [of "level ?c n"] k(2) by (auto simp: maps_by_def data_kinds_def)
    moreover have "\<not> maps_by s ?c (Suc n) (?p * 512 + i) (words (mem s t') ! i) P d" if i: "i < 512" for i
      using un [OF i] kinds_counted by (auto simp: maps_by_def)
    ultimately show ?thesis by blast
  qed
  have tr: "table_removed s s' g n ?p t t' e'" using rr(1) z by simp
  have cnt: "unat (REFCOUNT (granules s' t)) + 1 = unat (REFCOUNT (granules s t)) + of_bool (counted e' (level ?c n))"
    using rr(2) z nc by simp
  show "realm_inv s'" "maps s' h P d \<longleftrightarrow> maps s h P d" by (rule table_removed_inv [OF tr ok cnt same])+
qed

lemma smc_rtt_destroy_run:
  assumes inv: "realm_inv s"
  shows "smc_rtt_destroy rd_addr map_addr ulevel res s = Inr (rtt_destroy_spec rd_addr map_addr ulevel res s)"
proof (cases "granule_in s rd_addr GRANULE_STATE_RD")
  case None
  note idle = realm_invD(1) [OF inv]
  show ?thesis
    using find_rd_none [OF idle None] idle_held [OF idle] None by (simp add: smc_rtt_destroy_def run_simps rtt_destroy_spec_def Let_def)
next
  case (Some g)
  note idle = realm_invD(1) [OF inv] note id = idleD [OF idle] and rs = rd_steps [OF idle Some]
  let ?rd = "d_rd (mem s g)" and ?c = "realm_ctx s g" and ?lv = "sint ulevel"
  have c: "rd_s2_ctx ?rd = ?c" by (simp add: realm_ctx_def)
  have realm: "is_realm s g" using is_realm_in [OF Some] .
  have wf: "wf_ctx (rd_s2_ctx ?rd)" using tree_okD(1) [OF realm_invD(2) [OF inv] realm] c by simp
  then have ms: "min_starting_level ?c \<le> s2_starting_level ?c" by (simp add: wf_ctx_def c)
  obtain t l where w: "rtt_walk s ?c map_addr (?lv - 1) = (t, l)" by fastforce
  have "smc_rtt_destroy rd_addr map_addr ulevel res (held {} no_slots s) = Inr (rtt_destroy_spec rd_addr map_addr ulevel res s)"
  proof (cases "structure_ok ?rd map_addr ?lv")
    case False
    then show ?thesis using Some w
      by (simp add: smc_rtt_destroy_def run_simps rs held_simps wf rtt_destroy_spec_def Let_def)
  next
    case True
    have a: "map_addr < push_bit (unat (ipa_bits ?c)) 1" and lv: "s2_starting_level ?c \<le> ?lv - 1" "?lv - 1 \<le> 2" "?lv - 1 \<le> 3" "?lv \<le> 3"
      using True realm_ipa_size_ctx [OF realm] by (auto simp: structure_ok_def realm_rtt_starting_level_def c)
    let ?i = "entry_no map_addr l mod 512" and ?wi = "walk_info s ?c map_addr (?lv - 1)" and ?par = "addr_in_par ?rd map_addr"
    let ?e = "words (mem s t) ! ?i" and ?M = "no_slots(SLOT_RTT := Some t)"
    obtain n where n: "l = level ?c n" "l \<le> ?lv - 1" "is_rtt s t" "unat (s2_addr_to_idx map_addr l) = ?i"
      by (rule realm_walk [OF inv realm a lv(1,3) w])
    have l3: "l \<le> 3" using n(2) lv(3) by simp
    note ws = walk_steps [OF inv realm a lv(1,3) w]
    have ml: "min_starting_level ?c \<le> l" using ms n(1) by (simp add: level_def)
    have skip: "s2tt_skip_non_live_entries ?c map_addr tab ?wi s1 = Inr (skip_addr map_addr tab ?wi, s1)" for tab and s1 :: rmm
      by (rule skip_run) (use w ml l3 n(4) in simp_all)
    define r where "r = (if l \<noteq> ?lv - 1 \<or> \<not> s2tte_is_table ?e l then ((rtt_error l, True, res), s)
      else if REFCOUNT (granules s (the (next_table s ?c t ?i))) \<noteq> 0 then ((rtt_error ?lv, False, res), s)
      else ((RMI_SUCCESS, True, res(1 := to_pa_value ?e S2TT_PAGE_LEVEL (enable_lpa2 ?c))), table_destroyed ?c map_addr ?par t ?i (the (next_table s ?c t ?i)) s))"
    have dt: "destroy_table ?c ?wi map_addr ?lv ?par ?e res (held {t} ?M s) = Inr (fst r, held {t} ?M (snd r))
      \<and> realm_inv (snd r)"
    proof (cases "l \<noteq> ?lv - 1 \<or> \<not> s2tte_is_table ?e l")
      case True
      then show ?thesis using w inv by (auto simp: destroy_table_def run_simps r_def)
    next
      case False
      then have l: "l = ?lv - 1" and tab: "s2tte_is_table (words (mem s t) ! (entry_no map_addr (?lv - 1) mod 512)) (?lv - 1)" by auto
      note w' = w [unfolded l]
      obtain t' where t': "next_table s ?c t (entry_no map_addr (?lv - 1) mod 512) = Some t'" "is_rtt s t" "is_rtt s t'" "t \<noteq> t'"
        "REFCOUNT (granules s t) \<noteq> 0" "granule_at (arm_dram s) (to_pa_value (words (mem s t) ! (entry_no map_addr (?lv - 1) mod 512)) S2TT_PAGE_LEVEL (enable_lpa2 ?c)) = Some t'"
        by (rule child_of_walk [OF inv realm a lv(1,2) w' tab])
      note td = destroy_table_held [OF idle _ _ _ t'(2-5) tab _ lv(4) t'(6), of ?wi "s2_addr_to_idx map_addr l"]
      show ?thesis
        using td w' t'(1) n(4) ml inv table_destroyed_inv(1) [OF inv realm True w' tab t'(1)] False
        by (simp add: r_def l)
    qed
    then have dt: "destroy_table ?c ?wi map_addr ?lv ?par ?e res (held {t} ?M s) = Inr (fst r, held {t} ?M (snd r))"
      and inv': "realm_inv (snd r)" by blast+
    have ul: "granule_unlock t (held {t} no_slots (snd r)) = Inr ((), snd r)"
      using ws(6) idleD [OF realm_invD(1) [OF inv']] by simp
    have spec: "rtt_destroy_spec rd_addr map_addr ulevel res s =
      (case fst r of (ret, sk, res') \<Rightarrow> (res'(2 := if sk then skip_addr map_addr (words (mem (snd r) t)) ?wi else map_addr, 0 := ret), snd r))"
      using Some True w by (simp add: rtt_destroy_spec_def r_def Let_def)
    obtain ret sk res' where fr: "fst r = (ret, sk, res')" by (cases "fst r")
    show ?thesis unfolding spec using Some True w dt fr ul n(4)
      by (simp add: smc_rtt_destroy_def run_simps rs held_simps validate_rtt_structure_run [OF wf] c ws skip Let_def)
  qed
  then show ?thesis using idle_held [OF idle] by simp
qed

section \<open>Correctness\<close>

text \<open>The entry for the address one level up names a table without references.\<close>

definition unused_table :: "rmm \<Rightarrow> nat \<Rightarrow> u64 \<Rightarrow> int \<Rightarrow> nat \<Rightarrow> bool" where
  "unused_table s g map_addr lv t' \<longleftrightarrow>
    (let c = realm_ctx s g; (t, l) = rtt_walk s c map_addr (lv - 1); i = entry_no map_addr l mod 512
     in l = lv - 1 \<and> s2tte_is_table (words (mem s t) ! i) l \<and> next_table s c t i = Some t' \<and> REFCOUNT (granules s t') = 0)"


text \<open>The example realm without its page.\<close>

definition demo_unused :: rmm where
  "demo_unused = data_destroyed demo_s2_ctx 7 0x1000 6 1 demo_realm"

lemma demo_unused_inv: "realm_inv demo_unused"
proof -
  have "entry_no 0x1000 3 mod 512 = 1" by simp
  moreover have "\<exists>k \<in> data_kinds. has_kind (words (mem demo_realm 6) ! 1) 3 k"
    using kinds_has [OF demo_kinds(4)] by (simp add: demo_nth data_kinds_def)
  moreover have "0x1000 < (push_bit (unat (ipa_bits demo_s2_ctx)) 1 :: u64)" by (simp add: demo_s2_ctx_def)
  ultimately show ?thesis
    using data_destroyed_inv(1) [OF demo_realm_inv, of 2 "0x1000" 6 7] demo_rd_fields(4) [of "0x1000"]
    by (simp add: demo_unused_def demo_is_realm demo_ctx demo_walk demo_nth demo_kinds demo_granule_addr)
qed

lemma demo_unused_fields:
  "arm_dram demo_unused = fvp_layout" "STATE (granules demo_unused 2) = 2" "d_rd (mem demo_unused 2) = demo_rd"
  "words (mem demo_unused 4) = demo_words 4" "words (mem demo_unused 5) = demo_words 5" "REFCOUNT (granules demo_unused 6) = 0"
proof -
  have ne: "(6 :: nat) \<noteq> 7" "REFCOUNT (granules demo_realm 6) \<noteq> 0" by (simp_all add: demo_desc_fields)
  note f = data_destroyed_fields(1-4) [OF ne, where c = demo_s2_ctx and addr = "0x1000" and i = 1, folded demo_unused_def]
    and r = data_destroyed_fields(7) [OF ne]
  show "arm_dram demo_unused = fvp_layout" "STATE (granules demo_unused 2) = 2" "d_rd (mem demo_unused 2) = demo_rd"
    "words (mem demo_unused 4) = demo_words 4" "words (mem demo_unused 5) = demo_words 5"
    using f(1,3,4) by (simp_all add: demo_desc_fields)
  show "REFCOUNT (granules demo_unused 6) = 0" using f(3) [of 6] r by (simp add: demo_desc_fields unat_eq_zero)
qed


end
