(* ===== verification/Rtt_Fold.thy ===== *)
theory Rtt_Fold
  imports Rtt_Destroy
begin

text \<open>
  The command that folds a table (\<^verbatim>\<open>smc_rtt_fold\<close>). A table is folded when its entries are all unassigned of one kind, or map a
  contiguous and aligned block with one kind and, for non-secure memory, one set of attributes. The entry that replaces the
  table maps the same memory.
\<close>

section \<open>Tables that can be folded\<close>

definition unassigned_kinds :: "s2tte_kind set" where
  "unassigned_kinds = {Unassigned_Empty, Unassigned_Ram, Unassigned_Destroyed, Unassigned_Ns}"

definition block_of :: "s2tt_context \<Rightarrow> u64 list \<Rightarrow> int \<Rightarrow> s2tte_kind \<Rightarrow> bool" where
  "block_of c tab lv k \<longleftrightarrow> (let base = to_pa_value (tab ! 0) lv (enable_lpa2 c) in
     addr_lvl_aligned (enable_lpa2 c) base (lv - 1) \<and>
     (\<forall>i < 512. kinds (tab ! i) lv = {k} \<and> to_pa_value (tab ! i) lv (enable_lpa2 c) = nth_pa base lv i \<and>
        (k = Assigned_Ns \<longrightarrow> tab ! i AND S2TTE_NS_ATTR_MASK = tab ! 0 AND S2TTE_NS_ATTR_MASK)))"

definition foldable :: "s2tt_context \<Rightarrow> u64 list \<Rightarrow> int \<Rightarrow> bool" where
  "foldable c tab lv \<longleftrightarrow> (\<exists>k \<in> unassigned_kinds. \<forall>i < 512. kinds (tab ! i) lv = {k}) \<or>
     S2TT_MIN_BLOCK_LEVEL < lv \<and> (\<exists>k \<in> insert Assigned_Ns data_kinds. block_of c tab lv k)"

lemma block_of_kind: "block_of c tab lv k \<Longrightarrow> i < 512 \<Longrightarrow> kinds (tab ! i) lv = {k}"
  unfolding block_of_def Let_def by blast

lemma block_of_addr:
  "block_of c tab lv k \<Longrightarrow> addr_lvl_aligned (enable_lpa2 c) (to_pa_value (tab ! 0) lv (enable_lpa2 c)) (lv - 1)"
  "block_of c tab lv k \<Longrightarrow> i < 512 \<Longrightarrow> to_pa_value (tab ! i) lv (enable_lpa2 c) = nth_pa (to_pa_value (tab ! 0) lv (enable_lpa2 c)) lv i"
  unfolding block_of_def Let_def by blast+

lemma assigned_ns_kinds: "1 \<le> lv \<Longrightarrow> kinds (assigned_ns_value lpa2 x lv) lv = {Assigned_Ns}"
  by (rule kinds_valid(2)) (simp_all add: bit_assigned_ns)

text \<open>The checks of the code in terms of the kinds of the entries.\<close>

lemma uniform_iff:
  assumes "\<And>i. i < 512 \<Longrightarrow> kinds (tab ! i) lv = {K i}" "\<And>i. i < 512 \<Longrightarrow> f (tab ! i) \<longleftrightarrow> K i = k"
  shows "table_is_uniform_block tab f \<longleftrightarrow> (\<forall>i < 512. kinds (tab ! i) lv = {k})"
  using assms by (auto simp: table_is_uniform_block_def list_all_iff)

lemma unassigned_block_iff:
  assumes K: "\<And>i. i < 512 \<Longrightarrow> kinds (tab ! i) lv = {K i}"
  shows "s2tt_is_unassigned_empty_block tab \<longleftrightarrow> (\<forall>i < 512. kinds (tab ! i) lv = {Unassigned_Empty})"
    "s2tt_is_unassigned_ram_block tab \<longleftrightarrow> (\<forall>i < 512. kinds (tab ! i) lv = {Unassigned_Ram})"
    "s2tt_is_unassigned_destroyed_block tab \<longleftrightarrow> (\<forall>i < 512. kinds (tab ! i) lv = {Unassigned_Destroyed})"
    "s2tt_is_unassigned_ns_block tab \<longleftrightarrow> (\<forall>i < 512. kinds (tab ! i) lv = {Unassigned_Ns})"
  unfolding s2tt_is_unassigned_empty_block_def s2tt_is_unassigned_ram_block_def s2tt_is_unassigned_destroyed_block_def
    s2tt_is_unassigned_ns_block_def
  by (rule uniform_iff [where K = K and lv = lv, OF K]; simp add: data_kind_cases [OF K])+

lemma maps_block_run:
  assumes K: "\<And>i. i < 512 \<Longrightarrow> kinds (tab ! i) lv = {K i}" and f: "block_checker f" and lv: "min_starting_level c < lv" "lv \<le> 3"
    and k: "\<And>i. i < 512 \<Longrightarrow> f (tab ! i) lv \<longleftrightarrow> K i = k" and ns: "ns \<longleftrightarrow> k = Assigned_Ns"
  shows "table_maps_block c tab lv f ns s = Inr (block_of c tab lv k, s)"
proof -
  have "(f (tab ! 0) lv \<and> addr_lvl_aligned (enable_lpa2 c) (to_pa_value (tab ! 0) lv (enable_lpa2 c)) (lv - 1) \<and>
      (\<forall>i<512. maps_entry c tab lv f ns (to_pa_value (tab ! 0) lv (enable_lpa2 c)) (tab ! 0 AND S2TTE_NS_ATTR_MASK) i)) \<longleftrightarrow>
    block_of c tab lv k"

  proof -
    let ?b = "to_pa_value (tab ! 0) lv (enable_lpa2 c)" and ?a = "tab ! 0 AND S2TTE_NS_ATTR_MASK"
    have m: "maps_entry c tab lv f ns ?b ?a i \<longleftrightarrow> kinds (tab ! i) lv = {k} \<and> to_pa_value (tab ! i) lv (enable_lpa2 c) = nth_pa ?b lv i \<and>
        (k = Assigned_Ns \<longrightarrow> tab ! i AND S2TTE_NS_ATTR_MASK = ?a)" if "i < 512" for i
      using K [OF that] k [OF that] ns by (auto simp: maps_entry_def)
    have "f (tab ! 0) lv" if "\<forall>i<512. maps_entry c tab lv f ns ?b ?a i"
      using that [rule_format, of 0] by (simp add: maps_entry_def)
    then show ?thesis unfolding block_of_def Let_def using m by blast
  qed
  then show ?thesis unfolding table_maps_block_run [OF f lv] by simp
qed

lemma assigned_block_run:
  assumes K: "\<And>i. i < 512 \<Longrightarrow> kinds (tab ! i) lv = {K i}" and lv: "min_starting_level c < lv" "lv \<le> 3"
  shows "s2tt_maps_assigned_empty_block c tab lv s = Inr (block_of c tab lv Assigned_Empty, s)"
    "s2tt_maps_assigned_ram_block c tab lv s = Inr (block_of c tab lv Assigned_Ram, s)"
    "s2tt_maps_assigned_destroyed_block c tab lv s = Inr (block_of c tab lv Assigned_Destroyed, s)"
    "s2tt_maps_assigned_ns_block c tab lv s = Inr (block_of c tab lv Assigned_Ns, s)"
  unfolding s2tt_maps_assigned_empty_block_def s2tt_maps_assigned_ram_block_def s2tt_maps_assigned_destroyed_block_def
    s2tt_maps_assigned_ns_block_def
  by (rule maps_block_run [where K = K and lv = lv, OF K _ lv]; simp add: data_kind_cases [OF K] block_checker_def)+

section \<open>The new entry\<close>

text \<open>What the entry that replaces a table has in common with it.\<close>

definition folds_to :: "s2tt_context \<Rightarrow> u64 list \<Rightarrow> int \<Rightarrow> u64 \<Rightarrow> s2tte_kind \<Rightarrow> bool" where
  "folds_to c tab lv e' k \<longleftrightarrow> kinds e' (lv - 1) = {k} \<and> (\<forall>i < 512. kinds (tab ! i) lv = {k}) \<and> k \<noteq> Table \<and>
    (k \<in> insert Assigned_Ns data_kinds \<longrightarrow> 1 \<le> lv - 1) \<and>
    (k \<in> data_kinds \<longrightarrow> addr_lvl_aligned (enable_lpa2 c) (to_pa_value e' (lv - 1) (enable_lpa2 c)) (lv - 1) \<and>
      (\<forall>i < 512. to_pa_value (tab ! i) lv (enable_lpa2 c) = nth_pa (to_pa_value e' (lv - 1) (enable_lpa2 c)) lv i))"

lemma fold_unassigned_held:
  assumes K: "\<And>i. i < 512 \<Longrightarrow> kinds (words (mem s t') ! i) lv = {K i}" "\<And>i. i < 512 \<Longrightarrow> K i \<notin> insert Table data_kinds"
    and lv: "min_starting_level c < lv" "lv \<le> 3" and t: "llt_of wi = t" "t \<in> L" "REFCOUNT (granules s t) \<noteq> 0"
  shows "if foldable c (words (mem s t')) lv
    then \<exists>e' k. fold_unassigned c wi t' lv (held L M s) = Inr (Inr e', held L M (upd_granule t (add_desc (- 1)) s)) \<and>
      folds_to c (words (mem s t')) lv e' k \<and> k \<notin> data_kinds
    else \<exists>err. fold_unassigned c wi t' lv (held L M s) = Inr (Inl (rtt_error err), held L M s)"
proof -
  let ?tab = "words (mem s t')"
  note ub = unassigned_block_iff [OF K(1)] and nb = assigned_block_run(4) [OF K(1) lv] and cu = created_unassigned_kinds
  have put: "atomic_granule_put t (held L M s) = Inr ((), held L M (upd_granule t (add_desc (- 1)) s))" using t by (simp add: held_simps)
  have "\<not> block_of c ?tab lv k" if "k \<in> data_kinds" for k
    using K(1) [of 0] K(2) [of 0] that block_of_kind [of c ?tab lv k 0] by auto
  then have fo: "foldable c ?tab lv \<longleftrightarrow> (\<exists>k \<in> unassigned_kinds. \<forall>i < 512. kinds (?tab ! i) lv = {k}) \<or> 1 < lv \<and> block_of c ?tab lv Assigned_Ns"
    by (auto simp: foldable_def)
  note defs = fold_unassigned_def run_simps held_simps ub nb put t(1)
  consider k where "k \<in> unassigned_kinds" "\<forall>i < 512. kinds (?tab ! i) lv = {k}"
    | "\<not> (\<exists>k \<in> unassigned_kinds. \<forall>i < 512. kinds (?tab ! i) lv = {k})" by blast
  then show ?thesis
  proof cases
    case 1
    have f: "foldable c ?tab lv" using 1 fo by blast
    have u: "(\<forall>i < 512. kinds (?tab ! i) lv = {k'}) \<longleftrightarrow> k' = k" for k' using 1(2) by (metis singleton_inject zero_less_numeral)
    have "\<exists>e'. fold_unassigned c wi t' lv (held L M s) = Inr (Inr e', held L M (upd_granule t (add_desc (- 1)) s)) \<and> kinds e' (lv - 1) = {k}"
      using 1(1) by (auto simp: unassigned_kinds_def defs u cu)
    then show ?thesis using f 1 by (auto simp: folds_to_def unassigned_kinds_def data_kinds_def)
  next
    case 2
    have u: "\<not> (\<forall>i < 512. kinds (?tab ! i) lv = {k})" if "k \<in> unassigned_kinds" for k using 2 that by blast
    have run: "fold_unassigned c wi t' lv (held L M s) =
      (if block_of c ?tab lv Assigned_Ns
       then if lv \<le> 1 then Inr (Inl (rtt_error (last_level wi)), held L M s)
         else Inr (Inr (assigned_ns_value (enable_lpa2 c) (?tab ! 0) (lv - 1)), held L M (upd_granule t (add_desc (- 1)) s))
       else Inr (Inl (rtt_error lv), held L M s))"
    proof -
      have "\<not> s2tt_is_unassigned_empty_block ?tab" "\<not> s2tt_is_unassigned_ram_block ?tab" "\<not> s2tt_is_unassigned_destroyed_block ?tab"
        "\<not> s2tt_is_unassigned_ns_block ?tab"
        using u [of Unassigned_Empty] u [of Unassigned_Ram] u [of Unassigned_Destroyed] u [of Unassigned_Ns] ub
        by (simp_all add: unassigned_kinds_def del: not_all)
      then show ?thesis using lv(2) by (simp add: fold_unassigned_def run_simps held_simps nb put t(1) s2tte_create_assigned_ns_def)
    qed
    show ?thesis
    proof (cases "block_of c ?tab lv Assigned_Ns \<and> 1 < lv")
      case True
      then have "folds_to c ?tab lv (assigned_ns_value (enable_lpa2 c) (?tab ! 0) (lv - 1)) Assigned_Ns"
        using assigned_ns_kinds [of "lv - 1"] block_of_kind [of c ?tab lv] by (simp add: folds_to_def data_kinds_def)
      moreover have "Assigned_Ns \<notin> data_kinds" by (simp add: data_kinds_def)
      ultimately show ?thesis using True fo run by auto
    next
      case False
      then show ?thesis using 2 fo run by (auto split: if_splits)
    qed
  qed
qed


lemma assigned_fold:
  assumes b: "block_of c tab lv k" and lv: "2 \<le> lv" "lv \<le> 3"
    and k: "(k, r) \<in> {(Assigned_Empty, S2TTE_INVALID_RIPAS_EMPTY), (Assigned_Ram, S2TTE_INVALID_RIPAS_RAM), (Assigned_Destroyed, S2TTE_INVALID_RIPAS_DESTROYED)}"
  shows "folds_to c tab lv (assigned_value (enable_lpa2 c) (to_pa_value (tab ! 0) lv (enable_lpa2 c)) (lv - 1) r) k"
proof -
  let ?b = "to_pa_value (tab ! 0) lv (enable_lpa2 c)"
  have al: "addr_lvl_aligned (enable_lpa2 c) ?b (lv - 1)" using block_of_addr(1) [OF b] .
  have l: "1 \<le> lv - 1" "lv - 1 \<le> 3" using lv by simp_all
  have "kinds (assigned_value (enable_lpa2 c) ?b (lv - 1) r) (lv - 1) = {k} \<and> to_pa_value (assigned_value (enable_lpa2 c) ?b (lv - 1) r) (lv - 1) (enable_lpa2 c) = ?b"

  proof -
    consider "k = Assigned_Empty" "r = S2TTE_INVALID_RIPAS_EMPTY" | "k = Assigned_Ram" "r = S2TTE_INVALID_RIPAS_RAM"
      | "k = Assigned_Destroyed" "r = S2TTE_INVALID_RIPAS_DESTROYED" using k by blast
    then show ?thesis
      by cases (use assigned_ram_ok [OF l al, of r] assigned_invalid_ok [OF al, of r] in \<open>simp_all add: bit_s2tte_invalid\<close>)
  qed
  moreover have "k \<noteq> Table" "k \<noteq> Assigned_Ns" using k by auto
  ultimately show ?thesis using al l block_of_kind [OF b] block_of_addr(2) [OF b] unfolding folds_to_def by metis
qed

lemma fold_assigned_held:
  assumes K: "\<And>i. i < 512 \<Longrightarrow> kinds (words (mem s t') ! i) lv = {K i}" "\<And>i. i < 512 \<Longrightarrow> K i \<in> insert Table data_kinds"
    and lv: "min_starting_level c < lv" "lv \<le> 3" and t: "t' \<in> L" "REFCOUNT (granules s t') = 512"
  shows "if foldable c (words (mem s t')) lv
    then \<exists>e' k. fold_assigned c wi t' lv (held L M s) = Inr (Inr e', held L M (upd_granule t' (add_desc (- 512)) s)) \<and>
      folds_to c (words (mem s t')) lv e' k \<and> k \<in> data_kinds
    else \<exists>err. fold_assigned c wi t' lv (held L M s) = Inr (Inl (rtt_error err), held L M s)"
proof -
  let ?tab = "words (mem s t')" let ?b = "to_pa_value (?tab ! 0) lv (enable_lpa2 c)"
  note ab = assigned_block_run [OF K(1) lv]
  have dec: "granule_refcount_dec t' 512 (held L M s) = Inr ((), held L M (upd_granule t' (add_desc (- 512)) s))"
    using t by (simp add: held_simps)
  have no: "\<not> (\<exists>k \<in> unassigned_kinds. \<forall>i < 512. kinds (?tab ! i) lv = {k})" "\<not> block_of c ?tab lv Assigned_Ns"
  proof -
    show "\<not> (\<exists>k \<in> unassigned_kinds. \<forall>i < 512. kinds (?tab ! i) lv = {k})"
    proof
      assume "\<exists>k \<in> unassigned_kinds. \<forall>i < 512. kinds (?tab ! i) lv = {k}"
      then obtain k where "k \<in> unassigned_kinds" "kinds (?tab ! 0) lv = {k}" by auto
      then show False using K(1) [of 0] K(2) [of 0] by (auto simp: unassigned_kinds_def data_kinds_def)
    qed
    show "\<not> block_of c ?tab lv Assigned_Ns"
      using block_of_kind [of c ?tab lv Assigned_Ns 0] K(1) [of 0] K(2) [of 0] by (auto simp: data_kinds_def)
  qed
  then have fo: "foldable c ?tab lv \<longleftrightarrow> 1 < lv \<and> (\<exists>k \<in> data_kinds. block_of c ?tab lv k)" by (auto simp: foldable_def)
  show ?thesis
  proof (cases "1 < lv")
    case False
    then show ?thesis using fo by (auto simp: fold_assigned_def run_simps)
  next
    case l: True
    have pa: "\<exists>b. s2tte_pa c (?tab ! 0) lv s1 = Inr (b, s1) \<and> (K 0 \<noteq> Table \<longrightarrow> b = ?b)" for s1 :: rmm
    proof (cases "K 0 = Table")
      case True
      then have tb: "s2tte_is_table (?tab ! 0) lv" using kinds_is_table [OF K(1) [of 0]] by simp
      then have "lv \<le> 2" using lv(2) by (auto simp: s2tte_is_table_def)
      then show ?thesis using s2tte_pa_table_run [OF tb, of c s1] lv(1) True by auto
    next
      case False
      then show ?thesis using s2tte_pa_run [of c lv "?tab ! 0" "K 0"] K(1) [of 0] K(2) [of 0] lv by (auto simp: data_kinds_def)
    qed
    have bk: "k \<in> data_kinds \<Longrightarrow> block_of c ?tab lv k \<Longrightarrow> K 0 \<noteq> Table" for k
      using block_of_kind [of c ?tab lv k 0] K(1) [of 0] by (auto simp: data_kinds_def)
    obtain b where b: "s2tte_pa c (?tab ! 0) lv (held L M s) = Inr (b, held L M s)" "K 0 \<noteq> Table \<longrightarrow> b = ?b" using pa by blast
    have al: "addr_lvl_aligned (enable_lpa2 c) ?b (lv - 1)" if "block_of c ?tab lv k" for k using block_of_addr(1) [OF that] .
    note cr = create_assigned_runs [of "lv - 1" c ?b, OF _ _ al]
    show ?thesis
    proof (cases "\<exists>k \<in> data_kinds. block_of c ?tab lv k")
      case False
      then have "\<not> block_of c ?tab lv Assigned_Empty" "\<not> block_of c ?tab lv Assigned_Ram" "\<not> block_of c ?tab lv Assigned_Destroyed"
        by (auto simp: data_kinds_def)
      then show ?thesis using fo False l b by (auto simp: fold_assigned_def run_simps held_simps ab)
    next
      case True
      then have f: "foldable c ?tab lv" and bb: "b = ?b" using fo l bk b(2) by blast+
      define k where "k = (if block_of c ?tab lv Assigned_Empty then Assigned_Empty else if block_of c ?tab lv Assigned_Ram then Assigned_Ram else Assigned_Destroyed)"
      define r where "r = (if block_of c ?tab lv Assigned_Empty then S2TTE_INVALID_RIPAS_EMPTY else if block_of c ?tab lv Assigned_Ram then S2TTE_INVALID_RIPAS_RAM else S2TTE_INVALID_RIPAS_DESTROYED)"
      have k: "block_of c ?tab lv k" "k \<in> data_kinds" using True by (auto simp: k_def data_kinds_def)
      have run: "fold_assigned c wi t' lv (held L M s) = Inr (Inr (assigned_value (enable_lpa2 c) ?b (lv - 1) r), held L M (upd_granule t' (add_desc (- 512)) s))"

      proof -
        have "block_of c ?tab lv Assigned_Empty \<or> block_of c ?tab lv Assigned_Ram \<or> block_of c ?tab lv Assigned_Destroyed"
          using True by (auto simp: data_kinds_def)
        then show ?thesis
          using l lv b bb al [OF k(1)] by (auto simp: fold_assigned_def run_simps held_simps ab dec r_def)
      qed
      have "folds_to c ?tab lv (assigned_value (enable_lpa2 c) ?b (lv - 1) r) k"
        by (rule assigned_fold [OF k(1)]) (use l lv in \<open>auto simp: k_def r_def\<close>)
      then show ?thesis unfolding if_P [OF f] using run k(2) by blast
    qed
  qed
qed

lemma fold_entry_held:
  assumes K: "\<And>i. i < 512 \<Longrightarrow> kinds (words (mem s t') ! i) lv = {K i}" and rc: "unat (REFCOUNT (granules s t')) = refs s lv t'"
    and lv: "min_starting_level c < lv" "lv \<le> 3" and t: "llt_of wi = t" "t \<in> L" "REFCOUNT (granules s t) \<noteq> 0" "t' \<in> L"
  shows "if foldable c (words (mem s t')) lv
    then \<exists>e' k taken. fold_entry c wi t' lv (held L M s) =
        Inr (Inr e', held L M (if taken then upd_granule t' (add_desc (- 512)) s else upd_granule t (add_desc (- 1)) s)) \<and>
      folds_to c (words (mem s t')) lv e' k \<and> (taken \<longleftrightarrow> k \<in> data_kinds) \<and> REFCOUNT (granules s t') = (if taken then 512 else 0)
    else \<exists>err. fold_entry c wi t' lv (held L M s) = Inr (Inl (rtt_error err), held L M s)"
proof -
  let ?tab = "words (mem s t')" and ?r = "REFCOUNT (granules s t')"
  have cnt: "counted (?tab ! i) lv \<longleftrightarrow> K i \<in> insert Table data_kinds" if "i < 512" for i using kinds_counted [OF K [OF that]] .
  have read: "granule_refcount_read t' (held L M s) = Inr (?r, held L M s)" using t(4) by (simp add: held_simps)
  consider "?r = 0" | "?r = 512" | "?r \<noteq> 0" "?r \<noteq> 512" by blast
  then show ?thesis
  proof cases
    case 1
    then have "\<And>i. i < 512 \<Longrightarrow> K i \<notin> insert Table data_kinds" using rc refs_0 [of s lv t'] cnt by auto
    from fold_unassigned_held [OF K this lv t(1-3), of M] show ?thesis
      using 1 read by (auto simp: fold_entry_def run_simps split: if_splits)
  next
    case 2
    then have "refs s lv t' = 512" using rc by simp
    then have "\<And>i. i < 512 \<Longrightarrow> K i \<in> insert Table data_kinds" using refs_512 [of s lv t'] cnt by auto
    from fold_assigned_held [OF K this lv t(4) 2, of wi M] show ?thesis
      using 2 read by (auto simp: fold_entry_def run_simps split: if_splits)
  next
    case 3
    then have r: "refs s lv t' \<noteq> 0" "refs s lv t' \<noteq> 512" 

    proof -
      show "refs s lv t' \<noteq> 0" using 3(1) rc by (metis unat_eq_zero)
      show "refs s lv t' \<noteq> 512"
      proof
        assume "refs s lv t' = 512"
        then have "unat ?r = unat (512 :: u16)" using rc by simp
        then show False using 3(2) by (simp only: word_unat_eq_iff)
      qed
    qed
    have "\<not> foldable c ?tab lv"
    proof
      assume "foldable c ?tab lv"
      then obtain k where k: "\<forall>i < 512. kinds (?tab ! i) lv = {k}" unfolding foldable_def block_of_def Let_def by blast
      then have "refs s lv t' = 0 \<or> refs s lv t' = 512"
        using refs_0 [of s lv t'] refs_512 [of s lv t'] kinds_counted [of "?tab ! _" lv k] by (cases "k \<in> insert Table data_kinds") auto
      with r show False by simp
    qed
    then show ?thesis using 3 read by (auto simp: fold_entry_def run_simps)
  qed
qed

section \<open>The part under the lock of the table\<close>

definition fold_events :: "s2tt_context \<Rightarrow> u64 \<Rightarrow> s2tte_kind \<Rightarrow> tlb_event list" where
  "fold_events c map_addr k = tlbi_events c map_addr (if k \<in> {Assigned_Ram, Assigned_Ns} then 512 else 1)"

lemma fold_table_held:
  assumes idle: "idle s" and wi: "llt_of wi = t" "wi_index wi = idx"
    and rt: "is_rtt s t" "is_rtt s t'" "t \<noteq> t'" "REFCOUNT (granules s t) \<noteq> 0"
    and tab: "s2tte_is_table e (lv - 1)" "min_starting_level c \<le> lv - 1" "lv \<le> 3"
    and pa: "granule_at (arm_dram s) (to_pa_value e S2TT_PAGE_LEVEL (enable_lpa2 c)) = Some t'"
    and K: "\<And>i. i < 512 \<Longrightarrow> kinds (words (mem s t') ! i) lv = {K i}" and rc: "unat (REFCOUNT (granules s t')) = refs s lv t'"
  shows "if foldable c (words (mem s t')) lv
    then \<exists>e' k taken. fold_table c wi map_addr lv e res (held {t} (no_slots(SLOT_RTT := Some t)) s) =
        Inr (res(1 := to_pa_value e S2TT_PAGE_LEVEL (enable_lpa2 c), 0 := RMI_SUCCESS),
          held {t} (no_slots(SLOT_RTT := Some t)) (removed t (unat idx) e' t' (fold_events c map_addr k) taken s)) \<and>
      folds_to c (words (mem s t')) lv e' k \<and> (taken \<longleftrightarrow> k \<in> data_kinds) \<and> REFCOUNT (granules s t') = (if taken then 512 else 0)
    else \<exists>err. fold_table c wi map_addr lv e res (held {t} (no_slots(SLOT_RTT := Some t)) s) =
      Inr (res(0 := rtt_error err), held {t} (no_slots(SLOT_RTT := Some t)) s)"
proof -
  note id = idleD [OF idle]
  let ?pa = "to_pa_value e S2TT_PAGE_LEVEL (enable_lpa2 c)" and ?M = "no_slots(SLOT_RTT := Some t)" and ?L = "{t', t}"
  let ?M2 = "?M(SLOT_RTT2 := Some t')"
  have gi: "granule_in s ?pa GRANULE_STATE_RTT = Some t'" using pa is_rttD(2) [OF rt(2)] by (simp add: granule_in_def)
  have fl: "find_lock_granule ?pa GRANULE_STATE_RTT (held {t} ?M s) = Inr (Some t', held ?L ?M s)"
    using find_lock_granule_held [of s ?pa "{t}" GRANULE_STATE_RTT ?M] id(3) gi pa idle_lockable [OF idle] rt(3) by simp
  have mp: "map_slot (Some t') SLOT_RTT2 (held ?L ?M s) = Inr ((), held ?L ?M2 s)"
    using id(3) is_rttD(1) [OF rt(2)] by (simp add: held_simps)
  have um: "buffer_unmap SLOT_RTT2 (held ?L ?M2 s1) = Inr ((), held ?L ?M s1)" for s1 by (simp add: held_simps)
  have ul: "granule_unlock t' (held ?L ?M s1) = Inr ((), held {t} ?M s1)" if "granule_inv (granules s1 t')" "\<not> LOCKED (granules s1 t')" for s1
  proof -
    have "?L - {t'} = {t}" using rt(3) by auto
    then show ?thesis using that by (simp add: held_simps)
  qed
  have lv: "min_starting_level c < lv" using tab(2) by simp
  note fe = fold_entry_held [where L = ?L and M = ?M2, OF K rc lv tab(3) wi(1) _ rt(4)]
  show ?thesis
  proof (cases "foldable c (words (mem s t')) lv")
    case False
    then obtain err where "fold_entry c wi t' lv (held ?L ?M2 s) = Inr (Inl (rtt_error err), held ?L ?M2 s)" using fe by auto
    then show ?thesis using False tab wi fl mp um ul [of s] id(2,5) [of t'] by (auto simp: fold_table_def run_simps s2tte_pa_table_run)
  next
    case True
    then obtain e' k taken where fe': "fold_entry c wi t' lv (held ?L ?M2 s) =
        Inr (Inr e', held ?L ?M2 (if taken then upd_granule t' (add_desc (- 512)) s else upd_granule t (add_desc (- 1)) s))"
      and k: "folds_to c (words (mem s t')) lv e' k" "taken \<longleftrightarrow> k \<in> data_kinds" "REFCOUNT (granules s t') = (if taken then 512 else 0)"
      using fe by auto
    define s1 where "s1 = (if taken then upd_granule t' (add_desc (- 512)) s else upd_granule t (add_desc (- 1)) s)"
    let ?s' = "removed t (unat idx) e' t' (fold_events c map_addr k) taken s"
    have kk: "kinds e' (lv - 1) = {k}" using k(1) by (simp add: folds_to_def)
    have rep: "replace_entry c wi map_addr lv e' (held ?L ?M2 s1) = Inr ((), held ?L ?M2 (page_set t (unat idx) e' (log_tlbi (fold_events c map_addr k) s1)))"
    proof -
      have "upd_mem t (\<lambda>d. d\<lparr>words := (words d)[unat idx := e']\<rparr>) (log_tlbi es (upd_mem t (\<lambda>d. d\<lparr>words := (words d)[unat idx := 0]\<rparr>) s1)) =
        page_set t (unat idx) e' (log_tlbi es s1)" for es
        by (simp add: page_set_def upd_mem_def log_tlbi_def)
      then show ?thesis using wi
        by (cases k) (simp_all add: replace_entry_def run_simps held_simps data_kind_cases [OF kk] fold_events_def)
    qed
    have fin: "granule_set_state t' GRANULE_STATE_DELEGATED (held ?L ?M2 (upd_mem t' (\<lambda>_. zero_data)
        (page_set t (unat idx) e' (log_tlbi (fold_events c map_addr k) s1)))) = Inr ((), held ?L ?M2 ?s')"
      by (simp add: held_simps removed_def s1_def)
    have f: "granules ?s' t' = eor_state GRANULE_STATE_DELEGATED (if taken then add_desc (- 512) (granules s t') else granules s t')"
      using removed_fields(3) [OF rt(3)] by simp
    have z: "granule_inv (granules ?s' t')" "\<not> LOCKED (granules ?s' t')"
      using f inv_zero_refcount [of "granules ?s' t'"] k(3) id(2) [of t'] refcount_sub_fields [of 512 "granules s t'"] by auto
    have "fold_table c wi map_addr lv e res (held {t} ?M s) = Inr (res(1 := ?pa, 0 := RMI_SUCCESS), held {t} ?M ?s')"
      using tab wi fl mp um ul [OF z] fe' [folded s1_def] rep fin
      by (simp add: fold_table_def run_simps s2tte_pa_table_run memzero_mapped_held)
    then show ?thesis unfolding if_P [OF True] using k by blast
  qed
qed

lemma folded_inv:
  fixes es :: "tlb_event list"
  assumes inv: "realm_inv s" and n: "n < depth (realm_ctx s g)" and it: "in_tree s g n (p div 512) t" "is_rtt s t" "is_rtt s t'" "t \<noteq> t'"
    and nt: "next_table s (realm_ctx s g) t (p mod 512) = Some t'" and rc: "REFCOUNT (granules s t) \<noteq> 0"
    and lv: "lv = level (realm_ctx s g) (Suc n)" and ipa: "in_ipa (realm_ctx s g) n p"
    and ft: "folds_to (realm_ctx s g) (words (mem s t')) lv e' k" "taken \<longleftrightarrow> k \<in> data_kinds" "REFCOUNT (granules s t') = (if taken then 512 else 0)"
  defines "s' \<equiv> removed t (p mod 512) e' t' es taken s"
  shows "realm_inv s'" "maps s' h P d \<longleftrightarrow> maps s h P d" "STATE (granules s' t') = GRANULE_STATE_DELEGATED" "mem s' t' = zero_data"
    "owners_kept s s'"
proof -
  let ?c = "realm_ctx s g" and ?tab = "words (mem s t')"
  note tree = realm_invD(2) [OF inv]
  have wf: "wf_ctx ?c" using tree_okD(1) [OF tree in_treeD(1) [OF it(1)]] .
  have sl: "s2_starting_level ?c \<le> 3" using wf by (simp add: wf_ctx_def)
  have lv1: "lv - 1 = level ?c n" using lv by (simp add: level_def)
  have k: "kinds e' (level ?c n) = {k}" "\<And>i. i < 512 \<Longrightarrow> kinds (?tab ! i) (level ?c (Suc n)) = {k}" "k \<noteq> Table"
    "k \<in> insert Assigned_Ns data_kinds \<Longrightarrow> 1 \<le> level ?c n"
    "k \<in> data_kinds \<Longrightarrow> addr_lvl_aligned (enable_lpa2 ?c) (out_addr ?c n e') (level ?c n)"
    "\<And>i. k \<in> data_kinds \<Longrightarrow> i < 512 \<Longrightarrow> out_addr ?c (Suc n) (?tab ! i) = nth_pa (out_addr ?c n e') (level ?c (Suc n)) i"
    using ft(1) unfolding folds_to_def lv1 out_addr_def lv [symmetric] by (metis (no_types))+
  have e': "\<not> entry_is_table e'" using kinds_is_table [OF k(1)] k(3) entry_is_table_iff [OF level_below(1) [OF n]] by simp
  have flat: "\<not> s2tte_is_table (?tab ! i) (level ?c (Suc n))" if "i < 512" for i using kinds_is_table [OF k(2) [OF that]] k(3) by simp
  note rr = removed_removed [OF inv n it nt e' rc flat ft(3), where es = es, folded s'_def]
  show "STATE (granules s' t') = GRANULE_STATE_DELEGATED" "mem s' t' = zero_data" using rr(3,4) by simp_all
  show "owners_kept s s'" unfolding s'_def by (rule removed_owners_kept [OF it(4,2,3) rc])
  have ct: "in_tree s g (Suc n) p t'" using in_tree_child [OF it(1) n _ nt] by simp
  have eok: "entry_ok s ?c (Suc n) (p * 512 + i) (?tab ! i)" if "i < 512" for i
    using realm_invD(3) [OF inv] entI [OF ct that] by blast
  have parts: "parts_of ?c n e' (\<lambda>i. ?tab ! i)" if "k \<in> data_kinds"
    using that k(1,2,6) unfolding parts_of_def nth_pa_def by blast
  have same: "maps_by s ?c n p e' P d \<longleftrightarrow> (\<exists>i < 512. maps_by s ?c (Suc n) (p * 512 + i) (?tab ! i) P d)" for P d
  proof (cases "k \<in> data_kinds")
    case True
    then show ?thesis using maps_by_parts [OF parts n sl] by blast
  next
    case False
    then show ?thesis using k(1,2) by (auto simp: maps_by_def)
  qed
  have ok: "entry_ok s ?c n p e'"
    unfolding entry_ok_def
  proof (intro exI [of _ k] conjI impI allI)
    show "kinds e' (level ?c n) = {k}" by (rule k(1))
  next
    fix j assume kd: "k \<in> data_kinds" and j: "j < pages ?c n"
    let ?m = "pages ?c (Suc n)"
    have i: "j div ?m < 512" using j pages_Suc [OF n] by (simp add: less_mult_imp_div_less)
    have "page_granule s ?c (Suc n) (?tab ! (j div ?m)) (j mod ?m) \<noteq> None"
      using eok [OF i] k(2) [OF i] kd by (auto simp: entry_ok_def)
    then show "page_granule s ?c n e' j \<noteq> None" unfolding parts_page [OF parts [OF kd] n sl i] div_mult_mod_eq .
  next
    assume "k \<noteq> Table \<and> in_ipa ?c n p"
    moreover have "in_ipa ?c (Suc n) (p * 512 + 0) = in_ipa ?c n p" "in_par ?c (Suc n) (p * 512 + 0) = in_par ?c n p"
      by (rule in_par_parts [OF wf n]; simp)+
    ultimately show "k \<in> ns_kinds \<longleftrightarrow> \<not> in_par ?c n p"
      using eok [of 0] k(2) [of 0] by (auto simp: entry_ok_def)
  qed (use k(4,5) in blast)+
  have cnt: "unat (REFCOUNT (granules s' t)) + 1 = unat (REFCOUNT (granules s t)) + of_bool (counted e' (level ?c n))"
    using rr(2) kinds_counted [OF k(1)] k(3) ft(2) by auto
  show "realm_inv s'" by (rule table_removed_inv(1) [OF rr(1) ok cnt same])
  show "maps s' h P d \<longleftrightarrow> maps s h P d" by (rule table_removed_inv(2) [OF rr(1) ok cnt same])
qed

section \<open>The command\<close>

text \<open>The table below the entry for the address can be folded.\<close>

definition foldable_at :: "rmm \<Rightarrow> nat \<Rightarrow> u64 \<Rightarrow> int \<Rightarrow> bool" where
  "foldable_at s g map_addr lv \<longleftrightarrow>
    (let c = realm_ctx s g; (t, l) = rtt_walk s c map_addr (lv - 1); i = entry_no map_addr l mod 512
     in l = lv - 1 \<and> s2tte_is_table (words (mem s t) ! i) l \<and> (\<exists>t'. next_table s c t i = Some t' \<and> foldable c (words (mem s t')) lv))"

lemma fold_table_run:
  assumes inv: "realm_inv s" and g: "is_realm s g" and so: "structure_ok (d_rd (mem s g)) map_addr lv"
    and w: "rtt_walk s (realm_ctx s g) map_addr (lv - 1) = (t, lv - 1)"
    and tab: "s2tte_is_table (words (mem s t) ! (entry_no map_addr (lv - 1) mod 512)) (lv - 1)"
  defines "M \<equiv> no_slots(SLOT_RTT := Some t)" and "e \<equiv> words (mem s t) ! (entry_no map_addr (lv - 1) mod 512)"
  shows "\<exists>res' s'. fold_table (realm_ctx s g) (walk_info s (realm_ctx s g) map_addr (lv - 1)) map_addr lv e res (held {t} M s) =
      Inr (res', held {t} M s') \<and> realm_inv s' \<and> owners_kept s s' \<and> (\<forall>g P d. maps s' g P d \<longleftrightarrow> maps s g P d) \<and>
    (if foldable_at s g map_addr lv
     then res' 0 = RMI_SUCCESS \<and> (\<exists>t'. granule_at (arm_dram s) (res' 1) = Some t' \<and> STATE (granules s t') = GRANULE_STATE_RTT \<and>
       STATE (granules s' t') = GRANULE_STATE_DELEGATED \<and> mem s' t' = zero_data)
     else res' 0 \<noteq> RMI_SUCCESS \<and> s' = s)"
proof -
  let ?c = "realm_ctx s g" and ?p = "entry_no map_addr (lv - 1)" and ?wi = "walk_info s (realm_ctx s g) map_addr (lv - 1)"
  have c: "rd_s2_ctx (d_rd (mem s g)) = ?c" by (simp add: realm_ctx_def)
  have wf: "wf_ctx ?c" using tree_okD(1) [OF realm_invD(2) [OF inv] g] .
  have a: "map_addr < push_bit (unat (ipa_bits ?c)) 1" and lv: "s2_starting_level ?c \<le> lv - 1" "lv - 1 \<le> 2" "lv - 1 \<le> 3" "lv \<le> 3"
    using so realm_ipa_size_ctx [OF g] by (auto simp: structure_ok_def realm_rtt_starting_level_def c)
  obtain n t' where t': "lv - 1 = level ?c n" "n < depth ?c" "in_tree s g n (?p div 512) t"
    "next_table s ?c t (?p mod 512) = Some t'" "in_tree s g (Suc n) ?p t'" "is_rtt s t" "is_rtt s t'" "t \<noteq> t'" "REFCOUNT (granules s t) \<noteq> 0"
    "granule_at (arm_dram s) (to_pa_value (words (mem s t) ! (?p mod 512)) S2TT_PAGE_LEVEL (enable_lpa2 ?c)) = Some t'"
    "unat (REFCOUNT (granules s t')) = refs s (lv - 1 + 1) t'" "unat (s2_addr_to_idx map_addr (lv - 1)) = ?p mod 512"
    by (rule child_of_walk [OF inv g a lv(1,2) w tab])
  have lv': "lv = level ?c (Suc n)" using t'(1) by (simp add: level_def)
  have "\<exists>k. kinds (words (mem s t') ! i) lv = {k}" if "i < 512" for i
    using realm_invD(3) [OF inv entI [OF t'(5) that]] unfolding entry_ok_def lv' by blast
  then obtain K where K: "\<And>i. i < 512 \<Longrightarrow> kinds (words (mem s t') ! i) lv = {K i}" by metis
  have rc: "unat (REFCOUNT (granules s t')) = refs s lv t'" using t'(11) by simp
  have ml: "min_starting_level ?c \<le> lv - 1" using wf lv(1) by (simp add: wf_ctx_def)
  have wi: "llt_of ?wi = t" "wi_index ?wi = s2_addr_to_idx map_addr (lv - 1)" using w by simp_all
  note ft = fold_table_held [OF realm_invD(1) [OF inv] wi t'(6-9) tab ml lv(4) t'(10) K rc, of map_addr res, unfolded t'(12), folded M_def e_def]
  have fa: "foldable_at s g map_addr lv \<longleftrightarrow> foldable ?c (words (mem s t')) lv" using w tab t'(4) by (simp add: foldable_at_def Let_def)
  show ?thesis
  proof (cases "foldable ?c (words (mem s t')) lv")
    case False
    then show ?thesis using ft fa inv by auto
  next
    case True
    then obtain e' k taken where ft': "fold_table ?c ?wi map_addr lv e res (held {t} M s) =
        Inr (res(1 := to_pa_value e S2TT_PAGE_LEVEL (enable_lpa2 ?c), 0 := RMI_SUCCESS),
          held {t} M (removed t (?p mod 512) e' t' (fold_events ?c map_addr k) taken s))"
      "folds_to ?c (words (mem s t')) lv e' k" "taken \<longleftrightarrow> k \<in> data_kinds" "REFCOUNT (granules s t') = (if taken then 512 else 0)"
      using ft by auto
    have ipa: "in_ipa ?c n ?p" using in_par_addr(2) [of ?c "lv - 1" n map_addr] wf t'(1) wf_ctx_bounds(4) [of ?c map_addr] a by simp
    note fi = folded_inv [OF inv t'(2,3,6-8,4,9) lv' ipa ft'(2-4), where es = "fold_events ?c map_addr k"]
    then show ?thesis using fa True ft'(1) t'(10) is_rttD(2) [OF t'(7)] by (auto simp: e_def)
  qed
qed

lemma smc_rtt_fold_run:
  assumes inv: "realm_inv s"
  shows "\<exists>res' s'. smc_rtt_fold rd_addr map_addr ulevel res s = Inr (res', s') \<and> realm_inv s' \<and> owners_kept s s' \<and>
    (\<forall>g P d. maps s' g P d \<longleftrightarrow> maps s g P d) \<and>
    (if \<exists>g. granule_in s rd_addr GRANULE_STATE_RD = Some g \<and> structure_ok (d_rd (mem s g)) map_addr (sint ulevel) \<and>
         foldable_at s g map_addr (sint ulevel)
     then res' 0 = RMI_SUCCESS \<and> (\<exists>t'. granule_at (arm_dram s) (res' 1) = Some t' \<and> STATE (granules s t') = GRANULE_STATE_RTT \<and>
       STATE (granules s' t') = GRANULE_STATE_DELEGATED \<and> mem s' t' = zero_data)
     else res' 0 \<noteq> RMI_SUCCESS \<and> s' = s)"
proof (cases "granule_in s rd_addr GRANULE_STATE_RD")
  case None
  note idle = realm_invD(1) [OF inv]
  show ?thesis
    using find_rd_none [OF idle None] idle_held [OF idle] None inv by (simp add: smc_rtt_fold_def run_simps Let_def)
next
  case (Some g)
  note idle = realm_invD(1) [OF inv] note id = idleD [OF idle] and rs = rd_steps [OF idle Some]
  let ?rd = "d_rd (mem s g)" and ?c = "realm_ctx s g" and ?lv = "sint ulevel"
  have c: "rd_s2_ctx ?rd = ?c" by (simp add: realm_ctx_def)
  have realm: "is_realm s g" using is_realm_in [OF Some] .
  have wf: "wf_ctx (rd_s2_ctx ?rd)" using tree_okD(1) [OF realm_invD(2) [OF inv] realm] c by simp
  obtain t l where w: "rtt_walk s ?c map_addr (?lv - 1) = (t, l)" by fastforce
  have h: "smc_rtt_fold rd_addr map_addr ulevel res s = smc_rtt_fold rd_addr map_addr ulevel res (held {} no_slots s)"
    using idle_held [OF idle] by simp
  note run = smc_rtt_fold_def run_simps rs held_simps validate_rtt_structure_run [OF wf] c Let_def
  show ?thesis
  proof (cases "structure_ok ?rd map_addr ?lv")
    case False
    then show ?thesis unfolding h using Some w inv by (simp add: run)
  next
    case so: True
    have a: "map_addr < push_bit (unat (ipa_bits ?c)) 1" and lv: "s2_starting_level ?c \<le> ?lv - 1" "?lv - 1 \<le> 3"
      using so realm_ipa_size_ctx [OF realm] by (auto simp: structure_ok_def realm_rtt_starting_level_def c)
    obtain n where n: "is_rtt s t" "unat (s2_addr_to_idx map_addr l) = entry_no map_addr l mod 512"
      by (rule realm_walk [OF inv realm a lv w])
    note ws = walk_steps [OF inv realm a lv w] note run = run ws
    have ul: "granule_unlock t (held {t} no_slots s') = Inr ((), s')" if "realm_inv s'" for s'
      using ws(6) idleD [OF realm_invD(1) [OF that]] by simp
    show ?thesis
    proof (cases "l = ?lv - 1 \<and> s2tte_is_table (words (mem s t) ! (entry_no map_addr l mod 512)) l")
      case False
      then have nf: "\<not> foldable_at s g map_addr ?lv" using w by (auto simp: foldable_at_def Let_def)
      show ?thesis unfolding h using False Some w inv so ul [OF inv] n(2) nf by (cases "l = ?lv - 1") (auto simp: run)
    next
      case True
      then have l: "l = ?lv - 1" and tab: "s2tte_is_table (words (mem s t) ! (entry_no map_addr (?lv - 1) mod 512)) (?lv - 1)" by auto
      note w' = w [unfolded l] and ix = n(2) [unfolded l]
      obtain res' s' where r: "fold_table ?c (walk_info s ?c map_addr (?lv - 1)) map_addr ?lv (words (mem s t) ! (entry_no map_addr (?lv - 1) mod 512)) res
          (held {t} (no_slots(SLOT_RTT := Some t)) s) = Inr (res', held {t} (no_slots(SLOT_RTT := Some t)) s')"
        and r': "realm_inv s'" "owners_kept s s'" "\<forall>g P d. maps s' g P d \<longleftrightarrow> maps s g P d"
          "if foldable_at s g map_addr ?lv
           then res' 0 = RMI_SUCCESS \<and> (\<exists>t'. granule_at (arm_dram s) (res' 1) = Some t' \<and> STATE (granules s t') = GRANULE_STATE_RTT \<and>
             STATE (granules s' t') = GRANULE_STATE_DELEGATED \<and> mem s' t' = zero_data)
           else res' 0 \<noteq> RMI_SUCCESS \<and> s' = s"
        using fold_table_run [OF inv realm so w' tab] by blast
      have "smc_rtt_fold rd_addr map_addr ulevel res s = Inr (res', s')"
        unfolding h using Some so w' ix ul [OF r'(1)] r tab by (simp add: run)
      then show ?thesis using r' Some so by auto
    qed
  qed
qed



end
