(* ===== verification/Rtt_Create.thy ===== *)
theory Rtt_Create
  imports Rtt_Fold
begin

text \<open>
  The command that creates a table (\<^verbatim>\<open>smc_rtt_create\<close>). An entry that is not a table is unfolded into a table whose entries are of
  the same kind and map the same memory.
\<close>

section \<open>The entries of the new table\<close>

lemma to_pa_value_aligned:
  assumes "1 \<le> l" "l \<le> 3"
  shows "addr_lvl_aligned lpa2 (to_pa_value e l lpa2) l"
  using assms by (auto simp: addr_lvl_aligned_iff bit_to_pa_value oa_bits_def lvl_lsb_def)

lemma log_nothing [simp]: "log_tlbi [] s = s"
  by (simp add: log_tlbi_def)

definition unfold_ripas :: "s2tte_kind \<Rightarrow> u64" where
  "unfold_ripas k = (if k = Assigned_Destroyed then S2TTE_INVALID_RIPAS_DESTROYED
     else if k = Assigned_Ram then S2TTE_INVALID_RIPAS_RAM else S2TTE_INVALID_RIPAS_EMPTY)"

definition unfold_table :: "s2tt_context \<Rightarrow> u64 \<Rightarrow> int \<Rightarrow> s2tte_kind \<Rightarrow> u64 list" where
  "unfold_table c e lv k =
    (let base = to_pa_value e (lv - 1) (enable_lpa2 c) in
     if k = Unassigned_Empty then replicate 512 s2tte_create_unassigned_empty
     else if k = Unassigned_Ram then replicate 512 s2tte_create_unassigned_ram
     else if k = Unassigned_Ns then replicate 512 s2tte_create_unassigned_ns
     else if k = Unassigned_Destroyed then replicate 512 s2tte_create_unassigned_destroyed
     else if k = Assigned_Ns then map (\<lambda>i. assigned_ns_value (enable_lpa2 c)
       (e AND S2TTE_NS_ATTR_MASK OR pa_to_s2tte (nth_pa base lv i) (enable_lpa2 c)) lv) [0..<512]
     else map (\<lambda>i. assigned_value (enable_lpa2 c) (nth_pa base lv i) lv (unfold_ripas k)) [0..<512])"

lemma length_unfold_table [simp]: "length (unfold_table c e lv k) = 512"
  by (simp add: unfold_table_def Let_def)

lemma unfold_folds_to:
  assumes k: "kinds e (lv - 1) = {k}" "k \<noteq> Table" and al: "k \<in> data_kinds \<Longrightarrow> addr_lvl_aligned (enable_lpa2 c) (to_pa_value e (lv - 1) (enable_lpa2 c)) (lv - 1)"
    and lv: "k \<in> insert Assigned_Ns data_kinds \<Longrightarrow> 2 \<le> lv" "lv \<le> 3"
  shows "folds_to c (unfold_table c e lv k) lv e k"
proof -
  let ?l = "enable_lpa2 c" let ?b = "to_pa_value e (lv - 1) ?l"
  have a: "kinds (assigned_value ?l (nth_pa ?b lv i) lv (unfold_ripas k)) lv = {k} \<and>
      to_pa_value (assigned_value ?l (nth_pa ?b lv i) lv (unfold_ripas k)) lv ?l = nth_pa ?b lv i" if "k \<in> data_kinds" "i < 512" for i
  proof -
    have l: "1 \<le> lv" using lv(1) that(1) by auto
    note ai = nth_pa_aligned [OF l lv(2) al [OF that(1)] that(2)]
    show ?thesis
      using that(1) assigned_ram_ok [OF l lv(2) ai, of "unfold_ripas k"] assigned_invalid_ok [OF ai, of "unfold_ripas k"]
      by (cases k) (simp_all add: data_kinds_def unfold_ripas_def bit_s2tte_invalid)
  qed
  have ns: "k = Assigned_Ns \<Longrightarrow> kinds (assigned_ns_value ?l x lv) lv = {k}" for x using assigned_ns_kinds [of lv] lv(1) by simp
  show ?thesis
    unfolding folds_to_def
  proof (intro conjI allI impI)
    fix i :: nat assume i: "i < 512"
    show "kinds (unfold_table c e lv k ! i) lv = {k}"
      using i k(2) a [OF _ i] ns created_unassigned_kinds by (cases k) (simp_all add: unfold_table_def Let_def data_kinds_def)
    assume "k \<in> data_kinds"
    then show "to_pa_value (unfold_table c e lv k ! i) lv ?l = nth_pa ?b lv i"
      using a [OF _ i] i by (auto simp: unfold_table_def Let_def data_kinds_def)
  qed (use k al lv(1) in auto)
qed

section \<open>Filling the new table\<close>

text \<open>The references that the new table and its parent get.\<close>

definition referenced :: "nat \<Rightarrow> nat \<Rightarrow> bool \<Rightarrow> rmm \<Rightarrow> rmm" where
  "referenced t t' taken s = (if taken then upd_granule t' (add_desc 512) s else upd_granule t (add_desc 1) s)"

definition filled :: "nat \<Rightarrow> u64 list \<Rightarrow> rmm \<Rightarrow> rmm" where
  "filled t' tab s = upd_mem t' (\<lambda>d. d\<lparr>words := tab\<rparr>) s"

lemma fill_assigned_run:
  assumes len: "length (words (mem s t')) = 512" and pa: "\<And>s1 :: rmm. s2tte_pa c e (lv - 1) s1 = Inr (b, s1)"
    and init: "\<And>tab s1. length tab = 512 \<Longrightarrow> init tab b s1 = Inr (tab', s1 :: rmm)"
  shows "fill_assigned init c e lv t' (held L M s) = Inr ((), held L M (filled t' tab' s))"
  using init [OF len] by (simp add: fill_assigned_def run_simps pa held_simps filled_def)

lemma fill_unassigned_run:
  assumes "\<And>tab. length tab = 512 \<Longrightarrow> init tab = tab'" "length (words (mem s t')) = 512" "t \<in> L" "unat (REFCOUNT (granules s t)) \<le> 512"
  shows "fill_unassigned init t t' (held L M s) = Inr ((), held L M (referenced t t' False (filled t' tab' s)))"
  using assms by (simp add: fill_unassigned_def run_simps held_simps filled_def referenced_def)

text \<open>Entries that are accessible are removed before the table is filled.\<close>

definition broken :: "s2tt_context \<Rightarrow> u64 \<Rightarrow> nat \<Rightarrow> nat \<Rightarrow> s2tte_kind \<Rightarrow> rmm \<Rightarrow> rmm" where
  "broken c map_addr t i k s = (if k \<in> {Assigned_Ram, Assigned_Ns} then log_tlbi (tlbi_events c map_addr 1) (page_set t i 0 s) else s)"

lemma broken_fields [simp]:
  "granules (broken c map_addr t i k s) = granules s" "t \<noteq> h \<Longrightarrow> mem (broken c map_addr t i k s) h = mem s h"
  by (simp_all add: broken_def page_set_def upd_mem_def)

lemma init_assigned_runs:
  assumes lv: "1 \<le> lv" "lv \<le> 3" and al: "addr_lvl_aligned (enable_lpa2 c) b (lv - 1)" and len: "length tab = 512"
  shows "s2tt_init_assigned_ram c tab b lv s = Inr (map (\<lambda>i. assigned_value (enable_lpa2 c) (nth_pa b lv i) lv S2TTE_INVALID_RIPAS_RAM) [0..<512], s)"
    "s2tt_init_assigned_empty c tab b lv s = Inr (map (\<lambda>i. assigned_value (enable_lpa2 c) (nth_pa b lv i) lv S2TTE_INVALID_RIPAS_EMPTY) [0..<512], s)"
    "s2tt_init_assigned_destroyed c tab b lv s = Inr (map (\<lambda>i. assigned_value (enable_lpa2 c) (nth_pa b lv i) lv S2TTE_INVALID_RIPAS_DESTROYED) [0..<512], s)"
    "s2tt_init_assigned_ns c tab e b lv s = Inr (map (\<lambda>i. assigned_ns_value (enable_lpa2 c) (e AND S2TTE_NS_ATTR_MASK OR pa_to_s2tte (nth_pa b lv i) (enable_lpa2 c)) lv) [0..<512], s)"
  unfolding s2tt_init_assigned_ram_def s2tt_init_assigned_empty_def s2tt_init_assigned_destroyed_def s2tt_init_assigned_ns_def Let_def
  by (rule init_assigned_run [OF lv al len]; simp add: create_assigned_runs lv s2tte_create_assigned_ns_def run_simps)+

lemma create_child_held:
  assumes idle: "idle s" and k: "kinds e (lv - 1) = {k}" and wi: "llt_of wi = t" "wi_index wi = idx"
    and t: "t \<in> L" "t' \<in> L" "t \<noteq> t'" "unat (REFCOUNT (granules s t)) \<le> 512" "REFCOUNT (granules s t') = 0"
    and al: "k \<in> data_kinds \<Longrightarrow> addr_lvl_aligned (enable_lpa2 c) (to_pa_value e (lv - 1) (enable_lpa2 c)) (lv - 1)"
    and lv: "k \<in> insert Assigned_Ns data_kinds \<Longrightarrow> 2 \<le> lv" "lv \<le> 3"
  shows "create_child c wi t' map_addr lv e (held L M s) =
    Inr (if k = Table then (False, held L M s)
      else (True, held L M (referenced t t' (k \<in> data_kinds) (filled t' (unfold_table c e lv k) (broken c map_addr t (unat idx) k s)))))"
proof -
  note dk = data_kind_cases [OF k]
  let ?s1 = "broken c map_addr t (unat idx) k s"
  have len: "length (words (mem ?s1 t')) = 512" using idleD(6) [OF idle] t(3) by simp
  have len0: "length (words (mem s t')) = 512" using idleD(6) [OF idle] .
  note fu = fill_unassigned_run [where M = M and L = L and t = t and s = s, OF _ len0 t(1,4)]
  have un: ?thesis if "k \<in> unassigned_kinds"
    using that wi(1) fu [of s2tt_init_unassigned_empty] fu [of s2tt_init_unassigned_ram] fu [of s2tt_init_unassigned_ns] fu [of s2tt_init_unassigned_destroyed]
    by (auto simp: create_child_def dk unassigned_kinds_def run_simps unfold_table_def broken_def data_kinds_def fill_table_eq
        s2tt_init_unassigned_empty_def s2tt_init_unassigned_ram_def s2tt_init_unassigned_ns_def s2tt_init_unassigned_destroyed_def)
  have as: ?thesis if kd: "k \<in> insert Assigned_Ns data_kinds"
  proof -
    have l: "1 \<le> lv" "2 \<le> lv" "1 \<le> lv - 1" "lv - 1 \<le> 3" using lv kd by auto
    let ?b = "to_pa_value e (lv - 1) (enable_lpa2 c)"
    have alb: "addr_lvl_aligned (enable_lpa2 c) ?b (lv - 1)" using to_pa_value_aligned [OF l(3,4)] .
    have ms: "min_starting_level c \<le> lv - 1" using min_starting_level_bounds(2) [of c] l by simp
    have pa: "s2tte_pa c e (lv - 1) s1 = Inr (?b, s1)" for s1 :: rmm
      by (rule s2tte_pa_run [OF ms l(4) k]) (use kd in \<open>auto simp: data_kinds_def\<close>)
    note fa = fill_assigned_run [OF len pa, where L = L and M = M]
    have inc: "granule_refcount_inc t' 512 (held L M (filled t' tab ?s1)) = Inr ((), held L M (referenced t t' True (filled t' tab ?s1)))" for tab
      using t by (simp add: held_simps filled_def referenced_def)
    have get: "atomic_granule_get t (held L M (filled t' tab ?s1)) = Inr ((), held L M (referenced t t' False (filled t' tab ?s1)))" for tab
      using t by (simp add: held_simps filled_def referenced_def)
    have br: "k \<in> {Assigned_Ram, Assigned_Ns} \<Longrightarrow> ?s1 = log_tlbi (tlbi_events c map_addr 1) (upd_mem t (\<lambda>d. d\<lparr>words := (words d)[unat idx := 0]\<rparr>) s)"
      "k \<notin> {Assigned_Ram, Assigned_Ns} \<Longrightarrow> ?s1 = s"
      by (simp_all add: broken_def page_set_def)
    have fr: "k = Assigned_Ram \<Longrightarrow> fill_assigned (\<lambda>t pa. s2tt_init_assigned_ram c t pa lv) c e lv t' (held L M ?s1) = Inr ((), held L M (filled t' (unfold_table c e lv k) ?s1))"
      "k = Assigned_Empty \<Longrightarrow> fill_assigned (\<lambda>t pa. s2tt_init_assigned_empty c t pa lv) c e lv t' (held L M ?s1) = Inr ((), held L M (filled t' (unfold_table c e lv k) ?s1))"
      "k = Assigned_Destroyed \<Longrightarrow> fill_assigned (\<lambda>t pa. s2tt_init_assigned_destroyed c t pa lv) c e lv t' (held L M ?s1) = Inr ((), held L M (filled t' (unfold_table c e lv k) ?s1))"
      "k = Assigned_Ns \<Longrightarrow> fill_assigned (\<lambda>t pa. s2tt_init_assigned_ns c t e pa lv) c e lv t' (held L M ?s1) = Inr ((), held L M (filled t' (unfold_table c e lv k) ?s1))"
      by (rule fa, simp add: init_assigned_runs [OF l(1) lv(2) alb] unfold_table_def unfold_ripas_def Let_def)+
    consider "k = Assigned_Ram" | "k = Assigned_Ns" | "k = Assigned_Empty" | "k = Assigned_Destroyed" using kd by (auto simp: data_kinds_def)
    then show ?thesis
    proof cases
      case 1
      then show ?thesis using l fr(1) inc br(1) wi by (simp add: create_child_def dk run_simps held_simps data_kinds_def)
    next
      case 2
      then show ?thesis using l fr(4) get br(1) wi by (simp add: create_child_def dk run_simps held_simps data_kinds_def)
    next
      case 3
      then show ?thesis using l fr(2) inc br(2) wi by (simp add: create_child_def dk run_simps held_simps data_kinds_def)
    next
      case 4
      then show ?thesis using l fr(3) inc br(2) wi by (simp add: create_child_def dk run_simps held_simps data_kinds_def)
    qed
  qed
  show ?thesis
  proof (cases "k \<in> unassigned_kinds \<or> k \<in> insert Assigned_Ns data_kinds")
    case True
    then show ?thesis using un as by blast
  next
    case False
    then have "k = Table" by (cases k) (auto simp: unassigned_kinds_def data_kinds_def)
    then show ?thesis by (simp add: create_child_def dk run_simps)
  qed
qed

section \<open>The state with the new table\<close>

definition added :: "s2tt_context \<Rightarrow> u64 \<Rightarrow> nat \<Rightarrow> nat \<Rightarrow> s2tte_kind \<Rightarrow> u64 \<Rightarrow> nat \<Rightarrow> u64 list \<Rightarrow> rmm \<Rightarrow> rmm" where
  "added c map_addr t i k e' t' tab s = page_set t i e' (upd_granule t' (eor_state GRANULE_STATE_RTT)
    (referenced t t' (k \<in> data_kinds) (filled t' tab (broken c map_addr t i k s))))"

lemma added_fields:
  assumes "t \<noteq> t'"
  shows "arm_dram (added c map_addr t i k e' t' tab s) = arm_dram s" "slots (added c map_addr t i k e' t' tab s) = slots s"
    "granules (added c map_addr t i k e' t' tab s) h =
      (if h = t' then eor_state GRANULE_STATE_RTT (if k \<in> data_kinds then add_desc 512 (granules s t') else granules s t')
       else if h = t \<and> k \<notin> data_kinds then add_desc 1 (granules s t) else granules s h)"
    "mem (added c map_addr t i k e' t' tab s) h =
      (if h = t' then (mem s t')\<lparr>words := tab\<rparr> else if h = t then (mem s t)\<lparr>words := (words (mem s t))[i := e']\<rparr> else mem s h)"
  using assms by (auto simp: added_def referenced_def filled_def broken_def upd_granule_def upd_mem_def page_set_def)

lemma added_owners_kept:
  assumes "t \<noteq> t'" "is_rtt s t" "STATE (granules s t') = GRANULE_STATE_DELEGATED" "unat (REFCOUNT (granules s t)) \<le> 512"
  shows "owners_kept s (added c map_addr t i k e' t' tab s)"
proof (rule owners_keptI)
  let ?s' = "added c map_addr t i k e' t' tab s"
  show "arm_dram ?s' = arm_dram s" "vmids ?s' = vmids s" "feat_vmid16 ?s' = feat_vmid16 s" "tags ?s' = tags s" "csm_region_ids ?s' = csm_region_ids s"
    by (simp_all add: added_def referenced_def filled_def broken_def upd_granule_def upd_mem_def page_set_def log_tlbi_def)
  note f = added_fields(3,4) [OF assms(1), where c = c and map_addr = map_addr and i = i and k = k and e' = e' and tab = tab and s = s]
    and st = is_rttD(2) [OF assms(2)] assms(3)
  have "STATE (add_desc 1 (granules s t)) = STATE (granules s t)" using refcount_add_fields [of "granules s t" 1] assms(4) by simp
  then show "granules ?s' h = granules s h \<and> measured (mem s h) (mem ?s' h) \<or> \<not> owner_state (STATE (granules s h)) \<and> \<not> owner_state (STATE (granules ?s' h))" for h
    using f(1,2) [of h] st assms(1) by auto
qed

definition table_entry_value :: "s2tt_context \<Rightarrow> u64 \<Rightarrow> u64" where
  "table_entry_value c rtt_addr = pa_to_s2tte rtt_addr (enable_lpa2 c) OR S2TTE_TABLE"

lemma create_table_entry_held:
  assumes idle: "idle s" and k: "kinds (words (mem s t) ! unat idx) (lv - 1) = {k}"
    and wi: "llt_of wi = t" "wi_index wi = idx" "g_llt wi = Some t"
    and rt: "is_rtt s t" "granule_at (arm_dram s) rtt_addr = Some t'" "STATE (granules s t') = GRANULE_STATE_DELEGATED"
    and al: "k \<in> data_kinds \<Longrightarrow> addr_lvl_aligned (enable_lpa2 c) (to_pa_value (words (mem s t) ! unat idx) (lv - 1) (enable_lpa2 c)) (lv - 1)"
    and lv: "k \<in> insert Assigned_Ns data_kinds \<Longrightarrow> 2 \<le> lv" "lv \<le> 3" "min_starting_level c \<le> lv - 1"
  shows "create_table_entry c wi t' rtt_addr map_addr lv (held {t, t'} no_slots s) =
    Inr (if k = Table then (rtt_error (lv - 1), held {t, t'} no_slots s)
      else (RMI_SUCCESS, held {t, t'} no_slots
        (added c map_addr t (unat idx) k (table_entry_value c rtt_addr) t' (unfold_table c (words (mem s t) ! unat idx) lv k) s)))"
proof -
  note id = idleD [OF idle]
  have ne: "t \<noteq> t'" using is_rttD(2) [OF rt(1)] rt(3) by auto
  have rc: "unat (REFCOUNT (granules s t)) \<le> 512" using rtt_inv_iff [of "granules s t"] id(5) [of t] is_rttD(2) [OF rt(1)] by simp
  have z: "REFCOUNT (granules s t') = 0" using refcount_zero [OF id(5) [of t']] rt(3) by simp
  have v: "valid_g (arm_dram s) t" "valid_g (arm_dram s) t'" using is_rttD(1) [OF rt(1)] rt(2) by (auto simp: valid_gI)
  have cc: "create_child c wi t' map_addr lv (words (mem s t) ! unat idx) (held {t, t'} M s) =
    Inr (if k = Table then (False, held {t, t'} M s)
      else (True, held {t, t'} M (referenced t t' (k \<in> data_kinds)
        (filled t' (unfold_table c (words (mem s t) ! unat idx) lv k) (broken c map_addr t (unat idx) k s)))))" for M
    by (rule create_child_held [OF idle k wi(1,2) _ _ ne rc z]) (use al lv in auto)
  have ga: "GRANULE_ALIGNED rtt_addr" using granule_at_aligned [OF rt(2) id(3)] .
  show ?thesis
    using wi v id(3) ga lv(2,3) ne
    by (simp add: create_table_entry_def run_simps held_simps cc s2tte_create_table_def table_entry_value_def added_def page_set_def)
qed

lemma add_refs:
  assumes "unat (REFCOUNT x) + unat v \<le> 1023"
  shows "LOCKED (add_desc v x) = LOCKED x" "STATE (add_desc v x) = STATE x" "unat (REFCOUNT (add_desc v x)) = unat (REFCOUNT x) + unat v"
proof -
  show "LOCKED (add_desc v x) = LOCKED x" "STATE (add_desc v x) = STATE x" using refcount_add_fields [OF assms] by simp_all
  have "unat (REFCOUNT x + v) = unat (REFCOUNT x) + unat v" using assms by (simp add: unat_word_ariths)
  then show "unat (REFCOUNT (add_desc v x)) = unat (REFCOUNT x) + unat v" using refcount_add_fields [OF assms] by simp
qed

lemma added_added:
  fixes map_addr :: u64
  assumes inv: "realm_inv s" and n: "n < depth (realm_ctx s g)" and it: "in_tree s g n (p div 512) t"
    and t': "granule_at (arm_dram s) rtt_addr = Some t'" "STATE (granules s t') = GRANULE_STATE_DELEGATED"
    and al: "addr_lvl_aligned (enable_lpa2 (realm_ctx s g)) rtt_addr 3"
    and ft: "folds_to (realm_ctx s g) tab (level (realm_ctx s g) (Suc n)) (words (mem s t) ! (p mod 512)) k" and len: "length tab = 512"
  defines "s' \<equiv> added (realm_ctx s g) map_addr t (p mod 512) k (table_entry_value (realm_ctx s g) rtt_addr) t' tab s"
  shows "table_added s s' g n p t t' (table_entry_value (realm_ctx s g) rtt_addr)" "words (mem s' t') = tab"
    "unat (REFCOUNT (granules s' t)) = unat (REFCOUNT (granules s t)) + of_bool (k \<notin> data_kinds)"
    "unat (REFCOUNT (granules s' t')) = (if k \<in> data_kinds then 512 else 0)"
proof -
  let ?c = "realm_ctx s g" and ?e' = "table_entry_value (realm_ctx s g) rtt_addr"
  note id = idleD [OF realm_invD(1) [OF inv]] and tree = realm_invD(2) [OF inv]
  have rt: "is_rtt s t" using tree_okD(2) [OF tree it] .
  have ne: "t \<noteq> t'" using is_rttD(2) [OF rt] t'(2) by auto
  note f = added_fields [OF ne, where c = ?c and map_addr = map_addr and i = "p mod 512" and k = k and e' = ?e' and tab = tab and s = s, folded s'_def]
  have rc: "unat (REFCOUNT (granules s t)) \<le> 512" using rtt_inv_iff [of "granules s t"] id(5) [of t] is_rttD(2) [OF rt] by simp
  have z: "REFCOUNT (granules s t') = 0" using refcount_zero [OF id(5) [of t']] t'(2) by simp
  note a1 = add_refs [of "granules s t" 1] and a5 = add_refs [of "granules s t'" 512]
  show r: "unat (REFCOUNT (granules s' t)) = unat (REFCOUNT (granules s t)) + of_bool (k \<notin> data_kinds)"
    using f(3) [of t] ne a1(3) rc by simp
  show r': "unat (REFCOUNT (granules s' t')) = (if k \<in> data_kinds then 512 else 0)" using f(3) [of t'] a5(3) z by simp
  show w: "words (mem s' t') = tab" using f(4) [of t'] by simp
  have st: "STATE (granules s' h) = (if h = t' then GRANULE_STATE_RTT else STATE (granules s h))" "\<not> LOCKED (granules s' h)" for h
    using f(3) [of h] a1(1,2) a5(1,2) rc z id(2) [of h] by auto
  have k: "kinds (words (mem s t) ! (p mod 512)) (level ?c n) = {k}" "k \<noteq> Table" "\<And>i. i < 512 \<Longrightarrow> kinds (tab ! i) (level ?c (Suc n)) = {k}"
    using ft by (auto simp: folds_to_def level_def)
  have e: "\<not> entry_is_table (words (mem s t) ! (p mod 512))"
    using kinds_is_table [OF k(1)] k(2) entry_is_table_iff [OF level_below(1) [OF n]] by simp
  have flat: "\<not> s2tte_is_table (words (mem s' t') ! i) (level ?c (Suc n))" if "i < 512" for i using kinds_is_table [OF k(3) [OF that]] k(2) w by simp
  have e': "entry_is_table ?e'" "to_pa_value ?e' 3 (enable_lpa2 ?c) = rtt_addr"
    using table_ok [OF al level_below(1) [OF n]] by (simp_all add: table_entry_value_def)
  have "idle s'"
  proof (rule idle_change [OF realm_invD(1) [OF inv] f(1,2)])
    fix h
    show "\<not> LOCKED (granules s' h)" by (rule st(2))
    show "length (words (mem s' h)) = 512" using f(4) [of h] id(6) len by simp
    have cnt: "counted (words (mem s t) ! (p mod 512)) (level ?c n) \<longleftrightarrow> k \<in> data_kinds" using kinds_counted [OF k(1)] k(2) by auto
    have "unat (REFCOUNT (granules s' t)) \<le> 512"
      using r refs_less [of "p mod 512" s t "level ?c n"] realm_invD(4) [OF inv it] rc cnt by (cases "k \<in> data_kinds") auto
    then have "granule_inv (granules s' t)" using rtt_inv_iff [of "granules s' t"] st(1) [of t] is_rttD(2) [OF rt] ne by simp
    moreover have "granule_inv (granules s' t')" using rtt_inv_iff [of "granules s' t'"] st(1) [of t'] r' by simp
    ultimately show "REFCOUNT (granules s' h) = REFCOUNT (granules s h) \<and> STATE (granules s' h) = STATE (granules s h) \<or>
      granule_inv (granules s' h)" using f(3) [of h] by auto
    assume "STATE (granules s' h) = GRANULE_STATE_DELEGATED"
    then show "STATE (granules s h) = GRANULE_STATE_DELEGATED \<and> mem s' h = mem s h \<or> mem s' h = zero_data"
      using st(1) [of h] f(4) [of h] is_rttD(2) [OF rt] by (auto split: if_splits)
  qed
  moreover have "same_realms s s'" using f(1,4) st(1) is_rttD(2) [OF rt] t'(2) by (auto simp: same_realms_def is_realm_def realm_ctx_def)
  moreover have "is_rtt s' h \<and> words (mem s' h) = (if h = t then (words (mem s t))[p mod 512 := ?e'] else words (mem s h)) \<and>
      (h \<noteq> t \<longrightarrow> REFCOUNT (granules s' h) = REFCOUNT (granules s h))" if h: "is_rtt s h" for h
  proof -
    have "h \<noteq> t'" using is_rttD(2) [OF h] t'(2) by auto
    then show ?thesis using h f(1) f(3,4) [of h] st(1) [of h] by (auto simp: is_rtt_def split: if_splits)
  qed
  moreover have "STATE (granules s d) = GRANULE_STATE_DATA \<longrightarrow> STATE (granules s' d) = GRANULE_STATE_DATA" for d using st(1) [of d] t'(2) by auto
  moreover have "is_rtt s' t'" "\<not> is_rtt s t'" using st(1) [of t'] t' f(1) by (auto simp: is_rtt_def valid_gI)
  ultimately show "table_added s s' g n p t t' ?e'"
    unfolding table_added_def using inv it n e e' t'(1) flat by metis
qed

lemma added_inv:
  fixes map_addr :: u64
  assumes inv: "realm_inv s" and n: "n < depth (realm_ctx s g)" and it: "in_tree s g n (p div 512) t"
    and t': "granule_at (arm_dram s) rtt_addr = Some t'" "STATE (granules s t') = GRANULE_STATE_DELEGATED"
    and al: "addr_lvl_aligned (enable_lpa2 (realm_ctx s g)) rtt_addr 3"
    and ft: "folds_to (realm_ctx s g) tab (level (realm_ctx s g) (Suc n)) (words (mem s t) ! (p mod 512)) k" and len: "length tab = 512"
  defines "s' \<equiv> added (realm_ctx s g) map_addr t (p mod 512) k (table_entry_value (realm_ctx s g) rtt_addr) t' tab s"
  shows "realm_inv s'" "maps s' h P d \<longleftrightarrow> maps s h P d" "STATE (granules s' t') = GRANULE_STATE_RTT" "owners_kept s s'"
proof -
  let ?c = "realm_ctx s g" and ?e = "words (mem s t) ! (p mod 512)" and ?lv = "level (realm_ctx s g) (Suc n)"
  note tree = realm_invD(2) [OF inv]
  note ad = added_added [OF inv n it t' al ft len, where map_addr = map_addr, folded s'_def]
  show "STATE (granules s' t') = GRANULE_STATE_RTT" using ad(1) by (auto simp: table_added_def is_rtt_def)
  have rt: "is_rtt s t" using tree_okD(2) [OF tree it] .
  have ne: "t \<noteq> t'" "unat (REFCOUNT (granules s t)) \<le> 512"
    using is_rttD(2) [OF rt] t'(2) rtt_inv_iff [of "granules s t"] idleD(5) [OF realm_invD(1) [OF inv], of t] by auto
  show "owners_kept s s'" unfolding s'_def by (rule added_owners_kept [OF ne(1) rt t'(2) ne(2)])
  have wf: "wf_ctx ?c" using tree_okD(1) [OF tree in_treeD(1) [OF it]] .
  have sl: "s2_starting_level ?c \<le> 3" using wf by (simp add: wf_ctx_def)
  have lv1: "?lv - 1 = level ?c n" by (simp add: level_def)
  have k: "kinds ?e (level ?c n) = {k}" "\<And>i. i < 512 \<Longrightarrow> kinds (tab ! i) ?lv = {k}" "k \<noteq> Table"
    "k \<in> insert Assigned_Ns data_kinds \<Longrightarrow> 1 \<le> level ?c n"
    "k \<in> data_kinds \<Longrightarrow> addr_lvl_aligned (enable_lpa2 ?c) (out_addr ?c n ?e) (?lv - 1)"
    "\<And>i. k \<in> data_kinds \<Longrightarrow> i < 512 \<Longrightarrow> out_addr ?c (Suc n) (tab ! i) = nth_pa (out_addr ?c n ?e) ?lv i"
    using ft unfolding folds_to_def lv1 out_addr_def by (metis (no_types))+
  have parts: "parts_of ?c n ?e (\<lambda>i. tab ! i)" if "k \<in> data_kinds" using that k(1,2,6) unfolding parts_of_def nth_pa_def by blast
  have same: "maps_by s ?c n p ?e P d \<longleftrightarrow> (\<exists>i < 512. maps_by s ?c (Suc n) (p * 512 + i) (tab ! i) P d)" for P d
  proof (cases "k \<in> data_kinds")
    case True
    then show ?thesis using maps_by_parts [OF parts n sl] by blast
  next
    case False
    then show ?thesis using k(1,2) by (auto simp: maps_by_def)
  qed
  have "ent s g n p ?e" using entI [OF it, of "p mod 512"] by simp
  then have eok: "entry_ok s ?c n p ?e" by (rule realm_invD(3) [OF inv])
  have lvle: "?lv \<le> 3" using n by (simp add: level_def depth_def)
  have ok: "entry_ok s ?c (Suc n) (p * 512 + i) (tab ! i)" if i: "i < 512" for i
    unfolding entry_ok_def
  proof (intro exI [of _ k] conjI impI allI)
    show "kinds (tab ! i) ?lv = {k}" by (rule k(2) [OF i])
  next
    assume kd: "k \<in> data_kinds"
    have l: "1 \<le> ?lv" using k(4) kd by (simp add: level_def)
    show "addr_lvl_aligned (enable_lpa2 ?c) (out_addr ?c (Suc n) (tab ! i)) ?lv"
      unfolding k(6) [OF kd i] by (rule nth_pa_aligned [OF l lvle k(5) [OF kd] i])
  next
    fix j assume kd: "k \<in> data_kinds" and j: "j < pages ?c (Suc n)"
    have "i * pages ?c (Suc n) + j < (i + 1) * pages ?c (Suc n)" using j by simp
    also have "\<dots> \<le> 512 * pages ?c (Suc n)" using i by (intro mult_le_mono1) simp
    finally have "i * pages ?c (Suc n) + j < pages ?c n" using pages_Suc [OF n] by simp
    then have "page_granule s ?c n ?e (i * pages ?c (Suc n) + j) \<noteq> None" using eok k(1) kd by (auto simp: entry_ok_def)
    then show "page_granule s ?c (Suc n) (tab ! i) j \<noteq> None" using parts_page [OF parts [OF kd] n sl i] by simp
  next
    assume "k \<in> insert Assigned_Ns data_kinds"
    then show "1 \<le> ?lv" using k(4) by (simp add: level_def)
  next
    assume "k \<noteq> Table \<and> in_ipa ?c (Suc n) (p * 512 + i)"
    then show "k \<in> ns_kinds \<longleftrightarrow> \<not> in_par ?c (Suc n) (p * 512 + i)"
      using eok k(1) in_par_parts [OF wf n i, of p] by (auto simp: entry_ok_def)
  qed
  have cnt: "unat (REFCOUNT (granules s' t)) + of_bool (counted ?e (level ?c n)) = unat (REFCOUNT (granules s t)) + 1"
    using ad(3) kinds_counted [OF k(1)] k(3) by auto
  have cnt': "unat (REFCOUNT (granules s' t')) = refs s' ?lv t'"
  proof (cases "k \<in> data_kinds")
    case True
    then show ?thesis using ad(2,4) refs_512 [of s' ?lv t'] kinds_counted [OF k(2)] by auto
  next
    case False
    then show ?thesis using ad(2,4) refs_0 [of s' ?lv t'] kinds_counted [OF k(2)] k(3) by auto
  qed
  note ai = table_added_inv [OF ad(1) _ cnt cnt', unfolded ad(2), OF ok same]
  show "realm_inv s'" by (rule ai(1))
  show "maps s' h P d \<longleftrightarrow> maps s h P d" by (rule ai(2))
qed

section \<open>The command\<close>

lemma create_table_entry_run:
  assumes inv: "realm_inv s" and g: "is_realm s g" and so: "structure_ok (d_rd (mem s g)) map_addr lv"
    and w: "rtt_walk s (realm_ctx s g) map_addr (lv - 1) = (t, lv - 1)"
    and d: "granule_in s rtt_addr GRANULE_STATE_DELEGATED = Some d" and pa: "enable_lpa2 (realm_ctx s g) \<or> rtt_addr < push_bit 48 1"
  defines "tab \<equiv> s2tte_is_table (words (mem s t) ! (entry_no map_addr (lv - 1) mod 512)) (lv - 1)"
  shows "\<exists>r s'. create_table_entry (realm_ctx s g) (walk_info s (realm_ctx s g) map_addr (lv - 1)) d rtt_addr map_addr lv (held {t, d} no_slots s) =
      Inr (r, held {t, d} no_slots s') \<and> realm_inv s' \<and> owners_kept s s' \<and> (\<forall>g P x. maps s' g P x \<longleftrightarrow> maps s g P x) \<and>
    (if tab then r \<noteq> RMI_SUCCESS \<and> s' = s else r = RMI_SUCCESS \<and> STATE (granules s' d) = GRANULE_STATE_RTT)"
proof -
  let ?c = "realm_ctx s g" and ?p = "entry_no map_addr (lv - 1)" and ?wi = "walk_info s (realm_ctx s g) map_addr (lv - 1)"
  let ?e = "words (mem s t) ! (?p mod 512)"
  note D = granule_inD [OF d]
  have c: "rd_s2_ctx (d_rd (mem s g)) = ?c" by (simp add: realm_ctx_def)
  have wf: "wf_ctx ?c" using tree_okD(1) [OF realm_invD(2) [OF inv] g] .
  have a: "map_addr < push_bit (unat (ipa_bits ?c)) 1" and lv: "s2_starting_level ?c \<le> lv - 1" "lv - 1 \<le> 2" "lv - 1 \<le> 3" "lv \<le> 3"
    using so realm_ipa_size_ctx [OF g] by (auto simp: structure_ok_def realm_rtt_starting_level_def c)
  obtain n where n: "lv - 1 = level ?c n" "in_tree s g n (?p div 512) t" "unat (s2_addr_to_idx map_addr (lv - 1)) = ?p mod 512"
    "n < depth ?c \<longleftrightarrow> lv - 1 < 3" "is_rtt s t" "entry_ok s ?c n ?p ?e"
    by (rule realm_walk [OF inv g a lv(1,3) w])
  have nd: "n < depth ?c" using n(4) lv(2) by simp
  obtain k where k: "kinds ?e (lv - 1) = {k}" "k \<in> data_kinds \<Longrightarrow> addr_lvl_aligned (enable_lpa2 ?c) (to_pa_value ?e (lv - 1) (enable_lpa2 ?c)) (lv - 1)"
    "k \<in> insert Assigned_Ns data_kinds \<Longrightarrow> 1 \<le> lv - 1"
    using n(6) unfolding entry_ok_def n(1) [symmetric] out_addr_def by blast
  have l2: "k \<in> insert Assigned_Ns data_kinds \<Longrightarrow> 2 \<le> lv" using k(3) by simp
  have al: "addr_lvl_aligned (enable_lpa2 ?c) rtt_addr 3"
    by (rule granule_page_aligned [OF inv D(1)]) (use pa in \<open>simp add: push_bit_eq_mult word_less_nat_alt\<close>)
  have ms: "min_starting_level ?c \<le> lv - 1" using wf lv(1) by (simp add: wf_ctx_def)
  have wi: "llt_of ?wi = t" "wi_index ?wi = s2_addr_to_idx map_addr (lv - 1)" "g_llt ?wi = Some t" using w by simp_all
  have run: "create_table_entry ?c ?wi d rtt_addr map_addr lv (held {t, d} no_slots s) =
    Inr (if k = Table then (rtt_error (lv - 1), held {t, d} no_slots s)
      else (RMI_SUCCESS, held {t, d} no_slots (added ?c map_addr t (?p mod 512) k (table_entry_value ?c rtt_addr) d (unfold_table ?c ?e lv k) s)))"
    by (rule create_table_entry_held [OF realm_invD(1) [OF inv] _ wi, unfolded n(3)]) (use k l2 lv ms n(5) D in auto)
  have tk: "tab \<longleftrightarrow> k = Table" unfolding tab_def by (rule kinds_is_table [OF k(1)])
  show ?thesis
  proof (cases "k = Table")
    case True
    then show ?thesis using run tk inv by auto
  next
    case False
    have "folds_to ?c (unfold_table ?c ?e lv k) lv ?e k" by (rule unfold_folds_to [OF k(1) False]) (use k(2) l2 lv(4) in auto)
    moreover have "lv = level ?c (Suc n)" using n(1) by (simp add: level_def)
    ultimately have ft: "folds_to ?c (unfold_table ?c ?e lv k) (level ?c (Suc n)) ?e k" by simp
    note ai = added_inv [OF inv nd n(2) D(1,2) al ft, where map_addr = map_addr]
    show ?thesis using run tk False ai by auto
  qed
qed

lemma unlock_one:
  assumes "realm_inv s"
  shows "granule_unlock d (held {d} no_slots s) = Inr ((), s)"
  using idleD(2,4,5) [OF realm_invD(1) [OF assms]] by (simp add: held_simps held_empty)

text \<open>The steps of a command that locks a delegated granule and a realm descriptor.\<close>

lemma two_steps:
  assumes idle: "idle s" and dg: "granule_in s rtt_addr GRANULE_STATE_DELEGATED = Some d" "granule_in s rd_addr GRANULE_STATE_RD = Some g"
  shows "find_lock_two_granules rtt_addr GRANULE_STATE_DELEGATED rd_addr GRANULE_STATE_RD (held {} no_slots s) =
      Inr (Some (d, g), held {d, g} no_slots s)"
    "map_slot (Some g) SLOT_RD (held {d, g} no_slots s) = Inr ((), held {d, g} (no_slots(SLOT_RD := Some g)) s)"
    "buffer_unmap SLOT_RD (held {d, g} (no_slots(SLOT_RD := Some g)) s) = Inr ((), held {d, g} no_slots s)"
    "granule_unlock g (held {d, g} no_slots s) = Inr ((), held {d} no_slots s)"
proof -
  note id = idleD [OF idle] and D = granule_inD [OF dg(1)] and G = granule_inD [OF dg(2)]
  show "find_lock_two_granules rtt_addr GRANULE_STATE_DELEGATED rd_addr GRANULE_STATE_RD (held {} no_slots s) =
      Inr (Some (d, g), held {d, g} no_slots s)"
    using find_lock_two_held [OF idle, of GRANULE_STATE_DELEGATED GRANULE_STATE_RD rtt_addr rd_addr] dg by simp
  have "{d, g} - {g} = {d}" using D(2) G(2) by auto
  then show "granule_unlock g (held {d, g} no_slots s) = Inr ((), held {d} no_slots s)" using id(2,5) [of g] by (simp add: held_simps)
qed (use idleD(3) [OF idle] granule_inD(3) [OF dg(2)] in \<open>simp_all add: held_simps\<close>)

lemma walk_two_steps:
  assumes inv: "realm_inv s" and dg: "granule_in s rtt_addr GRANULE_STATE_DELEGATED = Some d" "granule_in s rd_addr GRANULE_STATE_RD = Some g"
    and a: "addr < push_bit (unat (ipa_bits (realm_ctx s g))) 1"
    and lv: "s2_starting_level (realm_ctx s g) \<le> lv" "lv \<le> 3" and w: "rtt_walk s (realm_ctx s g) addr lv = (t, l)"
  defines "r \<equiv> the (g_rtt (realm_ctx s g))"
  shows "lock_root (realm_ctx s g) (held {d, g} no_slots s) = Inr ((), held {r, d, g} no_slots s)"
    "granule_unlock g (held {r, d, g} no_slots s) = Inr ((), held {r, d} no_slots s)"
    "s2tt_walk_lock_unlock (realm_ctx s g) addr lv (held {r, d} no_slots s) = Inr (walk_info s (realm_ctx s g) addr lv, held {t, d} no_slots s)"
    "realm_inv s' \<Longrightarrow> granule_unlock t (held {t, d} no_slots s') = Inr ((), held {d} no_slots s')"
proof -
  let ?c = "realm_ctx s g"
  note idle = realm_invD(1) [OF inv] note id = idleD [OF idle] and D = granule_inD [OF dg(1)] and G = granule_inD [OF dg(2)]
  note wk = tree_walk_ok [OF realm_invD(2) [OF inv] is_realm_in [OF dg(2)] a]
  have r: "is_rtt s r" using wk by (simp add: walk_ok_def r_def)
  have t: "is_rtt s t" using rtt_walk_rtt [OF wk lv] w by simp
  have nr: "\<not> is_rtt s g" "\<not> is_rtt s d" "d \<noteq> g" using D(2) G(2) by (auto simp: is_rtt_def)
  show "lock_root ?c (held {d, g} no_slots s) = Inr ((), held {r, d, g} no_slots s)"
    using lock_root_held [OF idle wk, of "{d, g}" no_slots] nr by (simp add: r_def)
  have "{r, d, g} - {g} = {r, d}" using r nr by auto
  then show "granule_unlock g (held {r, d, g} no_slots s) = Inr ((), held {r, d} no_slots s)" using id(2,5) [of g] by (simp add: held_simps)
  show "s2tt_walk_lock_unlock ?c addr lv (held {r, d} no_slots s) = Inr (walk_info s ?c addr lv, held {t, d} no_slots s)"
    using walk_held' [OF idle wk _ _ lv, of no_slots "{d}"] w nr by (simp add: walk_info_def r_def)
  assume inv': "realm_inv s'"
  have "{t, d} - {t} = {d}" using t nr by auto
  then show "granule_unlock t (held {t, d} no_slots s') = Inr ((), held {d} no_slots s')"
    using idleD(2,5) [OF realm_invD(1) [OF inv']] by (simp add: held_simps)
qed

text \<open>What the command requires of its arguments.\<close>

definition table_creatable :: "rmm \<Rightarrow> nat \<Rightarrow> u64 \<Rightarrow> u64 \<Rightarrow> int \<Rightarrow> bool" where
  "table_creatable s g rtt_addr map_addr lv \<longleftrightarrow>
    (let c = realm_ctx s g; (t, l) = rtt_walk s c map_addr (lv - 1)
     in structure_ok (d_rd (mem s g)) map_addr lv \<and> (enable_lpa2 c \<or> rtt_addr < push_bit S2TT_MAX_PA_BITS 1) \<and>
        l = lv - 1 \<and> \<not> s2tte_is_table (words (mem s t) ! (entry_no map_addr l mod 512)) l)"

lemma smc_rtt_create_run:
  assumes inv: "realm_inv s"
  shows "\<exists>r s'. smc_rtt_create rd_addr rtt_addr map_addr ulevel s = Inr (r, s') \<and> realm_inv s' \<and> owners_kept s s' \<and>
    (\<forall>g P d. maps s' g P d \<longleftrightarrow> maps s g P d) \<and>
    (case (granule_in s rtt_addr GRANULE_STATE_DELEGATED, granule_in s rd_addr GRANULE_STATE_RD) of
       (Some d, Some g) \<Rightarrow>
         if table_creatable s g rtt_addr map_addr (sint ulevel) then r = RMI_SUCCESS \<and> STATE (granules s' d) = GRANULE_STATE_RTT
         else r \<noteq> RMI_SUCCESS \<and> s' = s
     | _ \<Rightarrow> r \<noteq> RMI_SUCCESS \<and> s' = s)"
proof (cases "\<exists>d g. granule_in s rtt_addr GRANULE_STATE_DELEGATED = Some d \<and> granule_in s rd_addr GRANULE_STATE_RD = Some g")
  case False
  note idle = realm_invD(1) [OF inv]
  have "find_lock_two_granules rtt_addr GRANULE_STATE_DELEGATED rd_addr GRANULE_STATE_RD (held {} no_slots s) =
    Inr (None, held {} no_slots s)"
    using find_lock_two_held [OF idle, of GRANULE_STATE_DELEGATED GRANULE_STATE_RD rtt_addr rd_addr] False
    by (auto split: option.splits)
  then show ?thesis using False inv idle_held [OF idle]
    by (auto simp: smc_rtt_create_def run_simps Let_def split: option.splits)
next
  case True
  then obtain d g where dg: "granule_in s rtt_addr GRANULE_STATE_DELEGATED = Some d" "granule_in s rd_addr GRANULE_STATE_RD = Some g" by blast
  note idle = realm_invD(1) [OF inv]
  let ?rd = "d_rd (mem s g)" and ?c = "realm_ctx s g" and ?lv = "sint ulevel"
  have c: "rd_s2_ctx ?rd = ?c" by (simp add: realm_ctx_def)
  have realm: "is_realm s g" using is_realm_in [OF dg(2)] .
  have wf: "wf_ctx (rd_s2_ctx ?rd)" using tree_okD(1) [OF realm_invD(2) [OF inv] realm] c by simp
  obtain t l where w: "rtt_walk s ?c map_addr (?lv - 1) = (t, l)" by fastforce
  have h: "smc_rtt_create rd_addr rtt_addr map_addr ulevel s = smc_rtt_create rd_addr rtt_addr map_addr ulevel (held {} no_slots s)"
    using idle_held [OF idle] by simp
  note ts = two_steps [OF idle dg] and ud = unlock_one
  note run = smc_rtt_create_def run_simps validate_rtt_structure_run [OF wf] c Let_def ts(1-3) read_held
  show ?thesis
  proof (cases "structure_ok ?rd map_addr ?lv \<and> (enable_lpa2 ?c \<or> rtt_addr < push_bit 48 1)")
    case False
    then have nc: "\<not> table_creatable s g rtt_addr map_addr ?lv" by (auto simp: table_creatable_def Let_def split: prod.splits)
    show ?thesis unfolding h using False dg inv ts(4) ud [OF inv] nc by (auto simp: run not_less [symmetric])
  next
    case so: True
    have a: "map_addr < push_bit (unat (ipa_bits ?c)) 1" and lv: "s2_starting_level ?c \<le> ?lv - 1" "?lv - 1 \<le> 3"
      using so realm_ipa_size_ctx [OF realm] by (auto simp: structure_ok_def realm_rtt_starting_level_def c)
    note wt = walk_two_steps [OF inv dg a lv w] note ut = wt(4)
    note run = run wt(1-3)
    show ?thesis
    proof (cases "l = ?lv - 1")
      case False
      then have nc: "\<not> table_creatable s g rtt_addr map_addr ?lv" using w by (simp add: table_creatable_def Let_def)
      show ?thesis unfolding h using False so dg inv ut [OF inv] ud [OF inv] nc w by (auto simp: run not_less [symmetric])
    next
      case l: True
      note w' = w [unfolded l]
      obtain x s' where x: "create_table_entry ?c (walk_info s ?c map_addr (?lv - 1)) d rtt_addr map_addr ?lv (held {t, d} no_slots s) = Inr (x, held {t, d} no_slots s')"
        and x': "realm_inv s'" "owners_kept s s'" "\<forall>g P x. maps s' g P x \<longleftrightarrow> maps s g P x"
          "if s2tte_is_table (words (mem s t) ! (entry_no map_addr (?lv - 1) mod 512)) (?lv - 1) then x \<noteq> RMI_SUCCESS \<and> s' = s
           else x = RMI_SUCCESS \<and> STATE (granules s' d) = GRANULE_STATE_RTT"
        using create_table_entry_run [OF inv realm conjunct1 [OF so] w' dg(1) conjunct2 [OF so]] by blast
      have "smc_rtt_create rd_addr rtt_addr map_addr ulevel s = Inr (x, s')"
        unfolding h using so w' x ut [OF x'(1)] ud [OF x'(1)] by (auto simp: run not_less [symmetric])
      moreover have "table_creatable s g rtt_addr map_addr ?lv \<longleftrightarrow> \<not> s2tte_is_table (words (mem s t) ! (entry_no map_addr (?lv - 1) mod 512)) (?lv - 1)"
        using so w' by (simp add: table_creatable_def Let_def)
      ultimately show ?thesis using x' dg by auto
    qed
  qed
qed



end
