(* ===== verification/Rtt_Ns.thy ===== *)
theory Rtt_Ns
  imports Rtt_Create
begin

text \<open>
  The commands that map and unmap non-secure memory (\<^verbatim>\<open>map_unmap_ns\<close>) write one entry for an unprotected address. They never touch an
  entry for a protected address, nor the memory that realms have.
\<close>

section \<open>Writing a non-secure entry\<close>

definition ns_written :: "nat \<Rightarrow> nat \<Rightarrow> u64 \<Rightarrow> tlb_event list \<Rightarrow> rmm \<Rightarrow> rmm" where
  "ns_written t i e' es s = log_tlbi es (page_set t i e' s)"

lemma ns_written_inv:
  assumes inv: "realm_inv s" and it: "in_tree s g n (p div 512) t"
    and k: "kinds (words (mem s t) ! (p mod 512)) (level (realm_ctx s g) n) = {k}" "k \<in> ns_kinds"
    and k': "kinds e' (level (realm_ctx s g) n) = {k'}" "k' \<in> ns_kinds" and lv: "1 \<le> level (realm_ctx s g) n" and par: "\<not> in_par (realm_ctx s g) n p"
  shows "realm_inv (ns_written t (p mod 512) e' es s)" "maps (ns_written t (p mod 512) e' es s) h P d \<longleftrightarrow> maps s h P d"
    "ent (ns_written t (p mod 512) e' es s) h m q x \<longleftrightarrow> (if (h, m, q) = (g, n, p) then x = e' else ent s h m q x)"
proof -
  let ?c = "realm_ctx s g" and ?e = "words (mem s t) ! (p mod 512)" and ?s' = "ns_written t (p mod 512) e' es s"
  note idle = realm_invD(1) [OF inv] note id = idleD [OF idle]
  have rt: "is_rtt s t" using tree_okD(2) [OF realm_invD(2) [OF inv] it] .
  have f: "arm_dram ?s' = arm_dram s" "slots ?s' = slots s" "granules ?s' = granules s"
    "mem ?s' h = (if h = t then (mem s t)\<lparr>words := (words (mem s t))[p mod 512 := e']\<rparr> else mem s h)" for h
    by (simp_all add: ns_written_def page_set_def upd_mem_def)
  have "idle ?s'"
    by (rule idle_change [OF idle f(1,2)])
      (use f(3,4) id(2,6) is_rttD(2) [OF rt] in auto)
  moreover have "same_realms s ?s'" using f is_rttD(2) [OF rt] by (auto simp: same_realms_def is_realm_def realm_ctx_def)
  moreover have "\<not> entry_is_table ?e \<and> \<not> entry_is_table e'" if "n < depth ?c"
    using kinds_is_table [OF k(1)] kinds_is_table [OF k'(1)] k(2) k'(2) entry_is_table_iff [OF level_below(1) [OF that]] by (auto simp: ns_kinds_def)
  moreover have "is_rtt ?s' h \<and> words (mem ?s' h) = (if h = t then (words (mem s t))[p mod 512 := e'] else words (mem s h)) \<and>
      (h \<noteq> t \<longrightarrow> REFCOUNT (granules ?s' h) = REFCOUNT (granules s h))" if "is_rtt s h" for h
    using that f by (auto simp: is_rtt_def)
  ultimately have ew: "entry_written s ?s' g n p t ?e e'" unfolding entry_written_def using inv it by blast
  show "ent ?s' h m q x \<longleftrightarrow> (if (h, m, q) = (g, n, p) then x = e' else ent s h m q x)" by (rule entry_written_change(3) [OF ew])
  have nd: "\<not> maps_by s ?c n p ?e P d" "\<not> maps_by s ?c n p e' P d" for P d
    using k k' by (auto simp: maps_by_def data_kinds_def ns_kinds_def)
  have maps: "maps ?s' h P d \<longleftrightarrow> maps s h P d" for h P d unfolding entry_written_maps [OF ew] using nd by blast
  show "maps ?s' h P d \<longleftrightarrow> maps s h P d" by (rule maps)
  show "realm_inv ?s'"
  proof (rule entry_written_inv [OF ew])
    show "entry_ok s ?c n p e'" unfolding entry_ok_def using k' lv par by (intro exI [of _ k']) (auto simp: data_kinds_def ns_kinds_def)
    have "\<not> counted ?e (level ?c n)" "\<not> counted e' (level ?c n)"
      using kinds_counted [OF k(1)] kinds_counted [OF k'(1)] k(2) k'(2) by (auto simp: data_kinds_def ns_kinds_def)
    then show "unat (REFCOUNT (granules ?s' t)) + of_bool (counted ?e (level ?c n)) =
      unat (REFCOUNT (granules s t)) + of_bool (counted e' (level ?c n))" using f(3) by simp
  next
    fix h P d assume "maps ?s' h P d"
    then show "STATE (granules ?s' d) = GRANULE_STATE_DATA" using maps realm_invD(5) [OF inv] f(3) by auto
  next
    fix h P h' P' d assume "maps ?s' h P d" "maps ?s' h' P' d"
    then show "h = h' \<and> P = P'" using maps realm_invD(6) [OF inv] by blast
  qed
qed

lemma ns_written_owners_kept:
  assumes "is_rtt s t"
  shows "owners_kept s (ns_written t i e' es s)"
  by (rule owners_keptI) (use is_rttD(2) [OF assms] in \<open>auto simp: ns_written_def page_set_def upd_mem_def log_tlbi_def\<close>)

section \<open>The command\<close>

definition ns_addr_ok :: "rd \<Rightarrow> u64 \<Rightarrow> int \<Rightarrow> bool" where
  "ns_addr_ok rd map_addr lv \<longleftrightarrow> S2TT_MIN_BLOCK_LEVEL \<le> lv \<and> lv \<le> S2TT_PAGE_LEVEL \<and> map_addr < realm_ipa_size rd \<and>
    addr_lvl_aligned (enable_lpa2 (rd_s2_ctx rd)) map_addr lv \<and> \<not> addr_in_par rd map_addr"

definition host_ns_ok :: "s2tt_context \<Rightarrow> u64 \<Rightarrow> int \<Rightarrow> bool" where
  "host_ns_ok c x lv \<longleftrightarrow> (\<forall>n. bit x n \<longrightarrow> bit (lvl_mask lv (enable_lpa2 c) OR S2TTE_NS_ATTR_MASK) n) \<and> \<not> (\<not> bit x 2 \<and> \<not> bit x 3 \<and> bit x 4)"

text \<open>The entry that the command writes and the invalidation that it issues, when the entry has the right kind.\<close>

definition ns_entry :: "s2tt_context \<Rightarrow> map_unmap_ns_op \<Rightarrow> u64 \<Rightarrow> int \<Rightarrow> u64" where
  "ns_entry c op host_s2tte lv = (case op of MAP_NS \<Rightarrow> assigned_ns_value (enable_lpa2 c) host_s2tte lv | UNMAP_NS \<Rightarrow> s2tte_create_unassigned_ns)"

definition ns_events :: "s2tt_context \<Rightarrow> map_unmap_ns_op \<Rightarrow> u64 \<Rightarrow> tlb_event list" where
  "ns_events c op map_addr = (case op of MAP_NS \<Rightarrow> [] | UNMAP_NS \<Rightarrow> tlbi_events c map_addr 1)"

definition ns_changes :: "map_unmap_ns_op \<Rightarrow> u64 \<Rightarrow> int \<Rightarrow> bool" where
  "ns_changes op e lv = (case op of MAP_NS \<Rightarrow> s2tte_is_unassigned_ns e | UNMAP_NS \<Rightarrow> s2tte_is_assigned_ns e lv)"

lemma map_unmap_ns_run:
  assumes inv: "realm_inv s" and G: "granule_in s rd_addr GRANULE_STATE_RD = Some g" and ok: "ns_addr_ok (d_rd (mem s g)) map_addr lv"
    and host: "op = MAP_NS \<Longrightarrow> host_ns_ok (realm_ctx s g) host_s2tte lv"
    and sl: "s2_starting_level (realm_ctx s g) \<le> lv" and w: "rtt_walk s (realm_ctx s g) map_addr lv = (t, l)"
  defines "c \<equiv> realm_ctx s g" and "i \<equiv> entry_no map_addr l mod 512"
  shows "\<exists>res'. map_unmap_ns rd_addr map_addr lv host_s2tte op res s =
      Inr (res', if l = lv \<and> ns_changes op (words (mem s t) ! i) lv then ns_written t i (ns_entry c op host_s2tte lv) (ns_events c op map_addr) s else s) \<and>
    (res' 0 = RMI_SUCCESS \<longleftrightarrow> l = lv \<and> ns_changes op (words (mem s t) ! i) lv)"
proof -
  let ?rd = "d_rd (mem s g)" and ?e = "words (mem s t) ! i" and ?M = "no_slots(SLOT_RTT := Some t)" and ?wi = "walk_info s c map_addr lv"
  note idle = realm_invD(1) [OF inv] note id = idleD [OF idle] and rs = rd_steps [OF idle G]
  have cc: "rd_s2_ctx ?rd = c" by (simp add: realm_ctx_def c_def)
  have realm: "is_realm s g" using is_realm_in [OF G] .
  have wf: "wf_ctx c" using tree_okD(1) [OF realm_invD(2) [OF inv] realm] by (simp add: c_def)
  have a: "map_addr < push_bit (unat (ipa_bits (realm_ctx s g))) 1" and lv: "lv \<le> 3" "1 \<le> lv"
    using ok realm_ipa_size_ctx [OF realm] by (auto simp: ns_addr_ok_def)
  obtain n where n: "l = level c n" "l \<le> lv" "is_rtt s t" "unat (s2_addr_to_idx map_addr l) = i"
    unfolding c_def i_def by (rule realm_walk [OF inv realm a sl lv(1) w])
  note ws = walk_steps [OF inv realm a sl lv(1) w, folded c_def] and w' = w [folded c_def]
  have ml: "min_starting_level c \<le> l" "l \<le> 3" using wf n(1,2) lv by (simp_all add: wf_ctx_def level_def)
  have skip: "s2tt_skip_non_live_entries c map_addr tab ?wi s1 = Inr (skip_addr map_addr tab ?wi, s1)" for tab and s1 :: rmm
    by (rule skip_run) (use w' ml n(4) in \<open>simp_all add: i_def\<close>)
  have skip3: "lv = 3 \<Longrightarrow> s2tt_skip_non_live_entries c map_addr tab (walk_info s c map_addr 3) s1 = Inr (skip_addr map_addr tab (walk_info s c map_addr 3), s1)"
    for tab and s1 :: rmm using skip by simp
  have val: "validate_rtt_map_cmds map_addr lv ?rd s1 = Inr (True, s1)" "\<not> addr_in_par ?rd map_addr" for s1 :: rmm
    using ok lv min_starting_level_bounds(2) [of c] by (simp_all add: validate_rtt_map_cmds_def run_simps ns_addr_ok_def cc)
  have hv: "(if op = MAP_NS then host_ns_s2tte_is_valid c host_s2tte lv else returnM True) s1 = Inr (True, s1)" for s1 :: rmm
    using host host_ns_valid_run [OF lv(2,1), of c host_s2tte s1] by (cases op) (auto simp: run_simps host_ns_ok_def c_def)
  have ul: "granule_unlock t (held {t} no_slots s1) = Inr ((), s1)" if "granules s1 = granules s" "slots s1 = slots s" for s1
    using ws(6) [of s1] id(2,5) [of t] id(4) that by simp
  have ul': "granule_unlock t (held {t} no_slots (ns_written t i e' es s)) = Inr ((), ns_written t i e' es s)"
    "granule_unlock t (held {t} no_slots s) = Inr ((), s)" for e' es
    by (rule ul; simp add: ns_written_def page_set_def upd_mem_def)+
  have wr: "unat idx = i \<Longrightarrow> s2tte_write t idx e' (held {t} ?M s) = Inr ((), held {t} ?M (page_set t i e' s))" for e' idx
    by (simp add: held_simps page_set_def)
  note run = map_unmap_ns_def run_simps rs read_held cc val hv ws skip Let_def wr
  have h: "map_unmap_ns rd_addr map_addr lv host_s2tte op res s = map_unmap_ns rd_addr map_addr lv host_s2tte op res (held {} no_slots s)"
    using idle_held [OF idle] by simp
  show ?thesis
  proof (cases op)
    case MAP_NS
    show ?thesis
      unfolding h using MAP_NS w' n(4) lv ul' ul'(1) [of _ "[]"]
      by (cases "l = lv"; cases "s2tte_is_unassigned_ns ?e")
        (simp_all add: run hv [unfolded MAP_NS, simplified] ns_changes_def ns_entry_def ns_events_def ns_written_def s2tte_create_assigned_ns_def)
  next
    case UNMAP_NS
    show ?thesis
      unfolding h using UNMAP_NS w' n(4) lv ul'
      by (cases "l = lv"; cases "s2tte_is_assigned_ns ?e l")
        (simp_all add: run skip3 tlbi_held ns_changes_def ns_entry_def ns_events_def ns_written_def)
  qed
qed

text \<open>The entry at the level, when there is one, is the one that the walk reaches.\<close>

lemma ns_entry_of_walk:
  assumes inv: "realm_inv s" and g: "is_realm s g" and a: "map_addr < push_bit (unat (ipa_bits (realm_ctx s g))) 1"
    and lv: "s2_starting_level (realm_ctx s g) \<le> lv" "lv \<le> 3" and w: "rtt_walk s (realm_ctx s g) map_addr lv = (t, l)"
  shows "(\<exists>n e. level (realm_ctx s g) n = lv \<and> ent s g n (entry_no map_addr lv) e \<and> Q e) \<longleftrightarrow> l = lv \<and> Q (words (mem s t) ! (entry_no map_addr l mod 512))"
proof -
  let ?c = "realm_ctx s g"
  obtain k where k: "l = level ?c k" "in_tree s g k (entry_no map_addr l div 512) t" "l \<le> lv"
    "l = lv \<or> \<not> entry_is_table (words (mem s t) ! (entry_no map_addr l mod 512))"
    by (rule realm_walk [OF inv g a lv w])
  have e: "ent s g k (entry_no map_addr l) (words (mem s t) ! (entry_no map_addr l mod 512))" using entI [OF k(2), of "entry_no map_addr l mod 512"] by simp
  show ?thesis
  proof (cases "l = lv")
    case True
    have "n = k \<and> e' = words (mem s t) ! (entry_no map_addr l mod 512)" if "level ?c n = lv" "ent s g n (entry_no map_addr lv) e'" for n e'
      using that e k(1) True ent_fun by (auto simp: level_def)
    then show ?thesis using e True k(1) by blast
  next
    case False
    have "\<not> ent s g n (entry_no map_addr lv) e'" if n: "level ?c n = lv" for n e'
    proof
      assume en: "ent s g n (entry_no map_addr lv) e'"
      have "k < n" using k(1,3) n False by (simp add: level_def)
      then obtain m where m: "n = k + Suc m" using less_iff_Suc_add by auto
      have ls: "lvl_lsb l = lvl_lsb lv + 9 * Suc m" using k(1) n m lv(2) by (simp add: lvl_lsb_def level_def)
      have "entry_no map_addr lv div 512 ^ Suc m = entry_no map_addr l"
        unfolding ls by (simp add: power_add power_mult div_mult2_eq)
      then have "entry_is_table (words (mem s t) ! (entry_no map_addr l mod 512))"
        using ent_above [of s g k m "entry_no map_addr lv" e'] en m e by metis
      then show False using k(4) False by blast
    qed
    then show ?thesis using False by blast
  qed
qed

text \<open>Arguments that are refused.\<close>

lemma map_unmap_ns_invalid:
  assumes inv: "realm_inv s" and lv: "1 \<le> lv" "lv \<le> 3"
    and bad: "\<And>g. granule_in s rd_addr GRANULE_STATE_RD = Some g \<Longrightarrow> \<not> (ns_addr_ok (d_rd (mem s g)) map_addr lv \<and>
      (op = MAP_NS \<longrightarrow> host_ns_ok (realm_ctx s g) host_s2tte lv))"
  shows "\<exists>res'. map_unmap_ns rd_addr map_addr lv host_s2tte op res s = Inr (res', s) \<and> res' 0 \<noteq> RMI_SUCCESS"
proof (cases "granule_in s rd_addr GRANULE_STATE_RD")
  case None
  note idle = realm_invD(1) [OF inv]
  show ?thesis
    using find_rd_none [OF idle None] idle_held [OF idle] None by (simp add: map_unmap_ns_def run_simps)
next
  case (Some g)
  note idle = realm_invD(1) [OF inv] note rs = rd_steps [OF idle Some]
  let ?rd = "d_rd (mem s g)" and ?c = "realm_ctx s g"
  have c: "rd_s2_ctx ?rd = ?c" by (simp add: realm_ctx_def)
  have h: "map_unmap_ns rd_addr map_addr lv host_s2tte op res s = map_unmap_ns rd_addr map_addr lv host_s2tte op res (held {} no_slots s)"
    using idle_held [OF idle] by simp
  define ok where "ok \<longleftrightarrow> map_addr < realm_ipa_size ?rd \<and> addr_lvl_aligned (enable_lpa2 ?c) map_addr lv"
  have val: "validate_rtt_map_cmds map_addr lv ?rd s1 = Inr (ok, s1)" for s1 :: rmm
    using lv min_starting_level_bounds(2) [of ?c] by (simp add: validate_rtt_map_cmds_def run_simps ok_def c)
  have hv: "host_ns_s2tte_is_valid ?c host_s2tte lv s1 = Inr (host_ns_ok ?c host_s2tte lv, s1)" for s1 :: rmm
    using host_ns_valid_run [OF lv, of ?c host_s2tte s1] by (simp add: host_ns_ok_def)
  have "\<not> (ok \<and> \<not> addr_in_par ?rd map_addr \<and> (op = MAP_NS \<longrightarrow> host_ns_ok ?c host_s2tte lv))"
    using bad [OF Some] lv by (auto simp: ns_addr_ok_def ok_def c)
  then show ?thesis
    unfolding h by (cases op; cases "host_ns_ok ?c host_s2tte lv"; cases ok)
      (simp_all add: map_unmap_ns_def run_simps rs read_held c val hv Let_def)
qed

section \<open>Correctness\<close>

text \<open>The arguments are valid and the entry at the level can be changed.\<close>

definition ns_possible :: "rmm \<Rightarrow> u64 \<Rightarrow> u64 \<Rightarrow> int \<Rightarrow> u64 \<Rightarrow> map_unmap_ns_op \<Rightarrow> bool" where
  "ns_possible s rd_addr map_addr lv host_s2tte op \<longleftrightarrow>
    (\<exists>g. granule_in s rd_addr GRANULE_STATE_RD = Some g \<and> ns_addr_ok (d_rd (mem s g)) map_addr lv \<and>
         (op = MAP_NS \<longrightarrow> host_ns_ok (realm_ctx s g) host_s2tte lv) \<and>
         (\<exists>n e. level (realm_ctx s g) n = lv \<and> ent s g n (entry_no map_addr lv) e \<and> ns_changes op e lv))"

lemma map_unmap_ns_effect:
  assumes inv: "realm_inv s" and lv: "1 \<le> lv" "lv \<le> 3"
    and sl: "\<forall>g. granule_in s rd_addr GRANULE_STATE_RD = Some g \<longrightarrow> s2_starting_level (realm_ctx s g) \<le> lv"
  shows "\<exists>res' s'. map_unmap_ns rd_addr map_addr lv host_s2tte op res s = Inr (res', s') \<and> realm_inv s' \<and> owners_kept s s' \<and>
    (\<forall>g P d. maps s' g P d \<longleftrightarrow> maps s g P d) \<and>
    (\<forall>g n p e. in_par (realm_ctx s g) n p \<longrightarrow> (ent s' g n p e \<longleftrightarrow> ent s g n p e)) \<and>
    (if ns_possible s rd_addr map_addr lv host_s2tte op
     then res' 0 = RMI_SUCCESS \<and> (\<exists>g n. granule_in s rd_addr GRANULE_STATE_RD = Some g \<and> level (realm_ctx s g) n = lv \<and>
       ent s' g n (entry_no map_addr lv) (ns_entry (realm_ctx s g) op host_s2tte lv) \<and>
       set (ns_events (realm_ctx s g) op map_addr) \<subseteq> set (tlb_log s'))
     else res' 0 \<noteq> RMI_SUCCESS \<and> s' = s)"
proof (cases "\<exists>g. granule_in s rd_addr GRANULE_STATE_RD = Some g \<and> ns_addr_ok (d_rd (mem s g)) map_addr lv \<and>
    (op = MAP_NS \<longrightarrow> host_ns_ok (realm_ctx s g) host_s2tte lv)")
  case False
  have "\<exists>res'. map_unmap_ns rd_addr map_addr lv host_s2tte op res s = Inr (res', s) \<and> res' 0 \<noteq> RMI_SUCCESS"
    by (rule map_unmap_ns_invalid [OF inv lv]) (use False in blast)
  moreover have "\<not> ns_possible s rd_addr map_addr lv host_s2tte op" using False by (auto simp: ns_possible_def)
  ultimately show ?thesis unfolding if_not_P using inv owners_kept_refl by (metis (no_types))
next
  case True
  then obtain g where g: "granule_in s rd_addr GRANULE_STATE_RD = Some g" "ns_addr_ok (d_rd (mem s g)) map_addr lv"
    "op = MAP_NS \<Longrightarrow> host_ns_ok (realm_ctx s g) host_s2tte lv" by blast
  let ?c = "realm_ctx s g" and ?p = "entry_no map_addr lv"
  have slg: "s2_starting_level ?c \<le> lv" using sl g(1) by blast
  have realm: "is_realm s g" using is_realm_in [OF g(1)] .
  have a: "map_addr < push_bit (unat (ipa_bits ?c)) 1" using g(2) realm_ipa_size_ctx [OF realm] by (simp add: ns_addr_ok_def)
  obtain t l where w: "rtt_walk s ?c map_addr lv = (t, l)" by fastforce
  have run: "\<exists>res'. map_unmap_ns rd_addr map_addr lv host_s2tte op res s =
      Inr (res', if l = lv \<and> ns_changes op (words (mem s t) ! (entry_no map_addr l mod 512)) lv
        then ns_written t (entry_no map_addr l mod 512) (ns_entry ?c op host_s2tte lv) (ns_events ?c op map_addr) s else s) \<and>
    (res' 0 = RMI_SUCCESS \<longleftrightarrow> l = lv \<and> ns_changes op (words (mem s t) ! (entry_no map_addr l mod 512)) lv)"
    by (rule map_unmap_ns_run [OF inv g(1,2) _ slg w]) (use g(3) in blast)
  have ent: "(\<exists>n e. level ?c n = lv \<and> ent s g n ?p e \<and> ns_changes op e lv) \<longleftrightarrow> l = lv \<and> ns_changes op (words (mem s t) ! (entry_no map_addr l mod 512)) lv"
    by (rule ns_entry_of_walk [OF inv realm a slg lv(2) w])
  show ?thesis
  proof (cases "l = lv \<and> ns_changes op (words (mem s t) ! (entry_no map_addr l mod 512)) lv")
    case False
    have "\<not> ns_possible s rd_addr map_addr lv host_s2tte op" using False ent g(1) by (auto simp: ns_possible_def)
    moreover obtain res' where "map_unmap_ns rd_addr map_addr lv host_s2tte op res s = Inr (res', s)" "res' 0 \<noteq> RMI_SUCCESS"
      using run False by auto
    ultimately show ?thesis using inv owners_kept_refl by (metis (no_types))
  next
    case ch: True
    then have l: "l = lv" by blast
    obtain n where n: "lv = level ?c n" "in_tree s g n (?p div 512) t" "entry_ok s ?c n ?p (words (mem s t) ! (?p mod 512))"
      by (rule realm_walk [OF inv realm a slg lv(2) w [unfolded l]])
    obtain k where k: "kinds (words (mem s t) ! (?p mod 512)) (level ?c n) = {k}" using n(3) by (auto simp: entry_ok_def)
    have kn: "k \<in> ns_kinds"
      using ch data_kind_cases [OF k] n(1) by (cases op) (auto simp: ns_changes_def ns_kinds_def l)
    have wf: "wf_ctx ?c" using tree_okD(1) [OF realm_invD(2) [OF inv] realm] .
    have par: "\<not> in_par ?c n ?p"
      using in_par_addr(1) [OF wf n(1)] addr_in_par_iff [of "d_rd (mem s g)" map_addr] wf g(2) by (simp add: realm_ctx_def ns_addr_ok_def)
    have k': "\<exists>k'. kinds (ns_entry ?c op host_s2tte lv) (level ?c n) = {k'} \<and> k' \<in> ns_kinds"
      using assigned_ns_kinds [OF lv(1)] created_unassigned_kinds n(1) by (cases op) (auto simp: ns_entry_def ns_kinds_def)
    then obtain k' where k': "kinds (ns_entry ?c op host_s2tte lv) (level ?c n) = {k'}" "k' \<in> ns_kinds" by blast
    note wi = ns_written_inv [OF inv n(2) k kn k' _ par, where es = "ns_events ?c op map_addr"]
    let ?s' = "ns_written t (?p mod 512) (ns_entry ?c op host_s2tte lv) (ns_events ?c op map_addr) s"
    obtain res' where r: "map_unmap_ns rd_addr map_addr lv host_s2tte op res s = Inr (res', ?s')" "res' 0 = RMI_SUCCESS" using run ch l by auto
    have lg: "set (ns_events ?c op map_addr) \<subseteq> set (tlb_log ?s')" by (auto simp: ns_written_def)
    have "ent ?s' g1 n1 p1 e1 \<longleftrightarrow> ent s g1 n1 p1 e1" if "in_par (realm_ctx s g1) n1 p1" for g1 n1 p1 e1
      using wi(3) [of g1 n1 p1 e1] par that lv n(1) by auto
    moreover have "ent ?s' g n ?p (ns_entry ?c op host_s2tte lv)" using wi(3) [of g n ?p] lv n(1) by simp
    moreover have "realm_inv ?s'" "\<forall>g P d. maps ?s' g P d \<longleftrightarrow> maps s g P d" using wi(1,2) lv n(1) by simp_all
    moreover have "owners_kept s ?s'" by (rule ns_written_owners_kept [OF tree_okD(2) [OF realm_invD(2) [OF inv] n(2)]])
    moreover have yes: "ns_possible s rd_addr map_addr lv host_s2tte op" using ent ch g by (auto simp: ns_possible_def)
    ultimately show ?thesis unfolding if_P [OF yes] using r lg g(1) n(1) by metis
  qed
qed



end
