(* ===== verification/Ns_Level.thy ===== *)
theory Ns_Level
  imports Rtt_Create Rtt_Ns
begin

text \<open>
  A realm whose tables start at level 2, and the command to map non-secure memory at level 1 on it. The check of the level in
  \<^verbatim>\<open>validate_rtt_map_cmds\<close> does not take the starting level into account.
\<close>

definition start2_ctx :: s2tt_context where
  "start2_ctx = \<lparr>ipa_bits = 32, s2_starting_level = 2, num_root_rtts = 4, g_rtt = Some 8, vmid = 5, enable_lpa2 = False\<rparr>"

definition start2_desc :: "nat \<Rightarrow> granule" where
  "start2_desc g = \<lparr>descriptor = if g = 2 then 0x800 else if g \<in> {8, 9, 10, 11} then 0x1800 else 0, owner_tag = 0\<rparr>"

definition start2_words :: "nat \<Rightarrow> u64 list" where
  "start2_words g = replicate 512 (if g = 10 \<or> g = 11 then s2tte_create_unassigned_ns else 0)"

definition start2 :: rmm where
  "start2 = demo_rmm\<lparr>granules := start2_desc, mem := (\<lambda>g. zero_data\<lparr>words := start2_words g,
     d_rd := if g = 2 then zero_rd\<lparr>rd_state := REALM_NEW, rd_s2_ctx := start2_ctx\<rparr> else zero_rd\<rparr>)\<rparr>"

lemma start2_fields [simp]:
  "arm_dram start2 = fvp_layout" "granules start2 = start2_desc" "slots start2 = no_slots" "words (mem start2 g) = start2_words g"
  "d_rd (mem start2 2) = zero_rd\<lparr>rd_state := REALM_NEW, rd_s2_ctx := start2_ctx\<rparr>"
  by (simp_all add: start2_def demo_rmm_def)

lemma start2_desc_fields:
  "\<not> LOCKED (start2_desc g)" "REFCOUNT (start2_desc g) = 0"
  "STATE (start2_desc g) = (if g = 2 then 2 else if g \<in> {8, 9, 10, 11} then 6 else 0)"
  by (simp_all add: start2_desc_def LOCKED_def REFCOUNT_def STATE_def GRN_LOCK_BIT_def
      REFCOUNT_MASK_def STATE_MASK_def MASK_def mask_eq_decr_exp)

lemma start2_addr:
  "granule_at fvp_layout 0x80008000 = Some 8" "granule_at fvp_layout 0x80009000 = Some 9"
  "granule_at fvp_layout 0x8000A000 = Some 10" "granule_at fvp_layout 0x8000B000 = Some 11"
  by (simp_all add: granule_at_def plat_granule_addr_to_idx_def addr_search.simps fvp_layout_def
      GRANULE_ALIGNED_def GRANULE_SIZE_def mid_def PLAT_ARM_MAX_DRAM_BANKS_def RMM_MAX_GRANULES_def)

lemma start2_idle: "idle start2"
proof (rule idleI)
  fix g
  show "\<not> LOCKED (granules start2 g) \<and> granule_inv (granules start2 g) \<and> length (words (mem start2 g)) = 512 \<and>
    (STATE (granules start2 g) = GRANULE_STATE_DELEGATED \<longrightarrow> mem start2 g = zero_data)"
    using inv_zero_refcount [of "start2_desc g"] by (auto simp: start2_desc_fields granule_states start2_words_def)
qed (simp_all add: wf_fvp_layout)

lemma start2_realm: "is_realm start2 g \<longleftrightarrow> g = 2" "realm_ctx start2 2 = start2_ctx" "depth start2_ctx = 1" "level start2_ctx n = 2 + int n"
  "wf_ctx start2_ctx" "enable_lpa2 start2_ctx = False"
proof -
  show "is_realm start2 g \<longleftrightarrow> g = 2" using demo_granule_addr by (auto simp: is_realm_def start2_desc_fields granule_states split: if_splits)
qed (simp_all add: realm_ctx_def start2_ctx_def depth_def level_def wf_ctx_def min_starting_level_def oa_bits_def lvl_lsb_def)

lemma start2_entry: "i < 512 \<Longrightarrow> start2_words g ! i = (if g = 10 \<or> g = 11 then s2tte_create_unassigned_ns else 0)"
  by (simp add: start2_words_def)

lemma start2_in_tree: "in_tree start2 g n b t \<longleftrightarrow> g = 2 \<and> n = 0 \<and> b < 4 \<and> t = 8 + b"
proof -
  have "table_at start2 start2_ctx (Suc 0) b = None" for b
    using demo_kinds(6,7) by (auto simp: start2_ctx_def next_table_def Let_def start2_entry split: option.splits)
  moreover have "n \<le> 1 \<longleftrightarrow> n = 0 \<or> n = Suc 0" by auto
  ultimately show ?thesis by (auto simp: in_tree_def start2_realm) (auto simp: start2_ctx_def split: if_splits)
qed

lemma start2_ent: "ent start2 g n p e \<longleftrightarrow> g = 2 \<and> n = 0 \<and> p < 2048 \<and> e = (if p < 1024 then 0 else s2tte_create_unassigned_ns)"
proof -
  have "p div 512 < 4 \<longleftrightarrow> p < 2048" by auto
  moreover have "8 + p div 512 = 10 \<or> 8 + p div 512 = 11 \<longleftrightarrow> \<not> p < 1024" if "p < 2048" using that by auto
  ultimately show ?thesis by (auto simp: ent_def start2_in_tree start2_entry)
qed

lemma start2_kinds: "kinds (if p < 1024 then 0 else s2tte_create_unassigned_ns) l = {if p < 1024 then Unassigned_Empty else Unassigned_Ns}"
  using demo_kinds(3) created_unassigned_kinds by simp

lemma start2_inv: "realm_inv start2"
  unfolding realm_inv_def
proof (intro conjI allI impI)
  have ib: "ipa_bits start2_ctx = 32" by (simp add: start2_ctx_def)
  have nm: "\<not> maps start2 g P d" for g P d
    by (auto simp: maps_def start2_ent maps_by_def start2_kinds data_kinds_def split: if_splits)
  show "STATE (granules start2 d) = GRANULE_STATE_DATA" if "maps start2 g P d" for g P d using nm that by blast
  show "g = g'" "P = P'" if "maps start2 g P d" for g g' P P' d using nm that by blast+
  show "tree_ok start2"
    unfolding tree_ok_def start2_in_tree
  proof (intro conjI allI impI; (elim conjE)?)
    show "wf_ctx (realm_ctx start2 g)" if "is_realm start2 g" for g using that start2_realm by auto
    show "is_rtt start2 t" if "b < 4" "t = 8 + b" for b t
    proof -
      have "b = 0 \<or> b = 1 \<or> b = 2 \<or> b = 3" using that(1) by auto
      then show ?thesis using that(2) start2_addr by (auto simp: is_rtt_def start2_desc_fields granule_states)
    qed
    show "next_table start2 (realm_ctx start2 g) t i \<noteq> None" if "entry_is_table (words (mem start2 t) ! i)" "i < 512" for g t i
      using that demo_kinds(6,7) by (simp add: start2_entry split: if_splits)
  qed simp_all
  show "entry_ok start2 (realm_ctx start2 g) n p e" if "ent start2 g n p e" for g n p e
    using that start2_kinds [of p]
    by (auto simp: start2_ent entry_ok_def start2_realm data_kinds_def ns_kinds_def in_par_def in_ipa_def lvl_lsb_def ib)
  show "unat (REFCOUNT (granules start2 t)) = refs start2 (level (realm_ctx start2 g) n) t" if "in_tree start2 g n b t" for g n b t
  proof -
    have "\<not> counted (words (mem start2 t) ! i) l" if "i < 512" for i l
      using that kinds_counted [OF demo_kinds(3)] kinds_counted [OF created_unassigned_kinds(3)] by (auto simp: start2_entry data_kinds_def)
    then show ?thesis using refs_0 [of start2 _ t] by (simp add: start2_desc_fields)
  qed
qed (use start2_idle fvp_layout_52 in auto)


section \<open>The fault\<close>

text \<open>
  C37. A level above the starting level of the realm. When the host asks to map non-secure memory at a block level that lies above
  the starting level of the tables of a realm, with otherwise valid arguments, the command fails an assertion of the
  table walk: the check of the arguments compares the level with the smallest block level only.
\<close>

theorem map_unprotected_above_start_faults:
  assumes "realm_inv s" and "granule_in s rd_addr GRANULE_STATE_RD = Some g" and "ns_addr_ok (d_rd (mem s g)) map_addr (sint ulevel)"
    and "host_ns_ok (realm_ctx s g) host_s2tte (sint ulevel)" and "sint ulevel < s2_starting_level (realm_ctx s g)"
  shows "smc_rtt_map_unprotected rd_addr map_addr ulevel host_s2tte s = Inl Assert_Fail"
proof -
  let ?rd = "d_rd (mem s g)" and ?c = "realm_ctx s g" and ?lv = "sint ulevel"
  note inv = assms(1) and g = assms(2) and ok = assms(3)
  note idle = realm_invD(1) [OF inv] note id = idleD [OF idle] and rs = rd_steps [OF idle g]
  have c: "rd_s2_ctx ?rd = ?c" by (simp add: realm_ctx_def)
  have realm: "is_realm s g" using is_realm_in [OF g] .
  have lv: "1 \<le> ?lv" "?lv \<le> 3" and a: "map_addr < push_bit (unat (ipa_bits ?c)) 1"
    using ok realm_ipa_size_ctx [OF realm] by (auto simp: ns_addr_ok_def)
  have val: "validate_rtt_map_cmds map_addr ?lv ?rd s1 = Inr (True, s1)" "\<not> addr_in_par ?rd map_addr" for s1 :: rmm
    using ok lv min_starting_level_bounds(2) [of ?c] by (simp_all add: validate_rtt_map_cmds_def run_simps ns_addr_ok_def c)
  have hv: "host_ns_s2tte_is_valid ?c host_s2tte ?lv s1 = Inr (True, s1)" for s1 :: rmm
    using assms(4) host_ns_valid_run [OF lv, of ?c host_s2tte s1] by (simp add: host_ns_ok_def)
  have "s2_starting_level ?c \<le> 3" using tree_okD(1) [OF realm_invD(2) [OF inv] realm] by (simp add: wf_ctx_def)
  then obtain t l where "rtt_walk s ?c map_addr 3 = (t, l)" "s2_starting_level ?c \<le> 3" by fastforce
  note ws = walk_steps [OF inv realm a this(2) order_refl this(1)]
  have "s2tt_walk_lock_unlock ?c map_addr ?lv s1 = Inl Assert_Fail" for s1
    using assms(5) by (simp add: s2tt_walk_lock_unlock_def run_simps Let_def)
  then have "map_unmap_ns rd_addr map_addr ?lv host_s2tte MAP_NS (\<lambda>_. 0) (held {} no_slots s) = Inl Assert_Fail"
    using val by (simp add: map_unmap_ns_def run_simps rs read_held c hv ws(1,2) Let_def)
  then show ?thesis using lv idle_held [OF idle] by (simp add: smc_rtt_map_unprotected_def run_simps Let_def)
qed

theorem map_unprotected_above_start_faults_witness:
  "realm_inv start2 \<and> smc_rtt_map_unprotected 0x80002000 0x80000000 1 0 start2 = Inl Assert_Fail"
proof -
  have "granule_in start2 0x80002000 GRANULE_STATE_RD = Some 2"
    by (simp add: granule_in_def demo_granule_addr start2_desc_fields granule_states)
  moreover have "ns_addr_ok (d_rd (mem start2 2)) 0x80000000 1"
    by (simp add: ns_addr_ok_def realm_ipa_size_def realm_ipa_bits_def addr_in_par_def realm_par_size_def start2_ctx_def addr_lvl_aligned_def
        BIT_MASK_ULL_def mask_eq_decr_exp lvl_lsb_def)
  moreover have "host_ns_ok (realm_ctx start2 2) 0 1" "sint (1 :: u64) = 1" by (simp_all add: host_ns_ok_def)
  ultimately show ?thesis
    using map_unprotected_above_start_faults [OF start2_inv, of "0x80002000" 2 "0x80000000" 1 0] start2_inv
    by (simp add: start2_realm) (simp add: start2_ctx_def)
qed

end
