(* ===== verification/Ripas.thy ===== *)
theory Ripas
  imports Frame Data_Destroy
begin

text \<open>
  The commands that change the RIPAS of addresses: which entries change, and that the memory of the realms does not.
\<close>

section \<open>One entry\<close>

text \<open>The kind of an entry after its RIPAS is set to RAM or to EMPTY.\<close>

fun ram_kind :: "s2tte_kind \<Rightarrow> s2tte_kind" where
  "ram_kind Unassigned_Empty = Unassigned_Ram"
| "ram_kind Unassigned_Destroyed = Unassigned_Ram"
| "ram_kind Assigned_Empty = Assigned_Ram"
| "ram_kind Assigned_Destroyed = Assigned_Ram"
| "ram_kind k = k"

fun empty_kind :: "s2tte_kind \<Rightarrow> s2tte_kind" where
  "empty_kind Unassigned_Ram = Unassigned_Empty"
| "empty_kind Unassigned_Destroyed = Unassigned_Empty"
| "empty_kind Assigned_Ram = Assigned_Empty"
| "empty_kind Assigned_Destroyed = Assigned_Empty"
| "empty_kind k = k"

text \<open>A protected entry is replaced by one with another RIPAS and the same address.\<close>

lemma ripas_replaced:
  assumes inv: "realm_inv s" and it: "in_tree s g n (p div 512) t"
    and k: "kinds (words (mem s t) ! (p mod 512)) (level (realm_ctx s g) n) = {k}" "k \<notin> insert Table ns_kinds"
    and k': "kinds e' (level (realm_ctx s g) n) = {k'}" "k' \<notin> insert Table ns_kinds" "k \<in> data_kinds \<longleftrightarrow> k' \<in> data_kinds"
    and pa: "k \<in> data_kinds \<Longrightarrow> out_addr (realm_ctx s g) n e' = out_addr (realm_ctx s g) n (words (mem s t) ! (p mod 512))"
  shows "memory_kept s (page_set t (p mod 512) e' s)"
    "ent (page_set t (p mod 512) e' s) h m q x \<longleftrightarrow> (if (h, m, q) = (g, n, p) then x = e' else ent s h m q x)"
proof -
  let ?c = "realm_ctx s g" and ?e = "words (mem s t) ! (p mod 512)"
  have nt: "k \<noteq> Table" "k' \<noteq> Table" using k(2) k'(2) by auto
  have "entry_ok s ?c n p ?e" using realm_invD(3) [OF inv] entI [OF it, of "p mod 512"] by simp
  then obtain k1 where "kinds ?e (level ?c n) = {k1}"
    and e: "k1 \<in> data_kinds \<longrightarrow> addr_lvl_aligned (enable_lpa2 ?c) (out_addr ?c n ?e) (level ?c n) \<and> (\<forall>j < pages ?c n. page_granule s ?c n ?e j \<noteq> None)"
      "k1 \<in> insert Assigned_Ns data_kinds \<longrightarrow> 1 \<le> level ?c n" "k1 \<noteq> Table \<and> in_ipa ?c n p \<longrightarrow> (k1 \<in> ns_kinds \<longleftrightarrow> \<not> in_par ?c n p)"
    unfolding entry_ok_def by blast
  then have "k1 = k" using k(1) by simp
  note e = e [unfolded this]
  have pg: "page_granule s ?c n e' j = page_granule s ?c n ?e j" if "k \<in> data_kinds" for j using pa [OF that] by (simp add: page_granule_def)
  have ok: "entry_ok s ?c n p e'"
    unfolding entry_ok_def
    by (rule exI [of _ k'], intro conjI)
      (use k'(1) k'(3) pg pa e k(2) k'(2) in \<open>auto simp: ns_kinds_def\<close>)
  have mb: "maps_by s ?c n p e' P d \<longleftrightarrow> maps_by s ?c n p ?e P d" for P d
    unfolding maps_by_def k(1) k'(1) using k'(3) pg by auto
  note er = entry_replaced [OF inv it k(1) nt(1) k'(1) nt(2) k'(3) ok mb]
  show "memory_kept s (page_set t (p mod 512) e' s)" by (rule er(1))
  show "ent (page_set t (p mod 512) e' s) h m q x \<longleftrightarrow> (if (h, m, q) = (g, n, p) then x = e' else ent s h m q x)" by (rule er(2))
qed

text \<open>The result code of the change of an entry of a kind, and its new kind.\<close>

definition ripas_code :: "ripas \<Rightarrow> ripas_change_destroyed \<Rightarrow> u64 \<Rightarrow> int \<Rightarrow> s2tte_kind \<Rightarrow> int" where
  "ripas_code r cd e l k =
    (if \<not> s2tte_has_ripas e l then - EPERM
     else if r \<in> {RIPAS_RAM, RIPAS_EMPTY} \<and> cd = NO_CHANGE_DESTROYED \<and> k \<in> {Unassigned_Destroyed, Assigned_Destroyed} then - EINVAL_errno
     else if r = RIPAS_EMPTY \<and> k \<in> {Assigned_Ram, Assigned_Destroyed} then 1 else 0)"

definition ripas_kind :: "ripas \<Rightarrow> s2tte_kind \<Rightarrow> s2tte_kind" where
  "ripas_kind r k = (case r of RIPAS_RAM \<Rightarrow> ram_kind k | RIPAS_EMPTY \<Rightarrow> empty_kind k | _ \<Rightarrow> k)"

lemma has_ripas_kind:
  assumes "kinds e l = {k}" "s2tte_has_ripas e l"
  shows "k \<notin> insert Table ns_kinds"
proof -
  have "has_kind e l k" using assms by (auto simp: kinds_def)
  then show ?thesis
    using assms(2) by (cases k) (auto simp: has_kind_def s2tte_has_ripas_def s2tte_class_bits ns_kinds_def split: if_splits)
qed

lemma ripas_kind_class:
  "k \<notin> insert Table ns_kinds \<Longrightarrow> ripas_kind r k \<notin> insert Table ns_kinds" "ripas_kind r k \<in> data_kinds \<longleftrightarrow> k \<in> data_kinds"
  by (cases k; cases r; auto simp: ripas_kind_def ns_kinds_def data_kinds_def)+

lemma new_ripas_entry_run:
  fixes s :: rmm
  assumes k: "kinds e l = {k}" and lv: "min_starting_level c \<le> l" "l \<le> 3"
    and d: "k \<in> data_kinds \<Longrightarrow> 1 \<le> l \<and> addr_lvl_aligned (enable_lpa2 c) (to_pa_value e l (enable_lpa2 c)) l"
  shows "\<exists>x. new_ripas_entry c e l r cd s = Inr ((ripas_code r cd e l k, x), s) \<and> (ripas_code r cd e l k < 0 \<longrightarrow> x = None) \<and>
    (0 \<le> ripas_code r cd e l k \<longrightarrow> (let e' = (case x of None \<Rightarrow> e | Some e' \<Rightarrow> e')
      in kinds e' l = {ripas_kind r k} \<and> (k \<in> data_kinds \<longrightarrow> to_pa_value e' l (enable_lpa2 c) = to_pa_value e l (enable_lpa2 c))))"
proof -
  have pa: "k \<in> data_kinds \<Longrightarrow> s2tte_pa c e l s = Inr (to_pa_value e l (enable_lpa2 c), s)"
    by (rule s2tte_pa_run [OF lv k]) (auto simp: data_kinds_def)
  let ?pa = "to_pa_value e l (enable_lpa2 c)"
  have ca: "s2tte_create_assigned_ram c ?pa l s = Inr (assigned_value (enable_lpa2 c) ?pa l S2TTE_INVALID_RIPAS_RAM, s)"
    "s2tte_create_assigned_empty c ?pa l s = Inr (assigned_value (enable_lpa2 c) ?pa l S2TTE_INVALID_RIPAS_EMPTY, s)"
    "kinds (assigned_value (enable_lpa2 c) ?pa l S2TTE_INVALID_RIPAS_RAM) l = {Assigned_Ram}"
    "kinds (assigned_value (enable_lpa2 c) ?pa l S2TTE_INVALID_RIPAS_EMPTY) l = {Assigned_Empty}"
    "to_pa_value (assigned_value (enable_lpa2 c) ?pa l S2TTE_INVALID_RIPAS_RAM) l (enable_lpa2 c) = ?pa"
    "to_pa_value (assigned_value (enable_lpa2 c) ?pa l S2TTE_INVALID_RIPAS_EMPTY) l (enable_lpa2 c) = ?pa" if "k \<in> data_kinds"
    using d [OF that] lv create_assigned_runs [of l c ?pa s] assigned_ram_ok [of l "enable_lpa2 c" ?pa S2TTE_INVALID_RIPAS_RAM]
      assigned_invalid_ok [of "enable_lpa2 c" ?pa l S2TTE_INVALID_RIPAS_EMPTY] by (simp_all add: bit_s2tte_invalid)
  note defs = new_ripas_entry_def ripas_to_ram_def ripas_to_empty_def data_kind_cases [OF k] run_simps
    ripas_code_def ripas_kind_def EPERM_def EINVAL_errno_def created_unassigned_kinds k
  show ?thesis
  proof (cases "s2tte_has_ripas e l")
    case True
    then show ?thesis using has_ripas_kind [OF k True] pa ca
      by (cases k; cases r; cases cd) (simp_all add: defs ns_kinds_def data_kinds_def)
  qed (simp add: defs)
qed

section \<open>A range of entries\<close>

text \<open>The RIPAS of \<open>k\<close> entries from position \<open>p\<close> at a depth is set, and nothing else in the tables changes.\<close>

definition ripas_set :: "ripas \<Rightarrow> rmm \<Rightarrow> rmm \<Rightarrow> nat \<Rightarrow> nat \<Rightarrow> nat \<Rightarrow> nat \<Rightarrow> bool" where
  "ripas_set r s s' g n p k \<longleftrightarrow> memory_kept s s' \<and>
    (\<forall>h m q e. \<not> (h = g \<and> m = n \<and> p \<le> q \<and> q < p + k) \<longrightarrow> ent s' h m q e = ent s h m q e) \<and>
    (\<forall>q. p \<le> q \<and> q < p + k \<longrightarrow> (\<exists>e e' K. ent s g n q e \<and> ent s' g n q e' \<and> s2tte_has_ripas e (level (realm_ctx s g) n) \<and>
       kinds e (level (realm_ctx s g) n) = {K} \<and> kinds e' (level (realm_ctx s g) n) = {ripas_kind r K}))"

lemma ripas_setD:
  assumes "ripas_set r s s' g n p k"
  shows "memory_kept s s'" "\<not> (h = g \<and> m = n \<and> p \<le> q \<and> q < p + k) \<Longrightarrow> ent s' h m q e = ent s h m q e"
    "p \<le> q \<Longrightarrow> q < p + k \<Longrightarrow> \<exists>e e' K. ent s g n q e \<and> ent s' g n q e' \<and> s2tte_has_ripas e (level (realm_ctx s g) n) \<and>
       kinds e (level (realm_ctx s g) n) = {K} \<and> kinds e' (level (realm_ctx s g) n) = {ripas_kind r K}"
  using assms unfolding ripas_set_def by blast+

lemma ripas_set_0: "realm_inv s \<Longrightarrow> ripas_set r s s g n p 0"
  unfolding ripas_set_def using memory_kept_refl by auto

lemma ripas_set_Suc:
  assumes 1: "ripas_set r s s1 g n p 1" and 2: "ripas_set r s1 s2 g n (Suc p) k" and g: "is_realm s g"
  shows "ripas_set r s s2 g n p (Suc k)"
proof -
  have c: "realm_ctx s1 g = realm_ctx s g" using memory_keptD(5) [OF ripas_setD(1) [OF 1] g] .
  show ?thesis unfolding ripas_set_def
  proof (intro conjI allI impI)
    show "memory_kept s s2" by (rule memory_kept_trans [OF ripas_setD(1) [OF 1] ripas_setD(1) [OF 2]])
  next
    fix h m q e assume "\<not> (h = g \<and> m = n \<and> p \<le> q \<and> q < p + Suc k)"
    then show "ent s2 h m q e = ent s h m q e" using ripas_setD(2) [OF 1, of h m q e] ripas_setD(2) [OF 2, of h m q e] by auto
  next
    fix q assume q: "p \<le> q \<and> q < p + Suc k"
    show "\<exists>e e' K. ent s g n q e \<and> ent s2 g n q e' \<and> s2tte_has_ripas e (level (realm_ctx s g) n) \<and>
      kinds e (level (realm_ctx s g) n) = {K} \<and> kinds e' (level (realm_ctx s g) n) = {ripas_kind r K}"
    proof (cases "q = p")
      case True
      then show ?thesis using ripas_setD(3) [OF 1, of q] ripas_setD(2) [OF 2, of g n q] by auto
    next
      case False
      then show ?thesis using ripas_setD(3) [OF 2, of q] ripas_setD(2) [OF 1, of g n q] q c by auto
    qed
  qed
qed

lemma ents_same:
  assumes "memory_kept s s'" "\<And>t. is_rtt s t \<Longrightarrow> words (mem s' t) = words (mem s t)" "realm_inv s"
  shows "ent s' g n p e = ent s g n p e"
proof -
  have "words (mem s' t) = words (mem s t)" if "in_tree s g n b t" for b t
    using assms(2) tree_okD(2) [OF realm_invD(2) [OF assms(3)] that] .
  then show ?thesis using memory_keptD(4) [OF assms(1)] unfolding ent_def by metis
qed

lemma ripas_set_then:
  assumes 1: "ripas_set r s s1 g n p k" and 2: "memory_kept s1 s2" "\<And>t. is_rtt s1 t \<Longrightarrow> words (mem s2 t) = words (mem s1 t)"
  shows "ripas_set r s s2 g n p k"
proof -
  have "ent s2 h m q e = ent s1 h m q e" for h m q e by (rule ents_same [OF 2 memory_keptD(1) [OF ripas_setD(1) [OF 1]]])
  then show ?thesis using 1 memory_kept_trans [OF ripas_setD(1) [OF 1] 2(1)] unfolding ripas_set_def by simp
qed

text \<open>One entry.\<close>

lemma ripas_set_entry:
  assumes inv: "realm_inv s" and it: "in_tree s g n b t" and i: "i < 512"
    and k: "kinds (words (mem s t) ! i) (level (realm_ctx s g) n) = {K}" "s2tte_has_ripas (words (mem s t) ! i) (level (realm_ctx s g) n)"
    and k': "kinds e' (level (realm_ctx s g) n) = {ripas_kind r K}"
    and pa: "K \<in> data_kinds \<Longrightarrow> out_addr (realm_ctx s g) n e' = out_addr (realm_ctx s g) n (words (mem s t) ! i)"
  shows "ripas_set r s (page_set t i e' s) g n (b * 512 + i) 1"
proof -
  let ?p = "b * 512 + i"
  have p: "?p div 512 = b" "?p mod 512 = i" using i by auto
  note c = has_ripas_kind [OF k]
  have 1: "in_tree s g n (?p div 512) t" "kinds (words (mem s t) ! (?p mod 512)) (level (realm_ctx s g) n) = {K}" using p it k by simp_all
  have pa': "K \<in> data_kinds \<Longrightarrow> out_addr (realm_ctx s g) n e' = out_addr (realm_ctx s g) n (words (mem s t) ! (?p mod 512))" using pa p by simp
  note er = ripas_replaced [OF inv 1 c k' ripas_kind_class(1) [OF c] ripas_kind_class(2) [symmetric] pa', unfolded p]
  have e: "ent (page_set t i e' s) h m q x \<longleftrightarrow> (if (h, m, q) = (g, n, ?p) then x = e' else ent s h m q x)" for h m q x by (rule er(2))
  show ?thesis unfolding ripas_set_def
  proof (intro conjI allI impI)
    show "memory_kept s (page_set t i e' s)" by (rule er(1))
  next
    fix h m q x assume "\<not> (h = g \<and> m = n \<and> ?p \<le> q \<and> q < ?p + 1)"
    then show "ent (page_set t i e' s) h m q x = ent s h m q x" using e by auto
  next
    fix q assume "?p \<le> q \<and> q < ?p + 1"
    then have "q = ?p" by simp
    then show "\<exists>x x' K. ent s g n q x \<and> ent (page_set t i e' s) g n q x' \<and> s2tte_has_ripas x (level (realm_ctx s g) n) \<and>
      kinds x (level (realm_ctx s g) n) = {K} \<and> kinds x' (level (realm_ctx s g) n) = {ripas_kind r K}"
      using entI [OF it i] e k k' by auto
  qed
qed

section \<open>The loop of RMI\_RTT\_SET\_RIPAS\<close>

lemma update_ripas_held:
  assumes inv: "realm_inv s" and it: "in_tree s g n b t" and i: "i < 512"
  defines "c \<equiv> realm_ctx s g" and "e \<equiv> words (mem s t) ! i"
  shows "\<exists>K s'. kinds e (level c n) = {K} \<and> update_ripas c t (of_nat i) (level c n) r cd (held L M s) =
      Inr (ripas_code r cd e (level c n) K, held L M s') \<and> tlb_log s' = tlb_log s \<and>
    (if ripas_code r cd e (level c n) K < 0 then s' = s else ripas_set r s s' g n (b * 512 + i) 1)"
proof -
  have g: "is_realm s g" using in_treeD(1) [OF it] .
  have wf: "wf_ctx c" using tree_okD(1) [OF realm_invD(2) [OF inv] g] by (simp add: c_def)
  have lv: "min_starting_level c \<le> level c n" "level c n \<le> 3"
    using wf in_treeD(2) [OF it] by (auto simp: wf_ctx_def level_def depth_def c_def)
  have "entry_ok s c n (b * 512 + i) e" using realm_invD(3) [OF inv] entI [OF it i] by (simp add: c_def e_def)
  then obtain K where K: "kinds e (level c n) = {K}"
    "K \<in> data_kinds \<Longrightarrow> 1 \<le> level c n \<and> addr_lvl_aligned (enable_lpa2 c) (to_pa_value e (level c n) (enable_lpa2 c)) (level c n)"
    unfolding entry_ok_def out_addr_def by blast
  let ?code = "ripas_code r cd e (level c n) K"
  obtain x where x: "new_ripas_entry c e (level c n) r cd (held L M s) = Inr ((?code, x), held L M s)" "?code < 0 \<longrightarrow> x = None"
    and x': "0 \<le> ?code \<longrightarrow> (let e' = (case x of None \<Rightarrow> e | Some e' \<Rightarrow> e') in kinds e' (level c n) = {ripas_kind r K} \<and>
      (K \<in> data_kinds \<longrightarrow> to_pa_value e' (level c n) (enable_lpa2 c) = to_pa_value e (level c n) (enable_lpa2 c)))"
    using new_ripas_entry_run [OF K(1) lv K(2), of r cd "held L M s"] by blast
  have u: "unat (of_nat i :: u64) = i" using i by (simp add: unat_of_nat)
  have len: "length (words (mem s t)) = 512" using idleD(6) [OF realm_invD(1) [OF inv]] .
  define s' where "s' = (case x of None \<Rightarrow> s | Some e' \<Rightarrow> page_set t i e' s)"
  have run: "update_ripas c t (of_nat i) (level c n) r cd (held L M s) = Inr (?code, held L M s')"
    using x(1) u by (simp add: update_ripas_def run_simps held_simps e_def s'_def page_set_def split: option.split)
  have same: "page_set t i (words (mem s t) ! i) s = s"
  proof -
    have "(mem s)(t := (mem s t)\<lparr>words := words (mem s t)\<rparr>) = mem s" by simp
    then show ?thesis by (simp add: page_set_def upd_mem_def)
  qed
  have "ripas_set r s s' g n (b * 512 + i) 1" if ok: "0 \<le> ?code"
  proof -
    have hr: "s2tte_has_ripas e (level c n)" using ok by (auto simp: ripas_code_def EPERM_def split: if_splits)
    define e' where "e' = (case x of None \<Rightarrow> e | Some e' \<Rightarrow> e')"
    have e': "kinds e' (level c n) = {ripas_kind r K}" "K \<in> data_kinds \<Longrightarrow> out_addr c n e' = out_addr c n e"
      using x' ok by (auto simp: Let_def e'_def out_addr_def)
    have "s' = page_set t i e' s" using same by (auto simp: s'_def e'_def e_def split: option.split)
    then show ?thesis
      using ripas_set_entry [OF inv it i, folded c_def e_def, OF K(1) hr e'] by simp
  qed
  moreover have "s' = s" if "?code < 0" using x(2) that by (simp add: s'_def)
  moreover have "tlb_log s' = tlb_log s" by (simp add: s'_def page_set_def upd_mem_def split: option.split)
  ultimately show ?thesis using K(1) run by (metis not_less)
qed

text \<open>The addresses whose translation goes away are invalidated.\<close>

definition ripas_flushed :: "ripas \<Rightarrow> rmm \<Rightarrow> rmm \<Rightarrow> nat \<Rightarrow> nat \<Rightarrow> nat \<Rightarrow> nat \<Rightarrow> u64 \<Rightarrow> u64 \<Rightarrow> bool" where
  "ripas_flushed r s s' g n p k a map_size \<longleftrightarrow> set (tlb_log s) \<subseteq> set (tlb_log s') \<and>
    (\<forall>j e. j < k \<and> r = RIPAS_EMPTY \<and> ent s g n (p + j) e \<and> s2tte_is_assigned_ram e (level (realm_ctx s g) n) \<longrightarrow>
      set (tlbi_events (realm_ctx s g) (a + of_nat j * map_size) 1) \<subseteq> set (tlb_log s'))"

text \<open>An entry whose RIPAS is destroyed is changed only when the request says so.\<close>

definition ripas_permitted :: "ripas \<Rightarrow> ripas_change_destroyed \<Rightarrow> rmm \<Rightarrow> nat \<Rightarrow> nat \<Rightarrow> nat \<Rightarrow> nat \<Rightarrow> bool" where
  "ripas_permitted r cd s g n p k \<longleftrightarrow>
    (\<forall>j e. j < k \<and> ent s g n (p + j) e \<and> r \<in> {RIPAS_RAM, RIPAS_EMPTY} \<and> cd = NO_CHANGE_DESTROYED \<longrightarrow>
      kinds e (level (realm_ctx s g) n) \<inter> {Unassigned_Destroyed, Assigned_Destroyed} = {})"

lemma set_ripas_loop_held:
  assumes "realm_inv s" "in_tree s g n b t" "N \<le> 512" "i \<le> N"
  defines "c \<equiv> realm_ctx s g"
  shows "\<exists>k s'. set_ripas_loop c t (level c n) ms rtop r cd [i..<N] a (held L M s) = Inr (a + of_nat k * ms, held L M s') \<and>
    i + k \<le> N \<and> ripas_set r s s' g n (b * 512 + i) k \<and> (\<forall>j < k. a + of_nat (Suc j) * ms \<le> rtop) \<and>
    ripas_flushed r s s' g n (b * 512 + i) k a ms \<and> ripas_permitted r cd s g n (b * 512 + i) k \<and> (k = 0 \<longrightarrow> s' = s)"
  using assms(1,2,4) unfolding c_def
proof (induction "N - i" arbitrary: s i a)
  case 0
  then show ?case using ripas_set_0 [OF 0(2)] by (intro exI [of _ 0] exI [of _ s]) (simp add: run_simps ripas_flushed_def ripas_permitted_def)
next
  case (Suc d)
  let ?c = "realm_ctx s g" let ?l = "level ?c n" and ?e = "words (mem s t) ! i"
  have i: "i < 512" "[i..<N] = i # [Suc i..<N]" "Suc i \<le> N" "d = N - Suc i"
    using Suc.hyps(2) assms(3) by (auto simp: upt_rec [of i N])
  have g: "is_realm s g" using in_treeD(1) [OF Suc.prems(2)] .
  obtain K s0 where u: "kinds ?e ?l = {K}" "update_ripas ?c t (of_nat i) ?l r cd (held L M s) = Inr (ripas_code r cd ?e ?l K, held L M s0)"
    "tlb_log s0 = tlb_log s" "if ripas_code r cd ?e ?l K < 0 then s0 = s else ripas_set r s s0 g n (b * 512 + i) 1"
    using update_ripas_held [OF Suc.prems(1,2) i(1)] by blast
  let ?code = "ripas_code r cd ?e ?l K"
  show ?case
  proof (cases "a + ms \<le> rtop \<and> 0 \<le> ?code")
    case False
    then have "set_ripas_loop ?c t ?l ms rtop r cd [i..<N] a (held L M s) = Inr (a, held L M s)"
      using u(2,4) by (auto simp: i(2) run_simps not_le)
    then show ?thesis using ripas_set_0 [OF Suc.prems(1)] Suc.prems(3)
      by (intro exI [of _ 0] exI [of _ s]) (simp add: ripas_flushed_def ripas_permitted_def)
  next
    case True
    define s1 where "s1 = (if ?code = 0 then s0 else log_tlbi (tlbi_events ?c a 1) s0)"
    have rs0: "ripas_set r s s0 g n (b * 512 + i) 1" using u(4) True by (simp split: if_splits)
    have mk: "memory_kept s0 s1" using memory_kept_log memory_kept_refl memory_keptD(1) [OF ripas_setD(1) [OF rs0]] by (simp add: s1_def)
    have rs: "ripas_set r s s1 g n (b * 512 + i) 1" by (rule ripas_set_then [OF rs0 mk]) (simp add: s1_def)
    note k1 = memory_keptD [OF ripas_setD(1) [OF rs]]
    have c1: "realm_ctx s1 g = ?c" using k1(5) [OF g] .
    have it1: "in_tree s1 g n b t" using k1(4) Suc.prems(2) by simp
    obtain k s' where ih: "set_ripas_loop ?c t ?l ms rtop r cd [Suc i..<N] (a + ms) (held L M s1) = Inr (a + ms + of_nat k * ms, held L M s')"
      "Suc i + k \<le> N" "ripas_set r s1 s' g n (b * 512 + Suc i) k" "\<forall>j < k. a + ms + of_nat (Suc j) * ms \<le> rtop"
      "ripas_flushed r s1 s' g n (b * 512 + Suc i) k (a + ms) ms" "ripas_permitted r cd s1 g n (b * 512 + Suc i) k"
      using Suc.hyps(1) [OF i(4) k1(1) it1 i(3), of "a + ms"] unfolding c1 by blast
    have "set_ripas_loop ?c t ?l ms rtop r cd [i..<N] a (held L M s) = Inr (a + of_nat (Suc k) * ms, held L M s')"
      using True ih(1) u(2) by (auto simp: i(2) run_simps held_simps s1_def not_less [symmetric] not_le algebra_simps split: if_splits)
    moreover have "ripas_set r s s' g n (b * 512 + i) (Suc k)" using ripas_set_Suc [OF rs _ g] ih(3) by simp
    moreover have "a + of_nat (Suc j) * ms \<le> rtop" if "j < Suc k" for j
      using that True ih(4) by (cases j) (auto simp: algebra_simps)
    moreover have "ripas_flushed r s s' g n (b * 512 + i) (Suc k) a ms"
      unfolding ripas_flushed_def
    proof (intro conjI allI impI)
      have lg: "set (tlb_log s) \<subseteq> set (tlb_log s1)" "set (tlb_log s1) \<subseteq> set (tlb_log s')"
        using u(3) ih(5) by (auto simp: s1_def ripas_flushed_def)
      then show "set (tlb_log s) \<subseteq> set (tlb_log s')" by blast
      fix j e assume j: "j < Suc k \<and> r = RIPAS_EMPTY \<and> ent s g n (b * 512 + i + j) e \<and> s2tte_is_assigned_ram e ?l"
      show "set (tlbi_events ?c (a + of_nat j * ms) 1) \<subseteq> set (tlb_log s')"
      proof (cases j)
        case 0
        then have "e = ?e" using j entI [OF Suc.prems(2) i(1)] ent_fun by fastforce
        then have "K = Assigned_Ram" using j data_kind_cases(1) [OF u(1)] by simp
        then have "?code = 1" using True j by (auto simp: ripas_code_def EPERM_def split: if_splits)
        then show ?thesis using lg(2) 0 by (auto simp: s1_def)
      next
        case (Suc m)
        have "ent s1 g n (b * 512 + Suc i + m) e" using j Suc ripas_setD(2) [OF rs, of g n "b * 512 + i + j" e] by simp
        then have "set (tlbi_events ?c (a + ms + of_nat m * ms) 1) \<subseteq> set (tlb_log s')"
          using ih(5) j Suc unfolding ripas_flushed_def c1 by (auto simp: add.assoc)
        then show ?thesis using Suc by (simp add: algebra_simps)
      qed
    qed
    moreover have "ripas_permitted r cd s g n (b * 512 + i) (Suc k)"
      unfolding ripas_permitted_def
    proof (intro allI impI)
      fix j e assume j: "j < Suc k \<and> ent s g n (b * 512 + i + j) e \<and> r \<in> {RIPAS_RAM, RIPAS_EMPTY} \<and> cd = NO_CHANGE_DESTROYED"
      show "kinds e ?l \<inter> {Unassigned_Destroyed, Assigned_Destroyed} = {}"
      proof (cases j)
        case 0
        then have "e = ?e" using j entI [OF Suc.prems(2) i(1)] ent_fun by fastforce
        then show ?thesis using u(1) True j by (auto simp: ripas_code_def EPERM_def EINVAL_errno_def split: if_splits)
      next
        case (Suc m)
        have "ent s1 g n (b * 512 + Suc i + m) e" using j Suc ripas_setD(2) [OF rs, of g n "b * 512 + i + j" e] by simp
        then show ?thesis using ih(6) j Suc unfolding ripas_permitted_def c1 by auto
      qed
    qed
    ultimately show ?thesis using ih(2) by (intro exI [of _ "Suc k"] exI [of _ s']) simp
  qed
qed

section \<open>The loop of RMI\_RTT\_INIT\_RIPAS\<close>

definition ripas_initialisable :: "u64 \<Rightarrow> bool" where
  "ripas_initialisable e \<longleftrightarrow> s2tte_is_unassigned_empty e \<or> s2tte_is_unassigned_ram e"

text \<open>The measurement is extended with every entry.\<close>

fun ripas_rim :: "(hash_algo \<Rightarrow> u8 list \<Rightarrow> u8 list) \<Rightarrow> hash_algo \<Rightarrow> u64 \<Rightarrow> u8 list \<Rightarrow> u64 \<Rightarrow> nat \<Rightarrow> u8 list" where
  "ripas_rim hash algo ms m a 0 = m"
| "ripas_rim hash algo ms m a (Suc k) = ripas_rim hash algo ms (measurement_init_ripas_measure hash m algo a (a + ms)) (a + ms) k"

definition rim :: "rmm \<Rightarrow> nat \<Rightarrow> u8 list" where
  "rim s g = measurement (d_rd (mem s g)) ! RIM_MEASUREMENT_SLOT"

definition has_rim :: "rmm \<Rightarrow> nat \<Rightarrow> bool" where
  "has_rim s g \<longleftrightarrow> RIM_MEASUREMENT_SLOT < length (measurement (d_rd (mem s g)))"

definition measured_state :: "nat \<Rightarrow> u8 list list \<Rightarrow> rmm \<Rightarrow> rmm" where
  "measured_state g m s = upd_mem g (\<lambda>d. d\<lparr>d_rd := (d_rd d)\<lparr>measurement := m\<rparr>\<rparr>) s"

lemma measured_state_fields:
  "arm_dram (measured_state g m s) = arm_dram s" "slots (measured_state g m s) = slots s" "granules (measured_state g m s) = granules s"
  "words (mem (measured_state g m s) h) = words (mem s h)" "tlb_log (measured_state g m s) = tlb_log s"
  "measurement (d_rd (mem (measured_state g m s) g)) = m" "rd_algorithm (d_rd (mem (measured_state g m s) h)) = rd_algorithm (d_rd (mem s h))"
  "h \<noteq> g \<Longrightarrow> mem (measured_state g m s) h = mem s h"
  by (simp_all add: measured_state_def upd_mem_def)

lemma measured_state_kept:
  assumes inv: "realm_inv s" and g: "is_realm s g"
  shows "memory_kept s (measured_state g m s)"
proof (rule memory_kept_frame [OF inv])
  note idle = realm_invD(1) [OF inv] note id = idleD [OF idle] and f = measured_state_fields
  have gs: "STATE (granules s g) = GRANULE_STATE_RD" using g by (simp add: is_realm_def)
  have o: "mem (measured_state g m s) h = mem s h" if "STATE (granules s h) = GRANULE_STATE_DELEGATED" for h
    by (rule f(8)) (use that gs in auto)
  show "idle (measured_state g m s)"
    by (rule idle_change [OF idle f(1,2)]) (use f(3,4) [of g m s] id(2,6) o in auto)
  show "owners_kept s (measured_state g m s)"
  proof (rule owners_keptI)
    fix h
    have "measured (mem s h) (mem (measured_state g m s) h)"
      unfolding measured_def
      by (rule exI [of _ "if h = g then m else measurement (d_rd (mem s h))"], rule exI [of _ "sr_addr (rec_set_ripas (d_rec (mem s h)))"])
        (simp add: measured_state_def upd_mem_def)
    then show "granules (measured_state g m s) h = granules s h \<and> measured (mem s h) (mem (measured_state g m s) h) \<or>
        \<not> owner_state (STATE (granules s h)) \<and> \<not> owner_state (STATE (granules (measured_state g m s) h))" using f(3) by simp
  qed (simp_all add: measured_state_def upd_mem_def)
qed (simp_all add: measured_state_fields is_rtt_def)

lemma measure_ripas_held:
  "measure_ripas hash g a b (held L M s) = Inr ((), held L M (measured_state g ((measurement (d_rd (mem s g)))[RIM_MEASUREMENT_SLOT :=
     measurement_init_ripas_measure hash (rim s g) (rd_algorithm (d_rd (mem s g))) a b]) s))"
proof -
  have "upd_mem g (\<lambda>d. d\<lparr>d_rd := (d_rd (mem s g))\<lparr>measurement := m\<rparr>\<rparr>) s = measured_state g m s" for m
    by (simp add: measured_state_def upd_mem_def)
  then show ?thesis by (simp add: measure_ripas_def run_simps held_simps rim_def)
qed

lemma initialisable_kind:
  assumes "kinds e l = {K}"
  shows "ripas_initialisable e \<longleftrightarrow> K \<in> {Unassigned_Empty, Unassigned_Ram}" "ripas_initialisable e \<Longrightarrow> s2tte_has_ripas e l"
proof -
  show i: "ripas_initialisable e \<longleftrightarrow> K \<in> {Unassigned_Empty, Unassigned_Ram}"
    using data_kind_cases(5,6) [OF assms] by (auto simp: ripas_initialisable_def)
  assume "ripas_initialisable e"
  moreover have "\<not> s2tte_is_unassigned_ns e" if "K \<noteq> Unassigned_Ns" using that data_kind_cases(8) [OF assms] by simp
  ultimately show "s2tte_has_ripas e l"
    using i by (auto simp: ripas_initialisable_def s2tte_has_ripas_def s2tte_class_bits)
qed

lemma init_ripas_loop_held:
  assumes "realm_inv s" "in_tree s g n b t" "N \<le> 512" "i \<le> N"
  shows "\<exists>k s'. init_ripas_loop hash g t ms rtop [i..<N] a (held L M s) = Inr (a + of_nat k * ms, held L M s') \<and>
    i + k \<le> N \<and> ripas_set RIPAS_RAM s s' g n (b * 512 + i) k \<and> tlb_log s' = tlb_log s \<and>
    (\<forall>j < k. ripas_initialisable (words (mem s t) ! (i + j)) \<and> a + of_nat (Suc j) * ms \<le> rtop) \<and>
    (i + k < N \<longrightarrow> rtop < a + of_nat (Suc k) * ms \<or> \<not> ripas_initialisable (words (mem s t) ! (i + k))) \<and>
    (has_rim s g \<longrightarrow> rim s' g = ripas_rim hash (rd_algorithm (d_rd (mem s g))) ms (rim s g) a k) \<and> (k = 0 \<longrightarrow> s' = s)"
  using assms(1,2,4)
proof (induction "N - i" arbitrary: s i a)
  case 0
  then show ?case using ripas_set_0 [OF 0(2)] by (intro exI [of _ 0] exI [of _ s]) (simp add: run_simps)
next
  case (Suc d)
  let ?c = "realm_ctx s g" let ?l = "level ?c n" and ?e = "words (mem s t) ! i"
  have i: "i < 512" "[i..<N] = i # [Suc i..<N]" "Suc i \<le> N" "d = N - Suc i"
    using Suc.hyps(2) assms(3) by (auto simp: upt_rec [of i N])
  have g: "is_realm s g" using in_treeD(1) [OF Suc.prems(2)] .
  have len: "length (words (mem s t)) = 512" using idleD(6) [OF realm_invD(1) [OF Suc.prems(1)]] .
  have u: "unat (of_nat i :: u64) = i" using i(1) by (simp add: unat_of_nat)
  show ?case
  proof (cases "a + ms \<le> rtop \<and> ripas_initialisable ?e")
    case False
    then have "init_ripas_loop hash g t ms rtop [i..<N] a (held L M s) = Inr (a, held L M s)"
      by (auto simp: i(2) run_simps held_simps u not_le ripas_initialisable_def Let_def)
    then show ?thesis using ripas_set_0 [OF Suc.prems(1)] Suc.prems(3) False
      by (intro exI [of _ 0] exI [of _ s]) (auto simp: not_le)
  next
    case True
    obtain K where K: "kinds ?e ?l = {K}"
      using realm_invD(3) [OF Suc.prems(1) entI [OF Suc.prems(2) i(1)]] unfolding entry_ok_def by blast
    have Ku: "K \<in> {Unassigned_Empty, Unassigned_Ram}" and hr: "s2tte_has_ripas ?e ?l" using initialisable_kind [OF K] True by blast+
    define e' where "e' = (if K = Unassigned_Empty then s2tte_create_unassigned_ram else ?e)"
    define s0 where "s0 = page_set t i e' s"
    have k': "kinds e' ?l = {ripas_kind RIPAS_RAM K}"
      using Ku K created_unassigned_kinds(2) by (auto simp: e'_def ripas_kind_def)
    have nd: "K \<notin> data_kinds" using Ku by (auto simp: data_kinds_def)
    have rs0: "ripas_set RIPAS_RAM s s0 g n (b * 512 + i) 1" unfolding s0_def
      by (rule ripas_set_entry [OF Suc.prems(1,2) i(1) K hr k']) (use nd in simp)
    have same: "K = Unassigned_Ram \<Longrightarrow> s0 = s"
    proof -
      assume "K = Unassigned_Ram"
      moreover have "(mem s)(t := (mem s t)\<lparr>words := words (mem s t)\<rparr>) = mem s" by simp
      ultimately show "s0 = s" by (simp add: s0_def e'_def page_set_def upd_mem_def)
    qed
    have d0: "d_rd (mem s0 h) = d_rd (mem s h)" "tlb_log s0 = tlb_log s" for h by (simp_all add: s0_def page_set_def upd_mem_def)
    define s1 where "s1 = measured_state g ((measurement (d_rd (mem s0 g)))[RIM_MEASUREMENT_SLOT :=
       measurement_init_ripas_measure hash (rim s0 g) (rd_algorithm (d_rd (mem s0 g))) a (a + ms)]) s0"
    note k0 = memory_keptD [OF ripas_setD(1) [OF rs0]]
    have mk: "memory_kept s0 s1" unfolding s1_def by (rule measured_state_kept) (use k0 g in auto)
    have rs: "ripas_set RIPAS_RAM s s1 g n (b * 512 + i) 1" by (rule ripas_set_then [OF rs0 mk]) (simp add: s1_def measured_state_fields)
    note k1 = memory_keptD [OF ripas_setD(1) [OF rs]]
    have it1: "in_tree s1 g n b t" using k1(4) Suc.prems(2) by simp
    have w1: "words (mem s1 t) ! j = words (mem s t) ! j" if "i < j" for j
      using that by (simp add: s1_def measured_state_fields s0_def page_set_def upd_mem_def)
    have rim1: "has_rim s g \<Longrightarrow> has_rim s1 g \<and> rim s1 g = measurement_init_ripas_measure hash (rim s g) (rd_algorithm (d_rd (mem s g))) a (a + ms)"
      "rd_algorithm (d_rd (mem s1 g)) = rd_algorithm (d_rd (mem s g))" "tlb_log s1 = tlb_log s"
      by (simp_all add: s1_def has_rim_def rim_def measured_state_fields d0)
    obtain k s' where ih: "init_ripas_loop hash g t ms rtop [Suc i..<N] (a + ms) (held L M s1) = Inr (a + ms + of_nat k * ms, held L M s')"
      "Suc i + k \<le> N" "ripas_set RIPAS_RAM s1 s' g n (b * 512 + Suc i) k" "tlb_log s' = tlb_log s1"
      "\<forall>j < k. ripas_initialisable (words (mem s1 t) ! (Suc i + j)) \<and> a + ms + of_nat (Suc j) * ms \<le> rtop"
      "Suc i + k < N \<longrightarrow> rtop < a + ms + of_nat (Suc k) * ms \<or> \<not> ripas_initialisable (words (mem s1 t) ! (Suc i + k))"
      "has_rim s1 g \<longrightarrow> rim s' g = ripas_rim hash (rd_algorithm (d_rd (mem s1 g))) ms (rim s1 g) (a + ms) k"
      using Suc.hyps(1) [OF i(4) k1(1) it1 i(3), of "a + ms"] by blast
    have "init_ripas_loop hash g t ms rtop [i..<N] a (held L M s) = init_ripas_loop hash g t ms rtop [Suc i..<N] (a + ms) (held L M s1)"
    proof (cases "K = Unassigned_Empty")
      case empty: True
      have "upd_mem t (\<lambda>d. d\<lparr>words := (words d)[i := s2tte_create_unassigned_ram]\<rparr>) s = s0" using empty by (simp add: s0_def e'_def page_set_def)
      then show ?thesis using True empty data_kind_cases(5) [OF K] s1_def
        by (simp add: i(2) run_simps held_simps u not_less [symmetric] Let_def measure_ripas_held not_le)
    next
      case False
      then have r: "K = Unassigned_Ram" using Ku by simp
      then show ?thesis using True data_kind_cases(5,6) [OF K] s1_def same
        by (simp add: i(2) run_simps held_simps u not_less [symmetric] Let_def measure_ripas_held not_le)
    qed
    moreover have "ripas_set RIPAS_RAM s s' g n (b * 512 + i) (Suc k)" using ripas_set_Suc [OF rs _ g] ih(3) by simp
    moreover have "ripas_initialisable (words (mem s t) ! (i + j)) \<and> a + of_nat (Suc j) * ms \<le> rtop" if "j < Suc k" for j
      using that True ih(5) w1 by (cases j) (auto simp: algebra_simps)
    moreover have "rtop < a + of_nat (Suc (Suc k)) * ms \<or> \<not> ripas_initialisable (words (mem s t) ! (i + Suc k))" if "i + Suc k < N"
      using that ih(6) w1 by (auto simp: algebra_simps)
    moreover have "has_rim s g \<longrightarrow> rim s' g = ripas_rim hash (rd_algorithm (d_rd (mem s g))) ms (rim s g) a (Suc k)" using rim1 ih(7) by simp
    ultimately show ?thesis using ih(1,2,4) rim1(3) by (intro exI [of _ "Suc k"] exI [of _ s']) (auto simp: algebra_simps)
  qed
qed

end
