(* ===== verification/Ripas_Init.thy ===== *)
theory Ripas_Init
  imports Ripas Data_Correct
begin

text \<open>The correctness of RMI\_RTT\_INIT\_RIPAS.\<close>

section \<open>The walk with the descriptor locked\<close>

lemma rd_walk_steps:
  assumes inv: "realm_inv s" and g: "is_realm s g" and a: "addr < push_bit (unat (ipa_bits (realm_ctx s g))) 1"
    and w: "rtt_walk s (realm_ctx s g) addr 3 = (t, l)" and L: "\<forall>h \<in> L. \<not> is_rtt s h" and M: "M SLOT_RTT = None"
  defines "r \<equiv> the (g_rtt (realm_ctx s g))"
  shows "lock_root (realm_ctx s g) (held L M s) = Inr ((), held (insert r L) M s)"
    "s2tt_walk_lock_unlock (realm_ctx s g) addr 3 (held (insert r L) M s) = Inr (walk_info s (realm_ctx s g) addr 3, held (insert t L) M s)"
    "map_slot (Some t) SLOT_RTT (held (insert t L) M s) = Inr ((), held (insert t L) (M(SLOT_RTT := Some t)) s)"
    "buffer_unmap SLOT_RTT (held (insert t L) (M(SLOT_RTT := Some t)) s1) = Inr ((), held (insert t L) M s1)"
    "memory_kept s s1 \<Longrightarrow> granule_unlock t (held (insert t L) M' s1) = Inr ((), held L M' s1)" "is_rtt s t"
proof -
  let ?c = "realm_ctx s g"
  note idle = realm_invD(1) [OF inv] note id = idleD [OF idle] and wk = tree_walk_ok [OF realm_invD(2) [OF inv] g a]
  have sl: "s2_starting_level ?c \<le> 3" using tree_okD(1) [OF realm_invD(2) [OF inv] g] by (simp add: wf_ctx_def)
  have r: "is_rtt s r" using wk by (simp add: walk_ok_def r_def)
  show t: "is_rtt s t" using rtt_walk_rtt [OF wk sl] w by simp
  show "lock_root ?c (held L M s) = Inr ((), held (insert r L) M s)" using lock_root_held [OF idle wk, of L M] L by (simp add: r_def)
  show "s2tt_walk_lock_unlock ?c addr 3 (held (insert r L) M s) = Inr (walk_info s ?c addr 3, held (insert t L) M s)"
    using walk_held' [where M = M and L = L and lv = 3, OF idle wk M L sl] w by (simp add: r_def walk_info_def)
  show "map_slot (Some t) SLOT_RTT (held (insert t L) M s) = Inr ((), held (insert t L) (M(SLOT_RTT := Some t)) s)"
    using is_rttD(1) [OF t] id(3) M by (simp add: held_simps)
  show "buffer_unmap SLOT_RTT (held (insert t L) (M(SLOT_RTT := Some t)) s1) = Inr ((), held (insert t L) M s1)"
    using M fun_upd_triv [of M SLOT_RTT] by (simp add: held_simps)
  assume k: "memory_kept s s1"
  have "insert t L - {t} = L" using L t by auto
  then show "granule_unlock t (held (insert t L) M' s1) = Inr ((), held L M' s1)"
    using idleD(2,5) [OF realm_invD(1) [OF memory_keptD(1) [OF k]], of t] by (simp add: held_simps)
qed

section \<open>Addresses\<close>

lemma map_size_unat: "- 1 \<le> l \<Longrightarrow> l \<le> 3 \<Longrightarrow> unat (s2tte_map_size l) = 2 ^ lvl_lsb l \<and> lvl_lsb l \<le> 48"
  by (simp add: s2tte_map_size_def push_bit_eq_mult unat_exp lvl_lsb_def)

lemma steps_unat:
  fixes a :: u64
  assumes "- 1 \<le> l" "l \<le> 3" "unat a < 2 ^ 52" "k \<le> 512"
  shows "unat (a + of_nat k * s2tte_map_size l) = unat a + k * 2 ^ lvl_lsb l"
proof -
  note m = map_size_unat [OF assms(1,2)]
  have p: "(2 :: nat) ^ lvl_lsb l \<le> 2 ^ 48" using m power_increasing [of "lvl_lsb l" 48 "2 :: nat"] by simp
  have k: "k * 2 ^ lvl_lsb l \<le> 512 * 2 ^ 48" using mult_le_mono [OF assms(4) p] .
  have uk: "unat (of_nat k :: u64) = k" using assms(4) by (simp add: unat_of_nat)
  have "unat (of_nat k * s2tte_map_size l) = k * 2 ^ lvl_lsb l" using k uk m by (simp add: unat_word_ariths)
  then show ?thesis using k assms(3) by (simp add: unat_word_ariths)
qed

section \<open>The command\<close>

definition init_range_ok :: "rd \<Rightarrow> u64 \<Rightarrow> u64 \<Rightarrow> bool" where
  "init_range_ok rd rbase rtop \<longleftrightarrow> rbase < rtop \<and> rtop < realm_ipa_size rd \<and> addr_lvl_aligned (enable_lpa2 (rd_s2_ctx rd)) rbase S2TT_PAGE_LEVEL \<and>
    addr_lvl_aligned (enable_lpa2 (rd_s2_ctx rd)) rtop S2TT_PAGE_LEVEL \<and> addr_in_par rd rbase \<and> addr_in_par rd (rtop - GRANULE_SIZE)"

text \<open>The first entry of the range can be changed.\<close>

definition first_entry_ok :: "rmm \<Rightarrow> nat \<Rightarrow> u64 \<Rightarrow> u64 \<Rightarrow> bool" where
  "first_entry_ok s g rbase rtop \<longleftrightarrow>
    (let (t, l) = rtt_walk s (realm_ctx s g) rbase S2TT_PAGE_LEVEL
     in rbase AND NOT (s2tte_map_size l - 1) = rbase \<and> rbase + s2tte_map_size l \<le> rtop \<and>
        ripas_initialisable (words (mem s t) ! (entry_no rbase l mod 512)))"

definition init_possible :: "rmm \<Rightarrow> u64 \<Rightarrow> u64 \<Rightarrow> u64 \<Rightarrow> nat \<Rightarrow> bool" where
  "init_possible s rd_addr rbase rtop g \<longleftrightarrow> granule_in s rd_addr GRANULE_STATE_RD = Some g \<and> init_range_ok (d_rd (mem s g)) rbase rtop \<and>
    rd_state (d_rd (mem s g)) = REALM_NEW \<and> first_entry_ok s g rbase rtop"

lemma smc_rtt_init_ripas_run:
  assumes inv: "realm_inv s"
  shows "\<exists>res' s'. smc_rtt_init_ripas hash rd_addr rbase rtop res s = Inr (res', s') \<and> memory_kept s s' \<and> tlb_log s' = tlb_log s \<and>
    (if \<exists>g. init_possible s rd_addr rbase rtop g
     then res' 0 = RMI_SUCCESS \<and> (\<exists>g n k. granule_in s rd_addr GRANULE_STATE_RD = Some g \<and> 0 < k \<and>
       (let l = level (realm_ctx s g) n
        in unat (res' 1) = unat rbase + k * 2 ^ lvl_lsb l \<and> res' 1 \<le> rtop \<and> ripas_set RIPAS_RAM s s' g n (entry_no rbase l) k \<and>
           (has_rim s g \<longrightarrow> rim s' g = ripas_rim hash (rd_algorithm (d_rd (mem s g))) (s2tte_map_size l) (rim s g) rbase k)))
     else res' 0 \<noteq> RMI_SUCCESS \<and> s' = s)"
proof (cases "granule_in s rd_addr GRANULE_STATE_RD")
  case None
  note idle = realm_invD(1) [OF inv]
  show ?thesis
    using find_rd_none [OF idle None] idle_held [OF idle] None memory_kept_refl [OF inv]
    by (cases "rtop \<le> rbase") (simp_all add: smc_rtt_init_ripas_def run_simps init_possible_def)
next
  case (Some g)
  note idle = realm_invD(1) [OF inv] note id = idleD [OF idle] and rs = rd_steps [OF idle Some]
  let ?rd = "d_rd (mem s g)" and ?c = "realm_ctx s g"
  have c: "rd_s2_ctx ?rd = ?c" by (simp add: realm_ctx_def)
  have realm: "is_realm s g" using is_realm_in [OF Some] .
  have wf: "wf_ctx ?c" using tree_okD(1) [OF realm_invD(2) [OF inv] realm] .
  have h: "smc_rtt_init_ripas hash rd_addr rbase rtop res s = smc_rtt_init_ripas hash rd_addr rbase rtop res (held {} no_slots s)"
    using idle_held [OF idle] by simp
  have val: "validate_map_addr a 3 ?rd s1 = Inr (a < realm_ipa_size ?rd \<and> addr_lvl_aligned (enable_lpa2 ?c) a 3, s1)" for a and s1 :: rmm
    by (simp add: run_simps c)
  note run = smc_rtt_init_ripas_def run_simps rs read_held c val Let_def
  show ?thesis
  proof (cases "init_range_ok ?rd rbase rtop \<and> rd_state ?rd = REALM_NEW")
    case False
    then have no: "\<nexists>g. init_possible s rd_addr rbase rtop g" using Some by (auto simp: init_possible_def)
    show ?thesis
    proof (cases "rtop \<le> rbase")
      case True
      then show ?thesis unfolding if_not_P [OF no] using memory_kept_refl [OF inv] by (simp add: smc_rtt_init_ripas_def run_simps)
    next
      case le: False
      then show ?thesis unfolding h if_not_P [OF no] using False memory_kept_refl [OF inv] by (auto simp: run init_range_ok_def c)
    qed
  next
    case True
    have v: "\<not> rtop \<le> rbase" "rbase < realm_ipa_size ?rd" "rtop < realm_ipa_size ?rd" "addr_in_par ?rd rbase" "addr_in_par ?rd (rtop - GRANULE_SIZE)"
      "addr_lvl_aligned (enable_lpa2 ?c) rbase 3" "addr_lvl_aligned (enable_lpa2 ?c) rtop 3" "rd_state ?rd = REALM_NEW"
      using True by (auto simp: init_range_ok_def c not_le)
    have a: "rbase < push_bit (unat (ipa_bits ?c)) 1" using True realm_ipa_size_ctx [OF realm] by (auto simp: init_range_ok_def)
    obtain t l where w: "rtt_walk s ?c rbase 3 = (t, l)" by fastforce
    let ?M = "no_slots(SLOT_RD := Some g)" and ?ms = "s2tte_map_size l" and ?i = "entry_no rbase l mod 512"
    have ng: "\<forall>h\<in>{g}. \<not> is_rtt s h" using realm by (simp add: is_realm_def is_rtt_def)
    have M: "?M SLOT_RTT = None" by simp
    note ws = rd_walk_steps [where M = ?M and L = "{g}", OF inv realm a w ng M]
    have sl: "s2_starting_level ?c \<le> 3" using wf by (simp add: wf_ctx_def)
    obtain n where n: "l = level ?c n" "in_tree s g n (entry_no rbase l div 512) t" "-1 \<le> l" "l \<le> 3" "unat (s2_addr_to_idx rbase l) = ?i"
      by (rule realm_walk [OF inv realm a sl order_refl w])
    define N where "N = (if l = - 1 then 16 else (512 :: nat))"
    have iN: "N \<le> 512" "?i \<le> N" "?i < N"
      using wf_ctx_bounds(3) [OF wf a] by (auto simp: N_def lvl_lsb_def less_mult_imp_div_less)
    obtain k s' where lp: "init_ripas_loop hash g t ?ms rtop [?i..<N] rbase (held {t, g} (?M(SLOT_RTT := Some t)) s) =
        Inr (rbase + of_nat k * ?ms, held {t, g} (?M(SLOT_RTT := Some t)) s')" "?i + k \<le> N"
      "ripas_set RIPAS_RAM s s' g n (entry_no rbase l div 512 * 512 + ?i) k" "tlb_log s' = tlb_log s"
      "\<forall>j < k. ripas_initialisable (words (mem s t) ! (?i + j)) \<and> rbase + of_nat (Suc j) * ?ms \<le> rtop"
      "?i + k < N \<longrightarrow> rtop < rbase + of_nat (Suc k) * ?ms \<or> \<not> ripas_initialisable (words (mem s t) ! (?i + k))"
      "has_rim s g \<longrightarrow> rim s' g = ripas_rim hash (rd_algorithm (d_rd (mem s g))) ?ms (rim s g) rbase k" "k = 0 \<longrightarrow> s' = s"
      using init_ripas_loop_held [OF inv n(2) iN(1,2), of hash ?ms rtop rbase "{t, g}" "?M(SLOT_RTT := Some t)"] by blast
    note kept = ripas_setD(1) [OF lp(3)]
    have end_addr: "unat (rbase + of_nat m * ?ms) = unat rbase + m * 2 ^ lvl_lsb l" if "m \<le> 512" for m
      by (rule steps_unat [OF n(3,4) wf_ctx_bounds(3) [OF wf a] that])
    have k: "k \<le> 512" "rbase < rbase + of_nat k * ?ms \<longleftrightarrow> 0 < k"
      using lp(2) iN(1) end_addr [of k] by (auto simp: word_less_nat_alt)
    have ul: "granule_unlock g (held {g} no_slots s') = Inr ((), s')"
      using idleD(2,4,5) [OF realm_invD(1) [OF memory_keptD(1) [OF kept]]] by (simp add: held_simps held_empty)
    have first: "first_entry_ok s g rbase rtop \<longleftrightarrow> rbase AND NOT (?ms - 1) = rbase \<and> 0 < k"
    proof (cases "k = 0")
      case True
      then have "rtop < rbase + ?ms \<or> \<not> ripas_initialisable (words (mem s t) ! ?i)" using lp(6) iN(3) by simp
      then show ?thesis using True by (auto simp: first_entry_ok_def w not_le)
    next
      case False
      then show ?thesis using lp(5) [rule_format, of 0] by (simp add: first_entry_ok_def w)
    qed
    have poss: "(\<exists>g. init_possible s rd_addr rbase rtop g) \<longleftrightarrow> first_entry_ok s g rbase rtop" using Some True by (auto simp: init_possible_def)
    have p: "entry_no rbase l div 512 * 512 + ?i = entry_no rbase l" by simp
    show ?thesis
    proof (cases "rbase AND NOT (?ms - 1) = rbase")
      case False
      have "smc_rtt_init_ripas hash rd_addr rbase rtop res s = Inr (res(0 := rtt_error l), s)"
        unfolding h using False w ws(1-4) ws(5) [OF memory_kept_refl [OF inv]] rs(4)
        by (simp add: run v held_simps)
      then show ?thesis using False poss first memory_kept_refl [OF inv] by simp
    next
      case al: True
      have "smc_rtt_init_ripas hash rd_addr rbase rtop res s =
        Inr (if 0 < k then res(0 := RMI_SUCCESS, 1 := rbase + of_nat k * ?ms) else res(0 := rtt_error l), s')"
        unfolding h using al w ws(1-4) ws(5) [OF kept] ul n(5) lp(1) k(2)
        by (simp add: run v held_simps N_def [symmetric])
      moreover have "0 < k \<Longrightarrow> rbase + of_nat k * ?ms \<le> rtop" using lp(5) [rule_format, of "k - 1"] by simp
      ultimately show ?thesis
        using al poss first kept lp(3,4,7,8) end_addr [OF k(1)] Some n(1) unfolding p
        by (cases "k = 0") (auto simp: Let_def)
    qed
  qed
qed

text \<open>
  C18. Initialisation of the RIPAS of a range. The command never faults. It succeeds exactly when the realm is new, the range is a valid
  range of protected addresses, its base is aligned for the table that the walk reaches and the first entry there is unassigned with
  RIPAS empty or RAM; then it returns the top of a non-empty prefix of the range, the entries for the prefix are now unassigned RAM,
  no other entry of any table changes, and the measurement of the realm is extended with each of these entries in order. Otherwise the
  state is unchanged. The memory of all realms and the invariant are kept.
\<close>

theorem init_ripas_correct:
  assumes inv: "realm_inv s"
  shows "\<exists>res' s'. smc_rtt_init_ripas hash rd_addr rbase rtop res s = Inr (res', s') \<and> realm_inv s' \<and>
    (\<forall>g P d. maps s' g P d \<longleftrightarrow> maps s g P d) \<and>
    (if \<exists>g. init_possible s rd_addr rbase rtop g
     then res' 0 = RMI_SUCCESS \<and> (\<exists>g n k. granule_in s rd_addr GRANULE_STATE_RD = Some g \<and> 0 < k \<and>
       (let l = level (realm_ctx s g) n
        in unat (res' 1) = unat rbase + k * 2 ^ lvl_lsb l \<and> res' 1 \<le> rtop \<and> ripas_set RIPAS_RAM s s' g n (entry_no rbase l) k \<and>
           (has_rim s g \<longrightarrow> rim s' g = ripas_rim hash (rd_algorithm (d_rd (mem s g))) (s2tte_map_size l) (rim s g) rbase k)))
     else res' 0 \<noteq> RMI_SUCCESS \<and> s' = s)"
  using smc_rtt_init_ripas_run [OF inv, of hash rd_addr rbase rtop res] memory_keptD(1,3) by blast

theorem init_ripas_correct_witness:
  "\<exists>res' s'. smc_rtt_init_ripas demo_hash 0x80002000 0x2000 0x4000 (\<lambda>_. 0) demo_realm = Inr (res', s') \<and> res' 0 = RMI_SUCCESS \<and>
    realm_inv s' \<and> maps s' 2 1 7"
proof -
  have g: "granule_in demo_realm 0x80002000 GRANULE_STATE_RD = Some 2"
    by (simp add: granule_in_def demo_granule_addr demo_desc_fields granule_states)
  have "ripas_initialisable 0" using initialisable_kind(1) [OF demo_kinds(3)] by simp
  then have "first_entry_ok demo_realm 2 0x2000 0x4000"
    by (simp add: first_entry_ok_def demo_ctx demo_walk_2 demo_nth s2tte_map_size_def lvl_lsb_def)
  then have y: "\<exists>g. init_possible demo_realm 0x80002000 0x2000 0x4000 g"
    by (intro exI [of _ 2]) (simp add: init_possible_def g init_range_ok_def demo_rd_fields addr_lvl_aligned_def BIT_MASK_ULL_def mask_eq_decr_exp lvl_lsb_def
        GRANULE_SIZE_def)
  show ?thesis
    using init_ripas_correct [OF demo_realm_inv, of demo_hash "0x80002000" "0x2000" "0x4000" "\<lambda>_. 0"]
    unfolding if_P [OF y] by (elim exE conjE) (simp add: demo_maps)
qed

end
