(* ===== verification/Arch.thy ===== *)
theory Arch
  imports Rmm_State
begin

text \<open>
  The values of the architecture that the execution contexts use (\<^verbatim>\<open>lib/arch/include/arch.h\<close>), of the build without
  OPENCCA, and the numbering of execution contexts by their MPIDR (\<^verbatim>\<open>runtime/include/rec.h\<close>).
\<close>

section \<open>Initial register values\<close>

definition PMCR_EL0_INIT :: u64 where "PMCR_EL0_INIT = BIT64 6 OR BIT64 5"
definition PMCR_EL0_INIT_RESET :: u64 where "PMCR_EL0_INIT_RESET = PMCR_EL0_INIT OR BIT64 2 OR BIT64 1"
definition SCTLR_EL1_FLAGS :: u64 where
  "SCTLR_EL1_FLAGS = BIT64 23 OR BIT64 22 OR BIT64 18 OR BIT64 16 OR BIT64 11 OR BIT64 6 OR BIT64 5 OR BIT64 4 OR BIT64 3"
definition SCTLR_ELx_EE_BIT :: u64 where "SCTLR_ELx_EE_BIT = BIT64 25"
definition MDSCR_EL1_TDCC_BIT :: u64 where "MDSCR_EL1_TDCC_BIT = BIT64 12"
definition VMPIDR_EL2_RES1 :: u64 where "VMPIDR_EL2_RES1 = BIT64 31"
definition CNTHCTL_EL2_NO_TRAPS :: u64 where "CNTHCTL_EL2_NO_TRAPS = BIT64 10 OR BIT64 11"
definition CPTR_EL2_VHE_INIT :: u64 where "CPTR_EL2_VHE_INIT = push_bit 16 0 OR push_bit 24 0 OR push_bit 20 0 OR BIT64 28 OR BIT64 30"
definition CPTR_EL2_VHE_SIMD_MASK :: u64 where "CPTR_EL2_VHE_SIMD_MASK = MASK 20 2 OR MASK 16 2 OR MASK 24 2"
definition HCR_TWI :: u64 where "HCR_TWI = BIT64 13"
definition HCR_TWE :: u64 where "HCR_TWE = BIT64 14"
definition HCR_REALM_FLAGS :: u64 where
  "HCR_REALM_FLAGS = BIT64 46 OR BIT64 34 OR BIT64 31 OR BIT64 19 OR BIT64 5 OR INPLACE 10 1 OR BIT64 4 OR BIT64 3 OR
     BIT64 2 OR BIT64 1 OR BIT64 0 OR BIT64 18 OR BIT64 37 OR BIT64 41 OR BIT64 40"
definition MDCR_EL2_TPM_BIT :: u64 where "MDCR_EL2_TPM_BIT = BIT64 6"
definition MDCR_EL2_TPMCR_BIT :: u64 where "MDCR_EL2_TPMCR_BIT = BIT64 5"

section \<open>VTCR\_EL2\<close>

definition VTCR_SL0_4K_L2 :: u64 where "VTCR_SL0_4K_L2 = INPLACE 6 0"
definition VTCR_SL0_4K_L1 :: u64 where "VTCR_SL0_4K_L1 = INPLACE 6 1"
definition VTCR_SL0_4K_L0 :: u64 where "VTCR_SL0_4K_L0 = INPLACE 6 2"
definition VTCR_SL0_4K_L3 :: u64 where "VTCR_SL0_4K_L3 = INPLACE 6 3"
definition VTCR_SL0_4K_LM1 :: u64 where "VTCR_SL0_4K_LM1 = VTCR_SL0_4K_L2"
definition VCTR_SL2_4K_LM1 :: u64 where "VCTR_SL2_4K_LM1 = INPLACE 33 1"
definition VTCR_DS_52BIT :: u64 where "VTCR_DS_52BIT = INPLACE 32 1"
definition VTCR_VS :: u64 where "VTCR_VS = BIT64 19"
definition VTCR_FLAGS :: u64 where
  "VTCR_FLAGS = INPLACE 8 1 OR INPLACE 10 1 OR INPLACE 12 3 OR INPLACE 14 0 OR BIT64 30 OR BIT64 31"

section \<open>SPSR\_EL2\<close>

definition SPSR_EL2_MODE_EL0t :: u64 where "SPSR_EL2_MODE_EL0t = INPLACE 0 0"
definition SPSR_EL2_MODE_EL1t :: u64 where "SPSR_EL2_MODE_EL1t = INPLACE 0 4"
definition SPSR_EL2_MODE_EL1h :: u64 where "SPSR_EL2_MODE_EL1h = INPLACE 0 5"
definition SPSR_EL2_nRW_AARCH64 :: u64 where "SPSR_EL2_nRW_AARCH64 = INPLACE 4 0"
definition SPSR_EL2_nRW_AARCH32 :: u64 where "SPSR_EL2_nRW_AARCH32 = INPLACE 4 1"

text \<open>The processor state with which a realm starts: EL1h, AArch64, exceptions masked.\<close>

definition calc_pstate :: u64 where
  "calc_pstate = SPSR_EL2_MODE_EL1h OR SPSR_EL2_nRW_AARCH64 OR BIT64 6 OR BIT64 7 OR BIT64 8 OR BIT64 9"

section \<open>MPIDR\<close>

definition RMI_MPIDR_AFF :: "nat \<Rightarrow> u64 \<Rightarrow> u64" where
  "RMI_MPIDR_AFF n val =
    (if n = 0 then val AND MASK 0 4 else if n = 1 then drop_bit 4 (val AND MASK 8 8)
     else if n = 2 then drop_bit 4 (val AND MASK 16 8) else drop_bit 4 (val AND MASK 24 8))"

definition MPIDR_EL1_AFF :: "nat \<Rightarrow> u64 \<Rightarrow> u64" where
  "MPIDR_EL1_AFF n reg =
    (if n = 0 then reg AND MASK 0 4 else if n = 1 then drop_bit 4 (reg AND MASK 8 8)
     else if n = 2 then drop_bit 4 (reg AND MASK 16 8) else drop_bit 12 (reg AND MASK 32 8))"

definition rec_mpidr_is_valid :: "u64 \<Rightarrow> bool" where
  "rec_mpidr_is_valid rec_mpidr \<longleftrightarrow> rec_mpidr AND NOT (MASK 0 4 OR MASK 8 8 OR MASK 16 8 OR MASK 24 8) = 0"

definition rec_mpidr_to_idx :: "u64 \<Rightarrow> u64" where
  "rec_mpidr_to_idx rec_mpidr = RMI_MPIDR_AFF 0 rec_mpidr OR RMI_MPIDR_AFF 1 rec_mpidr OR RMI_MPIDR_AFF 2 rec_mpidr OR RMI_MPIDR_AFF 3 rec_mpidr"

definition mpidr_to_rec_idx :: "u64 \<Rightarrow> u64" where
  "mpidr_to_rec_idx mpidr = MPIDR_EL1_AFF 0 mpidr OR MPIDR_EL1_AFF 1 mpidr OR MPIDR_EL1_AFF 2 mpidr OR MPIDR_EL1_AFF 3 mpidr"

definition rec_mpidr_to_mpidr :: "u64 \<Rightarrow> u64" where
  "rec_mpidr_to_mpidr rec_mpidr = (rec_mpidr AND (MASK 0 4 OR MASK 8 8 OR MASK 16 8)) OR push_bit (32 - 24) (rec_mpidr AND MASK 24 8)"

section \<open>MPIDRs number the execution contexts\<close>

lemma bit_rec_idx:
  "bit (rec_mpidr_to_idx m) n \<longleftrightarrow> (if n < 4 then bit m n else n < 28 \<and> bit m (n + 4))"
  by (auto simp: rec_mpidr_to_idx_def RMI_MPIDR_AFF_def bit_or_iff bit_and_iff bit_drop_bit_eq bit_MASK add.commute)

lemma bit_mpidr_idx:
  "bit (mpidr_to_rec_idx m) n \<longleftrightarrow> (if n < 4 then bit m n else if n < 20 then bit m (n + 4) else n < 28 \<and> bit m (n + 12))"
  by (auto simp: mpidr_to_rec_idx_def MPIDR_EL1_AFF_def bit_or_iff bit_and_iff bit_drop_bit_eq bit_MASK add.commute)

lemma bit_rec_mpidr_to_mpidr:
  "bit (rec_mpidr_to_mpidr m) n \<longleftrightarrow>
    (if n < 4 then bit m n else if 8 \<le> n \<and> n < 24 then bit m n else 32 \<le> n \<and> n < 40 \<and> bit m (n - 8))"
  by (auto simp: rec_mpidr_to_mpidr_def bit_or_iff bit_and_iff bit_push_bit_iff bit_MASK)

lemma mpidr_roundtrip: "mpidr_to_rec_idx (rec_mpidr_to_mpidr m OR VMPIDR_EL2_RES1) = rec_mpidr_to_idx m"
proof (rule bit_word_eqI)
  fix n assume "n < LENGTH(64)"
  have r: "bit VMPIDR_EL2_RES1 k \<longleftrightarrow> k = 31" for k
    using bit_exp_iff [of 31 k, where ?'a = u64] by (auto simp: VMPIDR_EL2_RES1_def BIT64_def possible_bit_word)
  show "bit (mpidr_to_rec_idx (rec_mpidr_to_mpidr m OR VMPIDR_EL2_RES1)) n \<longleftrightarrow> bit (rec_mpidr_to_idx m) n"
    unfolding bit_mpidr_idx bit_rec_idx bit_or_iff r bit_rec_mpidr_to_mpidr by (auto simp: add.commute)
qed

lemma rec_mpidr_inj:
  assumes "rec_mpidr_is_valid m" "rec_mpidr_is_valid m'" "rec_mpidr_to_idx m = rec_mpidr_to_idx m'"
  shows "m = m'"
proof (rule bit_word_eqI)
  have v: "bit x n \<Longrightarrow> n < 4 \<or> 8 \<le> n \<and> n < 32" if "rec_mpidr_is_valid x" for x n
  proof -
    assume "bit x n"
    moreover have "bit x n \<longrightarrow> bit (MASK 0 4 OR MASK 8 8 OR MASK 16 8 OR MASK 24 8) n"
      using that unfolding rec_mpidr_is_valid_def and_not_eq_0 by blast
    ultimately show ?thesis by (auto simp: bit_or_iff bit_MASK)
  qed
  fix n assume "n < LENGTH(64)"
  have "bit (rec_mpidr_to_idx m) k \<longleftrightarrow> bit (rec_mpidr_to_idx m') k" for k using assms(3) by simp
  note b = this [unfolded bit_rec_idx]
  show "bit m n \<longleftrightarrow> bit m' n"
    using b [of n] b [of "n - 4"] v [OF assms(1), of n] v [OF assms(2), of n] by (auto split: if_splits)
qed

end
