(* ===== verification/Rmi_Realm.thy ===== *)
theory Rmi_Realm
  imports Rmi_Data
begin

text \<open>
  The life of a realm: RMI\_REALM\_CREATE, RMI\_REALM\_ACTIVATE and RMI\_REALM\_DESTROY
  (\<^verbatim>\<open>runtime/rmi/realm.c\<close>) and the feature register that the parameters are checked against
  (\<^verbatim>\<open>runtime/rmi/feature.c\<close>, \<^verbatim>\<open>lib/arch\<close>). The identification registers of the processor and the two
  values that drivers compute from others are arguments. The parameters that the host passes in
  non-secure memory are an argument too: \<open>ns_params g\<close> is what a read of the granule \<open>g\<close> gives and
  whether it completed.
\<close>

section \<open>Processor features\<close>

record cpu_regs =
  id_aa64mmfr0_el1 :: u64
  id_aa64dfr0_el1 :: u64
  id_aa64dfr1_el1 :: u64
  pmcr_el0 :: u64
  cpu_simd_cfg :: simd_config
  vgic_num_lrs :: u64
  mdcr_el2 :: u64

definition arch_feat_get_pa_width :: "cpu_regs \<Rightarrow> ('s, u32) M" where
  "arch_feat_get_pa_width cpu =
    (let pa_range_bits_arr = [32, 36, 40, 42, 44, 48, 52];
         pa_range = EXTRACT 0 4 (id_aa64mmfr0_el1 cpu)
     in thenM (assertM (unat pa_range < length pa_range_bits_arr))
        (returnM (pa_range_bits_arr ! unat pa_range)))"

definition is_feat_lpa2_4k_present :: "cpu_regs \<Rightarrow> bool" where
  "is_feat_lpa2_4k_present cpu \<longleftrightarrow> EXTRACT 28 4 (id_aa64mmfr0_el1 cpu) = 1"

definition is_feat_lpa2_4k_2_present :: "cpu_regs \<Rightarrow> bool" where
  "is_feat_lpa2_4k_2_present cpu \<longleftrightarrow>
     EXTRACT 40 4 (id_aa64mmfr0_el1 cpu) = 3 \<or>
     EXTRACT 40 4 (id_aa64mmfr0_el1 cpu) = 0 \<and> is_feat_lpa2_4k_present cpu"

definition read_pmu_version :: "cpu_regs \<Rightarrow> u32" where
  "read_pmu_version cpu = ucast (EXTRACT 8 4 (id_aa64dfr0_el1 cpu))"

definition is_feat_hpmn0_present :: "cpu_regs \<Rightarrow> bool" where
  "is_feat_hpmn0_present cpu \<longleftrightarrow> EXTRACT 60 4 (id_aa64dfr0_el1 cpu) = 1"

text \<open>The number of breakpoints or watchpoints minus 1: DFR1 holds it when DFR0 has the value 15.\<close>

definition num_debug_regs :: "u64 \<Rightarrow> u64 \<Rightarrow> u64" where
  "num_debug_regs dfr0_field dfr1_field =
    (if dfr0_field = 15 then (if dfr1_field = 0 then 15 else dfr1_field) else dfr0_field)"

definition RMI_FEATURE_FALSE :: u64 where "RMI_FEATURE_FALSE = 0"
definition RMI_FEATURE_TRUE :: u64 where "RMI_FEATURE_TRUE = 1"
definition RMI_FEATURE_REGISTER_0_INDEX :: u64 where "RMI_FEATURE_REGISTER_0_INDEX = 0"
definition GRN_REFCOUNT_WIDTH :: u64 where "GRN_REFCOUNT_WIDTH = 10"

definition get_feature_register_0 :: "cpu_regs \<Rightarrow> ('s, u64) M" where
  "get_feature_register_0 cpu =
    bindM (arch_feat_get_pa_width cpu) (\<lambda>s2sz.
    thenM (assertM (read_pmu_version cpu \<ge> 7))
    (let lpa2 = (if is_feat_lpa2_4k_2_present cpu \<and> is_feat_lpa2_4k_present cpu then INPLACE 8 RMI_FEATURE_TRUE else 0);
         num_bps = num_debug_regs (EXTRACT 12 4 (id_aa64dfr0_el1 cpu)) (EXTRACT 8 8 (id_aa64dfr1_el1 cpu));
         num_wps = num_debug_regs (EXTRACT 20 4 (id_aa64dfr0_el1 cpu)) (EXTRACT 16 8 (id_aa64dfr1_el1 cpu));
         sve = (if sve_en (cpu_simd_cfg cpu)
                then INPLACE 9 RMI_FEATURE_TRUE OR INPLACE 10 (ucast (sve_vq (cpu_simd_cfg cpu))) else 0)
     in returnM (INPLACE 0 (ucast s2sz) OR lpa2 OR INPLACE 32 RMI_FEATURE_TRUE OR INPLACE 33 RMI_FEATURE_TRUE OR
          INPLACE 26 RMI_FEATURE_TRUE OR INPLACE 27 (EXTRACT 11 5 (pmcr_el0 cpu)) OR
          INPLACE 14 num_bps OR INPLACE 20 num_wps OR sve OR
          INPLACE 34 (vgic_num_lrs cpu) OR INPLACE 38 GRN_REFCOUNT_WIDTH)))"

definition smc_read_feature_register :: "cpu_regs \<Rightarrow> u64 \<Rightarrow> smc_result \<Rightarrow> ('s, smc_result) M" where
  "smc_read_feature_register cpu index res =
    (if index = RMI_FEATURE_REGISTER_0_INDEX
     then bindM (get_feature_register_0 cpu) (\<lambda>feat. returnM (res(0 := RMI_SUCCESS, 1 := feat)))
     else returnM (res(0 := RMI_SUCCESS, 1 := 0)))"

section \<open>Activation\<close>

definition smc_realm_activate :: "u64 \<Rightarrow> (rmm, u64) M" where
  "smc_realm_activate rd_addr =
    bindM (find_lock_granule rd_addr GRANULE_STATE_RD) (\<lambda>locked.
    (case locked of
       None \<Rightarrow> returnM RMI_ERROR_INPUT
     | Some g_rd \<Rightarrow>
     thenM (map_slot (Some g_rd) SLOT_RD)
     (bindM (read_rd g_rd) (\<lambda>rd.
      bindM
       (if rd_state rd = REALM_NEW
        then thenM (write_rd g_rd (rd\<lparr>rd_state := REALM_ACTIVE\<rparr>)) (returnM RMI_SUCCESS)
        else returnM RMI_ERROR_REALM) (\<lambda>ret.
      thenM (buffer_unmap SLOT_RD)
      (thenM (granule_unlock g_rd)
       (returnM ret)))))))"

section \<open>Validation of the parameters\<close>

definition ns_read_params :: "(nat \<Rightarrow> 'p \<times> bool) \<Rightarrow> nat \<Rightarrow> nat \<Rightarrow> (rmm, 'p option) M" where
  "ns_read_params ns_params slot ns_gr =
    thenM (assertM (slot = SLOT_NS))
    (bindM (granule_addr (Some ns_gr)) (\<lambda>addr.
     bindM (getM (\<lambda>s. slots s slot)) (\<lambda>used.
     thenM (assertM (used = None))
     (thenM (modifyM (\<lambda>s. s\<lparr>slots := (slots s)(slot := Some ns_gr)\<rparr>))
      (let (p, retval) = ns_params ns_gr
       in thenM (buffer_unmap slot)
          (returnM (if retval then Some p else None)))))))"

definition get_realm_params :: "(nat \<Rightarrow> rmi_realm_params \<times> bool) \<Rightarrow> u64 \<Rightarrow> (rmm, rmi_realm_params option) M" where
  "get_realm_params ns_params realm_params_addr =
    bindM (find_granule realm_params_addr) (\<lambda>g_realm_params.
    (case g_realm_params of
       None \<Rightarrow> returnM None
     | Some g \<Rightarrow>
         bindM (granule_unlocked_state g) (\<lambda>st.
         if st \<noteq> GRANULE_STATE_NS then returnM None
         else ns_read_params ns_params SLOT_NS g)))"

definition is_lpa2_requested :: "rmi_realm_params \<Rightarrow> bool" where
  "is_lpa2_requested p \<longleftrightarrow> EXTRACT 0 1 (rp_flags p) = RMI_FEATURE_TRUE"

abbreviation (input) S2TT_MIN_IPA_BITS :: u32 where "S2TT_MIN_IPA_BITS \<equiv> 32"
abbreviation (input) S2TT_MAX_IPA_BITS :: u32 where "S2TT_MAX_IPA_BITS \<equiv> 48"
abbreviation (input) S2TT_MAX_IPA_BITS_LPA2 :: u32 where "S2TT_MAX_IPA_BITS_LPA2 \<equiv> 52"
abbreviation (input) RMI_FEATURE_MIN_IPA_SIZE :: u32 where "RMI_FEATURE_MIN_IPA_SIZE \<equiv> 32"

definition s2_inconsistent_sl :: "u32 \<Rightarrow> int \<Rightarrow> bool \<Rightarrow> bool" where
  "s2_inconsistent_sl bits sl lpa2 =
    (let levels = word_of_int (S2TT_PAGE_LEVEL - sl);
         sl_min_ipa_bits = levels * 9 + 12 + 1;
         sl_max_ipa_bits = (if sl = S2TT_MIN_STARTING_LEVEL_LPA2 \<and> lpa2 then sl_min_ipa_bits + (4 - 1)
                            else sl_min_ipa_bits + (9 - 1));
         sl_max_ipa_bits' = (if sl > 0 \<or> sl = 0 \<and> lpa2 then sl_max_ipa_bits + 4 else sl_max_ipa_bits)
     in bits < sl_min_ipa_bits \<or> bits > sl_max_ipa_bits')"

definition validate_ipa_bits_and_sl :: "cpu_regs \<Rightarrow> u32 \<Rightarrow> int \<Rightarrow> bool \<Rightarrow> ('s, bool) M" where
  "validate_ipa_bits_and_sl cpu bits sl lpa2 =
    (let max_ipa_bits = (if lpa2 then S2TT_MAX_IPA_BITS_LPA2 else S2TT_MAX_IPA_BITS);
         min_starting_level = (if lpa2 then S2TT_MIN_STARTING_LEVEL_LPA2 else S2TT_MIN_STARTING_LEVEL)
     in if bits < S2TT_MIN_IPA_BITS \<or> bits > max_ipa_bits then returnM False
        else if sl < min_starting_level \<or> sl > S2TT_PAGE_LEVEL then returnM False
        else bindM (if sl = 0 then bindM (arch_feat_get_pa_width cpu) (\<lambda>w. returnM (w < 44)) else returnM False) (\<lambda>unsupported.
          returnM (\<not> unsupported \<and> \<not> s2_inconsistent_sl bits sl lpa2)))"

definition s2_num_root_rtts :: "u32 \<Rightarrow> int \<Rightarrow> u32" where
  "s2_num_root_rtts bits sl =
    (let levels = word_of_int (S2TT_PAGE_LEVEL - sl);
         sl_ipa_bits = levels * 9 + 12 + 9
     in if sl_ipa_bits \<ge> bits then 1 else push_bit (unat (bits - sl_ipa_bits)) 1)"

definition RMI_HASH_SHA_256 :: u8 where "RMI_HASH_SHA_256 = 0"
definition RMI_HASH_SHA_512 :: u8 where "RMI_HASH_SHA_512 = 1"

text \<open>The checks before the VMID is reserved, in the order of the source.\<close>

definition check_realm_params :: "cpu_regs \<Rightarrow> u64 \<Rightarrow> rmi_realm_params \<Rightarrow> ('s, bool) M" where
  "check_realm_params cpu feat_reg0 p =
    (if is_lpa2_requested p \<and> EXTRACT 8 1 feat_reg0 = RMI_FEATURE_FALSE then returnM False
     else if rp_s2sz p < RMI_FEATURE_MIN_IPA_SIZE \<or> ucast (rp_s2sz p) > EXTRACT 0 8 feat_reg0 then returnM False
     else if rp_num_bps p = 0 \<or> ucast (rp_num_bps p) > EXTRACT 14 6 feat_reg0 \<or>
             rp_num_wps p = 0 \<or> ucast (rp_num_wps p) > EXTRACT 20 6 feat_reg0 then returnM False
     else if EXTRACT 1 1 (rp_flags p) = RMI_FEATURE_TRUE \<and>
             (EXTRACT 9 1 feat_reg0 = RMI_FEATURE_FALSE \<or> ucast (rp_sve_vl p) > EXTRACT 10 4 feat_reg0) then returnM False
     else if EXTRACT 2 1 (rp_flags p) = RMI_FEATURE_TRUE \<and>
             (ucast (rp_pmu_num_ctrs p) > EXTRACT 27 5 feat_reg0 \<or>
              rp_pmu_num_ctrs p = 0 \<and> \<not> is_feat_hpmn0_present cpu) then returnM False
     else bindM (validate_ipa_bits_and_sl cpu (rp_s2sz p) (rp_rtt_level_start p) (is_lpa2_requested p)) (\<lambda>valid.
       if \<not> valid then returnM False
       else if s2_num_root_rtts (rp_s2sz p) (rp_rtt_level_start p) \<noteq> rp_rtt_num_start p then returnM False
       else returnM (rp_algorithm p = RMI_HASH_SHA_256 \<or> rp_algorithm p = RMI_HASH_SHA_512)))"

definition reserve_vmid :: "u32 \<Rightarrow> (rmm, bool) M" where
  "reserve_vmid v = (\<lambda>s. let (r, m) = vmid_reserve (feat_vmid16 s) v (vmids s) in Inr (r, s\<lparr>vmids := m\<rparr>))"

definition free_vmid :: "u32 \<Rightarrow> (rmm, unit) M" where
  "free_vmid v = (\<lambda>s. case vmid_free (feat_vmid16 s) v (vmids s) of Inl e \<Rightarrow> Inl e | Inr m \<Rightarrow> Inr ((), s\<lparr>vmids := m\<rparr>))"

definition validate_realm_params :: "cpu_regs \<Rightarrow> rmi_realm_params \<Rightarrow> (rmm, bool) M" where
  "validate_realm_params cpu p =
    bindM (get_feature_register_0 cpu) (\<lambda>feat_reg0.
    bindM (check_realm_params cpu feat_reg0 p) (\<lambda>valid.
    if \<not> valid then returnM False else reserve_vmid (ucast (rp_vmid p))))"

section \<open>The starting level tables\<close>

text \<open>
  The two nested loops: \<open>init_entries\<close> writes the entries of one table and gives the address of the next
  table, or None when the end of the address space has been reached.
\<close>

fun init_entries :: "rd \<Rightarrow> u64 \<Rightarrow> nat \<Rightarrow> nat \<Rightarrow> u64 \<Rightarrow> u64 \<Rightarrow> (rmm, u64 option) M" where
  "init_entries rd sl_entry_map_size g_tbl 0 rtte current_ipa = returnM (Some current_ipa)"
| "init_entries rd sl_entry_map_size g_tbl (Suc k) rtte current_ipa =
    thenM (s2tte_write g_tbl rtte
      (if addr_in_par rd current_ipa then s2tte_create_unassigned_empty else s2tte_create_unassigned_ns))
    (let current_ipa' = current_ipa + sl_entry_map_size
     in if current_ipa' = realm_ipa_size rd then returnM None
        else init_entries rd sl_entry_map_size g_tbl k (rtte + 1) current_ipa')"

fun init_tables :: "rd \<Rightarrow> u64 \<Rightarrow> nat \<Rightarrow> nat \<Rightarrow> nat \<Rightarrow> u64 \<Rightarrow> (rmm, unit) M" where
  "init_tables rd sl_entry_map_size s2ttes_per_s2tt g_tbl 0 current_ipa = failM Assert_Fail"
| "init_tables rd sl_entry_map_size s2ttes_per_s2tt g_tbl (Suc k) current_ipa =
    thenM (map_slot (Some g_tbl) SLOT_RTT)
    (bindM (init_entries rd sl_entry_map_size g_tbl s2ttes_per_s2tt 0 current_ipa) (\<lambda>rest.
     thenM (buffer_unmap SLOT_RTT)
     (case rest of
        None \<Rightarrow> returnM ()
      | Some current_ipa' \<Rightarrow> init_tables rd sl_entry_map_size s2ttes_per_s2tt (Suc g_tbl) k current_ipa')))"

definition init_s2_starting_level :: "rd \<Rightarrow> (rmm, unit) M" where
  "init_s2_starting_level rd =
    (let s2_ctx = rd_s2_ctx rd;
         s2ttes_per_s2tt = (if s2_starting_level s2_ctx = S2TT_MIN_STARTING_LEVEL_LPA2 then S2TTES_PER_S2TT_LM1 else S2TTES_PER_S2TT);
         levels = word_of_int (S2TT_PAGE_LEVEL - s2_starting_level s2_ctx) :: u32;
         sl_entry_map_size = push_bit (unat (levels * 9 + 12)) 1
     in init_tables rd sl_entry_map_size s2ttes_per_s2tt (the (g_rtt s2_ctx)) (unat (num_root_rtts s2_ctx)) 0)"

section \<open>Creation\<close>

text \<open>
  \<open>lock_rtts\<close> is the loop over the starting level tables: the number of granules that are locked
  after it and whether it reached the end. \<open>unlock_rtts\<close> is the loop of the error path.
\<close>

fun lock_rtts :: "u64 \<Rightarrow> nat option \<Rightarrow> nat \<Rightarrow> nat \<Rightarrow> (rmm, bool \<times> nat \<times> nat option) M" where
  "lock_rtts rtt_base_addr g_rtt_base i 0 = returnM (True, i, g_rtt_base)"
| "lock_rtts rtt_base_addr g_rtt_base i (Suc k) =
    (let rtt_addr = rtt_base_addr + of_nat i * GRANULE_SIZE
     in bindM (find_lock_granule rtt_addr GRANULE_STATE_DELEGATED) (\<lambda>g_tbl.
        (case g_tbl of
           None \<Rightarrow> returnM (False, i, g_rtt_base)
         | Some g \<Rightarrow> lock_rtts rtt_base_addr (if i = 0 then g_tbl else g_rtt_base) (Suc i) k)))"

fun unlock_rtts :: "nat \<Rightarrow> nat \<Rightarrow> (rmm, unit) M" where
  "unlock_rtts g_rtt_base 0 = returnM ()"
| "unlock_rtts g_rtt_base (Suc i) = thenM (granule_unlock (g_rtt_base + i)) (unlock_rtts g_rtt_base i)"

definition rd_lock_error :: "nat option \<Rightarrow> nat option \<Rightarrow> nat \<Rightarrow> (rmm, (nat \<times> nat) option) M" where
  "rd_lock_error g_rd g_rtt_base i =
    thenM (unlock_rtts (the g_rtt_base) i)
    (thenM (case g_rd of None \<Rightarrow> returnM () | Some g \<Rightarrow> granule_unlock g)
     (returnM None))"

definition find_lock_rd_granules :: "u64 \<Rightarrow> u64 \<Rightarrow> nat \<Rightarrow> (rmm, (nat \<times> nat) option) M" where
  "find_lock_rd_granules rd_addr rtt_base_addr num_rtts =
    bindM (if rd_addr < rtt_base_addr then find_lock_granule rd_addr GRANULE_STATE_DELEGATED else returnM None) (\<lambda>g_rd.
    if rd_addr < rtt_base_addr \<and> g_rd = None then rd_lock_error None None 0
    else bindM (lock_rtts rtt_base_addr None 0 num_rtts) (\<lambda>(ok, i, g_rtt_base).
      if \<not> ok then rd_lock_error g_rd g_rtt_base i
      else bindM (if g_rd = None then find_lock_granule rd_addr GRANULE_STATE_DELEGATED else returnM g_rd) (\<lambda>g_rd'.
        (case g_rd' of
           None \<Rightarrow> rd_lock_error None g_rtt_base i
         | Some g \<Rightarrow> returnM (Some (g, the g_rtt_base))))))"

fun transition_rtts :: "nat \<Rightarrow> nat \<Rightarrow> (rmm, unit) M" where
  "transition_rtts g 0 = returnM ()"
| "transition_rtts g (Suc k) = thenM (granule_unlock_transition g GRANULE_STATE_RTT) (transition_rtts (Suc g) k)"

text \<open>The fields of the new descriptor; the rest of the zeroed granule is left alone.\<close>

definition init_rd :: "rmi_realm_params \<Rightarrow> nat option \<Rightarrow> rd \<Rightarrow> rd" where
  "init_rd p rtt rd =
    (let sve = EXTRACT 1 1 (rp_flags p) \<noteq> 0;
         simd = (rd_simd_cfg rd)\<lparr>sve_en := sve\<rparr>
     in rd\<lparr>rd_state := REALM_NEW, rec_count := 0,
           rd_s2_ctx := (rd_s2_ctx rd)\<lparr>g_rtt := rtt, ipa_bits := rp_s2sz p, s2_starting_level := rp_rtt_level_start p,
             num_root_rtts := rp_rtt_num_start p, enable_lpa2 := is_lpa2_requested p, vmid := ucast (rp_vmid p)\<rparr>,
           rpv := rp_rpv p,
           rd_num_rec_aux := of_nat MAX_REC_AUX_GRANULES,
           rd_simd_cfg := (if sve then simd\<lparr>sve_vq := rp_sve_vl p\<rparr> else simd),
           rd_algorithm := (if rp_algorithm p = RMI_HASH_SHA_256 then HASH_SHA_256 else HASH_SHA_512),
           rd_pmu_enabled := EXTRACT 2 1 (rp_flags p) \<noteq> 0,
           rd_pmu_num_ctrs := rp_pmu_num_ctrs p\<rparr>)"

definition measure_params :: "(hash_algo \<Rightarrow> u8 list \<Rightarrow> u8 list) \<Rightarrow> nat \<Rightarrow> rmi_realm_params \<Rightarrow> (rmm, unit) M" where
  "measure_params hash g_rd p =
    bindM (read_rd g_rd) (\<lambda>rd.
    write_rd g_rd (rd\<lparr>measurement := (measurement rd)[RIM_MEASUREMENT_SLOT :=
      measurement_realm_params_measure hash (measurement rd ! RIM_MEASUREMENT_SLOT) (rd_algorithm rd) p]\<rparr>))"

text \<open>The part of the command that has the granules locked.\<close>

definition create_realm :: "(hash_algo \<Rightarrow> u8 list \<Rightarrow> u8 list) \<Rightarrow> rmi_realm_params \<Rightarrow> nat \<Rightarrow> nat \<Rightarrow> (rmm, u64) M" where
  "create_realm hash p g_rd g_rtt_base =
    thenM (map_slot (Some g_rd) SLOT_RD)
    (bindM (find_granule (rp_rtt_base p)) (\<lambda>rtt.
     bindM (read_rd g_rd) (\<lambda>rd.
     thenM (write_rd g_rd (init_rd p rtt rd))
     (thenM (init_s2_starting_level (init_rd p rtt rd))
     (thenM (measure_params hash g_rd p)
     (thenM (buffer_unmap SLOT_RD)
     (thenM (granule_unlock_transition g_rd GRANULE_STATE_RD)
     (thenM (transition_rtts g_rtt_base (unat (rp_rtt_num_start p)))
      (returnM RMI_SUCCESS)))))))))"

definition smc_realm_create ::
  "(hash_algo \<Rightarrow> u8 list \<Rightarrow> u8 list) \<Rightarrow> cpu_regs \<Rightarrow> (nat \<Rightarrow> rmi_realm_params \<times> bool) \<Rightarrow> u64 \<Rightarrow> u64 \<Rightarrow> (rmm, u64) M" where
  "smc_realm_create hash cpu ns_params rd_addr realm_params_addr =
    bindM (get_realm_params ns_params realm_params_addr) (\<lambda>params.
    (case params of
       None \<Rightarrow> returnM RMI_ERROR_INPUT
     | Some p \<Rightarrow>
     bindM (validate_realm_params cpu p) (\<lambda>valid.
     if \<not> valid then returnM RMI_ERROR_INPUT
     else if addr_is_contained (rp_rtt_base p) (rp_rtt_base p + ucast (rp_rtt_num_start p) * GRANULE_SIZE) rd_addr
     then thenM (free_vmid (ucast (rp_vmid p))) (returnM RMI_ERROR_INPUT)
     else bindM (find_lock_rd_granules rd_addr (rp_rtt_base p) (unat (rp_rtt_num_start p))) (\<lambda>locked.
       (case locked of
          None \<Rightarrow> thenM (free_vmid (ucast (rp_vmid p))) (returnM RMI_ERROR_INPUT)
        | Some (g_rd, g_rtt_base) \<Rightarrow> create_realm hash p g_rd g_rtt_base)))))"

section \<open>Destruction\<close>

fun free_sl_rtts :: "nat \<Rightarrow> nat \<Rightarrow> (rmm, unit) M" where
  "free_sl_rtts g 0 = returnM ()"
| "free_sl_rtts g (Suc k) =
    thenM (granule_lock g GRANULE_STATE_RTT)
    (thenM (buffer_granule_memzero g SLOT_RTT)
    (thenM (granule_unlock_transition g GRANULE_STATE_DELEGATED)
     (free_sl_rtts (Suc g) k)))"

fun root_refcount_loop :: "nat \<Rightarrow> nat \<Rightarrow> u64 \<Rightarrow> (rmm, u64) M" where
  "root_refcount_loop g 0 refcount = returnM refcount"
| "root_refcount_loop g (Suc k) refcount =
    thenM (granule_lock g GRANULE_STATE_RTT)
    (bindM (granule_refcount_read g) (\<lambda>rc.
     thenM (granule_unlock g)
     (root_refcount_loop (Suc g) k (refcount + ucast rc))))"

definition total_root_rtt_refcount :: "nat \<Rightarrow> nat \<Rightarrow> (rmm, u64) M" where
  "total_root_rtt_refcount rtt num_rtts = root_refcount_loop rtt num_rtts 0"

definition smc_realm_destroy :: "u64 \<Rightarrow> (rmm, u64) M" where
  "smc_realm_destroy rd_addr =
    bindM (find_lock_unused_granule rd_addr GRANULE_STATE_RD) (\<lambda>res.
    (case res of
       EINVAL \<Rightarrow> returnM RMI_ERROR_INPUT
     | EBUSY \<Rightarrow> returnM RMI_ERROR_REALM
     | Unused g_rd \<Rightarrow>
     thenM (map_slot (Some g_rd) SLOT_RD)
     (bindM (read_rd g_rd) (\<lambda>rd.
      (let rtt = the (g_rtt (rd_s2_ctx rd)); num_rtts = unat (num_root_rtts (rd_s2_ctx rd))
       in bindM (total_root_rtt_refcount rtt num_rtts) (\<lambda>refcount.
          if refcount \<noteq> 0 then
            thenM (buffer_unmap SLOT_RD)
            (thenM (granule_unlock g_rd)
             (returnM RMI_ERROR_REALM))
          else
            thenM (free_vmid (vmid (rd_s2_ctx rd)))
            (thenM (buffer_unmap SLOT_RD)
            (thenM (free_sl_rtts rtt num_rtts)
            (thenM (buffer_granule_memzero g_rd SLOT_RD)
            (thenM (granule_unlock_transition g_rd GRANULE_STATE_DELEGATED)
             (returnM RMI_SUCCESS)))))))))))"

end
