(* ===== verification/Rmi_Rec.thy ===== *)
theory Rmi_Rec
  imports Arch Rmi_Realm
begin

text \<open>
  Realm execution contexts: RMI\_REC\_CREATE, RMI\_REC\_DESTROY and RMI\_REC\_AUX\_COUNT (\<^verbatim>\<open>runtime/rmi/rec.c\<close>) and the
  initialisation of the SIMD context (\<^verbatim>\<open>lib/arch/src/simd.c\<close>). The parameters that the host passes in non-secure memory are an
  argument, as for the creation of a realm. The pointers into the auxiliary granules are not part of the
  model; the SIMD context is the content of the auxiliary granule that it is placed in.
\<close>

section \<open>System registers\<close>

definition init_rec_sysregs :: "rec_data \<Rightarrow> u64 \<Rightarrow> rec_data" where
  "init_rec_sysregs rec rec_mpidr =
    rec\<lparr>rec_sysregs := (rec_sysregs rec)\<lparr>
      sys_pmcr_el0 := (if ri_pmu_enabled (rec_realm_info rec) then PMCR_EL0_INIT_RESET else PMCR_EL0_INIT),
      sys_sctlr_el1 := SCTLR_EL1_FLAGS,
      sys_mdscr_el1 := MDSCR_EL1_TDCC_BIT,
      sys_vmpidr_el2 := rec_mpidr_to_mpidr rec_mpidr OR VMPIDR_EL2_RES1,
      sys_cnthctl_el2 := CNTHCTL_EL2_NO_TRAPS,
      sys_cptr_el2 := CPTR_EL2_VHE_INIT\<rparr>\<rparr>"

definition sl0_val :: "u64 list" where
  "sl0_val = [VTCR_SL0_4K_LM1, VTCR_SL0_4K_L0, VTCR_SL0_4K_L1, VTCR_SL0_4K_L2, VTCR_SL0_4K_L3]"

definition realm_vtcr_ps :: "u32 \<Rightarrow> u64" where
  "realm_vtcr_ps parange =
    (if parange = 36 then INPLACE 16 1 else if parange = 40 then INPLACE 16 2 else if parange = 42 then INPLACE 16 3
     else if parange = 44 then INPLACE 16 4 else if parange = 48 then INPLACE 16 5 else if parange = 52 then INPLACE 16 6
     else INPLACE 16 0)"

definition realm_vtcr :: "cpu_regs \<Rightarrow> rd \<Rightarrow> (rmm, u64) M" where
  "realm_vtcr cpu rd =
    bindM (getM feat_vmid16) (\<lambda>vmid16.
    bindM (arch_feat_get_pa_width cpu) (\<lambda>parange.
    (let sl = realm_rtt_starting_level rd; lpa2 = enable_lpa2 (rd_s2_ctx rd)
     in thenM (assertM (\<not> lpa2 \<and> sl \<ge> S2TT_MIN_STARTING_LEVEL \<or> lpa2 \<and> sl \<ge> S2TT_MIN_STARTING_LEVEL_LPA2))
       (thenM (assertM (sl \<le> S2TT_PAGE_LEVEL))
        (let sl0 = sl0_val ! nat (sl + 1);
             t0sz = (64 - of_nat (realm_ipa_bits rd)) AND MASK 0 6;
             vtcr = (if vmid16 then VTCR_FLAGS OR VTCR_VS else VTCR_FLAGS) OR t0sz OR sl0 OR realm_vtcr_ps parange
         in returnM (if lpa2 then (if sl = - 1 then vtcr OR VCTR_SL2_4K_LM1 else vtcr) OR VTCR_DS_52BIT else vtcr))))))"

text \<open>The registers with the value of VTCR\_EL2 and the address of the starting level table.\<close>

definition common_sysregs :: "cpu_regs \<Rightarrow> rd \<Rightarrow> u64 \<Rightarrow> u64 \<Rightarrow> common_sysreg_state" where
  "common_sysregs cpu rd vtcr rtt =
    (let vttbr = rtt AND MASK 1 47;
         vttbr = (if enable_lpa2 (rd_s2_ctx rd) then (vttbr AND NOT (MASK 2 4)) OR INPLACE 2 (EXTRACT 48 4 rtt) else vttbr);
         mdcr = (if rd_pmu_enabled rd
                 then ((mdcr_el2 cpu AND NOT (MDCR_EL2_TPM_BIT OR MDCR_EL2_TPMCR_BIT)) AND NOT (MASK 0 5)) OR INPLACE 0 (ucast (rd_pmu_num_ctrs rd))
                 else mdcr_el2 cpu OR (MDCR_EL2_TPM_BIT OR MDCR_EL2_TPMCR_BIT))
     in \<lparr>com_vttbr_el2 = vttbr OR INPLACE 48 (ucast (vmid (rd_s2_ctx rd))), com_vtcr_el2 = vtcr, com_hcr_el2 = HCR_REALM_FLAGS,
          com_mdcr_el2 = mdcr\<rparr>)"

definition init_common_sysregs :: "cpu_regs \<Rightarrow> rec_data \<Rightarrow> rd \<Rightarrow> (rmm, rec_data) M" where
  "init_common_sysregs cpu rec rd =
    bindM (realm_vtcr cpu rd) (\<lambda>vtcr.
    bindM (granule_addr (g_rtt (rd_s2_ctx rd))) (\<lambda>rtt.
    returnM (rec\<lparr>rec_common_sysregs := common_sysregs cpu rd vtcr rtt\<rparr>)))"

definition REC_CREATE_NR_GPRS :: nat where "REC_CREATE_NR_GPRS = 8"

definition init_rec_regs :: "cpu_regs \<Rightarrow> rec_data \<Rightarrow> rmi_rec_params \<Rightarrow> rd \<Rightarrow> (rmm, rec_data) M" where
  "init_rec_regs cpu rec p rd =
    (let rec' = rec\<lparr>rec_regs := take REC_CREATE_NR_GPRS (pp_gprs p) @ drop REC_CREATE_NR_GPRS (rec_regs rec), rec_pc := pp_pc p,
           rec_pstate := calc_pstate\<rparr>
     in init_common_sysregs cpu (init_rec_sysregs rec' (pp_mpidr p)) rd)"

section \<open>SIMD contexts\<close>

definition SIMD_TFLAG_SVE :: u32 where "SIMD_TFLAG_SVE = 1"
definition SIMD_TFLAG_SME :: u32 where "SIMD_TFLAG_SME = 2"
definition SIMD_SFLAG_INIT_DONE :: u32 where "SIMD_SFLAG_INIT_DONE = 1"
definition SIMD_SFLAG_SAVED :: u32 where "SIMD_SFLAG_SAVED = 2"

definition SIMD_ENABLE_CPTR_FLAGS :: "simd_config \<Rightarrow> u64 \<Rightarrow> u64" where
  "SIMD_ENABLE_CPTR_FLAGS cfg cptr =
    (let v = (cptr AND NOT CPTR_EL2_VHE_SIMD_MASK) OR INPLACE 20 3;
         v = (if sve_en cfg then v OR INPLACE 16 3 else v)
     in if sme_en cfg then v OR INPLACE 24 3 else v)"

definition validate_simd_config :: "cpu_regs \<Rightarrow> simd_config \<Rightarrow> bool" where
  "validate_simd_config cpu cfg \<longleftrightarrow>
    \<not> (sve_en cfg \<and> (\<not> sve_en (cpu_simd_cfg cpu) \<or> sve_vq cfg > sve_vq (cpu_simd_cfg cpu))) \<and>
    \<not> (sme_en cfg \<and> \<not> sme_en (cpu_simd_cfg cpu))"

text \<open>The initialisation of the library itself (\<^verbatim>\<open>g_simd_init_done\<close>) is done at boot. The result is nothing for an error.\<close>

definition simd_context_init :: "cpu_regs \<Rightarrow> simd_owner \<Rightarrow> simd_context \<Rightarrow> simd_config \<Rightarrow> simd_context option" where
  "simd_context_init cpu owner ctx cfg =
    (if simd_sflags ctx AND SIMD_SFLAG_INIT_DONE \<noteq> 0 then None
     else if owner \<noteq> SIMD_OWNER_REL1 \<and> owner \<noteq> SIMD_OWNER_NWD then None
     else if \<not> validate_simd_config cpu cfg then None
     else (let c = ctx\<lparr>simd_owner_of := owner,
                 simd_sflags := (if owner = SIMD_OWNER_REL1 then simd_sflags ctx OR SIMD_SFLAG_SAVED else simd_sflags ctx AND NOT SIMD_SFLAG_SAVED),
                 simd_cptr_el2 := SIMD_ENABLE_CPTR_FLAGS cfg CPTR_EL2_VHE_INIT\<rparr>;
               c = (if sve_en cfg then c\<lparr>simd_tflags := simd_tflags c OR SIMD_TFLAG_SVE, simd_zcr_el2 := INPLACE 0 (ucast (sve_vq cfg))\<rparr> else c);
               c = (if sme_en cfg then c\<lparr>simd_tflags := simd_tflags c OR SIMD_TFLAG_SME, simd_svcr := 0\<rparr> else c)
           in Some (c\<lparr>simd_sflags := simd_sflags c OR SIMD_SFLAG_INIT_DONE\<rparr>)))"

section \<open>Auxiliary granules\<close>

definition REC_HEAP_PAGES :: nat where "REC_HEAP_PAGES = 2"
definition REC_PMU_PAGES :: nat where "REC_PMU_PAGES = 1"
definition REC_NUM_PAGES :: u32 where "REC_NUM_PAGES = 2 + 1 + 3 + 1 + 1"

fun free_rec_aux_granules :: "nat \<Rightarrow> nat list \<Rightarrow> bool \<Rightarrow> (rmm, unit) M" where
  "free_rec_aux_granules i [] scrub = returnM ()"
| "free_rec_aux_granules i (g # gs) scrub =
    thenM (granule_lock g GRANULE_STATE_REC_AUX)
    (thenM (if scrub then buffer_granule_memzero g (SLOT_REC_AUX0 + i) else returnM ())
    (thenM (granule_unlock_transition g GRANULE_STATE_DELEGATED)
     (free_rec_aux_granules (Suc i) gs scrub)))"

fun unlock_all :: "nat list \<Rightarrow> (rmm, unit) M" where
  "unlock_all [] = returnM ()"
| "unlock_all (g # gs) = thenM (granule_unlock g) (unlock_all gs)"

text \<open>The loop that claims the auxiliary granules; \<open>done\<close> are those claimed so far.\<close>

fun claim_aux :: "u64 list \<Rightarrow> nat list \<Rightarrow> (rmm, nat list option) M" where
  "claim_aux [] done = returnM (Some done)"
| "claim_aux (addr # addrs) done =
    bindM (find_lock_granule addr GRANULE_STATE_DELEGATED) (\<lambda>locked.
    (case locked of
       None \<Rightarrow>
         thenM (unlock_all done)
         (thenM (free_rec_aux_granules 0 done False)
          (returnM None))
     | Some g \<Rightarrow>
         thenM (granule_unlock_transition g GRANULE_STATE_REC_AUX)
         (claim_aux addrs (done @ [g]))))"

fun map_aux :: "nat \<Rightarrow> nat list \<Rightarrow> (rmm, unit) M" where
  "map_aux slot [] = returnM ()"
| "map_aux slot (g # gs) = thenM (map_slot (Some g) slot) (map_aux (Suc slot) gs)"

definition buffer_aux_granules_map :: "nat list \<Rightarrow> (rmm, unit) M" where
  "buffer_aux_granules_map gs = thenM (assertM (length gs \<le> MAX_REC_AUX_GRANULES)) (map_aux SLOT_REC_AUX0 gs)"

fun unmap_aux :: "nat \<Rightarrow> nat \<Rightarrow> (rmm, unit) M" where
  "unmap_aux slot 0 = returnM ()"
| "unmap_aux slot (Suc n) = thenM (buffer_unmap slot) (unmap_aux (Suc slot) n)"

definition buffer_aux_unmap :: "nat \<Rightarrow> (rmm, unit) M" where
  "buffer_aux_unmap n = thenM (assertM (n \<le> MAX_REC_AUX_GRANULES)) (unmap_aux SLOT_REC_AUX0 n)"

text \<open>The SIMD context comes after the heap and the PMU state. A null pointer for no granule at all fails the assertion.\<close>

definition rec_simd_state_init :: "cpu_regs \<Rightarrow> nat \<Rightarrow> simd_config \<Rightarrow> (rmm, unit) M" where
  "rec_simd_state_init cpu g cfg =
    bindM (getM (\<lambda>s. d_simd (mem s g))) (\<lambda>ctx.
    (case simd_context_init cpu SIMD_OWNER_REL1 ctx cfg of
       None \<Rightarrow> failM Assert_Fail
     | Some ctx' \<Rightarrow> modifyM (upd_mem g (\<lambda>d. d\<lparr>d_simd := ctx'\<rparr>))))"

text \<open>The array of auxiliary granules; a null pointer in it is a fault.\<close>

definition g_aux_of :: "rec_data \<Rightarrow> (rmm, nat list) M" where
  "g_aux_of r = (case those (take (unat (rec_num_aux r)) (rec_g_aux r)) of None \<Rightarrow> failM Assert_Fail | Some gs \<Rightarrow> returnM gs)"

definition rec_aux_granules_init :: "cpu_regs \<Rightarrow> rec_data \<Rightarrow> (rmm, unit) M" where
  "rec_aux_granules_init cpu r =
    bindM (g_aux_of r) (\<lambda>gs.
       thenM (buffer_aux_granules_map gs)
       (thenM (assertM (gs \<noteq> []))
       (thenM (assertM (rec_num_aux r \<ge> REC_NUM_PAGES))
       (thenM (rec_simd_state_init cpu (gs ! (REC_HEAP_PAGES + REC_PMU_PAGES)) (ri_simd_cfg (rec_realm_info r)))
        (buffer_aux_unmap (unat (rec_num_aux r)))))))"

section \<open>Creation\<close>

definition REC_PARAMS_FLAG_RUNNABLE :: u64 where "REC_PARAMS_FLAG_RUNNABLE = 1"

text \<open>The execution context but for the registers that are set up with the realm descriptor.\<close>

definition rec_fields :: "nat \<Rightarrow> nat \<Rightarrow> u64 \<Rightarrow> nat list \<Rightarrow> rmi_rec_params \<Rightarrow> rd \<Rightarrow> rec_data \<Rightarrow> rec_data" where
  "rec_fields g_rec g_rd idx aux p rd rec =
    rec\<lparr>rec_sysregs := (rec_sysregs rec)\<lparr>sys_gicstate := gic_cpu_state_init (sys_gicstate (rec_sysregs rec))\<rparr>,
        rec_g_aux := map Some aux @ drop (length aux) (rec_g_aux rec), rec_num_aux := of_nat (length aux),
        rec_realm_info := \<lparr>ri_g_rd = Some g_rd, ri_pmu_enabled = rd_pmu_enabled rd, ri_pmu_num_ctrs = rd_pmu_num_ctrs rd,
          ri_algorithm = rd_algorithm rd, ri_simd_cfg = rd_simd_cfg rd, ri_s2_ctx = rd_s2_ctx rd\<rparr>,
        rec_runnable := pp_flags p AND REC_PARAMS_FLAG_RUNNABLE \<noteq> 0\<rparr>"

definition measure_rec :: "(hash_algo \<Rightarrow> u8 list \<Rightarrow> u8 list) \<Rightarrow> nat \<Rightarrow> rd \<Rightarrow> bool \<Rightarrow> rmi_rec_params \<Rightarrow> (rmm, unit) M" where
  "measure_rec hash g_rd rd runnable p =
    (if runnable
     then write_rd g_rd (rd\<lparr>measurement := (measurement rd)[RIM_MEASUREMENT_SLOT :=
       measurement_rec_params_measure hash (measurement rd ! RIM_MEASUREMENT_SLOT) (rd_algorithm rd) p]\<rparr>)
     else returnM ())"

text \<open>The part of the command that has the realm descriptor and the new granule locked and mapped.\<close>

definition create_rec ::
  "(hash_algo \<Rightarrow> u8 list \<Rightarrow> u8 list) \<Rightarrow> cpu_regs \<Rightarrow> rmi_rec_params \<Rightarrow> nat list \<Rightarrow> nat \<Rightarrow> nat \<Rightarrow> (rmm, u64 \<times> u8) M" where
  "create_rec hash cpu p aux g_rec g_rd =
    bindM (read_rd g_rd) (\<lambda>rd.
    if rd_state rd \<noteq> REALM_NEW then returnM (RMI_ERROR_REALM, GRANULE_STATE_DELEGATED)
    else (let idx = rec_count rd in
      if \<not> rec_mpidr_is_valid (pp_mpidr p) \<or> idx \<noteq> rec_mpidr_to_idx (pp_mpidr p)
      then returnM (RMI_ERROR_INPUT, GRANULE_STATE_DELEGATED)
      else if of_nat (length aux) \<noteq> rd_num_rec_aux rd then returnM (RMI_ERROR_INPUT, GRANULE_STATE_DELEGATED)
      else bindM (read_rec g_rec) (\<lambda>rec.
        bindM (init_rec_regs cpu (rec\<lparr>rec_g_rec := Some g_rec, rec_idx := idx\<rparr>) p rd) (\<lambda>rec'.
        (let rec'' = rec_fields g_rec g_rd idx aux p rd rec' in
         thenM (write_rec g_rec rec'')
         (thenM (measure_rec hash g_rd rd (rec_runnable rec'') p)
         (thenM (atomic_granule_get g_rd)
         (thenM (rec_aux_granules_init cpu rec'')
         (bindM (read_rd g_rd) (\<lambda>rd'.
          thenM (write_rd g_rd (rd'\<lparr>rec_count := idx + 1\<rparr>))
          (returnM (RMI_SUCCESS, GRANULE_STATE_REC))))))))))))"

text \<open>The part of the command after the auxiliary granules have been claimed.\<close>

definition create_rec_locked ::
  "(hash_algo \<Rightarrow> u8 list \<Rightarrow> u8 list) \<Rightarrow> cpu_regs \<Rightarrow> rmi_rec_params \<Rightarrow> nat list \<Rightarrow> u64 \<Rightarrow> u64 \<Rightarrow> (rmm, u64) M" where
  "create_rec_locked hash cpu p aux rd_addr rec_addr =
    bindM (find_lock_two_granules rec_addr GRANULE_STATE_DELEGATED rd_addr GRANULE_STATE_RD) (\<lambda>locked.
    (case locked of
       None \<Rightarrow> returnM RMI_ERROR_INPUT
     | Some (g_rec, g_rd) \<Rightarrow>
     bindM (granule_refcount_read g_rd) (\<lambda>refcount.
     bindM
      (if refcount = REFCOUNT_MAX then returnM (RMI_ERROR_REALM, GRANULE_STATE_DELEGATED)
       else
         thenM (map_slot (Some g_rec) SLOT_REC)
         (thenM (map_slot (Some g_rd) SLOT_RD)
         (bindM (create_rec hash cpu p aux g_rec g_rd) (\<lambda>result.
          thenM (buffer_unmap SLOT_RD)
          (thenM (buffer_unmap SLOT_REC)
           (returnM result))))))
      (\<lambda>(ret, new_rec_state).
     thenM (granule_unlock g_rd)
     (thenM (granule_unlock_transition g_rec new_rec_state)
      (returnM ret))))))"

definition smc_rec_create ::
  "(hash_algo \<Rightarrow> u8 list \<Rightarrow> u8 list) \<Rightarrow> cpu_regs \<Rightarrow> (nat \<Rightarrow> rmi_rec_params \<times> bool) \<Rightarrow> u64 \<Rightarrow> u64 \<Rightarrow> u64 \<Rightarrow> (rmm, u64) M" where
  "smc_rec_create hash cpu ns_params rd_addr rec_addr rec_params_addr =
    bindM (find_granule rec_params_addr) (\<lambda>g_rec_params.
    (case g_rec_params of
       None \<Rightarrow> returnM RMI_ERROR_INPUT
     | Some gp \<Rightarrow>
     bindM (granule_unlocked_state gp) (\<lambda>st.
     if st \<noteq> GRANULE_STATE_NS then returnM RMI_ERROR_INPUT
     else bindM (ns_read_params ns_params SLOT_NS gp) (\<lambda>params.
     (case params of
        None \<Rightarrow> returnM RMI_ERROR_INPUT
      | Some p \<Rightarrow>
      (let num_rec_aux = unat (ucast (pp_num_aux p) :: u32) in
       if num_rec_aux > MAX_REC_AUX_GRANULES then returnM RMI_ERROR_INPUT
       else bindM (claim_aux (take num_rec_aux (pp_aux p)) []) (\<lambda>claimed.
        (case claimed of
           None \<Rightarrow> returnM RMI_ERROR_INPUT
         | Some aux \<Rightarrow>
         bindM (create_rec_locked hash cpu p aux rd_addr rec_addr) (\<lambda>ret.
         thenM (if ret \<noteq> RMI_SUCCESS then free_rec_aux_granules 0 aux False else returnM ())
         (returnM ret))))))))))"

section \<open>Destruction\<close>

definition smc_rec_destroy :: "u64 \<Rightarrow> (rmm, u64) M" where
  "smc_rec_destroy rec_addr =
    bindM (find_lock_unused_granule rec_addr GRANULE_STATE_REC) (\<lambda>res.
    (case res of
       EINVAL \<Rightarrow> returnM RMI_ERROR_INPUT
     | EBUSY \<Rightarrow> returnM RMI_ERROR_REC
     | Unused g_rec \<Rightarrow>
     thenM (map_slot (Some g_rec) SLOT_REC)
     (bindM (read_rec g_rec) (\<lambda>rec.
      bindM (g_aux_of rec) (\<lambda>rec_aux.
      thenM (free_rec_aux_granules 0 rec_aux True)
      (thenM (granule_memzero_mapped g_rec)
      (thenM (buffer_unmap SLOT_REC)
      (thenM (granule_unlock_transition g_rec GRANULE_STATE_DELEGATED)
      (case ri_g_rd (rec_realm_info rec) of
         None \<Rightarrow> failM Assert_Fail
       | Some g_rd \<Rightarrow> thenM (atomic_granule_put_release g_rd) (returnM RMI_SUCCESS))))))))))"

definition smc_rec_aux_count :: "u64 \<Rightarrow> smc_result \<Rightarrow> (rmm, smc_result) M" where
  "smc_rec_aux_count rd_addr res =
    bindM (find_lock_granule rd_addr GRANULE_STATE_RD) (\<lambda>locked.
    (case locked of
       None \<Rightarrow> returnM (res(0 := RMI_ERROR_INPUT))
     | Some g_rd \<Rightarrow>
     thenM (map_slot (Some g_rd) SLOT_RD)
     (bindM (read_rd g_rd) (\<lambda>rd.
      thenM (buffer_unmap SLOT_RD)
      (thenM (granule_unlock g_rd)
       (returnM (res(0 := RMI_SUCCESS, 1 := ucast (rd_num_rec_aux rd)))))))))"

end
