(* ===== verification/Rd_Lock.thy ===== *)
theory Rd_Lock
  imports Rmi_Realm Handler_Lib
begin

text \<open>
  Realm creation locks the granules of the starting level tables one by one and then steps through them by
  incrementing the pointer to the first. Both agree because granules with adjacent addresses are
  adjacent in the granule array, also across the border of two adjacent banks.
\<close>

section \<open>Adjacent granules\<close>

lemma granule_at_bank:
  assumes wf: "wf_dram d" and g: "granule_at d a = Some g"
  obtains j where "in_bank d j a" "unat a mod 4096 = 0"
    "g = unat (start_gran_idx (banks d ! j)) + (unat a - unat (bank_base (banks d ! j))) div 4096"
proof -
  have al: "GRANULE_ALIGNED a" using granule_at_aligned [OF g wf] .
  obtain x where x: "plat_granule_addr_to_idx d a = Inr x" "x < RMM_MAX_GRANULES" "g = unat x"
    using g by (auto simp: granule_at_def split: sum.splits if_splits)
  have "\<exists>j. in_bank d j a"
  proof (rule ccontr)
    assume "\<nexists>j. in_bank d j a"
    then have "x = UINT64_MAX" using wf_addr_to_idx_none [OF wf] x(1) by fastforce
    then show False using x(2) by (simp add: UINT64_MAX_def RMM_MAX_GRANULES_def)
  qed
  then obtain j where j: "in_bank d j a" by blast
  let ?b = "banks d ! j"
  have xe: "x = start_gran_idx ?b + drop_bit 12 (a - bank_base ?b)" using wf_addr_to_idx [OF wf al j] x(1) by simp
  note ig = in_bank_granules [OF wf j]
  have "start_gran_idx ?b \<le> x" using ig(1) unfolding xe in_granules_def by blast
  then have "unat x = unat (start_gran_idx ?b) + unat (x - start_gran_idx ?b)"
    by (simp add: unat_sub word_le_nat_alt)
  moreover have "unat (drop_bit 12 (a - bank_base ?b)) = (unat a - unat (bank_base ?b)) div 4096"
    using j by (simp add: unat_drop_bit unat_sub in_bank_def)
  ultimately have "g = unat (start_gran_idx ?b) + (unat a - unat (bank_base ?b)) div 4096"
    using x(3) xe ig(2) by simp
  then show ?thesis using that j al by (simp add: GRANULE_ALIGNED_unat)
qed

lemma aligned_step: "x mod 4096 = 0 \<Longrightarrow> y mod 4096 = 0 \<Longrightarrow> x < y \<Longrightarrow> x + 4096 \<le> y" for x y :: nat
proof -
  assume "x mod 4096 = 0" "y mod 4096 = 0" "x < y"
  then obtain k l where "x = 4096 * k" "y = 4096 * l" "k < l" by (auto simp: mod_eq_0_iff_dvd elim!: dvdE)
  then show ?thesis using mult_le_mono2 [of "Suc k" l 4096] by simp
qed

lemma add_div_add_4096: "(x + 4096) div 4096 = Suc (x div 4096)" for x :: nat
  by simp

lemma granule_at_next:
  assumes wf: "wf_dram d" and g: "granule_at d a = Some g" and h: "granule_at d (a + GRANULE_SIZE) = Some h"
  shows "h = Suc g"
proof -
  obtain i where i: "in_bank d i a" "unat a mod 4096 = 0"
    "g = unat (start_gran_idx (banks d ! i)) + (unat a - unat (bank_base (banks d ! i))) div 4096"
    by (rule granule_at_bank [OF wf g])
  obtain j where j: "in_bank d j (a + GRANULE_SIZE)"
    "h = unat (start_gran_idx (banks d ! j)) + (unat (a + GRANULE_SIZE) - unat (bank_base (banks d ! j))) div 4096"
    by (rule granule_at_bank [OF wf h])
  have ok: "bank_ok (banks d ! i)" "bank_ok (banks d ! j)" using wf_bank_ok [OF wf] i(1) j(1) by (auto simp: in_bank_def)
  have al: "unat (bank_base (banks d ! k)) mod 4096 = 0" "bank_end (banks d ! k) mod 4096 = 0"
    "bank_end (banks d ! k) < 2 ^ 64" if "bank_ok (banks d ! k)" for k
    using that by (auto simp: bank_ok_def GRANULE_ALIGNED_unat bank_end_def mod_eq_0_iff_dvd)
  have b: "unat (bank_base (banks d ! i)) \<le> unat a" "unat a < bank_end (banks d ! i)"
    using i(1) by (auto simp: in_bank_def word_le_nat_alt)
  have e: "unat a + 4096 \<le> bank_end (banks d ! i)" using aligned_step [OF i(2) al(2) [OF ok(1)] b(2)] .
  then have u: "unat (a + GRANULE_SIZE) = unat a + 4096"
    using al(3) [OF ok(1)] by (subst unat_add_nowrap) (simp_all add: GRANULE_SIZE_def)
  have c: "unat (bank_base (banks d ! j)) \<le> unat a + 4096" "unat a + 4096 < bank_end (banks d ! j)"
    using j(1) u by (auto simp: in_bank_def word_le_nat_alt)
  have nb: "i < unat (num_banks d)" "j < unat (num_banks d)" "unat (num_banks d) \<le> 2"
    using i(1) j(1) wf_num_banks [OF wf] by (auto simp: in_bank_def)
  consider "i = j" | "i < j" | "j < i" by linarith
  then show ?thesis
  proof cases
    case 1
    have "(unat a + 4096 - unat (bank_base (banks d ! i))) div 4096 = Suc ((unat a - unat (bank_base (banks d ! i))) div 4096)"
    proof -
      have "unat a + 4096 - unat (bank_base (banks d ! i)) = unat a - unat (bank_base (banks d ! i)) + 4096"
        using b(1) by (rule diff_add_assoc2)
      then show ?thesis by (simp only: add_div_add_4096)
    qed
    then show ?thesis unfolding i(3) j(2) u 1 [symmetric] by simp
  next
    case 2
    then have ij: "i = 0" "j = Suc 0" using nb by simp_all
    then have s: "bank_end (banks d ! 0) \<le> unat (bank_base (banks d ! 1))"
      "unat (start_gran_idx (banks d ! 1)) = gran_end (banks d ! 0)"
      using wf_banks_sorted [OF wf 2 nb(2)] wf nb ij by (simp, simp add: wf_dram_def)
    then have eq: "unat (bank_base (banks d ! 1)) = unat a + 4096" "bank_end (banks d ! 0) = unat a + 4096"
      using c(1) e ij by simp_all
    then have sz: "unat (bank_size (banks d ! 0)) = unat a - unat (bank_base (banks d ! 0)) + 4096"
      using b ij by (simp add: bank_end_def)
    show ?thesis using i(3) j(2) u ij s(2) eq sz add_div_add_4096
      by (simp add: gran_end_def bank_granules_def)
  next
    case 3
    then show ?thesis using wf_banks_sorted [OF wf 3 nb(1)] b(1) c(2) by simp
  qed
qed

lemma granule_at_plus:
  assumes wf: "wf_dram d" and "granule_at d a = Some g"
    and "\<And>i. i \<le> n \<Longrightarrow> granule_at d (a + of_nat i * GRANULE_SIZE) \<noteq> None"
  shows "granule_at d (a + of_nat n * GRANULE_SIZE) = Some (g + n)"
  using assms(3)
proof (induction n)
  case 0
  then show ?case using assms(2) by simp
next
  case (Suc n)
  then have "granule_at d (a + of_nat n * GRANULE_SIZE) = Some (g + n)" by simp
  moreover have e: "a + of_nat n * GRANULE_SIZE + GRANULE_SIZE = a + of_nat (Suc n) * GRANULE_SIZE"
    by (simp add: distrib_right add.commute add.left_commute)
  moreover obtain h where h: "granule_at d (a + of_nat (Suc n) * GRANULE_SIZE) = Some h" using Suc.prems [of "Suc n"] by blast
  ultimately have "h = Suc (g + n)" using granule_at_next [OF wf, of "a + of_nat n * GRANULE_SIZE" "g + n" h] by metis
  then show ?case using h by simp
qed

section \<open>Locking the granules of a new realm\<close>

text \<open>The granules for the starting level tables, when all of them are delegated.\<close>

definition rtts_delegated :: "rmm \<Rightarrow> u64 \<Rightarrow> nat \<Rightarrow> bool" where
  "rtts_delegated s base n \<longleftrightarrow> (\<forall>i < n. granule_in s (base + of_nat i * GRANULE_SIZE) GRANULE_STATE_DELEGATED \<noteq> None)"

definition rtt_range :: "nat \<Rightarrow> nat \<Rightarrow> nat set" where
  "rtt_range b n = {b..<b + n}"

lemma rtt_range_simps [simp]: "rtt_range b 0 = {}" "h \<in> rtt_range b n \<longleftrightarrow> b \<le> h \<and> h < b + n"
  by (auto simp: rtt_range_def)

lemma rtt_range_Suc: "rtt_range b (Suc n) = insert (b + n) (rtt_range b n)"
  by (auto simp: rtt_range_def)

lemma rtts_delegated_at:
  assumes "rtts_delegated s base n" "j < n"
  shows "granule_at (arm_dram s) (base + of_nat j * GRANULE_SIZE) \<noteq> None"
proof
  assume "granule_at (arm_dram s) (base + of_nat j * GRANULE_SIZE) = None"
  then have "granule_in s (base + of_nat j * GRANULE_SIZE) GRANULE_STATE_DELEGATED = None" by (simp add: granule_in_def)
  then show False using assms by (auto simp: rtts_delegated_def)
qed

lemma rtts_at:
  assumes "wf_dram (arm_dram s)" "rtts_delegated s base n" "granule_at (arm_dram s) base = Some b" "i < n"
  shows "granule_in s (base + of_nat i * GRANULE_SIZE) GRANULE_STATE_DELEGATED = Some (b + i)"
proof -
  have "granule_at (arm_dram s) (base + of_nat j * GRANULE_SIZE) \<noteq> None" if "j \<le> i" for j
    using rtts_delegated_at [OF assms(2)] assms(4) that by simp
  then have "granule_at (arm_dram s) (base + of_nat i * GRANULE_SIZE) = Some (b + i)"
    using granule_at_plus [OF assms(1,3)] by blast
  then show ?thesis using assms(2,4) by (auto simp: rtts_delegated_def granule_in_def split: option.splits if_splits)
qed

definition avoids :: "rmm \<Rightarrow> u64 \<Rightarrow> nat \<Rightarrow> nat set \<Rightarrow> bool" where
  "avoids s base n L \<longleftrightarrow> (\<forall>i < n. \<forall>g. granule_at (arm_dram s) (base + of_nat i * GRANULE_SIZE) = Some g \<longrightarrow> g \<notin> L)"

lemma avoidsD: "avoids s base n L \<Longrightarrow> granule_at (arm_dram s) (base + of_nat i * GRANULE_SIZE) = Some g \<Longrightarrow> i < n \<Longrightarrow> g \<notin> L"
  by (auto simp: avoids_def)

lemma lock_rtts_held:
  assumes idle: "idle s" and b: "granule_at (arm_dram s) base = Some b" and del: "rtts_delegated s base i"
    and L: "avoids s base (i + k) L" and i: "0 < i"
  shows "\<exists>m \<le> k. lock_rtts base (Some b) i k (held (L \<union> rtt_range b i) M s) =
      Inr ((m = k, i + m, Some b), held (L \<union> rtt_range b (i + m)) M s) \<and> rtts_delegated s base (i + m) \<and>
      (m = k \<longleftrightarrow> rtts_delegated s base (i + k))"
  using del L i
proof (induction k arbitrary: i)
  case 0
  then show ?case by (simp add: returnM_def)
next
  case (Suc k)
  let ?a = "base + of_nat i * GRANULE_SIZE"
  note id = idleD [OF idle]
  have lock: "lockable (L \<union> rtt_range b i) s g" if g: "granule_at (arm_dram s) ?a = Some g" for g
  proof -
    have "granule_at (arm_dram s) (base + of_nat j * GRANULE_SIZE) \<noteq> None" if "j \<le> i" for j
      using rtts_delegated_at [OF Suc.prems(1), of j] that g by (cases "j = i") simp_all
    then have "g = b + i" using granule_at_plus [OF id(3) b, of i] g by simp
    moreover have "g \<notin> L" using avoidsD [OF Suc.prems(2) g] by simp
    ultimately show ?thesis by (auto simp: idle_lockable [OF idle])
  qed
  show ?case
  proof (cases "granule_in s ?a GRANULE_STATE_DELEGATED")
    case None
    then have "\<not> rtts_delegated s base (i + Suc k)" by (auto simp: rtts_delegated_def intro!: exI [of _ i])
    then show ?thesis using None Suc.prems(1) lock
      by (intro exI [of _ 0]) (simp add: run_simps find_lock_granule_held id Let_def)
  next
    case (Some g)
    have d: "rtts_delegated s base (Suc i)"
      using Suc.prems(1) Some by (auto simp: rtts_delegated_def less_Suc_eq)
    have g: "g = b + i" using rtts_at [OF id(3) d b, of i] Some by simp
    have e: "insert (b + i) (L \<union> rtt_range b i) = L \<union> rtt_range b (Suc i)" by (simp add: rtt_range_Suc)
    have "avoids s base (Suc i + k) L" using Suc.prems(2) by simp
    from Suc.IH [OF d this zero_less_Suc]
    obtain m where m: "m \<le> k" "lock_rtts base (Some b) (Suc i) k (held (L \<union> rtt_range b (Suc i)) M s) =
      Inr ((m = k, Suc i + m, Some b), held (L \<union> rtt_range b (Suc i + m)) M s)" "rtts_delegated s base (Suc i + m)"
      "m = k \<longleftrightarrow> rtts_delegated s base (Suc i + k)"
      by blast
    have "find_lock_granule ?a GRANULE_STATE_DELEGATED (held (L \<union> rtt_range b i) M s) = Inr (Some g, held (L \<union> rtt_range b (Suc i)) M s)"
      using find_lock_granule_held [OF id(3) lock, where st = GRANULE_STATE_DELEGATED and M = M] Some e g by simp
    then show ?thesis using m Suc.prems(3) by (intro exI [of _ "Suc m"]) (simp add: run_simps Let_def)
  qed
qed

lemma lock_rtts_all:
  assumes idle: "idle s" and n: "0 < n"
    and L: "granule_at (arm_dram s) base \<noteq> None \<Longrightarrow> avoids s base n L"
  shows "\<exists>m b. lock_rtts base None 0 n (held L M s) =
      Inr ((rtts_delegated s base n, m, if m = 0 then None else Some b), held (L \<union> rtt_range b m) M s) \<and>
      (0 < m \<longrightarrow> granule_at (arm_dram s) base = Some b) \<and> rtts_delegated s base m \<and> m \<le> n \<and> (rtts_delegated s base n \<longrightarrow> m = n)"
proof (cases "granule_in s base GRANULE_STATE_DELEGATED")
  case None
  obtain k where k: "n = Suc k" using n by (cases n) simp_all
  have "\<not> rtts_delegated s base n" using None n by (auto simp: rtts_delegated_def)
  moreover have "rtts_delegated s base 0" by (simp add: rtts_delegated_def)
  moreover have "lock_rtts base None 0 n (held L M s) = Inr ((False, 0, None), held L M s)"
    using None avoidsD [OF L, of 0] n unfolding k
    by (auto simp: run_simps find_lock_granule_held idleD [OF idle] idle_lockable [OF idle] Let_def)
  ultimately show ?thesis by (intro exI [of _ 0]) simp
next
  case (Some b)
  obtain k where k: "n = Suc k" using n by (cases n) simp_all
  note id = idleD [OF idle]
  have b: "granule_at (arm_dram s) base = Some b" using granule_inD(1) [OF Some] .
  have d: "rtts_delegated s base 1" using Some by (simp add: rtts_delegated_def)
  have e: "L \<union> rtt_range b 1 = insert b L" using rtt_range_Suc [of b 0] by simp
  have "find_lock_granule base GRANULE_STATE_DELEGATED (held L M s) = Inr (Some b, held (insert b L) M s)"
    using find_lock_granule_held [OF id(3), of base L GRANULE_STATE_DELEGATED M] Some avoidsD [OF L, of 0] n b by (auto simp: idle_lockable [OF idle])
  then have l: "lock_rtts base None 0 n (held L M s) = lock_rtts base (Some b) 1 k (held (L \<union> rtt_range b 1) M s)"
    unfolding k e by (simp add: run_simps Let_def)
  have "avoids s base (1 + k) L" using L k b by simp
  from lock_rtts_held [OF idle b d this zero_less_one, where M = M]
  obtain m where m: "m \<le> k" "lock_rtts base (Some b) 1 k (held (L \<union> rtt_range b 1) M s) =
      Inr ((m = k, 1 + m, Some b), held (L \<union> rtt_range b (1 + m)) M s)" "rtts_delegated s base (1 + m)"
    "m = k \<longleftrightarrow> rtts_delegated s base (1 + k)"
    by blast
  show ?thesis by (rule exI [of _ "Suc m"], rule exI [of _ b]) (use m l b k in simp)
qed

lemma unlock_rtts_held:
  assumes "idle s" "\<And>h. h \<in> rtt_range b n \<Longrightarrow> h \<notin> L"
  shows "unlock_rtts b n (held (L \<union> rtt_range b n) M s) = Inr ((), held L M s)"
  using assms(2)
proof (induction n)
  case 0
  then show ?case by (simp add: run_simps)
next
  case (Suc n)
  have "L \<union> rtt_range b (Suc n) - {b + n} = L \<union> rtt_range b n"
    using Suc.prems [of "b + n"] by (auto simp: rtt_range_Suc)
  then have "granule_unlock (b + n) (held (L \<union> rtt_range b (Suc n)) M s) = Inr ((), held (L \<union> rtt_range b n) M s)"
    using idleD [OF assms(1)] by (simp add: held_simps)
  then show ?case using Suc by (simp add: run_simps)
qed

text \<open>The whole search: both kinds of granules are locked, or none.\<close>

lemma find_lock_rd_granules_run:
  assumes idle: "idle s" and n: "0 < n"
    and out: "\<And>i. i < n \<Longrightarrow> granule_at (arm_dram s) base \<noteq> None \<Longrightarrow> rd_addr \<noteq> base + of_nat i * GRANULE_SIZE"
  shows "find_lock_rd_granules rd_addr base n s =
    (case granule_in s rd_addr GRANULE_STATE_DELEGATED of
       Some g \<Rightarrow> if rtts_delegated s base n
         then Inr (Some (g, the (granule_at (arm_dram s) base)), held (insert g (rtt_range (the (granule_at (arm_dram s) base)) n)) no_slots s)
         else Inr (None, s)
     | None \<Rightarrow> Inr (None, s))"
proof -
  note id = idleD [OF idle] and s0 = held_empty [OF idleD(4) [OF idle]]
  let ?r = "granule_in s rd_addr GRANULE_STATE_DELEGATED"
  have av: "avoids s base n L" if "\<And>g. g \<in> L \<Longrightarrow> granule_at (arm_dram s) rd_addr = Some g" "granule_at (arm_dram s) base \<noteq> None" for L
    unfolding avoids_def using that out granule_at_inj [OF id(3)] by metis
  have ul: "unlock_rtts b m (held (L \<union> rtt_range b m) no_slots s) = Inr ((), held L no_slots s)"
    if "granule_at (arm_dram s) base \<noteq> None \<Longrightarrow> avoids s base n L" "rtts_delegated s base m" "m \<le> n"
      "0 < m \<longrightarrow> granule_at (arm_dram s) base = Some b" for L m b
  proof (rule unlock_rtts_held [OF idle])
    fix h assume h: "h \<in> rtt_range b m"
    then have m: "0 < m" "h - b < m" "b + (h - b) = h" by auto
    then have "granule_at (arm_dram s) (base + of_nat (h - b) * GRANULE_SIZE) = Some h"
      using granule_inD(1) [OF rtts_at [OF id(3) that(2) _ m(2)]] that(4) by simp
    then show "h \<notin> L" using avoidsD [OF that(1)] m(1,2) that(3,4) by simp
  qed
  have fl: "find_lock_granule rd_addr GRANULE_STATE_DELEGATED (held L no_slots s) =
      (case ?r of None \<Rightarrow> Inr (None, held L no_slots s) | Some g \<Rightarrow> Inr (Some g, held (insert g L) no_slots s))"
    if "\<And>g. granule_at (arm_dram s) rd_addr = Some g \<Longrightarrow> g \<notin> L" for L
    using find_lock_granule_held [OF id(3), of rd_addr L] that idle_lockable [OF idle] by auto
  have nr: "g \<notin> rtt_range b n" if "granule_at (arm_dram s) rd_addr = Some g" "rtts_delegated s base n"
    "granule_at (arm_dram s) base = Some b" for g b
  proof
    assume "g \<in> rtt_range b n"
    then have m: "g - b < n" "b + (g - b) = g" by auto
    have "granule_at (arm_dram s) (base + of_nat (g - b) * GRANULE_SIZE) = Some g"
      using granule_inD(1) [OF rtts_at [OF id(3) that(2,3) m(1)]] m(2) by simp
    then have "rd_addr = base + of_nat (g - b) * GRANULE_SIZE" using granule_at_inj [OF id(3) that(1)] by blast
    then show False using out [OF m(1)] that(3) by simp
  qed
  obtain m b where l: "lock_rtts base None 0 n (held {} no_slots s) =
      Inr ((rtts_delegated s base n, m, if m = 0 then None else Some b), held ({} \<union> rtt_range b m) no_slots s)"
    "0 < m \<longrightarrow> granule_at (arm_dram s) base = Some b" "rtts_delegated s base m" "m \<le> n" "rtts_delegated s base n \<longrightarrow> m = n"
    using lock_rtts_all [OF idle n, of base "{}" no_slots] av [of "{}"] by blast
  show ?thesis
  proof (cases "rd_addr < base")
    case True
    show ?thesis
    proof (cases ?r)
      case None
      then show ?thesis using True fl [of "{}"] s0 by (simp add: find_lock_rd_granules_def run_simps rd_lock_error_def)
    next
      case (Some g)
      have avg: "granule_at (arm_dram s) base \<noteq> None \<Longrightarrow> avoids s base n {g}" using av [of "{g}"] granule_inD(1) [OF Some] by simp
      obtain m b where l: "lock_rtts base None 0 n (held {g} no_slots s) =
          Inr ((rtts_delegated s base n, m, if m = 0 then None else Some b), held ({g} \<union> rtt_range b m) no_slots s)"
        "0 < m \<longrightarrow> granule_at (arm_dram s) base = Some b" "rtts_delegated s base m" "m \<le> n" "rtts_delegated s base n \<longrightarrow> m = n"
        using lock_rtts_all [OF idle n, of base "{g}" no_slots] avg by blast
      have "granule_unlock g (held {g} no_slots s) = Inr ((), s)" using id s0 by (simp add: held_simps)
      then show ?thesis
        using True Some fl [of "{}"] s0 l n ul [of "{g}", OF _ l(3,4,2)] avg
        by (cases "m = 0") (auto simp: find_lock_rd_granules_def run_simps rd_lock_error_def)
    qed
  next
    case False
    show ?thesis
    proof (cases "rtts_delegated s base n")
      case True
      then have m: "m = n" "granule_at (arm_dram s) base = Some b" using l n by auto
      show ?thesis
        using False True l(1) s0 m n fl [of "rtt_range b n"] nr [OF _ True m(2)] ul [of "{}" n b] av [of "{}"] m(2)
        by (cases ?r) (auto simp: find_lock_rd_granules_def run_simps rd_lock_error_def)
    next
      case no: False
      show ?thesis
        using False no l s0 n ul [of "{}", OF _ l(3,4,2)] av [of "{}"]
        by (cases "m = 0") (auto simp: find_lock_rd_granules_def run_simps rd_lock_error_def split: option.splits)
    qed
  qed
qed

end
