(* ===== verification/Realm_Params.thy ===== *)
theory Realm_Params
  imports Rd_Lock
begin

text \<open>
  The parameters of a new realm. When they pass the checks, the starting level tables cover the address space of the
  realm exactly, there are at most 16 of them, and the translation context is well formed.
\<close>

text \<open>The geometry of the starting level: the number \<open>m\<close> of address bits below an entry and the number \<open>n\<close> of tables.\<close>

definition start_ok :: "nat \<Rightarrow> int \<Rightarrow> nat \<Rightarrow> bool" where
  "start_ok b sl n \<longleftrightarrow> lvl_lsb sl < b \<and>
    (n = 1 \<and> b - lvl_lsb sl \<le> (if sl = -1 then 4 else 9) \<or> sl \<noteq> -1 \<and> 9 < b - lvl_lsb sl \<and> b - lvl_lsb sl \<le> 13 \<and> n = 2 ^ (b - lvl_lsb sl - 9))"

lemma unat_power: "(2 :: nat) ^ n < 2 ^ 32 \<Longrightarrow> unat (2 ^ n :: u32) = 2 ^ n"
proof -
  assume "(2 :: nat) ^ n < 2 ^ 32"
  then show ?thesis using unat_of_nat [of "2 ^ n", where ?'a = 32] by simp
qed

lemma geometry:
  assumes "32 \<le> bits" "bits \<le> (if lpa2 then 52 else 48)" "(if lpa2 then -1 else 0) \<le> sl" "sl \<le> 3"
    and cons: "\<not> s2_inconsistent_sl bits sl lpa2"
  shows "start_ok (unat bits) sl (unat (s2_num_root_rtts bits sl))"
proof -
  let ?b = "unat bits"
  have b: "32 \<le> ?b" "?b \<le> 52" using assms(1,2) by (auto simp: word_le_nat_alt split: if_splits)
  have pw: "unat (push_bit (unat (bits - k)) 1 :: u32) = 2 ^ (?b - unat k)" if "k \<le> bits" "?b - unat k \<le> 13" for k
  proof -
    have "(2 :: nat) ^ (?b - unat k) < 2 ^ 32" using that(2) by (intro power_strict_increasing) simp_all
    then show ?thesis using that by (simp add: unat_sub push_bit_eq_mult unat_power)
  qed
  have "sl \<in> {-1, 0, 1, 2, 3}" using assms(3,4) by (auto split: if_splits)
  then consider "sl = -1" | "sl = 0" | "sl = 1" | "sl = 2" | "sl = 3" by blast
  then show ?thesis
  proof cases
    case 1
    then have l: "lpa2" using assms(3) by (auto split: if_splits)
    show ?thesis using cons b 1 l
      by (simp add: s2_inconsistent_sl_def s2_num_root_rtts_def start_ok_def lvl_lsb_def Let_def word_le_nat_alt word_less_nat_alt)
  next
    case 2
    show ?thesis using cons b 2 assms(2) pw [of 48]
      by (cases lpa2) (auto simp: s2_inconsistent_sl_def s2_num_root_rtts_def start_ok_def lvl_lsb_def Let_def word_le_nat_alt word_less_nat_alt)
  next
    case 3
    show ?thesis using cons b 3 pw [of 39]
      by (cases lpa2) (auto simp: s2_inconsistent_sl_def s2_num_root_rtts_def start_ok_def lvl_lsb_def Let_def word_le_nat_alt word_less_nat_alt)
  next
    case 4
    show ?thesis using cons b 4 pw [of 30]
      by (cases lpa2) (auto simp: s2_inconsistent_sl_def s2_num_root_rtts_def start_ok_def lvl_lsb_def Let_def word_le_nat_alt word_less_nat_alt)
  next
    case 5
    show ?thesis using cons b 5
      by (cases lpa2) (auto simp: s2_inconsistent_sl_def start_ok_def lvl_lsb_def Let_def word_le_nat_alt word_less_nat_alt)
  qed
qed

lemma start_ok_tables:
  assumes "start_ok b sl n"
  shows "0 < n" "n \<le> 16" "2 ^ (b - lvl_lsb sl) \<le> n * 512" "n = 1 \<or> 2 ^ (b - lvl_lsb sl) = n * 512"
    "sl = -1 \<Longrightarrow> n = 1 \<and> 2 ^ (b - lvl_lsb sl) \<le> (16 :: nat)"
proof -
  let ?k = "b - lvl_lsb sl"
  consider "n = 1" "?k \<le> 9" "sl = -1 \<longrightarrow> ?k \<le> 4" | "9 < ?k" "?k \<le> 13" "n = 2 ^ (?k - 9)" "sl \<noteq> -1"
    using assms by (auto simp: start_ok_def split: if_splits)
  then have "0 < n \<and> n \<le> 16 \<and> 2 ^ ?k \<le> n * 512 \<and> (n = 1 \<or> 2 ^ ?k = n * 512) \<and> (sl = -1 \<longrightarrow> n = 1 \<and> 2 ^ ?k \<le> (16 :: nat))"
  proof cases
    case 1
    have "(2 :: nat) ^ ?k \<le> 2 ^ 9" using 1(2) by (rule power_increasing) simp
    moreover have "sl = -1 \<longrightarrow> (2 :: nat) ^ ?k \<le> 2 ^ 4" using 1(3) power_increasing [of ?k 4 "2 :: nat"] by auto
    ultimately show ?thesis using 1(1) by simp
  next
    case 2
    have "(2 :: nat) ^ (?k - 9) \<le> 2 ^ 4" using 2(2) by (intro power_increasing) simp_all
    moreover have "(2 :: nat) ^ ?k = 2 ^ (?k - 9) * 512" using 2(1) power_add [of "2 :: nat" "?k - 9" 9] by simp
    ultimately show ?thesis using 2 by simp
  qed
  then show "0 < n" "n \<le> 16" "2 ^ ?k \<le> n * 512" "n = 1 \<or> 2 ^ ?k = n * 512" "sl = -1 \<Longrightarrow> n = 1 \<and> 2 ^ ?k \<le> (16 :: nat)"
    by blast+
qed

section \<open>Running the checks\<close>

text \<open>A processor as the RMM expects it: the physical address range is one of the supported ones and PMUv3p7 is present.\<close>

definition cpu_ok :: "cpu_regs \<Rightarrow> bool" where
  "cpu_ok cpu \<longleftrightarrow> unat (EXTRACT 0 4 (id_aa64mmfr0_el1 cpu)) < 7 \<and> read_pmu_version cpu \<ge> 7"

definition result_of :: "(unit, 'a) M \<Rightarrow> 'a" where
  "result_of m = (case m () of Inr (x, _) \<Rightarrow> x)"

definition feature_register_0 :: "cpu_regs \<Rightarrow> u64" where
  "feature_register_0 cpu = result_of (get_feature_register_0 cpu)"

definition params_ok :: "cpu_regs \<Rightarrow> rmi_realm_params \<Rightarrow> bool" where
  "params_ok cpu p = result_of (check_realm_params cpu (feature_register_0 cpu) p)"

lemma pa_width_run: "cpu_ok cpu \<Longrightarrow> \<exists>w. \<forall>s. arch_feat_get_pa_width cpu s = Inr (w, s)"
  by (simp add: arch_feat_get_pa_width_def cpu_ok_def run_simps Let_def)

lemma feature_register_run: "cpu_ok cpu \<Longrightarrow> get_feature_register_0 cpu s = Inr (feature_register_0 cpu, s)"
  by (simp add: get_feature_register_0_def feature_register_0_def result_of_def arch_feat_get_pa_width_def cpu_ok_def run_simps Let_def)

lemma validate_sl_run:
  assumes "cpu_ok cpu"
  shows "validate_ipa_bits_and_sl cpu bits sl lpa2 s = Inr (result_of (validate_ipa_bits_and_sl cpu bits sl lpa2), s)"
  using assms by (auto simp: validate_ipa_bits_and_sl_def result_of_def arch_feat_get_pa_width_def cpu_ok_def run_simps Let_def)

text \<open>The checks of the single parameters, before those of the starting level.\<close>

definition params_rejected :: "cpu_regs \<Rightarrow> u64 \<Rightarrow> rmi_realm_params \<Rightarrow> bool" where
  "params_rejected cpu feat_reg0 p \<longleftrightarrow>
    is_lpa2_requested p \<and> EXTRACT 8 1 feat_reg0 = RMI_FEATURE_FALSE \<or>
    (rp_s2sz p < RMI_FEATURE_MIN_IPA_SIZE \<or> ucast (rp_s2sz p) > EXTRACT 0 8 feat_reg0) \<or>
    (rp_num_bps p = 0 \<or> ucast (rp_num_bps p) > EXTRACT 14 6 feat_reg0 \<or>
     rp_num_wps p = 0 \<or> ucast (rp_num_wps p) > EXTRACT 20 6 feat_reg0) \<or>
    EXTRACT 1 1 (rp_flags p) = RMI_FEATURE_TRUE \<and>
      (EXTRACT 9 1 feat_reg0 = RMI_FEATURE_FALSE \<or> ucast (rp_sve_vl p) > EXTRACT 10 4 feat_reg0) \<or>
    EXTRACT 2 1 (rp_flags p) = RMI_FEATURE_TRUE \<and>
      (ucast (rp_pmu_num_ctrs p) > EXTRACT 27 5 feat_reg0 \<or> rp_pmu_num_ctrs p = 0 \<and> \<not> is_feat_hpmn0_present cpu)"

lemma if_or: "(if a then x else if b then x else y) = (if a \<or> b then x else y)"
  by simp

lemma if_return: "(if \<not> a \<or> n \<noteq> n' then returnM False else returnM h) = returnM (a \<and> n = n' \<and> h)"
  by (cases "a \<and> n = n'") auto

lemma check_params_eq:
  "check_realm_params cpu f p =
    (if params_rejected cpu f p then returnM False
     else bindM (validate_ipa_bits_and_sl cpu (rp_s2sz p) (rp_rtt_level_start p) (is_lpa2_requested p)) (\<lambda>valid.
       returnM (valid \<and> s2_num_root_rtts (rp_s2sz p) (rp_rtt_level_start p) = rp_rtt_num_start p \<and>
         (rp_algorithm p = RMI_HASH_SHA_256 \<or> rp_algorithm p = RMI_HASH_SHA_512))))"
  unfolding check_realm_params_def params_rejected_def by (simp only: if_or if_return)

lemma check_params_value:
  assumes "cpu_ok cpu"
  shows "check_realm_params cpu f p s =
    Inr (\<not> params_rejected cpu f p \<and>
      result_of (validate_ipa_bits_and_sl cpu (rp_s2sz p) (rp_rtt_level_start p) (is_lpa2_requested p)) \<and>
      s2_num_root_rtts (rp_s2sz p) (rp_rtt_level_start p) = rp_rtt_num_start p \<and>
      (rp_algorithm p = RMI_HASH_SHA_256 \<or> rp_algorithm p = RMI_HASH_SHA_512), s)"
  using assms by (cases "params_rejected cpu f p") (simp_all add: check_params_eq run_simps validate_sl_run)

lemma check_params_run: "cpu_ok cpu \<Longrightarrow> check_realm_params cpu f p s = Inr (result_of (check_realm_params cpu f p), s)"
  using check_params_value [of cpu f p "()"] check_params_value [of cpu f p s] by (simp add: result_of_def)

lemma params_ok_run:
  assumes "cpu_ok cpu"
  shows "validate_realm_params cpu p s =
    (if params_ok cpu p then reserve_vmid (ucast (rp_vmid p)) s else Inr (False, s))"
  using assms by (simp add: validate_realm_params_def run_simps feature_register_run check_params_run params_ok_def)

lemma params_okD:
  assumes "cpu_ok cpu" "params_ok cpu p"
  shows "start_ok (unat (rp_s2sz p)) (rp_rtt_level_start p) (unat (rp_rtt_num_start p))"
    "unat (rp_s2sz p) \<le> oa_bits (is_lpa2_requested p)"
    "(if is_lpa2_requested p then -1 else 0) \<le> rp_rtt_level_start p" "rp_rtt_level_start p \<le> 3"
proof -
  let ?v = "result_of (validate_ipa_bits_and_sl cpu (rp_s2sz p) (rp_rtt_level_start p) (is_lpa2_requested p))"
  have v: "?v" and n: "s2_num_root_rtts (rp_s2sz p) (rp_rtt_level_start p) = rp_rtt_num_start p"
    using assms(2) check_params_value [OF assms(1), of "feature_register_0 cpu" p "()"]
    unfolding params_ok_def by (auto simp: result_of_def [of "check_realm_params _ _ _"])
  have "32 \<le> rp_s2sz p" "rp_s2sz p \<le> (if is_lpa2_requested p then 52 else 48)"
    and l: "(if is_lpa2_requested p then -1 else 0) \<le> rp_rtt_level_start p" "rp_rtt_level_start p \<le> 3"
    and "\<not> s2_inconsistent_sl (rp_s2sz p) (rp_rtt_level_start p) (is_lpa2_requested p)"
    using v assms(1) by (auto simp: validate_ipa_bits_and_sl_def result_of_def arch_feat_get_pa_width_def cpu_ok_def run_simps Let_def
        split: if_splits)
  from geometry [OF this(1,2) l this(5)] n
  show "start_ok (unat (rp_s2sz p)) (rp_rtt_level_start p) (unat (rp_rtt_num_start p))" by simp
  show "(if is_lpa2_requested p then -1 else 0) \<le> rp_rtt_level_start p" "rp_rtt_level_start p \<le> 3" using l .
  show "unat (rp_s2sz p) \<le> oa_bits (is_lpa2_requested p)"
    using \<open>rp_s2sz p \<le> _\<close> by (auto simp: oa_bits_def word_le_nat_alt split: if_splits)
qed

lemma params_ctx_wf:
  assumes "cpu_ok cpu" "params_ok cpu p" "rtt \<noteq> None"
  shows "wf_ctx (rd_s2_ctx (init_rd p rtt rd))"
proof -
  let ?b = "unat (rp_s2sz p)" and ?m = "lvl_lsb (rp_rtt_level_start p)" and ?n = "unat (rp_rtt_num_start p)"
  note pk = params_okD [OF assms(1,2)] and st = start_ok_tables [OF params_okD(1) [OF assms(1,2)]]
  have m: "?m < ?b" using pk(1) by (simp add: start_ok_def)
  have "(2 :: nat) ^ ?b = 2 ^ (?b - ?m) * 2 ^ ?m" using m by (simp add: power_add [symmetric])
  then have "2 ^ ?b \<le> ?n * 512 * 2 ^ ?m" using st(3) by simp
  then show ?thesis
    using pk st m assms(3) by (auto simp: wf_ctx_def init_rd_def min_starting_level_def word_le_nat_alt Let_def)
qed

end
