(* ===== verification/Realm_Init.thy ===== *)
theory Realm_Init
  imports Realm_Params Data_Inv
begin

text \<open>
  The starting level tables of a new realm: the two nested loops of \<^verbatim>\<open>init_s2_starting_level\<close> end before they run out of
  tables, and leave the entry of every part of the protected half unassigned and empty and of the other half unassigned non-secure.
\<close>

definition root_entry :: "s2tt_context \<Rightarrow> nat \<Rightarrow> u64" where
  "root_entry c q = (if q * 2 ^ lvl_lsb (s2_starting_level c) < 2 ^ (unat (ipa_bits c) - 1) then s2tte_create_unassigned_empty
     else if q * 2 ^ lvl_lsb (s2_starting_level c) < 2 ^ unat (ipa_bits c) then s2tte_create_unassigned_ns else 0)"

definition root_words :: "s2tt_context \<Rightarrow> nat \<Rightarrow> u64 list" where
  "root_words c b = map (\<lambda>i. root_entry c (b * 512 + i)) [0..<512]"

fun fill :: "s2tt_context \<Rightarrow> nat \<Rightarrow> nat \<Rightarrow> nat \<Rightarrow> u64 list \<Rightarrow> u64 list" where
  "fill c j 0 q ws = ws"
| "fill c j (Suc n) q ws = fill c (Suc j) n (Suc q) (ws[j := root_entry c q])"

lemma length_fill [simp]: "length (fill c j n q ws) = length ws"
  by (induction c j n q ws rule: fill.induct) simp_all

lemma fill_nth: "j + n \<le> length ws \<Longrightarrow> i < length ws \<Longrightarrow>
    fill c j n q ws ! i = (if j \<le> i \<and> i < j + n then root_entry c (q + (i - j)) else ws ! i)"
proof (induction c j n q ws rule: fill.induct)
  case (2 c j n q ws)
  show ?case
  proof (cases "i = j")
    case True
    then show ?thesis using 2 by (simp add: nth_list_update)
  next
    case False
    then show ?thesis using 2 by (auto simp: nth_list_update Suc_diff_Suc not_le less_Suc_eq_le)
  qed
qed auto

text \<open>
  The starting level of a context: \<open>T\<close> entries that map \<open>2 ^ m\<close> bytes each, the size \<open>sz\<close> as a machine word.
\<close>

definition start_level :: "rd \<Rightarrow> s2tt_context \<Rightarrow> nat \<Rightarrow> nat \<Rightarrow> u64 \<Rightarrow> bool" where
  "start_level rd c m T sz \<longleftrightarrow> c = rd_s2_ctx rd \<and> wf_ctx c \<and> m = lvl_lsb (s2_starting_level c) \<and>
     T = 2 ^ (unat (ipa_bits c) - m) \<and> sz = push_bit m 1"

lemma start_levelD:
  assumes "start_level rd c m T sz"
  shows "c = rd_s2_ctx rd" "wf_ctx c" "m = lvl_lsb (s2_starting_level c)" "T = 2 ^ (unat (ipa_bits c) - m)" "sz = push_bit m 1"
  using assms unfolding start_level_def by blast+

lemma bounds:
  assumes "start_level rd c m T sz"
  shows "m < unat (ipa_bits c)" "unat (ipa_bits c) \<le> 52" "T * 2 ^ m = 2 ^ unat (ipa_bits c)"
proof -
  note m = start_levelD(3) [OF assms] and wf = start_levelD(2) [OF assms] and T = start_levelD(4) [OF assms]
  show b: "m < unat (ipa_bits c)" "unat (ipa_bits c) \<le> 52" using wf m by (auto simp: wf_ctx_def oa_bits_def split: if_splits)
  show "T * 2 ^ m = 2 ^ unat (ipa_bits c)" using b(1) by (simp add: T power_add [symmetric])
qed

lemma unat_ipa:
  assumes sl: "start_level rd c m T sz" and q: "q \<le> T"
  shows "unat (of_nat q * sz) = q * 2 ^ m"
proof -
  note bounds = bounds [OF sl] and sz = start_levelD(5) [OF sl]
  have "q * 2 ^ m \<le> 2 ^ unat (ipa_bits c)" using q bounds(3) mult_le_mono1 [of q T "2 ^ m"] by simp
  moreover have "(2 :: nat) ^ unat (ipa_bits c) \<le> 2 ^ 52" using bounds(2) by (rule power_increasing) simp
  ultimately have l: "q * 2 ^ m < 2 ^ 64" by simp
  have "of_nat q * sz = (of_nat (q * 2 ^ m) :: u64)" by (simp add: sz push_bit_eq_mult)
  then show ?thesis using l unat_of_nat [of "q * 2 ^ m", where ?'a = 64] by simp
qed

lemma par_ipa:
  assumes sl: "start_level rd c m T sz" and q: "q \<le> T"
  shows "addr_in_par rd (of_nat q * sz) \<longleftrightarrow> q * 2 ^ m < 2 ^ (unat (ipa_bits c) - 1)"
  using addr_in_par_iff [of rd "of_nat q * sz"] start_levelD(1,2) [OF sl] unat_ipa [OF sl q] by simp

lemma end_ipa:
  assumes sl: "start_level rd c m T sz" and q: "q \<le> T"
  shows "of_nat q * sz = realm_ipa_size rd \<longleftrightarrow> q = T"
proof -
  note bounds = bounds [OF sl] and c = start_levelD(1) [OF sl] and unat_ipa = unat_ipa [OF sl]
  have "unat (realm_ipa_size rd) = T * 2 ^ m"
    using bounds by (simp add: realm_ipa_size_def realm_ipa_bits_def c [symmetric] push_bit_eq_mult unat_exp)
  then have "unat (of_nat q * sz) = unat (realm_ipa_size rd) \<longleftrightarrow> q = T" using unat_ipa [OF q] by simp
  then show ?thesis by (simp add: word_unat_eq_iff)
qed

lemma entry_ipa:
  assumes sl: "start_level rd c m T sz" and q: "q < T"
  shows "(if addr_in_par rd (of_nat q * sz) then s2tte_create_unassigned_empty else s2tte_create_unassigned_ns) = root_entry c q"
proof -
  have "q * 2 ^ m < 2 ^ unat (ipa_bits c)" using q bounds(3) [OF sl] mult_strict_right_mono [of q T "2 ^ m"] by simp
  then show ?thesis using par_ipa [OF sl, of q] q by (simp add: root_entry_def start_levelD(3) [OF sl, symmetric])
qed

lemma init_entries_held:
  assumes sl: "start_level rd c m T sz" and "q < T" "j + k \<le> 512" "0 < k"
  shows "init_entries rd sz g k (of_nat j) (of_nat q * sz) (held L M s) =
    Inr (if q + k < T then Some (of_nat (q + k) * sz) else None,
      held L M (upd_mem g (\<lambda>d. d\<lparr>words := fill c j (min k (T - q)) q (words d)\<rparr>) s))"
  using assms(2-)
proof (induction k arbitrary: q j s)
  case (Suc k)
  note end_ipa = end_ipa [OF sl] and entry_ipa = entry_ipa [OF sl]
  have j: "unat (of_nat j :: u64) = j" using Suc.prems(2) by (simp add: unat_of_nat)
  let ?s = "upd_mem g (\<lambda>d. d\<lparr>words := (words d)[j := root_entry c q]\<rparr>) s"
  have w: "s2tte_write g (of_nat j) (root_entry c q) (held L M s) = Inr ((), held L M ?s)"
    using j by (simp add: s2tte_write_def run_simps held_upd)
  have n: "of_nat q * sz + sz = of_nat (Suc q) * sz" "of_nat j + 1 = (of_nat (Suc j) :: u64)" by (simp_all add: distrib_right add.commute)
  have e: "of_nat (Suc q) * sz = realm_ipa_size rd \<longleftrightarrow> Suc q = T" using end_ipa [of "Suc q"] Suc.prems(1) by simp
  show ?case
  proof (cases "Suc q = T")
    case True
    then have "min (Suc k) (T - q) = 1" by simp
    then show ?thesis using True e w unfolding init_entries.simps entry_ipa [OF Suc.prems(1)] n by (simp add: run_simps Let_def)
  next
    case False
    then have q: "Suc q < T" using Suc.prems(1) by simp
    have mn: "min (Suc k) (T - q) = Suc (min k (T - Suc q))" using q by simp
    have comp: "upd_mem g (\<lambda>d. d\<lparr>words := fill c (Suc j) n (Suc q) (words d)\<rparr>) ?s =
      upd_mem g (\<lambda>d. d\<lparr>words := fill c (Suc j) n (Suc q) ((words d)[j := root_entry c q])\<rparr>) s" for n
      by (simp add: upd_mem_def)
    show ?thesis
    proof (cases k)
      case 0
      then show ?thesis using False q e w unfolding init_entries.simps entry_ipa [OF Suc.prems(1)] n mn by (simp add: run_simps Let_def)
    next
      case (Suc k')
      then show ?thesis
        using False q e w Suc.IH [OF q, of "Suc j" ?s] Suc.prems(2)
        unfolding init_entries.simps(2) entry_ipa [OF Suc.prems(1)] n mn fill.simps(2) comp by (simp add: run_simps Let_def)
    qed
  qed
qed simp

section \<open>All tables\<close>

definition set_roots :: "s2tt_context \<Rightarrow> nat \<Rightarrow> nat \<Rightarrow> nat \<Rightarrow> rmm \<Rightarrow> rmm" where
  "set_roots c b i n s = s\<lparr>mem := (\<lambda>h. if b + i \<le> h \<and> h < b + n then (mem s h)\<lparr>words := root_words c (h - b)\<rparr> else mem s h)\<rparr>"

lemma set_roots_step:
  "i < n \<Longrightarrow> set_roots c b i n s = set_roots c b (Suc i) n (upd_mem (b + i) (\<lambda>d. d\<lparr>words := root_words c i\<rparr>) s)"
  "n \<le> i \<Longrightarrow> set_roots c b i n s = s"
proof -
  assume "n \<le> i"
  then have "(\<lambda>h. if b + i \<le> h \<and> h < b + n then (mem s h)\<lparr>words := root_words c (h - b)\<rparr> else mem s h) = mem s" by (auto simp: fun_eq_iff)
  then show "set_roots c b i n s = s" by (simp add: set_roots_def)
qed (auto simp: set_roots_def upd_mem_def fun_eq_iff)

lemma root_entry_end: "start_level rd c m T sz \<Longrightarrow> T \<le> q \<Longrightarrow> root_entry c q = 0"
proof -
  assume sl: "start_level rd c m T sz" and q: "T \<le> q"
  have "2 ^ unat (ipa_bits c) \<le> q * 2 ^ m" using mult_le_mono1 [OF q, of "2 ^ m"] bounds(3) [OF sl] by simp
  moreover have "(2 :: nat) ^ (unat (ipa_bits c) - 1) \<le> 2 ^ unat (ipa_bits c)" by (rule power_increasing) simp_all
  ultimately have "\<not> q * 2 ^ m < 2 ^ (unat (ipa_bits c) - 1)" "\<not> q * 2 ^ m < 2 ^ unat (ipa_bits c)" by linarith+
  then show ?thesis unfolding root_entry_def start_levelD(3) [OF sl, symmetric] by simp
qed

lemma fill_zero:
  assumes sl: "start_level rd c m T sz" and "k \<le> 512" "T \<le> q + 512 \<Longrightarrow> T \<le> q + k" "T > q + 512 \<Longrightarrow> k = 512" "q = b * 512" "q < T"
  shows "fill c 0 (min k (T - q)) q (replicate 512 0) = root_words c b"
proof (rule nth_equalityI)
  fix i assume "i < length (fill c 0 (min k (T - q)) q (replicate 512 0))"
  then have i: "i < 512" by simp
  have "\<not> i < min k (T - q) \<Longrightarrow> T \<le> q + i" using assms(3,4) i by (cases "T \<le> q + 512") auto
  then show "fill c 0 (min k (T - q)) q (replicate 512 0) ! i = root_words c b ! i"
    using i assms(2,5) root_entry_end [OF sl, of "q + i"] by (auto simp: fill_nth root_words_def)
qed (simp add: root_words_def)

lemma init_tables_held:
  assumes sl: "start_level rd c m T sz"
    and per: "per = 512 \<and> (n = 1 \<or> T = n * 512) \<or> per = 16 \<and> n = 1 \<and> T \<le> 16" "T \<le> n * 512"
    and wf: "wf_dram (arm_dram s)" and M: "M SLOT_RTT = None"
    and g: "\<And>h. b + i \<le> h \<Longrightarrow> h < b + n \<Longrightarrow> valid_g (arm_dram s) h \<and> words (mem s h) = replicate 512 0"
    and i: "i < n" "i * 512 < T"
  shows "init_tables rd sz per (b + i) (n - i) (of_nat (i * 512) * sz) (held L M s) = Inr ((), held L M (set_roots c b i n s))"
  using wf g i
proof (induction "n - i" arbitrary: i s)
  case 0
  then show ?case by simp
next
  case (Suc k)
  let ?s = "upd_mem (b + i) (\<lambda>d. d\<lparr>words := root_words c i\<rparr>) s"
  have bi: "valid_g (arm_dram s) (b + i)" "words (mem s (b + i)) = replicate 512 0" using Suc.prems by simp_all
  have per_le: "per \<le> 512" "0 < per" using per by auto
  have f: "fill c 0 (min per (T - i * 512)) (i * 512) (words (mem s (b + i))) = root_words c i"
    unfolding bi(2) by (rule fill_zero [OF sl]) (use per Suc.prems in auto)
  have "upd_mem (b + i) (\<lambda>d. d\<lparr>words := fill c 0 (min per (T - i * 512)) (i * 512) (words d)\<rparr>) s = ?s"
    using f by (simp add: upd_mem_def)
  then have e: "init_entries rd sz (b + i) per 0 (of_nat (i * 512) * sz) (held L M' s) =
      Inr (if i * 512 + per < T then Some (of_nat (i * 512 + per) * sz) else None, held L M' ?s)" for M'
    using init_entries_held [OF sl Suc.prems(4), of 0 per "b + i" L M' s] per_le by simp
  have st: "map_slot (Some (b + i)) SLOT_RTT (held L M s) = Inr ((), held L (M(SLOT_RTT := Some (b + i))) s)"
    "buffer_unmap SLOT_RTT (held L (M(SLOT_RTT := Some (b + i))) ?s) = Inr ((), held L M ?s)"
    using Suc.prems(1) bi(1) M by (simp_all add: held_simps fun_upd_idem)
  have nk: "n - i = Suc k" using Suc.hyps(2) by simp
  show ?case
  proof (cases "i * 512 + per < T")
    case True
    then have p: "per = 512" "Suc i < n" "T = n * 512" using per Suc.prems(3) by auto
    have "init_tables rd sz per (b + Suc i) (n - Suc i) (of_nat (Suc i * 512) * sz) (held L M ?s) = Inr ((), held L M (set_roots c b (Suc i) n ?s))"
      by (rule Suc.hyps(1)) (use nk p Suc.prems in auto)
    moreover have "of_nat (i * 512 + per) * sz = of_nat (Suc i * 512) * sz" using p by (simp add: add.commute)
    moreover have "n - Suc i = k" using nk by simp
    ultimately show ?thesis using True unfolding nk init_tables.simps set_roots_step(1) [OF Suc.prems(3)]
      by (simp add: run_simps st e [simplified])
  next
    case False
    have "Suc i \<ge> n" using False per Suc.prems(3,4) by auto
    then show ?thesis using False unfolding nk init_tables.simps set_roots_step(1) [OF Suc.prems(3)] set_roots_step(2) [OF \<open>Suc i \<ge> n\<close>]
      by (simp add: run_simps st e [simplified])
  qed
qed

text \<open>The whole function, for the descriptor of a new realm.\<close>

lemma init_starting_level_held:
  assumes cpu: "cpu_ok cpu" "params_ok cpu p" and b: "rtt = Some b" and c: "c = rd_s2_ctx (init_rd p rtt rd)"
    and wf: "wf_dram (arm_dram s)" and M: "M SLOT_RTT = None"
    and g: "\<And>h. b \<le> h \<Longrightarrow> h < b + unat (rp_rtt_num_start p) \<Longrightarrow> valid_g (arm_dram s) h \<and> words (mem s h) = replicate 512 0"
  shows "init_s2_starting_level (init_rd p rtt rd) (held L M s) = Inr ((), held L M (set_roots c b 0 (unat (rp_rtt_num_start p)) s))"
proof -
  let ?rd = "init_rd p rtt rd" and ?sl = "rp_rtt_level_start p"
  have cf: "s2_starting_level c = ?sl" "ipa_bits c = rp_s2sz p" "num_root_rtts c = rp_rtt_num_start p" "g_rtt c = Some b"
    using b by (simp_all add: c init_rd_def Let_def)
  have wfc: "wf_ctx c" using params_ctx_wf [OF cpu, of rtt] b by (simp add: c)
  define m where "m = lvl_lsb ?sl"
  define T where "T = (2 :: nat) ^ (unat (rp_s2sz p) - m)"
  have sl: "start_level ?rd c m T (push_bit m 1)" using wfc cf by (simp add: start_level_def m_def T_def c)
  note st = start_ok_tables [OF params_okD(1) [OF cpu], folded m_def, folded T_def]
  have l: "?sl \<in> {-1, 0, 1, 2, 3}" using params_okD(3,4) [OF cpu] by (auto split: if_splits)
  then have sz: "unat (word_of_int (3 - ?sl) * 9 + 12 :: u32) = m"
    by (auto simp: m_def lvl_lsb_def)
  let ?per = "if ?sl = -1 then 16 else 512 :: nat"
  have per: "?per = 512 \<and> (unat (rp_rtt_num_start p) = 1 \<or> T = unat (rp_rtt_num_start p) * 512) \<or>
    ?per = 16 \<and> unat (rp_rtt_num_start p) = 1 \<and> T \<le> 16" using st by auto
  have T0: "0 < T" by (simp add: T_def)
  have "init_tables ?rd (push_bit m 1) ?per b (unat (rp_rtt_num_start p)) 0 (held L M s) =
      Inr ((), held L M (set_roots c b 0 (unat (rp_rtt_num_start p)) s))"
    using init_tables_held [OF sl per st(3) wf, where M = M and b = b and i = 0 and L = L] M g st(1) T0 by simp
  then show ?thesis using cf sz by (simp add: init_s2_starting_level_def c [symmetric] Let_def)
qed

section \<open>The entries of the new tables\<close>

lemma root_words_nth: "i < 512 \<Longrightarrow> root_words c b ! i = root_entry c (b * 512 + i)"
  by (simp add: root_words_def)

lemma length_root_words [simp]: "length (root_words c b) = 512"
  by (simp add: root_words_def)

lemma root_entry_kinds:
  "kinds (root_entry c q) l = {if q * 2 ^ lvl_lsb (s2_starting_level c) < 2 ^ (unat (ipa_bits c) - 1) then Unassigned_Empty
     else if q * 2 ^ lvl_lsb (s2_starting_level c) < 2 ^ unat (ipa_bits c) then Unassigned_Ns else Unassigned_Empty}"
proof -
  have "(0 :: u64) = s2tte_create_unassigned_empty"
    by (simp add: s2tte_create_unassigned_empty_def S2TTE_INVALID_HIPAS_UNASSIGNED_def S2TTE_INVALID_RIPAS_EMPTY_def INPLACE_def
        RMI_UNASSIGNED_def RMI_EMPTY_def)
  then show ?thesis using created_unassigned_kinds by (simp add: root_entry_def)
qed

lemma root_entry_ok:
  assumes "wf_ctx c" shows "entry_ok s c 0 q (root_entry c q)" "\<not> counted (root_entry c q) (level c 0)"
proof -
  note k = root_entry_kinds [of c q "level c 0"]
  show "entry_ok s c 0 q (root_entry c q)"
    unfolding entry_ok_def by (rule exI, rule conjI [OF k]) (auto simp: data_kinds_def ns_kinds_def in_ipa_def in_par_def level_def)
  show "\<not> counted (root_entry c q) (level c 0)" unfolding kinds_counted [OF k] by (simp add: data_kinds_def)
qed

end
