(* ===== verification/Realm_Change.thy ===== *)
theory Realm_Change
  imports Data_Inv
begin

text \<open>
  A realm appears or disappears. The invariant of realms is kept when a state differs from another in one
  realm only and that realm, where it exists, has starting level tables without data and without further tables.
\<close>

definition bare_realm :: "rmm \<Rightarrow> nat \<Rightarrow> bool" where
  "bare_realm s g \<longleftrightarrow> wf_ctx (realm_ctx s g) \<and>
    (\<forall>b < unat (num_root_rtts (realm_ctx s g)). let t = the (g_rtt (realm_ctx s g)) + b in
       is_rtt s t \<and> REFCOUNT (granules s t) = 0 \<and>
       (\<forall>i < 512. entry_ok s (realm_ctx s g) 0 (b * 512 + i) (words (mem s t) ! i) \<and>
          \<not> counted (words (mem s t) ! i) (level (realm_ctx s g) 0)))"

lemma bare_realmD:
  assumes "bare_realm s g" "b < unat (num_root_rtts (realm_ctx s g))"
  shows "is_rtt s (the (g_rtt (realm_ctx s g)) + b)" "REFCOUNT (granules s (the (g_rtt (realm_ctx s g)) + b)) = 0"
    "i < 512 \<Longrightarrow> entry_ok s (realm_ctx s g) 0 (b * 512 + i) (words (mem s (the (g_rtt (realm_ctx s g)) + b)) ! i)"
    "i < 512 \<Longrightarrow> \<not> counted (words (mem s (the (g_rtt (realm_ctx s g)) + b)) ! i) (level (realm_ctx s g) 0)"
  using assms unfolding bare_realm_def Let_def by blast+

lemma table_at_bound: "wf_ctx c \<Longrightarrow> table_at s c 0 b = Some t \<longleftrightarrow> b < unat (num_root_rtts c) \<and> t = the (g_rtt c) + b"
  by auto

lemma not_counted_table: "\<not> counted e l \<Longrightarrow> l < 3 \<Longrightarrow> \<not> entry_is_table e"
  by (auto simp: counted_def has_kind_def entry_is_table_iff)

lemma bare_in_tree:
  assumes "bare_realm s g"
  shows "in_tree s g n b t \<longleftrightarrow> is_realm s g \<and> n = 0 \<and> b < unat (num_root_rtts (realm_ctx s g)) \<and> t = the (g_rtt (realm_ctx s g)) + b"
proof -
  let ?c = "realm_ctx s g"
  have none: "table_at s ?c (Suc n) b = None" if "Suc n \<le> depth ?c" for n b
    using that
  proof (induction n arbitrary: b)
    case 0
    then have "level ?c 0 < 3" by (simp add: depth_def level_def)
    then show ?case using bare_realmD(4) [OF assms, of "b div 512" "b mod 512"] not_counted_table
      by (auto simp: next_table_def Let_def)
  next
    case (Suc n)
    then show ?case by simp
  qed
  then show ?thesis by (cases n) (auto simp: in_tree_def none split: if_splits)
qed

lemma bare_maps: "bare_realm s g \<Longrightarrow> \<not> maps s g P d"
proof
  assume bare: "bare_realm s g" and "maps s g P d"
  then obtain n p e k where e: "ent s g n p e" "kinds e (level (realm_ctx s g) n) = {k}" "k \<in> data_kinds"
    by (auto simp: maps_def maps_by_def)
  then obtain t where "in_tree s g n (p div 512) t" "e = words (mem s t) ! (p mod 512)" by (auto simp: ent_def)
  then show False
    using bare_realmD(4) [OF bare, of "p div 512" "p mod 512"] bare_in_tree [OF bare] e(2,3) kinds_counted [OF e(2)]
    by auto
qed

definition one_realm_changed :: "rmm \<Rightarrow> rmm \<Rightarrow> nat \<Rightarrow> bool" where
  "one_realm_changed s s' g0 \<longleftrightarrow> arm_dram s' = arm_dram s \<and>
    (\<forall>g. g \<noteq> g0 \<longrightarrow> (is_realm s' g \<longleftrightarrow> is_realm s g) \<and> (is_realm s g \<longrightarrow> realm_ctx s' g = realm_ctx s g)) \<and>
    (\<forall>g n b t. g \<noteq> g0 \<longrightarrow> in_tree s g n b t \<longrightarrow>
       is_rtt s' t \<and> words (mem s' t) = words (mem s t) \<and> REFCOUNT (granules s' t) = REFCOUNT (granules s t))"

lemma one_realm_changedD:
  assumes "one_realm_changed s s' g0"
  shows "arm_dram s' = arm_dram s" "g \<noteq> g0 \<Longrightarrow> is_realm s' g \<longleftrightarrow> is_realm s g"
    "g \<noteq> g0 \<Longrightarrow> is_realm s g \<Longrightarrow> realm_ctx s' g = realm_ctx s g"
    "g \<noteq> g0 \<Longrightarrow> in_tree s g n b t \<Longrightarrow> is_rtt s' t"
    "g \<noteq> g0 \<Longrightarrow> in_tree s g n b t \<Longrightarrow> words (mem s' t) = words (mem s t)"
    "g \<noteq> g0 \<Longrightarrow> in_tree s g n b t \<Longrightarrow> REFCOUNT (granules s' t) = REFCOUNT (granules s t)"
  using assms unfolding one_realm_changed_def by blast+

lemma other_in_tree:
  assumes ch: "one_realm_changed s s' g0" and g: "g \<noteq> g0"
  shows "in_tree s' g n b t \<longleftrightarrow> in_tree s g n b t"
proof (cases "is_realm s g")
  case True
  let ?c = "realm_ctx s g"
  note c = one_realm_changedD(3) [OF ch g True]
  have "table_at s' ?c n b = table_at s ?c n b" if "n \<le> depth ?c" for n b
    using that
  proof (induction n arbitrary: b)
    case (Suc n)
    have "words (mem s' t) = words (mem s t)" if "table_at s ?c n (b div 512) = Some t" for t
      using one_realm_changedD(5) [OF ch g, of n "b div 512" t] that True Suc.prems by (simp add: in_tree_def)
    then show ?case using Suc one_realm_changedD(1) [OF ch] by (simp add: next_table_def Let_def split: option.split)
  qed simp
  then show ?thesis using True c one_realm_changedD(2) [OF ch g] by (auto simp: in_tree_def)
next
  case False
  then show ?thesis using one_realm_changedD(2) [OF ch g] by (simp add: in_tree_def)
qed

lemma other_ent:
  assumes "one_realm_changed s s' g0" "g \<noteq> g0"
  shows "ent s' g n p e \<longleftrightarrow> ent s g n p e"
  using other_in_tree [OF assms] one_realm_changedD(5) [OF assms] by (auto simp: ent_def)

lemma other_maps:
  assumes "one_realm_changed s s' g0" "g \<noteq> g0"
  shows "maps s' g P d \<longleftrightarrow> maps s g P d"
proof -
  have "realm_ctx s' g = realm_ctx s g" if "ent s g n p e" for n p e
    using one_realm_changedD(3) [OF assms] ent_realm [OF that] by blast
  then show ?thesis
    using other_ent [OF assms] one_realm_changedD(1) [OF assms(1)] by (auto simp: maps_def maps_by_def page_granule_def) metis+
qed

lemma one_realm_changed_inv:
  assumes inv: "realm_inv s" and "idle s'" and ch: "one_realm_changed s s' g0"
    and bare: "is_realm s' g0 \<Longrightarrow> bare_realm s' g0"
    and fresh: "\<And>g n b t b'. is_realm s' g0 \<Longrightarrow> g \<noteq> g0 \<Longrightarrow> in_tree s g n b t \<Longrightarrow>
      b' < unat (num_root_rtts (realm_ctx s' g0)) \<Longrightarrow> t \<noteq> the (g_rtt (realm_ctx s' g0)) + b'"
    and data: "\<And>g P d. g \<noteq> g0 \<Longrightarrow> maps s g P d \<Longrightarrow> STATE (granules s' d) = GRANULE_STATE_DATA"
  shows "realm_inv s'" "maps s' g P d \<longleftrightarrow> g \<noteq> g0 \<and> maps s g P d"
proof -
  note tree = realm_invD(2) [OF inv] and oc = one_realm_changedD [OF ch]
  note it = other_in_tree [OF ch] and ot = other_ent [OF ch] and b0 = bare_in_tree [OF bare]
  have real: "is_realm s' g" if "in_tree s' g n b t" for g n b t using in_treeD(1) [OF that] .
  have c: "realm_ctx s' g = realm_ctx s g" if "in_tree s g n b t" "g \<noteq> g0" for g n b t
    using oc(3) in_treeD(1) [OF that(1)] that(2) by blast
  show m: "maps s' g P d \<longleftrightarrow> g \<noteq> g0 \<and> maps s g P d" for g P d
  proof (cases "g = g0")
    case True
    then show ?thesis using bare_maps [OF bare] ent_realm by (auto simp: maps_def)
  qed (use other_maps [OF ch] in simp)
  have "tree_ok s'"
    unfolding tree_ok_def
  proof (intro conjI allI impI)
    fix g assume g: "is_realm s' g"
    then show "wf_ctx (realm_ctx s' g)"
      using bare oc(2,3) [of g] tree_okD(1) [OF tree, of g] by (cases "g = g0") (auto simp: bare_realm_def)
  next
    fix g n b t assume t: "in_tree s' g n b t"
    show "is_rtt s' t"
    proof (cases "g = g0")
      case True
      then show ?thesis using t real [OF t] b0 bare_realmD(1) [OF bare] by auto
    qed (use t it oc(4) in blast)
  next
    fix g n b t i
    assume t: "in_tree s' g n b t" and n: "n < depth (realm_ctx s' g)" and i: "i < 512"
      and e: "entry_is_table (words (mem s' t) ! i)"
    show "next_table s' (realm_ctx s' g) t i \<noteq> None"
    proof (cases "g = g0")
      case True
      then have r: "is_realm s' g0" using real [OF t] by simp
      then have "n = 0" "b < unat (num_root_rtts (realm_ctx s' g0))" "t = the (g_rtt (realm_ctx s' g0)) + b"
        using t b0 [OF r] True by auto
      then show ?thesis using bare_realmD(4) [OF bare [OF r], of b i] e i n True not_counted_table
        by (auto simp: level_def depth_def)
    next
      case False
      then have ts: "in_tree s g n b t" using t it by blast
      show ?thesis
        using tree_okD(3) [OF tree ts _ i] n e c [OF ts False] oc(1) oc(5) [OF False ts] by (auto simp: next_table_def Let_def)
    qed
  next
    fix g n b g' n' b' t
    assume t: "in_tree s' g n b t" and t': "in_tree s' g' n' b' t"
    show "g = g'" "n = n'" "b = b'"
      using t t' real [OF t] real [OF t'] it b0 fresh tree_okD(4) [OF tree, of g n b t g' n' b']
      by (cases "g = g0"; cases "g' = g0"; metis add_left_cancel)+
  qed
  moreover have "entry_ok s' (realm_ctx s' g) n p e" if e: "ent s' g n p e" for g n p e
  proof (cases "g = g0")
    case True
    obtain t where t: "in_tree s' g n (p div 512) t" "e = words (mem s' t) ! (p mod 512)" using e by (auto simp: ent_def)
    then have r: "is_realm s' g0" using real True by blast
    then show ?thesis using b0 [OF r] bare_realmD(3) [OF bare [OF r], of "p div 512" "p mod 512"] t True by simp
  next
    case False
    then have "ent s g n p e" using e ot by blast
    then show ?thesis using realm_invD(3) [OF inv] entry_ok_same [OF oc(1)] oc(3) [OF False] ent_realm by metis
  qed
  moreover have "unat (REFCOUNT (granules s' t)) = refs s' (level (realm_ctx s' g) n) t" if t: "in_tree s' g n b t" for g n b t
  proof (cases "g = g0")
    case True
    then have r: "is_realm s' g0" using real [OF t] by simp
    then have "refs s' (level (realm_ctx s' g) n) t = 0" using b0 [OF r] bare_realmD(4) [OF bare [OF r], of b] t True
      by (auto simp: refs_0)
    then show ?thesis using b0 [OF r] bare_realmD(2) [OF bare [OF r], of b] t True by auto
  next
    case False
    then have ts: "in_tree s g n b t" using t it by blast
    show ?thesis using realm_invD(4) [OF inv ts] c [OF ts False] oc(5,6) [OF False ts] by (simp add: refs_def)
  qed
  ultimately show "realm_inv s'"
    using assms(2) m data realm_invD(5-7) [OF inv] oc(1) unfolding realm_inv_def by metis
qed

end
