(* ===== verification/Realm_Create.thy ===== *)
theory Realm_Create
  imports Realm_Init Realm_Change Realm_Demo
begin

text \<open>The correctness of RMI\_REALM\_CREATE: a new realm has its own VMID and empty tables, and nothing else changes.\<close>

section \<open>VMIDs\<close>

lemma vmids_used_inj:
  assumes wf: "wf_vmids m" "wf_vmids m'" and "vmids_used m = vmids_used m'"
  shows "m = m'"
proof (rule nth_equalityI)
  show "length m = length m'" using wf by (simp add: wf_vmids_def)
  fix i assume "i < length m"
  then have i: "i < 1024" using wf(1) by (simp add: wf_vmids_def)
  show "m ! i = m' ! i"
  proof (rule bit_word_eqI)
    fix n assume "n < LENGTH(64)"
    then have n: "n < 64" by simp
    have u: "unat (of_nat (i * 64 + n) :: u32) = i * 64 + n" using i n unat_of_nat [of "i * 64 + n", where ?'a = 32] by simp
    have "bit (m ! i) n \<longleftrightarrow> of_nat (i * 64 + n) \<in> vmids_used m" "bit (m' ! i) n \<longleftrightarrow> of_nat (i * 64 + n) \<in> vmids_used m'"
      unfolding vmids_used_def mem_Collect_eq u using i n by simp_all
    then show "bit (m ! i) n = bit (m' ! i) n" using assms(3) by simp
  qed
qed

text \<open>Every realm has a reserved VMID of its own.\<close>

definition vmid_inv :: "rmm \<Rightarrow> bool" where
  "vmid_inv s \<longleftrightarrow> wf_vmids (vmids s) \<and>
    (\<forall>g. is_realm s g \<longrightarrow> vmid (realm_ctx s g) < vmid_count (feat_vmid16 s) \<and> vmid (realm_ctx s g) \<in> vmids_used (vmids s)) \<and>
    (\<forall>g h. is_realm s g \<longrightarrow> is_realm s h \<longrightarrow> vmid (realm_ctx s g) = vmid (realm_ctx s h) \<longrightarrow> g = h)"

lemma vmid_invD:
  assumes "vmid_inv s"
  shows "wf_vmids (vmids s)" "is_realm s g \<Longrightarrow> vmid (realm_ctx s g) < vmid_count (feat_vmid16 s)"
    "is_realm s g \<Longrightarrow> vmid (realm_ctx s g) \<in> vmids_used (vmids s)"
    "is_realm s g \<Longrightarrow> is_realm s h \<Longrightarrow> vmid (realm_ctx s g) = vmid (realm_ctx s h) \<Longrightarrow> g = h"
  using assms unfolding vmid_inv_def by blast+

lemma vmid_inv_same:
  assumes "vmid_inv s" "vmids s' = vmids s" "feat_vmid16 s' = feat_vmid16 s" "same_realms s s'"
  shows "vmid_inv s'"
  using assms(1-3) same_realmsD [OF assms(4)] unfolding vmid_inv_def by auto

definition vmid_free_for :: "rmm \<Rightarrow> u32 \<Rightarrow> bool" where
  "vmid_free_for s v \<longleftrightarrow> v < vmid_count (feat_vmid16 s) \<and> v \<notin> vmids_used (vmids s)"

lemma reserve_vmid_run:
  assumes wf: "wf_vmids (vmids s)"
  shows "\<not> vmid_free_for s v \<Longrightarrow> reserve_vmid v s = Inr (False, s)"
    "vmid_free_for s v \<Longrightarrow> \<exists>m. reserve_vmid v s = Inr (True, s\<lparr>vmids := m\<rparr>) \<and> wf_vmids m \<and> vmids_used m = insert v (vmids_used (vmids s)) \<and>
       (\<forall>s1. vmids s1 = m \<longrightarrow> feat_vmid16 s1 = feat_vmid16 s \<longrightarrow> free_vmid v s1 = Inr ((), s1\<lparr>vmids := vmids s\<rparr>))"
proof -
  let ?f = "feat_vmid16 s" and ?m = "snd (vmid_reserve (feat_vmid16 s) v (vmids s))"
  have r: "reserve_vmid v s = Inr (fst (vmid_reserve ?f v (vmids s)), s\<lparr>vmids := ?m\<rparr>)"
    by (simp add: reserve_vmid_def split: prod.split)
  note vb = vmid.reserve_result [OF wf] vmid.reserve_wf [OF wf] vmid.failed_reserve [OF wf] vmid.reserve_used [OF wf] vmid.reserve_release [OF wf]
  show "\<not> vmid_free_for s v \<Longrightarrow> reserve_vmid v s = Inr (False, s)"
  proof -
    assume n: "\<not> vmid_free_for s v"
    then have f: "\<not> fst (vmid_reserve ?f v (vmids s))" using vb(1) [of ?f v] by (simp add: vmid_free_for_def)
    then have "?m = vmids s" using vmids_used_inj [OF vb(2) wf vb(3)] by blast
    then show ?thesis using r f by simp
  qed
  show "\<exists>m. reserve_vmid v s = Inr (True, s\<lparr>vmids := m\<rparr>) \<and> wf_vmids m \<and> vmids_used m = insert v (vmids_used (vmids s)) \<and>
       (\<forall>s1. vmids s1 = m \<longrightarrow> feat_vmid16 s1 = ?f \<longrightarrow> free_vmid v s1 = Inr ((), s1\<lparr>vmids := vmids s\<rparr>))"
    if y: "vmid_free_for s v"
  proof -
    have f: "fst (vmid_reserve ?f v (vmids s))" using y vb(1) [of ?f v] by (simp add: vmid_free_for_def)
    obtain m' where m': "vmid_free ?f v ?m = Inr m'" "wf_vmids m'" "vmids_used m' = vmids_used (vmids s)"
      using vb(5) [OF f] by blast
    have "m' = vmids s" using vmids_used_inj [OF m'(2) wf m'(3)] .
    then show ?thesis using r f vb(2) [of ?f v] vb(4) [of ?f v] y m'(1)
      by (intro exI [of _ ?m]) (auto simp: vmid_free_for_def free_vmid_def)
  qed
qed

section \<open>The part with the granules locked\<close>

fun rtt_states :: "nat \<Rightarrow> nat \<Rightarrow> rmm \<Rightarrow> rmm" where
  "rtt_states b 0 s = s"
| "rtt_states b (Suc n) s = rtt_states (Suc b) n (upd_granule b (eor_state GRANULE_STATE_RTT) s)"

lemma rtt_states_fields [simp]:
  "arm_dram (rtt_states b n s) = arm_dram s" "mem (rtt_states b n s) = mem s" "slots (rtt_states b n s) = slots s"
  "vmids (rtt_states b n s) = vmids s" "feat_vmid16 (rtt_states b n s) = feat_vmid16 s"
  by (induction b n s rule: rtt_states.induct) simp_all

lemma rtt_states_granules:
  "granules (rtt_states b n s) h = (if b \<le> h \<and> h < b + n then eor_state GRANULE_STATE_RTT (granules s h) else granules s h)"
  by (induction b n s rule: rtt_states.induct) (auto simp: upd_granule_def)

lemma transition_rtts_held:
  assumes "\<And>h. b \<le> h \<Longrightarrow> h < b + n \<Longrightarrow> \<not> LOCKED (granules s h) \<and> REFCOUNT (granules s h) = 0"
  shows "transition_rtts b n (held {b..<b + n} M s) = Inr ((), held {} M (rtt_states b n s))"
  using assms
proof (induction b n arbitrary: s rule: transition_rtts.induct)
  case (2 b n)
  have "{b..<b + Suc n} - {b} = {Suc b..<Suc b + n}" by auto
  then have "granule_unlock_transition b GRANULE_STATE_RTT (held {b..<b + Suc n} M s) =
      Inr ((), held {Suc b..<Suc b + n} M (upd_granule b (eor_state GRANULE_STATE_RTT) s))"
    using 2(2) [of b] by (simp add: granule_unlock_transition_held granule_unlocked_invariants_def granule_states)
  then show ?case using 2 by (simp add: run_simps)
qed (simp add: run_simps)

definition new_rd :: "(hash_algo \<Rightarrow> u8 list \<Rightarrow> u8 list) \<Rightarrow> rmi_realm_params \<Rightarrow> nat \<Rightarrow> rd \<Rightarrow> rd" where
  "new_rd hash p b rd = (let rd' = init_rd p (Some b) rd in
     rd'\<lparr>measurement := (measurement rd')[RIM_MEASUREMENT_SLOT :=
       measurement_realm_params_measure hash (measurement rd' ! RIM_MEASUREMENT_SLOT) (rd_algorithm rd') p]\<rparr>)"

definition realm_created :: "(hash_algo \<Rightarrow> u8 list \<Rightarrow> u8 list) \<Rightarrow> rmi_realm_params \<Rightarrow> nat \<Rightarrow> nat \<Rightarrow> rmm \<Rightarrow> rmm" where
  "realm_created hash p g b s =
    (let n = unat (rp_rtt_num_start p); rd = new_rd hash p b (d_rd (mem s g))
     in rtt_states b n (upd_granule g (eor_state GRANULE_STATE_RD)
          (upd_mem g (\<lambda>d. d\<lparr>d_rd := rd\<rparr>) (set_roots (rd_s2_ctx rd) b 0 n s))))"

lemma create_realm_held:
  assumes cpu: "cpu_ok cpu" "params_ok cpu p" and idle: "idle s"
    and g: "granule_in s rd_addr GRANULE_STATE_DELEGATED = Some g" and d: "rtts_delegated s (rp_rtt_base p) n"
    and n: "n = unat (rp_rtt_num_start p)" and b: "granule_at (arm_dram s) (rp_rtt_base p) = Some b" and gb: "g \<notin> rtt_range b n"
  shows "create_realm hash p g b (held (insert g (rtt_range b n)) no_slots s) = Inr (RMI_SUCCESS, realm_created hash p g b s)"
proof -
  note id = idleD [OF idle] and gi = granule_inD [OF g]
  have r: "valid_g (arm_dram s) h \<and> STATE (granules s h) = GRANULE_STATE_DELEGATED" if "b \<le> h" "h < b + n" for h
    using granule_inD(2,3) [OF rtts_at [OF id(3) d b, of "h - b"]] that by auto
  have z: "words (mem s h) = replicate 512 0" if "b \<le> h" "h < b + n" for h
    using id(7) [of h] r [OF that] by (simp add: zero_data_def)
  have rc: "REFCOUNT (granules s h) = 0" if "h = g \<or> b \<le> h \<and> h < b + n" for h
    using id(5) [of h] r [of h] gi(2) that by (auto simp: granule_unlocked_invariants_def granule_states)
  let ?L = "insert g (rtt_range b n)" and ?M = "no_slots(SLOT_RD := Some g)" and ?rd = "init_rd p (Some b) (d_rd (mem s g))"
  let ?s1 = "upd_mem g (\<lambda>d. d\<lparr>d_rd := ?rd\<rparr>) s" and ?rd' = "new_rd hash p b (d_rd (mem s g))"
  have c: "rd_s2_ctx ?rd' = rd_s2_ctx ?rd" by (simp add: new_rd_def Let_def)
  let ?s2 = "set_roots (rd_s2_ctx ?rd) b 0 n ?s1" let ?s3 = "upd_mem g (\<lambda>d. d\<lparr>d_rd := ?rd'\<rparr>) (set_roots (rd_s2_ctx ?rd') b 0 n s)"
  have in_s1: "b \<le> h \<Longrightarrow> h < b + unat (rp_rtt_num_start p) \<Longrightarrow> valid_g (arm_dram ?s1) h \<and> words (mem ?s1 h) = replicate 512 0" for h
    using r z gb n by auto
  have in_s: "init_s2_starting_level ?rd (held ?L ?M ?s1) = Inr ((), held ?L ?M ?s2)"
    using init_starting_level_held [OF cpu refl refl, of ?s1 ?M b "d_rd (mem s g)" ?L] in_s1 id(3) n by (simp add: slot_numbers)
  have g2: "mem ?s2 g = (mem s g)\<lparr>d_rd := ?rd\<rparr>" using gb by (auto simp: set_roots_def)
  have s3: "upd_mem g (\<lambda>d. d\<lparr>d_rd := ?rd'\<rparr>) ?s2 = ?s3"
    using gb by (auto simp: set_roots_def upd_mem_def c fun_eq_iff)
  have ms: "measure_params hash g p (held ?L ?M ?s2) = Inr ((), held ?L ?M ?s3)"
    using g2 s3 by (simp add: measure_params_def run_simps held_simps new_rd_def Let_def)
  have l: "?L - {g} = {b..<b + n}" using gb by (auto simp: rtt_range_def)
  have f3: "granules ?s3 = granules s" "arm_dram ?s3 = arm_dram s" by (simp_all add: set_roots_def)
  have ut: "granule_unlock_transition g GRANULE_STATE_RD (held ?L no_slots ?s3) =
      Inr ((), held {b..<b + n} no_slots (upd_granule g (eor_state GRANULE_STATE_RD) ?s3))"
    using granule_unlock_transition_held [of g ?L GRANULE_STATE_RD ?s3 no_slots] l id(2) [of g] rc [of g] f3
    by (simp add: granule_unlocked_invariants_def granule_states)
  have tr: "transition_rtts b n (held {b..<b + n} no_slots (upd_granule g (eor_state GRANULE_STATE_RD) ?s3)) =
      Inr ((), held {} no_slots (realm_created hash p g b s))"
    unfolding realm_created_def Let_def n [symmetric]
    by (rule transition_rtts_held) (use id(2) rc gb f3 in \<open>auto simp: upd_granule_def\<close>)
  have "slots (realm_created hash p g b s) = no_slots" using id(4) by (simp add: realm_created_def Let_def set_roots_def)
  then show ?thesis
    using tr ut ms in_s gi(3) id(3) n b held_empty [of "realm_created hash p g b s"]
    by (simp add: create_realm_def run_simps held_simps)
qed

section \<open>The new state\<close>

lemma realm_created_fields:
  shows "arm_dram (realm_created hash p g b s) = arm_dram s" "slots (realm_created hash p g b s) = slots s"
    "vmids (realm_created hash p g b s) = vmids s" "feat_vmid16 (realm_created hash p g b s) = feat_vmid16 s"
    "granules (realm_created hash p g b s) h =
      (let x = if h = g then eor_state GRANULE_STATE_RD (granules s h) else granules s h
       in if b \<le> h \<and> h < b + unat (rp_rtt_num_start p) then eor_state GRANULE_STATE_RTT x else x)"
    "h \<noteq> g \<Longrightarrow> mem (realm_created hash p g b s) h =
      (if b \<le> h \<and> h < b + unat (rp_rtt_num_start p)
       then (mem s h)\<lparr>words := root_words (rd_s2_ctx (init_rd p (Some b) (d_rd (mem s g)))) (h - b)\<rparr> else mem s h)"
    "g \<notin> rtt_range b (unat (rp_rtt_num_start p)) \<Longrightarrow> mem (realm_created hash p g b s) g = (mem s g)\<lparr>d_rd := new_rd hash p b (d_rd (mem s g))\<rparr>"
  by (auto simp: realm_created_def Let_def rtt_states_granules upd_granule_def set_roots_def new_rd_def)

lemma realm_created_inv:
  fixes hash :: "hash_algo \<Rightarrow> u8 list \<Rightarrow> u8 list"
  assumes inv: "realm_inv s" and cpu: "cpu_ok cpu" "params_ok cpu p"
    and g: "granule_in s rd_addr GRANULE_STATE_DELEGATED = Some g" and d: "rtts_delegated s (rp_rtt_base p) n"
    and n: "n = unat (rp_rtt_num_start p)" and b: "granule_at (arm_dram s) (rp_rtt_base p) = Some b" and gb: "g \<notin> rtt_range b n"
  defines "s' \<equiv> realm_created hash p g b s"
  shows "realm_inv s'" "maps s' h P x \<longleftrightarrow> maps s h P x" "is_realm s' h \<longleftrightarrow> is_realm s h \<or> h = g"
    "h \<noteq> g \<Longrightarrow> is_realm s h \<Longrightarrow> realm_ctx s' h = realm_ctx s h" "realm_ctx s' g = rd_s2_ctx (init_rd p (Some b) (d_rd (mem s g)))"
    "bare_realm s' g"
proof -
  note idle = realm_invD(1) [OF inv] note id = idleD [OF idle] and gi = granule_inD [OF g]
  note f = realm_created_fields [where hash = hash and p = p and g = g and b = b and s = s, folded s'_def n]
  have r: "valid_g (arm_dram s) h \<and> STATE (granules s h) = GRANULE_STATE_DELEGATED" if "b \<le> h" "h < b + n" for h
    using granule_inD(2,3) [OF rtts_at [OF id(3) d b, of "h - b"]] that by auto
  have rc: "REFCOUNT (granules s h) = 0" if "h = g \<or> b \<le> h \<and> h < b + n" for h
    using id(5) [of h] r [of h] gi(2) that by (auto simp: granule_unlocked_invariants_def granule_states)
  have st: "STATE (granules s' h) = (if h = g then GRANULE_STATE_RD else if b \<le> h \<and> h < b + n then GRANULE_STATE_RTT else STATE (granules s h))"
    and rf: "REFCOUNT (granules s' h) = REFCOUNT (granules s h)" and lk: "\<not> LOCKED (granules s' h)" for h
    using gb id(2) [of h] by (auto simp: f(5) Let_def)
  have deleg: "h = g \<or> b \<le> h \<and> h < b + n \<Longrightarrow> STATE (granules s h) = GRANULE_STATE_DELEGATED" for h using gi(2) r by auto
  show c: "realm_ctx s' g = rd_s2_ctx (init_rd p (Some b) (d_rd (mem s g)))"
    using f(7) gb by (simp add: realm_ctx_def new_rd_def Let_def)
  have wfc: "wf_ctx (realm_ctx s' g)" using params_ctx_wf [OF cpu, of "Some b"] c by simp
  have cf: "num_root_rtts (realm_ctx s' g) = rp_rtt_num_start p" "g_rtt (realm_ctx s' g) = Some b" by (simp_all add: c init_rd_def Let_def)
  show rl: "is_realm s' h \<longleftrightarrow> is_realm s h \<or> h = g" for h
    using st [of h] gi(3) deleg [of h] f(1) by (auto simp: is_realm_def granule_states)
  have other: "mem s' h = mem s h" "granules s' h = granules s h" if "STATE (granules s h) \<noteq> GRANULE_STATE_DELEGATED" for h
  proof -
    have "h \<noteq> g" "\<not> (b \<le> h \<and> h < b + n)" using that deleg [of h] by blast+
    then show "mem s' h = mem s h" "granules s' h = granules s h" using f(5) [of h] f(6) [OF \<open>h \<noteq> g\<close>] by (simp_all only: Let_def if_False)
  qed
  show oc: "realm_ctx s' h = realm_ctx s h" if "h \<noteq> g" "is_realm s h" for h
    using other(1) [of h] that(2) by (simp add: realm_ctx_def is_realm_def granule_states)
  have rtt: "is_rtt s' t" "mem s' t = mem s t" "granules s' t = granules s t" if "is_rtt s t" for t
    using other [of t] that f(1) by (simp_all add: is_rtt_def granule_states)
  show bare: "bare_realm s' g"
    unfolding bare_realm_def Let_def
  proof (intro conjI allI impI wfc)
    fix k assume k: "k < unat (num_root_rtts (realm_ctx s' g))"
    let ?t = "the (g_rtt (realm_ctx s' g)) + k"
    have t: "b \<le> ?t" "?t < b + n" "?t \<noteq> g" "?t - b = k" using k cf n gb by auto
    show "is_rtt s' ?t" using st [of ?t] t r [of ?t] f(1) by (simp add: is_rtt_def)
    show "REFCOUNT (granules s' ?t) = 0" using rf rc t by simp
    fix i :: nat assume i: "i < 512"
    have "words (mem s' ?t) ! i = root_entry (realm_ctx s' g) (k * 512 + i)"
      using f(6) [OF t(3)] t i by (simp add: root_words_nth c)
    then show "entry_ok s' (realm_ctx s' g) 0 (k * 512 + i) (words (mem s' ?t) ! i)"
      "\<not> counted (words (mem s' ?t) ! i) (level (realm_ctx s' g) 0)"
      using root_entry_ok [OF wfc] by simp_all
  qed
  have ch: "one_realm_changed s s' g"
    unfolding one_realm_changed_def
    using f(1) rl oc rtt tree_okD(2) [OF realm_invD(2) [OF inv]] by metis
  have "idle s'"
  proof (rule idle_change [OF idle f(1,2) lk])
    fix h
    show "length (words (mem s' h)) = 512" using f(6) [of h] f(7) gb id(6) [of h] by (cases "h = g") auto
    show "REFCOUNT (granules s' h) = REFCOUNT (granules s h) \<and> STATE (granules s' h) = STATE (granules s h) \<or> granule_inv (granules s' h)"
      using st [of h] rf [of h] rc [of h] by (auto simp: granule_unlocked_invariants_def granule_states)
    show "STATE (granules s' h) = GRANULE_STATE_DELEGATED \<Longrightarrow>
        STATE (granules s h) = GRANULE_STATE_DELEGATED \<and> mem s' h = mem s h \<or> mem s' h = zero_data"
      using st [of h] f(6) [of h] by (auto simp: granule_states split: if_splits)
  qed
  have fresh: "t \<noteq> the (g_rtt (realm_ctx s' g)) + b'"
    if "in_tree s h k a t" "b' < unat (num_root_rtts (realm_ctx s' g))" for h k a t b'
    using tree_okD(2) [OF realm_invD(2) [OF inv] that(1)] that(2) r [of "b + b'"] cf n by (auto simp: is_rtt_def granule_states)
  have ng: "\<not> maps s g P d" for P d using gi(2) ent_realm by (auto simp: maps_def is_realm_def granule_states)
  have dt: "STATE (granules s' d) = GRANULE_STATE_DATA" if "maps s h P d" for h P d
    using other(2) [of d] realm_invD(5) [OF inv that] by (simp add: granule_states)
  show "realm_inv s'" by (rule one_realm_changed_inv(1) [OF inv \<open>idle s'\<close> ch bare]) (use fresh dt in blast)+
  show "maps s' h P x \<longleftrightarrow> maps s h P x"
    using one_realm_changed_inv(2) [OF inv \<open>idle s'\<close> ch bare, of h P x] fresh dt ng by blast
qed

section \<open>The command\<close>

lemma get_params_run:
  assumes "idle s"
  shows "get_realm_params ns_params a s =
    Inr (case granule_in s a GRANULE_STATE_NS of None \<Rightarrow> None | Some g \<Rightarrow> if snd (ns_params g) then Some (fst (ns_params g)) else None, s)"
proof -
  note id = idleD [OF assms]
  have "ns_read_params ns_params SLOT_NS g s = Inr (if snd (ns_params g) then Some (fst (ns_params g)) else None, s)"
    if "granule_at (arm_dram s) a = Some g" for g
  proof -
    have "(s\<lparr>slots := (slots s)(SLOT_NS := Some g)\<rparr>)\<lparr>slots := ((slots s)(SLOT_NS := Some g))(SLOT_NS := None)\<rparr> = s"
      using id(4) slots_restore [of s SLOT_NS] by simp
    then show ?thesis using that id(3,4)
      by (simp add: ns_read_params_def run_simps granule_addr_run [OF id(3) that] buffer_unmap_def split: prod.split)
  qed
  then show ?thesis
    using id(3) by (auto simp: get_realm_params_def run_simps granule_unlocked_state_def granule_in_def split: option.split)
qed

text \<open>The conditions of realm creation; \<open>g\<close> becomes the descriptor and the tables start at the granule \<open>b\<close>.\<close>

definition realm_creatable :: "cpu_regs \<Rightarrow> (nat \<Rightarrow> rmi_realm_params \<times> bool) \<Rightarrow> rmm \<Rightarrow> u64 \<Rightarrow> u64 \<Rightarrow> rmi_realm_params \<Rightarrow> nat \<Rightarrow> nat \<Rightarrow> bool" where
  "realm_creatable cpu ns_params s rd_addr params_addr p g b \<longleftrightarrow>
    (\<exists>gp. granule_in s params_addr GRANULE_STATE_NS = Some gp \<and> ns_params gp = (p, True)) \<and>
    params_ok cpu p \<and> vmid_free_for s (ucast (rp_vmid p)) \<and>
    granule_in s rd_addr GRANULE_STATE_DELEGATED = Some g \<and>
    rtts_delegated s (rp_rtt_base p) (unat (rp_rtt_num_start p)) \<and> granule_at (arm_dram s) (rp_rtt_base p) = Some b \<and>
    g \<notin> rtt_range b (unat (rp_rtt_num_start p))"

lemma rtt_base_range:
  assumes inv: "realm_inv s" and b: "granule_at (arm_dram s) base = Some b" and n: "0 < n" "n \<le> 16"
  shows "i < n \<Longrightarrow> unat (base + of_nat i * GRANULE_SIZE) = unat base + i * 4096"
    "addr_is_contained base (base + of_nat n * GRANULE_SIZE) a \<longleftrightarrow> unat base \<le> unat a \<and> unat a < unat base + n * 4096"
proof -
  have lt: "unat base < 2 ^ 52" using realm_invD(7) [OF inv b] .
  have u: "unat (base + of_nat i * GRANULE_SIZE) = unat base + i * 4096" if "i \<le> 16" for i
  proof -
    have i: "unat (of_nat i * GRANULE_SIZE :: u64) = i * 4096"
      using that unat_of_nat [of "i * 4096", where ?'a = 64] by (simp add: GRANULE_SIZE_def)
    then show ?thesis using lt that by (subst unat_add_nowrap) simp_all
  qed
  then show "i < n \<Longrightarrow> unat (base + of_nat i * GRANULE_SIZE) = unat base + i * 4096" using n by simp
  have e: "unat (base + of_nat n * GRANULE_SIZE) = unat base + n * 4096" using u n by simp
  then have "base + of_nat n * GRANULE_SIZE \<noteq> 0" using n by (metis add_is_0 less_irrefl mult_is_0 unat_0 zero_neq_numeral)
  then have e': "unat (base + of_nat n * GRANULE_SIZE - 1) = unat base + n * 4096 - 1" using e unat_dec by metis
  show "addr_is_contained base (base + of_nat n * GRANULE_SIZE) a \<longleftrightarrow> unat base \<le> unat a \<and> unat a < unat base + n * 4096"
    unfolding addr_is_contained_def word_less_nat_alt word_le_nat_alt e' using n by auto
qed

lemma contained_iff:
  assumes inv: "realm_inv s" and b: "granule_at (arm_dram s) base = Some b" and d: "rtts_delegated s base n" and n: "0 < n" "n \<le> 16"
    and g: "granule_at (arm_dram s) rd_addr = Some g"
  shows "addr_is_contained base (base + of_nat n * GRANULE_SIZE) rd_addr \<longleftrightarrow> g \<in> rtt_range b n"
proof -
  note wf = idleD(3) [OF realm_invD(1) [OF inv]] and br = rtt_base_range [OF inv b n]
  have al: "unat base mod 4096 = 0" "unat rd_addr mod 4096 = 0"
    using granule_at_aligned [OF b wf] granule_at_aligned [OF g wf] by (simp_all add: GRANULE_ALIGNED_unat)
  have at: "granule_at (arm_dram s) (base + of_nat i * GRANULE_SIZE) = Some (b + i)" if "i < n" for i
    using granule_inD(1) [OF rtts_at [OF wf d b that]] .
  show ?thesis unfolding br(2)
  proof
    assume c: "unat base \<le> unat rd_addr \<and> unat rd_addr < unat base + n * 4096"
    define i where "i = (unat rd_addr - unat base) div 4096"
    have "(unat rd_addr - unat base) mod 4096 = 0" using al c by (simp add: mod_eq_0_iff_dvd dvd_diff_nat)
    moreover have "unat rd_addr - unat base < n * 4096" using c by linarith
    ultimately have i: "unat rd_addr = unat base + i * 4096" "i < n"
      using c div_mult_mod_eq [of "unat rd_addr - unat base" 4096] less_mult_imp_div_less [of _ n 4096] by (simp_all add: i_def)
    then have "rd_addr = base + of_nat i * GRANULE_SIZE" using br(1) [OF i(2)] by (simp add: word_unat_eq_iff)
    then show "g \<in> rtt_range b n" using at [OF i(2)] g i(2) by simp
  next
    assume "g \<in> rtt_range b n"
    then have i: "g - b < n" "b + (g - b) = g" by auto
    then have "rd_addr = base + of_nat (g - b) * GRANULE_SIZE" using at [OF i(1)] granule_at_inj [OF wf g] by simp
    then have "unat rd_addr = unat base + (g - b) * 4096" using br(1) [OF i(1)] by simp
    moreover have "(g - b) * 4096 < n * 4096" using i(1) by simp
    ultimately show "unat base \<le> unat rd_addr \<and> unat rd_addr < unat base + n * 4096" by linarith
  qed
qed

lemma vmids_frame:
  assumes "realm_inv s"
  shows "realm_inv (s\<lparr>vmids := m\<rparr>)" "maps (s\<lparr>vmids := m\<rparr>) g P d = maps s g P d"
proof -
  have "idle (s\<lparr>vmids := m\<rparr>)" by (rule idle_change [OF realm_invD(1) [OF assms]]) (use idleD [OF realm_invD(1) [OF assms]] in auto)
  moreover have "same_realms s (s\<lparr>vmids := m\<rparr>)" by (simp add: same_realms_def is_realm_def realm_ctx_def)
  ultimately show "realm_inv (s\<lparr>vmids := m\<rparr>)" "maps (s\<lparr>vmids := m\<rparr>) g P d = maps s g P d"
    using realm_inv_frame [OF assms] by (auto simp: is_rtt_def)
qed

lemma create_conditions_same:
  "granule_in (s\<lparr>vmids := m\<rparr>) a st = granule_in s a st" "rtts_delegated (s\<lparr>vmids := m\<rparr>) base n = rtts_delegated s base n"
proof -
  show i: "granule_in (s\<lparr>vmids := m\<rparr>) a st = granule_in s a st" for a st by (simp add: granule_in_def split: option.split)
  show "rtts_delegated (s\<lparr>vmids := m\<rparr>) base n = rtts_delegated s base n" unfolding rtts_delegated_def i ..
qed

lemma smc_realm_create_run:
  assumes inv: "realm_inv s" and wfv: "wf_vmids (vmids s)" and cpu: "cpu_ok cpu"
  shows "(\<exists>p g b m. realm_creatable cpu ns_params s rd_addr params_addr p g b \<and> wf_vmids m \<and>
      vmids_used m = insert (ucast (rp_vmid p)) (vmids_used (vmids s)) \<and>
      smc_realm_create hash cpu ns_params rd_addr params_addr s = Inr (RMI_SUCCESS, realm_created hash p g b (s\<lparr>vmids := m\<rparr>))) \<or>
    (\<nexists>p g b. realm_creatable cpu ns_params s rd_addr params_addr p g b) \<and>
      smc_realm_create hash cpu ns_params rd_addr params_addr s = Inr (RMI_ERROR_INPUT, s)"
proof -
  note idle = realm_invD(1) [OF inv] note id = idleD [OF idle] and gp = get_params_run [OF idle, of ns_params params_addr]
  let ?cr = "realm_creatable cpu ns_params s rd_addr params_addr"
  show ?thesis
  proof (cases "\<exists>gp p. granule_in s params_addr GRANULE_STATE_NS = Some gp \<and> ns_params gp = (p, True) \<and> params_ok cpu p \<and> vmid_free_for s (ucast (rp_vmid p))")
    case False
    have "smc_realm_create hash cpu ns_params rd_addr params_addr s = Inr (RMI_ERROR_INPUT, s)"
    proof (cases "granule_in s params_addr GRANULE_STATE_NS")
      case None
      then show ?thesis using gp by (simp add: smc_realm_create_def run_simps)
    next
      case (Some a)
      obtain p ok where a: "ns_params a = (p, ok)" by fastforce
      have "ok \<Longrightarrow> validate_realm_params cpu p s = Inr (False, s)"
        using False Some a params_ok_run [OF cpu, of p s] reserve_vmid_run(1) [OF wfv] by auto
      then show ?thesis using gp Some a by (cases ok) (simp_all add: smc_realm_create_def run_simps)
    qed
    then show ?thesis using False by (auto simp: realm_creatable_def)
  next
    case True
    then obtain gp p where p: "granule_in s params_addr GRANULE_STATE_NS = Some gp" "ns_params gp = (p, True)" "params_ok cpu p"
      "vmid_free_for s (ucast (rp_vmid p))" by blast
    let ?v = "ucast (rp_vmid p) :: u32" and ?n = "unat (rp_rtt_num_start p)" and ?base = "rp_rtt_base p"
    obtain m where m: "reserve_vmid ?v s = Inr (True, s\<lparr>vmids := m\<rparr>)" "wf_vmids m" "vmids_used m = insert ?v (vmids_used (vmids s))"
      "\<And>s1. vmids s1 = m \<Longrightarrow> feat_vmid16 s1 = feat_vmid16 s \<Longrightarrow> free_vmid ?v s1 = Inr ((), s1\<lparr>vmids := vmids s\<rparr>)"
      using reserve_vmid_run(2) [OF wfv p(4)] by blast
    let ?s1 = "s\<lparr>vmids := m\<rparr>"
    note inv1 = vmids_frame(1) [OF inv, of m] note idle1 = realm_invD(1) [OF inv1]
    have free: "free_vmid ?v ?s1 = Inr ((), s)" using m(4) [of ?s1] by simp
    note n = start_ok_tables(1,2) [OF params_okD(1) [OF cpu p(3)]]
    let ?run = "smc_realm_create hash cpu ns_params rd_addr params_addr s"
    have nn: "ucast (rp_rtt_num_start p) = (of_nat ?n :: u64)" by simp
    have start: "?run = (if addr_is_contained ?base (?base + of_nat ?n * GRANULE_SIZE) rd_addr
      then thenM (free_vmid ?v) (returnM RMI_ERROR_INPUT) ?s1
      else bindM (find_lock_rd_granules rd_addr ?base ?n) (\<lambda>locked.
       (case locked of
          None \<Rightarrow> thenM (free_vmid ?v) (returnM RMI_ERROR_INPUT)
        | Some (g_rd, g_rtt_base) \<Rightarrow> create_realm hash p g_rd g_rtt_base)) ?s1)"
      using gp p m(1) params_ok_run [OF cpu, of p s] by (simp add: smc_realm_create_def run_simps)
    have creat: "?cr p' g b \<longleftrightarrow> p' = p \<and> granule_in s rd_addr GRANULE_STATE_DELEGATED = Some g \<and>
      rtts_delegated s ?base ?n \<and> granule_at (arm_dram s) ?base = Some b \<and> g \<notin> rtt_range b ?n" for p' g b
      using p by (auto simp: realm_creatable_def)
    show ?thesis
    proof (cases "addr_is_contained ?base (?base + of_nat ?n * GRANULE_SIZE) rd_addr")
      case True
      have "\<not> ?cr p' g b" for p' g b
        unfolding creat using contained_iff [OF inv _ _ n, of ?base b rd_addr g] True granule_inD(1) by blast
      moreover have "?run = Inr (RMI_ERROR_INPUT, s)" unfolding start if_P [OF True] using free by (simp add: run_simps)
      ultimately show ?thesis by blast
    next
      case no: False
      have out: "rd_addr \<noteq> ?base + of_nat i * GRANULE_SIZE" if i: "i < ?n" and base: "granule_at (arm_dram ?s1) ?base \<noteq> None" for i
      proof -
        obtain b where b: "granule_at (arm_dram s) ?base = Some b" using base by auto
        have "i * 4096 < ?n * 4096" using i by simp
        then show ?thesis using no rtt_base_range [OF inv b n] i by auto
      qed
      note fl = find_lock_rd_granules_run [OF idle1 n(1) out, unfolded create_conditions_same]
      show ?thesis
      proof (cases "\<exists>g. granule_in s rd_addr GRANULE_STATE_DELEGATED = Some g \<and> rtts_delegated s ?base ?n")
        case False
        have "?run = Inr (RMI_ERROR_INPUT, s)"
          unfolding start if_not_P [OF no] using fl False free by (auto simp: run_simps split: option.splits)
        then show ?thesis using False creat by blast
      next
        case True
        then obtain g where g: "granule_in s rd_addr GRANULE_STATE_DELEGATED = Some g" and d: "rtts_delegated s ?base ?n" by blast
        obtain b where b: "granule_at (arm_dram s) ?base = Some b" using rtts_delegated_at [OF d n(1)] by auto
        have gb: "g \<notin> rtt_range b ?n" using contained_iff [OF inv b d n granule_inD(1) [OF g]] no by simp
        have "create_realm hash p g b (held (insert g (rtt_range b ?n)) no_slots ?s1) = Inr (RMI_SUCCESS, realm_created hash p g b ?s1)"
          by (rule create_realm_held [OF cpu p(3) idle1 _ _ refl _ gb, of rd_addr]) (use g d b in \<open>simp_all add: create_conditions_same\<close>)
        then have "?run = Inr (RMI_SUCCESS, realm_created hash p g b ?s1)"
          unfolding start if_not_P [OF no] using fl g d b by (simp add: run_simps)
        then show ?thesis using m g d b gb creat by blast
      qed
    qed
  qed
qed

lemma created_vmid_inv:
  assumes v: "vmid_inv s" and inv: "realm_inv s" and cpu: "cpu_ok cpu" and c: "realm_creatable cpu ns_params s rd_addr params_addr p g b"
    and m: "wf_vmids m" "vmids_used m = insert (ucast (rp_vmid p)) (vmids_used (vmids s))"
  shows "vmid_inv (realm_created hash p g b (s\<lparr>vmids := m\<rparr>))"
proof -
  let ?s1 = "s\<lparr>vmids := m\<rparr>" let ?s' = "realm_created hash p g b ?s1"
  note ci = realm_created_inv [OF vmids_frame(1) [OF inv, of m] cpu, of p rd_addr g, unfolded create_conditions_same]
  have r: "is_realm ?s' h \<longleftrightarrow> is_realm s h \<or> h = g" "h \<noteq> g \<Longrightarrow> is_realm s h \<Longrightarrow> realm_ctx ?s' h = realm_ctx s h"
    "vmid (realm_ctx ?s' g) = ucast (rp_vmid p)" for h
    using ci(3,4,5) [where b = b and hash = hash] c by (auto simp: realm_creatable_def is_realm_def realm_ctx_def init_rd_def Let_def)
  have "\<not> is_realm s g" using c by (auto simp: realm_creatable_def is_realm_def granule_states dest: granule_inD)
  have f: "vmids ?s' = m" "feat_vmid16 ?s' = feat_vmid16 s" using realm_created_fields(3,4) [where hash = hash and p = p and g = g and b = b and s = ?s1] by simp_all
  show ?thesis unfolding vmid_inv_def
  proof (intro conjI allI impI)
    show "wf_vmids (vmids ?s')" using m f by simp
    fix h assume h: "is_realm ?s' h"
    show "vmid (realm_ctx ?s' h) < vmid_count (feat_vmid16 ?s')" "vmid (realm_ctx ?s' h) \<in> vmids_used (vmids ?s')"
      using h r c m f vmid_invD(2,3) [OF v, of h] by (cases "h = g"; auto simp: realm_creatable_def vmid_free_for_def)+
  next
    fix h k assume "is_realm ?s' h" "is_realm ?s' k" "vmid (realm_ctx ?s' h) = vmid (realm_ctx ?s' k)"
    moreover have "vmid (realm_ctx s j) \<noteq> ucast (rp_vmid p)" if "is_realm s j" for j
      using vmid_invD(3) [OF v that] c by (auto simp: realm_creatable_def vmid_free_for_def)
    ultimately show "h = k" using r vmid_invD(4) [OF v, of h k] by metis
  qed
qed


section \<open>A concrete creation\<close>

lemma no_realms_inv:
  assumes "idle s" "\<And>g. \<not> is_realm s g" "\<And>a g. granule_at (arm_dram s) a = Some g \<Longrightarrow> unat a < 2 ^ 52"
  shows "realm_inv s" "\<not> maps s g P d"
proof -
  have t: "\<not> in_tree s g n b t" "\<not> ent s g n p e" for g n b t p e using assms(2) by (auto simp: in_tree_def ent_def)
  then show "\<not> maps s g P d" for g P d by (auto simp: maps_def)
  then show "realm_inv s" using assms t unfolding realm_inv_def tree_ok_def by blast
qed

definition demo_fresh :: rmm where
  "demo_fresh = demo_realm\<lparr>granules := (\<lambda>g. \<lparr>descriptor = if g = 1 \<or> g = 2 then 0x400 else 0, owner_tag = 0\<rparr>),
     mem := (\<lambda>_. zero_data), vmids := replicate 1024 0\<rparr>"

lemma demo_fresh_fields:
  "arm_dram demo_fresh = fvp_layout" "slots demo_fresh = no_slots" "mem demo_fresh g = zero_data" "vmids demo_fresh = replicate 1024 0"
  "\<not> LOCKED (granules demo_fresh g)" "REFCOUNT (granules demo_fresh g) = 0"
  "STATE (granules demo_fresh g) = (if g = 1 \<or> g = 2 then 1 else 0)"
  by (simp_all add: demo_fresh_def LOCKED_def REFCOUNT_def STATE_def GRN_LOCK_BIT_def
      REFCOUNT_MASK_def STATE_MASK_def MASK_def mask_eq_decr_exp demo_realm_def demo_rmm_def demo_state_def)

lemma demo_fresh_realms: "\<not> is_realm demo_fresh g"
  by (simp add: is_realm_def demo_fresh_fields granule_states)

lemma demo_fresh_inv: "realm_inv demo_fresh" "vmid_inv demo_fresh"
proof -
  have "idle demo_fresh"
    by (simp add: idle_def rmm_ok_def granules_ok_def delegated_zero_def demo_fresh_fields wf_fvp_layout granule_unlocked_invariants_def granule_states)
  then show "realm_inv demo_fresh" using no_realms_inv demo_fresh_realms fvp_layout_52 demo_fresh_fields by metis
  show "vmid_inv demo_fresh" by (simp add: vmid_inv_def demo_fresh_realms demo_fresh_fields wf_vmids_def)
qed

definition demo_cpu :: cpu_regs where
  "demo_cpu = \<lparr>id_aa64mmfr0_el1 = 5, id_aa64dfr0_el1 = 0x101700, id_aa64dfr1_el1 = 0, pmcr_el0 = 0,
     cpu_simd_cfg = zero_simd, vgic_num_lrs = 3, mdcr_el2 = 0\<rparr>"

definition demo_realm_params :: rmi_realm_params where
  "demo_realm_params = \<lparr>rp_flags = 0, rp_s2sz = 40, rp_sve_vl = 0, rp_num_bps = 1, rp_num_wps = 1, rp_pmu_num_ctrs = 0,
     rp_algorithm = 0, rp_rpv = replicate 64 0, rp_vmid = 7, rp_rtt_base = 0x80002000, rp_rtt_level_start = 0, rp_rtt_num_start = 1\<rparr>"

lemma demo_cpu_ok: "cpu_ok demo_cpu"
  by (simp add: cpu_ok_def demo_cpu_def EXTRACT_def MASK_def mask_eq_decr_exp read_pmu_version_def)

lemma demo_feature_register: "feature_register_0 demo_cpu = 0x28F04104030"
  by (simp add: feature_register_0_def result_of_def get_feature_register_0_def arch_feat_get_pa_width_def run_simps demo_cpu_def
      EXTRACT_def MASK_def INPLACE_def mask_eq_decr_exp read_pmu_version_def is_feat_lpa2_4k_present_def is_feat_lpa2_4k_2_present_def
      num_debug_regs_def zero_simd_def RMI_FEATURE_TRUE_def GRN_REFCOUNT_WIDTH_def Let_def)

lemma demo_params_ok: "params_ok demo_cpu demo_realm_params"
proof -
  have "\<not> params_rejected demo_cpu (feature_register_0 demo_cpu) demo_realm_params"
    by (simp add: params_rejected_def demo_feature_register demo_realm_params_def is_lpa2_requested_def EXTRACT_def MASK_def mask_eq_decr_exp
        RMI_FEATURE_TRUE_def RMI_FEATURE_FALSE_def)
  moreover have "result_of (validate_ipa_bits_and_sl demo_cpu 40 0 False)"
    by (simp add: result_of_def validate_ipa_bits_and_sl_def arch_feat_get_pa_width_def run_simps demo_cpu_def EXTRACT_def MASK_def
        mask_eq_decr_exp s2_inconsistent_sl_def Let_def)
  ultimately show ?thesis
    using check_params_value [OF demo_cpu_ok, of "feature_register_0 demo_cpu" demo_realm_params "()"]
    by (simp add: params_ok_def result_of_def [of "check_realm_params _ _ _"] demo_realm_params_def is_lpa2_requested_def
        EXTRACT_def MASK_def RMI_FEATURE_TRUE_def s2_num_root_rtts_def RMI_HASH_SHA_256_def Let_def)
qed

lemma demo_creatable:
  "realm_creatable demo_cpu (\<lambda>_. (demo_realm_params, True)) demo_fresh 0x80001000 0x80000000 p g b \<longleftrightarrow> p = demo_realm_params \<and> g = 1 \<and> b = 2"
proof -
  have b: "granule_at fvp_layout 0x80000000 = Some 0" "granule_at fvp_layout 0x80001000 = Some 1" "granule_at fvp_layout 0x80002000 = Some 2"
    using demo_granule_addr by (simp_all add: granule_at_def plat_granule_addr_to_idx_def addr_search.simps fvp_layout_def
      GRANULE_ALIGNED_def GRANULE_SIZE_def mid_def PLAT_ARM_MAX_DRAM_BANKS_def RMM_MAX_GRANULES_def)
  have "vmid_free_for demo_fresh 7"
    by (simp add: vmid_free_for_def vmids_used_def demo_fresh_fields vmid_count_def VMID8_COUNT_def VMID16_COUNT_def)
  then show ?thesis
    using demo_params_ok
    by (auto simp: realm_creatable_def granule_in_def demo_fresh_fields b granule_states rtts_delegated_def demo_realm_params_def)
qed


end
