(* ===== verification/Realm_Destroy.thy ===== *)
theory Realm_Destroy
  imports Realm_Create
begin

text \<open>
  The correctness of RMI\_REALM\_DESTROY: a realm without execution contexts, tables and data disappears, its granules
  go back to the host zeroed, and its VMID can be used again.
\<close>

section \<open>The loops over the starting level tables\<close>

definition root_count :: "rmm \<Rightarrow> nat \<Rightarrow> nat \<Rightarrow> nat" where
  "root_count s b n = (\<Sum>i < n. unat (REFCOUNT (granules s (b + i))))"

lemma root_count_Suc: "root_count s b (Suc n) = unat (REFCOUNT (granules s b)) + root_count s (Suc b) n"
  unfolding root_count_def by (subst sum.lessThan_Suc_shift) simp

lemma root_refcount_loop_held:
  assumes "idle s" "\<And>h. b \<le> h \<Longrightarrow> h < b + n \<Longrightarrow> is_rtt s h \<and> h \<notin> L"
  shows "root_refcount_loop b n rc (held L M s) = Inr (rc + of_nat (root_count s b n), held L M s)"
  using assms(2)
proof (induction b n rc rule: root_refcount_loop.induct)
  case (2 b n rc)
  have b: "is_rtt s b" "b \<notin> L" using 2(2) [of b] by auto
  have "granule_lock b GRANULE_STATE_RTT (held L M s) = Inr ((), held (insert b L) M s)"
    using b idle_lockable [OF assms(1)] is_rttD(2) [OF b(1)] by (simp add: granule_lock_held)
  moreover have "granule_unlock b (held (insert b L) M s) = Inr ((), held L M s)"
    using b idleD [OF assms(1)] by (simp add: granule_unlock_held)
  moreover have "granule_refcount_read b (held (insert b L) M s) = Inr (REFCOUNT (granules s b), held (insert b L) M s)"
    by (simp add: granule_refcount_read_def run_simps)
  ultimately show ?case using 2 by (simp add: run_simps root_count_Suc add.assoc)
qed (simp add: run_simps root_count_def)

fun freed_rtts :: "nat \<Rightarrow> nat \<Rightarrow> rmm \<Rightarrow> rmm" where
  "freed_rtts b 0 s = s"
| "freed_rtts b (Suc n) s = freed_rtts (Suc b) n (upd_granule b (eor_state GRANULE_STATE_DELEGATED) (upd_mem b (\<lambda>_. zero_data) s))"

lemma freed_rtts_fields [simp]:
  "arm_dram (freed_rtts b n s) = arm_dram s" "slots (freed_rtts b n s) = slots s" "tlb_log (freed_rtts b n s) = tlb_log s"
  "vmids (freed_rtts b n s) = vmids s" "feat_vmid16 (freed_rtts b n s) = feat_vmid16 s"
  by (induction b n s rule: freed_rtts.induct) simp_all

lemma freed_rtts_granules:
  "granules (freed_rtts b n s) h = (if b \<le> h \<and> h < b + n then eor_state GRANULE_STATE_DELEGATED (granules s h) else granules s h)"
  "mem (freed_rtts b n s) h = (if b \<le> h \<and> h < b + n then zero_data else mem s h)"
  by (induction b n s rule: freed_rtts.induct) (auto simp: upd_granule_def)

lemma free_sl_rtts_held:
  assumes "wf_dram (arm_dram s)" "M SLOT_RTT = None"
    and "\<And>h. b \<le> h \<Longrightarrow> h < b + n \<Longrightarrow> is_rtt s h \<and> h \<notin> L \<and> \<not> LOCKED (granules s h) \<and> REFCOUNT (granules s h) = 0"
  shows "free_sl_rtts b n (held L M s) = Inr ((), held L M (freed_rtts b n s))"
  using assms(1,3)
proof (induction b n arbitrary: s rule: free_sl_rtts.induct)
  case (2 b n)
  let ?s = "upd_mem b (\<lambda>_. zero_data) s"
  have b: "is_rtt s b" "b \<notin> L" "\<not> LOCKED (granules s b)" "REFCOUNT (granules s b) = 0" using 2(3) [of b] by auto
  have gi: "granule_inv (granules s b)" using is_rttD(2) [OF b(1)] b(4) by (simp add: granule_unlocked_invariants_def granule_states)
  have "granule_lock b GRANULE_STATE_RTT (held L M s) = Inr ((), held (insert b L) M s)"
    using b is_rttD(2) [OF b(1)] gi by (simp add: granule_lock_held lockable_def)
  moreover have "buffer_granule_memzero b SLOT_RTT (held (insert b L) M s) = Inr ((), held (insert b L) M ?s)"
    using memzero_run [of "held (insert b L) M s" b SLOT_RTT] 2(2) is_rttD(1) [OF b(1)] assms(2) by (simp add: held_upd)
  moreover have "granule_unlock_transition b GRANULE_STATE_DELEGATED (held (insert b L) M ?s) =
      Inr ((), held L M (upd_granule b (eor_state GRANULE_STATE_DELEGATED) ?s))"
    using b by (simp add: granule_unlock_transition_held granule_unlocked_invariants_def granule_states)
  ultimately show ?case using 2 by (simp add: run_simps is_rtt_def)
qed (simp add: run_simps)

section \<open>A realm that is not used any more\<close>

definition unused_realm :: "rmm \<Rightarrow> nat \<Rightarrow> bool" where
  "unused_realm s g \<longleftrightarrow> REFCOUNT (granules s g) = 0 \<and> bare_realm s g"

lemma root_in_tree: "is_realm s g \<Longrightarrow> b < unat (num_root_rtts (realm_ctx s g)) \<Longrightarrow> in_tree s g 0 b (the (g_rtt (realm_ctx s g)) + b)"
  by (simp add: in_tree_def)

lemma bare_iff_counts:
  assumes inv: "realm_inv s" and g: "is_realm s g"
  shows "bare_realm s g \<longleftrightarrow> root_count s (the (g_rtt (realm_ctx s g))) (unat (num_root_rtts (realm_ctx s g))) = 0"
proof -
  let ?c = "realm_ctx s g" let ?r = "the (g_rtt ?c)" and ?n = "unat (num_root_rtts ?c)"
  have z: "root_count s ?r ?n = 0 \<longleftrightarrow> (\<forall>b < ?n. REFCOUNT (granules s (?r + b)) = 0)"
    by (auto simp: root_count_def unat_eq_zero)
  have "bare_realm s g" if rc: "\<forall>b < ?n. REFCOUNT (granules s (?r + b)) = 0"
    unfolding bare_realm_def Let_def
  proof (intro conjI allI impI)
    show "wf_ctx ?c" using tree_okD(1) [OF realm_invD(2) [OF inv] g] .
    fix b assume b: "b < ?n"
    note t = root_in_tree [OF g b]
    show "is_rtt s (?r + b)" using tree_okD(2) [OF realm_invD(2) [OF inv] t] .
    show "REFCOUNT (granules s (?r + b)) = 0" using rc b by blast
    then have "refs s (level ?c 0) (?r + b) = 0" using realm_invD(4) [OF inv t] by simp
    fix i :: nat assume i: "i < 512"
    show "entry_ok s ?c 0 (b * 512 + i) (words (mem s (?r + b)) ! i)" using realm_invD(3) [OF inv entI [OF t i]] .
    show "\<not> counted (words (mem s (?r + b)) ! i) (level ?c 0)" using \<open>refs s (level ?c 0) (?r + b) = 0\<close> i by (simp add: refs_0)
  qed
  then show ?thesis unfolding z using bare_realmD(2) by blast
qed

definition realm_destroyed :: "nat \<Rightarrow> vmid_map \<Rightarrow> rmm \<Rightarrow> rmm" where
  "realm_destroyed g m s =
    (let c = realm_ctx s g
     in upd_granule g (eor_state GRANULE_STATE_DELEGATED) (upd_mem g (\<lambda>_. zero_data)
          (freed_rtts (the (g_rtt c)) (unat (num_root_rtts c)) (s\<lparr>vmids := m\<rparr>))))"

lemma realm_destroyed_fields:
  assumes "\<not> (the (g_rtt (realm_ctx s g)) \<le> g \<and> g < the (g_rtt (realm_ctx s g)) + unat (num_root_rtts (realm_ctx s g)))"
  defines "own \<equiv> \<lambda>h. h = g \<or> the (g_rtt (realm_ctx s g)) \<le> h \<and> h < the (g_rtt (realm_ctx s g)) + unat (num_root_rtts (realm_ctx s g))"
  shows "arm_dram (realm_destroyed g m s) = arm_dram s" "slots (realm_destroyed g m s) = slots s"
    "tlb_log (realm_destroyed g m s) = tlb_log s" "vmids (realm_destroyed g m s) = m" "feat_vmid16 (realm_destroyed g m s) = feat_vmid16 s"
    "granules (realm_destroyed g m s) h = (if own h then eor_state GRANULE_STATE_DELEGATED (granules s h) else granules s h)"
    "mem (realm_destroyed g m s) h = (if own h then zero_data else mem s h)"
  using assms(1) by (auto simp: own_def realm_destroyed_def Let_def freed_rtts_granules upd_granule_def)

lemma root_not_rd:
  assumes inv: "realm_inv s" and g: "is_realm s g"
  shows "the (g_rtt (realm_ctx s g)) \<le> h \<Longrightarrow> h < the (g_rtt (realm_ctx s g)) + unat (num_root_rtts (realm_ctx s g)) \<Longrightarrow> is_rtt s h \<and> h \<noteq> g"
proof -
  assume h: "the (g_rtt (realm_ctx s g)) \<le> h" "h < the (g_rtt (realm_ctx s g)) + unat (num_root_rtts (realm_ctx s g))"
  then have "in_tree s g 0 (h - the (g_rtt (realm_ctx s g))) h" using root_in_tree [OF g, of "h - the (g_rtt (realm_ctx s g))"] by simp
  then have "is_rtt s h" using tree_okD(2) [OF realm_invD(2) [OF inv]] by blast
  then show ?thesis using g by (auto simp: is_realm_def is_rtt_def granule_states)
qed

lemma held_vmids: "(held L M s)\<lparr>vmids := m\<rparr> = held L M (s\<lparr>vmids := m\<rparr>)"
  by (rule rmm.equality) (auto simp: held_def fun_eq_iff)

lemma smc_realm_destroy_run:
  assumes inv: "realm_inv s" and v: "vmid_inv s"
  shows "case granule_in s rd_addr GRANULE_STATE_RD of
      None \<Rightarrow> smc_realm_destroy rd_addr s = Inr (RMI_ERROR_INPUT, s)
    | Some g \<Rightarrow> if unused_realm s g
        then \<exists>m. smc_realm_destroy rd_addr s = Inr (RMI_SUCCESS, realm_destroyed g m s) \<and> wf_vmids m \<and>
          vmids_used m = vmids_used (vmids s) - {vmid (realm_ctx s g)}
        else smc_realm_destroy rd_addr s = Inr (RMI_ERROR_REALM, s)"
proof (cases "granule_in s rd_addr GRANULE_STATE_RD")
  note idle = realm_invD(1) [OF inv] note id = idleD [OF idle] and gok = rmm_okD(1) [OF idleD(1) [OF idle]]
  note fu = find_lock_unused_granule_run [OF gok, of rd_addr GRANULE_STATE_RD]
  {
    case None
    then show ?thesis using fu id(2) by (auto simp: smc_realm_destroy_def run_simps granule_in_def split: option.splits if_splits)
  next
    case (Some g)
    let ?c = "realm_ctx s g" let ?r = "the (g_rtt ?c)" and ?n = "unat (num_root_rtts ?c)"
    have realm: "is_realm s g" using is_realm_in [OF Some] .
    have wf: "wf_ctx ?c" using tree_okD(1) [OF realm_invD(2) [OF inv] realm] .
    note gi = granule_inD [OF Some] and nr = root_not_rd [OF inv realm]
    show ?thesis
    proof (cases "REFCOUNT (granules s g) = 0")
      case False
      then have "smc_realm_destroy rd_addr s = Inr (RMI_ERROR_REALM, s)"
        using fu id(2) gi(1,2) by (simp add: smc_realm_destroy_def run_simps)
      then show ?thesis using Some False by (simp add: unused_realm_def)
    next
      case True
      have lk: "find_lock_unused_granule rd_addr GRANULE_STATE_RD s = Inr (Unused g, held {g} no_slots s)"
      proof -
        have "upd_granule g set_lock s = held {g} no_slots s" using held_lock [of g "{}" no_slots s] held_empty [OF id(4)] by simp
        then show ?thesis using fu id(2) gi(1,2) True by simp
      qed
      let ?M = "no_slots(SLOT_RD := Some g)"
      have mp: "map_slot (Some g) SLOT_RD (held {g} no_slots s) = Inr ((), held {g} ?M s)" using gi(3) id(3) by (simp add: held_simps)
      have rd: "read_rd g (held {g} ?M s) = Inr (d_rd (mem s g), held {g} ?M s)" by (simp add: held_simps)
      have cnt: "total_root_rtt_refcount ?r ?n (held {g} ?M s) = Inr (of_nat (root_count s ?r ?n), held {g} ?M s)"
        unfolding total_root_rtt_refcount_def using root_refcount_loop_held [OF idle, of ?r ?n "{g}" 0 ?M] nr by simp
      have le: "root_count s ?r ?n \<le> 16 * 512"
      proof -
        have "unat (REFCOUNT (granules s (?r + i))) \<le> 512" if "i < ?n" for i
          using realm_invD(4) [OF inv root_in_tree [OF realm that]] refs_le by simp
        then have "root_count s ?r ?n \<le> of_nat (card {..<?n}) * 512" unfolding root_count_def by (intro sum_bounded_above) simp
        moreover have "?n \<le> 16" using wf by (simp add: wf_ctx_def word_le_nat_alt)
        ultimately show ?thesis by simp
      qed
      then have nz: "(of_nat (root_count s ?r ?n) :: u64) = 0 \<longleftrightarrow> root_count s ?r ?n = 0"
        using unat_of_nat [of "root_count s ?r ?n", where ?'a = 64] by (auto simp: word_unat_eq_iff)
      note start = smc_realm_destroy_def run_simps lk mp rd Let_def
      show ?thesis
      proof (cases "bare_realm s g")
        case False
        then have "(of_nat (root_count s ?r ?n) :: u64) \<noteq> 0" using nz bare_iff_counts [OF inv realm] by simp
        moreover have "buffer_unmap SLOT_RD (held {g} ?M s) = Inr ((), held {g} no_slots s)" "granule_unlock g (held {g} no_slots s) = Inr ((), s)"
          using id by (simp_all add: held_simps held_empty)
        ultimately have "smc_realm_destroy rd_addr s = Inr (RMI_ERROR_REALM, s)"
          using cnt by (simp add: start realm_ctx_def)
        then show ?thesis using Some False by (simp add: unused_realm_def)
      next
        case bare: True
        then have z: "(of_nat (root_count s ?r ?n) :: u64) = 0" using nz bare_iff_counts [OF inv realm] by simp
        obtain m where m: "vmid_free (feat_vmid16 s) (vmid ?c) (vmids s) = Inr m" "wf_vmids m"
          "vmids_used m = vmids_used (vmids s) - {vmid ?c}"
          using vmid.release_ok [OF vmid_invD(1) [OF v] vmid_invD(2) [OF v realm]] by blast
        let ?s1 = "s\<lparr>vmids := m\<rparr>" let ?s2 = "freed_rtts ?r ?n ?s1"
        have fv: "free_vmid (vmid ?c) (held {g} ?M s) = Inr ((), held {g} ?M ?s1)" using m(1) by (simp add: free_vmid_def held_vmids)
        have um: "buffer_unmap SLOT_RD (held {g} ?M ?s1) = Inr ((), held {g} no_slots ?s1)" by (simp add: held_simps)
        have fr: "free_sl_rtts ?r ?n (held {g} no_slots ?s1) = Inr ((), held {g} no_slots ?s2)"
        proof (rule free_sl_rtts_held)
          fix h assume h: "?r \<le> h" "h < ?r + ?n"
          then have "REFCOUNT (granules s h) = 0" using bare_realmD(2) [OF bare, of "h - ?r"] by simp
          then show "is_rtt ?s1 h \<and> h \<notin> {g} \<and> \<not> LOCKED (granules ?s1 h) \<and> REFCOUNT (granules ?s1 h) = 0"
            using nr [OF h] id(2) by (simp add: is_rtt_def)
        qed (use id(3) in simp_all)
        have g2: "granules ?s2 g = granules s g" "arm_dram ?s2 = arm_dram s" using nr [of g] by (auto simp: freed_rtts_granules)
        have mz: "buffer_granule_memzero g SLOT_RD (held {g} no_slots ?s2) = Inr ((), held {g} no_slots (upd_mem g (\<lambda>_. zero_data) ?s2))"
          using memzero_run [of "held {g} no_slots ?s2" g SLOT_RD] id(3) gi(3) by (simp add: held_upd)
        have ut: "granule_unlock_transition g GRANULE_STATE_DELEGATED (held {g} no_slots (upd_mem g (\<lambda>_. zero_data) ?s2)) =
            Inr ((), held {} no_slots (realm_destroyed g m s))"
          using granule_unlock_transition_held [of g "{g}" GRANULE_STATE_DELEGATED "upd_mem g (\<lambda>_. zero_data) ?s2" no_slots] g2 id(2) [of g] True
          by (simp add: realm_destroyed_def Let_def granule_unlocked_invariants_def granule_states)
        have "slots (realm_destroyed g m s) = no_slots" using id(4) by (simp add: realm_destroyed_def Let_def)
        then have "smc_realm_destroy rd_addr s = Inr (RMI_SUCCESS, realm_destroyed g m s)"
          using cnt z fv um fr mz ut held_empty [of "realm_destroyed g m s"] by (simp add: start realm_ctx_def)
        then show ?thesis using Some True bare m by (auto simp: unused_realm_def)
      qed
    qed
  }
qed

section \<open>The new state\<close>

lemma realm_destroyed_inv:
  fixes m :: vmid_map
  assumes inv: "realm_inv s" and g: "is_realm s g" and un: "unused_realm s g"
  defines "s' \<equiv> realm_destroyed g m s"
  shows "realm_inv s'" "maps s' h P d \<longleftrightarrow> maps s h P d" "is_realm s' h \<longleftrightarrow> is_realm s h \<and> h \<noteq> g"
    "h \<noteq> g \<Longrightarrow> is_realm s h \<Longrightarrow> realm_ctx s' h = realm_ctx s h"
proof -
  let ?c = "realm_ctx s g" let ?r = "the (g_rtt ?c)" and ?n = "unat (num_root_rtts ?c)"
  note idle = realm_invD(1) [OF inv] note id = idleD [OF idle] and nr = root_not_rd [OF inv g]
  have bare: "bare_realm s g" and rc0: "REFCOUNT (granules s g) = 0" using un by (simp_all add: unused_realm_def)
  have out: "\<not> (?r \<le> g \<and> g < ?r + ?n)" using nr by blast
  note f = realm_destroyed_fields [OF out, of m, folded s'_def]
  let ?own = "\<lambda>h. h = g \<or> ?r \<le> h \<and> h < ?r + ?n"
  have rc: "REFCOUNT (granules s h) = 0" if "?own h" for h using that bare_realmD(2) [OF bare, of "h - ?r"] rc0 by auto
  have st: "STATE (granules s' h) = (if ?own h then GRANULE_STATE_DELEGATED else STATE (granules s h))"
    "REFCOUNT (granules s' h) = REFCOUNT (granules s h)" "\<not> LOCKED (granules s' h)" for h
    using id(2) [of h] by (auto simp: f(6))
  have same: "granules s' h = granules s h" "mem s' h = mem s h" if "\<not> ?own h" for h
    unfolding f(6,7) if_not_P [OF that] by (rule refl)+
  have no: "\<not> ?own h" if "is_realm s h" "h \<noteq> g" for h using that nr [of h] by (auto simp: is_realm_def is_rtt_def granule_states)
  show rl: "is_realm s' h \<longleftrightarrow> is_realm s h \<and> h \<noteq> g" for h
    using st(1) [of h] f(1) no [of h] by (auto simp: is_realm_def granule_states)
  show ctx: "realm_ctx s' h = realm_ctx s h" if "h \<noteq> g" "is_realm s h" for h
    using same(2) [OF no [OF that(2,1)]] by (simp add: realm_ctx_def)
  have tn: "\<not> ?own t" if t: "in_tree s h n b t" "h \<noteq> g" for h n b t
  proof
    assume "?own t"
    moreover have "t \<noteq> g" using tree_okD(2) [OF realm_invD(2) [OF inv] t(1)] g by (auto simp: is_realm_def is_rtt_def granule_states)
    ultimately have r: "?r + (t - ?r) = t" "t - ?r < ?n" by auto
    then have "in_tree s g 0 (t - ?r) t" using root_in_tree [OF g r(2)] by simp
    then show False using tree_okD(4) [OF realm_invD(2) [OF inv] t(1)] t(2) by blast
  qed
  have ch: "one_realm_changed s s' g"
    unfolding one_realm_changed_def
  proof (intro conjI allI impI)
    show "arm_dram s' = arm_dram s" using f(1) .
    show "is_realm s' h = is_realm s h" if "h \<noteq> g" for h using rl that by blast
    show "realm_ctx s' h = realm_ctx s h" if "h \<noteq> g" "is_realm s h" for h using ctx that by blast
    fix h n b t assume t: "h \<noteq> g" "in_tree s h n b t"
    show "is_rtt s' t" "words (mem s' t) = words (mem s t)" "REFCOUNT (granules s' t) = REFCOUNT (granules s t)"
      using same [OF tn [OF t(2,1)]] tree_okD(2) [OF realm_invD(2) [OF inv] t(2)] f(1) by (simp_all add: is_rtt_def)
  qed
  have "idle s'"
  proof (rule idle_change [OF idle f(1,2) st(3)])
    fix h
    show "length (words (mem s' h)) = 512" using f(7) [of h] id(6) [of h] by simp
    show "REFCOUNT (granules s' h) = REFCOUNT (granules s h) \<and> STATE (granules s' h) = STATE (granules s h) \<or> granule_inv (granules s' h)"
      using st(1,2) [of h] rc [of h] by (auto simp: granule_unlocked_invariants_def granule_states)
    show "STATE (granules s' h) = GRANULE_STATE_DELEGATED \<Longrightarrow>
        STATE (granules s h) = GRANULE_STATE_DELEGATED \<and> mem s' h = mem s h \<or> mem s' h = zero_data"
      using st(1) [of h] f(7) [of h] by (auto split: if_splits)
  qed
  have dt: "STATE (granules s' d) = GRANULE_STATE_DATA" if "maps s h P d" for h P d
  proof -
    have d: "STATE (granules s d) = GRANULE_STATE_DATA" using realm_invD(5) [OF inv that] .
    then have "\<not> ?own d" using nr [of d] g by (auto simp: is_realm_def is_rtt_def granule_states)
    then show ?thesis using same(1) d by simp
  qed
  have nr': "\<not> is_realm s' g" using rl by simp
  show "realm_inv s'" by (rule one_realm_changed_inv(1) [OF inv \<open>idle s'\<close> ch]) (use nr' dt in blast)+
  show "maps s' h P d \<longleftrightarrow> maps s h P d"
    using one_realm_changed_inv(2) [OF inv \<open>idle s'\<close> ch, of h P d] nr' dt bare_maps [OF bare] by blast
qed

lemma destroyed_vmid_inv:
  assumes v: "vmid_inv s" and inv: "realm_inv s" and g: "is_realm s g" and un: "unused_realm s g"
    and m: "wf_vmids m" "vmids_used m = vmids_used (vmids s) - {vmid (realm_ctx s g)}"
  shows "vmid_inv (realm_destroyed g m s)"
proof -
  have out: "\<not> (the (g_rtt (realm_ctx s g)) \<le> g \<and> g < the (g_rtt (realm_ctx s g)) + unat (num_root_rtts (realm_ctx s g)))"
    using root_not_rd [OF inv g] by blast
  note f = realm_destroyed_fields(4,5) [OF out] and d = realm_destroyed_inv(3,4) [OF inv g un]
  show ?thesis
    unfolding vmid_inv_def f d
    using m vmid_invD [OF v] g d(2) by (auto simp: f)
qed

text \<open>
  C7. Destruction of a realm. The command never faults. It succeeds exactly when no execution context refers to the
  realm and it has neither tables below the starting level nor data; then the descriptor and the starting level tables
  are delegated and zeroed, the VMID is free again, and the other realms have what they had. Otherwise nothing changes. No TLB
  invalidation is issued.
\<close>

theorem realm_destroy_correct:
  assumes inv: "realm_inv s" and v: "vmid_inv s"
  shows "\<exists>r s'. smc_realm_destroy rd_addr s = Inr (r, s') \<and> realm_inv s' \<and> vmid_inv s' \<and> tlb_log s' = tlb_log s \<and>
    (case granule_in s rd_addr GRANULE_STATE_RD of
       None \<Rightarrow> r = RMI_ERROR_INPUT \<and> s' = s
     | Some g \<Rightarrow> if unused_realm s g
         then r = RMI_SUCCESS \<and> (\<forall>h. is_realm s' h \<longleftrightarrow> is_realm s h \<and> h \<noteq> g) \<and> (\<forall>h P d. maps s' h P d \<longleftrightarrow> maps s h P d) \<and>
           vmid (realm_ctx s g) \<notin> vmids_used (vmids s') \<and>
           (\<forall>h. h = g \<or> (\<exists>b. in_tree s g 0 b h) \<longrightarrow> STATE (granules s' h) = GRANULE_STATE_DELEGATED \<and> mem s' h = zero_data)
         else r = RMI_ERROR_REALM \<and> s' = s)"
proof (cases "granule_in s rd_addr GRANULE_STATE_RD")
  case None
  then show ?thesis using smc_realm_destroy_run [OF inv v, of rd_addr] inv v by simp
next
  case (Some g)
  have g: "is_realm s g" using is_realm_in [OF Some] .
  show ?thesis
  proof (cases "unused_realm s g")
    case False
    then show ?thesis using smc_realm_destroy_run [OF inv v, of rd_addr] inv v Some by simp
  next
    case True
    obtain m where m: "smc_realm_destroy rd_addr s = Inr (RMI_SUCCESS, realm_destroyed g m s)" "wf_vmids m"
      "vmids_used m = vmids_used (vmids s) - {vmid (realm_ctx s g)}"
      using smc_realm_destroy_run [OF inv v, of rd_addr] Some True by auto
    let ?s' = "realm_destroyed g m s"
    have out: "\<not> (the (g_rtt (realm_ctx s g)) \<le> g \<and> g < the (g_rtt (realm_ctx s g)) + unat (num_root_rtts (realm_ctx s g)))"
      using root_not_rd [OF inv g] by blast
    note f = realm_destroyed_fields [OF out, of m]
    have own: "STATE (granules ?s' h) = GRANULE_STATE_DELEGATED \<and> mem ?s' h = zero_data" if "h = g \<or> (\<exists>b. in_tree s g 0 b h)" for h
      using that f(6,7) [of h] by (auto simp: in_tree_def split: if_splits)
    show ?thesis
      using m Some True realm_destroyed_inv [OF inv g True, where m = m] destroyed_vmid_inv [OF v inv g True m(2,3)] own f(3,4) by auto
  qed
qed

theorem realm_destroy_correct_witness:
  "\<exists>s s'. smc_realm_create demo_hash demo_cpu (\<lambda>_. (demo_realm_params, True)) 0x80001000 0x80000000 demo_fresh = Inr (RMI_SUCCESS, s) \<and>
    is_realm s 1 \<and> smc_realm_destroy 0x80001000 s = Inr (RMI_SUCCESS, s') \<and> \<not> is_realm s' 1 \<and> mem s' 1 = zero_data \<and> mem s' 2 = zero_data"
proof -
  let ?ns = "\<lambda>_. (demo_realm_params, True)"
  have y: "realm_creatable demo_cpu ?ns demo_fresh 0x80001000 0x80000000 demo_realm_params 1 2" using demo_creatable by blast
  obtain m where m: "wf_vmids m" "vmids_used m = insert (ucast (rp_vmid demo_realm_params)) (vmids_used (vmids demo_fresh))"
    "smc_realm_create demo_hash demo_cpu ?ns 0x80001000 0x80000000 demo_fresh =
       Inr (RMI_SUCCESS, realm_created demo_hash demo_realm_params 1 2 (demo_fresh\<lparr>vmids := m\<rparr>))"
    using smc_realm_create_run [OF demo_fresh_inv(1) vmid_invD(1) [OF demo_fresh_inv(2)] demo_cpu_ok, of ?ns "0x80001000" "0x80000000" demo_hash]
    unfolding demo_creatable by blast
  let ?s1 = "demo_fresh\<lparr>vmids := m\<rparr>" let ?s = "realm_created demo_hash demo_realm_params 1 2 ?s1"
  have c: "granule_in demo_fresh 0x80001000 GRANULE_STATE_DELEGATED = Some 1" "params_ok demo_cpu demo_realm_params"
    "rtts_delegated demo_fresh (rp_rtt_base demo_realm_params) (unat (rp_rtt_num_start demo_realm_params))"
    "granule_at (arm_dram demo_fresh) (rp_rtt_base demo_realm_params) = Some 2" "1 \<notin> rtt_range 2 (unat (rp_rtt_num_start demo_realm_params))"
    using y by (auto simp: realm_creatable_def)
  note ci = realm_created_inv [OF vmids_frame(1) [OF demo_fresh_inv(1), of m] demo_cpu_ok c(2), of "0x80001000" 1, unfolded create_conditions_same,
      OF c(1,3) refl _ c(5), where hash = demo_hash]
  have s: "realm_inv ?s" "is_realm ?s 1" "bare_realm ?s 1" using ci(1,3,6) c(4) by simp_all
  have v: "vmid_inv ?s" using created_vmid_inv [OF demo_fresh_inv(2,1) demo_cpu_ok y m(1,2)] .
  have "granules ?s 1 = eor_state GRANULE_STATE_RD (granules ?s1 1)" unfolding realm_created_fields(5) by simp
  moreover have "REFCOUNT (granules ?s1 1) = 0" using demo_fresh_fields(6) [of 1] by (simp del: One_nat_def)
  ultimately have "REFCOUNT (granules ?s 1) = 0" by (metis eor_state_fields(2) granule_state_less(3))
  then have un: "unused_realm ?s 1" using s(3) by (simp add: unused_realm_def)
  have a: "arm_dram ?s = fvp_layout"
    using realm_created_fields(1) [where hash = demo_hash and p = demo_realm_params and g = 1 and b = 2 and s = ?s1] by (simp add: demo_fresh_fields)
  have gi: "granule_in ?s 0x80001000 GRANULE_STATE_RD = Some 1"
    using s(2) a demo_granule_addr(1) by (simp add: granule_in_def is_realm_def)
  have t: "in_tree ?s 1 0 0 2"
    using bare_in_tree [OF s(3)] s(2) ci(5) c(4) by (simp add: init_rd_def Let_def demo_realm_params_def)
  have "\<exists>s'. smc_realm_destroy 0x80001000 ?s = Inr (RMI_SUCCESS, s') \<and> \<not> is_realm s' 1 \<and> mem s' 1 = zero_data \<and> mem s' 2 = zero_data"
    using realm_destroy_correct [OF s(1) v, of "0x80001000", unfolded gi option.case if_P [OF un]]
  proof (elim exE conjE)
    fix r s'
    assume "smc_realm_destroy 0x80001000 ?s = Inr (r, s')" "r = RMI_SUCCESS" "\<forall>h. is_realm s' h = (is_realm ?s h \<and> h \<noteq> 1)"
      "\<forall>h. h = 1 \<or> (\<exists>b. in_tree ?s 1 0 b h) \<longrightarrow> STATE (granules s' h) = GRANULE_STATE_DELEGATED \<and> mem s' h = zero_data"
    then show ?thesis using t by blast
  qed
  then show ?thesis using m(3) s(2) by blast
qed

end
