(* ===== verification/Rec_Aux.thy ===== *)
theory Rec_Aux
  imports Rmi_Rec Realm_Destroy
begin

text \<open>
  The auxiliary granules of an execution context. RMI\_REC\_CREATE claims them one after the other; when a granule other than the
  first cannot be claimed, the error path unlocks granules that are not locked and fails an assertion.
\<close>

section \<open>Claiming\<close>

fun set_states :: "u8 \<Rightarrow> nat list \<Rightarrow> rmm \<Rightarrow> rmm" where
  "set_states st [] s = s"
| "set_states st (g # gs) s = set_states st gs (upd_granule g (eor_state st) s)"

lemma set_states_fields [simp]:
  "arm_dram (set_states st gs s) = arm_dram s" "slots (set_states st gs s) = slots s" "mem (set_states st gs s) = mem s"
  "tlb_log (set_states st gs s) = tlb_log s" "vmids (set_states st gs s) = vmids s" "feat_vmid16 (set_states st gs s) = feat_vmid16 s"
  "tags (set_states st gs s) = tags s" "csm_region_ids (set_states st gs s) = csm_region_ids s"
  by (induction gs arbitrary: s) simp_all

lemma set_states_append: "set_states st (gs @ hs) s = set_states st hs (set_states st gs s)"
  by (induction gs arbitrary: s) simp_all

lemma eor_state_twice: "st < 32 \<Longrightarrow> st' < 32 \<Longrightarrow> eor_state st (eor_state st' x) = eor_state st x"
  by (rule granule_eqI) simp_all

lemma set_states_granules:
  "st < 32 \<Longrightarrow> granules (set_states st gs s) g = (if g \<in> set gs then eor_state st (granules s g) else granules s g)"
  by (induction gs arbitrary: s) (auto simp: upd_granule_def eor_state_twice)

text \<open>The granules at the addresses, if all are delegated and distinct.\<close>

definition aux_granules :: "rmm \<Rightarrow> u64 list \<Rightarrow> nat list \<Rightarrow> bool" where
  "aux_granules s addrs gs \<longleftrightarrow> map (\<lambda>a. granule_in s a GRANULE_STATE_DELEGATED) addrs = map Some gs \<and> distinct gs"

lemma aux_granules_states:
  assumes "aux_granules s addrs gs" "g \<in> set gs"
  shows "STATE (granules s g) = GRANULE_STATE_DELEGATED" "valid_g (arm_dram s) g"
proof -
  have "Some g \<in> set (map (\<lambda>a. granule_in s a GRANULE_STATE_DELEGATED) addrs)" using assms by (simp add: aux_granules_def)
  then obtain a where "granule_in s a GRANULE_STATE_DELEGATED = Some g" by auto
  from granule_inD [OF this] show "STATE (granules s g) = GRANULE_STATE_DELEGATED" "valid_g (arm_dram s) g" by blast+
qed

lemma aux_granules_unique: "aux_granules s addrs gs \<Longrightarrow> aux_granules s addrs gs' \<Longrightarrow> gs = gs'"
  by (metis aux_granules_def inj_Some list.inj_map_strong inj_def option.inject)

definition aux_claimed :: "nat list \<Rightarrow> rmm \<Rightarrow> rmm" where
  "aux_claimed gs s = set_states GRANULE_STATE_REC_AUX gs s"

lemma aux_claimed_fields [simp]:
  "arm_dram (aux_claimed gs s) = arm_dram s" "slots (aux_claimed gs s) = slots s" "mem (aux_claimed gs s) = mem s"
  "granules (aux_claimed gs s) g = (if g \<in> set gs then eor_state GRANULE_STATE_REC_AUX (granules s g) else granules s g)"
  by (simp_all add: aux_claimed_def set_states_granules)

lemma aux_claimed_idle:
  assumes "idle s" "\<And>g. g \<in> set gs \<Longrightarrow> STATE (granules s g) = GRANULE_STATE_DELEGATED"
  shows "idle (aux_claimed gs s)"
proof (rule idle_change [OF assms(1)])
  note id = idleD [OF assms(1)]
  fix h
  show "\<not> LOCKED (granules (aux_claimed gs s) h)" "length (words (mem (aux_claimed gs s) h)) = 512" using id by auto
  have "REFCOUNT (granules s h) = 0" if "h \<in> set gs"
    using idle_inv [OF assms(1) assms(2) [OF that]] by (simp add: granule_unlocked_invariants_def granule_states)
  then show "REFCOUNT (granules (aux_claimed gs s) h) = REFCOUNT (granules s h) \<and> STATE (granules (aux_claimed gs s) h) = STATE (granules s h) \<or>
      granule_inv (granules (aux_claimed gs s) h)"
    by (auto simp: granule_unlocked_invariants_def granule_states)
  show "STATE (granules (aux_claimed gs s) h) = GRANULE_STATE_DELEGATED \<Longrightarrow>
      STATE (granules s h) = GRANULE_STATE_DELEGATED \<and> mem (aux_claimed gs s) h = mem s h \<or> mem (aux_claimed gs s) h = zero_data"
    by (auto simp: granule_states split: if_splits)
qed simp_all

lemma aux_claimed_in:
  "granule_in (aux_claimed gs s) a GRANULE_STATE_DELEGATED =
     (case granule_in s a GRANULE_STATE_DELEGATED of None \<Rightarrow> None | Some g \<Rightarrow> if g \<in> set gs then None else Some g)"
  "(\<And>g. g \<in> set gs \<Longrightarrow> STATE (granules s g) = GRANULE_STATE_DELEGATED) \<Longrightarrow>
     granule_in (aux_claimed gs s) a GRANULE_STATE_RD = granule_in s a GRANULE_STATE_RD"
  by (auto simp: granule_in_def granule_states split: option.splits)

text \<open>Unlocking a granule that is not locked fails the assertion of \<^verbatim>\<open>granule_get_state\<close>.\<close>

lemma unlock_not_locked: "\<not> LOCKED (granules s g) \<Longrightarrow> granule_unlock g s = Inl Assert_Fail"
  by (simp add: granule_unlock_def granule_get_state_def run_simps)

lemma claim_aux_run:
  assumes idle: "idle s" and d: "\<forall>g \<in> set done. STATE (granules s g) = GRANULE_STATE_DELEGATED"
  shows "(\<exists>gs. aux_granules s addrs gs \<and> set done \<inter> set gs = {} \<and>
      claim_aux addrs done (aux_claimed done s) = Inr (Some (done @ gs), aux_claimed (done @ gs) s)) \<or>
    (\<nexists>gs. aux_granules s addrs gs \<and> set done \<inter> set gs = {}) \<and>
      claim_aux addrs done (aux_claimed done s) =
        (if done = [] \<and> granule_in s (hd addrs) GRANULE_STATE_DELEGATED = None then Inr (None, s) else Inl Assert_Fail)"
  using d
proof (induction addrs arbitrary: "done")
  case Nil
  then show ?case by (simp add: run_simps aux_granules_def)
next
  case (Cons a addrs)
  note id = idleD [OF idle]
  let ?s = "aux_claimed done s"
  have idle': "idle ?s" by (rule aux_claimed_idle [OF idle]) (use Cons.prems in blast)
  note id' = idleD [OF idle']
  have h: "?s = held {} no_slots ?s" by (rule idle_held [OF idle'])
  have fl: "find_lock_granule a GRANULE_STATE_DELEGATED ?s =
    (case granule_in ?s a GRANULE_STATE_DELEGATED of None \<Rightarrow> Inr (None, ?s) | Some g \<Rightarrow> Inr (Some g, held {g} no_slots ?s))"
    using find_lock_granule_held [of ?s a "{}" GRANULE_STATE_DELEGATED no_slots] id'(3) idle_lockable [OF idle'] h by (auto split: option.splits)
  show ?case
  proof (cases "granule_in ?s a GRANULE_STATE_DELEGATED")
    case None
    then have no: "\<nexists>gs. aux_granules s (a # addrs) gs \<and> set done \<inter> set gs = {}"
      by (auto simp: aux_claimed_in aux_granules_def split: option.splits if_splits)
    show ?thesis
    proof (cases "done")
      case Nil
      then show ?thesis using None no fl by (simp add: run_simps aux_claimed_def)
    next
      case (Cons g gs)
      have "granule_unlock g ?s = Inl Assert_Fail" using unlock_not_locked id'(2) by blast
      then show ?thesis using None no fl Cons by (simp add: run_simps)
    qed
  next
    case (Some g)
    then have g: "granule_in s a GRANULE_STATE_DELEGATED = Some g" "g \<notin> set done"
      by (auto simp: aux_claimed_in split: option.splits if_splits)
    note gi = granule_inD [OF g(1)]
    have rc: "REFCOUNT (granules s g) = 0" using idle_inv [OF idle gi(2)] by (simp add: granule_unlocked_invariants_def granule_states)
    have step: "upd_granule g (eor_state GRANULE_STATE_REC_AUX) ?s = aux_claimed (done @ [g]) s"
      by (simp add: aux_claimed_def set_states_append)
    have sl: "slots (aux_claimed (done @ [g]) s) = no_slots" using id(4) by simp
    have "granule_unlock_transition g GRANULE_STATE_REC_AUX (held {g} no_slots ?s) = Inr ((), aux_claimed (done @ [g]) s)"
      using granule_unlock_transition_held [of g "{g}" GRANULE_STATE_REC_AUX ?s no_slots] id'(2) [of g] rc g(2) step held_empty [OF sl]
      by (simp add: granule_unlocked_invariants_def granule_states)
    then have run: "claim_aux (a # addrs) done ?s = claim_aux addrs (done @ [g]) (aux_claimed (done @ [g]) s)"
      using fl Some by (simp add: run_simps)
    have iff: "(aux_granules s (a # addrs) hs \<and> set done \<inter> set hs = {}) \<longleftrightarrow>
        (\<exists>gs. hs = g # gs \<and> aux_granules s addrs gs \<and> set (done @ [g]) \<inter> set gs = {})" for hs
      using g by (cases hs) (auto simp: aux_granules_def)
    have "\<forall>h \<in> set (done @ [g]). STATE (granules s h) = GRANULE_STATE_DELEGATED" using Cons.prems gi(2) by auto
    from Cons.IH [OF this] show ?thesis
    proof (elim disjE exE conjE)
      fix gs assume c: "aux_granules s addrs gs" "set (done @ [g]) \<inter> set gs = {}"
        "claim_aux addrs (done @ [g]) (aux_claimed (done @ [g]) s) = Inr (Some ((done @ [g]) @ gs), aux_claimed ((done @ [g]) @ gs) s)"
      have "aux_granules s (a # addrs) (g # gs) \<and> set done \<inter> set (g # gs) = {}" using iff [of "g # gs"] c(1,2) by blast
      then show ?thesis using c(3) run by (metis append.assoc append_Cons append_Nil)
    next
      assume "\<nexists>gs. aux_granules s addrs gs \<and> set (done @ [g]) \<inter> set gs = {}"
        "claim_aux addrs (done @ [g]) (aux_claimed (done @ [g]) s) =
          (if done @ [g] = [] \<and> granule_in s (hd addrs) GRANULE_STATE_DELEGATED = None then Inr (None, s) else Inl Assert_Fail)"
      moreover from this(1) have "\<nexists>hs. aux_granules s (a # addrs) hs \<and> set done \<inter> set hs = {}" using iff by blast
      ultimately show ?thesis using run g(1) by simp
    qed
  qed
qed

lemma claim_aux_result:
  assumes "idle s"
  shows "(\<exists>gs. aux_granules s addrs gs \<and> claim_aux addrs [] s = Inr (Some gs, aux_claimed gs s)) \<or>
    (\<nexists>gs. aux_granules s addrs gs) \<and>
      claim_aux addrs [] s = (if granule_in s (hd addrs) GRANULE_STATE_DELEGATED = None then Inr (None, s) else Inl Assert_Fail)"
  using claim_aux_run [OF assms, of "[]" addrs] by (simp add: aux_claimed_def)

section \<open>Giving the granules back\<close>

definition aux_freed :: "bool \<Rightarrow> nat list \<Rightarrow> rmm \<Rightarrow> rmm" where
  "aux_freed scrub gs s = set_states GRANULE_STATE_DELEGATED gs (if scrub then s\<lparr>mem := \<lambda>g. if g \<in> set gs then zero_data else mem s g\<rparr> else s)"

lemma aux_freed_fields [simp]:
  "arm_dram (aux_freed scrub gs s) = arm_dram s" "slots (aux_freed scrub gs s) = slots s"
  "tlb_log (aux_freed scrub gs s) = tlb_log s" "vmids (aux_freed scrub gs s) = vmids s" "feat_vmid16 (aux_freed scrub gs s) = feat_vmid16 s"
  "tags (aux_freed scrub gs s) = tags s" "csm_region_ids (aux_freed scrub gs s) = csm_region_ids s"
  "mem (aux_freed scrub gs s) g = (if scrub \<and> g \<in> set gs then zero_data else mem s g)"
  "granules (aux_freed scrub gs s) g = (if g \<in> set gs then eor_state GRANULE_STATE_DELEGATED (granules s g) else granules s g)"
  by (auto simp: aux_freed_def set_states_granules)

lemma free_step:
  "aux_freed scrub gs (upd_granule g (eor_state GRANULE_STATE_DELEGATED) (if scrub then upd_mem g (\<lambda>_. zero_data) s else s)) = aux_freed scrub (g # gs) s"
  by (rule rmm.equality) (auto simp: aux_freed_def fun_eq_iff set_states_granules upd_granule_def eor_state_twice)

lemma free_rec_aux_held:
  assumes "wf_dram (arm_dram s)" "distinct gs" "i + length gs \<le> MAX_REC_AUX_GRANULES"
    and "\<And>k. SLOT_REC_AUX0 \<le> k \<Longrightarrow> k < SLOT_RTT \<Longrightarrow> M k = None"
    and "\<And>g. g \<in> set gs \<Longrightarrow> valid_g (arm_dram s) g \<and> STATE (granules s g) = GRANULE_STATE_REC_AUX \<and> g \<notin> L \<and> \<not> LOCKED (granules s g) \<and>
      REFCOUNT (granules s g) = 0"
  shows "free_rec_aux_granules i gs scrub (held L M s) = Inr ((), held L M (aux_freed scrub gs s))"
  using assms(1-3,5)
proof (induction gs arbitrary: i s)
  case Nil
  then show ?case by (simp add: run_simps aux_freed_def)
next
  case (Cons g gs)
  let ?s = "if scrub then upd_mem g (\<lambda>_. zero_data) s else s" let ?s' = "upd_granule g (eor_state GRANULE_STATE_DELEGATED) ?s"
  have g: "valid_g (arm_dram s) g" "STATE (granules s g) = GRANULE_STATE_REC_AUX" "g \<notin> L" "\<not> LOCKED (granules s g)" "REFCOUNT (granules s g) = 0"
    using Cons.prems(4) [of g] by simp_all
  have slot: "is_realm_slot (SLOT_REC_AUX0 + i)" "M (SLOT_REC_AUX0 + i) = None"
    using Cons.prems(3) assms(4) [of "SLOT_REC_AUX0 + i"] by (simp_all add: is_realm_slot_def slot_numbers MAX_REC_AUX_GRANULES_def)
  have "granule_lock g GRANULE_STATE_REC_AUX (held L M s) = Inr ((), held (insert g L) M s)"
    using g by (simp add: granule_lock_held lockable_def granule_unlocked_invariants_def granule_states)
  moreover have "(if scrub then buffer_granule_memzero g (SLOT_REC_AUX0 + i) else returnM ()) (held (insert g L) M s) = Inr ((), held (insert g L) M ?s)"
    using Cons.prems(1) g(1) slot by (simp add: memzero_held run_simps)
  moreover have "granule_unlock_transition g GRANULE_STATE_DELEGATED (held (insert g L) M ?s) = Inr ((), held L M ?s')"
    using g by (simp add: granule_unlock_transition_held granule_unlocked_invariants_def granule_states)
  moreover have "free_rec_aux_granules (Suc i) gs scrub (held L M ?s') = Inr ((), held L M (aux_freed scrub gs ?s'))"
    using Cons.prems by (intro Cons.IH) (auto simp: upd_granule_def)
  ultimately show ?case unfolding free_step by (simp add: run_simps)
qed

lemma free_claimed:
  assumes "\<And>g. g \<in> set gs \<Longrightarrow> STATE (granules s g) = GRANULE_STATE_DELEGATED"
  shows "aux_freed False gs (aux_claimed gs s) = s"
proof (rule rmm.equality)
  show "granules (aux_freed False gs (aux_claimed gs s)) = granules s"
    using assms by (auto simp: fun_eq_iff eor_state_twice eor_state_id)
qed (auto simp: aux_freed_def aux_claimed_def fun_eq_iff)

section \<open>Mapping\<close>

lemma map_aux_held:
  assumes "wf_dram (arm_dram s)" "\<And>g. g \<in> set gs \<Longrightarrow> valid_g (arm_dram s) g" "SLOT_REC_AUX0 \<le> k" "k + length gs \<le> SLOT_RTT"
    and "\<And>j. k \<le> j \<Longrightarrow> j < k + length gs \<Longrightarrow> M j = None"
  shows "map_aux k gs (held L M s) = Inr ((), held L (\<lambda>j. if k \<le> j \<and> j < k + length gs then Some (gs ! (j - k)) else M j) s)"
  using assms(2-)
proof (induction gs arbitrary: k M)
  case Nil
  have "(\<lambda>j. if k \<le> j \<and> j < k + length [] then Some ([] ! (j - k)) else M j) = M" by (auto simp: fun_eq_iff)
  then show ?case by (simp add: run_simps)
next
  case (Cons g gs)
  have "is_realm_slot k" "M k = None" using Cons.prems by (simp_all add: is_realm_slot_def slot_numbers)
  then have m: "map_slot (Some g) k (held L M s) = Inr ((), held L (M(k := Some g)) s)"
    using assms(1) Cons.prems by (simp add: map_slot_held)
  have "(\<lambda>j. if Suc k \<le> j \<and> j < Suc k + length gs then Some (gs ! (j - Suc k)) else (M(k := Some g)) j) =
    (\<lambda>j. if k \<le> j \<and> j < k + length (g # gs) then Some ((g # gs) ! (j - k)) else M j)"
    by (auto simp: fun_eq_iff nth_Cons' Suc_diff_Suc)
  moreover have "map_aux (Suc k) gs (held L (M(k := Some g)) s) =
      Inr ((), held L (\<lambda>j. if Suc k \<le> j \<and> j < Suc k + length gs then Some (gs ! (j - Suc k)) else (M(k := Some g)) j) s)"
    by (rule Cons.IH) (use Cons.prems in auto)
  ultimately show ?case using m by (simp add: run_thenM)
qed

lemma unmap_aux_held:
  assumes "\<And>j. k \<le> j \<Longrightarrow> j < k + n \<Longrightarrow> M j \<noteq> None"
  shows "unmap_aux k n (held L M s) = Inr ((), held L (\<lambda>j. if k \<le> j \<and> j < k + n then None else M j) s)"
  using assms
proof (induction n arbitrary: k M)
  case 0
  have "(\<lambda>j. if k \<le> j \<and> j < k + 0 then None else M j) = M" by (auto simp: fun_eq_iff)
  then show ?case by (simp add: run_simps)
next
  case (Suc n)
  have "(\<lambda>j. if Suc k \<le> j \<and> j < Suc k + n then None else (M(k := None)) j) = (\<lambda>j. if k \<le> j \<and> j < k + Suc n then None else M j)"
    by (auto simp: fun_eq_iff)
  moreover have "buffer_unmap k (held L M s) = Inr ((), held L (M(k := None)) s)"
    using Suc.prems [of k] by (intro buffer_unmap_held) auto
  moreover have "unmap_aux (Suc k) n (held L (M(k := None)) s) =
      Inr ((), held L (\<lambda>j. if Suc k \<le> j \<and> j < Suc k + n then None else (M(k := None)) j) s)"
    by (rule Suc.IH) (use Suc.prems in auto)
  ultimately show ?case by (simp add: run_thenM)
qed

end
