(* ===== verification/Rec_Inv.thy ===== *)
theory Rec_Inv
  imports Rec_Aux Frame
begin

text \<open>
  The invariant of execution contexts. Each belongs to a realm, whose translation context it has a copy of, and has its own
  auxiliary granules; the reference count of a realm descriptor is the number of execution contexts of the realm, and the index of an
  execution context is unique in its realm. One lemma reduces preservation to what happens to the descriptors.
\<close>

definition is_rec :: "rmm \<Rightarrow> nat \<Rightarrow> bool" where
  "is_rec s g \<longleftrightarrow> valid_g (arm_dram s) g \<and> STATE (granules s g) = GRANULE_STATE_REC"

abbreviation rec_at :: "rmm \<Rightarrow> nat \<Rightarrow> rec_data" where
  "rec_at s g \<equiv> d_rec (mem s g)"

abbreviation rec_rd :: "rmm \<Rightarrow> nat \<Rightarrow> nat option" where
  "rec_rd s g \<equiv> ri_g_rd (rec_realm_info (d_rec (mem s g)))"

definition recs_of :: "rmm \<Rightarrow> nat \<Rightarrow> nat set" where
  "recs_of s rd = {g. is_rec s g \<and> rec_rd s g = Some rd}"

definition is_aux :: "rmm \<Rightarrow> nat \<Rightarrow> bool" where
  "is_aux s g \<longleftrightarrow> valid_g (arm_dram s) g \<and> STATE (granules s g) = GRANULE_STATE_REC_AUX"

definition rec_ok :: "rmm \<Rightarrow> nat \<Rightarrow> rec_data \<Rightarrow> bool" where
  "rec_ok s g r \<longleftrightarrow> rec_g_rec r = Some g \<and> length (rec_regs r) = 31 \<and>
    (\<exists>aux. rec_g_aux r = map Some aux \<and> rec_num_aux r = 16 \<and> length aux = 16 \<and> distinct aux \<and> (\<forall>h \<in> set aux. is_aux s h)) \<and>
    (\<exists>rd. ri_g_rd (rec_realm_info r) = Some rd \<and> is_realm s rd \<and> ri_s2_ctx (rec_realm_info r) = realm_ctx s rd \<and>
       rec_idx r < rec_count (d_rd (mem s rd)))"

definition rd_ok :: "cpu_regs \<Rightarrow> rd \<Rightarrow> bool" where
  "rd_ok cpu rd \<longleftrightarrow> rd_num_rec_aux rd = 16 \<and> validate_simd_config cpu (rd_simd_cfg rd)"

definition rec_inv :: "cpu_regs \<Rightarrow> rmm \<Rightarrow> bool" where
  "rec_inv cpu s \<longleftrightarrow>
    (\<forall>g. is_rec s g \<longrightarrow> rec_ok s g (rec_at s g)) \<and>
    (\<forall>g g' h. is_rec s g \<longrightarrow> is_rec s g' \<longrightarrow> Some h \<in> set (rec_g_aux (rec_at s g)) \<longrightarrow> Some h \<in> set (rec_g_aux (rec_at s g')) \<longrightarrow> g = g') \<and>
    (\<forall>g g'. is_rec s g \<longrightarrow> is_rec s g' \<longrightarrow> rec_rd s g = rec_rd s g' \<longrightarrow> rec_idx (rec_at s g) = rec_idx (rec_at s g') \<longrightarrow> g = g') \<and>
    (\<forall>rd. is_realm s rd \<longrightarrow> unat (REFCOUNT (granules s rd)) = card (recs_of s rd) \<and> rd_ok cpu (d_rd (mem s rd)))"

lemma rec_invD:
  assumes "rec_inv cpu s"
  shows "is_rec s g \<Longrightarrow> rec_ok s g (rec_at s g)"
    "is_rec s g \<Longrightarrow> is_rec s g' \<Longrightarrow> Some h \<in> set (rec_g_aux (rec_at s g)) \<Longrightarrow> Some h \<in> set (rec_g_aux (rec_at s g')) \<Longrightarrow> g = g'"
    "is_rec s g \<Longrightarrow> is_rec s g' \<Longrightarrow> rec_rd s g = rec_rd s g' \<Longrightarrow> rec_idx (rec_at s g) = rec_idx (rec_at s g') \<Longrightarrow> g = g'"
    "is_realm s rd \<Longrightarrow> unat (REFCOUNT (granules s rd)) = card (recs_of s rd)"
    "is_realm s rd \<Longrightarrow> rd_ok cpu (d_rd (mem s rd))"
  using assms unfolding rec_inv_def by blast+

lemma rec_okD:
  assumes "rec_ok s g r"
  obtains aux rd where "rec_g_rec r = Some g" "length (rec_regs r) = 31" "rec_g_aux r = map Some aux" "rec_num_aux r = 16" "length aux = 16"
    "distinct aux" "\<And>h. h \<in> set aux \<Longrightarrow> is_aux s h" "ri_g_rd (rec_realm_info r) = Some rd" "is_realm s rd"
    "ri_s2_ctx (rec_realm_info r) = realm_ctx s rd" "rec_idx r < rec_count (d_rd (mem s rd))"
  using assms unfolding rec_ok_def by blast

lemma finite_recs: "wf_dram (arm_dram s) \<Longrightarrow> finite (recs_of s rd)"
  by (rule finite_subset [of _ "{..<unat (num_granules (arm_dram s))}"]) (auto simp: recs_of_def is_rec_def valid_g_iff)

lemma recs_of_none:
  assumes "rec_inv cpu s" "\<not> is_realm s rd"
  shows "recs_of s rd = {}"
  using rec_invD(1) [OF assms(1)] assms(2) by (fastforce simp: recs_of_def rec_ok_def)

lemma unused_no_recs:
  assumes "rec_inv cpu s" "wf_dram (arm_dram s)" "is_realm s rd" "REFCOUNT (granules s rd) = 0"
  shows "recs_of s rd = {}"
  using rec_invD(4) [OF assms(1,3)] finite_recs [OF assms(2)] assms(4) by simp

text \<open>What has to be kept of an execution context.\<close>

definition same_rec :: "rec_data \<Rightarrow> rec_data \<Rightarrow> bool" where
  "same_rec r r' \<longleftrightarrow> rec_g_rec r' = rec_g_rec r \<and> rec_idx r' = rec_idx r \<and> length (rec_regs r') = length (rec_regs r) \<and>
    rec_realm_info r' = rec_realm_info r \<and> rec_num_aux r' = rec_num_aux r \<and> rec_g_aux r' = rec_g_aux r"

lemma same_rec_refl [simp]: "same_rec r r"
  by (simp add: same_rec_def)

lemma measured_same_rec: "measured x y \<Longrightarrow> same_rec (d_rec x) (d_rec y)"
  by (auto simp: measured_def same_rec_def)

lemma rec_inv_frame:
  assumes inv: "rec_inv cpu s" and dram: "arm_dram s' = arm_dram s"
    and rec: "\<And>g. is_rec s' g \<longleftrightarrow> is_rec s g" "\<And>g. is_rec s g \<Longrightarrow> same_rec (rec_at s g) (rec_at s' g)"
    and aux: "\<And>h. STATE (granules s h) = GRANULE_STATE_REC_AUX \<Longrightarrow> STATE (granules s' h) = GRANULE_STATE_REC_AUX"
    and own: "\<And>rd. is_realm s rd \<Longrightarrow> recs_of s rd \<noteq> {} \<Longrightarrow>
      is_realm s' rd \<and> realm_ctx s' rd = realm_ctx s rd \<and> rec_count (d_rd (mem s' rd)) = rec_count (d_rd (mem s rd))"
    and rd: "\<And>rd. is_realm s' rd \<Longrightarrow> (if is_realm s rd then REFCOUNT (granules s' rd) = REFCOUNT (granules s rd) else REFCOUNT (granules s' rd) = 0) \<and>
      rd_ok cpu (d_rd (mem s' rd))"
  shows "rec_inv cpu s'"
proof -
  have same: "rec_g_rec (rec_at s' g) = rec_g_rec (rec_at s g)" "rec_idx (rec_at s' g) = rec_idx (rec_at s g)"
    "length (rec_regs (rec_at s' g)) = length (rec_regs (rec_at s g))" "rec_realm_info (rec_at s' g) = rec_realm_info (rec_at s g)"
    "rec_num_aux (rec_at s' g) = rec_num_aux (rec_at s g)" "rec_g_aux (rec_at s' g) = rec_g_aux (rec_at s g)" if "is_rec s g" for g
    using rec(2) [OF that] by (simp_all add: same_rec_def)
  have of: "recs_of s' rd = recs_of s rd" for rd using rec(1) same(4) by (auto simp: recs_of_def)
  have "rec_ok s' g (rec_at s' g)" if g: "is_rec s g" for g
  proof -
    obtain aux rd where r: "rec_g_rec (rec_at s g) = Some g" "length (rec_regs (rec_at s g)) = 31" "rec_g_aux (rec_at s g) = map Some aux"
      "rec_num_aux (rec_at s g) = 16" "length aux = 16" "distinct aux" "\<And>h. h \<in> set aux \<Longrightarrow> is_aux s h" "rec_rd s g = Some rd"
      "is_realm s rd" "ri_s2_ctx (rec_realm_info (rec_at s g)) = realm_ctx s rd" "rec_idx (rec_at s g) < rec_count (d_rd (mem s rd))"
      using rec_okD [OF rec_invD(1) [OF inv g]] by blast
    have "recs_of s rd \<noteq> {}" using g r(8) by (auto simp: recs_of_def)
    note o = own [OF r(9) this]
    have "is_aux s' h" if "h \<in> set aux" for h using r(7) [OF that] aux dram by (simp add: is_aux_def)
    then show ?thesis unfolding rec_ok_def same [OF g] using r o by metis
  qed
  moreover have "unat (REFCOUNT (granules s' rd)) = card (recs_of s' rd) \<and> rd_ok cpu (d_rd (mem s' rd))" if "is_realm s' rd" for rd
    using rec_invD(4) [OF inv, of rd] rd [OF that] recs_of_none [OF inv, of rd] of by (cases "is_realm s rd") simp_all
  moreover have "g = g'"
    if "is_rec s g" "is_rec s g'" "Some h \<in> set (rec_g_aux (rec_at s' g))" "Some h \<in> set (rec_g_aux (rec_at s' g'))" for g g' h
    using rec_invD(2) [OF inv that(1,2)] that(3,4) same(6) that(1,2) by simp
  moreover have "g = g'" if "is_rec s g" "is_rec s g'" "rec_rd s' g = rec_rd s' g'" "rec_idx (rec_at s' g) = rec_idx (rec_at s' g')" for g g'
    using rec_invD(3) [OF inv that(1,2)] that(3,4) same(2,4) that(1,2) by simp
  ultimately show ?thesis unfolding rec_inv_def rec(1) by blast
qed

lemma owners_kept_rec_inv:
  assumes k: "owners_kept s s'" and inv: "rec_inv cpu s"
  shows "rec_inv cpu s'"
proof (rule rec_inv_frame [OF inv owners_keptD(1) [OF k]])
  note d = owners_keptD [OF k] and r = owners_kept_realms [OF k]
  have o: "STATE (granules s' g) = st \<longleftrightarrow> STATE (granules s g) = st" if "owner_state st" for g st
    using d(6,7) [of g] that by metis
  show "is_rec s' g \<longleftrightarrow> is_rec s g" for g using o d(1) by (simp add: is_rec_def)
  show "same_rec (rec_at s g) (rec_at s' g)" if "is_rec s g" for g
    using d(8) [of g] that measured_same_rec by (simp add: is_rec_def)
  show "STATE (granules s' h) = GRANULE_STATE_REC_AUX" if "STATE (granules s h) = GRANULE_STATE_REC_AUX" for h using that o by simp
  fix rd
  show "is_realm s' rd \<and> realm_ctx s' rd = realm_ctx s rd \<and> rec_count (d_rd (mem s' rd)) = rec_count (d_rd (mem s rd))" if "is_realm s rd"
    using r(2,3) [of rd] that measuredD(1,4) by (simp add: realm_ctx_def)
  assume "is_realm s' rd"
  then have "is_realm s rd" using r(3) by blast
  moreover from this have "granules s' rd = granules s rd" using d(7) by (simp add: is_realm_def)
  moreover have "rd_ok cpu (d_rd (mem s' rd)) \<longleftrightarrow> rd_ok cpu (d_rd (mem s rd))"
    using r(2) [OF \<open>is_realm s rd\<close>] by (auto simp: measured_def rd_ok_def)
  ultimately show "(if is_realm s rd then REFCOUNT (granules s' rd) = REFCOUNT (granules s rd) else REFCOUNT (granules s' rd) = 0) \<and>
      rd_ok cpu (d_rd (mem s' rd))" using rec_invD(5) [OF inv] by simp
qed

section \<open>A realm without execution contexts\<close>

lemma no_realms_rec_inv: "(\<And>g. \<not> is_rec s g) \<Longrightarrow> (\<And>g. \<not> is_realm s g) \<Longrightarrow> rec_inv cpu s"
  by (simp add: rec_inv_def)

end
