(* ===== verification/Rec_Build.thy ===== *)
theory Rec_Build
  imports Rec_Inv
begin

text \<open>The steps of RMI\_REC\_CREATE: the registers of the new execution context, its auxiliary granules and its content.\<close>

section \<open>Registers\<close>

lemma realm_vtcr_run:
  assumes "cpu_ok cpu" "wf_ctx (rd_s2_ctx rd)"
  shows "\<exists>v. realm_vtcr cpu rd s = Inr (v, s)"
proof -
  let ?l = "enable_lpa2 (rd_s2_ctx rd)" and ?sl = "realm_rtt_starting_level rd"
  obtain w where w: "arch_feat_get_pa_width cpu s = Inr (w, s)" using pa_width_run [OF assms(1)] by (elim exE) (rule that, erule spec)
  have lv: "min_starting_level (rd_s2_ctx rd) \<le> s2_starting_level (rd_s2_ctx rd)" "s2_starting_level (rd_s2_ctx rd) \<le> S2TT_PAGE_LEVEL"
    using assms(2) by (simp_all add: wf_ctx_def)
  have "\<not> ?l \<and> ?sl \<ge> S2TT_MIN_STARTING_LEVEL \<or> ?l \<and> ?sl \<ge> S2TT_MIN_STARTING_LEVEL_LPA2" "?sl \<le> S2TT_PAGE_LEVEL"
    using lv by (auto simp: min_starting_level_def realm_rtt_starting_level_def split: if_splits)
  then show ?thesis unfolding realm_vtcr_def Let_def run_simps by (simp only: w run_simps if_True prod.case sum.case fst_conv snd_conv) blast
qed

text \<open>The base address and the VMID that the processor takes from VTTBR\_EL2.\<close>

definition vttbr_pa :: "bool \<Rightarrow> u64 \<Rightarrow> u64" where
  "vttbr_pa lpa2 v = (if lpa2 then (v AND MASK 6 42) OR push_bit 48 (EXTRACT 2 4 v) else v AND MASK 1 47)"

definition vttbr_vmid :: "u64 \<Rightarrow> u64" where
  "vttbr_vmid v = EXTRACT 48 16 v"

lemma init_common_sysregs_run:
  assumes "cpu_ok cpu" "wf_ctx (rd_s2_ctx rd)" "wf_dram (arm_dram s)" "granule_at (arm_dram s) a = g_rtt (rd_s2_ctx rd)"
  shows "\<exists>v. \<forall>rec. init_common_sysregs cpu rec rd s = Inr (rec\<lparr>rec_common_sysregs := common_sysregs cpu rd v a\<rparr>, s)"
proof -
  obtain v where v: "realm_vtcr cpu rd s = Inr (v, s)" using realm_vtcr_run [OF assms(1,2)] by blast
  obtain g where g: "g_rtt (rd_s2_ctx rd) = Some g" using assms(2) by (auto simp: wf_ctx_def)
  have "granule_addr (g_rtt (rd_s2_ctx rd)) s = Inr (a, s)" using granule_addr_run [OF assms(3)] assms(4) g by simp
  then have "init_common_sysregs cpu rec rd s = Inr (rec\<lparr>rec_common_sysregs := common_sysregs cpu rd v a\<rparr>, s)" for rec
    by (simp add: init_common_sysregs_def run_simps v)
  then show ?thesis by blast
qed

lemma small_bits: "unat x < 2 ^ k \<Longrightarrow> k \<le> n \<Longrightarrow> \<not> bit x n" for x :: "'a::len word"
proof -
  assume a: "unat x < 2 ^ k" "k \<le> n"
  have "take_bit k x = x" using a(1) by (simp add: word_unat_eq_iff unsigned_take_bit_eq take_bit_nat_eq_self)
  then show ?thesis using a(2) by (metis bit_take_bit_iff linorder_not_less)
qed

lemma vttbr_bit:
  assumes low: "\<And>n. bit a n \<Longrightarrow> 1 \<le> n \<and> (n < 2 \<or> 6 \<le> n)"
  shows "bit (com_vttbr_el2 (common_sysregs cpu rd v a)) n \<longleftrightarrow>
    (if n < 48 then (if enable_lpa2 (rd_s2_ctx rd) \<and> 2 \<le> n \<and> n < 6 then bit a (46 + n) else bit a n) else n < 64 \<and> bit (vmid (rd_s2_ctx rd)) (n - 48))"
  using low [of n] by (auto simp: common_sysregs_def Let_def bit_or_iff bit_and_iff bit_not_iff bit_MASK bit_EXTRACT bit_INPLACE bit_ucast_iff)

lemma aligned_bits: "GRANULE_ALIGNED a \<Longrightarrow> bit a n \<Longrightarrow> 12 \<le> n"
proof (rule ccontr)
  assume al: "GRANULE_ALIGNED a" and n: "bit a n" "\<not> 12 \<le> n"
  have "take_bit 12 a = 0" using al by (simp add: GRANULE_ALIGNED_unat word_unat_eq_iff unsigned_take_bit_eq) (simp add: take_bit_eq_mod)
  then show False using n by (metis bit_take_bit_iff bit_0_eq bot_apply bot_bool_def linorder_not_le)
qed

lemma vttbr_pa_value:
  assumes al: "GRANULE_ALIGNED a" and a: "unat a < 2 ^ (if enable_lpa2 (rd_s2_ctx rd) then 52 else 48)"
  shows "vttbr_pa (enable_lpa2 (rd_s2_ctx rd)) (com_vttbr_el2 (common_sysregs cpu rd v a)) = a"
proof (rule bit_word_eqI)
  note low = aligned_bits [OF al] and high = small_bits [OF a]
  have b: "bit (com_vttbr_el2 (common_sysregs cpu rd v a)) n \<longleftrightarrow>
    (if n < 48 then (if enable_lpa2 (rd_s2_ctx rd) \<and> 2 \<le> n \<and> n < 6 then bit a (46 + n) else bit a n) else n < 64 \<and> bit (vmid (rd_s2_ctx rd)) (n - 48))" for n
    by (rule vttbr_bit) (use low in fastforce)
  fix n assume "n < LENGTH(64)"
  moreover have "\<not> n < 48 \<Longrightarrow> Suc (Suc (n - 2)) = n" by simp
  ultimately show "bit (vttbr_pa (enable_lpa2 (rd_s2_ctx rd)) (com_vttbr_el2 (common_sysregs cpu rd v a))) n = bit a n"
    using low [of n] high [of n] by (auto simp: vttbr_pa_def bit_or_iff bit_and_iff bit_MASK bit_EXTRACT bit_push_bit_iff b)
qed

lemma vttbr_vmid_value:
  assumes "unat (vmid (rd_s2_ctx rd)) < 2 ^ 16"
  shows "vttbr_vmid (com_vttbr_el2 (common_sysregs cpu rd v a)) = ucast (vmid (rd_s2_ctx rd))"
proof (rule bit_word_eqI)
  have vmid: "bit (vmid (rd_s2_ctx rd)) n \<Longrightarrow> n < 16" for n using small_bits [OF assms] by (meson linorder_not_less)
  fix n assume "n < LENGTH(64)"
  then show "bit (vttbr_vmid (com_vttbr_el2 (common_sysregs cpu rd v a))) n = bit (ucast (vmid (rd_s2_ctx rd)) :: u64) n"
    using vmid [of n]
    by (auto simp: vttbr_vmid_def bit_EXTRACT common_sysregs_def Let_def bit_or_iff bit_and_iff bit_not_iff bit_MASK bit_INPLACE bit_ucast_iff)
qed

section \<open>The new execution context\<close>

definition rec_params_read :: "rmm \<Rightarrow> (nat \<Rightarrow> rmi_rec_params \<times> bool) \<Rightarrow> u64 \<Rightarrow> rmi_rec_params option" where
  "rec_params_read s ns_params a = (case granule_in s a GRANULE_STATE_NS of None \<Rightarrow> None | Some g \<Rightarrow> if snd (ns_params g) then Some (fst (ns_params g)) else None)"

definition num_aux :: "rmi_rec_params \<Rightarrow> nat" where
  "num_aux p = unat (ucast (pp_num_aux p) :: u32)"

definition aux_addrs :: "rmi_rec_params \<Rightarrow> u64 list" where
  "aux_addrs p = take (num_aux p) (pp_aux p)"

definition rec_creatable :: "rmm \<Rightarrow> rmi_rec_params \<Rightarrow> nat list \<Rightarrow> u64 \<Rightarrow> u64 \<Rightarrow> nat \<Rightarrow> nat \<Rightarrow> bool" where
  "rec_creatable s p aux rd_addr rec_addr g_rec g_rd \<longleftrightarrow>
    granule_in s rec_addr GRANULE_STATE_DELEGATED = Some g_rec \<and> g_rec \<notin> set aux \<and> granule_in s rd_addr GRANULE_STATE_RD = Some g_rd \<and>
    REFCOUNT (granules s g_rd) \<noteq> REFCOUNT_MAX \<and> rd_state (d_rd (mem s g_rd)) = REALM_NEW \<and>
    rec_mpidr_is_valid (pp_mpidr p) \<and> rec_count (d_rd (mem s g_rd)) = rec_mpidr_to_idx (pp_mpidr p) \<and>
    of_nat (length aux) = rd_num_rec_aux (d_rd (mem s g_rd))"

text \<open>The content of the new execution context; \<open>v\<close> is the value of VTCR\_EL2 and \<open>a\<close> the address of the starting level table.\<close>

definition new_rec :: "cpu_regs \<Rightarrow> rmi_rec_params \<Rightarrow> nat list \<Rightarrow> nat \<Rightarrow> nat \<Rightarrow> rd \<Rightarrow> u64 \<Rightarrow> u64 \<Rightarrow> rec_data" where
  "new_rec cpu p aux g_rec g_rd rd v a =
    rec_fields g_rec g_rd (rec_count rd) aux p rd
      ((init_rec_sysregs (zero_rec\<lparr>rec_g_rec := Some g_rec, rec_idx := rec_count rd, rec_regs := take REC_CREATE_NR_GPRS (pp_gprs p) @ drop REC_CREATE_NR_GPRS (rec_regs zero_rec),
         rec_pc := pp_pc p, rec_pstate := calc_pstate\<rparr>) (pp_mpidr p))\<lparr>rec_common_sysregs := common_sysregs cpu rd v a\<rparr>)"

definition rd_measured :: "(hash_algo \<Rightarrow> u8 list \<Rightarrow> u8 list) \<Rightarrow> rmi_rec_params \<Rightarrow> rd \<Rightarrow> rd" where
  "rd_measured hash p rd =
    (if pp_flags p AND REC_PARAMS_FLAG_RUNNABLE \<noteq> 0
     then rd\<lparr>measurement := (measurement rd)[RIM_MEASUREMENT_SLOT := measurement_rec_params_measure hash (measurement rd ! RIM_MEASUREMENT_SLOT) (rd_algorithm rd) p]\<rparr>
     else rd)"

definition rec_created ::
  "(hash_algo \<Rightarrow> u8 list \<Rightarrow> u8 list) \<Rightarrow> rmi_rec_params \<Rightarrow> nat list \<Rightarrow> nat \<Rightarrow> nat \<Rightarrow> rec_data \<Rightarrow> simd_context \<Rightarrow> rmm \<Rightarrow> rmm" where
  "rec_created hash p aux g_rec g_rd r ctx s =
    upd_granule g_rec (eor_state GRANULE_STATE_REC)
     (upd_mem g_rd (\<lambda>d. d\<lparr>d_rd := (rd_measured hash p (d_rd d))\<lparr>rec_count := rec_count (d_rd d) + 1\<rparr>\<rparr>)
     (upd_mem (aux ! 3) (\<lambda>d. d\<lparr>d_simd := ctx\<rparr>)
     (upd_granule g_rd (add_desc 1)
     (upd_mem g_rec (\<lambda>d. d\<lparr>d_rec := r\<rparr>)
      (aux_claimed aux s)))))"

lemma those_map_Some: "those (map Some xs) = Some xs"
  by (induction xs) simp_all

lemma rec_aux_granules_init_held:
  assumes wf: "wf_dram (arm_dram s)" and r: "rec_g_aux r = map Some aux" "rec_num_aux r = 16" "length aux = 16"
    and v: "\<And>g. g \<in> set aux \<Longrightarrow> valid_g (arm_dram s) g"
    and ctx: "simd_context_init cpu SIMD_OWNER_REL1 (d_simd (mem s (aux ! 3))) (ri_simd_cfg (rec_realm_info r)) = Some ctx"
    and M: "\<And>k. SLOT_REC_AUX0 \<le> k \<Longrightarrow> k < SLOT_RTT \<Longrightarrow> M k = None"
  shows "rec_aux_granules_init cpu r (held L M s) = Inr ((), held L M (upd_mem (aux ! 3) (\<lambda>d. d\<lparr>d_simd := ctx\<rparr>) s))"
proof -
  let ?M = "\<lambda>j. if SLOT_REC_AUX0 \<le> j \<and> j < SLOT_REC_AUX0 + length aux then Some (aux ! (j - SLOT_REC_AUX0)) else M j"
  have g: "g_aux_of r (held L M s) = Inr (aux, held L M s)" using r by (simp add: g_aux_of_def those_map_Some run_simps)
  have m: "buffer_aux_granules_map aux (held L M s) = Inr ((), held L ?M s)"
    using map_aux_held [OF wf, of aux SLOT_REC_AUX0 M L] v M r(3)
    by (simp add: buffer_aux_granules_map_def run_simps MAX_REC_AUX_GRANULES_def slot_numbers)
  let ?s = "upd_mem (aux ! 3) (\<lambda>d. d\<lparr>d_simd := ctx\<rparr>) s"
  have i: "rec_simd_state_init cpu (aux ! 3) (ri_simd_cfg (rec_realm_info r)) (held L ?M s) = Inr ((), held L ?M ?s)"
    using ctx by (simp add: rec_simd_state_init_def run_simps held_upd)
  have "(\<lambda>j. if SLOT_REC_AUX0 \<le> j \<and> j < SLOT_REC_AUX0 + 16 then None else ?M j) = M"
    using M r(3) by (auto simp: fun_eq_iff slot_numbers)
  then have u: "buffer_aux_unmap 16 (held L ?M ?s) = Inr ((), held L M ?s)"
    using unmap_aux_held [of SLOT_REC_AUX0 16 ?M L ?s] r(3)
    by (simp add: buffer_aux_unmap_def run_simps MAX_REC_AUX_GRANULES_def)
  have "aux \<noteq> []" using r(3) by auto
  then show ?thesis
    unfolding rec_aux_granules_init_def run_simps g
    using r(2) by (simp add: run_simps m i u REC_NUM_PAGES_def REC_HEAP_PAGES_def REC_PMU_PAGES_def)
qed

text \<open>Initialising the SIMD context in a zeroed granule.\<close>

lemma simd_init_zero:
  "validate_simd_config cpu cfg \<Longrightarrow> \<exists>ctx. simd_context_init cpu SIMD_OWNER_REL1 zero_simd_context cfg = Some ctx \<and> simd_owner_of ctx = SIMD_OWNER_REL1"
  by (simp add: simd_context_init_def zero_simd_context_def Let_def)

lemma refcount_bound: "unat (REFCOUNT g) < 1024"
proof -
  have "REFCOUNT g = take_bit 10 (descriptor g)" by (rule bit_word_eqI) (simp add: bit_REFCOUNT bit_take_bit_iff)
  then show ?thesis using take_bit_nat_less_exp [of 10 "unat (descriptor g)"] by (simp add: unsigned_take_bit_eq)
qed

lemma create_rec_run:
  assumes inv: "realm_inv s" "rec_inv cpu s" and cpu: "cpu_ok cpu" and aux: "aux_granules s (aux_addrs p) aux" "num_aux p \<le> MAX_REC_AUX_GRANULES"
    and rec: "granule_in s rec_addr GRANULE_STATE_DELEGATED = Some g_rec" "g_rec \<notin> set aux" and rd: "granule_in s rd_addr GRANULE_STATE_RD = Some g_rd"
    and rc: "REFCOUNT (granules s g_rd) \<noteq> REFCOUNT_MAX" and a: "granule_at (arm_dram s) a = g_rtt (realm_ctx s g_rd)"
  defines "L \<equiv> {g_rec, g_rd}" and "M \<equiv> no_slots(SLOT_REC := Some g_rec, SLOT_RD := Some g_rd)" and "s1 \<equiv> aux_claimed aux s"
  shows "if rec_creatable s p aux rd_addr rec_addr g_rec g_rd
    then \<exists>v ctx. create_rec hash cpu p aux g_rec g_rd (held L M s1) = Inr ((RMI_SUCCESS, GRANULE_STATE_REC),
        held L M (upd_mem g_rd (\<lambda>d. d\<lparr>d_rd := (rd_measured hash p (d_rd d))\<lparr>rec_count := rec_count (d_rd d) + 1\<rparr>\<rparr>)
          (upd_mem (aux ! 3) (\<lambda>d. d\<lparr>d_simd := ctx\<rparr>)
          (upd_granule g_rd (add_desc 1)
          (upd_mem g_rec (\<lambda>d. d\<lparr>d_rec := new_rec cpu p aux g_rec g_rd (d_rd (mem s g_rd)) v a\<rparr>) s1)))))
    else \<exists>ret. ret \<noteq> RMI_SUCCESS \<and> create_rec hash cpu p aux g_rec g_rd (held L M s1) = Inr ((ret, GRANULE_STATE_DELEGATED), held L M s1)"
proof -
  let ?rd = "d_rd (mem s g_rd)"
  note idle = realm_invD(1) [OF inv(1)] note id = idleD [OF idle] and ri = granule_inD [OF rec(1)] and di = granule_inD [OF rd]
  note as = aux_granules_states [OF aux(1)]
  have realm: "is_realm s g_rd" using is_realm_in [OF rd] .
  have ne: "g_rec \<noteq> g_rd" "g_rd \<notin> set aux" using ri(2) di(2) as(1) by (auto simp: granule_states)
  have z: "mem s g_rec = zero_data" "\<And>g. g \<in> set aux \<Longrightarrow> mem s g = zero_data" using id(7) ri(2) as(1) by auto
  have rdok: "rd_num_rec_aux ?rd = 16" "validate_simd_config cpu (rd_simd_cfg ?rd)" using rec_invD(5) [OF inv(2) realm] by (simp_all add: rd_ok_def)
  have wf: "wf_ctx (rd_s2_ctx ?rd)" using tree_okD(1) [OF realm_invD(2) [OF inv(1)] realm] by (simp add: realm_ctx_def)
  have neq: "RMI_ERROR_REALM \<noteq> RMI_SUCCESS" "RMI_ERROR_INPUT \<noteq> RMI_SUCCESS" by (simp_all add: RMI_ERROR_REALM_def RMI_ERROR_INPUT_def RMI_SUCCESS_def)
  have read: "read_rd g_rd (held L M s1) = Inr (?rd, held L M s1)" "read_rec g_rec (held L M s1) = Inr (zero_rec, held L M s1)"
    using z(1) by (simp_all add: held_simps s1_def zero_data_def)
  show ?thesis
  proof (cases "rec_creatable s p aux rd_addr rec_addr g_rec g_rd")
    case False
    then have "rd_state ?rd \<noteq> REALM_NEW \<or> \<not> rec_mpidr_is_valid (pp_mpidr p) \<or> rec_count ?rd \<noteq> rec_mpidr_to_idx (pp_mpidr p) \<or> of_nat (length aux) \<noteq> rd_num_rec_aux ?rd"
      using rec rd rc by (simp add: rec_creatable_def)
    then show ?thesis unfolding if_not_P [OF False] using neq by (auto simp: create_rec_def run_simps read Let_def)
  next
    case True
    then have c: "rd_state ?rd = REALM_NEW" "rec_mpidr_is_valid (pp_mpidr p)" "rec_count ?rd = rec_mpidr_to_idx (pp_mpidr p)" "of_nat (length aux) = (16 :: u32)"
      using rdok(1) by (simp_all add: rec_creatable_def)
    have "length aux = length (aux_addrs p)" using aux(1) by (metis aux_granules_def length_map)
    then have "length aux \<le> 16" using aux(2) by (simp add: aux_addrs_def MAX_REC_AUX_GRANULES_def)
    then have len: "length aux = 16" using c(4) by (simp add: word_unat_eq_iff unat_of_nat)
    obtain v where v: "\<forall>rec. init_common_sysregs cpu rec ?rd (held L M s1) = Inr (rec\<lparr>rec_common_sysregs := common_sysregs cpu ?rd v a\<rparr>, held L M s1)"
      using init_common_sysregs_run [OF cpu wf, of "held L M s1" a] id(3) a by (auto simp: s1_def realm_ctx_def)
    let ?r = "new_rec cpu p aux g_rec g_rd ?rd v a"
    have r: "rec_g_aux ?r = map Some aux" "rec_num_aux ?r = 16" "ri_simd_cfg (rec_realm_info ?r) = rd_simd_cfg ?rd"
      "rec_runnable ?r \<longleftrightarrow> pp_flags p AND REC_PARAMS_FLAG_RUNNABLE \<noteq> 0"
      using len by (simp_all add: new_rec_def rec_fields_def init_rec_sysregs_def zero_rec_def)
    obtain ctx where ctx: "simd_context_init cpu SIMD_OWNER_REL1 zero_simd_context (rd_simd_cfg ?rd) = Some ctx"
      using simd_init_zero [OF rdok(2)] by blast
    let ?s2 = "upd_mem g_rec (\<lambda>d. d\<lparr>d_rec := ?r\<rparr>) s1"
    let ?s3 = "upd_mem g_rd (\<lambda>d. d\<lparr>d_rd := rd_measured hash p ?rd\<rparr>) ?s2"
    let ?s4 = "upd_granule g_rd (add_desc 1) ?s3"
    let ?s5 = "upd_mem (aux ! 3) (\<lambda>d. d\<lparr>d_simd := ctx\<rparr>) ?s4"
    let ?s6 = "upd_mem g_rd (\<lambda>d. d\<lparr>d_rd := (rd_measured hash p ?rd)\<lparr>rec_count := rec_count ?rd + 1\<rparr>\<rparr>) ?s5"
    have in_aux: "aux ! 3 \<in> set aux" using len by simp
    then have n3: "aux ! 3 \<noteq> g_rec" "aux ! 3 \<noteq> g_rd" using rec(2) ne(2) by auto
    have init: "init_rec_regs cpu (zero_rec\<lparr>rec_g_rec := Some g_rec, rec_idx := rec_count ?rd\<rparr>) p ?rd (held L M s1) =
        Inr (x, held L M s1) \<and> rec_fields g_rec g_rd (rec_count ?rd) aux p ?rd x = ?r"
      if "x = (init_rec_sysregs (zero_rec\<lparr>rec_g_rec := Some g_rec, rec_idx := rec_count ?rd, rec_regs := take REC_CREATE_NR_GPRS (pp_gprs p) @ drop REC_CREATE_NR_GPRS (rec_regs zero_rec),
         rec_pc := pp_pc p, rec_pstate := calc_pstate\<rparr>) (pp_mpidr p))\<lparr>rec_common_sysregs := common_sysregs cpu ?rd v a\<rparr>" for x
      using v that by (simp add: init_rec_regs_def Let_def new_rec_def)
    have ms: "measure_rec hash g_rd ?rd (rec_runnable ?r) p (held L M ?s2) = Inr ((), held L M ?s3)"
    proof (cases "rec_runnable ?r")
      case True
      then show ?thesis using r(4) by (simp add: measure_rec_def held_simps rd_measured_def)
    next
      case False
      have "?s3 = ?s2" using False r(4) ne(1) by (auto simp: rd_measured_def upd_mem_def s1_def fun_eq_iff)
      then show ?thesis using False by (simp add: measure_rec_def run_simps)
    qed
    have rc': "unat (REFCOUNT (granules s g_rd)) < 1023"
    proof -
      have "unat (REFCOUNT (granules s g_rd)) \<noteq> 1023" using rc by (simp add: word_unat_eq_iff)
      then show ?thesis using refcount_bound [of "granules s g_rd"] by linarith
    qed
    have get: "atomic_granule_get g_rd (held L M ?s3) = Inr ((), held L M ?s4)"
      by (rule granule_get_held) (use rc' ne(2) in \<open>simp_all add: L_def s1_def\<close>)
    have ini: "rec_aux_granules_init cpu ?r (held L M ?s4) = Inr ((), held L M ?s5)"
    proof (rule rec_aux_granules_init_held [OF _ r(1,2) len])
      show "simd_context_init cpu SIMD_OWNER_REL1 (d_simd (mem ?s4 (aux ! 3))) (ri_simd_cfg (rec_realm_info ?r)) = Some ctx"
        using ctx r(3) z(2) [OF in_aux] n3 by (simp add: s1_def zero_data_def)
    qed (use id(3) as(2) in \<open>auto simp: s1_def M_def slot_numbers\<close>)
    have rd': "read_rd g_rd (held L M ?s5) = Inr (rd_measured hash p ?rd, held L M ?s5)" using n3 by (simp add: held_simps)
    have s6: "?s6 = upd_mem g_rd (\<lambda>d. d\<lparr>d_rd := (rd_measured hash p (d_rd d))\<lparr>rec_count := rec_count (d_rd d) + 1\<rparr>\<rparr>)
          (upd_mem (aux ! 3) (\<lambda>d. d\<lparr>d_simd := ctx\<rparr>) (upd_granule g_rd (add_desc 1) ?s2))"
      using n3 ne(1) by (intro rmm.equality) (auto simp: fun_eq_iff upd_granule_def s1_def)
    have "create_rec hash cpu p aux g_rec g_rd (held L M s1) = Inr ((RMI_SUCCESS, GRANULE_STATE_REC), held L M ?s6)"
    proof -
      obtain x where x: "init_rec_regs cpu (zero_rec\<lparr>rec_g_rec := Some g_rec, rec_idx := rec_count ?rd\<rparr>) p ?rd (held L M s1) = Inr (x, held L M s1)"
        "rec_fields g_rec g_rd (rec_count ?rd) aux p ?rd x = ?r" using init by blast
      show ?thesis
        using c(1,2,4) rdok(1) by (simp add: create_rec_def run_simps read Let_def c(3) [symmetric] x ms get ini rd' write_held)
    qed
    then show ?thesis unfolding if_P [OF True] s6 by blast
  qed
qed

end
