(* ===== verification/Rec_Create.thy ===== *)
theory Rec_Create
  imports Rec_Build
begin

text \<open>
  The correctness of RMI\_REC\_CREATE. It either creates an execution context or changes nothing, except that it fails an assertion
  when the first auxiliary granule can be claimed and a later one cannot.
\<close>

section \<open>The command\<close>

lemma ns_params_run:
  assumes "idle s" "granule_at (arm_dram s) a = Some g"
  shows "ns_read_params ns_params SLOT_NS g s = Inr (if snd (ns_params g) then Some (fst (ns_params g)) else None, s)"
proof -
  note id = idleD [OF assms(1)]
  have "(s\<lparr>slots := (slots s)(SLOT_NS := Some g)\<rparr>)\<lparr>slots := ((slots s)(SLOT_NS := Some g))(SLOT_NS := None)\<rparr> = s"
    using id(4) slots_restore [of s SLOT_NS] by simp
  then show ?thesis using assms(2) id(3,4)
    by (simp add: ns_read_params_def run_simps granule_addr_run [OF id(3) assms(2)] buffer_unmap_def split: prod.split)
qed

lemma find_two_idle:
  assumes "idle s" "st1 \<noteq> st2"
  shows "find_lock_two_granules a1 st1 a2 st2 s =
    (case granule_in s a1 st1 of
       None \<Rightarrow> Inr (None, s)
     | Some g1 \<Rightarrow> (case granule_in s a2 st2 of None \<Rightarrow> Inr (None, s) | Some g2 \<Rightarrow> Inr (Some (g1, g2), held {g1, g2} no_slots s)))"
  using find_lock_two_held [OF assms, of a1 a2] idle_held [OF assms(1)] by (simp split: option.splits)

lemma create_rec_locked_run:
  assumes inv: "realm_inv s" "rec_inv cpu s" and cpu: "cpu_ok cpu" and aux: "aux_granules s (aux_addrs p) aux" "num_aux p \<le> MAX_REC_AUX_GRANULES"
  shows "if \<exists>g_rec g_rd. rec_creatable s p aux rd_addr rec_addr g_rec g_rd
    then \<exists>g_rec g_rd v a ctx. rec_creatable s p aux rd_addr rec_addr g_rec g_rd \<and> granule_at (arm_dram s) a = g_rtt (realm_ctx s g_rd) \<and>
      create_rec_locked hash cpu p aux rd_addr rec_addr (aux_claimed aux s) =
        Inr (RMI_SUCCESS, rec_created hash p aux g_rec g_rd (new_rec cpu p aux g_rec g_rd (d_rd (mem s g_rd)) v a) ctx s)
    else \<exists>ret. ret \<noteq> RMI_SUCCESS \<and> create_rec_locked hash cpu p aux rd_addr rec_addr (aux_claimed aux s) = Inr (ret, aux_claimed aux s)"
proof -
  let ?s1 = "aux_claimed aux s"
  note idle = realm_invD(1) [OF inv(1)] note id = idleD [OF idle] and as = aux_granules_states [OF aux(1)]
  have idle1: "idle ?s1" by (rule aux_claimed_idle [OF idle as(1)])
  note id1 = idleD [OF idle1]
  have find: "find_lock_two_granules rec_addr GRANULE_STATE_DELEGATED rd_addr GRANULE_STATE_RD ?s1 =
    (case granule_in ?s1 rec_addr GRANULE_STATE_DELEGATED of
       None \<Rightarrow> Inr (None, ?s1)
     | Some g1 \<Rightarrow> (case granule_in ?s1 rd_addr GRANULE_STATE_RD of None \<Rightarrow> Inr (None, ?s1) | Some g2 \<Rightarrow> Inr (Some (g1, g2), held {g1, g2} no_slots ?s1)))"
    by (rule find_two_idle [OF idle1]) (simp add: granule_states)
  have gin: "granule_in ?s1 rd_addr GRANULE_STATE_RD = granule_in s rd_addr GRANULE_STATE_RD" by (rule aux_claimed_in(2)) (rule as(1))
  have neq: "RMI_ERROR_REALM \<noteq> RMI_SUCCESS" "RMI_ERROR_INPUT \<noteq> RMI_SUCCESS" by (simp_all add: RMI_ERROR_REALM_def RMI_ERROR_INPUT_def RMI_SUCCESS_def)
  show ?thesis
  proof (cases "(\<exists>g_rec. granule_in s rec_addr GRANULE_STATE_DELEGATED = Some g_rec \<and> g_rec \<notin> set aux) \<and> granule_in s rd_addr GRANULE_STATE_RD \<noteq> None")
    case False
    then have no: "\<nexists>g_rec g_rd. rec_creatable s p aux rd_addr rec_addr g_rec g_rd" by (auto simp: rec_creatable_def)
    have "create_rec_locked hash cpu p aux rd_addr rec_addr ?s1 = Inr (RMI_ERROR_INPUT, ?s1)"
      using False find gin by (auto simp: create_rec_locked_def run_simps aux_claimed_in(1) split: option.splits if_splits)
    then show ?thesis unfolding if_not_P [OF no] using neq by blast
  next
    case True
    then obtain g_rec g_rd where g: "granule_in s rec_addr GRANULE_STATE_DELEGATED = Some g_rec" "g_rec \<notin> set aux" "granule_in s rd_addr GRANULE_STATE_RD = Some g_rd"
      by auto
    note ri = granule_inD [OF g(1)] and di = granule_inD [OF g(3)]
    have ne: "g_rec \<noteq> g_rd" "g_rd \<notin> set aux" using ri(2) di(2) as(1) by (auto simp: granule_states)
    have rz: "REFCOUNT (granules s g_rec) = 0" using idle_inv [OF idle ri(2)] by (simp add: granule_unlocked_invariants_def granule_states)
    let ?L = "{g_rec, g_rd}"
    have lk: "find_lock_two_granules rec_addr GRANULE_STATE_DELEGATED rd_addr GRANULE_STATE_RD ?s1 = Inr (Some (g_rec, g_rd), held ?L no_slots ?s1)"
      using find gin g by (simp add: aux_claimed_in(1))
    have cre: "rec_creatable s p aux rd_addr rec_addr g g' \<longleftrightarrow> g = g_rec \<and> g' = g_rd \<and> rec_creatable s p aux rd_addr rec_addr g_rec g_rd" for g g'
      using g by (auto simp: rec_creatable_def)
    have un: "granule_unlock g_rd (held ?L no_slots ?s1) = Inr ((), held {g_rec} no_slots ?s1)"
      using granule_unlock_held [of g_rd ?L ?s1 no_slots] id1(2,5) ne(1) by (simp add: insert_Diff_if)
    have "upd_granule g_rec (eor_state GRANULE_STATE_DELEGATED) ?s1 = ?s1"
      by (rule upd_granule_id) (use g(2) ri(2) in \<open>simp add: eor_state_id\<close>)
    then have un2: "granule_unlock_transition g_rec GRANULE_STATE_DELEGATED (held {g_rec} no_slots ?s1) = Inr ((), ?s1)"
      using granule_unlock_transition_held [of g_rec "{g_rec}" GRANULE_STATE_DELEGATED ?s1 no_slots] id1(2) [of g_rec] rz g(2) held_empty [OF id1(4)]
      by (simp add: granule_unlocked_invariants_def granule_states)
    have rcr: "granule_refcount_read g_rd (held ?L no_slots ?s1) = Inr (REFCOUNT (granules s g_rd), held ?L no_slots ?s1)"
      using ne(2) by (simp add: held_simps)
    show ?thesis
    proof (cases "REFCOUNT (granules s g_rd) = REFCOUNT_MAX")
      case True
      then have no: "\<nexists>g_rec g_rd. rec_creatable s p aux rd_addr rec_addr g_rec g_rd" using g by (auto simp: rec_creatable_def)
      have "create_rec_locked hash cpu p aux rd_addr rec_addr ?s1 = Inr (RMI_ERROR_REALM, ?s1)"
        using True by (simp add: create_rec_locked_def run_simps lk rcr un un2)
      then show ?thesis unfolding if_not_P [OF no] using neq by blast
    next
      case rc: False
      obtain a where a: "granule_at (arm_dram s) a = g_rtt (realm_ctx s g_rd)"
      proof -
        have realm: "is_realm s g_rd" using is_realm_in [OF g(3)] .
        have wf: "wf_ctx (realm_ctx s g_rd)" using tree_okD(1) [OF realm_invD(2) [OF inv(1)] realm] .
        have "0 < unat (num_root_rtts (realm_ctx s g_rd))" using wf by (auto simp: wf_ctx_def intro: gr0I)
        then have "is_rtt s (the (g_rtt (realm_ctx s g_rd)))"
          using tree_okD(2) [OF realm_invD(2) [OF inv(1)] root_in_tree [OF realm, of 0]] by simp
        then show ?thesis using that wf by (auto simp: is_rtt_def valid_g_def wf_ctx_def)
      qed
      let ?M = "no_slots(SLOT_REC := Some g_rec, SLOT_RD := Some g_rd)"
      have sl: "SLOT_RD \<noteq> SLOT_REC" by (simp add: slot_numbers)
      have m: "map_slot (Some g_rec) SLOT_REC (held ?L no_slots ?s1) = Inr ((), held ?L (no_slots(SLOT_REC := Some g_rec)) ?s1)"
        "map_slot (Some g_rd) SLOT_RD (held ?L (no_slots(SLOT_REC := Some g_rec)) ?s1) = Inr ((), held ?L ?M ?s1)"
        using id(3) ri(3) di(3) sl by (simp_all add: map_slot_held)
      have u: "buffer_unmap SLOT_RD (held ?L ?M x) = Inr ((), held ?L (no_slots(SLOT_REC := Some g_rec)) x)"
        "buffer_unmap SLOT_REC (held ?L (no_slots(SLOT_REC := Some g_rec)) x) = Inr ((), held ?L no_slots x)" for x
        using sl by (simp_all add: buffer_unmap_held unmap_slot)
      note run = create_rec_run [OF inv cpu aux g rc a, of hash]
      show ?thesis
      proof (cases "rec_creatable s p aux rd_addr rec_addr g_rec g_rd")
        case False
        then have no: "\<nexists>g_rec g_rd. rec_creatable s p aux rd_addr rec_addr g_rec g_rd" using cre by blast
        obtain ret where "ret \<noteq> RMI_SUCCESS" "create_rec hash cpu p aux g_rec g_rd (held ?L ?M ?s1) = Inr ((ret, GRANULE_STATE_DELEGATED), held ?L ?M ?s1)"
          using run False by auto
        moreover from this(2) have "create_rec_locked hash cpu p aux rd_addr rec_addr ?s1 = Inr (ret, ?s1)"
          using rc by (simp add: create_rec_locked_def run_simps lk rcr m u un un2)
        ultimately show ?thesis unfolding if_not_P [OF no] by blast
      next
        case True
        then have yes: "\<exists>g_rec g_rd. rec_creatable s p aux rd_addr rec_addr g_rec g_rd" by blast
        obtain v ctx where "create_rec hash cpu p aux g_rec g_rd (held ?L ?M ?s1) = Inr ((RMI_SUCCESS, GRANULE_STATE_REC),
          held ?L ?M (upd_mem g_rd (\<lambda>d. d\<lparr>d_rd := (rd_measured hash p (d_rd d))\<lparr>rec_count := rec_count (d_rd d) + 1\<rparr>\<rparr>)
          (upd_mem (aux ! 3) (\<lambda>d. d\<lparr>d_simd := ctx\<rparr>)
          (upd_granule g_rd (add_desc 1)
          (upd_mem g_rec (\<lambda>d. d\<lparr>d_rec := new_rec cpu p aux g_rec g_rd (d_rd (mem s g_rd)) v a\<rparr>) ?s1)))))"
          (is "_ = Inr (_, held ?L ?M ?s6)") using run True by auto
        note c = this
        have rc': "unat (REFCOUNT (granules s g_rd)) + unat (1 :: u16) \<le> 1023"
          using refcount_bound [of "granules s g_rd"] rc by (simp add: word_unat_eq_iff)
        have f: "granules ?s6 h = (if h = g_rd then add_desc 1 (granules s g_rd) else granules ?s1 h)" for h
          using ne(2) by (simp add: upd_granule_def)
        have "granule_unlock g_rd (held ?L no_slots ?s6) = Inr ((), held {g_rec} no_slots ?s6)"
          using granule_unlock_held [of g_rd ?L ?s6 no_slots] id(2) [of g_rd] ne(1) di(2) refcount_add_fields [OF rc'] unfolding f
          by (simp add: insert_Diff_if granule_unlocked_invariants_def granule_states)
        moreover have "granule_unlock_transition g_rec GRANULE_STATE_REC (held {g_rec} no_slots ?s6) =
          Inr ((), held {} no_slots (upd_granule g_rec (eor_state GRANULE_STATE_REC) ?s6))"
          using granule_unlock_transition_held [of g_rec "{g_rec}" GRANULE_STATE_REC ?s6 no_slots] id(2) [of g_rec] ne(1) rz g(2) unfolding f
          by (simp add: granule_unlocked_invariants_def granule_states)
        moreover have "held {} no_slots (upd_granule g_rec (eor_state GRANULE_STATE_REC) ?s6) = upd_granule g_rec (eor_state GRANULE_STATE_REC) ?s6"
          by (rule held_empty) (use id(4) in simp)
        ultimately have "create_rec_locked hash cpu p aux rd_addr rec_addr ?s1 = Inr (RMI_SUCCESS, upd_granule g_rec (eor_state GRANULE_STATE_REC) ?s6)"
          using rc by (simp add: create_rec_locked_def run_simps lk rcr m u c)
        then show ?thesis unfolding if_P [OF yes] rec_created_def using True a by blast
      qed
    qed
  qed
qed

lemma smc_rec_create_run:
  assumes inv: "realm_inv s" "rec_inv cpu s" and cpu: "cpu_ok cpu"
  shows "case rec_params_read s ns_params params_addr of
      None \<Rightarrow> smc_rec_create hash cpu ns_params rd_addr rec_addr params_addr s = Inr (RMI_ERROR_INPUT, s)
    | Some p \<Rightarrow>
        if num_aux p > MAX_REC_AUX_GRANULES then smc_rec_create hash cpu ns_params rd_addr rec_addr params_addr s = Inr (RMI_ERROR_INPUT, s)
        else if \<nexists>aux. aux_granules s (aux_addrs p) aux
        then smc_rec_create hash cpu ns_params rd_addr rec_addr params_addr s =
          (if granule_in s (hd (aux_addrs p)) GRANULE_STATE_DELEGATED = None then Inr (RMI_ERROR_INPUT, s) else Inl Assert_Fail)
        else \<exists>aux. aux_granules s (aux_addrs p) aux \<and>
          (if \<exists>g_rec g_rd. rec_creatable s p aux rd_addr rec_addr g_rec g_rd
           then \<exists>g_rec g_rd v a ctx. rec_creatable s p aux rd_addr rec_addr g_rec g_rd \<and> granule_at (arm_dram s) a = g_rtt (realm_ctx s g_rd) \<and>
             smc_rec_create hash cpu ns_params rd_addr rec_addr params_addr s =
               Inr (RMI_SUCCESS, rec_created hash p aux g_rec g_rd (new_rec cpu p aux g_rec g_rd (d_rd (mem s g_rd)) v a) ctx s)
           else \<exists>ret. ret \<noteq> RMI_SUCCESS \<and> smc_rec_create hash cpu ns_params rd_addr rec_addr params_addr s = Inr (ret, s))"
proof -
  note idle = realm_invD(1) [OF inv(1)] note id = idleD [OF idle]
  have nsr: "ns_read_params ns_params SLOT_NS g s = Inr (if snd (ns_params g) then Some (fst (ns_params g)) else None, s)"
    if "granule_at (arm_dram s) params_addr = Some g" for g by (rule ns_params_run [OF idle that])
  show ?thesis
  proof (cases "rec_params_read s ns_params params_addr")
    case None
    then show ?thesis
      using id(3) nsr
      by (auto simp: smc_rec_create_def run_simps rec_params_read_def granule_in_def granule_unlocked_state_def split: option.splits if_splits)
  next
    case (Some p)
    let ?body = "if num_aux p > MAX_REC_AUX_GRANULES then returnM RMI_ERROR_INPUT
       else bindM (claim_aux (aux_addrs p) []) (\<lambda>claimed.
        (case claimed of
           None \<Rightarrow> returnM RMI_ERROR_INPUT
         | Some aux \<Rightarrow>
         bindM (create_rec_locked hash cpu p aux rd_addr rec_addr) (\<lambda>ret.
         thenM (if ret \<noteq> RMI_SUCCESS then free_rec_aux_granules 0 aux False else returnM ())
         (returnM ret))))"
    have body: "smc_rec_create hash cpu ns_params rd_addr rec_addr params_addr s = ?body s"
      using id(3) nsr Some
      by (auto simp: smc_rec_create_def run_simps rec_params_read_def granule_in_def granule_unlocked_state_def num_aux_def aux_addrs_def Let_def
          split: option.splits if_splits)
    show ?thesis
    proof (cases "num_aux p > MAX_REC_AUX_GRANULES")
      case True
      then show ?thesis using Some body by (simp add: run_simps)
    next
      case n: False
      show ?thesis
      proof (cases "\<exists>aux. aux_granules s (aux_addrs p) aux")
        case False
        then show ?thesis using Some n body claim_aux_result [OF idle, of "aux_addrs p"] by (auto simp: run_simps)
      next
        case True
        then obtain aux where aux: "aux_granules s (aux_addrs p) aux" "claim_aux (aux_addrs p) [] s = Inr (Some aux, aux_claimed aux s)"
          using claim_aux_result [OF idle, of "aux_addrs p"] by blast
        have free: "free_rec_aux_granules 0 aux False (aux_claimed aux s) = Inr ((), s)"
        proof -
          note as = aux_granules_states [OF aux(1)]
          have idle1: "idle (aux_claimed aux s)" by (rule aux_claimed_idle [OF idle as(1)])
          have "length aux = length (aux_addrs p)" using aux(1) by (metis aux_granules_def length_map)
          then have len: "length aux \<le> MAX_REC_AUX_GRANULES" using n by (simp add: aux_addrs_def)
          have "free_rec_aux_granules 0 aux False (held {} no_slots (aux_claimed aux s)) = Inr ((), held {} no_slots (aux_freed False aux (aux_claimed aux s)))"
          proof (rule free_rec_aux_held)
            fix g assume g: "g \<in> set aux"
            then have "REFCOUNT (granules s g) = 0"
              using idle_inv [OF idle as(1) [OF g]] by (simp add: granule_unlocked_invariants_def granule_states)
            then show "valid_g (arm_dram (aux_claimed aux s)) g \<and> STATE (granules (aux_claimed aux s) g) = GRANULE_STATE_REC_AUX \<and> g \<notin> {} \<and>
              \<not> LOCKED (granules (aux_claimed aux s) g) \<and> REFCOUNT (granules (aux_claimed aux s) g) = 0"
              using g as(2) [OF g] id(2) [of g] by simp
          qed (use id(3) len aux(1) in \<open>auto simp: aux_granules_def\<close>)
          then show ?thesis using free_claimed [OF as(1)] idle_held [OF idle1] idle_held [OF idle] by simp
        qed
        have bd: "smc_rec_create hash cpu ns_params rd_addr rec_addr params_addr s =
          bindM (create_rec_locked hash cpu p aux rd_addr rec_addr) (\<lambda>ret.
            thenM (if ret \<noteq> RMI_SUCCESS then free_rec_aux_granules 0 aux False else returnM ()) (returnM ret)) (aux_claimed aux s)"
          using body n aux(2) by (simp add: run_bindM)
        have nn: "\<not> (\<nexists>aux. aux_granules s (aux_addrs p) aux)" using True by blast
        note run = create_rec_locked_run [OF inv cpu aux(1), of rd_addr rec_addr hash]
        show ?thesis
          unfolding Some option.case if_not_P [OF n] if_not_P [OF nn]
        proof (intro exI [of _ aux] conjI aux(1), cases "\<exists>g_rec g_rd. rec_creatable s p aux rd_addr rec_addr g_rec g_rd")
          case yes: True
          from run n yes obtain g_rec g_rd v a ctx where
            "rec_creatable s p aux rd_addr rec_addr g_rec g_rd" "granule_at (arm_dram s) a = g_rtt (realm_ctx s g_rd)"
            "create_rec_locked hash cpu p aux rd_addr rec_addr (aux_claimed aux s) =
              Inr (RMI_SUCCESS, rec_created hash p aux g_rec g_rd (new_rec cpu p aux g_rec g_rd (d_rd (mem s g_rd)) v a) ctx s)" by auto
          moreover from this(3) have "smc_rec_create hash cpu ns_params rd_addr rec_addr params_addr s =
              Inr (RMI_SUCCESS, rec_created hash p aux g_rec g_rd (new_rec cpu p aux g_rec g_rd (d_rd (mem s g_rd)) v a) ctx s)"
            unfolding bd by (simp add: run_simps)
          ultimately show "if \<exists>g_rec g_rd. rec_creatable s p aux rd_addr rec_addr g_rec g_rd
           then \<exists>g_rec g_rd v a ctx. rec_creatable s p aux rd_addr rec_addr g_rec g_rd \<and> granule_at (arm_dram s) a = g_rtt (realm_ctx s g_rd) \<and>
             smc_rec_create hash cpu ns_params rd_addr rec_addr params_addr s =
               Inr (RMI_SUCCESS, rec_created hash p aux g_rec g_rd (new_rec cpu p aux g_rec g_rd (d_rd (mem s g_rd)) v a) ctx s)
           else \<exists>ret. ret \<noteq> RMI_SUCCESS \<and> smc_rec_create hash cpu ns_params rd_addr rec_addr params_addr s = Inr (ret, s)"
            unfolding if_P [OF yes] by blast
        next
          case no: False
          from run n no obtain ret where
            "ret \<noteq> RMI_SUCCESS" "create_rec_locked hash cpu p aux rd_addr rec_addr (aux_claimed aux s) = Inr (ret, aux_claimed aux s)" by auto
          moreover from this have "smc_rec_create hash cpu ns_params rd_addr rec_addr params_addr s = Inr (ret, s)"
            unfolding bd by (simp add: run_simps free)
          ultimately show "if \<exists>g_rec g_rd. rec_creatable s p aux rd_addr rec_addr g_rec g_rd
           then \<exists>g_rec g_rd v a ctx. rec_creatable s p aux rd_addr rec_addr g_rec g_rd \<and> granule_at (arm_dram s) a = g_rtt (realm_ctx s g_rd) \<and>
             smc_rec_create hash cpu ns_params rd_addr rec_addr params_addr s =
               Inr (RMI_SUCCESS, rec_created hash p aux g_rec g_rd (new_rec cpu p aux g_rec g_rd (d_rd (mem s g_rd)) v a) ctx s)
           else \<exists>ret. ret \<noteq> RMI_SUCCESS \<and> smc_rec_create hash cpu ns_params rd_addr rec_addr params_addr s = Inr (ret, s)"
            unfolding if_not_P [OF no] by blast
        qed
      qed
    qed
  qed
qed

section \<open>The new state\<close>

lemma rec_created_fields:
  assumes "g_rec \<noteq> g_rd" "g_rec \<notin> set aux" "g_rd \<notin> set aux" "3 < length aux"
  shows "arm_dram (rec_created hash p aux g_rec g_rd r ctx s) = arm_dram s" "slots (rec_created hash p aux g_rec g_rd r ctx s) = slots s"
    "vmids (rec_created hash p aux g_rec g_rd r ctx s) = vmids s" "feat_vmid16 (rec_created hash p aux g_rec g_rd r ctx s) = feat_vmid16 s"
    "granules (rec_created hash p aux g_rec g_rd r ctx s) h =
      (if h = g_rec then eor_state GRANULE_STATE_REC (granules s h) else if h = g_rd then add_desc 1 (granules s h)
       else if h \<in> set aux then eor_state GRANULE_STATE_REC_AUX (granules s h) else granules s h)"
    "mem (rec_created hash p aux g_rec g_rd r ctx s) h =
      (if h = g_rec then (mem s h)\<lparr>d_rec := r\<rparr>
       else if h = g_rd then (mem s h)\<lparr>d_rd := (rd_measured hash p (d_rd (mem s h)))\<lparr>rec_count := rec_count (d_rd (mem s h)) + 1\<rparr>\<rparr>
       else if h = aux ! 3 then (mem s h)\<lparr>d_simd := ctx\<rparr> else mem s h)"
proof -
  have "aux ! 3 \<in> set aux" using assms(4) by simp
  then have "aux ! 3 \<noteq> g_rec" "aux ! 3 \<noteq> g_rd" using assms(2,3) by auto
  then show "arm_dram (rec_created hash p aux g_rec g_rd r ctx s) = arm_dram s" "slots (rec_created hash p aux g_rec g_rd r ctx s) = slots s"
    "vmids (rec_created hash p aux g_rec g_rd r ctx s) = vmids s" "feat_vmid16 (rec_created hash p aux g_rec g_rd r ctx s) = feat_vmid16 s"
    "granules (rec_created hash p aux g_rec g_rd r ctx s) h =
      (if h = g_rec then eor_state GRANULE_STATE_REC (granules s h) else if h = g_rd then add_desc 1 (granules s h)
       else if h \<in> set aux then eor_state GRANULE_STATE_REC_AUX (granules s h) else granules s h)"
    "mem (rec_created hash p aux g_rec g_rd r ctx s) h =
      (if h = g_rec then (mem s h)\<lparr>d_rec := r\<rparr>
       else if h = g_rd then (mem s h)\<lparr>d_rd := (rd_measured hash p (d_rd (mem s h)))\<lparr>rec_count := rec_count (d_rd (mem s h)) + 1\<rparr>\<rparr>
       else if h = aux ! 3 then (mem s h)\<lparr>d_simd := ctx\<rparr> else mem s h)"
    using assms by (auto simp: rec_created_def upd_granule_def) (simp_all add: aux_claimed_def)
qed

lemma rd_measured_fields:
  "rd_s2_ctx (rd_measured hash p rd) = rd_s2_ctx rd" "rec_count (rd_measured hash p rd) = rec_count rd" "rd_state (rd_measured hash p rd) = rd_state rd"
  "rd_num_rec_aux (rd_measured hash p rd) = rd_num_rec_aux rd" "rd_simd_cfg (rd_measured hash p rd) = rd_simd_cfg rd" "apt_pa (rd_measured hash p rd) = apt_pa rd"
  by (simp_all add: rd_measured_def)

lemma rec_idx_bound: "unat (rec_mpidr_to_idx m) < 2 ^ 28"
proof -
  have "take_bit 28 (rec_mpidr_to_idx m) = rec_mpidr_to_idx m" by (rule bit_word_eqI) (auto simp: bit_take_bit_iff bit_rec_idx split: if_splits)
  then show ?thesis using take_bit_nat_less_exp [of 28 "unat (rec_mpidr_to_idx m)"] by (metis unsigned_take_bit_eq)
qed

text \<open>The facts about the granules that a creatable execution context uses.\<close>

lemma creatable_facts:
  assumes inv: "realm_inv s" "rec_inv cpu s" and aux: "aux_granules s (aux_addrs p) aux" "num_aux p \<le> MAX_REC_AUX_GRANULES"
    and c: "rec_creatable s p aux rd_addr rec_addr g_rec g_rd"
  shows "g_rec \<noteq> g_rd" "g_rec \<notin> set aux" "g_rd \<notin> set aux" "length aux = 16" "is_realm s g_rd" "unat (REFCOUNT (granules s g_rd)) + unat (1 :: u16) \<le> 1023"
    "valid_g (arm_dram s) g_rec" "h \<in> insert g_rec (set aux) \<Longrightarrow> STATE (granules s h) = GRANULE_STATE_DELEGATED"
    "h \<in> insert g_rec (set aux) \<Longrightarrow> REFCOUNT (granules s h) = 0" "h \<in> set aux \<Longrightarrow> valid_g (arm_dram s) h" "distinct aux"
proof -
  note idle = realm_invD(1) [OF inv(1)] and as = aux_granules_states [OF aux(1)]
  have g: "granule_in s rec_addr GRANULE_STATE_DELEGATED = Some g_rec" "g_rec \<notin> set aux" "granule_in s rd_addr GRANULE_STATE_RD = Some g_rd"
    "REFCOUNT (granules s g_rd) \<noteq> REFCOUNT_MAX" "of_nat (length aux) = rd_num_rec_aux (d_rd (mem s g_rd))" using c by (simp_all add: rec_creatable_def)
  note ri = granule_inD [OF g(1)] and di = granule_inD [OF g(3)]
  show "g_rec \<noteq> g_rd" "g_rec \<notin> set aux" "g_rd \<notin> set aux" using ri(2) di(2) as(1) g(2) by (auto simp: granule_states)
  show realm: "is_realm s g_rd" using is_realm_in [OF g(3)] .
  have "of_nat (length aux) = (16 :: u32)" using g(5) rec_invD(5) [OF inv(2) realm] by (simp add: rd_ok_def)
  moreover have "length aux = length (aux_addrs p)" using aux(1) by (metis aux_granules_def length_map)
  moreover have "length (aux_addrs p) \<le> 16" using aux(2) by (simp add: aux_addrs_def MAX_REC_AUX_GRANULES_def)
  ultimately show "length aux = 16" by (simp add: word_unat_eq_iff unat_of_nat)
  show "unat (REFCOUNT (granules s g_rd)) + unat (1 :: u16) \<le> 1023" using refcount_bound [of "granules s g_rd"] g(4) by (simp add: word_unat_eq_iff)
  show "valid_g (arm_dram s) g_rec" by (rule ri(3))
  show st: "STATE (granules s h) = GRANULE_STATE_DELEGATED" if "h \<in> insert g_rec (set aux)" for h using that as(1) ri(2) by auto
  show "REFCOUNT (granules s h) = 0" if "h \<in> insert g_rec (set aux)"
    using idle_inv [OF idle st [OF that]] by (simp add: granule_unlocked_invariants_def granule_states)
  show "valid_g (arm_dram s) h" if "h \<in> set aux" using as(2) [OF that] .
  show "distinct aux" using aux(1) by (simp add: aux_granules_def)
qed

lemma rec_created_realm_inv:
  fixes hash :: "hash_algo \<Rightarrow> u8 list \<Rightarrow> u8 list" and r :: rec_data and ctx :: simd_context
  assumes inv: "realm_inv s" "rec_inv cpu s" and aux: "aux_granules s (aux_addrs p) aux" "num_aux p \<le> MAX_REC_AUX_GRANULES"
    and c: "rec_creatable s p aux rd_addr rec_addr g_rec g_rd"
  defines "s' \<equiv> rec_created hash p aux g_rec g_rd r ctx s"
  shows "realm_inv s'" "maps s' h P d \<longleftrightarrow> maps s h P d" "same_realms s s'"
proof -
  note idle = realm_invD(1) [OF inv(1)] note id = idleD [OF idle]
  note f = creatable_facts [OF inv aux c]
  note sf = rec_created_fields [OF f(1-3), of hash p r ctx s, folded s'_def, unfolded f(4), simplified] and add = refcount_add_fields [OF f(6)]
  have st: "STATE (granules s' h) = (if h = g_rec then GRANULE_STATE_REC else if h \<in> set aux then GRANULE_STATE_REC_AUX else STATE (granules s h))" for h
    using sf(5) [of h] f(3) add(2) by auto
  show realms: "same_realms s s'"
    unfolding same_realms_def
  proof (intro conjI allI impI)
    fix h
    show "is_realm s' h = is_realm s h" using st [of h] sf(1) f(8) [of h] by (auto simp: is_realm_def granule_states split: if_splits)
    show "realm_ctx s' h = realm_ctx s h" if "is_realm s h"
      using sf(6) [of h] by (auto simp: realm_ctx_def rd_measured_fields)
  qed (rule sf(1))
  have idle': "idle s'"
  proof (rule idle_change [OF idle sf(1,2)])
    fix h
    show "\<not> LOCKED (granules s' h)" using sf(5) [of h] id(2) [of h] add(1) by auto
    show "length (words (mem s' h)) = 512" using sf(6) [of h] id(6) [of h] by auto
    have "granule_inv (granules s' g_rd)" using st [of g_rd] f(1,3,5) by (simp add: is_realm_def granule_unlocked_invariants_def granule_states)
    then show "REFCOUNT (granules s' h) = REFCOUNT (granules s h) \<and> STATE (granules s' h) = STATE (granules s h) \<or> granule_inv (granules s' h)"
      using sf(5) [of h] f(9) [of h] by (auto simp: granule_unlocked_invariants_def granule_states)
    show "STATE (granules s' h) = GRANULE_STATE_DELEGATED \<Longrightarrow>
        STATE (granules s h) = GRANULE_STATE_DELEGATED \<and> mem s' h = mem s h \<or> mem s' h = zero_data"
      using st [of h] sf(6) [of h] f(4,5) nth_mem [of 3 aux] by (auto simp: granule_states is_realm_def split: if_splits)
  qed
  have keep: "is_rtt s' t \<and> words (mem s' t) = words (mem s t) \<and> REFCOUNT (granules s' t) = REFCOUNT (granules s t)" if t: "is_rtt s t" for t
  proof -
    have "t \<noteq> g_rec" "t \<notin> set aux" "t \<noteq> g_rd" using t f(5) f(8) [of t] by (auto simp: is_rtt_def is_realm_def granule_states)
    then show ?thesis using t st [of t] sf(1) sf(5,6) [of t] by (auto simp: is_rtt_def)
  qed
  have data: "STATE (granules s' d) = GRANULE_STATE_DATA" if "STATE (granules s d) = GRANULE_STATE_DATA" for d
    using st [of d] f(8) [of d] that by (auto simp: granule_states split: if_splits)
  note fr = realm_inv_frame [OF inv(1) idle' realms keep data]
  show "realm_inv s'" by (rule fr(1))
  show "maps s' h P d \<longleftrightarrow> maps s h P d" by (rule fr(3))
qed

end
