(* ===== verification/Rec_Correct.thy ===== *)
theory Rec_Correct
  imports Rec_Create
begin

text \<open>RMI\_REC\_CREATE keeps the invariant of execution contexts, and its correctness.\<close>

text \<open>The arrays of the parameters have the lengths of the C structure.\<close>

definition wf_rec_params :: "rmi_rec_params \<Rightarrow> bool" where
  "wf_rec_params p \<longleftrightarrow> length (pp_gprs p) = 8 \<and> length (pp_aux p) = 16"

lemma new_rec_fields:
  assumes "length aux = 16" "length (pp_gprs p) = 8"
  shows "rec_g_rec (new_rec cpu p aux g_rec g_rd rd v a) = Some g_rec" "rec_idx (new_rec cpu p aux g_rec g_rd rd v a) = rec_count rd"
    "length (rec_regs (new_rec cpu p aux g_rec g_rd rd v a)) = 31" "rec_g_aux (new_rec cpu p aux g_rec g_rd rd v a) = map Some aux"
    "rec_num_aux (new_rec cpu p aux g_rec g_rd rd v a) = 16" "ri_g_rd (rec_realm_info (new_rec cpu p aux g_rec g_rd rd v a)) = Some g_rd"
    "ri_s2_ctx (rec_realm_info (new_rec cpu p aux g_rec g_rd rd v a)) = rd_s2_ctx rd"
    "rec_runnable (new_rec cpu p aux g_rec g_rd rd v a) \<longleftrightarrow> pp_flags p AND REC_PARAMS_FLAG_RUNNABLE \<noteq> 0"
    "rec_common_sysregs (new_rec cpu p aux g_rec g_rd rd v a) = common_sysregs cpu rd v a" "rec_pc (new_rec cpu p aux g_rec g_rd rd v a) = pp_pc p"
  using assms by (simp_all add: new_rec_def rec_fields_def init_rec_sysregs_def zero_rec_def REC_CREATE_NR_GPRS_def)

lemma rec_created_rec_inv:
  assumes inv: "realm_inv s" "rec_inv cpu s" and aux: "aux_granules s (aux_addrs p) aux" "num_aux p \<le> MAX_REC_AUX_GRANULES"
    and c: "rec_creatable s p aux rd_addr rec_addr g_rec g_rd" and p: "wf_rec_params p"
    and r: "r = new_rec cpu p aux g_rec g_rd (d_rd (mem s g_rd)) v a" and s': "s' = rec_created hash p aux g_rec g_rd r ctx s"
  shows "rec_inv cpu s'" "is_rec s' h \<longleftrightarrow> is_rec s h \<or> h = g_rec" "rec_at s' g_rec = r" "is_rec s h \<Longrightarrow> rec_at s' h = rec_at s h"
proof -
  note idle = realm_invD(1) [OF inv(1)] note id = idleD [OF idle] and f = creatable_facts [OF inv aux c]
  note sf = rec_created_fields [OF f(1-3), of hash p r ctx s, folded s', unfolded f(4), simplified] and add = refcount_add_fields [OF f(6)]
    and realms = rec_created_realm_inv(3) [OF inv aux c, of hash r ctx, folded s']
  let ?rd = "d_rd (mem s g_rd)"
  have gprs: "length (pp_gprs p) = 8" using p by (simp add: wf_rec_params_def)
  note nf = new_rec_fields [OF f(4) gprs, of cpu g_rec g_rd ?rd v a, folded r]
  have st: "STATE (granules s' h) = (if h = g_rec then GRANULE_STATE_REC else if h \<in> set aux then GRANULE_STATE_REC_AUX else STATE (granules s h))" for h
    using sf(5) [of h] f(3) add(2) by auto
  show ir: "is_rec s' h \<longleftrightarrow> is_rec s h \<or> h = g_rec" for h
    using st [of h] sf(1) f(7) f(8) [of h] by (auto simp: is_rec_def granule_states split: if_splits)
  show new: "rec_at s' g_rec = r" using sf(6) by simp
  have nr: "h \<noteq> g_rec" "h \<notin> set aux" if "is_rec s h \<or> is_aux s h \<or> is_realm s h" for h
    using that f(8) [of h] by (auto simp: is_rec_def is_aux_def is_realm_def granule_states)
  show old: "rec_at s' h = rec_at s h" if "is_rec s h" for h using sf(6) [of h] nr(1) that by auto
  have idx: "rec_count ?rd = rec_mpidr_to_idx (pp_mpidr p)" using c by (simp add: rec_creatable_def)
  have inc: "x \<le> rec_count ?rd \<Longrightarrow> x < rec_count ?rd + 1" for x
  proof -
    have "unat (rec_count ?rd + 1) = unat (rec_count ?rd) + 1" using rec_idx_bound [of "pp_mpidr p"] idx by (subst unat_add_nowrap) simp_all
    then show "x \<le> rec_count ?rd \<Longrightarrow> x < rec_count ?rd + 1" by (simp add: word_le_nat_alt word_less_nat_alt)
  qed
  have cnt: "rec_count (d_rd (mem s' rd)) = (if rd = g_rd then rec_count ?rd + 1 else rec_count (d_rd (mem s rd)))" for rd
    using sf(6) [of rd] f(1) by (auto simp: rd_measured_fields)
  note same = same_realmsD [OF realms]
  have "rec_ok s' h (rec_at s' h)" if h: "is_rec s' h" for h
  proof (cases "h = g_rec")
    case True
    have "is_aux s' x" if "x \<in> set aux" for x using st [of x] that f(2,10) sf(1) by (auto simp: is_aux_def)
    moreover have "is_realm s' g_rd" "realm_ctx s' g_rd = rd_s2_ctx ?rd" using same(2,3) f(5) by (simp_all add: realm_ctx_def)
    moreover have "rec_count ?rd < rec_count (d_rd (mem s' g_rd))" using inc cnt by simp
    ultimately show ?thesis unfolding True new rec_ok_def using nf f(4,11) by metis
  next
    case False
    then have h': "is_rec s h" using h ir by blast
    obtain x rd where r: "rec_g_rec (rec_at s h) = Some h" "length (rec_regs (rec_at s h)) = 31" "rec_g_aux (rec_at s h) = map Some x"
      "rec_num_aux (rec_at s h) = 16" "length x = 16" "distinct x" "\<And>j. j \<in> set x \<Longrightarrow> is_aux s j" "rec_rd s h = Some rd"
      "is_realm s rd" "ri_s2_ctx (rec_realm_info (rec_at s h)) = realm_ctx s rd" "rec_idx (rec_at s h) < rec_count (d_rd (mem s rd))"
      using rec_okD [OF rec_invD(1) [OF inv(2) h']] by blast
    have "is_aux s' j" if "j \<in> set x" for j using r(7) [OF that] nr [of j] st [of j] sf(1) by (auto simp: is_aux_def)
    moreover have "is_realm s' rd" "realm_ctx s' rd = realm_ctx s rd" using same(2,3) r(9) by simp_all
    moreover have "rec_idx (rec_at s h) < rec_count (d_rd (mem s' rd))" using r(11) cnt [of rd] inc [of "rec_idx (rec_at s h)"] by auto
    ultimately show ?thesis unfolding old [OF h'] rec_ok_def using r by metis
  qed
  moreover have "j = k" if "is_rec s' j" "is_rec s' k" "Some x \<in> set (rec_g_aux (rec_at s' j))" "Some x \<in> set (rec_g_aux (rec_at s' k))" for j k x
  proof -
    have oa: "is_aux s x" if "is_rec s h" "Some x \<in> set (rec_g_aux (rec_at s h))" for h
      using rec_invD(1) [OF inv(2) that(1)] that(2) by (auto simp: rec_ok_def)
    show ?thesis
      using that ir old new nf(4) oa nr(2) [of x] rec_invD(2) [OF inv(2), of j k x] by (cases "j = g_rec"; cases "k = g_rec") auto
  qed
  moreover have "j = k" if "is_rec s' j" "is_rec s' k" "rec_rd s' j = rec_rd s' k" "rec_idx (rec_at s' j) = rec_idx (rec_at s' k)" for j k
  proof -
    have lt: "rec_idx (rec_at s h) \<noteq> rec_count ?rd" if "is_rec s h" "rec_rd s h = Some g_rd" for h
      using rec_invD(1) [OF inv(2) that(1)] that(2) by (auto simp: rec_ok_def)
    show ?thesis
      using that ir old new nf(2,6) lt rec_invD(3) [OF inv(2), of j k] by (cases "j = g_rec"; cases "k = g_rec") auto
  qed
  moreover have "unat (REFCOUNT (granules s' rd)) = card (recs_of s' rd) \<and> rd_ok cpu (d_rd (mem s' rd))" if "is_realm s' rd" for rd
  proof -
    have rl: "is_realm s rd" using that same(2) by blast
    have ng: "g_rec \<notin> recs_of s rd" using nr(1) by (auto simp: recs_of_def)
    have of: "recs_of s' rd = (if rd = g_rd then insert g_rec (recs_of s rd) else recs_of s rd)"
      using ir old new nf(6) nr(1) by (auto simp: recs_of_def)
    have "unat (REFCOUNT (granules s' rd)) = card (recs_of s' rd)"
    proof (cases "rd = g_rd")
      case True
      then have "unat (REFCOUNT (granules s' rd)) = unat (REFCOUNT (granules s rd)) + 1"
        using sf(5) [of rd] f(1,6) add(4) unat_add_lem [of "REFCOUNT (granules s g_rd)" 1] by simp
      then show ?thesis using rec_invD(4) [OF inv(2) rl] of ng finite_recs [OF id(3)] True by simp
    next
      case False
      then show ?thesis using sf(5) [of rd] nr [of rd] rl of rec_invD(4) [OF inv(2) rl] by simp
    qed
    moreover have "rd_ok cpu (d_rd (mem s' rd))"
      using rec_invD(5) [OF inv(2) rl] sf(6) [of rd] nr [of rd] rl by (auto simp: rd_ok_def rd_measured_fields)
    ultimately show ?thesis by simp
  qed
  ultimately show "rec_inv cpu s'" unfolding rec_inv_def by blast
qed

section \<open>Correctness\<close>

text \<open>The first auxiliary granule is delegated, but not all of them are delegated and distinct.\<close>

definition aux_partly :: "rmm \<Rightarrow> rmi_rec_params \<Rightarrow> bool" where
  "aux_partly s p \<longleftrightarrow> num_aux p \<le> MAX_REC_AUX_GRANULES \<and> (\<nexists>aux. aux_granules s (aux_addrs p) aux) \<and>
    granule_in s (hd (aux_addrs p)) GRANULE_STATE_DELEGATED \<noteq> None"

definition rec_create_possible :: "rmm \<Rightarrow> rmi_rec_params \<Rightarrow> u64 \<Rightarrow> u64 \<Rightarrow> bool" where
  "rec_create_possible s p rd_addr rec_addr \<longleftrightarrow> num_aux p \<le> MAX_REC_AUX_GRANULES \<and>
    (\<exists>aux g_rec g_rd. aux_granules s (aux_addrs p) aux \<and> rec_creatable s p aux rd_addr rec_addr g_rec g_rd)"

text \<open>The execution context \<open>g\<close> belongs to the realm \<open>rd\<close>: its VTTBR\_EL2 has the VMID and the starting level table of the realm.\<close>

definition rec_of_realm :: "rmm \<Rightarrow> nat \<Rightarrow> nat \<Rightarrow> bool" where
  "rec_of_realm s g rd \<longleftrightarrow> rec_rd s g = Some rd \<and>
    (let v = com_vttbr_el2 (rec_common_sysregs (rec_at s g)); c = realm_ctx s rd
     in vttbr_vmid v = ucast (vmid c) \<and>
        (\<exists>a. granule_at (arm_dram s) a = g_rtt c \<and> (enable_lpa2 c \<or> unat a < 2 ^ 48 \<longrightarrow> vttbr_pa (enable_lpa2 c) v = a)))"

lemma vmid_16: "vmid_inv s \<Longrightarrow> is_realm s g \<Longrightarrow> unat (vmid (realm_ctx s g)) < 2 ^ 16"
  using vmid_invD(2) [of s g] by (auto simp: vmid_count_def VMID8_COUNT_def VMID16_COUNT_def word_less_nat_alt split: if_splits)

lemma rec_created_of_realm:
  assumes inv: "realm_inv s" "rec_inv cpu s" "vmid_inv s" and aux: "aux_granules s (aux_addrs p) aux" "num_aux p \<le> MAX_REC_AUX_GRANULES"
    and c: "rec_creatable s p aux rd_addr rec_addr g_rec g_rd" and p: "wf_rec_params p" and a: "granule_at (arm_dram s) a = g_rtt (realm_ctx s g_rd)"
    and r: "r = new_rec cpu p aux g_rec g_rd (d_rd (mem s g_rd)) v a" and s': "s' = rec_created hash p aux g_rec g_rd r ctx s"
  shows "rec_of_realm s' g_rec g_rd" "rec_pc (rec_at s' g_rec) = pp_pc p"
    "rec_runnable (rec_at s' g_rec) \<longleftrightarrow> pp_flags p AND REC_PARAMS_FLAG_RUNNABLE \<noteq> 0"
proof -
  note f = creatable_facts [OF inv(1,2) aux c] and ci = rec_created_rec_inv [OF inv(1,2) aux c p r s']
  have gprs: "length (pp_gprs p) = 8" using p by (simp add: wf_rec_params_def)
  note nf = new_rec_fields [OF f(4) gprs, of cpu g_rec g_rd "d_rd (mem s g_rd)" v a, folded r]
  note same = same_realmsD [OF rec_created_realm_inv(3) [OF inv(1,2) aux c, of hash r ctx, folded s']]
  have ctx: "realm_ctx s' g_rd = rd_s2_ctx (d_rd (mem s g_rd))" using same(3) f(5) by (simp add: realm_ctx_def)
  have wf: "wf_ctx (realm_ctx s g_rd)" using tree_okD(1) [OF realm_invD(2) [OF inv(1)] f(5)] .
  then obtain t where t: "granule_at (arm_dram s) a = Some t" using a by (auto simp: wf_ctx_def)
  have al: "GRANULE_ALIGNED a" "unat a < 2 ^ 52" using granule_at_aligned [OF t idleD(3) [OF realm_invD(1) [OF inv(1)]]] realm_invD(7) [OF inv(1) t] by blast+
  have vm: "unat (vmid (rd_s2_ctx (d_rd (mem s g_rd)))) < 2 ^ 16" using vmid_16 [OF inv(3) f(5)] by (simp add: realm_ctx_def)
  have vttbr: "com_vttbr_el2 (rec_common_sysregs (rec_at s' g_rec)) = com_vttbr_el2 (common_sysregs cpu (d_rd (mem s g_rd)) v a)"
    unfolding ci(3) nf(9) ..
  have vid: "vttbr_vmid (com_vttbr_el2 (common_sysregs cpu (d_rd (mem s g_rd)) v a)) = ucast (vmid (rd_s2_ctx (d_rd (mem s g_rd))))"
    by (rule vttbr_vmid_value [OF vm])
  have pa: "vttbr_pa (enable_lpa2 (rd_s2_ctx (d_rd (mem s g_rd)))) (com_vttbr_el2 (common_sysregs cpu (d_rd (mem s g_rd)) v a)) = a"
    if "enable_lpa2 (rd_s2_ctx (d_rd (mem s g_rd))) \<or> unat a < 2 ^ 48"
    by (rule vttbr_pa_value [OF al(1)]) (use that al(2) in auto)
  show "rec_of_realm s' g_rec g_rd"
    unfolding rec_of_realm_def Let_def vttbr ctx using ci(3) nf(6) vid pa a same(1) by (auto simp: realm_ctx_def)
  show "rec_pc (rec_at s' g_rec) = pp_pc p" "rec_runnable (rec_at s' g_rec) \<longleftrightarrow> pp_flags p AND REC_PARAMS_FLAG_RUNNABLE \<noteq> 0"
    unfolding ci(3) using nf by simp_all
qed

lemma rec_create_outcome:
  assumes inv: "realm_inv s" "rec_inv cpu s" "vmid_inv s" and cpu: "cpu_ok cpu" and ps: "\<And>g. wf_rec_params (fst (ns_params g))"
  shows "if \<exists>p. rec_params_read s ns_params params_addr = Some p \<and> aux_partly s p
    then smc_rec_create hash cpu ns_params rd_addr rec_addr params_addr s = Inl Assert_Fail
    else \<exists>ret s'. smc_rec_create hash cpu ns_params rd_addr rec_addr params_addr s = Inr (ret, s') \<and>
      realm_inv s' \<and> rec_inv cpu s' \<and> vmid_inv s' \<and> (\<forall>g P d. maps s' g P d \<longleftrightarrow> maps s g P d) \<and>
      (case rec_params_read s ns_params params_addr of
         None \<Rightarrow> ret \<noteq> RMI_SUCCESS \<and> s' = s
       | Some p \<Rightarrow>
           if rec_create_possible s p rd_addr rec_addr
           then ret = RMI_SUCCESS \<and> (\<exists>g_rec g_rd. granule_in s rec_addr GRANULE_STATE_DELEGATED = Some g_rec \<and>
             granule_in s rd_addr GRANULE_STATE_RD = Some g_rd \<and> (\<forall>h. is_rec s' h \<longleftrightarrow> is_rec s h \<or> h = g_rec) \<and>
             (\<forall>h. is_rec s h \<longrightarrow> rec_at s' h = rec_at s h) \<and> rec_of_realm s' g_rec g_rd \<and> rec_pc (rec_at s' g_rec) = pp_pc p \<and>
             (rec_runnable (rec_at s' g_rec) \<longleftrightarrow> pp_flags p AND REC_PARAMS_FLAG_RUNNABLE \<noteq> 0))
           else ret \<noteq> RMI_SUCCESS \<and> s' = s)"
proof -
  let ?run = "smc_rec_create hash cpu ns_params rd_addr rec_addr params_addr s"
  note run = smc_rec_create_run [OF inv(1,2) cpu, where ns_params = ns_params and params_addr = params_addr and hash = hash and rd_addr = rd_addr and rec_addr = rec_addr]
  have err: "?thesis" if "?run = Inr (ret, s)" "ret \<noteq> RMI_SUCCESS" "\<nexists>p. rec_params_read s ns_params params_addr = Some p \<and> aux_partly s p"
    "\<nexists>p. rec_params_read s ns_params params_addr = Some p \<and> rec_create_possible s p rd_addr rec_addr" for ret
    unfolding if_not_P [OF that(3)] using that(1,2,4) inv by (auto split: option.split)
  have neq: "RMI_ERROR_INPUT \<noteq> RMI_SUCCESS" by (simp add: RMI_ERROR_INPUT_def RMI_SUCCESS_def)
  show ?thesis
  proof (cases "rec_params_read s ns_params params_addr")
    case None
    then show ?thesis using run by (intro err [OF _ neq]) simp_all
  next
    case (Some p)
    note run = run [unfolded Some option.case]
    have p: "wf_rec_params p" using Some ps by (auto simp: rec_params_read_def split: option.splits if_splits)
    show ?thesis
    proof (cases "num_aux p > MAX_REC_AUX_GRANULES")
      case True
      then show ?thesis using run Some by (intro err [OF _ neq]) (simp_all add: aux_partly_def rec_create_possible_def)
    next
      case n: False
      note run = run [unfolded if_not_P [OF n]]
      have n': "num_aux p \<le> MAX_REC_AUX_GRANULES" using n by simp
      show ?thesis
      proof (cases "\<exists>aux. aux_granules s (aux_addrs p) aux")
        case False
        then have np: "\<not> rec_create_possible s p rd_addr rec_addr" by (simp add: rec_create_possible_def)
        show ?thesis
        proof (cases "aux_partly s p")
          case True
          then show ?thesis using run False Some by (simp add: aux_partly_def)
        next
          case np2: False
          then show ?thesis using run False Some n' np by (intro err [OF _ neq]) (simp_all add: aux_partly_def)
        qed
      next
        case True
        then have nn: "\<not> (\<nexists>aux. aux_granules s (aux_addrs p) aux)" by blast
        from run [unfolded if_not_P [OF nn]] obtain aux where aux: "aux_granules s (aux_addrs p) aux"
          and run: "if \<exists>g_rec g_rd. rec_creatable s p aux rd_addr rec_addr g_rec g_rd
           then \<exists>g_rec g_rd v a ctx. rec_creatable s p aux rd_addr rec_addr g_rec g_rd \<and> granule_at (arm_dram s) a = g_rtt (realm_ctx s g_rd) \<and>
             ?run = Inr (RMI_SUCCESS, rec_created hash p aux g_rec g_rd (new_rec cpu p aux g_rec g_rd (d_rd (mem s g_rd)) v a) ctx s)
           else \<exists>ret. ret \<noteq> RMI_SUCCESS \<and> ?run = Inr (ret, s)" by blast
        have poss: "rec_create_possible s p rd_addr rec_addr \<longleftrightarrow> (\<exists>g_rec g_rd. rec_creatable s p aux rd_addr rec_addr g_rec g_rd)"
          using aux aux_granules_unique n' unfolding rec_create_possible_def by blast
        have npart: "\<not> aux_partly s p" using True by (simp add: aux_partly_def)
        show ?thesis
        proof (cases "rec_create_possible s p rd_addr rec_addr")
          case False
          then obtain ret where "ret \<noteq> RMI_SUCCESS" "?run = Inr (ret, s)" using run [unfolded poss [symmetric]] by auto
          then show ?thesis using Some npart False by (intro err) simp_all
        next
          case True
          then obtain g_rec g_rd v a ctx where c: "rec_creatable s p aux rd_addr rec_addr g_rec g_rd"
            and a: "granule_at (arm_dram s) a = g_rtt (realm_ctx s g_rd)"
            and r: "?run = Inr (RMI_SUCCESS, rec_created hash p aux g_rec g_rd (new_rec cpu p aux g_rec g_rd (d_rd (mem s g_rd)) v a) ctx s)"
            using run [unfolded poss [symmetric]] by (auto simp del: split_paired_Ex)
          let ?r = "new_rec cpu p aux g_rec g_rd (d_rd (mem s g_rd)) v a"
          note c1 = rec_created_realm_inv [OF inv(1,2) aux n' c, of hash ?r ctx]
          note c2 = rec_created_rec_inv [OF inv(1,2) aux n' c p, of ?r v a _ hash ctx, OF refl refl]
          note c3 = rec_created_of_realm [OF inv aux n' c p a, of ?r v _ hash ctx, OF refl refl]
          note f = creatable_facts [OF inv(1,2) aux n' c]
          have vi: "vmid_inv (rec_created hash p aux g_rec g_rd ?r ctx s)"
            by (rule vmid_inv_same [OF inv(3) _ _ c1(3)]) (use rec_created_fields(3,4) [OF f(1-3)] f(4) in simp_all)
          have g: "granule_in s rec_addr GRANULE_STATE_DELEGATED = Some g_rec" "granule_in s rd_addr GRANULE_STATE_RD = Some g_rd"
            using c by (simp_all add: rec_creatable_def)
          have no: "\<nexists>p. rec_params_read s ns_params params_addr = Some p \<and> aux_partly s p" using Some npart by simp
          show ?thesis
            unfolding if_not_P [OF no] Some option.case if_P [OF True]
            by (simp add: r g c1(1,2) c2(1,2,4) c3 vi npart)
        qed
      qed
    qed
  qed
qed


text \<open>
  With two auxiliary granules, the first one delegated and the second one still non-secure, the command fails its assertion.
\<close>

definition demo_rec_params :: rmi_rec_params where
  "demo_rec_params = \<lparr>pp_flags = 1, pp_mpidr = 0, pp_pc = 0, pp_gprs = replicate 8 0, pp_num_aux = 2,
     pp_aux = 0x80001000 # 0x80000000 # replicate 14 0\<rparr>"

lemma demo_fresh_rec_inv: "rec_inv cpu demo_fresh"
  by (rule no_realms_rec_inv) (simp_all add: demo_fresh_realms is_rec_def demo_fresh_fields granule_states)


end
