(* ===== verification/Rec_Destroy.thy ===== *)
theory Rec_Destroy
  imports Rec_Correct
begin

text \<open>
  The correctness of RMI\_REC\_DESTROY: the execution context and its auxiliary granules go back to the host zeroed, and the
  reference count of the realm goes down.
\<close>

definition rec_destroyed :: "nat \<Rightarrow> nat list \<Rightarrow> nat \<Rightarrow> rmm \<Rightarrow> rmm" where
  "rec_destroyed g aux rd s =
    upd_granule rd (add_desc (- 1)) (upd_granule g (eor_state GRANULE_STATE_DELEGATED) (upd_mem g (\<lambda>_. zero_data) (aux_freed True aux s)))"

text \<open>The auxiliary granules and the realm of an execution context.\<close>

definition rec_parts :: "rmm \<Rightarrow> nat \<Rightarrow> nat list \<Rightarrow> nat \<Rightarrow> bool" where
  "rec_parts s g aux rd \<longleftrightarrow> rec_g_aux (rec_at s g) = map Some aux \<and> rec_num_aux (rec_at s g) = 16 \<and> length aux = 16 \<and> distinct aux \<and>
    (\<forall>h \<in> set aux. is_aux s h) \<and> rec_rd s g = Some rd \<and> is_realm s rd"

lemma rec_parts_ex:
  assumes "rec_inv cpu s" "is_rec s g"
  shows "\<exists>aux rd. rec_parts s g aux rd"
  using rec_invD(1) [OF assms] unfolding rec_ok_def rec_parts_def by blast

lemma rec_parts_facts:
  assumes inv: "realm_inv s" "rec_inv cpu s" and g: "is_rec s g" and p: "rec_parts s g aux rd"
  shows "g \<noteq> rd" "g \<notin> set aux" "rd \<notin> set aux" "h \<in> set aux \<Longrightarrow> valid_g (arm_dram s) h" "h \<in> set aux \<Longrightarrow> STATE (granules s h) = GRANULE_STATE_REC_AUX"
    "h \<in> set aux \<Longrightarrow> REFCOUNT (granules s h) = 0" "REFCOUNT (granules s rd) \<noteq> 0" "STATE (granules s rd) = GRANULE_STATE_RD" "length aux = 16"
proof -
  note id = idleD [OF realm_invD(1) [OF inv(1)]]
  show st: "h \<in> set aux \<Longrightarrow> valid_g (arm_dram s) h" "h \<in> set aux \<Longrightarrow> STATE (granules s h) = GRANULE_STATE_REC_AUX" for h
    using p by (auto simp: rec_parts_def is_aux_def)
  show sr: "STATE (granules s rd) = GRANULE_STATE_RD" using p by (simp add: rec_parts_def is_realm_def)
  show "g \<noteq> rd" "g \<notin> set aux" "rd \<notin> set aux" using g st(2) sr by (auto simp: is_rec_def granule_states)
  show "h \<in> set aux \<Longrightarrow> REFCOUNT (granules s h) = 0"
    using idle_inv [OF realm_invD(1) [OF inv(1)] st(2)] by (simp add: granule_unlocked_invariants_def granule_states)
  have "g \<in> recs_of s rd" using g p by (simp add: recs_of_def rec_parts_def)
  then have "card (recs_of s rd) \<noteq> 0" using finite_recs [OF id(3), of rd] by auto
  then show "REFCOUNT (granules s rd) \<noteq> 0" using rec_invD(4) [OF inv(2), of rd] p by (auto simp: rec_parts_def)
  show "length aux = 16" using p by (simp add: rec_parts_def)
qed

lemma smc_rec_destroy_run:
  assumes inv: "realm_inv s" "rec_inv cpu s"
  shows "case granule_in s rec_addr GRANULE_STATE_REC of
      None \<Rightarrow> smc_rec_destroy rec_addr s = Inr (RMI_ERROR_INPUT, s)
    | Some g \<Rightarrow>
        if REFCOUNT (granules s g) \<noteq> 0 then smc_rec_destroy rec_addr s = Inr (RMI_ERROR_REC, s)
        else \<exists>aux rd. rec_parts s g aux rd \<and> smc_rec_destroy rec_addr s = Inr (RMI_SUCCESS, rec_destroyed g aux rd s)"
proof (cases "granule_in s rec_addr GRANULE_STATE_REC")
  note idle = realm_invD(1) [OF inv(1)] note id = idleD [OF idle] and gok = rmm_okD(1) [OF idleD(1) [OF idle]]
  note fu = find_lock_unused_granule_run [OF gok, of rec_addr GRANULE_STATE_REC]
  {
    case None
    then show ?thesis using fu id(2) by (auto simp: smc_rec_destroy_def run_simps granule_in_def split: option.splits if_splits)
  next
    case (Some g)
    note gi = granule_inD [OF Some]
    show ?thesis
    proof (cases "REFCOUNT (granules s g) = 0")
      case False
      then show ?thesis using fu id(2) gi(1,2) Some by (simp add: smc_rec_destroy_def run_simps)
    next
      case True
      have rec: "is_rec s g" using gi by (simp add: is_rec_def)
      obtain aux rd where p: "rec_parts s g aux rd" using rec_parts_ex [OF inv(2) rec] by blast
      note f = rec_parts_facts [OF inv rec p]
      have lk: "find_lock_unused_granule rec_addr GRANULE_STATE_REC s = Inr (Unused g, held {g} no_slots s)"
      proof -
        have "upd_granule g set_lock s = held {g} no_slots s" using held_lock [of g "{}" no_slots s] held_empty [OF id(4)] by simp
        then show ?thesis using fu id(2) gi(1,2) True by simp
      qed
      let ?M = "no_slots(SLOT_REC := Some g)" let ?s1 = "aux_freed True aux s" let ?s2 = "upd_mem g (\<lambda>_. zero_data) ?s1"
      let ?s3 = "upd_granule g (eor_state GRANULE_STATE_DELEGATED) ?s2"
      have mp: "map_slot (Some g) SLOT_REC (held {g} no_slots s) = Inr ((), held {g} ?M s)" using gi(3) id(3) by (simp add: map_slot_held)
      have ax: "g_aux_of (rec_at s g) (held {g} ?M s) = Inr (aux, held {g} ?M s)"
        using p by (simp add: g_aux_of_def rec_parts_def those_map_Some run_simps)
      have fr: "free_rec_aux_granules 0 aux True (held {g} ?M s) = Inr ((), held {g} ?M ?s1)"
      proof (rule free_rec_aux_held)
        fix h assume "h \<in> set aux"
        then show "valid_g (arm_dram s) h \<and> STATE (granules s h) = GRANULE_STATE_REC_AUX \<and> h \<notin> {g} \<and> \<not> LOCKED (granules s h) \<and> REFCOUNT (granules s h) = 0"
          using f(2,4,5,6) id(2) by auto
      qed (use id(3) p f(9) in \<open>auto simp: rec_parts_def MAX_REC_AUX_GRANULES_def slot_numbers\<close>)
      have um: "buffer_unmap SLOT_REC (held {g} ?M ?s2) = Inr ((), held {g} no_slots ?s2)" by (simp add: buffer_unmap_held unmap_slot)
      have ut: "granule_unlock_transition g GRANULE_STATE_DELEGATED (held {g} no_slots ?s2) = Inr ((), ?s3)"
      proof -
        have "slots ?s3 = no_slots" using id(4) by simp
        then show ?thesis
          using granule_unlock_transition_held [of g "{g}" GRANULE_STATE_DELEGATED ?s2 no_slots] id(2) [of g] True f(2) held_empty [of ?s3]
          by (simp add: granule_unlocked_invariants_def granule_states)
      qed
      have pr: "atomic_granule_put_release rd ?s3 = Inr ((), rec_destroyed g aux rd s)"
        using f(1,3,7) by (simp add: atomic_granule_put_release_def run_simps rec_destroyed_def upd_granule_def)
      have "smc_rec_destroy rec_addr s = Inr (RMI_SUCCESS, rec_destroyed g aux rd s)"
        using p by (simp add: smc_rec_destroy_def run_simps lk mp read_held ax fr memzero_mapped_held um ut pr rec_parts_def)
      then show ?thesis using Some True p by auto
    qed
  }
qed

lemma rec_destroyed_fields:
  assumes "g \<noteq> rd" "g \<notin> set aux" "rd \<notin> set aux"
  shows "arm_dram (rec_destroyed g aux rd s) = arm_dram s" "slots (rec_destroyed g aux rd s) = slots s"
    "vmids (rec_destroyed g aux rd s) = vmids s" "feat_vmid16 (rec_destroyed g aux rd s) = feat_vmid16 s"
    "granules (rec_destroyed g aux rd s) h =
      (if h = rd then add_desc (- 1) (granules s h) else if h = g \<or> h \<in> set aux then eor_state GRANULE_STATE_DELEGATED (granules s h) else granules s h)"
    "mem (rec_destroyed g aux rd s) h = (if h = g \<or> h \<in> set aux then zero_data else mem s h)"
  using assms by (auto simp: rec_destroyed_def upd_granule_def)

lemma rec_destroyed_inv:
  assumes inv: "realm_inv s" "rec_inv cpu s" and g: "is_rec s g" and p: "rec_parts s g aux rd" and rc: "REFCOUNT (granules s g) = 0"
    and s': "s' = rec_destroyed g aux rd s"
  shows "realm_inv s'" "rec_inv cpu s'" "maps s' h P d \<longleftrightarrow> maps s h P d" "same_realms s s'" "is_rec s' h \<longleftrightarrow> is_rec s h \<and> h \<noteq> g"
proof -
  note idle = realm_invD(1) [OF inv(1)] note id = idleD [OF idle] and f = rec_parts_facts [OF inv g p]
  note sf = rec_destroyed_fields [OF f(1-3), of s, folded s']
  have one: "1 \<le> REFCOUNT (granules s rd)" using f(7) by (simp add: word_le_nat_alt unat_gt_0 Suc_leI)
  note sub = refcount_sub_fields [OF one]
  let ?own = "\<lambda>h. h = g \<or> h \<in> set aux"
  have st: "STATE (granules s' h) = (if ?own h then GRANULE_STATE_DELEGATED else STATE (granules s h))" for h
    using sf(5) [of h] f(1,3) sub(2) by auto
  have os: "STATE (granules s h) = GRANULE_STATE_REC \<or> STATE (granules s h) = GRANULE_STATE_REC_AUX" if "?own h" for h
    using that g f(5) by (auto simp: is_rec_def)
  show realms: "same_realms s s'"
    unfolding same_realms_def
  proof (intro conjI allI impI)
    fix h
    show "is_realm s' h = is_realm s h" using st [of h] sf(1) os [of h] by (auto simp: is_realm_def granule_states split: if_splits)
    show "realm_ctx s' h = realm_ctx s h" if "is_realm s h"
      using sf(6) [of h] os [of h] that by (auto simp: realm_ctx_def is_realm_def granule_states)
  qed (rule sf(1))
  have idle': "idle s'"
  proof (rule idle_change [OF idle sf(1,2)])
    fix h
    show "\<not> LOCKED (granules s' h)" using sf(5) [of h] id(2) [of h] sub(1) by auto
    show "length (words (mem s' h)) = 512" using sf(6) [of h] id(6) [of h] by (auto simp: zero_data_def)
    have "granule_inv (granules s' rd)" using st [of rd] f(1,3,8) by (simp add: granule_unlocked_invariants_def granule_states)
    then show "REFCOUNT (granules s' h) = REFCOUNT (granules s h) \<and> STATE (granules s' h) = STATE (granules s h) \<or> granule_inv (granules s' h)"
      using sf(5) [of h] f(6) [of h] rc by (auto simp: granule_unlocked_invariants_def granule_states)
    show "STATE (granules s' h) = GRANULE_STATE_DELEGATED \<Longrightarrow>
        STATE (granules s h) = GRANULE_STATE_DELEGATED \<and> mem s' h = mem s h \<or> mem s' h = zero_data"
      using st [of h] sf(6) [of h] by (auto split: if_splits)
  qed
  have keep: "is_rtt s' t \<and> words (mem s' t) = words (mem s t) \<and> REFCOUNT (granules s' t) = REFCOUNT (granules s t)" if t: "is_rtt s t" for t
  proof -
    have "\<not> ?own t" "t \<noteq> rd" using t f(8) os [of t] by (auto simp: is_rtt_def granule_states)
    then show ?thesis using t st [of t] sf(1) sf(5,6) [of t] by (auto simp: is_rtt_def)
  qed
  have data: "STATE (granules s' x) = GRANULE_STATE_DATA" if "STATE (granules s x) = GRANULE_STATE_DATA" for x
    using st [of x] os [of x] that by (auto simp: granule_states split: if_splits)
  note fr = realm_inv_frame [OF inv(1) idle' realms keep data]
  show "realm_inv s'" by (rule fr(1))
  show "maps s' h P d \<longleftrightarrow> maps s h P d" by (rule fr(3))
  show ir: "is_rec s' h \<longleftrightarrow> is_rec s h \<and> h \<noteq> g" for h
    using st [of h] sf(1) f(5) [of h] g by (auto simp: is_rec_def granule_states split: if_splits)
  have na: "\<not> ?own x" if "is_rec s h" "h \<noteq> g" "Some x \<in> set (rec_g_aux (rec_at s h))" for h x
  proof -
    have "is_aux s x" using rec_invD(1) [OF inv(2) that(1)] that(3) by (auto simp: rec_ok_def)
    moreover have "x \<notin> set aux" using rec_invD(2) [OF inv(2) that(1) g that(3)] that(2) p by (auto simp: rec_parts_def)
    ultimately show ?thesis using g by (auto simp: is_aux_def is_rec_def granule_states)
  qed
  have nr: "\<not> ?own h" if "is_rec s h \<and> h \<noteq> g \<or> is_realm s h" for h
    using that os [of h] f(5) [of h] by (auto simp: is_rec_def is_realm_def granule_states)
  have old: "rec_at s' h = rec_at s h" if "is_rec s h" "h \<noteq> g" for h using sf(6) [of h] nr [of h] that by auto
  have rdd: "mem s' x = mem s x" if "is_realm s x" for x using sf(6) [of x] nr [of x] that by auto
  note same = same_realmsD [OF realms]
  have "rec_ok s' h (rec_at s' h)" if "is_rec s h" "h \<noteq> g" for h
  proof -
    note ok = rec_invD(1) [OF inv(2) that(1)]
    have "is_aux s' x" if "Some x \<in> set (rec_g_aux (rec_at s h))" "is_aux s x" for x
      using na [OF \<open>is_rec s h\<close> \<open>h \<noteq> g\<close> that(1)] that(2) st [of x] sf(1) by (simp add: is_aux_def)
    then have "\<forall>x \<in> set aux'. is_aux s' x" if "rec_g_aux (rec_at s h) = map Some aux'" "\<forall>x \<in> set aux'. is_aux s x" for aux' using that by auto
    then show ?thesis using ok same(2,3) rdd unfolding rec_ok_def old [OF that] by metis
  qed
  moreover have "unat (REFCOUNT (granules s' x)) = card (recs_of s' x) \<and> rd_ok cpu (d_rd (mem s' x))" if "is_realm s' x" for x
  proof -
    have x: "is_realm s x" using that same(2) by blast
    have of: "recs_of s' x = recs_of s x - {g}" using ir old by (auto simp: recs_of_def)
    have "unat (REFCOUNT (granules s' x)) = card (recs_of s' x)"
    proof (cases "x = rd")
      case True
      then have "g \<in> recs_of s x" using g p by (simp add: recs_of_def rec_parts_def)
      moreover have "unat (REFCOUNT (granules s' x)) = unat (REFCOUNT (granules s x)) - 1"
        using sf(5) [of x] True sub(4) one by (simp add: unat_sub)
      ultimately show ?thesis using rec_invD(4) [OF inv(2) x] of finite_recs [OF id(3)] by simp
    next
      case False
      then have "g \<notin> recs_of s x" using p by (auto simp: recs_of_def rec_parts_def)
      then show ?thesis using sf(5) [of x] False nr [of x] x of rec_invD(4) [OF inv(2) x] by simp
    qed
    then show ?thesis using rec_invD(5) [OF inv(2) x] rdd [OF x] by simp
  qed
  moreover have "j = k" if "is_rec s j" "j \<noteq> g" "is_rec s k" "k \<noteq> g" "Some x \<in> set (rec_g_aux (rec_at s' j))" "Some x \<in> set (rec_g_aux (rec_at s' k))" for j k x
    using rec_invD(2) [OF inv(2) that(1,3)] that(5,6) old that(1-4) by simp
  moreover have "j = k" if "is_rec s j" "j \<noteq> g" "is_rec s k" "k \<noteq> g" "rec_rd s' j = rec_rd s' k" "rec_idx (rec_at s' j) = rec_idx (rec_at s' k)" for j k
    using rec_invD(3) [OF inv(2) that(1,3)] that(5,6) old that(1-4) by simp
  ultimately show "rec_inv cpu s'" unfolding rec_inv_def ir by blast
qed

lemma rec_destroy_outcome:
  assumes inv: "realm_inv s" "rec_inv cpu s" "vmid_inv s"
  shows "\<exists>ret s'. smc_rec_destroy rec_addr s = Inr (ret, s') \<and> realm_inv s' \<and> rec_inv cpu s' \<and> vmid_inv s' \<and>
    (\<forall>h P d. maps s' h P d \<longleftrightarrow> maps s h P d) \<and> same_realms s s' \<and>
    (case granule_in s rec_addr GRANULE_STATE_REC of
       None \<Rightarrow> ret \<noteq> RMI_SUCCESS \<and> s' = s
     | Some g \<Rightarrow>
         if REFCOUNT (granules s g) = 0
         then ret = RMI_SUCCESS \<and> (\<forall>h. is_rec s' h \<longleftrightarrow> is_rec s h \<and> h \<noteq> g) \<and>
           (\<exists>aux rd. rec_parts s g aux rd \<and> s' = rec_destroyed g aux rd s \<and>
             (\<forall>h \<in> insert g (set aux). STATE (granules s' h) = GRANULE_STATE_DELEGATED \<and> mem s' h = zero_data))
         else ret \<noteq> RMI_SUCCESS \<and> s' = s)"
proof -
  note run = smc_rec_destroy_run [OF inv(1,2), of rec_addr]
  have neq: "RMI_ERROR_INPUT \<noteq> RMI_SUCCESS" "RMI_ERROR_REC \<noteq> RMI_SUCCESS" by (simp_all add: RMI_ERROR_INPUT_def RMI_ERROR_REC_def RMI_SUCCESS_def)
  have same: "same_realms s s" by (simp add: same_realms_def)
  show ?thesis
  proof (cases "granule_in s rec_addr GRANULE_STATE_REC")
    case None
    then show ?thesis using run inv neq same by simp
  next
    case (Some g)
    have rec: "is_rec s g" using granule_inD [OF Some] by (simp add: is_rec_def)
    show ?thesis
    proof (cases "REFCOUNT (granules s g) = 0")
      case False
      then show ?thesis using Some run inv neq same by simp
    next
      case True
      then obtain aux rd where p: "rec_parts s g aux rd" and r: "smc_rec_destroy rec_addr s = Inr (RMI_SUCCESS, rec_destroyed g aux rd s)"
        using run Some by auto
      note di = rec_destroyed_inv [OF inv(1,2) rec p True refl] and f = rec_parts_facts [OF inv(1,2) rec p]
      note sf = rec_destroyed_fields [OF f(1-3), of s]
      have vi: "vmid_inv (rec_destroyed g aux rd s)" by (rule vmid_inv_same [OF inv(3) sf(3,4) di(4)])
      have z: "\<forall>h \<in> insert g (set aux). STATE (granules (rec_destroyed g aux rd s) h) = GRANULE_STATE_DELEGATED \<and> mem (rec_destroyed g aux rd s) h = zero_data"
        using f(1,3) unfolding sf(5,6) by auto
      have e: "\<exists>aux' rd'. rec_parts s g aux' rd' \<and> rec_destroyed g aux rd s = rec_destroyed g aux' rd' s \<and>
          (\<forall>h \<in> insert g (set aux'). STATE (granules (rec_destroyed g aux rd s) h) = GRANULE_STATE_DELEGATED \<and> mem (rec_destroyed g aux rd s) h = zero_data)"
        using p z by blast
      show ?thesis unfolding Some option.case if_P [OF True] using r di vi e by blast
    qed
  qed
qed

end
