(* ===== verification/Psci.thy ===== *)
theory Psci
  imports Rmi_Rec
begin

text \<open>
  Requests from a realm to the RMM: the results of their handlers (\<^verbatim>\<open>runtime/include/rsi-handler.h\<close>), the power state
  interface PSCI (\<^verbatim>\<open>runtime/rsi/psci.c\<close>) and its completion by the host, RMI\_PSCI\_COMPLETE (\<^verbatim>\<open>runtime/rmi/rec.c\<close>). A handler
  is run for an execution context whose granule is mapped, and which is in the memory of the model; the entry and exit
  information that is exchanged with the host is an argument and a result.
\<close>

section \<open>Function identifiers\<close>

definition SMC32_STD_FID :: "u32 \<Rightarrow> u32" where "SMC32_STD_FID fnum = 0x84000000 OR (fnum AND 0xFFFF)"
definition SMC64_STD_FID :: "u32 \<Rightarrow> u32" where "SMC64_STD_FID fnum = 0xC4000000 OR (fnum AND 0xFFFF)"
definition SMC32_PSCI_FID :: "u32 \<Rightarrow> u32" where "SMC32_PSCI_FID offset = SMC32_STD_FID (0 + offset)"
definition SMC64_PSCI_FID :: "u32 \<Rightarrow> u32" where "SMC64_PSCI_FID offset = SMC64_STD_FID (0 + offset)"

definition SMC32_PSCI_VERSION :: u32 where "SMC32_PSCI_VERSION = SMC32_PSCI_FID 0"
definition SMC32_PSCI_CPU_SUSPEND :: u32 where "SMC32_PSCI_CPU_SUSPEND = SMC32_PSCI_FID 1"
definition SMC64_PSCI_CPU_SUSPEND :: u32 where "SMC64_PSCI_CPU_SUSPEND = SMC64_PSCI_FID 1"
definition SMC32_PSCI_CPU_OFF :: u32 where "SMC32_PSCI_CPU_OFF = SMC32_PSCI_FID 2"
definition SMC32_PSCI_CPU_ON :: u32 where "SMC32_PSCI_CPU_ON = SMC32_PSCI_FID 3"
definition SMC64_PSCI_CPU_ON :: u32 where "SMC64_PSCI_CPU_ON = SMC64_PSCI_FID 3"
definition SMC32_PSCI_AFFINITY_INFO :: u32 where "SMC32_PSCI_AFFINITY_INFO = SMC32_PSCI_FID 4"
definition SMC64_PSCI_AFFINITY_INFO :: u32 where "SMC64_PSCI_AFFINITY_INFO = SMC64_PSCI_FID 4"
definition SMC32_PSCI_SYSTEM_OFF :: u32 where "SMC32_PSCI_SYSTEM_OFF = SMC32_PSCI_FID 8"
definition SMC32_PSCI_SYSTEM_RESET :: u32 where "SMC32_PSCI_SYSTEM_RESET = SMC32_PSCI_FID 9"
definition SMC32_PSCI_FEATURES :: u32 where "SMC32_PSCI_FEATURES = SMC32_PSCI_FID 0xA"
definition SMCCC_VERSION :: u32 where "SMCCC_VERSION = 0x80000000"

definition PSCI_RETURN_SUCCESS :: u64 where "PSCI_RETURN_SUCCESS = 0"
definition PSCI_RETURN_NOT_SUPPORTED :: u64 where "PSCI_RETURN_NOT_SUPPORTED = - 1"
definition PSCI_RETURN_INVALID_PARAMS :: u64 where "PSCI_RETURN_INVALID_PARAMS = - 2"
definition PSCI_RETURN_DENIED :: u64 where "PSCI_RETURN_DENIED = - 3"
definition PSCI_RETURN_ALREADY_ON :: u64 where "PSCI_RETURN_ALREADY_ON = - 4"
definition PSCI_RETURN_INVALID_ADDRESS :: u64 where "PSCI_RETURN_INVALID_ADDRESS = - 9"
definition PSCI_AFFINITY_INFO_ON :: u64 where "PSCI_AFFINITY_INFO_ON = 0"
definition PSCI_AFFINITY_INFO_OFF :: u64 where "PSCI_AFFINITY_INFO_OFF = 1"

section \<open>Results of the handlers\<close>

definition RMI_EXIT_SYNC :: u64 where "RMI_EXIT_SYNC = 0"
definition RMI_EXIT_IRQ :: u64 where "RMI_EXIT_IRQ = 1"
definition RMI_EXIT_FIQ :: u64 where "RMI_EXIT_FIQ = 2"
definition RMI_EXIT_PSCI :: u64 where "RMI_EXIT_PSCI = 3"
definition RMI_EXIT_RIPAS_CHANGE :: u64 where "RMI_EXIT_RIPAS_CHANGE = 4"
definition RMI_EXIT_HOST_CALL :: u64 where "RMI_EXIT_HOST_CALL = 5"
definition RMI_EXIT_SERROR :: u64 where "RMI_EXIT_SERROR = 6"

definition FLAG_UPDATE_REC :: u32 where "FLAG_UPDATE_REC = 1"
definition FLAG_EXIT_TO_HOST :: u32 where "FLAG_EXIT_TO_HOST = 2"
definition FLAG_STAGE_2_ABORT :: u32 where "FLAG_STAGE_2_ABORT = 4"
definition UPDATE_REC_RETURN_TO_REALM :: u32 where "UPDATE_REC_RETURN_TO_REALM = FLAG_UPDATE_REC"
definition EXIT_TO_HOST :: u32 where "EXIT_TO_HOST = FLAG_EXIT_TO_HOST"
definition UPDATE_REC_EXIT_TO_HOST :: u32 where "UPDATE_REC_EXIT_TO_HOST = FLAG_UPDATE_REC OR FLAG_EXIT_TO_HOST"
definition STAGE_2_TRANSLATION_FAULT :: u32 where "STAGE_2_TRANSLATION_FAULT = FLAG_EXIT_TO_HOST OR FLAG_STAGE_2_ABORT"

record rsi_result =
  rsi_action :: u32
  rsi_rtt_level :: u64
  rsi_smc_res :: smc_result

definition set_x :: "nat \<Rightarrow> u64 \<Rightarrow> rsi_result \<Rightarrow> rsi_result" where
  "set_x i v res = res\<lparr>rsi_smc_res := (rsi_smc_res res)(i := v)\<rparr>"

definition set_action :: "u32 \<Rightarrow> rsi_result \<Rightarrow> rsi_result" where
  "set_action a res = res\<lparr>rsi_action := a\<rparr>"

section \<open>PSCI\<close>

definition forward_args_to_host :: "nat \<Rightarrow> rec_data \<Rightarrow> rmi_rec_exit \<Rightarrow> (rmm, rmi_rec_exit) M" where
  "forward_args_to_host cnt rec rec_exit =
    thenM (assertM (cnt \<le> 4))
    (returnM (rec_exit\<lparr>ex_gprs := take cnt (rec_regs rec) @ replicate (REC_EXIT_NR_GPRS - cnt) 0\<rparr>))"

definition psci_version :: "rsi_result \<Rightarrow> rsi_result" where
  "psci_version res = set_x 0 (push_bit 16 1 OR 1) (set_action UPDATE_REC_RETURN_TO_REALM res)"

definition psci_cpu_suspend :: "nat \<Rightarrow> rmi_rec_exit \<Rightarrow> rsi_result \<Rightarrow> (rmm, rmi_rec_exit \<times> rsi_result) M" where
  "psci_cpu_suspend g_rec rec_exit res =
    bindM (read_rec g_rec) (\<lambda>rec.
    bindM (forward_args_to_host 1 rec rec_exit) (\<lambda>rec_exit.
    returnM (rec_exit, set_x 0 PSCI_RETURN_SUCCESS (set_action UPDATE_REC_EXIT_TO_HOST res))))"

definition psci_cpu_off :: "nat \<Rightarrow> rmi_rec_exit \<Rightarrow> rsi_result \<Rightarrow> (rmm, rmi_rec_exit \<times> rsi_result) M" where
  "psci_cpu_off g_rec rec_exit res =
    bindM (read_rec g_rec) (\<lambda>rec.
    thenM (write_rec g_rec (rec\<lparr>rec_runnable := False\<rparr>))
    (bindM (forward_args_to_host 1 rec rec_exit) (\<lambda>rec_exit.
     returnM (rec_exit, set_x 0 PSCI_RETURN_SUCCESS (set_action UPDATE_REC_EXIT_TO_HOST res)))))"

definition psci_reset_rec :: "rec_data \<Rightarrow> u64 \<Rightarrow> rec_data" where
  "psci_reset_rec rec caller_sctlr_el1 =
    rec\<lparr>rec_pstate := calc_pstate,
        rec_sysregs := (rec_sysregs rec)\<lparr>sys_sctlr_el1 := SCTLR_EL1_FLAGS OR (caller_sctlr_el1 AND SCTLR_ELx_EE_BIT)\<rparr>\<rparr>"

definition rd_map_read_rec_count :: "nat option \<Rightarrow> (rmm, u64) M" where
  "rd_map_read_rec_count g_rd =
    thenM (map_slot g_rd SLOT_RD)
    (case g_rd of
       None \<Rightarrow> failM Assert_Fail
     | Some g \<Rightarrow> bindM (read_rd g) (\<lambda>rd. thenM (buffer_unmap SLOT_RD) (returnM (rec_count rd))))"

definition psci_cpu_on :: "nat \<Rightarrow> rmi_rec_exit \<Rightarrow> rsi_result \<Rightarrow> (rmm, rmi_rec_exit \<times> rsi_result) M" where
  "psci_cpu_on g_rec rec_exit res0 =
    bindM (read_rec g_rec) (\<lambda>rec.
    (let target_cpu = rec_regs rec ! 1; entry_point_address = rec_regs rec ! 2;
         res = set_action UPDATE_REC_RETURN_TO_REALM res0
     in if \<not> addr_in_rec_par rec entry_point_address then returnM (rec_exit, set_x 0 PSCI_RETURN_INVALID_ADDRESS res)
        else (let target_rec_idx = mpidr_to_rec_idx target_cpu in
          bindM (rd_map_read_rec_count (ri_g_rd (rec_realm_info rec))) (\<lambda>cnt.
          if target_rec_idx \<ge> cnt then returnM (rec_exit, set_x 0 PSCI_RETURN_INVALID_PARAMS res)
          else if target_rec_idx = rec_idx rec then returnM (rec_exit, set_x 0 PSCI_RETURN_ALREADY_ON res)
          else
            thenM (write_rec g_rec (rec\<lparr>rec_psci_pending := True\<rparr>))
            (bindM (forward_args_to_host 2 rec rec_exit) (\<lambda>rec_exit.
             returnM (rec_exit, set_action EXIT_TO_HOST res)))))))"

definition psci_affinity_info :: "nat \<Rightarrow> rmi_rec_exit \<Rightarrow> rsi_result \<Rightarrow> (rmm, rmi_rec_exit \<times> rsi_result) M" where
  "psci_affinity_info g_rec rec_exit res0 =
    bindM (read_rec g_rec) (\<lambda>rec.
    (let target_affinity = rec_regs rec ! 1; lowest_affinity_level = rec_regs rec ! 2;
         res = set_action UPDATE_REC_RETURN_TO_REALM res0
     in if lowest_affinity_level \<noteq> 0 then returnM (rec_exit, set_x 0 PSCI_RETURN_INVALID_PARAMS res)
        else (let target_rec_idx = mpidr_to_rec_idx target_affinity in
          bindM (rd_map_read_rec_count (ri_g_rd (rec_realm_info rec))) (\<lambda>cnt.
          if target_rec_idx \<ge> cnt then returnM (rec_exit, set_x 0 PSCI_RETURN_INVALID_PARAMS res)
          else if target_rec_idx = rec_idx rec then returnM (rec_exit, set_x 0 PSCI_AFFINITY_INFO_ON res)
          else
            thenM (write_rec g_rec (rec\<lparr>rec_psci_pending := True\<rparr>))
            (bindM (forward_args_to_host 2 rec rec_exit) (\<lambda>rec_exit.
             returnM (rec_exit, set_action EXIT_TO_HOST res)))))))"

definition system_off_reboot :: "rec_data \<Rightarrow> (rmm, unit) M" where
  "system_off_reboot rec =
    (case ri_g_rd (rec_realm_info rec) of
       None \<Rightarrow> failM Assert_Fail
     | Some g_rd \<Rightarrow>
     thenM (granule_lock g_rd GRANULE_STATE_RD)
     (thenM (map_slot (Some g_rd) SLOT_RD)
     (bindM (read_rd g_rd) (\<lambda>rd.
      thenM (write_rd g_rd (rd\<lparr>rd_state := REALM_SYSTEM_OFF\<rparr>))
      (thenM (buffer_unmap SLOT_RD)
       (granule_unlock g_rd))))))"

definition psci_system_off_reset :: "nat \<Rightarrow> rmi_rec_exit \<Rightarrow> rsi_result \<Rightarrow> (rmm, rmi_rec_exit \<times> rsi_result) M" where
  "psci_system_off_reset g_rec rec_exit res =
    bindM (read_rec g_rec) (\<lambda>rec.
    thenM (system_off_reboot rec)
    (bindM (forward_args_to_host 1 rec rec_exit) (\<lambda>rec_exit.
     returnM (rec_exit, set_action EXIT_TO_HOST res))))"

definition psci_features :: "rec_data \<Rightarrow> rsi_result \<Rightarrow> rsi_result" where
  "psci_features rec res =
    (let psci_func_id = ucast (rec_regs rec ! 1) :: u32
     in set_action UPDATE_REC_RETURN_TO_REALM
         (set_x 0 (if psci_func_id \<in> {SMC32_PSCI_CPU_SUSPEND, SMC64_PSCI_CPU_SUSPEND, SMC32_PSCI_CPU_OFF, SMC32_PSCI_CPU_ON, SMC64_PSCI_CPU_ON,
              SMC32_PSCI_AFFINITY_INFO, SMC64_PSCI_AFFINITY_INFO, SMC32_PSCI_SYSTEM_OFF, SMC32_PSCI_SYSTEM_RESET, SMC32_PSCI_FEATURES, SMCCC_VERSION}
            then PSCI_RETURN_SUCCESS else PSCI_RETURN_NOT_SUPPORTED) res))"

text \<open>The exit reason is set when the result says that the host is to be told.\<close>

definition handle_psci :: "nat \<Rightarrow> rmi_rec_exit \<Rightarrow> rsi_result \<Rightarrow> (rmm, rmi_rec_exit \<times> rsi_result) M" where
  "handle_psci g_rec rec_exit res =
    bindM (read_rec g_rec) (\<lambda>rec.
    (let function_id = ucast (rec_regs rec ! 0) :: u32
     in bindM
       (if function_id = SMC32_PSCI_VERSION then returnM (rec_exit, psci_version res)
        else if function_id = SMC32_PSCI_CPU_SUSPEND \<or> function_id = SMC64_PSCI_CPU_SUSPEND then psci_cpu_suspend g_rec rec_exit res
        else if function_id = SMC32_PSCI_CPU_OFF then psci_cpu_off g_rec rec_exit res
        else if function_id = SMC32_PSCI_CPU_ON \<or> function_id = SMC64_PSCI_CPU_ON then psci_cpu_on g_rec rec_exit res
        else if function_id = SMC32_PSCI_AFFINITY_INFO \<or> function_id = SMC64_PSCI_AFFINITY_INFO then psci_affinity_info g_rec rec_exit res
        else if function_id = SMC32_PSCI_SYSTEM_OFF \<or> function_id = SMC32_PSCI_SYSTEM_RESET then psci_system_off_reset g_rec rec_exit res
        else if function_id = SMC32_PSCI_FEATURES then returnM (rec_exit, psci_features rec res)
        else returnM (rec_exit, set_x 0 PSCI_RETURN_NOT_SUPPORTED (set_action UPDATE_REC_RETURN_TO_REALM res)))
       (\<lambda>(rec_exit, res).
        returnM (if rsi_action res AND FLAG_EXIT_TO_HOST \<noteq> 0 then rec_exit\<lparr>ex_exit_reason := RMI_EXIT_PSCI\<rparr> else rec_exit, res))))"

section \<open>Completion of requests\<close>

text \<open>Whether the target runs: another processor holds a reference to it, or it can be entered.\<close>

definition target_is_on :: "rec_data \<Rightarrow> (rmm, bool) M" where
  "target_is_on target_rec =
    (case rec_g_rec target_rec of
       None \<Rightarrow> failM Assert_Fail
     | Some g_rec \<Rightarrow>
         bindM (granule_refcount_read_acquire g_rec) (\<lambda>refcount.
         returnM (refcount \<noteq> 0 \<or> rec_runnable target_rec)))"

definition complete_psci_cpu_on :: "nat \<Rightarrow> u64 \<Rightarrow> u64 \<Rightarrow> u64 \<Rightarrow> u64 \<Rightarrow> (rmm, u64) M" where
  "complete_psci_cpu_on g_target entry_point_address context_id caller_sctlr_el1 status =
    bindM (read_rec g_target) (\<lambda>target_rec.
    bindM (target_is_on target_rec) (\<lambda>on.
    if on then returnM PSCI_RETURN_ALREADY_ON
    else if status = PSCI_RETURN_DENIED then returnM PSCI_RETURN_DENIED
    else
      (let r = psci_reset_rec target_rec caller_sctlr_el1
       in thenM (write_rec g_target (r\<lparr>rec_regs := (rec_regs r)[0 := context_id], rec_pc := entry_point_address, rec_runnable := True\<rparr>))
          (returnM PSCI_RETURN_SUCCESS))))"

definition complete_psci_affinity_info :: "nat \<Rightarrow> (rmm, u64) M" where
  "complete_psci_affinity_info g_target =
    bindM (read_rec g_target) (\<lambda>target_rec.
    bindM (target_is_on target_rec) (\<lambda>on.
    returnM (if on then PSCI_AFFINITY_INFO_ON else PSCI_AFFINITY_INFO_OFF)))"

definition psci_write_result :: "nat \<Rightarrow> u64 \<Rightarrow> (rmm, unit) M" where
  "psci_write_result g_calling rec_ret =
    bindM (read_rec g_calling) (\<lambda>rec.
    write_rec g_calling (rec\<lparr>rec_regs := (rec_regs rec)[0 := rec_ret, 1 := 0, 2 := 0, 3 := 0], rec_psci_pending := False\<rparr>))"

definition psci_complete_request :: "nat \<Rightarrow> nat \<Rightarrow> u64 \<Rightarrow> (rmm, u64) M" where
  "psci_complete_request g_calling g_target status =
    bindM (read_rec g_calling) (\<lambda>calling_rec.
    bindM (read_rec g_target) (\<lambda>target_rec.
    (let mpidr = rec_regs calling_rec ! 1; fid = rec_regs calling_rec ! 0
     in if \<not> rec_psci_pending calling_rec then returnM RMI_ERROR_INPUT
        else if ri_g_rd (rec_realm_info calling_rec) \<noteq> ri_g_rd (rec_realm_info target_rec) then returnM RMI_ERROR_INPUT
        else if mpidr_to_rec_idx mpidr \<noteq> rec_idx target_rec then returnM RMI_ERROR_INPUT
        else if fid = ucast SMC32_PSCI_CPU_ON \<or> fid = ucast SMC64_PSCI_CPU_ON then
          (if status \<noteq> PSCI_RETURN_SUCCESS \<and> status \<noteq> PSCI_RETURN_DENIED then returnM RMI_ERROR_INPUT
           else bindM (complete_psci_cpu_on g_target (rec_regs calling_rec ! 2) (rec_regs calling_rec ! 3)
                        (sys_sctlr_el1 (rec_sysregs calling_rec)) status) (\<lambda>rec_ret.
             thenM (psci_write_result g_calling rec_ret)
             (returnM (if status = PSCI_RETURN_DENIED \<and> rec_ret = PSCI_RETURN_ALREADY_ON then RMI_ERROR_INPUT else RMI_SUCCESS))))
        else if fid = ucast SMC32_PSCI_AFFINITY_INFO \<or> fid = ucast SMC64_PSCI_AFFINITY_INFO then
          (if status \<noteq> PSCI_RETURN_SUCCESS then returnM RMI_ERROR_INPUT
           else bindM (complete_psci_affinity_info g_target) (\<lambda>rec_ret.
             thenM (psci_write_result g_calling rec_ret)
             (returnM RMI_SUCCESS)))
        else failM Assert_Fail)))"

definition smc_psci_complete :: "u64 \<Rightarrow> u64 \<Rightarrow> u64 \<Rightarrow> (rmm, u64) M" where
  "smc_psci_complete calling_rec_addr target_rec_addr status =
    (if \<not> GRANULE_ALIGNED calling_rec_addr then returnM RMI_ERROR_INPUT
     else if \<not> GRANULE_ALIGNED target_rec_addr then returnM RMI_ERROR_INPUT
     else bindM (find_lock_two_granules calling_rec_addr GRANULE_STATE_REC target_rec_addr GRANULE_STATE_REC) (\<lambda>locked.
       (case locked of
          None \<Rightarrow> returnM RMI_ERROR_INPUT
        | Some (g_calling_rec, g_target_rec) \<Rightarrow>
        bindM (granule_refcount_read_acquire g_calling_rec) (\<lambda>refcount.
        bindM
         (if refcount \<noteq> 0 then returnM RMI_ERROR_INPUT
          else
            thenM (map_slot (Some g_calling_rec) SLOT_REC)
            (thenM (map_slot (Some g_target_rec) SLOT_REC2)
            (bindM (psci_complete_request g_calling_rec g_target_rec status) (\<lambda>ret.
             thenM (buffer_unmap SLOT_REC2)
             (thenM (buffer_unmap SLOT_REC)
              (returnM ret))))))
         (\<lambda>ret.
        thenM (granule_unlock g_calling_rec)
        (thenM (granule_unlock g_target_rec)
         (returnM ret)))))))"

end
