(* ===== verification/Rsi.thy ===== *)
theory Rsi
  imports Psci Realm_Ipa Measurement
begin

text \<open>
  The realm service interface of \<^verbatim>\<open>runtime/rsi\<close>: version, features, configuration, RIPAS changes, host calls and measurements.
  The handlers work on the execution context in granule \<open>g_rec\<close> that is running; the structures in realm memory are words of the
  DATA granule that backs the page.
\<close>

section \<open>Constants and structures in realm memory\<close>

definition RSI_ABI_VERSION :: u64 where "RSI_ABI_VERSION = push_bit 16 1 OR 0"
definition RSI_SUCCESS :: u64 where "RSI_SUCCESS = 0"
definition RSI_ERROR_INPUT :: u64 where "RSI_ERROR_INPUT = 1"
definition RSI_ERROR_STATE :: u64 where "RSI_ERROR_STATE = 2"
definition RSI_INCOMPLETE :: u64 where "RSI_INCOMPLETE = 3"
definition RSI_HASH_SHA_256 :: u8 where "RSI_HASH_SHA_256 = 0"
definition RSI_HASH_SHA_512 :: u8 where "RSI_HASH_SHA_512 = 1"
definition RSI_RPV_SIZE :: nat where "RSI_RPV_SIZE = 64"
definition RSI_HOST_CALL_NR_GPRS :: nat where "RSI_HOST_CALL_NR_GPRS = 31"
definition SMC_RESULT_REGS :: nat where "SMC_RESULT_REGS = 5"
definition MEASUREMENT_SLOT_NR :: nat where "MEASUREMENT_SLOT_NR = 5"
definition MAX_EXTENDED_SIZE :: u64 where "MAX_EXTENDED_SIZE = 64"
definition MAX_MEASUREMENT_WORDS :: nat where "MAX_MEASUREMENT_WORDS = MAX_MEASUREMENT_SIZE div 8"

text \<open>A word of memory from its bytes, and the words that an array of bytes is stored as.\<close>

fun of_le :: "u8 list \<Rightarrow> u64" where
  "of_le [] = 0"
| "of_le (b # bs) = ucast b OR push_bit 8 (of_le bs)"

definition word_at :: "u8 list \<Rightarrow> nat \<Rightarrow> u64" where
  "word_at bs i = of_le (take 8 (drop (8 * i) bs))"

definition overwrite :: "nat \<Rightarrow> 'a list \<Rightarrow> 'a list \<Rightarrow> 'a list" where
  "overwrite off vs xs = take off xs @ vs @ drop (off + length vs) xs"

text \<open>\<^verbatim>\<open>struct rsi_realm_config\<close>: the width at offset 0, the algorithm as the byte at 8, the personalization value at 0x200.\<close>

definition config_words :: "u64 \<Rightarrow> u8 \<Rightarrow> u8 list \<Rightarrow> u64 list \<Rightarrow> u64 list" where
  "config_words ipa_width algorithm pv ws =
    overwrite 64 (map (word_at pv) [0..<RSI_RPV_SIZE div 8])
      (ws[0 := ipa_width, 1 := (ws ! 1 AND NOT 0xFF) OR ucast algorithm])"

definition no_walk :: s2_walk_result where
  "no_walk = \<lparr>sw_pa = 0, sw_rtt_level = 0, sw_ripas_val = RIPAS_EMPTY, sw_llt = None\<rparr>"

text \<open>A pointer to the realm descriptor or to a table that is dereferenced.\<close>

definition derefM :: "nat option \<Rightarrow> (rmm, nat) M" where
  "derefM g = (case g of None \<Rightarrow> failM Assert_Fail | Some x \<Rightarrow> returnM x)"

section \<open>Version, features and configuration\<close>

definition handle_rsi_version :: "rec_data \<Rightarrow> rsi_result \<Rightarrow> rsi_result" where
  "handle_rsi_version rec res =
    set_x 2 RSI_ABI_VERSION (set_x 1 RSI_ABI_VERSION
      (set_x 0 (if rec_regs rec ! 1 \<noteq> RSI_ABI_VERSION then RSI_ERROR_INPUT else RSI_SUCCESS)
        (set_action UPDATE_REC_RETURN_TO_REALM res)))"

definition handle_rsi_features :: "rec_data \<Rightarrow> rsi_result \<Rightarrow> rsi_result" where
  "handle_rsi_features rec res = set_x 1 0 (set_x 0 RSI_SUCCESS (set_action UPDATE_REC_RETURN_TO_REALM res))"

text \<open>The walk to the granule of a page; the answer for a page that the realm cannot use is common to the handlers.\<close>

definition walk_fail_result :: "s2_walk_result \<Rightarrow> rsi_result \<Rightarrow> rsi_result" where
  "walk_fail_result walk_res res =
    (if sw_ripas_val walk_res = RIPAS_EMPTY then set_x 0 RSI_ERROR_INPUT res
     else (set_action STAGE_2_TRANSLATION_FAULT res)\<lparr>rsi_rtt_level := sw_rtt_level walk_res\<rparr>)"

definition handle_rsi_realm_config :: "nat \<Rightarrow> rsi_result \<Rightarrow> (rmm, rsi_result) M" where
  "handle_rsi_realm_config g_rec res0 =
    bindM (read_rec g_rec) (\<lambda>rec.
    (let ipa = rec_regs rec ! 1; res = set_action UPDATE_REC_RETURN_TO_REALM res0
     in if \<not> GRANULE_ALIGNED ipa \<or> \<not> addr_in_rec_par rec ipa then returnM (set_x 0 RSI_ERROR_INPUT res)
        else bindM (realm_ipa_to_pa rec ipa no_walk) (\<lambda>(walk_status, walk_res).
          case walk_status of
            WALK_FAIL \<Rightarrow> returnM (walk_fail_result walk_res res)
          | WALK_INVALID_PARAMS \<Rightarrow> returnM (set_x 0 RSI_ERROR_INPUT res)
          | WALK_SUCCESS \<Rightarrow>
            bindM (find_granule (sw_pa walk_res)) (\<lambda>gr.
            thenM (map_slot gr SLOT_RSI_CALL)
            (bindM (derefM gr) (\<lambda>g.
             bindM (derefM (ri_g_rd (rec_realm_info rec))) (\<lambda>g_rd.
             thenM (map_slot (Some g_rd) SLOT_RD)
             (bindM (read_rd g_rd) (\<lambda>rd.
              bindM (read_table g) (\<lambda>ws.
              thenM (write_table g (config_words (ucast (ipa_bits (ri_s2_ctx (rec_realm_info rec))))
                (case ri_algorithm (rec_realm_info rec) of HASH_SHA_256 \<Rightarrow> RSI_HASH_SHA_256 | HASH_SHA_512 \<Rightarrow> RSI_HASH_SHA_512) (rpv rd) ws))
              (thenM (buffer_unmap SLOT_RD)
              (thenM (buffer_unmap SLOT_RSI_CALL)
              (bindM (derefM (sw_llt walk_res)) (\<lambda>llt.
               thenM (granule_unlock llt)
               (returnM (set_x 0 RSI_SUCCESS res))))))))))))))))"

section \<open>RIPAS\<close>

definition ripas_number :: "ripas \<Rightarrow> u64" where
  "ripas_number r = (case r of RIPAS_EMPTY \<Rightarrow> 0 | RIPAS_RAM \<Rightarrow> 1 | RIPAS_DESTROYED \<Rightarrow> 2 | RIPAS_DEV \<Rightarrow> 3)"

text \<open>The enumerations are 32 bits wide: the casts drop the upper bits of the registers.\<close>

definition handle_rsi_ipa_state_set :: "nat \<Rightarrow> rmi_rec_exit \<Rightarrow> rsi_result \<Rightarrow> (rmm, rmi_rec_exit \<times> rsi_result) M" where
  "handle_rsi_ipa_state_set g_rec rec_exit res =
    bindM (read_rec g_rec) (\<lambda>rec.
    (let base = rec_regs rec ! 1; top1 = rec_regs rec ! 2; ripas_val = ucast (rec_regs rec ! 3) :: u32;
         change_destroyed = ucast (rec_regs rec ! 4) :: u32
     in if ripas_val > 1 \<or> \<not> GRANULE_ALIGNED base \<or> \<not> GRANULE_ALIGNED top1 \<or> top1 \<le> base \<or> \<not> region_in_rec_par rec base top1
        then returnM (rec_exit, set_x 0 RSI_ERROR_INPUT (set_action UPDATE_REC_RETURN_TO_REALM res))
        else
          thenM (write_rec g_rec (rec\<lparr>rec_set_ripas := (rec_set_ripas rec)\<lparr>sr_base := base, sr_top := top1, sr_addr := base,
             sr_ripas_val := (if ripas_val = 0 then RIPAS_EMPTY else RIPAS_RAM),
             sr_change_destroyed := (if change_destroyed = 1 then CHANGE_DESTROYED else NO_CHANGE_DESTROYED)\<rparr>\<rparr>))
          (returnM (rec_exit\<lparr>ex_exit_reason := RMI_EXIT_RIPAS_CHANGE, ex_ripas_base := base, ex_ripas_top := top1,
              ex_ripas_value := ucast ripas_val\<rparr>,
            set_x 1 top1 (set_x 0 RSI_SUCCESS (set_action UPDATE_REC_EXIT_TO_HOST res))))))"

definition handle_rsi_ipa_state_get :: "nat \<Rightarrow> rsi_result \<Rightarrow> (rmm, rsi_result) M" where
  "handle_rsi_ipa_state_get g_rec res0 =
    bindM (read_rec g_rec) (\<lambda>rec.
    (let start = rec_regs rec ! 1; stop = rec_regs rec ! 2; res = set_action UPDATE_REC_RETURN_TO_REALM res0
     in if \<not> GRANULE_ALIGNED start \<or> \<not> addr_in_rec_par rec start \<or> \<not> GRANULE_ALIGNED stop \<or> \<not> addr_in_rec_par rec (stop - 1) \<or>
           start \<ge> stop
        then returnM (set_x 0 RSI_ERROR_INPUT res)
        else bindM (realm_ipa_get_ripas rec start stop) (\<lambda>ws.
          returnM (case ws of
             Some (ripas_val, top1) \<Rightarrow>
               set_x 2 (ripas_number ripas_val) (set_x 1 (if top1 > stop then stop else top1) (set_x 0 RSI_SUCCESS res))
           | None \<Rightarrow> set_x 0 RSI_ERROR_INPUT res))))"

section \<open>Host calls\<close>

definition HOST_CALL_SIZE :: u64 where "HOST_CALL_SIZE = 0x100"

text \<open>
  \<^verbatim>\<open>struct rsi_host_call\<close>: the immediate in the low half of the first word, then 31 registers. The address is a multiple of its
  size, so that it is the word \<open>i\<close> of the page and those after it.
\<close>

definition do_host_call ::
  "nat \<Rightarrow> rmi_rec_exit option \<Rightarrow> rmi_rec_enter option \<Rightarrow> rsi_result \<Rightarrow> (rmm, rmi_rec_exit option \<times> rsi_result) M" where
  "do_host_call g_rec rec_exit rec_enter res =
    bindM (read_rec g_rec) (\<lambda>rec.
    (let ipa = rec_regs rec ! 1 in
     thenM (assertM (addr_in_rec_par rec ipa))
     (thenM (assertM ((rec_enter \<noteq> None) \<noteq> (rec_exit \<noteq> None)))
     (let page_ipa = ipa AND NOT (GRANULE_SIZE - 1) in
      bindM (realm_ipa_to_pa rec page_ipa no_walk) (\<lambda>(walk_status, walk_result).
      case walk_status of
        WALK_FAIL \<Rightarrow> returnM (rec_exit, walk_fail_result walk_result res)
      | WALK_INVALID_PARAMS \<Rightarrow> failM Assert_Fail
      | WALK_SUCCESS \<Rightarrow>
        bindM (find_granule (sw_pa walk_result)) (\<lambda>gr.
        thenM (map_slot gr SLOT_RSI_CALL)
        (bindM (derefM gr) (\<lambda>g.
         bindM (read_table g) (\<lambda>ws.
         (let i = unat ((ipa - page_ipa) div 8) in
          bindM
           (case rec_exit of
              Some ex \<Rightarrow>
                thenM (write_rec g_rec (rec\<lparr>rec_host_call := True\<rparr>))
                (returnM (Some (ex\<lparr>ex_imm := ucast (ws ! i), ex_gprs := take RSI_HOST_CALL_NR_GPRS (drop (Suc i) ws),
                     ex_exit_reason := RMI_EXIT_HOST_CALL\<rparr>), set_action EXIT_TO_HOST res))
            | None \<Rightarrow>
                thenM (write_table g (overwrite (Suc i) (take RSI_HOST_CALL_NR_GPRS (en_gprs (the rec_enter))) ws))
                (thenM (write_rec g_rec (rec\<lparr>rec_regs := (rec_regs rec)[0 := RSI_SUCCESS]\<rparr>))
                 (returnM (None, res))))
           (\<lambda>result.
          thenM (buffer_unmap SLOT_RSI_CALL)
          (bindM (derefM (sw_llt walk_result)) (\<lambda>llt.
           thenM (granule_unlock llt)
           (returnM result))))))))))))))"

definition handle_rsi_host_call :: "nat \<Rightarrow> rmi_rec_exit \<Rightarrow> rsi_result \<Rightarrow> (rmm, rmi_rec_exit \<times> rsi_result) M" where
  "handle_rsi_host_call g_rec rec_exit res0 =
    bindM (read_rec g_rec) (\<lambda>rec.
    (let ipa = rec_regs rec ! 1; res = set_action UPDATE_REC_RETURN_TO_REALM res0
     in if ipa mod HOST_CALL_SIZE \<noteq> 0 then returnM (rec_exit, set_x 0 RSI_ERROR_INPUT res)
        else if ipa div GRANULE_SIZE \<noteq> (ipa + HOST_CALL_SIZE - 1) div GRANULE_SIZE then returnM (rec_exit, set_x 0 RSI_ERROR_INPUT res)
        else if \<not> addr_in_rec_par rec ipa then returnM (rec_exit, set_x 0 RSI_ERROR_INPUT res)
        else bindM (do_host_call g_rec (Some rec_exit) None res) (\<lambda>(ex, res).
          returnM (the ex, res))))"

record rsi_walk_result =
  rw_abort :: bool
  rw_rtt_level :: u64

definition complete_rsi_host_call :: "nat \<Rightarrow> rmi_rec_enter \<Rightarrow> (rmm, rsi_walk_result) M" where
  "complete_rsi_host_call g_rec rec_enter =
    bindM (do_host_call g_rec None (Some rec_enter) \<lparr>rsi_action = 0, rsi_rtt_level = 0, rsi_smc_res = (\<lambda>_. 0)\<rparr>) (\<lambda>(_, res).
    returnM (if rsi_action res = STAGE_2_TRANSLATION_FAULT then \<lparr>rw_abort = True, rw_rtt_level = rsi_rtt_level res\<rparr>
             else \<lparr>rw_abort = False, rw_rtt_level = 0\<rparr>))"

section \<open>Measurements\<close>

definition handle_rsi_measurement_extend ::
  "(hash_algo \<Rightarrow> u8 list \<Rightarrow> u8 list) \<Rightarrow> nat \<Rightarrow> rsi_result \<Rightarrow> (rmm, rsi_result) M" where
  "handle_rsi_measurement_extend hash g_rec res0 =
    bindM (read_rec g_rec) (\<lambda>rec.
    (let res = set_action UPDATE_REC_RETURN_TO_REALM res0 in
     bindM (granule_addr (ri_g_rd (rec_realm_info rec))) (\<lambda>rd_addr.
     bindM (find_lock_granule rd_addr GRANULE_STATE_RD) (\<lambda>locked.
     bindM (derefM locked) (\<lambda>g_rd.
     thenM (map_slot (ri_g_rd (rec_realm_info rec)) SLOT_RD)
     (bindM (read_rd g_rd) (\<lambda>rd.
      (let index = rec_regs rec ! 1; size = rec_regs rec ! 2
       in bindM
         (if unat index = RIM_MEASUREMENT_SLOT \<or> index \<ge> of_nat MEASUREMENT_SLOT_NR then returnM (set_x 0 RSI_ERROR_INPUT res)
          else if size > MAX_EXTENDED_SIZE then returnM (set_x 0 RSI_ERROR_INPUT res)
          else
            (let current = measurement rd ! unat index;
                 extend = take (unat size) (concat (map le64 (drop 3 (rec_regs rec))))
             in thenM (write_rd g_rd (rd\<lparr>measurement := (measurement rd)[unat index :=
                   measurement_extend hash (rd_algorithm rd) current extend current]\<rparr>))
                (returnM (set_x 0 RSI_SUCCESS res))))
         (\<lambda>res.
        thenM (buffer_unmap SLOT_RD)
        (thenM (granule_unlock g_rd)
         (returnM res)))))))))))"

definition handle_rsi_measurement_read :: "nat \<Rightarrow> rsi_result \<Rightarrow> (rmm, rsi_result) M" where
  "handle_rsi_measurement_read g_rec res0 =
    bindM (read_rec g_rec) (\<lambda>rec.
    (let res = set_action UPDATE_REC_RETURN_TO_REALM res0; idx = rec_regs rec ! 1
     in if idx \<ge> of_nat MEASUREMENT_SLOT_NR then returnM (set_x 0 RSI_ERROR_INPUT res)
        else
          bindM (derefM (ri_g_rd (rec_realm_info rec))) (\<lambda>g_rd.
          thenM (granule_lock g_rd GRANULE_STATE_RD)
          (thenM (map_slot (Some g_rd) SLOT_RD)
          (bindM (read_rd g_rd) (\<lambda>rd.
           (let cnt = measurement_get_size (rd_algorithm rd) div 8; m = measurement rd ! unat idx
            in thenM (assertM (cnt \<ge> SMC_RESULT_REGS - 1))
              (thenM (assertM (cnt < length (rec_regs rec)))
              (let res' = foldl (\<lambda>r i. set_x (i + 1) (word_at m i) r) res [0..<SMC_RESULT_REGS - 1];
                   regs' = overwrite (SMC_RESULT_REGS)
                     (map (word_at m) [SMC_RESULT_REGS - 1..<cnt] @ replicate (MAX_MEASUREMENT_WORDS - cnt) 0) (rec_regs rec)
               in thenM (write_rec g_rec (rec\<lparr>rec_regs := regs'\<rparr>))
                 (thenM (buffer_unmap SLOT_RD)
                 (thenM (granule_unlock g_rd)
                  (returnM (set_x 0 RSI_SUCCESS res')))))))))))))"

end
