(* ===== verification/Csm.thy ===== *)
theory Csm
  imports Rsi Rmi_Data
begin

text \<open>
  Confidential shared memory: the commands of the host on access permission tables (\<^verbatim>\<open>runtime/rmi/apt.c\<close>) and the calls of the realms
  (\<^verbatim>\<open>runtime/rsi/shared_memory.c\<close>). A null granule that the code passes to \<^verbatim>\<open>buffer_granule_map\<close> fails the assertion of
  \<^verbatim>\<open>granule_addr\<close>.
\<close>

definition RMI_EXIT_CSM_REMOVE_GRANULES :: u64 where "RMI_EXIT_CSM_REMOVE_GRANULES = 7"
definition RMI_EXIT_CSM_ADD_GRANULES :: u64 where "RMI_EXIT_CSM_ADD_GRANULES = 8"
definition RMI_EXIT_CSM_REALM_REMOVE :: u64 where "RMI_EXIT_CSM_REALM_REMOVE = 9"

section \<open>Regions\<close>

text \<open>
  The addresses of the loops over the pages of a region. The start and the size of the regions in a table are multiples of the
  granule size, so that the address does not wrap before it reaches the end; a region whose end wraps around has no iteration.
\<close>

definition region_pages :: "u64 \<Rightarrow> u64 \<Rightarrow> u64 list" where
  "region_pages base size_ipa =
    map (\<lambda>i. base + of_nat i * GRANULE_SIZE) [0..<(if base < base + size_ipa then (unat size_ipa + 4095) div 4096 else 0)]"

definition unmap_region :: "rd \<Rightarrow> u64 \<Rightarrow> u64 \<Rightarrow> (rmm, unit) M" where
  "unmap_region rd base size_ipa = forM (region_pages base size_ipa) (unmap_ipa_from_rd rd)"

definition find_slave_region :: "apt \<Rightarrow> u8 \<Rightarrow> nat option" where
  "find_slave_region a region_id =
    find (\<lambda>sj. slave_used_mask a AND BIT64 sj \<noteq> 0 \<and> sm_region_ID (slave_memory a ! sj) = region_id) [0..<MAX_MEM_REGIONS]"

definition zero_master :: master_mem where
  "zero_master = \<lparr>mm_region_ID = 0, mm_ipa_start = 0, mm_map_size = 0, share_count = 0,
     shares = replicate CSM_MAX_MASTER_SHARES zero_share\<rparr>"

definition zero_slave :: slave_mem where
  "zero_slave = \<lparr>sm_master_ID = 0, sm_region_ID = 0, sm_master_rd_pa = 0, sm_ipa_start = 0, sm_map_size = 0\<rparr>"

text \<open>An entry leaves the table: it is disabled and its slot is free; the commands of the host also clear it.\<close>

definition drop_slave :: "apt \<Rightarrow> nat \<Rightarrow> apt" where
  "drop_slave a sj = (let a' = snd (apt_disable_slave_idx a sj) in a'\<lparr>slave_used_mask := slave_used_mask a' AND NOT (BIT64 sj)\<rparr>)"

definition clear_slave :: "apt \<Rightarrow> nat \<Rightarrow> apt" where
  "clear_slave a sj = (let a' = drop_slave a sj in a'\<lparr>slave_memory := (slave_memory a')[sj := zero_slave]\<rparr>)"

definition clear_master :: "apt \<Rightarrow> nat \<Rightarrow> apt" where
  "clear_master a mi =
    (let a' = snd (apt_disable_master_idx a mi)
     in a'\<lparr>master_used_mask := master_used_mask a' AND NOT (BIT64 mi), master_memory := (master_memory a')[mi := zero_master]\<rparr>)"

definition drop_share :: "apt \<Rightarrow> nat \<Rightarrow> nat \<Rightarrow> apt" where
  "drop_share a mi sk =
    a\<lparr>master_memory := (master_memory a)[mi := (master_memory a ! mi)\<lparr>
        shares := (shares (master_memory a ! mi))[sk := (shares (master_memory a ! mi) ! sk)\<lparr>ms_in_use := False\<rparr>],
        share_count := share_count (master_memory a ! mi) - 1\<rparr>]\<rparr>"

section \<open>The commands of the host\<close>

definition realm_tag_assignM :: "u64 \<Rightarrow> (rmm, unit) M" where
  "realm_tag_assignM rd_pa = modifyM (\<lambda>s. s\<lparr>tags := snd (realm_tag_assign rd_pa (tags s))\<rparr>)"

definition realm_tag_removeM :: "u64 \<Rightarrow> (rmm, unit) M" where
  "realm_tag_removeM rd_pa = modifyM (\<lambda>s. s\<lparr>tags := snd (realm_tag_remove rd_pa (tags s))\<rparr>)"

definition csm_region_id_removeM :: "u8 \<Rightarrow> (rmm, unit) M" where
  "csm_region_id_removeM region_id = modifyM (\<lambda>s. s\<lparr>csm_region_ids := snd (csm_region_id_remove region_id (csm_region_ids s))\<rparr>)"

definition csm_region_id_assignM :: "u64 \<Rightarrow> (rmm, u8 option) M" where
  "csm_region_id_assignM owner_rd_pa =
    bindM (getM (\<lambda>s. csm_region_id_assign owner_rd_pa (csm_region_ids s))) (\<lambda>(region_id, ids).
    thenM (modifyM (\<lambda>s. s\<lparr>csm_region_ids := ids\<rparr>))
    (returnM region_id))"

definition smc_apt_create :: "u64 \<Rightarrow> u64 \<Rightarrow> (rmm, u64) M" where
  "smc_apt_create rd_addr apt_addr =
    bindM (find_lock_two_granules apt_addr GRANULE_STATE_DELEGATED rd_addr GRANULE_STATE_RD) (\<lambda>locked.
    (case locked of
       None \<Rightarrow> returnM RMI_ERROR_REALM
     | Some (g_apt, g_rd) \<Rightarrow>
     thenM (map_slot (Some g_rd) SLOT_RD)
     (thenM (map_slot (Some g_apt) SLOT_APT)
     (bindM (read_apt g_apt) (\<lambda>a.
      thenM (write_apt g_apt (apt_reset a))
      (bindM (read_rd g_rd) (\<lambda>rd.
       bindM
        (if rd_state rd \<noteq> REALM_NEW then returnM RMI_ERROR_REALM
         else
           thenM (write_rd g_rd (rd\<lparr>apt_pa := apt_addr\<rparr>))
           (thenM (realm_tag_assignM rd_addr)
            (returnM RMI_SUCCESS)))
        (\<lambda>ret.
       thenM (buffer_unmap SLOT_RD)
       (thenM (buffer_unmap SLOT_APT)
       (thenM (granule_unlock g_rd)
       (thenM (granule_unlock_transition g_apt GRANULE_STATE_APT)
        (returnM ret))))))))))))"

text \<open>
  The first phase of \<^verbatim>\<open>smc_apt_destroy\<close>: the borrowed regions are taken out of the tables of the realm and the owned regions out
  of its table; the peers of both are collected.
\<close>

fun destroy_slaves :: "rd \<Rightarrow> nat \<Rightarrow> nat list \<Rightarrow> (u64 \<times> u8) list \<Rightarrow> (rmm, (u64 \<times> u8) list) M" where
  "destroy_slaves rd g_apt [] peers = returnM peers"
| "destroy_slaves rd g_apt (sj # sjs) peers =
    bindM (read_apt g_apt) (\<lambda>a.
    if slave_used_mask a AND BIT64 sj = 0 then destroy_slaves rd g_apt sjs peers
    else
      (let sm = slave_memory a ! sj in
       thenM (write_apt g_apt (clear_slave a sj))
       (thenM (unmap_region rd (sm_ipa_start sm) (sm_map_size sm))
        (destroy_slaves rd g_apt sjs (peers @ [(sm_master_rd_pa sm, sm_region_ID sm)])))))"

fun destroy_shares :: "apt \<Rightarrow> nat \<Rightarrow> nat list \<Rightarrow> (u64 \<times> u8) list \<Rightarrow> apt \<times> (u64 \<times> u8) list" where
  "destroy_shares a mi [] peers = (a, peers)"
| "destroy_shares a mi (sk # sks) peers =
    (let m = master_memory a ! mi
     in if \<not> ms_in_use (shares m ! sk) then destroy_shares a mi sks peers
        else destroy_shares (drop_share a mi sk) mi sks (peers @ [(ms_slave_rd_pa (shares m ! sk), mm_region_ID m)]))"

fun destroy_masters :: "nat \<Rightarrow> nat list \<Rightarrow> (u64 \<times> u8) list \<Rightarrow> (rmm, (u64 \<times> u8) list) M" where
  "destroy_masters g_apt [] peers = returnM peers"
| "destroy_masters g_apt (mi # mis) peers =
    bindM (read_apt g_apt) (\<lambda>a.
    if master_used_mask a AND BIT64 mi = 0 then destroy_masters g_apt mis peers
    else
      (let region_id = mm_region_ID (master_memory a ! mi); (a', peers') = destroy_shares a mi [0..<CSM_MAX_MASTER_SHARES] peers in
       thenM (csm_region_id_removeM region_id)
       (thenM (write_apt g_apt (clear_master a' mi))
        (destroy_masters g_apt mis peers'))))"

text \<open>
  A peer is locked with its access permission table, the table is changed, and after its release the tables of the peer may be.
\<close>

definition with_peer :: "nat \<Rightarrow> nat \<Rightarrow> u64 \<Rightarrow> (apt \<Rightarrow> apt \<times> 'r) \<Rightarrow> (rd \<Rightarrow> 'r \<Rightarrow> (rmm, unit) M) \<Rightarrow> (rmm, unit) M" where
  "with_peer rslot aslot peer_rd_pa change after =
    bindM (find_lock_granule peer_rd_pa GRANULE_STATE_RD) (\<lambda>locked.
    (case locked of
       None \<Rightarrow> returnM ()
     | Some g_prd \<Rightarrow>
     thenM (map_slot (Some g_prd) rslot)
     (bindM (read_rd g_prd) (\<lambda>prd.
      bindM (find_lock_granule (apt_pa prd) GRANULE_STATE_APT) (\<lambda>locked_apt.
      (case locked_apt of
         None \<Rightarrow>
           thenM (buffer_unmap rslot)
           (granule_unlock g_prd)
       | Some g_papt \<Rightarrow>
           thenM (map_slot (Some g_papt) aslot)
           (bindM (read_apt g_papt) (\<lambda>a.
            (let (a', r) = change a in
             thenM (write_apt g_papt a')
             (thenM (buffer_unmap aslot)
             (thenM (granule_unlock g_papt)
             (thenM (after prd r)
             (thenM (buffer_unmap rslot)
              (granule_unlock g_prd))))))))))))))"

definition release_share :: "u64 \<Rightarrow> u8 \<Rightarrow> apt \<Rightarrow> apt" where
  "release_share rd_addr region_id a =
    (case apt_find_master_by_region_id a region_id of
       None \<Rightarrow> a
     | Some mi \<Rightarrow>
       (case find (\<lambda>sk. ms_in_use (shares (master_memory a ! mi) ! sk) \<and> ms_slave_rd_pa (shares (master_memory a ! mi) ! sk) = rd_addr)
               [0..<CSM_MAX_MASTER_SHARES] of
          None \<Rightarrow> a
        | Some sk \<Rightarrow> drop_share a mi sk))"

text \<open>The region of a borrower, taken out of its table with \<open>remove_slave\<close>; the result says which pages are to be unmapped.\<close>

definition release_slave :: "(apt \<Rightarrow> nat \<Rightarrow> apt) \<Rightarrow> u8 \<Rightarrow> apt \<Rightarrow> apt \<times> (u64 \<times> u64) option" where
  "release_slave remove_slave region_id a =
    (case find_slave_region a region_id of
       None \<Rightarrow> (a, None)
     | Some sj \<Rightarrow> (remove_slave a sj, Some (sm_ipa_start (slave_memory a ! sj), sm_map_size (slave_memory a ! sj))))"

definition unmap_found :: "rd \<Rightarrow> (u64 \<times> u64) option \<Rightarrow> (rmm, unit) M" where
  "unmap_found rd r = (case r of None \<Rightarrow> returnM () | Some (base, size_ipa) \<Rightarrow> unmap_region rd base size_ipa)"

definition smc_apt_destroy :: "u64 \<Rightarrow> u64 \<Rightarrow> (rmm, u64) M" where
  "smc_apt_destroy rd_addr apt_addr =
    bindM (find_lock_granule rd_addr GRANULE_STATE_RD) (\<lambda>locked.
    (case locked of
       None \<Rightarrow> returnM RMI_ERROR_INPUT
     | Some g_rd \<Rightarrow>
     thenM (map_slot (Some g_rd) SLOT_RD)
     (bindM (read_rd g_rd) (\<lambda>rd.
      if apt_pa rd \<noteq> apt_addr then
        thenM (buffer_unmap SLOT_RD)
        (thenM (granule_unlock g_rd)
         (returnM RMI_ERROR_REALM))
      else
        thenM (realm_tag_removeM rd_addr)
        (bindM (find_lock_granule apt_addr GRANULE_STATE_APT) (\<lambda>locked_apt.
         bindM (derefM locked_apt) (\<lambda>g_apt.
         thenM (map_slot (Some g_apt) SLOT_APT)
         (bindM (destroy_slaves rd g_apt [0..<MAX_MEM_REGIONS] []) (\<lambda>slave_entries.
          bindM (destroy_masters g_apt [0..<MAX_MEM_REGIONS] []) (\<lambda>master_shares.
          thenM (buffer_unmap SLOT_APT)
          (thenM (buffer_granule_memzero g_apt SLOT_APT)
          (thenM (granule_unlock_transition g_apt GRANULE_STATE_DELEGATED)
          (thenM (buffer_unmap SLOT_RD)
          (thenM (granule_unlock g_rd)
          (thenM (forM slave_entries (\<lambda>(master_rd_pa, region_id).
             with_peer SLOT_RD2 SLOT_APT2 master_rd_pa (\<lambda>a. (release_share rd_addr region_id a, ())) (\<lambda>_ _. returnM ())))
          (thenM (forM master_shares (\<lambda>(slave_rd_pa, region_id).
             with_peer SLOT_RD2 SLOT_APT2 slave_rd_pa (release_slave clear_slave region_id) unmap_found))
           (returnM RMI_SUCCESS)))))))))))))))))"

section \<open>The calls of the realms\<close>

text \<open>The lower byte of a register.\<close>

definition OWNER_TAG_DECODE :: "u64 \<Rightarrow> u8" where
  "OWNER_TAG_DECODE x = ucast (x AND 0xFF)"

text \<open>
  The descriptor of the calling realm is locked and mapped, and then its access permission table; \<open>body\<close> gets both. The table is
  written back and both are released.
\<close>

definition own_rd :: "rec_data \<Rightarrow> (nat \<Rightarrow> rd \<Rightarrow> (rmm, 'r) M) \<Rightarrow> (rmm, 'r) M" where
  "own_rd rec body =
    bindM (derefM (ri_g_rd (rec_realm_info rec))) (\<lambda>g_rd.
    thenM (granule_lock g_rd GRANULE_STATE_RD)
    (thenM (map_slot (Some g_rd) SLOT_RD)
    (bindM (read_rd g_rd) (body g_rd))))"

definition release_own_rd :: "nat \<Rightarrow> (rmm, unit) M" where
  "release_own_rd g_rd = thenM (buffer_unmap SLOT_RD) (granule_unlock g_rd)"

definition release_apt :: "nat \<Rightarrow> nat \<Rightarrow> (rmm, unit) M" where
  "release_apt slot g_apt = thenM (buffer_unmap slot) (granule_unlock g_apt)"

definition csm_bad_range :: "u64 \<Rightarrow> u64 \<Rightarrow> bool" where
  "csm_bad_range base_ipa size_ipa \<longleftrightarrow> size_ipa = 0 \<or> \<not> GRANULE_ALIGNED base_ipa \<or> \<not> GRANULE_ALIGNED size_ipa"

definition csm_create_region :: "u64 \<Rightarrow> u64 \<Rightarrow> u64 \<Rightarrow> nat \<Rightarrow> rmi_rec_exit \<Rightarrow> rsi_result \<Rightarrow> (rmm, rmi_rec_exit \<times> rsi_result) M" where
  "csm_create_region owner_rd_pa base_ipa size_ipa g_apt rec_exit res =
    bindM (read_apt g_apt) (\<lambda>a.
    if apt_find_enabled_conflict a base_ipa size_ipa True \<noteq> None then returnM (rec_exit, set_x 0 RSI_ERROR_INPUT res)
    else bindM (csm_region_id_assignM owner_rd_pa) (\<lambda>assigned.
      (case assigned of
         None \<Rightarrow> returnM (rec_exit, set_x 0 RSI_ERROR_STATE res)
       | Some region_id \<Rightarrow>
         (case apt_add_master a region_id base_ipa size_ipa True of
            (None, _) \<Rightarrow>
              thenM (csm_region_id_removeM region_id)
              (returnM (rec_exit, set_x 0 RSI_ERROR_STATE res))
          | (Some region_index, a') \<Rightarrow>
              thenM (write_apt g_apt a')
              (returnM (rec_exit\<lparr>ex_exit_reason := RMI_EXIT_CSM_ADD_GRANULES, ex_ripas_base := base_ipa, ex_ripas_top := base_ipa + size_ipa\<rparr>,
                set_x 2 (of_nat region_index) (set_x 1 (ucast region_id) (set_x 0 RSI_SUCCESS (set_action UPDATE_REC_EXIT_TO_HOST res)))))))))"

definition handle_rsi_csm_create :: "nat \<Rightarrow> rmi_rec_exit \<Rightarrow> rsi_result \<Rightarrow> (rmm, rmi_rec_exit \<times> rsi_result) M" where
  "handle_rsi_csm_create g_rec rec_exit res0 =
    bindM (read_rec g_rec) (\<lambda>rec.
    (let base_ipa = rec_regs rec ! 2; size_ipa = rec_regs rec ! 3; res = set_action UPDATE_REC_RETURN_TO_REALM res0 in
     bindM (granule_addr (ri_g_rd (rec_realm_info rec))) (\<lambda>owner_rd_pa.
     if csm_bad_range base_ipa size_ipa then returnM (rec_exit, set_x 0 RSI_ERROR_INPUT res)
     else own_rd rec (\<lambda>g_rd rd.
       bindM (find_lock_granule (apt_pa rd) GRANULE_STATE_APT) (\<lambda>locked_apt.
       thenM (map_slot locked_apt SLOT_APT)
       (bindM (derefM locked_apt) (\<lambda>g_apt.
        bindM (csm_create_region owner_rd_pa base_ipa size_ipa g_apt rec_exit res) (\<lambda>result.
        thenM (release_apt SLOT_APT g_apt)
        (thenM (release_own_rd g_rd)
         (returnM result))))))))))"

definition handle_rsi_csm_share :: "nat \<Rightarrow> rsi_result \<Rightarrow> (rmm, rsi_result) M" where
  "handle_rsi_csm_share g_rec res0 =
    bindM (read_rec g_rec) (\<lambda>rec.
    (let region_id = OWNER_TAG_DECODE (rec_regs rec ! 1); slave_id = OWNER_TAG_DECODE (rec_regs rec ! 2);
         permission = OWNER_TAG_DECODE (rec_regs rec ! 3); res = set_action UPDATE_REC_RETURN_TO_REALM res0 in
     bindM (granule_addr (ri_g_rd (rec_realm_info rec))) (\<lambda>rd_pa.
     bindM (getM (\<lambda>s. realm_tag_get_by_rd rd_pa (tags s))) (\<lambda>tag.
     (case tag of
        None \<Rightarrow> returnM (set_x 0 RSI_ERROR_STATE res)
      | Some master_id \<Rightarrow>
        if master_id = 0 then returnM (set_x 0 RSI_ERROR_STATE res)
        else if region_id = 0 \<or> slave_id = 0 then returnM (set_x 0 RSI_ERROR_INPUT res)
        else bindM (getM (\<lambda>s. realm_tag_rd_by_tag slave_id (tags s))) (\<lambda>slave.
        (case slave of
           None \<Rightarrow> returnM (set_x 0 RSI_ERROR_INPUT res)
         | Some slave_rd_pa \<Rightarrow>
           own_rd rec (\<lambda>g_rd rd.
           bindM (find_lock_granule (apt_pa rd) GRANULE_STATE_APT) (\<lambda>locked_apt.
           thenM (map_slot locked_apt SLOT_APT)
           (bindM (derefM locked_apt) (\<lambda>g_apt.
            bindM (read_apt g_apt) (\<lambda>a.
            bindM
             (case apt_find_master_by_region_id a region_id of
                None \<Rightarrow> returnM (set_x 0 RSI_ERROR_INPUT res)
              | Some mi \<Rightarrow>
                  (let (added, a') = apt_master_add_share a mi slave_id slave_rd_pa permission in
                   if \<not> added then returnM (set_x 0 RSI_ERROR_STATE res)
                   else thenM (write_apt g_apt a')
                     (returnM (set_x 2 (of_nat mi) (set_x 1 (ucast (apt_make_sharing_id region_id master_id slave_id)) (set_x 0 RSI_SUCCESS res))))))
             (\<lambda>res.
            thenM (release_apt SLOT_APT g_apt)
            (thenM (release_own_rd g_rd)
             (returnM res)))))))))))))))"

text \<open>The checks of a reservation against the table of the owner, and the new entry of the borrower.\<close>

definition csm_reserve_region ::
  "u32 \<Rightarrow> u64 \<Rightarrow> u64 \<Rightarrow> u64 \<Rightarrow> nat \<Rightarrow> nat \<Rightarrow> rmi_rec_exit \<Rightarrow> rsi_result \<Rightarrow> (rmm, rmi_rec_exit \<times> rsi_result) M" where
  "csm_reserve_region sharing_id base_ipa size_ipa master_rd_pa g_apt_slave g_apt_master rec_exit res =
    bindM (read_apt g_apt_slave) (\<lambda>apt_slave.
    bindM (read_apt g_apt_master) (\<lambda>apt_master.
    (let region_id = apt_sharing_region_id sharing_id; master_id = apt_sharing_master_id sharing_id; slave_id = apt_sharing_slave_id sharing_id;
         bad = returnM (rec_exit, set_x 0 RSI_ERROR_INPUT res)
     in case apt_find_master_by_region_id apt_master region_id of
          None \<Rightarrow> bad
        | Some mi \<Rightarrow>
          if apt_find_master_share_slot (master_memory apt_master ! mi) slave_id = None then bad
          else if mm_map_size (master_memory apt_master ! mi) \<noteq> size_ipa then bad
          else if apt_find_enabled_conflict apt_slave base_ipa size_ipa False \<noteq> None then bad
          else
            (let (idx, apt') = apt_add_slave apt_slave master_id region_id master_rd_pa base_ipa size_ipa True in
             thenM (write_apt g_apt_slave apt')
             (returnM (rec_exit\<lparr>ex_exit_reason := RMI_EXIT_CSM_REMOVE_GRANULES, ex_ripas_base := base_ipa, ex_ripas_top := base_ipa + size_ipa\<rparr>,
               set_x 2 (case idx of None \<Rightarrow> - 1 | Some i \<Rightarrow> of_nat i) (set_x 1 (ucast sharing_id)
                 (set_x 0 RSI_SUCCESS (set_action UPDATE_REC_EXIT_TO_HOST res)))))))))"

definition handle_rsi_csm_reserve :: "nat \<Rightarrow> rmi_rec_exit \<Rightarrow> rsi_result \<Rightarrow> (rmm, rmi_rec_exit \<times> rsi_result) M" where
  "handle_rsi_csm_reserve g_rec rec_exit res0 =
    bindM (read_rec g_rec) (\<lambda>rec.
    (let sharing_id = ucast (rec_regs rec ! 1) :: u32; base_ipa = rec_regs rec ! 2; size_ipa = rec_regs rec ! 3;
         region_id = apt_sharing_region_id sharing_id; master_id = apt_sharing_master_id sharing_id; slave_id = apt_sharing_slave_id sharing_id;
         res = set_action UPDATE_REC_RETURN_TO_REALM res0; bad = returnM (rec_exit, set_x 0 RSI_ERROR_INPUT res) in
     bindM (granule_addr (ri_g_rd (rec_realm_info rec))) (\<lambda>slave_rd_pa.
     if csm_bad_range base_ipa size_ipa then bad
     else if sharing_id = 0 \<or> region_id = 0 \<or> master_id = 0 \<or> slave_id = 0 then bad
     else bindM (getM (\<lambda>s. realm_tag_get_by_rd slave_rd_pa (tags s))) (\<lambda>caller.
       if caller \<noteq> Some slave_id then bad
       else bindM (getM (\<lambda>s. realm_tag_rd_by_tag master_id (tags s))) (\<lambda>master.
       (case master of
          None \<Rightarrow> bad
        | Some master_rd_pa \<Rightarrow>
          own_rd rec (\<lambda>g_rd rd.
          bindM (find_lock_granule (apt_pa rd) GRANULE_STATE_APT) (\<lambda>locked_apt.
          thenM (map_slot locked_apt SLOT_APT)
          (bindM (derefM locked_apt) (\<lambda>g_apt_slave.
           bindM (find_lock_granule master_rd_pa GRANULE_STATE_RD) (\<lambda>locked_master.
           bindM (derefM locked_master) (\<lambda>g_master_rd.
           thenM (map_slot (Some g_master_rd) SLOT_RD2)
           (bindM (read_rd g_master_rd) (\<lambda>master_rd.
            bindM (find_lock_granule (apt_pa master_rd) GRANULE_STATE_APT) (\<lambda>locked_apt2.
            thenM (map_slot locked_apt2 SLOT_APT2)
            (bindM (derefM locked_apt2) (\<lambda>g_apt_master.
             bindM (csm_reserve_region sharing_id base_ipa size_ipa master_rd_pa g_apt_slave g_apt_master rec_exit res) (\<lambda>result.
             thenM (release_apt SLOT_APT g_apt_slave)
             (thenM (release_apt SLOT_APT2 g_apt_master)
             (thenM (release_own_rd g_rd)
             (thenM (release_apt SLOT_RD2 g_master_rd)
              (returnM result))))))))))))))))))))))"

text \<open>
  The loop of \<^verbatim>\<open>handle_rsi_csm_attach\<close> over the pages of the owner's region. The result of the walk is kept from one page to the
  next, as in the code: the last table of a walk that fails is that of the page before it.
\<close>

definition unlock_llt :: "s2_walk_result \<Rightarrow> (rmm, unit) M" where
  "unlock_llt walk_res = (case sw_llt walk_res of None \<Rightarrow> returnM () | Some llt \<Rightarrow> granule_unlock llt)"

fun attach_pages :: "rd \<Rightarrow> rd \<Rightarrow> u64 list \<Rightarrow> u64 \<Rightarrow> s2_walk_result \<Rightarrow> (rmm, bool) M" where
  "attach_pages master_rd slave_rd [] slave_ipa walk_res = returnM True"
| "attach_pages master_rd slave_rd (master_ipa # ipas) slave_ipa walk_res =
    bindM (realm_ipa_to_pa_with_rd master_rd master_ipa walk_res) (\<lambda>(walk_status, walk_res').
    if walk_status \<noteq> WALK_SUCCESS then
      thenM (unlock_llt walk_res')
      (returnM False)
    else
      thenM (map_ipa_to_pa slave_rd (sw_pa walk_res') slave_ipa)
      (thenM (unlock_llt walk_res')
       (attach_pages master_rd slave_rd ipas (slave_ipa + 0x1000) walk_res')))"

text \<open>The part of the call that has the descriptor of the owner locked and mapped.\<close>

definition csm_attach_master :: "rd \<Rightarrow> slave_mem \<Rightarrow> nat \<Rightarrow> rsi_result \<Rightarrow> (rmm, rsi_result \<times> nat) M" where
  "csm_attach_master slave_rd sm g_master_rd res =
    thenM (map_slot (Some g_master_rd) SLOT_RD2)
    (bindM (read_rd g_master_rd) (\<lambda>master_rd.
     bindM (find_lock_granule (apt_pa master_rd) GRANULE_STATE_APT) (\<lambda>locked_apt2.
     thenM (map_slot locked_apt2 SLOT_APT2)
     (bindM (derefM locked_apt2) (\<lambda>g_apt_master.
      bindM (read_apt g_apt_master) (\<lambda>apt_master.
      (case apt_find_master_by_region_id apt_master (sm_region_ID sm) of
         None \<Rightarrow> returnM (set_x 0 RSI_ERROR_INPUT res, g_apt_master)
       | Some mi \<Rightarrow>
           (let m = master_memory apt_master ! mi in
            bindM (attach_pages master_rd slave_rd (region_pages (mm_ipa_start m) (mm_map_size m)) (sm_ipa_start sm) no_walk) (\<lambda>ok.
            returnM (set_x 0 (if ok then RSI_SUCCESS else RSI_ERROR_INPUT) res, g_apt_master))))))))))"

definition handle_rsi_csm_attach :: "nat \<Rightarrow> rsi_result \<Rightarrow> (rmm, rsi_result) M" where
  "handle_rsi_csm_attach g_rec res0 =
    bindM (read_rec g_rec) (\<lambda>rec.
    (let res = set_action UPDATE_REC_RETURN_TO_REALM res0; region_index = sint (ucast (rec_regs rec ! 1) :: u32) in
     own_rd rec (\<lambda>g_rd slave_rd.
     bindM (find_lock_granule (apt_pa slave_rd) GRANULE_STATE_APT) (\<lambda>locked_apt.
     thenM (map_slot locked_apt SLOT_APT)
     (bindM (derefM locked_apt) (\<lambda>g_apt_slave.
      bindM (read_apt g_apt_slave) (\<lambda>apt_slave.
      if region_index < 0 \<or> region_index \<ge> int MAX_MEM_REGIONS then failM Out_Of_Bounds
      else
        (let sm = slave_memory apt_slave ! nat region_index in
         bindM (find_lock_granule (sm_master_rd_pa sm) GRANULE_STATE_RD) (\<lambda>locked_master.
         (case locked_master of
            None \<Rightarrow>
              thenM (release_apt SLOT_APT g_apt_slave)
              (thenM (release_own_rd g_rd)
               (returnM (set_x 0 RSI_ERROR_INPUT res)))
          | Some g_master_rd \<Rightarrow>
              bindM (csm_attach_master slave_rd sm g_master_rd res) (\<lambda>(res', g_apt_master).
              thenM (release_apt SLOT_APT g_apt_slave)
              (thenM (release_apt SLOT_APT2 g_apt_master)
              (thenM (release_own_rd g_rd)
              (thenM (release_apt SLOT_RD2 g_master_rd)
               (returnM res')))))))))))))))"

definition handle_rsi_csm_detach_and_free :: "nat \<Rightarrow> rmi_rec_exit \<Rightarrow> rsi_result \<Rightarrow> (rmm, rmi_rec_exit \<times> rsi_result) M" where
  "handle_rsi_csm_detach_and_free g_rec rec_exit res0 =
    bindM (read_rec g_rec) (\<lambda>rec.
    (let sharing_id = ucast (rec_regs rec ! 1) :: u32; region_id = apt_sharing_region_id sharing_id; slave_id = apt_sharing_slave_id sharing_id;
         res = set_action UPDATE_REC_RETURN_TO_REALM res0; bad = returnM (rec_exit, set_x 0 RSI_ERROR_INPUT res) in
     bindM (granule_addr (ri_g_rd (rec_realm_info rec))) (\<lambda>slave_rd_pa.
     if sharing_id = 0 \<or> region_id = 0 \<or> slave_id = 0 then bad
     else bindM (getM (\<lambda>s. realm_tag_get_by_rd slave_rd_pa (tags s))) (\<lambda>caller.
       if caller \<noteq> Some slave_id then bad
       else own_rd rec (\<lambda>g_rd slave_rd.
         bindM (find_lock_granule (apt_pa slave_rd) GRANULE_STATE_APT) (\<lambda>locked_apt.
         (case locked_apt of
            None \<Rightarrow>
              thenM (release_own_rd g_rd)
              (returnM (rec_exit, set_x 0 RSI_ERROR_STATE res))
          | Some g_apt \<Rightarrow>
            thenM (map_slot (Some g_apt) SLOT_APT)
            (bindM (read_apt g_apt) (\<lambda>a.
             (case release_slave drop_slave region_id a of
                (_, None) \<Rightarrow>
                  thenM (release_apt SLOT_APT g_apt)
                  (thenM (release_own_rd g_rd)
                   (returnM (rec_exit, set_x 0 RSI_ERROR_INPUT res)))
              | (a', Some (base, size_ipa)) \<Rightarrow>
                  thenM (write_apt g_apt a')
                  (thenM (release_apt SLOT_APT g_apt)
                  (thenM (unmap_region slave_rd base size_ipa)
                  (thenM (release_own_rd g_rd)
                   (returnM (rec_exit\<lparr>ex_exit_reason := RMI_EXIT_CSM_ADD_GRANULES, ex_ripas_base := base, ex_ripas_top := base + size_ipa\<rparr>,
                     set_x 0 RSI_SUCCESS (set_action UPDATE_REC_EXIT_TO_HOST res))))))))))))))))"

definition handle_rsi_csm_revoke :: "nat \<Rightarrow> rsi_result \<Rightarrow> (rmm, rsi_result) M" where
  "handle_rsi_csm_revoke g_rec res0 =
    bindM (read_rec g_rec) (\<lambda>rec.
    (let sharing_id = ucast (rec_regs rec ! 1) :: u32; region_id = apt_sharing_region_id sharing_id;
         master_id = apt_sharing_master_id sharing_id; slave_id = apt_sharing_slave_id sharing_id;
         res = set_action UPDATE_REC_RETURN_TO_REALM res0; bad = returnM (set_x 0 RSI_ERROR_INPUT res) in
     bindM (granule_addr (ri_g_rd (rec_realm_info rec))) (\<lambda>master_rd_pa.
     if sharing_id = 0 \<or> region_id = 0 \<or> master_id = 0 \<or> slave_id = 0 then bad
     else bindM (getM (\<lambda>s. realm_tag_get_by_rd master_rd_pa (tags s))) (\<lambda>caller.
       if caller \<noteq> Some master_id then bad
       else own_rd rec (\<lambda>g_rd mrd.
         bindM (find_lock_granule (apt_pa mrd) GRANULE_STATE_APT) (\<lambda>locked_apt.
         (case locked_apt of
            None \<Rightarrow>
              thenM (release_own_rd g_rd)
              (returnM (set_x 0 RSI_ERROR_STATE res))
          | Some g_apt \<Rightarrow>
            thenM (map_slot (Some g_apt) SLOT_APT)
            (bindM (read_apt g_apt) (\<lambda>a.
             (case (case apt_find_master_by_region_id a region_id of
                      None \<Rightarrow> None
                    | Some mi \<Rightarrow> map_option (\<lambda>sk. (mi, sk)) (apt_find_master_share_slot (master_memory a ! mi) slave_id)) of
                None \<Rightarrow>
                  thenM (release_apt SLOT_APT g_apt)
                  (thenM (release_own_rd g_rd) bad)
              | Some (mi, sk) \<Rightarrow>
                  thenM (write_apt g_apt (drop_share a mi sk))
                  (thenM (release_apt SLOT_APT g_apt)
                  (thenM (release_own_rd g_rd)
                  (thenM (with_peer SLOT_RD SLOT_APT (ms_slave_rd_pa (shares (master_memory a ! mi) ! sk)) (release_slave drop_slave region_id) unmap_found)
                   (returnM (set_x 0 RSI_SUCCESS res)))))))))))))))"

definition handle_rsi_csm_destroy :: "nat \<Rightarrow> rmi_rec_exit \<Rightarrow> rsi_result \<Rightarrow> (rmm, rmi_rec_exit \<times> rsi_result) M" where
  "handle_rsi_csm_destroy g_rec rec_exit res0 =
    bindM (read_rec g_rec) (\<lambda>rec.
    (let region_id = OWNER_TAG_DECODE (rec_regs rec ! 1); res = set_action UPDATE_REC_RETURN_TO_REALM res0 in
     bindM (granule_addr (ri_g_rd (rec_realm_info rec))) (\<lambda>master_rd_pa.
     if region_id = 0 then returnM (rec_exit, set_x 0 RSI_ERROR_INPUT res)
     else own_rd rec (\<lambda>g_rd mrd.
       bindM (find_lock_granule (apt_pa mrd) GRANULE_STATE_APT) (\<lambda>locked_apt.
       (case locked_apt of
          None \<Rightarrow>
            thenM (release_own_rd g_rd)
            (returnM (rec_exit, set_x 0 RSI_ERROR_STATE res))
        | Some g_apt \<Rightarrow>
          thenM (map_slot (Some g_apt) SLOT_APT)
          (bindM (read_apt g_apt) (\<lambda>a.
           (let fail = (\<lambda>code. thenM (release_apt SLOT_APT g_apt) (thenM (release_own_rd g_rd) (returnM (rec_exit, set_x 0 code res))))
            in case apt_find_master_by_region_id a region_id of
              None \<Rightarrow> fail RSI_ERROR_INPUT
            | Some mi \<Rightarrow>
              (let m = master_memory a ! mi in
               if share_count m \<noteq> 0 then fail RSI_ERROR_STATE
               else
                 thenM (write_apt g_apt (clear_master a mi))
                 (thenM (release_apt SLOT_APT g_apt)
                 (thenM (release_own_rd g_rd)
                 (thenM (csm_region_id_removeM region_id)
                  (returnM (rec_exit\<lparr>ex_exit_reason := RMI_EXIT_CSM_REALM_REMOVE, ex_ripas_base := mm_ipa_start m,
                      ex_ripas_top := mm_ipa_start m + mm_map_size m\<rparr>,
                    set_x 0 RSI_SUCCESS (set_action UPDATE_REC_EXIT_TO_HOST res))))))))))))))))"

end
