(* ===== verification/Exit.thy ===== *)
theory Exit
  imports Csm
begin

text \<open>
  What the RMM does when a realm traps to it: \<^verbatim>\<open>runtime/core/exit.c\<close>, \<^verbatim>\<open>inject_exp.c\<close>, \<^verbatim>\<open>sysregs.c\<close> and \<^verbatim>\<open>lib/arch/include/esr.h\<close>.
  The state is that of the RMM together with the registers of the processor: those at EL2, those of the running software at
  EL1 (\<open>live\<close>), and the ownership of the SIMD registers (\<^verbatim>\<open>lib/arch/src/simd.c\<close>; the contents of the vector registers are not modelled).
\<close>

section \<open>The processor\<close>

record pe =
  esr_el2 :: u64
  far_el2 :: u64
  hpfar_el2 :: u64
  elr_el2 :: u64
  spsr_el2 :: u64
  cptr_el2 :: u64
  vtcr_el2 :: u64
  vttbr_el2 :: u64
  mdcr_el2_live :: u64
  vsesr_el2 :: u64
  icc_sre_el2 :: u64
  live :: sysreg_state
  ns_simd_ctx :: simd_context
  simd_state_saved :: bool
  rec_simd_active :: bool

type_synonym sys = "rmm \<times> pe"

definition onR :: "(rmm, 'a) M \<Rightarrow> (sys, 'a) M" where
  "onR m = (\<lambda>(s, p). case m s of Inl e \<Rightarrow> Inl e | Inr (x, s') \<Rightarrow> Inr (x, (s', p)))"

definition readP :: "(pe \<Rightarrow> 'a) \<Rightarrow> (sys, 'a) M" where
  "readP f = getM (\<lambda>(s, p). f p)"

definition writeP :: "(pe \<Rightarrow> pe) \<Rightarrow> (sys, unit) M" where
  "writeP f = modifyM (\<lambda>(s, p). (s, f p))"

definition upd_rec :: "nat \<Rightarrow> (rec_data \<Rightarrow> rec_data) \<Rightarrow> (sys, unit) M" where
  "upd_rec g_rec f = onR (bindM (read_rec g_rec) (\<lambda>rec. write_rec g_rec (f rec)))"

section \<open>Syndromes\<close>

definition ESR_EL2_EC :: u64 where "ESR_EL2_EC = MASK 26 6"
definition ESR_EL2_EC_UNKNOWN :: u64 where "ESR_EL2_EC_UNKNOWN = INPLACE 26 0"
definition ESR_EL2_EC_WFX :: u64 where "ESR_EL2_EC_WFX = INPLACE 26 1"
definition ESR_EL2_EC_FPU :: u64 where "ESR_EL2_EC_FPU = INPLACE 26 7"
definition ESR_EL2_EC_HVC :: u64 where "ESR_EL2_EC_HVC = INPLACE 26 22"
definition ESR_EL2_EC_SMC :: u64 where "ESR_EL2_EC_SMC = INPLACE 26 23"
definition ESR_EL2_EC_SYSREG :: u64 where "ESR_EL2_EC_SYSREG = INPLACE 26 24"
definition ESR_EL2_EC_SVE :: u64 where "ESR_EL2_EC_SVE = INPLACE 26 25"
definition ESR_EL2_EC_SME :: u64 where "ESR_EL2_EC_SME = INPLACE 26 29"
definition ESR_EL2_EC_INST_ABORT :: u64 where "ESR_EL2_EC_INST_ABORT = INPLACE 26 32"
definition ESR_EL2_EC_DATA_ABORT :: u64 where "ESR_EL2_EC_DATA_ABORT = INPLACE 26 36"
definition ESR_EL2_ABORT_ISV_BIT :: u64 where "ESR_EL2_ABORT_ISV_BIT = BIT64 24"
definition ESR_EL2_ABORT_SSE_BIT :: u64 where "ESR_EL2_ABORT_SSE_BIT = BIT64 21"
definition ESR_EL2_ABORT_SET :: u64 where "ESR_EL2_ABORT_SET = MASK 11 2"
definition ESR_EL2_ABORT_SET_UER :: u64 where "ESR_EL2_ABORT_SET_UER = INPLACE 11 0"
definition ESR_EL2_ABORT_SET_UC :: u64 where "ESR_EL2_ABORT_SET_UC = INPLACE 11 2"
definition ESR_EL2_ABORT_SET_UEO :: u64 where "ESR_EL2_ABORT_SET_UEO = INPLACE 11 3"
definition ESR_EL2_ABORT_SF_BIT :: u64 where "ESR_EL2_ABORT_SF_BIT = BIT64 15"
definition ESR_EL2_ABORT_FNV_BIT :: u64 where "ESR_EL2_ABORT_FNV_BIT = BIT64 10"
definition ESR_EL2_ABORT_EA_BIT :: u64 where "ESR_EL2_ABORT_EA_BIT = BIT64 9"
definition ESR_EL2_ABORT_S1PTW_BIT :: u64 where "ESR_EL2_ABORT_S1PTW_BIT = BIT64 7"
definition ESR_EL2_ABORT_WNR_BIT :: u64 where "ESR_EL2_ABORT_WNR_BIT = BIT64 6"
definition ESR_EL2_ABORT_FSC :: u64 where "ESR_EL2_ABORT_FSC = MASK 0 6"
definition ESR_EL2_ABORT_FSC_TRANSLATION_FAULT :: u64 where "ESR_EL2_ABORT_FSC_TRANSLATION_FAULT = 0x04"
definition ESR_EL2_ABORT_FSC_TRANSLATION_FAULT_L0 :: u64 where "ESR_EL2_ABORT_FSC_TRANSLATION_FAULT_L0 = 0x04"
definition ESR_EL2_ABORT_FSC_SEA :: u64 where "ESR_EL2_ABORT_FSC_SEA = 0x10"
definition ESR_EL2_ABORT_FSC_SEA_TTW_START :: u64 where "ESR_EL2_ABORT_FSC_SEA_TTW_START = 0x13"
definition ESR_EL2_ABORT_FSC_SEA_TTW_END :: u64 where "ESR_EL2_ABORT_FSC_SEA_TTW_END = 0x17"

definition ESR_NONEMULATED_ABORT_MASK :: u64 where
  "ESR_NONEMULATED_ABORT_MASK = ESR_EL2_EC OR ESR_EL2_ABORT_SET OR ESR_EL2_ABORT_FNV_BIT OR ESR_EL2_ABORT_EA_BIT OR ESR_EL2_ABORT_FSC"

definition ESR_EMULATED_ABORT_MASK :: u64 where
  "ESR_EMULATED_ABORT_MASK =
    ESR_NONEMULATED_ABORT_MASK OR ESR_EL2_ABORT_ISV_BIT OR MASK 22 2 OR ESR_EL2_ABORT_SF_BIT OR ESR_EL2_ABORT_WNR_BIT"

definition ESR_EL2_SERROR_DFSC_ASYNC :: u64 where "ESR_EL2_SERROR_DFSC_ASYNC = INPLACE 0 1"
definition ESR_EL2_SERROR_AET_UC :: u64 where "ESR_EL2_SERROR_AET_UC = INPLACE 10 0"
definition ESR_EL2_SERROR_AET_UEU :: u64 where "ESR_EL2_SERROR_AET_UEU = INPLACE 10 1"
definition ESR_EL2_SERROR_AET_UEO :: u64 where "ESR_EL2_SERROR_AET_UEO = INPLACE 10 2"
definition ESR_EL2_SERROR_AET_UER :: u64 where "ESR_EL2_SERROR_AET_UER = INPLACE 10 3"
definition ESR_EL2_SERROR_AET_CE :: u64 where "ESR_EL2_SERROR_AET_CE = INPLACE 10 6"
definition ESR_EL2_SERROR_IDS_BIT :: u64 where "ESR_EL2_SERROR_IDS_BIT = BIT64 24"
definition ESR_SERROR_MASK :: u64 where "ESR_SERROR_MASK = ESR_EL2_SERROR_IDS_BIT OR MASK 10 3 OR BIT64 9 OR MASK 0 6"
definition ESR_EL2_WFx_TI_BIT :: u64 where "ESR_EL2_WFx_TI_BIT = BIT64 0"
definition HPFAR_EL2_FIPA_OFFSET :: nat where "HPFAR_EL2_FIPA_OFFSET = 8"

text \<open>The faulting address in HPFAR\_EL2.\<close>

definition hpfar_fipa :: "u64 \<Rightarrow> u64" where
  "hpfar_fipa hpfar = push_bit HPFAR_EL2_FIPA_OFFSET (hpfar AND MASK 4 40)"

definition esr_srt :: "u64 \<Rightarrow> u32" where "esr_srt esr = ucast (EXTRACT 16 5 esr)"
definition esr_is_write :: "u64 \<Rightarrow> bool" where "esr_is_write esr \<longleftrightarrow> esr AND ESR_EL2_ABORT_WNR_BIT \<noteq> 0"
definition esr_sign_extend :: "u64 \<Rightarrow> bool" where "esr_sign_extend esr \<longleftrightarrow> esr AND ESR_EL2_ABORT_SSE_BIT \<noteq> 0"
definition esr_sixty_four :: "u64 \<Rightarrow> bool" where "esr_sixty_four esr \<longleftrightarrow> esr AND ESR_EL2_ABORT_SF_BIT \<noteq> 0"
definition esr_sas :: "u64 \<Rightarrow> u32" where "esr_sas esr = ucast (EXTRACT 22 2 esr)"

definition access_len :: "u64 \<Rightarrow> nat" where
  "access_len esr = (if esr_sas esr = 0 then 1 else if esr_sas esr = 1 then 2 else if esr_sas esr = 2 then 4 else 8)"

definition access_mask :: "u64 \<Rightarrow> u64" where
  "access_mask esr =
    (if esr_sas esr = 0 then 0xff else if esr_sas esr = 1 then 0xffff else if esr_sas esr = 2 then 0xffffffff else NOT 0)"

section \<open>Injection of exceptions\<close>

definition calc_vector_entry :: "u64 \<Rightarrow> u64 \<Rightarrow> ('s, u64) M" where
  "calc_vector_entry vbar spsr =
    (let mode = spsr AND MASK 0 4
     in if mode = SPSR_EL2_MODE_EL1h then returnM (vbar + 0x200)
        else if mode = SPSR_EL2_MODE_EL1t then returnM (vbar + 0)
        else if mode = SPSR_EL2_MODE_EL0t
        then returnM (vbar + (if spsr AND MASK 4 1 = SPSR_EL2_nRW_AARCH64 then 0x400 else 0x600))
        else failM Assert_Fail)"

definition calc_esr_idabort :: "u64 \<Rightarrow> u64 \<Rightarrow> u64 \<Rightarrow> ('s, u64) M" where
  "calc_esr_idabort esr spsr fsc =
    (let esr_el1 = esr AND NOT (ESR_EL2_EC OR ESR_EL2_ABORT_FSC OR ESR_EL2_ABORT_FNV_BIT OR ESR_EL2_ABORT_S1PTW_BIT);
         ec = esr AND ESR_EL2_EC
     in thenM (assertM (ec = ESR_EL2_EC_INST_ABORT \<or> ec = ESR_EL2_EC_DATA_ABORT))
       (thenM (assertM (fsc AND NOT ESR_EL2_ABORT_FSC = 0))
        (returnM (esr_el1 OR (if spsr AND MASK 0 4 \<noteq> SPSR_EL2_MODE_EL0t then ec + push_bit 26 1 else ec) OR fsc OR ESR_EL2_ABORT_EA_BIT))))"

definition inject_sync_idabort :: "u64 \<Rightarrow> (sys, unit) M" where
  "inject_sync_idabort fsc =
    bindM (readP (\<lambda>p. p)) (\<lambda>p.
    bindM (calc_esr_idabort (esr_el2 p) (spsr_el2 p) fsc) (\<lambda>esr_el1.
    bindM (calc_vector_entry (sys_vbar_el1 (live p)) (spsr_el2 p)) (\<lambda>pc.
    writeP (\<lambda>_. p\<lparr>live := (live p)\<lparr>sys_far_el1 := far_el2 p, sys_elr_el1 := elr_el2 p, sys_spsr_el1 := spsr_el2 p, sys_esr_el1 := esr_el1\<rparr>,
      elr_el2 := pc, spsr_el2 := calc_pstate\<rparr>))))"

definition inject_sync_idabort_rec :: "nat \<Rightarrow> u64 \<Rightarrow> (rmm, unit) M" where
  "inject_sync_idabort_rec g_rec fsc =
    bindM (read_rec g_rec) (\<lambda>rec.
    bindM (calc_esr_idabort (run_esr (rec_last_run rec)) (rec_pstate rec) fsc) (\<lambda>esr.
    bindM (calc_vector_entry (sys_vbar_el1 (rec_sysregs rec)) (rec_pstate rec)) (\<lambda>pc.
    write_rec g_rec (rec\<lparr>rec_sysregs := (rec_sysregs rec)\<lparr>sys_far_el1 := run_far (rec_last_run rec), sys_elr_el1 := rec_pc rec,
      sys_spsr_el1 := rec_pstate rec, sys_esr_el1 := esr\<rparr>, rec_pc := pc, rec_pstate := calc_pstate\<rparr>))))"

definition realm_inject_undef_abort :: "(sys, unit) M" where
  "realm_inject_undef_abort =
    bindM (readP (\<lambda>p. p)) (\<lambda>p.
    bindM (calc_vector_entry (sys_vbar_el1 (live p)) (spsr_el2 p)) (\<lambda>pc.
    writeP (\<lambda>_. p\<lparr>live := (live p)\<lparr>sys_elr_el1 := elr_el2 p, sys_spsr_el1 := spsr_el2 p, sys_esr_el1 := MASK 25 1 OR ESR_EL2_EC_UNKNOWN\<rparr>,
      elr_el2 := pc, spsr_el2 := calc_pstate\<rparr>)))"

section \<open>System register traps\<close>

definition SYSREG_ESR :: "u64 \<Rightarrow> u64 \<Rightarrow> u64 \<Rightarrow> u64 \<Rightarrow> u64 \<Rightarrow> u64" where
  "SYSREG_ESR op0 op1 crn crm op2 = push_bit 20 op0 OR push_bit 14 op1 OR push_bit 10 crn OR push_bit 1 crm OR push_bit 17 op2"

definition ESR_EL2_SYSREG_MASK :: u64 where "ESR_EL2_SYSREG_MASK = SYSREG_ESR 3 7 15 15 7"
definition ESR_EL2_SYSREG_ID_MASK :: u64 where "ESR_EL2_SYSREG_ID_MASK = SYSREG_ESR 3 7 15 0 0"
definition ESR_EL2_SYSREG_ID :: u64 where "ESR_EL2_SYSREG_ID = SYSREG_ESR 3 0 0 0 0"
definition ESR_EL2_SYSREG_ICC_EL1_MASK :: u64 where "ESR_EL2_SYSREG_ICC_EL1_MASK = SYSREG_ESR 3 3 15 8 0"
definition ESR_EL2_SYSREG_ICC_EL1 :: u64 where "ESR_EL2_SYSREG_ICC_EL1 = SYSREG_ESR 3 0 12 8 0"
definition ESR_EL2_SYSREG_ICC_PMR_EL1 :: u64 where "ESR_EL2_SYSREG_ICC_PMR_EL1 = SYSREG_ESR 3 0 4 6 0"
definition ESR_EL2_SYSREG_ICC_DIR :: u64 where "ESR_EL2_SYSREG_ICC_DIR = SYSREG_ESR 3 0 12 11 1"
definition ESR_EL2_SYSREG_ICC_SGI1R_EL1 :: u64 where "ESR_EL2_SYSREG_ICC_SGI1R_EL1 = SYSREG_ESR 3 0 12 11 5"
definition ESR_EL2_SYSREG_ICC_SGI0R_EL1 :: u64 where "ESR_EL2_SYSREG_ICC_SGI0R_EL1 = SYSREG_ESR 3 0 12 11 7"
definition ESR_EL2_SYSREG_IS_WRITE :: "u64 \<Rightarrow> bool" where "ESR_EL2_SYSREG_IS_WRITE esr \<longleftrightarrow> esr AND BIT64 0 = 0"
definition ESR_EL2_SYSREG_ISS_RT :: "u64 \<Rightarrow> u32" where "ESR_EL2_SYSREG_ISS_RT esr = ucast (EXTRACT 5 5 esr)"

definition ID_AA64DFR0_EL1_CLEAR :: u64 where
  "ID_AA64DFR0_EL1_CLEAR = MASK 4 4 OR MASK 16 4 OR MASK 24 4 OR MASK 28 4 OR MASK 32 4 OR MASK 40 4 OR MASK 44 4 OR MASK 52 4 OR MASK 56 4"
definition ID_AA64DFR1_EL1_CLEAR :: u64 where "ID_AA64DFR1_EL1_CLEAR = MASK 48 4 OR MASK 36 4"
definition ID_AA64PFR0_EL1_CLEAR :: u64 where "ID_AA64PFR0_EL1_CLEAR = MASK 44 4"
definition ID_AA64PFR1_EL1_CLEAR :: u64 where "ID_AA64PFR1_EL1_CLEAR = MASK 8 4 OR MASK 24 4"

text \<open>
  The value that a realm reads from an identification register: \<open>idregs\<close> gives the registers of the processor by their encoding.
\<close>

definition id_sysreg_value :: "(u64 \<Rightarrow> u64) \<Rightarrow> bool \<Rightarrow> u64 \<Rightarrow> u64" where
  "id_sysreg_value idregs sve idreg =
    (if idreg \<in> {SYSREG_ESR 3 0 0 5 4, SYSREG_ESR 3 0 0 5 5, SYSREG_ESR 3 0 0 6 0, SYSREG_ESR 3 0 0 6 1, SYSREG_ESR 3 0 0 7 0,
                 SYSREG_ESR 3 0 0 7 1, SYSREG_ESR 3 0 0 7 2} then idregs idreg
     else if idreg = SYSREG_ESR 3 0 0 5 0 then idregs idreg AND NOT ID_AA64DFR0_EL1_CLEAR
     else if idreg = SYSREG_ESR 3 0 0 5 1 then idregs idreg AND NOT ID_AA64DFR1_EL1_CLEAR
     else if idreg = SYSREG_ESR 3 0 0 4 0 then
       (let value = idregs idreg AND NOT ID_AA64PFR0_EL1_CLEAR
        in if EXTRACT 32 4 value \<noteq> 0 \<and> \<not> sve then value AND NOT (MASK 32 4) else value)
     else if idreg = SYSREG_ESR 3 0 0 4 1 then idregs idreg AND NOT ID_AA64PFR1_EL1_CLEAR
     else if idreg = SYSREG_ESR 3 0 0 4 4 then (if EXTRACT 32 4 (idregs (SYSREG_ESR 3 0 0 4 0)) \<noteq> 0 \<and> sve then idregs idreg else 0)
     else 0)"

definition handle_id_sysreg_trap :: "(u64 \<Rightarrow> u64) \<Rightarrow> nat \<Rightarrow> rmi_rec_exit \<Rightarrow> u64 \<Rightarrow> (rmm, bool \<times> rmi_rec_exit) M" where
  "handle_id_sysreg_trap idregs g_rec rec_exit esr =
    thenM (assertM (\<not> ESR_EL2_SYSREG_IS_WRITE esr))
    (let rt = ESR_EL2_SYSREG_ISS_RT esr in
     if rt = 31 then returnM (True, rec_exit)
     else
       bindM (read_rec g_rec) (\<lambda>rec.
       thenM (write_rec g_rec (rec\<lparr>rec_regs := (rec_regs rec)[unat rt :=
         id_sysreg_value idregs (sve_en (ri_simd_cfg (rec_realm_info rec))) (esr AND ESR_EL2_SYSREG_MASK)]\<rparr>))
       (returnM (True, rec_exit))))"

definition handle_icc_el1_sysreg_trap :: "rmi_rec_exit \<Rightarrow> u64 \<Rightarrow> (rmm, bool \<times> rmi_rec_exit) M" where
  "handle_icc_el1_sysreg_trap rec_exit esr =
    (let sysreg = esr AND ESR_EL2_SYSREG_MASK in
     thenM (assertM (sysreg = ESR_EL2_SYSREG_ICC_DIR \<or> sysreg = ESR_EL2_SYSREG_ICC_SGI1R_EL1 \<or> sysreg = ESR_EL2_SYSREG_ICC_SGI0R_EL1))
     (thenM (assertM (ESR_EL2_SYSREG_IS_WRITE esr))
      (returnM (False, rec_exit\<lparr>ex_exit_reason := RMI_EXIT_SYNC, ex_esr := esr\<rparr>))))"

definition get_sysreg_write_value :: "rec_data \<Rightarrow> u64 \<Rightarrow> u64" where
  "get_sysreg_write_value rec esr =
    (let rt = ESR_EL2_SYSREG_ISS_RT esr in if rt = 31 then 0 else rec_regs rec ! unat rt)"

definition emulate_sysreg_access_ns :: "rec_data \<Rightarrow> rmi_rec_exit \<Rightarrow> u64 \<Rightarrow> rmi_rec_exit" where
  "emulate_sysreg_access_ns rec rec_exit esr =
    (if ESR_EL2_SYSREG_IS_WRITE esr then rec_exit\<lparr>ex_gprs := (ex_gprs rec_exit)[0 := get_sysreg_write_value rec esr]\<rparr> else rec_exit)"

text \<open>The table of handlers has the identification registers first and then the two kinds of GIC registers.\<close>

definition handle_sysreg_access_trap :: "(u64 \<Rightarrow> u64) \<Rightarrow> nat \<Rightarrow> rmi_rec_exit \<Rightarrow> u64 \<Rightarrow> (rmm, bool \<times> rmi_rec_exit) M" where
  "handle_sysreg_access_trap idregs g_rec rec_exit esr =
    thenM (assertM (esr AND MASK 25 1 \<noteq> 0))
    (let id_trap = esr AND ESR_EL2_SYSREG_ID_MASK = ESR_EL2_SYSREG_ID;
         icc_trap = esr AND ESR_EL2_SYSREG_ICC_EL1_MASK = ESR_EL2_SYSREG_ICC_EL1 \<or> esr AND ESR_EL2_SYSREG_MASK = ESR_EL2_SYSREG_ICC_PMR_EL1;
         rt = ESR_EL2_SYSREG_ISS_RT esr
     in if id_trap \<or> icc_trap then
          bindM (if id_trap then handle_id_sysreg_trap idregs g_rec rec_exit esr else handle_icc_el1_sysreg_trap rec_exit esr) (\<lambda>(handled, rec_exit).
          bindM (read_rec g_rec) (\<lambda>rec.
          returnM (handled, if handled then rec_exit else emulate_sysreg_access_ns rec rec_exit esr)))
        else
          bindM (read_rec g_rec) (\<lambda>rec.
          thenM (if \<not> ESR_EL2_SYSREG_IS_WRITE esr \<and> rt \<noteq> 31 then write_rec g_rec (rec\<lparr>rec_regs := (rec_regs rec)[unat rt := 0]\<rparr>) else returnM ())
          (returnM (True, rec_exit))))"

section \<open>Aborts\<close>

definition ipa_is_empty :: "u64 \<Rightarrow> nat \<Rightarrow> (rmm, bool) M" where
  "ipa_is_empty ipa g_rec =
    thenM (assertM (GRANULE_ALIGNED ipa))
    (bindM (read_rec g_rec) (\<lambda>rec.
     bindM (realm_ipa_to_pa rec ipa no_walk) (\<lambda>(walk_status, s2_walk).
     thenM (if walk_status = WALK_SUCCESS then bindM (derefM (sw_llt s2_walk)) granule_unlock else returnM ())
     (returnM (walk_status \<noteq> WALK_INVALID_PARAMS \<and> sw_ripas_val s2_walk = RIPAS_EMPTY)))))"

definition fsc_is_external_abort :: "u64 \<Rightarrow> bool" where
  "fsc_is_external_abort fsc \<longleftrightarrow>
    fsc = ESR_EL2_ABORT_FSC_SEA \<or> ESR_EL2_ABORT_FSC_SEA_TTW_START \<le> fsc \<and> fsc \<le> ESR_EL2_ABORT_FSC_SEA_TTW_END"

definition handle_sync_external_abort :: "rmi_rec_exit \<Rightarrow> u64 \<Rightarrow> (sys, bool \<times> rmi_rec_exit) M" where
  "handle_sync_external_abort rec_exit esr =
    (let fsc = esr AND ESR_EL2_ABORT_FSC; set1 = esr AND ESR_EL2_ABORT_SET
     in if \<not> fsc_is_external_abort fsc then returnM (False, rec_exit)
        else if set1 = ESR_EL2_ABORT_SET_UER then
          thenM (inject_sync_idabort ESR_EL2_ABORT_FSC_SEA)
          (returnM (True, rec_exit\<lparr>ex_esr := esr AND ESR_NONEMULATED_ABORT_MASK\<rparr>))
        else if set1 = ESR_EL2_ABORT_SET_UEO then returnM (True, rec_exit\<lparr>ex_esr := esr AND ESR_NONEMULATED_ABORT_MASK\<rparr>)
        else failM Assert_Fail)"

definition emulate_stage2_data_abort :: "rec_data \<Rightarrow> rmi_rec_exit \<Rightarrow> u64 \<Rightarrow> ('s, rmi_rec_exit) M" where
  "emulate_stage2_data_abort rec rec_exit rtt_level =
    thenM (assertM (rtt_level \<le> 3))
    (returnM (rec_exit\<lparr>ex_esr := ESR_EL2_EC_DATA_ABORT OR (ESR_EL2_ABORT_FSC_TRANSLATION_FAULT_L0 + rtt_level), ex_far := 0,
       ex_hpfar := drop_bit HPFAR_EL2_FIPA_OFFSET (rec_regs rec ! 1), ex_exit_reason := RMI_EXIT_SYNC\<rparr>))"

definition get_dabt_write_value :: "rec_data \<Rightarrow> u64 \<Rightarrow> u64" where
  "get_dabt_write_value rec esr =
    (let rt = esr_srt esr in if rt = 31 then 0 else rec_regs rec ! unat rt AND access_mask esr)"

text \<open>An abort of a realm that runs in AArch32 state loses its syndrome.\<close>

definition fixup_aarch32_data_abort :: "u64 \<Rightarrow> u64 \<Rightarrow> bool \<times> u64" where
  "fixup_aarch32_data_abort spsr esr =
    (if spsr AND SPSR_EL2_nRW_AARCH32 \<noteq> 0 then (True, esr AND NOT ESR_EL2_ABORT_ISV_BIT) else (False, esr))"

definition report_data_abort :: "rec_data \<Rightarrow> u64 \<Rightarrow> u64 \<Rightarrow> u64 \<Rightarrow> u64 \<Rightarrow> rmi_rec_exit \<Rightarrow> rmi_rec_exit" where
  "report_data_abort rec spsr far hpfar esr0 rec_exit =
    (let (aarch32, esr) = fixup_aarch32_data_abort spsr esr0
     in if aarch32 \<or> addr_in_rec_par rec (hpfar_fipa hpfar)
        then rec_exit\<lparr>ex_esr := esr AND ESR_NONEMULATED_ABORT_MASK, ex_far := 0, ex_hpfar := hpfar, ex_gprs := (ex_gprs rec_exit)[0 := 0]\<rparr>
        else rec_exit\<lparr>ex_esr := esr AND ESR_EMULATED_ABORT_MASK, ex_far := far AND (GRANULE_SIZE - 1), ex_hpfar := hpfar,
          ex_gprs := (ex_gprs rec_exit)[0 := if esr_is_write esr then get_dabt_write_value rec esr else 0]\<rparr>)"

definition handle_data_abort :: "nat \<Rightarrow> rmi_rec_exit \<Rightarrow> u64 \<Rightarrow> (sys, bool \<times> rmi_rec_exit) M" where
  "handle_data_abort g_rec rec_exit esr =
    bindM (readP hpfar_el2) (\<lambda>hpfar.
    (let fipa = hpfar_fipa hpfar in
     bindM (handle_sync_external_abort rec_exit esr) (\<lambda>(external, rec_exit).
     if external then returnM (False, rec_exit)
     else
       bindM (onR (read_rec g_rec)) (\<lambda>rec.
       bindM (if fipa \<ge> rec_ipa_size rec then returnM True else onR (ipa_is_empty fipa g_rec)) (\<lambda>empty.
       if empty then
         thenM (inject_sync_idabort ESR_EL2_ABORT_FSC_SEA)
         (returnM (True, rec_exit))
       else
         bindM (readP spsr_el2) (\<lambda>spsr.
         bindM (readP far_el2) (\<lambda>far.
         returnM (False, report_data_abort rec spsr far hpfar esr rec_exit))))))))"

definition handle_instruction_abort :: "nat \<Rightarrow> rmi_rec_exit \<Rightarrow> u64 \<Rightarrow> (sys, bool \<times> rmi_rec_exit) M" where
  "handle_instruction_abort g_rec rec_exit esr =
    bindM (readP hpfar_el2) (\<lambda>hpfar.
    (let fipa = hpfar_fipa hpfar; fsc_type = esr AND ESR_EL2_ABORT_FSC AND NOT (MASK 0 2) in
     bindM (handle_sync_external_abort rec_exit esr) (\<lambda>(external, rec_exit).
     if external then returnM (False, rec_exit)
     else
       bindM (onR (read_rec g_rec)) (\<lambda>rec.
       bindM (if fipa \<ge> rec_ipa_size rec \<or> \<not> addr_in_rec_par rec fipa then returnM True else onR (ipa_is_empty fipa g_rec)) (\<lambda>empty.
       if empty then
         thenM (inject_sync_idabort ESR_EL2_ABORT_FSC_SEA)
         (returnM (True, rec_exit))
       else if fsc_type \<noteq> ESR_EL2_ABORT_FSC_TRANSLATION_FAULT then returnM (False, rec_exit)
       else returnM (False, rec_exit\<lparr>ex_hpfar := hpfar, ex_esr := esr AND ESR_NONEMULATED_ABORT_MASK\<rparr>))))))"

section \<open>SIMD registers\<close>

text \<open>The context of the host on this processor, or the context in an auxiliary granule of an execution context.\<close>

datatype simd_ref = Ns_Simd | Rec_Simd nat

definition read_simd :: "simd_ref \<Rightarrow> (sys, simd_context) M" where
  "read_simd r = (case r of Ns_Simd \<Rightarrow> readP ns_simd_ctx | Rec_Simd g \<Rightarrow> onR (getM (\<lambda>s. d_simd (mem s g))))"

definition write_simd :: "simd_ref \<Rightarrow> simd_context \<Rightarrow> (sys, unit) M" where
  "write_simd r ctx =
    (case r of Ns_Simd \<Rightarrow> writeP (\<lambda>p. p\<lparr>ns_simd_ctx := ctx\<rparr>) | Rec_Simd g \<Rightarrow> onR (modifyM (upd_mem g (\<lambda>d. d\<lparr>d_simd := ctx\<rparr>))))"

definition simd_context_save :: "simd_ref \<Rightarrow> (sys, unit) M" where
  "simd_context_save r =
    bindM (read_simd r) (\<lambda>ctx.
    bindM (readP simd_state_saved) (\<lambda>saved.
    thenM (assertM (simd_sflags ctx AND SIMD_SFLAG_INIT_DONE \<noteq> 0))
    (thenM (assertM (simd_sflags ctx AND SIMD_SFLAG_SAVED = 0))
    (thenM (assertM (\<not> saved))
    (thenM (write_simd r (ctx\<lparr>simd_sflags := simd_sflags ctx OR SIMD_SFLAG_SAVED\<rparr>))
     (writeP (\<lambda>p. p\<lparr>simd_state_saved := True\<rparr>)))))))"

definition simd_context_restore :: "simd_ref \<Rightarrow> (sys, unit) M" where
  "simd_context_restore r =
    bindM (read_simd r) (\<lambda>ctx.
    bindM (readP simd_state_saved) (\<lambda>saved.
    thenM (assertM (simd_sflags ctx AND SIMD_SFLAG_INIT_DONE \<noteq> 0))
    (thenM (assertM (simd_sflags ctx AND SIMD_SFLAG_SAVED \<noteq> 0))
    (thenM (assertM saved)
    (thenM (write_simd r (ctx\<lparr>simd_sflags := simd_sflags ctx AND NOT SIMD_SFLAG_SAVED\<rparr>))
     (writeP (\<lambda>p. p\<lparr>simd_state_saved := False\<rparr>)))))))"

definition simd_context_switch :: "simd_ref \<Rightarrow> simd_ref \<Rightarrow> (sys, unit) M" where
  "simd_context_switch ctx_save ctx_restore = thenM (simd_context_save ctx_save) (simd_context_restore ctx_restore)"

text \<open>The context of an execution context is in the auxiliary granule after the heap and the PMU state.\<close>

definition rec_simd_ref :: "nat \<Rightarrow> (sys, simd_ref) M" where
  "rec_simd_ref g_rec =
    onR (bindM (read_rec g_rec) (\<lambda>rec.
         bindM (g_aux_of rec) (\<lambda>gs.
         if REC_HEAP_PAGES + REC_PMU_PAGES < length gs then returnM (Rec_Simd (gs ! (REC_HEAP_PAGES + REC_PMU_PAGES)))
         else failM Out_Of_Bounds)))"

definition active_simd :: "nat \<Rightarrow> (sys, simd_ref) M" where
  "active_simd g_rec = bindM (readP rec_simd_active) (\<lambda>active. if active then rec_simd_ref g_rec else returnM Ns_Simd)"

definition handle_simd_exception :: "nat \<Rightarrow> u64 \<Rightarrow> (sys, bool) M" where
  "handle_simd_exception g_rec esr =
    bindM (onR (read_rec g_rec)) (\<lambda>rec.
    bindM (readP rec_simd_active) (\<lambda>active.
    (let ec = esr AND ESR_EL2_EC; sve = sve_en (ri_simd_cfg (rec_realm_info rec))
     in if ec = ESR_EL2_EC_SVE \<and> \<not> sve \<or> ec = ESR_EL2_EC_SME \<and> (\<not> sve \<or> active)
        then thenM realm_inject_undef_abort (returnM True)
        else
          thenM (assertM (\<not> active))
          (bindM (rec_simd_ref g_rec) (\<lambda>ref.
           thenM (simd_context_switch Ns_Simd ref)
           (thenM (writeP (\<lambda>p. p\<lparr>rec_simd_active := True\<rparr>))
           (thenM (upd_rec g_rec (\<lambda>rec. rec\<lparr>rec_sysregs := (rec_sysregs rec)\<lparr>sys_cptr_el2 :=
               SIMD_ENABLE_CPTR_FLAGS (ri_simd_cfg (rec_realm_info rec)) (sys_cptr_el2 (rec_sysregs rec))\<rparr>\<rparr>))
            (returnM True))))))))"

section \<open>Calls of the realm\<close>

definition SMC64_RSI_FID :: "u32 \<Rightarrow> u32" where "SMC64_RSI_FID offset = SMC64_STD_FID (0x190 + offset)"
definition SMC_SVE_HINT :: u32 where "SMC_SVE_HINT = push_bit 16 1"
definition SMC_UNKNOWN :: u64 where "SMC_UNKNOWN = - 1"
definition SMCCC_VERSION_NUMBER :: u64 where "SMCCC_VERSION_NUMBER = push_bit 16 1 OR 2"

text \<open>Attestation tokens are made by third-party code: the two handlers are a parameter.\<close>

type_synonym rsi_handler = "nat \<Rightarrow> rmi_rec_exit \<Rightarrow> rsi_result \<Rightarrow> (rmm, rmi_rec_exit \<times> rsi_result) M"

definition keep_exit :: "rmi_rec_exit \<Rightarrow> (rmm, rsi_result) M \<Rightarrow> (rmm, rmi_rec_exit \<times> rsi_result) M" where
  "keep_exit rec_exit m = bindM m (\<lambda>res. returnM (rec_exit, res))"

definition rsi_dispatch :: "(hash_algo \<Rightarrow> u8 list \<Rightarrow> u8 list) \<Rightarrow> rsi_handler \<Rightarrow> rsi_handler \<Rightarrow> u32 \<Rightarrow> rsi_handler" where
  "rsi_dispatch hash token_init token_continue function_id g_rec rec_exit res =
    bindM (read_rec g_rec) (\<lambda>rec.
    if function_id = SMCCC_VERSION then
      returnM (rec_exit, set_x 0 SMCCC_VERSION_NUMBER (set_action UPDATE_REC_RETURN_TO_REALM res))
    else if SMC32_PSCI_FID 0 \<le> function_id \<and> function_id \<le> SMC32_PSCI_FID 0x14 \<or>
            SMC64_PSCI_FID 0 \<le> function_id \<and> function_id \<le> SMC64_PSCI_FID 0x14 then handle_psci g_rec rec_exit res
    else if function_id = SMC64_RSI_FID 0x0 then returnM (rec_exit, handle_rsi_version rec res)
    else if function_id = SMC64_RSI_FID 0x1 then returnM (rec_exit, handle_rsi_features rec res)
    else if function_id = SMC64_RSI_FID 0x4 then token_init g_rec rec_exit res
    else if function_id = SMC64_RSI_FID 0x5 then token_continue g_rec rec_exit res
    else if function_id = SMC64_RSI_FID 0x2 then keep_exit rec_exit (handle_rsi_measurement_read g_rec res)
    else if function_id = SMC64_RSI_FID 0x3 then keep_exit rec_exit (handle_rsi_measurement_extend hash g_rec res)
    else if function_id = SMC64_RSI_FID 0x6 then keep_exit rec_exit (handle_rsi_realm_config g_rec res)
    else if function_id = SMC64_RSI_FID 0x7 then handle_rsi_ipa_state_set g_rec rec_exit res
    else if function_id = SMC64_RSI_FID 0x8 then keep_exit rec_exit (handle_rsi_ipa_state_get g_rec res)
    else if function_id = SMC64_RSI_FID 0x9 then handle_rsi_host_call g_rec rec_exit res
    else if function_id = SMC64_RSI_FID 0xa then handle_rsi_csm_create g_rec rec_exit res
    else if function_id = SMC64_RSI_FID 0xb then keep_exit rec_exit (handle_rsi_csm_share g_rec res)
    else if function_id = SMC64_RSI_FID 0xc then handle_rsi_csm_reserve g_rec rec_exit res
    else if function_id = SMC64_RSI_FID 0xd then keep_exit rec_exit (handle_rsi_csm_attach g_rec res)
    else if function_id = SMC64_RSI_FID 0xe then handle_rsi_csm_detach_and_free g_rec rec_exit res
    else if function_id = SMC64_RSI_FID 0xf then keep_exit rec_exit (handle_rsi_csm_revoke g_rec res)
    else if function_id = SMC64_RSI_FID 0x10 then handle_rsi_csm_destroy g_rec rec_exit res
    else returnM (rec_exit, set_x 0 SMC_UNKNOWN (set_action UPDATE_REC_RETURN_TO_REALM res)))"

text \<open>The build uses the FPU for hashing: these calls save the live SIMD context around the handler.\<close>

definition rsi_handler_needs_fpu :: "u32 \<Rightarrow> bool" where
  "rsi_handler_needs_fpu fid \<longleftrightarrow> fid = SMC64_RSI_FID 0x5 \<or> fid = SMC64_RSI_FID 0x3"

definition advance_pc :: "(sys, unit) M" where
  "advance_pc = writeP (\<lambda>p. p\<lparr>elr_el2 := elr_el2 p + 4\<rparr>)"

definition handle_realm_rsi ::
  "(hash_algo \<Rightarrow> u8 list \<Rightarrow> u8 list) \<Rightarrow> rsi_handler \<Rightarrow> rsi_handler \<Rightarrow> nat \<Rightarrow> rmi_rec_exit \<Rightarrow> (sys, bool \<times> rmi_rec_exit) M" where
  "handle_realm_rsi hash token_init token_continue g_rec rec_exit =
    bindM (onR (read_rec g_rec)) (\<lambda>rec.
    (let function_id = ucast (rec_regs rec ! 0) AND NOT SMC_SVE_HINT;
         res0 = \<lparr>rsi_action = 0, rsi_rtt_level = 0, rsi_smc_res = (\<lambda>i. if i = 4 then rec_regs rec ! 4 else 0)\<rparr>;
         fpu = rsi_handler_needs_fpu function_id
     in bindM (if fpu then bindM (active_simd g_rec) (\<lambda>ctx. thenM (simd_context_save ctx) (returnM (Some ctx))) else returnM None) (\<lambda>ctx.
       (bindM (onR (rsi_dispatch hash token_init token_continue function_id g_rec rec_exit res0)) (\<lambda>(rec_exit, res).
        thenM (case ctx of None \<Rightarrow> returnM () | Some c \<Rightarrow> simd_context_restore c)
        (thenM (if rsi_action res AND FLAG_UPDATE_REC \<noteq> 0
                then upd_rec g_rec (\<lambda>rec. rec\<lparr>rec_regs := overwrite 0 (map (rsi_smc_res res) [0..<SMC_RESULT_REGS]) (rec_regs rec)\<rparr>)
                else returnM ())
        (bindM (if rsi_action res AND FLAG_STAGE_2_ABORT \<noteq> 0
                then bindM (onR (read_rec g_rec)) (\<lambda>rec. emulate_stage2_data_abort rec rec_exit (rsi_rtt_level res))
                else thenM advance_pc (returnM rec_exit)) (\<lambda>rec_exit.
         returnM (rsi_action res AND FLAG_EXIT_TO_HOST = 0, rec_exit)))))))))"

section \<open>Exceptions\<close>

definition handle_exception_sync ::
  "(hash_algo \<Rightarrow> u8 list \<Rightarrow> u8 list) \<Rightarrow> rsi_handler \<Rightarrow> rsi_handler \<Rightarrow> (u64 \<Rightarrow> u64) \<Rightarrow> nat \<Rightarrow> rmi_rec_exit \<Rightarrow> (sys, bool \<times> rmi_rec_exit) M" where
  "handle_exception_sync hash token_init token_continue idregs g_rec rec_exit =
    bindM (readP esr_el2) (\<lambda>esr.
    (let ec = esr AND ESR_EL2_EC
     in if ec = ESR_EL2_EC_WFX then
          thenM advance_pc
          (returnM (False, rec_exit\<lparr>ex_esr := esr AND (ESR_EL2_EC OR ESR_EL2_WFx_TI_BIT)\<rparr>))
        else if ec = ESR_EL2_EC_HVC then thenM realm_inject_undef_abort (returnM (True, rec_exit))
        else if ec = ESR_EL2_EC_SMC then handle_realm_rsi hash token_init token_continue g_rec rec_exit
        else if ec = ESR_EL2_EC_SYSREG then
          bindM (onR (handle_sysreg_access_trap idregs g_rec rec_exit esr)) (\<lambda>result.
          thenM advance_pc
          (returnM result))
        else if ec = ESR_EL2_EC_INST_ABORT then handle_instruction_abort g_rec rec_exit esr
        else if ec = ESR_EL2_EC_DATA_ABORT then handle_data_abort g_rec rec_exit esr
        else if ec = ESR_EL2_EC_FPU \<or> ec = ESR_EL2_EC_SVE \<or> ec = ESR_EL2_EC_SME then
          bindM (handle_simd_exception g_rec esr) (\<lambda>ret. returnM (ret, rec_exit))
        else returnM (False, rec_exit)))"

definition inject_serror :: "nat \<Rightarrow> u64 \<Rightarrow> (sys, unit) M" where
  "inject_serror g_rec vsesr = upd_rec g_rec (\<lambda>rec. rec\<lparr>rec_serror := \<lparr>se_vsesr_el2 = vsesr, se_inject = True\<rparr>\<rparr>)"

definition handle_exception_serror_lel :: "nat \<Rightarrow> rmi_rec_exit \<Rightarrow> (sys, bool \<times> rmi_rec_exit) M" where
  "handle_exception_serror_lel g_rec rec_exit =
    bindM (readP esr_el2) (\<lambda>esr.
    thenM (assertM (esr AND ESR_EL2_SERROR_IDS_BIT = 0))
    (thenM (assertM (esr AND MASK 0 6 = ESR_EL2_SERROR_DFSC_ASYNC))
    (let aet = esr AND MASK 10 3; reported = returnM (False, rec_exit\<lparr>ex_esr := esr AND ESR_SERROR_MASK\<rparr>)
     in if aet = ESR_EL2_SERROR_AET_UEU \<or> aet = ESR_EL2_SERROR_AET_UER then thenM (inject_serror g_rec esr) reported
        else if aet = ESR_EL2_SERROR_AET_CE \<or> aet = ESR_EL2_SERROR_AET_UEO then reported
        else failM Assert_Fail)))"

definition handle_exception_irq_lel :: "rmi_rec_exit \<Rightarrow> bool \<times> rmi_rec_exit" where
  "handle_exception_irq_lel rec_exit = (False, rec_exit\<lparr>ex_exit_reason := RMI_EXIT_IRQ\<rparr>)"

definition ARM_EXCEPTION_SYNC_LEL :: int where "ARM_EXCEPTION_SYNC_LEL = 0"
definition ARM_EXCEPTION_IRQ_LEL :: int where "ARM_EXCEPTION_IRQ_LEL = 1"
definition ARM_EXCEPTION_FIQ_LEL :: int where "ARM_EXCEPTION_FIQ_LEL = 2"
definition ARM_EXCEPTION_SERROR_LEL :: int where "ARM_EXCEPTION_SERROR_LEL = 3"

text \<open>The syndrome is kept for the next entry; a syndrome that was not shown to the host is not valid for emulation.\<close>

definition keep_syndrome :: "nat \<Rightarrow> u64 \<Rightarrow> (sys, unit) M" where
  "keep_syndrome g_rec esr =
    bindM (readP (\<lambda>p. p)) (\<lambda>p.
    upd_rec g_rec (\<lambda>rec. rec\<lparr>rec_last_run := \<lparr>run_esr = esr, run_hpfar = hpfar_el2 p, run_far = far_el2 p\<rparr>\<rparr>))"

definition handle_realm_exit ::
  "(hash_algo \<Rightarrow> u8 list \<Rightarrow> u8 list) \<Rightarrow> rsi_handler \<Rightarrow> rsi_handler \<Rightarrow> (u64 \<Rightarrow> u64) \<Rightarrow> nat \<Rightarrow> rmi_rec_exit \<Rightarrow> int \<Rightarrow> (sys, bool \<times> rmi_rec_exit) M" where
  "handle_realm_exit hash token_init token_continue idregs g_rec rec_exit exception =
    (if exception = ARM_EXCEPTION_SYNC_LEL then
       bindM (handle_exception_sync hash token_init token_continue idregs g_rec (rec_exit\<lparr>ex_exit_reason := RMI_EXIT_SYNC\<rparr>)) (\<lambda>(ret, rec_exit).
       thenM (if ret then returnM ()
              else bindM (readP esr_el2) (\<lambda>esr.
                keep_syndrome g_rec (if ex_esr rec_exit AND ESR_EL2_ABORT_ISV_BIT = 0 then esr AND NOT ESR_EL2_ABORT_ISV_BIT else esr)))
       (returnM (ret, rec_exit)))
     else if exception = ARM_EXCEPTION_IRQ_LEL then returnM (handle_exception_irq_lel rec_exit)
     else if exception = ARM_EXCEPTION_FIQ_LEL then returnM (False, rec_exit\<lparr>ex_exit_reason := RMI_EXIT_FIQ\<rparr>)
     else if exception = ARM_EXCEPTION_SERROR_LEL then
       bindM (readP esr_el2) (\<lambda>esr.
       bindM (handle_exception_serror_lel g_rec (rec_exit\<lparr>ex_exit_reason := RMI_EXIT_SERROR\<rparr>)) (\<lambda>(ret, rec_exit).
       thenM (if ret then returnM () else keep_syndrome g_rec esr)
       (returnM (ret, rec_exit))))
     else returnM (False, rec_exit))"

end
