(* ===== verification/Rec_Enter.thy ===== *)
theory Rec_Enter
  imports Exit
begin

text \<open>
  Entering a realm: the run loop (\<^verbatim>\<open>runtime/core/run.c\<close>), the timers (\<^verbatim>\<open>timers.c\<close>) and RMI\_REC\_ENTER (\<^verbatim>\<open>runtime/rmi/run.c\<close>). The
  execution of the realm itself is the parameter \<open>run_realm\<close>: any change of the processor and of the memory, and the kind of
  exception that ends it. The loop may go on for ever: it has a bound on its iterations, and the result is nothing when the bound is
  reached. The state of the PMU and the heap for attestation are not modelled; the pointers of an execution context to the state of the
  host and to the active SIMD context are part of the processor, since they are only set while it runs.
\<close>

section \<open>Saving and restoring registers\<close>

definition save_sysreg_state :: "sysreg_state \<Rightarrow> sysreg_state \<Rightarrow> sysreg_state" where
  "save_sysreg_state regs sysregs =
    regs\<lparr>sys_zcr_el1 := sys_zcr_el1 sysregs, sys_mpam0_el1 := sys_mpam0_el1 sysregs, sys_cnthctl_el2 := sys_cnthctl_el2 sysregs,
      sys_gicstate := sys_gicstate sysregs, sys_vmpidr_el2 := sys_vmpidr_el2 sysregs, sys_hcr_el2 := sys_hcr_el2 sysregs,
      sys_cptr_el2 := sys_cptr_el2 sysregs\<rparr>"

definition restore_sysreg_state :: "sysreg_state \<Rightarrow> sysreg_state \<Rightarrow> sysreg_state" where
  "restore_sysreg_state sysregs regs =
    sysregs\<lparr>sys_zcr_el1 := sys_zcr_el1 regs, sys_mpam0_el1 := sys_mpam0_el1 regs, sys_cnthctl_el2 := sys_cnthctl_el2 regs,
      sys_gicstate := sys_gicstate regs, sys_hcr_el2 := sys_hcr_el2 regs, sys_cptr_el2 := sys_cptr_el2 regs\<rparr>"

record ns_state =
  ns_sysregs :: sysreg_state
  ns_icc_sre_el2 :: u64

text \<open>What the host keeps while a realm runs, and the realm's registers from its execution context.\<close>

definition save_ns_state :: "ns_state \<Rightarrow> pe \<Rightarrow> ns_state" where
  "save_ns_state ns p =
    \<lparr>ns_sysregs = (save_sysreg_state (live p) (ns_sysregs ns))\<lparr>sys_cnthctl_el2 := sys_cnthctl_el2 (live p)\<rparr>, ns_icc_sre_el2 = icc_sre_el2 p\<rparr>"

definition restore_ns_state :: "ns_state \<Rightarrow> pe \<Rightarrow> pe" where
  "restore_ns_state ns p =
    p\<lparr>live := (restore_sysreg_state (ns_sysregs ns) (live p))\<lparr>sys_cnthctl_el2 := sys_cnthctl_el2 (ns_sysregs ns)\<rparr>,
      icc_sre_el2 := ns_icc_sre_el2 ns\<rparr>"

definition restore_realm_state :: "gic_virt_feature_s \<Rightarrow> rec_data \<Rightarrow> pe \<Rightarrow> pe" where
  "restore_realm_state feat rec p =
    (let regs = restore_sysreg_state (rec_sysregs rec) ((live p)\<lparr>sys_cnthctl_el2 := sys_cnthctl_el2 (rec_sysregs rec)\<rparr>)
     in p\<lparr>live := regs\<lparr>sys_hcr_el2 := sys_hcr_el2 (rec_sysregs rec),
              sys_gicstate := gic_restore_state feat (sys_gicstate (rec_sysregs rec)) (sys_gicstate regs)\<rparr>,
          elr_el2 := rec_pc rec, spsr_el2 := rec_pstate rec, mdcr_el2_live := com_mdcr_el2 (rec_common_sysregs rec),
          vtcr_el2 := com_vtcr_el2 (rec_common_sysregs rec), vttbr_el2 := com_vttbr_el2 (rec_common_sysregs rec)\<rparr>)"

definition save_realm_state :: "gic_virt_feature_s \<Rightarrow> rec_data \<Rightarrow> pe \<Rightarrow> rec_data \<times> pe" where
  "save_realm_state feat rec p =
    (let (gicstate, gic_live) = gic_save_state feat (sys_gicstate (rec_sysregs rec)) (sys_gicstate (live p))
     in (rec\<lparr>rec_sysregs := (save_sysreg_state (live p) (rec_sysregs rec))\<lparr>sys_gicstate := gicstate\<rparr>, rec_pc := elr_el2 p,
           rec_pstate := spsr_el2 p\<rparr>,
         p\<lparr>live := (live p)\<lparr>sys_gicstate := gic_live\<rparr>\<rparr>))"

section \<open>Timers\<close>

definition CNTHCTL_EL2_CNTVMASK :: u64 where "CNTHCTL_EL2_CNTVMASK = BIT64 18"
definition CNTHCTL_EL2_CNTPMASK :: u64 where "CNTHCTL_EL2_CNTPMASK = BIT64 19"

definition TIMER_ASSERTED :: "u64 \<Rightarrow> bool" where
  "TIMER_ASSERTED reg \<longleftrightarrow> reg AND (BIT64 0 OR BIT64 2 OR BIT64 1) = BIT64 0 OR BIT64 2"

text \<open>The loop that waits until the interrupt controller has retired a masked timer interrupt has no effect on the state.\<close>

definition check_pending_timers :: "nat \<Rightarrow> (sys, bool) M" where
  "check_pending_timers g_rec =
    bindM (readP live) (\<lambda>regs.
    bindM (onR (read_rec g_rec)) (\<lambda>rec.
    (let cntv_ctl = sys_cntv_ctl_el0 regs; cntp_ctl = sys_cntp_ctl_el0 regs; old = rec_sysregs rec;
         c1 = (if TIMER_ASSERTED cntv_ctl then sys_cnthctl_el2 old OR CNTHCTL_EL2_CNTVMASK else sys_cnthctl_el2 old AND NOT CNTHCTL_EL2_CNTVMASK);
         c2 = (if TIMER_ASSERTED cntp_ctl then c1 OR CNTHCTL_EL2_CNTPMASK else c1 AND NOT CNTHCTL_EL2_CNTPMASK)
     in thenM (upd_rec g_rec (\<lambda>rec. rec\<lparr>rec_sysregs := (rec_sysregs rec)\<lparr>sys_cnthctl_el2 := c2\<rparr>\<rparr>))
       (thenM (if sys_cnthctl_el2 old \<noteq> c2 then writeP (\<lambda>p. p\<lparr>live := (live p)\<lparr>sys_cnthctl_el2 := c2\<rparr>\<rparr>) else returnM ())
        (returnM (TIMER_ASSERTED cntv_ctl \<noteq> TIMER_ASSERTED (sys_cntv_ctl_el0 old) \<or>
           TIMER_ASSERTED cntp_ctl \<noteq> TIMER_ASSERTED (sys_cntp_ctl_el0 old)))))))"

definition report_timer_state_to_ns :: "sysreg_state \<Rightarrow> rmi_rec_exit \<Rightarrow> rmi_rec_exit" where
  "report_timer_state_to_ns regs rec_exit =
    rec_exit\<lparr>ex_cntv_ctl := sys_cntv_ctl_el0 regs, ex_cntv_cval := sys_cntv_cval_el0 regs - sys_cntvoff_el2 regs,
      ex_cntp_ctl := sys_cntp_ctl_el0 regs, ex_cntp_cval := sys_cntp_cval_el0 regs - sys_cntpoff_el2 regs\<rparr>"

section \<open>The run loop\<close>

definition HCR_VSE :: u64 where "HCR_VSE = BIT64 8"

definition activate_events :: "nat \<Rightarrow> (sys, unit) M" where
  "activate_events g_rec =
    bindM (onR (read_rec g_rec)) (\<lambda>rec.
    if se_inject (rec_serror rec) then
      thenM (writeP (\<lambda>p. p\<lparr>vsesr_el2 := se_vsesr_el2 (rec_serror rec),
         live := (live p)\<lparr>sys_hcr_el2 := sys_hcr_el2 (rec_sysregs rec) OR HCR_VSE\<rparr>\<rparr>))
      (upd_rec g_rec (\<lambda>rec. rec\<lparr>rec_serror := (rec_serror rec)\<lparr>se_inject := False\<rparr>\<rparr>))
    else returnM ())"

definition SIMD_DISABLE_ALL_CPTR_FLAGS :: "u64 \<Rightarrow> u64" where
  "SIMD_DISABLE_ALL_CPTR_FLAGS cptr = (cptr AND NOT CPTR_EL2_VHE_SIMD_MASK) OR (INPLACE 20 0 OR INPLACE 16 0 OR INPLACE 24 0)"

text \<open>The parameters of the loop: what the platform and the third-party code do.\<close>

record run_env =
  env_hash :: "hash_algo \<Rightarrow> u8 list \<Rightarrow> u8 list"
  env_token_init :: rsi_handler
  env_token_continue :: rsi_handler
  env_idregs :: "u64 \<Rightarrow> u64"
  env_gic :: gic_virt_feature_s
  env_run_realm :: "nat \<Rightarrow> (sys, int) M"

text \<open>One iteration up to the exit from the realm; nothing when a timer changed its output and the realm is not entered.\<close>

definition run_once :: "run_env \<Rightarrow> nat \<Rightarrow> (sys, int option) M" where
  "run_once env g_rec =
    bindM (readP cptr_el2) (\<lambda>rmm_cptr_el2.
    bindM (check_pending_timers g_rec) (\<lambda>pending.
    if pending then returnM None
    else
      thenM (activate_events g_rec)
      (bindM (onR (read_rec g_rec)) (\<lambda>rec.
       thenM (if rmm_cptr_el2 \<noteq> sys_cptr_el2 (rec_sysregs rec) then writeP (\<lambda>p. p\<lparr>cptr_el2 := sys_cptr_el2 (rec_sysregs rec)\<rparr>) else returnM ())
       (bindM (env_run_realm env g_rec) (\<lambda>exception.
        bindM (onR (read_rec g_rec)) (\<lambda>rec'.
        thenM (if rmm_cptr_el2 \<noteq> sys_cptr_el2 (rec_sysregs rec') then writeP (\<lambda>p. p\<lparr>cptr_el2 := rmm_cptr_el2\<rparr>) else returnM ())
        (returnM (Some exception)))))))))"

fun run_loop :: "run_env \<Rightarrow> nat \<Rightarrow> nat \<Rightarrow> rmi_rec_exit \<Rightarrow> (sys, rmi_rec_exit option) M" where
  "run_loop env 0 g_rec rec_exit = returnM None"
| "run_loop env (Suc n) g_rec rec_exit =
    bindM (run_once env g_rec) (\<lambda>exited.
    (case exited of
       None \<Rightarrow> returnM (Some (rec_exit\<lparr>ex_exit_reason := RMI_EXIT_IRQ\<rparr>))
     | Some exception \<Rightarrow>
         bindM (handle_realm_exit (env_hash env) (env_token_init env) (env_token_continue env) (env_idregs env) g_rec rec_exit exception)
           (\<lambda>(again, rec_exit).
         if again then run_loop env n g_rec rec_exit else returnM (Some rec_exit))))"

definition leave_realm :: "run_env \<Rightarrow> ns_state \<Rightarrow> nat \<Rightarrow> nat \<Rightarrow> rmi_rec_exit \<Rightarrow> (sys, rmi_rec_exit) M" where
  "leave_realm env ns n_aux g_rec rec_exit =
    bindM (readP rec_simd_active) (\<lambda>active.
    thenM (if active then
        bindM (rec_simd_ref g_rec) (\<lambda>ref.
        thenM (simd_context_switch ref Ns_Simd)
        (upd_rec g_rec (\<lambda>rec. rec\<lparr>rec_sysregs := (rec_sysregs rec)\<lparr>sys_cptr_el2 := SIMD_DISABLE_ALL_CPTR_FLAGS (sys_cptr_el2 (rec_sysregs rec))\<rparr>\<rparr>)))
      else returnM ())
    (thenM (writeP (\<lambda>p. p\<lparr>rec_simd_active := False\<rparr>))
    (bindM (readP (\<lambda>p. p)) (\<lambda>p.
     bindM (onR (read_rec g_rec)) (\<lambda>rec.
     (let (rec', p') = save_realm_state (env_gic env) rec p in
      thenM (onR (write_rec g_rec rec'))
      (thenM (writeP (\<lambda>_. restore_ns_state ns p'))
      (thenM (onR (buffer_aux_unmap n_aux))
       (returnM (report_timer_state_to_ns (live p) rec_exit)))))))))) "

definition rec_run_loop :: "run_env \<Rightarrow> nat \<Rightarrow> nat \<Rightarrow> rmi_rec_exit \<Rightarrow> (sys, rmi_rec_exit option) M" where
  "rec_run_loop env fuel g_rec rec_exit =
    bindM (onR (read_rec g_rec)) (\<lambda>rec.
    bindM (onR (g_aux_of rec)) (\<lambda>aux.
    thenM (onR (buffer_aux_granules_map aux))
    (bindM (readP (\<lambda>p. p)) (\<lambda>p.
     (let ns = save_ns_state \<lparr>ns_sysregs = zero_sysregs, ns_icc_sre_el2 = 0\<rparr> p in
      thenM (writeP (restore_realm_state (env_gic env) rec))
      (thenM (writeP (\<lambda>p. p\<lparr>rec_simd_active := False\<rparr>))
      (bindM (run_loop env fuel g_rec rec_exit) (\<lambda>result.
       (case result of
          None \<Rightarrow> returnM None
        | Some rec_exit \<Rightarrow>
            bindM (leave_realm env ns (unat (rec_num_aux rec)) g_rec rec_exit) (\<lambda>rec_exit.
            returnM (Some rec_exit)))))))))))"

section \<open>Completion of the requests of the realm\<close>

definition REC_ENTRY_FLAG_EMUL_MMIO :: u64 where "REC_ENTRY_FLAG_EMUL_MMIO = BIT64 0"
definition REC_ENTRY_FLAG_INJECT_SEA :: u64 where "REC_ENTRY_FLAG_INJECT_SEA = BIT64 1"
definition REC_ENTRY_FLAG_TRAP_WFI :: u64 where "REC_ENTRY_FLAG_TRAP_WFI = BIT64 2"
definition REC_ENTRY_FLAG_TRAP_WFE :: u64 where "REC_ENTRY_FLAG_TRAP_WFE = BIT64 3"
definition REC_ENTRY_FLAG_RIPAS_RESPONSE :: u64 where "REC_ENTRY_FLAG_RIPAS_RESPONSE = BIT64 4"
definition RSI_ACCEPT :: u64 where "RSI_ACCEPT = 0"
definition RSI_REJECT :: u64 where "RSI_REJECT = 1"

definition reset_last_run_info :: "rec_data \<Rightarrow> rec_data" where
  "reset_last_run_info rec = rec\<lparr>rec_last_run := (rec_last_run rec)\<lparr>run_esr := 0\<rparr>\<rparr>"

text \<open>The value that an emulated read gives to the register.\<close>

definition mmio_read_value :: "u64 \<Rightarrow> u64 \<Rightarrow> u64" where
  "mmio_read_value esr v =
    (let val = v AND access_mask esr; mask1 = push_bit (access_len esr * 8 - 1) 1
     in if esr_sign_extend esr
        then (let val' = (val XOR mask1) - mask1 in if \<not> esr_sixty_four esr then val' AND (push_bit 32 1 - 1) else val')
        else val)"

definition complete_mmio_emulation :: "rmi_rec_enter \<Rightarrow> rec_data \<Rightarrow> rec_data option" where
  "complete_mmio_emulation rec_enter rec =
    (let esr = run_esr (rec_last_run rec); rt = esr_srt esr
     in if en_flags rec_enter AND REC_ENTRY_FLAG_EMUL_MMIO = 0 then Some rec
        else if en_flags rec_enter AND REC_ENTRY_FLAG_INJECT_SEA \<noteq> 0 then Some rec
        else if esr AND ESR_EL2_EC \<noteq> ESR_EL2_EC_DATA_ABORT \<or> esr AND ESR_EL2_ABORT_ISV_BIT = 0 then None
        else Some (rec\<lparr>rec_regs := (if \<not> esr_is_write esr \<and> rt \<noteq> 31
               then (rec_regs rec)[unat rt := mmio_read_value esr (en_gprs rec_enter ! 0)] else rec_regs rec), rec_pc := rec_pc rec + 4\<rparr>))"

definition complete_set_ripas :: "rec_data \<Rightarrow> rec_data" where
  "complete_set_ripas rec =
    (let sr = rec_set_ripas rec
     in if sr_base sr = sr_top sr then rec
        else rec\<lparr>rec_regs := (rec_regs rec)[0 := RSI_SUCCESS, 1 := sr_addr sr,
               2 := if sr_ripas_val sr = RIPAS_RAM \<and> sr_addr sr \<noteq> sr_top sr \<and> sr_response sr = REJECT then RSI_REJECT else RSI_ACCEPT],
             rec_set_ripas := sr\<lparr>sr_base := 0, sr_top := 0\<rparr>\<rparr>)"

definition complete_sea_insertion :: "rmi_rec_enter \<Rightarrow> nat \<Rightarrow> (rmm, bool) M" where
  "complete_sea_insertion rec_enter g_rec =
    bindM (read_rec g_rec) (\<lambda>rec.
    (let esr = run_esr (rec_last_run rec)
     in if en_flags rec_enter AND REC_ENTRY_FLAG_INJECT_SEA = 0 then returnM True
        else if esr AND ESR_EL2_EC \<noteq> ESR_EL2_EC_DATA_ABORT then returnM False
        else if addr_in_rec_par rec (hpfar_fipa (run_hpfar (rec_last_run rec))) then returnM False
        else thenM (inject_sync_idabort_rec g_rec ESR_EL2_ABORT_FSC_SEA) (returnM True)))"

definition complete_sysreg_emulation :: "rmi_rec_enter \<Rightarrow> rec_data \<Rightarrow> rec_data" where
  "complete_sysreg_emulation rec_enter rec =
    (let esr = run_esr (rec_last_run rec); rt = ESR_EL2_SYSREG_ISS_RT esr
     in if esr AND ESR_EL2_EC \<noteq> ESR_EL2_EC_SYSREG then rec
        else if ESR_EL2_SYSREG_IS_WRITE esr then rec
        else if rt \<noteq> 31 then rec\<lparr>rec_regs := (rec_regs rec)[unat rt := en_gprs rec_enter ! 0]\<rparr> else rec)"

text \<open>The exit structure when the host call cannot be completed because the page is not mapped.\<close>

definition complete_host_call :: "rmi_rec_enter \<Rightarrow> nat \<Rightarrow> rmi_rec_exit \<Rightarrow> (rmm, rmi_rec_exit option) M" where
  "complete_host_call rec_enter g_rec rec_exit =
    bindM (read_rec g_rec) (\<lambda>rec.
    if \<not> rec_host_call rec then returnM None
    else
      bindM (complete_rsi_host_call g_rec rec_enter) (\<lambda>walk_result.
      bindM (read_rec g_rec) (\<lambda>rec.
      if rw_abort walk_result then
        bindM (emulate_stage2_data_abort rec rec_exit (rw_rtt_level walk_result)) (\<lambda>rec_exit.
        returnM (Some rec_exit))
      else
        thenM (write_rec g_rec (rec\<lparr>rec_host_call := False\<rparr>))
        (returnM None))))"

section \<open>The command\<close>

text \<open>The checks and the completion of requests before the run; the status that ends the command, or nothing when the realm runs.\<close>

definition prepare_entry :: "gic_virt_feature_s \<Rightarrow> rmi_rec_enter \<Rightarrow> nat \<Rightarrow> (rmm, (u64 \<times> rmi_rec_exit) option) M" where
  "prepare_entry feat rec_enter g_rec =
    bindM (read_rec g_rec) (\<lambda>rec.
    if \<not> rec_runnable rec then returnM (Some (RMI_ERROR_REC, zero_rec_exit))
    else if rec_psci_pending rec then returnM (Some (RMI_ERROR_REC, zero_rec_exit))
    else if \<not> gic_validate_state feat rec_enter then returnM (Some (RMI_ERROR_REC, zero_rec_exit))
    else
      thenM (write_rec g_rec (rec\<lparr>rec_sysregs := (rec_sysregs rec)\<lparr>sys_gicstate :=
        gic_copy_state_from_rec_entry feat (sys_gicstate (rec_sysregs rec)) rec_enter\<rparr>\<rparr>))
      (bindM (complete_sea_insertion rec_enter g_rec) (\<lambda>sea.
       if \<not> sea then returnM (Some (RMI_ERROR_REC, zero_rec_exit))
       else bindM (read_rec g_rec) (\<lambda>rec.
         (case complete_mmio_emulation rec_enter rec of
            None \<Rightarrow> returnM (Some (RMI_ERROR_REC, zero_rec_exit))
          | Some rec1 \<Rightarrow>
            (let response = (if en_flags rec_enter AND REC_ENTRY_FLAG_RIPAS_RESPONSE = 0 then ACCEPT else REJECT);
                 rec2 = complete_sysreg_emulation rec_enter (complete_set_ripas (rec1\<lparr>rec_set_ripas := (rec_set_ripas rec1)\<lparr>sr_response := response\<rparr>\<rparr>))
             in thenM (write_rec g_rec rec2)
               (bindM (complete_host_call rec_enter g_rec zero_rec_exit) (\<lambda>aborted.
                (case aborted of
                   Some rec_exit \<Rightarrow> returnM (Some (RMI_SUCCESS, rec_exit))
                 | None \<Rightarrow>
                   bindM (read_rec g_rec) (\<lambda>rec.
                   (let hcr = com_hcr_el2 (rec_common_sysregs rec);
                        hcr = (if en_flags rec_enter AND REC_ENTRY_FLAG_TRAP_WFI \<noteq> 0 then hcr OR HCR_TWI else hcr);
                        hcr = (if en_flags rec_enter AND REC_ENTRY_FLAG_TRAP_WFE \<noteq> 0 then hcr OR HCR_TWE else hcr)
                    in thenM (write_rec g_rec ((reset_last_run_info rec)\<lparr>rec_sysregs := (rec_sysregs rec)\<lparr>sys_hcr_el2 := hcr\<rparr>\<rparr>))
                       (returnM None))))))))))))"

text \<open>
  The result of the command and, when it succeeds, the exit structure that is written to the host. The read of the entry structure
  and whether the host can be written to are parameters; nothing is the result when the bound of the run loop is reached.
\<close>

definition smc_rec_enter ::
  "run_env \<Rightarrow> nat \<Rightarrow> (nat \<Rightarrow> rmi_rec_enter \<times> bool) \<Rightarrow> bool \<Rightarrow> u64 \<Rightarrow> u64 \<Rightarrow> (sys, (u64 \<times> rmi_rec_exit option) option) M" where
  "smc_rec_enter env fuel ns_enter ns_write_ok rec_addr rec_run_addr =
    bindM (onR (find_granule rec_run_addr)) (\<lambda>g_run.
    (case g_run of
       None \<Rightarrow> returnM (Some (RMI_ERROR_INPUT, None))
     | Some g_run \<Rightarrow>
     bindM (onR (granule_unlocked_state g_run)) (\<lambda>st.
     if st \<noteq> GRANULE_STATE_NS then returnM (Some (RMI_ERROR_INPUT, None))
     else bindM (onR (find_lock_unused_granule rec_addr GRANULE_STATE_REC)) (\<lambda>res.
     (case res of
        EINVAL \<Rightarrow> returnM (Some (RMI_ERROR_INPUT, None))
      | EBUSY \<Rightarrow> returnM (Some (RMI_ERROR_REC, None))
      | Unused g_rec \<Rightarrow>
      thenM (onR (atomic_granule_get g_rec))
      (thenM (onR (granule_unlock g_rec))
      (bindM (onR (ns_read_params ns_enter SLOT_NS g_run)) (\<lambda>params.
       (case params of
          None \<Rightarrow>
            thenM (onR (atomic_granule_put_release g_rec))
            (returnM (Some (RMI_ERROR_INPUT, None)))
        | Some rec_enter \<Rightarrow>
          thenM (onR (map_slot (Some g_rec) SLOT_REC))
          (bindM (onR (bindM (read_rec g_rec) (\<lambda>rec. derefM (ri_g_rd (rec_realm_info rec))))) (\<lambda>g_rd.
           thenM (onR (map_slot (Some g_rd) SLOT_RD))
           (bindM (onR (read_rd g_rd)) (\<lambda>rd.
            thenM (onR (buffer_unmap SLOT_RD))
            (bindM
              (if rd_state rd = REALM_NEW then returnM (Some (pack_return_code RMI_ERROR_REALM 0, zero_rec_exit))
               else if rd_state rd = REALM_ACTIVE then
                 bindM (onR (prepare_entry (env_gic env) rec_enter g_rec)) (\<lambda>early.
                 (case early of
                    Some result \<Rightarrow> returnM (Some result)
                  | None \<Rightarrow>
                      bindM (rec_run_loop env fuel g_rec zero_rec_exit) (\<lambda>ran.
                      (case ran of
                         None \<Rightarrow> returnM None
                       | Some rec_exit \<Rightarrow>
                           bindM (onR (read_rec g_rec)) (\<lambda>rec.
                           returnM (Some (RMI_SUCCESS, gic_copy_state_to_rec_exit (env_gic env) (sys_gicstate (rec_sysregs rec)) rec_exit)))))))
               else if rd_state rd = REALM_SYSTEM_OFF then returnM (Some (pack_return_code RMI_ERROR_REALM 1, zero_rec_exit))
               else failM Assert_Fail)
              (\<lambda>result.
             (case result of
                None \<Rightarrow> returnM None
              | Some (ret, rec_exit) \<Rightarrow>
                  thenM (onR (buffer_unmap SLOT_REC))
                  (bindM (if ret = RMI_SUCCESS then onR (ns_read_params (\<lambda>_. ((), ns_write_ok)) SLOT_NS g_run) else returnM (Some ())) (\<lambda>written.
                   thenM (onR (atomic_granule_put_release g_rec))
                   (returnM (Some (if written = None then (RMI_ERROR_INPUT, None)
                                   else (ret, if ret = RMI_SUCCESS then Some rec_exit else None))))))))))))))))))))))"

end
