(* ===== verification/Handler.thy ===== *)
theory Handler
  imports Rec_Enter Rmi_Realm Rmi_Granule Rmi_Rec
begin

text \<open>
  The dispatch of the calls of the host (\<^verbatim>\<open>runtime/core/handler.c\<close>, \<^verbatim>\<open>runtime/rmi/system.c\<close>) and the recovery from granule
  protection faults of the RMM. The result of a call is the registers that are returned and, for RMI\_REC\_ENTER, the exit
  structure that is written to the memory of the host; nothing when the bound on the run loop of RMI\_REC\_ENTER is reached.
\<close>

section \<open>Function identifiers\<close>

definition SMC64_RMI_FNUM_MIN :: u32 where "SMC64_RMI_FNUM_MIN = 0x150"
definition SMC64_RMI_FNUM_MAX :: u32 where "SMC64_RMI_FNUM_MAX = 0x16b"
definition SMC64_RMI_FID :: "u32 \<Rightarrow> u32" where "SMC64_RMI_FID offset = SMC64_STD_FID (SMC64_RMI_FNUM_MIN + offset)"

definition IS_SMC64_RMI_FID :: "u32 \<Rightarrow> bool" where
  "IS_SMC64_RMI_FID fid \<longleftrightarrow>
     fid AND NOT 0xFFFF = 0xC4000000 \<and> SMC64_RMI_FNUM_MIN \<le> fid AND 0xFFFF \<and> fid AND 0xFFFF \<le> SMC64_RMI_FNUM_MAX"

definition RMI_HANDLER_ID :: "u32 \<Rightarrow> u32" where "RMI_HANDLER_ID fid = (fid AND 0xFFFF) - SMC64_RMI_FNUM_MIN"

definition SMC_RMI_VERSION :: u32 where "SMC_RMI_VERSION = SMC64_RMI_FID 0x0"
definition SMC_RMI_GRANULE_DELEGATE :: u32 where "SMC_RMI_GRANULE_DELEGATE = SMC64_RMI_FID 0x1"
definition SMC_RMI_GRANULE_UNDELEGATE :: u32 where "SMC_RMI_GRANULE_UNDELEGATE = SMC64_RMI_FID 0x2"
definition SMC_RMI_DATA_CREATE :: u32 where "SMC_RMI_DATA_CREATE = SMC64_RMI_FID 0x3"
definition SMC_RMI_DATA_CREATE_UNKNOWN :: u32 where "SMC_RMI_DATA_CREATE_UNKNOWN = SMC64_RMI_FID 0x4"
definition SMC_RMI_DATA_DESTROY :: u32 where "SMC_RMI_DATA_DESTROY = SMC64_RMI_FID 0x5"
definition SMC_RMI_REALM_ACTIVATE :: u32 where "SMC_RMI_REALM_ACTIVATE = SMC64_RMI_FID 0x7"
definition SMC_RMI_REALM_CREATE :: u32 where "SMC_RMI_REALM_CREATE = SMC64_RMI_FID 0x8"
definition SMC_RMI_REALM_DESTROY :: u32 where "SMC_RMI_REALM_DESTROY = SMC64_RMI_FID 0x9"
definition SMC_RMI_REC_CREATE :: u32 where "SMC_RMI_REC_CREATE = SMC64_RMI_FID 0xa"
definition SMC_RMI_REC_DESTROY :: u32 where "SMC_RMI_REC_DESTROY = SMC64_RMI_FID 0xb"
definition SMC_RMI_REC_ENTER :: u32 where "SMC_RMI_REC_ENTER = SMC64_RMI_FID 0xc"
definition SMC_RMI_RTT_CREATE :: u32 where "SMC_RMI_RTT_CREATE = SMC64_RMI_FID 0xd"
definition SMC_RMI_RTT_DESTROY :: u32 where "SMC_RMI_RTT_DESTROY = SMC64_RMI_FID 0xe"
definition SMC_RMI_RTT_MAP_UNPROTECTED :: u32 where "SMC_RMI_RTT_MAP_UNPROTECTED = SMC64_RMI_FID 0xf"
definition SMC_RMI_RTT_READ_ENTRY :: u32 where "SMC_RMI_RTT_READ_ENTRY = SMC64_RMI_FID 0x11"
definition SMC_RMI_RTT_UNMAP_UNPROTECTED :: u32 where "SMC_RMI_RTT_UNMAP_UNPROTECTED = SMC64_RMI_FID 0x12"
definition SMC_RMI_PSCI_COMPLETE :: u32 where "SMC_RMI_PSCI_COMPLETE = SMC64_RMI_FID 0x14"
definition SMC_RMI_FEATURES :: u32 where "SMC_RMI_FEATURES = SMC64_RMI_FID 0x15"
definition SMC_RMI_RTT_FOLD :: u32 where "SMC_RMI_RTT_FOLD = SMC64_RMI_FID 0x16"
definition SMC_RMI_REC_AUX_COUNT :: u32 where "SMC_RMI_REC_AUX_COUNT = SMC64_RMI_FID 0x17"
definition SMC_RMI_RTT_INIT_RIPAS :: u32 where "SMC_RMI_RTT_INIT_RIPAS = SMC64_RMI_FID 0x18"
definition SMC_RMI_RTT_SET_RIPAS :: u32 where "SMC_RMI_RTT_SET_RIPAS = SMC64_RMI_FID 0x19"
definition SMC_RMI_APT_CREATE :: u32 where "SMC_RMI_APT_CREATE = SMC64_RMI_FID 0x1a"
definition SMC_RMI_APT_DESTROY :: u32 where "SMC_RMI_APT_DESTROY = SMC64_RMI_FID 0x1b"

definition RMI_ABI_VERSION :: u64 where "RMI_ABI_VERSION = 0x10000"

definition smc_version :: "u64 \<Rightarrow> smc_result \<Rightarrow> smc_result" where
  "smc_version rmi_version res =
    res(0 := if rmi_version \<noteq> RMI_ABI_VERSION then RMI_ERROR_INPUT else RMI_SUCCESS, 1 := RMI_ABI_VERSION, 2 := RMI_ABI_VERSION)"

section \<open>The call\<close>

text \<open>What the handlers take from the processor, the memory of the host and EL3.\<close>

record rmi_env = run_env +
  env_cpu :: cpu_regs
  env_realm_params :: "nat \<Rightarrow> rmi_realm_params \<times> bool"
  env_rec_params :: "nat \<Rightarrow> rmi_rec_params \<times> bool"
  env_ns_data :: "nat \<Rightarrow> u64 list \<times> bool"
  env_ns_enter :: "nat \<Rightarrow> rmi_rec_enter \<times> bool"
  env_ns_write_ok :: bool
  env_gtsi_delegate :: "u64 \<Rightarrow> bool"
  env_gtsi_undelegate :: "u64 \<Rightarrow> bool"

type_synonym smc_outcome = "(smc_result \<times> rmi_rec_exit option) option"

text \<open>The two shapes of a handler: a status that becomes the first output, or an update of the outputs.\<close>

definition status_only :: "smc_result \<Rightarrow> (rmm, u64) M \<Rightarrow> (sys, smc_outcome) M" where
  "status_only res m = bindM (onR m) (\<lambda>ret. returnM (Some (res(0 := ret), None)))"

definition outputs :: "(rmm, smc_result) M \<Rightarrow> (sys, smc_outcome) M" where
  "outputs m = bindM (onR m) (\<lambda>res. returnM (Some (res, None)))"

definition call_rec_enter :: "'a rmi_env_scheme \<Rightarrow> nat \<Rightarrow> u64 \<Rightarrow> u64 \<Rightarrow> smc_result \<Rightarrow> (sys, smc_outcome) M" where
  "call_rec_enter env fuel rec_addr rec_run_addr res =
    bindM (smc_rec_enter (run_env.truncate env) fuel (env_ns_enter env) (env_ns_write_ok env) rec_addr rec_run_addr) (\<lambda>result.
    returnM (map_option (\<lambda>(ret, rec_exit). (res(0 := ret), rec_exit)) result))"

text \<open>The entry of \<^verbatim>\<open>smc_handlers\<close> for a handler number, applied to the arguments.\<close>

definition smc_handlers ::
  "'a rmi_env_scheme \<Rightarrow> nat \<Rightarrow> u32 \<Rightarrow> u64 \<Rightarrow> u64 \<Rightarrow> u64 \<Rightarrow> u64 \<Rightarrow> u64 \<Rightarrow> smc_result \<Rightarrow> (sys, smc_outcome) M option" where
  "smc_handlers env fuel handler_id arg0 arg1 arg2 arg3 arg4 res =
    (if handler_id = 0x0 then Some (outputs (returnM (smc_version arg0 res)))
     else if handler_id = 0x15 then Some (outputs (smc_read_feature_register (env_cpu env) arg0 res))
     else if handler_id = 0x1 then Some (status_only res (smc_granule_delegate (env_gtsi_delegate env) arg0))
     else if handler_id = 0x2 then Some (status_only res (smc_granule_undelegate (env_gtsi_undelegate env) arg0))
     else if handler_id = 0x8 then Some (status_only res (smc_realm_create (env_hash env) (env_cpu env) (env_realm_params env) arg0 arg1))
     else if handler_id = 0x9 then Some (status_only res (smc_realm_destroy arg0))
     else if handler_id = 0x7 then Some (status_only res (smc_realm_activate arg0))
     else if handler_id = 0xa then Some (status_only res (smc_rec_create (env_hash env) (env_cpu env) (env_rec_params env) arg0 arg1 arg2))
     else if handler_id = 0xb then Some (status_only res (smc_rec_destroy arg0))
     else if handler_id = 0xc then Some (call_rec_enter env fuel arg0 arg1 res)
     else if handler_id = 0x1a then Some (status_only res (smc_apt_create arg0 arg1))
     else if handler_id = 0x1b then Some (status_only res (smc_apt_destroy arg0 arg1))
     else if handler_id = 0x3 then Some (status_only res (smc_data_create (env_hash env) (env_ns_data env) arg0 arg1 arg2 arg3 arg4))
     else if handler_id = 0x4 then Some (status_only res (smc_data_create_unknown (env_hash env) (env_ns_data env) arg0 arg1 arg2))
     else if handler_id = 0x5 then Some (outputs (smc_data_destroy arg0 arg1 res))
     else if handler_id = 0xd then Some (status_only res (smc_rtt_create arg0 arg1 arg2 arg3))
     else if handler_id = 0xe then Some (outputs (smc_rtt_destroy arg0 arg1 arg2 res))
     else if handler_id = 0x16 then Some (outputs (smc_rtt_fold arg0 arg1 arg2 res))
     else if handler_id = 0xf then Some (status_only res (smc_rtt_map_unprotected arg0 arg1 arg2 arg3))
     else if handler_id = 0x12 then Some (outputs (smc_rtt_unmap_unprotected arg0 arg1 arg2 res))
     else if handler_id = 0x11 then Some (outputs (smc_rtt_read_entry arg0 arg1 arg2 res))
     else if handler_id = 0x14 then Some (status_only res (smc_psci_complete arg0 arg1 arg2))
     else if handler_id = 0x17 then Some (outputs (smc_rec_aux_count arg0 res))
     else if handler_id = 0x18 then Some (outputs (smc_rtt_init_ripas (env_hash env) arg0 arg1 arg2 res))
     else if handler_id = 0x19 then Some (outputs (smc_rtt_set_ripas arg0 arg1 arg2 arg3 res))
     else None)"

definition rmi_handler_needs_fpu :: "u32 \<Rightarrow> bool" where
  "rmi_handler_needs_fpu fid \<longleftrightarrow>
     fid = SMC_RMI_REALM_CREATE \<or> fid = SMC_RMI_DATA_CREATE \<or> fid = SMC_RMI_REC_CREATE \<or> fid = SMC_RMI_RTT_INIT_RIPAS"

definition SIMD_SFLAG_SVE_HINT :: u32 where "SIMD_SFLAG_SVE_HINT = 4"

definition simd_update_smc_sve_hint :: "simd_ref \<Rightarrow> bool \<Rightarrow> (sys, unit) M" where
  "simd_update_smc_sve_hint r sve_hint =
    bindM (read_simd r) (\<lambda>ctx.
    thenM (assertM (simd_sflags ctx AND SIMD_SFLAG_INIT_DONE \<noteq> 0))
    (if simd_tflags ctx AND SIMD_TFLAG_SVE \<noteq> 0 then
       thenM (assertM (simd_sflags ctx AND SIMD_SFLAG_SAVED = 0))
       (write_simd r (ctx\<lparr>simd_sflags :=
          if sve_hint then simd_sflags ctx OR SIMD_SFLAG_SVE_HINT else simd_sflags ctx AND NOT SIMD_SFLAG_SVE_HINT\<rparr>))
     else returnM ()))"

text \<open>What holds on entry to the RMM and on exit from it.\<close>

definition assert_at_border :: "(sys, unit) M" where
  "assert_at_border =
    bindM (onR (getM check_cpu_slots_empty)) (\<lambda>slots_empty.
    bindM (readP simd_state_saved) (\<lambda>saved.
    assertM (slots_empty \<and> \<not> saved)))"

definition handle_ns_smc ::
  "'a rmi_env_scheme \<Rightarrow> nat \<Rightarrow> u32 \<Rightarrow> u64 \<Rightarrow> u64 \<Rightarrow> u64 \<Rightarrow> u64 \<Rightarrow> u64 \<Rightarrow> smc_result \<Rightarrow> (sys, smc_outcome) M" where
  "handle_ns_smc env fuel function_id0 arg0 arg1 arg2 arg3 arg4 res =
    (let sve_hint = function_id0 AND SMC_SVE_HINT \<noteq> 0;
         function_id = function_id0 AND NOT SMC_SVE_HINT;
         handler = (if IS_SMC64_RMI_FID function_id
                    then smc_handlers env fuel (RMI_HANDLER_ID function_id) arg0 arg1 arg2 arg3 arg4 res else None)
     in (case handler of
           None \<Rightarrow> returnM (Some (res(0 := SMC_UNKNOWN), None))
         | Some f \<Rightarrow>
             thenM assert_at_border
             (thenM (simd_update_smc_sve_hint Ns_Simd sve_hint)
             (thenM (if rmi_handler_needs_fpu function_id then simd_context_save Ns_Simd else returnM ())
             (bindM f (\<lambda>result.
              (case result of
                 None \<Rightarrow> returnM None
               | Some out \<Rightarrow>
                   thenM (if rmi_handler_needs_fpu function_id then simd_context_restore Ns_Simd else returnM ())
                   (thenM assert_at_border
                    (returnM (Some out))))))))))"

section \<open>Faults of the RMM itself\<close>

definition ESR_EL2_EC_DATA_ABORT_SEL :: u64 where "ESR_EL2_EC_DATA_ABORT_SEL = INPLACE 26 37"
definition ESR_EL2_ABORT_FSC_GPF :: u64 where "ESR_EL2_ABORT_FSC_GPF = 0x28"

definition is_el2_data_abort_gpf :: "u64 \<Rightarrow> bool" where
  "is_el2_data_abort_gpf esr \<longleftrightarrow>
     esr AND ESR_EL2_EC = ESR_EL2_EC_DATA_ABORT_SEL \<and> esr AND ESR_EL2_ABORT_FSC = ESR_EL2_ABORT_FSC_GPF"

text \<open>The list has the addresses of the instructions that access the memory of the host, with the address to go on from.\<close>

definition handle_rmm_trap :: "(u64 \<times> u64) list \<Rightarrow> (sys, u64) M" where
  "handle_rmm_trap rmm_trap_list =
    bindM (readP esr_el2) (\<lambda>esr.
    bindM (readP elr_el2) (\<lambda>elr.
    if \<not> is_el2_data_abort_gpf esr then failM Panic
    else (case map_of rmm_trap_list elr of
            Some new_pc \<Rightarrow> returnM new_pc
          | None \<Rightarrow> failM Panic)))"

end
