(* ===== verification/System.thy ===== *)
theory System
  imports Data_Correct Rtt_Create Ripas_Init Rec_Destroy Rtt_Ns Handler
begin

text \<open>
  The invariant of the whole state between two calls of the host: that of memory, of VMIDs and of execution contexts, for realms
  without an access permission table; and that each command on granules, realms, tables, data and execution contexts keeps it.
\<close>

section \<open>The invariant\<close>

definition sys_ok :: "cpu_regs \<Rightarrow> rmm \<Rightarrow> bool" where
  "sys_ok cpu s \<longleftrightarrow> realm_inv s \<and> vmid_inv s \<and> rec_inv cpu s \<and> (\<forall>g. is_realm s g \<longrightarrow> apt_pa (d_rd (mem s g)) = 0)"

lemma sys_okD:
  assumes "sys_ok cpu s"
  shows "realm_inv s" "vmid_inv s" "rec_inv cpu s" "is_realm s g \<Longrightarrow> apt_pa (d_rd (mem s g)) = 0"
  using assms by (simp_all add: sys_ok_def)

lemma sys_ok_owners:
  assumes ok: "sys_ok cpu s" and inv: "realm_inv s'" and k: "owners_kept s s'"
  shows "sys_ok cpu s'"
proof -
  note d = owners_keptD [OF k] and r = owners_kept_realms [OF k] and o = sys_okD [OF ok]
  have "vmid_inv s'" by (rule vmid_inv_same [OF o(2) d(2,3) r(1)])
  moreover have "rec_inv cpu s'" by (rule owners_kept_rec_inv [OF k o(3)])
  moreover have "apt_pa (d_rd (mem s' g)) = 0" if "is_realm s' g" for g
    using r(2,3) [of g] o(4) [of g] that measuredD(2) by simp
  ultimately show ?thesis using inv by (simp add: sys_ok_def)
qed

text \<open>A command returns and keeps the invariant.\<close>

definition keeps :: "cpu_regs \<Rightarrow> (rmm, 'a) M \<Rightarrow> rmm \<Rightarrow> bool" where
  "keeps cpu m s \<longleftrightarrow> (\<exists>r s'. m s = Inr (r, s') \<and> sys_ok cpu s')"

lemma keepsI: "m s = Inr (r, s') \<Longrightarrow> sys_ok cpu s' \<Longrightarrow> keeps cpu m s"
  by (auto simp: keeps_def)

section \<open>Granules\<close>

lemma granule_state_change:
  assumes inv: "realm_inv s" and u: "\<not> owner_state (STATE (granules s g))" "STATE (granules s g) \<notin> {GRANULE_STATE_DATA, GRANULE_STATE_RTT}"
    and x: "\<not> LOCKED x" "granule_inv x" "\<not> owner_state (STATE x)" "length (words d) = 512"
      "STATE x = GRANULE_STATE_DELEGATED \<Longrightarrow> d = zero_data"
  shows "memory_kept s (upd_mem g (\<lambda>_. d) (upd_granule g (\<lambda>_. x) s))" (is "memory_kept s ?s'")
proof (rule memory_kept_frame [OF inv])
  note idle = realm_invD(1) [OF inv] note id = idleD [OF idle]
  show "idle ?s'"
    by (rule idle_change [OF idle]) (use x id in \<open>auto simp: upd_granule_def\<close>)
  show "owners_kept s ?s'"
    by (rule owners_keptI) (use u x in \<open>auto simp: upd_granule_def\<close>)
  show "is_rtt ?s' t \<and> words (mem ?s' t) = words (mem s t) \<and> REFCOUNT (granules ?s' t) = REFCOUNT (granules s t)" if "is_rtt s t" for t
    using that u by (auto simp: is_rtt_def upd_granule_def)
  show "STATE (granules ?s' h) = GRANULE_STATE_DATA" if "STATE (granules s h) = GRANULE_STATE_DATA" for h
    using that u by (auto simp: upd_granule_def)
qed

lemma fresh_inv:
  assumes "realm_inv s" "STATE (granules s g) \<in> {GRANULE_STATE_NS, GRANULE_STATE_DELEGATED}" "st \<in> {GRANULE_STATE_NS, GRANULE_STATE_DELEGATED}"
  shows "granule_inv (fresh_granule st (granules s g))"
proof (rule inv_zero_refcount)
  have "REFCOUNT (granules s g) = 0"
    using refcount_zero [OF idleD(5) [OF realm_invD(1) [OF assms(1)]], of g] assms(2) by auto
  then show "REFCOUNT (fresh_granule st (granules s g)) = 0" using assms(3) by auto
  show "STATE (fresh_granule st (granules s g)) \<in> {GRANULE_STATE_NS, GRANULE_STATE_DELEGATED, GRANULE_STATE_RD,
      GRANULE_STATE_REC, GRANULE_STATE_REC_AUX, GRANULE_STATE_DATA, GRANULE_STATE_RTT, GRANULE_STATE_APT}"
    using assms(3) by auto
qed

lemma idle_free: "idle s \<Longrightarrow> free_at s a"
  by (simp add: free_at_def idleD(2) split: option.split)

lemma delegate_keeps:
  assumes ok: "sys_ok cpu s"
  shows "keeps cpu (smc_granule_delegate el3 addr) s"
proof -
  note inv = sys_okD(1) [OF ok] note idle = realm_invD(1) [OF inv]
  note run = delegate_run [OF idleD(1) [OF idle] idle_free [OF idle], of el3 addr]
  show ?thesis
  proof (cases "\<exists>g. granule_at (arm_dram s) addr = Some g \<and> STATE (granules s g) = GRANULE_STATE_NS \<and> el3 addr")
    case True
    then obtain g where g: "granule_at (arm_dram s) addr = Some g" "STATE (granules s g) = GRANULE_STATE_NS" "el3 addr" by blast
    let ?s = "upd_mem g (\<lambda>_. zero_data) (upd_granule g (\<lambda>_. fresh_granule GRANULE_STATE_DELEGATED (granules s g)) s)"
    have eq: "upd_granule g (fresh_granule GRANULE_STATE_DELEGATED) s = upd_granule g (\<lambda>_. fresh_granule GRANULE_STATE_DELEGATED (granules s g)) s"
      by (simp add: upd_granule_def)
    have "memory_kept s ?s"
      by (rule granule_state_change [OF inv]) (use g fresh_inv [OF inv, of g GRANULE_STATE_DELEGATED] in \<open>simp_all add: zero_data_def\<close>)
    from memory_keptD(1,2) [OF this] have "sys_ok cpu ?s" by (rule sys_ok_owners [OF ok])
    then show ?thesis using run g by (auto simp: eq intro: keepsI)
  next
    case False
    then have "smc_granule_delegate el3 addr s = Inr (RMI_ERROR_INPUT, s)" using run by (auto split: option.splits)
    then show ?thesis using ok by (rule keepsI)
  qed
qed

lemma undelegate_keeps:
  assumes ok: "sys_ok cpu s" and el3: "el3 addr"
  shows "keeps cpu (smc_granule_undelegate el3 addr) s"
proof -
  note inv = sys_okD(1) [OF ok] note idle = realm_invD(1) [OF inv]
  note run = undelegate_run [OF idleD(1) [OF idle] idle_free [OF idle], of el3 addr]
  show ?thesis
  proof (cases "\<exists>g. granule_at (arm_dram s) addr = Some g \<and> STATE (granules s g) = GRANULE_STATE_DELEGATED")
    case True
    then obtain g where g: "granule_at (arm_dram s) addr = Some g" "STATE (granules s g) = GRANULE_STATE_DELEGATED" by blast
    let ?s = "upd_mem g (\<lambda>_. mem s g) (upd_granule g (\<lambda>_. fresh_granule GRANULE_STATE_NS (granules s g)) s)"
    have eq: "upd_granule g (fresh_granule GRANULE_STATE_NS) s = ?s"
      by (simp add: upd_granule_def upd_mem_def)
    have "memory_kept s ?s"
      by (rule granule_state_change [OF inv]) (use g fresh_inv [OF inv, of g GRANULE_STATE_NS] idleD(6,7) [OF idle] in \<open>simp_all\<close>)
    from memory_keptD(1,2) [OF this] have "sys_ok cpu ?s" by (rule sys_ok_owners [OF ok])
    then show ?thesis using run g el3 by (auto simp: eq intro: keepsI)
  next
    case False
    then have "smc_granule_undelegate el3 addr s = Inr (RMI_ERROR_INPUT, s)" using run by (auto split: option.splits)
    then show ?thesis using ok by (rule keepsI)
  qed
qed

section \<open>Tables\<close>

lemma rtt_create_keeps: "sys_ok cpu s \<Longrightarrow> keeps cpu (smc_rtt_create rd_addr rtt_addr map_addr ulevel) s"
  using smc_rtt_create_run [OF sys_okD(1), of cpu s rd_addr rtt_addr map_addr ulevel] sys_ok_owners [of cpu s] by (fastforce simp: keeps_def)

lemma rtt_fold_keeps: "sys_ok cpu s \<Longrightarrow> keeps cpu (smc_rtt_fold rd_addr map_addr ulevel res) s"
  using smc_rtt_fold_run [OF sys_okD(1), of cpu s rd_addr map_addr ulevel res] sys_ok_owners [of cpu s] by (fastforce simp: keeps_def)

lemma init_ripas_keeps: "sys_ok cpu s \<Longrightarrow> keeps cpu (smc_rtt_init_ripas hash rd_addr rbase rtop res) s"
  using smc_rtt_init_ripas_run [OF sys_okD(1), of cpu s hash rd_addr rbase rtop res] sys_ok_owners [of cpu s] memory_keptD(1,2) [of s]
  by (fastforce simp: keeps_def)

definition ns_level_ok :: "rmm \<Rightarrow> u64 \<Rightarrow> u64 \<Rightarrow> bool" where
  "ns_level_ok s rd_addr ulevel \<longleftrightarrow>
    (1 \<le> sint ulevel \<and> sint ulevel \<le> 3 \<longrightarrow> (\<forall>g. granule_in s rd_addr GRANULE_STATE_RD = Some g \<longrightarrow> s2_starting_level (realm_ctx s g) \<le> sint ulevel))"

lemma map_unmap_ns_keeps:
  assumes "sys_ok cpu s" "1 \<le> lv" "lv \<le> 3"
    and "\<forall>g. granule_in s rd_addr GRANULE_STATE_RD = Some g \<longrightarrow> s2_starting_level (realm_ctx s g) \<le> lv"
  shows "\<exists>res' s'. map_unmap_ns rd_addr map_addr lv host_s2tte op res s = Inr (res', s') \<and> sys_ok cpu s'"
  using map_unmap_ns_effect [OF sys_okD(1) [OF assms(1)] assms(2-4), of map_addr host_s2tte op res] sys_ok_owners [OF assms(1)] by blast

lemma map_unprotected_keeps:
  assumes "sys_ok cpu s" "ns_level_ok s rd_addr ulevel"
  shows "keeps cpu (smc_rtt_map_unprotected rd_addr map_addr ulevel host_s2tte) s"
    "keeps cpu (smc_rtt_unmap_unprotected rd_addr map_addr ulevel res) s"
proof -
  have r: "\<exists>res' s'. map_unmap_ns rd_addr map_addr (sint ulevel) e op q s = Inr (res', s') \<and> sys_ok cpu s'"
    if "\<not> (sint ulevel < 1 \<or> sint ulevel > 3)" for e op q
    by (rule map_unmap_ns_keeps [OF assms(1)]) (use assms(2) that in \<open>simp_all add: ns_level_ok_def\<close>)
  show "keeps cpu (smc_rtt_map_unprotected rd_addr map_addr ulevel host_s2tte) s"
  proof (cases "sint ulevel < 1 \<or> sint ulevel > 3")
    case False
    obtain res' s' where "map_unmap_ns rd_addr map_addr (sint ulevel) host_s2tte MAP_NS (\<lambda>_. 0) s = Inr (res', s')" "sys_ok cpu s'"
      using r [OF False] by blast
    then show ?thesis
      by (intro keepsI [of _ _ "res' 0" s']) (simp_all only: smc_rtt_map_unprotected_def Let_def if_not_P [OF False] run_bindM run_returnM sum.case prod.case fst_conv snd_conv)
  next
    case True
    show ?thesis by (intro keepsI [of _ _ RMI_ERROR_INPUT s]) (simp_all only: assms(1) smc_rtt_map_unprotected_def Let_def if_P [OF True] run_returnM)
  qed
  show "keeps cpu (smc_rtt_unmap_unprotected rd_addr map_addr ulevel res) s"
  proof (cases "sint ulevel < 1 \<or> sint ulevel > 3")
    case False
    obtain res' s' where "map_unmap_ns rd_addr map_addr (sint ulevel) 0 UNMAP_NS res s = Inr (res', s')" "sys_ok cpu s'"
      using r [OF False] by blast
    then show ?thesis
      by (intro keepsI [of _ _ res' s']) (simp_all only: smc_rtt_unmap_unprotected_def Let_def if_not_P [OF False])
  next
    case True
    show ?thesis by (intro keepsI [of _ _ "res(0 := RMI_ERROR_INPUT)" s]) (simp_all only: assms(1) smc_rtt_unmap_unprotected_def Let_def if_P [OF True] run_returnM)
  qed
qed

lemma rtt_destroy_keeps:
  assumes ok: "sys_ok cpu s"
  shows "keeps cpu (smc_rtt_destroy rd_addr map_addr ulevel res) s"
proof (cases "snd (rtt_destroy_spec rd_addr map_addr ulevel res s) = s")
  case True
  then show ?thesis using ok smc_rtt_destroy_run [OF sys_okD(1) [OF ok], of rd_addr map_addr ulevel res]
    by (metis keepsI prod.collapse)
next
  case False
  note inv = sys_okD(1) [OF ok]
  obtain g where g: "granule_in s rd_addr GRANULE_STATE_RD = Some g" using False by (cases "granule_in s rd_addr GRANULE_STATE_RD") (simp_all add: rtt_destroy_spec_def)
  let ?c = "realm_ctx s g" let ?i = "entry_no map_addr (sint ulevel - 1) mod 512"
  have realm: "is_realm s g" using is_realm_in [OF g] .
  obtain t where w: "rtt_walk s ?c map_addr (sint ulevel - 1) = (t, sint ulevel - 1)" "s2tte_is_table (words (mem s t) ! ?i) (sint ulevel - 1)"
    and so: "structure_ok (d_rd (mem s g)) map_addr (sint ulevel)" and z: "REFCOUNT (granules s (the (next_table s ?c t ?i))) = 0"
    and r: "snd (rtt_destroy_spec rd_addr map_addr ulevel res s) =
      table_destroyed ?c map_addr (addr_in_par (d_rd (mem s g)) map_addr) t ?i (the (next_table s ?c t ?i)) s"
    using False g by (auto simp: rtt_destroy_spec_def Let_def split: prod.splits if_splits)
  have lv: "s2_starting_level ?c \<le> sint ulevel - 1" "sint ulevel - 1 \<le> 2" and a: "map_addr < push_bit (unat (ipa_bits ?c)) 1"
    using so realm_ipa_size_ctx [OF realm] by (auto simp: structure_ok_def realm_rtt_starting_level_def realm_ctx_def)
  obtain t' where t': "next_table s ?c t ?i = Some t'" "is_rtt s t" "is_rtt s t'" "t \<noteq> t'" "REFCOUNT (granules s t) \<noteq> 0"
    using child_of_walk [OF inv realm a lv w] by metis
  have "realm_inv (snd (rtt_destroy_spec rd_addr map_addr ulevel res s))"
    using table_destroyed_inv(1) [OF inv realm so w t'(1)] z t'(1) r by simp
  moreover have "owners_kept s (snd (rtt_destroy_spec rd_addr map_addr ulevel res s))"
    unfolding r t'(1) option.sel table_destroyed_def by (rule removed_owners_kept [OF t'(4,2,3,5)])
  ultimately have "sys_ok cpu (snd (rtt_destroy_spec rd_addr map_addr ulevel res s))" by (rule sys_ok_owners [OF ok])
  then show ?thesis using smc_rtt_destroy_run [OF inv, of rd_addr map_addr ulevel res] by (metis keepsI prod.collapse)
qed

section \<open>Data\<close>

lemma data_destroyed_owners_kept:
  assumes "t \<noteq> d" "is_rtt s t" "STATE (granules s d) = GRANULE_STATE_DATA" "REFCOUNT (granules s t) \<noteq> 0"
  shows "owners_kept s (data_destroyed c d addr t i s)"
proof (rule owners_keptI)
  let ?s' = "data_destroyed c d addr t i s"
  show "arm_dram ?s' = arm_dram s" "vmids ?s' = vmids s" "feat_vmid16 ?s' = feat_vmid16 s" "tags ?s' = tags s" "csm_region_ids ?s' = csm_region_ids s"
    by (simp_all add: data_destroyed_def entry_cleared_def upd_granule_def upd_mem_def page_set_def log_tlbi_def Let_def)
  note f = data_destroyed_fields(3,4) [OF assms(1,4), where c = c and addr = addr and i = i] and st = data_destroyed_fields(6) [OF assms(1,4)]
  show "granules ?s' h = granules s h \<and> measured (mem s h) (mem ?s' h) \<or> \<not> owner_state (STATE (granules s h)) \<and> \<not> owner_state (STATE (granules ?s' h))" for h
    using f(1,2) [of h] st is_rttD(2) [OF assms(2)] assms(1,3) by auto
qed

lemma data_destroy_keeps:
  assumes ok: "sys_ok cpu s"
  shows "keeps cpu (smc_data_destroy rd_addr addr res) s"
proof -
  note inv = sys_okD(1) [OF ok] let ?r = "data_destroy_spec rd_addr addr res s"
  have run: "smc_data_destroy rd_addr addr res s = Inr ?r"
    by (rule smc_data_destroy_run [OF inv]) (use sys_okD(4) [OF ok] is_realm_in in blast)
  have "sys_ok cpu (snd ?r)"
  proof (cases "snd ?r = s")
    case False
    obtain g where g: "granule_in s rd_addr GRANULE_STATE_RD = Some g" using False by (cases "granule_in s rd_addr GRANULE_STATE_RD") (simp_all add: data_destroy_spec_def)
    let ?c = "realm_ctx s g" let ?i = "entry_no addr 3 mod 512"
    have realm: "is_realm s g" using is_realm_in [OF g] .
    obtain t where w: "rtt_walk s ?c addr 3 = (t, 3)" and k: "\<exists>k \<in> data_kinds. has_kind (words (mem s t) ! ?i) 3 k"
      and par: "addr_in_par (d_rd (mem s g)) addr" "addr < realm_ipa_size (d_rd (mem s g))"
      and r: "snd ?r = data_destroyed ?c (the (granule_at (arm_dram s) (to_pa_value (words (mem s t) ! ?i) 3 (enable_lpa2 ?c)))) addr t ?i s"
      using False g by (auto simp: data_destroy_spec_def Let_def split: prod.splits if_splits)
    have a: "addr < push_bit (unat (ipa_bits ?c)) 1" using par(2) realm_ipa_size_ctx [OF realm] by simp
    obtain d where d: "granule_at (arm_dram s) (to_pa_value (words (mem s t) ! ?i) 3 (enable_lpa2 ?c)) = Some d"
      by (rule page_of_walk [OF inv realm a w]) (use k in \<open>auto simp: kinds_has\<close>)
    note di = data_destroyed_inv [OF inv realm a par(1) w k d]
    have sl: "s2_starting_level ?c \<le> 3" using tree_okD(1) [OF realm_invD(2) [OF inv] realm] by (simp add: wf_ctx_def)
    have "is_rtt s t" using realm_walk [OF inv realm a sl _ w] by blast
    then have "owners_kept s (snd ?r)" unfolding r d option.sel by (intro data_destroyed_owners_kept di(4-6))
    moreover have "realm_inv (snd ?r)" using di(1) r d by simp
    ultimately show ?thesis by (intro sys_ok_owners [OF ok])
  qed (simp add: ok)
  then show ?thesis using run by (metis keepsI prod.collapse)
qed

lemma measured_rd: "measured x (x\<lparr>d_rd := (d_rd x)\<lparr>measurement := m\<rparr>\<rparr>)"
  unfolding measured_def by (rule exI [of _ m], rule exI [of _ "sr_addr (rec_set_ripas (d_rec x))"]) simp

lemma data_created_owners_kept:
  assumes "t \<noteq> d" "is_rtt s t" "STATE (granules s d) = GRANULE_STATE_DELEGATED" "unat (REFCOUNT (granules s t)) \<le> 512"
  shows "owners_kept s (data_created hash ns_read g d data_addr addr g_src flags t i s)"
proof (rule owners_keptI)
  let ?s' = "data_created hash ns_read g d data_addr addr g_src flags t i s"
  show "arm_dram ?s' = arm_dram s" "vmids ?s' = vmids s" "feat_vmid16 ?s' = feat_vmid16 s" "tags ?s' = tags s" "csm_region_ids ?s' = csm_region_ids s"
    by (simp_all add: data_created_def data_filled_def upd_granule_def upd_mem_def page_set_def Let_def split: option.split)
  note f = data_created_fields(4) [OF assms(1) refl, where g = g and hash = hash and ns_read = ns_read and data_addr = data_addr and
      addr = addr and g_src = g_src and flags = flags and i = i and s = s]
  have "STATE (add_desc 1 (granules s t)) = STATE (granules s t)" using refcount_add_fields [of "granules s t" 1] assms(4) by simp
  moreover have "measured (mem s h) (mem ?s' h)" if "h \<noteq> d" "h \<noteq> t" for h
    using that by (cases g_src; cases "h = g") (auto simp: data_created_def data_filled_def upd_mem_def page_set_def Let_def measured_rd)
  ultimately show "granules ?s' h = granules s h \<and> measured (mem s h) (mem ?s' h) \<or> \<not> owner_state (STATE (granules s h)) \<and> \<not> owner_state (STATE (granules ?s' h))" for h
    using f [of h] is_rttD(2) [OF assms(2)] assms(1,3) by auto
qed


lemma data_create_keeps:
  assumes ok: "sys_ok cpu s" and ns: "ns_read_ok ns_read" and src: "src_valid s g_src"
  shows "\<exists>r s'. data_create hash ns_read rd_addr data_addr addr g_src flags s = Inr (r, s') \<and> sys_ok cpu s'"
proof -
  note inv = sys_okD(1) [OF ok] let ?r = "data_create_spec hash ns_read rd_addr data_addr addr g_src flags s"
  have "sys_ok cpu (snd ?r)"
  proof (cases "snd ?r = s")
    case False
    obtain d g where dg: "granule_in s data_addr GRANULE_STATE_DELEGATED = Some d" "granule_in s rd_addr GRANULE_STATE_RD = Some g"
      using False by (cases "granule_in s data_addr GRANULE_STATE_DELEGATED"; cases "granule_in s rd_addr GRANULE_STATE_RD") (simp_all add: data_create_spec_def)
    let ?c = "realm_ctx s g" let ?i = "entry_no addr 3 mod 512"
    have realm: "is_realm s g" using is_realm_in [OF dg(2)] .
    obtain t where w: "rtt_walk s ?c addr 3 = (t, 3)" and u: "s2tte_is_unassigned (words (mem s t) ! ?i)"
      and par: "addr_in_par (d_rd (mem s g)) addr" "addr < realm_ipa_size (d_rd (mem s g))" and al: "enable_lpa2 ?c \<or> data_addr < push_bit 48 1"
      and r: "snd ?r = data_created hash ns_read g d data_addr addr g_src flags t ?i s"
      using False dg by (auto simp: data_create_spec_def Let_def not_le split: prod.splits if_splits)
    have a: "addr < push_bit (unat (ipa_bits ?c)) 1" using par(2) realm_ipa_size_ctx [OF realm] by simp
    have sl: "s2_starting_level ?c \<le> 3" using tree_okD(1) [OF realm_invD(2) [OF inv] realm] by (simp add: wf_ctx_def)
    have t: "is_rtt s t" using realm_walk [OF inv realm a sl _ w] by blast
    have "unat (REFCOUNT (granules s t)) \<le> 512"
      using rtt_inv_iff [OF is_rttD(2) [OF t]] idleD(5) [OF realm_invD(1) [OF inv], of t] by simp
    moreover have "t \<noteq> d" using granule_inD [OF dg(1)] is_rttD(2) [OF t] by auto
    ultimately have "owners_kept s (snd ?r)" unfolding r using granule_inD [OF dg(1)] by (intro data_created_owners_kept t) auto
    moreover have "realm_inv (snd ?r)" unfolding r by (rule data_created_inv(1) [OF inv ns dg a par(1) al w u])
    ultimately show ?thesis by (intro sys_ok_owners [OF ok])
  qed (simp add: ok)
  then show ?thesis using data_create_run [OF inv src] by (metis prod.collapse)
qed

lemma propagate_unshared:
  assumes "sys_ok cpu s"
  shows "csm_propagate_create rd_addr data_addr addr s = Inr ((), s)"
  unfolding csm_propagate_create_def
  by (rule csm_propagate_unshared [OF realm_invD(1) [OF sys_okD(1) [OF assms]]]) (use sys_okD(4) [OF assms] is_realm_in in blast)

lemma data_create_unknown_keeps:
  assumes ok: "sys_ok cpu s" and ns: "ns_read_ok ns_read"
  shows "keeps cpu (smc_data_create_unknown hash ns_read rd_addr data_addr addr) s"
proof -
  obtain r s' where r: "data_create hash ns_read rd_addr data_addr addr None 0 s = Inr (r, s')" "sys_ok cpu s'"
    using data_create_keeps [OF ok ns, of None hash rd_addr data_addr addr 0] by (auto simp: src_valid_def)
  then show ?thesis using propagate_unshared [OF r(2)]
    by (intro keepsI [of _ _ r s']) (simp_all add: smc_data_create_unknown_def run_simps)
qed

lemma data_create_known_keeps:
  assumes ok: "sys_ok cpu s" and ns: "ns_read_ok ns_read"
  shows "keeps cpu (smc_data_create hash ns_read rd_addr data_addr addr src_addr flags) s"
proof -
  note dram = idleD(3) [OF realm_invD(1) [OF sys_okD(1) [OF ok]]]
  consider "flags \<noteq> RMI_NO_MEASURE_CONTENT \<and> flags \<noteq> RMI_MEASURE_CONTENT \<or> granule_at (arm_dram s) src_addr = None"
    | g where "flags = RMI_NO_MEASURE_CONTENT \<or> flags = RMI_MEASURE_CONTENT" "granule_at (arm_dram s) src_addr = Some g" by blast
  then show ?thesis
  proof cases
    case 1
    then show ?thesis using ok dram
      by (intro keepsI [of _ _ RMI_ERROR_INPUT s]) (auto simp: smc_data_create_def run_simps)
  next
    case (2 g)
    then have "src_valid s (Some g)" by (auto simp: src_valid_def valid_g_def)
    from data_create_keeps [OF ok ns this, of hash rd_addr data_addr addr flags] obtain r s' where
      r: "data_create hash ns_read rd_addr data_addr addr (Some g) flags s = Inr (r, s')" "sys_ok cpu s'" by blast
    then show ?thesis using 2 dram ok propagate_unshared [OF r(2)]
      by (intro keepsI [of _ _ "if STATE (granules s g) \<noteq> GRANULE_STATE_NS then RMI_ERROR_INPUT else r"
            "if STATE (granules s g) \<noteq> GRANULE_STATE_NS then s else s'"])
        (auto simp: smc_data_create_def run_simps granule_unlocked_state_def)
  qed
qed

end
