(* ===== verification/System_Realm.thy ===== *)
theory System_Realm
  imports System
begin

text \<open>The commands on realms and execution contexts keep the invariant of the whole state.\<close>

section \<open>Creation of realms\<close>

text \<open>The vector length of the processor fits into its field of the feature register.\<close>

definition sve_ok :: "cpu_regs \<Rightarrow> bool" where
  "sve_ok cpu \<longleftrightarrow> sve_vq (cpu_simd_cfg cpu) < 16"

lemma bit_above:
  fixes w :: "'a :: len word"
  assumes "unat w < 2 ^ k" "k \<le> n"
  shows "\<not> bit w n"
proof -
  have "unat w < 2 ^ n" using assms power_increasing [of k n "2 :: nat"] by linarith
  then have "\<not> bit (unat w) n" by (simp only: bit_iff_odd div_less even_zero not_not)
  then show ?thesis by (simp add: bit_unsigned_iff)
qed

lemma feature_sve:
  assumes "cpu_ok cpu" "sve_ok cpu"
  shows "EXTRACT 9 1 (feature_register_0 cpu) = (if sve_en (cpu_simd_cfg cpu) then 1 else 0)"
    "sve_en (cpu_simd_cfg cpu) \<Longrightarrow> EXTRACT 10 4 (feature_register_0 cpu) = ucast (sve_vq (cpu_simd_cfg cpu))"
proof -
  let ?a = "[32, 36, 40, 42, 44, 48, 52] :: u32 list"
  define w where "w = ?a ! unat (EXTRACT 0 4 (id_aa64mmfr0_el1 cpu))"
  have i: "unat (EXTRACT 0 4 (id_aa64mmfr0_el1 cpu)) < length ?a" using assms(1) by (simp add: cpu_ok_def)
  have "list_all (\<lambda>x. unat x < 2 ^ 6) ?a" by simp
  then have "unat w < 2 ^ 6" using i unfolding w_def list_all_length by blast
  then have wb: "\<not> bit w n" if "6 \<le> n" for n using bit_above that by blast
  have "unat (sve_vq (cpu_simd_cfg cpu)) < 2 ^ 4" using assms(2) by (simp add: sve_ok_def word_less_nat_alt)
  then have vb: "\<not> bit (sve_vq (cpu_simd_cfg cpu)) n" if "4 \<le> n" for n using bit_above that by blast
  have v4: "n < 4" if "bit (sve_vq (cpu_simd_cfg cpu)) n" for n using vb [of n] that by (cases "4 \<le> n") auto
  have one: "bit (1 :: u64) n \<longleftrightarrow> n = 0" for n by (simp add: bit_1_iff)
  have f: "bit (feature_register_0 cpu) n \<longleftrightarrow> sve_en (cpu_simd_cfg cpu) \<and> (n = 9 \<or> bit (sve_vq (cpu_simd_cfg cpu)) (n - 10))" if "9 \<le> n" "n < 14" for n
    using i that wb [of n] vb [of "n - 10"] assms(1)
    by (auto simp: feature_register_0_def result_of_def get_feature_register_0_def arch_feat_get_pa_width_def cpu_ok_def run_simps Let_def
        RMI_FEATURE_TRUE_def w_def [symmetric] bit_or_iff bit_INPLACE bit_unsigned_iff one)
  show "EXTRACT 9 1 (feature_register_0 cpu) = (if sve_en (cpu_simd_cfg cpu) then 1 else 0)"
    by (rule bit_eqI) (auto simp: bit_EXTRACT f one)
  show "EXTRACT 10 4 (feature_register_0 cpu) = ucast (sve_vq (cpu_simd_cfg cpu))" if "sve_en (cpu_simd_cfg cpu)"
    by (rule bit_eqI) (use v4 that in \<open>auto simp: bit_EXTRACT f bit_unsigned_iff\<close>)
qed

lemma ucast_up_le: "(ucast (x :: u32) :: u64) \<le> ucast (y :: u32) \<longleftrightarrow> x \<le> y"
  by transfer (simp add: take_bit_take_bit min_def)

lemma new_rd_ok:
  assumes "cpu_ok cpu" "sve_ok cpu" "params_ok cpu p"
  shows "rd_ok cpu (new_rd hash p b zero_rd)" "apt_pa (new_rd hash p b zero_rd) = 0"
proof -
  have "\<not> params_rejected cpu (feature_register_0 cpu) p"
    using assms(3) check_params_value [OF assms(1), of "feature_register_0 cpu" p "()"] unfolding params_ok_def by (auto simp: result_of_def)
  then have sve: "sve_en (cpu_simd_cfg cpu) \<and> rp_sve_vl p \<le> sve_vq (cpu_simd_cfg cpu)" if "EXTRACT 1 1 (rp_flags p) = 1"
    using that feature_sve [OF assms(1,2)]
    by (auto simp: params_rejected_def RMI_FEATURE_TRUE_def RMI_FEATURE_FALSE_def not_less ucast_up_le split: if_splits)
  have "EXTRACT 1 1 (rp_flags p) = 1" if nz: "EXTRACT 1 1 (rp_flags p) \<noteq> 0"
  proof (rule bit_eqI)
    fix n
    obtain m where "bit (EXTRACT 1 1 (rp_flags p)) m" using nz bit_eq_iff [of "EXTRACT 1 1 (rp_flags p)" 0] by auto
    then show "bit (EXTRACT 1 1 (rp_flags p)) n \<longleftrightarrow> bit (1 :: u64) n" by (auto simp: bit_EXTRACT bit_1_iff)
  qed
  with sve show "rd_ok cpu (new_rd hash p b zero_rd)"
    by (auto simp: rd_ok_def new_rd_def init_rd_def validate_simd_config_def MAX_REC_AUX_GRANULES_def zero_rd_def zero_simd_def Let_def not_less)
  show "apt_pa (new_rd hash p b zero_rd) = 0" by (simp add: new_rd_def init_rd_def zero_rd_def Let_def)
qed

lemma realm_create_keeps:
  assumes ok: "sys_ok cpu s" and cpu: "cpu_ok cpu" "sve_ok cpu"
  shows "keeps cpu (smc_realm_create hash cpu ns_params rd_addr params_addr) s"
  using smc_realm_create_run [OF sys_okD(1) [OF ok] vmid_invD(1) [OF sys_okD(2) [OF ok]] cpu(1), of ns_params rd_addr params_addr hash]
proof (elim disjE exE conjE)
  fix p g b m
  assume c: "realm_creatable cpu ns_params s rd_addr params_addr p g b" and m: "wf_vmids m"
    "vmids_used m = insert (ucast (rp_vmid p)) (vmids_used (vmids s))"
    and run: "smc_realm_create hash cpu ns_params rd_addr params_addr s = Inr (RMI_SUCCESS, realm_created hash p g b (s\<lparr>vmids := m\<rparr>))"
  note inv = sys_okD(1) [OF ok] note idle = realm_invD(1) [OF inv] note id = idleD [OF idle]
  let ?s1 = "s\<lparr>vmids := m\<rparr>" let ?s' = "realm_created hash p g b ?s1" and ?n = "unat (rp_rtt_num_start p)"
  note ci = realm_created_inv [OF vmids_frame(1) [OF inv, of m] cpu(1), of p rd_addr g, unfolded create_conditions_same]
  have cr: "params_ok cpu p" "granule_in s rd_addr GRANULE_STATE_DELEGATED = Some g" "g \<notin> rtt_range b ?n"
    "rtts_delegated s (rp_rtt_base p) ?n" "granule_at (arm_dram s) (rp_rtt_base p) = Some b"
    using c by (simp_all add: realm_creatable_def)
  note gd = granule_inD [OF cr(2)]
  have r: "realm_inv ?s'" "is_realm ?s' h \<longleftrightarrow> is_realm s h \<or> h = g" "h \<noteq> g \<Longrightarrow> is_realm s h \<Longrightarrow> realm_ctx ?s' h = realm_ctx s h" for h
    using ci(1,3,4) [where b = b and hash = hash] cr by (auto simp: is_realm_def realm_ctx_def)
  note f = realm_created_fields(1,5,6) [where hash = hash and p = p and g = g and b = b and s = ?s1]
    and fg = realm_created_fields(7) [OF cr(3), where hash = hash and s = ?s1]
  have dl: "STATE (granules s h) = GRANULE_STATE_DELEGATED" if "h = g \<or> b \<le> h \<and> h < b + ?n" for h
    using that gd granule_inD(2) [OF rtts_at [OF id(3) cr(4,5), of "h - b"]] by auto
  have zg: "mem s g = zero_data" using id(7) gd by simp
  have rd: "d_rd (mem ?s' g) = new_rd hash p b zero_rd" using fg zg by (simp add: zero_data_def)
  have out: "granules ?s' h = granules s h \<and> mem ?s' h = mem s h" if "STATE (granules s h) \<noteq> GRANULE_STATE_DELEGATED" for h
    using that dl [of h] f(2,3) [of h] by (auto simp: Let_def)
  have st: "STATE (granules ?s' h) \<in> {GRANULE_STATE_RD, GRANULE_STATE_RTT} \<or> STATE (granules ?s' h) = STATE (granules s h)" for h
    using f(2) [of h] by (auto simp: Let_def)
  have ng: "\<not> is_realm s g" using gd by (auto simp: is_realm_def granule_states)
  have rc: "REFCOUNT (granules ?s' g) = 0"
    using f(2) [of g] refcount_zero [OF id(5), of g] gd cr(3) by (auto simp: Let_def)
  note nr = new_rd_ok [OF cpu cr(1), of hash b]
  have "rec_inv cpu ?s'"
  proof (rule rec_inv_frame [OF sys_okD(3) [OF ok]])
    show "arm_dram ?s' = arm_dram s" using f(1) by simp
    show ir: "is_rec ?s' h \<longleftrightarrow> is_rec s h" for h
      using st [of h] out [of h] f(1) by (auto simp: is_rec_def granule_states)
    show "same_rec (rec_at s h) (rec_at ?s' h)" if "is_rec s h" for h using out [of h] that by (simp add: is_rec_def granule_states)
    show "STATE (granules ?s' h) = GRANULE_STATE_REC_AUX" if "STATE (granules s h) = GRANULE_STATE_REC_AUX" for h using out [of h] that by (simp add: granule_states)
    fix h
    show "is_realm ?s' h \<and> realm_ctx ?s' h = realm_ctx s h \<and> rec_count (d_rd (mem ?s' h)) = rec_count (d_rd (mem s h))" if "is_realm s h"
      using that r(2,3) [of h] ng out [of h] by (auto simp: is_realm_def)
    assume "is_realm ?s' h"
    then consider "h = g" | "h \<noteq> g" "is_realm s h" using r(2) by blast
    then show "(if is_realm s h then REFCOUNT (granules ?s' h) = REFCOUNT (granules s h) else REFCOUNT (granules ?s' h) = 0) \<and> rd_ok cpu (d_rd (mem ?s' h))"
    proof cases
      case 1
      then show ?thesis using ng rc rd nr(1) by simp
    next
      case 2
      then show ?thesis using out [of h] rec_invD(5) [OF sys_okD(3) [OF ok]] by (simp add: is_realm_def)
    qed
  qed
  moreover have "apt_pa (d_rd (mem ?s' h)) = 0" if "is_realm ?s' h" for h
    using that r(2) [of h] out [of h] sys_okD(4) [OF ok, of h] rd nr(2) ng by (cases "h = g") (auto simp: is_realm_def)
  ultimately have "sys_ok cpu ?s'"
    using r(1) created_vmid_inv [OF sys_okD(2) [OF ok] inv cpu(1) c m] by (simp add: sys_ok_def)
  with run show ?thesis by (rule keepsI)
qed (rule keepsI [OF _ ok])

section \<open>Destruction and activation of realms\<close>

lemma realm_destroy_keeps:
  assumes ok: "sys_ok cpu s"
  shows "keeps cpu (smc_realm_destroy rd_addr) s"
proof -
  note inv = sys_okD(1) [OF ok] note run = smc_realm_destroy_run [OF inv sys_okD(2) [OF ok], of rd_addr]
  show ?thesis
  proof (cases "\<exists>g. granule_in s rd_addr GRANULE_STATE_RD = Some g \<and> unused_realm s g")
    case False
    then show ?thesis using run by (auto split: option.splits if_splits intro: keepsI [OF _ ok])
  next
    case True
    then obtain g where g: "granule_in s rd_addr GRANULE_STATE_RD = Some g" "unused_realm s g" by blast
    with run obtain m where r: "smc_realm_destroy rd_addr s = Inr (RMI_SUCCESS, realm_destroyed g m s)" "wf_vmids m"
      "vmids_used m = vmids_used (vmids s) - {vmid (realm_ctx s g)}" by auto
    have realm: "is_realm s g" using is_realm_in [OF g(1)] .
    let ?s' = "realm_destroyed g m s" and ?r = "the (g_rtt (realm_ctx s g))" and ?n = "unat (num_root_rtts (realm_ctx s g))"
    note nr = root_not_rd [OF inv realm] and di = realm_destroyed_inv [OF inv realm g(2), where m = m]
    have out: "\<not> (?r \<le> g \<and> g < ?r + ?n)" using nr by blast
    note f = realm_destroyed_fields(1,6,7) [OF out, where m = m]
    have keep: "granules ?s' h = granules s h \<and> mem ?s' h = mem s h" if "STATE (granules s h) \<notin> {GRANULE_STATE_RD, GRANULE_STATE_RTT} \<or> is_realm s h \<and> h \<noteq> g" for h
      using that nr [of h] realm unfolding f(2,3) by (auto simp: is_realm_def is_rtt_def granule_states)
    have no: "recs_of s g = {}" using unused_no_recs [OF sys_okD(3) [OF ok] idleD(3) [OF realm_invD(1) [OF inv]] realm] g(2) by (simp add: unused_realm_def)
    have st: "STATE (granules ?s' h) = GRANULE_STATE_DELEGATED \<or> granules ?s' h = granules s h" for h
      unfolding f(2) by auto
    have "rec_inv cpu ?s'"
    proof (rule rec_inv_frame [OF sys_okD(3) [OF ok] f(1)])
      show "is_rec ?s' h \<longleftrightarrow> is_rec s h" for h using st [of h] keep [of h] f(1) by (auto simp: is_rec_def granule_states)
      show "same_rec (rec_at s h) (rec_at ?s' h)" if "is_rec s h" for h using keep [of h] that by (simp add: is_rec_def granule_states)
      show "STATE (granules ?s' h) = GRANULE_STATE_REC_AUX" if "STATE (granules s h) = GRANULE_STATE_REC_AUX" for h
        using keep [of h] that by (simp add: granule_states)
      fix h
      show "is_realm ?s' h \<and> realm_ctx ?s' h = realm_ctx s h \<and> rec_count (d_rd (mem ?s' h)) = rec_count (d_rd (mem s h))"
        if "is_realm s h" "recs_of s h \<noteq> {}"
      proof -
        have "h \<noteq> g" using no that(2) by auto
        then show ?thesis using di(3,4) [of h] keep [of h] that(1) by simp
      qed
      assume "is_realm ?s' h"
      then have h: "is_realm s h" "h \<noteq> g" using di(3) by simp_all
      then show "(if is_realm s h then REFCOUNT (granules ?s' h) = REFCOUNT (granules s h) else REFCOUNT (granules ?s' h) = 0) \<and> rd_ok cpu (d_rd (mem ?s' h))"
        using keep [of h] rec_invD(5) [OF sys_okD(3) [OF ok]] by simp
    qed
    moreover have "apt_pa (d_rd (mem ?s' h)) = 0" if "is_realm ?s' h" for h
      using that di(3) keep [of h] sys_okD(4) [OF ok, of h] by simp
    ultimately have "sys_ok cpu ?s'"
      using di(1) destroyed_vmid_inv [OF sys_okD(2) [OF ok] inv realm g(2) r(2,3)] by (simp add: sys_ok_def)
    with r(1) show ?thesis by (rule keepsI)
  qed
qed

definition activated :: "nat \<Rightarrow> rmm \<Rightarrow> rmm" where
  "activated g s = upd_mem g (\<lambda>x. x\<lparr>d_rd := (d_rd x)\<lparr>rd_state := REALM_ACTIVE\<rparr>\<rparr>) s"

lemma smc_realm_activate_run:
  assumes inv: "realm_inv s"
  shows "smc_realm_activate rd_addr s =
    (case granule_in s rd_addr GRANULE_STATE_RD of
       None \<Rightarrow> Inr (RMI_ERROR_INPUT, s)
     | Some g \<Rightarrow> if rd_state (d_rd (mem s g)) = REALM_NEW then Inr (RMI_SUCCESS, activated g s) else Inr (RMI_ERROR_REALM, s))"
proof (cases "granule_in s rd_addr GRANULE_STATE_RD")
  note idle = realm_invD(1) [OF inv]
  {
    case None
    then show ?thesis using find_rd_none [OF idle None] idle_held [OF idle] by (simp add: smc_realm_activate_def run_simps)
  next
    case (Some g)
    note rs = rd_steps [OF idle Some] and id = idleD [OF idle]
    have "granule_unlock g (held {g} no_slots (activated g s)) = Inr ((), activated g s)"
      using id by (simp add: held_simps held_empty activated_def)
    moreover have "write_rd g ((d_rd (mem s g))\<lparr>rd_state := REALM_ACTIVE\<rparr>) (held {g} (no_slots(SLOT_RD := Some g)) s) =
        Inr ((), held {g} (no_slots(SLOT_RD := Some g)) (activated g s))"
      by (simp add: held_simps activated_def upd_mem_def)
    moreover have "buffer_unmap SLOT_RD (held {g} (no_slots(SLOT_RD := Some g)) s1) = Inr ((), held {g} no_slots s1)" for s1
      by (simp add: held_simps)
    moreover have "read_rd g (held {g} (no_slots(SLOT_RD := Some g)) s) = Inr (d_rd (mem s g), held {g} (no_slots(SLOT_RD := Some g)) s)"
      by (simp add: held_simps)
    ultimately have "smc_realm_activate rd_addr (held {} no_slots s) =
        (if rd_state (d_rd (mem s g)) = REALM_NEW then Inr (RMI_SUCCESS, activated g s) else Inr (RMI_ERROR_REALM, s))"
      by (simp add: smc_realm_activate_def run_simps rs)
    then show ?thesis using Some idle_held [OF idle] by simp
  }
qed

lemma realm_activate_keeps:
  assumes ok: "sys_ok cpu s"
  shows "keeps cpu (smc_realm_activate rd_addr) s"
proof (cases "\<exists>g. granule_in s rd_addr GRANULE_STATE_RD = Some g \<and> rd_state (d_rd (mem s g)) = REALM_NEW")
  case False
  then show ?thesis using smc_realm_activate_run [OF sys_okD(1) [OF ok], of rd_addr] by (auto split: option.splits intro: keepsI [OF _ ok])
next
  case True
  then obtain g where g: "granule_in s rd_addr GRANULE_STATE_RD = Some g" "rd_state (d_rd (mem s g)) = REALM_NEW" by blast
  note inv = sys_okD(1) [OF ok] note idle = realm_invD(1) [OF inv] note id = idleD [OF idle]
  let ?s' = "activated g s"
  have f: "arm_dram ?s' = arm_dram s" "granules ?s' = granules s" "vmids ?s' = vmids s" "feat_vmid16 ?s' = feat_vmid16 s" "slots ?s' = slots s"
    "words (mem ?s' h) = words (mem s h)" "h \<noteq> g \<Longrightarrow> mem ?s' h = mem s h" "rec_at ?s' h = rec_at s h" "realm_ctx ?s' h = realm_ctx s h"
    "rec_count (d_rd (mem ?s' h)) = rec_count (d_rd (mem s h))" "rd_ok cpu (d_rd (mem ?s' h)) = rd_ok cpu (d_rd (mem s h))"
    "apt_pa (d_rd (mem ?s' h)) = apt_pa (d_rd (mem s h))" for h
    by (simp_all add: activated_def upd_mem_def realm_ctx_def rd_ok_def)
  have realms: "same_realms s ?s'" by (simp add: same_realms_def f is_realm_def)
  have "idle ?s'"
  proof (rule idle_change [OF idle f(1) f(5)])
    fix h
    show "STATE (granules ?s' h) = GRANULE_STATE_DELEGATED \<Longrightarrow> STATE (granules s h) = GRANULE_STATE_DELEGATED \<and> mem ?s' h = mem s h \<or> mem ?s' h = zero_data"
      using granule_inD(2) [OF g(1)] f(7) [of h] by (cases "h = g") (simp_all add: f granule_states)
  qed (use id f in simp_all)
  note r = realm_inv_frame(1) [OF inv this realms]
  have "realm_inv ?s'" by (rule r) (simp_all add: f is_rtt_def)
  moreover have "rec_inv cpu ?s'"
    by (rule rec_inv_frame [OF sys_okD(3) [OF ok]]) (use rec_invD(5) [OF sys_okD(3) [OF ok]] in \<open>simp_all add: f is_rec_def is_realm_def\<close>)
  moreover have "vmid_inv ?s'" by (rule vmid_inv_same [OF sys_okD(2) [OF ok] f(3,4) realms])
  ultimately have "sys_ok cpu ?s'" using sys_okD(4) [OF ok] by (simp add: sys_ok_def f is_realm_def)
  then show ?thesis using smc_realm_activate_run [OF inv, of rd_addr] g by (auto intro: keepsI)
qed

section \<open>Execution contexts\<close>

lemma rec_create_keeps:
  assumes ok: "sys_ok cpu s" and cpu: "cpu_ok cpu" and ps: "\<And>g. wf_rec_params (fst (ns_params g))"
  shows "if \<exists>p. rec_params_read s ns_params params_addr = Some p \<and> aux_partly s p
    then smc_rec_create hash cpu ns_params rd_addr rec_addr params_addr s = Inl Assert_Fail
    else keeps cpu (smc_rec_create hash cpu ns_params rd_addr rec_addr params_addr) s"
proof -
  note o = sys_okD [OF ok]
  let ?m = "smc_rec_create hash cpu ns_params rd_addr rec_addr params_addr"
  note run = smc_rec_create_run [OF o(1,3) cpu, where ns_params = ns_params and params_addr = params_addr and hash = hash and rd_addr = rd_addr and rec_addr = rec_addr]
    and out = rec_create_outcome [where ns_params = ns_params and params_addr = params_addr and hash = hash and rd_addr = rd_addr and rec_addr = rec_addr, OF o(1,3,2) cpu ps]
  have "apt_pa (d_rd (mem s' g)) = 0" if r: "?m s = Inr (ret, s')" and g: "is_realm s' g" for ret s' g
  proof (cases "s' = s")
    case True
    then show ?thesis using o(4) g by blast
  next
    case False
    then obtain p where p: "rec_params_read s ns_params params_addr = Some p" using run r by (cases "rec_params_read s ns_params params_addr") auto
    note run = run [unfolded p option.case]
    have n: "\<not> num_aux p > MAX_REC_AUX_GRANULES" using run r False by (auto split: if_splits)
    note run = run [unfolded if_not_P [OF n]]
    have nn: "\<not> (\<nexists>aux. aux_granules s (aux_addrs p) aux)" using run r False by (auto split: if_splits)
    obtain aux g_rec g_rd v a ctx where a: "aux_granules s (aux_addrs p) aux" "rec_creatable s p aux rd_addr rec_addr g_rec g_rd"
      and s': "s' = rec_created hash p aux g_rec g_rd (new_rec cpu p aux g_rec g_rd (d_rd (mem s g_rd)) v a) ctx s"
      using run [unfolded if_not_P [OF nn]] r False by (auto split: if_splits)
    have n': "num_aux p \<le> MAX_REC_AUX_GRANULES" using n by simp
    note f = creatable_facts [OF o(1,3) a(1) n' a(2)]
    have l: "3 < length aux" using f(4) by simp
    note sf = rec_created_fields(6) [OF f(1-3) l, where hash = hash and p = p and s = s and ctx = ctx]
    have "is_realm s g" using g rec_created_realm_inv(3) [OF o(1,3) a(1) n' a(2)] unfolding s' by (auto simp: same_realms_def)
    then show ?thesis using o(4) [of g] f(8) [of g] unfolding s' sf by (auto simp: rd_measured_fields is_realm_def granule_states)
  qed
  then show ?thesis
    using out by (cases "\<exists>p. rec_params_read s ns_params params_addr = Some p \<and> aux_partly s p") (simp_all only: if_True if_False simp_thms keeps_def sys_ok_def, blast)
qed

lemma rec_destroy_keeps:
  assumes ok: "sys_ok cpu s"
  shows "keeps cpu (smc_rec_destroy rec_addr) s"
proof -
  note o = sys_okD [OF ok]
  obtain ret s' where r: "smc_rec_destroy rec_addr s = Inr (ret, s')" "realm_inv s'" "rec_inv cpu s'" "vmid_inv s'" "same_realms s s'"
    and c: "s' = s \<or> (\<exists>g aux rd. granule_in s rec_addr GRANULE_STATE_REC = Some g \<and> rec_parts s g aux rd \<and> s' = rec_destroyed g aux rd s)"
    using rec_destroy_outcome [OF o(1,3,2), of rec_addr]
    by (cases "granule_in s rec_addr GRANULE_STATE_REC"; cases "REFCOUNT (granules s (the (granule_in s rec_addr GRANULE_STATE_REC))) = 0") auto
  have "apt_pa (d_rd (mem s' h)) = 0" if "is_realm s' h" for h
  proof -
    have h: "is_realm s h" using that r(5) by (simp add: same_realms_def)
    from c show ?thesis
    proof (elim disjE exE conjE)
      fix g aux rd
      assume g: "granule_in s rec_addr GRANULE_STATE_REC = Some g" and p: "rec_parts s g aux rd" and s': "s' = rec_destroyed g aux rd s"
      have rec: "is_rec s g" using granule_inD [OF g] by (simp add: is_rec_def)
      note f = rec_parts_facts [OF o(1,3) rec p]
      note sf = rec_destroyed_fields(6) [OF f(1-3)]
      show ?thesis using o(4) [OF h] h f(5) [of h] rec unfolding s' sf by (auto simp: is_realm_def is_rec_def granule_states)
    qed (use o(4) [OF h] in simp)
  qed
  then have "sys_ok cpu s'" using r by (simp add: sys_ok_def)
  with r(1) show ?thesis by (rule keepsI)
qed

section \<open>Commands that only read\<close>

lemma rec_aux_count_keeps:
  assumes ok: "sys_ok cpu s"
  shows "keeps cpu (smc_rec_aux_count rd_addr res) s"
proof (cases "granule_in s rd_addr GRANULE_STATE_RD")
  note idle = realm_invD(1) [OF sys_okD(1) [OF ok]]
  {
    case None
    then show ?thesis using find_rd_none [OF idle None] idle_held [OF idle] ok
      by (intro keepsI [of _ _ "res(0 := RMI_ERROR_INPUT)" s]) (simp_all add: smc_rec_aux_count_def run_simps)
  next
    case (Some g)
    have "smc_rec_aux_count rd_addr res (held {} no_slots s) = Inr (res(0 := RMI_SUCCESS, 1 := ucast (rd_num_rec_aux (d_rd (mem s g)))), s)"
      by (simp add: smc_rec_aux_count_def run_simps rd_steps [OF idle Some] held_simps)
    then show ?thesis using idle_held [OF idle] ok by (intro keepsI) simp_all
  }
qed

lemma describe_entry_run:
  assumes l: "min_starting_level c \<le> l" "l \<le> 3" and e: "entry_ok s c n p e" "l = level c n"
  shows "\<exists>r. \<forall>s1 :: rmm. describe_entry c e l s1 = Inr (r, s1)"
proof -
  obtain k where k: "kinds e l = {k}" "k \<in> insert Assigned_Ns data_kinds \<longrightarrow> 1 \<le> l" using e by (auto simp: entry_ok_def)
  note h = kinds_has [OF k(1)]
  have b: "-1 \<le> l" using l(1) min_starting_level_bounds [of c] by simp
  have ks: "s2tte_is_unassigned_empty e \<longleftrightarrow> k = Unassigned_Empty" "s2tte_is_unassigned_ram e \<longleftrightarrow> k = Unassigned_Ram"
    "s2tte_is_unassigned_destroyed e \<longleftrightarrow> k = Unassigned_Destroyed" "s2tte_is_unassigned_ns e \<longleftrightarrow> k = Unassigned_Ns"
    "s2tte_is_assigned_empty e l \<longleftrightarrow> k = Assigned_Empty" "s2tte_is_assigned_ram e l \<longleftrightarrow> k = Assigned_Ram"
    "s2tte_is_assigned_destroyed e l \<longleftrightarrow> k = Assigned_Destroyed" "s2tte_is_assigned_ns e l \<longleftrightarrow> k = Assigned_Ns" "s2tte_is_table e l \<longleftrightarrow> k = Table"
    using h [of Unassigned_Empty] h [of Unassigned_Ram] h [of Unassigned_Destroyed] h [of Unassigned_Ns] h [of Assigned_Empty]
      h [of Assigned_Ram] h [of Assigned_Destroyed] h [of Assigned_Ns] h [of Table] by (auto simp: has_kind_def)
  have pa: "s2tte_pa c e l s1 = Inr (to_pa_value e (if k = Table then 3 else l) (enable_lpa2 c), s1)"
    if "k \<in> {Assigned_Empty, Assigned_Ram, Table}" for s1 :: rmm
  proof -
    have "s2tte_has_pa e l" using kinds_has_pa [OF k(1)] that by auto
    then show ?thesis using l b ks(9) by (simp add: s2tte_pa_def run_simps)
  qed
  show ?thesis
    using k(2) l b pa by (cases k) (simp_all add: describe_entry_def ks run_simps host_ns_s2tte_def Let_def)
qed

lemma rtt_read_entry_keeps:
  assumes ok: "sys_ok cpu s"
  shows "keeps cpu (smc_rtt_read_entry rd_addr map_addr ulevel res) s"
proof (cases "granule_in s rd_addr GRANULE_STATE_RD")
  note inv = sys_okD(1) [OF ok] note idle = realm_invD(1) [OF inv] note id = idleD [OF idle]
  {
    case None
    then show ?thesis using find_rd_none [OF idle None] idle_held [OF idle] ok
      by (intro keepsI [of _ _ "res(0 := RMI_ERROR_INPUT)" s]) (simp_all add: smc_rtt_read_entry_def run_simps Let_def)
  next
    case (Some g)
    note rs = rd_steps [OF idle Some]
    let ?rd = "d_rd (mem s g)" and ?c = "realm_ctx s g" and ?lv = "sint ulevel"
    have c: "rd_s2_ctx ?rd = ?c" by (simp add: realm_ctx_def)
    have realm: "is_realm s g" using is_realm_in [OF Some] .
    have wf: "wf_ctx ?c" using tree_okD(1) [OF realm_invD(2) [OF inv] realm] .
    then have ms: "min_starting_level ?c \<le> s2_starting_level ?c" by (simp add: wf_ctx_def)
    let ?v = "s2_starting_level ?c \<le> ?lv \<and> ?lv \<le> 3 \<and> map_addr < realm_ipa_size ?rd \<and> addr_lvl_aligned (enable_lpa2 ?c) map_addr ?lv"
    have v: "validate_rtt_entry_cmds map_addr ?lv ?rd s1 = Inr (?v, s1)" for s1 :: rmm
      using ms by (auto simp: validate_rtt_entry_cmds_def run_simps realm_rtt_starting_level_def c validate_map_addr_run)
    have "\<exists>r. smc_rtt_read_entry rd_addr map_addr ulevel res (held {} no_slots s) = Inr (r, s)"
    proof (cases ?v)
      case False
      have "smc_rtt_read_entry rd_addr map_addr ulevel res (held {} no_slots s) = Inr (res(0 := RMI_ERROR_INPUT), s)"
        unfolding smc_rtt_read_entry_def Let_def using False by (simp add: run_bindM run_thenM rs held_simps v run_returnM del: de_Morgan_conj)
      then show ?thesis by blast
    next
      case True
      obtain t l where w: "rtt_walk s ?c map_addr ?lv = (t, l)" by fastforce
      have a: "map_addr < push_bit (unat (ipa_bits ?c)) 1" and lv: "s2_starting_level ?c \<le> ?lv" "?lv \<le> 3"
        using True realm_ipa_size_ctx [OF realm] by auto
      let ?i = "entry_no map_addr l mod 512" and ?M = "no_slots(SLOT_RTT := Some t)"
      obtain n where n: "l = level ?c n" "l \<le> ?lv" "is_rtt s t" "unat (s2_addr_to_idx map_addr l) = ?i" "entry_ok s ?c n (entry_no map_addr l) (words (mem s t) ! ?i)"
        by (rule realm_walk [OF inv realm a lv w])
      note ws = walk_steps [OF inv realm a lv w]
      have "min_starting_level ?c \<le> l" "l \<le> 3" using ms n(1,2) lv by (simp_all add: level_def)
      from describe_entry_run [OF this n(5,1)] obtain st ds rp where
        d: "\<And>s1 :: rmm. describe_entry ?c (words (mem s t) ! ?i) l s1 = Inr ((st, ds, rp), s1)" by (metis prod_cases3)
      have ul: "granule_unlock t (held {t} no_slots s) = Inr ((), s)" using ws(6) id by simp
      have "smc_rtt_read_entry rd_addr map_addr ulevel res (held {} no_slots s) =
          Inr (res(1 := word_of_int l, 2 := st, 3 := ds, 4 := rp, 0 := RMI_SUCCESS), s)"
        using w n(4) True by (simp add: smc_rtt_read_entry_def run_simps rs held_simps v c ws d ul Let_def)
      then show ?thesis by blast
    qed
    then show ?thesis using idle_held [OF idle] ok by (auto simp: keeps_def)
  }
qed

end
