(* ===== verification/Ripas_Set.thy ===== *)
theory Ripas_Set
  imports Ripas_Init Rec_Inv
begin

text \<open>The correctness of RMI\_RTT\_SET\_RIPAS: the host can change the RIPAS of what a realm asked for, and of nothing else.\<close>

section \<open>The request\<close>

definition set_ripas_target :: "rmm \<Rightarrow> u64 \<Rightarrow> u64 \<Rightarrow> u64 \<Rightarrow> u64 \<Rightarrow> nat \<Rightarrow> nat \<Rightarrow> bool" where
  "set_ripas_target s rd_addr rec_addr rbase rtop g r \<longleftrightarrow>
    granule_in s rd_addr GRANULE_STATE_RD = Some g \<and> granule_in s rec_addr GRANULE_STATE_REC = Some r \<and> REFCOUNT (granules s r) = 0 \<and>
    rec_rd s r = Some g \<and> rbase = sr_addr (rec_set_ripas (rec_at s r)) \<and> rbase < rtop \<and> rtop \<le> sr_top (rec_set_ripas (rec_at s r))"

text \<open>The request of the realm was checked when it was made, so that its base is a page of the address space.\<close>

definition request_valid :: "rd \<Rightarrow> u64 \<Rightarrow> bool" where
  "request_valid rd rbase \<longleftrightarrow> rbase < realm_ipa_size rd \<and> addr_lvl_aligned (enable_lpa2 (rd_s2_ctx rd)) rbase S2TT_PAGE_LEVEL"

text \<open>The base of the request is moved.\<close>

definition request_moved :: "nat \<Rightarrow> rec_data \<Rightarrow> u64 \<Rightarrow> rmm \<Rightarrow> rmm" where
  "request_moved r rec a s = upd_mem r (\<lambda>d. d\<lparr>d_rec := rec\<lparr>rec_set_ripas := (rec_set_ripas rec)\<lparr>sr_addr := a\<rparr>\<rparr>\<rparr>) s"

lemma request_moved_kept:
  assumes k: "memory_kept s s1" and r: "is_rec s r"
  shows "memory_kept s1 (request_moved r (rec_at s r) a s1)" (is "memory_kept s1 ?s'")
    "words (mem (request_moved r (rec_at s r) a s1) h) = words (mem s1 h)" "tlb_log (request_moved r (rec_at s r) a s1) = tlb_log s1"
    "sr_addr (rec_set_ripas (rec_at (request_moved r (rec_at s r) a s1) r)) = a"
proof -
  note inv1 = memory_keptD(1) [OF k] note idle = realm_invD(1) [OF inv1] note id = idleD [OF idle] and o = owners_keptD [OF memory_keptD(2) [OF k]]
  have st: "STATE (granules s1 r) = GRANULE_STATE_REC" using o(7) [of r] r by (simp add: is_rec_def)
  have m: "measured (mem s r) (mem s1 r)" using o(8) [of r] r by (simp add: is_rec_def)
  have eq: "(rec_at s r)\<lparr>rec_set_ripas := (rec_set_ripas (rec_at s r))\<lparr>sr_addr := a\<rparr>\<rparr> =
      (rec_at s1 r)\<lparr>rec_set_ripas := (rec_set_ripas (rec_at s1 r))\<lparr>sr_addr := a\<rparr>\<rparr>" using m by (auto simp: measured_def)
  have f: "arm_dram ?s' = arm_dram s1" "granules ?s' = granules s1" "slots ?s' = slots s1" "words (mem ?s' h) = words (mem s1 h)"
    "h \<noteq> r \<Longrightarrow> mem ?s' h = mem s1 h" "tlb_log ?s' = tlb_log s1" "sr_addr (rec_set_ripas (rec_at ?s' r)) = a" for h
    by (simp_all add: request_moved_def upd_mem_def)
  show "words (mem ?s' h) = words (mem s1 h)" "tlb_log ?s' = tlb_log s1" "sr_addr (rec_set_ripas (rec_at ?s' r)) = a" by (rule f)+
  show "memory_kept s1 ?s'"
  proof (rule memory_kept_frame [OF inv1])
    show "idle ?s'"
    proof (rule idle_change [OF idle f(1,3)])
      fix h
      show "STATE (granules ?s' h) = GRANULE_STATE_DELEGATED \<Longrightarrow> STATE (granules s1 h) = GRANULE_STATE_DELEGATED \<and> mem ?s' h = mem s1 h \<or> mem ?s' h = zero_data"
        using st f(2) f(5) [of h] by (cases "h = r") (simp_all add: granule_states)
    qed (use id f in simp_all)
    show "owners_kept s1 ?s'"
    proof (rule owners_keptI)
      fix h
      have "measured (mem s1 h) (mem ?s' h)"
      proof (cases "h = r")
        case True
        have "mem ?s' r = (mem s1 r)\<lparr>d_rec := (rec_at s1 r)\<lparr>rec_set_ripas := (rec_set_ripas (rec_at s1 r))\<lparr>sr_addr := a\<rparr>\<rparr>\<rparr>"
          by (simp add: request_moved_def upd_mem_def eq)
        then show ?thesis unfolding True measured_def
          by (intro exI [of _ "measurement (d_rd (mem s1 r))"] exI [of _ a]) simp
      next
        case False
        then show ?thesis using f(5) unfolding measured_def
          by (intro exI [of _ "measurement (d_rd (mem s1 h))"] exI [of _ "sr_addr (rec_set_ripas (rec_at s1 h))"]) simp
      qed
      then show "granules ?s' h = granules s1 h \<and> measured (mem s1 h) (mem ?s' h) \<or> \<not> owner_state (STATE (granules s1 h)) \<and> \<not> owner_state (STATE (granules ?s' h))"
        using f(2) by simp
    qed (simp_all add: request_moved_def upd_mem_def)
  qed (simp_all add: f is_rtt_def)
qed

lemma ripas_flushed_then:
  assumes "ripas_flushed r s s1 g n p k a ms" "tlb_log s2 = tlb_log s1"
  shows "ripas_flushed r s s2 g n p k a ms"
  using assms by (simp add: ripas_flushed_def)

section \<open>The command\<close>

text \<open>What the command does for a request: the entries of a part of the range, from its base on, change, and the request moves on.\<close>

definition ripas_progress :: "rmm \<Rightarrow> rmm \<Rightarrow> nat \<Rightarrow> nat \<Rightarrow> u64 \<Rightarrow> u64 \<Rightarrow> nat \<Rightarrow> nat \<Rightarrow> smc_result \<Rightarrow> bool" where
  "ripas_progress s s' g r rbase rtop n k res \<longleftrightarrow>
    (let l = level (realm_ctx s g) n; q = rec_set_ripas (rec_at s r)
     in ripas_set (sr_ripas_val q) s s' g n (entry_no rbase l) k \<and>
        ripas_permitted (sr_ripas_val q) (sr_change_destroyed q) s g n (entry_no rbase l) k \<and>
        ripas_flushed (sr_ripas_val q) s s' g n (entry_no rbase l) k rbase (s2tte_map_size l) \<and>
        (res 0 = RMI_SUCCESS \<longleftrightarrow> 0 < k) \<and> (k = 0 \<longrightarrow> s' = s) \<and>
        (0 < k \<longrightarrow> unat (res 1) = unat rbase + k * 2 ^ lvl_lsb l \<and> res 1 \<le> rtop \<and> sr_addr (rec_set_ripas (rec_at s' r)) = res 1))"

lemma set_ripas_walk_held:
  assumes inv: "realm_inv s" and g: "is_realm s g" and r: "is_rec s r" and v: "request_valid (d_rd (mem s g)) rbase" and lt: "rbase < rtop"
  shows "\<exists>res' s' n k. set_ripas_walk g r (rec_at s r) rbase rtop res (held {g, r} (no_slots(SLOT_REC := Some r)) s) =
      Inr (res', held {g, r} (no_slots(SLOT_REC := Some r)) s') \<and> memory_kept s s' \<and> ripas_progress s s' g r rbase rtop n k res'"
proof -
  note idle = realm_invD(1) [OF inv] note id = idleD [OF idle]
  let ?rd = "d_rd (mem s g)" and ?c = "realm_ctx s g" and ?q = "rec_set_ripas (rec_at s r)"
  let ?M = "no_slots(SLOT_REC := Some r, SLOT_RD := Some g)" and ?L = "{g, r}"
  have c: "rd_s2_ctx ?rd = ?c" by (simp add: realm_ctx_def)
  have wf: "wf_ctx ?c" using tree_okD(1) [OF realm_invD(2) [OF inv] g] .
  have v': "rbase < realm_ipa_size ?rd" "addr_lvl_aligned (enable_lpa2 ?c) rbase 3" using v by (simp_all add: request_valid_def c)
  have a: "rbase < push_bit (unat (ipa_bits ?c)) 1" using v' realm_ipa_size_ctx [OF g] by simp
  obtain t l where w: "rtt_walk s ?c rbase 3 = (t, l)" by fastforce
  have ng: "\<forall>h\<in>?L. \<not> is_rtt s h" using g r by (auto simp: is_realm_def is_rec_def is_rtt_def granule_states)
  have M: "?M SLOT_RTT = None" by (simp add: slot_numbers)
  note ws = rd_walk_steps [where M = ?M and L = ?L, OF inv g a w ng M]
  have sl: "s2_starting_level ?c \<le> 3" using wf by (simp add: wf_ctx_def)
  obtain n where n: "l = level ?c n" "in_tree s g n (entry_no rbase l div 512) t" "-1 \<le> l" "l \<le> 3" "unat (s2_addr_to_idx rbase l) = entry_no rbase l mod 512"
    by (rule realm_walk [OF inv g a sl order_refl w])
  have ml: "min_starting_level ?c \<le> l" using wf n(1) by (simp add: wf_ctx_def level_def)
  let ?ms = "s2tte_map_size l" and ?i = "entry_no rbase l mod 512"
  have val: "validate_map_addr rbase lv ?rd s1 = Inr (addr_lvl_aligned (enable_lpa2 ?c) rbase lv, s1)" if "min_starting_level ?c \<le> lv" "lv \<le> 3" for lv and s1 :: rmm
    using that v'(1) by (simp add: run_simps c)
  have mp: "map_slot (Some g) SLOT_RD (held ?L (no_slots(SLOT_REC := Some r)) s) = Inr ((), held ?L ?M s)"
    using g id(3) by (simp add: held_simps is_realm_def)
  have um: "buffer_unmap SLOT_RD (held ?L ?M s1) = Inr ((), held ?L (no_slots(SLOT_REC := Some r)) s1)" for s1
    by (simp add: held_simps slot_numbers)
  note run = set_ripas_walk_def run_simps mp read_held c val ml ws(1,2) w Let_def um
  have stop: ?thesis if "set_ripas_walk g r (rec_at s r) rbase rtop res (held ?L (no_slots(SLOT_REC := Some r)) s) =
      Inr (res(0 := rtt_error l), held ?L (no_slots(SLOT_REC := Some r)) s)"
    using that memory_kept_refl [OF inv] ripas_set_0 [OF inv]
    by (intro exI [of _ "res(0 := rtt_error l)"] exI [of _ s] exI [of _ n] exI [of _ 0])
      (simp add: ripas_progress_def Let_def ripas_flushed_def ripas_permitted_def)
  show ?thesis
  proof (cases "addr_lvl_aligned (enable_lpa2 ?c) rbase l \<and> rbase AND NOT (?ms - 1) = rbase")
    case False
    then show ?thesis
      using v' n(4) ws(3,4) ws(5) [OF memory_kept_refl [OF inv]] ml
      by (intro stop) (auto simp: run rtt_set_ripas_range_def)
  next
    case True
    let ?M' = "?M(SLOT_RTT := Some t)"
    obtain k s1 where lp: "set_ripas_loop ?c t l ?ms rtop (sr_ripas_val ?q) (sr_change_destroyed ?q) [?i..<512] rbase (held (insert t ?L) ?M' s) =
        Inr (rbase + of_nat k * ?ms, held (insert t ?L) ?M' s1)" "?i + k \<le> 512"
      "ripas_set (sr_ripas_val ?q) s s1 g n (entry_no rbase l div 512 * 512 + ?i) k" "\<forall>j < k. rbase + of_nat (Suc j) * ?ms \<le> rtop"
      "ripas_flushed (sr_ripas_val ?q) s s1 g n (entry_no rbase l div 512 * 512 + ?i) k rbase ?ms"
      "ripas_permitted (sr_ripas_val ?q) (sr_change_destroyed ?q) s g n (entry_no rbase l div 512 * 512 + ?i) k" "k = 0 \<longrightarrow> s1 = s"
      using set_ripas_loop_held [OF inv n(2) order_refl, of ?i ?ms rtop "sr_ripas_val ?q" "sr_change_destroyed ?q" rbase "insert t ?L" ?M']
      unfolding n(1) by auto
    have p: "entry_no rbase l div 512 * 512 + ?i = entry_no rbase l" by simp
    note lp = lp [unfolded p]
    note kept = ripas_setD(1) [OF lp(3)]
    have end_addr: "unat (rbase + of_nat k * ?ms) = unat rbase + k * 2 ^ lvl_lsb l"
      by (rule steps_unat [OF n(3,4) wf_ctx_bounds(3) [OF wf a]]) (use lp(2) in simp)
    have pos: "rbase < rbase + of_nat k * ?ms \<longleftrightarrow> 0 < k" using end_addr by (auto simp: word_less_nat_alt)
    show ?thesis
    proof (cases "0 < k")
      case False
      then have "k = 0" "s1 = s" using lp(7) by auto
      then show ?thesis
        using True v' n(4,5) ws(3,4) ws(5) [OF kept] ml lp(1)
        by (intro stop) (simp add: run rtt_set_ripas_range_def)
    next
      case k: True
      let ?top = "rbase + of_nat k * ?ms" let ?s' = "request_moved r (rec_at s r) ?top s1"
      note rm = request_moved_kept [OF kept r, of ?top]
      have kept': "memory_kept s ?s'" using memory_kept_trans [OF kept rm(1)] .
      have wr: "write_rec r ((rec_at s r)\<lparr>rec_set_ripas := ?q\<lparr>sr_addr := ?top\<rparr>\<rparr>) (held (insert t ?L) ?M' s1) = Inr ((), held (insert t ?L) ?M' ?s')"
        by (simp add: held_simps request_moved_def)
      have "set_ripas_walk g r (rec_at s r) rbase rtop res (held ?L (no_slots(SLOT_REC := Some r)) s) =
          Inr (res(0 := RMI_SUCCESS, 1 := ?top), held ?L (no_slots(SLOT_REC := Some r)) ?s')"
        using True v' n(4,5) ws(3,4) ws(5) [OF kept'] ml lp(1) pos k wr by (simp add: run rtt_set_ripas_range_def)
      moreover have "?top \<le> rtop" using lp(4) [rule_format, of "k - 1"] k by simp
      moreover have "ripas_set (sr_ripas_val ?q) s ?s' g n (entry_no rbase l) k" by (rule ripas_set_then [OF lp(3) rm(1)]) (simp add: rm(2))
      ultimately show ?thesis using kept' lp(6) ripas_flushed_then [OF lp(5) rm(3)] rm(4) end_addr k n(1)
        by (intro exI [of _ "res(0 := RMI_SUCCESS, 1 := ?top)"] exI [of _ ?s'] exI [of _ n] exI [of _ k]) (simp add: ripas_progress_def Let_def)
    qed
  qed
qed

lemma smc_rtt_set_ripas_run:
  assumes inv: "realm_inv s"
  shows "if \<exists>g r. set_ripas_target s rd_addr rec_addr rbase rtop g r
    then \<exists>g r. set_ripas_target s rd_addr rec_addr rbase rtop g r \<and>
      (if request_valid (d_rd (mem s g)) rbase
       then \<exists>res' s' n k. smc_rtt_set_ripas rd_addr rec_addr rbase rtop res s = Inr (res', s') \<and> memory_kept s s' \<and>
         ripas_progress s s' g r rbase rtop n k res'
       else smc_rtt_set_ripas rd_addr rec_addr rbase rtop res s = Inl Assert_Fail)
    else \<exists>res'. smc_rtt_set_ripas rd_addr rec_addr rbase rtop res s = Inr (res', s) \<and> res' 0 \<noteq> RMI_SUCCESS"
proof -
  note idle = realm_invD(1) [OF inv] note id = idleD [OF idle]
  let ?run = "smc_rtt_set_ripas rd_addr rec_addr rbase rtop res"
  have h: "?run s = ?run (held {} no_slots s)" using idle_held [OF idle] by simp
  have neq: "RMI_ERROR_INPUT \<noteq> RMI_SUCCESS" "RMI_ERROR_REC \<noteq> RMI_SUCCESS" by (simp_all add: RMI_ERROR_INPUT_def RMI_ERROR_REC_def RMI_SUCCESS_def)
  note two = find_lock_two_held [OF idle, of GRANULE_STATE_RD GRANULE_STATE_REC rd_addr rec_addr]
  show ?thesis
  proof (cases "rbase < rtop \<and> granule_in s rd_addr GRANULE_STATE_RD \<noteq> None \<and> granule_in s rec_addr GRANULE_STATE_REC \<noteq> None")
    case False
    then have no: "\<nexists>g r. set_ripas_target s rd_addr rec_addr rbase rtop g r" by (auto simp: set_ripas_target_def)
    have "?run s = Inr (res(0 := RMI_ERROR_INPUT), s)"
      unfolding h using False two idle_held [OF idle]
      by (cases "granule_in s rd_addr GRANULE_STATE_RD"; cases "granule_in s rec_addr GRANULE_STATE_REC") (auto simp: smc_rtt_set_ripas_def run_simps not_le)
    then show ?thesis unfolding if_not_P [OF no] using neq by simp
  next
    case True
    then obtain g r where gr: "rbase < rtop" "granule_in s rd_addr GRANULE_STATE_RD = Some g" "granule_in s rec_addr GRANULE_STATE_REC = Some r" by blast
    have realm: "is_realm s g" using is_realm_in [OF gr(2)] .
    have rec: "is_rec s r" using granule_inD [OF gr(3)] by (simp add: is_rec_def)
    have ne: "{g, r} - {r} = {g}" using realm rec by (auto simp: is_realm_def is_rec_def granule_states)
    let ?M = "no_slots(SLOT_REC := Some r)" and ?rec = "rec_at s r"
    have lk: "find_lock_two_granules rd_addr GRANULE_STATE_RD rec_addr GRANULE_STATE_REC (held {} no_slots s) = Inr (Some (g, r), held {g, r} no_slots s)"
      using two gr by simp
    have mp: "map_slot (Some r) SLOT_REC (held {g, r} no_slots s) = Inr ((), held {g, r} ?M s)" using rec id(3) by (simp add: held_simps is_rec_def)
    have um: "buffer_unmap SLOT_REC (held {g, r} ?M s1) = Inr ((), held {g, r} no_slots s1)" for s1 by (simp add: held_simps)
    have ul: "granule_unlock r (held {g, r} no_slots s1) = Inr ((), held {g} no_slots s1)" "granule_unlock g (held {g} no_slots s1) = Inr ((), s1)"
      if "memory_kept s s1" for s1
      using idleD(2,4,5) [OF realm_invD(1) [OF memory_keptD(1) [OF that]]] ne by (simp_all add: held_simps held_empty)
    note ul0 = ul [OF memory_kept_refl [OF inv]]
    have b: "\<not> rtop \<le> rbase" using gr(1) by simp
    note run = smc_rtt_set_ripas_def run_simps lk mp um read_held refcount_read_held b
    have tg: "set_ripas_target s rd_addr rec_addr rbase rtop g' r' \<longleftrightarrow> g' = g \<and> r' = r \<and> REFCOUNT (granules s r) = 0 \<and> rec_rd s r = Some g \<and>
        rbase = sr_addr (rec_set_ripas ?rec) \<and> rtop \<le> sr_top (rec_set_ripas ?rec)" for g' r' using gr by (auto simp: set_ripas_target_def)
    show ?thesis
    proof (cases "set_ripas_target s rd_addr rec_addr rbase rtop g r")
      case False
      then have no: "\<nexists>g r. set_ripas_target s rd_addr rec_addr rbase rtop g r" using tg by auto
      have "?run s = Inr (res(0 := if REFCOUNT (granules s r) \<noteq> 0 \<or> rec_rd s r \<noteq> Some g then RMI_ERROR_REC else RMI_ERROR_INPUT), s)"
        unfolding h using False tg ul0 by (auto simp: run not_le)
      then show ?thesis unfolding if_not_P [OF no] using neq by simp
    next
      case yes: True
      then have ex: "\<exists>g r. set_ripas_target s rd_addr rec_addr rbase rtop g r" by blast
      have t: "REFCOUNT (granules s r) = 0" "rec_rd s r = Some g" "sr_addr (rec_set_ripas ?rec) = rbase" "\<not> sr_top (rec_set_ripas ?rec) < rtop"
        using yes by (simp_all add: tg not_less)
      have main: "if request_valid (d_rd (mem s g)) rbase
          then \<exists>res' s' n k. ?run s = Inr (res', s') \<and> memory_kept s s' \<and> ripas_progress s s' g r rbase rtop n k res'
          else ?run s = Inl Assert_Fail"
      proof (cases "request_valid (d_rd (mem s g)) rbase")
        case True
        obtain res' s' n k where w: "set_ripas_walk g r ?rec rbase rtop res (held {g, r} ?M s) = Inr (res', held {g, r} ?M s')"
          "memory_kept s s'" "ripas_progress s s' g r rbase rtop n k res'"
          using set_ripas_walk_held [OF inv realm rec True gr(1), of res] by blast
        have "?run s = Inr (res', s')" unfolding h using t w(1) ul [OF w(2)] by (simp add: run)
        then show ?thesis using True w(2,3) by auto
      next
        case False
        have "validate_map_addr rbase 3 (d_rd (mem s g)) s1 = Inr (False, s1)" for s1 :: rmm using False by (simp add: run_simps request_valid_def)
        then have "set_ripas_walk g r ?rec rbase rtop res (held {g, r} ?M s) = Inl Assert_Fail"
          using realm id(3) by (auto simp: set_ripas_walk_def run_simps held_simps is_realm_def)
        then have "?run s = Inl Assert_Fail" unfolding h using t by (simp add: run)
        then show ?thesis using False by simp
      qed
      show ?thesis unfolding if_P [OF ex] by (rule exI [of _ g], rule exI [of _ r], rule conjI [OF yes main])
    qed
  qed
qed

text \<open>
  C13. A change of the RIPAS is what the realm asked for. RMI\_RTT\_SET\_RIPAS changes nothing unless the execution context belongs to
  the realm, does not run, and has a request that starts at the base and reaches the top that the host gives. Then it changes entries of
  this realm only, for addresses from the base of the request up to its top, from the RIPAS that they have to the one that was asked for; an
  entry with a destroyed page changes only when the request permits it; every page that becomes inaccessible is invalidated in the TLBs; what
  pages the realms have stays the same; and the request moves on to the address that the command returns. The assertion on the base
  fails only for a request whose base is no page of the address space, which the check of the request in the RSI call excludes.
\<close>

theorem set_ripas_correct:
  assumes inv: "realm_inv s"
  shows "if \<exists>g r. set_ripas_target s rd_addr rec_addr rbase rtop g r
    then \<exists>g r. set_ripas_target s rd_addr rec_addr rbase rtop g r \<and>
      (if request_valid (d_rd (mem s g)) rbase
       then \<exists>res' s' n k. smc_rtt_set_ripas rd_addr rec_addr rbase rtop res s = Inr (res', s') \<and> realm_inv s' \<and>
         (\<forall>h P d. maps s' h P d \<longleftrightarrow> maps s h P d) \<and> ripas_progress s s' g r rbase rtop n k res'
       else smc_rtt_set_ripas rd_addr rec_addr rbase rtop res s = Inl Assert_Fail)
    else \<exists>res'. smc_rtt_set_ripas rd_addr rec_addr rbase rtop res s = Inr (res', s) \<and> res' 0 \<noteq> RMI_SUCCESS"
proof (cases "\<exists>g r. set_ripas_target s rd_addr rec_addr rbase rtop g r")
  case False
  then show ?thesis using smc_rtt_set_ripas_run [OF inv, of rd_addr rec_addr rbase rtop res] by (simp only: if_False)
next
  case True
  then obtain g r where t: "set_ripas_target s rd_addr rec_addr rbase rtop g r"
    and run: "if request_valid (d_rd (mem s g)) rbase
       then \<exists>res' s' n k. smc_rtt_set_ripas rd_addr rec_addr rbase rtop res s = Inr (res', s') \<and> memory_kept s s' \<and>
         ripas_progress s s' g r rbase rtop n k res'
       else smc_rtt_set_ripas rd_addr rec_addr rbase rtop res s = Inl Assert_Fail"
    using smc_rtt_set_ripas_run [OF inv, of rd_addr rec_addr rbase rtop res] by (auto simp only: if_P)
  show ?thesis unfolding if_P [OF True]
    by (intro exI [of _ g] exI [of _ r] conjI t) (use run memory_keptD(1,3) in \<open>cases "request_valid (d_rd (mem s g)) rbase"; simp only: if_True if_False; blast\<close>)
qed

text \<open>An execution context in a granule that the host had keeps the realms and their memory.\<close>

definition with_rec :: "nat \<Rightarrow> rec_data \<Rightarrow> rmm \<Rightarrow> rmm" where
  "with_rec r x s = s\<lparr>granules := (granules s)(r := \<lparr>descriptor = 0xC00, owner_tag = 0\<rparr>), mem := (mem s)(r := (mem s r)\<lparr>d_rec := x\<rparr>)\<rparr>"

lemma with_rec_fields [simp]:
  "arm_dram (with_rec r x s) = arm_dram s" "slots (with_rec r x s) = slots s" "h \<noteq> r \<Longrightarrow> granules (with_rec r x s) h = granules s h"
  "h \<noteq> r \<Longrightarrow> mem (with_rec r x s) h = mem s h" "words (mem (with_rec r x s) h) = words (mem s h)" "rec_at (with_rec r x s) r = x"
  "STATE (granules (with_rec r x s) r) = GRANULE_STATE_REC" "REFCOUNT (granules (with_rec r x s) r) = 0" "\<not> LOCKED (granules (with_rec r x s) r)"
  by (simp_all add: with_rec_def STATE_def REFCOUNT_def LOCKED_def GRN_LOCK_BIT_def REFCOUNT_MASK_def
      STATE_MASK_def MASK_def mask_eq_decr_exp granule_states)

lemma with_rec_inv:
  assumes inv: "realm_inv s" and ns: "STATE (granules s r) = GRANULE_STATE_NS"
  shows "realm_inv (with_rec r x s)" "maps (with_rec r x s) g P d \<longleftrightarrow> maps s g P d"
proof -
  let ?s = "with_rec r x s"
  note idle = realm_invD(1) [OF inv] note id = idleD [OF idle]
  have realms: "same_realms s ?s"
    unfolding same_realms_def
  proof (intro conjI allI impI)
    fix h
    show "is_realm ?s h = is_realm s h" using ns by (cases "h = r") (simp_all add: is_realm_def granule_states)
    show "realm_ctx ?s h = realm_ctx s h" if "is_realm s h" using that ns by (cases "h = r") (simp_all add: is_realm_def realm_ctx_def granule_states)
  qed simp
  have "idle ?s"
  proof (rule idle_change [OF idle])
    fix h
    show "\<not> LOCKED (granules ?s h)" using id(2) by (cases "h = r") simp_all
    show "REFCOUNT (granules ?s h) = REFCOUNT (granules s h) \<and> STATE (granules ?s h) = STATE (granules s h) \<or> granule_inv (granules ?s h)"
      by (cases "h = r") (simp_all add: granule_unlocked_invariants_def granule_states)
    show "STATE (granules ?s h) = GRANULE_STATE_DELEGATED \<Longrightarrow>
        STATE (granules s h) = GRANULE_STATE_DELEGATED \<and> mem ?s h = mem s h \<or> mem ?s h = zero_data"
      by (cases "h = r") (simp_all add: granule_states)
  qed (use id in simp_all)
  note fr = realm_inv_frame [OF inv this realms]
  have keep: "is_rtt ?s t \<and> words (mem ?s t) = words (mem s t) \<and> REFCOUNT (granules ?s t) = REFCOUNT (granules s t)"
    if "is_rtt s t" for t using that ns by (cases "t = r") (simp_all add: is_rtt_def granule_states)
  have data: "STATE (granules ?s d) = GRANULE_STATE_DATA" if "STATE (granules s d) = GRANULE_STATE_DATA" for d
    using that ns by (cases "d = r") (simp_all add: granule_states)
  show "realm_inv ?s" by (rule fr(1) [OF keep data])
  show "maps ?s g P d \<longleftrightarrow> maps s g P d" by (rule fr(3) [OF keep data])
qed

text \<open>The example realm with an execution context that asks to make the page that the realm has inaccessible.\<close>

definition demo_request :: rmm where
  "demo_request = with_rec 3 (zero_rec\<lparr>rec_realm_info := (rec_realm_info zero_rec)\<lparr>ri_g_rd := Some 2\<rparr>,
     rec_set_ripas := (rec_set_ripas zero_rec)\<lparr>sr_addr := 0x1000, sr_top := 0x2000, sr_ripas_val := RIPAS_EMPTY, sr_change_destroyed := NO_CHANGE_DESTROYED\<rparr>\<rparr>)
     demo_realm"

lemma demo_request_inv: "realm_inv demo_request" "maps demo_request 2 1 7"
  using with_rec_inv [OF demo_realm_inv, of 3] demo_maps
  by (simp_all add: demo_request_def demo_realm_fields demo_desc_fields granule_states)

theorem set_ripas_correct_witness:
  "set_ripas_target demo_request 0x80002000 0x80003000 0x1000 0x2000 2 3 \<and>
    (\<exists>res' s' n k. smc_rtt_set_ripas 0x80002000 0x80003000 0x1000 0x2000 (\<lambda>_. 0) demo_request = Inr (res', s') \<and> maps s' 2 1 7 \<and>
      ripas_progress demo_request s' 2 3 0x1000 0x2000 n k res')"
proof -
  note f = demo_request_def demo_realm_fields demo_desc_fields
  have g: "granule_in demo_request 0x80002000 GRANULE_STATE_RD = Some 2" "granule_in demo_request 0x80003000 GRANULE_STATE_REC = Some 3"
    by (simp_all add: granule_in_def f demo_granule_addr demo_ns_granule granule_states)
  have t: "set_ripas_target demo_request 0x80002000 0x80003000 0x1000 0x2000 2 3" unfolding set_ripas_target_def g by (simp add: f)
  have u: "g = 2 \<and> r = 3" if "set_ripas_target demo_request 0x80002000 0x80003000 0x1000 0x2000 g r" for g r using that g by (simp add: set_ripas_target_def)
  have v: "request_valid (d_rd (mem demo_request 2)) 0x1000"
    by (simp add: request_valid_def f demo_rd_fields addr_lvl_aligned_def BIT_MASK_ULL_def mask_eq_decr_exp lvl_lsb_def)
  have ex: "\<exists>g r. set_ripas_target demo_request 0x80002000 0x80003000 0x1000 0x2000 g r" using t by blast
  show ?thesis
    using set_ripas_correct [OF demo_request_inv(1), of "0x80002000" "0x80003000" "0x1000" "0x2000" "\<lambda>_. 0"] t u v demo_request_inv(2)
    unfolding if_P [OF ex] by (metis (no_types, lifting))
qed

end
