(* ===== verification/Psci_Correct.thy ===== *)
theory Psci_Correct
  imports Psci Rec_Destroy Ripas_Set
begin

text \<open>The correctness of RMI\_PSCI\_COMPLETE: the host answers a request of an execution context to another of the same realm.\<close>

section \<open>Changes of the registers of execution contexts\<close>

definition recs_changed :: "rmm \<Rightarrow> rmm \<Rightarrow> bool" where
  "recs_changed s s' \<longleftrightarrow> arm_dram s' = arm_dram s \<and> granules s' = granules s \<and> slots s' = slots s \<and> vmids s' = vmids s \<and> feat_vmid16 s' = feat_vmid16 s \<and>
    (\<forall>h. mem s' h = (mem s h)\<lparr>d_rec := rec_at s' h\<rparr> \<and> same_rec (rec_at s h) (rec_at s' h) \<and> (\<not> is_rec s h \<longrightarrow> rec_at s' h = rec_at s h))"

lemma recs_changedD:
  assumes "recs_changed s s'"
  shows "arm_dram s' = arm_dram s" "granules s' = granules s" "slots s' = slots s" "vmids s' = vmids s" "feat_vmid16 s' = feat_vmid16 s"
    "\<not> is_rec s h \<Longrightarrow> mem s' h = mem s h" "words (mem s' h) = words (mem s h)" "d_rd (mem s' h) = d_rd (mem s h)"
    "same_rec (rec_at s h) (rec_at s' h)"
proof -
  have m: "mem s' h = (mem s h)\<lparr>d_rec := rec_at s' h\<rparr>" and r: "same_rec (rec_at s h) (rec_at s' h)" "\<not> is_rec s h \<Longrightarrow> rec_at s' h = rec_at s h"
    using assms unfolding recs_changed_def by blast+
  show "arm_dram s' = arm_dram s" "granules s' = granules s" "slots s' = slots s" "vmids s' = vmids s" "feat_vmid16 s' = feat_vmid16 s"
    using assms by (simp_all add: recs_changed_def)
  show "\<not> is_rec s h \<Longrightarrow> mem s' h = mem s h" using m r(2) by simp
  show "words (mem s' h) = words (mem s h)" "d_rd (mem s' h) = d_rd (mem s h)" by (subst m, simp)+
  show "same_rec (rec_at s h) (rec_at s' h)" by (rule r(1))
qed

lemma recs_changed_realms:
  assumes c: "recs_changed s s'" and inv: "realm_inv s"
  shows "realm_inv s'" "maps s' g P d \<longleftrightarrow> maps s g P d" "same_realms s s'"
proof -
  note d = recs_changedD [OF c] and idle = realm_invD(1) [OF inv] note id = idleD [OF idle]
  show realms: "same_realms s s'" by (simp add: same_realms_def d is_realm_def realm_ctx_def)
  have "idle s'"
  proof (rule idle_change [OF idle d(1,3)])
    fix h
    show "STATE (granules s' h) = GRANULE_STATE_DELEGATED \<Longrightarrow> STATE (granules s h) = GRANULE_STATE_DELEGATED \<and> mem s' h = mem s h \<or> mem s' h = zero_data"
      using d(2) d(6) [of h] by (simp add: is_rec_def granule_states)
  qed (use id d in simp_all)
  note fr = realm_inv_frame [OF inv this realms]
  have keep: "is_rtt s' t \<and> words (mem s' t) = words (mem s t) \<and> REFCOUNT (granules s' t) = REFCOUNT (granules s t)" if "is_rtt s t" for t
    using that d by (simp add: is_rtt_def)
  have data: "STATE (granules s' d) = GRANULE_STATE_DATA" if "STATE (granules s d) = GRANULE_STATE_DATA" for d using that d by simp
  show "realm_inv s'" by (rule fr(1) [OF keep data])
  show "maps s' g P d \<longleftrightarrow> maps s g P d" by (rule fr(3) [OF keep data])
qed

lemma recs_changed_inv:
  assumes c: "recs_changed s s'" and inv: "realm_inv s"
  shows "rec_inv cpu s \<Longrightarrow> rec_inv cpu s'" "vmid_inv s \<Longrightarrow> vmid_inv s'"
proof -
  note d = recs_changedD [OF c]
  show "vmid_inv s \<Longrightarrow> vmid_inv s'" by (rule vmid_inv_same [OF _ d(4,5) recs_changed_realms(3) [OF c inv]])
  show "rec_inv cpu s'" if "rec_inv cpu s"
    by (rule rec_inv_frame [OF that d(1)]) (use rec_invD(5) [OF that] d in \<open>simp_all add: is_rec_def is_realm_def realm_ctx_def\<close>)
qed

lemma recs_changed_trans:
  assumes 1: "recs_changed s s1" and 2: "recs_changed s1 s2"
  shows "recs_changed s s2"
proof -
  have r: "is_rec s1 h \<longleftrightarrow> is_rec s h" for h using recs_changedD(1,2) [OF 1] by (simp add: is_rec_def)
  have "mem s2 h = (mem s h)\<lparr>d_rec := rec_at s2 h\<rparr>" for h
  proof -
    have a: "mem s2 h = (mem s1 h)\<lparr>d_rec := rec_at s2 h\<rparr>" and b: "mem s1 h = (mem s h)\<lparr>d_rec := rec_at s1 h\<rparr>"
      using 1 2 unfolding recs_changed_def by blast+
    have "(mem s1 h)\<lparr>d_rec := rec_at s2 h\<rparr> = (mem s h)\<lparr>d_rec := rec_at s2 h\<rparr>" by (subst b) simp
    then show ?thesis by (subst a)
  qed
  moreover have "same_rec (rec_at s h) (rec_at s2 h)" for h
    using recs_changedD(9) [OF 1, of h] recs_changedD(9) [OF 2, of h] by (simp add: same_rec_def)
  moreover have "\<not> is_rec s h \<longrightarrow> rec_at s2 h = rec_at s h" for h using recs_changedD(6) [OF 1, of h] recs_changedD(6) [OF 2, of h] r by simp
  ultimately show ?thesis using recs_changedD(1-5) [OF 1] recs_changedD(1-5) [OF 2] by (simp add: recs_changed_def)
qed

lemma recs_changed_one:
  assumes "is_rec s r" "same_rec (rec_at s r) x"
  shows "recs_changed s (upd_mem r (\<lambda>d. d\<lparr>d_rec := x\<rparr>) s)"
  using assms by (auto simp: recs_changed_def upd_mem_def)

section \<open>The state of a call\<close>

text \<open>A call of a realm is handled with its execution context mapped, and nothing else.\<close>

abbreviation in_call :: "nat \<Rightarrow> rmm \<Rightarrow> rmm" where
  "in_call g_rec s \<equiv> held {} (no_slots(SLOT_REC := Some g_rec)) s"

section \<open>The request\<close>

definition psci_target :: "rmm \<Rightarrow> u64 \<Rightarrow> u64 \<Rightarrow> nat \<Rightarrow> nat \<Rightarrow> bool" where
  "psci_target s calling_addr target_addr c t \<longleftrightarrow> calling_addr \<noteq> target_addr \<and>
    granule_in s calling_addr GRANULE_STATE_REC = Some c \<and> granule_in s target_addr GRANULE_STATE_REC = Some t \<and>
    REFCOUNT (granules s c) = 0 \<and> rec_psci_pending (rec_at s c) \<and> rec_rd s c = rec_rd s t \<and>
    mpidr_to_rec_idx (rec_regs (rec_at s c) ! 1) = rec_idx (rec_at s t)"

definition is_cpu_on :: "rec_data \<Rightarrow> bool" where
  "is_cpu_on rec \<longleftrightarrow> rec_regs rec ! 0 = ucast SMC32_PSCI_CPU_ON \<or> rec_regs rec ! 0 = ucast SMC64_PSCI_CPU_ON"

definition is_affinity_info :: "rec_data \<Rightarrow> bool" where
  "is_affinity_info rec \<longleftrightarrow> rec_regs rec ! 0 = ucast SMC32_PSCI_AFFINITY_INFO \<or> rec_regs rec ! 0 = ucast SMC64_PSCI_AFFINITY_INFO"

definition on_at :: "rmm \<Rightarrow> nat \<Rightarrow> bool" where
  "on_at s t \<longleftrightarrow> REFCOUNT (granules s t) \<noteq> 0 \<or> rec_runnable (rec_at s t)"

text \<open>The target after it was started for the caller, and the caller with its answer.\<close>

definition started_rec :: "rec_data \<Rightarrow> rec_data \<Rightarrow> rec_data" where
  "started_rec caller target =
    (let r = psci_reset_rec target (sys_sctlr_el1 (rec_sysregs caller))
     in r\<lparr>rec_regs := (rec_regs r)[0 := rec_regs caller ! 3], rec_pc := rec_regs caller ! 2, rec_runnable := True\<rparr>)"

definition answered_rec :: "rec_data \<Rightarrow> u64 \<Rightarrow> rec_data" where
  "answered_rec caller v = caller\<lparr>rec_regs := (rec_regs caller)[0 := v, 1 := 0, 2 := 0, 3 := 0], rec_psci_pending := False\<rparr>"

definition set_rec :: "nat \<Rightarrow> rec_data \<Rightarrow> rmm \<Rightarrow> rmm" where
  "set_rec r x s = upd_mem r (\<lambda>d. d\<lparr>d_rec := x\<rparr>) s"

definition psci_status_ok :: "rec_data \<Rightarrow> u64 \<Rightarrow> bool" where
  "psci_status_ok caller status \<longleftrightarrow> status = PSCI_RETURN_SUCCESS \<or> is_cpu_on caller \<and> status = PSCI_RETURN_DENIED"

text \<open>The answer to the caller, the result for the host, and the new state.\<close>

definition psci_answer :: "rmm \<Rightarrow> nat \<Rightarrow> nat \<Rightarrow> u64 \<Rightarrow> u64" where
  "psci_answer s c t status =
    (if is_cpu_on (rec_at s c) then if on_at s t then PSCI_RETURN_ALREADY_ON else status
     else if on_at s t then PSCI_AFFINITY_INFO_ON else PSCI_AFFINITY_INFO_OFF)"

definition psci_completed :: "rmm \<Rightarrow> nat \<Rightarrow> nat \<Rightarrow> u64 \<Rightarrow> rmm" where
  "psci_completed s c t status =
    set_rec c (answered_rec (rec_at s c) (psci_answer s c t status))
      (if is_cpu_on (rec_at s c) \<and> \<not> on_at s t \<and> status = PSCI_RETURN_SUCCESS then set_rec t (started_rec (rec_at s c) (rec_at s t)) s else s)"

lemma psci_fids:
  "is_cpu_on rec \<Longrightarrow> \<not> is_affinity_info rec" "PSCI_RETURN_SUCCESS \<noteq> PSCI_RETURN_DENIED" "PSCI_RETURN_ALREADY_ON \<noteq> PSCI_RETURN_SUCCESS"
  "PSCI_RETURN_DENIED \<noteq> PSCI_RETURN_ALREADY_ON"
  by (auto simp: is_cpu_on_def is_affinity_info_def SMC32_PSCI_CPU_ON_def SMC64_PSCI_CPU_ON_def SMC32_PSCI_AFFINITY_INFO_def SMC64_PSCI_AFFINITY_INFO_def
      SMC32_PSCI_FID_def SMC64_PSCI_FID_def SMC32_STD_FID_def SMC64_STD_FID_def PSCI_RETURN_SUCCESS_def PSCI_RETURN_DENIED_def PSCI_RETURN_ALREADY_ON_def)

lemma started_fold:
  "(psci_reset_rec target (sys_sctlr_el1 (rec_sysregs caller)))\<lparr>
     rec_regs := (rec_regs (psci_reset_rec target (sys_sctlr_el1 (rec_sysregs caller))))[0 := rec_regs caller ! 3],
     rec_pc := rec_regs caller ! 2, rec_runnable := True\<rparr> = started_rec caller target"
  by (simp add: started_rec_def Let_def)

lemma started_same: "same_rec target (started_rec caller target)" "same_rec caller (answered_rec caller v)"
  by (simp_all add: started_rec_def answered_rec_def same_rec_def psci_reset_rec_def Let_def)

section \<open>The command\<close>

lemma two_recs_held:
  assumes "idle s"
  shows "find_lock_two_granules a1 GRANULE_STATE_REC a2 GRANULE_STATE_REC (held {} no_slots s) =
    (case (granule_in s a1 GRANULE_STATE_REC, granule_in s a2 GRANULE_STATE_REC) of
       (Some c, Some t) \<Rightarrow> if a1 \<noteq> a2 then Inr (Some (c, t), held {c, t} no_slots s) else Inr (None, held {} no_slots s)
     | _ \<Rightarrow> Inr (None, held {} no_slots s))"
proof -
  have ok: "granules_ok s" using idleD(1) [OF assms] by (rule rmm_okD)
  have free: "free_at s a" for a using idleD(2) [OF assms] by (auto simp: free_at_def split: option.split)
  have l: "lock_all [c, t] s = held {c, t} no_slots s" if "granule_at (arm_dram s) a1 = Some c" "granule_at (arm_dram s) a2 = Some t" "a1 \<noteq> a2" for c t
  proof -
    have "c \<noteq> t" using granule_at_inj [OF idleD(3) [OF assms] that(1)] that(2,3) by blast
    then have "upd_granule c set_lock (upd_granule t set_lock (held {} no_slots s)) = held {c, t} no_slots s" by (simp add: held_lock)
    then show ?thesis using idle_held [OF assms] by simp
  qed
  show ?thesis
    using find_lock_two_granules_run [OF ok free free, of a1 GRANULE_STATE_REC a2 GRANULE_STATE_REC] idle_held [OF assms]
    by (cases "granule_at (arm_dram s) a1"; cases "granule_at (arm_dram s) a2") (auto simp: granule_in_def l simp del: lock_all.simps)
qed

lemma psci_request_held:
  assumes t: "psci_target s ca ta c t" and g: "rec_g_rec (rec_at s t) = Some t" "c \<noteq> t"
  shows "psci_complete_request c t status (held {c, t} M s) =
    (if \<not> is_cpu_on (rec_at s c) \<and> \<not> is_affinity_info (rec_at s c) then Inl Assert_Fail
     else if \<not> psci_status_ok (rec_at s c) status then Inr (RMI_ERROR_INPUT, held {c, t} M s)
     else Inr (if is_cpu_on (rec_at s c) \<and> on_at s t \<and> status = PSCI_RETURN_DENIED then RMI_ERROR_INPUT else RMI_SUCCESS,
       held {c, t} M (psci_completed s c t status)))"
proof -
  have p: "rec_psci_pending (rec_at s c)" "rec_rd s c = rec_rd s t" "mpidr_to_rec_idx (rec_regs (rec_at s c) ! 1) = rec_idx (rec_at s t)"
    using t by (simp_all add: psci_target_def)
  note p1 = p(3) [unfolded One_nat_def]
  have on: "target_is_on (rec_at s t) (held {c, t} M s) = Inr (on_at s t, held {c, t} M s)"
    by (simp add: target_is_on_def g run_simps held_simps on_at_def)
  have wr: "psci_write_result c v (held {c, t} M s1) = Inr ((), held {c, t} M (set_rec c (answered_rec (rec_at s1 c) v) s1))" for v s1
    by (simp add: psci_write_result_def run_simps held_simps set_rec_def answered_rec_def)
  have st: "rec_at (set_rec t x s) c = rec_at s c" for x using g(2) by (simp add: set_rec_def upd_mem_def)
  note defs = psci_complete_request_def Let_def run_simps held_simps p p1 on wr psci_completed_def psci_answer_def psci_status_ok_def
    complete_psci_cpu_on_def complete_psci_affinity_info_def set_rec_def [symmetric] started_fold st
  show ?thesis
  proof (cases "is_cpu_on (rec_at s c)")
    case True
    have f: "rec_regs (rec_at s c) ! 0 = ucast SMC32_PSCI_CPU_ON \<or> rec_regs (rec_at s c) ! 0 = ucast SMC64_PSCI_CPU_ON" using True by (simp add: is_cpu_on_def)
    show ?thesis using True f psci_fids by (auto simp: defs)
  next
    case False
    then have f: "\<not> (rec_regs (rec_at s c) ! 0 = ucast SMC32_PSCI_CPU_ON \<or> rec_regs (rec_at s c) ! 0 = ucast SMC64_PSCI_CPU_ON)" by (simp add: is_cpu_on_def)
    show ?thesis
    proof (cases "is_affinity_info (rec_at s c)")
      case True
      then have f2: "rec_regs (rec_at s c) ! 0 = ucast SMC32_PSCI_AFFINITY_INFO \<or> rec_regs (rec_at s c) ! 0 = ucast SMC64_PSCI_AFFINITY_INFO"
        by (simp add: is_affinity_info_def)
      show ?thesis using False True f f2 by (auto simp: defs)
    next
      case no: False
      then have f2: "\<not> (rec_regs (rec_at s c) ! 0 = ucast SMC32_PSCI_AFFINITY_INFO \<or> rec_regs (rec_at s c) ! 0 = ucast SMC64_PSCI_AFFINITY_INFO)"
        by (simp add: is_affinity_info_def)
      show ?thesis using False no f f2 by (simp add: defs)
    qed
  qed
qed

text \<open>A completed request changes the registers of the caller and of the target only.\<close>

lemma psci_completed_changes:
  assumes "is_rec s c" "is_rec s t" "c \<noteq> t"
  shows "recs_changed s (psci_completed s c t status)"
    "rec_at (psci_completed s c t status) c = answered_rec (rec_at s c) (psci_answer s c t status)"
    "rec_at (psci_completed s c t status) t =
      (if is_cpu_on (rec_at s c) \<and> \<not> on_at s t \<and> status = PSCI_RETURN_SUCCESS then started_rec (rec_at s c) (rec_at s t) else rec_at s t)"
    "h \<noteq> c \<Longrightarrow> h \<noteq> t \<Longrightarrow> mem (psci_completed s c t status) h = mem s h"
proof -
  have one: "recs_changed s (set_rec t (started_rec (rec_at s c) (rec_at s t)) s)"
    unfolding set_rec_def by (rule recs_changed_one [OF assms(2) started_same(1)])
  have two: "recs_changed s1 (set_rec c (answered_rec (rec_at s c) v) s1)" if "is_rec s1 c" "rec_at s1 c = rec_at s c" for s1 v
    unfolding set_rec_def by (rule recs_changed_one [OF that(1)]) (simp add: that(2) started_same)
  have ic: "is_rec (set_rec t x s) c" "rec_at (set_rec t x s) c = rec_at s c" for x
    using assms by (simp_all add: is_rec_def set_rec_def upd_mem_def)
  show "recs_changed s (psci_completed s c t status)"
    using recs_changed_trans [OF one two [OF ic]] two [OF assms(1) refl] by (simp add: psci_completed_def)
qed (use assms(3) in \<open>auto simp: psci_completed_def set_rec_def upd_mem_def\<close>)

lemma smc_psci_complete_run:
  assumes idle: "idle s" and named: "\<And>h. is_rec s h \<Longrightarrow> rec_g_rec (rec_at s h) = Some h"
  shows "if \<exists>c t. psci_target s ca ta c t
    then \<exists>c t. psci_target s ca ta c t \<and> is_rec s c \<and> is_rec s t \<and> c \<noteq> t \<and> smc_psci_complete ca ta status s =
      (if \<not> is_cpu_on (rec_at s c) \<and> \<not> is_affinity_info (rec_at s c) then Inl Assert_Fail
       else if \<not> psci_status_ok (rec_at s c) status then Inr (RMI_ERROR_INPUT, s)
       else Inr (if is_cpu_on (rec_at s c) \<and> on_at s t \<and> status = PSCI_RETURN_DENIED then RMI_ERROR_INPUT else RMI_SUCCESS,
         psci_completed s c t status))
    else smc_psci_complete ca ta status s = Inr (RMI_ERROR_INPUT, s)"
proof (cases "\<exists>c t. granule_in s ca GRANULE_STATE_REC = Some c \<and> granule_in s ta GRANULE_STATE_REC = Some t \<and> ca \<noteq> ta")
  note id = idleD [OF idle] and lk = two_recs_held [OF idle, of ca ta] and h = idle_held [OF idle]
  {
    case False
    then have no: "\<nexists>c t. psci_target s ca ta c t" by (auto simp: psci_target_def)
    have "find_lock_two_granules ca GRANULE_STATE_REC ta GRANULE_STATE_REC s = Inr (None, s)"
      using lk False h by (auto split: option.splits)
    then show ?thesis unfolding if_not_P [OF no] by (simp add: smc_psci_complete_def run_simps)
  next
    case True
    then obtain c t where ct: "granule_in s ca GRANULE_STATE_REC = Some c" "granule_in s ta GRANULE_STATE_REC = Some t" "ca \<noteq> ta" by blast
    note gc = granule_inD [OF ct(1)] and gt = granule_inD [OF ct(2)]
    have ne: "c \<noteq> t" using granule_at_inj [OF id(3) gc(1)] gt(1) ct(3) by blast
    have al: "GRANULE_ALIGNED ca" "GRANULE_ALIGNED ta" using granule_at_aligned gc(1) gt(1) id(3) by blast+
    have rec: "is_rec s c" "is_rec s t" using gc gt by (simp_all add: is_rec_def)
    let ?M = "no_slots(SLOT_REC := Some c, SLOT_REC2 := Some t)"
    have l: "find_lock_two_granules ca GRANULE_STATE_REC ta GRANULE_STATE_REC (held {} no_slots s) = Inr (Some (c, t), held {c, t} no_slots s)"
      using lk ct by simp
    have mp: "map_slot (Some c) SLOT_REC (held {c, t} no_slots s) = Inr ((), held {c, t} (no_slots(SLOT_REC := Some c)) s)"
      "map_slot (Some t) SLOT_REC2 (held {c, t} (no_slots(SLOT_REC := Some c)) s) = Inr ((), held {c, t} ?M s)"
      using gc(3) gt(3) id(3) by (simp_all add: map_slot_held is_realm_slot_def slot_numbers)
    have um: "buffer_unmap SLOT_REC2 (held {c, t} ?M s1) = Inr ((), held {c, t} (no_slots(SLOT_REC := Some c)) s1)"
      "buffer_unmap SLOT_REC (held {c, t} (no_slots(SLOT_REC := Some c)) s1) = Inr ((), held {c, t} no_slots s1)" for s1
      by (simp_all add: buffer_unmap_held unmap_slot slot_numbers)
    have ul: "granule_unlock c (held {c, t} no_slots s1) = Inr ((), held {t} no_slots s1)" "granule_unlock t (held {t} no_slots s1) = Inr ((), s1)"
      if "granules s1 = granules s" "slots s1 = slots s" for s1
      using id(2,4,5) ne that by (simp_all add: held_simps held_empty)
    note run = smc_psci_complete_def run_simps al l mp um read_held refcount_read_held
    have tg: "psci_target s ca ta c' t' \<longleftrightarrow> c' = c \<and> t' = t \<and> REFCOUNT (granules s c) = 0 \<and> rec_psci_pending (rec_at s c) \<and>
        rec_rd s c = rec_rd s t \<and> mpidr_to_rec_idx (rec_regs (rec_at s c) ! 1) = rec_idx (rec_at s t)" for c' t'
      using ct by (auto simp: psci_target_def)
    show ?thesis
    proof (cases "psci_target s ca ta c t")
      case False
      then have no: "\<nexists>c t. psci_target s ca ta c t" using tg by auto
      have "REFCOUNT (granules s c) \<noteq> 0 \<or> psci_complete_request c t status (held {c, t} ?M s) = Inr (RMI_ERROR_INPUT, held {c, t} ?M s)"
        using False unfolding tg by (auto simp: psci_complete_request_def run_simps read_held Let_def)
      then have "smc_psci_complete ca ta status (held {} no_slots s) = Inr (RMI_ERROR_INPUT, s)"
        using ul [OF refl refl] by (auto simp: run)
      then show ?thesis unfolding if_not_P [OF no] using h by simp
    next
      case yes: True
      then have ex: "\<exists>c t. psci_target s ca ta c t" by blast
      have z: "REFCOUNT (granules s c) = 0" using yes tg by simp
      note rq = psci_request_held [OF yes named [OF rec(2)] ne, of status ?M]
      have k: "granules (psci_completed s c t status) = granules s" "slots (psci_completed s c t status) = slots s"
        using recs_changedD(2,3) [OF psci_completed_changes(1) [OF rec ne]] by simp_all
      have "smc_psci_complete ca ta status (held {} no_slots s) =
        (if \<not> is_cpu_on (rec_at s c) \<and> \<not> is_affinity_info (rec_at s c) then Inl Assert_Fail
         else if \<not> psci_status_ok (rec_at s c) status then Inr (RMI_ERROR_INPUT, s)
         else Inr (if is_cpu_on (rec_at s c) \<and> on_at s t \<and> status = PSCI_RETURN_DENIED then RMI_ERROR_INPUT else RMI_SUCCESS,
           psci_completed s c t status))"
        using ul [OF refl refl] ul [OF k] z by (auto simp: run rq)
      then show ?thesis unfolding if_P [OF ex] using h yes rec ne by (intro exI [of _ c] exI [of _ t]) simp
    qed
  }
qed

text \<open>
  C14. The host answers a request for another execution context, and cannot do more. RMI\_PSCI\_COMPLETE changes nothing unless the two
  execution contexts are different and of one realm, the caller does not run and has a request pending, and the target is the one
  that the request names. Then the caller gets its answer and has no request pending. The target changes only when the
  request was to turn it on, the host agrees and the target was off: it becomes runnable at the entry point and with the context that the
  caller gave. The host cannot report a target as off that is on, or the reverse. No other memory changes, and the properties that tie
  execution contexts and realms together are kept. The assertion on the function fails only for a request whose function
  identifier has upper bits set, which PSCI calls of the realm may have.
\<close>

theorem psci_complete_correct:
  assumes inv: "realm_inv s" and named: "\<And>h. is_rec s h \<Longrightarrow> rec_g_rec (rec_at s h) = Some h"
  shows "if \<exists>c t. psci_target s ca ta c t
    then \<exists>c t. psci_target s ca ta c t \<and>
      (if \<not> is_cpu_on (rec_at s c) \<and> \<not> is_affinity_info (rec_at s c) then smc_psci_complete ca ta status s = Inl Assert_Fail
       else \<exists>ret s'. smc_psci_complete ca ta status s = Inr (ret, s') \<and>
         (if psci_status_ok (rec_at s c) status
          then rec_at s' c = answered_rec (rec_at s c) (psci_answer s c t status) \<and>
            rec_at s' t = (if is_cpu_on (rec_at s c) \<and> \<not> on_at s t \<and> status = PSCI_RETURN_SUCCESS
              then started_rec (rec_at s c) (rec_at s t) else rec_at s t) \<and>
            (\<forall>h. h \<noteq> c \<and> h \<noteq> t \<longrightarrow> mem s' h = mem s h) \<and>
            (ret = RMI_SUCCESS \<longleftrightarrow> \<not> (is_cpu_on (rec_at s c) \<and> on_at s t \<and> status = PSCI_RETURN_DENIED))
          else ret = RMI_ERROR_INPUT \<and> s' = s) \<and>
         realm_inv s' \<and> (\<forall>g P d. maps s' g P d \<longleftrightarrow> maps s g P d) \<and> (rec_inv cpu s \<and> vmid_inv s \<longrightarrow> rec_inv cpu s' \<and> vmid_inv s'))
    else smc_psci_complete ca ta status s = Inr (RMI_ERROR_INPUT, s)"
proof (cases "\<exists>c t. psci_target s ca ta c t")
  case False
  then show ?thesis using smc_psci_complete_run [OF realm_invD(1) [OF inv] named, of ca ta status] by simp
next
  case True
  obtain c t where tg: "psci_target s ca ta c t" and r: "is_rec s c" "is_rec s t" "c \<noteq> t" and run: "smc_psci_complete ca ta status s =
      (if \<not> is_cpu_on (rec_at s c) \<and> \<not> is_affinity_info (rec_at s c) then Inl Assert_Fail
       else if \<not> psci_status_ok (rec_at s c) status then Inr (RMI_ERROR_INPUT, s)
       else Inr (if is_cpu_on (rec_at s c) \<and> on_at s t \<and> status = PSCI_RETURN_DENIED then RMI_ERROR_INPUT else RMI_SUCCESS,
         psci_completed s c t status))"
    using smc_psci_complete_run [OF realm_invD(1) [OF inv] named, of ca ta status] unfolding if_P [OF True] by blast
  note ch = psci_completed_changes [OF r, where status = status]
  note keep = recs_changed_realms [OF ch(1) inv]
  have neq: "RMI_ERROR_INPUT \<noteq> RMI_SUCCESS" by (simp add: RMI_ERROR_INPUT_def RMI_SUCCESS_def)
  show ?thesis unfolding if_P [OF True]
    by (rule exI [of _ c], rule exI [of _ t]) (simp add: tg run ch keep inv neq recs_changed_inv [OF ch(1) inv])
qed

text \<open>The example realm with two execution contexts, one of which asks to turn the other one on.\<close>

definition demo_pair :: rmm where
  "demo_pair = with_rec 8 (zero_rec\<lparr>rec_g_rec := Some 8, rec_idx := 1, rec_realm_info := (rec_realm_info zero_rec)\<lparr>ri_g_rd := Some 2\<rparr>\<rparr>)
    (with_rec 3 (zero_rec\<lparr>rec_g_rec := Some 3, rec_psci_pending := True, rec_regs := [ucast SMC64_PSCI_CPU_ON, 1, 0x1000, 42],
       rec_realm_info := (rec_realm_info zero_rec)\<lparr>ri_g_rd := Some 2\<rparr>\<rparr>) demo_realm)"

lemma demo_far_granule: "granule_at fvp_layout 0x80008000 = Some 8"
  by (simp add: granule_at_def plat_granule_addr_to_idx_def addr_search.simps fvp_layout_def
      GRANULE_ALIGNED_def GRANULE_SIZE_def mid_def PLAT_ARM_MAX_DRAM_BANKS_def RMM_MAX_GRANULES_def)

lemma demo_pair_fields:
  "realm_inv demo_pair" "is_rec demo_pair h \<Longrightarrow> h = 3 \<or> h = 8" "rec_g_rec (rec_at demo_pair 3) = Some 3" "rec_g_rec (rec_at demo_pair 8) = Some 8"
proof -
  note f = demo_pair_def demo_realm_fields demo_desc_fields granule_states
  show "realm_inv demo_pair" unfolding demo_pair_def by (intro with_rec_inv(1) demo_realm_inv) (simp_all add: f)
  show "is_rec demo_pair h \<Longrightarrow> h = 3 \<or> h = 8" by (cases "h = 8"; cases "h = 3") (auto simp: is_rec_def f split: if_splits)
qed (simp_all add: demo_pair_def)

theorem psci_complete_correct_witness:
  "\<exists>s'. smc_psci_complete 0x80003000 0x80008000 PSCI_RETURN_SUCCESS demo_pair = Inr (RMI_SUCCESS, s') \<and>
    rec_runnable (rec_at s' 8) \<and> rec_pc (rec_at s' 8) = 0x1000 \<and> \<not> rec_psci_pending (rec_at s' 3)"
proof -
  note f = demo_pair_def demo_realm_fields demo_desc_fields granule_states
  have g: "granule_in demo_pair 0x80003000 GRANULE_STATE_REC = Some 3" "granule_in demo_pair 0x80008000 GRANULE_STATE_REC = Some 8"
    by (simp_all add: granule_in_def f demo_ns_granule demo_far_granule)
  have t: "psci_target demo_pair 0x80003000 0x80008000 c t \<longleftrightarrow> c = 3 \<and> t = 8" for c t
    unfolding psci_target_def g by (auto simp: f mpidr_to_rec_idx_def MPIDR_EL1_AFF_def MASK_def mask_eq_decr_exp)
  have on: "is_cpu_on (rec_at demo_pair 3)" "\<not> on_at demo_pair 8" by (simp_all add: f is_cpu_on_def on_at_def zero_rec_def)
  have ok: "psci_status_ok (rec_at demo_pair 3) PSCI_RETURN_SUCCESS" by (simp add: psci_status_ok_def)
  have st: "rec_runnable (started_rec x y)" "rec_pc (started_rec x y) = rec_regs x ! 2" "\<not> rec_psci_pending (answered_rec x v)" for x y v
    by (simp_all add: started_rec_def answered_rec_def Let_def)
  have pc: "rec_regs (rec_at demo_pair 3) ! 2 = 0x1000" by (simp add: f)
  have named: "rec_g_rec (rec_at demo_pair h) = Some h" if "is_rec demo_pair h" for h using demo_pair_fields(2) [OF that] demo_pair_fields(3,4) by auto
  show ?thesis
    using psci_complete_correct [OF demo_pair_fields(1) named, of "0x80003000" "0x80008000" PSCI_RETURN_SUCCESS demo_cpu] on ok pc
    by (auto simp: t st)
qed

end
