(* ===== verification/System_Request.thy ===== *)
theory System_Request
  imports System Psci_Correct
begin

text \<open>
  Requests of a running realm and the whole state: what a realm changes while it runs, and that the two commands with which the host answers
  requests keep the invariant of the whole state.
\<close>

section \<open>The run of a realm\<close>

text \<open>
  A realm runs. It writes the pages that it has; the registers and the requests of its execution contexts change, and
  so may its measurements and its state of life. What ties an execution context to its realm stays the same. The memory that
  realms share by access permission tables is left out.
\<close>

definition ran_mem :: "nat \<Rightarrow> rmm \<Rightarrow> nat \<Rightarrow> gdata \<Rightarrow> bool" where
  "ran_mem g s h x \<longleftrightarrow> x = mem s h \<or>
    (\<exists>P ws. maps s g P h \<and> length ws = 512 \<and> x = (mem s h)\<lparr>words := ws\<rparr>) \<or>
    (\<exists>r. is_rec s h \<and> rec_rd s h = Some g \<and> same_rec (rec_at s h) r \<and> x = (mem s h)\<lparr>d_rec := r\<rparr>) \<or>
    (\<exists>ms st. h = g \<and> is_realm s h \<and> x = (mem s h)\<lparr>d_rd := (d_rd (mem s h))\<lparr>measurement := ms, rd_state := st\<rparr>\<rparr>)"

definition realm_ran :: "nat \<Rightarrow> rmm \<Rightarrow> rmm \<Rightarrow> bool" where
  "realm_ran g s s' \<longleftrightarrow> arm_dram s' = arm_dram s \<and> granules s' = granules s \<and> slots s' = slots s \<and> vmids s' = vmids s \<and> feat_vmid16 s' = feat_vmid16 s \<and>
    (\<forall>h. ran_mem g s h (mem s' h))"

lemma ran_mem_cases:
  assumes "ran_mem g s h x" "realm_inv s"
  obtains "x = mem s h"
  | ws where "STATE (granules s h) = GRANULE_STATE_DATA" "length ws = 512" "x = (mem s h)\<lparr>words := ws\<rparr>"
  | r where "is_rec s h" "same_rec (rec_at s h) r" "x = (mem s h)\<lparr>d_rec := r\<rparr>"
  | ms st where "is_realm s h" "x = (mem s h)\<lparr>d_rd := (d_rd (mem s h))\<lparr>measurement := ms, rd_state := st\<rparr>\<rparr>"
  using assms(1) realm_invD(5) [OF assms(2)] unfolding ran_mem_def by blast

lemma realm_ran_fields:
  assumes r: "realm_ran g s s'" and inv: "realm_inv s"
  shows "length (words (mem s' h)) = 512" "STATE (granules s h) \<noteq> GRANULE_STATE_DATA \<Longrightarrow> words (mem s' h) = words (mem s h)"
    "same_rec (rec_at s h) (rec_at s' h)" "realm_ctx s' h = realm_ctx s h" "rec_count (d_rd (mem s' h)) = rec_count (d_rd (mem s h))"
    "rd_ok cpu (d_rd (mem s' h)) \<longleftrightarrow> rd_ok cpu (d_rd (mem s h))" "apt_pa (d_rd (mem s' h)) = apt_pa (d_rd (mem s h))"
    "STATE (granules s h) = GRANULE_STATE_DELEGATED \<Longrightarrow> mem s' h = mem s h"
proof -
  have "ran_mem g s h (mem s' h)" using r by (simp add: realm_ran_def)
  note c = ran_mem_cases [OF this inv] and l = idleD(6) [OF realm_invD(1) [OF inv], of h]
  show "length (words (mem s' h)) = 512" by (rule c) (use l in simp_all)
  show "STATE (granules s h) \<noteq> GRANULE_STATE_DATA \<Longrightarrow> words (mem s' h) = words (mem s h)" by (rule c) simp_all
  show "same_rec (rec_at s h) (rec_at s' h)" by (rule c) simp_all
  show "realm_ctx s' h = realm_ctx s h" "rec_count (d_rd (mem s' h)) = rec_count (d_rd (mem s h))"
    "rd_ok cpu (d_rd (mem s' h)) \<longleftrightarrow> rd_ok cpu (d_rd (mem s h))" "apt_pa (d_rd (mem s' h)) = apt_pa (d_rd (mem s h))"
    by (rule c; simp add: realm_ctx_def rd_ok_def)+
  show "STATE (granules s h) = GRANULE_STATE_DELEGATED \<Longrightarrow> mem s' h = mem s h"
    by (rule c) (simp_all add: is_rec_def is_realm_def granule_states)
qed

lemma realm_ran_keeps:
  assumes ok: "sys_ok cpu s" and r: "realm_ran g s s'"
  shows "sys_ok cpu s'"
proof -
  note o = sys_okD [OF ok] note inv = o(1) note f = realm_ran_fields [OF r inv] and idle = realm_invD(1) [OF inv] note id = idleD [OF idle]
  have d: "arm_dram s' = arm_dram s" "granules s' = granules s" "slots s' = slots s" "vmids s' = vmids s" "feat_vmid16 s' = feat_vmid16 s"
    using r by (simp_all add: realm_ran_def)
  have realms: "same_realms s s'" by (simp add: same_realms_def d is_realm_def f)
  have "idle s'"
  proof (rule idle_change [OF idle d(1,3)])
    fix h
    show "STATE (granules s' h) = GRANULE_STATE_DELEGATED \<Longrightarrow> STATE (granules s h) = GRANULE_STATE_DELEGATED \<and> mem s' h = mem s h \<or> mem s' h = zero_data"
      using d(2) f(8) [of h] by simp
  qed (use id d f in simp_all)
  note fr = realm_inv_frame [OF inv this realms]
  have "realm_inv s'"
    by (rule fr(1)) (use d f(2) in \<open>auto simp: is_rtt_def granule_states\<close>)
  moreover have "vmid_inv s'" by (rule vmid_inv_same [OF o(2) d(4,5) realms])
  moreover have "rec_inv cpu s'"
    by (rule rec_inv_frame [OF o(3) d(1)]) (use rec_invD(5) [OF o(3)] d f in \<open>simp_all add: is_rec_def is_realm_def\<close>)
  moreover have "apt_pa (d_rd (mem s' h)) = 0" if "is_realm s' h" for h using that o(4) [of h] f(7) [of h] d by (simp add: is_realm_def)
  ultimately show ?thesis by (simp add: sys_ok_def)
qed

text \<open>The run leaves what the other realms have.\<close>

lemma realm_ran_others:
  assumes r: "realm_ran g s s'" and inv: "realm_inv s" and ne: "g' \<noteq> g"
  shows "maps s g' P d \<Longrightarrow> mem s' d = mem s d" "is_realm s g' \<Longrightarrow> mem s' g' = mem s g'" "is_rec s h \<Longrightarrow> rec_rd s h = Some g' \<Longrightarrow> mem s' h = mem s h"
    "is_rtt s h \<Longrightarrow> mem s' h = mem s h"
proof -
  have d: "\<not> is_rec s h" "\<not> is_realm s h" "\<not> is_rtt s h" if "maps s x Q h" for x Q h
    using realm_invD(5) [OF inv that] by (simp_all add: is_rec_def is_realm_def is_rtt_def granule_states)
  have e: "is_rec s h \<Longrightarrow> \<not> is_realm s h" "is_rtt s h \<Longrightarrow> \<not> is_realm s h \<and> \<not> is_rec s h" for h
    by (auto simp: is_rec_def is_realm_def is_rtt_def granule_states)
  have c: "mem s' h = mem s h \<or> (\<exists>P. maps s g P h) \<or> is_rec s h \<and> rec_rd s h = Some g \<or> h = g \<and> is_realm s h" for h
    using r unfolding realm_ran_def ran_mem_def by blast
  show "mem s' d = mem s d" if "maps s g' P d" using c [of d] d(1,2) [OF that] realm_invD(6) [OF inv that] ne by blast
  show "mem s' g' = mem s g'" if "is_realm s g'" using c [of g'] d(2) e(1) that ne by blast
  show "mem s' h = mem s h" if "is_rec s h" "rec_rd s h = Some g'" using c [of h] that d(1) e(1) ne by auto
  show "mem s' h = mem s h" if "is_rtt s h" using c [of h] that d(3) e(2) by blast
qed

section \<open>The answers of the host\<close>

text \<open>The request that the command is to answer has a base that is a page, and a function identifier without upper bits.\<close>

definition ripas_request_ok :: "rmm \<Rightarrow> u64 \<Rightarrow> u64 \<Rightarrow> u64 \<Rightarrow> u64 \<Rightarrow> bool" where
  "ripas_request_ok s rd_addr rec_addr rbase rtop \<longleftrightarrow>
    (\<forall>g r. set_ripas_target s rd_addr rec_addr rbase rtop g r \<longrightarrow> request_valid (d_rd (mem s g)) rbase)"

definition psci_request_ok :: "rmm \<Rightarrow> u64 \<Rightarrow> u64 \<Rightarrow> bool" where
  "psci_request_ok s ca ta \<longleftrightarrow> (\<forall>c t. psci_target s ca ta c t \<longrightarrow> is_cpu_on (rec_at s c) \<or> is_affinity_info (rec_at s c))"

lemma set_ripas_keeps:
  assumes ok: "sys_ok cpu s"
  shows "if ripas_request_ok s rd_addr rec_addr rbase rtop then keeps cpu (smc_rtt_set_ripas rd_addr rec_addr rbase rtop res) s
    else smc_rtt_set_ripas rd_addr rec_addr rbase rtop res s = Inl Assert_Fail"
proof (cases "\<exists>g r. set_ripas_target s rd_addr rec_addr rbase rtop g r")
  note run = smc_rtt_set_ripas_run [OF sys_okD(1) [OF ok], of rd_addr rec_addr rbase rtop res]
  case False
  then have "ripas_request_ok s rd_addr rec_addr rbase rtop" by (simp add: ripas_request_ok_def)
  moreover have "keeps cpu (smc_rtt_set_ripas rd_addr rec_addr rbase rtop res) s" using run ok unfolding if_not_P [OF False] by (auto intro: keepsI)
  ultimately show ?thesis by simp
next
  note run = smc_rtt_set_ripas_run [OF sys_okD(1) [OF ok], of rd_addr rec_addr rbase rtop res]
  case True
  then obtain g r where t: "set_ripas_target s rd_addr rec_addr rbase rtop g r"
    and run: "if request_valid (d_rd (mem s g)) rbase
       then \<exists>res' s' n k. smc_rtt_set_ripas rd_addr rec_addr rbase rtop res s = Inr (res', s') \<and> memory_kept s s' \<and>
         ripas_progress s s' g r rbase rtop n k res'
       else smc_rtt_set_ripas rd_addr rec_addr rbase rtop res s = Inl Assert_Fail"
    using run by (auto simp only: if_P)
  have u: "ripas_request_ok s rd_addr rec_addr rbase rtop \<longleftrightarrow> request_valid (d_rd (mem s g)) rbase"
    using t by (auto simp: ripas_request_ok_def set_ripas_target_def)
  show ?thesis
    using run sys_ok_owners [OF ok memory_keptD(1,2)] unfolding u
    by (cases "request_valid (d_rd (mem s g)) rbase") (auto simp: keeps_def)
qed

lemma psci_complete_keeps:
  assumes ok: "sys_ok cpu s"
  shows "if psci_request_ok s ca ta then keeps cpu (smc_psci_complete ca ta status) s else smc_psci_complete ca ta status s = Inl Assert_Fail"
proof -
  note o = sys_okD [OF ok]
  have named: "rec_g_rec (rec_at s h) = Some h" if "is_rec s h" for h using rec_invD(1) [OF o(3) that] by (simp add: rec_ok_def)
  note run = smc_psci_complete_run [OF realm_invD(1) [OF o(1)] named, of ca ta status]
  show ?thesis
  proof (cases "\<exists>c t. psci_target s ca ta c t")
    case False
    then show ?thesis using run ok unfolding if_not_P [OF False] by (auto simp: psci_request_ok_def intro: keepsI)
  next
    case True
    then obtain c t where tg: "psci_target s ca ta c t" and r: "is_rec s c" "is_rec s t" "c \<noteq> t" and run: "smc_psci_complete ca ta status s =
      (if \<not> is_cpu_on (rec_at s c) \<and> \<not> is_affinity_info (rec_at s c) then Inl Assert_Fail
       else if \<not> psci_status_ok (rec_at s c) status then Inr (RMI_ERROR_INPUT, s)
       else Inr (if is_cpu_on (rec_at s c) \<and> on_at s t \<and> status = PSCI_RETURN_DENIED then RMI_ERROR_INPUT else RMI_SUCCESS,
         psci_completed s c t status))"
      using run unfolding if_P [OF True] by blast
    have u: "psci_request_ok s ca ta \<longleftrightarrow> is_cpu_on (rec_at s c) \<or> is_affinity_info (rec_at s c)"
      using tg by (auto simp: psci_request_ok_def psci_target_def)
    note ch = psci_completed_changes(1) [OF r, of status] note d = recs_changedD [OF ch]
    have "sys_ok cpu (psci_completed s c t status)"
      using recs_changed_realms(1) [OF ch o(1)] recs_changed_inv [OF ch o(1)] o d by (simp add: sys_ok_def is_realm_def)
    then show ?thesis using run ok unfolding u by (auto simp: keeps_def)
  qed
qed

end
