(* ===== verification/Reach.thy ===== *)
theory Reach
  imports System_Realm System_Request
begin

text \<open>
  The calls of the host as steps of a transition system. The state of the RMM and of the calling processor starts as at boot and
  changes by the calls of the host and by realms that run; the memory of the host and the processor that makes the call are different at
  each step. The invariant of the whole state holds in every reachable state, so each command finds it and, but for four
  assertions, returns.
\<close>

section \<open>The environment of a call\<close>

text \<open>The SIMD registers belong to the host, and its context has been initialised.\<close>

definition pe_ok :: "pe \<Rightarrow> bool" where
  "pe_ok p \<longleftrightarrow> \<not> simd_state_saved p \<and> simd_sflags (ns_simd_ctx p) AND SIMD_SFLAG_INIT_DONE \<noteq> 0 \<and>
    simd_sflags (ns_simd_ctx p) AND SIMD_SFLAG_SAVED = 0"

text \<open>
  The arrays that are read from the memory of the host have the lengths of their C types, and EL3 takes back every granule
  that was delegated to it.
\<close>

definition env_ok :: "cpu_regs \<Rightarrow> 'a rmi_env_scheme \<Rightarrow> bool" where
  "env_ok cpu env \<longleftrightarrow> env_cpu env = cpu \<and> (\<forall>g. wf_rec_params (fst (env_rec_params env g))) \<and> ns_read_ok (env_ns_data env) \<and>
    (\<forall>a. env_gtsi_undelegate env a)"

definition host_id :: "u32 \<Rightarrow> u32" where
  "host_id fid = RMI_HANDLER_ID (fid AND NOT SMC_SVE_HINT)"

text \<open>All calls but RMI\_REC\_ENTER, for which the run of a realm stands, and the two on access permission tables.\<close>

definition managing_call :: "u32 \<Rightarrow> bool" where
  "managing_call fid \<longleftrightarrow> host_id fid \<notin> {0xc, 0x1a, 0x1b}"

text \<open>
  The arguments are outside the four cases in which an assertion fails: a level above the starting level of the tables for a mapping of
  non-secure memory; auxiliary granules of which the first can be claimed and another cannot; and the answer to a request of a realm
  whose base is no page of its address space, or whose PSCI function identifier has upper bits set.
\<close>

definition call_allowed :: "'a rmi_env_scheme \<Rightarrow> rmm \<Rightarrow> u32 \<Rightarrow> u64 \<Rightarrow> u64 \<Rightarrow> u64 \<Rightarrow> u64 \<Rightarrow> bool" where
  "call_allowed env s fid arg0 arg1 arg2 arg3 \<longleftrightarrow>
    (host_id fid \<in> {0xf, 0x12} \<longrightarrow> ns_level_ok s arg0 arg2) \<and>
    (host_id fid = 0xa \<longrightarrow> (\<nexists>p. rec_params_read s (env_rec_params env) arg2 = Some p \<and> aux_partly s p)) \<and>
    (host_id fid = 0x14 \<longrightarrow> psci_request_ok s arg0 arg1) \<and>
    (host_id fid = 0x19 \<longrightarrow> ripas_request_ok s arg0 arg1 arg2 arg3)"

section \<open>The handlers\<close>

definition handler_ok :: "cpu_regs \<Rightarrow> (sys, smc_outcome) M \<Rightarrow> rmm \<Rightarrow> bool" where
  "handler_ok cpu f s \<longleftrightarrow> (\<forall>p. \<exists>res s'. f (s, p) = Inr (Some (res, None), (s', p)) \<and> sys_ok cpu s')"

definition handler_safe :: "cpu_regs \<Rightarrow> (sys, smc_outcome) M \<Rightarrow> rmm \<Rightarrow> bool" where
  "handler_safe cpu f s \<longleftrightarrow> (\<forall>p. f (s, p) = Inl Assert_Fail) \<or> handler_ok cpu f s"

lemma status_only_ok: "keeps cpu m s \<Longrightarrow> handler_ok cpu (status_only res m) s"
  by (auto simp: keeps_def handler_ok_def status_only_def onR_def run_simps)

lemma outputs_ok: "keeps cpu m s \<Longrightarrow> handler_ok cpu (outputs m) s"
  by (auto simp: keeps_def handler_ok_def outputs_def onR_def run_simps)

lemma feature_register_keeps:
  assumes "sys_ok cpu s" "cpu_ok cpu"
  shows "keeps cpu (smc_read_feature_register cpu index res) s"
  using assms by (auto simp: keeps_def smc_read_feature_register_def run_simps feature_register_run)

lemma version_keeps: "sys_ok cpu s \<Longrightarrow> keeps cpu (returnM r) s"
  by (auto simp: keeps_def run_simps)

lemmas handlers_keep =
  version_keeps feature_register_keeps delegate_keeps undelegate_keeps realm_create_keeps realm_destroy_keeps realm_activate_keeps
  rec_destroy_keeps data_create_known_keeps data_create_unknown_keeps data_destroy_keeps rtt_create_keeps rtt_destroy_keeps
  rtt_fold_keeps map_unprotected_keeps rtt_read_entry_keeps rec_aux_count_keeps init_ripas_keeps

lemma managing_handler_ok:
  assumes ok: "sys_ok cpu s" and cpu: "cpu_ok cpu" "sve_ok cpu" and env: "env_ok cpu env"
    and m: "managing_call fid" "call_allowed env s fid arg0 arg1 arg2 arg3"
    and f: "smc_handlers env fuel (host_id fid) arg0 arg1 arg2 arg3 arg4 res = Some f"
  shows "handler_ok cpu f s"
proof -
  note e = env [unfolded env_ok_def]
  have ne: "env_cpu env = cpu" "ns_read_ok (env_ns_data env)" "env_gtsi_undelegate env arg0" "\<And>g. wf_rec_params (fst (env_rec_params env g))"
    using e by blast+
  have rc: "keeps cpu (smc_rec_create (env_hash env) cpu (env_rec_params env) arg0 arg1 arg2) s" if "host_id fid = 0xa"
    using rec_create_keeps [where ns_params = "env_rec_params env" and rd_addr = arg0 and rec_addr = arg1 and params_addr = arg2, OF ok cpu(1) ne(4)]
      m(2) that by (auto simp: call_allowed_def split: if_splits)
  have ns: "ns_level_ok s arg0 arg2" if "host_id fid = 0xf \<or> host_id fid = 0x12" using m(2) that by (auto simp: call_allowed_def)
  have rq: "host_id fid = 0x14 \<Longrightarrow> keeps cpu (smc_psci_complete arg0 arg1 arg2) s" "host_id fid = 0x19 \<Longrightarrow> keeps cpu (smc_rtt_set_ripas arg0 arg1 arg2 arg3 res) s"
    using psci_complete_keeps [OF ok, of arg0 arg1 arg2] set_ripas_keeps [OF ok, of arg0 arg1 arg2 arg3 res] m(2) by (simp_all add: call_allowed_def)
  show ?thesis
    using f m(1) rc ns rq unfolding smc_handlers_def ne(1) managing_call_def
    by (auto split: if_splits intro!: status_only_ok outputs_ok handlers_keep ok cpu ne)
qed

text \<open>The four assertions.\<close>

lemma ns_above_start:
  assumes inv: "realm_inv s" and g: "granule_in s rd_addr GRANULE_STATE_RD = Some g" and lv: "1 \<le> lv" "lv \<le> 3" "lv < s2_starting_level (realm_ctx s g)"
  shows "map_unmap_ns rd_addr map_addr lv h op res s = Inl Assert_Fail \<or> map_unmap_ns rd_addr map_addr lv h op res s = Inr (res(0 := RMI_ERROR_INPUT), s)"
proof -
  let ?rd = "d_rd (mem s g)" and ?c = "realm_ctx s g"
  note idle = realm_invD(1) [OF inv] note rs = rd_steps [OF idle g]
  have c: "rd_s2_ctx ?rd = ?c" by (simp add: realm_ctx_def)
  have realm: "is_realm s g" using is_realm_in [OF g] .
  let ?v = "map_addr < realm_ipa_size ?rd \<and> addr_lvl_aligned (enable_lpa2 ?c) map_addr lv"
  have val: "validate_rtt_map_cmds map_addr lv ?rd s1 = Inr (?v, s1)" for s1 :: rmm
    using lv min_starting_level_bounds(2) [of ?c] by (simp add: validate_rtt_map_cmds_def run_simps c)
  obtain hv where hv: "\<And>s1 :: rmm. host_ns_s2tte_is_valid ?c h lv s1 = Inr (hv, s1)" using host_ns_valid_run [OF lv(1,2), of ?c h] by blast
  let ?ok = "(op = MAP_NS \<longrightarrow> hv) \<and> ?v \<and> \<not> addr_in_par ?rd map_addr"
  have "map_unmap_ns rd_addr map_addr lv h op res (held {} no_slots s) = (if ?ok then Inl Assert_Fail else Inr (res(0 := RMI_ERROR_INPUT), s))"
  proof (cases ?ok)
    case False
    then show ?thesis
      by (cases "op = MAP_NS"; cases hv) (auto simp: map_unmap_ns_def run_simps rs read_held c hv val Let_def)
  next
    case True
    then have a: "map_addr < push_bit (unat (ipa_bits ?c)) 1" using realm_ipa_size_ctx [OF realm] by simp
    have "s2_starting_level ?c \<le> 3" using tree_okD(1) [OF realm_invD(2) [OF inv] realm] by (simp add: wf_ctx_def)
    then obtain t l where w: "rtt_walk s ?c map_addr 3 = (t, l)" "s2_starting_level ?c \<le> 3" by fastforce
    note ws = walk_steps [OF inv realm a w(2) order_refl w(1)]
    have "s2tt_walk_lock_unlock ?c map_addr lv s1 = Inl Assert_Fail" for s1
      using lv(3) by (simp add: s2tt_walk_lock_unlock_def run_simps Let_def)
    then show ?thesis using True
      by (cases "op = MAP_NS") (simp_all add: map_unmap_ns_def run_simps rs read_held c hv val ws(1,2) Let_def)
  qed
  then show ?thesis using idle_held [OF idle] by (cases ?ok) simp_all
qed

lemma ns_above_start_safe:
  assumes ok: "sys_ok cpu s" and l: "\<not> ns_level_ok s rd_addr ulevel"
  shows "smc_rtt_map_unprotected rd_addr map_addr ulevel h s = Inl Assert_Fail \<or> keeps cpu (smc_rtt_map_unprotected rd_addr map_addr ulevel h) s"
    "smc_rtt_unmap_unprotected rd_addr map_addr ulevel res s = Inl Assert_Fail \<or> keeps cpu (smc_rtt_unmap_unprotected rd_addr map_addr ulevel res) s"
proof -
  obtain g where g: "granule_in s rd_addr GRANULE_STATE_RD = Some g" "1 \<le> sint ulevel" "sint ulevel \<le> 3" "sint ulevel < s2_starting_level (realm_ctx s g)"
    using l by (auto simp: ns_level_ok_def not_le)
  have n: "\<not> (sint ulevel < 1 \<or> sint ulevel > 3)" using g(2,3) by simp
  note r = ns_above_start [OF sys_okD(1) [OF ok] g, of map_addr]
  show "smc_rtt_map_unprotected rd_addr map_addr ulevel h s = Inl Assert_Fail \<or> keeps cpu (smc_rtt_map_unprotected rd_addr map_addr ulevel h) s"
    using r [of h MAP_NS "\<lambda>_. 0"] ok
    by (elim disjE) (auto simp only: smc_rtt_map_unprotected_def Let_def if_not_P [OF n] keeps_def run_bindM run_returnM sum.case fst_conv snd_conv sum.inject prod.inject ex_simps simp_thms)
  show "smc_rtt_unmap_unprotected rd_addr map_addr ulevel res s = Inl Assert_Fail \<or> keeps cpu (smc_rtt_unmap_unprotected rd_addr map_addr ulevel res) s"
    using r [of 0 UNMAP_NS res] ok
    by (auto simp only: smc_rtt_unmap_unprotected_def Let_def if_not_P [OF n] keeps_def)
qed

lemma status_only_safe: "m s = Inl Assert_Fail \<or> keeps cpu m s \<Longrightarrow> handler_safe cpu (status_only res m) s"
  using status_only_ok [of cpu m s res] by (auto simp: handler_safe_def status_only_def onR_def run_simps)

lemma outputs_safe: "m s = Inl Assert_Fail \<or> keeps cpu m s \<Longrightarrow> handler_safe cpu (outputs m) s"
  using outputs_ok [of cpu m s] by (auto simp: handler_safe_def outputs_def onR_def run_simps)

lemma managing_handler_safe:
  assumes ok: "sys_ok cpu s" and cpu: "cpu_ok cpu" "sve_ok cpu" and env: "env_ok cpu env" and m: "managing_call fid"
    and f: "smc_handlers env fuel (host_id fid) arg0 arg1 arg2 arg3 arg4 res = Some f"
  shows "handler_safe cpu f s"
proof (cases "call_allowed env s fid arg0 arg1 arg2 arg3")
  case True
  then show ?thesis using managing_handler_ok [OF ok cpu env m _ f] by (simp add: handler_safe_def)
next
  case False
  have e: "env_cpu env = cpu" "\<And>g. wf_rec_params (fst (env_rec_params env g))" using env by (simp_all add: env_ok_def)
  consider "host_id fid = 0xf" "\<not> ns_level_ok s arg0 arg2" | "host_id fid = 0x12" "\<not> ns_level_ok s arg0 arg2"
    | "host_id fid = 0x14" "\<not> psci_request_ok s arg0 arg1" | "host_id fid = 0x19" "\<not> ripas_request_ok s arg0 arg1 arg2 arg3"
    | "host_id fid = 0xa" "\<exists>p. rec_params_read s (env_rec_params env) arg2 = Some p \<and> aux_partly s p"
    using False by (auto simp: call_allowed_def)
  then show ?thesis
  proof cases
    case 1
    then have "f = status_only res (smc_rtt_map_unprotected arg0 arg1 arg2 arg3)" using f by (simp add: smc_handlers_def)
    then show ?thesis using status_only_safe ns_above_start_safe(1) [OF ok 1(2)] by simp
  next
    case 2
    then have "f = outputs (smc_rtt_unmap_unprotected arg0 arg1 arg2 res)" using f by (simp add: smc_handlers_def)
    then show ?thesis using outputs_safe ns_above_start_safe(2) [OF ok 2(2)] by simp
  next
    case 3
    then have "f = status_only res (smc_psci_complete arg0 arg1 arg2)" using f by (simp add: smc_handlers_def)
    then show ?thesis using psci_complete_keeps [OF ok, of arg0 arg1 arg2] 3(2) by (simp add: status_only_safe)
  next
    case 4
    then have "f = outputs (smc_rtt_set_ripas arg0 arg1 arg2 arg3 res)" using f by (simp add: smc_handlers_def)
    then show ?thesis using set_ripas_keeps [OF ok, of arg0 arg1 arg2 arg3 res] 4(2) by (simp add: outputs_safe)
  next
    case 5
    then have "f = status_only res (smc_rec_create (env_hash env) cpu (env_rec_params env) arg0 arg1 arg2)" using f e(1) by (simp add: smc_handlers_def)
    moreover have "smc_rec_create (env_hash env) cpu (env_rec_params env) arg0 arg1 arg2 s = Inl Assert_Fail"
      using rec_create_keeps [where ns_params = "env_rec_params env" and rd_addr = arg0 and rec_addr = arg1 and params_addr = arg2, OF ok cpu(1) e(2)] 5(2)
      by (simp only: if_True)
    ultimately show ?thesis using status_only_safe by blast
  qed
qed

section \<open>The call\<close>

lemma border_run: "slots s = no_slots \<Longrightarrow> pe_ok p \<Longrightarrow> assert_at_border (s, p) = Inr ((), (s, p))"
  by (simp add: assert_at_border_def pe_ok_def onR_def readP_def run_simps check_cpu_slots_empty_def list_all_iff)

lemma flags_apart:
  fixes w :: u32
  shows "(w OR SIMD_SFLAG_SVE_HINT) AND SIMD_SFLAG_INIT_DONE = w AND SIMD_SFLAG_INIT_DONE" "(w OR SIMD_SFLAG_SVE_HINT) AND SIMD_SFLAG_SAVED = w AND SIMD_SFLAG_SAVED"
    "(w AND NOT SIMD_SFLAG_SVE_HINT) AND SIMD_SFLAG_INIT_DONE = w AND SIMD_SFLAG_INIT_DONE"
    "(w AND NOT SIMD_SFLAG_SVE_HINT) AND SIMD_SFLAG_SAVED = w AND SIMD_SFLAG_SAVED"
    "(w OR SIMD_SFLAG_SAVED) AND SIMD_SFLAG_INIT_DONE = w AND SIMD_SFLAG_INIT_DONE"
    "(w AND NOT SIMD_SFLAG_SAVED) AND SIMD_SFLAG_INIT_DONE = w AND SIMD_SFLAG_INIT_DONE"
    "(w AND NOT SIMD_SFLAG_SAVED) AND SIMD_SFLAG_SAVED = 0" "(w OR SIMD_SFLAG_SAVED) AND SIMD_SFLAG_SAVED \<noteq> 0"
proof -
  note d = SIMD_SFLAG_SVE_HINT_def SIMD_SFLAG_INIT_DONE_def SIMD_SFLAG_SAVED_def
  show "(w OR SIMD_SFLAG_SVE_HINT) AND SIMD_SFLAG_INIT_DONE = w AND SIMD_SFLAG_INIT_DONE" "(w OR SIMD_SFLAG_SVE_HINT) AND SIMD_SFLAG_SAVED = w AND SIMD_SFLAG_SAVED"
    "(w AND NOT SIMD_SFLAG_SVE_HINT) AND SIMD_SFLAG_INIT_DONE = w AND SIMD_SFLAG_INIT_DONE"
    "(w AND NOT SIMD_SFLAG_SVE_HINT) AND SIMD_SFLAG_SAVED = w AND SIMD_SFLAG_SAVED"
    "(w OR SIMD_SFLAG_SAVED) AND SIMD_SFLAG_INIT_DONE = w AND SIMD_SFLAG_INIT_DONE"
    "(w AND NOT SIMD_SFLAG_SAVED) AND SIMD_SFLAG_INIT_DONE = w AND SIMD_SFLAG_INIT_DONE"
    "(w AND NOT SIMD_SFLAG_SAVED) AND SIMD_SFLAG_SAVED = 0"
    by (simp_all add: d bit_simps bit.conj_disj_distrib2 and.assoc)
  have "bit ((w OR SIMD_SFLAG_SAVED) AND SIMD_SFLAG_SAVED) 1" by (simp add: d bit_simps)
  then show "(w OR SIMD_SFLAG_SAVED) AND SIMD_SFLAG_SAVED \<noteq> 0" by (metis bit_0_eq bot_apply bot_bool_def)
qed

lemma hint_run:
  assumes "pe_ok p"
  shows "\<exists>p'. simd_update_smc_sve_hint Ns_Simd hint (s, p) = Inr ((), (s, p')) \<and> pe_ok p'"
  using assms by (auto simp: simd_update_smc_sve_hint_def pe_ok_def read_simd_def write_simd_def readP_def writeP_def run_simps flags_apart)

lemma save_restore_run:
  assumes "pe_ok p"
  shows "\<exists>p1. simd_context_save Ns_Simd (s, p) = Inr ((), (s, p1)) \<and>
    (\<forall>s'. \<exists>p2. simd_context_restore Ns_Simd (s', p1) = Inr ((), (s', p2)) \<and> pe_ok p2)"
  using assms
  by (auto simp: simd_context_save_def simd_context_restore_def pe_ok_def read_simd_def write_simd_def readP_def writeP_def run_simps flags_apart) (simp add: SIMD_SFLAG_SAVED_def)

definition handle_body :: "'a rmi_env_scheme \<Rightarrow> u32 \<Rightarrow> (sys, smc_outcome) M \<Rightarrow> (sys, smc_outcome) M" where
  "handle_body env fid f =
     bindM f (\<lambda>result.
      (case result of
         None \<Rightarrow> returnM None
       | Some out \<Rightarrow>
           thenM (if rmi_handler_needs_fpu (fid AND NOT SMC_SVE_HINT) then simd_context_restore Ns_Simd else returnM ())
           (thenM assert_at_border
            (returnM (Some out)))))"

lemma handle_run:
  assumes ok: "sys_ok cpu s" and p: "pe_ok p" and id: "IS_SMC64_RMI_FID (fid AND NOT SMC_SVE_HINT)"
    and f: "smc_handlers env fuel (host_id fid) arg0 arg1 arg2 arg3 arg4 res = Some f"
  shows "handler_ok cpu f s \<Longrightarrow> \<exists>res' s' p'. handle_ns_smc env fuel fid arg0 arg1 arg2 arg3 arg4 res (s, p) = Inr (Some (res', None), (s', p')) \<and>
      sys_ok cpu s' \<and> pe_ok p'"
    "(\<And>q. f (s, q) = Inl Assert_Fail) \<Longrightarrow> handle_ns_smc env fuel fid arg0 arg1 arg2 arg3 arg4 res (s, p) = Inl Assert_Fail"
proof -
  let ?fpu = "rmi_handler_needs_fpu (fid AND NOT SMC_SVE_HINT)"
  have sl: "slots s' = no_slots" if "sys_ok cpu s'" for s' using idleD(4) [OF realm_invD(1) [OF sys_okD(1) [OF that]]] .
  obtain p1 where p1: "simd_update_smc_sve_hint Ns_Simd (fid AND SMC_SVE_HINT \<noteq> 0) (s, p) = Inr ((), (s, p1))" "pe_ok p1"
    using hint_run [OF p] by blast
  obtain p2 where p2: "(if ?fpu then simd_context_save Ns_Simd else returnM ()) (s, p1) = Inr ((), (s, p2))"
    "\<And>s'. \<exists>p3. (if ?fpu then simd_context_restore Ns_Simd else returnM ()) (s', p2) = Inr ((), (s', p3)) \<and> pe_ok p3"
    using save_restore_run [OF p1(2), of s] p1(2) by (cases ?fpu) (auto simp: run_simps)
  have h: "handle_ns_smc env fuel fid arg0 arg1 arg2 arg3 arg4 res (s, p) = handle_body env fid f (s, p2)"
    using id f border_run [OF sl [OF ok] p] p1(1) p2(1)
    by (simp add: handle_ns_smc_def handle_body_def host_id_def Let_def run_bindM run_thenM)
  show "\<exists>res' s' p'. handle_ns_smc env fuel fid arg0 arg1 arg2 arg3 arg4 res (s, p) = Inr (Some (res', None), (s', p')) \<and> sys_ok cpu s' \<and> pe_ok p'"
    if "handler_ok cpu f s"
  proof -
    obtain res' s' where r: "f (s, p2) = Inr (Some (res', None), (s', p2))" "sys_ok cpu s'"
      using \<open>handler_ok cpu f s\<close> unfolding handler_ok_def by blast
    obtain p3 where p3: "(if ?fpu then simd_context_restore Ns_Simd else returnM ()) (s', p2) = Inr ((), (s', p3))" "pe_ok p3" using p2(2) by blast
    have "handle_body env fid f (s, p2) = Inr (Some (res', None), (s', p3))"
      using r(1) p3(1) border_run [OF sl [OF r(2)] p3(2)] by (simp add: handle_body_def run_bindM run_thenM run_returnM)
    then show ?thesis using h r(2) p3(2) by auto
  qed
  show "handle_ns_smc env fuel fid arg0 arg1 arg2 arg3 arg4 res (s, p) = Inl Assert_Fail" if "\<And>q. f (s, q) = Inl Assert_Fail"
    using h that by (simp add: handle_body_def run_bindM)
qed

lemma handle_unknown:
  assumes "\<not> IS_SMC64_RMI_FID (fid AND NOT SMC_SVE_HINT) \<or> smc_handlers env fuel (host_id fid) arg0 arg1 arg2 arg3 arg4 res = None"
  shows "handle_ns_smc env fuel fid arg0 arg1 arg2 arg3 arg4 res \<sigma> = Inr (Some (res(0 := SMC_UNKNOWN), None), \<sigma>)"
  using assms by (auto simp: handle_ns_smc_def host_id_def Let_def run_simps)

lemma call_outcome:
  assumes ok: "sys_ok cpu s" "pe_ok p" and cpu: "cpu_ok cpu" "sve_ok cpu" and env: "env_ok cpu env" and m: "managing_call fid"
  shows "(\<exists>res' s' p'. handle_ns_smc env fuel fid arg0 arg1 arg2 arg3 arg4 res (s, p) = Inr (Some (res', None), (s', p')) \<and> sys_ok cpu s' \<and> pe_ok p') \<or>
    handle_ns_smc env fuel fid arg0 arg1 arg2 arg3 arg4 res (s, p) = Inl Assert_Fail \<and> \<not> call_allowed env s fid arg0 arg1 arg2 arg3"
proof (cases "IS_SMC64_RMI_FID (fid AND NOT SMC_SVE_HINT) \<and> smc_handlers env fuel (host_id fid) arg0 arg1 arg2 arg3 arg4 res \<noteq> None")
  case False
  then show ?thesis using handle_unknown [of fid env fuel arg0 arg1 arg2 arg3 arg4 res] ok by blast
next
  case True
  then obtain f where f: "IS_SMC64_RMI_FID (fid AND NOT SMC_SVE_HINT)" "smc_handlers env fuel (host_id fid) arg0 arg1 arg2 arg3 arg4 res = Some f" by blast
  note run = handle_run [OF ok f]
  show ?thesis
  proof (cases "handler_ok cpu f s")
    case True
    then show ?thesis using run(1) by blast
  next
    case no: False
    then have "\<not> call_allowed env s fid arg0 arg1 arg2 arg3" using managing_handler_ok [OF ok(1) cpu env m _ f(2)] by blast
    moreover have "\<And>q. f (s, q) = Inl Assert_Fail" using managing_handler_safe [OF ok(1) cpu env m f(2)] no by (simp add: handler_safe_def)
    ultimately show ?thesis using run(2) by blast
  qed
qed

section \<open>The transition system\<close>

text \<open>
  The RMM at boot: the static arrays are zero, so every granule is non-secure and unlocked, and no VMID is in use. The layout
  of DRAM, what the memory holds and the width of VMIDs come from the platform.
\<close>

definition boot_rmm :: "arm_dram_layout \<Rightarrow> (nat \<Rightarrow> gdata) \<Rightarrow> bool \<Rightarrow> rmm" where
  "boot_rmm d m vmid16 = \<lparr>arm_dram = d, granules = (\<lambda>_. \<lparr>descriptor = 0, owner_tag = 0\<rparr>), mem = m, slots = (\<lambda>_. None),
     tags = \<lparr>g_tags = replicate 10 zero_tag_entry, g_tag_next_index = 0, g_tag_counter = 1\<rparr>,
     csm_region_ids = csm_ids_boot, vmids = replicate 1024 0, feat_vmid16 = vmid16, tlb_log = []\<rparr>"

definition dram_ok :: "arm_dram_layout \<Rightarrow> bool" where
  "dram_ok d \<longleftrightarrow> wf_dram d \<and> (\<forall>a g. granule_at d a = Some g \<longrightarrow> unat a < 2 ^ 52)"

text \<open>A call of the host that returns. The next call may come from another processor, which has its own registers.\<close>

inductive host_step :: "cpu_regs \<Rightarrow> sys \<Rightarrow> sys \<Rightarrow> bool" for cpu where
  host_call: "env_ok cpu (env :: rmi_env) \<Longrightarrow> managing_call fid \<Longrightarrow>
    handle_ns_smc env fuel fid arg0 arg1 arg2 arg3 arg4 res \<sigma> = Inr (Some out, \<sigma>') \<Longrightarrow> host_step cpu \<sigma> \<sigma>'"
| host_switch: "pe_ok p' \<Longrightarrow> host_step cpu (s, p) (s, p')"

inductive_cases host_stepE: "host_step cpu (s, p) \<sigma>'"

inductive reachable :: "cpu_regs \<Rightarrow> sys \<Rightarrow> bool" for cpu where
  reachable_boot: "dram_ok d \<Longrightarrow> (\<And>g. length (words (m g)) = 512) \<Longrightarrow> pe_ok p \<Longrightarrow> reachable cpu (boot_rmm d m vmid16, p)"
| reachable_step: "reachable cpu \<sigma> \<Longrightarrow> host_step cpu \<sigma> \<sigma>' \<Longrightarrow> reachable cpu \<sigma>'"
| reachable_run: "reachable cpu (s, p) \<Longrightarrow> realm_ran g s s' \<Longrightarrow> reachable cpu (s', p)"

lemma boot_ok:
  assumes "dram_ok d" "\<And>g. length (words (m g)) = 512"
  shows "sys_ok cpu (boot_rmm d m vmid16)"
proof -
  let ?s = "boot_rmm d m vmid16"
  have f: "arm_dram ?s = d" "slots ?s = no_slots" "mem ?s = m" "vmids ?s = replicate 1024 0" "\<not> LOCKED (granules ?s g)" "REFCOUNT (granules ?s g) = 0"
    "STATE (granules ?s g) = 0" for g
    by (simp_all add: boot_rmm_def LOCKED_def REFCOUNT_def STATE_def GRN_LOCK_BIT_def REFCOUNT_MASK_def STATE_MASK_def MASK_def mask_eq_decr_exp)
  have nr: "\<not> is_realm ?s g" "\<not> is_rec ?s g" for g by (simp_all add: is_realm_def is_rec_def f granule_states)
  have "idle ?s"
    by (rule idleI) (use assms inv_zero_refcount [of "granules ?s g" for g] in \<open>auto simp: f dram_ok_def granule_states\<close>)
  then have "realm_inv ?s" using no_realms_inv [of ?s] nr assms(1) by (simp add: f dram_ok_def)
  moreover have "vmid_inv ?s" by (simp add: vmid_inv_def nr f wf_vmids_def)
  moreover have "rec_inv cpu ?s" by (rule no_realms_rec_inv [OF nr(2,1)])
  ultimately show ?thesis by (simp add: sys_ok_def nr)
qed

lemma step_ok:
  assumes "host_step cpu (s, p) \<sigma>'" "cpu_ok cpu" "sve_ok cpu" "sys_ok cpu s" "pe_ok p"
  shows "sys_ok cpu (fst \<sigma>') \<and> pe_ok (snd \<sigma>')"
proof (rule host_stepE [OF assms(1)])
  fix env :: rmi_env and fid fuel arg0 arg1 arg2 arg3 arg4 res out
  assume "env_ok cpu env" "managing_call fid" "handle_ns_smc env fuel fid arg0 arg1 arg2 arg3 arg4 res (s, p) = Inr (Some out, \<sigma>')"
  then show ?thesis using call_outcome [OF assms(4,5,2,3), of env fid fuel arg0 arg1 arg2 arg3 arg4 res] by auto
qed (use assms in simp)

lemma reachable_ok:
  assumes "reachable cpu \<sigma>" "cpu_ok cpu" "sve_ok cpu"
  shows "sys_ok cpu (fst \<sigma>) \<and> pe_ok (snd \<sigma>)"
  using assms(1)
proof induction
  case (reachable_boot d m p vmid16)
  then show ?case using boot_ok by simp
next
  case (reachable_step \<sigma> \<sigma>')
  then show ?case using step_ok [OF _ assms(2,3), of "fst \<sigma>" "snd \<sigma>"] by simp
next
  case (reachable_run s p g s')
  then show ?case using realm_ran_keeps [of cpu s g s'] by simp
qed

section \<open>What holds in every reachable state\<close>

lemma child_is_rtt:
  assumes "tree_ok s" "in_tree s g n b t" "i < 512" "s2tte_is_table (words (mem s t) ! i) (level (realm_ctx s g) n)"
  shows "\<exists>t'. next_table s (realm_ctx s g) t i = Some t' \<and> is_rtt s t'"
proof -
  have l: "level (realm_ctx s g) n < 3" using assms(4) by (simp add: s2tte_is_table_def)
  then have n: "n < depth (realm_ctx s g)" by (simp add: level_def depth_def)
  obtain t' where "next_table s (realm_ctx s g) t i = Some t'"
    using tree_okD(3) [OF assms(1,2) n assms(3)] entry_is_table_iff [OF l] assms(4) by blast
  then show ?thesis using tree_okD(2) [OF assms(1) in_tree_child [OF assms(2) n assms(3)]] by blast
qed


text \<open>An example: the FVP platform with arbitrary contents of memory, on which the host delegates a granule.\<close>

definition demo_boot :: rmm where
  "demo_boot = boot_rmm fvp_layout (\<lambda>_. zero_data\<lparr>words := replicate 512 0xabcd\<rparr>) True"

definition demo_pe :: pe where
  "demo_pe = \<lparr>esr_el2 = 0, far_el2 = 0, hpfar_el2 = 0, elr_el2 = 0, spsr_el2 = 0, cptr_el2 = 0, vtcr_el2 = 0, vttbr_el2 = 0,
     mdcr_el2_live = 0, vsesr_el2 = 0, icc_sre_el2 = 0, live = zero_sysregs,
     ns_simd_ctx = \<lparr>simd_owner_of = SIMD_OWNER_NWD, simd_tflags = 0, simd_sflags = 1, simd_cptr_el2 = 0, simd_svcr = 0, simd_zcr_el2 = 0\<rparr>,
     simd_state_saved = False, rec_simd_active = False\<rparr>"

definition demo_rmi_env :: rmi_env where
  "demo_rmi_env = \<lparr>env_hash = (\<lambda>_ _. replicate 32 0), env_token_init = (\<lambda>_ x r. returnM (x, r)), env_token_continue = (\<lambda>_ x r. returnM (x, r)),
     env_idregs = (\<lambda>_. 0), env_gic = \<lparr>nr_lrs = 3, nr_aprs = 0, pri_res0_mask = 0, max_vintid = 0xffff, ext_range = False\<rparr>,
     env_run_realm = (\<lambda>_. returnM 0), env_cpu = demo_cpu, env_realm_params = (\<lambda>_. (demo_realm_params, False)),
     env_rec_params = (\<lambda>_. (demo_rec_params, False)), env_ns_data = (\<lambda>_. ([], False)),
     env_ns_enter = (\<lambda>_. (\<lparr>en_flags = 0, en_gprs = replicate 31 0, en_gicv3_hcr = 0, en_gicv3_lrs = replicate 16 0\<rparr>, False)),
     env_ns_write_ok = False, env_gtsi_delegate = (\<lambda>_. True), env_gtsi_undelegate = (\<lambda>_. True)\<rparr>"

lemma demo_start:
  "reachable demo_cpu (demo_boot, demo_pe)" "sve_ok demo_cpu" "env_ok demo_cpu demo_rmi_env" "host_id 0xC4000151 = 1"
proof -
  have "dram_ok fvp_layout" using wf_fvp_layout fvp_layout_52 by (simp add: dram_ok_def)
  moreover have "pe_ok demo_pe" by (simp add: pe_ok_def demo_pe_def SIMD_SFLAG_INIT_DONE_def SIMD_SFLAG_SAVED_def)
  ultimately show "reachable demo_cpu (demo_boot, demo_pe)" unfolding demo_boot_def by (intro reachable_boot) simp_all
  show "sve_ok demo_cpu" by (simp add: sve_ok_def demo_cpu_def zero_simd_def)
  show "env_ok demo_cpu demo_rmi_env"
    by (simp add: env_ok_def demo_rmi_env_def ns_read_ok_def wf_rec_params_def demo_rec_params_def)
  show "host_id 0xC4000151 = 1" by (simp add: host_id_def RMI_HANDLER_ID_def SMC64_RMI_FNUM_MIN_def SMC_SVE_HINT_def)
qed


text \<open>The state after the delegation.\<close>

definition demo_delegated :: rmm where
  "demo_delegated = upd_mem 3 (\<lambda>_. zero_data) (upd_granule 3 (fresh_granule GRANULE_STATE_DELEGATED) demo_boot)"

lemma demo_delegated_reachable: "reachable demo_cpu (demo_delegated, demo_pe)"
proof -
  have ok: "sys_ok demo_cpu demo_boot" "pe_ok demo_pe" using reachable_ok [OF demo_start(1) demo_cpu_ok demo_start(2)] by simp_all
  note idle = realm_invD(1) [OF sys_okD(1) [OF ok(1)]]
  have st: "STATE (granules demo_boot 3) = GRANULE_STATE_NS"
    by (simp add: demo_boot_def boot_rmm_def STATE_def STATE_MASK_def MASK_def mask_eq_decr_exp granule_states)
  have d: "arm_dram demo_boot = fvp_layout" by (simp add: demo_boot_def boot_rmm_def)
  have run: "smc_granule_delegate (\<lambda>_. True) 0x80003000 demo_boot = Inr (RMI_SUCCESS, demo_delegated)"
    unfolding delegate_run [OF idleD(1) [OF idle] idle_free [OF idle]] d demo_ns_granule by (simp add: st demo_delegated_def)
  have sl: "slots demo_boot = no_slots" "slots demo_delegated = no_slots" by (simp_all add: demo_delegated_def demo_boot_def boot_rmm_def)
  have id: "RMI_HANDLER_ID 0xC4000151 = 1" "IS_SMC64_RMI_FID 0xC4000151" "\<not> rmi_handler_needs_fpu 0xC4000151"
    "0xC4000151 AND SMC_SVE_HINT = 0" "0xC4000151 AND NOT SMC_SVE_HINT = 0xC4000151"
    by (simp_all add: RMI_HANDLER_ID_def SMC64_RMI_FNUM_MIN_def IS_SMC64_RMI_FID_def SMC64_RMI_FNUM_MAX_def rmi_handler_needs_fpu_def SMC_SVE_HINT_def
        SMC_RMI_REALM_CREATE_def SMC_RMI_DATA_CREATE_def SMC_RMI_REC_CREATE_def SMC_RMI_RTT_INIT_RIPAS_def SMC64_RMI_FID_def SMC64_STD_FID_def)
  have hint: "simd_update_smc_sve_hint Ns_Simd False (demo_boot, demo_pe) = Inr ((), (demo_boot, demo_pe))"
    by (simp add: simd_update_smc_sve_hint_def read_simd_def readP_def run_simps demo_pe_def SIMD_SFLAG_INIT_DONE_def)
  have "handle_ns_smc demo_rmi_env 0 0xC4000151 0x80003000 0 0 0 0 (\<lambda>_. 0) (demo_boot, demo_pe) =
      Inr (Some ((\<lambda>_. 0)(0 := RMI_SUCCESS), None), (demo_delegated, demo_pe))"
    using border_run [OF sl(1) ok(2)] border_run [OF sl(2) ok(2)] hint run
    by (simp add: handle_ns_smc_def Let_def id smc_handlers_def status_only_def onR_def run_simps demo_rmi_env_def)
  then have "host_step demo_cpu (demo_boot, demo_pe) (demo_delegated, demo_pe)"
    by (intro host_call [OF demo_start(3)]) (simp_all add: managing_call_def demo_start(4))
  then show ?thesis by (rule reachable_step [OF demo_start(1)])
qed



text \<open>
  C3. Types of the state. In every reachable state the descriptor of every granule has one of the eight states and a reference count that
  this state allows; every granule that is read as a table has 512 entries; every entry of a table of a realm is of exactly one of the nine
  kinds for its level, and one that refers to a table leads to a granule in the state of tables; and every execution
  context has 31 registers and 16 different auxiliary granules, all in the state of auxiliary granules.
\<close>

theorem reachable_well_typed:
  assumes "cpu_ok cpu" and "sve_ok cpu" and "reachable cpu (s, p)"
  shows "(\<forall>g. STATE (granules s g) \<in> {GRANULE_STATE_NS, GRANULE_STATE_DELEGATED, GRANULE_STATE_RD, GRANULE_STATE_REC,
      GRANULE_STATE_REC_AUX, GRANULE_STATE_DATA, GRANULE_STATE_RTT, GRANULE_STATE_APT} \<and>
      granule_unlocked_invariants (granules s g) (STATE (granules s g)) \<and> length (words (mem s g)) = 512) \<and>
    (\<forall>g n b t i. in_tree s g n b t \<and> i < 512 \<longrightarrow> (\<exists>k. kinds (words (mem s t) ! i) (level (realm_ctx s g) n) = {k} \<and>
      (k = Table \<longrightarrow> (\<exists>t'. next_table s (realm_ctx s g) t i = Some t' \<and> is_rtt s t')))) \<and>
    (\<forall>r. is_rec s r \<longrightarrow> length (rec_regs (rec_at s r)) = 31 \<and> (\<exists>aux. rec_g_aux (rec_at s r) = map Some aux \<and> length aux = 16 \<and> distinct aux \<and>
      (\<forall>h \<in> set aux. STATE (granules s h) = GRANULE_STATE_REC_AUX)))"
proof -
  note o = sys_okD [OF conjunct1 [OF reachable_ok [OF assms(3,1,2)], simplified]]
  note inv = o(1) note id = idleD [OF realm_invD(1) [OF inv]] and r = rec_invD [OF o(3)]
  show ?thesis
  proof (intro conjI allI impI; (elim conjE)?)
    fix g
    show "granule_unlocked_invariants (granules s g) (STATE (granules s g))" "length (words (mem s g)) = 512" using id(5,6) by simp_all
    then show "STATE (granules s g) \<in> {GRANULE_STATE_NS, GRANULE_STATE_DELEGATED, GRANULE_STATE_RD, GRANULE_STATE_REC,
      GRANULE_STATE_REC_AUX, GRANULE_STATE_DATA, GRANULE_STATE_RTT, GRANULE_STATE_APT}"
      by (auto simp: granule_unlocked_invariants_def split: if_splits)
  next
    fix g n b t i assume t: "in_tree s g n b t" and i: "i < (512 :: nat)"
    obtain k where k: "kinds (words (mem s t) ! i) (level (realm_ctx s g) n) = {k}"
      using realm_invD(3) [OF inv entI [OF t i]] by (auto simp: entry_ok_def)
    show "\<exists>k. kinds (words (mem s t) ! i) (level (realm_ctx s g) n) = {k} \<and>
      (k = Table \<longrightarrow> (\<exists>t'. next_table s (realm_ctx s g) t i = Some t' \<and> is_rtt s t'))"
      using k child_is_rtt [OF realm_invD(2) [OF inv] t i] kinds_is_table [OF k] by blast
  next
    fix x assume x: "is_rec s x"
    show "length (rec_regs (rec_at s x)) = 31" using r(1) [OF x] by (simp add: rec_ok_def)
    show "\<exists>aux. rec_g_aux (rec_at s x) = map Some aux \<and> length aux = 16 \<and> distinct aux \<and> (\<forall>h \<in> set aux. STATE (granules s h) = GRANULE_STATE_REC_AUX)"
      using r(1) [OF x] by (auto simp: rec_ok_def is_aux_def)
  qed
qed

theorem reachable_well_typed_witness:
  "STATE (granules demo_delegated 3) = GRANULE_STATE_DELEGATED \<and> granule_unlocked_invariants (granules demo_delegated 3) GRANULE_STATE_DELEGATED \<and>
    length (words (mem demo_delegated 3)) = 512"
proof -
  have st: "STATE (granules demo_delegated 3) = GRANULE_STATE_DELEGATED" by (simp add: demo_delegated_def upd_granule_def)
  then show ?thesis using reachable_well_typed [OF demo_cpu_ok demo_start(2) demo_delegated_reachable] by (metis (no_types, lifting))
qed

end
