(* ===== verification/Csm_Correct.thy ===== *)
theory Csm_Correct
  imports Csm Rec_Inv Psci_Correct
begin

text \<open>
  The correctness of the calls by which a realm creates and destroys a region of confidential shared memory: they
  implement a partial map of owned regions, and identifiers of regions are unique among all realms.
\<close>

section \<open>The abstract table\<close>

text \<open>The regions that a realm owns and those that it borrows, by their indices.\<close>

definition owned :: "apt \<Rightarrow> nat \<rightharpoonup> master_mem" where
  "owned a i = (if apt_master_used a i then Some (master_memory a ! i) else None)"

definition borrowed :: "apt \<Rightarrow> nat \<rightharpoonup> slave_mem" where
  "borrowed a i = (if apt_slave_used a i then Some (slave_memory a ! i) else None)"

definition new_master :: "u8 \<Rightarrow> u64 \<Rightarrow> u64 \<Rightarrow> master_mem" where
  "new_master region_id base size_ipa =
    \<lparr>mm_region_ID = region_id, mm_ipa_start = base, mm_map_size = size_ipa, share_count = 0, shares = replicate CSM_MAX_MASTER_SHARES zero_share\<rparr>"

lemma used_iff: "apt_master_used a i \<longleftrightarrow> i < 20 \<and> i \<in> mask_set (master_used_mask a)" "apt_slave_used a i \<longleftrightarrow> i < 20 \<and> i \<in> mask_set (slave_used_mask a)"
  by (auto simp: apt_master_used_def apt_slave_used_def apt_idx_in_range_def mask_bit)

lemma add_master_owned:
  assumes wf: "wf_apt a"
  shows "case apt_add_master a r b z True of
      (None, a') \<Rightarrow> dom (owned a) = {..<MAX_MEM_REGIONS}
    | (Some i, a') \<Rightarrow> i < MAX_MEM_REGIONS \<and> owned a i = None \<and> owned a' = (owned a)(i \<mapsto> new_master r b z) \<and> borrowed a' = borrowed a \<and>
        apt_master_enabled a' i \<and> wf_apt a'"
proof (cases "first_free_from_mask (master_used_mask a)")
  case None
  then have "dom (owned a) = {..<20}" by (auto simp: owned_def used_iff first_free_None split: if_splits)
  then show ?thesis using None by (simp add: apt_add_master_def)
next
  case (Some i)
  note i = first_free_Some [OF Some]
  have len: "length (master_memory a) = 20" and e: "i \<notin> mask_set (master_enabled_mask a)" using wf i by (auto simp: wf_apt_def)
  have wf': "wf_apt (snd (apt_add_master a r b z True))" by (rule apt_add_master_wf [OF wf])
  then show ?thesis using Some i len e
    by (auto simp: apt_add_master_def Let_def owned_def borrowed_def used_iff enable_push_master_def mask_bit mask_set_set new_master_def fun_eq_iff
        apt_master_enabled_def apt_idx_in_range_def)
qed

lemma clear_master_owned:
  assumes wf: "wf_apt a" and i: "i < MAX_MEM_REGIONS"
  shows "owned (clear_master a i) = (owned a)(i := None)" "borrowed (clear_master a i) = borrowed a" "wf_apt (clear_master a i)"
proof -
  let ?d = "snd (apt_disable_master_idx a i)"
  have f: "master_used_mask ?d = master_used_mask a" "slave_used_mask ?d = slave_used_mask a" "master_memory ?d = master_memory a"
    "slave_memory ?d = slave_memory a"
    by (simp_all add: apt_disable_master_idx_def disable_swap_pop_master_def)
  have m: "mask_set (master_enabled_mask ?d) = mask_set (master_enabled_mask a) - {i}"
    using i by (simp add: apt_disable_master_idx_def apt_idx_in_range_def disable_swap_pop_master_def mask_bit mask_set_clear)
  have wd: "wf_apt ?d" by (rule apt_disable_master_wf [OF wf])
  show "owned (clear_master a i) = (owned a)(i := None)" "borrowed (clear_master a i) = borrowed a"
    using i f by (auto simp: clear_master_def Let_def owned_def borrowed_def used_iff mask_set_clear fun_eq_iff)
  have "wf_master zero_master" using wf_new_master by (simp add: zero_master_def)
  then show "wf_apt (clear_master a i)"
    using wd i m wf by (auto simp: clear_master_def Let_def wf_apt_def mask_set_clear f nth_list_update)
qed

lemma find_owned:
  "(case apt_find_master_by_region_id a r of
      None \<Rightarrow> \<forall>i m. owned a i = Some m \<longrightarrow> mm_region_ID m \<noteq> r
    | Some i \<Rightarrow> i < MAX_MEM_REGIONS \<and> owned a i = Some (master_memory a ! i) \<and> mm_region_ID (master_memory a ! i) = r)"
  unfolding apt_find_master_by_region_id_def
  by (auto simp: owned_def used_iff find_upt_None mask_bit split: option.split dest!: find_upt_Some)

text \<open>The table and the registry agree: the identifier of every region that the realm owns is registered for it, and no two regions have the same.\<close>

definition registered :: "u64 \<Rightarrow> apt \<Rightarrow> csm_id_state \<Rightarrow> bool" where
  "registered rd_pa a ids \<longleftrightarrow> (\<forall>i m. owned a i = Some m \<longrightarrow> (rd_pa, mm_region_ID m) \<in> csm_live ids) \<and>
    (\<forall>i j m m'. owned a i = Some m \<and> owned a j = Some m' \<and> mm_region_ID m = mm_region_ID m' \<longrightarrow> i = j)"

lemma registered_create:
  assumes "registered rd_pa a ids" "owned a' = (owned a)(i \<mapsto> new_master r base size_ipa)" "csm_live ids' = insert (rd_pa, r) (csm_live ids)"
    "r \<notin> snd ` csm_live ids"
  shows "registered rd_pa a' ids'"
  using assms by (auto simp: registered_def new_master_def image_iff split: if_splits) force+

lemma registered_destroy:
  assumes "registered rd_pa a ids" "owned a i = Some m" "owned a' = (owned a)(i := None)" "csm_live ids' = {p \<in> csm_live ids. snd p \<noteq> mm_region_ID m}"
  shows "registered rd_pa a' ids'"
  using assms by (auto simp: registered_def split: if_splits)

lemma registered_same: "registered rd_pa a ids \<Longrightarrow> owned a' = owned a \<Longrightarrow> csm_live ids' = csm_live ids \<Longrightarrow> registered rd_pa a' ids'"
  by (simp add: registered_def)

section \<open>The calls\<close>

text \<open>The realm of the caller has an access permission table, and nobody holds a lock.\<close>

definition csm_caller :: "rmm \<Rightarrow> nat \<Rightarrow> u64 \<Rightarrow> nat \<Rightarrow> nat \<Rightarrow> bool" where
  "csm_caller s g_rec rd_pa g a \<longleftrightarrow> idle s \<and> rec_rd s g_rec = Some g \<and> granule_in s rd_pa GRANULE_STATE_RD = Some g \<and>
    granule_in s (apt_pa (d_rd (mem s g))) GRANULE_STATE_APT = Some a"

text \<open>The change that a call makes: a new table and new identifiers.\<close>

definition with_ids :: "csm_id_state \<Rightarrow> rmm \<Rightarrow> rmm" where
  "with_ids ids s = s\<lparr>csm_region_ids := ids\<rparr>"

definition with_apt :: "nat \<Rightarrow> apt \<Rightarrow> rmm \<Rightarrow> rmm" where
  "with_apt a x s = upd_mem a (\<lambda>d. d\<lparr>d_apt := x\<rparr>) s"

lemma with_fields [simp]:
  "arm_dram (with_ids ids s) = arm_dram s" "granules (with_ids ids s) = granules s" "mem (with_ids ids s) = mem s" "csm_region_ids (with_ids ids s) = ids"
  "arm_dram (with_apt a x s) = arm_dram s" "granules (with_apt a x s) = granules s" "csm_region_ids (with_apt a x s) = csm_region_ids s"
  "d_apt (mem (with_apt a x s) a) = x" "h \<noteq> a \<Longrightarrow> mem (with_apt a x s) h = mem s h"
  by (simp_all add: with_ids_def with_apt_def upd_mem_def)

lemma held_ids: "(held L M s)\<lparr>csm_region_ids := ids\<rparr> = held L M (with_ids ids s)"
  by (rule rmm.equality) (auto simp: held_def with_ids_def fun_eq_iff)

lemma ids_held:
  "csm_region_id_assignM rd_pa (held L M s) =
    Inr (fst (csm_region_id_assign rd_pa (csm_region_ids s)), held L M (with_ids (snd (csm_region_id_assign rd_pa (csm_region_ids s))) s))"
  "csm_region_id_removeM r (held L M s) = Inr ((), held L M (with_ids (snd (csm_region_id_remove r (csm_region_ids s))) s))"
  by (simp_all add: csm_region_id_assignM_def csm_region_id_removeM_def run_simps held_ids split: prod.split)

lemma caller_steps:
  assumes c: "csm_caller s g_rec rd_pa g a" and s': "granules s' = granules s"
  defines "M \<equiv> no_slots(SLOT_REC := Some g_rec)"
  shows "granule_addr (ri_g_rd (rec_realm_info (rec_at s g_rec))) (held {} M s) = Inr (rd_pa, held {} M s)"
    "own_rd (rec_at s g_rec) body (held {} M s) = body g (d_rd (mem s g)) (held {g} (M(SLOT_RD := Some g)) s)"
    "find_lock_granule (apt_pa (d_rd (mem s g))) GRANULE_STATE_APT (held {g} (M(SLOT_RD := Some g)) s) = Inr (Some a, held {a, g} (M(SLOT_RD := Some g)) s)"
    "map_slot (Some a) SLOT_APT (held {a, g} (M(SLOT_RD := Some g)) s) = Inr ((), held {a, g} (M(SLOT_RD := Some g, SLOT_APT := Some a)) s)"
    "release_apt SLOT_APT a (held {a, g} (M(SLOT_RD := Some g, SLOT_APT := Some a)) s') = Inr ((), held {g} (M(SLOT_RD := Some g)) s')"
    "release_own_rd g (held {g} (M(SLOT_RD := Some g)) s') = Inr ((), held {} M s')"
proof -
  have idle: "idle s" and r: "rec_rd s g_rec = Some g" and g: "granule_in s rd_pa GRANULE_STATE_RD = Some g"
    and a: "granule_in s (apt_pa (d_rd (mem s g))) GRANULE_STATE_APT = Some a" using c by (simp_all add: csm_caller_def)
  note gd = granule_inD [OF g] and ad = granule_inD [OF a] and id = idleD [OF idle]
  have ne: "a \<noteq> g" using gd(2) ad(2) by (auto simp: granule_states)
  have lk: "lockable L s h \<longleftrightarrow> h \<notin> L" for L h by (rule idle_lockable [OF idle])
  show "granule_addr (ri_g_rd (rec_realm_info (rec_at s g_rec))) (held {} M s) = Inr (rd_pa, held {} M s)"
    using r gd(1) id(3) by (simp add: granule_addr_run)
  show "own_rd (rec_at s g_rec) body (held {} M s) = body g (d_rd (mem s g)) (held {g} (M(SLOT_RD := Some g)) s)"
    using r gd(2,3) id(3) by (simp add: own_rd_def derefM_def run_simps held_simps lk M_def slot_numbers is_realm_slot_def)
  show "find_lock_granule (apt_pa (d_rd (mem s g))) GRANULE_STATE_APT (held {g} (M(SLOT_RD := Some g)) s) = Inr (Some a, held {a, g} (M(SLOT_RD := Some g)) s)"
    using find_lock_granule_held [of s "apt_pa (d_rd (mem s g))" "{g}" GRANULE_STATE_APT "M(SLOT_RD := Some g)"] id(3) a ad(1) ne by (simp add: lk)
  show "map_slot (Some a) SLOT_APT (held {a, g} (M(SLOT_RD := Some g)) s) = Inr ((), held {a, g} (M(SLOT_RD := Some g, SLOT_APT := Some a)) s)"
    using ad(3) id(3) by (simp add: map_slot_held M_def slot_numbers is_realm_slot_def)
  show "release_apt SLOT_APT a (held {a, g} (M(SLOT_RD := Some g, SLOT_APT := Some a)) s') = Inr ((), held {g} (M(SLOT_RD := Some g)) s')"
    using id(2,5) s' ne by (simp add: release_apt_def run_simps held_simps M_def slot_numbers insert_Diff_if)
  show "release_own_rd g (held {g} (M(SLOT_RD := Some g)) s') = Inr ((), held {} M s')"
    using id(2,5) s' by (simp add: release_own_rd_def run_simps held_simps M_def slot_numbers)
qed

lemma set_x_res [simp]: "rsi_smc_res (set_x i v res) = (rsi_smc_res res)(i := v)" "rsi_smc_res (set_action x res) = rsi_smc_res res"
  by (simp_all add: set_x_def set_action_def)

lemma rsi_codes: "RSI_ERROR_INPUT \<noteq> RSI_SUCCESS" "RSI_ERROR_STATE \<noteq> RSI_SUCCESS"
  by (simp_all add: RSI_ERROR_INPUT_def RSI_ERROR_STATE_def RSI_SUCCESS_def)

text \<open>The region can be created: its range is one of pages, overlaps no borrowed region, and an identifier and an index are free.\<close>

definition creatable :: "rmm \<Rightarrow> nat \<Rightarrow> u64 \<Rightarrow> u64 \<Rightarrow> bool" where
  "creatable s a base size_ipa \<longleftrightarrow> \<not> csm_bad_range base size_ipa \<and>
    (\<forall>i. apt_slave_enabled (d_apt (mem s a)) i \<longrightarrow>
      \<not> range_overlaps_ul base size_ipa (sm_ipa_start (slave_memory (d_apt (mem s a)) ! i)) (sm_map_size (slave_memory (d_apt (mem s a)) ! i))) \<and>
    \<not> (\<forall>i<CONFIG_MAX_CSM_REGION_IDS. ce_in_use (g_csm_region_ids (csm_region_ids s) ! i)) \<and> dom (owned (d_apt (mem s a))) \<noteq> {..<MAX_MEM_REGIONS}"

lemma csm_create_run:
  assumes c: "csm_caller s g_rec rd_pa g a" and wf: "wf_apt (d_apt (mem s a))" "wf_csm_ids (csm_region_ids s)"
    and x: "base = rec_regs (rec_at s g_rec) ! 2" "size_ipa = rec_regs (rec_at s g_rec) ! 3"
  shows "\<exists>ex' res' ids. wf_csm_ids ids \<and>
    (if creatable s a base size_ipa
     then \<exists>r i apt'. handle_rsi_csm_create g_rec ex res (in_call g_rec s) = Inr ((ex', res'), in_call g_rec (with_apt a apt' (with_ids ids s))) \<and>
       rsi_smc_res res' 0 = RSI_SUCCESS \<and> rsi_smc_res res' 1 = ucast r \<and> rsi_smc_res res' 2 = of_nat i \<and>
       r \<noteq> 0 \<and> r \<notin> snd ` csm_live (csm_region_ids s) \<and> csm_live ids = insert (rd_pa, r) (csm_live (csm_region_ids s)) \<and>
       wf_apt apt' \<and> i < MAX_MEM_REGIONS \<and> owned (d_apt (mem s a)) i = None \<and> apt_master_enabled apt' i \<and>
       owned apt' = (owned (d_apt (mem s a)))(i \<mapsto> new_master r base size_ipa) \<and> borrowed apt' = borrowed (d_apt (mem s a))
     else handle_rsi_csm_create g_rec ex res (in_call g_rec s) = Inr ((ex', res'), in_call g_rec (with_ids ids s)) \<and>
       rsi_smc_res res' 0 \<noteq> RSI_SUCCESS \<and> csm_live ids = csm_live (csm_region_ids s))"
proof -
  let ?apt = "d_apt (mem s a)" and ?ids = "csm_region_ids s" and ?M = "no_slots(SLOT_REC := Some g_rec)"
  let ?as = "csm_region_id_assign rd_pa ?ids" let ?id = "fst ?as" and ?ids' = "snd ?as"
  note st = caller_steps [OF c] and st0 = caller_steps [OF c refl]
  note conf = apt_conflict_search_exact_parts(1) [OF wf(1), of base size_ipa True]
  note reg = csm_region_id_assign_complete_parts [OF wf(2), of rd_pa]
  note run = handle_rsi_csm_create_def csm_create_region_def run_simps read_held st0(1-4) x [symmetric] derefM_def Let_def ids_held write_held
  have e: "with_ids ?ids s = s" by (simp add: with_ids_def)
  show ?thesis
  proof (cases "csm_bad_range base size_ipa \<or> apt_find_enabled_conflict ?apt base size_ipa True \<noteq> None")
    case True
    then have n: "\<not> creatable s a base size_ipa" using conf by (auto simp: creatable_def)
    obtain res' where "handle_rsi_csm_create g_rec ex res (in_call g_rec s) = Inr ((ex, res'), in_call g_rec s)" "rsi_smc_res res' 0 \<noteq> RSI_SUCCESS"
      using True rsi_codes st0(5,6) by (cases "csm_bad_range base size_ipa") (auto simp: run)
    then show ?thesis unfolding if_not_P [OF n] using e wf(2) by (intro exI [of _ ex] exI [of _ res'] exI [of _ ?ids]) simp
  next
    case ok: False
    show ?thesis
    proof (cases ?id)
      case None
      then have n: "\<not> creatable s a base size_ipa" using reg(1) by (simp add: creatable_def)
      have same: "?ids' = ?ids" using None csm_assign_cases [OF wf(2), of rd_pa] by auto
      obtain res' where "handle_rsi_csm_create g_rec ex res (in_call g_rec s) = Inr ((ex, res'), in_call g_rec s)" "rsi_smc_res res' 0 \<noteq> RSI_SUCCESS"
        using ok None rsi_codes st0(5,6) by (auto simp: run same e)
      then show ?thesis unfolding if_not_P [OF n] using e wf(2) by (intro exI [of _ ex] exI [of _ res'] exI [of _ ?ids]) simp
    next
      case (Some r)
      note rg = reg(3) [OF Some] and add = add_master_owned [OF wf(1), of r base size_ipa]
      let ?s1 = "with_ids ?ids' s"
      obtain oi apt' where am: "apt_add_master ?apt r base size_ipa True = (oi, apt')" by fastforce
      show ?thesis
      proof (cases oi)
        case None
        then have n: "\<not> creatable s a base size_ipa" using add am by (simp add: creatable_def)
        let ?ids2 = "snd (csm_region_id_remove r ?ids')"
        have "wf_csm_ids ?ids2" by (rule csm_ids.remove_wf [OF reg(2)])
        moreover have "with_ids ?ids2 ?s1 = with_ids ?ids2 s" by (simp add: with_ids_def)
        moreover obtain res' where "handle_rsi_csm_create g_rec ex res (in_call g_rec s) = Inr ((ex, res'), in_call g_rec (with_ids ?ids2 ?s1))"
          "rsi_smc_res res' 0 \<noteq> RSI_SUCCESS"
          using ok Some None am rsi_codes st(5,6) [of "with_ids ?ids2 ?s1"] by (auto simp: run)
        ultimately show ?thesis unfolding if_not_P [OF n] using rg by (intro exI [of _ ex] exI [of _ res'] exI [of _ ?ids2]) simp
      next
        case i: (Some i)
        have y: "creatable s a base size_ipa" using ok conf reg(1) Some add am i by (auto simp: creatable_def)
        obtain ex' res' where "handle_rsi_csm_create g_rec ex res (in_call g_rec s) = Inr ((ex', res'), in_call g_rec (with_apt a apt' ?s1))"
          "rsi_smc_res res' 0 = RSI_SUCCESS" "rsi_smc_res res' 1 = ucast r" "rsi_smc_res res' 2 = of_nat i"
          using ok Some i am st(5,6) [of "with_apt a apt' ?s1"] by (auto simp: run with_apt_def [symmetric])
        then show ?thesis unfolding if_P [OF y] using rg reg(2) add am i
          by (intro exI [of _ ex'] exI [of _ res'] exI [of _ ?ids'] conjI exI [of _ r] exI [of _ i] exI [of _ apt']) simp_all
      qed
    qed
  qed
qed

text \<open>The region that a realm owns under an identifier, if there is one, and whether some realm shares it.\<close>

definition owned_region :: "apt \<Rightarrow> u8 \<Rightarrow> nat \<Rightarrow> master_mem \<Rightarrow> bool" where
  "owned_region a r i m \<longleftrightarrow> r \<noteq> 0 \<and> owned a i = Some m \<and> mm_region_ID m = r"

definition is_shared :: "master_mem \<Rightarrow> bool" where
  "is_shared m \<longleftrightarrow> (\<exists>k<CSM_MAX_MASTER_SHARES. ms_in_use (shares m ! k))"

lemma shared_count: "wf_master m \<Longrightarrow> share_count m = 0 \<longleftrightarrow> \<not> is_shared m"
  using unat_eq_0 [of "share_count m"] by (auto simp: wf_master_def is_shared_def)

lemma csm_destroy_run:
  assumes c: "csm_caller s g_rec rd_pa g a" and wf: "wf_apt (d_apt (mem s a))"
    and x: "r = OWNER_TAG_DECODE (rec_regs (rec_at s g_rec) ! 1)"
  shows "\<exists>ex' res'. (case apt_find_master_by_region_id (d_apt (mem s a)) r of
      Some i \<Rightarrow>
        if r \<noteq> 0 \<and> share_count (master_memory (d_apt (mem s a)) ! i) = 0
        then handle_rsi_csm_destroy g_rec ex res (in_call g_rec s) =
            Inr ((ex', res'), in_call g_rec (with_ids (snd (csm_region_id_remove r (csm_region_ids s))) (with_apt a (clear_master (d_apt (mem s a)) i) s))) \<and>
          rsi_smc_res res' 0 = RSI_SUCCESS
        else handle_rsi_csm_destroy g_rec ex res (in_call g_rec s) = Inr ((ex', res'), in_call g_rec s) \<and> rsi_smc_res res' 0 \<noteq> RSI_SUCCESS
    | None \<Rightarrow> handle_rsi_csm_destroy g_rec ex res (in_call g_rec s) = Inr ((ex', res'), in_call g_rec s) \<and> rsi_smc_res res' 0 \<noteq> RSI_SUCCESS)"
proof -
  let ?apt = "d_apt (mem s a)"
  note st = caller_steps [OF c] and st0 = caller_steps [OF c refl]
  note run = handle_rsi_csm_destroy_def run_simps read_held st0(1-4) x [symmetric, unfolded One_nat_def] derefM_def Let_def ids_held write_held
  show ?thesis
  proof (cases "apt_find_master_by_region_id ?apt r")
    case None
    then show ?thesis using rsi_codes st0(5,6) by (cases "r = 0") (auto simp: run)
  next
    case (Some i)
    then show ?thesis using rsi_codes st0(5,6) st(5,6) [of "with_apt a (clear_master ?apt i) s"]
      by (cases "r = 0"; cases "share_count (master_memory ?apt ! i) = 0") (auto simp: run with_apt_def [symmetric])
  qed
qed

text \<open>
  C16. Creation of a shared region. The call of a realm that has an access permission table returns with no lock held and no granule mapped
  that was not before. It succeeds exactly when the range consists of pages, overlaps no region that the realm borrows, and an identifier and an index are
  free. Then the realm owns one more region, with the range and without shares, under an index that was free and an
  identifier that no realm had; its other regions, and all that it borrows, are the same. Otherwise the table and the
  identifiers in use are as before. No other memory changes, and the table and the registry stay well-formed and
  in agreement.
\<close>

theorem csm_create_correct:
  assumes "csm_caller s g_rec rd_pa g a" and "wf_apt (d_apt (mem s a))" and "wf_csm_ids (csm_region_ids s)"
    and "base = rec_regs (rec_at s g_rec) ! 2" and "size_ipa = rec_regs (rec_at s g_rec) ! 3"
    and reg: "registered rd_pa (d_apt (mem s a)) (csm_region_ids s)"
  shows "\<exists>ex' res' s'. handle_rsi_csm_create g_rec ex res (in_call g_rec s) = Inr ((ex', res'), in_call g_rec s') \<and>
    granules s' = granules s \<and> (\<forall>h. h \<noteq> a \<longrightarrow> mem s' h = mem s h) \<and> wf_apt (d_apt (mem s' a)) \<and> wf_csm_ids (csm_region_ids s') \<and>
    registered rd_pa (d_apt (mem s' a)) (csm_region_ids s') \<and>
    (rsi_smc_res res' 0 = RSI_SUCCESS \<longleftrightarrow> creatable s a base size_ipa) \<and>
    borrowed (d_apt (mem s' a)) = borrowed (d_apt (mem s a)) \<and>
    (if creatable s a base size_ipa
     then \<exists>r i. rsi_smc_res res' 1 = ucast r \<and> rsi_smc_res res' 2 = of_nat i \<and> r \<noteq> 0 \<and> r \<notin> snd ` csm_live (csm_region_ids s) \<and>
       csm_live (csm_region_ids s') = insert (rd_pa, r) (csm_live (csm_region_ids s)) \<and>
       i < MAX_MEM_REGIONS \<and> owned (d_apt (mem s a)) i = None \<and> apt_master_enabled (d_apt (mem s' a)) i \<and>
       owned (d_apt (mem s' a)) = (owned (d_apt (mem s a)))(i \<mapsto> new_master r base size_ipa)
     else csm_live (csm_region_ids s') = csm_live (csm_region_ids s) \<and> owned (d_apt (mem s' a)) = owned (d_apt (mem s a)))"
proof -
  obtain ex' res' ids where w: "wf_csm_ids ids" and run: "if creatable s a base size_ipa
     then \<exists>r i apt'. handle_rsi_csm_create g_rec ex res (in_call g_rec s) = Inr ((ex', res'), in_call g_rec (with_apt a apt' (with_ids ids s))) \<and>
       rsi_smc_res res' 0 = RSI_SUCCESS \<and> rsi_smc_res res' 1 = ucast r \<and> rsi_smc_res res' 2 = of_nat i \<and>
       r \<noteq> 0 \<and> r \<notin> snd ` csm_live (csm_region_ids s) \<and> csm_live ids = insert (rd_pa, r) (csm_live (csm_region_ids s)) \<and>
       wf_apt apt' \<and> i < MAX_MEM_REGIONS \<and> owned (d_apt (mem s a)) i = None \<and> apt_master_enabled apt' i \<and>
       owned apt' = (owned (d_apt (mem s a)))(i \<mapsto> new_master r base size_ipa) \<and> borrowed apt' = borrowed (d_apt (mem s a))
     else handle_rsi_csm_create g_rec ex res (in_call g_rec s) = Inr ((ex', res'), in_call g_rec (with_ids ids s)) \<and>
       rsi_smc_res res' 0 \<noteq> RSI_SUCCESS \<and> csm_live ids = csm_live (csm_region_ids s)"
    using csm_create_run [OF assms(1-5), of ex res] by blast
  show ?thesis
  proof (cases "creatable s a base size_ipa")
    case True
    then obtain r i apt' where y: "handle_rsi_csm_create g_rec ex res (in_call g_rec s) = Inr ((ex', res'), in_call g_rec (with_apt a apt' (with_ids ids s)))"
       "rsi_smc_res res' 0 = RSI_SUCCESS" "rsi_smc_res res' 1 = ucast r" "rsi_smc_res res' 2 = of_nat i"
       "r \<noteq> 0" "r \<notin> snd ` csm_live (csm_region_ids s)" "csm_live ids = insert (rd_pa, r) (csm_live (csm_region_ids s))"
       "wf_apt apt'" "i < MAX_MEM_REGIONS" "owned (d_apt (mem s a)) i = None" "apt_master_enabled apt' i"
       "owned apt' = (owned (d_apt (mem s a)))(i \<mapsto> new_master r base size_ipa)" "borrowed apt' = borrowed (d_apt (mem s a))"
      using run by auto
    show ?thesis unfolding if_P [OF True]
      by (rule exI [of _ ex'], rule exI [of _ res'], rule exI [of _ "with_apt a apt' (with_ids ids s)"], intro conjI exI [of _ r] exI [of _ i])
        (use y w True registered_create [OF reg y(12,7,6)] in simp_all)
  next
    case False
    then show ?thesis using run w assms(2) registered_same [OF reg refl, of ids] by (intro exI [of _ ex'] exI [of _ res'] exI [of _ "with_ids ids s"]) simp
  qed
qed

text \<open>
  C17. Destruction of a shared region. The call succeeds exactly when the realm owns a region with the identifier and no realm
  shares it. Then the realm owns one region less, the others and all that it borrows are the same, and the identifier is
  free. Otherwise nothing changes. No other memory changes, and the table and the registry stay well-formed and
  in agreement.
\<close>

theorem csm_destroy_correct:
  assumes c: "csm_caller s g_rec rd_pa g a" and wf: "wf_apt (d_apt (mem s a))" "wf_csm_ids (csm_region_ids s)"
    and x: "r = OWNER_TAG_DECODE (rec_regs (rec_at s g_rec) ! 1)"
    and reg: "registered rd_pa (d_apt (mem s a)) (csm_region_ids s)"
  shows "\<exists>ex' res' s'. handle_rsi_csm_destroy g_rec ex res (in_call g_rec s) = Inr ((ex', res'), in_call g_rec s') \<and>
    granules s' = granules s \<and> (\<forall>h. h \<noteq> a \<longrightarrow> mem s' h = mem s h) \<and> wf_apt (d_apt (mem s' a)) \<and> wf_csm_ids (csm_region_ids s') \<and>
    registered rd_pa (d_apt (mem s' a)) (csm_region_ids s') \<and>
    borrowed (d_apt (mem s' a)) = borrowed (d_apt (mem s a)) \<and>
    (if \<exists>i m. owned_region (d_apt (mem s a)) r i m \<and> \<not> is_shared m
     then rsi_smc_res res' 0 = RSI_SUCCESS \<and> csm_live (csm_region_ids s') = {p \<in> csm_live (csm_region_ids s). snd p \<noteq> r} \<and>
       (\<exists>i m. owned_region (d_apt (mem s a)) r i m \<and> owned (d_apt (mem s' a)) = (owned (d_apt (mem s a)))(i := None))
     else rsi_smc_res res' 0 \<noteq> RSI_SUCCESS \<and> s' = s)"
proof -
  let ?apt = "d_apt (mem s a)" let ?ids = "snd (csm_region_id_remove r (csm_region_ids s))"
  obtain ex' res' where run: "case apt_find_master_by_region_id ?apt r of
      Some i \<Rightarrow>
        if r \<noteq> 0 \<and> share_count (master_memory ?apt ! i) = 0
        then handle_rsi_csm_destroy g_rec ex res (in_call g_rec s) = Inr ((ex', res'), in_call g_rec (with_ids ?ids (with_apt a (clear_master ?apt i) s))) \<and>
          rsi_smc_res res' 0 = RSI_SUCCESS
        else handle_rsi_csm_destroy g_rec ex res (in_call g_rec s) = Inr ((ex', res'), in_call g_rec s) \<and> rsi_smc_res res' 0 \<noteq> RSI_SUCCESS
    | None \<Rightarrow> handle_rsi_csm_destroy g_rec ex res (in_call g_rec s) = Inr ((ex', res'), in_call g_rec s) \<and> rsi_smc_res res' 0 \<noteq> RSI_SUCCESS"
    using csm_destroy_run [OF c wf(1) x, of ex res] by blast
  have f: "case apt_find_master_by_region_id ?apt r of
      None \<Rightarrow> \<forall>i m. owned ?apt i = Some m \<longrightarrow> mm_region_ID m \<noteq> r
    | Some i \<Rightarrow> i < 20 \<and> owned ?apt i = Some (master_memory ?apt ! i) \<and> mm_region_ID (master_memory ?apt ! i) = r" by (rule find_owned)
  show ?thesis
  proof (cases "\<exists>i m. owned_region ?apt r i m \<and> \<not> is_shared m")
    case True
    then obtain i m where o: "owned_region ?apt r i m" "\<not> is_shared m" by blast
    obtain j where j: "apt_find_master_by_region_id ?apt r = Some j" using f o(1) by (cases "apt_find_master_by_region_id ?apt r") (auto simp: owned_region_def)
    note fj = f [unfolded j option.case]
    have oj: "owned_region ?apt r j (master_memory ?apt ! j)" using fj o(1) by (simp add: owned_region_def)
    have ji: "j = i" using reg o(1) oj unfolding owned_region_def registered_def by blast
    have eq: "j = i" "m = master_memory ?apt ! i" using ji o(1) oj by (simp_all add: owned_region_def)
    have "wf_master (master_memory ?apt ! i)" using wf(1) fj eq(1) by (simp add: wf_apt_def)
    then have z: "r \<noteq> 0 \<and> share_count (master_memory ?apt ! i) = 0" using shared_count o eq(2) by (simp add: owned_region_def)
    note cl = clear_master_owned [OF wf(1), of i] and live = csm_ids.remove_live [OF wf(2), of r] csm_ids.remove_wf [OF wf(2), of r]
    have reg': "registered rd_pa (clear_master ?apt i) ?ids"
      by (rule registered_destroy [OF reg _ cl(1)]) (use o fj eq live in \<open>auto simp: owned_region_def\<close>)
    show ?thesis unfolding if_P [OF True]
      by (rule exI [of _ ex'], rule exI [of _ res'], rule exI [of _ "with_ids ?ids (with_apt a (clear_master ?apt i) s)"], intro conjI exI [of _ i] exI [of _ m])
        (use run j eq z cl fj live o reg' in simp_all)
  next
    case False
    have "\<not> (r \<noteq> 0 \<and> share_count (master_memory ?apt ! i) = 0)" if "apt_find_master_by_region_id ?apt r = Some i" for i
    proof -
      have i: "i < 20" "owned ?apt i = Some (master_memory ?apt ! i)" "mm_region_ID (master_memory ?apt ! i) = r" using f that by simp_all
      have "wf_master (master_memory ?apt ! i)" using wf(1) i(1) by (simp add: wf_apt_def)
      then show ?thesis using False i shared_count by (auto simp: owned_region_def)
    qed
    then have "handle_rsi_csm_destroy g_rec ex res (in_call g_rec s) = Inr ((ex', res'), in_call g_rec s)" "rsi_smc_res res' 0 \<noteq> RSI_SUCCESS"
      using run by (cases "apt_find_master_by_region_id ?apt r"; simp)+
    then show ?thesis unfolding if_not_P [OF False] using wf reg by (intro exI [of _ ex'] exI [of _ res'] exI [of _ s]) simp
  qed
qed


text \<open>
  A realm that shares a region with its own tag and reserves it makes the processor wait for a lock that it holds itself: the descriptor of
  the owner is that of the borrower, which is locked already.
\<close>

lemma csm_reserve_own_region_spins:
  assumes c: "csm_caller s g_rec rd_pa g a" and x: "sharing_id = (ucast (rec_regs (rec_at s g_rec) ! 1) :: u32)"
    and r: "\<not> csm_bad_range (rec_regs (rec_at s g_rec) ! 2) (rec_regs (rec_at s g_rec) ! 3)" "sharing_id \<noteq> 0" "apt_sharing_region_id sharing_id \<noteq> 0"
    and tag: "apt_sharing_master_id sharing_id = tag" "apt_sharing_slave_id sharing_id = tag" "tag \<noteq> 0"
      "realm_tag_get_by_rd rd_pa (tags s) = Some tag" "realm_tag_rd_by_tag tag (tags s) = Some rd_pa"
  shows "handle_rsi_csm_reserve g_rec ex res (in_call g_rec s) = Inl Spin"
proof -
  note st = caller_steps [OF c refl] and x1 = x [symmetric, unfolded One_nat_def]
  have g: "granule_at (arm_dram s) rd_pa = Some g" "wf_dram (arm_dram s)"
    using c granule_inD(1) idleD(3) by (auto simp: csm_caller_def)
  have sp: "find_lock_granule rd_pa GRANULE_STATE_RD (held {a, g} M s) = Inl Spin" for M
    using g by (simp add: find_lock_granule_def granule_lock_on_state_match_def granule_bitlock_acquire_def run_simps)
  show ?thesis using r tag by (simp add: handle_rsi_csm_reserve_def run_simps read_held st derefM_def Let_def x1 sp)
qed

section \<open>An example\<close>

text \<open>The example realm with an execution context and an access permission table.\<close>

definition demo_csm :: "u64 list \<Rightarrow> apt \<Rightarrow> csm_id_state \<Rightarrow> rmm" where
  "demo_csm regs apt ids =
    (let s = with_rec 3 (zero_rec\<lparr>rec_g_rec := Some 3, rec_regs := regs, rec_realm_info := (rec_realm_info zero_rec)\<lparr>ri_g_rd := Some 2\<rparr>\<rparr>) demo_realm
     in with_ids ids (s\<lparr>granules := (granules s)(8 := \<lparr>descriptor = 0x1C00, owner_tag = 0\<rparr>),
          mem := (mem s)(8 := zero_data\<lparr>d_apt := apt\<rparr>, 2 := (mem s 2)\<lparr>d_rd := (d_rd (mem s 2))\<lparr>apt_pa := 0x80008000\<rparr>\<rparr>)\<rparr>))"

lemma demo_csm_caller:
  "csm_caller (demo_csm regs apt ids) 3 0x80002000 2 8" "d_apt (mem (demo_csm regs apt ids) 8) = apt" "csm_region_ids (demo_csm regs apt ids) = ids"
  "rec_regs (rec_at (demo_csm regs apt ids) 3) = regs"
proof -
  let ?r = "with_rec 3 (zero_rec\<lparr>rec_g_rec := Some 3, rec_regs := regs, rec_realm_info := (rec_realm_info zero_rec)\<lparr>ri_g_rd := Some 2\<rparr>\<rparr>) demo_realm"
  let ?s = "demo_csm regs apt ids"
  have "realm_inv ?r" by (rule with_rec_inv(1) [OF demo_realm_inv]) (simp add: demo_realm_fields demo_desc_fields granule_states)
  then have idle: "idle ?r" by (rule realm_invD)
  note id = idleD [OF idle]
  have f: "arm_dram ?s = fvp_layout" "slots ?s = no_slots" "h \<noteq> 8 \<Longrightarrow> granules ?s h = granules ?r h" "h \<noteq> 8 \<Longrightarrow> h \<noteq> 2 \<Longrightarrow> mem ?s h = mem ?r h"
    "apt_pa (d_rd (mem ?s 2)) = 0x80008000" "words (mem ?s 2) = words (mem ?r 2)" "mem ?s 8 = zero_data\<lparr>d_apt := apt\<rparr>" for h
    by (simp_all add: demo_csm_def Let_def with_ids_def)
  have g8: "STATE (granules ?s 8) = GRANULE_STATE_APT" "REFCOUNT (granules ?s 8) = 0" "\<not> LOCKED (granules ?s 8)"
    by (simp_all add: demo_csm_def Let_def with_ids_def STATE_def REFCOUNT_def LOCKED_def GRN_LOCK_BIT_def REFCOUNT_MASK_def
      STATE_MASK_def MASK_def mask_eq_decr_exp granule_states)
  have g2: "STATE (granules ?s 2) = GRANULE_STATE_RD" using f(3) [of 2] by (simp add: demo_realm_fields demo_desc_fields granule_states)
  have "idle ?s"
  proof (rule idle_change [OF idle])
    fix h
    show "\<not> LOCKED (granules ?s h)" using id(2) [of h] f(3) [of h] g8 by (cases "h = 8") simp_all
    show "length (words (mem ?s h)) = 512" using id(6) [of h] f(4) [of h] f(6,7) by (cases "h = 8"; cases "h = 2") (simp_all add: zero_data_def)
    show "REFCOUNT (granules ?s h) = REFCOUNT (granules ?r h) \<and> STATE (granules ?s h) = STATE (granules ?r h) \<or> granule_inv (granules ?s h)"
      using f(3) [of h] g8 by (cases "h = 8") (simp_all add: granule_unlocked_invariants_def granule_states)
    show "STATE (granules ?s h) = GRANULE_STATE_DELEGATED \<Longrightarrow> STATE (granules ?r h) = GRANULE_STATE_DELEGATED \<and> mem ?s h = mem ?r h \<or> mem ?s h = zero_data"
      using f(3) [of h] f(4) [of h] g8(1) g2 by (cases "h = 8"; cases "h = 2") (simp_all add: granule_states)
  qed (simp_all add: f demo_realm_fields)
  then show "csm_caller ?s 3 0x80002000 2 8"
    using f(4) [of 3] g2 g8(1) by (simp add: csm_caller_def granule_in_def f(1,5) demo_granule_addr demo_far_granule)
  show "d_apt (mem ?s 8) = apt" "csm_region_ids ?s = ids" "rec_regs (rec_at ?s 3) = regs" using f(4) [of 3] f(7) by (simp_all add: demo_csm_def Let_def with_ids_def)
qed

definition demo_result :: rsi_result where
  "demo_result = \<lparr>rsi_action = 0, rsi_rtt_level = 0, rsi_smc_res = (\<lambda>_. 0)\<rparr>"

lemma demo_csm_empty: "registered rd_pa zero_apt csm_ids_boot" "creatable (demo_csm regs zero_apt csm_ids_boot) 8 0x1000 0x2000"
proof -
  have o: "owned zero_apt = Map.empty" by (simp add: owned_def used_iff zero_apt_def mask_set_def fun_eq_iff)
  then show "registered rd_pa zero_apt csm_ids_boot" by (simp add: registered_def)
  have "\<not> apt_slave_enabled zero_apt i" for i by (simp add: apt_slave_enabled_def zero_apt_def)
  moreover have "\<not> ce_in_use (g_csm_region_ids csm_ids_boot ! 0)" by (simp add: csm_ids_boot_def)
  moreover have "\<not> csm_bad_range 0x1000 0x2000" by (simp add: csm_bad_range_def GRANULE_ALIGNED_def GRANULE_SIZE_def)
  moreover have "(0 :: nat) \<in> {..<20}" by simp
  then have "dom (owned zero_apt) \<noteq> {..<20}" using o by (metis dom_empty empty_iff)
  ultimately show "creatable (demo_csm regs zero_apt csm_ids_boot) 8 0x1000 0x2000"
    unfolding creatable_def demo_csm_caller(2,3) by (auto intro!: exI [of _ 0])
qed

theorem csm_create_correct_witness:
  "\<exists>ex' res' s' i r. handle_rsi_csm_create 3 zero_rec_exit demo_result (in_call 3 (demo_csm [0, 0, 0x1000, 0x2000] zero_apt csm_ids_boot)) =
      Inr ((ex', res'), in_call 3 s') \<and> rsi_smc_res res' 0 = RSI_SUCCESS \<and> owned (d_apt (mem s' 8)) i = Some (new_master r 0x1000 0x2000)"
  using csm_create_correct [OF demo_csm_caller(1) _ _ _ _, of "[0, 0, 0x1000, 0x2000]" zero_apt csm_ids_boot "0x1000" "0x2000" zero_rec_exit demo_result] demo_csm_empty
  by (simp add: demo_csm_caller(2-4) wf_zero_apt wf_csm_ids_boot) (metis fun_upd_same)

text \<open>The table and the registry after the creation of a region.\<close>

definition demo_apt :: apt where
  "demo_apt = snd (apt_add_master zero_apt 1 0x1000 0x2000 True)"

definition demo_ids :: csm_id_state where
  "demo_ids = snd (csm_region_id_assign 0x80002000 csm_ids_boot)"

lemma demo_shared:
  "wf_apt demo_apt" "wf_csm_ids demo_ids" "owned demo_apt = [0 \<mapsto> new_master 1 0x1000 0x2000]" "csm_live demo_ids = {(0x80002000, 1)}"
  "registered 0x80002000 demo_apt demo_ids"
proof -
  have o: "owned zero_apt = Map.empty" by (simp add: owned_def used_iff zero_apt_def mask_set_def fun_eq_iff)
  have z: "master_used_mask zero_apt = 0" by (simp add: zero_apt_def)
  have "first_free_from_mask 0 = Some 0" by (simp add: first_free_from_mask_def upt_rec)
  then have am: "apt_add_master zero_apt 1 0x1000 0x2000 True = (Some 0, demo_apt)" unfolding demo_apt_def by (simp add: apt_add_master_def z Let_def)
  show "wf_apt demo_apt" and ow: "owned demo_apt = [0 \<mapsto> new_master 1 0x1000 0x2000]"
    using add_master_owned [OF wf_zero_apt, of 1 "0x1000" "0x2000"] am o by simp_all
  have id: "fst (csm_region_id_assign 0x80002000 csm_ids_boot) = Some 1" by code_simp
  note reg = csm_region_id_assign_complete_parts [OF wf_csm_ids_boot, of "0x80002000"]
  show "wf_csm_ids demo_ids" unfolding demo_ids_def by (rule reg(2))
  have "csm_live csm_ids_boot = {}" by (simp add: csm_live_def csm_ids_boot_def)
  then show l: "csm_live demo_ids = {(0x80002000, 1)}" using reg(3) [OF id] unfolding demo_ids_def by simp
  show "registered 0x80002000 demo_apt demo_ids" unfolding registered_def ow l by (auto simp: new_master_def split: if_splits)
qed

theorem csm_destroy_correct_witness:
  "\<exists>ex' res' s'. handle_rsi_csm_destroy 3 zero_rec_exit demo_result (in_call 3 (demo_csm [0, 1] demo_apt demo_ids)) = Inr ((ex', res'), in_call 3 s') \<and>
    rsi_smc_res res' 0 = RSI_SUCCESS \<and> csm_live (csm_region_ids s') = {}"
proof -
  let ?s = "demo_csm [0, 1] demo_apt demo_ids"
  have r: "1 = OWNER_TAG_DECODE (rec_regs (rec_at ?s 3) ! 1)" by (simp add: demo_csm_caller(4) OWNER_TAG_DECODE_def)
  have m: "owned_region demo_apt 1 0 (new_master 1 0x1000 0x2000)" "\<not> is_shared (new_master 1 0x1000 0x2000)"
    by (simp_all add: owned_region_def demo_shared(3) new_master_def is_shared_def zero_share_def)
  have ex: "\<exists>i m. owned_region (d_apt (mem ?s 8)) 1 i m \<and> \<not> is_shared m" unfolding demo_csm_caller(2) using m by blast
  have e: "{p \<in> csm_live demo_ids. snd p \<noteq> 1} = {}" by (simp add: demo_shared(4))
  note d = csm_destroy_correct [OF demo_csm_caller(1), of "[0, 1]" demo_apt demo_ids 1 zero_rec_exit demo_result, unfolded demo_csm_caller(2,3) if_P [OF ex [unfolded demo_csm_caller(2)]] e,
      OF demo_shared(1,2) r demo_shared(5)]
  show ?thesis using d by blast
qed


end
