(* ===== verification/Psci_Call.thy ===== *)
theory Psci_Call
  imports System_Request
begin

text \<open>
  The power management calls of a realm are runs of it: \<^verbatim>\<open>handle_psci\<close> returns, changes only the execution context and the state of
  life of the calling realm, and shows the host no more than the arguments of the call.
\<close>

text \<open>What a call may change of the execution context, and of the descriptor of its realm.\<close>

definition psci_ran :: "nat \<Rightarrow> nat \<Rightarrow> rmm \<Rightarrow> rmm \<Rightarrow> bool" where
  "psci_ran g_rec g s s' \<longleftrightarrow> s' = s \<or>
    s' = set_rec g_rec ((rec_at s g_rec)\<lparr>rec_runnable := False\<rparr>) s \<or>
    s' = set_rec g_rec ((rec_at s g_rec)\<lparr>rec_psci_pending := True\<rparr>) s \<or>
    s' = upd_mem g (\<lambda>d. d\<lparr>d_rd := (d_rd (mem s g))\<lparr>rd_state := REALM_SYSTEM_OFF\<rparr>\<rparr>) s"

lemma psci_ran_realm_ran:
  assumes p: "psci_ran g_rec g s s'" and r: "is_rec s g_rec" "rec_rd s g_rec = Some g" "is_realm s g"
  shows "realm_ran g s s'"
proof -
  have same: "same_rec (rec_at s g_rec) ((rec_at s g_rec)\<lparr>rec_runnable := False\<rparr>)" "same_rec (rec_at s g_rec) ((rec_at s g_rec)\<lparr>rec_psci_pending := True\<rparr>)"
    by (simp_all add: same_rec_def)
  have rec: "realm_ran g s (set_rec g_rec x s)" if "same_rec (rec_at s g_rec) x" for x
    using r that by (auto simp: realm_ran_def ran_mem_def set_rec_def upd_mem_def)
  have "realm_ran g s (upd_mem g (\<lambda>d. d\<lparr>d_rd := (d_rd (mem s g))\<lparr>rd_state := REALM_SYSTEM_OFF\<rparr>\<rparr>) s)"
    using r(3) unfolding realm_ran_def ran_mem_def upd_mem_def
    by (auto intro!: exI [of _ "measurement (d_rd (mem s g))"] exI [of _ REALM_SYSTEM_OFF])
  moreover have "realm_ran g s s" by (simp add: realm_ran_def ran_mem_def)
  ultimately show ?thesis using p rec [OF same(1)] rec [OF same(2)] unfolding psci_ran_def by blast
qed

lemma psci_steps:
  assumes idle: "idle s" and g: "is_realm s g"
  shows "rd_map_read_rec_count (Some g) (in_call r s) = Inr (rec_count (d_rd (mem s g)), in_call r s)"
    "ri_g_rd (rec_realm_info x) = Some g \<Longrightarrow> system_off_reboot x (in_call r s) =
      Inr ((), in_call r (upd_mem g (\<lambda>d. d\<lparr>d_rd := (d_rd (mem s g))\<lparr>rd_state := REALM_SYSTEM_OFF\<rparr>\<rparr>) s))"
proof -
  note id = idleD [OF idle]
  have v: "valid_g (arm_dram s) g" "STATE (granules s g) = GRANULE_STATE_RD" using g by (simp_all add: is_realm_def)
  have i: "granule_unlocked_invariants (granules s g) GRANULE_STATE_RD" using id(5) [of g] v(2) by simp
  show "rd_map_read_rec_count (Some g) (in_call r s) = Inr (rec_count (d_rd (mem s g)), in_call r s)"
    using v id(3) by (simp add: rd_map_read_rec_count_def run_simps held_simps slot_numbers is_realm_slot_def)
  show "system_off_reboot x (in_call r s) = Inr ((), in_call r (upd_mem g (\<lambda>d. d\<lparr>d_rd := (d_rd (mem s g))\<lparr>rd_state := REALM_SYSTEM_OFF\<rparr>\<rparr>) s))"
    if "ri_g_rd (rec_realm_info x) = Some g"
    using v i id(2,3) that by (simp add: system_off_reboot_def run_simps held_simps slot_numbers is_realm_slot_def idle_lockable [OF idle])
qed

text \<open>
  The outcome of a call. Either it goes back to the realm, and nothing has changed, or it is forwarded: the host sees the reason and
  at most the first two argument registers. A request becomes pending only for another execution context of the realm.
\<close>

definition forwarded :: "rec_data \<Rightarrow> rmi_rec_exit \<Rightarrow> rmi_rec_exit \<Rightarrow> bool" where
  "forwarded rec ex ex' \<longleftrightarrow> (\<exists>cnt \<le> 2. ex' = ex\<lparr>ex_gprs := take cnt (rec_regs rec) @ replicate (REC_EXIT_NR_GPRS - cnt) 0\<rparr>)"

definition psci_done :: "nat \<Rightarrow> nat \<Rightarrow> rmm \<Rightarrow> rmi_rec_exit \<Rightarrow> rmi_rec_exit \<Rightarrow> rsi_result \<Rightarrow> rmm \<Rightarrow> bool" where
  "psci_done g_rec g s ex ex' res' s' \<longleftrightarrow> psci_ran g_rec g s s' \<and>
    (if rsi_action res' AND FLAG_EXIT_TO_HOST = 0 then ex' = ex \<and> s' = s else forwarded (rec_at s g_rec) ex ex') \<and>
    (rec_psci_pending (rec_at s' g_rec) \<longrightarrow> rec_psci_pending (rec_at s g_rec) \<or>
      mpidr_to_rec_idx (rec_regs (rec_at s g_rec) ! 1) < rec_count (d_rd (mem s g)) \<and>
      mpidr_to_rec_idx (rec_regs (rec_at s g_rec) ! 1) \<noteq> rec_idx (rec_at s g_rec))"

definition psci_returns :: "nat \<Rightarrow> nat \<Rightarrow> rmm \<Rightarrow> rmi_rec_exit \<Rightarrow> (rmm, rmi_rec_exit \<times> rsi_result) M \<Rightarrow> bool" where
  "psci_returns g_rec g s ex m \<longleftrightarrow> (\<exists>ex' res' s'. m (in_call g_rec s) = Inr ((ex', res'), in_call g_rec s') \<and> psci_done g_rec g s ex ex' res' s')"

lemma psci_returnsI: "m (in_call g_rec s) = Inr ((ex', res'), in_call g_rec s') \<Longrightarrow> psci_done g_rec g s ex ex' res' s' \<Longrightarrow> psci_returns g_rec g s ex m"
  by (auto simp: psci_returns_def)

lemma forward_run:
  "cnt \<le> 4 \<Longrightarrow> forward_args_to_host cnt rec ex s = Inr (ex\<lparr>ex_gprs := take cnt (rec_regs rec) @ replicate (REC_EXIT_NR_GPRS - cnt) 0\<rparr>, s)"
  by (simp add: forward_args_to_host_def run_simps)

lemma action_flags [simp]: "rsi_action (set_x i v res) = rsi_action res" "rsi_action (set_action x res) = x"
  by (simp_all add: set_x_def set_action_def)

lemma actions: "UPDATE_REC_RETURN_TO_REALM AND FLAG_EXIT_TO_HOST = 0" "UPDATE_REC_EXIT_TO_HOST AND FLAG_EXIT_TO_HOST \<noteq> 0" "EXIT_TO_HOST AND FLAG_EXIT_TO_HOST \<noteq> 0"
  by (simp_all add: UPDATE_REC_RETURN_TO_REALM_def UPDATE_REC_EXIT_TO_HOST_def EXIT_TO_HOST_def FLAG_UPDATE_REC_def FLAG_EXIT_TO_HOST_def)

lemma done_return: "rsi_action res' = UPDATE_REC_RETURN_TO_REALM \<Longrightarrow> psci_done g_rec g s ex ex res' s"
  by (simp add: psci_done_def psci_ran_def actions)

lemma done_forward:
  assumes "cnt \<le> 2" "rsi_action res' AND FLAG_EXIT_TO_HOST \<noteq> 0" "psci_ran g_rec g s s'"
    "rec_psci_pending (rec_at s' g_rec) \<Longrightarrow> \<not> rec_psci_pending (rec_at s g_rec) \<Longrightarrow>
      mpidr_to_rec_idx (rec_regs (rec_at s g_rec) ! 1) < rec_count (d_rd (mem s g)) \<and> mpidr_to_rec_idx (rec_regs (rec_at s g_rec) ! 1) \<noteq> rec_idx (rec_at s g_rec)"
  shows "psci_done g_rec g s ex (ex\<lparr>ex_gprs := take cnt (rec_regs (rec_at s g_rec)) @ replicate (REC_EXIT_NR_GPRS - cnt) 0\<rparr>) res' s'"
  using assms by (auto simp: psci_done_def forwarded_def)

lemma psci_ran_cases:
  "psci_ran g_rec g s s" "psci_ran g_rec g s (set_rec g_rec ((rec_at s g_rec)\<lparr>rec_runnable := False\<rparr>) s)"
  "psci_ran g_rec g s (set_rec g_rec ((rec_at s g_rec)\<lparr>rec_psci_pending := True\<rparr>) s)"
  "psci_ran g_rec g s (upd_mem g (\<lambda>d. d\<lparr>d_rd := (d_rd (mem s g))\<lparr>rd_state := REALM_SYSTEM_OFF\<rparr>\<rparr>) s)"
  by (simp_all add: psci_ran_def)

lemma set_rec_at [simp]: "rec_at (set_rec r x s) r = x"
  by (simp add: set_rec_def upd_mem_def)

lemma write_rec_in_call: "write_rec r x (held L M s) = Inr ((), held L M (set_rec r x s))"
  by (simp add: held_simps set_rec_def)

lemma psci_cpu_calls_return:
  shows "psci_returns g_rec g s ex (psci_cpu_suspend g_rec ex res)" "psci_returns g_rec g s ex (psci_cpu_off g_rec ex res)"
proof -
  show "psci_returns g_rec g s ex (psci_cpu_suspend g_rec ex res)"
    by (rule psci_returnsI) (simp add: psci_cpu_suspend_def run_simps read_held forward_run, rule done_forward, simp_all add: actions psci_ran_cases)
  show "psci_returns g_rec g s ex (psci_cpu_off g_rec ex res)"
    by (rule psci_returnsI) (simp add: psci_cpu_off_def run_simps read_held write_rec_in_call forward_run, rule done_forward, simp_all add: actions psci_ran_cases)
qed

lemma psci_other_calls_return:
  assumes "idle s" "is_realm s g" "rec_rd s g_rec = Some g"
  shows "psci_returns g_rec g s ex (psci_cpu_on g_rec ex res)" "psci_returns g_rec g s ex (psci_affinity_info g_rec ex res)"
    "psci_returns g_rec g s ex (psci_system_off_reset g_rec ex res)"
proof -
  note st = psci_steps [OF assms(1,2)]
  note run = run_simps read_held write_rec_in_call forward_run st assms(3) Let_def
  have pend: "psci_done g_rec g s ex (ex\<lparr>ex_gprs := take 2 (rec_regs (rec_at s g_rec)) @ replicate (REC_EXIT_NR_GPRS - 2) 0\<rparr>) (set_action EXIT_TO_HOST res')
      (set_rec g_rec ((rec_at s g_rec)\<lparr>rec_psci_pending := True\<rparr>) s)"
    if "mpidr_to_rec_idx (rec_regs (rec_at s g_rec) ! 1) < rec_count (d_rd (mem s g))" "mpidr_to_rec_idx (rec_regs (rec_at s g_rec) ! 1) \<noteq> rec_idx (rec_at s g_rec)" for res'
    by (rule done_forward) (use that in \<open>simp_all add: actions psci_ran_cases\<close>)
  have ret: "psci_done g_rec g s ex ex (set_x i v (set_action UPDATE_REC_RETURN_TO_REALM res')) s" for i v res' by (rule done_return) simp
  show "psci_returns g_rec g s ex (psci_cpu_on g_rec ex res)"
    using pend ret unfolding psci_returns_def by (auto simp: psci_cpu_on_def run not_le)
  show "psci_returns g_rec g s ex (psci_affinity_info g_rec ex res)"
    using pend ret unfolding psci_returns_def by (auto simp: psci_affinity_info_def run not_le)
  show "psci_returns g_rec g s ex (psci_system_off_reset g_rec ex res)"
  proof (rule psci_returnsI)
    show "psci_system_off_reset g_rec ex res (in_call g_rec s) =
      Inr ((ex\<lparr>ex_gprs := take 1 (rec_regs (rec_at s g_rec)) @ replicate (REC_EXIT_NR_GPRS - 1) 0\<rparr>, set_action EXIT_TO_HOST res),
        in_call g_rec (upd_mem g (\<lambda>d. d\<lparr>d_rd := (d_rd (mem s g))\<lparr>rd_state := REALM_SYSTEM_OFF\<rparr>\<rparr>) s))"
      by (simp add: psci_system_off_reset_def run)
  next
    let ?s' = "upd_mem g (\<lambda>d. d\<lparr>d_rd := (d_rd (mem s g))\<lparr>rd_state := REALM_SYSTEM_OFF\<rparr>\<rparr>) s"
    have "rec_at ?s' g_rec = rec_at s g_rec" by (simp add: upd_mem_def)
    then show "psci_done g_rec g s ex (ex\<lparr>ex_gprs := take 1 (rec_regs (rec_at s g_rec)) @ replicate (REC_EXIT_NR_GPRS - 1) 0\<rparr>) (set_action EXIT_TO_HOST res) ?s'"
      by (intro done_forward psci_ran_cases) (simp_all add: actions)
  qed
qed

lemma handle_psci_returns:
  assumes "idle s" "is_realm s g" "rec_rd s g_rec = Some g"
  shows "\<exists>ex' res' s'. handle_psci g_rec ex res (in_call g_rec s) = Inr ((ex', res'), in_call g_rec s') \<and>
    (\<exists>ex1. psci_done g_rec g s ex ex1 res' s' \<and> ex' = (if rsi_action res' AND FLAG_EXIT_TO_HOST \<noteq> 0 then ex1\<lparr>ex_exit_reason := RMI_EXIT_PSCI\<rparr> else ex1))"
proof -
  let ?f = "ucast (rec_regs (rec_at s g_rec) ! 0) :: u32"
  let ?m = "if ?f = SMC32_PSCI_VERSION then returnM (ex, psci_version res)
        else if ?f = SMC32_PSCI_CPU_SUSPEND \<or> ?f = SMC64_PSCI_CPU_SUSPEND then psci_cpu_suspend g_rec ex res
        else if ?f = SMC32_PSCI_CPU_OFF then psci_cpu_off g_rec ex res
        else if ?f = SMC32_PSCI_CPU_ON \<or> ?f = SMC64_PSCI_CPU_ON then psci_cpu_on g_rec ex res
        else if ?f = SMC32_PSCI_AFFINITY_INFO \<or> ?f = SMC64_PSCI_AFFINITY_INFO then psci_affinity_info g_rec ex res
        else if ?f = SMC32_PSCI_SYSTEM_OFF \<or> ?f = SMC32_PSCI_SYSTEM_RESET then psci_system_off_reset g_rec ex res
        else if ?f = SMC32_PSCI_FEATURES then returnM (ex, psci_features (rec_at s g_rec) res)
        else returnM (ex, set_x 0 PSCI_RETURN_NOT_SUPPORTED (set_action UPDATE_REC_RETURN_TO_REALM res))"
  have ret: "psci_returns g_rec g s ex (returnM (ex, r))" if "rsi_action r = UPDATE_REC_RETURN_TO_REALM" for r
    by (rule psci_returnsI [OF _ done_return [OF that]]) (simp add: run_simps)
  have a: "rsi_action (psci_version res) = UPDATE_REC_RETURN_TO_REALM" "rsi_action (psci_features (rec_at s g_rec) res) = UPDATE_REC_RETURN_TO_REALM"
    by (simp_all add: psci_version_def psci_features_def Let_def)
  have "psci_returns g_rec g s ex ?m"
    by (simp only: if_split psci_cpu_calls_return psci_other_calls_return [OF assms] ret a action_flags simp_thms)
  then obtain ex1 res' s' where m: "?m (in_call g_rec s) = Inr ((ex1, res'), in_call g_rec s')" "psci_done g_rec g s ex ex1 res' s'"
    unfolding psci_returns_def by blast
  have "handle_psci g_rec ex res (in_call g_rec s) =
    Inr ((if rsi_action res' AND FLAG_EXIT_TO_HOST \<noteq> 0 then ex1\<lparr>ex_exit_reason := RMI_EXIT_PSCI\<rparr> else ex1, res'), in_call g_rec s')"
    unfolding handle_psci_def Let_def run_bindM read_held sum.case fst_conv snd_conv m(1) by (simp add: run_simps)
  then show ?thesis using m(2) by blast
qed

text \<open>
  C15. A power management call of a realm is confined to it. \<^verbatim>\<open>handle_psci\<close> always returns, with the locks and buffer slots that it found, and
  it is a step of the calling realm: only the execution context that calls and the state of life of its realm
  change. When the call goes back to the realm nothing has changed, and nothing is told to the host; otherwise the host sees the reason and at
  most the first two argument registers, with zeroes for all others. A request becomes pending only for another execution context
  that the realm may have.
\<close>

theorem psci_call_confined:
  assumes "idle s" and "is_realm s g" and "is_rec s g_rec" and "rec_rd s g_rec = Some g"
  shows "\<exists>ex' res' s'. handle_psci g_rec ex res (in_call g_rec s) = Inr ((ex', res'), in_call g_rec s') \<and> realm_ran g s s' \<and>
    (if rsi_action res' AND FLAG_EXIT_TO_HOST = 0 then ex' = ex \<and> s' = s
     else \<exists>cnt \<le> 2. ex' = ex\<lparr>ex_gprs := take cnt (rec_regs (rec_at s g_rec)) @ replicate (REC_EXIT_NR_GPRS - cnt) 0,
       ex_exit_reason := RMI_EXIT_PSCI\<rparr>) \<and>
    (rec_psci_pending (rec_at s' g_rec) \<and> \<not> rec_psci_pending (rec_at s g_rec) \<longrightarrow>
      mpidr_to_rec_idx (rec_regs (rec_at s g_rec) ! 1) < rec_count (d_rd (mem s g)) \<and>
      mpidr_to_rec_idx (rec_regs (rec_at s g_rec) ! 1) \<noteq> rec_idx (rec_at s g_rec))"
proof -
  obtain ex' res' s' ex1 where h: "handle_psci g_rec ex res (in_call g_rec s) = Inr ((ex', res'), in_call g_rec s')" "psci_done g_rec g s ex ex1 res' s'"
    "ex' = (if rsi_action res' AND FLAG_EXIT_TO_HOST \<noteq> 0 then ex1\<lparr>ex_exit_reason := RMI_EXIT_PSCI\<rparr> else ex1)"
    using handle_psci_returns [OF assms(1,2,4), of ex res] by blast
  have "psci_ran g_rec g s s'" using h(2) by (simp add: psci_done_def)
  then have "realm_ran g s s'" by (rule psci_ran_realm_ran [OF _ assms(3,4,2)])
  moreover have "if rsi_action res' AND FLAG_EXIT_TO_HOST = 0 then ex' = ex \<and> s' = s
     else \<exists>cnt \<le> 2. ex' = ex\<lparr>ex_gprs := take cnt (rec_regs (rec_at s g_rec)) @ replicate (REC_EXIT_NR_GPRS - cnt) 0, ex_exit_reason := RMI_EXIT_PSCI\<rparr>"
    using h(2,3) by (auto simp: psci_done_def forwarded_def)
  ultimately show ?thesis using h(1,2) unfolding psci_done_def by blast
qed

theorem psci_call_confined_witness:
  "\<exists>ex' res' s'. handle_psci 3 zero_rec_exit \<lparr>rsi_action = 0, rsi_rtt_level = 0, rsi_smc_res = (\<lambda>_. 0)\<rparr> (in_call 3 demo_pair) =
      Inr ((ex', res'), in_call 3 s') \<and> realm_ran 2 demo_pair s'"
proof -
  note f = demo_pair_def demo_realm_fields demo_desc_fields granule_states
  have v: "valid_g fvp_layout 2" "valid_g fvp_layout 3" using demo_granule_addr(2) demo_ns_granule by blast+
  have r: "is_realm demo_pair 2" "is_rec demo_pair 3" "rec_rd demo_pair 3 = Some 2" using v by (simp_all add: is_realm_def is_rec_def f)
  show ?thesis using psci_call_confined [OF realm_invD(1) [OF demo_pair_fields(1)] r] by blast
qed

end
