(* ===== verification/Spec2Isabelle.thy ===== *)
theory Spec2Isabelle
  imports Ns_Level Reach Csm_Correct Psci_Call
begin

text \<open>
  A verification development of the Realm Management Monitor (RMM) with confidential shared memory.

  \<^bold>\<open>The program.\<close> The RMM runs at R-EL2 between the host hypervisor and the realms. The host delegates 4KB
  granules of memory to it and asks it, through the RMI commands, to create realms, to build their stage 2
  translation tables, and to create and enter their execution contexts; the RMM must keep the memory of a realm apart from the host and
  from the other realms. A realm that runs calls the RMM through the RSI and PSCI calls and by its exceptions. The
  fork in this repository lets realms share memory regions: a realm has an access permission table (APT) that lists
  the regions that it owns (master) and that it borrows (slave).

  \<^bold>\<open>Components and theories\<close> (paths under \<^verbatim>\<open>src/\<close>).
  \<^item> \<open>Prelude\<close>: machine words, the bit field macros of \<^verbatim>\<open>lib/common/include/utils_def.h\<close>, and the state and fault monad
    \<open>('s, 'a) M\<close>: a result with a new state, or a \<open>fault\<close> (failed assertion, panic, spinning on a lock that
    the same processor holds, or an access out of the bounds of an array).
  \<^item> \<open>Dram\<close>: the granule array of \<^verbatim>\<open>plat/arm\<close>, the searches between addresses and granule numbers and the validation
    of the boot manifest.
  \<^item> \<open>Granule\<close>: \<^verbatim>\<open>lib/granule\<close>: descriptors (lock bit, state, reference count), their operations, and the locking of
    sets of granules in address order.
  \<^item> \<open>Vmid\<close>, \<open>Registry\<close>, \<open>Apt\<close>: the VMID bitmap, the registries of realm tags and of shared region identifiers, and
    the access permission table (\<^verbatim>\<open>lib/arch/src/vmid.c\<close>, \<^verbatim>\<open>runtime/core/realm_tag.c\<close>, \<^verbatim>\<open>csm_id.c\<close>, \<^verbatim>\<open>apt_helpers.c\<close>).
  \<^item> \<open>S2tte\<close>, \<open>S2tt_Table\<close>: \<^verbatim>\<open>lib/s2tt\<close>: encoding and classification of stage 2 entries, filling and folding checks of tables.
  \<^item> \<open>Rmm_State\<close>, \<open>Held\<close>, \<open>Frame\<close>: the state \<open>rmm\<close> that the handlers share: granules, the contents of granules, buffer slots,
    allocators and a log of TLB invalidations; the rules that run a handler on it, and those for the parts that a handler leaves alone.
  \<^item> \<open>Measurement\<close>: the realm initial measurement (\<^verbatim>\<open>lib/measurement\<close>).
  \<^item> \<open>Rtt_Walk\<close>, \<open>Realm_Ipa\<close>: the hand-over-hand table walk and the address translation helpers.
  \<^item> \<open>Rmi_Granule\<close>, \<open>Rmi_Realm\<close>, \<open>Rmi_Rtt\<close>, \<open>Rmi_Data\<close>, \<open>Arch\<close>, \<open>Rmi_Rec\<close>: the RMI commands of \<^verbatim>\<open>runtime/rmi\<close>, one definition
    per handler, and the register fields that they initialise.
  \<^item> \<open>Gic\<close>, \<open>Psci\<close>, \<open>Rsi\<close>, \<open>Csm\<close>: the interrupt controller state (\<^verbatim>\<open>lib/gic\<close>), the power management and the other calls of
    realms (\<^verbatim>\<open>runtime/rsi\<close>), and the calls on shared memory (\<^verbatim>\<open>runtime/rsi/shared_memory.c\<close>, \<^verbatim>\<open>runtime/rmi/apt.c\<close>).
  \<^item> \<open>Exit\<close>, \<open>Rec_Enter\<close>, \<open>Handler\<close>: the handling of exceptions of realms, injected aborts and trapped registers
    (\<^verbatim>\<open>runtime/core/exit.c\<close>, \<^verbatim>\<open>inject_exp.c\<close>, \<^verbatim>\<open>sysregs.c\<close>), RMI\_REC\_ENTER with its run loop, timers and the switch of registers
    (\<^verbatim>\<open>runtime/rmi/run.c\<close>, \<^verbatim>\<open>runtime/core/run.c\<close>, \<^verbatim>\<open>timers.c\<close>), and the dispatch of the calls of the host
    (\<^verbatim>\<open>runtime/core/handler.c\<close>). Their state \<open>sys\<close> is an \<open>rmm\<close> with the registers \<open>pe\<close> of the processor.
  \<^item> \<open>Realm_Tables\<close>, \<open>Realm_Inv\<close>, \<open>Table_Change\<close>, \<open>Realm_Change\<close>: the translation tables of all realms as disjoint trees, and the
    isolation invariant \<open>realm_inv\<close>: tables are RTT granules that belong to one place of one tree, reference counts are exact, and
    every mapped page is a DATA granule mapped at one page of one realm. \<open>vmid_inv\<close> (in \<open>Realm_Create\<close>) and \<open>rec_inv\<close> (in \<open>Rec_Inv\<close>) are
    the invariants of VMIDs and of execution contexts.
  \<^item> \<open>Handler_Lib\<close>, \<open>Data_Inv\<close>, \<open>Data_Destroy\<close>, \<open>Data_Correct\<close>, \<open>Rtt_Remove\<close>, \<open>Rtt_Destroy\<close>, \<open>Rtt_Fold\<close>, \<open>Rtt_Create\<close>,
    \<open>Rtt_Ns\<close>, \<open>Ns_Level\<close>, \<open>Ripas\<close>, \<open>Ripas_Init\<close>, \<open>Rd_Lock\<close>, \<open>Realm_Params\<close>, \<open>Realm_Init\<close>, \<open>Realm_Create\<close>, \<open>Realm_Destroy\<close>, \<open>Rec_Aux\<close>,
    \<open>Rec_Build\<close>, \<open>Rec_Create\<close>, \<open>Rec_Correct\<close>, \<open>Rec_Destroy\<close>, \<open>Ripas_Set\<close>, \<open>Psci_Correct\<close>: the correctness of the commands: but for the named
    assertions they never fault, they succeed exactly under the stated conditions, have exactly the stated effect on what realms map, and keep the invariants. \<open>Realm_Demo\<close> is a concrete state that
    satisfies the invariant, on which the witnesses run the commands.
  \<^item> \<open>Csm_Correct\<close>: the calls that create and destroy shared regions as operations on a partial map of owned regions, with
    the agreement of the table of a realm and the registry of region identifiers.
  \<^item> \<open>System\<close>, \<open>System_Realm\<close>, \<open>System_Request\<close>, \<open>Reach\<close>: the invariant \<open>sys_ok\<close> of the whole state, that every managing command
    and every run of a realm keeps it, and the transition system of the calls of the host and the runs of realms, with what holds in
    every state that is reached from boot. \<open>Psci_Call\<close> shows that the power management calls of a realm are runs of it.

  \<^bold>\<open>Interfaces.\<close> The locales \<open>granule_map\<close> (addresses and granule numbers), \<open>vmid_pool\<close>, \<open>id_registry\<close> (tags and
  region identifiers) and \<open>packed_set\<close> (the enabled regions of the APT) state what a component promises to its
  clients; each is interpreted on the model's definitions.

  \<^bold>\<open>What is shown.\<close> The commands on granules, realms, tables, data and execution contexts are proved correct one by one, and
  together: no sequence of them and of runs of realms leads to a state in which two realms, or a realm and the host, share memory that was not
  handed over, and each of them returns but for four assertions that the host, or a realm and the host together, can make
  fail. A run of a realm is the step \<open>realm_ran\<close>: the realm writes its pages, and its execution contexts, measurements and state of
  life change; this stands for RMI\_REC\_ENTER. Of the calls that its loop handles, the power management calls are proved to be such
  steps, the other ones are not. The commands on access permission tables are
  modelled and are not steps of the transition system. The properties of single components are round trips of the
  encodings, exactness of searches, refinement of sets by bitmaps and of maps by tables, and that bounded retries find a free identifier.

  \<^bold>\<open>Bounds.\<close> Machine integers have the width of the source. Loops are recursive functions on the number of
  iterations that the code bounds them by; the retry loops of the registries have the bound of the source, which is proved to be
  enough. Fuel is used for one loop only, that of RMI\_REC\_ENTER, which runs for as long as the realm makes
  calls that the RMM answers itself: \<open>run_loop\<close> gives nothing when its bound is reached, and no theorem rests on a bound.

  \<^bold>\<open>Parameters.\<close> The hash function, the content of non-secure memory, the answers of EL3, the identification
  registers of the processor, the run of a realm and the creation of attestation tokens are arguments of the definitions that use them.

  \<^bold>\<open>Concurrency.\<close> A handler is run to its end on one processor; a lock that is held by another
  processor makes it wait, which is not modelled: taking a lock that is held is the fault \<open>Spin\<close>.

  \<^bold>\<open>Not modelled.\<close> The PMU and the contents of the vector registers and of the pointer authentication keys (assembly), attestation
  tokens (third-party cryptography), the variants under \<^verbatim>\<open>ENABLE_OPENCCA\<close>, the RMM's own stage 1 tables, the heap, console output, start-up,
  platforms and drivers.
\<close>

end
